(* ===== verification/Go_Prelude.thy ===== *)
theory Go_Prelude
  imports Main "HOL-Library.Word" "HOL-Library.AList" "HOL-Library.Multiset"
    "HOL-Library.Monad_Syntax" "HOL-Library.Signed_Division"
begin

unbundle bit_operations_syntax

text \<open>
  The vocabulary every component shares.

  Go's fixed-width integers are words: \<open>u64\<close> and \<open>i64\<close> are the same type, since a
  conversion between \<open>uint64\<close> and \<open>int64\<close> keeps the bits; an \<open>i64\<close> is read with
  \<open>sint\<close> wherever the code compares or divides it. A fixed byte array is the word its
  bytes spell in big-endian order (\<open>[20]byte\<close> is \<open>address\<close>, \<open>[32]byte\<close> is
  \<open>bytes32\<close>, \<open>uint256.Int\<close> is \<open>u256\<close>), so that \<open>bytes.Compare\<close> on arrays of
  one length is the unsigned order and \<open>SetBytes32\<close>/\<open>Bytes32\<close> are the identity.
  A slice \<open>[]byte\<close> is a list of bytes.

  A run-time panic (nil dereference, division by zero, index out of range, an explicit
  \<open>panic\<close>) is the value \<open>None\<close> of an option type; the option monad is Go's
  sequencing of statements that may panic.

  A Go map is an association list with distinct keys. Go leaves the order in which
  \<open>range\<close> visits a map open: every loop over a map takes the order as an argument of
  type \<open>iter\<close>, an arbitrary rearrangement of the key list.
\<close>

type_synonym u8 = "8 word"
type_synonym u32 = "32 word"
type_synonym u64 = "64 word"
type_synonym i64 = "64 word"
type_synonym u256 = "256 word"
type_synonym address = "160 word"
type_synonym bytes32 = "256 word"
type_synonym bytes = "8 word list"
type_synonym 'k iter = "'k list \<Rightarrow> 'k list"

named_theorems go_arith \<open>conversions between words and numbers\<close>
named_theorems go_list \<open>facts on slices and maps\<close>

definition is_iter :: "'k iter \<Rightarrow> bool" where
  "is_iter it \<longleftrightarrow> (\<forall>xs. mset (it xs) = mset xs)"

text \<open>Big-endian byte strings, as \<open>encoding/binary\<close> reads and writes them.\<close>

definition be_val :: "bytes \<Rightarrow> 'a::len word" where
  "be_val bs = foldl (\<lambda>acc b. acc * 256 + ucast b) 0 bs"

fun be_bytes :: "nat \<Rightarrow> 'a::len word \<Rightarrow> bytes" where
  "be_bytes 0 w = []"
| "be_bytes (Suc n) w = be_bytes n (drop_bit 8 w) @ [ucast w]"

text \<open>A sub-slice \<open>bs[i:j]\<close>; the callers guard the bounds.\<close>

definition slice :: "nat \<Rightarrow> nat \<Rightarrow> 'a list \<Rightarrow> 'a list" where
  "slice i j xs = take (j - i) (drop i xs)"

text \<open>Signed division truncates towards zero; a zero divisor panics.\<close>

definition sdiv64 :: "i64 \<Rightarrow> i64 \<Rightarrow> i64 option" where
  "sdiv64 a b = (if b = 0 then None else Some (word_of_int (sint a sdiv sint b)))"

definition udiv64 :: "u64 \<Rightarrow> u64 \<Rightarrow> u64 option" where
  "udiv64 a b = (if b = 0 then None else Some (a div b))"

text \<open>Writing through the pointer a linear search returns: the first match is updated.\<close>

fun upd_first :: "('a \<Rightarrow> bool) \<Rightarrow> ('a \<Rightarrow> 'a) \<Rightarrow> 'a list \<Rightarrow> 'a list" where
  "upd_first P f [] = []"
| "upd_first P f (x # xs) = (if P x then f x # xs else x # upd_first P f xs)"

fun foldM :: "('s \<Rightarrow> 'a \<Rightarrow> 's option) \<Rightarrow> 's \<Rightarrow> 'a list \<Rightarrow> 's option" where
  "foldM f s [] = Some s"
| "foldM f s (x # xs) = do { s' \<leftarrow> f s x; foldM f s' xs }"

subsection \<open>Big-endian encoding\<close>

lemma length_be_bytes [simp]: "length (be_bytes n w) = n"
  by (induction n arbitrary: w) auto

lemma be_bytes_numeral [simp]:
  "be_bytes (numeral k) w = be_bytes (pred_numeral k) (drop_bit 8 w) @ [ucast w]"
  by (simp add: numeral_eq_Suc)

lemma be_bytes_eq_Nil [simp]: "be_bytes n w = [] \<longleftrightarrow> n = 0"
  using length_be_bytes [of n w] by (cases n) auto

lemma be_val_snoc: "be_val (xs @ [b]) = be_val xs * 256 + ucast b"
  by (simp add: be_val_def)

lemma be_val_be_bytes_take: "be_val (be_bytes n w) = take_bit (8 * n) (w :: 'a::len word)"
proof (induction n arbitrary: w)
  case 0
  then show ?case by (simp add: be_val_def)
next
  case (Suc n)
  have "take_bit (8 * n) (drop_bit 8 w) * 256 = push_bit 8 (take_bit (8 * n) (drop_bit 8 w))"
    by (simp add: push_bit_eq_mult)
  moreover have "(ucast (ucast w :: 8 word) :: 'a word) = take_bit 8 w"
    by (rule bit_word_eqI) (auto simp: bit_simps)
  moreover have "push_bit 8 (take_bit (8 * n) (drop_bit 8 w)) + take_bit 8 w
      = push_bit 8 (take_bit (8 * n) (drop_bit 8 w)) OR take_bit 8 w"
    by (subst disjunctive_add_eq_or) (auto intro!: bit_word_eqI simp: bit_simps)
  moreover have "push_bit 8 (take_bit (8 * n) (drop_bit 8 w)) OR take_bit 8 w = take_bit (8 * Suc n) w"
    by (rule bit_word_eqI) (auto simp: bit_simps)
  ultimately show ?case by (simp add: be_val_snoc Suc)
qed

lemma be_val_be_bytes:
  "LENGTH('a) \<le> 8 * n \<Longrightarrow> be_val (be_bytes n w) = (w :: 'a::len word)"
  by (simp add: be_val_be_bytes_take take_bit_word_eq_self)

text \<open>The three widths the storage layouts use.\<close>

lemma be_val_be_bytes_8 [simp]: "be_val (be_bytes 8 w) = (w :: u64)"
  by (rule be_val_be_bytes) simp

lemma be_val_be_bytes_20 [simp]: "be_val (be_bytes 20 w) = (w :: address)"
  by (rule be_val_be_bytes) simp

lemma be_val_be_bytes_32 [simp]: "be_val (be_bytes 32 w) = (w :: u256)"
  by (rule be_val_be_bytes) simp

declare be_bytes_numeral [simp del]

subsection \<open>First-match update\<close>

lemma length_upd_first [simp]: "length (upd_first P f xs) = length xs"
  by (induction xs) auto

lemma upd_first_map_id:
  "(\<And>x. g (f x) = g x) \<Longrightarrow> map g (upd_first P f xs) = map g xs"
  by (induction xs) auto

lemma set_upd_firstD: "y \<in> set (upd_first P f xs) \<Longrightarrow> y \<in> set xs \<or> (\<exists>x \<in> set xs. P x \<and> y = f x)"
  by (induction xs) (auto split: if_splits)

lemma upd_first_none [simp]: "find P xs = None \<Longrightarrow> upd_first P f xs = xs"
  by (induction xs) (auto split: if_splits)

lemma find_Some_in: "find P xs = Some x \<Longrightarrow> x \<in> set xs \<and> P x"
  by (induction xs) (auto split: if_splits)

lemma find_upd_first:
  "find P xs = Some x \<Longrightarrow> P (f x) \<Longrightarrow> find P (upd_first P f xs) = Some (f x)"
  by (induction xs) (auto split: if_splits)

lemma find_None_notin: "find P xs = None \<longleftrightarrow> (\<forall>x \<in> set xs. \<not> P x)"
  by (induction xs) auto

lemma find_key_mem:
  "distinct (map g xs) \<Longrightarrow> x \<in> set xs \<Longrightarrow> find (\<lambda>y. g y = g x) xs = Some x"
  by (induction xs) (auto simp: rev_image_eqI)

lemma sum_list_upd_first:
  assumes "find P xs = Some x"
  shows "sum_list (map h (upd_first P f xs)) + h x = sum_list (map h xs) + (h (f x) :: nat)"
  using assms by (induction xs) (auto split: if_splits)

lemma option_eqI: "(\<And>x. a = Some x \<longleftrightarrow> b = Some x) \<Longrightarrow> a = b"
  by (cases a; cases b) auto

subsection \<open>Loops that may panic\<close>

lemma foldM_append: "foldM f s (xs @ ys) = do { s' \<leftarrow> foldM f s xs; foldM f s' ys }"
  by (induction xs arbitrary: s) (auto split: bind_splits)

lemma foldM_invariant:
  assumes "foldM f s xs = Some s'" and "I s"
    and "\<And>s x t. x \<in> set xs \<Longrightarrow> I s \<Longrightarrow> f s x = Some t \<Longrightarrow> I t"
  shows "I s'"
  using assms
proof (induction xs arbitrary: s)
  case Nil
  then show ?case by simp
next
  case (Cons x xs)
  from Cons.prems(1) obtain t where t: "f s x = Some t" "foldM f t xs = Some s'"
    by (auto split: bind_splits)
  have "I t" using Cons.prems(3) [of x s t] Cons.prems(2) t(1) by simp
  then show ?case
    by (rule Cons.IH [OF t(2)]) (rule Cons.prems(3), auto)
qed

lemma foldM_total:
  assumes "I s" and "\<And>s x. x \<in> set xs \<Longrightarrow> I s \<Longrightarrow> \<exists>t. f s x = Some t \<and> I t"
  shows "\<exists>s'. foldM f s xs = Some s' \<and> I s'"
  using assms
proof (induction xs arbitrary: s)
  case Nil
  then show ?case by simp
next
  case (Cons x xs)
  from Cons.prems(2) [of x s] Cons.prems(1) obtain t where t: "f s x = Some t" "I t"
    by auto
  from Cons.IH [OF t(2)] Cons.prems(2) t(1) show ?case by simp
qed

subsection \<open>Unsigned arithmetic without wrap-around\<close>

lemma unat_add_no_wrap [go_arith]:
  "unat a + unat b < 2 ^ LENGTH('a) \<Longrightarrow> unat (a + b) = unat a + unat (b :: 'a::len word)"
  by (simp add: unat_word_ariths)

lemma unat_sub_le [go_arith]:
  "(b :: 'a::len word) \<le> a \<Longrightarrow> unat (a - b) = unat a - unat b"
  by (rule unat_sub)

lemma unat_sum_list:
  "sum_list (map (\<lambda>x. unat (f x)) xs) < 2 ^ LENGTH('w) \<Longrightarrow>
   unat (sum_list (map f xs) :: 'w::len word) = sum_list (map (\<lambda>x. unat (f x)) xs)"
  by (induction xs) (simp_all add: unat_add_no_wrap)

lemma unat_mult_no_wrap [go_arith]:
  "unat a * unat b < 2 ^ LENGTH('a) \<Longrightarrow> unat (a * b) = unat a * unat (b :: 'a::len word)"
  by (simp add: unat_word_ariths)

lemma unat_of_nat_small [go_arith]:
  "n < 2 ^ LENGTH('a) \<Longrightarrow> unat (of_nat n :: 'a::len word) = n"
  by (simp add: unsigned_of_nat take_bit_nat_eq_self)

lemma unat_lt: "unat (w :: 'a::len word) < 2 ^ LENGTH('a)"
  by (rule unsigned_less)

lemma unat_ucast_up [go_arith]:
  assumes "LENGTH('a) \<le> LENGTH('b)"
  shows "unat (ucast (w :: 'a::len word) :: 'b::len word) = unat w"
proof -
  have "unat w < 2 ^ LENGTH('b)"
    using unat_lt [of w] power_increasing [OF assms, of "2 :: nat"] by (rule order.strict_trans2) simp
  then show ?thesis by (simp add: unsigned_ucast_eq take_bit_nat_eq_self)
qed

lemma add_sub_exchange [go_arith]:
  assumes "b \<le> a" and "unat c + unat b < 2 ^ LENGTH('a)"
  shows "unat (a - b) + unat (c + b) = unat a + unat (c :: 'a::len word)"
proof -
  have "unat b \<le> unat a" using assms(1) by (simp add: word_le_nat_alt)
  with assms show ?thesis by (simp add: unat_add_no_wrap unat_sub_le)
qed

subsection \<open>Iteration orders\<close>

lemma is_iter_mset [simp]: "is_iter it \<Longrightarrow> mset (it xs) = mset xs"
  by (simp add: is_iter_def)

lemma is_iter_set [simp]: "is_iter it \<Longrightarrow> set (it xs) = set xs"
  by (metis is_iter_mset set_mset_mset)

lemma is_iter_distinct [simp]: "is_iter it \<Longrightarrow> distinct (it xs) = distinct xs"
  by (metis is_iter_mset mset_eq_imp_distinct_iff)

lemma is_iter_id: "is_iter id"
  by (simp add: is_iter_def)

lemma is_iter_rev: "is_iter rev"
  by (simp add: is_iter_def)

end
