(* ===== verification/Msgp.thy ===== *)
theory Msgp
  imports Go_Prelude
begin

text \<open>
  The interface to the MessagePack run-time library \<open>github.com/tinylib/msgp/msgp\<close>,
  which the generated \<open>types_gen.go\<close> files call and which is not part of the
  repository: its functions are the fields of \<open>msgp_ops\<close>, an argument of every codec.
  The locale \<open>msgp_runtime\<close> states what the generated code relies on, the laws of the
  MessagePack format for the values it writes; \<open>msgpack_rt\<close> is the format itself
  written out, and the interpretation \<open>mp\<close> shows that it meets the laws.

  The second half holds the two loops every generated \<open>UnmarshalMsg\<close> consists of: over
  the fields of a map and over the elements of an array.
\<close>

record msgp_ops =
  AppendInt64 :: "bytes \<Rightarrow> i64 \<Rightarrow> bytes"
  AppendUint64 :: "bytes \<Rightarrow> u64 \<Rightarrow> bytes"
  AppendBytes :: "bytes \<Rightarrow> bytes \<Rightarrow> bytes"
  AppendString :: "bytes \<Rightarrow> bytes \<Rightarrow> bytes"
  AppendBool :: "bytes \<Rightarrow> bool \<Rightarrow> bytes"
  AppendArrayHeader :: "bytes \<Rightarrow> u32 \<Rightarrow> bytes"
  AppendNil :: "bytes \<Rightarrow> bytes"
  ReadMapHeaderBytes :: "bytes \<Rightarrow> (u32 \<times> bytes) option"
  ReadMapKeyZC :: "bytes \<Rightarrow> (bytes \<times> bytes) option"
  ReadInt64Bytes :: "bytes \<Rightarrow> (i64 \<times> bytes) option"
  ReadUint64Bytes :: "bytes \<Rightarrow> (u64 \<times> bytes) option"
  ReadExactBytes :: "bytes \<Rightarrow> nat \<Rightarrow> (bytes \<times> bytes) option"
  ReadStringBytes :: "bytes \<Rightarrow> (bytes \<times> bytes) option"
  ReadBoolBytes :: "bytes \<Rightarrow> (bool \<times> bytes) option"
  ReadArrayHeaderBytes :: "bytes \<Rightarrow> (u32 \<times> bytes) option"
  IsNil :: "bytes \<Rightarrow> bool"
  ReadNilBytes :: "bytes \<Rightarrow> bytes option"
  Skip :: "bytes \<Rightarrow> bytes option"

text \<open>The bytes of a Go string literal.\<close>

definition str :: "string \<Rightarrow> bytes" where
  "str s = map of_char s"

text \<open>A map key as the generated code writes it: a \<open>fixstr\<close> header and the name.\<close>

definition fixkey :: "string \<Rightarrow> bytes" where
  "fixkey s = (0xa0 OR of_nat (length s)) # str s"

text \<open>
  \<open>for zb > 0 { zb--; field, bts, err = ReadMapKeyZC(bts); switch field ... }\<close>: the
  argument \<open>sw\<close> is the body of the switch.
\<close>

fun read_fields ::
  "msgp_ops \<Rightarrow> (bytes \<Rightarrow> 's \<Rightarrow> bytes \<Rightarrow> ('s \<times> bytes) option) \<Rightarrow> nat \<Rightarrow> 's \<Rightarrow> bytes \<Rightarrow> ('s \<times> bytes) option"
where
  "read_fields rt sw 0 z bts = Some (z, bts)"
| "read_fields rt sw (Suc n) z bts = do {
     (field, bts) \<leftarrow> ReadMapKeyZC rt bts;
     (z, bts) \<leftarrow> sw field z bts;
     read_fields rt sw n z bts }"

definition read_struct ::
  "msgp_ops \<Rightarrow> (bytes \<Rightarrow> 's \<Rightarrow> bytes \<Rightarrow> ('s \<times> bytes) option) \<Rightarrow> 's \<Rightarrow> bytes \<Rightarrow> ('s \<times> bytes) option"
where
  "read_struct rt sw z bts = do {
     (n, bts) \<leftarrow> ReadMapHeaderBytes rt bts;
     read_fields rt sw (unat n) z bts }"

text \<open>
  The element of a slice of pointers, \<open>None\<close> for nil: written as nil or as the struct.
\<close>

definition append_ptr :: "msgp_ops \<Rightarrow> (bytes \<Rightarrow> 's \<Rightarrow> bytes) \<Rightarrow> bytes \<Rightarrow> 's option \<Rightarrow> bytes" where
  "append_ptr rt M b p = (case p of None \<Rightarrow> AppendNil rt b | Some x \<Rightarrow> M b x)"

lemma append_ptr_simps [simp]: "append_ptr rt M b None = AppendNil rt b" "append_ptr rt M b (Some x) = M b x"
  by (simp_all add: append_ptr_def)

text \<open>
  The element loop of a slice of pointers: a nil is read as a nil pointer, and a struct is
  decoded into the struct already in the slice, or into a new one where the pointer is nil.
\<close>

fun read_elems ::
  "msgp_ops \<Rightarrow> ('s \<Rightarrow> bytes \<Rightarrow> ('s \<times> bytes) option) \<Rightarrow> 's \<Rightarrow> 's option list \<Rightarrow> bytes \<Rightarrow> ('s option list \<times> bytes) option"
where
  "read_elems rt rd zero [] bts = Some ([], bts)"
| "read_elems rt rd zero (z # zs) bts = do {
     (x, bts) \<leftarrow> (if IsNil rt bts then do { bts \<leftarrow> ReadNilBytes rt bts; Some (None, bts) }
       else do { (x, bts) \<leftarrow> rd (case z of None \<Rightarrow> zero | Some v \<Rightarrow> v) bts; Some (Some x, bts) });
     (xs, bts) \<leftarrow> read_elems rt rd zero zs bts;
     Some (x # xs, bts) }"

text \<open>\<open>if cap(z) >= int(n) { z = z[:n] } else { z = make([]*T, n) }\<close>, for a slice without spare capacity.\<close>

definition resize_slice :: "nat \<Rightarrow> 's option list \<Rightarrow> 's option list" where
  "resize_slice n zs = (if n \<le> length zs then take n zs else replicate n None)"

definition read_slice ::
  "msgp_ops \<Rightarrow> ('s \<Rightarrow> bytes \<Rightarrow> ('s \<times> bytes) option) \<Rightarrow> 's \<Rightarrow> 's option list \<Rightarrow> bytes \<Rightarrow> ('s option list \<times> bytes) option"
where
  "read_slice rt rd zero zs bts = do {
     (n, bts) \<leftarrow> ReadArrayHeaderBytes rt bts;
     read_elems rt rd zero (resize_slice (unat n) zs) bts }"

lemma those_map_Some [simp]: "those (map Some xs) = Some xs"
  by (induction xs) simp_all

lemma read_fields_numeral:
  "read_fields rt sw (numeral k) z bts = do {
     (field, bts) \<leftarrow> ReadMapKeyZC rt bts;
     (z, bts) \<leftarrow> sw field z bts;
     read_fields rt sw (pred_numeral k) z bts }"
  by (simp add: numeral_eq_Suc)

subsection \<open>Names\<close>

lemma length_str [simp]: "length (str s) = length s"
  by (simp add: str_def)

lemma of_char8_inj: "(of_char c :: u8) = of_char d \<longleftrightarrow> c = d"
proof
  assume "(of_char c :: u8) = of_char d"
  then have "unat (of_nat (of_char c) :: u8) = unat (of_nat (of_char d) :: u8)"
    by (simp add: of_nat_of_char)
  moreover have "(of_char x :: nat) < 2 ^ LENGTH(8)" for x :: char
    using range_nat_of_char by auto
  ultimately have "(of_char c :: nat) = of_char d"
    by (simp add: unat_of_nat_small)
  then show "c = d" by simp
qed simp

lemma str_eq_iff [simp]: "str s = str t \<longleftrightarrow> s = t"
  by (simp add: str_def inj_map_eq_map inj_def of_char8_inj)

lemma fixkey_header:
  assumes "n < 32"
  shows "(0xa0 OR of_nat n :: u8) AND 0xe0 = 0xa0 \<and> unat ((0xa0 OR of_nat n :: u8) AND 0x1f) = n"
proof -
  have "n \<in> set [0..<32]" using assms by simp
  moreover have "list_all (\<lambda>n. (0xa0 OR of_nat n :: u8) AND 0xe0 = 0xa0 \<and>
      unat ((0xa0 OR of_nat n :: u8) AND 0x1f) = n) [0..<32]"
    by code_simp
  ultimately show ?thesis by (simp only: list_all_iff)
qed

lemmas fixkey_eval = fixkey_def str_def

subsection \<open>What the generated code relies on\<close>

locale msgp_runtime =
  fixes rt :: msgp_ops
  assumes append_int64: "AppendInt64 rt b v = b @ AppendInt64 rt [] v"
    and append_uint64: "AppendUint64 rt b v = b @ AppendUint64 rt [] v"
    and append_bytes: "AppendBytes rt b x = b @ AppendBytes rt [] x"
    and append_string: "AppendString rt b x = b @ AppendString rt [] x"
    and append_bool: "AppendBool rt b f = b @ AppendBool rt [] f"
    and append_array: "AppendArrayHeader rt b n = b @ AppendArrayHeader rt [] n"
    and read_int64: "ReadInt64Bytes rt (AppendInt64 rt [] v @ r) = Some (v, r)"
    and read_uint64: "ReadUint64Bytes rt (AppendUint64 rt [] v @ r) = Some (v, r)"
    and read_bytes:
      "length x < 2 ^ 32 \<Longrightarrow> ReadExactBytes rt (AppendBytes rt [] x @ r) (length x) = Some (x, r)"
    and read_string: "length x < 2 ^ 32 \<Longrightarrow> ReadStringBytes rt (AppendString rt [] x @ r) = Some (x, r)"
    and read_bool: "ReadBoolBytes rt (AppendBool rt [] f @ r) = Some (f, r)"
    and read_array: "ReadArrayHeaderBytes rt (AppendArrayHeader rt [] n @ r) = Some (n, r)"
    and read_fixmap: "h AND 0xf0 = 0x80 \<Longrightarrow> ReadMapHeaderBytes rt (h # r) = Some (ucast (h AND 0x0f), r)"
    and append_nil: "AppendNil rt b = b @ [0xc0]"
    and read_nil: "ReadNilBytes rt (0xc0 # r) = Some r"
    and read_fixstr: "h AND 0xe0 = 0xa0 \<Longrightarrow> 0 < unat (h AND 0x1f) \<Longrightarrow> unat (h AND 0x1f) \<le> length r \<Longrightarrow>
      ReadMapKeyZC rt (h # r) = Some (take (unat (h AND 0x1f)) r, drop (unat (h AND 0x1f)) r)"
    and is_nil: "IsNil rt (h # r) \<longleftrightarrow> h = 0xc0"
begin

lemma read_fixkey:
  "s \<noteq> [] \<Longrightarrow> length s < 32 \<Longrightarrow> ReadMapKeyZC rt (fixkey s @ r) = Some (str s, r)"
  using fixkey_header [of "length s"] by (simp add: fixkey_def read_fixstr)

lemma read_exact:
  "n = length x \<Longrightarrow> length x < 2 ^ 32 \<Longrightarrow> ReadExactBytes rt (AppendBytes rt [] x @ r) n = Some (x, r)"
  by (simp add: read_bytes)

lemmas append_norm = append_int64 [of "_ # _"] append_int64 [of "_ @ _"]
  append_uint64 [of "_ # _"] append_uint64 [of "_ @ _"] append_bytes [of "_ # _"] append_bytes [of "_ @ _"]
  append_string [of "_ # _"] append_string [of "_ @ _"] append_bool [of "_ # _"] append_bool [of "_ @ _"]
  append_array [of "_ # _"] append_array [of "_ @ _"]

lemmas read_norm = read_struct_def read_fixmap read_fixkey read_exact read_int64 read_uint64 read_string
  read_bool read_fields_numeral

text \<open>
  One element at a time: where the element reader undoes the element writer whatever the
  struct held before, the array loop undoes the concatenation.
\<close>

lemma read_elems_concat:
  assumes "\<And>z x r. Some x \<in> set ps \<Longrightarrow> rd z (M [] x @ r) = Some (x, r)"
    and "\<And>x. Some x \<in> set ps \<Longrightarrow> \<exists>h t. M [] x = h # t \<and> h \<noteq> 0xc0"
    and "length zs = length ps"
  shows "read_elems rt rd zero zs (concat (map (append_ptr rt M []) ps) @ r) = Some (ps, r)"
  using assms(3,1,2)
proof (induction zs ps rule: list_induct2)
  case Nil
  then show ?case by simp
next
  case (Cons z zs p ps)
  let ?r = "concat (map (append_ptr rt M []) ps) @ r"
  have rest: "read_elems rt rd zero zs ?r = Some (ps, r)"
    by (rule Cons.IH) (use Cons.prems in auto)
  show ?case
  proof (cases p)
    case None
    then show ?thesis using rest by (simp add: append_nil is_nil read_nil)
  next
    case (Some x)
    with Cons.prems(2) [of x] obtain h t where "M [] x = h # t" "h \<noteq> 0xc0" by auto
    then have "\<not> IsNil rt (M [] x @ ?r)" by (simp add: is_nil)
    moreover have "rd (case z of None \<Rightarrow> zero | Some v \<Rightarrow> v) (M [] x @ ?r) = Some (x, ?r)"
      by (rule Cons.prems(1)) (simp add: Some)
    ultimately show ?thesis using rest Some by simp
  qed
qed

lemma read_slice_concat:
  assumes "\<And>z x r. Some x \<in> set ps \<Longrightarrow> rd z (M [] x @ r) = Some (x, r)"
    and "\<And>x. Some x \<in> set ps \<Longrightarrow> \<exists>h t. M [] x = h # t \<and> h \<noteq> 0xc0"
    and "length ps < 2 ^ 32"
  shows "read_slice rt rd zero zs
    (AppendArrayHeader rt [] (of_nat (length ps)) @ concat (map (append_ptr rt M []) ps) @ r) = Some (ps, r)"
proof -
  have n: "unat (of_nat (length ps) :: u32) = length ps"
    using assms(3) by (simp add: unat_of_nat_small)
  show ?thesis
    unfolding read_slice_def read_array n
    by (simp add: n resize_slice_def read_elems_concat [of ps rd M, OF assms(1,2)])
qed

lemma append_ptr_append:
  assumes "\<And>b x. M b x = b @ M [] x"
  shows "append_ptr rt M b p = b @ append_ptr rt M [] p"
proof (cases p)
  case (Some x)
  then show ?thesis using assms [of b x] by simp
qed (simp add: append_nil)

lemma foldl_Marshal:
  assumes "\<And>b x. M b x = b @ M [] x"
  shows "foldl (append_ptr rt M) b ps = b @ concat (map (append_ptr rt M []) ps)"
proof (induction ps arbitrary: b)
  case (Cons p ps)
  show ?case using append_ptr_append [of M b p, OF assms] by (simp add: Cons)
qed simp

end

subsection \<open>The MessagePack format\<close>

definition take_n :: "nat \<Rightarrow> bytes \<Rightarrow> (bytes \<times> bytes) option" where
  "take_n n bs = (if n \<le> length bs then Some (take n bs, drop n bs) else None)"

definition read_tag :: "u8 \<Rightarrow> bytes \<Rightarrow> bytes option" where
  "read_tag t bs = (case bs of [] \<Rightarrow> None | b # r \<Rightarrow> if b = t then Some r else None)"

definition read_be :: "u8 \<Rightarrow> nat \<Rightarrow> bytes \<Rightarrow> ('a::len word \<times> bytes) option" where
  "read_be t n bs = do { r \<leftarrow> read_tag t bs; (x, r) \<leftarrow> take_n n r; Some (be_val x, r) }"

definition read_bin :: "u8 \<Rightarrow> bytes \<Rightarrow> (bytes \<times> bytes) option" where
  "read_bin t bs = do { (n :: u32, r) \<leftarrow> read_be t 4 bs; take_n (unat n) r }"

definition msgpack_skip :: "bytes \<Rightarrow> bytes option" where
  "msgpack_skip bs = (case bs of [] \<Rightarrow> None
     | b # r \<Rightarrow>
        if b \<in> {0xc0, 0xc2, 0xc3} then Some r
        else if b \<in> {0xd3, 0xcf} then map_option snd (take_n 8 r)
        else if b \<in> {0xc6, 0xdb} then map_option snd (read_bin b bs)
        else None)"

definition msgpack_rt :: msgp_ops where
  "msgpack_rt = \<lparr>
     AppendInt64 = (\<lambda>b v. b @ 0xd3 # be_bytes 8 v),
     AppendUint64 = (\<lambda>b v. b @ 0xcf # be_bytes 8 v),
     AppendBytes = (\<lambda>b x. b @ 0xc6 # be_bytes 4 (of_nat (length x) :: u32) @ x),
     AppendString = (\<lambda>b x. b @ 0xdb # be_bytes 4 (of_nat (length x) :: u32) @ x),
     AppendBool = (\<lambda>b f. b @ [if f then 0xc3 else 0xc2]),
     AppendArrayHeader = (\<lambda>b n. b @ 0xdd # be_bytes 4 n),
     AppendNil = (\<lambda>b. b @ [0xc0]),
     ReadMapHeaderBytes = (\<lambda>bs. case bs of [] \<Rightarrow> None
       | h # r \<Rightarrow> if h AND 0xf0 = 0x80 then Some (ucast (h AND 0x0f), r) else None),
     ReadMapKeyZC = (\<lambda>bs. case bs of [] \<Rightarrow> None
       | h # r \<Rightarrow> if h AND 0xe0 = 0xa0 then take_n (unat (h AND 0x1f)) r else None),
     ReadInt64Bytes = read_be 0xd3 8,
     ReadUint64Bytes = read_be 0xcf 8,
     ReadExactBytes = (\<lambda>bs n. do { (x, r) \<leftarrow> read_bin 0xc6 bs; if length x = n then Some (x, r) else None }),
     ReadStringBytes = read_bin 0xdb,
     ReadBoolBytes = (\<lambda>bs. case bs of [] \<Rightarrow> None
       | h # r \<Rightarrow> if h = 0xc3 then Some (True, r) else if h = 0xc2 then Some (False, r) else None),
     ReadArrayHeaderBytes = read_be 0xdd 4,
     IsNil = (\<lambda>bs. case bs of [] \<Rightarrow> False | h # _ \<Rightarrow> h = 0xc0),
     ReadNilBytes = read_tag 0xc0,
     Skip = msgpack_skip \<rparr>"

lemma take_n_append [simp]: "n = length x \<Longrightarrow> take_n n (x @ r) = Some (x, r)"
  by (simp add: take_n_def)

lemma read_be_be_bytes:
  "LENGTH('a) \<le> 8 * n \<Longrightarrow> read_be t n (t # be_bytes n (w :: 'a::len word) @ r) = Some (w, r)"
  by (simp add: read_be_def read_tag_def be_val_be_bytes)

lemma read_bin_be_bytes:
  "length x < 2 ^ 32 \<Longrightarrow> read_bin t (t # be_bytes 4 (of_nat (length x) :: u32) @ x @ r) = Some (x, r)"
  by (simp add: read_bin_def read_be_be_bytes unat_of_nat_small)

interpretation mp: msgp_runtime msgpack_rt
  by unfold_locales
    (simp_all add: msgpack_rt_def read_be_be_bytes read_bin_be_bytes take_n_def read_tag_def)

end
