(* ===== verification/Environment.thy ===== *)
theory Environment
  imports Msgp
begin

text \<open>
  The code around the repository. The chain state is reached through
  \<open>types.Context\<close> and \<open>types.AccountInfo\<close> of the EVM module
  \<open>evm-zeniq-smart-chain\<close>, balances are burnt through its package \<open>ebp\<close>, and hashing,
  JSON and key addresses come from other packages. None of that is part of the
  repository: the record \<open>ext\<close> holds the functions the code calls, over abstract types
  \<open>'c\<close> of contexts and \<open>'a\<close> of accounts, and every operation takes it as an argument.

  The locales say what the code relies on. \<open>chain_ctx\<close>: accounts and storage slots behave
  as a store, and the MessagePack run-time meets its laws. \<open>chain_bank\<close>: burning moves
  coins to the black-hole account. \<open>chain_votes\<close>: the slots of the votes, hashed with
  SHA-256, collide neither with each other nor with the numbered slots, and the JSON
  encoding of an address list can be read back.
  \<open>mem_ext\<close> is an implementation over finite maps that meets all of them.
\<close>

record TxToRun =
  tx_From :: address
  tx_Value :: bytes32
  tx_Data :: bytes

record EvmLog =
  log_Address :: address
  log_Topics :: "bytes32 list"
  log_Data :: bytes

record ('c, 'a) ext =
  GetAccount :: "'c \<Rightarrow> address \<Rightarrow> 'a option"
  SetAccount :: "'c \<Rightarrow> address \<Rightarrow> 'a \<Rightarrow> 'c"
  GetStorageAt :: "'c \<Rightarrow> u64 \<Rightarrow> bytes32 \<Rightarrow> bytes option"
  SetStorageAt :: "'c \<Rightarrow> u64 \<Rightarrow> bytes32 \<Rightarrow> bytes \<Rightarrow> 'c"
  DeleteStorageAt :: "'c \<Rightarrow> u64 \<Rightarrow> bytes32 \<Rightarrow> 'c"
  IsXHedgeFork :: "'c \<Rightarrow> bool"
  GetDynamicArray :: "'c \<Rightarrow> u64 \<Rightarrow> bytes32 \<Rightarrow> bytes list"
  CreateDynamicArray :: "'c \<Rightarrow> u64 \<Rightarrow> bytes32 \<Rightarrow> bytes list \<Rightarrow> 'c"
  DeleteDynamicArray :: "'c \<Rightarrow> u64 \<Rightarrow> bytes32 \<Rightarrow> 'c"
  GetValueAtMapKey :: "'c \<Rightarrow> u64 \<Rightarrow> bytes32 \<Rightarrow> bytes \<Rightarrow> bytes"
  SetValueAtMapKey :: "'c \<Rightarrow> u64 \<Rightarrow> bytes32 \<Rightarrow> bytes \<Rightarrow> bytes \<Rightarrow> 'c"
  GetAndDeleteValueAtMapKey :: "'c \<Rightarrow> u64 \<Rightarrow> bytes32 \<Rightarrow> bytes \<Rightarrow> bytes \<times> 'c"
  Balance :: "'a \<Rightarrow> u256"
  UpdateBalance :: "'a \<Rightarrow> u256 \<Rightarrow> 'a"
  UpdateSequence :: "'a \<Rightarrow> u64 \<Rightarrow> 'a"
  ZeroAccountInfo :: 'a
  BlackHoleAddress :: address
  TransferFromSenderAccToBlackHoleAcc :: "'c \<Rightarrow> address \<Rightarrow> u256 \<Rightarrow> 'c"
  GetBlackHoleBalance :: "'c \<Rightarrow> u256"
  Sum256 :: "bytes \<Rightarrow> bytes32"
  Ed25519Address :: "bytes32 \<Rightarrow> address"
  Secp256k1Address :: "bytes \<Rightarrow> address"
  JsonMarshalAddrs :: "address list \<Rightarrow> bytes"
  JsonUnmarshalAddrs :: "bytes \<Rightarrow> address list"
  msgp :: msgp_ops

text \<open>The balance of an address, zero where there is no account, and the coins of a set of addresses.\<close>

definition bal :: "('c, 'a) ext \<Rightarrow> 'c \<Rightarrow> address \<Rightarrow> u256" where
  "bal E c a = (case GetAccount E c a of None \<Rightarrow> 0 | Some x \<Rightarrow> Balance E x)"

definition coins_on :: "('c, 'a) ext \<Rightarrow> 'c \<Rightarrow> address set \<Rightarrow> nat" where
  "coins_on E c S = (\<Sum>a \<in> S. unat (bal E c a))"

text \<open>Two contexts that agree on all accounts, and two that agree on all storage slots.\<close>

definition same_accounts :: "('c, 'a) ext \<Rightarrow> 'c \<Rightarrow> 'c \<Rightarrow> bool" where
  "same_accounts E c d \<longleftrightarrow> GetAccount E c = GetAccount E d"

definition same_storage :: "('c, 'a) ext \<Rightarrow> 'c \<Rightarrow> 'c \<Rightarrow> bool" where
  "same_storage E c d \<longleftrightarrow> GetStorageAt E c = GetStorageAt E d"

text \<open>\<open>copy(dst[:], src)\<close>, and the numbers a byte slice or a prefix of it spells.\<close>

definition copy_to :: "bytes \<Rightarrow> bytes \<Rightarrow> bytes" where
  "copy_to dst src = take (length dst) src @ drop (length src) dst"

definition be_nat :: "bytes \<Rightarrow> nat" where
  "be_nat bs = foldl (\<lambda>acc b. acc * 256 + unat b) 0 bs"

text \<open>\<open>binary.BigEndian.Uint64(bz)\<close> reads the first eight bytes and panics when there are fewer.\<close>

definition Uint64 :: "bytes \<Rightarrow> u64 option" where
  "Uint64 bz = (if length bz < 8 then None else Some (be_val (take 8 bz)))"

text \<open>
  \<open>uint256.SetBytes\<close> reads the last 32 bytes; \<open>SetBytes32\<close> reads the first 32 and panics
  when there are fewer; \<open>Bytes\<close> drops the leading zero bytes.
\<close>

definition SetBytes :: "bytes \<Rightarrow> u256" where
  "SetBytes bz = be_val bz"

definition SetBytes32 :: "bytes \<Rightarrow> u256 option" where
  "SetBytes32 bz = (if length bz < 32 then None else Some (be_val (take 32 bz)))"

definition trim_bytes :: "u256 \<Rightarrow> bytes" where
  "trim_bytes v = dropWhile (\<lambda>b. b = 0) (be_bytes 32 v)"

subsection \<open>Byte strings and numbers\<close>

lemma Uint64_be_bytes [simp]: "Uint64 (be_bytes 8 w @ r) = Some w"
  by (simp add: Uint64_def)

lemma Uint64_be_bytes' [simp]: "Uint64 (be_bytes 8 w) = Some w"
  by (simp add: Uint64_def)

lemma SetBytes32_be_bytes [simp]: "SetBytes32 (be_bytes 32 w) = Some w"
  by (simp add: SetBytes32_def)

lemma be_val_of_nat: "be_val bs = of_nat (be_nat bs)"
proof -
  have "foldl (\<lambda>acc b. acc * 256 + ucast b) (of_nat n) bs = of_nat (foldl (\<lambda>acc b. acc * 256 + unat b) n bs)" for n
  proof (induction bs arbitrary: n)
    case (Cons b bs)
    from Cons.IH [of "n * 256 + unat b"] show ?case by (simp add: of_nat_unat)
  qed simp
  from this [of 0] show ?thesis by (simp add: be_val_def be_nat_def)
qed

lemma be_nat_append: "be_nat (xs @ ys) = be_nat xs * 256 ^ length ys + be_nat ys"
proof (induction ys rule: rev_induct)
  case (snoc y ys)
  then show ?case by (simp add: be_nat_def algebra_simps flip: append_assoc)
qed (simp add: be_nat_def)

lemma be_nat_Cons: "be_nat (x # xs) = unat x * 256 ^ length xs + be_nat xs"
  using be_nat_append [of "[x]" xs] by (simp add: be_nat_def)

lemma be_nat_bound: "be_nat bs < 256 ^ length bs"
proof (induction bs rule: rev_induct)
  case (snoc b bs)
  have "unat b < 256" using unsigned_less [of b] by simp
  with snoc show ?case by (simp add: be_nat_def)
qed (simp add: be_nat_def)

lemma be_nat_be_bytes:
  assumes "LENGTH('a) = 8 * n"
  shows "be_nat (be_bytes n (w :: 'a::len word)) = unat w"
proof -
  have "be_nat (be_bytes n w) < 2 ^ LENGTH('a)"
    using be_nat_bound [of "be_bytes n w"] by (simp add: assms power_mult)
  moreover have "w = of_nat (be_nat (be_bytes n w))"
    using be_val_be_bytes [of n w] assms by (simp add: be_val_of_nat)
  ultimately show ?thesis by (metis unat_of_nat_small)
qed

lemma be_nat_Cons_zero: "be_nat (0 # bs) = be_nat bs"
  by (simp add: be_nat_def)

lemma be_val_dropWhile_zero: "be_val (dropWhile (\<lambda>b. b = 0) bs) = be_val bs"
  by (induction bs) (auto simp: be_val_of_nat be_nat_Cons_zero)

lemma SetBytes_trim_bytes [simp]: "SetBytes (trim_bytes v) = v"
  by (simp add: SetBytes_def trim_bytes_def be_val_dropWhile_zero)

lemma SetBytes_Nil [simp]: "SetBytes [] = 0"
  by (simp add: SetBytes_def be_val_def)

subsection \<open>The contracts of the environment\<close>

locale chain_ctx =
  fixes E :: "('c, 'a) ext"
  assumes runtime: "msgp_runtime (msgp E)"
    and get_set_account:
      "GetAccount E (SetAccount E c a x) b = (if b = a then Some x else GetAccount E c b)"
    and get_set_storage:
      "v \<noteq> [] \<Longrightarrow> GetStorageAt E (SetStorageAt E c q k v) p j =
         (if p = q \<and> j = k then Some v else GetStorageAt E c p j)"
    and get_set_storage_other:
      "\<not> (p = q \<and> j = k) \<Longrightarrow> GetStorageAt E (SetStorageAt E c q k v) p j = GetStorageAt E c p j"
    and get_set_storage_empty: "GetStorageAt E (SetStorageAt E c q k []) q k \<in> {None, Some []}"
    and get_delete_storage:
      "GetStorageAt E (DeleteStorageAt E c q k) p j = (if p = q \<and> j = k then None else GetStorageAt E c p j)"
    and account_set_storage: "GetAccount E (SetStorageAt E c q k v) a = GetAccount E c a"
    and account_delete_storage: "GetAccount E (DeleteStorageAt E c q k) a = GetAccount E c a"
    and storage_set_account: "GetStorageAt E (SetAccount E c a x) p j = GetStorageAt E c p j"
    and fork_set_account: "IsXHedgeFork E (SetAccount E c a x) = IsXHedgeFork E c"
    and fork_set_storage: "IsXHedgeFork E (SetStorageAt E c q k v) = IsXHedgeFork E c"
    and fork_delete_storage: "IsXHedgeFork E (DeleteStorageAt E c q k) = IsXHedgeFork E c"
    and balance_update: "Balance E (UpdateBalance E x w) = w"
    and balance_sequence: "Balance E (UpdateSequence E x s) = Balance E x"
    and balance_zero: "Balance E (ZeroAccountInfo E) = 0"
begin

lemmas ctx_laws = get_set_account get_set_storage get_delete_storage account_set_storage
  account_delete_storage storage_set_account fork_set_account fork_set_storage fork_delete_storage
  balance_update balance_sequence balance_zero

lemma bal_set_account [simp]:
  "bal E (SetAccount E c a x) b = (if b = a then Balance E x else bal E c b)"
  by (simp add: bal_def get_set_account)

lemma bal_set_storage [simp]: "bal E (SetStorageAt E c q k v) b = bal E c b"
  by (simp add: bal_def account_set_storage)

lemma bal_delete_storage [simp]: "bal E (DeleteStorageAt E c q k) b = bal E c b"
  by (simp add: bal_def account_delete_storage)

lemma coins_on_set_storage [simp]: "coins_on E (SetStorageAt E c q k v) S = coins_on E c S"
  by (simp add: coins_on_def)

lemma coins_on_set_account:
  assumes "finite S" and "a \<in> S"
  shows "coins_on E (SetAccount E c a x) S + unat (bal E c a) = coins_on E c S + unat (Balance E x)"
proof -
  have "(\<Sum>b \<in> S - {a}. unat (bal E (SetAccount E c a x) b)) = (\<Sum>b \<in> S - {a}. unat (bal E c b))"
    by (rule sum.cong) auto
  with assms show ?thesis by (simp add: coins_on_def sum.remove [of S a])
qed

lemma coins_on_set_account_other: "a \<notin> S \<Longrightarrow> coins_on E (SetAccount E c a x) S = coins_on E c S"
  unfolding coins_on_def by (rule sum.cong) auto

end

text \<open>
  Burning (\<open>ebp.TransferFromSenderAccToBlackHoleAcc\<close>): the sender's coins move to the
  black-hole account, an error leaves the context alone; all callers drop the error.
\<close>

locale chain_bank = chain_ctx E for E :: "('c, 'a) ext" +
  assumes burn_account:
      "GetAccount E c s = Some x \<Longrightarrow> v \<le> Balance E x \<Longrightarrow> s \<noteq> BlackHoleAddress E \<Longrightarrow>
       bal E (TransferFromSenderAccToBlackHoleAcc E c s v) b =
         (if b = s then Balance E x - v
          else if b = BlackHoleAddress E then bal E c b + v else bal E c b)"
    and burn_exists: "GetAccount E c s \<noteq> None \<Longrightarrow> GetAccount E (TransferFromSenderAccToBlackHoleAcc E c s v) s \<noteq> None"
    and burn_storage: "GetStorageAt E (TransferFromSenderAccToBlackHoleAcc E c s v) p j = GetStorageAt E c p j"
    and burn_fork: "IsXHedgeFork E (TransferFromSenderAccToBlackHoleAcc E c s v) = IsXHedgeFork E c"
    and black_hole_balance: "GetBlackHoleBalance E c = bal E c (BlackHoleAddress E)"
begin

lemma coins_on_burn:
  assumes "GetAccount E c s = Some x" and "v \<le> Balance E x" and "s \<noteq> BlackHoleAddress E"
    and "finite S" and "s \<in> S" and "BlackHoleAddress E \<in> S"
    and "unat (bal E c (BlackHoleAddress E)) + unat v < 2 ^ 256"
  shows "coins_on E (TransferFromSenderAccToBlackHoleAcc E c s v) S = coins_on E c S"
proof -
  let ?c = "TransferFromSenderAccToBlackHoleAcc E c s v" and ?h = "BlackHoleAddress E"
  let ?R = "S - {s} - {?h}"
  note new = burn_account [OF assms(1-3)]
  have rest: "(\<Sum>b \<in> ?R. unat (bal E ?c b)) = (\<Sum>b \<in> ?R. unat (bal E c b))"
    by (rule sum.cong) (auto simp: new)
  have two: "coins_on E d S = unat (bal E d s) + (unat (bal E d ?h) + (\<Sum>b \<in> ?R. unat (bal E d b)))" for d
    unfolding coins_on_def using assms(3-6) by (simp add: sum.remove [of S s] sum.remove [of "S - {s}" ?h])
  have "unat (bal E ?c s) + unat (bal E ?c ?h) = unat (bal E c s) + unat (bal E c ?h)"
    using assms(3) add_sub_exchange [OF assms(2), of "bal E c ?h"] assms(7)
    by (simp add: new bal_def [of E c s] assms(1))
  with rest show ?thesis unfolding two by simp
qed

end

locale chain_votes = chain_ctx E for E :: "('c, 'a) ext" +
  assumes vote_slot_inj: "Sum256 E (str ''vote'' @ be_bytes 20 a) = Sum256 E (str ''vote'' @ be_bytes 20 b) \<Longrightarrow> a = (b :: address)"
    and vote_slot_free: "\<not> Sum256 E (str ''vote'' @ be_bytes 20 (a :: address)) < 2 ^ 65"
    and json_addrs: "JsonUnmarshalAddrs E (JsonMarshalAddrs E vs) = vs"
    and json_nonempty: "JsonMarshalAddrs E vs \<noteq> []"

subsection \<open>An implementation over finite maps\<close>

record mem_acc =
  ma_Balance :: u256
  ma_Sequence :: u64

record mem_ctx =
  mc_acc :: "address \<rightharpoonup> mem_acc"
  mc_slot :: "u64 \<times> bytes32 \<rightharpoonup> bytes"
  mc_array :: "u64 \<times> bytes32 \<rightharpoonup> bytes list"
  mc_map :: "u64 \<times> bytes32 \<times> bytes \<rightharpoonup> bytes"
  mc_fork :: bool

definition mem_burn :: "mem_ctx \<Rightarrow> address \<Rightarrow> u256 \<Rightarrow> mem_ctx" where
  "mem_burn c s v = (case mc_acc c s of None \<Rightarrow> c
     | Some x \<Rightarrow> if ma_Balance x < v then c
         else let c1 = c\<lparr>mc_acc := (mc_acc c)(s \<mapsto> x\<lparr>ma_Balance := ma_Balance x - v\<rparr>)\<rparr>;
                  h = (case mc_acc c1 0 of None \<Rightarrow> \<lparr>ma_Balance = 0, ma_Sequence = 0\<rparr> | Some h \<Rightarrow> h)
              in c1\<lparr>mc_acc := (mc_acc c1)(0 \<mapsto> h\<lparr>ma_Balance := ma_Balance h + v\<rparr>)\<rparr>)"

fun chunks20 :: "nat \<Rightarrow> bytes \<Rightarrow> address list" where
  "chunks20 0 bs = []"
| "chunks20 (Suc n) bs = be_val (take 20 bs) # chunks20 n (drop 20 bs)"

definition mem_ext :: "(mem_ctx, mem_acc) ext" where
  "mem_ext = \<lparr>
     GetAccount = mc_acc,
     SetAccount = (\<lambda>c a x. c\<lparr>mc_acc := (mc_acc c)(a \<mapsto> x)\<rparr>),
     GetStorageAt = (\<lambda>c q k. mc_slot c (q, k)),
     SetStorageAt = (\<lambda>c q k v. c\<lparr>mc_slot := (mc_slot c)((q, k) \<mapsto> v)\<rparr>),
     DeleteStorageAt = (\<lambda>c q k. c\<lparr>mc_slot := (mc_slot c)((q, k) := None)\<rparr>),
     IsXHedgeFork = mc_fork,
     GetDynamicArray = (\<lambda>c q k. case mc_array c (q, k) of None \<Rightarrow> [] | Some xs \<Rightarrow> xs),
     CreateDynamicArray = (\<lambda>c q k xs. c\<lparr>mc_array := (mc_array c)((q, k) \<mapsto> xs)\<rparr>),
     DeleteDynamicArray = (\<lambda>c q k. c\<lparr>mc_array := (mc_array c)((q, k) := None)\<rparr>),
     GetValueAtMapKey = (\<lambda>c q k j. case mc_map c (q, k, j) of None \<Rightarrow> [] | Some v \<Rightarrow> v),
     SetValueAtMapKey = (\<lambda>c q k j v. c\<lparr>mc_map := (mc_map c)((q, k, j) \<mapsto> v)\<rparr>),
     GetAndDeleteValueAtMapKey = (\<lambda>c q k j. (case mc_map c (q, k, j) of None \<Rightarrow> [] | Some v \<Rightarrow> v,
       c\<lparr>mc_map := (mc_map c)((q, k, j) := None)\<rparr>)),
     Balance = ma_Balance,
     UpdateBalance = (\<lambda>x v. x\<lparr>ma_Balance := v\<rparr>),
     UpdateSequence = (\<lambda>x s. x\<lparr>ma_Sequence := s\<rparr>),
     ZeroAccountInfo = \<lparr>ma_Balance = 0, ma_Sequence = 0\<rparr>,
     BlackHoleAddress = 0,
     TransferFromSenderAccToBlackHoleAcc = mem_burn,
     GetBlackHoleBalance = (\<lambda>c. case mc_acc c 0 of None \<Rightarrow> 0 | Some h \<Rightarrow> ma_Balance h),
     Sum256 = be_val,
     Ed25519Address = ucast,
     Secp256k1Address = be_val,
     JsonMarshalAddrs = (\<lambda>vs. 0x5b # concat (map (be_bytes 20) vs)),
     JsonUnmarshalAddrs = (\<lambda>bs. chunks20 (length (tl bs) div 20) (tl bs)),
     msgp = msgpack_rt \<rparr>"

lemma chunks20_concat: "chunks20 (length vs) (concat (map (be_bytes 20) vs)) = vs"
  by (induction vs) auto

lemma length_concat_be_bytes: "length (concat (map (be_bytes 20) (vs :: address list))) = 20 * length vs"
  by (induction vs) auto

lemma be_val_vote_key:
  "(be_val (str ''vote'' @ be_bytes 20 a) :: bytes32) = 0x766f7465 * 2 ^ 160 + ucast (a :: address)"
proof -
  have "be_nat (be_bytes 20 a) = unat a"
    by (rule be_nat_be_bytes) simp
  moreover have "be_nat (str ''vote'') = 0x766f7465"
    by (simp add: str_def be_nat_def of_char_def)
  ultimately show ?thesis
    by (simp add: be_val_of_nat be_nat_append)
qed

lemma mem_chain_ctx: "chain_ctx mem_ext"
  by (rule chain_ctx.intro) (auto simp: mem_ext_def mp.msgp_runtime_axioms)

interpretation mem: chain_bank mem_ext
proof (intro chain_bank.intro chain_bank_axioms.intro mem_chain_ctx)
qed (auto simp: mem_ext_def mem_burn_def bal_def Let_def split: option.splits)

interpretation mem: chain_votes mem_ext
proof unfold_locales
  fix a b :: address and vs
  have wide: "unat (ucast a :: bytes32) = unat a" for a :: address
    by (rule unat_ucast_up) simp
  then have "0x766f7465 * 2 ^ 160 + unat (ucast a :: bytes32) < 2 ^ 256" for a :: address
    using unat_lt [of a] by simp
  with wide have key: "unat (be_val (str ''vote'' @ be_bytes 20 a) :: bytes32) = 0x766f7465 * 2 ^ 160 + unat a"
    for a :: address
    unfolding be_val_vote_key by (simp add: unat_add_no_wrap)
  { assume "Sum256 mem_ext (str ''vote'' @ be_bytes 20 a) = Sum256 mem_ext (str ''vote'' @ be_bytes 20 b)"
    then have "unat a = unat b" using key [of a] key [of b] by (simp add: mem_ext_def)
    then show "a = b" by (simp add: word_unat_eq_iff) }
  show "\<not> Sum256 mem_ext (str ''vote'' @ be_bytes 20 a) < 2 ^ 65"
    using key [of a] by (simp add: mem_ext_def word_less_nat_alt)
  show "JsonUnmarshalAddrs mem_ext (JsonMarshalAddrs mem_ext vs) = vs"
    by (simp add: mem_ext_def length_concat_be_bytes chunks20_concat)
  show "JsonMarshalAddrs mem_ext vs \<noteq> []"
    by (simp add: mem_ext_def)
qed

text \<open>An empty chain of the implementation over finite maps, for the examples.\<close>

definition mem_empty :: mem_ctx where
  "mem_empty = \<lparr>mc_acc = Map.empty, mc_slot = Map.empty, mc_array = Map.empty, mc_map = Map.empty, mc_fork = True\<rparr>"

end
