(* ===== verification/Params.thy ===== *)
theory Params
  imports Go_Prelude
begin

text \<open>
  The consensus parameters of the default build (\<open>src/param/params.go\<close>; the other two
  files hold the same names for the \<open>params_testnet\<close> and \<open>params_amber\<close> builds), with
  the width the source gives each constant.
\<close>

definition BlockMaxBytes :: i64 where "BlockMaxBytes = 4 * 1024 * 1024"
definition BlockMaxGas :: i64 where "BlockMaxGas = 1000000000"
definition DefaultMinGasPrice :: u64 where "DefaultMinGasPrice = 10000000000"
definition MaxTxGasLimit :: u64 where "MaxTxGasLimit = 10000000"
definition EpochCountBeforeRewardMature :: i64 where "EpochCountBeforeRewardMature = 1"
definition ProposerBaseMintFeePercentage :: u64 where "ProposerBaseMintFeePercentage = 15"
definition CollectorMintFeePercentage :: u64 where "CollectorMintFeePercentage = 15"
definition StakingMinVotingPercentPerEpoch :: int where "StakingMinVotingPercentPerEpoch = 10"
definition StakingMinVotingPubKeysPercentPerEpoch :: int where
  "StakingMinVotingPubKeysPercentPerEpoch = 34"
definition StakingNumBlocksInEpoch :: i64 where "StakingNumBlocksInEpoch = 2016"
definition StakingEpochSwitchDelay :: i64 where "StakingEpochSwitchDelay = 60480"
definition MaxActiveValidatorCount :: nat where "MaxActiveValidatorCount = 50"
definition BlocksInCCEpoch :: i64 where "BlocksInCCEpoch = 7"
definition XHedgeContractSequence :: u64 where "XHedgeContractSequence = 0x13311"

lemmas param_defs = BlockMaxBytes_def BlockMaxGas_def DefaultMinGasPrice_def MaxTxGasLimit_def
  EpochCountBeforeRewardMature_def ProposerBaseMintFeePercentage_def CollectorMintFeePercentage_def
  StakingMinVotingPercentPerEpoch_def StakingMinVotingPubKeysPercentPerEpoch_def
  StakingNumBlocksInEpoch_def StakingEpochSwitchDelay_def MaxActiveValidatorCount_def
  BlocksInCCEpoch_def XHedgeContractSequence_def

end
