(* ===== verification/Staking_Types.thy ===== *)
theory Staking_Types
  imports Params
begin

text \<open>
  The staking data model and its pure operations (\<open>src/staking/types/types.go\<close>).

  A pointer \<open>*Validator\<close> or \<open>*PendingReward\<close> obtained from a \<open>StakingInfo\<close> is an
  index into the slice it points into: the maps that the \<open>Get...Map\<close> operations build go
  from keys to indices, and \<open>ActiveIdx\<close> keeps the pointers that \<open>GetActiveValidators\<close>
  returns, which matters where the structs are written after the call.
  A nil slice is \<open>None\<close> where the code distinguishes it from an empty one.
\<close>

record Nomination =
  n_Pubkey :: bytes32
  n_NominatedCount :: i64

record Epoch =
  e_Number :: i64
  e_StartHeight :: i64
  e_EndTime :: i64
  e_Nominations :: "Nomination list"

record Validator =
  v_Address :: address
  v_Pubkey :: bytes32
  v_RewardTo :: address
  v_VotingPower :: i64
  v_Introduction :: bytes
  v_StakedCoins :: bytes32
  v_IsRetiring :: bool

record PendingReward =
  pr_Address :: address
  pr_EpochNum :: i64
  pr_Amount :: bytes32

record StakingInfo =
  si_GenesisMainnetBlockHeight :: i64
  si_CurrEpochNum :: i64
  si_Validators :: "Validator list"
  si_ValidatorsUpdate :: "Validator list"
  si_PendingRewards :: "PendingReward list"

datatype types_error = ValidatorAddressAlreadyExists | ValidatorPubkeyAlreadyExists

subsection \<open>Nominations\<close>

definition nomination_less :: "Nomination \<Rightarrow> Nomination \<Rightarrow> bool" where
  "nomination_less a b =
     (if sint (n_NominatedCount a) > sint (n_NominatedCount b) then True
      else if n_NominatedCount a = n_NominatedCount b then n_Pubkey a < n_Pubkey b
      else False)"

definition copyNominations :: "Nomination list \<Rightarrow> Nomination list" where
  "copyNominations list = map (\<lambda>n. \<lparr>n_Pubkey = n_Pubkey n, n_NominatedCount = n_NominatedCount n\<rparr>) list"

definition CopyEpochs :: "Epoch list \<Rightarrow> Epoch list" where
  "CopyEpochs list = map (\<lambda>e. \<lparr>e_Number = e_Number e, e_StartHeight = e_StartHeight e,
     e_EndTime = e_EndTime e, e_Nominations = copyNominations (e_Nominations e)\<rparr>) list"

subsection \<open>Lookups\<close>

fun index_map :: "('v \<Rightarrow> 'k) \<Rightarrow> nat \<Rightarrow> 'v list \<Rightarrow> ('k \<rightharpoonup> nat) \<Rightarrow> ('k \<rightharpoonup> nat)" where
  "index_map key i [] m = m"
| "index_map key i (v # vs) m = index_map key (Suc i) vs (m(key v \<mapsto> i))"

definition GetValMapByPubkey :: "StakingInfo \<Rightarrow> (bytes32 \<rightharpoonup> nat)" where
  "GetValMapByPubkey si = index_map v_Pubkey 0 (si_Validators si) Map.empty"

definition GetValMapByAddr :: "StakingInfo \<Rightarrow> (address \<rightharpoonup> nat)" where
  "GetValMapByAddr si = index_map v_Address 0 (si_Validators si) Map.empty"

fun curr_reward_map :: "i64 \<Rightarrow> nat \<Rightarrow> PendingReward list \<Rightarrow> (address \<rightharpoonup> nat) \<Rightarrow> (address \<rightharpoonup> nat)" where
  "curr_reward_map ep i [] m = m"
| "curr_reward_map ep i (pr # prs) m =
     curr_reward_map ep (Suc i) prs (if pr_EpochNum pr = ep then m(pr_Address pr \<mapsto> i) else m)"

definition GetCurrRewardMapByAddr :: "StakingInfo \<Rightarrow> (address \<rightharpoonup> nat)" where
  "GetCurrRewardMapByAddr si = curr_reward_map (si_CurrEpochNum si) 0 (si_PendingRewards si) Map.empty"

definition GetValidatorByAddr :: "StakingInfo \<Rightarrow> address \<Rightarrow> Validator option" where
  "GetValidatorByAddr si addr = find (\<lambda>v. v_Address v = addr) (si_Validators si)"

definition GetValidatorByPubkey :: "StakingInfo \<Rightarrow> bytes32 \<Rightarrow> Validator option" where
  "GetValidatorByPubkey si pubkey = find (\<lambda>v. v_Pubkey v = pubkey) (si_Validators si)"

subsection \<open>Updates\<close>

fun add_conflict :: "address \<Rightarrow> bytes32 \<Rightarrow> Validator list \<Rightarrow> types_error option" where
  "add_conflict addr pubkey [] = None"
| "add_conflict addr pubkey (v # vs) =
     (if addr = v_Address v then Some ValidatorAddressAlreadyExists
      else if pubkey = v_Pubkey v then Some ValidatorPubkeyAlreadyExists
      else add_conflict addr pubkey vs)"

definition AddValidator ::
  "StakingInfo \<Rightarrow> address \<Rightarrow> bytes32 \<Rightarrow> bytes \<Rightarrow> bytes32 \<Rightarrow> address \<Rightarrow> types_error + StakingInfo" where
  "AddValidator si addr pubkey intro stakedCoins rewardTo =
     (case add_conflict addr pubkey (si_Validators si) of
        Some e \<Rightarrow> Inl e
      | None \<Rightarrow> Inr (si\<lparr>si_Validators := si_Validators si @
          [\<lparr>v_Address = addr, v_Pubkey = pubkey, v_RewardTo = rewardTo, v_VotingPower = 0,
            v_Introduction = intro, v_StakedCoins = stakedCoins, v_IsRetiring = False\<rparr>]\<rparr>))"

text \<open>The keys of the returned map, in the order the loop inserts them.\<close>

definition GetUselessValidators :: "StakingInfo \<Rightarrow> address list" where
  "GetUselessValidators si =
     fold (\<lambda>pr res. removeAll (pr_Address pr) res) (si_PendingRewards si)
       (remdups (map v_Address (filter (\<lambda>v. v_VotingPower v = 0) (si_Validators si))))"

fun clear_rewards :: "i64 \<Rightarrow> address \<Rightarrow> PendingReward list \<Rightarrow> u256 \<times> PendingReward list" where
  "clear_rewards ep addr [] = (0, [])"
| "clear_rewards ep addr (rwd # rwds) =
     (let (total, rwdList) = clear_rewards ep addr rwds
      in if pr_Address rwd = addr
         then (pr_Amount rwd + total,
               if pr_EpochNum rwd = ep then rwd\<lparr>pr_Amount := 0\<rparr> # rwdList else rwdList)
         else (total, rwd # rwdList))"

definition ClearRewardsOf :: "StakingInfo \<Rightarrow> address \<Rightarrow> u256 \<times> StakingInfo" where
  "ClearRewardsOf si addr =
     (let (totalCleared, rwdList) = clear_rewards (si_CurrEpochNum si) addr (si_PendingRewards si)
      in (totalCleared, si\<lparr>si_PendingRewards := rwdList\<rparr>))"

subsection \<open>The active set\<close>

definition is_active :: "u256 \<Rightarrow> Validator \<Rightarrow> bool" where
  "is_active minStakedCoins v \<longleftrightarrow>
     v_StakedCoins v \<ge> minStakedCoins \<and> \<not> v_IsRetiring v \<and> sint (v_VotingPower v) > 0"

text \<open>\<open>sort.SliceStable\<close> by descending voting power, then at most \<open>MaxActiveValidatorCount\<close>.\<close>

definition ActiveIdx :: "Validator list \<Rightarrow> u256 \<Rightarrow> nat list" where
  "ActiveIdx vals minStakedCoins =
     take MaxActiveValidatorCount
       (sort_key (\<lambda>i. - sint (v_VotingPower (vals ! i)))
          (filter (\<lambda>i. is_active minStakedCoins (vals ! i)) [0..<length vals]))"

definition GetActiveValidators :: "Validator list \<Rightarrow> u256 \<Rightarrow> Validator list" where
  "GetActiveValidators vals minStakedCoins = map ((!) vals) (ActiveIdx vals minStakedCoins)"

subsection \<open>Validator set updates\<close>

definition update_step ::
  "(address \<times> Validator) list \<times> Validator list \<Rightarrow> Validator \<Rightarrow> (address \<times> Validator) list \<times> Validator list"
where
  "update_step st v = (case st of (newValMap, updatedList) \<Rightarrow>
     (case map_of newValMap (v_Address v) of
        None \<Rightarrow> (newValMap, updatedList @ [v\<lparr>v_VotingPower := 0\<rparr>])
      | Some nv \<Rightarrow>
          (AList.delete (v_Address v) newValMap,
           if v_VotingPower v \<noteq> v_VotingPower nv then updatedList @ [nv] else updatedList)))"

definition GetUpdateValidatorSet ::
  "address iter \<Rightarrow> Validator list \<Rightarrow> Validator list option \<Rightarrow> Validator list option"
where
  "GetUpdateValidatorSet it currentValidators newValidators =
     (case newValidators of
        None \<Rightarrow> None
      | Some newVals \<Rightarrow>
          let newValMap = foldl (\<lambda>m v. AList.update (v_Address v) v m) [] newVals;
              (rest, updatedList) = foldl update_step (newValMap, []) currentValidators;
              added = map (\<lambda>a. the (map_of rest a)) (it (map fst rest))
          in Some (sort_key v_Address (updatedList @ added)))"

subsection \<open>Well-formed staking state\<close>

text \<open>
  The uniqueness that \<open>AddValidator\<close> maintains, and that every pending reward belongs to
  a validator that is still registered.
\<close>

definition unique_validators :: "Validator list \<Rightarrow> bool" where
  "unique_validators vals \<longleftrightarrow> distinct (map v_Address vals) \<and> distinct (map v_Pubkey vals)"

definition wf_info :: "StakingInfo \<Rightarrow> bool" where
  "wf_info si \<longleftrightarrow> unique_validators (si_Validators si) \<and>
     (\<forall>pr \<in> set (si_PendingRewards si). pr_Address pr \<in> set (map v_Address (si_Validators si)))"


text \<open>
  What Tendermint does with a list of validator updates: a zero power removes the
  validator, any other power inserts or replaces it. The maps are over the address, as in the
  contract; Tendermint goes by the consensus key, and \<open>apply_key_updates\<close> below does the same
  over keys.
\<close>

definition power_map :: "Validator list \<Rightarrow> (address \<rightharpoonup> i64)" where
  "power_map vals = map_of (map (\<lambda>v. (v_Address v, v_VotingPower v)) vals)"

fun apply_updates :: "(address \<rightharpoonup> i64) \<Rightarrow> Validator list \<Rightarrow> (address \<rightharpoonup> i64)" where
  "apply_updates m [] = m"
| "apply_updates m (v # vs) =
     apply_updates (if v_VotingPower v = 0 then m(v_Address v := None)
                    else m(v_Address v \<mapsto> v_VotingPower v)) vs"

text \<open>The rank of two registered validators: power first, then registration order.\<close>

definition ranks_before :: "Validator list \<Rightarrow> nat \<Rightarrow> nat \<Rightarrow> bool" where
  "ranks_before vals i j \<longleftrightarrow>
     sint (v_VotingPower (vals ! i)) > sint (v_VotingPower (vals ! j)) \<or>
     v_VotingPower (vals ! i) = v_VotingPower (vals ! j) \<and> i < j"

text \<open>Concrete validators, for the examples.\<close>

definition sample_validator :: "nat \<Rightarrow> i64 \<Rightarrow> Validator" where
  "sample_validator n p = \<lparr>v_Address = of_nat n, v_Pubkey = of_nat n, v_RewardTo = of_nat (n + 100),
     v_VotingPower = p, v_Introduction = [0x76], v_StakedCoins = 1000, v_IsRetiring = False\<rparr>"

definition sample_info :: StakingInfo where
  "sample_info = \<lparr>si_GenesisMainnetBlockHeight = 0, si_CurrEpochNum = 3,
     si_Validators = [sample_validator 1 1, sample_validator 2 1], si_ValidatorsUpdate = [],
     si_PendingRewards = [\<lparr>pr_Address = 1, pr_EpochNum = 2, pr_Amount = 30\<rparr>,
       \<lparr>pr_Address = 1, pr_EpochNum = 3, pr_Amount = 12\<rparr>, \<lparr>pr_Address = 2, pr_EpochNum = 3, pr_Amount = 5\<rparr>]\<rparr>"

text \<open>The coins pending for one address.\<close>

definition pending_of :: "address \<Rightarrow> PendingReward list \<Rightarrow> nat" where
  "pending_of addr prs = sum_list (map (\<lambda>pr. unat (pr_Amount pr)) (filter (\<lambda>pr. pr_Address pr = addr) prs))"

text \<open>What the update loop emits for one current validator, and the list before sorting.\<close>

definition changed :: "(address \<times> Validator) list \<Rightarrow> Validator \<Rightarrow> Validator option" where
  "changed m v = (case map_of m (v_Address v) of
      None \<Rightarrow> Some (v\<lparr>v_VotingPower := 0\<rparr>)
    | Some nv \<Rightarrow> if v_VotingPower v \<noteq> v_VotingPower nv then Some nv else None)"

definition update_items :: "address iter \<Rightarrow> Validator list \<Rightarrow> Validator list \<Rightarrow> Validator list" where
  "update_items it cur new =
     (let m = map (\<lambda>v. (v_Address v, v)) new;
          rest = filter (\<lambda>(a, _). a \<notin> v_Address ` set cur) m
      in List.map_filter (changed m) cur @ map (\<lambda>a. the (map_of rest a)) (it (map fst rest)))"

subsection \<open>Facts on the lookups\<close>

lemma index_map_SomeD:
  "index_map key i vs m k = Some j \<Longrightarrow>
     (m k = Some j \<and> k \<notin> key ` set vs) \<or> (i \<le> j \<and> j < i + length vs \<and> key (vs ! (j - i)) = k)"
proof (induction vs arbitrary: i m)
  case Nil
  then show ?case by simp
next
  case (Cons v vs)
  then have "index_map key (Suc i) vs (m(key v \<mapsto> i)) k = Some j" by simp
  from Cons.IH [OF this] show ?case
    by (auto split: if_splits simp: nth_Cons' le_Suc_eq)
qed

lemma index_map_None:
  "index_map key i vs m k = None \<longleftrightarrow> m k = None \<and> k \<notin> key ` set vs"
  by (induction vs arbitrary: i m) auto

lemma index_map_nth:
  assumes "index_map key 0 vs Map.empty k = Some j"
  shows "j < length vs" and "key (vs ! j) = k"
  using index_map_SomeD [OF assms] by auto

lemma GetValidatorByAddr_SomeD:
  "GetValidatorByAddr si a = Some v \<Longrightarrow> v \<in> set (si_Validators si) \<and> v_Address v = a"
  by (auto simp: GetValidatorByAddr_def dest: find_Some_in)

lemma GetValidatorByPubkey_SomeD:
  "GetValidatorByPubkey si a = Some v \<Longrightarrow> v \<in> set (si_Validators si) \<and> v_Pubkey v = a"
  by (auto simp: GetValidatorByPubkey_def dest: find_Some_in)

lemma add_conflict_None:
  "add_conflict addr pubkey vs = None \<longleftrightarrow> addr \<notin> v_Address ` set vs \<and> pubkey \<notin> v_Pubkey ` set vs"
  by (induction vs) auto

lemma add_conflict_address:
  "add_conflict addr pubkey vs = Some ValidatorAddressAlreadyExists \<Longrightarrow> addr \<in> v_Address ` set vs"
  by (induction vs) (auto split: if_splits)

lemma add_conflict_pubkey:
  "add_conflict addr pubkey vs = Some ValidatorPubkeyAlreadyExists \<Longrightarrow> pubkey \<in> v_Pubkey ` set vs"
  by (induction vs) (auto split: if_splits)

lemma set_GetUselessValidators:
  "set (GetUselessValidators si) =
     {v_Address v | v. v \<in> set (si_Validators si) \<and> v_VotingPower v = 0}
       - pr_Address ` set (si_PendingRewards si)"
proof -
  have "set (fold (\<lambda>pr res. removeAll (pr_Address pr) res) prs xs) = set xs - pr_Address ` set prs"
    for prs xs
    by (induction prs arbitrary: xs) auto
  then show ?thesis
    unfolding GetUselessValidators_def by auto
qed

lemma distinct_GetUselessValidators [simp]: "distinct (GetUselessValidators si)"
proof -
  have "distinct xs \<Longrightarrow> distinct (fold (\<lambda>pr res. removeAll (pr_Address pr) res) prs xs)" for prs xs
    by (induction prs arbitrary: xs) (auto simp: distinct_removeAll)
  from this [OF distinct_remdups] show ?thesis unfolding GetUselessValidators_def .
qed

subsection \<open>The active set\<close>

lemma map_sort_key_map: "map f (sort_key (g \<circ> f) xs) = sort_key g (map f xs)"
proof -
  have "map f (insort_key (g \<circ> f) x ys) = insort_key g (f x) (map f ys)" for x ys
    by (induction ys) auto
  then show ?thesis by (induction xs) auto
qed

lemma GetActiveValidators_eq:
  "GetActiveValidators vals m =
     take MaxActiveValidatorCount (sort_key (\<lambda>v. - sint (v_VotingPower v)) (filter (is_active m) vals))"
proof -
  have "map ((!) vals) (filter (\<lambda>i. is_active m (vals ! i)) [0..<length vals]) = filter (is_active m) vals"
    by (metis (no_types, lifting) comp_apply filter_cong filter_map map_nth)
  moreover have "map ((!) vals) (take MaxActiveValidatorCount xs) = take MaxActiveValidatorCount (map ((!) vals) xs)" for xs
    by (rule take_map [symmetric])
  ultimately show ?thesis
    unfolding GetActiveValidators_def ActiveIdx_def
    using map_sort_key_map [of "(!) vals" "\<lambda>v. - sint (v_VotingPower v)"]
    by (simp add: comp_def)
qed

lemma GetActiveValidators_subset:
  "v \<in> set (GetActiveValidators vals m) \<Longrightarrow> v \<in> set vals \<and> is_active m v"
  unfolding GetActiveValidators_eq by (auto dest!: in_set_takeD)

lemma ActiveIdx_less: "i \<in> set (ActiveIdx vals m) \<Longrightarrow> i < length vals"
  unfolding ActiveIdx_def by (auto dest!: in_set_takeD)

lemma distinct_map_take: "distinct (map f xs) \<Longrightarrow> distinct (map f (take n xs))"
  by (metis distinct_take take_map)

lemma GetActiveValidators_distinct:
  assumes "distinct (map key vals)"
  shows "distinct (map key (GetActiveValidators vals m))"
proof -
  let ?s = "sort_key (\<lambda>v. - sint (v_VotingPower v)) (filter (is_active m) vals)"
  have "distinct (map key (filter (is_active m) vals))"
    using assms by (rule distinct_map_filter)
  then have "distinct (map key ?s)"
    by (simp add: distinct_map)
  then show ?thesis
    unfolding GetActiveValidators_eq by (rule distinct_map_take)
qed

subsection \<open>Updates of the validator set\<close>

lemma foldl_update_step:
  assumes "distinct (map v_Address cur)"
  shows "foldl update_step (m, out) cur =
    (filter (\<lambda>(a, _). a \<notin> v_Address ` set cur) m, out @ List.map_filter (changed m) cur)"
  using assms
proof (induction cur arbitrary: m out)
  case Nil
  then show ?case by (simp add: List.map_filter_simps split_def)
next
  case (Cons v cur)
  let ?m = "AList.delete (v_Address v) m"
  have other: "changed ?m w = changed m w" if "w \<in> set cur" for w
  proof -
    have "v_Address w \<noteq> v_Address v" using Cons.prems that by (auto simp: rev_image_eqI)
    then show ?thesis by (simp add: changed_def AList.delete_conv')
  qed
  then have mf: "List.map_filter (changed ?m) cur = List.map_filter (changed m) cur"
    by (simp add: List.map_filter_def cong: filter_cong map_cong)
  have del: "map_of m (v_Address v) = None \<Longrightarrow> ?m = m"
    by (simp add: AList.delete_idem map_of_eq_None_iff)
  have flt: "filter (\<lambda>(a, _). a \<notin> v_Address ` set cur) ?m =
      filter (\<lambda>(a, _). a \<notin> v_Address ` set (v # cur)) m"
    by (auto simp: AList.delete_eq intro: filter_cong)
  have step: "update_step (m, out) v = (?m, out @ List.map_filter (changed m) [v])"
    using del by (auto simp: update_step_def changed_def List.map_filter_simps split: option.splits)
  have "foldl update_step (m, out) (v # cur) = foldl update_step (?m, out @ List.map_filter (changed m) [v]) cur"
    by (simp add: step)
  also have "\<dots> = (filter (\<lambda>(a, _). a \<notin> v_Address ` set cur) ?m,
      (out @ List.map_filter (changed m) [v]) @ List.map_filter (changed ?m) cur)"
    using Cons.prems by (intro Cons.IH) simp
  finally show ?case
    unfolding flt mf by (auto simp: List.map_filter_simps split: option.splits)
qed

lemma apply_updates_map_of:
  "distinct (map v_Address upd) \<Longrightarrow>
   apply_updates m upd a = (case map_of (map (\<lambda>v. (v_Address v, v_VotingPower v)) upd) a of
      None \<Rightarrow> m a | Some p \<Rightarrow> if p = 0 then None else Some p)"
proof (induction upd arbitrary: m)
  case Nil
  then show ?case by simp
next
  case (Cons v upd)
  have "map_of (map (\<lambda>v. (v_Address v, v_VotingPower v)) upd) (v_Address v) = None"
    using Cons.prems by (auto simp: map_of_eq_None_iff)
  with Cons show ?case by (auto split: option.splits)
qed

lemma map_of_member:
  assumes "distinct (map key xs)"
  shows "map_of (map (\<lambda>v. (key v, f v)) xs) a = Some p \<longleftrightarrow> (\<exists>v \<in> set xs. key v = a \<and> f v = p)"
proof -
  have "distinct (map fst (map (\<lambda>v. (key v, f v)) xs))" using assms by (simp add: comp_def)
  then show ?thesis by (auto simp: map_of_eq_Some_iff)
qed


lemma AList_update_new: "k \<notin> fst ` set m \<Longrightarrow> AList.update k v m = m @ [(k, v)]"
  by (induction m) auto

lemma foldl_AList_update_distinct:
  assumes "distinct (map v_Address vs)" and "v_Address ` set vs \<inter> fst ` set m = {}"
  shows "foldl (\<lambda>m v. AList.update (v_Address v) v m) m vs = m @ map (\<lambda>v. (v_Address v, v)) vs"
  using assms
proof (induction vs arbitrary: m)
  case Nil
  then show ?case by simp
next
  case (Cons v vs)
  have "AList.update (v_Address v) v m = m @ [(v_Address v, v)]"
    using Cons.prems by (intro AList_update_new) auto
  with Cons show ?case by auto
qed

lemma GetUpdateValidatorSet_items:
  assumes "distinct (map v_Address cur)" and "distinct (map v_Address new)"
  shows "GetUpdateValidatorSet it cur (Some new) = Some (sort_key v_Address (update_items it cur new))"
  unfolding GetUpdateValidatorSet_def update_items_def
  by (simp add: foldl_AList_update_distinct assms foldl_update_step Let_def)

lemma changed_keeps_address:
  "changed (map (\<lambda>v. (v_Address v, v)) new) v = Some w \<Longrightarrow> v_Address w = v_Address v"
  by (auto simp: changed_def split: option.splits if_splits dest!: map_of_SomeD)

lemma map_map_filter_keep:
  "(\<And>x y. f x = Some y \<Longrightarrow> g y = g x) \<Longrightarrow> map g (List.map_filter f xs) = map g (filter (\<lambda>x. f x \<noteq> None) xs)"
  by (induction xs) (auto simp: List.map_filter_simps split: option.splits)

lemma set_map_filter: "set (List.map_filter f xs) = {y. \<exists>x \<in> set xs. f x = Some y}"
  by (induction xs) (auto simp: List.map_filter_simps split: option.splits)

lemma map_of_filter_self:
  assumes "distinct (map key xs)" and "x \<in> set xs" and "Q (key x)"
  shows "map_of (filter (\<lambda>(a, _). Q a) (map (\<lambda>v. (key v, v)) xs)) (key x) = Some x"
proof (rule map_of_is_SomeI)
  show "distinct (map fst (filter (\<lambda>(a, _). Q a) (map (\<lambda>v. (key v, v)) xs)))"
    using assms(1) by (intro distinct_map_filter) (simp add: comp_def)
  show "(key x, x) \<in> set (filter (\<lambda>(a, _). Q a) (map (\<lambda>v. (key v, v)) xs))"
    using assms by auto
qed

lemma added_items:
  fixes cur :: "Validator list"
  assumes "is_iter it" and "distinct (map v_Address new)"
  defines "rest \<equiv> filter (\<lambda>(a, _). a \<notin> v_Address ` set cur) (map (\<lambda>v. (v_Address v, v)) new)"
  shows "set (map (\<lambda>a. the (map_of rest a)) (it (map fst rest))) =
      {w \<in> set new. v_Address w \<notin> v_Address ` set cur}"
    and "map v_Address (map (\<lambda>a. the (map_of rest a)) (it (map fst rest))) = it (map fst rest)"
proof -
  have look: "map_of rest (v_Address w) = Some w"
    if "w \<in> set new" "v_Address w \<notin> v_Address ` set cur" for w
    unfolding rest_def using assms(2) that by (rule map_of_filter_self)
  have keys: "set (map fst rest) = {v_Address w | w. w \<in> set new \<and> v_Address w \<notin> v_Address ` set cur}"
    by (force simp: rest_def)
  show "set (map (\<lambda>a. the (map_of rest a)) (it (map fst rest))) =
      {w \<in> set new. v_Address w \<notin> v_Address ` set cur}"
  proof (rule set_eqI, rule iffI)
    fix w assume "w \<in> set (map (\<lambda>a. the (map_of rest a)) (it (map fst rest)))"
    then obtain a where a: "a \<in> set (map fst rest)" "w = the (map_of rest a)"
      using assms(1) by auto
    from a(1) keys obtain u where "u \<in> set new" "v_Address u \<notin> v_Address ` set cur" "a = v_Address u"
      by blast
    with a(2) look show "w \<in> {w \<in> set new. v_Address w \<notin> v_Address ` set cur}" by simp
  next
    fix w assume w: "w \<in> {w \<in> set new. v_Address w \<notin> v_Address ` set cur}"
    then have "v_Address w \<in> set (it (map fst rest))" unfolding is_iter_set [OF assms(1)] keys by blast
    then have "the (map_of rest (v_Address w)) \<in> set (map (\<lambda>a. the (map_of rest a)) (it (map fst rest)))"
      unfolding set_map by (rule imageI)
    then show "w \<in> set (map (\<lambda>a. the (map_of rest a)) (it (map fst rest)))" using w look by simp
  qed
  show "map v_Address (map (\<lambda>a. the (map_of rest a)) (it (map fst rest))) = it (map fst rest)"
  proof (unfold map_map comp_def, rule map_idI)
    fix a assume "a \<in> set (it (map fst rest))"
    then obtain w where "w \<in> set new" "v_Address w \<notin> v_Address ` set cur" "a = v_Address w"
      using keys assms(1) by auto
    then show "v_Address (the (map_of rest a)) = a" using look by simp
  qed
qed

lemma set_update_items:
  assumes "is_iter it" and "distinct (map v_Address new)"
  shows "set (update_items it cur new) =
    {w. \<exists>v \<in> set cur. changed (map (\<lambda>v. (v_Address v, v)) new) v = Some w} \<union>
    {w \<in> set new. v_Address w \<notin> v_Address ` set cur}"
  unfolding update_items_def Let_def set_append added_items(1) [OF assms] set_map_filter ..

lemma distinct_update_items:
  assumes "is_iter it" and "distinct (map v_Address cur)" and "distinct (map v_Address new)"
  shows "distinct (map v_Address (update_items it cur new))"
proof -
  let ?m = "map (\<lambda>v. (v_Address v, v)) new"
  let ?rest = "filter (\<lambda>(a, _). a \<notin> v_Address ` set cur) ?m"
  have kept: "map v_Address (List.map_filter (changed ?m) cur) =
      map v_Address (filter (\<lambda>v. changed ?m v \<noteq> None) cur)"
    by (rule map_map_filter_keep) (rule changed_keeps_address)
  have "distinct (map fst ?rest)"
    using assms(3) by (intro distinct_map_filter) (simp add: comp_def)
  then show ?thesis
    unfolding update_items_def Let_def map_append kept added_items(2) [OF assms(1,3)]
    using assms(1,2) by (auto simp: distinct_map_filter rev_image_eqI)
qed


lemma update_items_iter:
  assumes "is_iter it" and "is_iter it'"
  shows "mset (update_items it cur new) = mset (update_items it' cur new)"
  unfolding update_items_def Let_def by (simp add: assms)

lemma GetUpdateValidatorSet_iter:
  assumes "is_iter it" and "is_iter it'"
    and "distinct (map v_Address cur)" and "distinct (map v_Address new)"
  shows "GetUpdateValidatorSet it cur (Some new) = GetUpdateValidatorSet it' cur (Some new)"
proof -
  let ?ys = "sort_key v_Address (update_items it' cur new)"
  have "sort_key v_Address (update_items it cur new) = ?ys"
  proof (rule sort_key_inj_key_eq)
    show "mset (update_items it cur new) = mset ?ys"
      using update_items_iter [OF assms(1,2)] by simp
    show "inj_on v_Address (set (update_items it cur new))"
      using distinct_update_items [OF assms(1,3,4)] by (simp add: distinct_map)
  qed simp
  then show ?thesis by (simp add: GetUpdateValidatorSet_items assms)
qed

text \<open>The power an update list gives to an address, on both sides of the current set.\<close>

lemma map_of_update_items:
  assumes "distinct (map v_Address upd)" and "set upd = set (update_items it cur new)"
  shows "map_of (map (\<lambda>v. (v_Address v, v_VotingPower v)) upd) a = Some p \<longleftrightarrow>
      (\<exists>w. w \<in> set (update_items it cur new) \<and> v_Address w = a \<and> v_VotingPower w = p)"
  unfolding map_of_member [OF assms(1)] assms(2) by blast

lemma update_power_current:
  assumes it: "is_iter it" and cur: "distinct (map v_Address cur)" and new: "distinct (map v_Address new)"
    and upd: "distinct (map v_Address upd)" "set upd = set (update_items it cur new)"
    and v: "v \<in> set cur"
  shows "map_of (map (\<lambda>v. (v_Address v, v_VotingPower v)) upd) (v_Address v) =
    map_option v_VotingPower (changed (map (\<lambda>v. (v_Address v, v)) new) v)"
proof (rule option_eqI)
  fix p
  let ?m = "map (\<lambda>v. (v_Address v, v)) new"
  note items = set_update_items [OF it new, of cur]
  have "w \<in> set (update_items it cur new) \<and> v_Address w = v_Address v \<longleftrightarrow> changed ?m v = Some w" for w
  proof
    assume w: "w \<in> set (update_items it cur new) \<and> v_Address w = v_Address v"
    then obtain v' where v': "v' \<in> set cur" "changed ?m v' = Some w" using items v by auto
    then have "v_Address v' = v_Address v" using w changed_keeps_address [OF v'(2)] by simp
    then have "v' = v" using cur v v'(1) by (auto simp: distinct_map dest: inj_onD)
    with v' show "changed ?m v = Some w" by simp
  next
    assume "changed ?m v = Some w"
    then show "w \<in> set (update_items it cur new) \<and> v_Address w = v_Address v"
      using items v changed_keeps_address [of new v w] by auto
  qed
  then show "map_of (map (\<lambda>v. (v_Address v, v_VotingPower v)) upd) (v_Address v) = Some p \<longleftrightarrow>
      map_option v_VotingPower (changed ?m v) = Some p"
    unfolding map_of_update_items [OF upd] by auto
qed

lemma update_power_new:
  assumes it: "is_iter it" and new: "distinct (map v_Address new)"
    and upd: "distinct (map v_Address upd)" "set upd = set (update_items it cur new)"
    and a: "a \<notin> v_Address ` set cur"
  shows "map_of (map (\<lambda>v. (v_Address v, v_VotingPower v)) upd) a = power_map new a"
proof (rule option_eqI)
  fix p
  have "w \<in> set (update_items it cur new) \<and> v_Address w = a \<longleftrightarrow> w \<in> set new \<and> v_Address w = a" for w
    using a set_update_items [OF it new, of cur] changed_keeps_address [of new] by auto
  then show "map_of (map (\<lambda>v. (v_Address v, v_VotingPower v)) upd) a = Some p \<longleftrightarrow> power_map new a = Some p"
    unfolding map_of_update_items [OF upd] power_map_def map_of_member [OF new] by blast
qed

lemma power_map_Some:
  "distinct (map v_Address vs) \<Longrightarrow>
   power_map vs a = Some p \<longleftrightarrow> (\<exists>v \<in> set vs. v_Address v = a \<and> v_VotingPower v = p)"
  unfolding power_map_def by (rule map_of_member)

lemma apply_update_items:
  assumes it: "is_iter it" and cur: "distinct (map v_Address cur)"
    and new: "distinct (map v_Address new)" and pos: "\<forall>v \<in> set new. v_VotingPower v \<noteq> 0"
    and upd: "distinct (map v_Address upd)" "set upd = set (update_items it cur new)"
  shows "apply_updates (power_map cur) upd = power_map new"
proof
  fix a
  let ?m = "map (\<lambda>v. (v_Address v, v)) new"
  have nz: "power_map new a = Some p \<Longrightarrow> p \<noteq> 0" for p
    using power_map_Some [OF new] pos by auto
  show "apply_updates (power_map cur) upd a = power_map new a"
  proof (cases "a \<in> v_Address ` set cur")
    case True
    then obtain v where v: "v \<in> set cur" "a = v_Address v" by auto
    then have pc: "power_map cur a = Some (v_VotingPower v)"
      using power_map_Some [OF cur] by auto
    have pn: "power_map new a = map_option v_VotingPower (map_of ?m a)"
      unfolding power_map_def by (induction new) auto
    show ?thesis
      using update_power_current [OF it cur new upd v(1)] pc pn nz
      by (cases "map_of ?m a") (auto simp: apply_updates_map_of upd(1) changed_def v(2))
  next
    case False
    then have "power_map cur a = None" by (auto simp: power_map_def map_of_eq_None_iff)
    with update_power_new [OF it new upd False] nz show ?thesis
      by (cases "power_map new a") (auto simp: apply_updates_map_of upd(1))
  qed
qed

text \<open>
  The same over consensus keys: where address and key of the validators determine each other,
  which \<open>AddValidator\<close> sees to and no operation changes, the two ways to address them agree.
\<close>

definition key_map :: "Validator list \<Rightarrow> (bytes32 \<rightharpoonup> i64)" where
  "key_map vals = map_of (map (\<lambda>v. (v_Pubkey v, v_VotingPower v)) vals)"

fun apply_key_updates :: "(bytes32 \<rightharpoonup> i64) \<Rightarrow> Validator list \<Rightarrow> (bytes32 \<rightharpoonup> i64)" where
  "apply_key_updates m [] = m"
| "apply_key_updates m (v # vs) =
     apply_key_updates (if v_VotingPower v = 0 then m(v_Pubkey v := None)
                        else m(v_Pubkey v \<mapsto> v_VotingPower v)) vs"

definition val_ids :: "Validator list \<Rightarrow> (address \<times> bytes32) set" where
  "val_ids vals = (\<lambda>v. (v_Address v, v_Pubkey v)) ` set vals"

definition paired_ids :: "(address \<times> bytes32) set \<Rightarrow> bool" where
  "paired_ids P \<longleftrightarrow> (\<forall>(a, k) \<in> P. \<forall>(b, l) \<in> P. a = b \<longleftrightarrow> k = l)"

definition same_power :: "(address \<times> bytes32) set \<Rightarrow> (address \<rightharpoonup> i64) \<Rightarrow> (bytes32 \<rightharpoonup> i64) \<Rightarrow> bool" where
  "same_power P m mk \<longleftrightarrow> (\<forall>(a, k) \<in> P. mk k = m a) \<and> (\<forall>k. k \<notin> snd ` P \<longrightarrow> mk k = None)"

lemma same_power_upd:
  assumes "paired_ids P" and "same_power P m mk" and "(a, k) \<in> P"
  shows "same_power P (m(a := x)) (mk(k := x))"
proof -
  have "(mk(k := x)) l = (m(a := x)) b" if "(b, l) \<in> P" for b l
  proof -
    have "b = a \<longleftrightarrow> l = k" using assms(1,3) that by (auto simp: paired_ids_def)
    then show ?thesis using assms(2) that by (auto simp: same_power_def)
  qed
  moreover have "(mk(k := x)) l = None" if "l \<notin> snd ` P" for l
    using assms(2,3) that by (force simp: same_power_def)
  ultimately show ?thesis by (auto simp: same_power_def simp del: fun_upd_apply)
qed

lemma same_power_maps:
  assumes "paired_ids P" and "val_ids vals \<subseteq> P"
  shows "same_power P (power_map vals) (key_map vals)"
  using assms(2)
proof (induction vals)
  case (Cons v vals)
  then show ?case
    using same_power_upd [OF assms(1), of "power_map vals" "key_map vals" "v_Address v" "v_Pubkey v" "Some (v_VotingPower v)"]
    by (simp add: power_map_def key_map_def val_ids_def del: fun_upd_apply)
qed (simp add: same_power_def power_map_def key_map_def)

lemma same_power_apply:
  assumes "paired_ids P" and "val_ids upd \<subseteq> P" and "same_power P m mk"
  shows "same_power P (apply_updates m upd) (apply_key_updates mk upd)"
  using assms(2,3)
proof (induction upd arbitrary: m mk)
  case (Cons v upd)
  then show ?case using same_power_upd [OF assms(1), of m mk "v_Address v" "v_Pubkey v"] by (simp add: val_ids_def)
qed simp

lemma same_power_unique:
  assumes "same_power P m mk" and "same_power P m mk'"
  shows "mk = mk'"
proof
  fix k
  show "mk k = mk' k"
  proof (cases "k \<in> snd ` P")
    case True
    then obtain a where "(a, k) \<in> P" by auto
    then have "mk k = m a" "mk' k = m a" using assms by (auto simp: same_power_def)
    then show ?thesis by simp
  qed (use assms in \<open>simp add: same_power_def\<close>)
qed

lemma GetUpdateValidatorSet_by_key:
  assumes "is_iter it" and "distinct (map v_Address cur)" and "distinct (map v_Address new)"
    and "\<forall>v \<in> set new. v_VotingPower v \<noteq> 0" and "paired_ids (val_ids (cur @ new))"
  shows "\<exists>upd. GetUpdateValidatorSet it cur (Some new) = Some upd \<and> apply_key_updates (key_map cur) upd = key_map new"
proof -
  let ?upd = "sort_key v_Address (update_items it cur new)" and ?P = "val_ids (cur @ new)"
  have "distinct (map v_Address ?upd)" using distinct_update_items [OF assms(1-3)] by (simp add: distinct_map)
  then have by_address: "apply_updates (power_map cur) ?upd = power_map new"
    by (rule apply_update_items [OF assms(1-4)]) simp
  have "(v_Address w, v_Pubkey w) \<in> ?P" if "v \<in> set cur" "changed (map (\<lambda>v. (v_Address v, v)) new) v = Some w" for v w
    using that by (auto simp: val_ids_def changed_def image_iff split: option.splits if_splits dest!: map_of_SomeD)
  then have "val_ids ?upd \<subseteq> ?P"
    using set_update_items [OF assms(1,3), of cur] by (auto simp: val_ids_def)
  moreover have P: "val_ids cur \<subseteq> ?P" "val_ids new \<subseteq> ?P" by (auto simp: val_ids_def)
  ultimately have "same_power ?P (power_map new) (apply_key_updates (key_map cur) ?upd)"
    using same_power_apply [OF assms(5) _ same_power_maps [OF assms(5) P(1)], of ?upd] by_address by simp
  moreover have "same_power ?P (power_map new) (key_map new)" by (rule same_power_maps [OF assms(5) P(2)])
  ultimately show ?thesis using same_power_unique GetUpdateValidatorSet_items [OF assms(2,3)] by blast
qed

subsection \<open>Stability of the selection\<close>

lemma insort_key_stable:
  assumes "sorted_wrt (\<lambda>a b. f a < f b \<or> f a = f b \<and> a < b) ys" and "\<forall>y \<in> set ys. x < y"
  shows "sorted_wrt (\<lambda>a b. f a < f b \<or> f a = f b \<and> a < b) (insort_key (f :: nat \<Rightarrow> int) x ys)"
  using assms by (induction ys) (auto simp: set_insort_key)

lemma sort_key_stable_wrt:
  "sorted_wrt (<) xs \<Longrightarrow>
   sorted_wrt (\<lambda>a b. f a < f b \<or> f a = f b \<and> a < b) (sort_key (f :: nat \<Rightarrow> int) xs)"
  by (induction xs) (auto intro: insort_key_stable)

lemma rank_sorted:
  "sorted_wrt (ranks_before vals)
     (sort_key (\<lambda>i. - sint (v_VotingPower (vals ! i))) (filter (\<lambda>i. is_active m (vals ! i)) [0..<length vals]))"
proof -
  have "sorted_wrt (\<lambda>a b. - sint (v_VotingPower (vals ! a)) < - sint (v_VotingPower (vals ! b)) \<or>
      - sint (v_VotingPower (vals ! a)) = - sint (v_VotingPower (vals ! b)) \<and> a < b)
     (sort_key (\<lambda>i. - sint (v_VotingPower (vals ! i))) (filter (\<lambda>i. is_active m (vals ! i)) [0..<length vals]))"
    by (rule sort_key_stable_wrt) (simp add: sorted_wrt_filter)
  then show ?thesis
    by (rule sorted_wrt_mono_rel [rotated]) (auto simp: ranks_before_def dest: signed_word_eqI)
qed

lemma ActiveIdx_sorted: "sorted_wrt (ranks_before vals) (ActiveIdx vals m)"
  unfolding ActiveIdx_def by (intro sorted_wrt_take rank_sorted)

lemma ActiveIdx_rest:
  assumes "i < length vals" and "is_active m (vals ! i)" and "i \<notin> set (ActiveIdx vals m)"
    and "j \<in> set (ActiveIdx vals m)"
  shows "ranks_before vals j i"
proof -
  let ?xs = "sort_key (\<lambda>i. - sint (v_VotingPower (vals ! i))) (filter (\<lambda>i. is_active m (vals ! i)) [0..<length vals])"
  have "i \<in> set ?xs" using assms(1,2) by simp
  then have "i \<in> set (drop MaxActiveValidatorCount ?xs)"
    using assms(3) unfolding ActiveIdx_def by (metis UnE append_take_drop_id set_append)
  moreover have "sorted_wrt (ranks_before vals) (take MaxActiveValidatorCount ?xs @ drop MaxActiveValidatorCount ?xs)"
    unfolding append_take_drop_id by (rule rank_sorted)
  ultimately show ?thesis
    using assms(4) unfolding ActiveIdx_def sorted_wrt_append by blast
qed

lemma length_ActiveIdx:
  "length (ActiveIdx vals m) = min MaxActiveValidatorCount (length (filter (is_active m) vals))"
  using arg_cong [OF GetActiveValidators_eq, of length] by (simp add: GetActiveValidators_def min.commute)

lemma ActiveIdx_active: "i \<in> set (ActiveIdx vals m) \<Longrightarrow> i < length vals \<and> is_active m (vals ! i)"
  unfolding ActiveIdx_def by (auto dest!: in_set_takeD)

lemma find_snoc:
  "find P (xs @ [y]) = (case find P xs of None \<Rightarrow> if P y then Some y else None | Some x \<Rightarrow> Some x)"
  by (induction xs) auto

lemma wf_info_append:
  assumes "wf_info si" and "v_Address v \<notin> v_Address ` set (si_Validators si)"
    and "v_Pubkey v \<notin> v_Pubkey ` set (si_Validators si)"
  shows "wf_info (si\<lparr>si_Validators := si_Validators si @ [v]\<rparr>)"
  using assms unfolding wf_info_def unique_validators_def by auto

lemma pending_of_simps [simp]:
  "pending_of a [] = 0"
  "pending_of a (pr # prs) = (if pr_Address pr = a then unat (pr_Amount pr) else 0) + pending_of a prs"
  by (simp_all add: pending_of_def)

lemma clear_rewards_total:
  assumes "clear_rewards ep addr prs = (cleared, rwds)" and "pending_of addr prs < 2 ^ 256"
  shows "unat cleared = pending_of addr prs \<and> pending_of addr rwds = 0"
  using assms
proof (induction prs arbitrary: cleared rwds)
  case Nil
  then show ?case by simp
next
  case (Cons pr prs)
  obtain c rs where rec: "clear_rewards ep addr prs = (c, rs)" by fastforce
  have "unat c = pending_of addr prs \<and> pending_of addr rs = 0"
    by (rule Cons.IH [OF rec]) (use Cons.prems(2) in simp)
  with Cons.prems rec show ?case
    by (auto simp: unat_add_no_wrap split: if_splits)
qed

lemma clear_rewards_kept:
  assumes "clear_rewards ep addr prs = (cleared, rwds)"
  shows "filter (\<lambda>pr. pr_Address pr \<noteq> addr) rwds = filter (\<lambda>pr. pr_Address pr \<noteq> addr) prs \<and>
     (\<forall>pr \<in> set rwds. \<exists>pr' \<in> set prs. pr_Address pr' = pr_Address pr)"
  using assms by (induction prs arbitrary: cleared rwds) (auto split: prod.splits if_splits)

subsection \<open>Properties\<close>

text \<open>
  C30: \<open>GetActiveValidators\<close> returns exactly the strongest eligible validators. The
  selected positions are eligible, at most \<open>MaxActiveValidatorCount\<close> of them and all of
  them when there are fewer, ordered by descending voting power with ties in registration
  order, and every eligible validator left out ranks behind every selected one.
\<close>

theorem GetActiveValidators_selects:
  "GetActiveValidators vals m = map ((!) vals) (ActiveIdx vals m) \<and>
   length (ActiveIdx vals m) = min MaxActiveValidatorCount (length (filter (is_active m) vals)) \<and>
   sorted_wrt (ranks_before vals) (ActiveIdx vals m) \<and>
   set (ActiveIdx vals m) \<subseteq> {i. i < length vals \<and> is_active m (vals ! i)} \<and>
   (\<forall>i j. i < length vals \<longrightarrow> is_active m (vals ! i) \<longrightarrow> i \<notin> set (ActiveIdx vals m) \<longrightarrow>
      j \<in> set (ActiveIdx vals m) \<longrightarrow> ranks_before vals j i)"
  by (auto simp: GetActiveValidators_def length_ActiveIdx ActiveIdx_sorted ActiveIdx_active
      intro: ActiveIdx_rest)

theorem GetActiveValidators_selects_witness:
  "GetActiveValidators (replicate 51 (sample_validator 1 1)) 1 = replicate 50 (sample_validator 1 1) \<and>
   ranks_before (replicate 51 (sample_validator 1 1)) 49 50"
proof -
  let ?v = "sample_validator 1 1" and ?vals = "replicate 51 (sample_validator 1 1)"
  have act: "is_active 1 ?v" by (simp add: is_active_def sample_validator_def)
  have "sort_key (\<lambda>i. - sint (v_VotingPower (?vals ! i))) [0..<51] = [0..<51]"
    by (rule sort_key_id_if_sorted) (simp add: sorted_iff_nth_mono)
  moreover have "filter (\<lambda>i. is_active 1 (?vals ! i)) [0..<51] = [0..<51]"
    using act by (simp add: filter_id_conv)
  ultimately have idx: "ActiveIdx ?vals 1 = [0..<50]"
    by (simp add: ActiveIdx_def MaxActiveValidatorCount_def)
  moreover have "map ((!) ?vals) [0..<50] = replicate 50 ?v"
    by (simp add: list_eq_iff_nth_eq)
  ultimately show ?thesis
    using GetActiveValidators_selects [of ?vals 1] act by simp
qed

text \<open>
  \<open>AddValidator\<close> succeeds exactly when neither the address nor the public key is
  registered; it then keeps the staking state well formed, the new validator is found under
  both keys with no voting power and the given stake, and all other lookups are unchanged.
\<close>

theorem AddValidator_correct:
  assumes "wf_info si"
  shows "case AddValidator si addr pubkey intro coins rewardTo of
     Inl e \<Rightarrow> (case e of ValidatorAddressAlreadyExists \<Rightarrow> GetValidatorByAddr si addr \<noteq> None
       | ValidatorPubkeyAlreadyExists \<Rightarrow> GetValidatorByPubkey si pubkey \<noteq> None)
   | Inr si' \<Rightarrow> wf_info si' \<and> GetValidatorByAddr si addr = None \<and> GetValidatorByPubkey si pubkey = None \<and>
       (\<exists>v. GetValidatorByAddr si' = (GetValidatorByAddr si)(addr \<mapsto> v) \<and>
          GetValidatorByPubkey si' = (GetValidatorByPubkey si)(pubkey \<mapsto> v) \<and>
          v_VotingPower v = 0 \<and> v_StakedCoins v = coins \<and> v_RewardTo v = rewardTo \<and> \<not> v_IsRetiring v)"
proof (cases "add_conflict addr pubkey (si_Validators si)")
  case None
  let ?v = "\<lparr>v_Address = addr, v_Pubkey = pubkey, v_RewardTo = rewardTo, v_VotingPower = 0,
            v_Introduction = intro, v_StakedCoins = coins, v_IsRetiring = False\<rparr>"
  let ?si = "si\<lparr>si_Validators := si_Validators si @ [?v]\<rparr>"
  have new: "addr \<notin> v_Address ` set (si_Validators si)" "pubkey \<notin> v_Pubkey ` set (si_Validators si)"
    using None by (simp_all add: add_conflict_None)
  then have none: "GetValidatorByAddr si addr = None" "GetValidatorByPubkey si pubkey = None"
    by (auto simp: GetValidatorByAddr_def GetValidatorByPubkey_def find_None_notin)
  have "GetValidatorByAddr ?si = (GetValidatorByAddr si)(addr \<mapsto> ?v)"
    "GetValidatorByPubkey ?si = (GetValidatorByPubkey si)(pubkey \<mapsto> ?v)"
    using none by (auto simp: GetValidatorByAddr_def GetValidatorByPubkey_def find_snoc fun_eq_iff split: option.splits)
  moreover have "wf_info ?si" using assms new by (intro wf_info_append) simp_all
  ultimately show ?thesis
    using none None by (auto simp: AddValidator_def)
next
  case (Some e)
  then show ?thesis
    by (cases e) (auto simp: AddValidator_def GetValidatorByAddr_def GetValidatorByPubkey_def find_None_notin
      dest: add_conflict_address add_conflict_pubkey)
qed

lemma wf_sample_info: "wf_info sample_info"
  by (simp add: wf_info_def unique_validators_def sample_info_def sample_validator_def)

theorem AddValidator_correct_witness:
  "AddValidator sample_info 1 7 [] 5 9 = Inl ValidatorAddressAlreadyExists \<and>
   GetValidatorByAddr sample_info 1 \<noteq> None \<and>
   (\<exists>si. AddValidator sample_info 7 7 [] 5 9 = Inr si \<and> wf_info si)"
proof -
  have "AddValidator sample_info 1 7 [] 5 9 = Inl ValidatorAddressAlreadyExists"
    by (simp add: AddValidator_def sample_info_def sample_validator_def)
  moreover have "\<exists>si. AddValidator sample_info 7 7 [] 5 9 = Inr si"
    by (simp add: AddValidator_def sample_info_def sample_validator_def)
  ultimately show ?thesis
    using AddValidator_correct [OF wf_sample_info, where addr = 1 and pubkey = 7 and intro = "[]" and coins = 5 and rewardTo = 9]
      AddValidator_correct [OF wf_sample_info, where addr = 7 and pubkey = 7 and intro = "[]" and coins = 5 and rewardTo = 9]
    by auto
qed

text \<open>
  C16: applying the list \<open>GetUpdateValidatorSet\<close> returns to the current validator set, the
  way Tendermint does, gives exactly the new set; the list is ordered by address without
  duplicates, and it does not depend on the order in which Go visits its map, so that all
  nodes hand the same list to consensus.
\<close>

theorem GetUpdateValidatorSet_correct:
  assumes "is_iter it" and "is_iter it'"
    and "distinct (map v_Address cur)" and "distinct (map v_Address new)"
    and "\<forall>v \<in> set new. v_VotingPower v \<noteq> 0"
  shows "\<exists>upd. GetUpdateValidatorSet it cur (Some new) = Some upd \<and>
     GetUpdateValidatorSet it' cur (Some new) = Some upd \<and>
     sorted (map v_Address upd) \<and> distinct (map v_Address upd) \<and>
     apply_updates (power_map cur) upd = power_map new"
proof -
  let ?upd = "sort_key v_Address (update_items it cur new)"
  have d: "distinct (map v_Address ?upd)"
    using distinct_update_items [OF assms(1,3,4)] by (simp add: distinct_map)
  moreover have "apply_updates (power_map cur) ?upd = power_map new"
    by (rule apply_update_items [OF assms(1,3,4,5) d]) simp
  moreover have "GetUpdateValidatorSet it cur (Some new) = Some ?upd"
    by (rule GetUpdateValidatorSet_items [OF assms(3,4)])
  ultimately show ?thesis
    using GetUpdateValidatorSet_iter [OF assms(1-4)] by (intro exI [of _ ?upd]) simp
qed

theorem GetUpdateValidatorSet_correct_witness:
  "GetUpdateValidatorSet rev [sample_validator 1 1, sample_validator 2 1]
     (Some [sample_validator 2 3, sample_validator 5 1, sample_validator 4 1]) =
     Some [sample_validator 1 0, sample_validator 2 3, sample_validator 4 1, sample_validator 5 1] \<and>
   apply_updates (power_map [sample_validator 1 1, sample_validator 2 1])
     [sample_validator 1 0, sample_validator 2 3, sample_validator 4 1, sample_validator 5 1] =
   power_map [sample_validator 2 3, sample_validator 5 1, sample_validator 4 1]"
proof -
  let ?cur = "[sample_validator 1 1, sample_validator 2 1]"
  let ?new = "[sample_validator 2 3, sample_validator 5 1, sample_validator 4 1]"
  have "distinct (map v_Address ?cur)" "distinct (map v_Address ?new)" "\<forall>v \<in> set ?new. v_VotingPower v \<noteq> 0"
    by (simp_all add: sample_validator_def)
  moreover have "GetUpdateValidatorSet rev ?cur (Some ?new) =
     Some [sample_validator 1 0, sample_validator 2 3, sample_validator 4 1, sample_validator 5 1]"
    by code_simp
  ultimately show ?thesis
    using GetUpdateValidatorSet_correct [OF is_iter_rev is_iter_id, of ?cur ?new] by auto
qed

text \<open>
  \<open>ClearRewardsOf\<close> takes away every coin pending for the address and nothing else:
  what it returns is the sum of the address's pending rewards, what it leaves for the
  address is zero, the entries of all other addresses are untouched and the state stays
  well formed (sums below \<open>2^256\<close>).
\<close>

theorem ClearRewardsOf_correct:
  assumes "ClearRewardsOf si addr = (cleared, si')"
    and "pending_of addr (si_PendingRewards si) < 2 ^ 256"
  shows "unat cleared = pending_of addr (si_PendingRewards si) \<and>
     pending_of addr (si_PendingRewards si') = 0 \<and>
     filter (\<lambda>pr. pr_Address pr \<noteq> addr) (si_PendingRewards si') =
       filter (\<lambda>pr. pr_Address pr \<noteq> addr) (si_PendingRewards si) \<and>
     si_Validators si' = si_Validators si \<and> (wf_info si \<longrightarrow> wf_info si')"
proof -
  obtain rwds where rwds: "clear_rewards (si_CurrEpochNum si) addr (si_PendingRewards si) = (cleared, rwds)"
    and si': "si' = si\<lparr>si_PendingRewards := rwds\<rparr>"
    using assms(1) by (auto simp: ClearRewardsOf_def split: prod.splits)
  have kept: "filter (\<lambda>pr. pr_Address pr \<noteq> addr) rwds = filter (\<lambda>pr. pr_Address pr \<noteq> addr) (si_PendingRewards si)"
    "\<forall>pr \<in> set rwds. \<exists>pr' \<in> set (si_PendingRewards si). pr_Address pr' = pr_Address pr"
    using clear_rewards_kept [OF rwds] by auto
  have "wf_info si'" if wf: "wf_info si"
    unfolding wf_info_def si'
  proof (simp, intro conjI ballI)
    show "unique_validators (si_Validators si)" using wf by (simp add: wf_info_def)
    fix pr assume "pr \<in> set rwds"
    then obtain pr' where "pr' \<in> set (si_PendingRewards si)" "pr_Address pr' = pr_Address pr" using kept(2) by auto
    then show "pr_Address pr \<in> v_Address ` set (si_Validators si)" using wf unfolding wf_info_def by (metis set_map)
  qed
  with clear_rewards_total [OF rwds assms(2)] kept(1) show ?thesis by (simp add: si')
qed

theorem ClearRewardsOf_correct_witness:
  "\<exists>si'. ClearRewardsOf sample_info 1 = (42, si') \<and> pending_of 1 (si_PendingRewards si') = 0 \<and> wf_info si'"
proof -
  obtain si' where c: "ClearRewardsOf sample_info 1 = (42, si')"
    by (auto simp: ClearRewardsOf_def sample_info_def)
  moreover have "pending_of 1 (si_PendingRewards sample_info) < 2 ^ 256"
    by (simp add: pending_of_def sample_info_def)
  ultimately show ?thesis
    using ClearRewardsOf_correct [of sample_info 1 42 si'] wf_sample_info by auto
qed

end
