(* ===== verification/Staking_Codec.thy ===== *)
theory Staking_Codec
  imports Staking_Types Msgp
begin

text \<open>
  The MessagePack codecs of the staking types (\<open>src/staking/types/types_gen.go\<close>):
  one \<open>Marshal\<close> and one \<open>Unmarshal\<close> per type, over the run-time library as a parameter.
  An \<open>Unmarshal\<close> takes the struct it decodes into, as the method does with its receiver,
  and returns it with the unread bytes, or \<open>None\<close> where the method returns an error.
  The slices are slices of pointers: the structs with the suffix \<open>_p\<close> hold them as such, with
  \<open>None\<close> for nil, and the codecs of these structs are the ones of the source. The contracts
  only store structs without nil pointers and dereference all of them, so \<open>Marshal_Epoch\<close>,
  \<open>Marshal_StakingInfo\<close> and their inverses are the codecs seen from such a struct.
  \<open>storable\<close> is the size below which a length still fits its 32-bit header.
\<close>

subsection \<open>Nomination\<close>

definition Marshal_Nomination :: "msgp_ops \<Rightarrow> bytes \<Rightarrow> Nomination \<Rightarrow> bytes" where
  "Marshal_Nomination rt b z =
     (let o1 = b @ [0x82, 0xa6, 0x50, 0x75, 0x62, 0x6b, 0x65, 0x79];
          o2 = AppendBytes rt o1 (be_bytes 32 (n_Pubkey z));
          o3 = o2 @ [0xae, 0x4e, 0x6f, 0x6d, 0x69, 0x6e, 0x61, 0x74, 0x65, 0x64, 0x43, 0x6f, 0x75, 0x6e, 0x74]
      in AppendInt64 rt o3 (n_NominatedCount z))"

definition Unmarshal_Nomination :: "msgp_ops \<Rightarrow> Nomination \<Rightarrow> bytes \<Rightarrow> (Nomination \<times> bytes) option" where
  "Unmarshal_Nomination rt = read_struct rt (\<lambda>field z bts.
     if field = str ''Pubkey'' then do {
       (x, bts) \<leftarrow> ReadExactBytes rt bts 32; Some (z\<lparr>n_Pubkey := be_val x\<rparr>, bts) }
     else if field = str ''NominatedCount'' then do {
       (x, bts) \<leftarrow> ReadInt64Bytes rt bts; Some (z\<lparr>n_NominatedCount := x\<rparr>, bts) }
     else do { bts \<leftarrow> Skip rt bts; Some (z, bts) })"

definition zero_Nomination :: Nomination where
  "zero_Nomination = \<lparr>n_Pubkey = 0, n_NominatedCount = 0\<rparr>"

definition Marshal_NominationHeap :: "msgp_ops \<Rightarrow> bytes \<Rightarrow> Nomination option list \<Rightarrow> bytes" where
  "Marshal_NominationHeap rt b z =
     foldl (append_ptr rt (Marshal_Nomination rt)) (AppendArrayHeader rt b (of_nat (length z))) z"

definition Unmarshal_NominationHeap ::
  "msgp_ops \<Rightarrow> Nomination option list \<Rightarrow> bytes \<Rightarrow> (Nomination option list \<times> bytes) option" where
  "Unmarshal_NominationHeap rt = read_slice rt (Unmarshal_Nomination rt) zero_Nomination"

subsection \<open>Epoch\<close>

record Epoch_p =
  ep_Number :: i64
  ep_StartHeight :: i64
  ep_EndTime :: i64
  ep_Nominations :: "Nomination option list"

definition Marshal_Epoch_p :: "msgp_ops \<Rightarrow> bytes \<Rightarrow> Epoch_p \<Rightarrow> bytes" where
  "Marshal_Epoch_p rt b z =
     (let o1 = b @ [0x84, 0xa6, 0x4e, 0x75, 0x6d, 0x62, 0x65, 0x72];
          o2 = AppendInt64 rt o1 (ep_Number z);
          o3 = o2 @ [0xab, 0x53, 0x74, 0x61, 0x72, 0x74, 0x48, 0x65, 0x69, 0x67, 0x68, 0x74];
          o4 = AppendInt64 rt o3 (ep_StartHeight z);
          o5 = o4 @ [0xa7, 0x45, 0x6e, 0x64, 0x54, 0x69, 0x6d, 0x65];
          o6 = AppendInt64 rt o5 (ep_EndTime z);
          o7 = o6 @ [0xab, 0x4e, 0x6f, 0x6d, 0x69, 0x6e, 0x61, 0x74, 0x69, 0x6f, 0x6e, 0x73];
          o8 = AppendArrayHeader rt o7 (of_nat (length (ep_Nominations z)))
      in foldl (append_ptr rt (Marshal_Nomination rt)) o8 (ep_Nominations z))"

definition Unmarshal_Epoch_p :: "msgp_ops \<Rightarrow> Epoch_p \<Rightarrow> bytes \<Rightarrow> (Epoch_p \<times> bytes) option" where
  "Unmarshal_Epoch_p rt = read_struct rt (\<lambda>field z bts.
     if field = str ''Number'' then do {
       (x, bts) \<leftarrow> ReadInt64Bytes rt bts; Some (z\<lparr>ep_Number := x\<rparr>, bts) }
     else if field = str ''StartHeight'' then do {
       (x, bts) \<leftarrow> ReadInt64Bytes rt bts; Some (z\<lparr>ep_StartHeight := x\<rparr>, bts) }
     else if field = str ''EndTime'' then do {
       (x, bts) \<leftarrow> ReadInt64Bytes rt bts; Some (z\<lparr>ep_EndTime := x\<rparr>, bts) }
     else if field = str ''Nominations'' then do {
       (x, bts) \<leftarrow> read_slice rt (Unmarshal_Nomination rt) zero_Nomination (ep_Nominations z) bts;
       Some (z\<lparr>ep_Nominations := x\<rparr>, bts) }
     else do { bts \<leftarrow> Skip rt bts; Some (z, bts) })"

definition refs_Epoch :: "Epoch \<Rightarrow> Epoch_p" where
  "refs_Epoch z = \<lparr>ep_Number = e_Number z, ep_StartHeight = e_StartHeight z, ep_EndTime = e_EndTime z, ep_Nominations = map Some (e_Nominations z)\<rparr>"

definition derefs_Epoch :: "Epoch_p \<Rightarrow> Epoch option" where
  "derefs_Epoch p = do {
     ns \<leftarrow> those (ep_Nominations p);
     Some \<lparr>e_Number = ep_Number p, e_StartHeight = ep_StartHeight p, e_EndTime = ep_EndTime p, e_Nominations = ns\<rparr> }"

definition Marshal_Epoch :: "msgp_ops \<Rightarrow> bytes \<Rightarrow> Epoch \<Rightarrow> bytes" where
  "Marshal_Epoch rt b z = Marshal_Epoch_p rt b (refs_Epoch z)"

definition Unmarshal_Epoch :: "msgp_ops \<Rightarrow> Epoch \<Rightarrow> bytes \<Rightarrow> (Epoch \<times> bytes) option" where
  "Unmarshal_Epoch rt z bts = do {
     (p, bts) \<leftarrow> Unmarshal_Epoch_p rt (refs_Epoch z) bts;
     z \<leftarrow> derefs_Epoch p;
     Some (z, bts) }"

definition zero_Epoch :: Epoch where
  "zero_Epoch = \<lparr>e_Number = 0, e_StartHeight = 0, e_EndTime = 0, e_Nominations = []\<rparr>"

subsection \<open>PendingReward\<close>

definition Marshal_PendingReward :: "msgp_ops \<Rightarrow> bytes \<Rightarrow> PendingReward \<Rightarrow> bytes" where
  "Marshal_PendingReward rt b z =
     (let o1 = b @ [0x83, 0xa7, 0x41, 0x64, 0x64, 0x72, 0x65, 0x73, 0x73];
          o2 = AppendBytes rt o1 (be_bytes 20 (pr_Address z));
          o3 = o2 @ [0xa8, 0x45, 0x70, 0x6f, 0x63, 0x68, 0x4e, 0x75, 0x6d];
          o4 = AppendInt64 rt o3 (pr_EpochNum z);
          o5 = o4 @ [0xa6, 0x41, 0x6d, 0x6f, 0x75, 0x6e, 0x74]
      in AppendBytes rt o5 (be_bytes 32 (pr_Amount z)))"

definition Unmarshal_PendingReward :: "msgp_ops \<Rightarrow> PendingReward \<Rightarrow> bytes \<Rightarrow> (PendingReward \<times> bytes) option" where
  "Unmarshal_PendingReward rt = read_struct rt (\<lambda>field z bts.
     if field = str ''Address'' then do {
       (x, bts) \<leftarrow> ReadExactBytes rt bts 20; Some (z\<lparr>pr_Address := be_val x\<rparr>, bts) }
     else if field = str ''EpochNum'' then do {
       (x, bts) \<leftarrow> ReadInt64Bytes rt bts; Some (z\<lparr>pr_EpochNum := x\<rparr>, bts) }
     else if field = str ''Amount'' then do {
       (x, bts) \<leftarrow> ReadExactBytes rt bts 32; Some (z\<lparr>pr_Amount := be_val x\<rparr>, bts) }
     else do { bts \<leftarrow> Skip rt bts; Some (z, bts) })"

definition zero_PendingReward :: PendingReward where
  "zero_PendingReward = \<lparr>pr_Address = 0, pr_EpochNum = 0, pr_Amount = 0\<rparr>"

subsection \<open>Validator\<close>

definition Marshal_Validator :: "msgp_ops \<Rightarrow> bytes \<Rightarrow> Validator \<Rightarrow> bytes" where
  "Marshal_Validator rt b z =
     (let o1 = b @ [0x87, 0xa7, 0x41, 0x64, 0x64, 0x72, 0x65, 0x73, 0x73];
          o2 = AppendBytes rt o1 (be_bytes 20 (v_Address z));
          o3 = o2 @ [0xa6, 0x50, 0x75, 0x62, 0x6b, 0x65, 0x79];
          o4 = AppendBytes rt o3 (be_bytes 32 (v_Pubkey z));
          o5 = o4 @ [0xa8, 0x52, 0x65, 0x77, 0x61, 0x72, 0x64, 0x54, 0x6f];
          o6 = AppendBytes rt o5 (be_bytes 20 (v_RewardTo z));
          o7 = o6 @ [0xab, 0x56, 0x6f, 0x74, 0x69, 0x6e, 0x67, 0x50, 0x6f, 0x77, 0x65, 0x72];
          o8 = AppendInt64 rt o7 (v_VotingPower z);
          o9 = o8 @ [0xac, 0x49, 0x6e, 0x74, 0x72, 0x6f, 0x64, 0x75, 0x63, 0x74, 0x69, 0x6f, 0x6e];
          o10 = AppendString rt o9 (v_Introduction z);
          o11 = o10 @ [0xab, 0x53, 0x74, 0x61, 0x6b, 0x65, 0x64, 0x43, 0x6f, 0x69, 0x6e, 0x73];
          o12 = AppendBytes rt o11 (be_bytes 32 (v_StakedCoins z));
          o13 = o12 @ [0xaa, 0x49, 0x73, 0x52, 0x65, 0x74, 0x69, 0x72, 0x69, 0x6e, 0x67]
      in AppendBool rt o13 (v_IsRetiring z))"

definition Unmarshal_Validator :: "msgp_ops \<Rightarrow> Validator \<Rightarrow> bytes \<Rightarrow> (Validator \<times> bytes) option" where
  "Unmarshal_Validator rt = read_struct rt (\<lambda>field z bts.
     if field = str ''Address'' then do {
       (x, bts) \<leftarrow> ReadExactBytes rt bts 20; Some (z\<lparr>v_Address := be_val x\<rparr>, bts) }
     else if field = str ''Pubkey'' then do {
       (x, bts) \<leftarrow> ReadExactBytes rt bts 32; Some (z\<lparr>v_Pubkey := be_val x\<rparr>, bts) }
     else if field = str ''RewardTo'' then do {
       (x, bts) \<leftarrow> ReadExactBytes rt bts 20; Some (z\<lparr>v_RewardTo := be_val x\<rparr>, bts) }
     else if field = str ''VotingPower'' then do {
       (x, bts) \<leftarrow> ReadInt64Bytes rt bts; Some (z\<lparr>v_VotingPower := x\<rparr>, bts) }
     else if field = str ''Introduction'' then do {
       (x, bts) \<leftarrow> ReadStringBytes rt bts; Some (z\<lparr>v_Introduction := x\<rparr>, bts) }
     else if field = str ''StakedCoins'' then do {
       (x, bts) \<leftarrow> ReadExactBytes rt bts 32; Some (z\<lparr>v_StakedCoins := be_val x\<rparr>, bts) }
     else if field = str ''IsRetiring'' then do {
       (x, bts) \<leftarrow> ReadBoolBytes rt bts; Some (z\<lparr>v_IsRetiring := x\<rparr>, bts) }
     else do { bts \<leftarrow> Skip rt bts; Some (z, bts) })"

definition zero_Validator :: Validator where
  "zero_Validator = \<lparr>v_Address = 0, v_Pubkey = 0, v_RewardTo = 0, v_VotingPower = 0,
     v_Introduction = [], v_StakedCoins = 0, v_IsRetiring = False\<rparr>"

subsection \<open>StakingInfo\<close>

record StakingInfo_p =
  sp_GenesisMainnetBlockHeight :: i64
  sp_CurrEpochNum :: i64
  sp_Validators :: "Validator option list"
  sp_ValidatorsUpdate :: "Validator option list"
  sp_PendingRewards :: "PendingReward option list"

definition Marshal_StakingInfo_p :: "msgp_ops \<Rightarrow> bytes \<Rightarrow> StakingInfo_p \<Rightarrow> bytes" where
  "Marshal_StakingInfo_p rt b z =
     (let o1 = b @ [0x85, 0xb9, 0x47, 0x65, 0x6e, 0x65, 0x73, 0x69, 0x73, 0x4d, 0x61, 0x69, 0x6e, 0x6e, 0x65, 0x74,
            0x42, 0x6c, 0x6f, 0x63, 0x6b, 0x48, 0x65, 0x69, 0x67, 0x68, 0x74];
          o2 = AppendInt64 rt o1 (sp_GenesisMainnetBlockHeight z);
          o3 = o2 @ [0xac, 0x43, 0x75, 0x72, 0x72, 0x45, 0x70, 0x6f, 0x63, 0x68, 0x4e, 0x75, 0x6d];
          o4 = AppendInt64 rt o3 (sp_CurrEpochNum z);
          o5 = o4 @ [0xaa, 0x56, 0x61, 0x6c, 0x69, 0x64, 0x61, 0x74, 0x6f, 0x72, 0x73];
          o6 = AppendArrayHeader rt o5 (of_nat (length (sp_Validators z)));
          o7 = foldl (append_ptr rt (Marshal_Validator rt)) o6 (sp_Validators z);
          o8 = o7 @ [0xb0, 0x56, 0x61, 0x6c, 0x69, 0x64, 0x61, 0x74, 0x6f, 0x72, 0x73, 0x55, 0x70, 0x64, 0x61, 0x74, 0x65];
          o9 = AppendArrayHeader rt o8 (of_nat (length (sp_ValidatorsUpdate z)));
          o10 = foldl (append_ptr rt (Marshal_Validator rt)) o9 (sp_ValidatorsUpdate z);
          o11 = o10 @ [0xae, 0x50, 0x65, 0x6e, 0x64, 0x69, 0x6e, 0x67, 0x52, 0x65, 0x77, 0x61, 0x72, 0x64, 0x73];
          o12 = AppendArrayHeader rt o11 (of_nat (length (sp_PendingRewards z)))
      in foldl (append_ptr rt (Marshal_PendingReward rt)) o12 (sp_PendingRewards z))"

definition Unmarshal_StakingInfo_p :: "msgp_ops \<Rightarrow> StakingInfo_p \<Rightarrow> bytes \<Rightarrow> (StakingInfo_p \<times> bytes) option" where
  "Unmarshal_StakingInfo_p rt = read_struct rt (\<lambda>field z bts.
     if field = str ''GenesisMainnetBlockHeight'' then do {
       (x, bts) \<leftarrow> ReadInt64Bytes rt bts; Some (z\<lparr>sp_GenesisMainnetBlockHeight := x\<rparr>, bts) }
     else if field = str ''CurrEpochNum'' then do {
       (x, bts) \<leftarrow> ReadInt64Bytes rt bts; Some (z\<lparr>sp_CurrEpochNum := x\<rparr>, bts) }
     else if field = str ''Validators'' then do {
       (x, bts) \<leftarrow> read_slice rt (Unmarshal_Validator rt) zero_Validator (sp_Validators z) bts;
       Some (z\<lparr>sp_Validators := x\<rparr>, bts) }
     else if field = str ''ValidatorsUpdate'' then do {
       (x, bts) \<leftarrow> read_slice rt (Unmarshal_Validator rt) zero_Validator (sp_ValidatorsUpdate z) bts;
       Some (z\<lparr>sp_ValidatorsUpdate := x\<rparr>, bts) }
     else if field = str ''PendingRewards'' then do {
       (x, bts) \<leftarrow> read_slice rt (Unmarshal_PendingReward rt) zero_PendingReward (sp_PendingRewards z) bts;
       Some (z\<lparr>sp_PendingRewards := x\<rparr>, bts) }
     else do { bts \<leftarrow> Skip rt bts; Some (z, bts) })"

definition refs_StakingInfo :: "StakingInfo \<Rightarrow> StakingInfo_p" where
  "refs_StakingInfo z = \<lparr>sp_GenesisMainnetBlockHeight = si_GenesisMainnetBlockHeight z, sp_CurrEpochNum = si_CurrEpochNum z,
     sp_Validators = map Some (si_Validators z), sp_ValidatorsUpdate = map Some (si_ValidatorsUpdate z),
     sp_PendingRewards = map Some (si_PendingRewards z)\<rparr>"

definition derefs_StakingInfo :: "StakingInfo_p \<Rightarrow> StakingInfo option" where
  "derefs_StakingInfo p = do {
     vs \<leftarrow> those (sp_Validators p);
     us \<leftarrow> those (sp_ValidatorsUpdate p);
     rs \<leftarrow> those (sp_PendingRewards p);
     Some \<lparr>si_GenesisMainnetBlockHeight = sp_GenesisMainnetBlockHeight p, si_CurrEpochNum = sp_CurrEpochNum p,
       si_Validators = vs, si_ValidatorsUpdate = us, si_PendingRewards = rs\<rparr> }"

definition Marshal_StakingInfo :: "msgp_ops \<Rightarrow> bytes \<Rightarrow> StakingInfo \<Rightarrow> bytes" where
  "Marshal_StakingInfo rt b z = Marshal_StakingInfo_p rt b (refs_StakingInfo z)"

definition Unmarshal_StakingInfo :: "msgp_ops \<Rightarrow> StakingInfo \<Rightarrow> bytes \<Rightarrow> (StakingInfo \<times> bytes) option" where
  "Unmarshal_StakingInfo rt z bts = do {
     (p, bts) \<leftarrow> Unmarshal_StakingInfo_p rt (refs_StakingInfo z) bts;
     z \<leftarrow> derefs_StakingInfo p;
     Some (z, bts) }"

definition zero_StakingInfo :: StakingInfo where
  "zero_StakingInfo = \<lparr>si_GenesisMainnetBlockHeight = 0, si_CurrEpochNum = 0, si_Validators = [],
     si_ValidatorsUpdate = [], si_PendingRewards = []\<rparr>"

definition storable_validators :: "Validator list \<Rightarrow> bool" where
  "storable_validators vs \<longleftrightarrow> length vs < 2 ^ 32 \<and> (\<forall>v \<in> set vs. length (v_Introduction v) < 2 ^ 32)"

definition storable :: "StakingInfo \<Rightarrow> bool" where
  "storable si \<longleftrightarrow> storable_validators (si_Validators si) \<and> storable_validators (si_ValidatorsUpdate si) \<and>
     length (si_PendingRewards si) < 2 ^ 32"

text \<open>The same with nil pointers.\<close>

definition storable_ptrs :: "Validator option list \<Rightarrow> bool" where
  "storable_ptrs vs \<longleftrightarrow> length vs < 2 ^ 32 \<and> (\<forall>v. Some v \<in> set vs \<longrightarrow> length (v_Introduction v) < 2 ^ 32)"

definition storable_p :: "StakingInfo_p \<Rightarrow> bool" where
  "storable_p p \<longleftrightarrow> storable_ptrs (sp_Validators p) \<and> storable_ptrs (sp_ValidatorsUpdate p) \<and> length (sp_PendingRewards p) < 2 ^ 32"

lemma storable_refs: "storable_p (refs_StakingInfo z) \<longleftrightarrow> storable z"
  by (auto simp: storable_p_def storable_def storable_ptrs_def storable_validators_def refs_StakingInfo_def image_iff)

lemma derefs_refs [simp]: "derefs_Epoch (refs_Epoch e) = Some e" "derefs_StakingInfo (refs_StakingInfo z) = Some z"
  by (simp_all add: derefs_Epoch_def refs_Epoch_def derefs_StakingInfo_def refs_StakingInfo_def)

subsection \<open>The literals are length-prefixed names\<close>

lemma nomination_keys:
  "[0x82, 0xa6, 0x50, 0x75, 0x62, 0x6b, 0x65, 0x79] = 0x82 # fixkey ''Pubkey''"
  "[0xae, 0x4e, 0x6f, 0x6d, 0x69, 0x6e, 0x61, 0x74, 0x65, 0x64, 0x43, 0x6f, 0x75, 0x6e, 0x74] = fixkey ''NominatedCount''"
  by (simp_all add: fixkey_eval)

lemma epoch_keys:
  "[0x84, 0xa6, 0x4e, 0x75, 0x6d, 0x62, 0x65, 0x72] = 0x84 # fixkey ''Number''"
  "[0xab, 0x53, 0x74, 0x61, 0x72, 0x74, 0x48, 0x65, 0x69, 0x67, 0x68, 0x74] = fixkey ''StartHeight''"
  "[0xa7, 0x45, 0x6e, 0x64, 0x54, 0x69, 0x6d, 0x65] = fixkey ''EndTime''"
  "[0xab, 0x4e, 0x6f, 0x6d, 0x69, 0x6e, 0x61, 0x74, 0x69, 0x6f, 0x6e, 0x73] = fixkey ''Nominations''"
  by (simp_all add: fixkey_eval)

lemma reward_keys:
  "[0x83, 0xa7, 0x41, 0x64, 0x64, 0x72, 0x65, 0x73, 0x73] = 0x83 # fixkey ''Address''"
  "[0xa8, 0x45, 0x70, 0x6f, 0x63, 0x68, 0x4e, 0x75, 0x6d] = fixkey ''EpochNum''"
  "[0xa6, 0x41, 0x6d, 0x6f, 0x75, 0x6e, 0x74] = fixkey ''Amount''"
  by (simp_all add: fixkey_eval)

lemma validator_keys:
  "[0x87, 0xa7, 0x41, 0x64, 0x64, 0x72, 0x65, 0x73, 0x73] = 0x87 # fixkey ''Address''"
  "[0xa6, 0x50, 0x75, 0x62, 0x6b, 0x65, 0x79] = fixkey ''Pubkey''"
  "[0xa8, 0x52, 0x65, 0x77, 0x61, 0x72, 0x64, 0x54, 0x6f] = fixkey ''RewardTo''"
  "[0xab, 0x56, 0x6f, 0x74, 0x69, 0x6e, 0x67, 0x50, 0x6f, 0x77, 0x65, 0x72] = fixkey ''VotingPower''"
  "[0xac, 0x49, 0x6e, 0x74, 0x72, 0x6f, 0x64, 0x75, 0x63, 0x74, 0x69, 0x6f, 0x6e] = fixkey ''Introduction''"
  "[0xab, 0x53, 0x74, 0x61, 0x6b, 0x65, 0x64, 0x43, 0x6f, 0x69, 0x6e, 0x73] = fixkey ''StakedCoins''"
  "[0xaa, 0x49, 0x73, 0x52, 0x65, 0x74, 0x69, 0x72, 0x69, 0x6e, 0x67] = fixkey ''IsRetiring''"
  by (simp_all add: fixkey_eval)

lemma info_keys:
  "[0x85, 0xb9, 0x47, 0x65, 0x6e, 0x65, 0x73, 0x69, 0x73, 0x4d, 0x61, 0x69, 0x6e, 0x6e, 0x65, 0x74, 0x42, 0x6c,
    0x6f, 0x63, 0x6b, 0x48, 0x65, 0x69, 0x67, 0x68, 0x74] = 0x85 # fixkey ''GenesisMainnetBlockHeight''"
  "[0xac, 0x43, 0x75, 0x72, 0x72, 0x45, 0x70, 0x6f, 0x63, 0x68, 0x4e, 0x75, 0x6d] = fixkey ''CurrEpochNum''"
  "[0xaa, 0x56, 0x61, 0x6c, 0x69, 0x64, 0x61, 0x74, 0x6f, 0x72, 0x73] = fixkey ''Validators''"
  "[0xb0, 0x56, 0x61, 0x6c, 0x69, 0x64, 0x61, 0x74, 0x6f, 0x72, 0x73, 0x55, 0x70, 0x64, 0x61, 0x74, 0x65] =
     fixkey ''ValidatorsUpdate''"
  "[0xae, 0x50, 0x65, 0x6e, 0x64, 0x69, 0x6e, 0x67, 0x52, 0x65, 0x77, 0x61, 0x72, 0x64, 0x73] = fixkey ''PendingRewards''"
  by (simp_all add: fixkey_eval)

subsection \<open>Reading back what was written\<close>

context msgp_runtime
begin

lemma Marshal_Nomination_eq:
  "Marshal_Nomination rt b z = b @ 0x82 # fixkey ''Pubkey'' @ AppendBytes rt [] (be_bytes 32 (n_Pubkey z)) @
     fixkey ''NominatedCount'' @ AppendInt64 rt [] (n_NominatedCount z)"
  unfolding Marshal_Nomination_def nomination_keys by (simp add: append_norm)

lemma Unmarshal_Marshal_Nomination:
  "Unmarshal_Nomination rt z (Marshal_Nomination rt [] x @ r) = Some (x, r)"
  unfolding Marshal_Nomination_eq Unmarshal_Nomination_def
  by (simp add: read_norm)

lemma Marshal_PendingReward_eq:
  "Marshal_PendingReward rt b z = b @ 0x83 # fixkey ''Address'' @ AppendBytes rt [] (be_bytes 20 (pr_Address z)) @
     fixkey ''EpochNum'' @ AppendInt64 rt [] (pr_EpochNum z) @
     fixkey ''Amount'' @ AppendBytes rt [] (be_bytes 32 (pr_Amount z))"
  unfolding Marshal_PendingReward_def reward_keys by (simp add: append_norm)

lemma Unmarshal_Marshal_PendingReward:
  "Unmarshal_PendingReward rt z (Marshal_PendingReward rt [] x @ r) = Some (x, r)"
  unfolding Marshal_PendingReward_eq Unmarshal_PendingReward_def
  by (simp add: read_norm)

lemma Marshal_Validator_eq:
  "Marshal_Validator rt b z = b @ 0x87 # fixkey ''Address'' @ AppendBytes rt [] (be_bytes 20 (v_Address z)) @
     fixkey ''Pubkey'' @ AppendBytes rt [] (be_bytes 32 (v_Pubkey z)) @
     fixkey ''RewardTo'' @ AppendBytes rt [] (be_bytes 20 (v_RewardTo z)) @
     fixkey ''VotingPower'' @ AppendInt64 rt [] (v_VotingPower z) @
     fixkey ''Introduction'' @ AppendString rt [] (v_Introduction z) @
     fixkey ''StakedCoins'' @ AppendBytes rt [] (be_bytes 32 (v_StakedCoins z)) @
     fixkey ''IsRetiring'' @ AppendBool rt [] (v_IsRetiring z)"
  unfolding Marshal_Validator_def validator_keys by (simp add: append_norm)

lemma Unmarshal_Marshal_Validator:
  "length (v_Introduction x) < 2 ^ 32 \<Longrightarrow>
   Unmarshal_Validator rt z (Marshal_Validator rt [] x @ r) = Some (x, r)"
  unfolding Marshal_Validator_eq Unmarshal_Validator_def
  by (simp add: read_norm)

lemmas foldl_Nominations = foldl_Marshal [of "Marshal_Nomination rt"]
lemmas foldl_PendingRewards = foldl_Marshal [of "Marshal_PendingReward rt"]
lemmas foldl_Validators = foldl_Marshal [of "Marshal_Validator rt"]

lemma read_Nominations:
  "length ps < 2 ^ 32 \<Longrightarrow>
   read_slice rt (Unmarshal_Nomination rt) z0 zs
     (AppendArrayHeader rt [] (of_nat (length ps)) @ concat (map (append_ptr rt (Marshal_Nomination rt) []) ps) @ r) = Some (ps, r)"
  by (rule read_slice_concat [of ps _ "Marshal_Nomination rt", OF Unmarshal_Marshal_Nomination]) (simp_all add: Marshal_Nomination_eq)

lemma read_PendingRewards:
  "length ps < 2 ^ 32 \<Longrightarrow>
   read_slice rt (Unmarshal_PendingReward rt) z0 zs
     (AppendArrayHeader rt [] (of_nat (length ps)) @ concat (map (append_ptr rt (Marshal_PendingReward rt) []) ps) @ r) = Some (ps, r)"
  by (rule read_slice_concat [of ps _ "Marshal_PendingReward rt", OF Unmarshal_Marshal_PendingReward]) (simp_all add: Marshal_PendingReward_eq)

lemma read_Validators:
  "storable_ptrs ps \<Longrightarrow>
   read_slice rt (Unmarshal_Validator rt) z0 zs
     (AppendArrayHeader rt [] (of_nat (length ps)) @ concat (map (append_ptr rt (Marshal_Validator rt) []) ps) @ r) = Some (ps, r)"
  unfolding storable_ptrs_def
  by (rule read_slice_concat [of ps _ "Marshal_Validator rt", OF Unmarshal_Marshal_Validator]) (auto simp: Marshal_Validator_eq)

lemma Marshal_Epoch_p_eq:
  "Marshal_Epoch_p rt b z = b @ 0x84 # fixkey ''Number'' @ AppendInt64 rt [] (ep_Number z) @
     fixkey ''StartHeight'' @ AppendInt64 rt [] (ep_StartHeight z) @
     fixkey ''EndTime'' @ AppendInt64 rt [] (ep_EndTime z) @
     fixkey ''Nominations'' @ AppendArrayHeader rt [] (of_nat (length (ep_Nominations z))) @
       concat (map (append_ptr rt (Marshal_Nomination rt) []) (ep_Nominations z))"
  unfolding Marshal_Epoch_p_def epoch_keys Let_def
  by (subst foldl_Nominations) (simp_all add: append_norm Marshal_Nomination_eq)

lemma Unmarshal_Marshal_Epoch_p:
  "length (ep_Nominations x) < 2 ^ 32 \<Longrightarrow> Unmarshal_Epoch_p rt z (Marshal_Epoch_p rt [] x @ r) = Some (x, r)"
  unfolding Marshal_Epoch_p_eq Unmarshal_Epoch_p_def
  by (simp add: read_norm read_Nominations)

lemma Unmarshal_Marshal_Epoch:
  "length (e_Nominations x) < 2 ^ 32 \<Longrightarrow> Unmarshal_Epoch rt z (Marshal_Epoch rt [] x @ r) = Some (x, r)"
  using Unmarshal_Marshal_Epoch_p [of "refs_Epoch x"] by (simp add: Unmarshal_Epoch_def Marshal_Epoch_def refs_Epoch_def derefs_Epoch_def)

lemma Marshal_StakingInfo_p_eq:
  "Marshal_StakingInfo_p rt b z = b @
     0x85 # fixkey ''GenesisMainnetBlockHeight'' @ AppendInt64 rt [] (sp_GenesisMainnetBlockHeight z) @
     fixkey ''CurrEpochNum'' @ AppendInt64 rt [] (sp_CurrEpochNum z) @
     fixkey ''Validators'' @ AppendArrayHeader rt [] (of_nat (length (sp_Validators z))) @
       concat (map (append_ptr rt (Marshal_Validator rt) []) (sp_Validators z)) @
     fixkey ''ValidatorsUpdate'' @ AppendArrayHeader rt [] (of_nat (length (sp_ValidatorsUpdate z))) @
       concat (map (append_ptr rt (Marshal_Validator rt) []) (sp_ValidatorsUpdate z)) @
     fixkey ''PendingRewards'' @ AppendArrayHeader rt [] (of_nat (length (sp_PendingRewards z))) @
       concat (map (append_ptr rt (Marshal_PendingReward rt) []) (sp_PendingRewards z))"
proof -
  have V: "foldl (append_ptr rt (Marshal_Validator rt)) b ps = b @ concat (map (append_ptr rt (Marshal_Validator rt) []) ps)" for b ps
    by (rule foldl_Validators) (simp add: Marshal_Validator_eq)
  have P: "foldl (append_ptr rt (Marshal_PendingReward rt)) b ps = b @ concat (map (append_ptr rt (Marshal_PendingReward rt) []) ps)" for b ps
    by (rule foldl_PendingRewards) (simp add: Marshal_PendingReward_eq)
  show ?thesis
    unfolding Marshal_StakingInfo_p_def info_keys Let_def V P by (simp add: append_norm)
qed

lemma Unmarshal_Marshal_StakingInfo_p:
  "storable_p x \<Longrightarrow> Unmarshal_StakingInfo_p rt z (Marshal_StakingInfo_p rt [] x @ r) = Some (x, r)"
  unfolding Marshal_StakingInfo_p_eq Unmarshal_StakingInfo_p_def storable_p_def
  by (simp add: read_norm read_Validators read_PendingRewards)

lemma Unmarshal_Marshal_StakingInfo:
  "storable x \<Longrightarrow> Unmarshal_StakingInfo rt z (Marshal_StakingInfo rt [] x @ r) = Some (x, r)"
  using Unmarshal_Marshal_StakingInfo_p [of "refs_StakingInfo x"] by (simp add: Unmarshal_StakingInfo_def Marshal_StakingInfo_def storable_refs)

lemma Marshal_StakingInfo_nonempty: "Marshal_StakingInfo rt [] x \<noteq> []"
  by (simp add: Marshal_StakingInfo_def Marshal_StakingInfo_p_eq)

lemma Marshal_Epoch_nonempty: "Marshal_Epoch rt [] x \<noteq> []"
  by (simp add: Marshal_Epoch_def Marshal_Epoch_p_eq)

end

end
