(* ===== verification/Staking_Store.thy ===== *)
theory Staking_Store
  imports Environment Staking_Codec
begin

text \<open>
  The storage layout of the staking contract (the load and save functions of
  \<open>src/staking/staking.go\<close>). All of it lives under one contract sequence number; a slot
  name of 32 bytes is the number the bytes spell. \<open>staking_state\<close> is the chain context
  together with the package variable \<open>readonlyStakingInfo\<close>, which \<open>SaveStakingInfo\<close>
  replaces and the precompiled call \<open>sumVotingPower\<close> reads.
\<close>

record 'c staking_state =
  ss_ctx :: 'c
  readonlyStakingInfo :: "StakingInfo option"

definition StakingContractSequence :: u64 where "StakingContractSequence = 0xfffffffffffffffd"
definition StakingContractAddress :: address where "StakingContractAddress = 0x2710"

definition SlotStakingInfo :: bytes32 where "SlotStakingInfo = 0"
definition SlotAllBurnt :: bytes32 where "SlotAllBurnt = 1"
definition SlotMinGasPrice :: bytes32 where "SlotMinGasPrice = 2"
definition SlotLastMinGasPrice :: bytes32 where "SlotLastMinGasPrice = 3"
definition SlotMinGasPriceProposalTarget :: bytes32 where "SlotMinGasPriceProposalTarget = 4"
definition SlotVoters :: bytes32 where "SlotVoters = 5"

lemmas slot_defs = SlotStakingInfo_def SlotAllBurnt_def SlotMinGasPrice_def SlotLastMinGasPrice_def
  SlotMinGasPriceProposalTarget_def SlotVoters_def

subsection \<open>Results of a contract call\<close>

text \<open>
  The four results of \<open>Execute\<close>. The output bytes are the text of an error in the failing
  branches; the error value stands for its text.
\<close>

datatype staking_error = InvalidCallData | InvalidSelector | BalanceNotEnough | NoSuchValidator
  | ValidatorNotActive | OperatorNotValidator | MinGasPriceTooBig | MinGasPriceTooSmall | InvalidArgument
  | CreateValidatorCoinLtInitAmount | MinGasPriceExceedBlockChangeDelta | StillInProposal | NotInProposal
  | TargetExceedChangeDelta | ProposalHasFinished | ProposalNotFinished | TypesError types_error

datatype out_data = OutNone | OutErr staking_error | OutBytes bytes

record exec_result =
  status :: int
  logs :: "EvmLog list"
  gasUsed :: u64
  outData :: out_data

definition StatusSuccess :: int where "StatusSuccess = 0"
definition StatusFailed :: int where "StatusFailed = 1"
definition GasOfValidatorOp :: u64 where "GasOfValidatorOp = 400000"
definition GasOfMinGasPriceOp :: u64 where "GasOfMinGasPriceOp = 50000"

abbreviation failure :: "u64 \<Rightarrow> staking_error \<Rightarrow> exec_result" where
  "failure gas e \<equiv> \<lparr>status = StatusFailed, logs = [], gasUsed = gas, outData = OutErr e\<rparr>"

abbreviation success :: "u64 \<Rightarrow> out_data \<Rightarrow> exec_result" where
  "success gas out \<equiv> \<lparr>status = StatusSuccess, logs = [], gasUsed = gas, outData = out\<rparr>"

subsection \<open>Staking state and epochs\<close>

definition LoadStakingInfo :: "('c, 'a) ext \<Rightarrow> 'c \<Rightarrow> StakingInfo option" where
  "LoadStakingInfo E c =
     (case GetStorageAt E c StakingContractSequence SlotStakingInfo of
        None \<Rightarrow> Some zero_StakingInfo
      | Some bz \<Rightarrow> map_option fst (Unmarshal_StakingInfo (msgp E) zero_StakingInfo bz))"

definition LoadStakingAccAndInfo :: "('c, 'a) ext \<Rightarrow> 'c \<Rightarrow> ('a \<times> StakingInfo) option" where
  "LoadStakingAccAndInfo E c = do {
     stakingAcc \<leftarrow> GetAccount E c StakingContractAddress;
     info \<leftarrow> LoadStakingInfo E c;
     Some (stakingAcc, info) }"

definition SaveStakingInfo :: "('c, 'a) ext \<Rightarrow> 'c staking_state \<Rightarrow> StakingInfo \<Rightarrow> 'c staking_state" where
  "SaveStakingInfo E s info = s\<lparr>
     ss_ctx := SetStorageAt E (ss_ctx s) StakingContractSequence SlotStakingInfo
       (Marshal_StakingInfo (msgp E) [] info),
     readonlyStakingInfo := Some info\<rparr>"

definition AddGenesisValidatorsIntoStakingInfo ::
  "('c, 'a) ext \<Rightarrow> 'c staking_state \<Rightarrow> Validator list \<Rightarrow> 'c staking_state option" where
  "AddGenesisValidatorsIntoStakingInfo E s genesisValidators = do {
     info \<leftarrow> LoadStakingInfo E (ss_ctx s);
     Some (SaveStakingInfo E s (info\<lparr>si_Validators := genesisValidators,
       si_PendingRewards := map (\<lambda>v. \<lparr>pr_Address = v_Address v, pr_EpochNum = 0, pr_Amount = 0\<rparr>) genesisValidators\<rparr>)) }"

definition getSlotForEpoch :: "i64 \<Rightarrow> bytes32" where
  "getSlotForEpoch epochNum = 2 ^ 64 + ucast epochNum"

definition SaveEpoch :: "('c, 'a) ext \<Rightarrow> 'c \<Rightarrow> Epoch \<Rightarrow> 'c" where
  "SaveEpoch E c epoch = SetStorageAt E c StakingContractSequence (getSlotForEpoch (e_Number epoch))
     (Marshal_Epoch (msgp E) [] epoch)"

definition LoadEpoch :: "('c, 'a) ext \<Rightarrow> 'c \<Rightarrow> i64 \<Rightarrow> (Epoch \<times> bool) option" where
  "LoadEpoch E c epochNum =
     (case GetStorageAt E c StakingContractSequence (getSlotForEpoch epochNum) of
        None \<Rightarrow> Some (zero_Epoch, False)
      | Some bz \<Rightarrow> map_option (\<lambda>(epoch, _). (epoch, True)) (Unmarshal_Epoch (msgp E) zero_Epoch bz))"

subsection \<open>The minimum gas price\<close>

definition slot_bytes :: "('c, 'a) ext \<Rightarrow> 'c \<Rightarrow> bytes32 \<Rightarrow> bytes" where
  "slot_bytes E c k = (case GetStorageAt E c StakingContractSequence k of None \<Rightarrow> [] | Some bz \<Rightarrow> bz)"

definition LoadMinGasPrice :: "('c, 'a) ext \<Rightarrow> 'c \<Rightarrow> bool \<Rightarrow> u64 option" where
  "LoadMinGasPrice E c isLast =
     (let bz = slot_bytes E c (if isLast then SlotLastMinGasPrice else SlotMinGasPrice)
      in if bz = [] then Some DefaultMinGasPrice else Uint64 bz)"

definition SaveMinGasPrice :: "('c, 'a) ext \<Rightarrow> 'c \<Rightarrow> u64 \<Rightarrow> bool \<Rightarrow> 'c" where
  "SaveMinGasPrice E c minGP isLast =
     SetStorageAt E c StakingContractSequence (if isLast then SlotLastMinGasPrice else SlotMinGasPrice)
       (be_bytes 8 minGP)"

subsection \<open>Proposals and votes\<close>

definition SaveProposal :: "('c, 'a) ext \<Rightarrow> 'c \<Rightarrow> u64 \<Rightarrow> u64 \<Rightarrow> 'c" where
  "SaveProposal E c target deadline =
     SetStorageAt E c StakingContractSequence SlotMinGasPriceProposalTarget (be_bytes 8 target @ be_bytes 8 deadline)"

text \<open>The first load of an empty slot writes the zero proposal.\<close>

definition LoadProposal :: "('c, 'a) ext \<Rightarrow> 'c \<Rightarrow> ((u64 \<times> u64) \<times> 'c) option" where
  "LoadProposal E c =
     (let bz = slot_bytes E c SlotMinGasPriceProposalTarget
      in if bz = [] then Some ((0, 0), SaveProposal E c 0 0)
         else do { target \<leftarrow> Uint64 (take 8 bz); deadline \<leftarrow> Uint64 (drop 8 bz); Some ((target, deadline), c) })"

definition DeleteProposal :: "('c, 'a) ext \<Rightarrow> 'c \<Rightarrow> 'c" where
  "DeleteProposal E c = SaveProposal E c 0 0"

definition vote_key :: "('c, 'a) ext \<Rightarrow> address \<Rightarrow> bytes32" where
  "vote_key E validator = Sum256 E (str ''vote'' @ be_bytes 20 validator)"

definition LoadVote :: "('c, 'a) ext \<Rightarrow> 'c \<Rightarrow> address \<Rightarrow> (u64 \<times> u64) option" where
  "LoadVote E c validator =
     (let bz = slot_bytes E c (vote_key E validator)
      in if bz = [] then Some (0, 0)
         else do { target \<leftarrow> Uint64 (take 8 bz); votingPower \<leftarrow> Uint64 (drop 8 bz); Some (target, votingPower) })"

definition SaveVote :: "('c, 'a) ext \<Rightarrow> 'c \<Rightarrow> address \<Rightarrow> u64 \<Rightarrow> u64 \<Rightarrow> 'c" where
  "SaveVote E c validator target votingPower =
     SetStorageAt E c StakingContractSequence (vote_key E validator) (be_bytes 8 target @ be_bytes 8 votingPower)"

definition DeleteVote :: "('c, 'a) ext \<Rightarrow> 'c \<Rightarrow> address \<Rightarrow> 'c" where
  "DeleteVote E c validator = DeleteStorageAt E c StakingContractSequence (vote_key E validator)"

definition GetVoters :: "('c, 'a) ext \<Rightarrow> 'c \<Rightarrow> address list" where
  "GetVoters E c = (let bz = slot_bytes E c SlotVoters in if bz = [] then [] else JsonUnmarshalAddrs E bz)"

definition AddVoters :: "('c, 'a) ext \<Rightarrow> 'c \<Rightarrow> address \<Rightarrow> 'c" where
  "AddVoters E c validator =
     (let voters = GetVoters E c
      in if validator \<in> set voters then c
         else SetStorageAt E c StakingContractSequence SlotVoters (JsonMarshalAddrs E (voters @ [validator])))"

definition DeleteVoters :: "('c, 'a) ext \<Rightarrow> 'c \<Rightarrow> 'c" where
  "DeleteVoters E c = DeleteStorageAt E c StakingContractSequence SlotVoters"

definition DeleteProposalInfos :: "('c, 'a) ext \<Rightarrow> 'c \<Rightarrow> address list \<Rightarrow> 'c" where
  "DeleteProposalInfos E c voters =
     DeleteProposal E (foldl (DeleteVote E) (DeleteVoters E c) voters)"

definition mem_state :: "mem_ctx \<Rightarrow> mem_ctx staking_state" where
  "mem_state c = \<lparr>ss_ctx = c, readonlyStakingInfo = None\<rparr>"

subsection \<open>Reading back\<close>

lemma ucast_i64_eq_iff: "(ucast m :: bytes32) = ucast n \<longleftrightarrow> m = (n :: i64)"
  by (simp add: word_unat_eq_iff unat_ucast_up)

lemma getSlotForEpoch_inj: "getSlotForEpoch m = getSlotForEpoch n \<longleftrightarrow> m = n"
  by (simp add: getSlotForEpoch_def ucast_i64_eq_iff)

lemma unat_getSlotForEpoch: "unat (getSlotForEpoch n) = 2 ^ 64 + unat n"
proof -
  have n: "unat (ucast n :: bytes32) = unat n" by (rule unat_ucast_up) simp
  then show ?thesis
    using unat_lt [of n] by (simp add: getSlotForEpoch_def unat_add_no_wrap)
qed

lemma epoch_slot_free [simp]:
  "getSlotForEpoch n \<noteq> SlotStakingInfo" "getSlotForEpoch n \<noteq> SlotAllBurnt"
  "getSlotForEpoch n \<noteq> SlotMinGasPrice" "getSlotForEpoch n \<noteq> SlotLastMinGasPrice"
  "getSlotForEpoch n \<noteq> SlotMinGasPriceProposalTarget" "getSlotForEpoch n \<noteq> SlotVoters"
  using unat_getSlotForEpoch [of n] by (auto simp: slot_defs)

text \<open>What each load depends on.\<close>

lemma LoadStakingInfo_cong:
  "GetStorageAt E c StakingContractSequence SlotStakingInfo = GetStorageAt E d StakingContractSequence SlotStakingInfo \<Longrightarrow>
   LoadStakingInfo E c = LoadStakingInfo E d"
  by (simp add: LoadStakingInfo_def)

context chain_ctx
begin

lemma slot_bytes_set:
  "v \<noteq> [] \<Longrightarrow> slot_bytes E (SetStorageAt E c StakingContractSequence k v) j = (if j = k then v else slot_bytes E c j)"
  by (simp add: slot_bytes_def get_set_storage)

lemma slot_bytes_delete:
  "slot_bytes E (DeleteStorageAt E c StakingContractSequence k) j = (if j = k then [] else slot_bytes E c j)"
  by (simp add: slot_bytes_def get_delete_storage)

lemma slot_bytes_set_account: "slot_bytes E (SetAccount E c a x) j = slot_bytes E c j"
  by (simp add: slot_bytes_def storage_set_account)

lemmas slot_bytes_simps = slot_bytes_set slot_bytes_delete slot_bytes_set_account

lemma load_save_info:
  assumes "storable info"
  shows "LoadStakingInfo E (ss_ctx (SaveStakingInfo E s info)) = Some info"
  using msgp_runtime.Unmarshal_Marshal_StakingInfo [OF runtime assms, of _ "[]"]
  by (simp add: LoadStakingInfo_def SaveStakingInfo_def get_set_storage
      msgp_runtime.Marshal_StakingInfo_nonempty [OF runtime])

lemma load_save_epoch:
  assumes "length (e_Nominations ep) < 2 ^ 32"
  shows "LoadEpoch E (SaveEpoch E c ep) n = (if n = e_Number ep then Some (ep, True) else LoadEpoch E c n)"
  using msgp_runtime.Unmarshal_Marshal_Epoch [OF runtime assms, of _ "[]"]
  by (simp add: LoadEpoch_def SaveEpoch_def get_set_storage getSlotForEpoch_inj
      msgp_runtime.Marshal_Epoch_nonempty [OF runtime])

lemma load_save_price:
  "LoadMinGasPrice E (SaveMinGasPrice E c p l) l' = (if l' = l then Some p else LoadMinGasPrice E c l')"
  by (auto simp: LoadMinGasPrice_def SaveMinGasPrice_def slot_bytes_simps slot_defs Let_def)

lemma load_save_proposal:
  "LoadProposal E (SaveProposal E c t d) = Some ((t, d), SaveProposal E c t d)"
  by (simp add: LoadProposal_def SaveProposal_def slot_bytes_simps)

text \<open>The staking state survives every write to another slot and every account update.\<close>

lemma load_info_set_other:
  "k \<noteq> SlotStakingInfo \<Longrightarrow>
   LoadStakingInfo E (SetStorageAt E c StakingContractSequence k v) = LoadStakingInfo E c"
  by (rule LoadStakingInfo_cong) (auto simp: get_set_storage_other)

lemma load_info_delete_other:
  "k \<noteq> SlotStakingInfo \<Longrightarrow>
   LoadStakingInfo E (DeleteStorageAt E c StakingContractSequence k) = LoadStakingInfo E c"
  by (rule LoadStakingInfo_cong) (auto simp: get_delete_storage)

lemma load_info_set_account: "LoadStakingInfo E (SetAccount E c a x) = LoadStakingInfo E c"
  by (rule LoadStakingInfo_cong) (simp add: storage_set_account)

lemma load_info_save_epoch: "LoadStakingInfo E (SaveEpoch E c ep) = LoadStakingInfo E c"
  by (simp add: SaveEpoch_def load_info_set_other)

lemma account_save_info [simp]:
  "GetAccount E (ss_ctx (SaveStakingInfo E s info)) = GetAccount E (ss_ctx s)"
  by (auto simp: SaveStakingInfo_def account_set_storage)

lemma storage_save_info:
  "\<not> (q = StakingContractSequence \<and> k = SlotStakingInfo) \<Longrightarrow>
   GetStorageAt E (ss_ctx (SaveStakingInfo E s info)) q k = GetStorageAt E (ss_ctx s) q k"
  by (simp add: SaveStakingInfo_def get_set_storage_other)

lemma bal_save_info [simp]: "bal E (ss_ctx (SaveStakingInfo E s info)) = bal E (ss_ctx s)"
  by (rule ext) (simp add: bal_def)

lemma account_save_epoch [simp]: "GetAccount E (SaveEpoch E c ep) = GetAccount E c"
  by (auto simp: SaveEpoch_def account_set_storage)

end

subsection \<open>Votes\<close>

context chain_votes
begin

lemma vote_key_inj [simp]: "vote_key E a = vote_key E b \<longleftrightarrow> a = b"
  unfolding vote_key_def using vote_slot_inj by blast

lemma vote_key_free [simp]:
  "vote_key E a \<noteq> SlotStakingInfo" "vote_key E a \<noteq> SlotMinGasPrice" "vote_key E a \<noteq> SlotLastMinGasPrice"
  "vote_key E a \<noteq> SlotMinGasPriceProposalTarget" "vote_key E a \<noteq> SlotVoters" "vote_key E a \<noteq> SlotAllBurnt"
  using vote_slot_free [of a] by (auto simp: vote_key_def slot_defs)

lemma vote_key_epoch [simp]: "vote_key E a \<noteq> getSlotForEpoch n"
proof -
  have "unat (getSlotForEpoch n) < 2 ^ 65"
    using unat_lt [of n] by (simp add: unat_getSlotForEpoch)
  then show ?thesis
    using vote_slot_free [of a] by (auto simp: vote_key_def word_less_nat_alt)
qed

lemma load_save_vote:
  "LoadVote E (SaveVote E c a t p) b = (if b = a then Some (t, p) else LoadVote E c b)"
  by (simp add: LoadVote_def SaveVote_def slot_bytes_simps)

lemma load_delete_vote:
  "LoadVote E (DeleteVote E c a) b = (if b = a then Some (0, 0) else LoadVote E c b)"
  by (simp add: LoadVote_def DeleteVote_def slot_bytes_simps)

lemma load_delete_votes:
  "LoadVote E (foldl (DeleteVote E) c as) b = (if b \<in> set as then Some (0, 0) else LoadVote E c b)"
  by (induction as arbitrary: c) (auto simp: load_delete_vote)

lemma get_add_voters:
  "GetVoters E (AddVoters E c a) = (if a \<in> set (GetVoters E c) then GetVoters E c else GetVoters E c @ [a])"
  by (auto simp: AddVoters_def GetVoters_def slot_bytes_simps json_addrs json_nonempty Let_def)

end

subsection \<open>Properties\<close>

lemma storable_sample_info: "storable sample_info"
  by (simp add: storable_def storable_validators_def sample_info_def sample_validator_def)

text \<open>
  the staking state is read back from storage as it was saved, the copy for
  \<open>sumVotingPower\<close> is the saved state too, and saving touches neither an account nor
  another storage slot.
\<close>

theorem SaveStakingInfo_roundtrip:
  assumes "chain_ctx E" and "storable info"
  shows "LoadStakingInfo E (ss_ctx (SaveStakingInfo E s info)) = Some info \<and>
     readonlyStakingInfo (SaveStakingInfo E s info) = Some info \<and>
     GetAccount E (ss_ctx (SaveStakingInfo E s info)) = GetAccount E (ss_ctx s) \<and>
     (q = StakingContractSequence \<and> k = SlotStakingInfo \<or>
      GetStorageAt E (ss_ctx (SaveStakingInfo E s info)) q k = GetStorageAt E (ss_ctx s) q k)"
  using chain_ctx.load_save_info [OF assms] chain_ctx.account_save_info [OF assms(1)]
    chain_ctx.storage_save_info [OF assms(1), of q k s info]
  by (cases "q = StakingContractSequence \<and> k = SlotStakingInfo") (simp_all add: SaveStakingInfo_def)

theorem SaveStakingInfo_roundtrip_witness:
  "LoadStakingInfo mem_ext (ss_ctx (SaveStakingInfo mem_ext (mem_state mem_empty) sample_info)) = Some sample_info"
  using SaveStakingInfo_roundtrip [OF mem_chain_ctx storable_sample_info] by blast

text \<open>
  A saved epoch is found under its number and no other epoch changes, whatever 64-bit
  number it carries (negative ones included).
\<close>

theorem SaveEpoch_roundtrip:
  assumes "chain_ctx E" and "length (e_Nominations ep) < 2 ^ 32"
  shows "LoadEpoch E (SaveEpoch E c ep) n = (if n = e_Number ep then Some (ep, True) else LoadEpoch E c n)"
  by (rule chain_ctx.load_save_epoch [OF assms])

theorem SaveEpoch_roundtrip_witness:
  "LoadEpoch mem_ext (SaveEpoch mem_ext mem_empty (zero_Epoch\<lparr>e_Number := - 1\<rparr>)) (- 1) =
     Some (zero_Epoch\<lparr>e_Number := - 1\<rparr>, True)"
  using SaveEpoch_roundtrip [OF mem_chain_ctx, of "zero_Epoch\<lparr>e_Number := - 1\<rparr>" mem_empty "- 1"]
  by (simp add: zero_Epoch_def)

end
