(* ===== verification/Staking_Governance.thy ===== *)
theory Staking_Governance
  imports Staking_Store
begin

text \<open>
  The minimum gas price and its governance (\<open>src/staking/staking.go\<close>): proposals, votes
  and their execution after the XHedge fork, and the stepwise increase and decrease before
  it. The second half is the specification, a small state machine \<open>gov_step\<close> over the
  abstract state \<open>gov\<close>, and the simulation between the two.
\<close>

definition MinGasPriceDeltaRateInBlock :: u64 where "MinGasPriceDeltaRateInBlock = 16"
definition MinGasPriceDeltaRate :: u64 where "MinGasPriceDeltaRate = 5"
definition MinGasPriceUpperBound :: u64 where "MinGasPriceUpperBound = 500000000000"
definition MinGasPriceLowerBoundOld :: u64 where "MinGasPriceLowerBoundOld = 1000000000"
definition MinGasPriceLowerBound :: u64 where "MinGasPriceLowerBound = 10000000"
definition DefaultProposalDuration :: u64 where "DefaultProposalDuration = 60 * 60 * 24"
definition MinimumStakingAmount :: u256 where "MinimumStakingAmount = 0"

lemmas price_defs = MinGasPriceDeltaRate_def MinGasPriceUpperBound_def MinGasPriceLowerBound_def
  DefaultMinGasPrice_def

definition checkTarget :: "u64 \<Rightarrow> u64 \<Rightarrow> staking_error option" where
  "checkTarget lastMinGasPrice target =
     (if lastMinGasPrice \<noteq> 0 \<and> (lastMinGasPrice * MinGasPriceDeltaRate < target \<or>
          lastMinGasPrice > target * MinGasPriceDeltaRate) then Some TargetExceedChangeDelta
      else if target > MinGasPriceUpperBound then Some MinGasPriceTooBig
      else if target < MinGasPriceLowerBound then Some MinGasPriceTooSmall
      else None)"

definition createProposal ::
  "('c, 'a) ext \<Rightarrow> 'c \<Rightarrow> u64 \<Rightarrow> TxToRun \<Rightarrow> (exec_result \<times> 'c) option" where
  "createProposal E c now tx = do {
     info \<leftarrow> LoadStakingInfo E c;
     (case GetValidatorByAddr info (tx_From tx) of
        None \<Rightarrow> Some (failure GasOfMinGasPriceOp NoSuchValidator, c)
      | Some val \<Rightarrow>
          if v_VotingPower val = 0 then Some (failure GasOfMinGasPriceOp ValidatorNotActive, c)
          else do {
            ((target, _), c) \<leftarrow> LoadProposal E c;
            if target \<noteq> 0 then Some (failure GasOfMinGasPriceOp StillInProposal, c)
            else let callData = drop 4 (tx_Data tx) in
              if length callData \<noteq> 32 then Some (failure GasOfMinGasPriceOp InvalidCallData, c)
              else do {
                target \<leftarrow> Uint64 (drop 24 callData);
                lastMinGasPrice \<leftarrow> LoadMinGasPrice E c True;
                (case checkTarget lastMinGasPrice target of
                   Some err \<Rightarrow> Some (failure GasOfMinGasPriceOp err, c)
                 | None \<Rightarrow>
                     let c = SaveProposal E c target (now + DefaultProposalDuration);
                         c = SaveVote E c (tx_From tx) target (v_VotingPower val);
                         c = AddVoters E c (tx_From tx)
                     in Some (success GasOfMinGasPriceOp OutNone, c)) } }) }"

definition vote ::
  "('c, 'a) ext \<Rightarrow> 'c \<Rightarrow> u64 \<Rightarrow> TxToRun \<Rightarrow> (exec_result \<times> 'c) option" where
  "vote E c now tx = do {
     info \<leftarrow> LoadStakingInfo E c;
     (case GetValidatorByAddr info (tx_From tx) of
        None \<Rightarrow> Some (failure GasOfMinGasPriceOp NoSuchValidator, c)
      | Some val \<Rightarrow>
          if v_VotingPower val = 0 then Some (failure GasOfMinGasPriceOp ValidatorNotActive, c)
          else do {
            ((target, deadline), c) \<leftarrow> LoadProposal E c;
            if target = 0 then Some (failure GasOfMinGasPriceOp NotInProposal, c)
            else if now \<ge> deadline then Some (failure GasOfMinGasPriceOp ProposalHasFinished, c)
            else let callData = drop 4 (tx_Data tx) in
              if length callData \<noteq> 32 then Some (failure GasOfMinGasPriceOp InvalidCallData, c)
              else do {
                target \<leftarrow> Uint64 (drop 24 callData);
                lastMinGasPrice \<leftarrow> LoadMinGasPrice E c True;
                let target = (if target = 0 then lastMinGasPrice else target) in
                (case checkTarget lastMinGasPrice target of
                   Some err \<Rightarrow> Some (failure GasOfMinGasPriceOp err, c)
                 | None \<Rightarrow>
                     let c = SaveVote E c (tx_From tx) target (v_VotingPower val);
                         c = AddVoters E c (tx_From tx)
                     in Some (success GasOfMinGasPriceOp OutNone, c)) } }) }"

definition CalcMedian :: "u64 list \<Rightarrow> u64 option" where
  "CalcMedian nums =
     (let nums = sort nums; index = length nums div 2
      in if 2 * index = length nums
         then (if index = 0 then None else Some ((nums ! (index - 1) + nums ! index) div 2))
         else Some (nums ! index))"

definition tally_step ::
  "(address \<Rightarrow> (u64 \<times> u64) option) \<Rightarrow> u64 list \<times> u64 \<times> u64 \<Rightarrow> address \<Rightarrow> (u64 list \<times> u64 \<times> u64) option" where
  "tally_step load st voter = (case st of (targets, totalPower, totalTarget) \<Rightarrow> do {
     (target, votingPower) \<leftarrow> load voter;
     Some (targets @ [target], totalPower + votingPower, totalTarget + votingPower * target) })"

definition tally :: "(address \<Rightarrow> (u64 \<times> u64) option) \<Rightarrow> address list \<Rightarrow> u64 option" where
  "tally load voters = do {
     (targets, totalPower, totalTarget) \<leftarrow> foldM (tally_step load) ([], 0, 0) voters;
     t1 \<leftarrow> CalcMedian targets;
     t2 \<leftarrow> udiv64 totalTarget totalPower;
     Some ((t1 + t2) div 2) }"

definition CalculateTarget :: "('c, 'a) ext \<Rightarrow> 'c \<Rightarrow> address list \<Rightarrow> u64 option" where
  "CalculateTarget E c voters = tally (LoadVote E c) voters"

definition executeProposal ::
  "('c, 'a) ext \<Rightarrow> 'c \<Rightarrow> u64 \<Rightarrow> (exec_result \<times> 'c) option" where
  "executeProposal E c now = do {
     ((target, deadline), c) \<leftarrow> LoadProposal E c;
     if target = 0 then Some (failure GasOfMinGasPriceOp NotInProposal, c)
     else if now < deadline then Some (failure GasOfMinGasPriceOp ProposalNotFinished, c)
     else do {
       let voters = GetVoters E c;
       target \<leftarrow> CalculateTarget E c voters;
       let c = SaveMinGasPrice E c target False;
       let c = DeleteProposalInfos E c voters;
       Some (success GasOfMinGasPriceOp OutNone, c) } }"

definition getVote :: "('c, 'a) ext \<Rightarrow> 'c \<Rightarrow> TxToRun \<Rightarrow> exec_result option" where
  "getVote E c tx =
     (let callData = drop 4 (tx_Data tx) in
      if length callData \<noteq> 32 then Some (failure GasOfMinGasPriceOp InvalidCallData)
      else do {
        (target, _) \<leftarrow> LoadVote E c (be_val (drop 12 callData));
        Some (success GasOfMinGasPriceOp (OutBytes (be_bytes 32 (ucast target :: u256)))) })"

definition handleMinGasPrice ::
  "('c, 'a) ext \<Rightarrow> 'c \<Rightarrow> address \<Rightarrow> bool \<Rightarrow> (exec_result \<times> 'c) option" where
  "handleMinGasPrice E c sender isIncrease =
     (if IsXHedgeFork E c then Some (success GasOfMinGasPriceOp OutNone, c)
      else do {
        mGP \<leftarrow> LoadMinGasPrice E c False;
        lastMGP \<leftarrow> LoadMinGasPrice E c True;
        info \<leftarrow> LoadStakingInfo E c;
        let activeValidators = GetActiveValidators (si_Validators info) MinimumStakingAmount;
        if \<not> list_ex (\<lambda>v. v_Address v = sender \<or> v_RewardTo v = sender) activeValidators
        then Some (failure GasOfMinGasPriceOp OperatorNotValidator, c)
        else
          let mGP = (if isIncrease then mGP + MinGasPriceDeltaRate * mGP div 100
                     else mGP - MinGasPriceDeltaRate * mGP div 100) in
          if mGP < MinGasPriceLowerBoundOld then Some (failure GasOfMinGasPriceOp MinGasPriceTooSmall, c)
          else if mGP > MinGasPriceUpperBound then Some (failure GasOfMinGasPriceOp MinGasPriceTooBig, c)
          else if (mGP > lastMGP \<and> 100 * (mGP - lastMGP) > MinGasPriceDeltaRateInBlock * lastMGP) \<or>
                  (mGP < lastMGP \<and> 100 * (lastMGP - mGP) > MinGasPriceDeltaRateInBlock * lastMGP)
               then Some (failure GasOfMinGasPriceOp MinGasPriceExceedBlockChangeDelta, c)
          else Some (success GasOfMinGasPriceOp OutNone, SaveMinGasPrice E c mGP False) })"

subsection \<open>The specification\<close>

record gov =
  g_Price :: u64
  g_Last :: u64
  g_Target :: u64
  g_Deadline :: u64
  g_Votes :: "address \<Rightarrow> u64 \<times> u64"
  g_Voters :: "address list"

definition g_vote :: "address \<Rightarrow> u64 \<Rightarrow> u64 \<Rightarrow> gov \<Rightarrow> gov" where
  "g_vote a t p g = g\<lparr>g_Votes := (g_Votes g)(a := (t, p)),
     g_Voters := (if a \<in> set (g_Voters g) then g_Voters g else g_Voters g @ [a])\<rparr>"

definition g_close :: "u64 \<Rightarrow> gov \<Rightarrow> gov" where
  "g_close t g = g\<lparr>g_Price := t, g_Target := 0, g_Deadline := 0,
     g_Votes := (\<lambda>a. if a \<in> set (g_Voters g) then (0, 0) else g_Votes g a), g_Voters := []\<rparr>"

text \<open>
  One step: a proposal opens with the proposer's vote, a vote joins an open proposal, an
  elapsed proposal is executed, and the end of a block copies the price to the last price.
  \<open>pw\<close> bounds the power an address may vote with.
\<close>

inductive gov_step :: "(address \<Rightarrow> nat) \<Rightarrow> gov \<Rightarrow> gov \<Rightarrow> bool" for pw where
  propose: "g_Target g = 0 \<Longrightarrow> checkTarget (g_Last g) t = None \<Longrightarrow> p \<noteq> 0 \<Longrightarrow> unat p \<le> pw a \<Longrightarrow>
    gov_step pw g (g_vote a t p (g\<lparr>g_Target := t, g_Deadline := d\<rparr>))"
| cast: "g_Target g \<noteq> 0 \<Longrightarrow> checkTarget (g_Last g) t = None \<Longrightarrow> p \<noteq> 0 \<Longrightarrow> unat p \<le> pw a \<Longrightarrow>
    gov_step pw g (g_vote a t p g)"
| execute: "g_Target g \<noteq> 0 \<Longrightarrow> tally (\<lambda>a. Some (g_Votes g a)) (g_Voters g) = Some t \<Longrightarrow>
    gov_step pw g (g_close t g)"
| end_block: "gov_step pw g (g\<lparr>g_Last := g_Price g\<rparr>)"

inductive_cases gov_stepE: "gov_step pw g g'"

definition in_range :: "u64 \<Rightarrow> bool" where
  "in_range t \<longleftrightarrow> MinGasPriceLowerBound \<le> t \<and> t \<le> MinGasPriceUpperBound"

definition gov_inv :: "(address \<Rightarrow> nat) \<Rightarrow> gov \<Rightarrow> bool" where
  "gov_inv pw g \<longleftrightarrow> in_range (g_Price g) \<and> in_range (g_Last g) \<and> distinct (g_Voters g) \<and>
     (g_Voters g = [] \<longleftrightarrow> g_Target g = 0) \<and>
     (\<forall>a. if a \<in> set (g_Voters g)
          then in_range (fst (g_Votes g a)) \<and> snd (g_Votes g a) \<noteq> 0 \<and> unat (snd (g_Votes g a)) \<le> pw a
          else g_Votes g a = (0, 0))"

text \<open>What the bytes of a slot mean: two numbers, a price, a list of voters.\<close>

definition pair_of :: "bytes \<Rightarrow> (u64 \<times> u64) option" where
  "pair_of bz = (if bz = [] then Some (0, 0) else do { x \<leftarrow> Uint64 (take 8 bz); y \<leftarrow> Uint64 (drop 8 bz); Some (x, y) })"

definition price_of :: "bytes \<Rightarrow> u64 option" where
  "price_of bz = (if bz = [] then Some DefaultMinGasPrice else Uint64 bz)"

definition voters_of :: "('c, 'a) ext \<Rightarrow> bytes \<Rightarrow> address list" where
  "voters_of E bz = (if bz = [] then [] else JsonUnmarshalAddrs E bz)"

text \<open>The abstract state a context holds.\<close>

definition gov_rel :: "('c, 'a) ext \<Rightarrow> 'c \<Rightarrow> gov \<Rightarrow> bool" where
  "gov_rel E c g \<longleftrightarrow> LoadMinGasPrice E c False = Some (g_Price g) \<and> LoadMinGasPrice E c True = Some (g_Last g) \<and>
     map_option fst (LoadProposal E c) = Some (g_Target g, g_Deadline g) \<and>
     (\<forall>a. LoadVote E c a = Some (g_Votes g a)) \<and> GetVoters E c = g_Voters g"

text \<open>
  A call from context \<open>c\<close> either fails and leaves the abstract state alone, or succeeds with
  a step of the specification; the validators are untouched in both cases.
\<close>

definition refines_step ::
  "('c, 'a) ext \<Rightarrow> (address \<Rightarrow> nat) \<Rightarrow> 'c \<Rightarrow> gov \<Rightarrow> (exec_result \<times> 'c) option \<Rightarrow> bool" where
  "refines_step E pw c g r \<longleftrightarrow> (\<exists>res c'. r = Some (res, c') \<and> LoadStakingInfo E c' = LoadStakingInfo E c \<and>
     (if status res = StatusSuccess then \<exists>g'. gov_step pw g g' \<and> gov_rel E c' g' else gov_rel E c' g))"

text \<open>The end of a block (\<open>refresh\<close> of \<open>src/app/app.go\<close>) makes the price of this block the last one.\<close>

definition refresh_price :: "('c, 'a) ext \<Rightarrow> 'c \<Rightarrow> 'c option" where
  "refresh_price E c = do { mGP \<leftarrow> LoadMinGasPrice E c False; Some (SaveMinGasPrice E c mGP True) }"

text \<open>The abstract state of a chain on which no price was ever saved.\<close>

definition gov0 :: gov where
  "gov0 = \<lparr>g_Price = DefaultMinGasPrice, g_Last = DefaultMinGasPrice, g_Target = 0, g_Deadline = 0,
     g_Votes = (\<lambda>_. (0, 0)), g_Voters = []\<rparr>"

text \<open>A chain with two validators of power one, for the examples.\<close>

definition sample_ctx :: mem_ctx where
  "sample_ctx = ss_ctx (SaveStakingInfo mem_ext (mem_state mem_empty) sample_info)"

definition sample_votes_ctx :: mem_ctx where
  "sample_votes_ctx = AddVoters mem_ext (SaveVote mem_ext (AddVoters mem_ext (SaveVote mem_ext
     (SaveProposal mem_ext sample_ctx 20000000000 86400) 1 20000000000 1) 1) 2 10000000000 1) 2"

definition sample_gov :: gov where
  "sample_gov = gov0\<lparr>g_Target := 20000000000, g_Deadline := 86400,
     g_Votes := (\<lambda>_. (0, 0))(1 := (20000000000, 1), 2 := (10000000000, 1)), g_Voters := [1, 2]\<rparr>"

definition sample_pw :: "address \<Rightarrow> nat" where
  "sample_pw a = (if a = 1 then 1 else 0) + (if a = 2 then 1 else 0)"

text \<open>Sequences of calls, in any order and by any sender.\<close>

datatype gov_call = CallProposal u64 TxToRun | CallVote u64 TxToRun | CallExecute u64 | CallEndBlock

fun gov_run :: "('c, 'a) ext \<Rightarrow> 'c \<Rightarrow> gov_call \<Rightarrow> 'c option" where
  "gov_run E c (CallProposal now tx) = map_option snd (createProposal E c now tx)"
| "gov_run E c (CallVote now tx) = map_option snd (vote E c now tx)"
| "gov_run E c (CallExecute now) = map_option snd (executeProposal E c now)"
| "gov_run E c CallEndBlock = refresh_price E c"

subsection \<open>The tally\<close>

lemma checkTarget_exact_aux:
  assumes "unat lp \<le> 500000000000"
  shows "(lp * MinGasPriceDeltaRate < target \<or> lp > target * MinGasPriceDeltaRate) \<longleftrightarrow>
    (5 * unat lp < unat target \<or> 5 * unat target < unat lp)"
proof -
  have l: "unat (lp * MinGasPriceDeltaRate) = unat lp * 5"
    using assms by (simp add: MinGasPriceDeltaRate_def unat_mult_no_wrap)
  show ?thesis
  proof (cases "unat target * 5 < 2 ^ 64")
    case True
    then have "unat (target * MinGasPriceDeltaRate) = unat target * 5"
      by (simp add: MinGasPriceDeltaRate_def unat_mult_no_wrap)
    with l show ?thesis by (simp add: word_less_nat_alt mult.commute)
  next
    case False
    then have "5 * unat lp < unat target" using assms by simp
    with l show ?thesis by (simp add: word_less_nat_alt mult.commute)
  qed
qed

lemma step_price:
  assumes "unat old \<le> 500000000000"
  shows "unat (old + MinGasPriceDeltaRate * old div 100) = unat old + 5 * unat old div 100"
    and "unat (old - MinGasPriceDeltaRate * old div 100) = unat old - 5 * unat old div 100"
proof -
  have "unat (MinGasPriceDeltaRate * old) = 5 * unat old"
    using assms by (simp add: MinGasPriceDeltaRate_def unat_mult_no_wrap)
  then have d: "unat (MinGasPriceDeltaRate * old div 100) = 5 * unat old div 100"
    by (simp add: unat_div)
  show "unat (old + MinGasPriceDeltaRate * old div 100) = unat old + 5 * unat old div 100"
    using assms d by (subst unat_add_no_wrap) simp_all
  show "unat (old - MinGasPriceDeltaRate * old div 100) = unat old - 5 * unat old div 100"
    using d by (subst unat_sub_le) (simp_all add: word_le_nat_alt)
qed

lemma block_delta:
  assumes "unat new \<le> 600000000000" and "unat lp \<le> 500000000000"
  shows "(new > lp \<and> 100 * (new - lp) > MinGasPriceDeltaRateInBlock * lp) \<or>
      (new < lp \<and> 100 * (lp - new) > MinGasPriceDeltaRateInBlock * lp) \<longleftrightarrow>
    100 * (unat new - unat lp) > 16 * unat lp \<or> 100 * (unat lp - unat new) > 16 * unat lp"
proof -
  have m: "unat (MinGasPriceDeltaRateInBlock * lp) = 16 * unat lp"
    using assms by (simp add: MinGasPriceDeltaRateInBlock_def unat_mult_no_wrap)
  have h: "unat (100 * (x - y)) = 100 * (unat x - unat y)"
    if "y < x" "unat x \<le> 600000000000" for x y :: u64
  proof -
    have "unat (x - y) = unat x - unat y" using that by (simp add: unat_sub_le)
    then show ?thesis using that by (subst unat_mult_no_wrap) simp_all
  qed
  consider "new > lp" | "new < lp" | "new = lp" by (metis neqE)
  then show ?thesis
  proof cases
    case 1
    then show ?thesis using h [of lp new] m assms by (simp add: word_less_nat_alt)
  next
    case 2
    then show ?thesis using h [of new lp] m assms by (simp add: word_less_nat_alt)
  next
    case 3
    then show ?thesis by simp
  qed
qed

lemma in_range_unat: "in_range t \<longleftrightarrow> 10000000 \<le> unat t \<and> unat t \<le> 500000000000"
  by (simp add: in_range_def price_defs word_le_nat_alt)

lemma checkTarget_in_range: "checkTarget lp t = None \<Longrightarrow> in_range t"
  by (auto simp: checkTarget_def in_range_def split: if_splits)

lemma unat_average:
  assumes "in_range a" and "in_range b"
  shows "unat ((a + b) div 2) = (unat a + unat b) div 2"
proof -
  have "unat (a + b) = unat a + unat b"
    using assms by (simp add: in_range_unat unat_add_no_wrap)
  then show ?thesis by (simp add: unat_div)
qed

lemma in_range_average:
  assumes "in_range a" and "in_range b"
  shows "in_range ((a + b) div 2)"
  using assms unat_average [OF assms] unfolding in_range_unat by linarith

lemma CalcMedian_in_range:
  assumes "nums \<noteq> []" and "\<forall>t \<in> set nums. in_range t"
  shows "\<exists>t. CalcMedian nums = Some t \<and> in_range t"
proof -
  let ?ns = "sort nums" and ?i = "length nums div 2"
  have elem: "i < length nums \<Longrightarrow> in_range (?ns ! i)" for i
    using assms(2) nth_mem [of i ?ns] by simp
  have i: "?i < length nums" using assms(1) by simp
  then have j: "?i - 1 < length nums" by simp
  show ?thesis
  proof (cases "2 * ?i = length nums")
    case True
    then have "?i \<noteq> 0" using assms(1) by (cases "?i") auto
    with True in_range_average [OF elem [OF j] elem [OF i]] show ?thesis
      by (simp add: CalcMedian_def Let_def)
  next
    case False
    then show ?thesis using elem [OF i] by (simp add: CalcMedian_def Let_def)
  qed
qed

lemma foldM_tally:
  "foldM (tally_step (\<lambda>a. Some (v a))) (ts, P, T) vs =
     Some (ts @ map (fst \<circ> v) vs, P + sum_list (map (snd \<circ> v) vs), T + sum_list (map (\<lambda>a. snd (v a) * fst (v a)) vs))"
  by (induction vs arbitrary: ts P T) (simp_all add: tally_step_def split_def algebra_simps)

lemma sum_list_weighted:
  assumes "\<forall>a \<in> set vs. lo \<le> t a \<and> t a \<le> (hi :: nat)"
  shows "lo * sum_list (map p vs) \<le> sum_list (map (\<lambda>a. p a * t a) vs) \<and>
    sum_list (map (\<lambda>a. p a * t a) vs) \<le> hi * sum_list (map p vs)"
  using assms
proof (induction vs)
  case (Cons a vs)
  then have "lo * p a \<le> p a * t a" "p a * t a \<le> hi * p a" by (simp_all add: mult.commute)
  with Cons show ?case by (auto simp: algebra_simps intro: add_mono)
qed simp

lemma tally_value:
  assumes "vs \<noteq> []" and ok: "\<forall>a \<in> set vs. in_range (fst (v a)) \<and> snd (v a) \<noteq> 0"
    and cap: "sum_list (map (\<lambda>a. unat (snd (v a))) vs) \<le> 36893488"
  shows "\<exists>t m. tally (\<lambda>a. Some (v a)) vs = Some t \<and> in_range t \<and> CalcMedian (map (fst \<circ> v) vs) = Some m \<and>
    unat t = (unat m + sum_list (map (\<lambda>a. unat (snd (v a)) * unat (fst (v a))) vs) div
      sum_list (map (\<lambda>a. unat (snd (v a))) vs)) div 2"
proof -
  let ?P = "sum_list (map (snd \<circ> v) vs)" and ?T = "sum_list (map (\<lambda>a. snd (v a) * fst (v a)) vs)"
  let ?p = "sum_list (map (\<lambda>a. unat (snd (v a))) vs)"
  let ?t = "sum_list (map (\<lambda>a. unat (snd (v a)) * unat (fst (v a))) vs)"
  have w: "10000000 * ?p \<le> ?t" "?t \<le> 500000000000 * ?p"
    using sum_list_weighted [of vs 10000000 "\<lambda>a. unat (fst (v a))" 500000000000 "\<lambda>a. unat (snd (v a))"] ok
    by (auto simp: in_range_unat)
  have P: "unat ?P = ?p" using cap unat_sum_list [of "snd \<circ> v" vs] by (simp add: comp_def)
  have each: "a \<in> set vs \<Longrightarrow> unat (snd (v a) * fst (v a)) = unat (snd (v a)) * unat (fst (v a))" for a
  proof (rule unat_mult_no_wrap)
    assume a: "a \<in> set vs"
    then have "unat (snd (v a)) \<le> 36893488"
      using cap member_le_sum_list [of "unat (snd (v a))" "map (\<lambda>a. unat (snd (v a))) vs"] by auto
    moreover have "unat (fst (v a)) \<le> 500000000000" using ok a by (simp add: in_range_unat)
    ultimately have "unat (snd (v a)) * unat (fst (v a)) \<le> 36893488 * 500000000000" by (rule mult_le_mono)
    then show "unat (snd (v a)) * unat (fst (v a)) < 2 ^ LENGTH(64)" by simp
  qed
  then have same: "sum_list (map (\<lambda>a. unat (snd (v a) * fst (v a))) vs) = ?t"
    by (simp cong: map_cong)
  have T: "unat ?T = ?t"
    using w(2) cap unat_sum_list [of "\<lambda>a. snd (v a) * fst (v a)" vs] unfolding same by simp
  have pos: "0 < ?p"
    using assms(1) ok by (cases vs) (auto simp: unat_gt_0)
  then have "?P \<noteq> 0" using P by (metis less_irrefl unat_0)
  have t2: "10000000 \<le> ?t div ?p" "?t div ?p \<le> 500000000000"
    using w(1) pos div_le_mono [OF w(2), of ?p] by (simp_all add: less_eq_div_iff_mult_less_eq)
  obtain t1 where t1: "CalcMedian (map (fst \<circ> v) vs) = Some t1" "in_range t1"
    using CalcMedian_in_range [of "map (fst \<circ> v) vs"] assms(1) ok by auto
  have quot: "unat (?T div ?P) = ?t div ?p" by (simp add: unat_div T P)
  have r2: "in_range (?T div ?P)" using t2 by (simp add: in_range_unat quot)
  with t1(2) have "in_range ((t1 + ?T div ?P) div 2)" by (rule in_range_average)
  with t1(1) \<open>?P \<noteq> 0\<close> unat_average [OF t1(2) r2] show ?thesis
    by (simp add: tally_def foldM_tally udiv64_def quot)
qed

subsection \<open>The invariant of the specification\<close>

lemma sum_list_le_UNIV:
  fixes pw :: "'k::finite \<Rightarrow> nat"
  assumes "distinct vs" and "\<forall>a \<in> set vs. f a \<le> pw a"
  shows "sum_list (map f vs) \<le> sum pw UNIV"
proof -
  have "sum_list (map f vs) = sum f (set vs)" by (rule sum_list_distinct_conv_sum_set [OF assms(1)])
  also have "\<dots> \<le> sum pw (set vs)" using assms(2) by (intro sum_mono) simp
  also have "\<dots> \<le> sum pw UNIV" by (rule sum_mono2) simp_all
  finally show ?thesis .
qed

lemma gov_inv_tally_value:
  assumes "gov_inv pw g" and "g_Target g \<noteq> 0" and "sum pw UNIV \<le> 36893488"
  shows "\<exists>t m. tally (\<lambda>a. Some (g_Votes g a)) (g_Voters g) = Some t \<and> in_range t \<and>
    CalcMedian (map (fst \<circ> g_Votes g) (g_Voters g)) = Some m \<and>
    unat t = (unat m + (\<Sum>a\<leftarrow>g_Voters g. unat (snd (g_Votes g a)) * unat (fst (g_Votes g a))) div
      (\<Sum>a\<leftarrow>g_Voters g. unat (snd (g_Votes g a)))) div 2"
proof (rule tally_value)
  have "sum_list (map (\<lambda>a. unat (snd (g_Votes g a))) (g_Voters g)) \<le> sum pw UNIV"
    by (rule sum_list_le_UNIV) (use assms(1) in \<open>auto simp: gov_inv_def split: if_splits\<close>)
  then show "sum_list (map (\<lambda>a. unat (snd (g_Votes g a))) (g_Voters g)) \<le> 36893488" using assms(3) by simp
qed (use assms in \<open>auto simp: gov_inv_def split: if_splits\<close>)

lemma gov_inv_tally:
  assumes "gov_inv pw g" and "g_Target g \<noteq> 0" and "sum pw UNIV \<le> 36893488"
  shows "\<exists>t. tally (\<lambda>a. Some (g_Votes g a)) (g_Voters g) = Some t \<and> in_range t"
  using gov_inv_tally_value [OF assms] by blast

lemma gov_inv_vote:
  assumes "gov_inv pw g" and "in_range t" and "p \<noteq> 0" and "unat p \<le> pw a" and "g_Target g \<noteq> 0 \<or> t' \<noteq> 0"
  shows "gov_inv pw (g_vote a t p (if g_Target g = 0 then g\<lparr>g_Target := t', g_Deadline := d\<rparr> else g))"
  using assms by (auto simp: gov_inv_def g_vote_def)

lemma in_range_nonzero: "in_range t \<Longrightarrow> t \<noteq> 0"
  by (auto simp: in_range_unat)

lemma gov_step_inv:
  assumes "gov_step pw g g'" and "gov_inv pw g" and "sum pw UNIV \<le> 36893488"
  shows "gov_inv pw g'"
  using assms(1)
proof (cases rule: gov_step.cases)
  case (propose t p a d)
  with assms(2) show ?thesis
    using gov_inv_vote [of pw g t p a t d] checkTarget_in_range in_range_nonzero by auto
next
  case (cast t p a)
  with assms(2) show ?thesis
    using gov_inv_vote [of pw g t p a t] checkTarget_in_range by auto
next
  case (execute t)
  then have "in_range t" using gov_inv_tally [OF assms(2) _ assms(3)] by auto
  with execute assms(2) show ?thesis by (auto simp: gov_inv_def g_close_def split: if_splits)
next
  case end_block
  with assms(2) show ?thesis by (simp add: gov_inv_def)
qed

lemma gov_steps_inv:
  assumes "(gov_step pw)\<^sup>*\<^sup>* g g'" and "gov_inv pw g" and "sum pw UNIV \<le> 36893488"
  shows "gov_inv pw g'"
  using assms by (induction rule: rtranclp_induct) (auto intro: gov_step_inv)

subsection \<open>The contract refines the specification\<close>

context chain_votes
begin

lemmas vote_key_free' [simp] = vote_key_free [symmetric]

lemma slot_distinct [simp]:
  "SlotMinGasPrice \<noteq> SlotLastMinGasPrice" "SlotLastMinGasPrice \<noteq> SlotMinGasPrice"
  "SlotMinGasPriceProposalTarget \<noteq> SlotMinGasPrice" "SlotMinGasPrice \<noteq> SlotMinGasPriceProposalTarget"
  "SlotMinGasPriceProposalTarget \<noteq> SlotLastMinGasPrice" "SlotLastMinGasPrice \<noteq> SlotMinGasPriceProposalTarget"
  "SlotVoters \<noteq> SlotMinGasPrice" "SlotMinGasPrice \<noteq> SlotVoters"
  "SlotVoters \<noteq> SlotLastMinGasPrice" "SlotLastMinGasPrice \<noteq> SlotVoters"
  "SlotVoters \<noteq> SlotMinGasPriceProposalTarget" "SlotMinGasPriceProposalTarget \<noteq> SlotVoters"
  by (simp_all add: slot_defs)

lemma gov_rel_slots:
  "gov_rel E c g \<longleftrightarrow>
     price_of (slot_bytes E c SlotMinGasPrice) = Some (g_Price g) \<and>
     price_of (slot_bytes E c SlotLastMinGasPrice) = Some (g_Last g) \<and>
     pair_of (slot_bytes E c SlotMinGasPriceProposalTarget) = Some (g_Target g, g_Deadline g) \<and>
     (\<forall>a. pair_of (slot_bytes E c (vote_key E a)) = Some (g_Votes g a)) \<and>
     voters_of E (slot_bytes E c SlotVoters) = g_Voters g"
proof -
  have "map_option fst (LoadProposal E c) = pair_of (slot_bytes E c SlotMinGasPriceProposalTarget)"
    by (auto simp: LoadProposal_def pair_of_def Let_def split: bind_splits)
  then show ?thesis
    unfolding gov_rel_def by (simp add: price_of_def pair_of_def voters_of_def
        LoadMinGasPrice_def LoadVote_def GetVoters_def Let_def)
qed

lemma slot_values [simp]:
  "pair_of [] = Some (0, 0)" "pair_of (be_bytes 8 x @ be_bytes 8 y) = Some (x, y)"
  "price_of (be_bytes 8 x) = Some x" "voters_of E [] = []" "voters_of E (JsonMarshalAddrs E vs) = vs"
  by (simp_all add: pair_of_def price_of_def voters_of_def json_addrs json_nonempty)

lemma gov_rel_initial:
  assumes "\<forall>k. k \<noteq> SlotStakingInfo \<longrightarrow> slot_bytes E c k = []"
  shows "gov_rel E c gov0"
proof -
  have "SlotMinGasPrice \<noteq> SlotStakingInfo" "SlotLastMinGasPrice \<noteq> SlotStakingInfo"
    "SlotMinGasPriceProposalTarget \<noteq> SlotStakingInfo" "SlotVoters \<noteq> SlotStakingInfo"
    by (simp_all add: slot_defs)
  then show ?thesis using assms by (simp add: gov_rel_slots gov0_def price_of_def)
qed

lemma gov_rel_save_proposal:
  "gov_rel E c g \<Longrightarrow> gov_rel E (SaveProposal E c t d) (g\<lparr>g_Target := t, g_Deadline := d\<rparr>)"
  by (simp add: gov_rel_slots SaveProposal_def slot_bytes_simps)

lemma gov_rel_load_proposal:
  assumes "gov_rel E c g"
  obtains c' where "LoadProposal E c = Some ((g_Target g, g_Deadline g), c')" and "gov_rel E c' g"
    and "LoadStakingInfo E c' = LoadStakingInfo E c"
proof -
  obtain c' where c': "LoadProposal E c = Some ((g_Target g, g_Deadline g), c')"
    using assms by (auto simp: gov_rel_def)
  then have "c' = c \<or> c' = SaveProposal E c (g_Target g) (g_Deadline g)"
    by (auto simp: LoadProposal_def Let_def split: if_splits bind_splits)
  then have "gov_rel E c' g" "LoadStakingInfo E c' = LoadStakingInfo E c"
    using assms gov_rel_save_proposal [OF assms, of "g_Target g" "g_Deadline g"]
    by (auto simp: SaveProposal_def load_info_set_other slot_defs)
  with c' show ?thesis by (rule that)
qed

lemma gov_rel_save_vote:
  "gov_rel E c g \<Longrightarrow> gov_rel E (SaveVote E c a t p) (g\<lparr>g_Votes := (g_Votes g)(a := (t, p))\<rparr>)"
  by (simp add: gov_rel_slots SaveVote_def slot_bytes_simps)

lemma gov_rel_add_voters:
  assumes "gov_rel E c g"
  shows "gov_rel E (AddVoters E c a)
    (g\<lparr>g_Voters := (if a \<in> set (g_Voters g) then g_Voters g else g_Voters g @ [a])\<rparr>)"
proof -
  have "GetVoters E c = g_Voters g" using assms by (simp add: gov_rel_def)
  then show ?thesis
    using assms by (auto simp: gov_rel_slots AddVoters_def Let_def slot_bytes_simps json_nonempty)
qed

lemma gov_rel_vote:
  "gov_rel E c g \<Longrightarrow> gov_rel E (AddVoters E (SaveVote E c a t p) a) (g_vote a t p g)"
  using gov_rel_add_voters [OF gov_rel_save_vote, of c g a t p a] by (cases "a \<in> set (g_Voters g)") (simp_all add: g_vote_def)

lemma gov_rel_delete_votes:
  "gov_rel E c g \<Longrightarrow>
   gov_rel E (foldl (DeleteVote E) c as) (g\<lparr>g_Votes := (\<lambda>a. if a \<in> set as then (0, 0) else g_Votes g a)\<rparr>)"
proof (induction as arbitrary: c g)
  case (Cons a as)
  let ?g = "g\<lparr>g_Votes := (g_Votes g)(a := (0, 0))\<rparr>"
  have "gov_rel E (DeleteVote E c a) ?g"
    using Cons.prems by (simp add: gov_rel_slots DeleteVote_def slot_bytes_simps)
  moreover have "(\<lambda>b. if b \<in> set as then (0, 0) else g_Votes ?g b) = (\<lambda>b. if b \<in> set (a # as) then (0, 0) else g_Votes g b)"
    by (rule ext) auto
  ultimately show ?case using Cons.IH [of "DeleteVote E c a" ?g] by simp
qed simp

lemma gov_rel_close:
  assumes "gov_rel E c g"
  shows "gov_rel E (DeleteProposalInfos E (SaveMinGasPrice E c t False) (g_Voters g)) (g_close t g)"
proof -
  have "gov_rel E (DeleteVoters E (SaveMinGasPrice E c t False)) (g\<lparr>g_Price := t, g_Voters := []\<rparr>)"
    using assms by (simp add: gov_rel_slots SaveMinGasPrice_def DeleteVoters_def slot_bytes_simps)
  from gov_rel_save_proposal [OF gov_rel_delete_votes [OF this, of "g_Voters g"], of 0 0]
  show ?thesis
    unfolding DeleteProposalInfos_def DeleteProposal_def g_close_def by (cases g) (simp cong: if_cong)
qed

lemma gov_rel_end_block:
  "gov_rel E c g \<Longrightarrow> gov_rel E (SaveMinGasPrice E c (g_Price g) True) (g\<lparr>g_Last := g_Price g\<rparr>)"
  by (simp add: gov_rel_slots SaveMinGasPrice_def slot_bytes_simps)

lemma load_info_simps:
  "LoadStakingInfo E (SaveProposal E c t d) = LoadStakingInfo E c"
  "LoadStakingInfo E (SaveVote E c a t p) = LoadStakingInfo E c"
  "LoadStakingInfo E (DeleteVote E c a) = LoadStakingInfo E c"
  "LoadStakingInfo E (DeleteVoters E c) = LoadStakingInfo E c"
  "LoadStakingInfo E (AddVoters E c a) = LoadStakingInfo E c"
  "LoadStakingInfo E (SaveMinGasPrice E c p l) = LoadStakingInfo E c"
  by (simp_all add: SaveProposal_def SaveVote_def DeleteVote_def DeleteVoters_def AddVoters_def SaveMinGasPrice_def
      load_info_set_other load_info_delete_other slot_defs Let_def vote_key_free [unfolded slot_defs])

lemma load_info_close: "LoadStakingInfo E (DeleteProposalInfos E c vs) = LoadStakingInfo E c"
proof -
  have "LoadStakingInfo E (foldl (DeleteVote E) d vs) = LoadStakingInfo E d" for d
    by (induction vs arbitrary: d) (simp_all add: load_info_simps)
  then show ?thesis by (simp add: DeleteProposalInfos_def DeleteProposal_def load_info_simps)
qed

lemma refines_failure:
  "gov_rel E c' g \<Longrightarrow> LoadStakingInfo E c' = LoadStakingInfo E c \<Longrightarrow> refines_step E pw c g (Some (failure gas e, c'))"
  by (simp add: refines_step_def StatusFailed_def StatusSuccess_def)

lemma refines_success:
  "gov_step pw g g' \<Longrightarrow> gov_rel E c' g' \<Longrightarrow> LoadStakingInfo E c' = LoadStakingInfo E c \<Longrightarrow>
   refines_step E pw c g (Some (success gas out, c'))"
  by (auto simp: refines_step_def)

lemma Uint64_32: "length xs = 32 \<Longrightarrow> \<exists>t. Uint64 (drop 24 xs) = Some t"
  by (simp add: Uint64_def)

lemma createProposal_refines:
  assumes rel: "gov_rel E c g" and info: "LoadStakingInfo E c = Some info"
    and pw: "\<And>v. GetValidatorByAddr info (tx_From tx) = Some v \<Longrightarrow> unat (v_VotingPower v) \<le> pw (tx_From tx)"
  shows "refines_step E pw c g (createProposal E c now tx)"
proof (cases "GetValidatorByAddr info (tx_From tx)")
  case None
  then show ?thesis using info rel by (simp add: createProposal_def refines_failure)
next
  case (Some val)
  obtain c1 where c1: "LoadProposal E c = Some ((g_Target g, g_Deadline g), c1)" and rel1: "gov_rel E c1 g"
      and info1: "LoadStakingInfo E c1 = LoadStakingInfo E c"
    using rel by (rule gov_rel_load_proposal)
  have last1: "LoadMinGasPrice E c1 True = Some (g_Last g)" using rel1 by (simp add: gov_rel_def)
  have step: "refines_step E pw c g (Some (success GasOfMinGasPriceOp OutNone,
      AddVoters E (SaveVote E (SaveProposal E c1 t d) (tx_From tx) t (v_VotingPower val)) (tx_From tx)))"
    if "v_VotingPower val \<noteq> 0" "g_Target g = 0" "checkTarget (g_Last g) t = None" for t d
    using that pw [OF Some] info1
    by (intro refines_success [OF gov_step.propose gov_rel_vote [OF gov_rel_save_proposal [OF rel1]]]) (auto simp: load_info_simps)
  show ?thesis
    using Some info rel c1 rel1 last1 step info1 Uint64_32 [of "drop 4 (tx_Data tx)"]
    by (auto simp: createProposal_def refines_failure Let_def split: option.splits)
qed

lemma vote_refines:
  assumes rel: "gov_rel E c g" and info: "LoadStakingInfo E c = Some info"
    and pw: "\<And>v. GetValidatorByAddr info (tx_From tx) = Some v \<Longrightarrow> unat (v_VotingPower v) \<le> pw (tx_From tx)"
  shows "refines_step E pw c g (vote E c now tx)"
proof (cases "GetValidatorByAddr info (tx_From tx)")
  case None
  then show ?thesis using info rel by (simp add: vote_def refines_failure)
next
  case (Some val)
  obtain c1 where c1: "LoadProposal E c = Some ((g_Target g, g_Deadline g), c1)" and rel1: "gov_rel E c1 g"
      and info1: "LoadStakingInfo E c1 = LoadStakingInfo E c"
    using rel by (rule gov_rel_load_proposal)
  have last1: "LoadMinGasPrice E c1 True = Some (g_Last g)" using rel1 by (simp add: gov_rel_def)
  have step: "refines_step E pw c g (Some (success GasOfMinGasPriceOp OutNone,
      AddVoters E (SaveVote E c1 (tx_From tx) t (v_VotingPower val)) (tx_From tx)))"
    if "v_VotingPower val \<noteq> 0" "g_Target g \<noteq> 0" "checkTarget (g_Last g) t = None" for t
    using that pw [OF Some] info1 by (intro refines_success [OF gov_step.cast gov_rel_vote [OF rel1]]) (auto simp: load_info_simps)
  show ?thesis
    using Some info rel c1 rel1 last1 step info1 Uint64_32 [of "drop 4 (tx_Data tx)"]
    by (auto simp: vote_def refines_failure Let_def split: option.splits)
qed

lemma executeProposal_close:
  assumes rel: "gov_rel E c g" and elapsed: "g_Target g \<noteq> 0" "g_Deadline g \<le> now"
    and t: "tally (\<lambda>a. Some (g_Votes g a)) (g_Voters g) = Some t"
  shows "\<exists>c'. executeProposal E c now = Some (success GasOfMinGasPriceOp OutNone, c') \<and> gov_rel E c' (g_close t g) \<and>
    LoadStakingInfo E c' = LoadStakingInfo E c"
proof -
  obtain c1 where c1: "LoadProposal E c = Some ((g_Target g, g_Deadline g), c1)" and rel1: "gov_rel E c1 g"
      and info1: "LoadStakingInfo E c1 = LoadStakingInfo E c"
    using rel by (rule gov_rel_load_proposal)
  have "LoadVote E c1 = (\<lambda>a. Some (g_Votes g a))" using rel1 by (auto simp: gov_rel_def)
  moreover have "GetVoters E c1 = g_Voters g" using rel1 by (simp add: gov_rel_def)
  ultimately have "executeProposal E c now =
      Some (success GasOfMinGasPriceOp OutNone, DeleteProposalInfos E (SaveMinGasPrice E c1 t False) (g_Voters g))"
    using elapsed t c1 by (simp add: executeProposal_def CalculateTarget_def Let_def)
  then show ?thesis
    using gov_rel_close [OF rel1, of t] info1 by (simp add: load_info_simps load_info_close)
qed

lemma executeProposal_refines:
  assumes rel: "gov_rel E c g" and inv: "gov_inv pw g" and cap: "sum pw UNIV \<le> 36893488"
  shows "refines_step E pw c g (executeProposal E c now)"
proof (cases "g_Target g = 0 \<or> now < g_Deadline g")
  case True
  obtain c1 where "LoadProposal E c = Some ((g_Target g, g_Deadline g), c1)" "gov_rel E c1 g"
      "LoadStakingInfo E c1 = LoadStakingInfo E c"
    using rel by (rule gov_rel_load_proposal)
  with True show ?thesis by (auto simp: executeProposal_def refines_failure)
next
  case False
  then obtain t where t: "tally (\<lambda>a. Some (g_Votes g a)) (g_Voters g) = Some t"
    using gov_inv_tally [OF inv _ cap] by auto
  from executeProposal_close [OF rel _ _ t, of now] False show ?thesis
    using gov_step.execute [OF _ t, of pw] by (auto simp: not_less intro: refines_success)
qed

lemma gov_run_inv:
  assumes rel: "gov_rel E c g" and inv: "gov_inv pw g" and cap: "sum pw UNIV \<le> 36893488"
    and info: "LoadStakingInfo E c = Some info"
    and pw: "\<forall>v \<in> set (si_Validators info). unat (v_VotingPower v) \<le> pw (v_Address v)"
  shows "\<exists>c' g'. gov_run E c call = Some c' \<and> LoadStakingInfo E c' = Some info \<and> gov_rel E c' g' \<and>
    gov_inv pw g' \<and> (gov_step pw)\<^sup>*\<^sup>* g g'"
proof -
  have voter: "unat (v_VotingPower v) \<le> pw a" if "GetValidatorByAddr info a = Some v" for a v
    using pw GetValidatorByAddr_SomeD [OF that] by auto
  have fin: "\<exists>c' g'. map_option snd r = Some c' \<and> LoadStakingInfo E c' = Some info \<and> gov_rel E c' g' \<and>
    gov_inv pw g' \<and> (gov_step pw)\<^sup>*\<^sup>* g g'" if "refines_step E pw c g r" for r
    using that gov_step_inv [OF _ inv cap] inv info unfolding refines_step_def
    by (auto split: if_splits)
  show ?thesis
  proof (cases call)
    case (CallProposal now tx)
    then show ?thesis using fin [OF createProposal_refines [OF rel info voter]] by simp
  next
    case (CallVote now tx)
    then show ?thesis using fin [OF vote_refines [OF rel info voter]] by simp
  next
    case (CallExecute now)
    then show ?thesis using fin [OF executeProposal_refines [OF rel inv cap]] by simp
  next
    case CallEndBlock
    moreover have "refresh_price E c = Some (SaveMinGasPrice E c (g_Price g) True)"
      using rel by (simp add: refresh_price_def gov_rel_def)
    ultimately show ?thesis
      using gov_rel_end_block [OF rel] gov_step.end_block [of pw g] gov_step_inv [OF _ inv cap] info
      by (auto simp: load_info_simps)
  qed
qed

lemma gov_runs_inv:
  assumes "gov_rel E c g" and "gov_inv pw g" and cap: "sum pw UNIV \<le> 36893488"
    and "LoadStakingInfo E c = Some info"
    and pw: "\<forall>v \<in> set (si_Validators info). unat (v_VotingPower v) \<le> pw (v_Address v)"
  shows "\<exists>c' g'. foldM (gov_run E) c calls = Some c' \<and> gov_rel E c' g' \<and> gov_inv pw g' \<and> (gov_step pw)\<^sup>*\<^sup>* g g'"
  using assms(1,2,4)
proof (induction calls arbitrary: c g)
  case Nil
  then show ?case by auto
next
  case (Cons call calls)
  from gov_run_inv [OF Cons.prems(1,2) cap Cons.prems(3) pw, of call] obtain c1 g1 where
    1: "gov_run E c call = Some c1" "LoadStakingInfo E c1 = Some info" "gov_rel E c1 g1" "gov_inv pw g1"
      "(gov_step pw)\<^sup>*\<^sup>* g g1" by blast
  from Cons.IH [OF 1(3,4,2)] obtain c2 g2 where
    "foldM (gov_run E) c1 calls = Some c2" "gov_rel E c2 g2" "gov_inv pw g2" "(gov_step pw)\<^sup>*\<^sup>* g1 g2" by blast
  with 1 show ?case by (auto intro: rtranclp_trans)
qed

end

lemma gov_inv_initial: "gov_inv pw gov0"
  by (simp add: gov_inv_def gov0_def in_range_def price_defs)

subsection \<open>Properties\<close>

lemma mem_chain_votes: "chain_votes mem_ext"
  by unfold_locales

lemma sample_ctx_facts:
  "gov_rel mem_ext sample_ctx gov0" "LoadStakingInfo mem_ext sample_ctx = Some sample_info"
  "sum sample_pw UNIV = 2"
  "\<forall>v \<in> set (si_Validators sample_info). unat (v_VotingPower v) \<le> sample_pw (v_Address v)"
proof -
  show "gov_rel mem_ext sample_ctx gov0"
    by (rule mem.gov_rel_initial)
      (simp add: sample_ctx_def SaveStakingInfo_def mem_state_def mem_empty_def slot_bytes_def mem_ext_def)
  show "LoadStakingInfo mem_ext sample_ctx = Some sample_info"
    unfolding sample_ctx_def by (rule mem.load_save_info [OF storable_sample_info])
  show "sum sample_pw UNIV = 2"
    by (simp add: sample_pw_def [abs_def] sum.distrib)
  show "\<forall>v \<in> set (si_Validators sample_info). unat (v_VotingPower v) \<le> sample_pw (v_Address v)"
    by (simp add: sample_info_def sample_validator_def sample_pw_def)
qed

lemma sample_votes_facts:
  "gov_rel mem_ext sample_votes_ctx sample_gov" "gov_inv sample_pw sample_gov"
proof -
  have "gov_rel mem_ext sample_votes_ctx (g_vote 2 10000000000 1 (g_vote 1 20000000000 1
      (gov0\<lparr>g_Target := 20000000000, g_Deadline := 86400\<rparr>)))"
    unfolding sample_votes_ctx_def
    by (intro mem.gov_rel_vote mem.gov_rel_save_proposal sample_ctx_facts)
  then show "gov_rel mem_ext sample_votes_ctx sample_gov"
    by (simp add: g_vote_def gov0_def sample_gov_def)
  show "gov_inv sample_pw sample_gov"
    by (simp add: gov_inv_def sample_gov_def gov0_def in_range_def price_defs sample_pw_def)
qed

text \<open>
  C3: whatever proposals, votes, executions and block ends are run, in any order and by any
  sender, no call panics, every call is a step of the specification or fails without effect
  on it, and the minimum gas price stays between 0.01 and 500 gwei. The validators' powers
  are bounded so that the weighted sum of the targets fits 64 bits.
\<close>

theorem governance_safe:
  assumes "chain_votes E" and "gov_rel E c g" and "gov_inv pw g" and "sum pw UNIV \<le> 36893488"
    and "LoadStakingInfo E c = Some info"
    and "\<forall>v \<in> set (si_Validators info). unat (v_VotingPower v) \<le> pw (v_Address v)"
  shows "\<exists>c' g'. foldM (gov_run E) c calls = Some c' \<and> (gov_step pw)\<^sup>*\<^sup>* g g' \<and> gov_rel E c' g' \<and>
     gov_inv pw g' \<and> (\<exists>p. LoadMinGasPrice E c' False = Some p \<and> 10000000 \<le> unat p \<and> unat p \<le> 500000000000)"
proof -
  from chain_votes.gov_runs_inv [OF assms, of calls] obtain c' g' where
    "foldM (gov_run E) c calls = Some c'" "gov_rel E c' g'" "gov_inv pw g'" "(gov_step pw)\<^sup>*\<^sup>* g g'" by blast
  moreover from this have "LoadMinGasPrice E c' False = Some (g_Price g')" "in_range (g_Price g')"
    by (simp_all add: gov_rel_def gov_inv_def)
  ultimately show ?thesis by (auto simp: in_range_unat)
qed

theorem governance_safe_witness:
  "\<exists>c p. foldM (gov_run mem_ext) sample_ctx
     [CallProposal 1000 \<lparr>tx_From = 1, tx_Value = 0, tx_Data = [0, 0, 0, 0] @ be_bytes 32 (20000000000 :: u256)\<rparr>,
      CallVote 1001 \<lparr>tx_From = 2, tx_Value = 0, tx_Data = [0, 0, 0, 0] @ be_bytes 32 (0 :: u256)\<rparr>,
      CallExecute 90000, CallEndBlock] = Some c \<and> LoadMinGasPrice mem_ext c False = Some p \<and> unat p \<le> 500000000000"
proof -
  have cap: "sum sample_pw UNIV \<le> 36893488" by (simp add: sample_ctx_facts(3))
  show ?thesis
    using governance_safe [OF mem_chain_votes sample_ctx_facts(1) gov_inv_initial cap sample_ctx_facts(2,4)]
    by blast
qed

text \<open>
  executing an elapsed proposal sets the price to the average of the median of the
  voters' targets and the mean weighted by their voting powers, computed without any
  overflow, and clears the proposal, all votes and the list of voters.
\<close>

theorem executeProposal_effect:
  assumes "chain_votes E" and "gov_rel E c g" and "gov_inv pw g" and "sum pw UNIV \<le> 36893488"
    and "g_Target g \<noteq> 0" and "g_Deadline g \<le> now"
  shows "\<exists>c' t m. executeProposal E c now = Some (success GasOfMinGasPriceOp OutNone, c') \<and>
     LoadMinGasPrice E c' False = Some t \<and> LoadMinGasPrice E c' True = Some (g_Last g) \<and>
     CalcMedian (map (fst \<circ> g_Votes g) (g_Voters g)) = Some m \<and>
     unat t = (unat m + (\<Sum>a\<leftarrow>g_Voters g. unat (snd (g_Votes g a)) * unat (fst (g_Votes g a))) div
       (\<Sum>a\<leftarrow>g_Voters g. unat (snd (g_Votes g a)))) div 2 \<and>
     map_option fst (LoadProposal E c') = Some (0, 0) \<and> GetVoters E c' = [] \<and> (\<forall>a. LoadVote E c' a = Some (0, 0))"
proof -
  obtain t m where t: "tally (\<lambda>a. Some (g_Votes g a)) (g_Voters g) = Some t"
    "CalcMedian (map (fst \<circ> g_Votes g) (g_Voters g)) = Some m"
    "unat t = (unat m + (\<Sum>a\<leftarrow>g_Voters g. unat (snd (g_Votes g a)) * unat (fst (g_Votes g a))) div
       (\<Sum>a\<leftarrow>g_Voters g. unat (snd (g_Votes g a)))) div 2"
    using gov_inv_tally_value [OF assms(3,5,4)] by blast
  from chain_votes.executeProposal_close [OF assms(1,2,5,6) t(1)] obtain c' where
    c': "executeProposal E c now = Some (success GasOfMinGasPriceOp OutNone, c')" "gov_rel E c' (g_close t g)" by blast
  have "LoadMinGasPrice E c' False = Some t" "LoadMinGasPrice E c' True = Some (g_Last g)"
    "map_option fst (LoadProposal E c') = Some (0, 0)" "GetVoters E c' = []"
    using c'(2) by (simp_all add: gov_rel_def g_close_def)
  moreover have "LoadVote E c' a = Some (0, 0)" for a
    using c'(2) assms(3) by (auto simp: gov_rel_def g_close_def gov_inv_def split: if_splits)
  ultimately show ?thesis using c'(1) t(2,3) by blast
qed

text \<open>Votes for 20 and 10 gwei with equal power, for the examples.\<close>

theorem executeProposal_effect_witness:
  "\<exists>c t. executeProposal mem_ext sample_votes_ctx 90000 = Some (success GasOfMinGasPriceOp OutNone, c) \<and>
     LoadMinGasPrice mem_ext c False = Some t \<and> unat t = 15000000000"
proof -
  have cap: "sum sample_pw UNIV \<le> 36893488" by (simp add: sample_ctx_facts(3))
  have "CalcMedian [20000000000, 10000000000] = Some 15000000000" by code_simp
  then show ?thesis
    using executeProposal_effect [OF mem_chain_votes sample_votes_facts(1,2) cap, of 90000]
    by (auto simp: sample_gov_def numeral_2_eq_2 [symmetric])
qed

text \<open>
  \<open>checkTarget\<close> decides its bounds exactly, as statements on the numbers themselves: for
  every last price up to 500 gwei, the 64-bit products in the code never let a target
  through or reject one because of a wrap-around.
\<close>

theorem checkTarget_exact:
  assumes "unat lastPrice \<le> 500000000000"
  shows "checkTarget lastPrice target =
    (if lastPrice \<noteq> 0 \<and> (5 * unat lastPrice < unat target \<or> 5 * unat target < unat lastPrice)
       then Some TargetExceedChangeDelta
     else if 500000000000 < unat target then Some MinGasPriceTooBig
     else if unat target < 10000000 then Some MinGasPriceTooSmall else None)"
  unfolding checkTarget_def checkTarget_exact_aux [OF assms]
  by (simp add: price_defs word_less_nat_alt)

theorem checkTarget_exact_witness:
  "checkTarget 10000000000 0xffffffffffffffff = Some TargetExceedChangeDelta \<and>
   checkTarget 10000000000 50000000000 = None \<and> checkTarget 10000000000 1999999999 = Some TargetExceedChangeDelta"
  using checkTarget_exact [of 10000000000 "0xffffffffffffffff"] checkTarget_exact [of 10000000000 50000000000]
    checkTarget_exact [of 10000000000 1999999999] by simp

text \<open>
  before the fork, a price change succeeds only for an active validator or the reward
  address of one; the new price is 5 percent away from the old one, between 1 and 500 gwei,
  and at most 16 percent away from the price at the end of the last block; every other
  outcome leaves the chain unchanged. All of it in exact arithmetic for prices up to 500
  gwei.
\<close>

theorem handleMinGasPrice_bounds:
  assumes "chain_ctx E" and "\<not> IsXHedgeFork E c"
    and "LoadMinGasPrice E c False = Some old" and "LoadMinGasPrice E c True = Some lst"
    and "unat old \<le> 500000000000" and "unat lst \<le> 500000000000"
    and "LoadStakingInfo E c = Some info" and "handleMinGasPrice E c sender inc = Some (res, c')"
  shows "if status res = StatusSuccess
     then (\<exists>v \<in> set (GetActiveValidators (si_Validators info) MinimumStakingAmount).
             v_Address v = sender \<or> v_RewardTo v = sender) \<and>
          (\<exists>new. LoadMinGasPrice E c' False = Some new \<and> LoadMinGasPrice E c' True = Some lst \<and>
             unat new = (if inc then unat old + 5 * unat old div 100 else unat old - 5 * unat old div 100) \<and>
             1000000000 \<le> unat new \<and> unat new \<le> 500000000000 \<and>
             100 * (unat new - unat lst) \<le> 16 * unat lst \<and> 100 * (unat lst - unat new) \<le> 16 * unat lst)
     else c' = c"
proof -
  define new where "new = (if inc then old + MinGasPriceDeltaRate * old div 100
    else old - MinGasPriceDeltaRate * old div 100)"
  have new: "unat new = (if inc then unat old + 5 * unat old div 100 else unat old - 5 * unat old div 100)"
    unfolding new_def using step_price [OF assms(5)] by simp
  then have new_le: "unat new \<le> 600000000000" using assms(5) by (auto split: if_splits)
  show ?thesis
  proof (cases "status res = StatusSuccess")
    case True
    then have c': "c' = SaveMinGasPrice E c new False"
      and ok: "list_ex (\<lambda>v. v_Address v = sender \<or> v_RewardTo v = sender)
          (GetActiveValidators (si_Validators info) MinimumStakingAmount)"
        "\<not> new < MinGasPriceLowerBoundOld" "\<not> new > MinGasPriceUpperBound"
        "\<not> (new > lst \<and> 100 * (new - lst) > MinGasPriceDeltaRateInBlock * lst)"
        "\<not> (new < lst \<and> 100 * (lst - new) > MinGasPriceDeltaRateInBlock * lst)"
      using assms(2-4,7,8)
      by (auto simp: handleMinGasPrice_def new_def [symmetric] StatusFailed_def StatusSuccess_def Let_def split: if_splits)
    have "100 * (unat new - unat lst) \<le> 16 * unat lst" "100 * (unat lst - unat new) \<le> 16 * unat lst"
      using block_delta [of new lst] ok(4,5) new_le assms(6) by auto
    with True c' ok new show ?thesis
      using chain_ctx.load_save_price [OF assms(1), of c new False] assms(4)
      by (auto simp: list_ex_iff price_defs MinGasPriceLowerBoundOld_def word_less_nat_alt)
  next
    case False
    then show ?thesis
      using assms(2-4,7,8)
      by (auto simp: handleMinGasPrice_def StatusFailed_def StatusSuccess_def Let_def split: if_splits)
  qed
qed

theorem handleMinGasPrice_bounds_witness:
  "\<exists>c' p. handleMinGasPrice mem_ext (sample_ctx\<lparr>mc_fork := False\<rparr>) 101 True =
     Some (success GasOfMinGasPriceOp OutNone, c') \<and> LoadMinGasPrice mem_ext c' False = Some p \<and> unat p = 10500000000"
proof -
  let ?c = "sample_ctx\<lparr>mc_fork := False\<rparr>"
  have same: "slot_bytes mem_ext ?c = slot_bytes mem_ext sample_ctx" "LoadStakingInfo mem_ext ?c = Some sample_info"
    using sample_ctx_facts(2) by (simp_all add: slot_bytes_def LoadStakingInfo_def mem_ext_def fun_eq_iff)
  then have p: "LoadMinGasPrice mem_ext ?c l = Some 10000000000" for l
    using sample_ctx_facts(1) by (cases l) (simp_all add: gov_rel_def LoadMinGasPrice_def gov0_def price_defs Let_def)
  have "GetActiveValidators (si_Validators sample_info) MinimumStakingAmount = si_Validators sample_info"
    by code_simp
  then have h: "handleMinGasPrice mem_ext ?c 101 True =
      Some (success GasOfMinGasPriceOp OutNone, SaveMinGasPrice mem_ext ?c 10500000000 False)"
    using p same by (simp add: handleMinGasPrice_def Let_def sample_info_def sample_validator_def price_defs
        MinGasPriceLowerBoundOld_def MinGasPriceDeltaRateInBlock_def mem_ext_def)
  have "\<not> IsXHedgeFork mem_ext ?c" by (simp add: mem_ext_def)
  from handleMinGasPrice_bounds [OF mem_chain_ctx this p p _ _ same(2) h]
  obtain new where "LoadMinGasPrice mem_ext (SaveMinGasPrice mem_ext ?c 10500000000 False) False = Some new"
    "unat new = 10500000000" by auto
  with h show ?thesis by auto
qed

end
