(* ===== verification/Staking_Contract.thy ===== *)
theory Staking_Contract
  imports Staking_Governance
begin

text \<open>
  The staking contract (\<open>src/staking/staking.go\<close>): the dispatcher \<open>Execute\<close>, the
  validator operations and the precompiled call \<open>sumVotingPower\<close>. A pointer obtained from
  \<open>GetValidatorByAddr\<close> is written through by updating the first match.
\<close>

definition InitialStakingAmount :: u256 where "InitialStakingAmount = 0"
definition SumVotingPowerGasPerByte :: u64 where "SumVotingPowerGasPerByte = 25"
definition SumVotingPowerBaseGas :: u64 where "SumVotingPowerBaseGas = 10000"

definition SelectorCreateValidator :: bytes where "SelectorCreateValidator = [0x24, 0xd1, 0xed, 0x5d]"
definition SelectorEditValidator :: bytes where "SelectorEditValidator = [0x9d, 0xc1, 0x59, 0xb6]"
definition SelectorRetire :: bytes where "SelectorRetire = [0xa4, 0x87, 0x4d, 0x77]"
definition SelectorIncreaseMinGasPrice :: bytes where "SelectorIncreaseMinGasPrice = [0xf2, 0x01, 0x6e, 0x8e]"
definition SelectorDecreaseMinGasPrice :: bytes where "SelectorDecreaseMinGasPrice = [0x69, 0x6e, 0x6a, 0xd2]"
definition SelectorProposal :: bytes where "SelectorProposal = [0x30, 0x32, 0x6c, 0x17]"
definition SelectorVote :: bytes where "SelectorVote = [0x01, 0x21, 0xb9, 0x3f]"
definition SelectorExecuteProposal :: bytes where "SelectorExecuteProposal = [0x37, 0x30, 0x58, 0xb8]"
definition SelectorGetVote :: bytes where "SelectorGetVote = [0x8d, 0x33, 0x7b, 0x81]"
definition SelectorSumVotingPower :: bytes where "SelectorSumVotingPower = [0x9c, 0xe0, 0x69, 0x09]"

lemmas selector_defs = SelectorCreateValidator_def SelectorEditValidator_def SelectorRetire_def
  SelectorIncreaseMinGasPrice_def SelectorDecreaseMinGasPrice_def SelectorProposal_def SelectorVote_def
  SelectorExecuteProposal_def SelectorGetVote_def SelectorSumVotingPower_def

subsection \<open>Genesis and identity\<close>

definition Init :: "('c, 'a) ext \<Rightarrow> 'c staking_state \<Rightarrow> 'c staking_state option" where
  "Init E s =
     (let c = (case GetAccount E (ss_ctx s) StakingContractAddress of
                 None \<Rightarrow> SetAccount E (ss_ctx s) StakingContractAddress
                   (UpdateSequence E (ZeroAccountInfo E) StakingContractSequence)
               | Some _ \<Rightarrow> ss_ctx s)
      in do { info \<leftarrow> LoadStakingInfo E c; Some (s\<lparr>ss_ctx := c, readonlyStakingInfo := Some info\<rparr>) })"

definition IsSystemContract :: "address \<Rightarrow> bool" where
  "IsSystemContract addr \<longleftrightarrow> addr = StakingContractAddress"

subsection \<open>Validator operations\<close>

text \<open>The trailing zero bytes are cut off, unless the whole slice is zero.\<close>

definition stringFromBytes :: "bytes \<Rightarrow> bytes" where
  "stringFromBytes bz =
     (case find (\<lambda>i. bz ! i \<noteq> 0) (rev [0..<length bz]) of None \<Rightarrow> bz | Some i \<Rightarrow> take (i + 1) bz)"

definition TrimRight0 :: "bytes \<Rightarrow> bytes" where
  "TrimRight0 bz = rev (dropWhile (\<lambda>b. b = 0) (rev bz))"

definition transferStakedCoins ::
  "('c, 'a) ext \<Rightarrow> 'c \<Rightarrow> TxToRun \<Rightarrow> 'a \<Rightarrow> ((int \<times> out_data) \<times> 'c) option" where
  "transferStakedCoins E c tx stakingAcc = do {
     sender \<leftarrow> GetAccount E c (tx_From tx);
     let balance = Balance E sender;
     let coins4staking = tx_Value tx;
     if balance < coins4staking then Some ((StatusFailed, OutErr BalanceNotEnough), c)
     else if coins4staking \<noteq> 0 then
       let sender = UpdateBalance E sender (balance - coins4staking);
           stakingAcc = UpdateBalance E stakingAcc (Balance E stakingAcc + coins4staking);
           c = SetAccount E c (tx_From tx) sender;
           c = SetAccount E c StakingContractAddress stakingAcc
       in Some ((StatusSuccess, OutNone), c)
     else Some ((StatusSuccess, OutNone), c) }"

text \<open>The common tail of two operations: save, then move the coins.\<close>

definition save_and_transfer ::
  "('c, 'a) ext \<Rightarrow> 'c staking_state \<Rightarrow> TxToRun \<Rightarrow> 'a \<Rightarrow> StakingInfo \<Rightarrow> (exec_result \<times> 'c staking_state) option" where
  "save_and_transfer E s tx stakingAcc info = do {
     let s = SaveStakingInfo E s info;
     ((st, out), c) \<leftarrow> transferStakedCoins E (ss_ctx s) tx stakingAcc;
     Some (\<lparr>status = st, logs = [], gasUsed = GasOfValidatorOp, outData = out\<rparr>, s\<lparr>ss_ctx := c\<rparr>) }"

definition createValidator ::
  "('c, 'a) ext \<Rightarrow> 'c staking_state \<Rightarrow> TxToRun \<Rightarrow> (exec_result \<times> 'c staking_state) option" where
  "createValidator E s tx =
     (let callData = drop 4 (tx_Data tx) in
      if length callData < 96 then Some (failure GasOfValidatorOp InvalidCallData, s)
      else
        let rewardTo = be_val (slice 12 32 callData);
            intro = stringFromBytes (slice 32 64 callData);
            pubkey = be_val (slice 64 96 callData) in
        if tx_Value tx \<le> InitialStakingAmount
        then Some (failure GasOfValidatorOp CreateValidatorCoinLtInitAmount, s)
        else do {
          (stakingAcc, info) \<leftarrow> LoadStakingAccAndInfo E (ss_ctx s);
          (case AddValidator info (tx_From tx) pubkey intro (tx_Value tx) rewardTo of
             Inl err \<Rightarrow> Some (failure GasOfValidatorOp (TypesError err), s)
           | Inr info \<Rightarrow> save_and_transfer E s tx stakingAcc info) })"

definition edit :: "address \<Rightarrow> bytes \<Rightarrow> u256 \<Rightarrow> Validator \<Rightarrow> Validator" where
  "edit rewardTo intro coins4staking val =
     (let val = (if rewardTo \<noteq> 0 then val\<lparr>v_RewardTo := rewardTo\<rparr> else val);
          val = (if length intro \<noteq> 0 then val\<lparr>v_Introduction := intro\<rparr> else val)
      in if coins4staking \<noteq> 0 then val\<lparr>v_StakedCoins := v_StakedCoins val + coins4staking\<rparr> else val)"

definition update_validator :: "StakingInfo \<Rightarrow> address \<Rightarrow> (Validator \<Rightarrow> Validator) \<Rightarrow> StakingInfo" where
  "update_validator info addr f =
     info\<lparr>si_Validators := upd_first (\<lambda>v. v_Address v = addr) f (si_Validators info)\<rparr>"

definition editValidator ::
  "('c, 'a) ext \<Rightarrow> 'c staking_state \<Rightarrow> TxToRun \<Rightarrow> (exec_result \<times> 'c staking_state) option" where
  "editValidator E s tx =
     (let callData = drop 4 (tx_Data tx) in
      if length callData < 64 then Some (failure GasOfValidatorOp InvalidCallData, s)
      else
        let rewardTo = be_val (slice 12 32 callData);
            intro = (if IsXHedgeFork E (ss_ctx s) then TrimRight0 (slice 32 64 callData)
                     else stringFromBytes (slice 32 64 callData)) in do {
          (stakingAcc, info) \<leftarrow> LoadStakingAccAndInfo E (ss_ctx s);
          (case GetValidatorByAddr info (tx_From tx) of
             None \<Rightarrow> Some (failure GasOfValidatorOp NoSuchValidator, s)
           | Some _ \<Rightarrow> save_and_transfer E s tx stakingAcc
               (update_validator info (tx_From tx) (edit rewardTo intro (tx_Value tx)))) })"

definition retire ::
  "('c, 'a) ext \<Rightarrow> 'c staking_state \<Rightarrow> TxToRun \<Rightarrow> (exec_result \<times> 'c staking_state) option" where
  "retire E s tx = do {
     info \<leftarrow> LoadStakingInfo E (ss_ctx s);
     (case GetValidatorByAddr info (tx_From tx) of
        None \<Rightarrow> Some (failure GasOfValidatorOp NoSuchValidator, s)
      | Some _ \<Rightarrow> Some (success GasOfValidatorOp OutNone,
          SaveStakingInfo E s (update_validator info (tx_From tx) (\<lambda>v. v\<lparr>v_IsRetiring := True\<rparr>)))) }"

subsection \<open>The dispatcher\<close>

definition handleInvalidSelector :: exec_result where
  "handleInvalidSelector = failure 0 InvalidSelector"

definition on_ctx :: "'c staking_state \<Rightarrow> (exec_result \<times> 'c) option \<Rightarrow> (exec_result \<times> 'c staking_state) option" where
  "on_ctx s r = map_option (\<lambda>(res, c). (res, s\<lparr>ss_ctx := c\<rparr>)) r"

definition Execute ::
  "('c, 'a) ext \<Rightarrow> 'c staking_state \<Rightarrow> i64 \<Rightarrow> TxToRun \<Rightarrow> (exec_result \<times> 'c staking_state) option" where
  "Execute E s timestamp tx =
     (if length (tx_Data tx) < 4 then Some (failure 0 InvalidCallData, s)
      else
        let selector = take 4 (tx_Data tx); c = ss_ctx s; fork = IsXHedgeFork E c in
        if selector = SelectorCreateValidator then createValidator E s tx
        else if selector = SelectorEditValidator then editValidator E s tx
        else if selector = SelectorRetire then retire E s tx
        else if selector = SelectorIncreaseMinGasPrice then on_ctx s (handleMinGasPrice E c (tx_From tx) True)
        else if selector = SelectorDecreaseMinGasPrice then on_ctx s (handleMinGasPrice E c (tx_From tx) False)
        else if selector = SelectorProposal then
          (if fork then on_ctx s (createProposal E c timestamp tx) else Some (handleInvalidSelector, s))
        else if selector = SelectorVote then
          (if fork then on_ctx s (vote E c timestamp tx) else Some (handleInvalidSelector, s))
        else if selector = SelectorExecuteProposal then
          (if fork then on_ctx s (executeProposal E c timestamp) else Some (handleInvalidSelector, s))
        else if selector = SelectorGetVote then
          (if fork then map_option (\<lambda>res. (res, s)) (getVote E c tx) else Some (handleInvalidSelector, s))
        else Some (handleInvalidSelector, s))"

subsection \<open>The precompiled call\<close>

definition RequiredGas :: "bytes \<Rightarrow> u64" where
  "RequiredGas input = of_nat (length input) * SumVotingPowerGasPerByte + SumVotingPowerBaseGas"

function addr_words :: "bytes \<Rightarrow> address list" where
  "addr_words input = (if length input < 32 then [] else be_val (slice 12 32 input) # addr_words (drop 32 input))"
  by auto
termination by (relation "measure length") auto

declare addr_words.simps [simp del]

definition sum_step ::
  "address set \<Rightarrow> i64 \<times> i64 \<times> address set \<Rightarrow> Validator \<Rightarrow> i64 \<times> i64 \<times> address set" where
  "sum_step addrSet st val = (case st of (summedPower, totalPower, countedAddrs) \<Rightarrow>
     let hit = (v_Address val \<in> addrSet \<or> v_RewardTo val \<in> addrSet) \<and> v_Address val \<notin> countedAddrs
     in (if hit then summedPower + v_VotingPower val else summedPower, totalPower + v_VotingPower val,
         if hit then insert (v_Address val) countedAddrs else countedAddrs))"

definition Run :: "StakingInfo option \<Rightarrow> bytes \<Rightarrow> staking_error + bytes" where
  "Run readonly input =
     (if length input < 4 + 32 * 2 \<or> take 4 input \<noteq> SelectorSumVotingPower then Inl InvalidArgument
      else
        let addrSet = set (addr_words (drop (4 + 32 * 2) input));
            validators = (case readonly of None \<Rightarrow> [] | Some info \<Rightarrow> si_Validators info);
            (summedPower, totalPower, _) = foldl (sum_step addrSet) (0, 0, {}) validators
        in Inr (be_bytes 32 (ucast summedPower :: u256) @ be_bytes 32 (ucast totalPower :: u256)))"

subsection \<open>The invariant of the contract\<close>

text \<open>
  Between calls: the stored staking state can be loaded and is the one \<open>sumVotingPower\<close>
  sees, the contract account exists, addresses and public keys are unique, sizes fit the
  encoding, voting powers respect the bound and the governance invariant holds.
\<close>

definition contract_inv ::
  "('c, 'a) ext \<Rightarrow> (address \<Rightarrow> nat) \<Rightarrow> 'c staking_state \<Rightarrow> StakingInfo \<Rightarrow> bool" where
  "contract_inv E pw s info \<longleftrightarrow>
     LoadStakingInfo E (ss_ctx s) = Some info \<and> readonlyStakingInfo s = Some info \<and>
     GetAccount E (ss_ctx s) StakingContractAddress \<noteq> None \<and> wf_info info \<and> storable info \<and>
     (\<forall>v \<in> set (si_Validators info). unat (v_VotingPower v) \<le> pw (v_Address v)) \<and>
     (\<exists>g. gov_rel E (ss_ctx s) g \<and> gov_inv pw g)"

text \<open>What the contract owes: the staked coins and the pending rewards.\<close>

definition liabilities :: "StakingInfo \<Rightarrow> nat" where
  "liabilities info = (\<Sum>v\<leftarrow>si_Validators info. unat (v_StakedCoins v)) + (\<Sum>pr\<leftarrow>si_PendingRewards info. unat (pr_Amount pr))"

text \<open>
  A call moves coins between the sender and the contract only, and a successful one changes
  the contract's balance exactly by what it changes the liabilities.
\<close>

definition coins_sound ::
  "('c, 'a) ext \<Rightarrow> 'c staking_state \<Rightarrow> TxToRun \<Rightarrow> exec_result \<Rightarrow> 'c staking_state \<Rightarrow> bool" where
  "coins_sound E s tx res s' \<longleftrightarrow>
     (\<forall>S. finite S \<longrightarrow> tx_From tx \<in> S \<longrightarrow> StakingContractAddress \<in> S \<longrightarrow>
        coins_on E (ss_ctx s') S = coins_on E (ss_ctx s) S) \<and>
     (status res = StatusSuccess \<longrightarrow> (\<forall>info info'.
        LoadStakingInfo E (ss_ctx s) = Some info \<longrightarrow> LoadStakingInfo E (ss_ctx s') = Some info' \<longrightarrow>
        unat (bal E (ss_ctx s') StakingContractAddress) + liabilities info =
        unat (bal E (ss_ctx s) StakingContractAddress) + liabilities info'))"

subsection \<open>Updating a validator\<close>

lemma length_stringFromBytes: "length (stringFromBytes bz) \<le> length bz"
  by (auto simp: stringFromBytes_def split: option.splits)

lemma length_TrimRight0: "length (TrimRight0 bz) \<le> length bz"
  using length_dropWhile_le [of "\<lambda>b. b = 0" "rev bz"] by (simp add: TrimRight0_def)

lemma length_slice: "length (slice i j xs) \<le> j - i"
  by (simp add: slice_def)

lemma length_intro:
  "length (stringFromBytes (slice 32 64 cd)) \<le> 32" "length (TrimRight0 (slice 32 64 cd)) \<le> 32"
  using length_stringFromBytes [of "slice 32 64 cd"] length_TrimRight0 [of "slice 32 64 cd"]
    length_slice [of 32 64 cd] by linarith+

lemma edit_keeps [simp]:
  "v_Address (edit r i c v) = v_Address v" "v_Pubkey (edit r i c v) = v_Pubkey v"
  "v_VotingPower (edit r i c v) = v_VotingPower v" "v_IsRetiring (edit r i c v) = v_IsRetiring v"
  "v_StakedCoins (edit r i c v) = v_StakedCoins v + c"
  by (simp_all add: edit_def Let_def)

lemma edit_introduction: "v_Introduction (edit r i c v) \<in> {i, v_Introduction v}"
  by (simp add: edit_def Let_def)

lemma wf_info_update_validator:
  assumes "wf_info info" and "\<And>v. v_Address (f v) = v_Address v" and "\<And>v. v_Pubkey (f v) = v_Pubkey v"
  shows "wf_info (update_validator info addr f)"
proof -
  have "map v_Address (si_Validators (update_validator info addr f)) = map v_Address (si_Validators info)"
    "map v_Pubkey (si_Validators (update_validator info addr f)) = map v_Pubkey (si_Validators info)"
    unfolding update_validator_def by (simp_all add: upd_first_map_id assms)
  then show ?thesis using assms(1) unfolding wf_info_def unique_validators_def
    by (simp add: update_validator_def)
qed

lemma powers_update_validator:
  assumes "\<forall>v \<in> set (si_Validators info). unat (v_VotingPower v) \<le> pw (v_Address v)"
    and "\<And>v. v_Address (f v) = v_Address v" and "\<And>v. v_VotingPower (f v) = v_VotingPower v"
  shows "\<forall>v \<in> set (si_Validators (update_validator info addr f)). unat (v_VotingPower v) \<le> pw (v_Address v)"
  using assms unfolding update_validator_def by (auto dest!: set_upd_firstD)

lemma storable_update_validator:
  assumes "storable info" and "\<And>v. length (v_Introduction v) < 2 ^ 32 \<Longrightarrow> length (v_Introduction (f v)) < 2 ^ 32"
  shows "storable (update_validator info addr f)"
  using assms unfolding storable_def storable_validators_def update_validator_def
  by (auto dest!: set_upd_firstD)

lemma AddValidator_keeps:
  assumes add: "AddValidator info a pk intro coins rt = Inr info'"
  shows "wf_info info \<Longrightarrow> wf_info info'"
    and "storable info \<Longrightarrow> length intro \<le> 32 \<Longrightarrow> length (si_Validators info) + 1 < 2 ^ 32 \<Longrightarrow> storable info'"
    and "\<forall>v \<in> set (si_Validators info). unat (v_VotingPower v) \<le> pw (v_Address v) \<Longrightarrow>
      \<forall>v \<in> set (si_Validators info'). unat (v_VotingPower v) \<le> pw (v_Address v)"
    and "liabilities info' = liabilities info + unat coins"
proof -
  have info': "info' = info\<lparr>si_Validators := si_Validators info @
          [\<lparr>v_Address = a, v_Pubkey = pk, v_RewardTo = rt, v_VotingPower = 0,
            v_Introduction = intro, v_StakedCoins = coins, v_IsRetiring = False\<rparr>]\<rparr>"
    and new: "a \<notin> v_Address ` set (si_Validators info)" "pk \<notin> v_Pubkey ` set (si_Validators info)"
    using add by (auto simp: AddValidator_def add_conflict_None split: option.splits)
  show "wf_info info \<Longrightarrow> wf_info info'" unfolding info' using new by (intro wf_info_append) simp_all
  show "storable info \<Longrightarrow> length intro \<le> 32 \<Longrightarrow> length (si_Validators info) + 1 < 2 ^ 32 \<Longrightarrow> storable info'"
    unfolding info' by (auto simp: storable_def storable_validators_def)
  show "\<forall>v \<in> set (si_Validators info). unat (v_VotingPower v) \<le> pw (v_Address v) \<Longrightarrow>
      \<forall>v \<in> set (si_Validators info'). unat (v_VotingPower v) \<le> pw (v_Address v)"
    unfolding info' by auto
  show "liabilities info' = liabilities info + unat coins" unfolding info' by (simp add: liabilities_def)
qed

subsection \<open>Every call keeps the invariant\<close>

context chain_votes
begin

lemma gov_rel_set_account: "gov_rel E (SetAccount E c a x) g \<longleftrightarrow> gov_rel E c g"
  by (simp add: gov_rel_slots slot_bytes_set_account)

lemma gov_rel_save_info: "gov_rel E (ss_ctx (SaveStakingInfo E s info)) g \<longleftrightarrow> gov_rel E (ss_ctx s) g"
proof -
  have "slot_bytes E (ss_ctx (SaveStakingInfo E s info)) k = slot_bytes E (ss_ctx s) k" if "k \<noteq> SlotStakingInfo" for k
    using that by (simp add: slot_bytes_def storage_save_info)
  then show ?thesis by (simp add: gov_rel_slots) (simp add: slot_defs vote_key_free [unfolded slot_defs])
qed

lemma contract_inv_save:
  assumes "contract_inv E pw s info" and "wf_info info'" and "storable info'"
    and "\<forall>v \<in> set (si_Validators info'). unat (v_VotingPower v) \<le> pw (v_Address v)"
  shows "contract_inv E pw (SaveStakingInfo E s info') info'"
  using assms unfolding contract_inv_def
  by (simp add: load_save_info gov_rel_save_info) (simp add: SaveStakingInfo_def)

lemma contract_inv_ctx:
  assumes "contract_inv E pw s info" and "LoadStakingInfo E c = LoadStakingInfo E (ss_ctx s)"
    and "GetAccount E c StakingContractAddress \<noteq> None" and "\<exists>g. gov_rel E c g \<and> gov_inv pw g"
  shows "contract_inv E pw (s\<lparr>ss_ctx := c\<rparr>) info"
  using assms by (simp add: contract_inv_def)

lemma transfer_inv:
  assumes inv: "contract_inv E pw s info" and "GetAccount E (ss_ctx s) (tx_From tx) \<noteq> None"
  shows "\<exists>st out c. transferStakedCoins E (ss_ctx s) tx acc = Some ((st, out), c) \<and> contract_inv E pw (s\<lparr>ss_ctx := c\<rparr>) info"
proof -
  obtain sender where sender: "GetAccount E (ss_ctx s) (tx_From tx) = Some sender" using assms(2) by auto
  have ctx: "contract_inv E pw (s\<lparr>ss_ctx := SetAccount E (SetAccount E (ss_ctx s) a x) StakingContractAddress y\<rparr>) info" for a x y
    by (rule contract_inv_ctx [OF inv])
      (use inv in \<open>auto simp: load_info_set_account get_set_account gov_rel_set_account contract_inv_def\<close>)
  show ?thesis
    using ctx inv by (auto simp: transferStakedCoins_def sender Let_def)
qed

lemma save_and_transfer_inv:
  assumes "contract_inv E pw s info" and "wf_info info'" and "storable info'"
    and "\<forall>v \<in> set (si_Validators info'). unat (v_VotingPower v) \<le> pw (v_Address v)"
    and "GetAccount E (ss_ctx s) (tx_From tx) \<noteq> None"
  shows "\<exists>res s'. save_and_transfer E s tx acc info' = Some (res, s') \<and> contract_inv E pw s' info'"
proof -
  have "GetAccount E (ss_ctx (SaveStakingInfo E s info')) (tx_From tx) \<noteq> None" using assms(5) by simp
  from transfer_inv [OF contract_inv_save [OF assms(1-4)] this, of acc] show ?thesis
    by (auto simp: save_and_transfer_def Let_def)
qed

lemma createValidator_inv:
  assumes inv: "contract_inv E pw s info" and payer: "GetAccount E (ss_ctx s) (tx_From tx) \<noteq> None"
    and room: "length (si_Validators info) + 1 < 2 ^ 32"
  shows "\<exists>res s' info'. createValidator E s tx = Some (res, s') \<and> contract_inv E pw s' info'"
proof -
  let ?cd = "drop 4 (tx_Data tx)"
  let ?intro = "stringFromBytes (slice 32 64 ?cd)" and ?rt = "be_val (slice 12 32 ?cd) :: address"
  let ?pk = "be_val (slice 64 96 ?cd) :: bytes32"
  obtain acc where acc: "LoadStakingAccAndInfo E (ss_ctx s) = Some (acc, info)"
    using inv by (auto simp: contract_inv_def LoadStakingAccAndInfo_def)
  show ?thesis
  proof (cases "AddValidator info (tx_From tx) ?pk ?intro (tx_Value tx) ?rt")
    case (Inl err)
    with acc inv show ?thesis by (auto simp: createValidator_def Let_def)
  next
    case (Inr info')
    note new = AddValidator_keeps [OF Inr]
    have "\<exists>res s'. save_and_transfer E s tx acc info' = Some (res, s') \<and> contract_inv E pw s' info'"
      using inv room length_intro(1) [of ?cd] payer
      by (intro save_and_transfer_inv [OF inv] new) (auto simp: contract_inv_def)
    with acc inv Inr show ?thesis by (auto simp: createValidator_def Let_def)
  qed
qed

lemma editValidator_inv:
  assumes inv: "contract_inv E pw s info" and payer: "GetAccount E (ss_ctx s) (tx_From tx) \<noteq> None"
  shows "\<exists>res s' info'. editValidator E s tx = Some (res, s') \<and> contract_inv E pw s' info'"
proof -
  let ?cd = "slice 32 64 (drop 4 (tx_Data tx))"
  define intro where "intro = (if IsXHedgeFork E (ss_ctx s) then TrimRight0 ?cd else stringFromBytes ?cd)"
  define info' where "info' = update_validator info (tx_From tx)
    (edit (be_val (slice 12 32 (drop 4 (tx_Data tx)))) intro (tx_Value tx))"
  obtain acc where acc: "LoadStakingAccAndInfo E (ss_ctx s) = Some (acc, info)"
    using inv by (auto simp: contract_inv_def LoadStakingAccAndInfo_def)
  have "length intro < 2 ^ 32"
    using length_intro [of "drop 4 (tx_Data tx)"] by (simp add: intro_def)
  then have "storable info'"
    unfolding info'_def using inv edit_introduction
    by (intro storable_update_validator) (auto simp: contract_inv_def edit_def Let_def)
  moreover have "wf_info info'"
    unfolding info'_def using inv by (intro wf_info_update_validator) (simp_all add: contract_inv_def)
  moreover have "\<forall>v \<in> set (si_Validators info'). unat (v_VotingPower v) \<le> pw (v_Address v)"
    unfolding info'_def using inv by (intro powers_update_validator) (simp_all add: contract_inv_def)
  ultimately have "\<exists>res s'. save_and_transfer E s tx acc info' = Some (res, s') \<and> contract_inv E pw s' info'"
    by (intro save_and_transfer_inv [OF inv]) (use payer in auto)
  with acc inv show ?thesis
    by (auto simp: editValidator_def Let_def intro_def [symmetric] info'_def [symmetric] split: option.splits)
qed

lemma retire_inv:
  assumes inv: "contract_inv E pw s info"
  shows "\<exists>res s' info'. retire E s tx = Some (res, s') \<and> contract_inv E pw s' info'"
proof -
  let ?info = "update_validator info (tx_From tx) (\<lambda>v. v\<lparr>v_IsRetiring := True\<rparr>)"
  have "contract_inv E pw (SaveStakingInfo E s ?info) ?info"
    using inv by (intro contract_inv_save [OF inv] wf_info_update_validator storable_update_validator
      powers_update_validator) (auto simp: contract_inv_def)
  with inv show ?thesis by (auto simp: retire_def contract_inv_def split: option.splits)
qed

lemma on_ctx_inv:
  assumes inv: "contract_inv E pw s info" and cap: "sum pw UNIV \<le> 36893488"
    and r: "\<And>g. gov_rel E (ss_ctx s) g \<Longrightarrow> gov_inv pw g \<Longrightarrow> refines_step E pw (ss_ctx s) g r"
    and acc: "\<And>res c. r = Some (res, c) \<Longrightarrow> GetAccount E c = GetAccount E (ss_ctx s)"
  shows "\<exists>res s' info'. on_ctx s r = Some (res, s') \<and> contract_inv E pw s' info'"
proof -
  obtain g where g: "gov_rel E (ss_ctx s) g" "gov_inv pw g" using inv by (auto simp: contract_inv_def)
  from r [OF g] obtain res c where c: "r = Some (res, c)" "LoadStakingInfo E c = LoadStakingInfo E (ss_ctx s)"
    "\<exists>g'. gov_rel E c g' \<and> gov_inv pw g'"
    using gov_step_inv [OF _ g(2) cap] g(2) by (auto simp: refines_step_def split: if_splits)
  have "contract_inv E pw (s\<lparr>ss_ctx := c\<rparr>) info"
    using acc [OF c(1)] inv by (intro contract_inv_ctx [OF inv c(2) _ c(3)]) (simp add: contract_inv_def)
  with c(1) show ?thesis by (auto simp: on_ctx_def)
qed

lemma account_gov [simp]:
  "GetAccount E (SaveProposal E c t d) = GetAccount E c" "GetAccount E (SaveVote E c a t p) = GetAccount E c"
  "GetAccount E (AddVoters E c a) = GetAccount E c" "GetAccount E (DeleteVote E c a) = GetAccount E c"
  "GetAccount E (DeleteVoters E c) = GetAccount E c" "GetAccount E (SaveMinGasPrice E c p l) = GetAccount E c"
  by (auto simp: SaveProposal_def SaveVote_def AddVoters_def DeleteVote_def DeleteVoters_def SaveMinGasPrice_def
      account_set_storage account_delete_storage Let_def)

lemma account_delete_proposal [simp]: "GetAccount E (DeleteProposalInfos E c vs) = GetAccount E c"
proof -
  have "GetAccount E (foldl (DeleteVote E) d vs) = GetAccount E d" for d
    by (induction vs arbitrary: d) simp_all
  then show ?thesis by (simp add: DeleteProposalInfos_def DeleteProposal_def)
qed

lemma account_load_proposal: "LoadProposal E c = Some (td, c') \<Longrightarrow> GetAccount E c' = GetAccount E c"
  by (auto simp: LoadProposal_def Let_def split: if_splits bind_splits)

lemma account_createProposal: "createProposal E c now tx = Some (res, c') \<Longrightarrow> GetAccount E c' = GetAccount E c"
  by (auto simp: createProposal_def Let_def dest!: account_load_proposal split: if_splits option.splits bind_splits)

lemma account_vote: "vote E c now tx = Some (res, c') \<Longrightarrow> GetAccount E c' = GetAccount E c"
  by (auto simp: vote_def Let_def dest!: account_load_proposal split: if_splits option.splits bind_splits)

lemma account_executeProposal: "executeProposal E c now = Some (res, c') \<Longrightarrow> GetAccount E c' = GetAccount E c"
  by (auto simp: executeProposal_def Let_def dest!: account_load_proposal split: if_splits option.splits bind_splits)

lemma account_handleMinGasPrice: "handleMinGasPrice E c a inc = Some (res, c') \<Longrightarrow> GetAccount E c' = GetAccount E c"
  by (auto simp: handleMinGasPrice_def Let_def split: if_splits option.splits bind_splits)

lemma handleMinGasPrice_inv:
  assumes inv: "contract_inv E pw s info"
  shows "\<exists>res s' info'. on_ctx s (handleMinGasPrice E (ss_ctx s) a inc) = Some (res, s') \<and> contract_inv E pw s' info'"
proof -
  let ?c = "ss_ctx s"
  obtain g where g: "gov_rel E ?c g" "gov_inv pw g" using inv by (auto simp: contract_inv_def)
  have save: "contract_inv E pw (s\<lparr>ss_ctx := SaveMinGasPrice E ?c p False\<rparr>) info" if "in_range p" for p
  proof (rule contract_inv_ctx [OF inv])
    have "gov_rel E (SaveMinGasPrice E ?c p False) (g\<lparr>g_Price := p\<rparr>)"
      using g(1) by (simp add: gov_rel_slots SaveMinGasPrice_def slot_bytes_simps)
    moreover have "gov_inv pw (g\<lparr>g_Price := p\<rparr>)" using g(2) that by (simp add: gov_inv_def)
    ultimately show "\<exists>g. gov_rel E (SaveMinGasPrice E ?c p False) g \<and> gov_inv pw g" by blast
  qed (use inv in \<open>auto simp: load_info_simps contract_inv_def\<close>)
  have range: "in_range p" if "\<not> p < MinGasPriceLowerBoundOld" "\<not> p > MinGasPriceUpperBound" for p
    using that by (simp add: in_range_def MinGasPriceLowerBoundOld_def price_defs word_less_nat_alt word_le_nat_alt)
  have load: "LoadMinGasPrice E ?c False = Some (g_Price g)" "LoadMinGasPrice E ?c True = Some (g_Last g)"
    "LoadStakingInfo E ?c = Some info"
    using g(1) inv by (simp_all add: gov_rel_def contract_inv_def)
  show ?thesis
    using inv save range unfolding handleMinGasPrice_def load
    by (auto simp: on_ctx_def Let_def)
qed

lemma Execute_keeps:
  assumes inv: "contract_inv E pw s info" and cap: "sum pw UNIV \<le> 36893488"
    and payer: "GetAccount E (ss_ctx s) (tx_From tx) \<noteq> None" and room: "length (si_Validators info) + 1 < 2 ^ 32"
  shows "\<exists>res s' info'. Execute E s t tx = Some (res, s') \<and> contract_inv E pw s' info'"
proof -
  have info: "LoadStakingInfo E (ss_ctx s) = Some info" using inv by (simp add: contract_inv_def)
  have voter: "unat (v_VotingPower v) \<le> pw a" if "GetValidatorByAddr info a = Some v" for a v
    using inv GetValidatorByAddr_SomeD [OF that] by (auto simp: contract_inv_def)
  have gov: "\<exists>res s' info'. on_ctx s (createProposal E (ss_ctx s) t tx) = Some (res, s') \<and> contract_inv E pw s' info'"
    "\<exists>res s' info'. on_ctx s (vote E (ss_ctx s) t tx) = Some (res, s') \<and> contract_inv E pw s' info'"
    "\<exists>res s' info'. on_ctx s (executeProposal E (ss_ctx s) t) = Some (res, s') \<and> contract_inv E pw s' info'"
    by (rule on_ctx_inv [OF inv cap]; use info voter cap in \<open>auto intro: createProposal_refines vote_refines
        executeProposal_refines account_createProposal account_vote account_executeProposal\<close>)+
  have "\<exists>res. getVote E (ss_ctx s) tx = Some res"
    using inv by (auto simp: getVote_def contract_inv_def gov_rel_def Let_def split: prod.splits)
  then show ?thesis
    using gov createValidator_inv [OF inv payer room] editValidator_inv [OF inv payer] retire_inv [OF inv, of tx]
      handleMinGasPrice_inv [OF inv] inv
    by (auto simp: Execute_def Let_def)
qed

end

subsection \<open>Coins and liabilities\<close>

lemma liabilities_update:
  assumes "GetValidatorByAddr info addr = Some v"
    and "unat (v_StakedCoins v) + n < 2 ^ 256" and "unat (v_StakedCoins (f v)) = unat (v_StakedCoins v) + n"
  shows "liabilities (update_validator info addr f) = liabilities info + n"
proof -
  let ?P = "\<lambda>v. v_Address v = addr" and ?h = "\<lambda>v. unat (v_StakedCoins v)"
  have "sum_list (map ?h (upd_first ?P f (si_Validators info))) + ?h v = sum_list (map ?h (si_Validators info)) + ?h (f v)"
    using assms(1) by (intro sum_list_upd_first) (simp add: GetValidatorByAddr_def)
  with assms(3) show ?thesis by (simp add: liabilities_def update_validator_def)
qed

lemma stake_le_liabilities: "v \<in> set (si_Validators info) \<Longrightarrow> unat (v_StakedCoins v) \<le> liabilities info"
  using member_le_sum_list [of "unat (v_StakedCoins v)" "map (\<lambda>v. unat (v_StakedCoins v)) (si_Validators info)"]
  by (simp add: liabilities_def)

context chain_votes
begin

lemma bal_cong: "GetAccount E c = GetAccount E d \<Longrightarrow> bal E c = bal E d"
  by (auto simp: bal_def)

lemma coins_on_cong: "GetAccount E c = GetAccount E d \<Longrightarrow> coins_on E c S = coins_on E d S"
  by (simp add: coins_on_def bal_def)

lemma transfer_coins:
  assumes acc: "GetAccount E c StakingContractAddress = Some acc" and "tx_From tx \<noteq> StakingContractAddress"
    and room: "unat (Balance E acc) + unat (tx_Value tx) < 2 ^ 256"
    and t: "transferStakedCoins E c tx acc = Some ((st, out), c')"
  shows "finite S \<Longrightarrow> tx_From tx \<in> S \<Longrightarrow> StakingContractAddress \<in> S \<Longrightarrow> coins_on E c' S = coins_on E c S"
    and "unat (bal E c' StakingContractAddress) = unat (bal E c StakingContractAddress) +
      (if st = StatusSuccess then unat (tx_Value tx) else 0)"
proof -
  obtain sender where sender: "GetAccount E c (tx_From tx) = Some sender"
    using t by (auto simp: transferStakedCoins_def split: bind_splits)
  let ?v = "tx_Value tx" and ?b = "Balance E sender"
  have sum: "unat (Balance E acc + ?v) = unat (Balance E acc) + unat ?v"
    using room by (simp add: unat_add_no_wrap)
  consider (fail) "?b < ?v" "c' = c" "st = StatusFailed" | (zero) "?v = 0" "c' = c" "st = StatusSuccess"
    | (move) "?v \<le> ?b" "st = StatusSuccess" "c' = SetAccount E (SetAccount E c (tx_From tx) (UpdateBalance E sender (?b - ?v)))
        StakingContractAddress (UpdateBalance E acc (Balance E acc + ?v))"
    using t by (auto simp: transferStakedCoins_def sender Let_def split: if_splits)
  note cases = this
  show "unat (bal E c' StakingContractAddress) = unat (bal E c StakingContractAddress) +
      (if st = StatusSuccess then unat ?v else 0)"
    using cases acc sum by cases (auto simp: StatusSuccess_def StatusFailed_def balance_update bal_def [of E c])
  assume S: "finite S" "tx_From tx \<in> S" "StakingContractAddress \<in> S"
  show "coins_on E c' S = coins_on E c S"
    using cases
  proof cases
    case move
    let ?c1 = "SetAccount E c (tx_From tx) (UpdateBalance E sender (?b - ?v))"
    have "coins_on E ?c1 S + unat ?b = coins_on E c S + unat (?b - ?v)"
      using coins_on_set_account [OF S(1,2), of c "UpdateBalance E sender (?b - ?v)"]
      by (simp add: balance_update bal_def [of E c] sender)
    moreover have "coins_on E c' S + unat (Balance E acc) = coins_on E ?c1 S + unat (Balance E acc + ?v)"
      using coins_on_set_account [OF S(1,3), of ?c1 "UpdateBalance E acc (Balance E acc + ?v)"] assms(2)
      by (simp add: move(3) balance_update bal_def [of E c] acc)
    moreover have "unat (?b - ?v) + unat ?v = unat ?b"
      using move(1) by (simp add: unat_sub_le word_le_nat_alt)
    ultimately show ?thesis using sum by simp
  qed simp_all
qed

text \<open>Saving changes no account, so that the operations move coins exactly as their last step does.\<close>

lemma save_and_transfer_coins:
  assumes acc: "GetAccount E (ss_ctx s) StakingContractAddress = Some acc"
    and "tx_From tx \<noteq> StakingContractAddress" and room: "unat (Balance E acc) + unat (tx_Value tx) < 2 ^ 256"
    and t: "save_and_transfer E s tx acc info = Some (res, s')"
  shows "finite S \<Longrightarrow> tx_From tx \<in> S \<Longrightarrow> StakingContractAddress \<in> S \<Longrightarrow>
      coins_on E (ss_ctx s') S = coins_on E (ss_ctx s) S"
    and "unat (bal E (ss_ctx s') StakingContractAddress) = unat (bal E (ss_ctx s) StakingContractAddress) +
      (if status res = StatusSuccess then unat (tx_Value tx) else 0)"
proof -
  let ?s = "SaveStakingInfo E s info"
  obtain st out c where c: "transferStakedCoins E (ss_ctx ?s) tx acc = Some ((st, out), c)"
    "s' = ?s\<lparr>ss_ctx := c\<rparr>" "status res = st"
    using t by (auto simp: save_and_transfer_def Let_def split: bind_splits)
  have acc': "GetAccount E (ss_ctx ?s) StakingContractAddress = Some acc" using acc by simp
  note eq = coins_on_cong [OF account_save_info [of s info]] bal_cong [OF account_save_info [of s info]]
  show "coins_on E (ss_ctx s') S = coins_on E (ss_ctx s) S"
    if "finite S" "tx_From tx \<in> S" "StakingContractAddress \<in> S"
    using transfer_coins(1) [OF acc' assms(2) room c(1) that] by (simp add: c(2) eq)
  show "unat (bal E (ss_ctx s') StakingContractAddress) = unat (bal E (ss_ctx s) StakingContractAddress) +
      (if status res = StatusSuccess then unat (tx_Value tx) else 0)"
    using transfer_coins(2) [OF acc' assms(2) room c(1)] by (simp add: c(2,3) eq)
qed

lemma coins_sound_neutral:
  assumes "GetAccount E (ss_ctx s') = GetAccount E (ss_ctx s)"
    and "LoadStakingInfo E (ss_ctx s') = LoadStakingInfo E (ss_ctx s)"
  shows "coins_sound E s tx res s'"
  using assms coins_on_cong [OF assms(1)] bal_cong [OF assms(1)] by (auto simp: coins_sound_def)

lemma coins_sound_save_and_transfer:
  assumes inv: "contract_inv E pw s info" and acc: "GetAccount E (ss_ctx s) StakingContractAddress = Some acc"
    and other: "tx_From tx \<noteq> StakingContractAddress" and room: "unat (Balance E acc) + unat (tx_Value tx) < 2 ^ 256"
    and info': "wf_info info'" "storable info'" "\<forall>v \<in> set (si_Validators info'). unat (v_VotingPower v) \<le> pw (v_Address v)"
    and owed: "liabilities info' = liabilities info + unat (tx_Value tx)"
    and t: "save_and_transfer E s tx acc info' = Some (res, s')"
  shows "coins_sound E s tx res s'"
proof -
  have "GetAccount E (ss_ctx s) (tx_From tx) \<noteq> None"
    using t by (auto simp: save_and_transfer_def transferStakedCoins_def Let_def split: bind_splits)
  from save_and_transfer_inv [OF inv info' this, of acc] t have "LoadStakingInfo E (ss_ctx s') = Some info'"
    by (auto simp: contract_inv_def)
  moreover have "LoadStakingInfo E (ss_ctx s) = Some info" using inv by (simp add: contract_inv_def)
  ultimately show ?thesis
    using save_and_transfer_coins [OF acc other room t] owed by (auto simp: coins_sound_def)
qed

lemma createValidator_sound:
  assumes inv: "contract_inv E pw s info" and acc: "GetAccount E (ss_ctx s) StakingContractAddress = Some acc"
    and other: "tx_From tx \<noteq> StakingContractAddress" and room: "unat (Balance E acc) + unat (tx_Value tx) < 2 ^ 256"
    and small: "length (si_Validators info) + 1 < 2 ^ 32"
    and t: "createValidator E s tx = Some (res, s')"
  shows "coins_sound E s tx res s'"
proof (cases "s' = s \<and> status res = StatusFailed")
  case True
  then show ?thesis by (intro coins_sound_neutral) simp_all
next
  case False
  have load: "LoadStakingAccAndInfo E (ss_ctx s) = Some (acc, info)"
    using inv acc by (simp add: contract_inv_def LoadStakingAccAndInfo_def)
  obtain pk intro rt info' where add: "AddValidator info (tx_From tx) pk intro (tx_Value tx) rt = Inr info'"
    and intro: "length intro \<le> 32" and s': "save_and_transfer E s tx acc info' = Some (res, s')"
    using t False load length_intro(1) [of "drop 4 (tx_Data tx)"]
    by (auto simp: createValidator_def Let_def split: if_splits sum.splits)
  note new = AddValidator_keeps [OF add]
  show ?thesis
    using inv intro small
    by (intro coins_sound_save_and_transfer [OF inv acc other room new(1-3) new(4) s'])
      (auto simp: contract_inv_def)
qed

lemma editValidator_sound:
  assumes inv: "contract_inv E pw s info" and acc: "GetAccount E (ss_ctx s) StakingContractAddress = Some acc"
    and other: "tx_From tx \<noteq> StakingContractAddress" and room: "unat (Balance E acc) + unat (tx_Value tx) < 2 ^ 256"
    and solvent: "liabilities info \<le> unat (Balance E acc)"
    and t: "editValidator E s tx = Some (res, s')"
  shows "coins_sound E s tx res s'"
proof (cases "s' = s \<and> status res = StatusFailed")
  case True
  then show ?thesis by (intro coins_sound_neutral) simp_all
next
  case False
  have load: "LoadStakingAccAndInfo E (ss_ctx s) = Some (acc, info)"
    using inv acc by (simp add: contract_inv_def LoadStakingAccAndInfo_def)
  define rt where "rt = (be_val (slice 12 32 (drop 4 (tx_Data tx))) :: address)"
  define intro where "intro = (if IsXHedgeFork E (ss_ctx s) then TrimRight0 (slice 32 64 (drop 4 (tx_Data tx)))
    else stringFromBytes (slice 32 64 (drop 4 (tx_Data tx))))"
  have intro: "length intro \<le> 32" by (simp add: intro_def length_intro)
  obtain v where v: "GetValidatorByAddr info (tx_From tx) = Some v"
    and s': "save_and_transfer E s tx acc (update_validator info (tx_From tx) (edit rt intro (tx_Value tx))) = Some (res, s')"
    using t False load
    by (auto simp: editValidator_def Let_def rt_def [symmetric] intro_def [symmetric] split: if_splits option.splits)
  have fits: "unat (v_StakedCoins v) + unat (tx_Value tx) < 2 ^ 256"
    using stake_le_liabilities [of v info] GetValidatorByAddr_SomeD [OF v] solvent room by simp
  show ?thesis
  proof (rule coins_sound_save_and_transfer [OF inv acc other room _ _ _ _ s'])
    show "liabilities (update_validator info (tx_From tx) (edit rt intro (tx_Value tx))) = liabilities info + unat (tx_Value tx)"
      using fits by (intro liabilities_update [OF v]) (simp_all add: unat_add_no_wrap)
    show "storable (update_validator info (tx_From tx) (edit rt intro (tx_Value tx)))"
      using inv intro by (intro storable_update_validator) (auto simp: contract_inv_def edit_def Let_def)
    show "wf_info (update_validator info (tx_From tx) (edit rt intro (tx_Value tx)))"
      using inv by (intro wf_info_update_validator) (simp_all add: contract_inv_def)
    show "\<forall>v \<in> set (si_Validators (update_validator info (tx_From tx) (edit rt intro (tx_Value tx)))).
        unat (v_VotingPower v) \<le> pw (v_Address v)"
      using inv by (intro powers_update_validator) (simp_all add: contract_inv_def)
  qed
qed

lemma retire_sound:
  assumes inv: "contract_inv E pw s info" and t: "retire E s tx = Some (res, s')"
  shows "coins_sound E s tx res s'"
proof (cases "GetValidatorByAddr info (tx_From tx)")
  case None
  then show ?thesis using t inv by (auto simp: retire_def contract_inv_def intro!: coins_sound_neutral)
next
  case (Some v)
  let ?info = "update_validator info (tx_From tx) (\<lambda>v. v\<lparr>v_IsRetiring := True\<rparr>)"
  have s': "s' = SaveStakingInfo E s ?info" using t inv Some by (auto simp: retire_def contract_inv_def)
  have "liabilities ?info = liabilities info"
    using liabilities_update [OF Some, of 0 "\<lambda>v. v\<lparr>v_IsRetiring := True\<rparr>"] unat_lt [of "v_StakedCoins v"] by simp
  moreover have "storable ?info" using inv by (intro storable_update_validator) (simp_all add: contract_inv_def)
  ultimately show ?thesis
    using inv load_save_info [of ?info s] by (auto simp: coins_sound_def s' contract_inv_def coins_on_def)
qed

lemma Execute_sound:
  assumes inv: "contract_inv E pw s info" and acc: "GetAccount E (ss_ctx s) StakingContractAddress = Some acc"
    and other: "tx_From tx \<noteq> StakingContractAddress" and room: "unat (Balance E acc) + unat (tx_Value tx) < 2 ^ 256"
    and small: "length (si_Validators info) + 1 < 2 ^ 32" and solvent: "liabilities info \<le> unat (Balance E acc)"
    and cap: "sum pw UNIV \<le> 36893488" and t: "Execute E s ts tx = Some (res, s')"
  shows "coins_sound E s tx res s'"
proof -
  have info: "LoadStakingInfo E (ss_ctx s) = Some info" using inv by (simp add: contract_inv_def)
  obtain g where g: "gov_rel E (ss_ctx s) g" "gov_inv pw g" using inv by (auto simp: contract_inv_def)
  have voter: "unat (v_VotingPower v) \<le> pw a" if "GetValidatorByAddr info a = Some v" for a v
    using inv GetValidatorByAddr_SomeD [OF that] by (auto simp: contract_inv_def)
  have ctx: "coins_sound E s tx res s'"
    if "on_ctx s r = Some (res, s')" "\<And>res c. r = Some (res, c) \<Longrightarrow> GetAccount E c = GetAccount E (ss_ctx s)"
      "\<And>res c. r = Some (res, c) \<Longrightarrow> LoadStakingInfo E c = LoadStakingInfo E (ss_ctx s)" for r
    using that by (auto simp: on_ctx_def intro!: coins_sound_neutral)
  have gov: "coins_sound E s tx res s'"
    if "on_ctx s r = Some (res, s')" "\<And>res c. r = Some (res, c) \<Longrightarrow> GetAccount E c = GetAccount E (ss_ctx s)"
      "refines_step E pw (ss_ctx s) g r" for r
    using that(3) by (intro ctx [OF that(1,2)]) (auto simp: refines_step_def)
  have price: "LoadStakingInfo E c = LoadStakingInfo E (ss_ctx s)"
    if "handleMinGasPrice E (ss_ctx s) a inc = Some (r, c)" for a inc r c
    using that by (auto simp: handleMinGasPrice_def Let_def load_info_simps split: if_splits option.splits bind_splits)
  have refl: "coins_sound E s tx r s" for r by (rule coins_sound_neutral) simp_all
  show ?thesis
    using t refl createValidator_sound [OF inv acc other room small] editValidator_sound [OF inv acc other room solvent]
      retire_sound [OF inv] ctx [OF _ account_handleMinGasPrice price]
      gov [OF _ account_createProposal createProposal_refines [OF g(1) info voter]]
      gov [OF _ account_vote vote_refines [OF g(1) info voter]]
      gov [OF _ account_executeProposal executeProposal_refines [OF g cap]]
    unfolding Execute_def Let_def by (auto split: if_splits)
qed

end

subsection \<open>Summing voting powers\<close>

lemma foldl_sum_step:
  assumes "distinct (map v_Address vs)" and "cnt \<inter> v_Address ` set vs = {}"
  shows "\<exists>cnt'. foldl (sum_step A) (p, t, cnt) vs =
    (p + sum_list (map v_VotingPower (filter (\<lambda>v. v_Address v \<in> A \<or> v_RewardTo v \<in> A) vs)),
     t + sum_list (map v_VotingPower vs), cnt')"
  using assms
proof (induction vs arbitrary: p t cnt)
  case (Cons v vs)
  let ?st = "sum_step A (p, t, cnt) v"
  have "v_Address v \<notin> cnt" using Cons.prems by auto
  then have st: "?st = (if v_Address v \<in> A \<or> v_RewardTo v \<in> A
      then (p + v_VotingPower v, t + v_VotingPower v, insert (v_Address v) cnt) else (p, t + v_VotingPower v, cnt))"
    by (simp add: sum_step_def)
  have "v_Address v \<notin> v_Address ` set vs" using Cons.prems(1) by simp
  then have "snd (snd ?st) \<inter> v_Address ` set vs = {}" using Cons.prems(2) by (auto simp: st)
  from Cons.IH [OF _ this, of "fst ?st" "fst (snd ?st)"] Cons.prems(1) show ?case
    by (auto simp: st algebra_simps)
qed simp

lemma addr_words_concat:
  "addr_words (concat (map (\<lambda>a. replicate 12 0 @ be_bytes 20 a) as)) = as"
proof (induction as)
  case Nil
  then show ?case by (simp add: addr_words.simps)
next
  case (Cons a as)
  let ?r = "concat (map (\<lambda>a. replicate 12 0 @ be_bytes 20 a) as)"
  have "addr_words ((replicate 12 0 @ be_bytes 20 a) @ ?r) = a # addr_words ?r"
    by (subst addr_words.simps) (simp add: slice_def)
  then show ?case using Cons by simp
qed

lemma unat_sum_powers:
  assumes "sum_list (map (\<lambda>v. unat (v_VotingPower v)) vs) < 2 ^ 64"
  shows "(ucast (sum_list (map v_VotingPower (filter P vs))) :: u256) =
    of_nat (sum_list (map (\<lambda>v. unat (v_VotingPower v)) (filter P vs)))"
proof -
  have "sum_list (map (\<lambda>v. unat (v_VotingPower v)) (filter P vs)) \<le> sum_list (map (\<lambda>v. unat (v_VotingPower v)) vs)"
    by (induction vs) auto
  with assms have "unat (sum_list (map v_VotingPower (filter P vs))) = sum_list (map (\<lambda>v. unat (v_VotingPower v)) (filter P vs))"
    by (intro unat_sum_list) simp
  then show ?thesis by (metis of_nat_unat)
qed

subsection \<open>Properties\<close>

text \<open>
  C1: the staking contract never panics and every call, successful or not, keeps its
  invariant: the stored state stays loadable and equal to the copy \<open>sumVotingPower\<close> uses,
  addresses and public keys stay unique, pending rewards stay owned by registered
  validators, and the governance invariant (price bounds included) holds.
\<close>

theorem Execute_invariant:
  assumes "chain_votes E" and "contract_inv E pw s info" and "sum pw UNIV \<le> 36893488"
    and "GetAccount E (ss_ctx s) (tx_From tx) \<noteq> None" and "length (si_Validators info) + 1 < 2 ^ 32"
  shows "\<exists>res s' info'. Execute E s timestamp tx = Some (res, s') \<and> contract_inv E pw s' info'"
  by (rule chain_votes.Execute_keeps [OF assms])

text \<open>
  C2: a call moves coins only between the sender and the contract (no coin is created or
  lost), and a successful call changes the contract's balance by exactly as much as it
  changes the sum of staked coins and pending rewards it owes.
\<close>

theorem Execute_coins:
  assumes "chain_votes E" and "contract_inv E pw s info" and "sum pw UNIV \<le> 36893488"
    and "GetAccount E (ss_ctx s) StakingContractAddress = Some acc" and "tx_From tx \<noteq> StakingContractAddress"
    and "unat (Balance E acc) + unat (tx_Value tx) < 2 ^ 256" and "length (si_Validators info) + 1 < 2 ^ 32"
    and "liabilities info \<le> unat (Balance E acc)" and "Execute E s timestamp tx = Some (res, s')"
  shows "coins_sound E s tx res s'"
  by (rule chain_votes.Execute_sound [OF assms(1,2,4-8,3,9)])

text \<open>A chain with the contract account, a rich user and two validators, for the examples.\<close>

definition sample_state :: "mem_ctx staking_state" where
  "sample_state = SaveStakingInfo mem_ext
     (mem_state (SetAccount mem_ext (SetAccount mem_ext mem_empty StakingContractAddress \<lparr>ma_Balance = 5000, ma_Sequence = 0\<rparr>)
        7 \<lparr>ma_Balance = 600, ma_Sequence = 0\<rparr>)) sample_info"

definition create_tx :: "u256 \<Rightarrow> TxToRun" where
  "create_tx v = \<lparr>tx_From = 7, tx_Value = v, tx_Data = SelectorCreateValidator @
     be_bytes 32 (9 :: u256) @ be_bytes 32 (0x76000000 :: u256) @ be_bytes 32 (77 :: u256)\<rparr>"

lemma sample_state_inv: "contract_inv mem_ext sample_pw sample_state sample_info"
proof -
  have "gov_rel mem_ext (ss_ctx sample_state) gov0"
    by (rule mem.gov_rel_initial)
      (simp add: sample_state_def SaveStakingInfo_def mem_state_def mem_empty_def slot_bytes_def mem_ext_def)
  moreover have "LoadStakingInfo mem_ext (ss_ctx sample_state) = Some sample_info"
    unfolding sample_state_def by (rule mem.load_save_info [OF storable_sample_info])
  moreover have "readonlyStakingInfo sample_state = Some sample_info"
    by (simp add: sample_state_def SaveStakingInfo_def)
  moreover have "GetAccount mem_ext (ss_ctx sample_state) StakingContractAddress \<noteq> None"
    by (simp add: sample_state_def SaveStakingInfo_def mem_state_def mem_ext_def StakingContractAddress_def)
  ultimately show ?thesis
    using sample_ctx_facts(4) gov_inv_initial wf_sample_info storable_sample_info by (auto simp: contract_inv_def)
qed

lemma sample_state_accounts:
  "GetAccount mem_ext (ss_ctx sample_state) StakingContractAddress = Some \<lparr>ma_Balance = 5000, ma_Sequence = 0\<rparr>"
  "GetAccount mem_ext (ss_ctx sample_state) 7 = Some \<lparr>ma_Balance = 600, ma_Sequence = 0\<rparr>"
  by (simp_all add: sample_state_def SaveStakingInfo_def mem_state_def mem_ext_def StakingContractAddress_def)

theorem Execute_invariant_witness:
  "\<exists>res s' info'. Execute mem_ext sample_state 0 (create_tx 500) = Some (res, s') \<and>
     contract_inv mem_ext sample_pw s' info'"
  by (rule Execute_invariant [OF mem_chain_votes sample_state_inv])
    (simp_all add: sample_ctx_facts(3) sample_state_accounts create_tx_def sample_info_def)

theorem Execute_coins_witness:
  "\<exists>res s'. Execute mem_ext sample_state 0 (create_tx 500) = Some (res, s') \<and>
     coins_sound mem_ext sample_state (create_tx 500) res s'"
proof -
  obtain res s' where x: "Execute mem_ext sample_state 0 (create_tx 500) = Some (res, s')"
    using mem.Execute_keeps [OF sample_state_inv, of "create_tx 500" 0]
    by (auto simp: sample_ctx_facts(3) sample_state_accounts create_tx_def sample_info_def)
  have "coins_sound mem_ext sample_state (create_tx 500) res s'"
    by (rule Execute_coins [OF mem_chain_votes sample_state_inv _ sample_state_accounts(1) _ _ _ _ x])
      (simp_all add: sample_ctx_facts(3) create_tx_def StakingContractAddress_def mem_ext_def sample_info_def
        liabilities_def sample_validator_def)
  with x show ?thesis by blast
qed

text \<open>
  a \<open>createValidator\<close> call whose sender cannot pay the stake reports
  \<open>BalanceNotEnough\<close> and moves no coin, yet the stored staking state (and the copy that
  \<open>sumVotingPower\<close> reads) already contains the new validator with the unpaid stake: the
  state is saved before the balance is checked.
\<close>

theorem createValidator_unfunded:
  assumes "chain_ctx E" and "LoadStakingInfo E (ss_ctx s) = Some info" and "storable info"
    and "GetAccount E (ss_ctx s) StakingContractAddress = Some acc"
    and "GetAccount E (ss_ctx s) (tx_From tx) = Some sender" and "Balance E sender < tx_Value tx"
    and "length (tx_Data tx) \<ge> 100" and "length (si_Validators info) + 1 < 2 ^ 32"
    and "tx_From tx \<notin> v_Address ` set (si_Validators info)"
    and "be_val (slice 64 96 (drop 4 (tx_Data tx))) \<notin> v_Pubkey ` set (si_Validators info)"
  shows "\<exists>s' v. createValidator E s tx = Some (failure GasOfValidatorOp BalanceNotEnough, s') \<and>
     LoadStakingInfo E (ss_ctx s') = Some (info\<lparr>si_Validators := si_Validators info @ [v]\<rparr>) \<and>
     readonlyStakingInfo s' = Some (info\<lparr>si_Validators := si_Validators info @ [v]\<rparr>) \<and>
     v_Address v = tx_From tx \<and> v_StakedCoins v = tx_Value tx \<and>
     GetAccount E (ss_ctx s') = GetAccount E (ss_ctx s)"
proof -
  let ?cd = "drop 4 (tx_Data tx)"
  let ?v = "\<lparr>v_Address = tx_From tx, v_Pubkey = be_val (slice 64 96 ?cd), v_RewardTo = be_val (slice 12 32 ?cd),
    v_VotingPower = 0, v_Introduction = stringFromBytes (slice 32 64 ?cd), v_StakedCoins = tx_Value tx, v_IsRetiring = False\<rparr>"
  let ?info = "info\<lparr>si_Validators := si_Validators info @ [?v]\<rparr>"
  have add: "AddValidator info (tx_From tx) (be_val (slice 64 96 ?cd)) (stringFromBytes (slice 32 64 ?cd))
      (tx_Value tx) (be_val (slice 12 32 ?cd)) = Inr ?info"
    using assms(9,10) add_conflict_None [of "tx_From tx" "be_val (slice 64 96 ?cd)" "si_Validators info"]
    by (simp add: AddValidator_def)
  have "storable ?info" using AddValidator_keeps(2) [OF add assms(3)] length_intro(1) [of ?cd] assms(8) by simp
  note loaded = chain_ctx.load_save_info [OF assms(1) this, of s] chain_ctx.account_save_info [OF assms(1), of s ?info]
  have "\<not> tx_Value tx \<le> InitialStakingAmount"
    using assms(6) by (auto simp: InitialStakingAmount_def)
  then have "createValidator E s tx = Some (failure GasOfValidatorOp BalanceNotEnough, SaveStakingInfo E s ?info)"
    using assms(2,4-7) add loaded
    by (simp add: createValidator_def LoadStakingAccAndInfo_def save_and_transfer_def transferStakedCoins_def Let_def)
  with loaded show ?thesis by (auto simp: SaveStakingInfo_def)
qed

theorem createValidator_unfunded_witness:
  "\<exists>s' v. createValidator mem_ext sample_state (create_tx 601) = Some (failure GasOfValidatorOp BalanceNotEnough, s') \<and>
     LoadStakingInfo mem_ext (ss_ctx s') = Some (sample_info\<lparr>si_Validators := si_Validators sample_info @ [v]\<rparr>)"
proof -
  have pk: "(be_val (slice 64 96 (drop 4 (tx_Data (create_tx 601)))) :: bytes32) = 77"
    by (simp add: create_tx_def SelectorCreateValidator_def slice_def)
  have "\<exists>s' v. createValidator mem_ext sample_state (create_tx 601) = Some (failure GasOfValidatorOp BalanceNotEnough, s') \<and>
     LoadStakingInfo mem_ext (ss_ctx s') = Some (sample_info\<lparr>si_Validators := si_Validators sample_info @ [v]\<rparr>) \<and>
     readonlyStakingInfo s' = Some (sample_info\<lparr>si_Validators := si_Validators sample_info @ [v]\<rparr>) \<and>
     v_Address v = tx_From (create_tx 601) \<and> v_StakedCoins v = tx_Value (create_tx 601) \<and>
     GetAccount mem_ext (ss_ctx s') = GetAccount mem_ext (ss_ctx sample_state)"
  proof (rule createValidator_unfunded [OF mem_chain_ctx _ storable_sample_info sample_state_accounts(1)])
    show "LoadStakingInfo mem_ext (ss_ctx sample_state) = Some sample_info"
      using sample_state_inv by (simp add: contract_inv_def)
    show "GetAccount mem_ext (ss_ctx sample_state) (tx_From (create_tx 601)) = Some \<lparr>ma_Balance = 600, ma_Sequence = 0\<rparr>"
      using sample_state_accounts(2) by (simp add: create_tx_def)
    show "be_val (slice 64 96 (drop 4 (tx_Data (create_tx 601)))) \<notin> v_Pubkey ` set (si_Validators sample_info)"
      unfolding pk by (simp add: sample_info_def sample_validator_def)
  qed (simp_all add: mem_ext_def create_tx_def SelectorCreateValidator_def sample_info_def sample_validator_def)
  then show ?thesis by blast
qed

text \<open>
  \<open>sumVotingPower\<close> answers with the sum of the powers of the validators that are in
  the given address list, by their own or by their reward address, each counted once however
  often it is listed, and with the sum of all powers.
\<close>

theorem Run_sums_powers:
  assumes "length hdr = 64" and "distinct (map v_Address (si_Validators info))"
    and "(\<Sum>v\<leftarrow>si_Validators info. unat (v_VotingPower v)) < 2 ^ 64"
  shows "Run (Some info) (SelectorSumVotingPower @ hdr @ concat (map (\<lambda>a. replicate 12 0 @ be_bytes 20 a) addrs)) =
    Inr (be_bytes 32 (of_nat (\<Sum>v\<leftarrow>filter (\<lambda>v. v_Address v \<in> set addrs \<or> v_RewardTo v \<in> set addrs) (si_Validators info).
           unat (v_VotingPower v)) :: u256) @
         be_bytes 32 (of_nat (\<Sum>v\<leftarrow>si_Validators info. unat (v_VotingPower v)) :: u256))"
proof -
  let ?ws = "concat (map (\<lambda>a. replicate 12 0 @ be_bytes 20 a) addrs)" and ?vs = "si_Validators info"
  have words: "addr_words (drop (4 + 32 * 2) (SelectorSumVotingPower @ hdr @ ?ws)) = addrs"
    using assms(1) by (simp add: SelectorSumVotingPower_def addr_words_concat)
  obtain cnt where fold: "foldl (sum_step (set addrs)) (0, 0, {}) ?vs =
      (sum_list (map v_VotingPower (filter (\<lambda>v. v_Address v \<in> set addrs \<or> v_RewardTo v \<in> set addrs) ?vs)),
       sum_list (map v_VotingPower ?vs), cnt)"
    using foldl_sum_step [OF assms(2), of "{}" "set addrs" 0 0] by auto
  have tot: "(ucast (sum_list (map v_VotingPower ?vs)) :: u256) = of_nat (\<Sum>v\<leftarrow>?vs. unat (v_VotingPower v))"
    using unat_sum_powers [OF assms(3), of "\<lambda>_. True"] by simp
  have input: "\<not> (length (SelectorSumVotingPower @ hdr @ ?ws) < 4 + 32 * 2 \<or>
      take 4 (SelectorSumVotingPower @ hdr @ ?ws) \<noteq> SelectorSumVotingPower)"
    using assms(1) by (simp add: SelectorSumVotingPower_def)
  show ?thesis
    unfolding Run_def if_not_P [OF input] Let_def option.case words fold prod.case
    by (simp add: tot unat_sum_powers [OF assms(3)])
qed

theorem Run_sums_powers_witness:
  "Run (Some sample_info) (SelectorSumVotingPower @ replicate 64 0 @
     concat (map (\<lambda>a. replicate 12 0 @ be_bytes 20 a) [1, 101, 55 :: address])) =
   Inr (be_bytes 32 (1 :: u256) @ be_bytes 32 (2 :: u256))"
  using Run_sums_powers [of "replicate 64 0" sample_info "[1, 101, 55]"]
  by (simp add: sample_info_def sample_validator_def)

end
