(* ===== verification/Staking_Rewards.thy ===== *)
theory Staking_Rewards
  imports Staking_Contract
begin

text \<open>
  What every block does with the staking state (\<open>src/staking/staking.go\<close>): slash the
  validators that misbehaved, then distribute the block reward to the voters, the proposer
  and the collector. The maps from keys to pointers are index maps, built once and kept
  while the structs behind them are written, as in the code.
\<close>

definition SlashedStakingAmount :: u256 where "SlashedStakingAmount = 0"

definition incrAllBurnt :: "('c, 'a) ext \<Rightarrow> 'c \<Rightarrow> u256 \<Rightarrow> 'c option" where
  "incrAllBurnt E c amount = do {
     let bz = slot_bytes E c SlotAllBurnt;
     allBurnt \<leftarrow> (if bz \<noteq> [] then SetBytes32 bz else Some 0);
     Some (SetStorageAt E c StakingContractSequence SlotAllBurnt (be_bytes 32 (allBurnt + amount))) }"

text \<open>The returned amount is nil for an unknown public key.\<close>

definition Slash ::
  "('c, 'a) ext \<Rightarrow> 'c \<Rightarrow> StakingInfo \<Rightarrow> bytes32 \<Rightarrow> u256 \<Rightarrow> (u256 option \<times> StakingInfo \<times> 'c) option" where
  "Slash E c info pubkey amount =
     (case GetValidatorByPubkey info pubkey of
        None \<Rightarrow> Some (None, info, c)
      | Some val \<Rightarrow>
          let coins = v_StakedCoins val;
              (totalSlashed, coins) = (if coins < amount then (coins, 0) else (amount, coins - amount));
              info = info\<lparr>si_Validators := upd_first (\<lambda>v. v_Pubkey v = pubkey)
                (\<lambda>v. v\<lparr>v_StakedCoins := coins\<rparr>) (si_Validators info)\<rparr>;
              (totalCleared, info) = ClearRewardsOf info (v_Address val);
              totalSlashed = totalSlashed + totalCleared;
              c = TransferFromSenderAccToBlackHoleAcc E c StakingContractAddress totalSlashed
          in do { c \<leftarrow> incrAllBurnt E c totalSlashed; Some (Some totalSlashed, info, c) })"

text \<open>A missing entry is appended and stays out of the map; a pointer outside the slice cannot occur.\<close>

definition distributeToValidator ::
  "(address \<rightharpoonup> nat) \<Rightarrow> StakingInfo \<Rightarrow> u256 \<Rightarrow> Validator \<Rightarrow> StakingInfo" where
  "distributeToValidator rwdMapByAddr info rwdCoins val =
     (case rwdMapByAddr (v_Address val) of
        None \<Rightarrow> info\<lparr>si_PendingRewards := si_PendingRewards info @
          [\<lparr>pr_Address = v_Address val, pr_EpochNum = si_CurrEpochNum info, pr_Amount = rwdCoins\<rparr>]\<rparr>
      | Some i \<Rightarrow> info\<lparr>si_PendingRewards := (si_PendingRewards info)[i :=
          (si_PendingRewards info ! i)\<lparr>pr_Amount := pr_Amount (si_PendingRewards info ! i) + rwdCoins\<rparr>]\<rparr>)"

definition val_at :: "StakingInfo \<Rightarrow> (bytes32 \<rightharpoonup> nat) \<Rightarrow> bytes32 \<Rightarrow> Validator option" where
  "val_at info valMapByPubkey pubkey = map_option ((!) (si_Validators info)) (valMapByPubkey pubkey)"

text \<open>The fees of proposer and collector and what is left, from the fee after burning.\<close>

definition split_fee :: "u256 \<Rightarrow> i64 \<Rightarrow> i64 \<Rightarrow> u256 \<times> u256 \<times> u256" where
  "split_fee collectedFee votedPower totalVotingPower =
     (let proposerBaseFee = collectedFee * ucast ProposerBaseMintFeePercentage div 100;
          collectedFee = collectedFee - proposerBaseFee;
          collectorFee = collectedFee * ucast CollectorMintFeePercentage * ucast votedPower
            div ucast (100 * totalVotingPower);
          collectedFee = collectedFee - collectorFee
      in (proposerBaseFee, collectorFee, collectedFee))"

definition voter_step ::
  "(address \<rightharpoonup> nat) \<Rightarrow> (bytes32 \<rightharpoonup> nat) \<Rightarrow> bytes32 \<Rightarrow> u256 \<Rightarrow> i64 \<Rightarrow>
   u256 \<times> StakingInfo \<Rightarrow> bytes32 \<Rightarrow> (u256 \<times> StakingInfo) option" where
  "voter_step rwdMapByAddr valMapByPubkey proposer collectedFee votedPower st voter =
     (case st of (remainedFee, info) \<Rightarrow>
        if proposer = voter then Some st
        else do {
          val \<leftarrow> val_at info valMapByPubkey voter;
          let rwdCoins = collectedFee * ucast (v_VotingPower val) div ucast votedPower;
          Some (remainedFee - rwdCoins, distributeToValidator rwdMapByAddr info rwdCoins val) })"

definition DistributeFee ::
  "('c, 'a) ext \<Rightarrow> 'c \<Rightarrow> 'a \<Rightarrow> StakingInfo \<Rightarrow> u256 option \<Rightarrow> bytes32 \<Rightarrow> bytes32 \<Rightarrow> bytes32 list \<Rightarrow>
   (StakingInfo \<times> 'c) option" where
  "DistributeFee E c stakingAcc info fee collector proposer voters =
     (case fee of
        None \<Rightarrow> Some (info, c)
      | Some collectedFee \<Rightarrow> do {
          let stakingAcc = UpdateBalance E stakingAcc (Balance E stakingAcc + collectedFee);
          let c = SetAccount E c StakingContractAddress stakingAcc;
          let halfFeeToBurn = drop_bit 1 collectedFee;
          let collectedFee = collectedFee - halfFeeToBurn;
          let c = TransferFromSenderAccToBlackHoleAcc E c StakingContractAddress halfFeeToBurn;
          let totalVotingPower = sum_list (map v_VotingPower (GetActiveValidators (si_Validators info) MinimumStakingAmount));
          let valMapByPubkey = GetValMapByPubkey info;
          votedPower \<leftarrow> foldM (\<lambda>p voter. map_option (\<lambda>val. p + v_VotingPower val) (val_at info valMapByPubkey voter)) 0 voters;
          let (proposerBaseFee, collectorFee, collectedFee) =
            (if proposer \<noteq> 0 then split_fee collectedFee votedPower totalVotingPower else (0, 0, collectedFee));
          let rwdMapByAddr = GetCurrRewardMapByAddr info;
          (remainedFee, info) \<leftarrow> foldM (voter_step rwdMapByAddr valMapByPubkey proposer collectedFee votedPower)
            (collectedFee, info) voters;
          (info, c) \<leftarrow> (if proposer \<noteq> 0 then do {
              proposerVal \<leftarrow> val_at info valMapByPubkey proposer;
              Some (distributeToValidator rwdMapByAddr info (proposerBaseFee + remainedFee) proposerVal, c) }
            else if remainedFee \<noteq> 0
              then Some (info, TransferFromSenderAccToBlackHoleAcc E c StakingContractAddress remainedFee)
            else Some (info, c));
          if collector \<noteq> 0 then do {
            collectorVal \<leftarrow> val_at info valMapByPubkey collector;
            Some (distributeToValidator rwdMapByAddr info collectorFee collectorVal, c) }
          else if collectorFee \<noteq> 0
            then Some (info, TransferFromSenderAccToBlackHoleAcc E c StakingContractAddress collectorFee)
          else Some (info, c) })"

subsection \<open>One block\<close>

definition cons_map :: "('c, 'a) ext \<Rightarrow> Validator list \<Rightarrow> (address \<rightharpoonup> bytes32)" where
  "cons_map E vals = foldl (\<lambda>m v. m(Ed25519Address E (v_Pubkey v) \<mapsto> v_Pubkey v)) Map.empty vals"

definition slash_step ::
  "('c, 'a) ext \<Rightarrow> (address \<rightharpoonup> bytes32) \<Rightarrow> StakingInfo \<times> 'c \<Rightarrow> address \<Rightarrow> (StakingInfo \<times> 'c) option" where
  "slash_step E pubkeyMapByConsAddr st v = (case st of (info, c) \<Rightarrow>
     (case pubkeyMapByConsAddr v of
        None \<Rightarrow> Some (info, c)
      | Some pubkey \<Rightarrow> map_option snd (Slash E c info pubkey SlashedStakingAmount)))"

text \<open>\<open>tmpAddr\<close> is reused from one voter to the next: a short slice overwrites a prefix of it.\<close>

fun voter_keys :: "(address \<rightharpoonup> bytes32) \<Rightarrow> address \<Rightarrow> bytes list \<Rightarrow> bytes32 list" where
  "voter_keys m tmpAddr [] = []"
| "voter_keys m tmpAddr (c # cs) =
     (let tmpAddr = be_val (copy_to (be_bytes 20 tmpAddr) c)
      in (case m tmpAddr of None \<Rightarrow> [] | Some voter \<Rightarrow> [voter]) @ voter_keys m tmpAddr cs)"

definition key_of :: "(address \<rightharpoonup> bytes32) \<Rightarrow> address \<Rightarrow> bytes32" where
  "key_of m a = (case m a of None \<Rightarrow> 0 | Some k \<Rightarrow> k)"

definition SlashAndReward ::
  "('c, 'a) ext \<Rightarrow> 'c staking_state \<Rightarrow> address list \<Rightarrow> address \<Rightarrow> address \<Rightarrow> bytes list \<Rightarrow> u256 option \<Rightarrow>
   ((Validator list \<times> Validator list \<times> i64) \<times> 'c staking_state) option" where
  "SlashAndReward E s slashValidators currProposer lastProposer lastVoters blockReward = do {
     (stakingAcc, info) \<leftarrow> LoadStakingAccAndInfo E (ss_ctx s);
     let currIdx = ActiveIdx (si_Validators info) MinimumStakingAmount;
     let pubkeyMapByConsAddr = cons_map E (si_Validators info);
     (info, c) \<leftarrow> foldM (slash_step E pubkeyMapByConsAddr) (info, ss_ctx s) slashValidators;
     let voters = voter_keys pubkeyMapByConsAddr 0 lastVoters;
     (info, c) \<leftarrow> DistributeFee E c stakingAcc info blockReward (key_of pubkeyMapByConsAddr currProposer)
       (key_of pubkeyMapByConsAddr lastProposer) voters;
     let currValidators = map ((!) (si_Validators info)) currIdx;
     let newValidators = GetActiveValidators (si_Validators info) MinimumStakingAmount;
     Some ((currValidators, newValidators, si_CurrEpochNum info), SaveStakingInfo E (s\<lparr>ss_ctx := c\<rparr>) info) }"

subsection \<open>Booking rewards\<close>

definition pending_total :: "StakingInfo \<Rightarrow> nat" where
  "pending_total info = (\<Sum>pr\<leftarrow>si_PendingRewards info. unat (pr_Amount pr))"

definition map_ok :: "(address \<rightharpoonup> nat) \<Rightarrow> StakingInfo \<Rightarrow> bool" where
  "map_ok m info \<longleftrightarrow> (\<forall>a i. m a = Some i \<longrightarrow> i < length (si_PendingRewards info))"

text \<open>The power behind a public key, zero where there is no validator.\<close>

definition power_of :: "StakingInfo \<Rightarrow> bytes32 \<Rightarrow> nat" where
  "power_of info k = (case val_at info (GetValMapByPubkey info) k of None \<Rightarrow> 0 | Some v \<Rightarrow> unat (v_VotingPower v))"

text \<open>Between two contexts, \<open>b\<close> coins went from the contract to the black hole and nothing else happened.\<close>

definition burnt :: "('c, 'a) ext \<Rightarrow> 'c \<Rightarrow> 'c \<Rightarrow> nat \<Rightarrow> bool" where
  "burnt E c c' b \<longleftrightarrow> GetAccount E c' StakingContractAddress \<noteq> None \<and>
     unat (bal E c' StakingContractAddress) + b = unat (bal E c StakingContractAddress) \<and>
     unat (bal E c' (BlackHoleAddress E)) = unat (bal E c (BlackHoleAddress E)) + b \<and>
     (\<forall>a. a \<noteq> StakingContractAddress \<longrightarrow> a \<noteq> BlackHoleAddress E \<longrightarrow> bal E c' a = bal E c a) \<and>
     GetStorageAt E c' = GetStorageAt E c"

lemma curr_reward_map_less:
  "curr_reward_map ep i prs m a = Some j \<Longrightarrow> (\<And>b k. m b = Some k \<Longrightarrow> k < i + length prs) \<Longrightarrow> j < i + length prs"
proof (induction prs arbitrary: i m)
  case (Cons pr prs)
  let ?m = "if pr_EpochNum pr = ep then m(pr_Address pr \<mapsto> i) else m"
  have "j < Suc i + length prs"
    by (rule Cons.IH [of "Suc i" ?m]) (use Cons.prems in \<open>auto split: if_splits\<close>)
  then show ?case by simp
qed simp

lemma map_ok_GetCurrRewardMapByAddr: "map_ok (GetCurrRewardMapByAddr info) info"
  using curr_reward_map_less [of "si_CurrEpochNum info" 0 "si_PendingRewards info" Map.empty]
  by (auto simp: map_ok_def GetCurrRewardMapByAddr_def)

lemma distribute_keeps [simp]:
  "si_Validators (distributeToValidator m info coins v) = si_Validators info"
  "si_CurrEpochNum (distributeToValidator m info coins v) = si_CurrEpochNum info"
  "map_ok m info \<Longrightarrow> map_ok m (distributeToValidator m info coins v)"
  by (auto simp: distributeToValidator_def map_ok_def less_Suc_eq split: option.splits)

lemma distribute_total:
  assumes "map_ok m info" and "pending_total info + unat coins < 2 ^ 256"
  shows "pending_total (distributeToValidator m info coins v) = pending_total info + unat coins"
proof (cases "m (v_Address v)")
  case None
  then show ?thesis by (simp add: distributeToValidator_def pending_total_def)
next
  case (Some i)
  let ?prs = "si_PendingRewards info" and ?f = "\<lambda>pr. unat (pr_Amount pr)"
  have i: "i < length ?prs" using assms(1) Some by (simp add: map_ok_def)
  then have le: "?f (?prs ! i) \<le> sum_list (map ?f ?prs)" by (intro member_le_sum_list) auto
  then have "unat (pr_Amount (?prs ! i) + coins) = ?f (?prs ! i) + unat coins"
    using assms(2) by (intro unat_add_no_wrap) (simp add: pending_total_def)
  with i le Some show ?thesis
    by (simp add: distributeToValidator_def pending_total_def map_update sum_list_update)
qed

lemma val_at_cong: "si_Validators info = si_Validators info' \<Longrightarrow> val_at info m k = val_at info' m k"
  by (simp add: val_at_def)

lemma sum_list_div_le:
  "(\<Sum>v\<leftarrow>vs. f v div d) \<le> (\<Sum>v\<leftarrow>vs. f v) div (d :: nat)"
proof (induction vs)
  case (Cons v vs)
  have "f v div d + (\<Sum>v\<leftarrow>vs. f v) div d \<le> (f v + (\<Sum>v\<leftarrow>vs. f v)) div d"
    by (subst div_add1_eq [of "f v" "\<Sum>v\<leftarrow>vs. f v"]) (rule le_add1)
  with Cons show ?case by simp
qed simp

lemma unat_share:
  assumes "unat fee < 2 ^ 128"
  shows "unat (fee * ucast (p :: i64) div ucast (q :: i64) :: u256) = unat fee * unat p div unat q"
proof -
  have p: "unat (ucast p :: u256) = unat p" "unat (ucast q :: u256) = unat q" by (simp_all add: unat_ucast_up)
  have "unat fee * unat p < 2 ^ 128 * 2 ^ 64"
    using assms unat_lt [of p] by (intro mult_strict_mono) simp_all
  then have "unat (fee * ucast p) = unat fee * unat p"
    by (subst unat_mult_no_wrap) (simp_all add: p)
  then show ?thesis by (simp add: unat_div p)
qed

lemma voter_loop:
  assumes fee: "unat fee < 2 ^ 128"
    and "map_ok m info" and "\<forall>k \<in> set vs. val_at info vm k \<noteq> None"
    and "(\<Sum>k\<leftarrow>filter (\<lambda>k. k \<noteq> pr) vs. unat fee * unat (v_VotingPower (the (val_at info vm k))) div unat vp) \<le> unat rm"
    and "pending_total info + unat rm < 2 ^ 256"
  shows "\<exists>rm' info'. foldM (voter_step m vm pr fee vp) (rm, info) vs = Some (rm', info') \<and>
    pending_total info' + unat rm' = pending_total info + unat rm \<and> unat rm' \<le> unat rm \<and> map_ok m info' \<and>
    si_Validators info' = si_Validators info \<and> si_CurrEpochNum info' = si_CurrEpochNum info"
  using assms(2-)
proof (induction vs arbitrary: info rm)
  case Nil
  then show ?case by simp
next
  case (Cons k vs)
  show ?case
  proof (cases "pr = k")
    case True
    then show ?thesis using Cons.IH [of info rm] Cons.prems by (simp add: voter_step_def)
  next
    case False
    obtain v where v: "val_at info vm k = Some v" using Cons.prems(2) by auto
    let ?c = "fee * ucast (v_VotingPower v) div ucast vp"
    let ?info = "distributeToValidator m info ?c v"
    have c: "unat ?c = unat fee * unat (v_VotingPower v) div unat vp" by (rule unat_share [OF fee])
    then have le: "unat ?c \<le> unat rm" using Cons.prems(3) False v by simp
    then have rm: "unat (rm - ?c) = unat rm - unat ?c" by (simp add: unat_sub_le word_le_nat_alt)
    have tot: "pending_total ?info = pending_total info + unat ?c"
      using Cons.prems(1,4) le by (intro distribute_total) simp_all
    have same: "val_at ?info vm j = val_at info vm j" for j by (rule val_at_cong) simp
    have "\<exists>rm' info'. foldM (voter_step m vm pr fee vp) (rm - ?c, ?info) vs = Some (rm', info') \<and>
        pending_total info' + unat rm' = pending_total ?info + unat (rm - ?c) \<and> unat rm' \<le> unat (rm - ?c) \<and> map_ok m info' \<and>
        si_Validators info' = si_Validators ?info \<and> si_CurrEpochNum info' = si_CurrEpochNum ?info"
      by (rule Cons.IH) (use Cons.prems False v c rm tot same le in auto)
    moreover have "voter_step m vm pr fee vp (rm, info) k = Some (rm - ?c, ?info)"
      using False v by (simp add: voter_step_def Let_def)
    ultimately show ?thesis using tot rm le by fastforce
  qed
qed

lemma shares_le:
  assumes "unat vp = (\<Sum>k\<leftarrow>vs. f k)"
  shows "(\<Sum>k\<leftarrow>filter P vs. n * f k div unat vp) \<le> (n :: nat)"
proof -
  have "(\<Sum>k\<leftarrow>filter P vs. n * f k) = n * (\<Sum>k\<leftarrow>filter P vs. f k)"
    by (simp add: sum_list_const_mult)
  also have "\<dots> \<le> n * unat vp" unfolding assms by (intro mult_le_mono2) (induction vs, auto)
  finally have "(\<Sum>k\<leftarrow>filter P vs. n * f k) div unat vp \<le> n * unat vp div unat vp" by (rule div_le_mono)
  also have "\<dots> \<le> n" by simp
  finally show ?thesis using sum_list_div_le [of "\<lambda>k. n * f k" "unat vp" "filter P vs"] by simp
qed

lemma voted_power:
  assumes "\<forall>k \<in> set vs. val_at info vm k \<noteq> None"
  shows "foldM (\<lambda>p k. map_option (\<lambda>val. p + v_VotingPower val) (val_at info vm k)) p vs =
    Some (p + (\<Sum>k\<leftarrow>vs. v_VotingPower (the (val_at info vm k))))"
  using assms by (induction vs arbitrary: p) (auto simp: algebra_simps)

lemma split_fee_parts:
  assumes "split_fee fee vp tp = (base, coll, rest)" and "unat fee < 2 ^ 128"
    and "100 * unat tp < 2 ^ 64" and "15 * unat vp \<le> 100 * unat tp"
  shows "unat base + unat coll + unat rest = unat fee"
proof -
  have base_def: "base = fee * 15 div 100"
    and coll_def: "coll = (fee - base) * 15 * ucast vp div ucast (100 * tp)" and rest: "rest = fee - base - coll"
    using assms(1) by (auto simp: split_fee_def Let_def ProposerBaseMintFeePercentage_def CollectorMintFeePercentage_def)
  have base: "unat base = unat fee * 15 div 100"
    using assms(2) unfolding base_def by (subst unat_div, subst unat_mult_no_wrap) simp_all
  then have le1: "unat base \<le> unat fee" by simp
  then have f1: "unat (fee - base) = unat fee - unat base" by (simp add: unat_sub_le word_le_nat_alt)
  let ?f = "unat fee - unat base"
  have f1_15: "unat ((fee - base) * 15) = ?f * 15"
    using assms(2) f1 by (subst unat_mult_no_wrap) simp_all
  have "?f * 15 * unat vp < 2 ^ 132 * 2 ^ 64"
    using assms(2) unat_lt [of vp] by (intro mult_strict_mono) simp_all
  moreover have vp: "unat (ucast vp :: u256) = unat vp" by (simp add: unat_ucast_up)
  ultimately have "unat ((fee - base) * 15) * unat (ucast vp :: u256) < 2 ^ LENGTH(256)"
    unfolding f1_15 by simp
  from unat_mult_no_wrap [OF this] have num: "unat ((fee - base) * 15 * ucast vp) = ?f * 15 * unat vp"
    unfolding f1_15 vp .
  have den: "unat (ucast (100 * tp) :: u256) = 100 * unat tp"
    using assms(3) by (simp add: unat_ucast_up) (simp add: unat_mult_no_wrap)
  have coll: "unat coll = ?f * 15 * unat vp div (100 * unat tp)"
    unfolding coll_def by (simp only: unat_div num den)
  have "?f * 15 * unat vp div (100 * unat tp) \<le> ?f"
  proof (cases "unat tp = 0")
    case False
    have "?f * 15 * unat vp \<le> ?f * (100 * unat tp)" using assms(4) by simp
    then have "?f * 15 * unat vp div (100 * unat tp) \<le> ?f * (100 * unat tp) div (100 * unat tp)" by (rule div_le_mono)
    with False show ?thesis by simp
  qed simp
  then have "unat rest = ?f - unat coll" and "unat coll \<le> ?f"
    using coll f1 unfolding rest by (simp_all add: unat_sub_le word_le_nat_alt)
  then show ?thesis using le1 by simp
qed

subsection \<open>The distribution as a whole\<close>

context chain_bank
begin

lemma burnt_refl: "GetAccount E c StakingContractAddress \<noteq> None \<Longrightarrow> burnt E c c 0"
  by (simp add: burnt_def)

lemma burnt_more:
  assumes b: "burnt E c c' b" and hole: "StakingContractAddress \<noteq> BlackHoleAddress E"
    and enough: "b + unat v \<le> unat (bal E c StakingContractAddress)"
    and room: "unat (bal E c (BlackHoleAddress E)) + b + unat v < 2 ^ 256"
  shows "burnt E c (TransferFromSenderAccToBlackHoleAcc E c' StakingContractAddress v) (b + unat v)"
proof -
  let ?S = StakingContractAddress and ?d = "TransferFromSenderAccToBlackHoleAcc E c' StakingContractAddress v"
  obtain x where x: "GetAccount E c' ?S = Some x" using b by (auto simp: burnt_def)
  then have bx: "bal E c' ?S = Balance E x" by (simp add: bal_def)
  have le: "unat v \<le> unat (Balance E x)" using b enough by (simp add: burnt_def bx)
  then have v: "v \<le> Balance E x" by (simp add: word_le_nat_alt)
  note new = burn_account [OF x v hole]
  have "unat (bal E ?d ?S) + (b + unat v) = unat (bal E c ?S)"
    using b le v by (simp add: new burnt_def bx unat_sub_le)
  moreover have "unat (bal E ?d (BlackHoleAddress E)) = unat (bal E c (BlackHoleAddress E)) + (b + unat v)"
    using b room hole by (simp add: new burnt_def unat_add_no_wrap)
  moreover have "GetAccount E ?d ?S \<noteq> None" using burn_exists [of c' ?S v] x by simp
  moreover have "GetStorageAt E ?d = GetStorageAt E c" using b by (auto simp: burnt_def burn_storage fun_eq_iff)
  ultimately show ?thesis using b new by (auto simp: burnt_def)
qed

text \<open>The last two steps have one shape: pay the validator behind a key, or burn where there is none.\<close>

lemma pay_or_burn:
  assumes b: "burnt E c0 c b" and hole: "StakingContractAddress \<noteq> BlackHoleAddress E" and m: "map_ok m info"
    and key: "key \<noteq> 0 \<Longrightarrow> val_at info vm key \<noteq> None"
    and enough: "b + unat x \<le> unat (bal E c0 StakingContractAddress)"
    and room: "unat (bal E c0 (BlackHoleAddress E)) + b + unat x < 2 ^ 256" "pending_total info + unat x < 2 ^ 256"
  shows "\<exists>info' c' b'. (if key \<noteq> 0 then do { v \<leftarrow> val_at info vm key; Some (distributeToValidator m info x v, c) }
      else if x \<noteq> 0 then Some (info, TransferFromSenderAccToBlackHoleAcc E c StakingContractAddress x)
      else Some (info, c)) = Some (info', c') \<and>
    burnt E c0 c' b' \<and> b \<le> b' \<and> b' \<le> b + unat x \<and> pending_total info' + b' = pending_total info + b + unat x \<and>
    map_ok m info' \<and> si_Validators info' = si_Validators info \<and> si_CurrEpochNum info' = si_CurrEpochNum info"
proof (cases "key = 0")
  case True
  moreover have "burnt E c0 (TransferFromSenderAccToBlackHoleAcc E c StakingContractAddress x) (b + unat x)"
    by (rule burnt_more [OF b hole enough room(1)])
  ultimately show ?thesis
    using b m by (cases "x = 0") (auto intro!: exI [of _ "b + unat x"])
next
  case False
  then obtain v where "val_at info vm key = Some v" using key by auto
  then show ?thesis
    using False b m distribute_total [OF m room(2)] by (auto intro!: exI [of _ b])
qed

lemma voters_paid:
  fixes info :: StakingInfo
  assumes keys: "\<forall>k \<in> set voters. val_at info vm k \<noteq> None"
    and "unat fee < 2 ^ 128" and "pending_total info + unat fee < 2 ^ 256"
    and vp: "unat vp = (\<Sum>k\<leftarrow>voters. unat (v_VotingPower (the (val_at info vm k))))"
  shows "\<exists>rm info'. foldM (voter_step (GetCurrRewardMapByAddr info) vm proposer fee vp) (fee, info) voters = Some (rm, info') \<and>
    pending_total info' + unat rm = pending_total info + unat fee \<and> unat rm \<le> unat fee \<and>
    map_ok (GetCurrRewardMapByAddr info) info' \<and> si_Validators info' = si_Validators info \<and>
    si_CurrEpochNum info' = si_CurrEpochNum info"
  by (rule voter_loop [OF assms(2) map_ok_GetCurrRewardMapByAddr keys shares_le [OF vp] assms(3)])

lemma DistributeFee_books:
  fixes info :: StakingInfo
  assumes hole: "StakingContractAddress \<noteq> BlackHoleAddress E"
    and keys: "\<forall>k \<in> set voters. val_at info (GetValMapByPubkey info) k \<noteq> None"
      "proposer \<noteq> 0 \<Longrightarrow> val_at info (GetValMapByPubkey info) proposer \<noteq> None"
      "collector \<noteq> 0 \<Longrightarrow> val_at info (GetValMapByPubkey info) collector \<noteq> None"
    and fee: "unat fee < 2 ^ 128" and pend: "pending_total info + unat fee < 2 ^ 256"
    and room: "unat (Balance E acc) + unat fee < 2 ^ 256" "unat (bal E c (BlackHoleAddress E)) + unat fee < 2 ^ 256"
    and voted: "(\<Sum>k\<leftarrow>voters. power_of info k) < 2 ^ 64"
    and active: "100 * (\<Sum>v\<leftarrow>GetActiveValidators (si_Validators info) MinimumStakingAmount. unat (v_VotingPower v)) < 2 ^ 64"
    and quorum: "15 * (\<Sum>k\<leftarrow>voters. power_of info k) \<le>
      100 * (\<Sum>v\<leftarrow>GetActiveValidators (si_Validators info) MinimumStakingAmount. unat (v_VotingPower v))"
  shows "\<exists>info' c' b. DistributeFee E c acc info (Some fee) collector proposer voters = Some (info', c') \<and>
    burnt E (SetAccount E c StakingContractAddress (UpdateBalance E acc (Balance E acc + fee))) c' b \<and>
    pending_total info' + b = pending_total info + unat fee \<and> unat fee div 2 \<le> b \<and>
    si_Validators info' = si_Validators info \<and> si_CurrEpochNum info' = si_CurrEpochNum info"
proof -
  let ?S = StakingContractAddress and ?m = "GetCurrRewardMapByAddr info" and ?vm = "GetValMapByPubkey info"
  let ?act = "GetActiveValidators (si_Validators info) MinimumStakingAmount"
  define c1 half vp tp where defs: "c1 = SetAccount E c ?S (UpdateBalance E acc (Balance E acc + fee))" "half = drop_bit 1 fee"
    "vp = (\<Sum>k\<leftarrow>voters. v_VotingPower (the (val_at info ?vm k)))" "tp = sum_list (map v_VotingPower ?act)"
  define c2 where "c2 = TransferFromSenderAccToBlackHoleAcc E c1 ?S half"
  obtain base coll rest where parts: "(if proposer \<noteq> 0 then split_fee (fee - half) vp tp else (0, 0, fee - half)) = (base, coll, rest)"
    by (metis prod_cases3)
  have half: "unat half = unat fee div 2" by (simp add: defs(2) drop_bit_eq_div unat_div)
  then have f': "unat (fee - half) = unat fee - unat half" by (simp add: unat_sub_le word_le_nat_alt)
  have Vs: "(\<Sum>k\<leftarrow>voters. power_of info k) = (\<Sum>k\<leftarrow>voters. unat (v_VotingPower (the (val_at info ?vm k))))"
    using keys(1) by (intro arg_cong [where f = sum_list] map_cong) (auto simp: power_of_def split: option.splits)
  have V: "unat vp = (\<Sum>k\<leftarrow>voters. unat (v_VotingPower (the (val_at info ?vm k))))"
    unfolding defs(3) using voted unfolding Vs by (intro unat_sum_list) simp
  have T: "unat tp = (\<Sum>v\<leftarrow>?act. unat (v_VotingPower v))"
    unfolding defs(4) using active by (intro unat_sum_list) simp
  have sum: "unat base + unat coll + unat rest + unat half = unat fee"
    using split_fee_parts [of "fee - half" vp tp base coll rest] parts fee active quorum V [folded Vs] T f' half
    by (cases "proposer = 0") auto
  have c1: "unat (bal E c1 ?S) = unat (Balance E acc) + unat fee" "bal E c1 (BlackHoleAddress E) = bal E c (BlackHoleAddress E)"
    using room(1) hole by (simp_all add: defs(1) balance_update unat_add_no_wrap)
  have "burnt E c1 c1 0" by (rule burnt_refl) (simp add: defs(1) get_set_account)
  from burnt_more [OF this hole, of half] have b2: "burnt E c1 c2 (unat half)"
    using c1 room half by (simp add: c2_def)
  from voters_paid [OF keys(1) _ _ V, of rest proposer] obtain rm info1 where
    info1: "foldM (voter_step ?m ?vm proposer rest vp) (rest, info) voters = Some (rm, info1)"
      "pending_total info1 + unat rm = pending_total info + unat rest" "unat rm \<le> unat rest" "map_ok ?m info1"
      "si_Validators info1 = si_Validators info" "si_CurrEpochNum info1 = si_CurrEpochNum info"
    using fee pend sum by auto
  have same1: "val_at info1 ?vm k = val_at info ?vm k" for k by (rule val_at_cong [OF info1(5)])
  have x: "unat (base + rm) = unat base + unat rm" using sum info1(3) fee by (intro unat_add_no_wrap) simp
  from pay_or_burn [OF b2 hole info1(4), of proposer ?vm "base + rm"] obtain info2 c3 b where
    step2: "(if proposer \<noteq> 0 then do { v \<leftarrow> val_at info1 ?vm proposer; Some (distributeToValidator ?m info1 (base + rm) v, c2) }
      else if base + rm \<noteq> 0 then Some (info1, TransferFromSenderAccToBlackHoleAcc E c2 ?S (base + rm))
      else Some (info1, c2)) = Some (info2, c3)"
    and b: "burnt E c1 c3 b" "unat half \<le> b" "b \<le> unat half + unat (base + rm)"
      "pending_total info2 + b = pending_total info1 + unat half + unat (base + rm)" "map_ok ?m info2"
      "si_Validators info2 = si_Validators info1" "si_CurrEpochNum info2 = si_CurrEpochNum info1"
    using keys(2) same1 x sum info1(2,3) c1 room pend by fastforce
  have same2: "val_at info2 ?vm k = val_at info ?vm k" for k using val_at_cong [OF b(6)] same1 by simp
  from pay_or_burn [OF b(1) hole b(5), of collector ?vm coll] obtain info3 c4 b' where
    step3: "(if collector \<noteq> 0 then do { v \<leftarrow> val_at info2 ?vm collector; Some (distributeToValidator ?m info2 coll v, c3) }
      else if coll \<noteq> 0 then Some (info2, TransferFromSenderAccToBlackHoleAcc E c3 ?S coll)
      else Some (info2, c3)) = Some (info3, c4)"
    and b': "burnt E c1 c4 b'" "b \<le> b'" "pending_total info3 + b' = pending_total info2 + b + unat coll"
      "si_Validators info3 = si_Validators info2" "si_CurrEpochNum info3 = si_CurrEpochNum info2"
    using keys(3) same2 x sum info1(2,3) b(2-4) c1 room pend by fastforce
  have vpE: "foldM (\<lambda>p voter. map_option (\<lambda>v. p + v_VotingPower v) (val_at info ?vm voter)) 0 voters = Some vp"
    using voted_power [of voters info ?vm 0] keys(1) by (simp add: defs(3))
  have "base = 0" if "proposer = 0" using that parts by simp
  then have step2': "(if proposer \<noteq> 0 then do { v \<leftarrow> val_at info1 ?vm proposer; Some (distributeToValidator ?m info1 (base + rm) v, c2) }
      else if rm \<noteq> 0 then Some (info1, TransferFromSenderAccToBlackHoleAcc E c2 ?S rm) else Some (info1, c2)) = Some (info2, c3)"
    using step2 by (cases "proposer = 0"; cases "rm = 0") simp_all
  have "DistributeFee E c acc info (Some fee) collector proposer voters = Some (info3, c4)"
    unfolding DistributeFee_def Let_def option.case defs(1) [symmetric] defs(2) [symmetric] c2_def [symmetric]
      defs(4) [symmetric] vpE bind.bind_lunit parts prod.case info1(1) step2' step3 ..
  then show ?thesis
    using b' b x sum half info1 unfolding defs(1) by (intro exI [of _ info3] exI [of _ c4] exI [of _ b']) simp
qed

end

lemma active_power_le:
  "(\<Sum>v\<leftarrow>GetActiveValidators vals m. unat (v_VotingPower v)) \<le> (\<Sum>v\<leftarrow>vals. unat (v_VotingPower v))"
proof -
  let ?f = "\<lambda>v. unat (v_VotingPower v)" and ?s = "sort_key (\<lambda>v. - sint (v_VotingPower v)) (filter (is_active m) vals)"
  have "sum_list (map ?f (take n ?s)) \<le> sum_list (map ?f ?s)" for n
  proof -
    have "map ?f ?s = map ?f (take n ?s) @ map ?f (drop n ?s)" by (simp flip: map_append)
    then have "sum_list (map ?f ?s) = sum_list (map ?f (take n ?s)) + sum_list (map ?f (drop n ?s))"
      by (simp only: sum_list_append)
    then show ?thesis by simp
  qed
  also have "sum_list (map ?f ?s) = sum_list (map ?f (filter (is_active m) vals))"
    by (simp only: sum_mset_sum_list [symmetric] mset_map mset_sort)
  also have "\<dots> \<le> sum_list (map ?f vals)" by (induction vals) auto
  finally show ?thesis unfolding GetActiveValidators_eq .
qed

subsection \<open>Slashing\<close>

lemma clear_rewards_sum:
  assumes "clear_rewards ep addr prs = (cleared, rwds)" and "pending_of addr prs < 2 ^ 256"
  shows "(\<Sum>pr\<leftarrow>rwds. unat (pr_Amount pr)) + unat cleared = (\<Sum>pr\<leftarrow>prs. unat (pr_Amount pr))"
  using assms
proof (induction prs arbitrary: cleared rwds)
  case (Cons pr prs)
  obtain c rs where rec: "clear_rewards ep addr prs = (c, rs)" by fastforce
  have small: "pending_of addr prs < 2 ^ 256" using Cons.prems(2) by simp
  have "unat c = pending_of addr prs" using clear_rewards_total [OF rec small] by simp
  with Cons.IH [OF rec small] Cons.prems rec show ?case
    by (auto simp: unat_add_no_wrap split: if_splits)
qed simp

lemma liabilities_slash:
  assumes v: "GetValidatorByPubkey info pubkey = Some v" and "n \<le> v_StakedCoins v"
  shows "liabilities (info\<lparr>si_Validators := upd_first (\<lambda>v. v_Pubkey v = pubkey)
      (\<lambda>w. w\<lparr>v_StakedCoins := v_StakedCoins v - n\<rparr>) (si_Validators info)\<rparr>) + unat n = liabilities info"
proof -
  let ?h = "\<lambda>v. unat (v_StakedCoins v)"
  have "sum_list (map ?h (upd_first (\<lambda>v. v_Pubkey v = pubkey) (\<lambda>w. w\<lparr>v_StakedCoins := v_StakedCoins v - n\<rparr>)
      (si_Validators info))) + ?h v = sum_list (map ?h (si_Validators info)) + unat (v_StakedCoins v - n)"
    using sum_list_upd_first [of "\<lambda>v. v_Pubkey v = pubkey" "si_Validators info" v ?h
        "\<lambda>w. w\<lparr>v_StakedCoins := v_StakedCoins v - n\<rparr>"] v by (simp add: GetValidatorByPubkey_def)
  moreover have "unat (v_StakedCoins v - n) + unat n = ?h v"
    using assms(2) by (simp add: unat_sub_le word_le_nat_alt)
  ultimately show ?thesis by (simp add: liabilities_def)
qed

text \<open>What the code takes from a validator: the stake up to the amount, and all pending rewards.\<close>

definition slashable :: "StakingInfo \<Rightarrow> Validator \<Rightarrow> u256 \<Rightarrow> nat" where
  "slashable info v amount = min (unat amount) (unat (v_StakedCoins v)) + pending_of (v_Address v) (si_PendingRewards info)"

lemma pending_of_le: "pending_of a prs \<le> (\<Sum>pr\<leftarrow>prs. unat (pr_Amount pr))"
  by (induction prs) auto

context chain_bank
begin

lemma Slash_takes:
  assumes v: "GetValidatorByPubkey info pubkey = Some v" and hole: "StakingContractAddress \<noteq> BlackHoleAddress E"
    and acc: "GetAccount E c StakingContractAddress \<noteq> None"
    and solvent: "liabilities info \<le> unat (bal E c StakingContractAddress)"
    and room: "unat (bal E c (BlackHoleAddress E)) + slashable info v amount < 2 ^ 256"
    and slot: "slot_bytes E c SlotAllBurnt \<in> {[], be_bytes 32 n}"
  shows "\<exists>t info' c' d. Slash E c info pubkey amount = Some (Some t, info', c') \<and>
    unat t = slashable info v amount \<and> liabilities info' + unat t = liabilities info \<and>
    map v_VotingPower (si_Validators info') = map v_VotingPower (si_Validators info) \<and>
    burnt E c d (unat t) \<and> GetAccount E c' = GetAccount E d \<and>
    slot_bytes E c' SlotAllBurnt = be_bytes 32 ((if slot_bytes E c SlotAllBurnt = [] then 0 else n) + t)"
proof -
  let ?S = StakingContractAddress and ?a = "v_Address v"
  define k where "k = (if v_StakedCoins v < amount then v_StakedCoins v else amount)"
  have k: "k \<le> v_StakedCoins v" "unat k = min (unat amount) (unat (v_StakedCoins v))"
    by (auto simp: k_def word_le_nat_alt word_less_nat_alt)
  define info1 where "info1 = info\<lparr>si_Validators := upd_first (\<lambda>v. v_Pubkey v = pubkey)
      (\<lambda>w. w\<lparr>v_StakedCoins := v_StakedCoins v - k\<rparr>) (si_Validators info)\<rparr>"
  obtain cl rs where cl: "clear_rewards (si_CurrEpochNum info) ?a (si_PendingRewards info) = (cl, rs)" by fastforce
  define info2 where "info2 = info1\<lparr>si_PendingRewards := rs\<rparr>"
  have pend: "pending_of ?a (si_PendingRewards info) < 2 ^ 256"
    using room by (simp add: slashable_def)
  have clu: "unat cl = pending_of ?a (si_PendingRewards info)" using clear_rewards_total [OF cl pend] by simp
  have t: "unat (k + cl) = slashable info v amount"
    using room k(2) clu by (subst unat_add_no_wrap) (simp_all add: slashable_def)
  have "liabilities info1 + unat k = liabilities info"
    unfolding info1_def by (rule liabilities_slash [OF v k(1)])
  moreover have "liabilities info2 + unat cl = liabilities info1"
    using clear_rewards_sum [OF cl pend] by (simp add: liabilities_def info2_def info1_def)
  ultimately have owed: "liabilities info2 + unat (k + cl) = liabilities info"
    using t k(2) clu by (simp add: slashable_def)
  have b: "burnt E c (TransferFromSenderAccToBlackHoleAcc E c ?S (k + cl)) (unat (k + cl))"
    using burnt_more [OF burnt_refl [OF acc] hole, of "k + cl"] owed solvent room t by simp
  let ?d = "TransferFromSenderAccToBlackHoleAcc E c ?S (k + cl)"
  have slot_d: "slot_bytes E ?d SlotAllBurnt = slot_bytes E c SlotAllBurnt"
    by (simp add: slot_bytes_def burn_storage)
  let ?n = "if slot_bytes E c SlotAllBurnt = [] then 0 else n"
  let ?c = "SetStorageAt E ?d StakingContractSequence SlotAllBurnt (be_bytes 32 (?n + (k + cl)))"
  have incr: "incrAllBurnt E ?d (k + cl) = Some ?c"
    using slot by (auto simp: incrAllBurnt_def slot_d Let_def)
  have sl: "(if v_StakedCoins v < amount then (v_StakedCoins v, 0) else (amount, v_StakedCoins v - amount)) = (k, v_StakedCoins v - k)"
    by (simp add: k_def)
  have cro: "ClearRewardsOf info1 ?a = (cl, info2)"
    using cl by (simp add: ClearRewardsOf_def info1_def info2_def)
  have "Slash E c info pubkey amount = Some (Some (k + cl), info2, ?c)"
    unfolding Slash_def v option.case Let_def sl prod.case info1_def [symmetric] cro incr bind.bind_lunit ..
  moreover have "GetAccount E ?c = GetAccount E ?d" by (auto simp: account_set_storage)
  moreover have "slot_bytes E ?c SlotAllBurnt = be_bytes 32 (?n + (k + cl))" by (simp add: slot_bytes_set)
  moreover have "map v_VotingPower (si_Validators info2) = map v_VotingPower (si_Validators info)"
    by (simp add: info2_def info1_def upd_first_map_id)
  ultimately show ?thesis using t owed b by blast
qed

lemma DistributeFee_total:
  fixes info :: StakingInfo
  assumes hole: "StakingContractAddress \<noteq> BlackHoleAddress E"
    and keys: "\<forall>k \<in> set voters. val_at info (GetValMapByPubkey info) k \<noteq> None"
      "proposer = 0 \<or> val_at info (GetValMapByPubkey info) proposer \<noteq> None"
      "collector = 0 \<or> val_at info (GetValMapByPubkey info) collector \<noteq> None"
    and fee: "unat fee < 2 ^ 128" and pend: "pending_total info + unat fee < 2 ^ 256"
    and room: "unat (Balance E acc) + unat fee < 2 ^ 256" "unat (bal E c (BlackHoleAddress E)) + unat fee < 2 ^ 256"
    and power: "(\<Sum>k\<leftarrow>voters. power_of info k) < 2 ^ 64"
      "100 * (\<Sum>v\<leftarrow>GetActiveValidators (si_Validators info) MinimumStakingAmount. unat (v_VotingPower v)) < 2 ^ 64"
      "15 * (\<Sum>k\<leftarrow>voters. power_of info k) \<le>
      100 * (\<Sum>v\<leftarrow>GetActiveValidators (si_Validators info) MinimumStakingAmount. unat (v_VotingPower v))"
  shows "\<exists>info' c' b. DistributeFee E c acc info (Some fee) collector proposer voters = Some (info', c') \<and>
    pending_total info' + b = pending_total info + unat fee \<and> unat fee div 2 \<le> b \<and>
    unat (bal E c' StakingContractAddress) + b = unat (Balance E acc) + unat fee \<and>
    unat (bal E c' (BlackHoleAddress E)) = unat (bal E c (BlackHoleAddress E)) + b \<and>
    si_Validators info' = si_Validators info"
proof -
  have keys': "proposer \<noteq> 0 \<Longrightarrow> val_at info (GetValMapByPubkey info) proposer \<noteq> None"
    "collector \<noteq> 0 \<Longrightarrow> val_at info (GetValMapByPubkey info) collector \<noteq> None" using keys(2,3) by auto
  from DistributeFee_books [OF hole keys(1) keys' fee pend room power] obtain info' c' b where
    r: "DistributeFee E c acc info (Some fee) collector proposer voters = Some (info', c')"
    and b: "burnt E (SetAccount E c StakingContractAddress (UpdateBalance E acc (Balance E acc + fee))) c' b"
    and s: "pending_total info' + b = pending_total info + unat fee" "unat fee div 2 \<le> b" "si_Validators info' = si_Validators info"
    by blast
  have "unat (Balance E acc + fee) = unat (Balance E acc) + unat fee" using room(1) by (simp add: unat_add_no_wrap)
  then have "unat (bal E c' StakingContractAddress) + b = unat (Balance E acc) + unat fee"
    "unat (bal E c' (BlackHoleAddress E)) = unat (bal E c (BlackHoleAddress E)) + b"
    using b hole by (simp_all add: burnt_def balance_update)
  with r s show ?thesis by blast
qed

lemma SlashAndReward_total:
  fixes info1 :: StakingInfo
  assumes load: "LoadStakingAccAndInfo E (ss_ctx s) = Some (acc, info)"
    and slash: "foldM (slash_step E (cons_map E (si_Validators info))) (info, ss_ctx s) slashed = Some (info1, c1)"
    and fee: "DistributeFee E c1 acc info1 fee (key_of (cons_map E (si_Validators info)) currProposer)
      (key_of (cons_map E (si_Validators info)) lastProposer) (voter_keys (cons_map E (si_Validators info)) 0 lastVoters) = Some (info2, c2)"
  shows "\<exists>r s'. SlashAndReward E s slashed currProposer lastProposer lastVoters fee = Some (r, s') \<and> bal E (ss_ctx s') = bal E c2"
  unfolding SlashAndReward_def load slash fee Let_def bind.bind_lunit prod.case by simp

end

subsection \<open>Properties\<close>

text \<open>Seven validators with one vote each, all but the first retiring, for the examples.\<close>

definition retired_info :: StakingInfo where
  "retired_info = zero_StakingInfo\<lparr>si_CurrEpochNum := 3, si_Validators := [sample_validator 1 1,
     (sample_validator 2 1)\<lparr>v_IsRetiring := True\<rparr>, (sample_validator 3 1)\<lparr>v_IsRetiring := True\<rparr>,
     (sample_validator 4 1)\<lparr>v_IsRetiring := True\<rparr>, (sample_validator 5 1)\<lparr>v_IsRetiring := True\<rparr>,
     (sample_validator 6 1)\<lparr>v_IsRetiring := True\<rparr>, (sample_validator 7 1)\<lparr>v_IsRetiring := True\<rparr>]\<rparr>"


lemma sample_active: "GetActiveValidators (si_Validators sample_info) MinimumStakingAmount = si_Validators sample_info"
  by code_simp

lemma sample_val_at:
  "val_at sample_info (GetValMapByPubkey sample_info) 1 = Some (sample_validator 1 1)"
  "val_at sample_info (GetValMapByPubkey sample_info) 2 = Some (sample_validator 2 1)"
  by (simp_all add: val_at_def GetValMapByPubkey_def sample_info_def sample_validator_def)

lemma mem_chain_bank: "chain_bank mem_ext"
  by unfold_locales


text \<open>
  slashing takes from a validator its stake up to the given amount and every pending
  reward, lowers what the contract owes by exactly what it takes, burns that amount from the
  contract's account to the black hole and adds it to the counter of all burnt coins.
\<close>

theorem Slash_conserves:
  assumes "chain_bank E" and "GetValidatorByPubkey info pubkey = Some v"
    and "StakingContractAddress \<noteq> BlackHoleAddress E" and "GetAccount E c StakingContractAddress \<noteq> None"
    and "liabilities info \<le> unat (bal E c StakingContractAddress)"
    and "unat (bal E c (BlackHoleAddress E)) + slashable info v amount < 2 ^ 256"
    and "slot_bytes E c SlotAllBurnt \<in> {[], be_bytes 32 n}"
  shows "\<exists>t info' c' d. Slash E c info pubkey amount = Some (Some t, info', c') \<and>
    unat t = slashable info v amount \<and> liabilities info' + unat t = liabilities info \<and>
    map v_VotingPower (si_Validators info') = map v_VotingPower (si_Validators info) \<and>
    burnt E c d (unat t) \<and> GetAccount E c' = GetAccount E d \<and>
    slot_bytes E c' SlotAllBurnt = be_bytes 32 ((if slot_bytes E c SlotAllBurnt = [] then 0 else n) + t)"
  by (rule chain_bank.Slash_takes [OF assms])

lemma sample_slash_facts:
  "GetValidatorByPubkey sample_info 1 = Some (sample_validator 1 1)"
  "StakingContractAddress \<noteq> BlackHoleAddress mem_ext"
  "liabilities sample_info \<le> unat (bal mem_ext (ss_ctx sample_state) StakingContractAddress)"
  "bal mem_ext (ss_ctx sample_state) (BlackHoleAddress mem_ext) = 0"
  "slashable sample_info (sample_validator 1 1) amt \<le> 1042"
  "slot_bytes mem_ext (ss_ctx sample_state) SlotAllBurnt = []"
proof -
  show "liabilities sample_info \<le> unat (bal mem_ext (ss_ctx sample_state) StakingContractAddress)"
    using sample_state_accounts(1) by (simp add: bal_def liabilities_def sample_info_def sample_validator_def) (simp add: mem_ext_def)
  show "bal mem_ext (ss_ctx sample_state) (BlackHoleAddress mem_ext) = 0"
    by (simp add: sample_state_def SaveStakingInfo_def mem_state_def mem_ext_def StakingContractAddress_def bal_def mem_empty_def)
  show "slashable sample_info (sample_validator 1 1) amt \<le> 1042"
    by (simp add: slashable_def sample_info_def sample_validator_def)
  show "slot_bytes mem_ext (ss_ctx sample_state) SlotAllBurnt = []"
    by (simp add: sample_state_def SaveStakingInfo_def mem_state_def mem_ext_def slot_bytes_def mem_empty_def slot_defs)
qed (simp_all add: GetValidatorByPubkey_def sample_info_def sample_validator_def StakingContractAddress_def mem_ext_def)

theorem Slash_conserves_witness:
  "\<exists>t info' c'. Slash mem_ext (ss_ctx sample_state) sample_info 1 900 = Some (Some t, info', c') \<and> unat t = 942"
proof -
  have "slashable sample_info (sample_validator 1 1) 900 = 942"
    by (simp add: slashable_def sample_info_def sample_validator_def)
  then show ?thesis
    using Slash_conserves [OF mem_chain_bank sample_slash_facts(1,2) _ sample_slash_facts(3), of 900 0]
      sample_slash_facts(4,6) sample_state_accounts(1) by auto
qed

text \<open>
  in \<open>SlashAndReward\<close> the contract's balance after the block is computed from the
  account as it was before slashing: whatever was slashed and burnt in between is given back
  to the contract, while the black hole keeps it too.
\<close>

theorem SlashAndReward_restores_slashed:
  assumes "chain_bank E" and "StakingContractAddress \<noteq> BlackHoleAddress E"
    and "LoadStakingAccAndInfo E (ss_ctx s) = Some (acc, info)"
    and "m = cons_map E (si_Validators info)" and "voters = voter_keys m 0 lastVoters"
    and "collector = key_of m currProposer" and "proposer = key_of m lastProposer"
    and "foldM (slash_step E m) (info, ss_ctx s) slashed = Some (info1, c1)"
    and "\<forall>k \<in> set voters. val_at info1 (GetValMapByPubkey info1) k \<noteq> None"
    and "proposer = 0 \<or> val_at info1 (GetValMapByPubkey info1) proposer \<noteq> None"
    and "collector = 0 \<or> val_at info1 (GetValMapByPubkey info1) collector \<noteq> None"
    and "unat fee < 2 ^ 128" and "pending_total info1 + unat fee < 2 ^ 256"
    and "unat (Balance E acc) + unat fee < 2 ^ 256" and "unat (bal E c1 (BlackHoleAddress E)) + unat fee < 2 ^ 256"
    and "(\<Sum>k\<leftarrow>voters. power_of info1 k) < 2 ^ 64"
    and "100 * (\<Sum>v\<leftarrow>GetActiveValidators (si_Validators info1) MinimumStakingAmount. unat (v_VotingPower v)) < 2 ^ 64"
    and "15 * (\<Sum>k\<leftarrow>voters. power_of info1 k) \<le>
      100 * (\<Sum>v\<leftarrow>GetActiveValidators (si_Validators info1) MinimumStakingAmount. unat (v_VotingPower v))"
  shows "\<exists>r s' b. SlashAndReward E s slashed currProposer lastProposer lastVoters (Some fee) = Some (r, s') \<and>
     unat (bal E (ss_ctx s') StakingContractAddress) + b = unat (bal E (ss_ctx s) StakingContractAddress) + unat fee \<and>
     unat (bal E (ss_ctx s') (BlackHoleAddress E)) = unat (bal E c1 (BlackHoleAddress E)) + b"
proof -
  from chain_bank.DistributeFee_total [OF assms(1,2,9-18)] obtain info2 c2 b where
    d: "DistributeFee E c1 acc info1 (Some fee) collector proposer voters = Some (info2, c2)"
    and b: "unat (bal E c2 StakingContractAddress) + b = unat (Balance E acc) + unat fee"
      "unat (bal E c2 (BlackHoleAddress E)) = unat (bal E c1 (BlackHoleAddress E)) + b" by blast
  have acc: "unat (Balance E acc) = unat (bal E (ss_ctx s) StakingContractAddress)"
    using assms(3) by (auto simp: LoadStakingAccAndInfo_def bal_def split: bind_splits)
  from chain_bank.SlashAndReward_total [OF assms(1,3) assms(8) [unfolded assms(4)] d [unfolded assms(4-7)]]
  obtain r s' where "SlashAndReward E s slashed currProposer lastProposer lastVoters (Some fee) = Some (r, s')"
    "bal E (ss_ctx s') = bal E c2" by blast
  with b acc show ?thesis by metis
qed

theorem SlashAndReward_restores_slashed_witness:
  "\<exists>r s' b. SlashAndReward mem_ext sample_state [1] 99 99 [] (Some 100) = Some (r, s') \<and>
     unat (bal mem_ext (ss_ctx s') StakingContractAddress) + b = 5000 + 100 \<and>
     unat (bal mem_ext (ss_ctx s') (BlackHoleAddress mem_ext)) = 42 + b"
proof -
  let ?m = "cons_map mem_ext (si_Validators sample_info)" and ?c = "ss_ctx sample_state"
  have load: "LoadStakingAccAndInfo mem_ext ?c = Some (\<lparr>ma_Balance = 5000, ma_Sequence = 0\<rparr>, sample_info)"
    using sample_state_inv sample_state_accounts(1) by (simp add: contract_inv_def LoadStakingAccAndInfo_def)
  have m: "?m 1 = Some 1" "?m 99 = None"
    by (simp_all add: cons_map_def sample_info_def sample_validator_def mem_ext_def)
  have sl: "slashable sample_info (sample_validator 1 1) SlashedStakingAmount = 42"
    by (simp add: slashable_def sample_info_def sample_validator_def SlashedStakingAmount_def)
  from mem.Slash_takes [OF sample_slash_facts(1,2) _ sample_slash_facts(3), of SlashedStakingAmount 0]
  obtain t info1 c1 d where slash: "Slash mem_ext ?c sample_info 1 SlashedStakingAmount = Some (Some t, info1, c1)"
    and t: "unat t = 42" "liabilities info1 + 42 = liabilities sample_info" "burnt mem_ext ?c d 42" "GetAccount mem_ext c1 = GetAccount mem_ext d"
      "map v_VotingPower (si_Validators info1) = map v_VotingPower (si_Validators sample_info)"
    using sample_slash_facts(4,6) sample_state_accounts(1) by (auto simp: sl [simplified])
  have fold: "foldM (slash_step mem_ext ?m) (sample_info, ?c) [1] = Some (info1, c1)"
    by (simp add: slash_step_def m slash)
  have "bal mem_ext c1 (BlackHoleAddress mem_ext) = bal mem_ext d (BlackHoleAddress mem_ext)"
    using t(4) by (simp add: bal_def)
  then have hole: "unat (bal mem_ext c1 (BlackHoleAddress mem_ext)) = 42"
    using t(3) sample_slash_facts(4) by (simp add: burnt_def)
  have "liabilities sample_info < 3000" by (simp add: liabilities_def sample_info_def sample_validator_def)
  then have pend: "pending_total info1 < 3000" using t(2) by (simp add: liabilities_def pending_total_def)
  have "(\<Sum>p\<leftarrow>map v_VotingPower (si_Validators info1). unat p) = 2"
    unfolding t(5) by (simp add: sample_info_def sample_validator_def)
  then have act: "(\<Sum>v\<leftarrow>GetActiveValidators (si_Validators info1) MinimumStakingAmount. unat (v_VotingPower v)) \<le> 2"
    using active_power_le [of "si_Validators info1" MinimumStakingAmount] by (simp add: comp_def)
  have bal: "Balance mem_ext \<lparr>ma_Balance = 5000, ma_Sequence = 0\<rparr> = 5000"
    "unat (bal mem_ext ?c StakingContractAddress) = 5000"
    using sample_state_accounts(1) by (simp_all add: bal_def) (simp_all add: mem_ext_def)
  show ?thesis
    using SlashAndReward_restores_slashed [OF mem_chain_bank sample_slash_facts(2) load refl refl refl refl fold, of "[]" 99 99 100]
    using m hole pend act bal by (simp add: key_of_def)
qed

text \<open>
  with seven validators of equal power of which six have just retired, the collector's
  share exceeds what is left of the fee, the subtraction wraps around and \<open>DistributeFee\<close>
  books more than \<open>2^250\<close> coins out of a fee of 2000.
\<close>

theorem DistributeFee_overdraws:
  "\<exists>info c. DistributeFee mem_ext mem_empty \<lparr>ma_Balance = 5000, ma_Sequence = 0\<rparr> retired_info
      (Some 2000) 1 1 [1, 2, 3, 4, 5, 6, 7] = Some (info, c) \<and> pending_total info > 2 ^ 250"
proof -
  have vm: "GetValMapByPubkey retired_info = [7 \<mapsto> 6, 6 \<mapsto> 5, 5 \<mapsto> 4, 4 \<mapsto> 3, 3 \<mapsto> 2, 2 \<mapsto> 1, 1 \<mapsto> 0]"
    by (auto simp: GetValMapByPubkey_def retired_info_def sample_validator_def)
  have act: "GetActiveValidators (si_Validators retired_info) MinimumStakingAmount = [sample_validator 1 1]"
    unfolding GetActiveValidators_eq
    by (simp add: retired_info_def is_active_def sample_validator_def MinimumStakingAmount_def MaxActiveValidatorCount_def)
  have split: "split_fee 1000 7 1 = (150, 892, - 42)"
    by (simp add: split_fee_def Let_def ProposerBaseMintFeePercentage_def CollectorMintFeePercentage_def)
  show ?thesis
    unfolding DistributeFee_def option.case Let_def act vm
    by (simp add: split val_at_def retired_info_def zero_StakingInfo_def sample_validator_def voter_step_def Let_def
        GetCurrRewardMapByAddr_def distributeToValidator_def pending_total_def)
qed

end
