(* ===== verification/Go_Heap.thy ===== *)
theory Go_Heap
  imports Go_Prelude
begin

text \<open>
  The binary heap of Go's standard library (\<open>container/heap\<close>) over a slice, as the staking
  code uses it to select validators: \<open>heap_Init\<close>, \<open>heap_Pop\<close> and the sift-down both are
  built on. \<open>lt\<close> is the method \<open>Less\<close> of the slice's type, on elements. The locale
  \<open>heap_order\<close> states what \<open>Less\<close> has to satisfy (a strict weak order); inside it, popping
  is shown to deliver the smallest elements in order.
\<close>

definition heap_child :: "('a \<Rightarrow> 'a \<Rightarrow> bool) \<Rightarrow> nat \<Rightarrow> nat \<Rightarrow> 'a list \<Rightarrow> nat" where
  "heap_child lt n i h =
     (let j1 = 2 * i + 1 in if j1 + 1 < n \<and> lt (h ! (j1 + 1)) (h ! j1) then j1 + 1 else j1)"

lemma heap_child_bounds: "Suc (2 * i) < n \<Longrightarrow> i < heap_child lt n i h \<and> heap_child lt n i h < n"
  by (auto simp: heap_child_def Let_def)

function heap_down :: "('a \<Rightarrow> 'a \<Rightarrow> bool) \<Rightarrow> nat \<Rightarrow> nat \<Rightarrow> 'a list \<Rightarrow> 'a list" where
  "heap_down lt n i h =
     (if 2 * i + 1 \<ge> n then h
      else if \<not> lt (h ! heap_child lt n i h) (h ! i) then h
      else heap_down lt n (heap_child lt n i h)
        (h[i := h ! heap_child lt n i h, heap_child lt n i h := h ! i]))"
  by pat_completeness auto
termination
  by (relation "measure (\<lambda>(lt, n, i, h). n - i)") (auto simp: not_le dest!: heap_child_bounds intro: diff_less_mono2 less_trans)

declare heap_down.simps [simp del]

definition heap_Init :: "('a \<Rightarrow> 'a \<Rightarrow> bool) \<Rightarrow> 'a list \<Rightarrow> 'a list" where
  "heap_Init lt h = foldl (\<lambda>h i. heap_down lt (length h) i h) h (rev [0..<length h div 2])"

text \<open>The callers pop non-empty heaps only.\<close>

definition heap_Pop :: "('a \<Rightarrow> 'a \<Rightarrow> bool) \<Rightarrow> 'a list \<Rightarrow> 'a \<times> 'a list" where
  "heap_Pop lt h =
     (let n = length h - 1;
          h = h[0 := h ! n, n := h ! 0];
          h = heap_down lt n 0 h
      in (h ! n, take n h))"

text \<open>\<open>for i := 0; i < k && len(h) > 0; i++ { ... heap.Pop(&h) ... }\<close>\<close>

fun heap_PopN :: "('a \<Rightarrow> 'a \<Rightarrow> bool) \<Rightarrow> nat \<Rightarrow> 'a list \<Rightarrow> 'a list" where
  "heap_PopN lt 0 h = []"
| "heap_PopN lt (Suc k) h =
     (if h = [] then [] else let (x, h) = heap_Pop lt h in x # heap_PopN lt k h)"

text \<open>
  Every node from \<open>k\<close> on is ordered with its children below \<open>n\<close>; the node \<open>i\<close> may be out
  of order with its own children, which are then in order with its parent.
\<close>

definition heap_above :: "('a \<Rightarrow> 'a \<Rightarrow> bool) \<Rightarrow> nat \<Rightarrow> nat \<Rightarrow> 'a list \<Rightarrow> bool" where
  "heap_above lt k n h \<longleftrightarrow> (\<forall>j. 0 < j \<longrightarrow> j < n \<longrightarrow> k \<le> (j - 1) div 2 \<longrightarrow> \<not> lt (h ! j) (h ! ((j - 1) div 2)))"

definition heap_except :: "('a \<Rightarrow> 'a \<Rightarrow> bool) \<Rightarrow> nat \<Rightarrow> nat \<Rightarrow> nat \<Rightarrow> 'a list \<Rightarrow> bool" where
  "heap_except lt k n i h \<longleftrightarrow>
     (\<forall>j. 0 < j \<longrightarrow> j < n \<longrightarrow> k \<le> (j - 1) div 2 \<longrightarrow> (j - 1) div 2 \<noteq> i \<longrightarrow> \<not> lt (h ! j) (h ! ((j - 1) div 2))) \<and>
     (\<forall>j. 0 < j \<longrightarrow> j < n \<longrightarrow> (j - 1) div 2 = i \<longrightarrow> 0 < i \<longrightarrow> k \<le> (i - 1) div 2 \<longrightarrow> \<not> lt (h ! j) (h ! ((i - 1) div 2)))"

subsection \<open>Sifting keeps the elements\<close>

lemma heap_down_perm:
  "n \<le> length h \<Longrightarrow> mset (heap_down lt n i h) = mset h \<and> length (heap_down lt n i h) = length h \<and>
    drop n (heap_down lt n i h) = drop n h"
proof (induction lt n i h rule: heap_down.induct)
  case (1 lt n i h)
  let ?j = "heap_child lt n i h"
  show ?case
  proof (cases "2 * i + 1 < n \<and> lt (h ! ?j) (h ! i)")
    case True
    then have j: "i < ?j" "?j < n" using heap_child_bounds by auto
    have "mset (h[i := h ! ?j, ?j := h ! i]) = mset h"
      using j 1(2) by (intro mset_swap) simp_all
    with 1 True j show ?thesis by (subst (1 2 3) heap_down.simps) simp
  next
    case False
    then show ?thesis by (subst (1 2 3) heap_down.simps) auto
  qed
qed

lemma length_heap_down [simp]: "n \<le> length h \<Longrightarrow> length (heap_down lt n i h) = length h"
  using heap_down_perm by blast

lemma heap_Init_perm: "mset (heap_Init lt h) = mset h \<and> length (heap_Init lt h) = length h"
proof -
  have "mset (foldl (\<lambda>h i. heap_down lt (length h) i h) h idx) = mset h \<and>
      length (foldl (\<lambda>h i. heap_down lt (length h) i h) h idx) = length h" for idx
    by (induction idx arbitrary: h) (use heap_down_perm [OF order_refl] in auto)
  then show ?thesis by (simp add: heap_Init_def)
qed

subsection \<open>The order of a heap\<close>

locale heap_order =
  fixes lt :: "'a \<Rightarrow> 'a \<Rightarrow> bool"
  assumes asym: "lt a b \<Longrightarrow> \<not> lt b a"
    and neg_trans: "\<not> lt a b \<Longrightarrow> \<not> lt b c \<Longrightarrow> \<not> lt a c"
begin

lemma irrefl: "\<not> lt a a"
  using asym by blast

lemma child_least:
  assumes "2 * i + 1 < n" and "0 < j" and "j < n" and "(j - 1) div 2 = i"
  shows "\<not> lt (h ! j) (h ! heap_child lt n i h)"
proof -
  have "j = 2 * i + 1 \<or> j = 2 * i + 1 + 1" using assms(2,4) by linarith
  then show ?thesis using assms(3) irrefl asym by (auto simp: heap_child_def Let_def)
qed

lemma heap_down_above:
  assumes "heap_except lt k n i h" and "k \<le> i" and "n \<le> length h"
  shows "heap_above lt k n (heap_down lt n i h)"
  using assms
proof (induction "n - i" arbitrary: i h rule: less_induct)
  case less
  let ?j = "heap_child lt n i h"
  let ?h = "h[i := h ! ?j, ?j := h ! i]"
  note exc = less.prems(1) [unfolded heap_except_def]
  show ?case
  proof (cases "2 * i + 1 < n \<and> lt (h ! ?j) (h ! i)")
    case True
    then have j: "i < ?j" "?j < n" "(?j - 1) div 2 = i" "0 < ?j"
      using heap_child_bounds [of i n lt h] by (auto simp: heap_child_def Let_def)
    have at: "?h ! x = (if x = ?j then h ! i else if x = i then h ! ?j else h ! x)" for x
      using j less.prems(3) by (auto simp: nth_list_update)
    have "heap_except lt k n ?j ?h"
      unfolding heap_except_def
    proof (intro conjI allI impI)
      fix l assume l: "0 < l" "l < n" "k \<le> (l - 1) div 2" "(l - 1) div 2 \<noteq> ?j"
      show "\<not> lt (?h ! l) (?h ! ((l - 1) div 2))"
      proof (cases "(l - 1) div 2 = i")
        case parent: True
        then have "i < l" using l(1) by linarith
        with parent show ?thesis
          using child_least [OF _ l(1,2) parent] True asym j at l by (auto simp: at)
      next
        case parent: False
        then have "l \<noteq> ?j" using j by auto
        then show ?thesis
          using parent l exc j by (cases "l = i") (auto simp: at)
      qed
    next
      fix l assume l: "0 < l" "l < n" "(l - 1) div 2 = ?j" "0 < ?j" "k \<le> (?j - 1) div 2"
      then have "?j < l" by linarith
      moreover have "\<not> lt (h ! l) (h ! ((l - 1) div 2))"
      proof (rule exc [THEN conjunct1, rule_format, OF l(1,2)])
        show "k \<le> (l - 1) div 2" using l(3) j(1) less.prems(2) by linarith
        show "(l - 1) div 2 \<noteq> i" using l(3) j(1) by linarith
      qed
      ultimately show "\<not> lt (?h ! l) (?h ! ((?j - 1) div 2))"
        using l j by (simp add: at)
    qed
    then have "heap_above lt k n (heap_down lt n ?j ?h)"
      using less.prems j by (intro less.hyps) simp_all
    with True show ?thesis by (subst heap_down.simps) simp
  next
    case False
    then have "heap_down lt n i h = h" by (subst heap_down.simps) auto
    moreover have "heap_above lt k n h"
      unfolding heap_above_def
    proof (intro allI impI)
      fix l assume l: "0 < l" "l < n" "k \<le> (l - 1) div 2"
      show "\<not> lt (h ! l) (h ! ((l - 1) div 2))"
      proof (cases "(l - 1) div 2 = i")
        case True
        then have "2 * i + 1 < n" using l by linarith
        then have "\<not> lt (h ! l) (h ! ?j)" "\<not> lt (h ! ?j) (h ! i)"
          using child_least [OF _ l(1,2) True] False by auto
        then show ?thesis using neg_trans True by blast
      next
        case other: False
        then show ?thesis using exc l by blast
      qed
    qed
    ultimately show ?thesis by simp
  qed
qed

lemma heap_Init_above: "heap_above lt 0 (length h) (heap_Init lt h)"
proof -
  let ?n = "length h"
  have "heap_above lt 0 ?n (foldl (\<lambda>h i. heap_down lt (length h) i h) g (rev [0..<k]))"
    if "heap_above lt k ?n g" "length g = ?n" for g k
    using that
  proof (induction k arbitrary: g)
    case (Suc k)
    have "heap_except lt k ?n k g"
      using Suc.prems(1) by (auto simp: heap_except_def heap_above_def)
    then have "heap_above lt k ?n (heap_down lt ?n k g)"
      using Suc.prems(2) by (intro heap_down_above) simp_all
    then show ?case using Suc.IH [of "heap_down lt ?n k g"] Suc.prems(2) by simp
  qed simp
  moreover have "heap_above lt (?n div 2) ?n h"
    unfolding heap_above_def by (intro allI impI) linarith
  ultimately show ?thesis by (simp add: heap_Init_def)
qed

lemma heap_root_least:
  assumes "heap_above lt 0 n h" and "j < n"
  shows "\<not> lt (h ! j) (h ! 0)"
  using assms(2)
proof (induction j rule: less_induct)
  case (less j)
  show ?case
  proof (cases "j = 0")
    case True
    then show ?thesis by (simp add: irrefl)
  next
    case False
    then have "(j - 1) div 2 < j" by linarith
    then have "\<not> lt (h ! ((j - 1) div 2)) (h ! 0)" using less by simp
    moreover have "\<not> lt (h ! j) (h ! ((j - 1) div 2))" using assms(1) less.prems False by (simp add: heap_above_def)
    ultimately show ?thesis using neg_trans by blast
  qed
qed

lemma heap_Pop_least:
  assumes heap: "heap_above lt 0 (length h) h" and "h \<noteq> []" and pop: "heap_Pop lt h = (x, g)"
  shows "mset h = add_mset x (mset g)" and "heap_above lt 0 (length g) g" and "\<forall>y \<in> set g. \<not> lt y x"
proof -
  let ?n = "length h - 1"
  let ?s = "h[0 := h ! ?n, ?n := h ! 0]"
  let ?d = "heap_down lt ?n 0 ?s"
  have n: "?n < length h" "0 < length h" using assms(2) by simp_all
  have x: "x = ?d ! ?n" and g: "g = take ?n ?d" using pop by (simp_all add: heap_Pop_def Let_def)
  have d: "mset ?d = mset h" "length ?d = length h" "drop ?n ?d = drop ?n ?s"
    using heap_down_perm [of ?n ?s lt 0] n mset_swap [of ?n h 0] by (auto simp: mset_swap)
  have at: "?s ! j = (if j = ?n then h ! 0 else if j = 0 then h ! ?n else h ! j)" for j
    using n by (auto simp: nth_list_update)
  have "?d ! ?n = ?s ! ?n" using d(2,3) n by (metis Cons_nth_drop_Suc length_list_update list.inject)
  then have x0: "x = h ! 0" using at [of ?n] x by simp
  have gx: "g @ [x] = ?d" using d(2) n by (simp add: g x take_Suc_conv_app_nth [symmetric])
  then have m: "mset h = mset (g @ [x])" using d(1) by simp
  then show "mset h = add_mset x (mset g)" by simp
  have "heap_except lt 0 ?n 0 ?s"
    using heap unfolding heap_except_def heap_above_def by (auto simp: at)
  then have above: "heap_above lt 0 ?n ?d" using n by (intro heap_down_above) simp_all
  have "length g = ?n" using d(2) by (simp add: g)
  with above show "heap_above lt 0 (length g) g" by (auto simp: heap_above_def g)
  show "\<forall>y \<in> set g. \<not> lt y x"
  proof
    fix y assume "y \<in> set g"
    then have "y \<in> set h" using m by (metis in_set_conv_decomp mset_eq_setD Un_iff set_append)
    then obtain j where "j < length h" "y = h ! j" by (auto simp: in_set_conv_nth)
    then show "\<not> lt y x" using heap_root_least [OF heap] x0 by simp
  qed
qed

text \<open>Popping \<open>k\<close> times: the \<open>k\<close> smallest elements in order, the others not below them.\<close>

lemma heap_PopN_smallest:
  assumes "heap_above lt 0 (length h) h"
  shows "\<exists>rest. mset h = mset (heap_PopN lt k h) + mset rest \<and> length (heap_PopN lt k h) = min k (length h) \<and>
    sorted_wrt (\<lambda>a b. \<not> lt b a) (heap_PopN lt k h) \<and> (\<forall>a \<in> set (heap_PopN lt k h). \<forall>b \<in> set rest. \<not> lt b a)"
  using assms
proof (induction k arbitrary: h)
  case 0
  then show ?case by (intro exI [of _ h]) simp
next
  case (Suc k)
  show ?case
  proof (cases "h = []")
    case True
    then show ?thesis by simp
  next
    case False
    obtain x g where pop: "heap_Pop lt h = (x, g)" by fastforce
    note least = heap_Pop_least [OF Suc.prems False pop]
    have len: "length h = Suc (length g)" using least(1) by (metis size_add_mset size_mset)
    from Suc.IH [OF least(2)] obtain rest where rest: "mset g = mset (heap_PopN lt k g) + mset rest"
      "length (heap_PopN lt k g) = min k (length g)" "sorted_wrt (\<lambda>a b. \<not> lt b a) (heap_PopN lt k g)"
      "\<forall>a \<in> set (heap_PopN lt k g). \<forall>b \<in> set rest. \<not> lt b a" by blast
    have "set g = set (heap_PopN lt k g) \<union> set rest" using rest(1) by (metis set_mset_mset set_mset_union)
    then show ?thesis
      using rest least(1,3) False pop len by (intro exI [of _ rest]) auto
  qed
qed

end

text \<open>With a total order the popped sequence depends on the elements only, not on their arrangement.\<close>

locale heap_total = heap_order lt for lt :: "'a \<Rightarrow> 'a \<Rightarrow> bool" +
  assumes total: "a \<noteq> b \<Longrightarrow> lt a b \<or> lt b a"
begin

lemma heap_PopN_cong:
  assumes "heap_above lt 0 (length h) h" and "heap_above lt 0 (length h') h'" and "mset h = mset h'"
  shows "heap_PopN lt k h = heap_PopN lt k h'"
  using assms
proof (induction k arbitrary: h h')
  case (Suc k)
  show ?case
  proof (cases "h = []")
    case True
    then show ?thesis using Suc.prems(3) by simp
  next
    case False
    then have ne: "h' \<noteq> []" using Suc.prems(3) by auto
    obtain x g where pop: "heap_Pop lt h = (x, g)" by fastforce
    obtain y g' where pop': "heap_Pop lt h' = (y, g')" by fastforce
    note least = heap_Pop_least [OF Suc.prems(1) False pop]
    note least' = heap_Pop_least [OF Suc.prems(2) ne pop']
    have split: "add_mset x (mset g) = add_mset y (mset g')" using least(1) least'(1) Suc.prems(3) by simp
    then have "x = y \<or> x \<in> set g' \<and> y \<in> set g" by (metis insert_noteq_member set_mset_mset)
    then have "x = y" using total least(3) least'(3) by blast
    with split have "mset g = mset g'" by simp
    with Suc.IH [OF least(2) least'(2)] \<open>x = y\<close> show ?thesis by (simp add: False ne pop pop')
  qed
qed simp

lemma heap_select_cong:
  assumes "mset h = mset h'"
  shows "heap_PopN lt k (heap_Init lt h) = heap_PopN lt k (heap_Init lt h')"
  using assms heap_Init_above [of h] heap_Init_above [of h'] heap_Init_perm [of lt h] heap_Init_perm [of lt h']
  by (intro heap_PopN_cong) simp_all

end

end
