(* ===== verification/Go_Int64.thy ===== *)
theory Go_Int64
  imports Go_Prelude
begin

text \<open>
  Signed 64-bit arithmetic (Go's \<open>int64\<close>, and \<open>int\<close> on the supported platforms): the
  conditions under which the operations do not wrap around, and the binary search of the
  package \<open>sort\<close>, which the block processing uses.
\<close>

named_theorems go_signed \<open>signed operations that do not wrap around\<close>

lemma sint_range: "- (2 ^ 63) \<le> sint (a :: i64)" "sint (a :: i64) < 2 ^ 63"
  using sint_ge [of a] sint_lt [of a] by simp_all

lemma signed_take_bit_63: "- (2 ^ 63) \<le> k \<Longrightarrow> k < 2 ^ 63 \<Longrightarrow> signed_take_bit 63 k = (k :: int)"
  by (rule signed_take_bit_int_eq_self) simp_all

lemma sint_add_no_wrap [go_signed]:
  "- (2 ^ 63) \<le> sint a + sint b \<Longrightarrow> sint a + sint b < 2 ^ 63 \<Longrightarrow> sint (a + b :: i64) = sint a + sint b"
  by (simp add: sint_word_add signed_take_bit_63)

lemma sint_diff_no_wrap [go_signed]:
  "- (2 ^ 63) \<le> sint a - sint b \<Longrightarrow> sint a - sint b < 2 ^ 63 \<Longrightarrow> sint (a - b :: i64) = sint a - sint b"
  by (simp add: sint_word_diff signed_take_bit_63)

lemma sint_mult_no_wrap [go_signed]:
  "- (2 ^ 63) \<le> sint a * sint b \<Longrightarrow> sint a * sint b < 2 ^ 63 \<Longrightarrow> sint (a * b :: i64) = sint a * sint b"
  by (simp add: sint_word_mult signed_take_bit_63)

lemma sint_one [simp]: "sint (1 :: i64) = 1"
  by (simp add: sint_word_01)

lemma sint_dec: "0 < sint (x :: i64) \<Longrightarrow> sint (x - 1) = sint x - 1"
  using sint_range [of x] by (simp add: sint_diff_no_wrap)

lemma sint_inc: "sint (x :: i64) < 2 ^ 63 - 1 \<Longrightarrow> sint (x + 1) = sint x + 1"
  using sint_range [of x] by (simp add: sint_add_no_wrap)

lemma sint_of_nat_small [go_signed]: "n < 2 ^ 63 \<Longrightarrow> sint (of_nat n :: i64) = int n"
  by (simp add: signed_of_nat signed_take_bit_63)

lemma sint_eq_iff: "sint a = sint b \<longleftrightarrow> a = (b :: 'w::len word)"
  by (auto intro: signed_word_eqI)

lemma sint_eq_unat: "unat (a :: i64) < 2 ^ 63 \<Longrightarrow> sint a = int (unat a)"
  using sint_of_nat_small [of "unat a"] by simp

lemma uint_eq_sint: "0 \<le> sint (a :: i64) \<Longrightarrow> uint a = sint a"
  using sint_range [of a] by (simp add: uint_sint take_bit_int_eq_self)

lemma sint_nonneg_iff: "0 \<le> sint (a :: i64) \<longleftrightarrow> unat a < 2 ^ 63"
proof
  assume "0 \<le> sint a"
  then have "int (unat a) < 2 ^ 63" using uint_eq_sint [of a] sint_range [of a] by simp
  then show "unat a < 2 ^ 63" by (simp only: of_nat_less_numeral_power_cancel_iff)
qed (simp add: sint_eq_unat)

lemma unat_dec: "(x :: u64) \<noteq> 0 \<Longrightarrow> unat (x - 1) < unat x"
  by (metis unat_minus_one unat_eq_zero diff_less zero_less_one neq0_conv)

lemma le_iff_sint: "0 \<le> sint a \<Longrightarrow> 0 \<le> sint b \<Longrightarrow> (a :: i64) \<le> b \<longleftrightarrow> sint a \<le> sint b"
  by (simp add: word_le_def uint_eq_sint)

subsection \<open>Binary search\<close>

text \<open>\<open>sort.Search\<close>: the smallest index for which a monotone predicate holds; the predicate may panic.\<close>

function sort_Search :: "(nat \<Rightarrow> bool option) \<Rightarrow> nat \<Rightarrow> nat \<Rightarrow> nat option" where
  "sort_Search f i j =
     (if i < j then do {
        let h = (i + j) div 2;
        b \<leftarrow> f h;
        if b then sort_Search f i h else sort_Search f (h + 1) j }
      else Some i)"
  by pat_completeness auto
termination by (relation "measure (\<lambda>(f, i, j). j - i)") auto

declare sort_Search.simps [simp del]

text \<open>Without any monotonicity the search ends at a boundary of the predicate.\<close>

lemma sort_Search_boundary:
  assumes "\<And>k. i \<le> k \<Longrightarrow> k < j \<Longrightarrow> f k \<noteq> None" and "i \<le> j"
  shows "\<exists>r. sort_Search f i j = Some r \<and> i \<le> r \<and> r \<le> j \<and>
    (r < j \<longrightarrow> f r = Some True) \<and> (i < r \<longrightarrow> f (r - 1) = Some False)"
  using assms
proof (induction f i j rule: sort_Search.induct)
  case (1 f i j)
  show ?case
  proof (cases "i < j")
    case True
    let ?h = "(i + j) div 2"
    have h: "i \<le> ?h" "?h < j" using True by auto
    then obtain b where b: "f ?h = Some b" using "1.prems"(1) [of ?h] by auto
    have pre1: "f k \<noteq> None" if "i \<le> k" "k < ?h" for k using "1.prems"(1) [of k] that h by simp
    have pre2: "f k \<noteq> None" if "?h + 1 \<le> k" "k < j" for k using "1.prems"(1) [of k] that h by simp
    show ?thesis
    proof (cases b)
      case True
      obtain r where "sort_Search f i ?h = Some r" "i \<le> r" "r \<le> ?h" "r < ?h \<longrightarrow> f r = Some True" "i < r \<longrightarrow> f (r - 1) = Some False"
        using "1.IH"(1) [OF \<open>i < j\<close> refl b True pre1] h(1) by blast
      then show ?thesis using b True h \<open>i < j\<close> by (subst sort_Search.simps) (cases "r = ?h", auto simp: Let_def)
    next
      case False
      obtain r where "sort_Search f (?h + 1) j = Some r" "?h + 1 \<le> r" "r \<le> j" "r < j \<longrightarrow> f r = Some True"
          "?h + 1 < r \<longrightarrow> f (r - 1) = Some False"
        using "1.IH"(2) [OF \<open>i < j\<close> refl b False pre2] h(2) by auto
      then show ?thesis using b False h \<open>i < j\<close> by (subst sort_Search.simps) (cases "r = ?h + 1", auto simp: Let_def)
    qed
  qed (use "1.prems" in \<open>auto simp: sort_Search.simps\<close>)
qed

end
