(* ===== verification/Staking_Epoch.thy ===== *)
theory Staking_Epoch
  imports Staking_Rewards Go_Heap Go_Int64
begin

text \<open>
  Switching epochs (\<open>src/staking/staking.go\<close>, \<open>SwitchEpoch\<close> and what it calls) and the
  proof-of-stake votes kept by the XHedge contract (\<open>src/staking/xhedge.go\<close>).

  Four of the loops range over a Go map. The record \<open>iters\<close> holds the order each of them
  uses; that the outcome does not depend on it is what keeps the nodes in consensus.
  \<open>getPubkey2Power\<close> writes through the pointers in \<open>epoch.Nominations\<close>, so the epoch is
  part of its result.
\<close>

record iters =
  it_posVotes :: "bytes32 iter"
  it_validVotes :: "bytes32 iter"
  it_pubkey2power :: "bytes32 iter"
  it_rewardMap :: "address iter"
  it_useless :: "address iter"

definition iters_ok :: "iters \<Rightarrow> bool" where
  "iters_ok I \<longleftrightarrow> is_iter (it_posVotes I) \<and> is_iter (it_validVotes I) \<and> is_iter (it_pubkey2power I) \<and>
     is_iter (it_rewardMap I) \<and> is_iter (it_useless I)"

text \<open>One payment out of the staking balance: the account of the receiver is created where it is missing.\<close>

definition pay_step :: "('c, 'a) ext \<Rightarrow> 'c \<times> u256 \<Rightarrow> address \<times> u256 \<Rightarrow> 'c \<times> u256" where
  "pay_step E st p = (case st of (c, stakingAccBalance) \<Rightarrow> case p of (addr, rwd) \<Rightarrow>
     let acc = (case GetAccount E c addr of None \<Rightarrow> ZeroAccountInfo E | Some acc \<Rightarrow> acc)
     in (SetAccount E c addr (UpdateBalance E acc (Balance E acc + rwd)), stakingAccBalance - rwd))"

subsection \<open>Delivering rewards\<close>

definition reward_step ::
  "StakingInfo \<Rightarrow> (address \<rightharpoonup> nat) \<Rightarrow> PendingReward list \<times> (address \<times> u256) list \<Rightarrow> PendingReward \<Rightarrow>
   (PendingReward list \<times> (address \<times> u256) list) option" where
  "reward_step info valMapByAddr st pr = (case st of (newPRList, rewardMap) \<Rightarrow>
     if sint (pr_EpochNum pr) \<ge> sint (si_CurrEpochNum info - EpochCountBeforeRewardMature)
     then Some (newPRList @ [pr], rewardMap)
     else do {
       i \<leftarrow> valMapByAddr (pr_Address pr);
       let rewardTo = v_RewardTo (si_Validators info ! i);
       let sofar = (case map_of rewardMap rewardTo of None \<Rightarrow> 0 | Some r \<Rightarrow> r);
       Some (newPRList, AList.update rewardTo (sofar + pr_Amount pr) rewardMap) })"

definition deliverMintRewardInEpoch ::
  "('c, 'a) ext \<Rightarrow> address iter \<Rightarrow> 'c \<Rightarrow> 'a \<Rightarrow> StakingInfo \<Rightarrow> ('c \<times> 'a \<times> StakingInfo) option" where
  "deliverMintRewardInEpoch E it c stakingAcc info = do {
     (newPRList, rewardMap) \<leftarrow> foldM (reward_step info (GetValMapByAddr info)) ([], []) (si_PendingRewards info);
     let (c, stakingAccBalance) = foldl (pay_step E) (c, Balance E stakingAcc)
       (map (\<lambda>addr. (addr, the (map_of rewardMap addr))) (it (map fst rewardMap)));
     Some (c, UpdateBalance E stakingAcc stakingAccBalance, info\<lparr>si_PendingRewards := newPRList\<rparr>) }"

subsection \<open>Electing validators\<close>

definition validatorSet :: "StakingInfo \<Rightarrow> bytes32 \<Rightarrow> bool" where
  "validatorSet info pubkey \<longleftrightarrow> (\<exists>val \<in> set (si_Validators info). \<not> v_IsRetiring val \<and> v_Pubkey val = pubkey)"

text \<open>Turn block counts into coin days; the division panics when nothing was voted on chain.\<close>

definition to_coindays :: "i64 \<Rightarrow> i64 \<Rightarrow> Nomination \<Rightarrow> Nomination option" where
  "to_coindays totalValidCoinDays totalVotedBlocks n = do {
     count \<leftarrow> sdiv64 (totalValidCoinDays * n_NominatedCount n) totalVotedBlocks;
     Some (n\<lparr>n_NominatedCount := count\<rparr>) }"

fun scale_nominations :: "StakingInfo \<Rightarrow> i64 \<Rightarrow> i64 \<Rightarrow> Nomination list \<Rightarrow> Nomination list option" where
  "scale_nominations info coinDays blocks [] = Some []"
| "scale_nominations info coinDays blocks (n # ns) = do {
     n \<leftarrow> (if validatorSet info (n_Pubkey n) then to_coindays coinDays blocks n else Some n);
     ns \<leftarrow> scale_nominations info coinDays blocks ns;
     Some (n # ns) }"

definition vote_step :: "(bytes32 \<times> i64) list \<Rightarrow> Nomination \<Rightarrow> (bytes32 \<times> i64) list" where
  "vote_step validVotes n =
     (let coindays = (case map_of validVotes (n_Pubkey n) of None \<Rightarrow> 0 | Some d \<Rightarrow> d)
      in AList.update (n_Pubkey n) (coindays + n_NominatedCount n) validVotes)"

definition getPubkey2Power ::
  "iters \<Rightarrow> StakingInfo \<Rightarrow> Epoch \<Rightarrow> (bytes32 \<times> i64) list \<Rightarrow> (i64 \<times> (bytes32 \<times> i64) list \<times> Epoch) option" where
  "getPubkey2Power I info epoch posVotes = do {
     let valid = filter (\<lambda>n. validatorSet info (n_Pubkey n)) (e_Nominations epoch);
     let totalVotedBlocks = sum_list (map n_NominatedCount valid);
     let powTotalNomination = sum_list (map n_NominatedCount valid);
     let validVotes = map (\<lambda>pubkey. (pubkey, the (map_of posVotes pubkey)))
       (filter (validatorSet info) (it_posVotes I (map fst posVotes)));
     let totalValidCoinDays = sum_list (map snd validVotes);
     nominations \<leftarrow> (if sint totalValidCoinDays > 0
       then scale_nominations info totalValidCoinDays totalVotedBlocks (e_Nominations epoch)
       else Some (e_Nominations epoch));
     let validVotes = foldl vote_step validVotes (filter (\<lambda>n. validatorSet info (n_Pubkey n)) nominations);
     let validNominations = map (\<lambda>pubkey. \<lparr>n_Pubkey = pubkey, n_NominatedCount = the (map_of validVotes pubkey)\<rparr>)
       (it_validVotes I (map fst validVotes));
     let pubkey2power = map (\<lambda>n. (n_Pubkey n, 1))
       (heap_PopN nomination_less MaxActiveValidatorCount (heap_Init nomination_less validNominations));
     Some (powTotalNomination, pubkey2power, epoch\<lparr>e_Nominations := nominations\<rparr>) }"

definition checkEpoch ::
  "iters \<Rightarrow> StakingInfo \<Rightarrow> Epoch \<Rightarrow> (bytes32 \<times> i64) list \<Rightarrow>
   (bool \<times> (bytes32 \<times> i64) list \<times> Validator list \<times> Epoch) option" where
  "checkEpoch I info epoch posVotes = do {
     (powTotalNomination, pubkey2power, epoch) \<leftarrow> getPubkey2Power I info epoch posVotes;
     let activeValidators = GetActiveValidators (si_Validators info) MinimumStakingAmount;
     let isValid = \<not> (sint powTotalNomination < sint StakingNumBlocksInEpoch * StakingMinVotingPercentPerEpoch div 100) \<and>
       \<not> (int (length pubkey2power) < int (length activeValidators) * StakingMinVotingPubKeysPercentPerEpoch div 100);
     Some (isValid, pubkey2power, activeValidators, epoch) }"

definition updatePendingRewardsInNewEpoch :: "Validator list \<Rightarrow> StakingInfo \<Rightarrow> StakingInfo" where
  "updatePendingRewardsInNewEpoch activeValidators info = info\<lparr>si_PendingRewards := si_PendingRewards info @
     map (\<lambda>val. \<lparr>pr_Address = v_Address val, pr_EpochNum = si_CurrEpochNum info, pr_Amount = 0\<rparr>) activeValidators\<rparr>"

definition power_step :: "(bytes32 \<rightharpoonup> nat) \<Rightarrow> Validator list \<Rightarrow> bytes32 \<times> i64 \<Rightarrow> Validator list" where
  "power_step valMapByPubkey vals p = (case p of (pubkey, pw) \<Rightarrow>
     (case valMapByPubkey pubkey of
        None \<Rightarrow> vals
      | Some i \<Rightarrow> if v_IsRetiring (vals ! i) then vals
          else if v_StakedCoins (vals ! i) \<ge> MinimumStakingAmount then vals[i := (vals ! i)\<lparr>v_VotingPower := pw\<rparr>]
          else vals))"

definition updateVotingPower :: "bytes32 iter \<Rightarrow> StakingInfo \<Rightarrow> (bytes32 \<times> i64) list \<Rightarrow> StakingInfo" where
  "updateVotingPower it info pubkey2power =
     (let info = info\<lparr>si_Validators := map (\<lambda>val. val\<lparr>v_VotingPower := 0\<rparr>) (si_Validators info)\<rparr>
      in info\<lparr>si_Validators := foldl (power_step (GetValMapByPubkey info)) (si_Validators info)
           (map (\<lambda>pubkey. (pubkey, the (map_of pubkey2power pubkey))) (it (map fst pubkey2power)))\<rparr>)"

definition clearUselessValidators ::
  "('c, 'a) ext \<Rightarrow> address iter \<Rightarrow> 'c \<Rightarrow> 'a \<Rightarrow> StakingInfo \<Rightarrow> 'c \<times> StakingInfo" where
  "clearUselessValidators E it c stakingAcc info =
     (let useless = GetUselessValidators info;
          valMapByAddr = GetValMapByAddr info;
          (c, stakingAccBalance) = foldl (pay_step E) (c, Balance E stakingAcc)
            (map (\<lambda>addr. let val = si_Validators info ! the (valMapByAddr addr) in (v_RewardTo val, v_StakedCoins val))
               (it useless));
          stakingAcc = UpdateBalance E stakingAcc stakingAccBalance;
          c = SetAccount E c StakingContractAddress stakingAcc;
          info = (if useless \<noteq> [] then info\<lparr>si_Validators :=
            filter (\<lambda>v. v_Address v \<notin> set useless) (si_Validators info)\<rparr> else info);
          stakingAcc = UpdateBalance E stakingAcc stakingAccBalance
      in (SetAccount E c StakingContractAddress stakingAcc, info))"

text \<open>The first component of the result is nil when the epoch is not valid.\<close>

definition SwitchEpoch ::
  "('c, 'a) ext \<Rightarrow> iters \<Rightarrow> 'c staking_state \<Rightarrow> Epoch \<Rightarrow> (bytes32 \<times> i64) list \<Rightarrow>
   (Validator list option \<times> Epoch \<times> 'c staking_state) option" where
  "SwitchEpoch E I s epoch posVotes = do {
     (stakingAcc, info) \<leftarrow> LoadStakingAccAndInfo E (ss_ctx s);
     let info = info\<lparr>si_CurrEpochNum := si_CurrEpochNum info + 1\<rparr>;
     let epoch = epoch\<lparr>e_Number := si_CurrEpochNum info\<rparr>;
     let c = SaveEpoch E (ss_ctx s) epoch;
     (c, stakingAcc, info) \<leftarrow> deliverMintRewardInEpoch E (it_rewardMap I) c stakingAcc info;
     (isValid, pubkey2power, oldActiveValidators, epoch) \<leftarrow> checkEpoch I info epoch posVotes;
     if \<not> isValid
     then Some (None, epoch, SaveStakingInfo E (s\<lparr>ss_ctx := c\<rparr>) (updatePendingRewardsInNewEpoch oldActiveValidators info))
     else do {
       let info = updateVotingPower (it_pubkey2power I) info pubkey2power;
       let (c, info) = clearUselessValidators E (it_useless I) c stakingAcc info;
       let activeValidators = GetActiveValidators (si_Validators info) MinimumStakingAmount;
       let info = updatePendingRewardsInNewEpoch activeValidators info;
       Some (Some activeValidators, epoch, SaveStakingInfo E (s\<lparr>ss_ctx := c\<rparr>) info) } }"

subsection \<open>Proof-of-stake votes\<close>

definition SlotValidatorsMap :: bytes32 where "SlotValidatorsMap = 134"
definition SlotValidatorsArray :: bytes32 where "SlotValidatorsArray = 135"
definition CoindayUnit :: u256 where "CoindayUnit = 24 * 60 * 60 * 10 ^ 18"

text \<open>\<open>pubkey\<close> is declared outside the loop: a short array element overwrites a prefix of it.\<close>

definition pos_step ::
  "('c, 'a) ext \<Rightarrow> u64 \<Rightarrow> bytes \<times> (bytes32 \<times> i64) list \<times> 'c \<Rightarrow> bytes \<Rightarrow> bytes \<times> (bytes32 \<times> i64) list \<times> 'c" where
  "pos_step E xHedgeContractSeq st val = (case st of (pubkey, posVotes, c) \<Rightarrow>
     let pubkey = copy_to pubkey val;
         (coindaysBz, c) = GetAndDeleteValueAtMapKey E c xHedgeContractSeq SlotValidatorsMap val;
         coindays = SetBytes coindaysBz div CoindayUnit;
         posVotes' = AList.update (be_val pubkey) (ucast coindays) posVotes
     in (pubkey, if IsXHedgeFork E c then (if coindays \<noteq> 0 then posVotes' else posVotes) else posVotes', c))"

definition GetAndClearPosVotes :: "('c, 'a) ext \<Rightarrow> 'c \<Rightarrow> u64 \<Rightarrow> (bytes32 \<times> i64) list \<times> 'c" where
  "GetAndClearPosVotes E c xHedgeContractSeq =
     (case foldl (pos_step E xHedgeContractSeq) (replicate 32 0, [], c)
        (GetDynamicArray E c xHedgeContractSeq SlotValidatorsArray) of
      (_, posVotes, c) \<Rightarrow> (posVotes, DeleteDynamicArray E c xHedgeContractSeq SlotValidatorsArray))"

definition GetPosVotes :: "('c, 'a) ext \<Rightarrow> 'c \<Rightarrow> u64 \<Rightarrow> (bytes32 \<times> u256) list" where
  "GetPosVotes E c xhedgeContractSeq = snd (foldl (\<lambda>(pubkey, posVotes) val.
     let pubkey = copy_to pubkey val
     in (pubkey, AList.update (be_val pubkey)
          (SetBytes (GetValueAtMapKey E c xhedgeContractSeq SlotValidatorsMap val)) posVotes))
     (replicate 32 0, []) (GetDynamicArray E c xhedgeContractSeq SlotValidatorsArray))"

definition CreateInitVotes :: "('c, 'a) ext \<Rightarrow> 'c \<Rightarrow> u64 \<Rightarrow> Validator list \<Rightarrow> 'c" where
  "CreateInitVotes E c xhedgeContractSeq activeValidators =
     (let pubkeys = map (be_bytes 32) (sort (map v_Pubkey activeValidators));
          oneBz = be_bytes 32 (1 :: u256);
          c = foldl (\<lambda>c key. SetValueAtMapKey E c xhedgeContractSeq SlotValidatorsMap key oneBz) c pubkeys
      in CreateDynamicArray E c xhedgeContractSeq SlotValidatorsArray pubkeys)"

subsection \<open>Payments\<close>

text \<open>What a list of payments gives to one address, and altogether.\<close>

definition paid_to :: "(address \<times> u256) list \<Rightarrow> address \<Rightarrow> u256" where
  "paid_to xs a = sum_list (map snd (filter (\<lambda>p. fst p = a) xs))"

definition paid_total :: "(address \<times> u256) list \<Rightarrow> nat" where
  "paid_total xs = (\<Sum>p\<leftarrow>xs. unat (snd p))"

lemma sum_list_mset_cong: "mset xs = mset ys \<Longrightarrow> sum_list xs = (sum_list ys :: 'b::comm_monoid_add)"
  by (simp flip: sum_mset_sum_list)

lemma paid_to_cong: "mset xs = mset ys \<Longrightarrow> paid_to xs a = paid_to ys a"
  unfolding paid_to_def by (intro sum_list_mset_cong) simp

lemma paid_total_cong: "mset xs = mset ys \<Longrightarrow> paid_total xs = paid_total ys"
  unfolding paid_total_def by (intro sum_list_mset_cong) simp

lemma sum_snd_cong: "mset xs = mset ys \<Longrightarrow> sum_list (map snd xs) = (sum_list (map snd ys) :: u256)"
  by (intro sum_list_mset_cong) simp

lemma paid_total_le_sum: "paid_total xs < 2 ^ 256 \<Longrightarrow> unat (sum_list (map snd xs)) = paid_total xs"
  using unat_sum_list [of snd xs] by (simp add: paid_total_def comp_def)

context chain_ctx
begin

lemma bal_pay_step: "bal E (fst (pay_step E (c, b) (a, v))) x = (if x = a then bal E c x + v else bal E c x)"
  by (simp add: pay_step_def Let_def bal_def get_set_account balance_update balance_zero split: option.splits)

lemma pay_step_rest [simp]:
  "snd (pay_step E (c, b) p) = b - snd p"
  "GetStorageAt E (fst (pay_step E (c, b) p)) = GetStorageAt E c"
  "GetAccount E c x \<noteq> None \<Longrightarrow> GetAccount E (fst (pay_step E (c, b) p)) x \<noteq> None"
  by (auto simp: pay_step_def Let_def storage_set_account get_set_account fun_eq_iff split: prod.splits)

lemma pay_bal: "bal E (fst (foldl (pay_step E) (c, b) xs)) a = bal E c a + paid_to xs a"
proof (induction xs arbitrary: c b)
  case (Cons p xs)
  obtain d b' where d: "pay_step E (c, b) p = (d, b')" by fastforce
  then have "bal E d a = (if a = fst p then bal E c a + snd p else bal E c a)"
    using bal_pay_step [of c b "fst p" "snd p" a] by simp
  then show ?case by (simp add: d Cons.IH paid_to_def)
qed (simp add: paid_to_def)

lemma pay_balance: "snd (foldl (pay_step E) (c, b) xs) = b - sum_list (map snd xs)"
proof (induction xs arbitrary: c b)
  case (Cons p xs)
  obtain d b' where d: "pay_step E (c, b) p = (d, b')" by fastforce
  then have "b' = b - snd p" using pay_step_rest(1) [of c b p] by simp
  then show ?case by (simp add: d Cons.IH)
qed simp

lemma pay_storage: "GetStorageAt E (fst (foldl (pay_step E) (c, b) xs)) = GetStorageAt E c"
proof (induction xs arbitrary: c b)
  case (Cons p xs)
  obtain d b' where d: "pay_step E (c, b) p = (d, b')" by fastforce
  then show ?case using pay_step_rest(2) [of c b p] by (simp add: Cons.IH)
qed simp

lemma coins_on_pay:
  assumes "finite S" and "fst ` set xs \<subseteq> S" and "coins_on E c S + paid_total xs < 2 ^ 256"
  shows "coins_on E (fst (foldl (pay_step E) (c, b) xs)) S = coins_on E c S + paid_total xs"
  using assms(2,3)
proof (induction xs arbitrary: c b)
  case (Cons p xs)
  obtain a v where p: "p = (a, v)" by fastforce
  obtain d b' where d: "pay_step E (c, b) p = (d, b')" by fastforce
  have a: "a \<in> S" using Cons.prems(1) by (simp add: p)
  have "unat (bal E c a) \<le> coins_on E c S"
    unfolding coins_on_def using assms(1) a by (intro member_le_sum) auto
  then have fits: "unat (bal E c a) + unat v < 2 ^ 256"
    using Cons.prems(2) by (simp add: paid_total_def p)
  define acc where "acc = (case GetAccount E c a of None \<Rightarrow> ZeroAccountInfo E | Some acc \<Rightarrow> acc)"
  have "d = SetAccount E c a (UpdateBalance E acc (Balance E acc + v))" and "Balance E acc = bal E c a"
    using d by (auto simp: pay_step_def p acc_def Let_def bal_def balance_zero split: option.splits)
  then have "coins_on E d S + unat (bal E c a) = coins_on E c S + (unat (bal E c a) + unat v)"
    using coins_on_set_account [OF assms(1) a, of c] fits by (simp add: balance_update unat_add_no_wrap)
  then have "coins_on E d S = coins_on E c S + unat v" by simp
  with Cons.IH [of d b'] Cons.prems show ?case by (simp add: d) (simp add: p paid_total_def)
qed (simp add: paid_total_def)

end

subsection \<open>Mature rewards\<close>

definition mature :: "StakingInfo \<Rightarrow> PendingReward \<Rightarrow> bool" where
  "mature info pr \<longleftrightarrow> sint (pr_EpochNum pr) < sint (si_CurrEpochNum info - EpochCountBeforeRewardMature)"

definition mature_total :: "StakingInfo \<Rightarrow> nat" where
  "mature_total info = (\<Sum>pr\<leftarrow>filter (mature info) (si_PendingRewards info). unat (pr_Amount pr))"

text \<open>The payments that the reward map stands for, in the order of its entries.\<close>

definition rewards_of :: "StakingInfo \<Rightarrow> (address \<times> u256) list option" where
  "rewards_of info = map_option snd (foldM (reward_step info (GetValMapByAddr info)) ([], []) (si_PendingRewards info))"

lemma paid_total_update:
  assumes "distinct (map fst m)"
  shows "paid_total (AList.update k w m) + unat (case map_of m k of None \<Rightarrow> 0 | Some r \<Rightarrow> r) = paid_total m + unat w"
  using assms by (induction m) (auto simp: paid_total_def split: option.splits)

lemma map_of_le_paid_total: "unat (case map_of m k of None \<Rightarrow> 0 | Some r \<Rightarrow> r) \<le> paid_total m"
  by (induction m) (auto simp: paid_total_def split: option.splits)

lemma reward_loop:
  assumes "\<forall>pr \<in> set prs. mature info pr \<longrightarrow> (\<exists>i < length (si_Validators info). vm (pr_Address pr) = Some i)"
    and "distinct (map fst rm)"
  shows "\<exists>rm'. foldM (reward_step info vm) (new, rm) prs = Some (new @ filter (\<lambda>pr. \<not> mature info pr) prs, rm') \<and>
    distinct (map fst rm') \<and> fst ` set rm' \<subseteq> fst ` set rm \<union> v_RewardTo ` set (si_Validators info) \<and>
    (paid_total rm + (\<Sum>pr\<leftarrow>filter (mature info) prs. unat (pr_Amount pr)) < 2 ^ 256 \<longrightarrow>
     paid_total rm' = paid_total rm + (\<Sum>pr\<leftarrow>filter (mature info) prs. unat (pr_Amount pr)))"
  using assms
proof (induction prs arbitrary: new rm)
  case (Cons pr prs)
  show ?case
  proof (cases "mature info pr")
    case False
    then have "reward_step info vm (new, rm) pr = Some (new @ [pr], rm)"
      by (simp add: reward_step_def mature_def)
    with Cons.IH [of rm "new @ [pr]"] Cons.prems False show ?thesis by simp
  next
    case True
    then obtain i where i: "vm (pr_Address pr) = Some i" "i < length (si_Validators info)" using Cons.prems(1) by auto
    define a where "a = v_RewardTo (si_Validators info ! i)"
    define r where "r = (case map_of rm a of None \<Rightarrow> 0 | Some r \<Rightarrow> r)"
    define rm1 where "rm1 = AList.update a (r + pr_Amount pr) rm"
    have step: "reward_step info vm (new, rm) pr = Some (new, rm1)"
      using True i by (simp add: reward_step_def mature_def rm1_def r_def a_def Let_def)
    have d: "distinct (map fst rm1)" using Cons.prems(2) by (simp add: rm1_def distinct_update)
    have keys: "fst ` set rm1 \<subseteq> fst ` set rm \<union> v_RewardTo ` set (si_Validators info)"
      using i(2) unfolding rm1_def by (auto simp: dom_update a_def)
    have tot: "paid_total rm1 = paid_total rm + unat (pr_Amount pr)"
      if "paid_total rm + unat (pr_Amount pr) < 2 ^ 256"
    proof -
      have "unat r \<le> paid_total rm" unfolding r_def by (rule map_of_le_paid_total)
      then have "unat (r + pr_Amount pr) = unat r + unat (pr_Amount pr)" using that by (simp add: unat_add_no_wrap)
      then show ?thesis using paid_total_update [OF Cons.prems(2), of a "r + pr_Amount pr"]
        unfolding rm1_def r_def [symmetric] by simp
    qed
    from Cons.IH [of rm1 new] Cons.prems(1) d obtain rm' where
      "foldM (reward_step info vm) (new, rm1) prs = Some (new @ filter (\<lambda>pr. \<not> mature info pr) prs, rm')"
      "distinct (map fst rm')" "fst ` set rm' \<subseteq> fst ` set rm1 \<union> v_RewardTo ` set (si_Validators info)"
      "paid_total rm1 + (\<Sum>pr\<leftarrow>filter (mature info) prs. unat (pr_Amount pr)) < 2 ^ 256 \<longrightarrow>
       paid_total rm' = paid_total rm1 + (\<Sum>pr\<leftarrow>filter (mature info) prs. unat (pr_Amount pr))" by auto
    then show ?thesis using True step keys tot by (intro exI [of _ rm']) auto
  qed
qed simp

lemma rewards_of_wf:
  assumes "wf_info info"
  shows "\<exists>rm. foldM (reward_step info (GetValMapByAddr info)) ([], []) (si_PendingRewards info) =
      Some (filter (\<lambda>pr. \<not> mature info pr) (si_PendingRewards info), rm) \<and> rewards_of info = Some rm \<and>
    distinct (map fst rm) \<and> fst ` set rm \<subseteq> v_RewardTo ` set (si_Validators info) \<and>
    (mature_total info < 2 ^ 256 \<longrightarrow> paid_total rm = mature_total info)"
proof -
  have "\<exists>i < length (si_Validators info). GetValMapByAddr info (pr_Address pr) = Some i"
    if "pr \<in> set (si_PendingRewards info)" for pr
  proof -
    have "pr_Address pr \<in> v_Address ` set (si_Validators info)" using assms that by (auto simp: wf_info_def)
    then have "GetValMapByAddr info (pr_Address pr) \<noteq> None"
      by (simp add: GetValMapByAddr_def index_map_None)
    then obtain i where "GetValMapByAddr info (pr_Address pr) = Some i" by blast
    then show ?thesis using index_map_nth(1) by (auto simp: GetValMapByAddr_def)
  qed
  with reward_loop [of "si_PendingRewards info" info "GetValMapByAddr info" "[]" "[]"] show ?thesis
    by (auto simp: rewards_of_def mature_total_def paid_total_def)
qed

subsection \<open>Elections\<close>

lemma nomination_less_iff:
  "nomination_less a b \<longleftrightarrow> sint (n_NominatedCount b) < sint (n_NominatedCount a) \<or>
     n_NominatedCount a = n_NominatedCount b \<and> n_Pubkey a < n_Pubkey b"
  by (auto simp: nomination_less_def)

interpretation nom: heap_total nomination_less
proof
  fix a b c :: Nomination
  show "nomination_less a b \<Longrightarrow> \<not> nomination_less b a"
    by (auto simp: nomination_less_iff)
  show "\<not> nomination_less a b \<Longrightarrow> \<not> nomination_less b c \<Longrightarrow> \<not> nomination_less a c"
    by (auto simp: nomination_less_iff not_less simp flip: sint_eq_iff)
  show "a \<noteq> b \<Longrightarrow> nomination_less a b \<or> nomination_less b a"
    using sint_eq_iff [of "n_NominatedCount a" "n_NominatedCount b"]
    by (cases a; cases b) (auto simp: nomination_less_iff)
qed

abbreviation votes_at :: "(bytes32 \<times> i64) list \<Rightarrow> bytes32 \<Rightarrow> i64" where
  "votes_at m k \<equiv> (case map_of m k of None \<Rightarrow> 0 | Some d \<Rightarrow> d)"

text \<open>Whom an epoch may elect, and the votes behind a key once block counts are coin days.\<close>

definition candidate :: "StakingInfo \<Rightarrow> Epoch \<Rightarrow> (bytes32 \<times> i64) list \<Rightarrow> bytes32 \<Rightarrow> bool" where
  "candidate info epoch posVotes k \<longleftrightarrow> validatorSet info k \<and>
     (k \<in> fst ` set posVotes \<or> k \<in> n_Pubkey ` set (e_Nominations epoch))"

definition votes_for :: "Epoch \<Rightarrow> (bytes32 \<times> i64) list \<Rightarrow> bytes32 \<Rightarrow> i64" where
  "votes_for epoch posVotes k =
     votes_at posVotes k + (\<Sum>n\<leftarrow>filter (\<lambda>n. n_Pubkey n = k) (e_Nominations epoch). n_NominatedCount n)"

lemma map_of_vote_fold:
  "map_of (foldl vote_step m ns) k =
     (if map_of m k = None \<and> k \<notin> n_Pubkey ` set ns then None
      else Some (votes_at m k + (\<Sum>n\<leftarrow>filter (\<lambda>n. n_Pubkey n = k) ns. n_NominatedCount n)))"
proof (induction ns arbitrary: m)
  case (Cons n ns)
  then show ?case by (auto simp: vote_step_def Let_def update_conv' split: option.splits)
qed (simp split: option.splits)

lemma distinct_vote_fold: "distinct (map fst m) \<Longrightarrow> distinct (map fst (foldl vote_step m ns))"
  by (induction ns arbitrary: m) (simp_all add: vote_step_def Let_def distinct_update)

lemma scale_pubkeys: "scale_nominations info d b ns = Some ns' \<Longrightarrow> map n_Pubkey ns' = map n_Pubkey ns"
  by (induction ns arbitrary: ns') (auto simp: to_coindays_def split: bind_splits if_splits)

lemma map_of_restrict:
  "map_of (map (\<lambda>k. (k, f k)) xs) k = (if k \<in> set xs then Some (f k) else None)"
  by (induction xs) auto

lemma mset_map_fst_cong:
  assumes "distinct (map fst m)" and "distinct (map fst m')" and "map_of m = map_of m'"
  shows "mset (map fst m) = mset (map fst m')"
proof -
  have "set (map fst m) = set (map fst m')" using assms(3) by (metis dom_map_of_conv_image_fst set_map)
  then show ?thesis using assms(1,2) by (metis set_eq_iff_mset_eq_distinct)
qed

text \<open>The pieces of \<open>getPubkey2Power\<close>.\<close>

definition valid_votes :: "bytes32 iter \<Rightarrow> StakingInfo \<Rightarrow> (bytes32 \<times> i64) list \<Rightarrow> (bytes32 \<times> i64) list" where
  "valid_votes it info posVotes = map (\<lambda>pubkey. (pubkey, the (map_of posVotes pubkey)))
     (filter (validatorSet info) (it (map fst posVotes)))"

definition nominees :: "bytes32 iter \<Rightarrow> (bytes32 \<times> i64) list \<Rightarrow> Nomination list" where
  "nominees it vv = map (\<lambda>pubkey. \<lparr>n_Pubkey = pubkey, n_NominatedCount = the (map_of vv pubkey)\<rparr>) (it (map fst vv))"

definition elected :: "Nomination list \<Rightarrow> Nomination list" where
  "elected ns = heap_PopN nomination_less MaxActiveValidatorCount (heap_Init nomination_less ns)"

lemma getPubkey2Power_pieces:
  "getPubkey2Power I info epoch posVotes = do {
     let coinDays = sum_list (map snd (valid_votes (it_posVotes I) info posVotes));
     let blocks = (\<Sum>n\<leftarrow>filter (\<lambda>n. validatorSet info (n_Pubkey n)) (e_Nominations epoch). n_NominatedCount n);
     noms \<leftarrow> (if sint coinDays > 0 then scale_nominations info coinDays blocks (e_Nominations epoch)
       else Some (e_Nominations epoch));
     let vv = foldl vote_step (valid_votes (it_posVotes I) info posVotes) (filter (\<lambda>n. validatorSet info (n_Pubkey n)) noms);
     Some (blocks, map (\<lambda>n. (n_Pubkey n, 1)) (elected (nominees (it_validVotes I) vv)), epoch\<lparr>e_Nominations := noms\<rparr>) }"
  by (simp add: getPubkey2Power_def valid_votes_def nominees_def elected_def Let_def)

lemma valid_votes_facts:
  assumes "is_iter it" and "distinct (map fst posVotes)"
  shows "distinct (map fst (valid_votes it info posVotes))"
    and "map_of (valid_votes it info posVotes) k = (if validatorSet info k then map_of posVotes k else None)"
proof -
  show "distinct (map fst (valid_votes it info posVotes))"
    using assms by (simp add: valid_votes_def comp_def)
  show "map_of (valid_votes it info posVotes) k = (if validatorSet info k then map_of posVotes k else None)"
  proof -
    have "k \<in> set (it (map fst posVotes)) \<longleftrightarrow> map_of posVotes k \<noteq> None"
      using assms(1) by (simp add: map_of_eq_None_iff)
    then show ?thesis unfolding valid_votes_def map_of_restrict by auto
  qed
qed

lemma valid_votes_mset:
  assumes "is_iter it" and "is_iter it'"
  shows "mset (valid_votes it info posVotes) = mset (valid_votes it' info posVotes)"
  using assms by (simp add: valid_votes_def)

lemma vote_fold_cong:
  assumes "distinct (map fst m)" and "distinct (map fst m')" and "map_of m = map_of m'"
    and "is_iter it" and "is_iter it'"
  shows "mset (nominees it (foldl vote_step m ns)) = mset (nominees it' (foldl vote_step m' ns))"
proof -
  have same: "map_of (foldl vote_step m ns) = map_of (foldl vote_step m' ns)"
    by (rule ext) (simp add: map_of_vote_fold assms(3))
  then have "mset (map fst (foldl vote_step m ns)) = mset (map fst (foldl vote_step m' ns))"
    by (intro mset_map_fst_cong distinct_vote_fold assms)
  then have "mset (it (map fst (foldl vote_step m ns))) = mset (it' (map fst (foldl vote_step m' ns)))"
    by (simp only: is_iter_mset [OF assms(4)] is_iter_mset [OF assms(5)])
  then show ?thesis unfolding nominees_def same mset_map by simp
qed

lemma getPubkey2Power_iter:
  assumes "iters_ok I" and "iters_ok J" and "distinct (map fst posVotes)"
  shows "getPubkey2Power I info epoch posVotes = getPubkey2Power J info epoch posVotes"
proof -
  let ?v = "\<lambda>I. valid_votes (it_posVotes I) info posVotes"
  have it: "is_iter (it_posVotes I)" "is_iter (it_posVotes J)" "is_iter (it_validVotes I)" "is_iter (it_validVotes J)"
    using assms(1,2) by (simp_all add: iters_ok_def)
  have sum: "sum_list (map snd (?v I)) = sum_list (map snd (?v J))"
    using valid_votes_mset [OF it(1,2)] by (intro sum_list_mset_cong) simp
  have same: "map_of (?v I) = map_of (?v J)"
    by (rule ext) (simp add: valid_votes_facts(2) it assms(3))
  have "elected (nominees (it_validVotes I) (foldl vote_step (?v I) ns)) =
      elected (nominees (it_validVotes J) (foldl vote_step (?v J) ns))" for ns
    unfolding elected_def
    by (intro nom.heap_select_cong vote_fold_cong valid_votes_facts it assms(3) same)
  then show ?thesis unfolding getPubkey2Power_pieces sum by simp
qed

subsection \<open>New voting powers\<close>

definition eligible :: "Validator \<Rightarrow> bool" where
  "eligible v \<longleftrightarrow> \<not> v_IsRetiring v \<and> v_StakedCoins v \<ge> MinimumStakingAmount"

definition empower :: "bytes32 set \<Rightarrow> Validator list \<Rightarrow> Validator list" where
  "empower K vals = map (\<lambda>v. v\<lparr>v_VotingPower := if eligible v \<and> v_Pubkey v \<in> K then 1 else 0\<rparr>) vals"

lemma index_map_keys: "map key vs = map key' ws \<Longrightarrow> index_map key i vs m = index_map key' i ws m"
  by (induction vs arbitrary: i m ws) auto

lemma power_step_eq:
  assumes "distinct (map v_Pubkey vals)" and "vm = index_map v_Pubkey 0 vals Map.empty"
  shows "power_step vm vals (k, p) =
    map (\<lambda>v. if eligible v \<and> v_Pubkey v = k then v\<lparr>v_VotingPower := p\<rparr> else v) vals"
proof (cases "vm k")
  case None
  then have "k \<notin> v_Pubkey ` set vals" by (simp add: assms(2) index_map_None)
  then show ?thesis by (auto simp: power_step_def None intro!: map_idI [symmetric])
next
  case (Some i)
  then have i: "i < length vals" "v_Pubkey (vals ! i) = k" using index_map_nth assms(2) by auto
  have "v_Pubkey (vals ! j) = k \<longleftrightarrow> j = i" if "j < length vals" for j
    using nth_eq_iff_index_eq [OF assms(1)] i that by auto
  then have "(if eligible (vals ! i) then vals[i := (vals ! i)\<lparr>v_VotingPower := p\<rparr>] else vals) =
      map (\<lambda>v. if eligible v \<and> v_Pubkey v = k then v\<lparr>v_VotingPower := p\<rparr> else v) vals"
    using i by (auto intro!: nth_equalityI simp: nth_list_update)
  moreover have "power_step vm vals (k, p) = (if eligible (vals ! i) then vals[i := (vals ! i)\<lparr>v_VotingPower := p\<rparr>] else vals)"
    by (simp add: power_step_def Some eligible_def)
  ultimately show ?thesis by simp
qed

lemma power_loop:
  assumes "distinct (map v_Pubkey vals)" and "vm = index_map v_Pubkey 0 vals Map.empty"
  shows "foldl (power_step vm) vals (map (\<lambda>k. (k, 1)) ks) =
    map (\<lambda>v. if eligible v \<and> v_Pubkey v \<in> set ks then v\<lparr>v_VotingPower := 1\<rparr> else v) vals"
  using assms
proof (induction ks arbitrary: vals)
  case (Cons k ks)
  let ?vals = "map (\<lambda>v. if eligible v \<and> v_Pubkey v = k then v\<lparr>v_VotingPower := 1\<rparr> else v) vals"
  have keys: "map v_Pubkey ?vals = map v_Pubkey vals" by auto
  have el: "eligible (v\<lparr>v_VotingPower := 1\<rparr>) = eligible v" for v by (simp add: eligible_def)
  have "distinct (map v_Pubkey ?vals)" "vm = index_map v_Pubkey 0 ?vals Map.empty"
    using Cons.prems index_map_keys [OF keys] by (simp_all only: keys)
  from Cons.IH [OF this] show ?case
    unfolding list.map foldl_Cons power_step_eq [OF Cons.prems] by (auto simp: el)
qed simp

lemma updateVotingPower_eq:
  assumes "unique_validators (si_Validators info)" and "is_iter it" and "\<forall>p \<in> set p2p. snd p = 1"
  shows "updateVotingPower it info p2p = info\<lparr>si_Validators := empower (fst ` set p2p) (si_Validators info)\<rparr>"
proof -
  let ?vals = "map (\<lambda>val. val\<lparr>v_VotingPower := 0\<rparr>) (si_Validators info)"
  have keys: "map v_Pubkey ?vals = map v_Pubkey (si_Validators info)" by simp
  have one: "the (map_of p2p k) = 1" if "k \<in> set (it (map fst p2p))" for k
  proof -
    from that obtain w where "map_of p2p k = Some w" using assms(2) by (auto simp: map_of_eq_None_iff dest: weak_map_of_SomeI)
    then show ?thesis using assms(3) map_of_SomeD [of p2p k w] by fastforce
  qed
  then have ones: "map (\<lambda>k. (k, the (map_of p2p k))) (it (map fst p2p)) = map (\<lambda>k. (k, 1)) (it (map fst p2p))"
    by simp
  have "distinct (map v_Pubkey ?vals)" unfolding keys using assms(1) by (simp add: unique_validators_def)
  note loop = power_loop [OF this refl, of "it (map fst p2p)"]
  have "set (it (map fst p2p)) = fst ` set p2p" using assms(2) by simp
  then have "map (\<lambda>v. if eligible v \<and> v_Pubkey v \<in> set (it (map fst p2p)) then v\<lparr>v_VotingPower := 1\<rparr> else v) ?vals =
      empower (fst ` set p2p) (si_Validators info)"
    by (simp add: empower_def eligible_def comp_def)
  with ones loop show ?thesis by (simp add: updateVotingPower_def Let_def GetValMapByPubkey_def del: map_map map_eq_conv)
qed

lemma empower_keeps [simp]:
  "map v_Address (empower K vals) = map v_Address vals" "map v_Pubkey (empower K vals) = map v_Pubkey vals"
  "map v_StakedCoins (empower K vals) = map v_StakedCoins vals" "map v_RewardTo (empower K vals) = map v_RewardTo vals"
  "length (empower K vals) = length vals"
  by (simp_all add: empower_def)

lemma unique_empower [simp]: "unique_validators (empower K vals) = unique_validators vals"
  by (simp add: unique_validators_def)

subsection \<open>Useless validators\<close>

definition refunds :: "StakingInfo \<Rightarrow> Validator list" where
  "refunds info = filter (\<lambda>v. v_Address v \<in> set (GetUselessValidators info)) (si_Validators info)"

text \<open>Looking every useless address up gives the useless validators, in some order.\<close>

lemma useless_lookup:
  assumes "unique_validators (si_Validators info)"
  shows "mset (map (\<lambda>a. si_Validators info ! the (GetValMapByAddr info a)) (GetUselessValidators info)) =
    mset (refunds info)"
proof -
  let ?f = "\<lambda>a. si_Validators info ! the (GetValMapByAddr info a)"
  have d: "distinct (map v_Address (si_Validators info))" using assms by (simp add: unique_validators_def)
  have look: "?f (v_Address v) = v" if v: "v \<in> set (si_Validators info)" for v
  proof -
    have "GetValMapByAddr info (v_Address v) \<noteq> None" using v by (simp add: GetValMapByAddr_def index_map_None)
    then obtain i where i: "GetValMapByAddr info (v_Address v) = Some i" by blast
    then have "i < length (si_Validators info)" "v_Address (si_Validators info ! i) = v_Address v"
      using index_map_nth by (auto simp: GetValMapByAddr_def)
    then show ?thesis using d v i by (auto simp: distinct_map inj_on_def)
  qed
  have sub: "set (GetUselessValidators info) \<subseteq> v_Address ` set (si_Validators info)"
    by (auto simp: set_GetUselessValidators)
  have "mset (map v_Address (refunds info)) = mset (GetUselessValidators info)"
    using sub d by (subst set_eq_iff_mset_eq_distinct [symmetric])
      (auto simp: refunds_def distinct_map_filter image_iff subset_iff)
  then have "mset (map ?f (GetUselessValidators info)) = mset (map ?f (map v_Address (refunds info)))"
    by (metis mset_map)
  also have "map ?f (map v_Address (refunds info)) = refunds info"
    using look by (auto simp: refunds_def intro!: map_idI)
  finally show ?thesis .
qed

subsection \<open>The outcome does not depend on map order\<close>

text \<open>Two contexts with the same balances and the same storage.\<close>

definition obs_eq :: "('c, 'a) ext \<Rightarrow> 'c \<Rightarrow> 'c \<Rightarrow> bool" where
  "obs_eq E c d \<longleftrightarrow> (\<forall>a. bal E c a = bal E d a) \<and> GetStorageAt E c = GetStorageAt E d"

lemma reward_payments:
  assumes "is_iter it" and "distinct (map fst rm)"
  shows "mset (map (\<lambda>a. (a, the (map_of rm a))) (it (map fst rm))) = mset rm"
proof -
  have "map (\<lambda>a. (a, the (map_of rm a))) (map fst rm) = rm"
    using assms(2) by (auto simp: comp_def intro!: map_idI)
  then show ?thesis using assms(1) by (metis is_iter_mset mset_map)
qed

definition refund_payments :: "StakingInfo \<Rightarrow> (address \<times> u256) list" where
  "refund_payments info = map (\<lambda>v. (v_RewardTo v, v_StakedCoins v)) (refunds info)"

lemma refund_order:
  assumes "is_iter it" and "unique_validators (si_Validators info)"
  shows "mset (map (\<lambda>a. let val = si_Validators info ! the (GetValMapByAddr info a) in (v_RewardTo val, v_StakedCoins val))
      (it (GetUselessValidators info))) = mset (refund_payments info)"
proof -
  let ?f = "\<lambda>a. si_Validators info ! the (GetValMapByAddr info a)"
  have "mset (map ?f (it (GetUselessValidators info))) = mset (refunds info)"
    using useless_lookup [OF assms(2)] assms(1) by (metis is_iter_mset mset_map)
  then show ?thesis unfolding refund_payments_def Let_def
    by (metis (no_types, lifting) comp_apply image_mset.compositionality mset_map multiset.map_cong0)
qed

context chain_ctx
begin

lemma deliver_eq:
  assumes "wf_info info" and "is_iter it"
  obtains rm xs where "rewards_of info = Some rm" and "mset xs = mset rm"
    and "deliverMintRewardInEpoch E it c acc info = Some (fst (foldl (pay_step E) (c, Balance E acc) xs),
      UpdateBalance E acc (Balance E acc - sum_list (map snd xs)),
      info\<lparr>si_PendingRewards := filter (\<lambda>pr. \<not> mature info pr) (si_PendingRewards info)\<rparr>)"
proof -
  obtain rm where rm: "foldM (reward_step info (GetValMapByAddr info)) ([], []) (si_PendingRewards info) =
      Some (filter (\<lambda>pr. \<not> mature info pr) (si_PendingRewards info), rm)" "rewards_of info = Some rm"
    "distinct (map fst rm)" using rewards_of_wf [OF assms(1)] by blast
  let ?xs = "map (\<lambda>a. (a, the (map_of rm a))) (it (map fst rm))"
  have "deliverMintRewardInEpoch E it c acc info = Some (fst (foldl (pay_step E) (c, Balance E acc) ?xs),
      UpdateBalance E acc (Balance E acc - sum_list (map snd ?xs)),
      info\<lparr>si_PendingRewards := filter (\<lambda>pr. \<not> mature info pr) (si_PendingRewards info)\<rparr>)"
    using pay_balance [of c "Balance E acc" ?xs]
    by (simp add: deliverMintRewardInEpoch_def rm(1) case_prod_beta del: map_map)
  with reward_payments [OF assms(2) rm(3)] rm(2) that show thesis by blast
qed

lemma clear_eq:
  assumes "unique_validators (si_Validators info)" and "is_iter it"
  obtains xs c' where "mset xs = mset (refund_payments info)"
    and "clearUselessValidators E it c acc info = (c',
      info\<lparr>si_Validators := filter (\<lambda>v. v_Address v \<notin> set (GetUselessValidators info)) (si_Validators info)\<rparr>)"
    and "GetStorageAt E c' = GetStorageAt E c"
    and "\<And>a. bal E c' a = (if a = StakingContractAddress then Balance E acc - sum_list (map snd xs) else bal E c a + paid_to xs a)"
proof -
  let ?xs = "map (\<lambda>a. let val = si_Validators info ! the (GetValMapByAddr info a) in (v_RewardTo val, v_StakedCoins val))
      (it (GetUselessValidators info))"
  let ?p = "foldl (pay_step E) (c, Balance E acc) ?xs"
  let ?acc = "UpdateBalance E (UpdateBalance E acc (snd ?p)) (snd ?p)"
  let ?c = "SetAccount E (SetAccount E (fst ?p) StakingContractAddress (UpdateBalance E acc (snd ?p))) StakingContractAddress ?acc"
  have "clearUselessValidators E it c acc info = (?c,
      info\<lparr>si_Validators := filter (\<lambda>v. v_Address v \<notin> set (GetUselessValidators info)) (si_Validators info)\<rparr>)"
    by (simp add: clearUselessValidators_def Let_def case_prod_beta)
  moreover have "GetStorageAt E ?c = GetStorageAt E c"
    using pay_storage [of c "Balance E acc" ?xs] by (simp add: fun_eq_iff storage_set_account)
  moreover have "bal E ?c a = (if a = StakingContractAddress then Balance E acc - sum_list (map snd ?xs) else bal E c a + paid_to ?xs a)" for a
    by (simp add: balance_update pay_balance pay_bal)
  ultimately show thesis using refund_order [OF assms(2,1)] that by blast
qed

lemma deliver_obs:
  assumes "wf_info info" and "is_iter it" and "is_iter it'" and "obs_eq E c d"
    and "deliverMintRewardInEpoch E it c acc info = Some (c1, acc1, info1)"
  shows "\<exists>d1. deliverMintRewardInEpoch E it' d acc info = Some (d1, acc1, info1) \<and> obs_eq E c1 d1"
proof -
  obtain rm xs where 1: "rewards_of info = Some rm" "mset xs = mset rm"
    "deliverMintRewardInEpoch E it c acc info = Some (fst (foldl (pay_step E) (c, Balance E acc) xs),
      UpdateBalance E acc (Balance E acc - sum_list (map snd xs)),
      info\<lparr>si_PendingRewards := filter (\<lambda>pr. \<not> mature info pr) (si_PendingRewards info)\<rparr>)"
    using deliver_eq [OF assms(1,2)] by blast
  obtain rm' ys where 2: "rewards_of info = Some rm'" "mset ys = mset rm'"
    "deliverMintRewardInEpoch E it' d acc info = Some (fst (foldl (pay_step E) (d, Balance E acc) ys),
      UpdateBalance E acc (Balance E acc - sum_list (map snd ys)),
      info\<lparr>si_PendingRewards := filter (\<lambda>pr. \<not> mature info pr) (si_PendingRewards info)\<rparr>)"
    using deliver_eq [OF assms(1,3)] by blast
  have "mset xs = mset ys" using 1 2 by simp
  then show ?thesis
    using 1(3) 2(3) assms(4,5) sum_snd_cong [of xs ys] paid_to_cong [of xs ys]
    by (auto simp: obs_eq_def pay_bal pay_storage)
qed

lemma clear_obs:
  assumes "unique_validators (si_Validators info)" and "is_iter it" and "is_iter it'" and "obs_eq E c d"
    and "clearUselessValidators E it c acc info = (c1, info1)"
  shows "\<exists>d1. clearUselessValidators E it' d acc info = (d1, info1) \<and> obs_eq E c1 d1"
proof -
  let ?info = "info\<lparr>si_Validators := filter (\<lambda>v. v_Address v \<notin> set (GetUselessValidators info)) (si_Validators info)\<rparr>"
  obtain xs c' where 1: "mset xs = mset (refund_payments info)" "clearUselessValidators E it c acc info = (c', ?info)"
    "GetStorageAt E c' = GetStorageAt E c"
    "\<And>a. bal E c' a = (if a = StakingContractAddress then Balance E acc - sum_list (map snd xs) else bal E c a + paid_to xs a)"
    using clear_eq [OF assms(1,2)] by blast
  obtain ys d' where 2: "mset ys = mset (refund_payments info)" "clearUselessValidators E it' d acc info = (d', ?info)"
    "GetStorageAt E d' = GetStorageAt E d"
    "\<And>a. bal E d' a = (if a = StakingContractAddress then Balance E acc - sum_list (map snd ys) else bal E d a + paid_to ys a)"
    using clear_eq [OF assms(1,3)] by blast
  have "mset xs = mset ys" using 1(1) 2(1) by simp
  then have "obs_eq E c' d'"
    using assms(4) 1(3,4) 2(3,4) sum_snd_cong [of xs ys] paid_to_cong [of xs ys] by (simp add: obs_eq_def)
  then show ?thesis using 1(2) 2(2) assms(5) by simp
qed

lemma save_obs:
  assumes "obs_eq E c d"
  shows "obs_eq E (ss_ctx (SaveStakingInfo E (s\<lparr>ss_ctx := c\<rparr>) info)) (ss_ctx (SaveStakingInfo E (s\<lparr>ss_ctx := d\<rparr>) info))"
  using assms msgp_runtime.Marshal_StakingInfo_nonempty [OF runtime]
  by (simp add: obs_eq_def SaveStakingInfo_def fun_eq_iff get_set_storage)

end

subsection \<open>An epoch switch\<close>

text \<open>The staking state that \<open>checkEpoch\<close> sees.\<close>

definition next_info :: "StakingInfo \<Rightarrow> StakingInfo" where
  "next_info info = (let info1 = info\<lparr>si_CurrEpochNum := si_CurrEpochNum info + 1\<rparr>
     in info1\<lparr>si_PendingRewards := filter (\<lambda>pr. \<not> mature info1 pr) (si_PendingRewards info)\<rparr>)"

lemma next_info_keeps [simp]:
  "si_Validators (next_info info) = si_Validators info" "si_CurrEpochNum (next_info info) = si_CurrEpochNum info + 1"
  by (simp_all add: next_info_def Let_def)

lemma wf_next_info: "wf_info info \<Longrightarrow> wf_info (next_info info)"
  by (auto simp: wf_info_def next_info_def Let_def)

lemma wf_info_epoch [simp]: "wf_info (info\<lparr>si_CurrEpochNum := n\<rparr>) = wf_info info"
  by (simp add: wf_info_def)

lemma liabilities_next:
  "liabilities (next_info info) + mature_total (info\<lparr>si_CurrEpochNum := si_CurrEpochNum info + 1\<rparr>) = liabilities info"
proof -
  have "(\<Sum>x\<leftarrow>filter (\<lambda>x. \<not> P x) xs. f x) + (\<Sum>x\<leftarrow>filter P xs. f x) = (\<Sum>x\<leftarrow>xs. f x :: nat)" for P f and xs :: "PendingReward list"
    by (induction xs) auto
  then show ?thesis by (simp add: liabilities_def next_info_def mature_total_def Let_def add.assoc)
qed

lemma liabilities_update_pending: "liabilities (updatePendingRewardsInNewEpoch vals info) = liabilities info"
  by (simp add: liabilities_def updatePendingRewardsInNewEpoch_def comp_def)

lemma liabilities_empower: "liabilities (info\<lparr>si_Validators := empower K (si_Validators info)\<rparr>) = liabilities info"
  by (simp add: liabilities_def empower_def comp_def)

lemma liabilities_refund:
  "liabilities (info\<lparr>si_Validators := filter (\<lambda>v. v_Address v \<notin> set (GetUselessValidators info)) (si_Validators info)\<rparr>) +
     paid_total (refund_payments info) = liabilities info"
proof -
  have "(\<Sum>x\<leftarrow>filter (\<lambda>x. \<not> P x) xs. f x) + (\<Sum>x\<leftarrow>filter P xs. f x) = (\<Sum>x\<leftarrow>xs. f x :: nat)" for f P and xs :: "Validator list"
    by (induction xs) auto
  from this [of "\<lambda>v. unat (v_StakedCoins v)" "\<lambda>v. v_Address v \<in> set (GetUselessValidators info)" "si_Validators info"]
  show ?thesis by (simp add: liabilities_def paid_total_def refund_payments_def refunds_def comp_def)
qed

text \<open>Removing useless validators leaves every pending reward with its validator.\<close>

lemma wf_after_clear:
  assumes "wf_info info"
  defines "info1 \<equiv> info\<lparr>si_Validators := filter (\<lambda>v. v_Address v \<notin> set (GetUselessValidators info)) (si_Validators info)\<rparr>"
  shows "wf_info (updatePendingRewardsInNewEpoch (GetActiveValidators (si_Validators info1) m) info1)"
proof -
  let ?keep = "filter (\<lambda>v. v_Address v \<notin> set (GetUselessValidators info)) (si_Validators info)"
  have "unique_validators ?keep" using assms(1) by (simp add: wf_info_def unique_validators_def distinct_map_filter)
  moreover have "pr_Address pr \<in> v_Address ` set ?keep" if "pr \<in> set (si_PendingRewards info)" for pr
  proof -
    obtain v where "v \<in> set (si_Validators info)" "v_Address v = pr_Address pr"
      using assms(1) \<open>pr \<in> _\<close> by (auto simp: wf_info_def)
    moreover have "pr_Address pr \<notin> set (GetUselessValidators info)"
      using \<open>pr \<in> _\<close> by (simp add: set_GetUselessValidators)
    ultimately show ?thesis by (auto intro!: image_eqI [of _ _ v])
  qed
  moreover have "v_Address v \<in> v_Address ` set ?keep" if "v \<in> set (GetActiveValidators ?keep m)" for v
    using GetActiveValidators_subset [OF that] by blast
  ultimately show ?thesis by (auto simp: wf_info_def info1_def updatePendingRewardsInNewEpoch_def)
qed

lemma p2p_ones:
  assumes "checkEpoch I info epoch posVotes = Some (ok, p2p, old, epoch')"
  shows "\<forall>p \<in> set p2p. snd p = 1"
  using assms by (auto simp: checkEpoch_def getPubkey2Power_pieces Let_def split: bind_splits)

lemma checkEpoch_iter:
  assumes "iters_ok I" and "iters_ok J" and "distinct (map fst posVotes)"
  shows "checkEpoch I info epoch posVotes = checkEpoch J info epoch posVotes"
  using getPubkey2Power_iter [OF assms] by (simp add: checkEpoch_def)

context chain_ctx
begin

text \<open>The two outcomes of \<open>SwitchEpoch\<close> on a well-formed state.\<close>

lemma SwitchEpoch_cases:
  assumes "LoadStakingAccAndInfo E (ss_ctx s) = Some (acc, info)" and "wf_info info" and "iters_ok I"
    and "SwitchEpoch E I s epoch posVotes = Some (r, ep, t)"
  obtains c acc1 p2p old ok info4
  where "deliverMintRewardInEpoch E (it_rewardMap I) (SaveEpoch E (ss_ctx s) (epoch\<lparr>e_Number := si_CurrEpochNum info + 1\<rparr>)) acc
      (info\<lparr>si_CurrEpochNum := si_CurrEpochNum info + 1\<rparr>) = Some (c, acc1, next_info info)"
    and "checkEpoch I (next_info info) (epoch\<lparr>e_Number := si_CurrEpochNum info + 1\<rparr>) posVotes = Some (ok, p2p, old, ep)"
    and "\<not> ok \<Longrightarrow> r = None \<and> t = SaveStakingInfo E (s\<lparr>ss_ctx := c\<rparr>) (updatePendingRewardsInNewEpoch old (next_info info))"
    and "ok \<Longrightarrow> info4 = (next_info info)\<lparr>si_Validators := empower (fst ` set p2p) (si_Validators info)\<rparr>"
    and "ok \<Longrightarrow> (\<exists>c2 info5. clearUselessValidators E (it_useless I) c acc1 info4 = (c2, info5) \<and>
        r = Some (GetActiveValidators (si_Validators info5) MinimumStakingAmount) \<and>
        t = SaveStakingInfo E (s\<lparr>ss_ctx := c2\<rparr>)
          (updatePendingRewardsInNewEpoch (GetActiveValidators (si_Validators info5) MinimumStakingAmount) info5))"
proof -
  let ?ep = "epoch\<lparr>e_Number := si_CurrEpochNum info + 1\<rparr>"
  let ?info = "info\<lparr>si_CurrEpochNum := si_CurrEpochNum info + 1\<rparr>"
  have wf: "wf_info ?info" using assms(2) by simp
  have it: "is_iter (it_rewardMap I)" "is_iter (it_pubkey2power I)" using assms(3) by (simp_all add: iters_ok_def)
  obtain c acc1 where dl: "deliverMintRewardInEpoch E (it_rewardMap I) (SaveEpoch E (ss_ctx s) ?ep) acc ?info =
      Some (c, acc1, next_info info)"
    by (rule deliver_eq [OF wf it(1), of "SaveEpoch E (ss_ctx s) ?ep" acc]) (simp add: next_info_def Let_def)
  obtain ok p2p old where ce: "checkEpoch I (next_info info) ?ep posVotes = Some (ok, p2p, old, ep)"
    using assms(4) unfolding SwitchEpoch_def by (auto simp: assms(1) dl Let_def split: bind_splits if_splits prod.splits)
  have up: "updateVotingPower (it_pubkey2power I) (next_info info) p2p =
      (next_info info)\<lparr>si_Validators := empower (fst ` set p2p) (si_Validators info)\<rparr>"
    using updateVotingPower_eq [OF _ it(2) p2p_ones [OF ce]] assms(2) by (simp add: wf_info_def)
  show thesis
    using assms(4) unfolding SwitchEpoch_def
    by (intro that [OF dl ce]) (auto simp: assms(1) dl ce up Let_def split: prod.splits)
qed

lemma SwitchEpoch_iter:
  assumes load: "LoadStakingAccAndInfo E (ss_ctx s) = Some (acc, info)" and wf: "wf_info info"
    and I: "iters_ok I" and J: "iters_ok J" and votes: "distinct (map fst posVotes)"
    and run: "SwitchEpoch E I s epoch posVotes = Some (r, ep, t)"
  shows "\<exists>t'. SwitchEpoch E J s epoch posVotes = Some (r, ep, t') \<and>
    readonlyStakingInfo t' = readonlyStakingInfo t \<and> obs_eq E (ss_ctx t) (ss_ctx t')"
proof -
  let ?ep = "epoch\<lparr>e_Number := si_CurrEpochNum info + 1\<rparr>"
  let ?info = "info\<lparr>si_CurrEpochNum := si_CurrEpochNum info + 1\<rparr>"
  let ?c = "SaveEpoch E (ss_ctx s) ?ep"
  have refl: "obs_eq E c c" for c by (simp add: obs_eq_def)
  have it: "is_iter (it_rewardMap I)" "is_iter (it_rewardMap J)" "is_iter (it_useless I)" "is_iter (it_useless J)"
    "is_iter (it_pubkey2power J)" using I J by (simp_all add: iters_ok_def)
  from SwitchEpoch_cases [OF load wf I run] obtain c acc1 p2p old ok info4 where
    dl: "deliverMintRewardInEpoch E (it_rewardMap I) ?c acc ?info = Some (c, acc1, next_info info)"
    and ce: "checkEpoch I (next_info info) ?ep posVotes = Some (ok, p2p, old, ep)"
    and bad: "\<not> ok \<Longrightarrow> r = None \<and> t = SaveStakingInfo E (s\<lparr>ss_ctx := c\<rparr>) (updatePendingRewardsInNewEpoch old (next_info info))"
    and info4: "ok \<Longrightarrow> info4 = (next_info info)\<lparr>si_Validators := empower (fst ` set p2p) (si_Validators info)\<rparr>"
    and good: "ok \<Longrightarrow> (\<exists>c2 info5. clearUselessValidators E (it_useless I) c acc1 info4 = (c2, info5) \<and>
        r = Some (GetActiveValidators (si_Validators info5) MinimumStakingAmount) \<and>
        t = SaveStakingInfo E (s\<lparr>ss_ctx := c2\<rparr>)
          (updatePendingRewardsInNewEpoch (GetActiveValidators (si_Validators info5) MinimumStakingAmount) info5))"
    by metis
  obtain d where d: "deliverMintRewardInEpoch E (it_rewardMap J) ?c acc ?info = Some (d, acc1, next_info info)" "obs_eq E c d"
    using deliver_obs [OF _ it(1,2) refl dl] wf by auto
  have ceJ: "checkEpoch J (next_info info) ?ep posVotes = Some (ok, p2p, old, ep)"
    using ce checkEpoch_iter [OF I J votes] by simp
  have up: "updateVotingPower (it_pubkey2power J) (next_info info) p2p =
      (next_info info)\<lparr>si_Validators := empower (fst ` set p2p) (si_Validators info)\<rparr>"
    using updateVotingPower_eq [OF _ it(5) p2p_ones [OF ce]] wf by (simp add: wf_info_def)
  show ?thesis
  proof (cases ok)
    case False
    then show ?thesis using bad save_obs [OF d(2)]
      by (simp add: SwitchEpoch_def load d(1) ceJ Let_def) (simp add: SaveStakingInfo_def)
  next
    case True
    then obtain c2 info5 where g: "clearUselessValidators E (it_useless I) c acc1 info4 = (c2, info5)"
      "r = Some (GetActiveValidators (si_Validators info5) MinimumStakingAmount)"
      "t = SaveStakingInfo E (s\<lparr>ss_ctx := c2\<rparr>)
          (updatePendingRewardsInNewEpoch (GetActiveValidators (si_Validators info5) MinimumStakingAmount) info5)"
      using good by blast
    have "unique_validators (si_Validators info4)" using wf info4 [OF True] by (simp add: wf_info_def)
    from clear_obs [OF this it(3,4) d(2) g(1)] obtain d2 where
      d2: "clearUselessValidators E (it_useless J) d acc1 info4 = (d2, info5)" "obs_eq E c2 d2" by blast
    show ?thesis using True save_obs [OF d2(2)] d2(1)
      by (simp add: SwitchEpoch_def load d(1) ceJ up info4 g Let_def) (simp add: SaveStakingInfo_def)
  qed
qed

lemma coins_split:
  assumes "finite S" and "a \<in> S"
  shows "coins_on E c S = unat (bal E c a) + coins_on E c (S - {a})"
  using assms by (simp add: coins_on_def sum.remove)

text \<open>The rewards that mature are paid from the contract's balance.\<close>

lemma deliver_coins:
  assumes wf: "wf_info info" and it: "is_iter it" and S: "finite S" "v_RewardTo ` set (si_Validators info) \<subseteq> S"
    and fits: "coins_on E c S + mature_total info < 2 ^ 256" and funded: "mature_total info \<le> unat (Balance E acc)"
    and dl: "deliverMintRewardInEpoch E it c acc info = Some (c1, acc1, info1)"
  shows "coins_on E c1 S = coins_on E c S + mature_total info"
    and "unat (Balance E acc1) = unat (Balance E acc) - mature_total info"
    and "GetStorageAt E c1 = GetStorageAt E c"
    and "StakingContractAddress \<notin> v_RewardTo ` set (si_Validators info) \<Longrightarrow> bal E c1 StakingContractAddress = bal E c StakingContractAddress"
proof -
  obtain rm xs where x: "rewards_of info = Some rm" "mset xs = mset rm"
    and eq: "deliverMintRewardInEpoch E it c acc info = Some (fst (foldl (pay_step E) (c, Balance E acc) xs),
      UpdateBalance E acc (Balance E acc - sum_list (map snd xs)),
      info\<lparr>si_PendingRewards := filter (\<lambda>pr. \<not> mature info pr) (si_PendingRewards info)\<rparr>)"
    using deliver_eq [OF wf it] by blast
  have rm: "fst ` set rm \<subseteq> v_RewardTo ` set (si_Validators info)" "paid_total rm = mature_total info"
    using rewards_of_wf [OF wf] x(1) fits by auto
  have keys: "fst ` set xs \<subseteq> v_RewardTo ` set (si_Validators info)" using rm(1) mset_eq_setD [OF x(2)] by simp
  have tot: "paid_total xs = mature_total info" using paid_total_cong [OF x(2)] rm(2) by simp
  have c1: "c1 = fst (foldl (pay_step E) (c, Balance E acc) xs)"
    and acc1: "acc1 = UpdateBalance E acc (Balance E acc - sum_list (map snd xs))" using dl eq by auto
  show "coins_on E c1 S = coins_on E c S + mature_total info"
    unfolding c1 using coins_on_pay [OF S(1), of xs c] keys S(2) fits tot by auto
  have sum: "unat (sum_list (map snd xs)) = mature_total info" using paid_total_le_sum [of xs] tot fits by simp
  then have "sum_list (map snd xs) \<le> Balance E acc" using funded by (simp add: word_le_nat_alt)
  then show "unat (Balance E acc1) = unat (Balance E acc) - mature_total info"
    by (simp add: acc1 balance_update unat_sub_le sum)
  show "GetStorageAt E c1 = GetStorageAt E c" by (simp add: c1 pay_storage)
  show "bal E c1 StakingContractAddress = bal E c StakingContractAddress"
    if "StakingContractAddress \<notin> v_RewardTo ` set (si_Validators info)"
  proof -
    have "filter (\<lambda>p. fst p = StakingContractAddress) xs = []" using that keys by (auto simp: filter_empty_conv)
    then show ?thesis by (simp add: c1 pay_bal paid_to_def)
  qed
qed

text \<open>The stakes of the removed validators go back to them.\<close>

lemma clear_coins:
  assumes uniq: "unique_validators (si_Validators info)" and it: "is_iter it"
    and S: "finite S" "StakingContractAddress \<in> S" "v_RewardTo ` set (si_Validators info) \<subseteq> S - {StakingContractAddress}"
    and fits: "coins_on E c (S - {StakingContractAddress}) + paid_total (refund_payments info) < 2 ^ 256"
    and funded: "paid_total (refund_payments info) \<le> unat (Balance E acc)"
    and cl: "clearUselessValidators E it c acc info = (c1, info1)"
  shows "coins_on E c1 S = coins_on E c (S - {StakingContractAddress}) + unat (Balance E acc)"
    and "unat (bal E c1 StakingContractAddress) = unat (Balance E acc) - paid_total (refund_payments info)"
proof -
  let ?R = "S - {StakingContractAddress}"
  obtain xs c' where x: "mset xs = mset (refund_payments info)"
    and eq: "clearUselessValidators E it c acc info = (c',
      info\<lparr>si_Validators := filter (\<lambda>v. v_Address v \<notin> set (GetUselessValidators info)) (si_Validators info)\<rparr>)"
    and bal: "\<And>a. bal E c' a = (if a = StakingContractAddress then Balance E acc - sum_list (map snd xs) else bal E c a + paid_to xs a)"
    using clear_eq [OF uniq it] by blast
  have c1: "c1 = c'" using cl eq by simp
  have tot: "paid_total xs = paid_total (refund_payments info)" by (rule paid_total_cong [OF x])
  have "set xs = set (refund_payments info)" using x by (rule mset_eq_setD)
  then have keys: "fst ` set xs \<subseteq> ?R" using S(3) by (auto simp: refund_payments_def refunds_def)
  let ?d = "fst (foldl (pay_step E) (c, Balance E acc) xs)"
  have "coins_on E c1 ?R = coins_on E ?d ?R" unfolding coins_on_def c1
    by (rule sum.cong) (simp_all add: bal pay_bal)
  also have "\<dots> = coins_on E c ?R + paid_total xs"
    using coins_on_pay [of ?R xs c] S(1) keys fits tot by simp
  finally have rest: "coins_on E c1 ?R = coins_on E c ?R + paid_total xs" .
  have "paid_total xs < 2 ^ 256" using fits tot by simp
  then have sum: "unat (sum_list (map snd xs)) = paid_total xs" by (rule paid_total_le_sum)
  then have "sum_list (map snd xs) \<le> Balance E acc" using funded tot by (simp add: word_le_nat_alt)
  then show st: "unat (bal E c1 StakingContractAddress) = unat (Balance E acc) - paid_total (refund_payments info)"
    by (simp add: c1 bal unat_sub_le sum tot)
  show "coins_on E c1 S = coins_on E c ?R + unat (Balance E acc)"
    using rest st funded tot by (simp add: coins_split [OF S(1,2)])
qed

lemma SwitchEpoch_invalidE:
  assumes "LoadStakingAccAndInfo E (ss_ctx s) = Some (acc, info)" and "wf_info info" and "iters_ok I"
    and "SwitchEpoch E I s epoch posVotes = Some (None, ep, t)"
  obtains c acc1 old
  where "deliverMintRewardInEpoch E (it_rewardMap I) (SaveEpoch E (ss_ctx s) (epoch\<lparr>e_Number := si_CurrEpochNum info + 1\<rparr>)) acc
      (info\<lparr>si_CurrEpochNum := si_CurrEpochNum info + 1\<rparr>) = Some (c, acc1, next_info info)"
    and "t = SaveStakingInfo E (s\<lparr>ss_ctx := c\<rparr>) (updatePendingRewardsInNewEpoch old (next_info info))"
  by (rule SwitchEpoch_cases [OF assms]) (metis that option.distinct(1))

lemma SwitchEpoch_validE:
  assumes "LoadStakingAccAndInfo E (ss_ctx s) = Some (acc, info)" and "wf_info info" and "iters_ok I"
    and "SwitchEpoch E I s epoch posVotes = Some (Some vals, ep, t)"
  obtains c acc1 K c2 info5
  where "deliverMintRewardInEpoch E (it_rewardMap I) (SaveEpoch E (ss_ctx s) (epoch\<lparr>e_Number := si_CurrEpochNum info + 1\<rparr>)) acc
      (info\<lparr>si_CurrEpochNum := si_CurrEpochNum info + 1\<rparr>) = Some (c, acc1, next_info info)"
    and "clearUselessValidators E (it_useless I) c acc1 ((next_info info)\<lparr>si_Validators := empower K (si_Validators info)\<rparr>) = (c2, info5)"
    and "t = SaveStakingInfo E (s\<lparr>ss_ctx := c2\<rparr>)
      (updatePendingRewardsInNewEpoch (GetActiveValidators (si_Validators info5) MinimumStakingAmount) info5)"
  by (rule SwitchEpoch_cases [OF assms]) (metis that option.distinct(1))

text \<open>An epoch that is not valid: the rewards are paid, the balance of the contract is not reduced.\<close>

lemma SwitchEpoch_invalid_coins:
  assumes load: "LoadStakingAccAndInfo E (ss_ctx s) = Some (acc, info)" and wf: "wf_info info" and I: "iters_ok I"
    and S: "finite S" "v_RewardTo ` set (si_Validators info) \<subseteq> S - {StakingContractAddress}"
    and fits: "coins_on E (ss_ctx s) S + liabilities info < 2 ^ 256" and funded: "liabilities info \<le> unat (Balance E acc)"
    and run: "SwitchEpoch E I s epoch posVotes = Some (None, ep, t)"
  shows "coins_on E (ss_ctx t) S = coins_on E (ss_ctx s) S + mature_total (info\<lparr>si_CurrEpochNum := si_CurrEpochNum info + 1\<rparr>) \<and>
    bal E (ss_ctx t) StakingContractAddress = Balance E acc \<and>
    (\<exists>info'. readonlyStakingInfo t = Some info' \<and>
       liabilities info' + mature_total (info\<lparr>si_CurrEpochNum := si_CurrEpochNum info + 1\<rparr>) = liabilities info)"
proof -
  let ?info = "info\<lparr>si_CurrEpochNum := si_CurrEpochNum info + 1\<rparr>"
  let ?ep = "epoch\<lparr>e_Number := si_CurrEpochNum info + 1\<rparr>"
  have it: "is_iter (it_rewardMap I)" using I by (simp add: iters_ok_def)
  from SwitchEpoch_invalidE [OF load wf I run] obtain c acc1 old where
    dl: "deliverMintRewardInEpoch E (it_rewardMap I) (SaveEpoch E (ss_ctx s) ?ep) acc ?info = Some (c, acc1, next_info info)"
    and t: "t = SaveStakingInfo E (s\<lparr>ss_ctx := c\<rparr>) (updatePendingRewardsInNewEpoch old (next_info info))" by blast
  have same: "bal E (SaveEpoch E (ss_ctx s) ?ep) = bal E (ss_ctx s)" by (rule ext) (simp add: bal_def)
  note m = liabilities_next [of info]
  have "mature_total ?info \<le> liabilities info" using m by simp
  then have lim: "coins_on E (SaveEpoch E (ss_ctx s) ?ep) S + mature_total ?info < 2 ^ 256"
      "mature_total ?info \<le> unat (Balance E acc)"
    using fits funded by (simp_all add: coins_on_def same)
  note d = deliver_coins [OF _ it S(1) _ lim dl]
  have acc: "bal E (ss_ctx s) StakingContractAddress = Balance E acc"
    using load by (auto simp: LoadStakingAccAndInfo_def bal_def split: bind_splits)
  have "coins_on E c S = coins_on E (ss_ctx s) S + mature_total ?info"
    using d(1) wf S(2) by (auto simp: coins_on_def same)
  moreover have "bal E c StakingContractAddress = Balance E acc" using d(4) wf S(2) acc by (auto simp: same)
  ultimately show ?thesis using m
    by (simp add: t coins_on_def) (simp add: SaveStakingInfo_def liabilities_update_pending)
qed

text \<open>A valid epoch: coins move between the contract and the receivers only.\<close>

lemma SwitchEpoch_valid_coins:
  assumes load: "LoadStakingAccAndInfo E (ss_ctx s) = Some (acc, info)" and wf: "wf_info info" and I: "iters_ok I"
    and S: "finite S" "StakingContractAddress \<in> S" "v_RewardTo ` set (si_Validators info) \<subseteq> S - {StakingContractAddress}"
    and fits: "coins_on E (ss_ctx s) S < 2 ^ 256" and funded: "liabilities info \<le> unat (Balance E acc)"
    and run: "SwitchEpoch E I s epoch posVotes = Some (Some vals, ep, t)"
  shows "coins_on E (ss_ctx t) S = coins_on E (ss_ctx s) S \<and>
    (\<exists>info'. readonlyStakingInfo t = Some info' \<and> wf_info info' \<and>
       unat (bal E (ss_ctx t) StakingContractAddress) + liabilities info = unat (Balance E acc) + liabilities info')"
proof -
  let ?info = "info\<lparr>si_CurrEpochNum := si_CurrEpochNum info + 1\<rparr>"
  let ?ep = "epoch\<lparr>e_Number := si_CurrEpochNum info + 1\<rparr>"
  let ?st = "StakingContractAddress" and ?R = "S - {StakingContractAddress}"
  have it: "is_iter (it_rewardMap I)" "is_iter (it_useless I)" using I by (simp_all add: iters_ok_def)
  from SwitchEpoch_validE [OF load wf I run] obtain c acc1 K c2 info5 where
    dl: "deliverMintRewardInEpoch E (it_rewardMap I) (SaveEpoch E (ss_ctx s) ?ep) acc ?info = Some (c, acc1, next_info info)"
    and cl': "clearUselessValidators E (it_useless I) c acc1 ((next_info info)\<lparr>si_Validators := empower K (si_Validators info)\<rparr>) = (c2, info5)"
    and t: "t = SaveStakingInfo E (s\<lparr>ss_ctx := c2\<rparr>)
      (updatePendingRewardsInNewEpoch (GetActiveValidators (si_Validators info5) MinimumStakingAmount) info5)" by blast
  define info4 where info4: "info4 = (next_info info)\<lparr>si_Validators := empower K (si_Validators info)\<rparr>"
  note cl = cl' [folded info4]
  have wf4: "wf_info info4" using wf_next_info [OF wf] unfolding info4 wf_info_def by (simp del: set_map)
  have info5: "info5 = info4\<lparr>si_Validators := filter (\<lambda>v. v_Address v \<notin> set (GetUselessValidators info4)) (si_Validators info4)\<rparr>"
    using clear_eq [of info4 "it_useless I" c acc1] wf4 it(2) cl by (auto simp: wf_info_def)
  have same: "bal E (SaveEpoch E (ss_ctx s) ?ep) = bal E (ss_ctx s)" by (rule ext) (simp add: bal_def)
  have acc: "bal E (ss_ctx s) ?st = Balance E acc"
    using load by (auto simp: LoadStakingAccAndInfo_def bal_def split: bind_splits)
  have m: "liabilities (next_info info) + mature_total ?info = liabilities info" by (rule liabilities_next)
  have l4: "liabilities info4 = liabilities (next_info info)" using liabilities_empower [of K "next_info info"] by (simp add: info4)
  have l5: "liabilities info5 + paid_total (refund_payments info4) = liabilities info4"
    unfolding info5 by (rule liabilities_refund)
  have all: "coins_on E (ss_ctx s) S = unat (Balance E acc) + coins_on E (ss_ctx s) ?R"
    using coins_split [OF S(1,2)] acc by simp
  have R: "coins_on E (SaveEpoch E (ss_ctx s) ?ep) ?R + mature_total ?info < 2 ^ 256"
    "mature_total ?info \<le> unat (Balance E acc)" "finite ?R"
    using fits funded m all S(1) by (simp_all add: coins_on_def same)
  note d = deliver_coins [OF _ it(1) R(3) _ R(1,2) dl]
  have dc: "coins_on E c ?R = coins_on E (ss_ctx s) ?R + mature_total ?info"
    "unat (Balance E acc1) = unat (Balance E acc) - mature_total ?info"
    using d(1,2) wf S(3) by (auto simp: coins_on_def same)
  have "v_RewardTo ` set (si_Validators info4) = v_RewardTo ` set (si_Validators info)"
    by (simp add: info4 empower_def image_image)
  moreover have "coins_on E c ?R + paid_total (refund_payments info4) < 2 ^ 256"
    "paid_total (refund_payments info4) \<le> unat (Balance E acc1)"
    using dc all fits funded m l4 l5 by simp_all
  ultimately have k: "coins_on E c2 S = coins_on E c ?R + unat (Balance E acc1)"
    "unat (bal E c2 ?st) = unat (Balance E acc1) - paid_total (refund_payments info4)"
    using clear_coins [OF _ it(2) S(1,2) _ _ _ cl] wf4 S(3) by (auto simp: wf_info_def)
  have "coins_on E c2 S = coins_on E (ss_ctx s) S" using k(1) dc all R(2) by simp
  moreover have "unat (bal E c2 ?st) + liabilities info = unat (Balance E acc) + liabilities info5"
    using k(2) dc(2) m l4 l5 funded by simp
  moreover have "wf_info (updatePendingRewardsInNewEpoch (GetActiveValidators (si_Validators info5) MinimumStakingAmount) info5)"
    using wf_after_clear [OF wf4] by (simp add: info5)
  ultimately show ?thesis
    by (simp add: t coins_on_def) (simp add: SaveStakingInfo_def liabilities_update_pending)
qed

end

subsection \<open>The properties\<close>

text \<open>The winners among the entries of a table of votes.\<close>

lemma elected_ranked:
  assumes it: "is_iter it" and d: "distinct (map fst vv)"
    and look: "\<And>k. map_of vv k = (if C k then Some (f k) else None)"
  defines "e \<equiv> elected (nominees it vv)"
  shows "distinct (map n_Pubkey e)" and "length e = min MaxActiveValidatorCount (card {k. C k})"
    and "\<And>k. k \<in> n_Pubkey ` set e \<Longrightarrow> C k"
    and "\<And>k j. k \<in> n_Pubkey ` set e \<Longrightarrow> C j \<Longrightarrow> j \<notin> n_Pubkey ` set e \<Longrightarrow> sint (f j) < sint (f k) \<or> f j = f k \<and> k < j"
proof -
  let ?h = "nominees it vv" and ?n = "\<lambda>k. \<lparr>n_Pubkey = k, n_NominatedCount = f k\<rparr>"
  have dom: "fst ` set vv = {k. C k}" using look by (auto simp flip: dom_map_of_conv_image_fst split: if_splits)
  have len: "card {k. C k} = length vv" using distinct_card [OF d] dom by simp
  have "length (it (map fst vv)) = length vv" using is_iter_mset [OF it] by (metis length_map mset_eq_length)
  then have hlen: "length ?h = length vv" by (simp add: nominees_def)
  have hset: "set ?h = ?n ` {k. C k}" using it dom look by (auto simp: nominees_def image_iff)
  have p: "mset (heap_Init nomination_less ?h) = mset ?h" "length (heap_Init nomination_less ?h) = length ?h"
    using heap_Init_perm by blast+
  obtain rest where rest: "mset ?h = mset e + mset rest" "length e = min MaxActiveValidatorCount (length vv)"
    "\<forall>a \<in> set e. \<forall>b \<in> set rest. \<not> nomination_less b a"
    using nom.heap_PopN_smallest [of "heap_Init nomination_less ?h" MaxActiveValidatorCount] nom.heap_Init_above [of ?h] p hlen
    by (auto simp: e_def elected_def)
  have all: "set ?h = set e \<union> set rest" using rest(1) by (metis set_mset_mset set_mset_union)
  have "mset (map n_Pubkey ?h) = mset (map n_Pubkey (e @ rest))" using rest(1) by simp
  moreover have "distinct (map n_Pubkey ?h)" using it d by (simp add: nominees_def comp_def)
  ultimately have "distinct (map n_Pubkey (e @ rest))" using mset_eq_imp_distinct_iff by blast
  then show "distinct (map n_Pubkey e)" by simp
  show "length e = min MaxActiveValidatorCount (card {k. C k})" using rest(2) len by simp
  have shape: "n = ?n (n_Pubkey n) \<and> C (n_Pubkey n)" if "n \<in> set e" for n
  proof -
    have "n \<in> ?n ` {k. C k}" using that all hset by blast
    then show ?thesis by auto
  qed
  then show "C k" if "k \<in> n_Pubkey ` set e" for k using that by auto
  show "sint (f j) < sint (f k) \<or> f j = f k \<and> k < j"
    if k: "k \<in> n_Pubkey ` set e" and j: "C j" "j \<notin> n_Pubkey ` set e" for j k
  proof -
    have a: "?n k \<in> set e" using k shape by auto
    have "?n j \<in> set ?h" using j(1) hset by auto
    moreover have "?n j \<notin> set e" using j(2) by force
    ultimately have "\<not> nomination_less (?n j) (?n k)" using rest(3) a all by blast
    moreover have "?n k \<noteq> ?n j" using j(2) k by auto
    ultimately have "nomination_less (?n k) (?n j)" using nom.total by blast
    then show ?thesis by (auto simp: nomination_less_iff)
  qed
qed

text \<open>The table of votes that an epoch and the proof-of-stake votes give.\<close>

lemma vote_table:
  assumes "is_iter it" and "distinct (map fst posVotes)" and "map n_Pubkey noms = map n_Pubkey (e_Nominations epoch)"
  shows "map_of (foldl vote_step (valid_votes it info posVotes) (filter (\<lambda>n. validatorSet info (n_Pubkey n)) noms)) k = (if candidate info epoch posVotes k then Some (votes_for (epoch\<lparr>e_Nominations := noms\<rparr>) posVotes k) else None)"
proof -
  have pk: "n_Pubkey ` set noms = n_Pubkey ` set (e_Nominations epoch)" using assms(3) by (metis set_map)
  note start = valid_votes_facts(2) [OF assms(1,2), of info k]
  show ?thesis
  proof (cases "validatorSet info k")
    case True
    have "filter (\<lambda>n. n_Pubkey n = k) (filter (\<lambda>n. validatorSet info (n_Pubkey n)) noms) = filter (\<lambda>n. n_Pubkey n = k) noms"
      using True by (auto intro: filter_cong)
    moreover have "k \<in> n_Pubkey ` set (filter (\<lambda>n. validatorSet info (n_Pubkey n)) noms) \<longleftrightarrow> k \<in> n_Pubkey ` set noms"
      using True by auto
    ultimately show ?thesis
      using True start by (simp add: map_of_vote_fold candidate_def votes_for_def pk map_of_eq_None_iff)
  next
    case False
    then have "k \<notin> n_Pubkey ` set (filter (\<lambda>n. validatorSet info (n_Pubkey n)) noms)" by auto
    with False start show ?thesis by (simp add: map_of_vote_fold candidate_def)
  qed
qed

text \<open>
  C10: an election picks, among the keys of non-retiring validators that got a vote, the
  at most fifty with the most votes (ties by smaller key), each once and with power one;
  the reported total is the number of nominations of such keys.
\<close>

theorem getPubkey2Power_selects:
  assumes "iters_ok I" and "distinct (map fst posVotes)"
    and run: "getPubkey2Power I info epoch posVotes = Some (pow, p2p, epoch')"
  shows "distinct (map fst p2p) \<and> (\<forall>p \<in> set p2p. snd p = 1) \<and>
    length p2p = min MaxActiveValidatorCount (card {k. candidate info epoch posVotes k}) \<and>
    (\<forall>k \<in> fst ` set p2p. candidate info epoch posVotes k \<and>
      (\<forall>j. candidate info epoch posVotes j \<longrightarrow> j \<notin> fst ` set p2p \<longrightarrow>
         sint (votes_for epoch' posVotes j) < sint (votes_for epoch' posVotes k) \<or>
         votes_for epoch' posVotes j = votes_for epoch' posVotes k \<and> k < j)) \<and>
    pow = (\<Sum>n\<leftarrow>filter (\<lambda>n. validatorSet info (n_Pubkey n)) (e_Nominations epoch). n_NominatedCount n)"
proof -
  let ?v = "valid_votes (it_posVotes I) info posVotes"
  have it: "is_iter (it_posVotes I)" "is_iter (it_validVotes I)" using assms(1) by (simp_all add: iters_ok_def)
  obtain noms where keys: "map n_Pubkey noms = map n_Pubkey (e_Nominations epoch)"
    and p2p: "p2p = map (\<lambda>n. (n_Pubkey n, 1)) (elected (nominees (it_validVotes I)
      (foldl vote_step ?v (filter (\<lambda>n. validatorSet info (n_Pubkey n)) noms))))"
    and ep: "epoch' = epoch\<lparr>e_Nominations := noms\<rparr>"
    and pow: "pow = (\<Sum>n\<leftarrow>filter (\<lambda>n. validatorSet info (n_Pubkey n)) (e_Nominations epoch). n_NominatedCount n)"
    using run unfolding getPubkey2Power_pieces
    by (auto simp: Let_def split: bind_splits if_splits dest: scale_pubkeys)
  let ?vv = "foldl vote_step ?v (filter (\<lambda>n. validatorSet info (n_Pubkey n)) noms)"
  have "distinct (map fst ?vv)" by (intro distinct_vote_fold valid_votes_facts(1) it assms(2))
  note r = elected_ranked [OF it(2) this vote_table [OF it(1) assms(2) keys], folded ep]
  have "fst ` set p2p = n_Pubkey ` set (elected (nominees (it_validVotes I) ?vv))" by (simp add: p2p image_image)
  moreover have "distinct (map fst p2p)" using r(1) by (simp add: p2p comp_def)
  moreover have "length p2p = min MaxActiveValidatorCount (card {k. candidate info epoch posVotes k})"
    using r(2) by (simp add: p2p)
  moreover have "\<forall>p \<in> set p2p. snd p = 1" by (auto simp: p2p)
  ultimately show ?thesis using r(3,4) pow by auto
qed

text \<open>Whether an epoch switch succeeds is up to \<open>checkEpoch\<close> alone.\<close>

lemma SwitchEpoch_returns:
  assumes "chain_ctx E" and "LoadStakingAccAndInfo E (ss_ctx s) = Some (acc, info)" and "wf_info info" and "iters_ok I"
    and "checkEpoch I (next_info info) (epoch\<lparr>e_Number := si_CurrEpochNum info + 1\<rparr>) posVotes = Some (ok, p2p, old, ep)"
  shows "\<exists>r t. SwitchEpoch E I s epoch posVotes = Some (r, ep, t) \<and> (r = None \<longleftrightarrow> \<not> ok)"
proof -
  let ?info = "info\<lparr>si_CurrEpochNum := si_CurrEpochNum info + 1\<rparr>"
  let ?c = "SaveEpoch E (ss_ctx s) (epoch\<lparr>e_Number := si_CurrEpochNum info + 1\<rparr>)"
  have wf: "wf_info ?info" using assms(3) by simp
  have it: "is_iter (it_rewardMap I)" using assms(4) by (simp add: iters_ok_def)
  obtain c acc1 where "deliverMintRewardInEpoch E (it_rewardMap I) ?c acc ?info = Some (c, acc1, next_info info)"
    by (rule chain_ctx.deliver_eq [OF assms(1) wf it, of ?c acc]) (simp add: next_info_def Let_def)
  then show ?thesis using assms(2,5) by (cases ok) (simp_all add: SwitchEpoch_def Let_def case_prod_beta)
qed

text \<open>
  C4: the outcome of an epoch switch (election, payments, stored state) does not depend on
  the order in which Go walks its maps: two nodes always reach the same validators, the
  same epoch, the same balances and the same storage.
\<close>

theorem SwitchEpoch_deterministic:
  assumes "chain_ctx E" and "LoadStakingAccAndInfo E (ss_ctx s) = Some (acc, info)" and "wf_info info"
    and "iters_ok I" and "iters_ok J" and "distinct (map fst posVotes)"
    and "SwitchEpoch E I s epoch posVotes = Some (r, ep, t)"
  shows "\<exists>t'. SwitchEpoch E J s epoch posVotes = Some (r, ep, t') \<and> readonlyStakingInfo t' = readonlyStakingInfo t \<and>
    GetStorageAt E (ss_ctx t') = GetStorageAt E (ss_ctx t) \<and> (\<forall>a. bal E (ss_ctx t') a = bal E (ss_ctx t) a)"
  using chain_ctx.SwitchEpoch_iter [OF assms] by (simp add: obs_eq_def) metis


text \<open>
  when an epoch is not valid, the matured rewards are paid to the receivers and taken
  off the books, but the contract's account is never written: its balance stays, and the
  coins in circulation grow by what was paid.
\<close>

theorem SwitchEpoch_invalid_mints:
  assumes "chain_ctx E" and "LoadStakingAccAndInfo E (ss_ctx s) = Some (acc, info)" and "wf_info info" and "iters_ok I"
    and "finite S" and "v_RewardTo ` set (si_Validators info) \<subseteq> S - {StakingContractAddress}"
    and "coins_on E (ss_ctx s) S + liabilities info < 2 ^ 256" and "liabilities info \<le> unat (Balance E acc)"
    and "SwitchEpoch E I s epoch posVotes = Some (None, ep, t)"
  shows "coins_on E (ss_ctx t) S = coins_on E (ss_ctx s) S + mature_total (info\<lparr>si_CurrEpochNum := si_CurrEpochNum info + 1\<rparr>) \<and>
    bal E (ss_ctx t) StakingContractAddress = Balance E acc \<and>
    (\<exists>info'. readonlyStakingInfo t = Some info' \<and>
       liabilities info' + mature_total (info\<lparr>si_CurrEpochNum := si_CurrEpochNum info + 1\<rparr>) = liabilities info)"
  by (rule chain_ctx.SwitchEpoch_invalid_coins [OF assms])

text \<open>
  an epoch without nominations is never valid, whatever the proof-of-stake votes are:
  the switch completes, advances the epoch number and reports no new validators. The
  application builds every epoch this way.
\<close>

theorem SwitchEpoch_no_nominations:
  assumes "chain_ctx E" and "LoadStakingAccAndInfo E (ss_ctx s) = Some (acc, info)" and "wf_info info" and "iters_ok I"
    and "e_Nominations epoch = []"
  shows "\<exists>t info'. SwitchEpoch E I s epoch posVotes = Some (None, epoch\<lparr>e_Number := si_CurrEpochNum info + 1\<rparr>, t) \<and>
    readonlyStakingInfo t = Some info' \<and> si_CurrEpochNum info' = si_CurrEpochNum info + 1 \<and>
    si_Validators info' = si_Validators info"
proof -
  let ?ep = "epoch\<lparr>e_Number := si_CurrEpochNum info + 1\<rparr>"
  obtain p2p old where ce: "checkEpoch I (next_info info) ?ep posVotes = Some (False, p2p, old, ?ep)"
    using assms(5) by (auto simp: checkEpoch_def getPubkey2Power_pieces Let_def param_defs)
  from SwitchEpoch_returns [OF assms(1-4) ce] obtain t where t: "SwitchEpoch E I s epoch posVotes = Some (None, ?ep, t)"
    by auto
  then have "\<exists>info'. readonlyStakingInfo t = Some info' \<and> si_CurrEpochNum info' = si_CurrEpochNum info + 1 \<and>
      si_Validators info' = si_Validators info"
    by (rule chain_ctx.SwitchEpoch_invalidE [OF assms(1-4)])
      (simp add: SaveStakingInfo_def updatePendingRewardsInNewEpoch_def)
  with t show ?thesis by blast
qed

subsection \<open>The votes of the XHedge contract\<close>

text \<open>Dynamic arrays and maps of a contract, as the votes use them.\<close>

locale chain_maps = chain_ctx E for E :: "('c, 'a) ext" +
  assumes array_create: "GetDynamicArray E (CreateDynamicArray E c q k xs) q k = xs"
    and array_delete: "GetDynamicArray E (DeleteDynamicArray E c q k) q k = []"
    and map_set: "GetValueAtMapKey E (SetValueAtMapKey E c q k j v) q k i = (if i = j then v else GetValueAtMapKey E c q k i)"
    and map_array: "GetValueAtMapKey E (CreateDynamicArray E c q k xs) q k' j = GetValueAtMapKey E c q k' j"
    and map_take: "fst (GetAndDeleteValueAtMapKey E c q k j) = GetValueAtMapKey E c q k j"
    and map_delete: "GetValueAtMapKey E (snd (GetAndDeleteValueAtMapKey E c q k j)) q k i =
       (if i = j then [] else GetValueAtMapKey E c q k i)"
    and map_fork: "IsXHedgeFork E (SetValueAtMapKey E c q k j v) = IsXHedgeFork E c"
      "IsXHedgeFork E (snd (GetAndDeleteValueAtMapKey E c q k j)) = IsXHedgeFork E c"
      "IsXHedgeFork E (CreateDynamicArray E c q k xs) = IsXHedgeFork E c"
begin

lemma init_map:
  "GetValueAtMapKey E (foldl (\<lambda>c key. SetValueAtMapKey E c q k key v) c keys) q k i =
     (if i \<in> set keys then v else GetValueAtMapKey E c q k i)"
  by (induction keys arbitrary: c) (auto simp: map_set)

lemma init_fork: "IsXHedgeFork E (foldl (\<lambda>c key. SetValueAtMapKey E c q k key v) c keys) = IsXHedgeFork E c"
  by (induction keys arbitrary: c) (auto simp: map_fork)

lemma copy_to_full: "length pk = length v \<Longrightarrow> copy_to pk v = v"
  by (simp add: copy_to_def)

lemma pos_votes_all:
  assumes "length pk = 32"
  shows "map_of (snd (foldl (\<lambda>(pubkey, posVotes) val. let pubkey = copy_to pubkey val
      in (pubkey, AList.update (be_val pubkey) (SetBytes (g val)) posVotes)) (pk, m) (map (be_bytes 32) ks))) k =
    (if k \<in> set ks then Some (SetBytes (g (be_bytes 32 k))) else map_of m (k :: bytes32))"
  using assms by (induction ks arbitrary: pk m) (auto simp: copy_to_full update_conv' Let_def)

text \<open>Votes below one coin day leave no trace after the fork, but are taken out of the map.\<close>

lemma pos_steps_small:
  assumes "IsXHedgeFork E c" and "\<forall>v \<in> set vals. SetBytes (GetValueAtMapKey E c q SlotValidatorsMap v) < CoindayUnit"
  shows "\<exists>pk' c'. foldl (pos_step E q) (pk, m, c) vals = (pk', m, c')"
  using assms
proof (induction vals arbitrary: pk c)
  case (Cons v vals)
  obtain bz d where get: "GetAndDeleteValueAtMapKey E c q SlotValidatorsMap v = (bz, d)" by fastforce
  have bz: "bz = GetValueAtMapKey E c q SlotValidatorsMap v" and fork: "IsXHedgeFork E d"
    using map_take [of c q SlotValidatorsMap v] map_fork(2) [of c q SlotValidatorsMap v] Cons.prems(1) get by simp_all
  have small: "SetBytes bz div CoindayUnit = 0" using Cons.prems(2) bz by (simp add: div_word_less)
  have "\<forall>w \<in> set vals. SetBytes (GetValueAtMapKey E d q SlotValidatorsMap w) < CoindayUnit"
    using map_delete [of c q SlotValidatorsMap v] Cons.prems(2) get by (auto simp: CoindayUnit_def)
  from Cons.IH [OF fork this, of "copy_to pk v"] show ?case
    by (simp add: pos_step_def get Let_def fork small)
qed simp

end

interpretation mem: chain_maps mem_ext
  by unfold_locales (auto simp: mem_ext_def split: option.splits)

lemma mem_chain_maps: "chain_maps mem_ext"
  by (rule mem.chain_maps_axioms)

text \<open>
  the initial votes an epoch switch writes are visible one by one (\<open>GetPosVotes\<close>), but
  count for nothing in the next election: a vote of one unit is less than a coin day, and
  collecting the votes returns none and empties the list.
\<close>

theorem CreateInitVotes_count_nothing:
  assumes "chain_maps E" and "IsXHedgeFork E c"
  shows "map_of (GetPosVotes E (CreateInitVotes E c q vals) q) k = (if k \<in> v_Pubkey ` set vals then Some 1 else None) \<and>
    fst (GetAndClearPosVotes E (CreateInitVotes E c q vals) q) = [] \<and>
    GetPosVotes E (snd (GetAndClearPosVotes E (CreateInitVotes E c q vals) q)) q = []"
proof -
  let ?ks = "sort (map v_Pubkey vals)" and ?one = "be_bytes 32 (1 :: u256)"
  let ?c1 = "foldl (\<lambda>c key. SetValueAtMapKey E c q SlotValidatorsMap key ?one) c (map (be_bytes 32) ?ks)"
  let ?c = "CreateInitVotes E c q vals"
  have c: "?c = CreateDynamicArray E ?c1 q SlotValidatorsArray (map (be_bytes 32) ?ks)"
    by (simp add: CreateInitVotes_def Let_def)
  have arr: "GetDynamicArray E ?c q SlotValidatorsArray = map (be_bytes 32) ?ks"
    by (simp add: c chain_maps.array_create [OF assms(1)])
  have one: "SetBytes ?one = 1" unfolding SetBytes_def by simp
  have val: "GetValueAtMapKey E ?c q SlotValidatorsMap (be_bytes 32 j) = ?one" if "j \<in> set ?ks" for j
    unfolding c chain_maps.map_array [OF assms(1)] chain_maps.init_map [OF assms(1)] using that by auto
  have fork: "IsXHedgeFork E ?c"
    unfolding c chain_maps.map_fork(3) [OF assms(1)] chain_maps.init_fork [OF assms(1)] by (rule assms(2))
  have "map_of (GetPosVotes E ?c q) k = (if k \<in> set ?ks then Some 1 else None)"
    unfolding GetPosVotes_def arr
      chain_maps.pos_votes_all [OF assms(1), of "replicate 32 0" "GetValueAtMapKey E ?c q SlotValidatorsMap" "[]" ?ks k, simplified]
    using val one by simp
  moreover have "\<forall>v \<in> set (map (be_bytes 32) ?ks). SetBytes (GetValueAtMapKey E ?c q SlotValidatorsMap v) < CoindayUnit"
    using val one by (auto simp: CoindayUnit_def)
  from chain_maps.pos_steps_small [OF assms(1) fork this, of "replicate 32 0" "[]"] obtain pk d where
    "foldl (pos_step E q) (replicate 32 0, [], ?c) (map (be_bytes 32) ?ks) = (pk, [], d)" by blast
  then have g: "GetAndClearPosVotes E ?c q = ([], DeleteDynamicArray E d q SlotValidatorsArray)"
    by (simp add: GetAndClearPosVotes_def arr)
  ultimately show ?thesis by (simp add: GetPosVotes_def chain_maps.array_delete [OF assms(1)])
qed

theorem CreateInitVotes_count_nothing_witness:
  "IsXHedgeFork mem_ext mem_empty \<and>
   map_of (GetPosVotes mem_ext (CreateInitVotes mem_ext mem_empty 5 (si_Validators sample_info)) 5) 2 = Some 1 \<and>
   fst (GetAndClearPosVotes mem_ext (CreateInitVotes mem_ext mem_empty 5 (si_Validators sample_info)) 5) = []"
proof -
  have fork: "IsXHedgeFork mem_ext mem_empty" by (simp add: mem_ext_def mem_empty_def)
  have "2 \<in> v_Pubkey ` set (si_Validators sample_info)" by (simp add: sample_info_def sample_validator_def)
  with fork CreateInitVotes_count_nothing [OF mem_chain_maps fork, of 5 "si_Validators sample_info" 2] show ?thesis
    by simp
qed

subsection \<open>Examples\<close>

definition id_iters :: iters where
  "id_iters = \<lparr>it_posVotes = id, it_validVotes = id, it_pubkey2power = id, it_rewardMap = id, it_useless = id\<rparr>"

definition rev_iters :: iters where
  "rev_iters = \<lparr>it_posVotes = rev, it_validVotes = rev, it_pubkey2power = rev, it_rewardMap = rev, it_useless = rev\<rparr>"

definition voted_epoch :: Epoch where
  "voted_epoch = \<lparr>e_Number = 0, e_StartHeight = 10, e_EndTime = 20, e_Nominations = [\<lparr>n_Pubkey = 1, n_NominatedCount = 300\<rparr>]\<rparr>"

lemma iters_ok_examples: "iters_ok id_iters" "iters_ok rev_iters"
  by (simp_all add: iters_ok_def id_iters_def rev_iters_def is_iter_id is_iter_rev)

lemma sample_load:
  "LoadStakingAccAndInfo mem_ext (ss_ctx sample_state) = Some (\<lparr>ma_Balance = 5000, ma_Sequence = 0\<rparr>, sample_info)"
  using sample_state_inv sample_state_accounts(1) by (simp add: LoadStakingAccAndInfo_def contract_inv_def)

lemma sample_validatorSet: "validatorSet (next_info sample_info) k \<longleftrightarrow> k = 1 \<or> k = 2" "validatorSet sample_info k \<longleftrightarrow> k = 1 \<or> k = 2"
  by (auto simp: validatorSet_def sample_info_def sample_validator_def)

lemma voted_check:
  "checkEpoch id_iters (next_info sample_info) (voted_epoch\<lparr>e_Number := si_CurrEpochNum sample_info + 1\<rparr>) [] =
     Some (True, [(1, 1)], si_Validators sample_info, voted_epoch\<lparr>e_Number := si_CurrEpochNum sample_info + 1\<rparr>)"
proof -
  have one: "elected [n] = [n]" for n
  proof -
    have "heap_down nomination_less 0 0 h = h" for h by (subst heap_down.simps) simp
    moreover have "heap_PopN nomination_less k [] = []" for k by (cases k) simp_all
    ultimately have "heap_PopN nomination_less (Suc k) [n] = [n]" for k by (simp add: heap_Pop_def Let_def)
    from this [of 49] show ?thesis by (simp add: elected_def heap_Init_def MaxActiveValidatorCount_def)
  qed
  show ?thesis
    using sample_active
    by (simp add: checkEpoch_def getPubkey2Power_pieces valid_votes_def nominees_def id_iters_def voted_epoch_def Let_def
        sample_validatorSet vote_step_def one param_defs) (simp add: sample_info_def)
qed

lemma sample_receivers: "v_RewardTo ` set (si_Validators sample_info) = {101, 102}"
  by (simp add: sample_info_def sample_validator_def)

lemma sample_coins: "coins_on mem_ext (ss_ctx sample_state) {StakingContractAddress, 101, 102} = 5000"
  by (simp add: coins_on_def bal_def sample_state_def SaveStakingInfo_def mem_state_def mem_ext_def mem_empty_def StakingContractAddress_def)

lemma sample_liabilities: "liabilities sample_info = 2047"
  by (simp add: liabilities_def sample_info_def sample_validator_def)

lemma sample_balance: "Balance mem_ext \<lparr>ma_Balance = b, ma_Sequence = n\<rparr> = b"
  by (simp add: mem_ext_def)

theorem getPubkey2Power_selects_witness:
  "\<exists>pow p2p epoch'. getPubkey2Power id_iters sample_info voted_epoch [] = Some (pow, p2p, epoch') \<and>
     length p2p = min MaxActiveValidatorCount (card {k. candidate sample_info voted_epoch [] k})"
proof -
  obtain pow p2p epoch' where run: "getPubkey2Power id_iters sample_info voted_epoch [] = Some (pow, p2p, epoch')"
    by (simp add: getPubkey2Power_pieces valid_votes_def id_iters_def Let_def)
  moreover have "length p2p = min MaxActiveValidatorCount (card {k. candidate sample_info voted_epoch [] k})"
    using getPubkey2Power_selects [OF iters_ok_examples(1) _ run] by simp
  ultimately show ?thesis by blast
qed

theorem SwitchEpoch_deterministic_witness:
  "\<exists>r ep t t'. SwitchEpoch mem_ext id_iters sample_state voted_epoch [] = Some (r, ep, t) \<and>
     SwitchEpoch mem_ext rev_iters sample_state voted_epoch [] = Some (r, ep, t') \<and>
     readonlyStakingInfo t' = readonlyStakingInfo t"
proof -
  obtain r ep t where run: "SwitchEpoch mem_ext id_iters sample_state voted_epoch [] = Some (r, ep, t)"
    using SwitchEpoch_returns [OF mem_chain_ctx sample_load wf_sample_info iters_ok_examples(1) voted_check] by blast
  then show ?thesis
    using SwitchEpoch_deterministic [OF mem_chain_ctx sample_load wf_sample_info iters_ok_examples _ run] by auto
qed


theorem SwitchEpoch_no_nominations_witness:
  "\<exists>ep t. SwitchEpoch mem_ext id_iters sample_state (voted_epoch\<lparr>e_Nominations := []\<rparr>) [] = Some (None, ep, t)"
  using SwitchEpoch_no_nominations [OF mem_chain_ctx sample_load wf_sample_info iters_ok_examples(1),
      of "voted_epoch\<lparr>e_Nominations := []\<rparr>" "[]"] by auto

text \<open>Thirty coins of epoch 2 mature and appear twice.\<close>

theorem SwitchEpoch_invalid_mints_witness:
  "\<exists>ep t. SwitchEpoch mem_ext id_iters sample_state (voted_epoch\<lparr>e_Nominations := []\<rparr>) [] = Some (None, ep, t) \<and>
     coins_on mem_ext (ss_ctx t) {StakingContractAddress, 101, 102} = 5030"
proof -
  let ?ep = "voted_epoch\<lparr>e_Nominations := []\<rparr>"
  obtain p2p old where "checkEpoch id_iters (next_info sample_info) (?ep\<lparr>e_Number := si_CurrEpochNum sample_info + 1\<rparr>) [] =
      Some (False, p2p, old, ?ep\<lparr>e_Number := si_CurrEpochNum sample_info + 1\<rparr>)"
    by (simp add: checkEpoch_def getPubkey2Power_pieces Let_def param_defs)
  then obtain ep t where run: "SwitchEpoch mem_ext id_iters sample_state ?ep [] = Some (None, ep, t)"
    using SwitchEpoch_returns [OF mem_chain_ctx sample_load wf_sample_info iters_ok_examples(1)] by fastforce
  have "mature_total (sample_info\<lparr>si_CurrEpochNum := si_CurrEpochNum sample_info + 1\<rparr>) = 30"
    by (simp add: mature_total_def mature_def sample_info_def EpochCountBeforeRewardMature_def)
  then have "coins_on mem_ext (ss_ctx t) {StakingContractAddress, 101, 102} = 5030"
    using SwitchEpoch_invalid_mints [OF mem_chain_ctx sample_load wf_sample_info iters_ok_examples(1) _ _ _ _ run,
        of "{StakingContractAddress, 101, 102}"]
    by (simp add: sample_receivers sample_coins sample_liabilities sample_balance) (simp add: StakingContractAddress_def)
  with run show ?thesis by blast
qed

end
