(* ===== verification/App_Genesis.thy ===== *)
theory App_Genesis
  imports Staking_Epoch
begin

text \<open>
  The start of the chain and the records shown to users (\<open>src/app/genesis.go\<close>,
  \<open>src/app/validators.go\<close>, and \<open>InitChain\<close>, \<open>createGenesisAccounts\<close>,
  \<open>getValidatorsInfoFromCtx\<close> and \<open>GetCurrEpoch\<close> of \<open>src/app/app.go\<close>). The genesis data are
  given as the result of the JSON decoder, \<open>None\<close> for an error; the text form of a pending
  amount is the amount.
\<close>

record app_Validator =
  av_Address :: address
  av_Pubkey :: bytes32
  av_RewardTo :: address
  av_VotingPower :: i64
  av_Introduction :: bytes
  av_StakedCoins :: bytes32
  av_IsRetiring :: bool
  av_MinerAddress :: address

record GenesisData =
  gd_Validators :: "app_Validator list"
  gd_Alloc :: "(address \<times> int) list"

definition StakingValidators :: "GenesisData \<Rightarrow> Validator list" where
  "StakingValidators g = map (\<lambda>v. \<lparr>v_Address = av_Address v, v_Pubkey = av_Pubkey v, v_RewardTo = av_RewardTo v,
     v_VotingPower = av_VotingPower v, v_Introduction = av_Introduction v, v_StakedCoins = av_StakedCoins v,
     v_IsRetiring = av_IsRetiring v\<rparr>) (gd_Validators g)"

definition FromStakingValidator :: "('c, 'a) ext \<Rightarrow> Validator \<Rightarrow> app_Validator" where
  "FromStakingValidator E v = \<lparr>av_Address = v_Address v, av_Pubkey = v_Pubkey v, av_RewardTo = v_RewardTo v,
     av_VotingPower = v_VotingPower v, av_Introduction = v_Introduction v, av_StakedCoins = v_StakedCoins v,
     av_IsRetiring = v_IsRetiring v, av_MinerAddress = Ed25519Address E (v_Pubkey v)\<rparr>"

definition FromStakingValidators :: "('c, 'a) ext \<Rightarrow> Validator list \<Rightarrow> app_Validator list" where
  "FromStakingValidators E vs = map (FromStakingValidator E) vs"

record app_PendingReward =
  apr_Address :: address
  apr_EpochNum :: i64
  apr_Amount :: u256

record ValidatorsInfo =
  vi_GenesisMainnetBlockHeight :: i64
  vi_CurrEpochNum :: i64
  vi_Validators :: "app_Validator list"
  vi_ValidatorsUpdate :: "app_Validator list"
  vi_PendingRewards :: "app_PendingReward list"
  vi_MinGasPrice :: u64
  vi_LastMinGasPrice :: u64
  vi_CurrValidators :: "app_Validator list"

definition NewValidatorsInfo :: "('c, 'a) ext \<Rightarrow> Validator list \<Rightarrow> StakingInfo \<Rightarrow> u64 \<Rightarrow> u64 \<Rightarrow> ValidatorsInfo" where
  "NewValidatorsInfo E currValidators stakingInfo minGasPrice lastMinGasPrice = \<lparr>
     vi_GenesisMainnetBlockHeight = si_GenesisMainnetBlockHeight stakingInfo,
     vi_CurrEpochNum = si_CurrEpochNum stakingInfo,
     vi_Validators = FromStakingValidators E (si_Validators stakingInfo),
     vi_ValidatorsUpdate = FromStakingValidators E (si_ValidatorsUpdate stakingInfo),
     vi_PendingRewards = map (\<lambda>pr. \<lparr>apr_Address = pr_Address pr, apr_EpochNum = pr_EpochNum pr, apr_Amount = pr_Amount pr\<rparr>)
       (si_PendingRewards stakingInfo),
     vi_MinGasPrice = minGasPrice, vi_LastMinGasPrice = lastMinGasPrice,
     vi_CurrValidators = FromStakingValidators E currValidators\<rparr>"

definition getValidatorsInfoFromCtx :: "('c, 'a) ext \<Rightarrow> 'c \<Rightarrow> ValidatorsInfo option" where
  "getValidatorsInfoFromCtx E c = do {
     stakingInfo \<leftarrow> LoadStakingInfo E c;
     let currValidators = GetActiveValidators (si_Validators stakingInfo) MinimumStakingAmount;
     minGasPrice \<leftarrow> LoadMinGasPrice E c False;
     lastMinGasPrice \<leftarrow> LoadMinGasPrice E c True;
     Some (NewValidatorsInfo E currValidators stakingInfo minGasPrice lastMinGasPrice) }"

definition GetCurrEpoch :: "('c, 'a) ext \<Rightarrow> 'c \<Rightarrow> Epoch option" where
  "GetCurrEpoch E c = do {
     stakingInfo \<leftarrow> LoadStakingInfo E c;
     let lastEpochEndHeight = si_GenesisMainnetBlockHeight stakingInfo + StakingNumBlocksInEpoch * si_CurrEpochNum stakingInfo;
     Some \<lparr>e_Number = 0, e_StartHeight = lastEpochEndHeight + 1, e_EndTime = 0, e_Nominations = []\<rparr> }"

subsection \<open>The first state\<close>

text \<open>The allocation is a Go map, visited in any order; every account starts from the zero account.\<close>

definition createGenesisAccounts :: "('c, 'a) ext \<Rightarrow> address iter \<Rightarrow> 'c \<Rightarrow> (address \<times> int) list \<Rightarrow> 'c" where
  "createGenesisAccounts E it c alloc =
     foldl (\<lambda>c addr. SetAccount E c addr (UpdateBalance E (ZeroAccountInfo E) (word_of_int (the (map_of alloc addr)))))
       c (it (map fst alloc))"

definition InitChain :: "('c, 'a) ext \<Rightarrow> address iter \<Rightarrow> 'c staking_state \<Rightarrow> GenesisData option \<Rightarrow>
    ((bytes32 \<times> i64) list \<times> 'c staking_state) option" where
  "InitChain E it s req = do {
     genesisData \<leftarrow> req;
     let s = s\<lparr>ss_ctx := createGenesisAccounts E it (ss_ctx s) (gd_Alloc genesisData)\<rparr>;
     let genesisValidators = StakingValidators genesisData;
     if genesisValidators = [] then None
     else do {
       s \<leftarrow> AddGenesisValidatorsIntoStakingInfo E s genesisValidators;
       let currValidators = GetActiveValidators genesisValidators MinimumStakingAmount;
       Some (map (\<lambda>v. (v_Pubkey v, v_VotingPower v)) currValidators, s) } }"

subsection \<open>Properties\<close>

lemma StakingValidators_roundtrip: "StakingValidators \<lparr>gd_Validators = FromStakingValidators E vs, gd_Alloc = a\<rparr> = vs"
  by (induction vs) (simp_all add: StakingValidators_def FromStakingValidators_def FromStakingValidator_def)

lemma shown_validators:
  "getValidatorsInfoFromCtx E c = Some vi \<Longrightarrow> LoadStakingInfo E c = Some info \<Longrightarrow>
   StakingValidators \<lparr>gd_Validators = vi_Validators vi, gd_Alloc = []\<rparr> = si_Validators info \<and>
   StakingValidators \<lparr>gd_Validators = vi_CurrValidators vi, gd_Alloc = []\<rparr> = GetActiveValidators (si_Validators info) MinimumStakingAmount"
  by (auto simp: getValidatorsInfoFromCtx_def NewValidatorsInfo_def StakingValidators_roundtrip Let_def split: bind_splits)

context chain_ctx
begin

lemma genesis_accounts:
  "bal E (foldl (\<lambda>c addr. SetAccount E c addr (UpdateBalance E (ZeroAccountInfo E) (f addr))) c as) a =
     (if a \<in> set as then f a else bal E c a)"
  by (induction as arbitrary: c) (auto simp: balance_update)

lemma genesis_storage:
  "GetStorageAt E (foldl (\<lambda>c addr. SetAccount E c addr (f addr)) c as) = GetStorageAt E c"
proof (induction as arbitrary: c)
  case (Cons a as)
  have "GetStorageAt E (SetAccount E c a (f a)) = GetStorageAt E c" by (intro ext) (simp add: storage_set_account)
  with Cons show ?case by simp
qed simp

end

text \<open>
  \<open>InitChain\<close> on an empty chain gives every allocated account its coins and every other
  address what it had, whatever the order of the allocation map, registers exactly the genesis
  validators with an empty reward each, and reports to Tendermint the active ones of the
  stored registry; without validators it panics.
\<close>

theorem InitChain_correct:
  assumes "chain_ctx E" and "is_iter it" and "distinct (map fst (gd_Alloc g))"
    and "GetStorageAt E (ss_ctx s) StakingContractSequence SlotStakingInfo = None"
    and "storable_validators (StakingValidators g)"
  shows "if gd_Validators g = [] then InitChain E it s (Some g) = None
    else \<exists>info t. InitChain E it s (Some g) =
        Some (map (\<lambda>v. (v_Pubkey v, v_VotingPower v)) (GetActiveValidators (si_Validators info) MinimumStakingAmount), t) \<and>
      LoadStakingInfo E (ss_ctx t) = Some info \<and> si_Validators info = StakingValidators g \<and> liabilities info =
        (\<Sum>v\<leftarrow>StakingValidators g. unat (v_StakedCoins v)) \<and>
      (\<forall>a. bal E (ss_ctx t) a = (case map_of (gd_Alloc g) a of None \<Rightarrow> bal E (ss_ctx s) a | Some v \<Rightarrow> word_of_int v))"
proof (cases "gd_Validators g = []")
  case True
  then show ?thesis by (simp add: InitChain_def StakingValidators_def Let_def)
next
  case False
  let ?c = "createGenesisAccounts E it (ss_ctx s) (gd_Alloc g)" and ?vs = "StakingValidators g"
  let ?info = "zero_StakingInfo\<lparr>si_Validators := ?vs,
    si_PendingRewards := map (\<lambda>v. \<lparr>pr_Address = v_Address v, pr_EpochNum = 0, pr_Amount = 0\<rparr>) ?vs\<rparr>"
  let ?t = "SaveStakingInfo E (s\<lparr>ss_ctx := ?c\<rparr>) ?info"
  have "LoadStakingInfo E ?c = Some zero_StakingInfo"
    using assms(4) by (simp add: LoadStakingInfo_def createGenesisAccounts_def chain_ctx.genesis_storage [OF assms(1)])
  then have run: "InitChain E it s (Some g) =
      Some (map (\<lambda>v. (v_Pubkey v, v_VotingPower v)) (GetActiveValidators ?vs MinimumStakingAmount), ?t)"
    using False by (simp add: InitChain_def AddGenesisValidatorsIntoStakingInfo_def StakingValidators_def Let_def)
  have "storable ?info"
    using assms(5) by (simp add: storable_def storable_validators_def zero_StakingInfo_def)
  then have "LoadStakingInfo E (ss_ctx ?t) = Some ?info" by (rule chain_ctx.load_save_info [OF assms(1)])
  moreover have "bal E (ss_ctx ?t) a = (case map_of (gd_Alloc g) a of None \<Rightarrow> bal E (ss_ctx s) a | Some v \<Rightarrow> word_of_int v)" for a
    using assms(2) map_of_eq_None_iff [of "gd_Alloc g" a]
    by (auto simp: chain_ctx.bal_save_info [OF assms(1)] createGenesisAccounts_def chain_ctx.genesis_accounts [OF assms(1)] split: option.split)
  moreover have "liabilities ?info = (\<Sum>v\<leftarrow>?vs. unat (v_StakedCoins v))" by (simp add: liabilities_def comp_def)
  ultimately show ?thesis using False run by (intro iffD2 [OF if_not_P [OF False]]) (auto intro!: exI [of _ ?info] exI [of _ ?t])
qed

definition sample_genesis :: GenesisData where
  "sample_genesis = \<lparr>gd_Validators = FromStakingValidators mem_ext [sample_validator 1 1, sample_validator 2 0], gd_Alloc = [(7, 600), (8, 5)]\<rparr>"

theorem InitChain_correct_witness:
  "\<exists>t. InitChain mem_ext rev (mem_state mem_empty) (Some sample_genesis) = Some ([(1, 1)], t) \<and> bal mem_ext (ss_ctx t) 7 = 600"
proof -
  have vs: "StakingValidators sample_genesis = [sample_validator 1 1, sample_validator 2 0]"
    by (simp add: sample_genesis_def StakingValidators_roundtrip)
  have active: "map (\<lambda>v. (v_Pubkey v, v_VotingPower v)) (GetActiveValidators [sample_validator 1 1, sample_validator 2 0] MinimumStakingAmount) = [(1, 1)]"
    by code_simp
  have "gd_Validators sample_genesis \<noteq> []" by (simp add: sample_genesis_def FromStakingValidators_def)
  then show ?thesis
    using InitChain_correct [OF mem_chain_ctx is_iter_rev, of sample_genesis "mem_state mem_empty"] vs active
    by (auto simp: sample_genesis_def storable_validators_def sample_validator_def mem_state_def mem_empty_def mem_ext_def split: if_splits)
qed

end
