(* ===== verification/Eth_Tx.thy ===== *)
theory Eth_Tx
  imports Environment Go_Int64
begin

text \<open>
  Transactions and the helpers for signatures and big numbers
  (\<open>src/internal/ethutils/tx.go\<close>, \<open>src/internal/bigutils\<close>). A \<open>big.Int\<close> is an integer, a
  fixed-size array a list of its bytes. Encoding and decoding of whole transactions is code
  of the Ethereum library.
\<close>

record Tx =
  t_Hash :: bytes32
  t_Nonce :: u64
  t_Gas :: u64
  t_GasPrice :: int
  t_Value :: int
  t_Data :: bytes
  t_To :: "address option"
  t_V :: int
  t_R :: int
  t_S :: int

text \<open>\<open>big.Int.Uint64\<close> and \<open>uint256.FromBig\<close> keep the low bits, \<open>byte\<close> the lowest eight.\<close>

definition EncodeVRS :: "Tx \<Rightarrow> bytes" where
  "EncodeVRS tx =
     (let r256 = word_of_int (t_R tx) :: u256;
          s256 = word_of_int (t_S tx) :: u256
      in ucast (word_of_int (t_V tx) :: u64) # be_bytes 32 r256 @ be_bytes 32 s256)"

definition DecodeVRS :: "bytes \<Rightarrow> int \<times> int \<times> int" where
  "DecodeVRS bs = (uint (bs ! 0), int (be_nat (take 32 (drop 1 bs))), int (be_nat (take 32 (drop 33 bs))))"

text \<open>Indexing an empty slice panics, and \<open>FillBytes\<close> panics when the magnitude does not fit.\<close>

definition BigIntFromSlice32 :: "bytes \<Rightarrow> int option" where
  "BigIntFromSlice32 arr = (case arr of [] \<Rightarrow> None
     | b # _ \<Rightarrow> Some (int (be_nat (if and b 128 \<noteq> 0 then 0 # arr else arr))))"

definition BigIntToSlice32 :: "int \<Rightarrow> bytes option" where
  "BigIntToSlice32 v = (if \<bar>v\<bar> < 2 ^ 264 then Some (tl (be_bytes 33 (word_of_int \<bar>v\<bar> :: 264 word))) else None)"

definition ConvertBig :: "int \<Rightarrow> u256 option" where
  "ConvertBig v = (if \<bar>v\<bar> < 2 ^ 256 then Some (word_of_int v) else None)"

definition U256FromSlice32 :: "bytes \<Rightarrow> u256 option" where
  "U256FromSlice32 arr = SetBytes32 arr"

definition U256ToSlice32 :: "u256 \<Rightarrow> bytes" where
  "U256ToSlice32 v = be_bytes 32 v"

subsection \<open>Reading back\<close>

lemma be_nat_be_bytes_int:
  assumes "LENGTH('a) = 8 * n" and "0 \<le> v" and "v < 2 ^ LENGTH('a)"
  shows "int (be_nat (be_bytes n (word_of_int v :: 'a::len word))) = v"
  using assms by (simp add: be_nat_be_bytes unsigned_of_int take_bit_int_eq_self)

text \<open>
  The signature is read back, but of the first number only the lowest byte: for a chain id
  above 110 the value that carries it (twice the id plus 35 or 36) is lost.
\<close>

lemma DecodeVRS_EncodeVRS:
  assumes "0 \<le> t_R tx" "t_R tx < 2 ^ 256" "0 \<le> t_S tx" "t_S tx < 2 ^ 256"
  shows "DecodeVRS (EncodeVRS tx) = (t_V tx mod 256, t_R tx, t_S tx)"
proof -
  have "uint (ucast (word_of_int v :: u64) :: u8) = v mod 256" for v
    by (simp add: unsigned_ucast_eq unsigned_of_int take_bit_eq_mod mod_mod_cancel)
  then show ?thesis
    using assms by (simp add: DecodeVRS_def EncodeVRS_def Let_def be_nat_be_bytes_int)
qed

lemma DecodeVRS_EncodeVRS_witness:
  "DecodeVRS (EncodeVRS \<lparr>t_Hash = 0, t_Nonce = 0, t_Gas = 0, t_GasPrice = 0, t_Value = 0, t_Data = [], t_To = None,
     t_V = 2 * 0x59454E4951 + 35, t_R = 7, t_S = 9\<rparr>) = (197, 7, 9)"
  by (simp add: DecodeVRS_EncodeVRS)

lemma be_nat_tl_zero:
  assumes "be_nat bs < 256 ^ (length bs - 1)" and "bs \<noteq> []"
  shows "be_nat (tl bs) = be_nat bs"
proof -
  obtain b r where bs: "bs = b # r" using assms(2) by (cases bs) auto
  then have lt: "unat b * 256 ^ length r + be_nat r < 256 ^ length r" using assms(1) by (simp add: be_nat_Cons)
  have "unat b = 0"
  proof (rule ccontr)
    assume "unat b \<noteq> 0"
    then have "1 * 256 ^ length r \<le> unat b * 256 ^ length r" by (intro mult_le_mono1) simp
    with lt show False by linarith
  qed
  then show ?thesis by (simp add: bs be_nat_Cons)
qed

lemma BigIntSlice32_roundtrip:
  assumes "0 \<le> v" and "v < 2 ^ 256"
  shows "\<exists>bs. BigIntToSlice32 v = Some bs \<and> length bs = 32 \<and> BigIntFromSlice32 bs = Some v"
proof -
  let ?b = "be_bytes 33 (word_of_int v :: 264 word)"
  have v: "int (be_nat ?b) = v" using assms by (intro be_nat_be_bytes_int) simp_all
  then have "be_nat ?b < 256 ^ (length ?b - 1)" using assms by simp
  then have "be_nat (tl ?b) = be_nat ?b" by (intro be_nat_tl_zero) auto
  moreover have "length (tl ?b) = 32" by simp
  ultimately show ?thesis
    using assms v by (intro exI [of _ "tl ?b"]) (cases "tl ?b"; simp add: BigIntToSlice32_def BigIntFromSlice32_def be_nat_Cons_zero del: be_bytes_numeral)
qed

lemma U256Slice32_roundtrip: "U256FromSlice32 (U256ToSlice32 v) = Some v"
  by (simp add: U256FromSlice32_def U256ToSlice32_def)

end
