(* ===== verification/App_CheckTx.thy ===== *)
theory App_CheckTx
  imports Eth_Tx Params
begin

text \<open>
  Admission to the mempool (\<open>src/app/app.go\<close>, \<open>CheckTx\<close> and what it calls). The
  application keeps, between two blocks, a frontier with the next nonce, the remaining
  balance and the used gas of every sender it has seen, and a cache of recovered senders.

  Decoding, signature recovery, the intrinsic gas of a transaction and the frontier itself
  (\<open>ebp.Frontier\<close>) belong to other modules: they are the functions of the record
  \<open>check_ext\<close>. The locale \<open>mempool\<close> states that the frontier is a store with three
  independent values per address, and that transactions with one hash have one sender.
  The human-readable text of a response is left out.
\<close>

record SenderAndHeight =
  sh_Sender :: address
  sh_Height :: i64

record ResponseCheckTx =
  rc_Code :: u32
  rc_GasWanted :: i64

record ('a, 'f) check_ext =
  DecodeRLP :: "bytes \<Rightarrow> Tx option"
  Signer_Sender :: "Tx \<Rightarrow> address option"
  IntrinsicGas :: "bytes \<Rightarrow> bool \<Rightarrow> u64 option"
  MaxGasPrice :: u64
  AccNonce :: "'a \<Rightarrow> u64"
  GetLatestNonce :: "'f \<Rightarrow> address \<Rightarrow> u64 option"
  SetLatestNonce :: "'f \<Rightarrow> address \<Rightarrow> u64 \<Rightarrow> 'f"
  GetLatestBalance :: "'f \<Rightarrow> address \<Rightarrow> u256 option"
  SetLatestBalance :: "'f \<Rightarrow> address \<Rightarrow> u256 \<Rightarrow> 'f"
  GetLatestTotalGas :: "'f \<Rightarrow> address \<Rightarrow> u64"
  SetLatestTotalGas :: "'f \<Rightarrow> address \<Rightarrow> u64 \<Rightarrow> 'f"

record 'f app_check =
  ap_sigCache :: "(bytes32 \<times> SenderAndHeight) list"
  ap_recheckCounter :: int
  ap_frontier :: 'f
  ap_lastMinGasPrice :: u64
  ap_currHeight :: i64
  cfg_SigCacheSize :: int
  cfg_RecheckThreshold :: int
  cfg_FrontierGasLimit :: u64

definition CodeTypeOK :: u32 where "CodeTypeOK = 0"
definition CannotDecodeTx :: u32 where "CannotDecodeTx = 101"
definition CannotRecoverSender :: u32 where "CannotRecoverSender = 102"
definition SenderNotFound :: u32 where "SenderNotFound = 103"
definition AccountNonceMismatch :: u32 where "AccountNonceMismatch = 104"
definition CannotPayGasFee :: u32 where "CannotPayGasFee = 105"
definition GasLimitInvalid :: u32 where "GasLimitInvalid = 106"
definition InvalidMinGasPrice :: u32 where "InvalidMinGasPrice = 107"
definition MempoolBusy :: u32 where "MempoolBusy = 109"
definition GasLimitTooSmall :: u32 where "GasLimitTooSmall = 110"

lemmas code_defs = CodeTypeOK_def CannotDecodeTx_def CannotRecoverSender_def SenderNotFound_def AccountNonceMismatch_def
  CannotPayGasFee_def GasLimitInvalid_def InvalidMinGasPrice_def MempoolBusy_def GasLimitTooSmall_def

definition refuse :: "u32 \<Rightarrow> ResponseCheckTx" where
  "refuse code = \<lparr>rc_Code = code, rc_GasWanted = 0\<rparr>"

subsection \<open>The cache of senders\<close>

text \<open>The search for an old entry looks at six entries at most, in the order of the map.\<close>

fun evict_loop :: "(bytes32 \<times> SenderAndHeight) list \<Rightarrow> nat \<Rightarrow> i64 \<Rightarrow> bytes32 \<Rightarrow> bytes32" where
  "evict_loop [] cnt minHeight delKey = delKey"
| "evict_loop ((k, v) # entries) cnt minHeight delKey =
     (let (minHeight, delKey) = (if sint minHeight > sint (sh_Height v) then (sh_Height v, k) else (minHeight, delKey));
          cnt = cnt - 1
      in if cnt = 0 then delKey else evict_loop entries cnt minHeight delKey)"

definition sigCacheAdd :: "bytes32 iter \<Rightarrow> 'f app_check \<Rightarrow> bytes32 \<Rightarrow> SenderAndHeight \<Rightarrow> 'f app_check" where
  "sigCacheAdd it app txid v =
     (let cache = ap_sigCache app;
          cache = (if int (length cache) > cfg_SigCacheSize app
            then AList.delete (evict_loop (map (\<lambda>k. (k, the (map_of cache k))) (it (map fst cache))) 6 (2 ^ 63 - 1) 0) cache
            else cache)
      in app\<lparr>ap_sigCache := AList.update txid v cache\<rparr>)"

subsection \<open>The checks\<close>

definition checkGasLimit :: "('a, 'f) check_ext \<Rightarrow> Tx \<Rightarrow> ResponseCheckTx option" where
  "checkGasLimit K tx =
     (case IntrinsicGas K (t_Data tx) (t_To tx = None) of
        None \<Rightarrow> Some (refuse GasLimitTooSmall)
      | Some intrinsicGas \<Rightarrow>
          if t_Gas tx < intrinsicGas then Some (refuse GasLimitTooSmall)
          else if t_Gas tx > MaxTxGasLimit then Some (refuse GasLimitInvalid)
          else None)"

text \<open>The price a transaction pays: \<open>uint256.FromBig\<close> keeps the low 256 bits, and the price is capped.\<close>

definition effective_price :: "('a, 'f) check_ext \<Rightarrow> Tx \<Rightarrow> u256" where
  "effective_price K tx = (let p = word_of_int (t_GasPrice tx) in if p > ucast (MaxGasPrice K) then ucast (MaxGasPrice K) else p)"

definition gas_fee :: "('a, 'f) check_ext \<Rightarrow> Tx \<Rightarrow> u256" where
  "gas_fee K tx = effective_price K tx * ucast (t_Gas tx)"

definition checkTxWithContext :: "('a, 'f) check_ext \<Rightarrow> ('c, 'a) ext \<Rightarrow> 'c \<Rightarrow> 'f app_check \<Rightarrow> Tx \<Rightarrow> address \<Rightarrow>
    'f app_check \<times> ResponseCheckTx" where
  "checkTxWithContext K E c app tx sender =
     (case checkGasLimit K tx of Some res \<Rightarrow> (app, res) | None \<Rightarrow>
      case GetAccount E c sender of None \<Rightarrow> (app, refuse SenderNotFound) | Some acc \<Rightarrow>
      let n = GetLatestNonce K (ap_frontier app) sender;
          exist = (n \<noteq> None);
          fr = (if exist then ap_frontier app else SetLatestBalance K (ap_frontier app) sender (Balance E acc));
          targetNonce = (case n of None \<Rightarrow> AccNonce K acc | Some t \<Rightarrow> t);
          app = app\<lparr>ap_frontier := fr\<rparr>
      in if t_Nonce tx > targetNonce then (app, refuse AccountNonceMismatch)
         else if t_Nonce tx < targetNonce then (app, refuse AccountNonceMismatch)
         else if effective_price K tx < ucast (ap_lastMinGasPrice app) then (app, refuse InvalidMinGasPrice)
         else case GetLatestBalance K fr sender of None \<Rightarrow> (app, refuse CannotPayGasFee)
         | Some balance \<Rightarrow>
           if balance < gas_fee K tx then (app, refuse CannotPayGasFee)
           else let totalGasLimit = GetLatestTotalGas K fr sender + (if exist then t_Gas tx else 0) in
             if totalGasLimit > cfg_FrontierGasLimit app then (app, refuse GasLimitInvalid)
             else let fr = SetLatestTotalGas K fr sender totalGasLimit;
                      fr = SetLatestNonce K fr sender (t_Nonce tx + 1);
                      balance = balance - gas_fee K tx;
                      val = word_of_int (t_Value tx);
                      fr = SetLatestBalance K fr sender (if balance < val then 0 else balance - val)
                  in (app\<lparr>ap_frontier := fr\<rparr>, \<lparr>rc_Code = CodeTypeOK, rc_GasWanted = t_Gas tx\<rparr>))"

text \<open>\<open>recheck\<close> is the type of the request.\<close>

definition CheckTx :: "bytes32 iter \<Rightarrow> ('a, 'f) check_ext \<Rightarrow> ('c, 'a) ext \<Rightarrow> 'c \<Rightarrow> 'f app_check \<Rightarrow> bool \<Rightarrow> bytes \<Rightarrow>
    'f app_check \<times> ResponseCheckTx" where
  "CheckTx it K E c app recheck req =
     (if \<not> recheck \<and> ap_recheckCounter app > cfg_RecheckThreshold app then (app, refuse MempoolBusy)
      else let app = (if recheck then app\<lparr>ap_recheckCounter := ap_recheckCounter app + 1\<rparr> else app) in
        case DecodeRLP K req of None \<Rightarrow> (app, refuse CannotDecodeTx)
        | Some tx \<Rightarrow>
          (case map_of (ap_sigCache app) (t_Hash tx) of
             Some sh \<Rightarrow> checkTxWithContext K E c app tx (sh_Sender sh)
           | None \<Rightarrow>
             (case Signer_Sender K tx of None \<Rightarrow> (app, refuse CannotRecoverSender)
              | Some sender \<Rightarrow>
                checkTxWithContext K E c
                  (sigCacheAdd it app (t_Hash tx) \<lparr>sh_Sender = sender, sh_Height = ap_currHeight app\<rparr>) tx sender)))"

text \<open>The reference for the cache: recover the sender of every transaction.\<close>

definition CheckTx_uncached :: "('a, 'f) check_ext \<Rightarrow> ('c, 'a) ext \<Rightarrow> 'c \<Rightarrow> 'f app_check \<Rightarrow> bool \<Rightarrow> bytes \<Rightarrow>
    'f app_check \<times> ResponseCheckTx" where
  "CheckTx_uncached K E c app recheck req =
     (if \<not> recheck \<and> ap_recheckCounter app > cfg_RecheckThreshold app then (app, refuse MempoolBusy)
      else let app = (if recheck then app\<lparr>ap_recheckCounter := ap_recheckCounter app + 1\<rparr> else app) in
        case DecodeRLP K req of None \<Rightarrow> (app, refuse CannotDecodeTx)
        | Some tx \<Rightarrow>
          (case Signer_Sender K tx of None \<Rightarrow> (app, refuse CannotRecoverSender)
           | Some sender \<Rightarrow> checkTxWithContext K E c app tx sender))"

lemma checkTxWithContext_cache:
  "checkTxWithContext K E c (app\<lparr>ap_sigCache := x\<rparr>) tx s
    = (let (a, r) = checkTxWithContext K E c app tx s in (a\<lparr>ap_sigCache := x\<rparr>, r))"
  by (auto simp: checkTxWithContext_def Let_def split: option.splits)

lemma checkTxWithContext_keeps:
  "ap_sigCache (fst (checkTxWithContext K E c app tx s)) = ap_sigCache app"
  "ap_currHeight (fst (checkTxWithContext K E c app tx s)) = ap_currHeight app"
  "cfg_SigCacheSize (fst (checkTxWithContext K E c app tx s)) = cfg_SigCacheSize app"
  "ap_lastMinGasPrice (fst (checkTxWithContext K E c app tx s)) = ap_lastMinGasPrice app"
  "cfg_FrontierGasLimit (fst (checkTxWithContext K E c app tx s)) = cfg_FrontierGasLimit app"
  by (auto simp: checkTxWithContext_def Let_def split: option.splits)

subsection \<open>Runs of requests\<close>

text \<open>The requests between two blocks, with the transactions accepted so far and their senders.\<close>

fun check_all :: "bytes32 iter \<Rightarrow> ('a, 'f) check_ext \<Rightarrow> ('c, 'a) ext \<Rightarrow> 'c \<Rightarrow> 'f app_check \<Rightarrow> (bool \<times> bytes) list \<Rightarrow>
    (address \<times> Tx) list \<Rightarrow> 'f app_check \<times> (address \<times> Tx) list" where
  "check_all it K E c app [] accepted = (app, accepted)"
| "check_all it K E c app ((recheck, req) # reqs) accepted =
     (let (app', res) = CheckTx it K E c app recheck req;
          new = (if rc_Code res = CodeTypeOK then (case DecodeRLP K req of None \<Rightarrow> []
            | Some tx \<Rightarrow> (case Signer_Sender K tx of None \<Rightarrow> [] | Some s \<Rightarrow> [(s, tx)])) else [])
      in check_all it K E c app' reqs (accepted @ new))"

definition of_sender :: "address \<Rightarrow> (address \<times> Tx) list \<Rightarrow> Tx list" where
  "of_sender a xs = map snd (filter (\<lambda>p. fst p = a) xs)"

text \<open>
  Where the transactions of a sender start: at the entry of the frontier when it has one for
  the sender, because transactions of the sender wait in the queue of the last block, and
  otherwise at the account.
\<close>

definition start_of :: "('a, 'f) check_ext \<Rightarrow> ('c, 'a) ext \<Rightarrow> 'f \<Rightarrow> address \<Rightarrow> 'a \<Rightarrow> u64 \<times> u256 option" where
  "start_of K E frontier a acc = (case GetLatestNonce K frontier a of
       None \<Rightarrow> (AccNonce K acc, Some (Balance E acc)) | Some nonce \<Rightarrow> (nonce, GetLatestBalance K frontier a))"

text \<open>
  What the accepted transactions of one sender have in common: consecutive nonces from the
  first one on, fees that the balance covers together, and every transaction within the
  limits.
\<close>

definition admissible :: "('a, 'f) check_ext \<Rightarrow> u64 \<Rightarrow> u64 \<Rightarrow> u256 \<Rightarrow> Tx list \<Rightarrow> bool" where
  "admissible K minGasPrice nonce balance txs \<longleftrightarrow>
     map t_Nonce txs = map (\<lambda>i. nonce + of_nat i) [0..<length txs] \<and>
     (\<Sum>tx\<leftarrow>txs. unat (gas_fee K tx)) \<le> unat balance \<and>
     list_all (\<lambda>tx. t_Gas tx \<le> MaxTxGasLimit \<and> ucast minGasPrice \<le> effective_price K tx) txs"

text \<open>\<open>f0\<close> is the frontier that the last block, or the start of the node, has left.\<close>

definition sender_inv :: "('a, 'f) check_ext \<Rightarrow> ('c, 'a) ext \<Rightarrow> 'c \<Rightarrow> 'f \<Rightarrow> 'f app_check \<Rightarrow> address \<Rightarrow> Tx list \<Rightarrow> bool" where
  "sender_inv K E c f0 app a txs \<longleftrightarrow>
     (if txs = [] then GetLatestNonce K (ap_frontier app) a = GetLatestNonce K f0 a \<and>
        (GetLatestNonce K f0 a \<noteq> None \<longrightarrow> GetLatestBalance K (ap_frontier app) a = GetLatestBalance K f0 a)
      else \<exists>acc b n0 b0. GetAccount E c a = Some acc \<and> start_of K E f0 a acc = (n0, Some b0) \<and>
        admissible K (ap_lastMinGasPrice app) n0 b0 txs \<and>
        GetLatestNonce K (ap_frontier app) a = Some (n0 + of_nat (length txs)) \<and>
        GetLatestBalance K (ap_frontier app) a = Some b \<and>
        unat b + (\<Sum>tx\<leftarrow>txs. unat (gas_fee K tx)) \<le> unat b0)"

lemma sender_inv_irrelevant [simp]:
  "sender_inv K E c f0 (app\<lparr>ap_sigCache := x\<rparr>) a txs = sender_inv K E c f0 app a txs"
  "sender_inv K E c f0 (app\<lparr>ap_recheckCounter := n\<rparr>) a txs = sender_inv K E c f0 app a txs"
  unfolding sender_inv_def by simp_all

definition cache_ok :: "('a, 'f) check_ext \<Rightarrow> 'f app_check \<Rightarrow> bool" where
  "cache_ok K app \<longleftrightarrow> distinct (map fst (ap_sigCache app)) \<and>
     (\<forall>tx sh. map_of (ap_sigCache app) (t_Hash tx) = Some sh \<longrightarrow> Signer_Sender K tx = Some (sh_Sender sh)) \<and>
     (\<forall>(k, sh) \<in> set (ap_sigCache app). sint (sh_Height sh) < 2 ^ 63 - 1) \<and> sint (ap_currHeight app) < 2 ^ 63 - 1"

locale mempool =
  fixes K :: "('a, 'f) check_ext"
  assumes nonce_nonce: "GetLatestNonce K (SetLatestNonce K f a n) b = (if b = a then Some n else GetLatestNonce K f b)"
    and nonce_balance: "GetLatestNonce K (SetLatestBalance K f a v) b = GetLatestNonce K f b"
    and nonce_gas: "GetLatestNonce K (SetLatestTotalGas K f a g) b = GetLatestNonce K f b"
    and balance_balance: "GetLatestBalance K (SetLatestBalance K f a v) b = (if b = a then Some v else GetLatestBalance K f b)"
    and balance_nonce: "GetLatestBalance K (SetLatestNonce K f a n) b = GetLatestBalance K f b"
    and balance_gas: "GetLatestBalance K (SetLatestTotalGas K f a g) b = GetLatestBalance K f b"
    and gas_gas: "GetLatestTotalGas K (SetLatestTotalGas K f a g) b = (if b = a then g else GetLatestTotalGas K f b)"
    and gas_nonce: "GetLatestTotalGas K (SetLatestNonce K f a n) b = GetLatestTotalGas K f b"
    and gas_balance: "GetLatestTotalGas K (SetLatestBalance K f a v) b = GetLatestTotalGas K f b"
    and one_sender: "t_Hash tx = t_Hash tx' \<Longrightarrow> Signer_Sender K tx = Signer_Sender K tx'"
begin

lemmas frontier_laws = nonce_nonce nonce_balance nonce_gas balance_balance balance_nonce balance_gas gas_gas gas_nonce gas_balance

lemma evict_loop_in: "evict_loop es n mh dk \<in> insert dk (fst ` set es)"
proof (induction es arbitrary: n mh dk)
  case (Cons e es)
  then show ?case using Cons [of "n - 1" "sh_Height (snd e)" "fst e"] Cons [of "n - 1" mh dk]
    by (cases e) (auto simp: Let_def)
qed simp

lemma evict_loop_present:
  assumes "es \<noteq> []" and "\<And>k v. (k, v) \<in> set es \<Longrightarrow> sint (sh_Height v) < sint mh"
  shows "evict_loop es n mh dk \<in> fst ` set es"
proof -
  obtain k v r where es: "es = (k, v) # r" using assms(1) by (cases es) auto
  with assms(2) [of k v] evict_loop_in [of r "n - 1" "sh_Height v" k] show ?thesis by (auto simp: Let_def)
qed

lemma length_delete_present:
  "distinct (map fst xs) \<Longrightarrow> k \<in> fst ` set xs \<Longrightarrow> length (AList.delete k xs) + 1 = length xs"
  by (induction xs) (auto simp: AList.delete_id)

lemma length_update_le: "length (AList.update k v xs) \<le> length xs + 1"
  by (induction xs) auto

lemma sigCacheAdd_cache:
  assumes "cache_ok K app" and "is_iter it" and "Signer_Sender K tx = Some s"
  shows sigCacheAdd_ok: "cache_ok K (sigCacheAdd it app (t_Hash tx) \<lparr>sh_Sender = s, sh_Height = ap_currHeight app\<rparr>)"
    and sigCacheAdd_bound: "0 \<le> cfg_SigCacheSize app \<Longrightarrow> int (length (ap_sigCache app)) \<le> cfg_SigCacheSize app + 1 \<Longrightarrow>
      int (length (ap_sigCache (sigCacheAdd it app (t_Hash tx) v))) \<le> cfg_SigCacheSize app + 1"
proof -
  let ?xs = "ap_sigCache app"
  let ?key = "evict_loop (map (\<lambda>k. (k, the (map_of ?xs k))) (it (map fst ?xs))) 6 (2 ^ 63 - 1) 0"
  define ys where "ys = (if int (length ?xs) > cfg_SigCacheSize app then AList.delete ?key ?xs else ?xs)"
  have add: "sigCacheAdd it app (t_Hash tx) v = app\<lparr>ap_sigCache := AList.update (t_Hash tx) v ys\<rparr>" for v
    by (simp add: sigCacheAdd_def Let_def ys_def)
  from assms(1) have d: "distinct (map fst ?xs)" and h: "\<And>k sh. (k, sh) \<in> set ?xs \<Longrightarrow> sint (sh_Height sh) < 2 ^ 63 - 1"
    and snd: "\<And>tx sh. map_of ?xs (t_Hash tx) = Some sh \<Longrightarrow> Signer_Sender K tx = Some (sh_Sender sh)"
    and cur: "sint (ap_currHeight app) < 2 ^ 63 - 1"
    by (auto simp: cache_ok_def)
  have sub: "set ys \<subseteq> set ?xs" by (auto simp: ys_def AList.delete_eq)
  have dy: "distinct (map fst ys)" using d by (simp add: ys_def distinct_delete)
  have lookup: "map_of ?xs k = Some sh" if "map_of ys k = Some sh" for k sh
    using map_of_SomeD [OF that] sub map_of_is_SomeI [OF d] by blast
  let ?new = "\<lparr>sh_Sender = s, sh_Height = ap_currHeight app\<rparr>"
  have "Signer_Sender K tx' = Some (sh_Sender sh)" if "map_of (AList.update (t_Hash tx) ?new ys) (t_Hash tx') = Some sh" for tx' sh
    using that snd [OF lookup] one_sender [of tx' tx] assms(3) by (auto simp: update_conv' split: if_splits)
  moreover have "sint (sh_Height sh) < 2 ^ 63 - 1" if "(k, sh) \<in> set (AList.update (t_Hash tx) ?new ys)" for k sh
  proof -
    have "map_of (AList.update (t_Hash tx) ?new ys) k = Some sh" using that dy by (intro map_of_is_SomeI distinct_update)
    then show ?thesis using cur h map_of_SomeD [OF lookup] by (auto simp: update_conv' split: if_splits)
  qed
  ultimately show "cache_ok K (sigCacheAdd it app (t_Hash tx) ?new)"
    using dy cur by (auto simp: cache_ok_def add distinct_update)
  assume size: "0 \<le> cfg_SigCacheSize app" "int (length ?xs) \<le> cfg_SigCacheSize app + 1"
  have "?key \<in> fst ` set ?xs" if "?xs \<noteq> []"
  proof -
    have keys: "set (it (map fst ?xs)) = fst ` set ?xs" using assms(2) by simp
    have old: "sint (sh_Height (the (map_of ?xs k))) < 9223372036854775807" if "(k, sh) \<in> set ?xs" for k sh
      using h [OF that] map_of_is_SomeI [OF d that] by simp
    have "it (map fst ?xs) \<noteq> []" using keys that by auto
    then have "?key \<in> fst ` set (map (\<lambda>k. (k, the (map_of ?xs k))) (it (map fst ?xs)))"
      by (intro evict_loop_present) (auto simp: keys intro: old)
    then show ?thesis using keys by (auto simp: image_image)
  qed
  then have "int (length ys) \<le> cfg_SigCacheSize app"
    using size length_delete_present [OF d, of ?key] by (cases "?xs = []") (auto simp: ys_def)
  then show "int (length (ap_sigCache (sigCacheAdd it app (t_Hash tx) v))) \<le> cfg_SigCacheSize app + 1"
    using length_update_le [of "t_Hash tx" v ys] by (simp add: add)
qed

lemma CheckTx_cached:
  assumes "cache_ok K app" and "is_iter it"
  obtains x where
    "CheckTx it K E c app recheck req = (let (a, r) = CheckTx_uncached K E c app recheck req in (a\<lparr>ap_sigCache := x\<rparr>, r))"
    "cache_ok K (app\<lparr>ap_sigCache := x\<rparr>)"
    "0 \<le> cfg_SigCacheSize app \<Longrightarrow> int (length (ap_sigCache app)) \<le> cfg_SigCacheSize app + 1 \<Longrightarrow> int (length x) \<le> cfg_SigCacheSize app + 1"
proof (cases "\<not> recheck \<and> ap_recheckCounter app > cfg_RecheckThreshold app \<or> DecodeRLP K req = None")
  case True
  show thesis by (rule that [of "ap_sigCache app"]) (use True assms(1) in \<open>auto simp: CheckTx_def CheckTx_uncached_def Let_def\<close>)
next
  case False
  then obtain tx where tx: "DecodeRLP K req = Some tx" "\<not> (\<not> recheck \<and> ap_recheckCounter app > cfg_RecheckThreshold app)" by auto
  define app1 where "app1 = (if recheck then app\<lparr>ap_recheckCounter := ap_recheckCounter app + 1\<rparr> else app)"
  have same: "ap_sigCache app1 = ap_sigCache app" "ap_currHeight app1 = ap_currHeight app" "cfg_SigCacheSize app1 = cfg_SigCacheSize app"
    by (simp_all add: app1_def)
  have ok1: "cache_ok K (app1\<lparr>ap_sigCache := x\<rparr>) \<longleftrightarrow> cache_ok K (app\<lparr>ap_sigCache := x\<rparr>)" for x
    by (simp add: cache_ok_def same)
  have ok: "cache_ok K app1" using assms(1) by (simp add: cache_ok_def same)
  note defs = CheckTx_def CheckTx_uncached_def tx app1_def [symmetric] Let_def
  show thesis
  proof (cases "map_of (ap_sigCache app1) (t_Hash tx)")
    case (Some sh)
    then have "Signer_Sender K tx = Some (sh_Sender sh)" using ok by (simp add: cache_ok_def)
    with Some checkTxWithContext_keeps(1) [of K E c app1 tx "sh_Sender sh"] show thesis
      using assms(1) by (intro that [of "ap_sigCache app"]) (auto simp: defs same split: prod.splits)
  next
    case None
    show thesis
    proof (cases "Signer_Sender K tx")
      case (Some s)
      let ?add = "sigCacheAdd it app1 (t_Hash tx) \<lparr>sh_Sender = s, sh_Height = ap_currHeight app1\<rparr>"
      have add: "?add = app1\<lparr>ap_sigCache := ap_sigCache ?add\<rparr>" by (simp add: sigCacheAdd_def Let_def)
      have run: "checkTxWithContext K E c ?add tx s
          = (let (a, r) = checkTxWithContext K E c app1 tx s in (a\<lparr>ap_sigCache := ap_sigCache ?add\<rparr>, r))"
        by (subst add) (rule checkTxWithContext_cache)
      show thesis
      proof (rule that [of "ap_sigCache ?add"])
        show "CheckTx it K E c app recheck req
            = (let (a, r) = CheckTx_uncached K E c app recheck req in (a\<lparr>ap_sigCache := ap_sigCache ?add\<rparr>, r))"
          using Some None run by (simp add: defs)
        show "cache_ok K (app\<lparr>ap_sigCache := ap_sigCache ?add\<rparr>)"
          using sigCacheAdd_ok [OF ok assms(2) Some] add ok1 [of "ap_sigCache ?add"] by simp
      qed (use sigCacheAdd_bound [OF ok assms(2) Some] same in auto)
    next
      case None': None
      show thesis by (rule that [of "ap_sigCache app"]) (use None None' assms(1) in \<open>auto simp: defs same\<close>)
    qed
  qed
qed

lemma refuse_code [simp]: "rc_Code (refuse code) = code"
  by (simp add: refuse_def)

lemma checkTx_refused:
  assumes "checkTxWithContext K E c app tx s = (app', res)" and "rc_Code res \<noteq> CodeTypeOK"
  shows "GetLatestNonce K (ap_frontier app') a = GetLatestNonce K (ap_frontier app) a \<and>
    (GetLatestNonce K (ap_frontier app) a \<noteq> None \<longrightarrow> GetLatestBalance K (ap_frontier app') a = GetLatestBalance K (ap_frontier app) a)"
proof -
  have "ap_frontier app' = ap_frontier app \<or>
      (\<exists>v. GetLatestNonce K (ap_frontier app) s = None \<and> ap_frontier app' = SetLatestBalance K (ap_frontier app) s v)"
    using assms by (auto simp: checkTxWithContext_def Let_def split: option.splits if_splits)
  then show ?thesis by (auto simp: frontier_laws)
qed

lemma checkTx_accepted:
  assumes "checkTxWithContext K E c app tx s = (app', res)" and "rc_Code res = CodeTypeOK"
  shows "\<exists>acc b v. GetAccount E c s = Some acc \<and> t_Gas tx \<le> MaxTxGasLimit \<and> ucast (ap_lastMinGasPrice app) \<le> effective_price K tx \<and>
    t_Nonce tx = (case GetLatestNonce K (ap_frontier app) s of None \<Rightarrow> AccNonce K acc | Some t \<Rightarrow> t) \<and>
    (case GetLatestNonce K (ap_frontier app) s of None \<Rightarrow> b = Balance E acc | Some t \<Rightarrow> GetLatestBalance K (ap_frontier app) s = Some b) \<and>
    gas_fee K tx \<le> b \<and> v \<le> b - gas_fee K tx \<and>
    (\<forall>a. GetLatestNonce K (ap_frontier app') a = (if a = s then Some (t_Nonce tx + 1) else GetLatestNonce K (ap_frontier app) a)) \<and>
    (\<forall>a. GetLatestBalance K (ap_frontier app') a = (if a = s then Some v else GetLatestBalance K (ap_frontier app) a))"
  using assms
  by (cases "GetLatestNonce K (ap_frontier app) s")
    (auto simp: checkTxWithContext_def checkGasLimit_def Let_def code_defs frontier_laws not_less word_sub_le_iff
      split: option.splits if_splits)

lemma sender_inv_step:
  assumes inv: "sender_inv K E c f0 app a txs" and step: "checkTxWithContext K E c app tx s = (app', res)"
  shows "sender_inv K E c f0 app' a (txs @ (if rc_Code res = CodeTypeOK \<and> s = a then [tx] else []))"
proof (cases "rc_Code res = CodeTypeOK \<and> s = a")
  case False
  have price: "ap_lastMinGasPrice app' = ap_lastMinGasPrice app"
    using checkTxWithContext_keeps(4) [of K E c app tx s] step by simp
  have "GetLatestNonce K (ap_frontier app') a = GetLatestNonce K (ap_frontier app) a \<and>
    (GetLatestNonce K (ap_frontier app) a \<noteq> None \<longrightarrow> GetLatestBalance K (ap_frontier app') a = GetLatestBalance K (ap_frontier app) a)"
  proof (cases "rc_Code res = CodeTypeOK")
    case True
    with False checkTx_accepted [OF step] show ?thesis by auto
  qed (rule checkTx_refused [OF step])
  with inv price False show ?thesis by (auto simp: sender_inv_def split: if_splits)
next
  case True
  have price: "ap_lastMinGasPrice app' = ap_lastMinGasPrice app"
    using checkTxWithContext_keeps(4) [of K E c app tx s] step by simp
  from checkTx_accepted [OF step] True obtain acc b v where A: "GetAccount E c a = Some acc" "t_Gas tx \<le> MaxTxGasLimit"
      "ucast (ap_lastMinGasPrice app) \<le> effective_price K tx"
      "t_Nonce tx = (case GetLatestNonce K (ap_frontier app) a of None \<Rightarrow> AccNonce K acc | Some t \<Rightarrow> t)"
      "case GetLatestNonce K (ap_frontier app) a of None \<Rightarrow> b = Balance E acc | Some t \<Rightarrow> GetLatestBalance K (ap_frontier app) a = Some b"
      "gas_fee K tx \<le> b" "v \<le> b - gas_fee K tx"
      "GetLatestNonce K (ap_frontier app') a = Some (t_Nonce tx + 1)" "GetLatestBalance K (ap_frontier app') a = Some v"
    by auto
  obtain n0 b0 where start: "start_of K E f0 a acc = (n0, Some b0)" and nonce: "t_Nonce tx = n0 + of_nat (length txs)"
    and room: "unat b + (\<Sum>tx\<leftarrow>txs. unat (gas_fee K tx)) \<le> unat b0"
    and old: "txs = [] \<or> admissible K (ap_lastMinGasPrice app) n0 b0 txs"
  proof (cases "txs = []")
    case True
    then show thesis using inv A(4,5) that [of "t_Nonce tx" b] by (auto simp: sender_inv_def start_of_def split: option.splits)
  next
    case False
    then show thesis using inv A(1,4,5) that by (auto simp: sender_inv_def split: option.splits)
  qed
  have "unat v + unat (gas_fee K tx) \<le> unat b"
    using A(6,7) by (simp add: word_le_nat_alt unat_sub)
  then have "unat v + (\<Sum>tx\<leftarrow>txs @ [tx]. unat (gas_fee K tx)) \<le> unat b0" using room by simp
  moreover have "admissible K (ap_lastMinGasPrice app) n0 b0 (txs @ [tx])"
    using old nonce A(2,3) calculation by (auto simp: admissible_def)
  ultimately show ?thesis
    using True A(1,8,9) start nonce price by (auto simp: sender_inv_def add.assoc add.commute)
qed

lemma CheckTx_uncached_keeps:
  assumes "CheckTx_uncached K E c app recheck req = (app', res)"
  shows "ap_currHeight app' = ap_currHeight app" "ap_lastMinGasPrice app' = ap_lastMinGasPrice app"
    "cfg_SigCacheSize app' = cfg_SigCacheSize app"
  using assms checkTxWithContext_keeps(2,3,4) [of K E c app]
    checkTxWithContext_keeps(2,3,4) [of K E c "app\<lparr>ap_recheckCounter := ap_recheckCounter app + 1\<rparr>"]
  by (auto simp: CheckTx_uncached_def Let_def split: if_splits option.splits) (metis fst_conv)+

lemma uncached_sender:
  assumes "CheckTx_uncached K E c app recheck req = (app', res)"
    and inv: "\<And>a. sender_inv K E c f0 app a (of_sender a accepted)"
  shows "sender_inv K E c f0 app' a (of_sender a (accepted @ (if rc_Code res = CodeTypeOK then (case DecodeRLP K req of None \<Rightarrow> []
            | Some tx \<Rightarrow> (case Signer_Sender K tx of None \<Rightarrow> [] | Some s \<Rightarrow> [(s, tx)])) else [])))"
proof -
  let ?app = "if recheck then app\<lparr>ap_recheckCounter := ap_recheckCounter app + 1\<rparr> else app"
  have inv1: "sender_inv K E c f0 ?app a (of_sender a accepted)" using inv [of a] by simp
  consider (refused) code where "app' = app \<or> app' = ?app" "res = refuse code" "code \<noteq> CodeTypeOK"
    | (checked) tx s where "DecodeRLP K req = Some tx" "Signer_Sender K tx = Some s" "checkTxWithContext K E c ?app tx s = (app', res)"
    using assms(1) by (auto simp: CheckTx_uncached_def Let_def code_defs split: if_splits option.splits)
  then show ?thesis
  proof cases
    case refused
    then show ?thesis using inv [of a] inv1 by auto
  next
    case checked
    have snoc: "of_sender a (accepted @ [(s, tx)]) = of_sender a accepted @ (if s = a then [tx] else [])" by (simp add: of_sender_def)
    show ?thesis
      using sender_inv_step [OF inv1 checked(3)] checked(1,2) by (cases "rc_Code res = CodeTypeOK") (simp_all add: snoc)
  qed
qed

lemma CheckTx_sender:
  assumes "cache_ok K app" and "is_iter it" and "CheckTx it K E c app recheck req = (app', res)"
    and inv: "\<And>a. sender_inv K E c f0 app a (of_sender a accepted)"
  shows "sender_inv K E c f0 app' a (of_sender a (accepted @ (if rc_Code res = CodeTypeOK then (case DecodeRLP K req of None \<Rightarrow> []
            | Some tx \<Rightarrow> (case Signer_Sender K tx of None \<Rightarrow> [] | Some s \<Rightarrow> [(s, tx)])) else [])))"
    and "cache_ok K app'" and "ap_lastMinGasPrice app' = ap_lastMinGasPrice app"
proof -
  obtain app1 res1 where u: "CheckTx_uncached K E c app recheck req = (app1, res1)" by fastforce
  obtain x where x: "app' = app1\<lparr>ap_sigCache := x\<rparr>" "res = res1" "cache_ok K (app\<lparr>ap_sigCache := x\<rparr>)"
    using CheckTx_cached [OF assms(1,2), of E c recheck req] assms(3) u by auto
  show "sender_inv K E c f0 app' a (of_sender a (accepted @ (if rc_Code res = CodeTypeOK then (case DecodeRLP K req of None \<Rightarrow> []
            | Some tx \<Rightarrow> (case Signer_Sender K tx of None \<Rightarrow> [] | Some s \<Rightarrow> [(s, tx)])) else [])))"
    using uncached_sender [OF u inv, of a] unfolding x(1,2) sender_inv_irrelevant .
  show "cache_ok K app'" "ap_lastMinGasPrice app' = ap_lastMinGasPrice app"
    using x CheckTx_uncached_keeps [OF u] by (simp_all add: cache_ok_def)
qed

lemma check_all_inv:
  assumes "is_iter it" and "cache_ok K app" and "\<And>a. sender_inv K E c f0 app a (of_sender a accepted)"
    and "check_all it K E c app reqs accepted = (app', accepted')"
  shows "sender_inv K E c f0 app' a (of_sender a accepted') \<and> ap_lastMinGasPrice app' = ap_lastMinGasPrice app"
  using assms(2-)
proof (induction reqs arbitrary: app accepted)
  case Nil
  then show ?case by simp
next
  case (Cons r reqs)
  obtain recheck req where r: "r = (recheck, req)" by fastforce
  obtain app1 res where s: "CheckTx it K E c app recheck req = (app1, res)" by fastforce
  note st = CheckTx_sender [OF Cons.prems(1) assms(1) s Cons.prems(2)]
  from Cons.prems(3) r s have "check_all it K E c app1 reqs (accepted @ (if rc_Code res = CodeTypeOK then (case DecodeRLP K req of None \<Rightarrow> []
            | Some tx \<Rightarrow> (case Signer_Sender K tx of None \<Rightarrow> [] | Some s \<Rightarrow> [(s, tx)])) else [])) = (app', accepted')" by simp
  from Cons.IH [OF st(2) st(1) this] st(3) show ?case by simp
qed

end

subsection \<open>A frontier over maps\<close>

record map_frontier =
  mf_nonce :: "address \<rightharpoonup> u64"
  mf_balance :: "address \<rightharpoonup> u256"
  mf_gas :: "address \<Rightarrow> u64"

definition map_check :: "(bytes \<Rightarrow> Tx option) \<Rightarrow> (mem_acc, map_frontier) check_ext" where
  "map_check decode = \<lparr>
     DecodeRLP = decode,
     Signer_Sender = (\<lambda>tx. Some (ucast (t_Hash tx))),
     IntrinsicGas = (\<lambda>d create. Some (21000 + 16 * of_nat (length d))),
     MaxGasPrice = 2 ^ 60,
     AccNonce = ma_Sequence,
     GetLatestNonce = mf_nonce,
     SetLatestNonce = (\<lambda>f a n. f\<lparr>mf_nonce := (mf_nonce f)(a \<mapsto> n)\<rparr>),
     GetLatestBalance = mf_balance,
     SetLatestBalance = (\<lambda>f a v. f\<lparr>mf_balance := (mf_balance f)(a \<mapsto> v)\<rparr>),
     GetLatestTotalGas = mf_gas,
     SetLatestTotalGas = (\<lambda>f a g. f\<lparr>mf_gas := (mf_gas f)(a := g)\<rparr>) \<rparr>"

interpretation mf: mempool "map_check decode"
  by unfold_locales (auto simp: map_check_def)

definition sample_tx :: "u64 \<Rightarrow> Tx" where
  "sample_tx n = \<lparr>t_Hash = 5 + 2 ^ 200 * ucast n, t_Nonce = n, t_Gas = 21000, t_GasPrice = 10 ^ 10, t_Value = 0, t_Data = [], t_To = Some 9,
     t_V = 27, t_R = 1, t_S = 1\<rparr>"

definition sample_check :: "(mem_acc, map_frontier) check_ext" where
  "sample_check = map_check (\<lambda>req. case req of [b] \<Rightarrow> Some (sample_tx (ucast b)) | _ \<Rightarrow> None)"

definition sample_app :: "map_frontier app_check" where
  "sample_app = \<lparr>ap_sigCache = [], ap_recheckCounter = 0,
     ap_frontier = \<lparr>mf_nonce = Map.empty, mf_balance = Map.empty, mf_gas = (\<lambda>a. 0)\<rparr>,
     ap_lastMinGasPrice = 10 ^ 10, ap_currHeight = 100, cfg_SigCacheSize = 1, cfg_RecheckThreshold = 1000, cfg_FrontierGasLimit = 10 ^ 8\<rparr>"

definition sample_check_ctx :: mem_ctx where
  "sample_check_ctx = mem_empty\<lparr>mc_acc := [5 \<mapsto> \<lparr>ma_Balance = 10 ^ 18, ma_Sequence = 3\<rparr>]\<rparr>"

lemma sample_cache: "cache_ok sample_check sample_app"
  by (simp add: cache_ok_def sample_app_def)

lemma sample_accept:
  "snd (check_all rev sample_check mem_ext sample_check_ctx sample_app [(False, [4]), (False, [3]), (False, [3]), (False, [4])] [])
    = [(5, sample_tx 3), (5, sample_tx 4)]"
  by (simp add: sample_check_def map_check_def sample_app_def sample_check_ctx_def mem_empty_def mem_ext_def CheckTx_def checkTxWithContext_def
      checkGasLimit_def Let_def sample_tx_def sigCacheAdd_def effective_price_def gas_fee_def code_defs refuse_def MaxTxGasLimit_def)

subsection \<open>Properties\<close>

text \<open>
  C9: Whatever requests arrive between two blocks, and whatever frontier the last \<open>Commit\<close> or
  the start of the node has left, the transactions of one sender that are accepted have
  consecutive nonces, the fees of all of them together do not exceed the balance of the
  sender, and each keeps to the gas limit and to the minimum gas price. The first nonce and
  the balance are those of the frontier when it has an entry for the sender, and those of the
  account otherwise.
\<close>

theorem mempool_admission:
  assumes "mempool K" and "is_iter it" and "cache_ok K app"
    and "check_all it K E c app reqs [] = (app', accepted)" and "of_sender a accepted \<noteq> []"
  shows "\<exists>acc nonce balance. GetAccount E c a = Some acc \<and> start_of K E (ap_frontier app) a acc = (nonce, Some balance) \<and>
    admissible K (ap_lastMinGasPrice app) nonce balance (of_sender a accepted)"
proof -
  have "sender_inv K E c (ap_frontier app) app a (of_sender a [])" for a by (simp add: sender_inv_def of_sender_def)
  from mempool.check_all_inv [OF assms(1-3) this assms(4), of a] assms(5) show ?thesis
    by (auto simp: sender_inv_def)
qed

text \<open>The first run starts at the account, the second one at a transaction that waits in the queue.\<close>

definition busy_app :: "map_frontier app_check" where
  "busy_app = sample_app\<lparr>ap_frontier := \<lparr>mf_nonce = [5 \<mapsto> 4], mf_balance = [5 \<mapsto> 10 ^ 17], mf_gas = (\<lambda>a. 0)\<rparr>\<rparr>"

lemma busy_accept:
  "snd (check_all rev sample_check mem_ext sample_check_ctx busy_app [(False, [3]), (False, [4])] []) = [(5, sample_tx 4)]"
  by (simp add: busy_app_def sample_check_def map_check_def sample_app_def sample_check_ctx_def mem_empty_def mem_ext_def CheckTx_def checkTxWithContext_def
      checkGasLimit_def Let_def sample_tx_def sigCacheAdd_def effective_price_def gas_fee_def code_defs refuse_def MaxTxGasLimit_def)

theorem mempool_admission_witness:
  "(\<exists>app'. check_all rev sample_check mem_ext sample_check_ctx sample_app [(False, [4]), (False, [3]), (False, [3]), (False, [4])] []
       = (app', [(5, sample_tx 3), (5, sample_tx 4)]) \<and> admissible sample_check (10 ^ 10) 3 (10 ^ 18) [sample_tx 3, sample_tx 4]) \<and>
   (\<exists>app'. check_all rev sample_check mem_ext sample_check_ctx busy_app [(False, [3]), (False, [4])] [] = (app', [(5, sample_tx 4)]) \<and>
     admissible sample_check (10 ^ 10) 4 (10 ^ 17) [sample_tx 4])"
proof -
  let ?run = "check_all rev sample_check mem_ext sample_check_ctx sample_app [(False, [4]), (False, [3]), (False, [3]), (False, [4])] []"
  let ?busy = "check_all rev sample_check mem_ext sample_check_ctx busy_app [(False, [3]), (False, [4])] []"
  obtain app' where r: "?run = (app', [(5, sample_tx 3), (5, sample_tx 4)])" using sample_accept by (cases ?run) auto
  obtain app'' where b: "?busy = (app'', [(5, sample_tx 4)])" using busy_accept by (cases ?busy) auto
  have o: "of_sender 5 [(5, sample_tx 3), (5, sample_tx 4)] = [sample_tx 3, sample_tx 4]" "of_sender 5 [(5, sample_tx 4)] = [sample_tx 4]"
    by (simp_all add: of_sender_def)
  have m: "mempool sample_check" unfolding sample_check_def by (rule mf.mempool_axioms)
  have acc: "GetAccount mem_ext sample_check_ctx 5 = Some \<lparr>ma_Balance = 10 ^ 18, ma_Sequence = 3\<rparr>"
    by (simp add: mem_ext_def sample_check_ctx_def)
  have f: "start_of sample_check mem_ext (ap_frontier sample_app) 5 \<lparr>ma_Balance = 10 ^ 18, ma_Sequence = 3\<rparr> = (3, Some (10 ^ 18))"
      "start_of sample_check mem_ext (ap_frontier busy_app) 5 \<lparr>ma_Balance = 10 ^ 18, ma_Sequence = 3\<rparr> = (4, Some (10 ^ 17))"
      "ap_lastMinGasPrice sample_app = 10 ^ 10" "ap_lastMinGasPrice busy_app = 10 ^ 10"
    by (simp_all add: sample_check_def map_check_def sample_app_def busy_app_def start_of_def mem_ext_def)
  have cache: "cache_ok sample_check busy_app" using sample_cache by (simp add: cache_ok_def busy_app_def)
  from mempool_admission [OF m is_iter_rev sample_cache r, of 5] mempool_admission [OF m is_iter_rev cache b, of 5] r b acc f
  show ?thesis by (auto simp: o)
qed

text \<open>
  C20: The cache of recovered senders changes no answer: \<open>CheckTx\<close> gives the response, and
  leaves the application in the state, of the same check without a cache; the cache stays
  sound and never holds more than one entry above its configured size.
\<close>

theorem CheckTx_cache_transparent:
  assumes "mempool K" and "is_iter it" and "cache_ok K app" and "0 \<le> cfg_SigCacheSize app"
    and "int (length (ap_sigCache app)) \<le> cfg_SigCacheSize app + 1"
  shows "\<exists>app' res x. CheckTx_uncached K E c app recheck req = (app', res) \<and>
    CheckTx it K E c app recheck req = (app'\<lparr>ap_sigCache := x\<rparr>, res) \<and>
    cache_ok K (app'\<lparr>ap_sigCache := x\<rparr>) \<and> int (length x) \<le> cfg_SigCacheSize app + 1"
proof -
  obtain app1 res where u: "CheckTx_uncached K E c app recheck req = (app1, res)" by fastforce
  obtain x where x: "CheckTx it K E c app recheck req = (app1\<lparr>ap_sigCache := x\<rparr>, res)" "cache_ok K (app\<lparr>ap_sigCache := x\<rparr>)"
      "int (length x) \<le> cfg_SigCacheSize app + 1"
    using mempool.CheckTx_cached [OF assms(1,3,2), of E c recheck req] assms(4,5) u by auto
  with u mempool.CheckTx_uncached_keeps [OF assms(1) u] show ?thesis by (auto simp: cache_ok_def)
qed

theorem CheckTx_cache_transparent_witness:
  "rc_Code (snd (CheckTx id sample_check mem_ext sample_check_ctx sample_app False [3])) = CodeTypeOK \<and>
   length (ap_sigCache (fst (CheckTx id sample_check mem_ext sample_check_ctx sample_app False [3]))) \<le> 2"
proof -
  have m: "mempool sample_check" unfolding sample_check_def by (rule mf.mempool_axioms)
  have size: "0 \<le> cfg_SigCacheSize sample_app" "int (length (ap_sigCache sample_app)) \<le> cfg_SigCacheSize sample_app + 1" "cfg_SigCacheSize sample_app = 1"
    by (simp_all add: sample_app_def)
  have u: "rc_Code (snd (CheckTx_uncached sample_check mem_ext sample_check_ctx sample_app False [3])) = CodeTypeOK"
    by (simp add: sample_check_def map_check_def sample_app_def sample_check_ctx_def mem_empty_def mem_ext_def CheckTx_uncached_def checkTxWithContext_def
      checkGasLimit_def Let_def sample_tx_def effective_price_def gas_fee_def code_defs refuse_def MaxTxGasLimit_def)
  from CheckTx_cache_transparent [OF m is_iter_id sample_cache size(1,2), of mem_ext sample_check_ctx False "[3]"] u size(3)
  show ?thesis by auto
qed

end
