(* ===== verification/CCRPC_Fifo.thy ===== *)
theory CCRPC_Fifo
  imports Environment "HOL-Library.List_Lexorder"
begin

text \<open>
  The queue between the main chain and the smart chain (\<open>src/ccrpc/fifo.go\<close>): the
  fetcher puts every epoch of transfers into a key-value database under its last main-chain
  height, and the block processing serves the epochs that are not done yet in the order of
  their heights.

  The database (\<open>cometbft-db\<close>), the JSON encoding of an epoch and the address of a public
  key are not part of the repository: the record \<open>fifo_ext\<close> holds them. The type \<open>'v\<close> is
  the type of the encoded epochs, \<open>'d\<close> the type of decimal amounts. The locale
  \<open>ordered_db\<close> states what the code relies on: a stored entry is found again, an iterator
  visits the entries from its start on in the byte order of the keys, and an encoded epoch
  can be decoded. The lemmas of the locale give the queue its abstract meaning: a finite map
  from heights to epochs, whose entries are visited in ascending order.
\<close>

record 'd CCrpcTransferInfo =
  ti_Height :: i64
  ti_TxID :: bytes32
  ti_SenderPubkey :: "264 word"
  ti_Amount :: 'd
  ti_EpochEndHeight :: i64
  ti_EpochEndBlockTime :: i64
  ti_ApplicationHeight :: i64
  ti_Receiver :: address

record 'd CCrpcEpoch =
  ce_FirstHeight :: i64
  ce_LastHeight :: i64
  ce_EpochEndBlockTime :: i64
  ce_EEBTSmartHeight :: i64
  ce_TransferInfos :: "'d CCrpcTransferInfo list"

text \<open>\<open>err != nil\<close> is \<open>None\<close>; \<open>PubkeyToAddress\<close> is \<open>None\<close> where decompressing fails.\<close>

record ('b, 'd, 'v) fifo_ext =
  db_Set :: "'b \<Rightarrow> bytes \<Rightarrow> 'v \<Rightarrow> 'b"
  db_Iterator :: "'b \<Rightarrow> bytes option \<Rightarrow> (bytes \<times> 'v) list option"
  db_ReverseIterator :: "'b \<Rightarrow> (bytes \<times> 'v) list option"
  JsonMarshalEpoch :: "'d CCrpcEpoch \<Rightarrow> 'v option"
  JsonUnmarshalEpoch :: "'v \<Rightarrow> 'd CCrpcEpoch option"
  PubkeyToAddress :: "264 word \<Rightarrow> address option"

subsection \<open>The operations\<close>

definition makeKey :: "i64 \<Rightarrow> bytes" where
  "makeKey k = be_bytes 8 k"

definition makeValue :: "('b, 'd, 'v, 'm) fifo_ext_scheme \<Rightarrow> 'd CCrpcEpoch \<Rightarrow> 'v option" where
  "makeValue F cce = JsonMarshalEpoch F cce"

definition unmarshal :: "('b, 'd, 'v, 'm) fifo_ext_scheme \<Rightarrow> 'v \<Rightarrow> 'd CCrpcEpoch option" where
  "unmarshal F v = JsonUnmarshalEpoch F v"

definition Come :: "('b, 'd, 'v, 'm) fifo_ext_scheme \<Rightarrow> 'b \<Rightarrow> 'd CCrpcEpoch \<Rightarrow> 'b option" where
  "Come F db cce = do {
     v \<leftarrow> makeValue F cce;
     Some (db_Set F db (makeKey (ce_LastHeight cce)) v) }"

text \<open>
  \<open>processOne\<close> is a closure: it changes the epoch it is given and variables of its caller,
  which are the state \<open>'s\<close>. The entries it changed are written back after the loop, in the
  order \<open>it\<close> of the map \<open>update\<close>.
\<close>

type_synonym ('s, 'd) process = "'s \<Rightarrow> 'd CCrpcEpoch \<Rightarrow> ('s \<times> 'd CCrpcEpoch \<times> i64) option"

fun serve_loop :: "('b, 'd, 'v, 'm) fifo_ext_scheme \<Rightarrow> ('s, 'd) process \<Rightarrow> (bytes \<times> 'v) list \<Rightarrow>
    i64 \<Rightarrow> (i64 \<times> 'v) list \<Rightarrow> 's \<Rightarrow> ('s \<times> i64 \<times> (i64 \<times> 'v) list) option" where
  "serve_loop F processOne [] lastDoneMain upd s = Some (s, lastDoneMain, upd)"
| "serve_loop F processOne (kv # entries) lastDoneMain upd s = do {
     cce \<leftarrow> unmarshal F (snd kv);
     let lastSmart = ce_EEBTSmartHeight cce;
     (s, cce, nxt) \<leftarrow> processOne s cce;
     let lastDoneMain = (if sint nxt > sint lastDoneMain then nxt else lastDoneMain);
     upd \<leftarrow> (if lastSmart \<noteq> ce_EEBTSmartHeight cce
             then do { v \<leftarrow> makeValue F cce; Some (AList.update (ce_LastHeight cce) v upd) }
             else Some upd);
     if nxt = 0 then Some (s, lastDoneMain, upd)
     else serve_loop F processOne entries lastDoneMain upd s }"

definition write_back :: "('b, 'd, 'v, 'm) fifo_ext_scheme \<Rightarrow> i64 iter \<Rightarrow> (i64 \<times> 'v) list \<Rightarrow> 'b \<Rightarrow> 'b" where
  "write_back F it upd db = foldl (\<lambda>db k. db_Set F db (makeKey k) (the (map_of upd k))) db (it (map fst upd))"

definition Serve :: "('b, 'd, 'v, 'm) fifo_ext_scheme \<Rightarrow> i64 iter \<Rightarrow> 'b \<Rightarrow> i64 \<Rightarrow> ('s, 'd) process \<Rightarrow> 's \<Rightarrow>
    ('s \<times> 'b \<times> i64) option" where
  "Serve F it db lastDoneMain processOne s = do {
     entries \<leftarrow> db_Iterator F db (Some (makeKey (lastDoneMain + 1)));
     (s, lastDoneMain, upd) \<leftarrow> serve_loop F processOne entries lastDoneMain [] s;
     Some (s, write_back F it upd db, lastDoneMain) }"

definition LastFetched :: "('b, 'd, 'v, 'm) fifo_ext_scheme \<Rightarrow> 'b \<Rightarrow> i64 option" where
  "LastFetched F db = do {
     entries \<leftarrow> db_ReverseIterator F db;
     case entries of [] \<Rightarrow> Some 0 | kv # _ \<Rightarrow> Uint64 (fst kv) }"

definition ZeniqPubkeyToReceiverAddress :: "('b, 'd, 'v, 'm) fifo_ext_scheme \<Rightarrow> 264 word \<Rightarrow> address option" where
  "ZeniqPubkeyToReceiverAddress F pubkey = PubkeyToAddress F pubkey"

text \<open>The two nested loops of \<open>CrosschainInfo\<close>.\<close>

definition info_in_range :: "('b, 'd, 'v, 'm) fifo_ext_scheme \<Rightarrow> i64 \<Rightarrow> i64 \<Rightarrow>
    'd CCrpcTransferInfo list \<Rightarrow> 'd CCrpcTransferInfo \<Rightarrow> 'd CCrpcTransferInfo list option" where
  "info_in_range F start stop ccinfo info =
     (if sint (ti_Height info) \<ge> sint start \<and> sint (ti_Height info) \<le> sint stop
      then do { r \<leftarrow> ZeniqPubkeyToReceiverAddress F (ti_SenderPubkey info);
                Some (ccinfo @ [info\<lparr>ti_Receiver := r\<rparr>]) }
      else Some ccinfo)"

definition fifo_CrosschainInfo :: "('b, 'd, 'v, 'm) fifo_ext_scheme \<Rightarrow> 'b \<Rightarrow> i64 \<Rightarrow> i64 \<Rightarrow>
    'd CCrpcTransferInfo list option" where
  "fifo_CrosschainInfo F db start stop = do {
     entries \<leftarrow> db_Iterator F db None;
     foldM (\<lambda>ccinfo kv. do {
       cce \<leftarrow> unmarshal F (snd kv);
       foldM (info_in_range F start stop) ccinfo (ce_TransferInfos cce) }) [] entries }"

lemmas fifo_defs = makeValue_def unmarshal_def

subsection \<open>The order of the keys\<close>

lemma bytes_less_iff:
  "length xs = length ys \<Longrightarrow> (xs :: bytes) < ys \<longleftrightarrow> be_nat xs < be_nat ys"
proof (induction xs ys rule: list_induct2)
  case Nil
  then show ?case by (simp add: be_nat_def)
next
  case (Cons x xs y ys)
  have b: "be_nat xs < 256 ^ length ys" "be_nat ys < 256 ^ length ys"
    using be_nat_bound [of xs] be_nat_bound [of ys] Cons.hyps by simp_all
  have less: "unat u * 256 ^ length ys + p < unat v * 256 ^ length ys + q"
    if "u < v" "p < 256 ^ length ys" for u v :: u8 and p q :: nat
  proof -
    have "Suc (unat u) * 256 ^ length ys \<le> unat v * 256 ^ length ys"
      using that(1) by (intro mult_right_mono) (auto simp: word_less_nat_alt)
    with that(2) show ?thesis by simp
  qed
  show ?case
    using Cons.IH Cons.hyps less [of x y "be_nat xs" "be_nat ys"] less [of y x "be_nat ys" "be_nat xs"] b
    by (cases x y rule: linorder_cases) (auto simp: be_nat_Cons)
qed

lemma makeKey_less [simp]: "makeKey a < makeKey b \<longleftrightarrow> a < b"
proof -
  have "be_nat (makeKey w) = unat w" for w
    unfolding makeKey_def by (rule be_nat_be_bytes) simp
  then show ?thesis by (simp add: bytes_less_iff makeKey_def word_less_nat_alt)
qed

lemma makeKey_inject [simp]: "makeKey a = makeKey b \<longleftrightarrow> a = b"
  by (metis be_val_be_bytes_8 makeKey_def)

lemma makeKey_le [simp]: "makeKey a \<le> makeKey b \<longleftrightarrow> a \<le> b"
  by (auto simp: le_less)

lemma Uint64_makeKey [simp]: "Uint64 (makeKey a) = Some a"
  by (simp add: makeKey_def)

subsection \<open>The contract of the database\<close>

text \<open>
  \<open>entries\<close> is the content of a database. \<open>fifo_map\<close> is the abstract queue: the epoch
  stored under a height; \<open>fifo_ok\<close> says that every entry is an epoch stored under its own
  last height.
\<close>

definition db_entries :: "('b, 'd, 'v, 'm) fifo_ext_scheme \<Rightarrow> 'b \<Rightarrow> (bytes \<times> 'v) list" where
  "db_entries F db = (case db_Iterator F db None of None \<Rightarrow> [] | Some xs \<Rightarrow> xs)"

definition fifo_map :: "('b, 'd, 'v, 'm) fifo_ext_scheme \<Rightarrow> 'b \<Rightarrow> i64 \<rightharpoonup> 'd CCrpcEpoch" where
  "fifo_map F db k = Option.bind (map_of (db_entries F db) (makeKey k)) (unmarshal F)"

definition entry_ok :: "('b, 'd, 'v, 'm) fifo_ext_scheme \<Rightarrow> bytes \<times> 'v \<Rightarrow> bool" where
  "entry_ok F kv = (case unmarshal F (snd kv) of None \<Rightarrow> False | Some cce \<Rightarrow> fst kv = makeKey (ce_LastHeight cce))"

definition fifo_ok :: "('b, 'd, 'v, 'm) fifo_ext_scheme \<Rightarrow> 'b \<Rightarrow> bool" where
  "fifo_ok F db \<longleftrightarrow> list_all (entry_ok F) (db_entries F db)"

definition fifo_list :: "('b, 'd, 'v, 'm) fifo_ext_scheme \<Rightarrow> 'b \<Rightarrow> 'd CCrpcEpoch list" where
  "fifo_list F db = map (\<lambda>kv. the (unmarshal F (snd kv))) (db_entries F db)"

text \<open>The epochs still to serve.\<close>

definition pending :: "('b, 'd, 'v, 'm) fifo_ext_scheme \<Rightarrow> 'b \<Rightarrow> i64 \<Rightarrow> 'd CCrpcEpoch list" where
  "pending F db k = filter (\<lambda>e. k + 1 \<le> ce_LastHeight e) (fifo_list F db)"

text \<open>
  The abstract queue: process the epochs in order until one is not done, and record the
  epochs whose mapping changed.
\<close>

fun serve_epochs :: "('s, 'd) process \<Rightarrow> 'd CCrpcEpoch list \<Rightarrow> i64 \<Rightarrow> 's \<Rightarrow> ('s \<times> i64 \<times> 'd CCrpcEpoch list) option" where
  "serve_epochs p [] d s = Some (s, d, [])"
| "serve_epochs p (e # es) d s = do {
     (s, e', n) \<leftarrow> p s e;
     let d = (if sint n > sint d then n else d);
     if n = 0 then Some (s, d, [e'])
     else do { (s, d, es') \<leftarrow> serve_epochs p es d s; Some (s, d, e' # es') } }"

definition record_changes :: "'d CCrpcEpoch list \<Rightarrow> 'd CCrpcEpoch list \<Rightarrow> (i64 \<rightharpoonup> 'd CCrpcEpoch) \<Rightarrow> (i64 \<rightharpoonup> 'd CCrpcEpoch)" where
  "record_changes es es' m = foldl (\<lambda>m (e, e'). if ce_EEBTSmartHeight e \<noteq> ce_EEBTSmartHeight e'
     then m(ce_LastHeight e' \<mapsto> e') else m) m (zip es es')"

definition decoded :: "('b, 'd, 'v, 'm) fifo_ext_scheme \<Rightarrow> (i64 \<times> 'v) list \<Rightarrow> i64 \<rightharpoonup> 'd CCrpcEpoch" where
  "decoded F upd k = Option.bind (map_of upd k) (unmarshal F)"

definition upd_ok :: "('b, 'd, 'v, 'm) fifo_ext_scheme \<Rightarrow> (i64 \<times> 'v) list \<Rightarrow> bool" where
  "upd_ok F upd \<longleftrightarrow> (\<forall>(k, v) \<in> set upd. \<exists>e. unmarshal F v = Some e \<and> ce_LastHeight e = k)"

lemma upd_ok_update:
  "upd_ok F upd \<Longrightarrow> unmarshal F v = Some e \<Longrightarrow> upd_ok F (AList.update (ce_LastHeight e) v upd)"
  by (induction upd) (auto simp: upd_ok_def)

lemma record_changes_add: "record_changes es es' (a ++ b) = a ++ record_changes es es' b"
proof -
  let ?f = "\<lambda>m (e, e'). if ce_EEBTSmartHeight e \<noteq> ce_EEBTSmartHeight e' then m(ce_LastHeight e' \<mapsto> e') else m"
  have "foldl ?f (a ++ b) xs = a ++ foldl ?f b xs" for xs
    by (induction xs rule: rev_induct) (auto simp: map_add_upd)
  then show ?thesis by (simp add: record_changes_def)
qed

text \<open>The transfers between two main-chain heights, each with the address of its key.\<close>

definition with_receiver :: "('b, 'd, 'v, 'm) fifo_ext_scheme \<Rightarrow> 'd CCrpcTransferInfo \<Rightarrow> 'd CCrpcTransferInfo" where
  "with_receiver F ti = ti\<lparr>ti_Receiver := the (PubkeyToAddress F (ti_SenderPubkey ti))\<rparr>"

definition infos_between :: "('b, 'd, 'v, 'm) fifo_ext_scheme \<Rightarrow> i64 \<Rightarrow> i64 \<Rightarrow> 'd CCrpcTransferInfo list \<Rightarrow>
    'd CCrpcTransferInfo list" where
  "infos_between F start stop tis = map (with_receiver F)
     (filter (\<lambda>ti. sint (ti_Height ti) \<ge> sint start \<and> sint (ti_Height ti) \<le> sint stop) tis)"

locale ordered_db =
  fixes F :: "('b, 'd, 'v, 'm) fifo_ext_scheme"
  assumes iterator_sorted: "\<exists>xs. db_Iterator F db None = Some xs \<and> sorted (map fst xs) \<and> distinct (map fst xs)"
    and iterator_from: "db_Iterator F db (Some b) = Some (filter (\<lambda>kv. b \<le> fst kv) (db_entries F db))"
    and reverse_iterator: "db_ReverseIterator F db = Some (rev (db_entries F db))"
    and entries_set: "map_of (db_entries F (db_Set F db k v)) = (map_of (db_entries F db))(k \<mapsto> v)"
    and json_epoch: "\<exists>v. JsonMarshalEpoch F e = Some v \<and> JsonUnmarshalEpoch F v = Some e"
begin

lemma entries_sorted: "sorted (map fst (db_entries F db))" "distinct (map fst (db_entries F db))"
  using iterator_sorted [of db] by (auto simp: db_entries_def)

lemma iterator_all: "db_Iterator F db None = Some (db_entries F db)"
  using iterator_sorted [of db] by (auto simp: db_entries_def)

lemma makeValue_ok: obtains v where "makeValue F e = Some v" "unmarshal F v = Some e"
  using json_epoch [of e] by (auto simp: fifo_defs)

lemma set_entries_Set:
  "kv \<in> set (db_entries F (db_Set F db k v)) \<longleftrightarrow> kv = (k, v) \<or> fst kv \<noteq> k \<and> kv \<in> set (db_entries F db)"
  using map_of_eq_Some_iff [OF entries_sorted(2), of "db_Set F db k v" "fst kv" "snd kv"]
    map_of_eq_Some_iff [OF entries_sorted(2), of db "fst kv" "snd kv"]
  by (cases kv) (auto simp: entries_set split: if_splits)

lemma fifo_ok_Set:
  assumes "fifo_ok F db" and "unmarshal F v = Some e"
  shows "fifo_ok F (db_Set F db (makeKey (ce_LastHeight e)) v)"
  using assms by (auto simp: fifo_ok_def list_all_iff set_entries_Set entry_ok_def)

lemma fifo_map_Set:
  "unmarshal F v = Some e \<Longrightarrow> fifo_map F (db_Set F db (makeKey k) v) = (fifo_map F db)(k \<mapsto> e)"
  by (auto simp: fifo_map_def entries_set fun_eq_iff)

lemma entry_of:
  assumes "fifo_ok F db" and "kv \<in> set (db_entries F db)"
  shows "\<exists>e. unmarshal F (snd kv) = Some e \<and> fst kv = makeKey (ce_LastHeight e)"
  using assms by (cases "unmarshal F (snd kv)") (auto simp: fifo_ok_def list_all_iff entry_ok_def split: option.splits)

lemma fifo_map_Some:
  assumes "fifo_ok F db"
  shows "fifo_map F db k = Some e \<longleftrightarrow> e \<in> set (fifo_list F db) \<and> ce_LastHeight e = k"
proof -
  have "fifo_map F db k = Some e \<longleftrightarrow> (\<exists>v. (makeKey k, v) \<in> set (db_entries F db) \<and> unmarshal F v = Some e)"
    unfolding map_of_eq_Some_iff [OF entries_sorted(2), symmetric]
    by (auto simp: fifo_map_def split: bind_splits)
  also have "\<dots> \<longleftrightarrow> e \<in> set (fifo_list F db) \<and> ce_LastHeight e = k"
  proof (intro iffI conjI)
    assume "\<exists>v. (makeKey k, v) \<in> set (db_entries F db) \<and> unmarshal F v = Some e"
    then obtain v where v: "(makeKey k, v) \<in> set (db_entries F db)" "unmarshal F v = Some e" by blast
    then show "e \<in> set (fifo_list F db)" by (force simp: fifo_list_def)
    from entry_of [OF assms v(1)] v(2) show "ce_LastHeight e = k" by simp
  next
    assume "e \<in> set (fifo_list F db) \<and> ce_LastHeight e = k"
    then obtain kv where "kv \<in> set (db_entries F db)" "e = the (unmarshal F (snd kv))" "ce_LastHeight e = k"
      by (auto simp: fifo_list_def)
    with entry_of [OF assms, of kv] show "\<exists>v. (makeKey k, v) \<in> set (db_entries F db) \<and> unmarshal F v = Some e"
      by (cases kv) auto
  qed
  finally show ?thesis .
qed

lemma heights_of_entries:
  assumes "fifo_ok F db"
  shows "map fst (db_entries F db) = map (\<lambda>e. makeKey (ce_LastHeight e)) (fifo_list F db)"
  using assms unfolding fifo_ok_def list_all_iff fifo_list_def entry_ok_def
  by (auto split: option.splits)

lemma fifo_list_sorted:
  assumes "fifo_ok F db"
  shows "sorted (map ce_LastHeight (fifo_list F db))" "distinct (map ce_LastHeight (fifo_list F db))"
proof -
  note keys = heights_of_entries [OF assms]
  show "sorted (map ce_LastHeight (fifo_list F db))"
    using entries_sorted(1) [of db] unfolding keys by (simp add: sorted_map)
  have "distinct (map makeKey (map ce_LastHeight (fifo_list F db)))"
    using entries_sorted(2) [of db] unfolding keys by (simp add: comp_def)
  then show "distinct (map ce_LastHeight (fifo_list F db))" by (simp only: distinct_map [of makeKey])
qed

text \<open>What \<open>Serve\<close> iterates over are the pending epochs.\<close>

lemma pending_entries:
  assumes "fifo_ok F db"
  shows "map (\<lambda>kv. the (unmarshal F (snd kv))) (filter (\<lambda>kv. makeKey (k + 1) \<le> fst kv) (db_entries F db)) = pending F db k"
    and "list_all (entry_ok F) (filter (\<lambda>kv. makeKey (k + 1) \<le> fst kv) (db_entries F db))"
proof -
  have ok: "kv \<in> set (db_entries F db) \<Longrightarrow> entry_ok F kv" for kv
    using assms by (auto simp: fifo_ok_def list_all_iff)
  have "kv \<in> set (db_entries F db) \<Longrightarrow> fst kv = makeKey (ce_LastHeight (the (unmarshal F (snd kv))))" for kv
    using entry_of [OF assms, of kv] by auto
  then have "filter (\<lambda>kv. makeKey (k + 1) \<le> fst kv) (db_entries F db)
      = filter (\<lambda>kv. k + 1 \<le> ce_LastHeight (the (unmarshal F (snd kv)))) (db_entries F db)"
    by (intro filter_cong) auto
  then show "map (\<lambda>kv. the (unmarshal F (snd kv))) (filter (\<lambda>kv. makeKey (k + 1) \<le> fst kv) (db_entries F db)) = pending F db k"
    by (simp add: pending_def fifo_list_def filter_map comp_def)
  show "list_all (entry_ok F) (filter (\<lambda>kv. makeKey (k + 1) \<le> fst kv) (db_entries F db))"
    using ok by (auto simp: list_all_iff)
qed

lemma write_back_ok:
  assumes "is_iter it" and "distinct (map fst upd)"
    and upd: "upd_ok F upd"
    and ok: "fifo_ok F db"
  shows "fifo_ok F (write_back F it upd db)"
    and "fifo_map F (write_back F it upd db) = fifo_map F db ++ decoded F upd"
proof -
  let ?f = "\<lambda>db k. db_Set F db (makeKey k) (the (map_of upd k))"
  have dec: "\<exists>e. unmarshal F (the (map_of upd k)) = Some e \<and> ce_LastHeight e = k" if "k \<in> fst ` set upd" for k
    using that upd assms(2) by (force simp: upd_ok_def)
  have "fifo_ok F (foldl ?f db ks) \<and> (\<forall>k. fifo_map F (foldl ?f db ks) k =
      (if k \<in> set ks then unmarshal F (the (map_of upd k)) else fifo_map F db k))"
    if "set ks \<subseteq> fst ` set upd" for ks
    using that
  proof (induction ks rule: rev_induct)
    case (snoc k ks)
    then obtain e where e: "unmarshal F (the (map_of upd k)) = Some e" "ce_LastHeight e = k" using dec [of k] by auto
    then show ?case using snoc fifo_ok_Set [of "foldl ?f db ks" _ e] by (auto simp: fifo_map_Set [OF e(1)])
  qed (simp add: ok)
  note all = this [of "it (map fst upd)"]
  have keys: "set (it (map fst upd)) = fst ` set upd" using assms(1) by simp
  show "fifo_ok F (write_back F it upd db)" using all keys by (simp add: write_back_def)
  have "fifo_map F (write_back F it upd db) k = (fifo_map F db ++ decoded F upd) k" for k
  proof (cases "map_of upd k")
    case None
    then have "k \<notin> fst ` set upd" by (simp add: map_of_eq_None_iff)
    with all keys None show ?thesis by (simp add: write_back_def decoded_def map_add_def)
  next
    case (Some v)
    then have "k \<in> fst ` set upd" by (metis map_of_eq_None_iff option.distinct(1))
    with all keys Some dec [of k] show ?thesis by (auto simp: write_back_def decoded_def map_add_def)
  qed
  then show "fifo_map F (write_back F it upd db) = fifo_map F db ++ decoded F upd" by (rule ext)
qed


lemma serve_loop_refines:
  assumes keeps: "\<And>s e t e' n. p s e = Some (t, e', n) \<Longrightarrow> ce_LastHeight e' = ce_LastHeight e"
    and "list_all (entry_ok F) entries"
    and "distinct (map fst upd)" and "upd_ok F upd"
  shows "rel_option (\<lambda>(s', d', upd') (s'', d'', es'). s' = s'' \<and> d' = d'' \<and> distinct (map fst upd') \<and> upd_ok F upd' \<and>
      decoded F upd' = record_changes (map (\<lambda>kv. the (unmarshal F (snd kv))) entries) es' (decoded F upd))
    (serve_loop F p entries d upd s) (serve_epochs p (map (\<lambda>kv. the (unmarshal F (snd kv))) entries) d s)"
  using assms(2-4)
proof (induction entries arbitrary: d upd s)
  case (Cons kv entries)
  from Cons.prems(1) obtain e where e: "unmarshal F (snd kv) = Some e" by (auto simp: entry_ok_def split: option.splits)
  show ?case
  proof (cases "p s e")
    case (Some r)
    obtain t e' n where r: "p s e = Some (t, e', n)" using Some by (cases r) auto
    obtain v where v: "makeValue F e' = Some v" "unmarshal F v = Some e'" by (rule makeValue_ok)
    let ?upd = "if ce_EEBTSmartHeight e \<noteq> ce_EEBTSmartHeight e' then AList.update (ce_LastHeight e') v upd else upd"
    let ?d = "if sint n > sint d then n else d"
    have u: "distinct (map fst ?upd)" "upd_ok F ?upd"
      using Cons.prems(2,3) v(2) by (auto simp: distinct_update upd_ok_update)
    have dec: "decoded F ?upd = (if ce_EEBTSmartHeight e \<noteq> ce_EEBTSmartHeight e' then (decoded F upd)(ce_LastHeight e' \<mapsto> e') else decoded F upd)"
      using v(2) by (auto simp: decoded_def fun_eq_iff update_conv')
    have "serve_loop F p (kv # entries) d upd s = (if n = 0 then Some (t, ?d, ?upd) else serve_loop F p entries ?d ?upd t)"
      using e r v by (auto simp: Let_def)
    moreover have "serve_epochs p (e # es) d s = (if n = 0 then Some (t, ?d, [e'])
        else map_option (\<lambda>(s, d, es'). (s, d, e' # es')) (serve_epochs p es ?d t))" for es
      using r by (cases "serve_epochs p es ?d t") (auto simp: Let_def)
    moreover note IH = Cons.IH [OF _ u, of ?d t]
    ultimately show ?thesis
      using Cons.prems(1) e u dec
      by (cases "n = 0") (auto simp: record_changes_def option.rel_map case_prod_beta elim!: option.rel_mono_strong)
  qed (simp add: e)
qed (simp add: record_changes_def)

lemma Serve_abstract:
  assumes "is_iter it" and "fifo_ok F db"
    and "\<And>s e t e' n. p s e = Some (t, e', n) \<Longrightarrow> ce_LastHeight e' = ce_LastHeight e"
  shows "rel_option (\<lambda>(s', db', d') (s'', d'', es'). s' = s'' \<and> d' = d'' \<and> fifo_ok F db' \<and>
      fifo_map F db' = record_changes (pending F db d) es' (fifo_map F db))
    (Serve F it db d p s) (serve_epochs p (pending F db d) d s)"
proof -
  let ?es = "filter (\<lambda>kv. makeKey (d + 1) \<le> fst kv) (db_entries F db)"
  have S: "Serve F it db d p s
      = map_option (\<lambda>(s, d, upd). (s, write_back F it upd db, d)) (serve_loop F p ?es d [] s)"
    by (cases "serve_loop F p ?es d [] s") (auto simp: Serve_def iterator_from)
  have nil: "decoded F [] = Map.empty" by (simp add: decoded_def fun_eq_iff)
  show ?thesis
    using serve_loop_refines [of p ?es "[]" d s, OF assms(3) pending_entries(2) [OF assms(2)]]
    unfolding S option.rel_map pending_entries(1) [OF assms(2)]
    by (rule option.rel_mono_strong)
      (auto simp: upd_ok_def [of F "[]"] nil write_back_ok [OF assms(1) _ _ assms(2)]
        record_changes_add [of _ _ "fifo_map F db" Map.empty, simplified, symmetric])
qed

lemma Come_abstract:
  assumes "fifo_ok F db"
  shows "\<exists>db'. Come F db e = Some db' \<and> fifo_ok F db' \<and> fifo_map F db' = (fifo_map F db)(ce_LastHeight e \<mapsto> e)"
proof -
  obtain v where v: "makeValue F e = Some v" "unmarshal F v = Some e" by (rule makeValue_ok)
  then show ?thesis by (simp add: Come_def fifo_ok_Set [OF assms v(2)] fifo_map_Set [OF v(2)])
qed

lemma LastFetched_abstract:
  assumes "fifo_ok F db"
  shows "LastFetched F db = Some (if fifo_list F db = [] then 0 else ce_LastHeight (last (fifo_list F db)))"
proof -
  have "db_entries F db = [] \<longleftrightarrow> fifo_list F db = []" by (simp add: fifo_list_def)
  moreover have "fst (last (db_entries F db)) = makeKey (ce_LastHeight (last (fifo_list F db)))" if "fifo_list F db \<noteq> []"
    using that last_map [of "db_entries F db" fst] last_map [of "fifo_list F db" "\<lambda>e. makeKey (ce_LastHeight e)"]
    unfolding heights_of_entries [OF assms] by (auto simp: fifo_list_def)
  ultimately show ?thesis
    by (cases "rev (db_entries F db)") (auto simp: LastFetched_def reverse_iterator simp flip: hd_rev)
qed

lemma info_loop:
  assumes "list_all (\<lambda>ti. PubkeyToAddress F (ti_SenderPubkey ti) \<noteq> None) tis"
  shows "foldM (info_in_range F start stop) acc tis = Some (acc @ infos_between F start stop tis)"
  using assms
  by (induction tis arbitrary: acc)
    (auto simp: info_in_range_def infos_between_def ZeniqPubkeyToReceiverAddress_def with_receiver_def)

lemma CrosschainInfo_abstract:
  assumes "fifo_ok F db"
    and "list_all (\<lambda>e. list_all (\<lambda>ti. PubkeyToAddress F (ti_SenderPubkey ti) \<noteq> None) (ce_TransferInfos e)) (fifo_list F db)"
  shows "fifo_CrosschainInfo F db start stop
    = Some (infos_between F start stop (concat (map ce_TransferInfos (fifo_list F db))))"
proof -
  have "foldM (\<lambda>ccinfo kv. do { cce \<leftarrow> unmarshal F (snd kv); foldM (info_in_range F start stop) ccinfo (ce_TransferInfos cce) }) acc xs
      = Some (acc @ infos_between F start stop (concat (map ce_TransferInfos (map (\<lambda>kv. the (unmarshal F (snd kv))) xs))))"
    if "set xs \<subseteq> set (db_entries F db)" for xs acc
    using that
  proof (induction xs arbitrary: acc)
    case (Cons kv xs)
    then obtain e where e: "unmarshal F (snd kv) = Some e" using entry_of [OF assms(1), of kv] by auto
    then have "e \<in> set (fifo_list F db)" using Cons.prems by (force simp: fifo_list_def)
    then have "list_all (\<lambda>ti. PubkeyToAddress F (ti_SenderPubkey ti) \<noteq> None) (ce_TransferInfos e)"
      using assms(2) by (simp add: list_all_iff)
    from info_loop [OF this, of start stop acc] Cons e show ?case by (simp add: infos_between_def)
  qed (simp add: infos_between_def)
  from this [OF order_refl, of "[]"] show ?thesis
    by (simp add: fifo_CrosschainInfo_def iterator_all fifo_list_def comp_def)
qed

end

subsection \<open>A database over association lists\<close>

definition is_list_db :: "((bytes \<times> 'd CCrpcEpoch) list, 'd, 'd CCrpcEpoch, 'm) fifo_ext_scheme \<Rightarrow> bool" where
  "is_list_db F \<longleftrightarrow>
     db_Set F = (\<lambda>db k v. (k, v) # db) \<and>
     db_Iterator F = (\<lambda>db s. Some (filter (\<lambda>kv. case s of None \<Rightarrow> True | Some b \<Rightarrow> b \<le> fst kv) (sort_key fst (AList.clearjunk db)))) \<and>
     db_ReverseIterator F = (\<lambda>db. Some (rev (sort_key fst (AList.clearjunk db)))) \<and>
     JsonMarshalEpoch F = Some \<and> JsonUnmarshalEpoch F = Some"

definition list_fifo :: "((bytes \<times> 'd CCrpcEpoch) list, 'd, 'd CCrpcEpoch) fifo_ext" where
  "list_fifo = \<lparr>
     db_Set = (\<lambda>db k v. (k, v) # db),
     db_Iterator = (\<lambda>db s. Some (filter (\<lambda>kv. case s of None \<Rightarrow> True | Some b \<Rightarrow> b \<le> fst kv) (sort_key fst (AList.clearjunk db)))),
     db_ReverseIterator = (\<lambda>db. Some (rev (sort_key fst (AList.clearjunk db)))),
     JsonMarshalEpoch = Some,
     JsonUnmarshalEpoch = Some,
     PubkeyToAddress = (\<lambda>pk. Some (ucast pk)) \<rparr>"

lemma map_of_sort_key: "distinct (map fst xs) \<Longrightarrow> map_of (sort_key fst xs) = map_of (xs :: ('k::linorder \<times> 'v) list)"
proof (rule ext)
  fix k
  assume d: "distinct (map fst xs)"
  moreover have "mset (map fst (sort_key fst xs)) = mset (map fst xs)" by simp
  ultimately have "distinct (map fst (sort_key fst xs))" by (metis mset_eq_imp_distinct_iff)
  with d show "map_of (sort_key fst xs) k = map_of xs k"
    by (intro option_eqI) (simp add: map_of_eq_Some_iff)
qed

lemma list_db_entries: "is_list_db F \<Longrightarrow> db_entries F db = sort_key fst (AList.clearjunk db)"
  by (simp add: is_list_db_def db_entries_def)

lemma list_db_ordered:
  assumes F: "is_list_db (F :: ((bytes \<times> 'd CCrpcEpoch) list, 'd, 'd CCrpcEpoch, 'm) fifo_ext_scheme)"
  shows "ordered_db F"
proof
  fix db :: "(bytes \<times> 'd CCrpcEpoch) list" and k v b e
  have "mset (map fst (sort_key fst (AList.clearjunk db))) = mset (map fst (AList.clearjunk db))" by simp
  then have "distinct (map fst (sort_key fst (AList.clearjunk db)))"
    using mset_eq_imp_distinct_iff distinct_clearjunk by blast
  then show "\<exists>xs. db_Iterator F db None = Some xs \<and> sorted (map fst xs) \<and> distinct (map fst xs)"
    using F by (simp add: is_list_db_def)
  show "map_of (db_entries F (db_Set F db k v)) = (map_of (db_entries F db))(k \<mapsto> v)"
    unfolding list_db_entries [OF F] map_of_sort_key [OF distinct_clearjunk] map_of_clearjunk
    using F by (simp add: is_list_db_def)
  show "db_Iterator F db (Some b) = Some (filter (\<lambda>kv. b \<le> fst kv) (db_entries F db))"
    and "db_ReverseIterator F db = Some (rev (db_entries F db))"
    and "\<exists>v. JsonMarshalEpoch F e = Some v \<and> JsonUnmarshalEpoch F v = Some e"
    using F unfolding list_db_entries [OF F] by (simp_all add: is_list_db_def)
qed

interpretation lf: ordered_db "list_fifo :: ((bytes \<times> 'd CCrpcEpoch) list, 'd, 'd CCrpcEpoch) fifo_ext"
  by (rule list_db_ordered) (simp add: is_list_db_def list_fifo_def)

subsection \<open>Properties\<close>

text \<open>
  C18: The queue implements an ordered map from heights to epochs: \<open>Serve\<close> panics exactly
  when the processing of one of the pending epochs panics, hands the epochs above the last
  one done to the processing in ascending order of their heights until one is not done, and
  stores exactly the epochs whose mapping to the smart chain the processing changed,
  whatever the order in which the changes are written back.
\<close>

theorem Serve_refines:
  assumes "ordered_db F" and "is_iter it" and "fifo_ok F db"
    and "\<And>s e t e' n. p s e = Some (t, e', n) \<Longrightarrow> ce_LastHeight e' = ce_LastHeight e"
  shows "sorted (map ce_LastHeight (pending F db d)) \<and>
    rel_option (\<lambda>(s', db', d') (s'', d'', es'). s' = s'' \<and> d' = d'' \<and> fifo_ok F db' \<and>
        fifo_map F db' = record_changes (pending F db d) es' (fifo_map F db))
      (Serve F it db d p s) (serve_epochs p (pending F db d) d s)"
proof
  show "sorted (map ce_LastHeight (pending F db d))"
    unfolding pending_def using ordered_db.fifo_list_sorted(1) [OF assms(1,3)] by (rule sorted_filter)
qed (rule ordered_db.Serve_abstract [OF assms])

definition sample_epoch :: "i64 \<Rightarrow> i64 \<Rightarrow> u256 CCrpcEpoch" where
  "sample_epoch h smart = \<lparr>ce_FirstHeight = h - 5, ce_LastHeight = h, ce_EpochEndBlockTime = 100 + h,
     ce_EEBTSmartHeight = smart, ce_TransferInfos = [\<lparr>ti_Height = h, ti_TxID = 1, ti_SenderPubkey = 7, ti_Amount = 5,
       ti_EpochEndHeight = h, ti_EpochEndBlockTime = 100 + h, ti_ApplicationHeight = 0, ti_Receiver = 0\<rparr>]\<rparr>"

definition sample_db :: "(bytes \<times> u256 CCrpcEpoch) list" where
  "sample_db = [(makeKey 18, sample_epoch 18 0), (makeKey 12, sample_epoch 12 0), (makeKey 6, sample_epoch 6 3)]"

definition map_first :: "(nat, u256) process" where
  "map_first s e = Some (s + 1, e\<lparr>ce_EEBTSmartHeight := 40\<rparr>, if s = 0 then ce_LastHeight e else 0)"

lemma sample_entries: "db_entries list_fifo sample_db = rev sample_db"
  by (simp add: list_fifo_def db_entries_def sample_db_def order_less_imp_le insort_key.simps)

lemma sample_fifo: "fifo_ok list_fifo sample_db"
    "fifo_list list_fifo sample_db = [sample_epoch 6 3, sample_epoch 12 0, sample_epoch 18 0]"
  by (simp_all add: fifo_ok_def fifo_list_def sample_entries)
    (simp_all add: sample_db_def entry_ok_def unmarshal_def list_fifo_def sample_epoch_def)

theorem Serve_refines_witness:
  "\<exists>db'. Serve list_fifo rev sample_db 6 map_first 0 = Some (2, db', 12) \<and>
     map_option ce_EEBTSmartHeight (fifo_map list_fifo db' 18) = Some 40"
proof -
  have p: "pending list_fifo sample_db 6 = [sample_epoch 12 0, sample_epoch 18 0]"
    by (simp add: pending_def sample_fifo sample_epoch_def)
  show ?thesis
    using Serve_refines [OF lf.ordered_db_axioms is_iter_rev sample_fifo(1), of map_first 6 0]
    by (auto simp: p map_first_def sample_epoch_def record_changes_def rel_option_iff split: option.splits)
qed

end
