(* ===== verification/CCRPC.thy ===== *)
theory CCRPC
  imports CCRPC_Fifo Go_Int64
begin

text \<open>
  Transfers from the main chain (\<open>src/ccrpc/ccrpc.go\<close> and the response decoding of
  \<open>src/ccrpc/rpcclient.go\<close>). A fetcher asks a main-chain node for the transfers of one
  epoch of main-chain blocks after the other and puts them into the queue. Every block of
  the smart chain serves the queue: an epoch is mapped to the first smart-chain block whose
  time is not before the end of the epoch, and its transfers are credited a fixed number of
  blocks after that one. The height of the last epoch that was credited is part of the state
  of the chain.

  The block store, the decimal arithmetic and the JSON decoding are functions of the record
  \<open>ccrpc_ext\<close>; the requests to the node are answered by a list of replies. A panic, and a
  loop that does not end, is \<open>None\<close>.
\<close>

record JsonRpcError =
  je_Code :: int
  je_Message :: string

record 'd CCrpcResponse =
  rs_Height :: i64
  rs_TxID :: string
  rs_Hexpubkey :: string
  rs_Amount :: 'd

record 'd CCrpcResponses =
  rs_EpochEndBlockTime :: i64
  rs_CC :: "'d CCrpcResponse list"
  rs_Error :: "JsonRpcError option"

text \<open>
  \<open>BlockTime\<close> is the time stamp \<open>ctx.GetBlockByHeight\<close> finds; \<open>FromDecimal\<close> is
  \<open>uint256.FromDecimal\<close> of the printed decimal. \<open>JsonUnmarshalError\<close> decodes a response
  into the error pointer: whether decoding failed, and the pointer it leaves behind;
  \<open>JsonUnmarshalResponses\<close> decodes the whole response.
\<close>

record ('c, 'b, 'd, 'v, 'r) ccrpc_ext = "('b, 'd, 'v) fifo_ext" +
  BlockTime :: "'c \<Rightarrow> u64 \<Rightarrow> i64 option"
  Shift :: "'d \<Rightarrow> int \<Rightarrow> 'd"
  FromDecimal :: "'d \<Rightarrow> u256 option"
  JsonUnmarshalError :: "'r \<Rightarrow> bool \<times> JsonRpcError option"
  JsonUnmarshalResponses :: "'r \<Rightarrow> JsonRpcError option \<Rightarrow> 'd CCrpcResponses option"

record ('b, 'd) CCrpcImp =
  cc_Epochs :: "i64 list list"
  cc_Infos :: "'d CCrpcTransferInfo list"
  cc_SearchTo :: i64
  cc_running :: bool
  cc_fifo :: 'b

text \<open>
  A new handler, over the queue that is on disk; a node that is not connected to the main
  chain does not start.
\<close>

definition Newccrpc :: "bool \<Rightarrow> i64 list list \<Rightarrow> i64 \<Rightarrow> 'b \<Rightarrow> ('b, 'd) CCrpcImp option" where
  "Newccrpc isConnected epochs forkBlock db =
     (if \<not> isConnected then None
      else Some \<lparr>cc_Epochs = epochs, cc_Infos = [], cc_SearchTo = forkBlock, cc_running = False, cc_fifo = db\<rparr>)"

subsection \<open>The height of the last epoch done\<close>

definition ccrpcSequence :: u64 where "ccrpcSequence = 2 ^ 64 - 1 - 5"
definition Slotccrpc :: bytes32 where "Slotccrpc = 0"

definition loadDoneMain :: "('c, 'a) ext \<Rightarrow> 'c \<Rightarrow> i64 option" where
  "loadDoneMain E c = (case GetStorageAt E c ccrpcSequence Slotccrpc of None \<Rightarrow> Some 0 | Some bz \<Rightarrow> Uint64 bz)"

definition saveDoneMain :: "('c, 'a) ext \<Rightarrow> 'c \<Rightarrow> i64 \<Rightarrow> 'c" where
  "saveDoneMain E c lastHeight = SetStorageAt E c ccrpcSequence Slotccrpc (be_bytes 8 lastHeight)"

subsection \<open>The table of epoch lengths\<close>

fun getEpoch_loop :: "i64 list list \<Rightarrow> i64 \<Rightarrow> i64 \<times> i64 \<times> i64 \<Rightarrow> (i64 \<times> i64 \<times> i64) option" where
  "getEpoch_loop [] nextFirst acc = Some acc"
| "getEpoch_loop (v # vs) nextFirst acc =
     (if length v < 1 then None
      else if sint nextFirst < sint (v ! 0) then Some acc
      else if length v < 3 then None
      else getEpoch_loop vs nextFirst (v ! 1, v ! 2, if length v > 3 then v ! 3 else 0))"

definition getEpoch :: "i64 list list \<Rightarrow> i64 \<Rightarrow> (i64 \<times> i64 \<times> i64) option" where
  "getEpoch epochs nextFirst = do {
     (n, nn, minimum) \<leftarrow> getEpoch_loop epochs nextFirst (0, 0, 0);
     if n = 0 then None else Some (n, nn, minimum) }"

subsection \<open>The fetcher\<close>

definition fetcher_start :: "('b, 'd, 'v, 'm) fifo_ext_scheme \<Rightarrow> ('b, 'd) CCrpcImp \<Rightarrow> i64 option" where
  "fetcher_start F cc = (case cc_Epochs cc of
       (first # _) # _ \<Rightarrow> do {
         lastFetched \<leftarrow> LastFetched F (cc_fifo cc);
         Some (if sint lastFetched > 0 then lastFetched else first - 1) }
     | _ \<Rightarrow> None)"

text \<open>
  The waiting loop asks for the height of the main chain until it is high enough; it is
  \<open>None\<close> while no reply is. The second component is the list of replies not used yet.
\<close>

fun await_height :: "i64 \<Rightarrow> i64 \<Rightarrow> i64 list \<Rightarrow> (i64 \<times> i64 list) option" where
  "await_height startFetching mainHeight replies =
     (if sint mainHeight < sint startFetching
      then (case replies of [] \<Rightarrow> None | h # hs \<Rightarrow> await_height startFetching h hs)
      else Some (mainHeight, replies))"

text \<open>
  One round of the endless loop, with the answer of \<open>FetchCrosschain\<close> as a function of the
  request; a round that finds no epoch panics.
\<close>

definition fetcher_round :: "('b, 'd, 'v, 'm) fifo_ext_scheme \<Rightarrow> i64 list list \<Rightarrow>
    (i64 \<Rightarrow> i64 \<Rightarrow> i64 \<Rightarrow> 'd CCrpcEpoch option) \<Rightarrow> i64 list \<Rightarrow> i64 \<times> i64 \<times> 'b \<Rightarrow> (i64 \<times> i64 \<times> 'b) option" where
  "fetcher_round F epochs fetch replies = (\<lambda>(mainHeight, doneFetch, db). do {
     let nextFirst = doneFetch + 1;
     (n, nn, minimum) \<leftarrow> getEpoch epochs nextFirst;
     let nextLast = nextFirst + n - 1;
     let startFetching = nextLast + n;
     (mainHeight, replies) \<leftarrow> await_height startFetching mainHeight replies;
     ccrpcEpoch \<leftarrow> fetch nextFirst nextLast minimum;
     db \<leftarrow> Come F db ccrpcEpoch;
     Some (mainHeight, ce_LastHeight ccrpcEpoch, db) })"

subsection \<open>Decoding a response\<close>

definition fromHexChar :: "char \<Rightarrow> u8 option" where
  "fromHexChar ch = (let c = of_char ch :: nat in
     if 48 \<le> c \<and> c \<le> 57 then Some (of_nat (c - 48))
     else if 97 \<le> c \<and> c \<le> 102 then Some (of_nat (c - 87))
     else if 65 \<le> c \<and> c \<le> 70 then Some (of_nat (c - 55))
     else None)"

fun hex_DecodeString :: "string \<Rightarrow> bytes option" where
  "hex_DecodeString [] = Some []"
| "hex_DecodeString [c] = None"
| "hex_DecodeString (p # q # s) = do {
     a \<leftarrow> fromHexChar p; b \<leftarrow> fromHexChar q; r \<leftarrow> hex_DecodeString s; Some ((a * 16 + b) # r) }"

definition decode_transfer :: "'d CCrpcEpoch \<Rightarrow> 'd CCrpcResponse \<Rightarrow> 'd CCrpcEpoch option" where
  "decode_transfer ccepoch cci = do {
     ptx \<leftarrow> hex_DecodeString (rs_TxID cci);
     pk \<leftarrow> hex_DecodeString (rs_Hexpubkey cci);
     Some (ccepoch\<lparr>ce_TransferInfos := ce_TransferInfos ccepoch @ [\<lparr>
       ti_Height = rs_Height cci,
       ti_TxID = be_val (copy_to (replicate 32 0) ptx),
       ti_SenderPubkey = be_val (copy_to (replicate 33 0) pk),
       ti_Amount = rs_Amount cci,
       ti_EpochEndHeight = ce_LastHeight ccepoch,
       ti_EpochEndBlockTime = ce_EpochEndBlockTime ccepoch,
       ti_ApplicationHeight = 0,
       ti_Receiver = 0\<rparr>]\<rparr>) }"

text \<open>Every error return of \<open>DO_GetCrosschain\<close> comes with a nil epoch: \<open>None\<close>.\<close>

definition DO_GetCrosschain :: "('c, 'b, 'd, 'v, 'r, 'm) ccrpc_ext_scheme \<Rightarrow> i64 \<Rightarrow> i64 \<Rightarrow> 'r \<Rightarrow> 'd CCrpcEpoch option" where
  "DO_GetCrosschain F first lst respData =
     (let (iserr, e) = JsonUnmarshalError F respData in
      if iserr \<and> (case e of None \<Rightarrow> False | Some e \<Rightarrow> je_Code e < 0) then None
      else do {
        ccResponses \<leftarrow> JsonUnmarshalResponses F respData e;
        foldM decode_transfer \<lparr>ce_FirstHeight = first, ce_LastHeight = lst,
          ce_EpochEndBlockTime = rs_EpochEndBlockTime ccResponses, ce_EEBTSmartHeight = 0,
          ce_TransferInfos = []\<rparr> (rs_CC ccResponses) })"

text \<open>\<open>sendRequest\<close> is the answer of the node to a request; an error is \<open>None\<close>.\<close>

definition getCrosschain :: "('c, 'b, 'd, 'v, 'r, 'm) ccrpc_ext_scheme \<Rightarrow>
    (i64 \<Rightarrow> i64 \<Rightarrow> i64 \<Rightarrow> 'r option) \<Rightarrow> i64 \<Rightarrow> i64 \<Rightarrow> i64 \<Rightarrow> 'd CCrpcEpoch option" where
  "getCrosschain F sendRequest first lst minimum = do {
     respData \<leftarrow> sendRequest first lst minimum;
     DO_GetCrosschain F first lst respData }"

definition FetchCrosschain :: "('c, 'b, 'd, 'v, 'r, 'm) ccrpc_ext_scheme \<Rightarrow>
    (i64 \<Rightarrow> i64 \<Rightarrow> i64 \<Rightarrow> 'r option) \<Rightarrow> i64 \<Rightarrow> i64 \<Rightarrow> i64 \<Rightarrow> 'd CCrpcEpoch option" where
  "FetchCrosschain F sendRequest first lst minimum = getCrosschain F sendRequest first lst minimum"

subsection \<open>Mapping a main-chain time to a smart-chain block\<close>

definition smallerThanEEBT :: "(u64 \<Rightarrow> i64 option) \<Rightarrow> i64 \<Rightarrow> i64 \<Rightarrow> bool option" where
  "smallerThanEEBT bt eebt findidx = map_option (\<lambda>t. sint t < sint eebt) (bt findidx)"

function linear_back :: "(u64 \<Rightarrow> i64 option) \<Rightarrow> i64 \<Rightarrow> i64 \<Rightarrow> i64 option" where
  "linear_back bt eebt found =
     (if sint found > 1 then do {
        b \<leftarrow> smallerThanEEBT bt eebt found;
        if b then Some found else linear_back bt eebt (found - 1) }
      else Some found)"
  by pat_completeness auto
termination by (relation "measure (\<lambda>(bt, eebt, found). nat (sint found))") (auto simp: sint_dec)

function linear_up :: "(u64 \<Rightarrow> i64 option) \<Rightarrow> i64 \<Rightarrow> i64 \<Rightarrow> i64 \<Rightarrow> (i64 \<times> i64) option" where
  "linear_up bt eebt blockStart found = do {
     b \<leftarrow> smallerThanEEBT bt eebt found;
     if \<not> b then Some (found, 0)
     else if found = blockStart then Some (0, found)
     else linear_up bt eebt blockStart (found + 1) }"
  by pat_completeness auto
termination
proof (relation "measure (\<lambda>(bt, eebt, blockStart, found). unat (blockStart - found))")
  fix bt :: "u64 \<Rightarrow> i64 option" and eebt blockStart found :: i64
  assume "found \<noteq> blockStart"
  then show "((bt, eebt, blockStart, found + 1), bt, eebt, blockStart, found)
      \<in> measure (\<lambda>(bt, eebt, blockStart, found). unat (blockStart - found))"
    using unat_dec [of "blockStart - found"] by (simp add: diff_diff_eq [symmetric])
qed simp

definition blockAfterTime :: "(u64 \<Rightarrow> i64 option) \<Rightarrow> i64 \<Rightarrow> i64 \<Rightarrow> i64 \<Rightarrow> (i64 \<times> i64) option" where
  "blockAfterTime bt blockStart searchBack eebt = do {
     let n_entries = (if sint searchBack > sint blockStart then blockStart else searchBack);
     founde \<leftarrow> sort_Search (\<lambda>fromEnd. smallerThanEEBT bt eebt (blockStart - of_nat fromEnd)) 0 (nat (sint n_entries));
     let found = blockStart - of_nat founde;
     if of_nat founde = n_entries then Some (0, 0)
     else if found = 0 \<or> found = 1 then Some (0, 0)
     else do {
       found \<leftarrow> linear_back bt eebt found;
       if found = 1 then Some (0, 0)
       else linear_up bt eebt blockStart found } }"

declare linear_back.simps [simp del] linear_up.simps [simp del]
  await_height.simps [simp del]

subsection \<open>Crediting a transfer\<close>

definition parse_zeniq_amount :: "('c, 'b, 'd, 'v, 'r, 'm) ccrpc_ext_scheme \<Rightarrow> 'd \<Rightarrow> u256 option" where
  "parse_zeniq_amount F amount = FromDecimal F (Shift F amount 18)"

definition AccountCcrpc :: "('c, 'a) ext \<Rightarrow> ('c, 'b, 'd, 'v, 'r, 'm) ccrpc_ext_scheme \<Rightarrow> 'c \<Rightarrow>
    'd CCrpcTransferInfo \<Rightarrow> 'c option" where
  "AccountCcrpc E F c ti = do {
     amount \<leftarrow> parse_zeniq_amount F (ti_Amount ti);
     let receiverAcc = (case GetAccount E c (ti_Receiver ti) of None \<Rightarrow> ZeroAccountInfo E | Some acc \<Rightarrow> acc);
     let receiverAcc = UpdateBalance E receiverAcc (Balance E receiverAcc + amount);
     Some (SetAccount E c (ti_Receiver ti) receiverAcc) }"

subsection \<open>Processing a block\<close>

text \<open>
  The state the closure \<open>processOne\<close> works on: the context, the variable
  \<open>nextCcrpcSearchTo\<close>, and the amounts handed to \<open>ebp.AddCrosschain\<close> so far.
\<close>

type_synonym 'c ccrpc_state = "'c \<times> i64 \<times> u256 list"

text \<open>The search for the newest block that is in the store.\<close>

function back_start :: "(u64 \<Rightarrow> i64 option) \<Rightarrow> i64 \<Rightarrow> i64 \<Rightarrow> i64" where
  "back_start bt backTo backStart =
     (if sint backStart > sint backTo \<and> bt backStart = None then back_start bt backTo (backStart - 1) else backStart)"
  by pat_completeness auto
termination
proof (relation "measure (\<lambda>(bt, backTo, backStart). nat (sint backStart - sint backTo))")
  fix bt :: "u64 \<Rightarrow> i64 option" and backTo backStart :: i64
  assume "sint backTo < sint backStart \<and> bt backStart = None"
  moreover from this have "sint (backStart - 1) = sint backStart - 1"
    using sint_range [of backTo] sint_range [of backStart] by (simp add: sint_diff_no_wrap)
  ultimately show "((bt, backTo, backStart - 1), bt, backTo, backStart)
      \<in> measure (\<lambda>(bt, backTo, backStart). nat (sint backStart - sint backTo))" by simp
qed simp

text \<open>The search for the delay that would have been in time, for the message of the panic.\<close>

partial_function (option) catch_up :: "i64 \<Rightarrow> i64 \<Rightarrow> i64 \<Rightarrow> i64 option" where
  "catch_up smart currHeight nn_new =
     (if sint (smart + nn_new) < sint currHeight then catch_up smart currHeight (nn_new + 1200) else Some nn_new)"

text \<open>The loop over the transfers of an epoch that has just been mapped.\<close>

definition map_transfer :: "('c, 'b, 'd, 'v, 'r, 'm) ccrpc_ext_scheme \<Rightarrow> i64 \<Rightarrow> i64 \<Rightarrow>
    'd CCrpcTransferInfo list \<times> u256 list \<Rightarrow> 'd CCrpcTransferInfo \<Rightarrow> ('d CCrpcTransferInfo list \<times> u256 list) option" where
  "map_transfer F applicationHeight currHeight acc ti = do {
     r \<leftarrow> ZeniqPubkeyToReceiverAddress F (ti_SenderPubkey ti);
     let tis = fst acc @ [ti\<lparr>ti_ApplicationHeight := applicationHeight, ti_Receiver := r\<rparr>];
     if sint applicationHeight \<le> sint currHeight then do {
       amount \<leftarrow> parse_zeniq_amount F (ti_Amount ti);
       Some (tis, snd acc @ [amount]) }
     else Some (tis, snd acc) }"

text \<open>
  The mapping of an epoch to a block: \<open>Inl\<close> when the block is not there yet, so that the
  epoch is left for later.
\<close>

definition map_epoch :: "('c, 'b, 'd, 'v, 'r, 'm) ccrpc_ext_scheme \<Rightarrow> i64 \<Rightarrow> i64 \<Rightarrow> i64 \<Rightarrow> 'c ccrpc_state \<Rightarrow>
    'd CCrpcEpoch \<Rightarrow> ('d CCrpcEpoch + 'c ccrpc_state \<times> 'd CCrpcEpoch) option" where
  "map_epoch F searchTo nn currHeight s cce = (case s of (c, nextSearchTo, added) \<Rightarrow> do {
     let backTo = searchTo;
     let backStart = back_start (BlockTime F c) backTo (currHeight - 1);
     let searchBack = backStart - backTo;
     (h, above) \<leftarrow> blockAfterTime (BlockTime F c) backStart searchBack (ce_EpochEndBlockTime cce);
     let cce = cce\<lparr>ce_EEBTSmartHeight := h\<rparr>;
     if sint above > 0 then Some (Inl cce)
     else do {
       let nextSearchTo = (if sint h > sint nextSearchTo then h else nextSearchTo);
       (tis, added) \<leftarrow> foldM (map_transfer F (h + nn) currHeight) ([], added) (ce_TransferInfos cce);
       let cce = cce\<lparr>ce_TransferInfos := tis\<rparr>;
       if h = 0 \<and> sint searchBack > 0 then None
       else Some (Inr ((c, nextSearchTo, added), cce)) } })"

definition apply_epoch :: "('c, 'a) ext \<Rightarrow> ('c, 'b, 'd, 'v, 'r, 'm) ccrpc_ext_scheme \<Rightarrow> i64 \<Rightarrow> i64 \<Rightarrow> i64 \<Rightarrow>
    'c ccrpc_state \<Rightarrow> 'd CCrpcEpoch \<Rightarrow> ('c ccrpc_state \<times> 'd CCrpcEpoch \<times> i64) option" where
  "apply_epoch E F nn currHeight lastDoneMain s cce = (case s of (c, nextSearchTo, added) \<Rightarrow> do {
     missed \<leftarrow> (if sint (ce_LastHeight cce) > sint lastDoneMain
       then do { nn_new \<leftarrow> catch_up (ce_EEBTSmartHeight cce) currHeight nn; Some (sint nn_new > sint nn) }
       else Some False);
     if missed then None
     else if ce_EEBTSmartHeight cce + nn = currHeight then do {
       c \<leftarrow> foldM (AccountCcrpc E F) c (ce_TransferInfos cce);
       Some ((c, nextSearchTo, added), cce, ce_LastHeight cce) }
     else Some (s, cce, 0) })"

definition processOne :: "('c, 'a) ext \<Rightarrow> ('c, 'b, 'd, 'v, 'r, 'm) ccrpc_ext_scheme \<Rightarrow> ('b, 'd) CCrpcImp \<Rightarrow>
    i64 \<Rightarrow> i64 \<Rightarrow> i64 \<Rightarrow> ('c ccrpc_state, 'd) process" where
  "processOne E F cc currHeight currTime lastDoneMain s cce = do {
     (n, nn, minimum) \<leftarrow> getEpoch (cc_Epochs cc) (ce_FirstHeight cce);
     if sint currTime \<le> sint (ce_EpochEndBlockTime cce + 10) \<or> sint currHeight \<le> 1 then Some (s, cce, 0)
     else if ce_EEBTSmartHeight cce = 0 then do {
       r \<leftarrow> map_epoch F (cc_SearchTo cc) nn currHeight s cce;
       case r of Inl cce \<Rightarrow> Some (s, cce, 0)
       | Inr (s, cce) \<Rightarrow> apply_epoch E F nn currHeight lastDoneMain s cce }
     else apply_epoch E F nn currHeight lastDoneMain s cce }"

text \<open>
  The fetcher is started once; its first statements run before the block goes on. The result
  is \<open>doneApply\<close>, the new state of the handler, the context, and the amounts handed to
  \<open>ebp.AddCrosschain\<close>.
\<close>

definition ProcessCCRPC :: "('c, 'a) ext \<Rightarrow> ('c, 'b, 'd, 'v, 'r, 'm) ccrpc_ext_scheme \<Rightarrow> i64 iter \<Rightarrow>
    ('b, 'd) CCrpcImp \<Rightarrow> 'c \<Rightarrow> i64 \<Rightarrow> i64 \<Rightarrow> (bool \<times> ('b, 'd) CCrpcImp \<times> 'c \<times> u256 list) option" where
  "ProcessCCRPC E F it cc c currHeight currTime =
     (if sint (cc_SearchTo cc) > sint currHeight then Some (False, cc, c, [])
      else do {
        _ \<leftarrow> (if cc_running cc then Some 0 else fetcher_start F cc);
        lastDoneMain \<leftarrow> loadDoneMain E c;
        ((c, nextSearchTo, added), db, nextDoneMain) \<leftarrow>
          Serve F it (cc_fifo cc) lastDoneMain (processOne E F cc currHeight currTime lastDoneMain) (c, cc_SearchTo cc, []);
        let cc = cc\<lparr>cc_running := True, cc_SearchTo := nextSearchTo, cc_fifo := db\<rparr>;
        if sint nextDoneMain > sint lastDoneMain then Some (True, cc, saveDoneMain E c nextDoneMain, added)
        else Some (False, cc, c, added) })"

definition CrosschainInfo :: "('b, 'd, 'v, 'm) fifo_ext_scheme \<Rightarrow> ('b, 'd) CCrpcImp \<Rightarrow> i64 \<Rightarrow> i64 \<Rightarrow>
    'd CCrpcTransferInfo list option" where
  "CrosschainInfo F cc start stop = fifo_CrosschainInfo F (cc_fifo cc) start stop"

declare back_start.simps [simp del]

subsection \<open>The search for a block\<close>

text \<open>
  The reference: the first block of the window that is not before the time, where the block
  before it is in the window, too, and is not the genesis block.
\<close>

definition first_block_after :: "(nat \<Rightarrow> int) \<Rightarrow> nat \<Rightarrow> nat \<Rightarrow> int \<Rightarrow> i64 \<times> i64" where
  "first_block_after ts lo start eebt = (case find (\<lambda>h. eebt \<le> ts h) [lo..<Suc start] of
       None \<Rightarrow> (0, of_nat start)
     | Some h \<Rightarrow> if h = lo \<or> h = 2 then (0, 0) else (of_nat h, 0))"

lemma find_upt: "find P [i..<j] = Some h \<longleftrightarrow> i \<le> h \<and> h < j \<and> P h \<and> (\<forall>k. i \<le> k \<and> k < h \<longrightarrow> \<not> P k)"
proof -
  have "(\<exists>n < j - i. P (i + n) \<and> h = i + n \<and> (\<forall>m < n. \<not> P (i + m))) \<longleftrightarrow> i \<le> h \<and> h < j \<and> P h \<and> (\<forall>k. i \<le> k \<and> k < h \<longrightarrow> \<not> P k)"
    (is "?L \<longleftrightarrow> ?R")
  proof
    assume ?R
    then show ?L by (intro exI [of _ "h - i"]) auto
  next
    assume ?L
    then obtain n where n: "n < j - i" "P (i + n)" "h = i + n" "\<forall>m < n. \<not> P (i + m)" by blast
    have "\<not> P k" if "i \<le> k" "k < h" for k using n(4) [rule_format, of "k - i"] that n(3) by simp
    with n show ?R by auto
  qed
  then show ?thesis by (auto simp: find_Some_iff)
qed

lemma of_nat_diff_word: "k \<le> n \<Longrightarrow> (of_nat n :: i64) - of_nat k = of_nat (n - k)"
  by (simp add: of_nat_diff)

lemma of_nat_eq_small: "a < 2 ^ 63 \<Longrightarrow> b < 2 ^ 63 \<Longrightarrow> (of_nat a :: i64) = of_nat b \<longleftrightarrow> a = b"
  unfolding sint_eq_iff [symmetric] by (simp only: sint_of_nat_small of_nat_eq_iff)

text \<open>Where the linear searches go from a boundary \<open>g\<close> of the time stamps.\<close>

lemma linear_back_stays:
  "smallerThanEEBT bt eebt g = Some True \<Longrightarrow> linear_back bt eebt g = Some g"
  by (subst linear_back.simps) simp

lemma linear_up_tip:
  "smallerThanEEBT bt eebt g = Some True \<Longrightarrow> linear_up bt eebt g g = Some (0, g)"
  by (subst linear_up.simps) simp

lemma linear_up_next:
  assumes "smallerThanEEBT bt eebt g = Some True" and "smallerThanEEBT bt eebt (g + 1) = Some False" and "g \<noteq> start"
  shows "linear_up bt eebt start g = Some (g + 1, 0)"
proof -
  have "linear_up bt eebt start (g + 1) = Some (g + 1, 0)" using assms(2) by (subst linear_up.simps) simp
  with assms(1,3) show ?thesis by (subst linear_up.simps) simp
qed

definition boundary_result :: "nat \<Rightarrow> nat \<Rightarrow> nat \<Rightarrow> i64 \<times> i64" where
  "boundary_result start n r = (if r = n \<or> start - r = 1 then (0, 0)
     else if r = 0 then (0, of_nat start) else (of_nat (start - r + 1), 0))"

lemma blockAfterTime_found:
  assumes start: "1 < start" "start < 2 ^ 63" and n: "0 < n" "n \<le> start"
    and entries: "(if sint back > sint (of_nat start :: i64) then of_nat start else back) = (of_nat n :: i64)"
    and small: "\<And>h. 0 < h \<Longrightarrow> h \<le> start \<Longrightarrow> smallerThanEEBT bt eebt (of_nat h) = Some (P h)"
    and r: "sort_Search (\<lambda>k. smallerThanEEBT bt eebt (of_nat start - of_nat k)) 0 n = Some r" "r \<le> n"
      "r < n \<longrightarrow> P (start - r)" "0 < r \<longrightarrow> \<not> P (start - (r - 1))"
  shows "blockAfterTime bt (of_nat start) back eebt = Some (boundary_result start n r)"
proof -
  define g where "g = start - r"
  have n63: "n < 2 ^ 63" using n start by (meson le_less_trans)
  have nat_n: "nat (sint (of_nat n :: i64)) = n" using n63 by (simp only: sint_of_nat_small nat_int)
  have g: "of_nat start - of_nat r = (of_nat g :: i64)" using r(2) n unfolding g_def by (intro of_nat_diff_word) simp
  have rn: "(of_nat r :: i64) = of_nat n \<longleftrightarrow> r = n" using r(2) n63 by (intro of_nat_eq_small) (auto intro: le_less_trans)
  have g63: "g < 2 ^ 63" using start(2) unfolding g_def by (rule le_less_trans [rotated]) simp
  have g1: "(of_nat g :: i64) = 1 \<longleftrightarrow> g = 1" "(of_nat g :: i64) = 0 \<longleftrightarrow> g = 0"
    using of_nat_eq_small [OF g63, of 1] of_nat_eq_small [OF g63, of 0] by simp_all
  have B: "blockAfterTime bt (of_nat start) back eebt = (if r = n then Some (0, 0)
      else if g = 0 \<or> g = 1 then Some (0, 0)
      else do { found \<leftarrow> linear_back bt eebt (of_nat g);
        if found = 1 then Some (0, 0) else linear_up bt eebt (of_nat start) found })"
    unfolding blockAfterTime_def entries Let_def nat_n r(1) bind.bind_lunit g rn g1 ..
  show ?thesis
  proof (cases "r = n \<or> g = 1")
    case False
    then have lt: "r < n" "0 < g" "P g" using r n by (auto simp: g_def)
    then have down: "smallerThanEEBT bt eebt (of_nat g) = Some True" using small [of g] by (simp add: g_def)
    have "linear_up bt eebt (of_nat start) (of_nat g) = Some (if r = 0 then (0, of_nat start) else (of_nat (g + 1), 0))"
    proof (cases "r = 0")
      case True
      then show ?thesis using linear_up_tip [OF down] by (simp add: g_def)
    next
      case False
      then have "\<not> P (g + 1)" "g + 1 \<le> start" using r(4) n lt(1) by (auto simp: g_def Suc_diff_le)
      then have "smallerThanEEBT bt eebt (of_nat g + 1) = Some False" using small [of "g + 1"] by (simp add: add.commute)
      moreover have "(of_nat g :: i64) \<noteq> of_nat start"
        using of_nat_eq_small [OF g63 start(2)] \<open>g + 1 \<le> start\<close> by simp
      ultimately show ?thesis using linear_up_next [OF down] False by (simp add: add.commute)
    qed
    then show ?thesis
      using False lt by (simp add: B linear_back_stays [OF down] g1 boundary_result_def flip: g_def)
  qed (auto simp: B boundary_result_def g_def)
qed

lemma first_block_boundary:
  assumes n: "0 < n" "n \<le> start" and r: "r \<le> n" "r < n \<longrightarrow> ts (start - r) < e" "0 < r \<longrightarrow> \<not> ts (start - (r - 1)) < e"
    and mono: "\<And>h. 0 < h \<Longrightarrow> h < start \<Longrightarrow> ts h \<le> ts (Suc h)" and "1 < start"
  shows "first_block_after ts (start - n + 1) start e = boundary_result start n r"
proof -
  have le: "ts a \<le> ts b" if "0 < a" "a \<le> b" "b \<le> start" for a b
    using that(2,3,1) mono by (induction b rule: dec_induct) (auto intro: order.trans)
  consider "r = 0" | "r = n" "0 < r" | "0 < r" "r < n" using r(1) by linarith
  then show ?thesis
  proof cases
    case 1
    have "ts x < e" if "start - n + 1 \<le> x" "x \<le> start" for x using le [of x start] that r(2) 1 n by simp
    then have "find (\<lambda>h. e \<le> ts h) [start - n + 1..<Suc start] = None"
      by (fastforce simp: find_None_iff)
    then show ?thesis using 1 n assms(7) by (simp add: first_block_after_def boundary_result_def)
  next
    case 2
    then have "find (\<lambda>h. e \<le> ts h) [start - n + 1..<Suc start] = Some (start - n + 1)"
      using r(3) n by (subst find_upt) (auto simp: not_less Suc_diff_le)
    then show ?thesis using 2 by (simp add: first_block_after_def boundary_result_def)
  next
    case 3
    have "e \<le> ts (start - r + 1)" using 3 r(3) n by (simp add: not_less Suc_diff_le)
    moreover have "\<not> e \<le> ts k" if "start - n + 1 \<le> k" "k < start - r + 1" for k
      using le [of k "start - r"] that 3 r(2) by auto
    ultimately have "find (\<lambda>h. e \<le> ts h) [start - n + 1..<Suc start] = Some (start - r + 1)"
      using 3 n by (subst find_upt) auto
    then show ?thesis using 3 n by (auto simp: first_block_after_def boundary_result_def)
  qed
qed

lemma blockAfterTime_reference:
  assumes start: "1 < start" "start < 2 ^ 63" and window: "0 < w" "w < 2 ^ 63"
    and bt: "\<And>h. 0 < h \<Longrightarrow> h \<le> start \<Longrightarrow> \<exists>t. bt (of_nat h) = Some t \<and> sint t = ts h"
    and mono: "\<And>h. 0 < h \<Longrightarrow> h < start \<Longrightarrow> ts h \<le> ts (Suc h)"
  shows "blockAfterTime bt (of_nat start) (of_nat w) eebt
    = Some (first_block_after ts (start - min w start + 1) start (sint eebt))"
proof -
  define n where "n = min w start"
  let ?P = "\<lambda>h. ts h < sint eebt"
  have n: "0 < n" "n \<le> start" using start window by (auto simp: n_def)
  have small: "smallerThanEEBT bt eebt (of_nat h) = Some (?P h)" if "0 < h" "h \<le> start" for h
    using bt [OF that] by (auto simp: smallerThanEEBT_def)
  let ?f = "\<lambda>k. smallerThanEEBT bt eebt (of_nat start - of_nat k)"
  have f: "?f k = Some (?P (start - k))" if "k < n" for k
    using that n small [of "start - k"] by simp
  have "\<exists>r. sort_Search ?f 0 n = Some r \<and> 0 \<le> r \<and> r \<le> n \<and> (r < n \<longrightarrow> ?f r = Some True) \<and> (0 < r \<longrightarrow> ?f (r - 1) = Some False)"
    by (rule sort_Search_boundary) (simp_all add: f)
  then obtain r where r: "sort_Search ?f 0 n = Some r" "r \<le> n" "r < n \<longrightarrow> ?f r = Some True" "0 < r \<longrightarrow> ?f (r - 1) = Some False"
    by blast
  have r': "r < n \<longrightarrow> ?P (start - r)" "0 < r \<longrightarrow> \<not> ?P (start - (r - 1))"
    using r(2-4) f [of r] f [of "r - 1"] by fastforce+
  have "(if sint (of_nat w :: i64) > sint (of_nat start :: i64) then of_nat start else of_nat w) = (of_nat n :: i64)"
    unfolding n_def min_def using start(2) window(2) by (simp add: sint_of_nat_small not_le)
  from blockAfterTime_found [OF start n this small r(1,2) r'] first_block_boundary [OF n r(2) r' mono start(1)]
  show ?thesis by (simp add: n_def)
qed

subsection \<open>Properties\<close>

text \<open>
  C28: The search for the block of an epoch agrees with a linear search: where the block store
  has the blocks up to \<open>start\<close> with time stamps that do not decrease, \<open>blockAfterTime\<close>
  returns the first block of the window whose time is not before the given one, reports the
  tip of the chain when every block of the window is older, and reports nothing when the
  window begins too late.
\<close>

theorem blockAfterTime_first:
  assumes "1 < start" and "start < 2 ^ 63" and "0 < w" and "w < 2 ^ 63"
    and "\<And>h. 0 < h \<Longrightarrow> h \<le> start \<Longrightarrow> \<exists>t. bt (of_nat h) = Some t \<and> sint t = ts h"
    and "\<And>h. 0 < h \<Longrightarrow> h < start \<Longrightarrow> ts h \<le> ts (Suc h)"
  shows "blockAfterTime bt (of_nat start) (of_nat w) eebt
    = Some (first_block_after ts (start - min w start + 1) start (sint eebt))"
  using assms by (rule blockAfterTime_reference)

definition sample_times :: "u64 \<Rightarrow> i64 option" where
  "sample_times h = Some (3 * (h div 2))"

theorem blockAfterTime_first_witness:
  "blockAfterTime sample_times 10 6 10 = Some (8, 0) \<and> blockAfterTime sample_times 10 6 16 = Some (0, 10) \<and>
   blockAfterTime sample_times 10 6 5 = Some (0, 0)"
proof -
  have t: "\<exists>t. sample_times (of_nat h) = Some t \<and> sint t = 3 * int (h div 2)" if "0 < h" "h \<le> 10" for h
  proof -
    from that have "h = 1 \<or> h = 2 \<or> h = 3 \<or> h = 4 \<or> h = 5 \<or> h = 6 \<or> h = 7 \<or> h = 8 \<or> h = 9 \<or> h = 10" by presburger
    then show ?thesis by (auto simp: sample_times_def)
  qed
  have m: "3 * int (h div 2) \<le> 3 * int (Suc h div 2)" for h by (simp add: div_le_mono)
  note b = blockAfterTime_first [of 10 6 sample_times "\<lambda>h. 3 * int (h div 2)"]
  from b [of 10] b [of 16] b [of 5] t m show ?thesis
    by (simp add: first_block_after_def upt_rec_numeral)
qed

end
