(* ===== verification/CCRPC_Transfers.thy ===== *)
theory CCRPC_Transfers
  imports CCRPC
begin

text \<open>
  What processing the blocks does with the transfers of the main chain: every epoch is
  credited at most once, at the block its mapping determines, in the order of the epochs,
  and to the addresses of the keys that sent the coins. The locale \<open>ccrpc_env\<close> joins the
  contracts of the chain context and of the queue.
\<close>

locale ccrpc_env = chain_ctx E + ordered_db F
  for E :: "('c, 'a) ext" and F :: "('c, 'b, 'd, 'v, 'r, 'm) ccrpc_ext_scheme"

text \<open>What a list of epochs owes an address: the sum of the amounts its keys sent.\<close>

definition credit :: "('c, 'b, 'd, 'v, 'r, 'm) ccrpc_ext_scheme \<Rightarrow> address \<Rightarrow> 'd CCrpcTransferInfo \<Rightarrow> u256" where
  "credit F a ti = (if PubkeyToAddress F (ti_SenderPubkey ti) = Some a
     then case parse_zeniq_amount F (ti_Amount ti) of None \<Rightarrow> 0 | Some v \<Rightarrow> v else 0)"

definition credits :: "('c, 'b, 'd, 'v, 'r, 'm) ccrpc_ext_scheme \<Rightarrow> 'd CCrpcEpoch list \<Rightarrow> address \<Rightarrow> u256" where
  "credits F es a = (\<Sum>e\<leftarrow>es. \<Sum>ti\<leftarrow>ce_TransferInfos e. credit F a ti)"

text \<open>What of an epoch is never changed, and when the receivers of an epoch are filled in.\<close>

definition ti_core :: "'d CCrpcTransferInfo \<Rightarrow> i64 \<times> bytes32 \<times> 264 word \<times> 'd" where
  "ti_core ti = (ti_Height ti, ti_TxID ti, ti_SenderPubkey ti, ti_Amount ti)"

definition ce_core :: "'d CCrpcEpoch \<Rightarrow> i64 \<times> i64 \<times> i64 \<times> (i64 \<times> bytes32 \<times> 264 word \<times> 'd) list" where
  "ce_core e = (ce_FirstHeight e, ce_LastHeight e, ce_EpochEndBlockTime e, map ti_core (ce_TransferInfos e))"

definition receivers_set :: "('c, 'b, 'd, 'v, 'r, 'm) ccrpc_ext_scheme \<Rightarrow> 'd CCrpcEpoch \<Rightarrow> bool" where
  "receivers_set F e = list_all (\<lambda>ti. PubkeyToAddress F (ti_SenderPubkey ti) = Some (ti_Receiver ti)) (ce_TransferInfos e)"

definition receivers_ok :: "('c, 'b, 'd, 'v, 'r, 'm) ccrpc_ext_scheme \<Rightarrow> 'd CCrpcEpoch \<Rightarrow> bool" where
  "receivers_ok F e \<longleftrightarrow> ce_EEBTSmartHeight e \<noteq> 0 \<longrightarrow> receivers_set F e"

text \<open>An epoch is due in the block its mapping and the table of delays determine.\<close>

definition due :: "i64 list list \<Rightarrow> i64 \<Rightarrow> 'd CCrpcEpoch \<Rightarrow> bool" where
  "due epochs currHeight e = (case getEpoch epochs (ce_FirstHeight e) of
     None \<Rightarrow> False | Some (n, nn, minimum) \<Rightarrow> ce_EEBTSmartHeight e + nn = currHeight)"

text \<open>The epochs whose last heights lie above one height and up to another.\<close>

definition epochs_between :: "('b, 'd, 'v, 'm) fifo_ext_scheme \<Rightarrow> 'b \<Rightarrow> i64 \<Rightarrow> i64 \<Rightarrow> 'd CCrpcEpoch list" where
  "epochs_between F db lo hi = filter (\<lambda>e. sint lo < sint (ce_LastHeight e) \<and> sint (ce_LastHeight e) \<le> sint hi) (fifo_list F db)"

subsection \<open>One epoch\<close>

lemma credit_core: "ti_core ti = ti_core ti' \<Longrightarrow> credit F a ti = credit F a ti'"
  by (simp add: ti_core_def credit_def)

lemma map_factor:
  assumes "\<And>x y. p x = p y \<Longrightarrow> q x = q y" and "map p xs = map p ys"
  shows "map q xs = map q ys"
  using assms(2) map_eq_imp_length_eq [OF assms(2)]
  by (induction xs ys rule: list_induct2') (auto intro: assms(1))

lemma credits_core:
  assumes "map ce_core es = map ce_core es'"
  shows "credits F es a = credits F es' a"
proof -
  have ti: "map (credit F a) tis = map (credit F a) tis'" if "map ti_core tis = map ti_core tis'" for tis tis'
    using credit_core that by (rule map_factor)
  have e: "(\<Sum>ti\<leftarrow>ce_TransferInfos e. credit F a ti) = (\<Sum>ti\<leftarrow>ce_TransferInfos e'. credit F a ti)" if "ce_core e = ce_core e'" for e e'
    using ti [of "ce_TransferInfos e" "ce_TransferInfos e'"] that by (simp add: ce_core_def)
  have "map (\<lambda>e. \<Sum>ti\<leftarrow>ce_TransferInfos e. credit F a ti) es = map (\<lambda>e. \<Sum>ti\<leftarrow>ce_TransferInfos e. credit F a ti) es'"
    using e assms by (rule map_factor)
  then show ?thesis by (simp only: credits_def)
qed

lemma credits_append: "credits F (es @ es') a = credits F es a + credits F es' a"
  by (simp add: credits_def)

lemma credits_Nil [simp]: "credits F [] a = 0"
  by (simp add: credits_def)

lemma map_transfer_Some:
  assumes "map_transfer F ah h acc x = Some acc'"
  shows "\<exists>r. PubkeyToAddress F (ti_SenderPubkey x) = Some r \<and> fst acc' = fst acc @ [x\<lparr>ti_ApplicationHeight := ah, ti_Receiver := r\<rparr>]"
  using assms by (auto simp: map_transfer_def ZeniqPubkeyToReceiverAddress_def Let_def split: bind_splits if_splits)

lemma map_transfers:
  assumes "foldM (map_transfer F ah h) acc xs = Some acc'"
  shows "\<exists>ys. fst acc' = fst acc @ ys \<and> map ti_core ys = map ti_core xs \<and>
    list_all (\<lambda>ti. PubkeyToAddress F (ti_SenderPubkey ti) = Some (ti_Receiver ti)) ys"
  using assms
proof (induction xs arbitrary: acc)
  case (Cons x xs)
  from Cons.prems obtain acc1 where step: "map_transfer F ah h acc x = Some acc1" "foldM (map_transfer F ah h) acc1 xs = Some acc'"
    by (auto split: bind_splits)
  from Cons.IH [OF step(2)] map_transfer_Some [OF step(1)] show ?case by (auto simp: ti_core_def)
qed simp

lemma linear_up_above: "linear_up bt eebt st g = Some (h, ab) \<Longrightarrow> h = 0 \<or> ab = 0"
proof (induction bt eebt st g rule: linear_up.induct)
  case (1 bt eebt st g)
  show ?case using "1.prems" "1.IH" by (subst (asm) linear_up.simps) (auto split: bind_splits if_splits)
qed

lemma blockAfterTime_above: "blockAfterTime bt st b eebt = Some (h, ab) \<Longrightarrow> h = 0 \<or> ab = 0"
  by (auto simp: blockAfterTime_def Let_def split: bind_splits if_splits dest: linear_up_above)

lemma map_epoch_Inl: "map_epoch F st nn h s e = Some (Inl e') \<Longrightarrow> e' = e\<lparr>ce_EEBTSmartHeight := 0\<rparr>"
  by (auto simp: map_epoch_def Let_def split: bind_splits if_splits prod.splits dest!: blockAfterTime_above)

lemma map_epoch_Inr:
  assumes "map_epoch F st nn h (c, ns, ad) e = Some (Inr (s', e'))"
  shows "fst s' = c \<and> ce_core e' = ce_core e \<and> receivers_set F e'"
proof -
  from assms obtain k tis ad' where k: "foldM (map_transfer F (k + nn) h) ([], ad) (ce_TransferInfos e) = Some (tis, ad')"
      "e' = e\<lparr>ce_EEBTSmartHeight := k, ce_TransferInfos := tis\<rparr>" "fst s' = c"
    by (auto simp: map_epoch_def Let_def split: bind_splits if_splits prod.splits)
  from map_transfers [OF k(1)] k(2,3) show ?thesis
    by (auto simp: ce_core_def receivers_set_def)
qed

text \<open>Processing an epoch either leaves the accounts alone or credits the whole epoch, when it is due.\<close>

context chain_ctx
begin

lemma AccountCcrpc_effect:
  assumes "AccountCcrpc E F c ti = Some c'" and "PubkeyToAddress F (ti_SenderPubkey ti) = Some (ti_Receiver ti)"
  shows "bal E c' a = bal E c a + credit F a ti" "same_storage E c' c"
  using assms by (auto simp: AccountCcrpc_def Let_def credit_def bal_def ctx_laws same_storage_def fun_eq_iff
      split: bind_splits option.splits)

lemma account_transfers:
  assumes "foldM (AccountCcrpc E F) c tis = Some c'"
    and "list_all (\<lambda>ti. PubkeyToAddress F (ti_SenderPubkey ti) = Some (ti_Receiver ti)) tis"
  shows "bal E c' a = bal E c a + (\<Sum>ti\<leftarrow>tis. credit F a ti) \<and> same_storage E c' c"
  using assms
proof (induction tis arbitrary: c)
  case (Cons ti tis)
  then obtain c1 where c1: "AccountCcrpc E F c ti = Some c1" "foldM (AccountCcrpc E F) c1 tis = Some c'"
    by (auto split: bind_splits)
  from Cons.IH [OF c1(2)] AccountCcrpc_effect [OF c1(1)] Cons.prems(2) show ?case
    by (simp add: same_storage_def add.assoc)
qed (simp add: same_storage_def)

lemma apply_epoch_effect:
  assumes "apply_epoch E F nn h ld (c, ns, ad) e = Some ((c', ns', ad'), e', n)" and "receivers_set F e" and "ce_LastHeight e \<noteq> 0"
  shows "e' = e \<and> (if n = 0 then c' = c
    else n = ce_LastHeight e \<and> ce_EEBTSmartHeight e + nn = h \<and> bal E c' a = bal E c a + credits F [e] a \<and> same_storage E c' c)"
  using assms account_transfers [of F c "ce_TransferInfos e" c' a]
  by (auto simp: apply_epoch_def receivers_set_def credits_def split: bind_splits if_splits)

lemma processOne_effect:
  assumes "processOne E F cc h t ld (c, ns, ad) e = Some ((c', ns', ad'), e', n)" and "receivers_ok F e" and "ce_LastHeight e \<noteq> 0"
  shows "ce_core e' = ce_core e \<and> (ce_EEBTSmartHeight e' \<noteq> ce_EEBTSmartHeight e \<longrightarrow> receivers_ok F e') \<and>
    (if n = 0 then c' = c
     else n = ce_LastHeight e \<and> due (cc_Epochs cc) h e' \<and> bal E c' a = bal E c a + credits F [e] a \<and> same_storage E c' c)"
proof -
  from assms(1) obtain m nn mi where g: "getEpoch (cc_Epochs cc) (ce_FirstHeight e) = Some (m, nn, mi)"
    by (auto simp: processOne_def split: bind_splits)
  note P = assms(1) [unfolded processOne_def g bind.bind_lunit prod.case]
  have mapped: ?thesis if "apply_epoch E F nn h ld (c, ns1, ad1) e1 = Some ((c', ns', ad'), e', n)"
      "receivers_set F e1" "ce_core e1 = ce_core e" for ns1 ad1 e1
    using apply_epoch_effect [OF that(1,2), of a] that(2,3) assms(3) g credits_core [of "[e1]" "[e]" F a]
    by (auto simp: ce_core_def due_def receivers_ok_def split: if_splits)
  consider "c' = c" "e' = e" "n = 0" | "ce_EEBTSmartHeight e = 0" "\<exists>r. map_epoch F (cc_SearchTo cc) nn h (c, ns, ad) e = Some r"
    | "ce_EEBTSmartHeight e \<noteq> 0" "apply_epoch E F nn h ld (c, ns, ad) e = Some ((c', ns', ad'), e', n)"
    using P by (auto split: if_splits bind_splits)
  then show ?thesis
  proof cases
    case 2
    then obtain r where r: "map_epoch F (cc_SearchTo cc) nn h (c, ns, ad) e = Some r" by blast
    show ?thesis
    proof (cases r)
      case (Inl e1)
      then have "e1 = e" using map_epoch_Inl [of F "cc_SearchTo cc" nn h _ e e1] r 2(1) by (cases e) auto
      then show ?thesis using P r Inl 2(1) by (auto split: if_splits)
    next
      case (Inr p)
      obtain c1 ns1 ad1 e1 where p: "p = ((c1, ns1, ad1), e1)" by (cases p) auto
      from map_epoch_Inr [of F _ nn h c ns ad e] r Inr p have m: "c1 = c" "ce_core e1 = ce_core e" "receivers_set F e1" by auto
      show ?thesis
      proof (cases "c' = c \<and> e' = e \<and> n = 0")
        case False
        then show ?thesis using P r Inr p m 2(1) mapped [of ns1 ad1 e1] by (auto split: if_splits)
      qed simp
    qed
  next
    case 3
    then show ?thesis using mapped [of ns ad e] assms(2) by (simp add: receivers_ok_def)
  qed simp
qed

text \<open>
  The epochs served in one block: a prefix of the pending ones is credited, each when it is
  due, and the rest of the accounts and of the storage stays as it is.
\<close>

lemma serve_credits:
  assumes "serve_epochs (processOne E F cc h t ld) es d (c, ns, ad) = Some ((c', ns', ad'), d', es')"
    and "\<And>e. e \<in> set es \<Longrightarrow> receivers_ok F e \<and> 0 < sint (ce_LastHeight e) \<and> sint d < sint (ce_LastHeight e)"
    and "sorted_wrt (\<lambda>e e'. sint (ce_LastHeight e) < sint (ce_LastHeight e')) es" and "0 \<le> sint d"
  shows "map ce_core es' = map ce_core (take (length es') es) \<and>
    (\<forall>(e, e') \<in> set (zip es es'). ce_EEBTSmartHeight e' \<noteq> ce_EEBTSmartHeight e \<longrightarrow> receivers_ok F e') \<and>
    same_storage E c' c \<and>
    (\<exists>k \<le> length es'. (\<forall>e \<in> set (take k es'). due (cc_Epochs cc) h e) \<and>
      d' = (if k = 0 then d else ce_LastHeight (es ! (k - 1))) \<and>
      (\<forall>a. bal E c' a = bal E c a + credits F (take k es) a))"
  using assms
proof (induction es arbitrary: d c ns ad es')
  case Nil
  then show ?case by (auto simp: same_storage_def)
next
  case (Cons e es)
  let ?p = "processOne E F cc h t ld"
  from Cons.prems(2) [of e] have e: "receivers_ok F e" "ce_LastHeight e \<noteq> 0" "0 < sint (ce_LastHeight e)" "sint d < sint (ce_LastHeight e)" by auto
  from Cons.prems(1) obtain c1 ns1 ad1 e1 n where p: "?p (c, ns, ad) e = Some ((c1, ns1, ad1), e1, n)"
    by (auto split: bind_splits)
  note eff = processOne_effect [OF p e(1,2)]
  show ?case
  proof (cases "n = 0")
    case True
    then have "c' = c" "d' = d" "es' = [e1]" using Cons.prems(1,4) p eff e by (auto simp: Let_def split: if_splits)
    then show ?thesis using eff True by (auto simp: same_storage_def intro!: exI [of _ 0])
  next
    case False
    then have n: "n = ce_LastHeight e" "due (cc_Epochs cc) h e1" using eff by auto
    from Cons.prems(1) p False e n obtain es1 where rest: "serve_epochs ?p es (ce_LastHeight e) (c1, ns1, ad1) = Some ((c', ns', ad'), d', es1)"
        "es' = e1 # es1" by (auto simp: Let_def split: bind_splits)
    have pre: "x \<in> set es \<Longrightarrow> receivers_ok F x \<and> 0 < sint (ce_LastHeight x) \<and> sint (ce_LastHeight e) < sint (ce_LastHeight x)" for x
      using Cons.prems(2) [of x] Cons.prems(3) by auto
    have "sorted_wrt (\<lambda>e e'. sint (ce_LastHeight e) < sint (ce_LastHeight e')) es" using Cons.prems(3) by simp
    from Cons.IH [OF rest(1) pre this less_imp_le [OF e(3)]] obtain k where k: "map ce_core es1 = map ce_core (take (length es1) es)"
        "\<forall>(e, e') \<in> set (zip es es1). ce_EEBTSmartHeight e' \<noteq> ce_EEBTSmartHeight e \<longrightarrow> receivers_ok F e'"
        "same_storage E c' c1" "k \<le> length es1" "\<forall>e \<in> set (take k es1). due (cc_Epochs cc) h e"
        "d' = (if k = 0 then ce_LastHeight e else ce_LastHeight (es ! (k - 1)))"
        "\<forall>a. bal E c' a = bal E c1 a + credits F (take k es) a" by blast
    have "\<forall>a. bal E c' a = bal E c a + credits F (take (Suc k) (e # es)) a"
      using k(7) eff False credits_append [of F "[e]" "take k es"] by (simp add: add.assoc)
    moreover have "d' = (if Suc k = 0 then d else ce_LastHeight ((e # es) ! (Suc k - 1)))"
      using k(6) by (cases k) simp_all
    moreover have "\<forall>e \<in> set (take (Suc k) es'). due (cc_Epochs cc) h e" "Suc k \<le> length es'"
      using k(4,5) n(2) rest(2) by simp_all
    moreover have "same_storage E c' c" using k(3) eff False by (simp add: same_storage_def)
    moreover have "map ce_core es' = map ce_core (take (length es') (e # es))"
        "\<forall>(e, e') \<in> set (zip (e # es) es'). ce_EEBTSmartHeight e' \<noteq> ce_EEBTSmartHeight e \<longrightarrow> receivers_ok F e'"
      using k(1,2) eff rest(2) by simp_all
    ultimately show ?thesis by blast
  qed
qed

end

subsection \<open>The queue after a block\<close>

lemma record_changes_Cons:
  "record_changes (e # es) (e' # es') m =
   record_changes es es' (if ce_EEBTSmartHeight e \<noteq> ce_EEBTSmartHeight e' then m(ce_LastHeight e' \<mapsto> e') else m)"
  by (simp add: record_changes_def)

lemma record_changes_other: "k \<notin> ce_LastHeight ` set es' \<Longrightarrow> record_changes es es' m k = m k"
proof (induction es es' arbitrary: m rule: list_induct2')
  case (4 e es e' es')
  then show ?case by (auto simp: record_changes_Cons)
qed (auto simp: record_changes_def)

lemma record_changes_nth:
  assumes "distinct (map ce_LastHeight es)" and "map ce_LastHeight es' = map ce_LastHeight (take (length es') es)" and "i < length es'"
  shows "record_changes es es' m (ce_LastHeight (es ! i))
    = (if ce_EEBTSmartHeight (es ! i) \<noteq> ce_EEBTSmartHeight (es' ! i) then Some (es' ! i) else m (ce_LastHeight (es ! i)))"
  using assms
proof (induction es es' arbitrary: m i rule: list_induct2')
  case (4 e es e' es')
  show ?case
  proof (cases i)
    case 0
    have "ce_LastHeight ` set es' = ce_LastHeight ` set (take (length es') es)"
      using arg_cong [OF "4.prems"(2), of "\<lambda>xs. set (tl xs)"] by simp
    also have "\<dots> \<subseteq> ce_LastHeight ` set es" by (intro image_mono set_take_subset)
    finally have "ce_LastHeight e \<notin> ce_LastHeight ` set es'" using "4.prems"(1) by auto
    then show ?thesis using 0 "4.prems"(2) by (auto simp: record_changes_Cons record_changes_other)
  next
    case (Suc j)
    then have j: "j < length es'" "es ! j \<in> set es" using "4.prems" by (auto dest: map_eq_imp_length_eq)
    then have "ce_LastHeight (es ! j) \<noteq> ce_LastHeight e'" using "4.prems"(1,2) by (auto simp: image_iff)
    then show ?thesis using 4 j Suc by (auto simp: record_changes_Cons)
  qed
qed (auto simp: record_changes_def)

lemma filter_take_sorted:
  fixes f :: "'x \<Rightarrow> int"
  assumes "sorted_wrt (\<lambda>x y. f x < f y) xs" and "0 < k" and "k \<le> length xs"
  shows "filter (\<lambda>x. f x \<le> f (xs ! (k - 1))) xs = take k xs"
proof -
  have "f x \<le> f (xs ! (k - 1))" if "x \<in> set (take k xs)" for x
  proof -
    from that obtain i where "i < k" "x = xs ! i" using assms(3) by (auto simp: in_set_conv_nth)
    moreover have "i < k - 1" if "i \<noteq> k - 1" using that \<open>i < k\<close> by linarith
    ultimately show ?thesis using sorted_wrt_nth_less [OF assms(1), of i "k - 1"] assms(2,3)
      by (cases "i = k - 1") (simp_all add: less_imp_le)
  qed
  moreover have "\<not> f x \<le> f (xs ! (k - 1))" if "x \<in> set (drop k xs)" for x
  proof -
    from that obtain i where "i < length xs - k" "x = xs ! (k + i)" by (auto simp: in_set_conv_nth)
    moreover from this have "k - 1 < k + i" "k + i < length xs" using assms(2,3) by linarith+
    ultimately show ?thesis using sorted_wrt_nth_less [OF assms(1), of "k - 1" "k + i"] by simp
  qed
  ultimately have "filter (\<lambda>x. f x \<le> f (xs ! (k - 1))) (take k xs @ drop k xs) = take k xs"
    unfolding filter_append by (simp add: filter_id_conv filter_False)
  then show ?thesis by simp
qed

context ordered_db
begin

lemma fifo_list_eq:
  assumes "fifo_ok F db"
  shows "fifo_list F db = map (\<lambda>k. the (fifo_map F db k)) (sorted_list_of_set (dom (fifo_map F db)))"
proof -
  let ?ks = "map ce_LastHeight (fifo_list F db)"
  have "dom (fifo_map F db) = set ?ks" using fifo_map_Some [OF assms] by (auto simp: dom_def)
  then have "sorted_list_of_set (dom (fifo_map F db)) = ?ks"
    using fifo_list_sorted [OF assms] by (simp only: sorted_list_of_set.idem_if_sorted_distinct)
  moreover have "the (fifo_map F db (ce_LastHeight e)) = e" if "e \<in> set (fifo_list F db)" for e
    using fifo_map_Some [OF assms, of "ce_LastHeight e" e] that by simp
  ultimately show ?thesis by (simp add: map_idI)
qed

lemma fifo_list_core:
  assumes "fifo_ok F db" and "fifo_ok F db'"
    and "\<And>k. map_option ce_core (fifo_map F db k) = map_option ce_core (fifo_map F db' k)"
  shows "map ce_core (fifo_list F db) = map ce_core (fifo_list F db')"
proof -
  have "k \<in> dom (fifo_map F db) \<longleftrightarrow> k \<in> dom (fifo_map F db')" for k
    using assms(3) [of k] by (cases "fifo_map F db k"; cases "fifo_map F db' k") auto
  then have dom: "dom (fifo_map F db) = dom (fifo_map F db')" by blast
  have fin: "finite (dom (fifo_map F db'))" by simp
  have "ce_core (the (fifo_map F db k)) = ce_core (the (fifo_map F db' k))" if "k \<in> dom (fifo_map F db')" for k
    using assms(3) [of k] that dom by (auto simp: dom_def)
  then show ?thesis
    unfolding fifo_list_eq [OF assms(1)] fifo_list_eq [OF assms(2)] dom using fin by simp
qed

lemma pending_signed:
  assumes "fifo_ok F db" and "\<And>e. e \<in> set (fifo_list F db) \<Longrightarrow> 0 < sint (ce_LastHeight e)"
    and "0 \<le> sint d" and "sint d < 2 ^ 63 - 1"
  shows "pending F db d = filter (\<lambda>e. sint d < sint (ce_LastHeight e)) (fifo_list F db)"
    and "sorted_wrt (\<lambda>e e'. sint (ce_LastHeight e) < sint (ce_LastHeight e')) (fifo_list F db)"
proof -
  have "d + 1 \<le> ce_LastHeight e \<longleftrightarrow> sint d < sint (ce_LastHeight e)" if "e \<in> set (fifo_list F db)" for e
    using assms(2) [OF that] assms(3,4) le_iff_sint [of "d + 1" "ce_LastHeight e"] by (auto simp: sint_inc)
  then show "pending F db d = filter (\<lambda>e. sint d < sint (ce_LastHeight e)) (fifo_list F db)"
    unfolding pending_def by (intro filter_cong) auto
  have "sorted_wrt (<) (map ce_LastHeight (fifo_list F db))"
    using fifo_list_sorted [OF assms(1)] by (simp add: strict_sorted_iff)
  then have "sorted_wrt (\<lambda>e e'. ce_LastHeight e < ce_LastHeight e') (fifo_list F db)" by (simp add: sorted_wrt_map)
  then show "sorted_wrt (\<lambda>e e'. sint (ce_LastHeight e) < sint (ce_LastHeight e')) (fifo_list F db)"
  proof (rule sorted_wrt_mono_rel [rotated])
    fix e e'
    assume "e \<in> set (fifo_list F db)" "e' \<in> set (fifo_list F db)" "ce_LastHeight e < ce_LastHeight e'"
    then show "sint (ce_LastHeight e) < sint (ce_LastHeight e')"
      using assms(2) [of e] assms(2) [of e'] le_iff_sint [of "ce_LastHeight e'" "ce_LastHeight e"] by auto
  qed
qed

end

subsection \<open>The invariant\<close>

text \<open>
  \<open>d\<close> is the stored height of the last epoch done. The queue holds epochs under their own
  positive heights, and an epoch that is mapped to a block has its receivers filled in.
\<close>

definition ccrpc_inv :: "('c, 'a) ext \<Rightarrow> ('c, 'b, 'd, 'v, 'r, 'm) ccrpc_ext_scheme \<Rightarrow> ('b, 'd) CCrpcImp \<Rightarrow> 'c \<Rightarrow> i64 \<Rightarrow> bool" where
  "ccrpc_inv E F cc c d \<longleftrightarrow> fifo_ok F (cc_fifo cc) \<and>
     list_all (\<lambda>e. receivers_ok F e \<and> 0 < sint (ce_LastHeight e) \<and> sint (ce_LastHeight e) < 2 ^ 63 - 1) (fifo_list F (cc_fifo cc)) \<and>
     loadDoneMain E c = Some d \<and> 0 \<le> sint d \<and> sint d < 2 ^ 63 - 1"

context ccrpc_env
begin

lemma loadDoneMain_save: "loadDoneMain E (saveDoneMain E c d) = Some d"
  by (simp add: loadDoneMain_def saveDoneMain_def get_set_storage)

lemma loadDoneMain_same: "same_storage E c' c \<Longrightarrow> loadDoneMain E c' = loadDoneMain E c"
  by (simp add: loadDoneMain_def same_storage_def)

lemma processOne_LastHeight:
  assumes "processOne E F cc h t ld s e = Some (s', e', n)"
  shows "ce_LastHeight e' = ce_LastHeight e"
  using assms
  by (auto simp: processOne_def apply_epoch_def map_epoch_def Let_def split: bind_splits if_splits prod.splits)

text \<open>The epochs of the queue after the changes of a block are recorded.\<close>

lemma recorded_queue:
  assumes ok: "fifo_ok F db" "fifo_ok F db'"
    and map: "fifo_map F db' = record_changes (pending F db d) es' (fifo_map F db)"
    and core: "map ce_core es' = map ce_core (take (length es') (pending F db d))"
  shows "map ce_core (fifo_list F db') = map ce_core (fifo_list F db)"
    and "e \<in> set (fifo_list F db') \<Longrightarrow> e \<in> set (fifo_list F db) \<or>
      (\<exists>i < length es'. e = es' ! i \<and> ce_EEBTSmartHeight (es' ! i) \<noteq> ce_EEBTSmartHeight (pending F db d ! i))"
    and "i < length es' \<Longrightarrow> \<exists>e. fifo_map F db' (ce_LastHeight (pending F db d ! i)) = Some e \<and>
      ce_EEBTSmartHeight e = ce_EEBTSmartHeight (es' ! i) \<and> ce_FirstHeight e = ce_FirstHeight (es' ! i)"
proof -
  let ?es = "pending F db d"
  have len: "length es' \<le> length ?es" using map_eq_imp_length_eq [OF core] by simp
  have heights: "map ce_LastHeight es' = map ce_LastHeight (take (length es') ?es)"
    by (rule map_factor [OF _ core]) (simp add: ce_core_def)
  have dist: "distinct (map ce_LastHeight ?es)"
    unfolding pending_def using fifo_list_sorted(2) [OF ok(1)] by (rule distinct_map_filter)
  have here: "fifo_map F db (ce_LastHeight (?es ! i)) = Some (?es ! i)" if "i < length ?es" for i
    using that nth_mem [OF that] fifo_map_Some [OF ok(1)] by (simp add: pending_def)
  have nth_core: "ce_core (es' ! i) = ce_core (?es ! i)" if "i < length es'" for i
    using arg_cong [OF core, of "\<lambda>xs. xs ! i"] that len by simp
  have val: "fifo_map F db' (ce_LastHeight (?es ! i))
      = Some (if ce_EEBTSmartHeight (?es ! i) \<noteq> ce_EEBTSmartHeight (es' ! i) then es' ! i else ?es ! i)" if "i < length es'" for i
    unfolding map using record_changes_nth [OF dist heights that] here [of i] that len by simp
  have other: "fifo_map F db' k = fifo_map F db k" if "\<forall>i < length es'. k \<noteq> ce_LastHeight (?es ! i)" for k
  proof -
    have "ce_LastHeight (es' ! i) = ce_LastHeight (?es ! i)" if "i < length es'" for i
      using nth_core [OF that] by (simp add: ce_core_def)
    then have "k \<notin> ce_LastHeight ` set es'" using that by (force simp: in_set_conv_nth)
    then show ?thesis unfolding map by (rule record_changes_other)
  qed
  show "i < length es' \<Longrightarrow> \<exists>e. fifo_map F db' (ce_LastHeight (?es ! i)) = Some e \<and>
      ce_EEBTSmartHeight e = ce_EEBTSmartHeight (es' ! i) \<and> ce_FirstHeight e = ce_FirstHeight (es' ! i)"
    using val [of i] nth_core [of i] by (auto simp: ce_core_def)
  have "map_option ce_core (fifo_map F db' k) = map_option ce_core (fifo_map F db k)" for k
    using val nth_core here other [of k] len by (cases "\<forall>i < length es'. k \<noteq> ce_LastHeight (?es ! i)") auto
  then show "map ce_core (fifo_list F db') = map ce_core (fifo_list F db)"
    by (intro fifo_list_core ok)
  show "e \<in> set (fifo_list F db) \<or> (\<exists>i < length es'. e = es' ! i \<and> ce_EEBTSmartHeight (es' ! i) \<noteq> ce_EEBTSmartHeight (?es ! i))"
    if "e \<in> set (fifo_list F db')"
  proof -
    from that have e: "fifo_map F db' (ce_LastHeight e) = Some e" using fifo_map_Some [OF ok(2)] by simp
    show ?thesis
    proof (cases "\<forall>i < length es'. ce_LastHeight e \<noteq> ce_LastHeight (?es ! i)")
      case True
      then show ?thesis using other e fifo_map_Some [OF ok(1)] by auto
    next
      case False
      then obtain i where "i < length es'" "ce_LastHeight e = ce_LastHeight (?es ! i)" by blast
      then show ?thesis using val [of i] e here [of i] len fifo_map_Some [OF ok(1)] by (auto split: if_splits)
    qed
  qed
qed

text \<open>The prefix of the pending epochs that was credited is what lies between the two heights.\<close>

lemma credited_prefix:
  fixes L :: "'x \<Rightarrow> int"
  assumes "sorted_wrt (\<lambda>e e'. L e < L e') xs" and "\<And>e. e \<in> set xs \<Longrightarrow> d < L e"
    and "k \<le> length xs" and "d1 = (if k = 0 then d else L (xs ! (k - 1)))"
  shows "filter (\<lambda>e. L e \<le> d1) xs = take k xs"
proof (cases "k = 0")
  case True
  then have "\<forall>e \<in> set xs. \<not> L e \<le> d1" using assms(2,4) by fastforce
  then show ?thesis using True by (simp add: filter_empty_conv)
next
  case False
  then show ?thesis using filter_take_sorted [OF assms(1) _ assms(3)] assms(4) by simp
qed

text \<open>An epoch stored after the block is due when its processed version is.\<close>

lemma recorded_due:
  assumes ok: "fifo_ok F db" "fifo_ok F db'"
    and map: "fifo_map F db' = record_changes (pending F db d) es' (fifo_map F db)"
    and core: "map ce_core es' = map ce_core (take (length es') (pending F db d))"
    and k: "k \<le> length es'" "\<forall>e \<in> set (take k es'). due epochs h e"
    and between: "epochs_between F db d d1 = take k (pending F db d)"
    and e: "e \<in> set (epochs_between F db' d d1)"
  shows "due epochs h e"
proof -
  let ?es = "pending F db d"
  note rq = recorded_queue [OF ok map core]
  have e': "e \<in> set (fifo_list F db')" using e by (simp add: epochs_between_def)
  then have "ce_core e \<in> set (map ce_core (fifo_list F db))" unfolding rq(1) [symmetric] by simp
  then obtain e0 where "e0 \<in> set (fifo_list F db)" "ce_core e0 = ce_core e" by auto
  then have "e0 \<in> set (take k ?es)" "ce_LastHeight e0 = ce_LastHeight e"
    unfolding between [symmetric] using e by (auto simp: epochs_between_def ce_core_def)
  then obtain i where i: "i < k" "ce_LastHeight e = ce_LastHeight (?es ! i)"
    using k(1) map_eq_imp_length_eq [OF core] by (auto simp: in_set_conv_nth)
  have "fifo_map F db' (ce_LastHeight (?es ! i)) = Some e"
    using fifo_map_Some [OF ok(2)] e' i(2) by simp
  with rq(3) [of i] i(1) k(1) have
    "ce_EEBTSmartHeight e = ce_EEBTSmartHeight (es' ! i)" "ce_FirstHeight e = ce_FirstHeight (es' ! i)" by auto
  moreover have "due epochs h (es' ! i)" using k i(1) by (force simp: in_set_conv_nth)
  ultimately show ?thesis by (auto simp: due_def split: option.splits)
qed

lemma served_queue:
  assumes ok: "fifo_ok F db"
    and es: "\<And>e. e \<in> set (fifo_list F db) \<Longrightarrow> receivers_ok F e \<and> 0 < sint (ce_LastHeight e) \<and> sint (ce_LastHeight e) < 2 ^ 63 - 1"
    and d: "0 \<le> sint d" "sint d < 2 ^ 63 - 1"
    and served: "serve_epochs (processOne E F cc h t d) (pending F db d) d (c, st, []) = Some ((c1, ns, ad), d1, es')"
    and ok': "fifo_ok F db1" and map: "fifo_map F db1 = record_changes (pending F db d) es' (fifo_map F db)"
  shows "sint d \<le> sint d1 \<and> sint d1 < 2 ^ 63 - 1 \<and> d1 \<in> insert d (ce_LastHeight ` set (fifo_list F db)) \<and> same_storage E c1 c \<and>
    map ce_core (fifo_list F db1) = map ce_core (fifo_list F db) \<and>
    list_all (\<lambda>e. receivers_ok F e \<and> 0 < sint (ce_LastHeight e) \<and> sint (ce_LastHeight e) < 2 ^ 63 - 1) (fifo_list F db1) \<and>
    (\<forall>a. bal E c1 a = bal E c a + credits F (epochs_between F db d d1) a) \<and>
    (\<forall>e \<in> set (epochs_between F db1 d d1). due (cc_Epochs cc) h e)"
proof -
  let ?es = "pending F db d" and ?L = "\<lambda>e. sint (ce_LastHeight e)"
  have sg: "?es = filter (\<lambda>e. sint d < ?L e) (fifo_list F db)" "sorted_wrt (\<lambda>e e'. ?L e < ?L e') (fifo_list F db)"
    using es pending_signed [OF ok _ d] by blast+
  have mem: "receivers_ok F e \<and> 0 < ?L e \<and> sint d < ?L e" if "e \<in> set ?es" for e
    using es [of e] that unfolding sg(1) by simp
  have srt: "sorted_wrt (\<lambda>e e'. ?L e < ?L e') ?es" unfolding sg(1) using sg(2) by (rule sorted_wrt_filter)
  from serve_credits [OF served mem srt d(1)] obtain k where R: "map ce_core es' = map ce_core (take (length es') ?es)"
      "\<forall>(e, e') \<in> set (zip ?es es'). ce_EEBTSmartHeight e' \<noteq> ce_EEBTSmartHeight e \<longrightarrow> receivers_ok F e'"
      "same_storage E c1 c" "k \<le> length es'" "\<forall>e \<in> set (take k es'). due (cc_Epochs cc) h e"
      "d1 = (if k = 0 then d else ce_LastHeight (?es ! (k - 1)))"
      "\<forall>a. bal E c1 a = bal E c a + credits F (take k ?es) a" by blast
  note rq = recorded_queue [OF ok ok' map R(1)]
  have len: "length es' \<le> length ?es" using map_eq_imp_length_eq [OF R(1)] by simp
  have last: "k \<noteq> 0 \<Longrightarrow> ?es ! (k - 1) \<in> set ?es" using R(4) len by simp
  have "epochs_between F db d d1 = filter (\<lambda>e. ?L e \<le> sint d1) ?es"
    unfolding epochs_between_def sg(1) filter_filter ..
  also have "\<dots> = take k ?es"
    by (rule credited_prefix [OF srt, where d = "sint d"]) (use mem R(4,6) len in auto)
  finally have between: "epochs_between F db d d1 = take k ?es" .
  have le: "sint d \<le> sint d1" "sint d1 < 2 ^ 63 - 1" "d1 \<in> insert d (ce_LastHeight ` set (fifo_list F db))"
    using R(6) mem [OF last] es [of "?es ! (k - 1)"] last d(2) by (auto simp: sg(1))
  have new: "receivers_ok F e \<and> 0 < ?L e \<and> ?L e < 2 ^ 63 - 1" if "e \<in> set (fifo_list F db1)" for e
    using rq(2) [OF that]
  proof
    assume "\<exists>i < length es'. e = es' ! i \<and> ce_EEBTSmartHeight (es' ! i) \<noteq> ce_EEBTSmartHeight (?es ! i)"
    then obtain i where i: "i < length es'" "e = es' ! i" "ce_EEBTSmartHeight (es' ! i) \<noteq> ce_EEBTSmartHeight (?es ! i)" by blast
    then have "(?es ! i, e) \<in> set (zip ?es es')" using len by (force simp: set_zip)
    moreover have "ce_core e = ce_core (?es ! i)" using arg_cong [OF R(1), of "\<lambda>xs. xs ! i"] i len by simp
    moreover have "?es ! i \<in> set (fifo_list F db)" using nth_mem [of i ?es] i(1) len by (simp add: pending_def)
    ultimately show ?thesis using R(2) i(2,3) es [of "?es ! i"] by (auto simp: ce_core_def)
  qed (rule es)
  note due = recorded_due [OF ok ok' map R(1,4,5) between]
  show ?thesis using le R(3) rq(1) new R(7) between due by (auto simp: list_all_iff)
qed

lemma ProcessCCRPC_effect:
  assumes inv: "ccrpc_inv E F cc c d" and it: "is_iter it"
    and P: "ProcessCCRPC E F it cc c h t = Some (b, cc', c', ad)"
  shows "\<exists>d'. ccrpc_inv E F cc' c' d' \<and> sint d \<le> sint d' \<and> d' \<in> insert d (ce_LastHeight ` set (fifo_list F (cc_fifo cc))) \<and> (b \<longleftrightarrow> d' \<noteq> d) \<and> cc_Epochs cc' = cc_Epochs cc \<and>
    map ce_core (fifo_list F (cc_fifo cc')) = map ce_core (fifo_list F (cc_fifo cc)) \<and>
    (\<forall>a. bal E c' a = bal E c a + credits F (epochs_between F (cc_fifo cc) d d') a) \<and>
    (\<forall>e \<in> set (epochs_between F (cc_fifo cc') d d'). due (cc_Epochs cc) h e)"
proof (cases "sint (cc_SearchTo cc) > sint h")
  case True
  then show ?thesis using inv P by (auto simp: ProcessCCRPC_def epochs_between_def intro!: exI [of _ d])
next
  case False
  let ?db = "cc_fifo cc" and ?p = "processOne E F cc h t d"
  let ?es = "pending F ?db d"
  from inv have I: "fifo_ok F ?db" "loadDoneMain E c = Some d" "0 \<le> sint d" "sint d < 2 ^ 63 - 1"
    and es: "\<And>e. e \<in> set (fifo_list F ?db) \<Longrightarrow> receivers_ok F e \<and> 0 < sint (ce_LastHeight e) \<and> sint (ce_LastHeight e) < 2 ^ 63 - 1"
    by (auto simp: ccrpc_inv_def list_all_iff)
  from P False I(2) obtain c1 ns db1 d1 where S: "Serve F it ?db d ?p (c, cc_SearchTo cc, []) = Some ((c1, ns, ad), db1, d1)"
      "cc' = cc\<lparr>cc_running := True, cc_SearchTo := ns, cc_fifo := db1\<rparr>"
      "b = (sint d1 > sint d)" "c' = (if sint d1 > sint d then saveDoneMain E c1 d1 else c1)"
    by (auto simp: ProcessCCRPC_def Let_def split: bind_splits if_splits)
  have "rel_option (\<lambda>(s', db', d') (s'', d'', es'). s' = s'' \<and> d' = d'' \<and> fifo_ok F db' \<and>
      fifo_map F db' = record_changes ?es es' (fifo_map F ?db))
    (Serve F it ?db d ?p (c, cc_SearchTo cc, [])) (serve_epochs ?p ?es d (c, cc_SearchTo cc, []))"
    by (rule Serve_abstract [OF it I(1)]) (rule processOne_LastHeight)
  with S(1)
  obtain es' where A: "serve_epochs ?p ?es d (c, cc_SearchTo cc, []) = Some ((c1, ns, ad), d1, es')"
      "fifo_ok F db1" "fifo_map F db1 = record_changes ?es es' (fifo_map F ?db)"
    by (auto simp: rel_option_iff split: option.splits)
  note Q = served_queue [OF I(1) es I(3,4) A]
  have "loadDoneMain E c' = Some d1"
    using S(4) Q I(2) loadDoneMain_same [of c1 c] by (auto simp: loadDoneMain_save sint_eq_iff [symmetric])
  moreover have "bal E c' a = bal E c1 a" for a using S(4) by (simp add: saveDoneMain_def)
  moreover have "sint d1 > sint d \<longleftrightarrow> d1 \<noteq> d" using Q by (auto simp: sint_eq_iff [symmetric])
  ultimately show ?thesis
    using Q A(2) I(3) S(2,3) by (intro exI [of _ d1]) (auto simp: ccrpc_inv_def)
qed

end

subsection \<open>Which epochs a block credits\<close>

text \<open>
  The block an epoch belongs to: the recorded one, or the one the search finds, \<open>None\<close> while
  that block may still come.
\<close>

definition mapped_block :: "('c, 'b, 'd, 'v, 'r, 'm) ccrpc_ext_scheme \<Rightarrow> ('b, 'd) CCrpcImp \<Rightarrow> 'c \<Rightarrow> i64 \<Rightarrow> 'd CCrpcEpoch \<Rightarrow> i64 option" where
  "mapped_block F cc c currHeight e =
     (if ce_EEBTSmartHeight e \<noteq> 0 then Some (ce_EEBTSmartHeight e)
      else let bt = BlockTime F c; start = back_start bt (cc_SearchTo cc) (currHeight - 1)
           in case blockAfterTime bt start (start - cc_SearchTo cc) (ce_EpochEndBlockTime e) of
                None \<Rightarrow> None | Some (b, ab) \<Rightarrow> if sint ab > 0 then None else Some b)"

text \<open>An epoch is due now when its end is past and its block is the delay of the epoch ago.\<close>

definition due_now :: "('c, 'b, 'd, 'v, 'r, 'm) ccrpc_ext_scheme \<Rightarrow> ('b, 'd) CCrpcImp \<Rightarrow> 'c \<Rightarrow> i64 \<Rightarrow> i64 \<Rightarrow> 'd CCrpcEpoch \<Rightarrow> bool" where
  "due_now F cc c currHeight currTime e \<longleftrightarrow>
     sint (ce_EpochEndBlockTime e + 10) < sint currTime \<and> 1 < sint currHeight \<and>
     (case getEpoch (cc_Epochs cc) (ce_FirstHeight e) of None \<Rightarrow> False | Some (n, nn, minimum) \<Rightarrow>
        (case mapped_block F cc c currHeight e of None \<Rightarrow> False | Some b \<Rightarrow> b + nn = currHeight))"

text \<open>The blocks a context reads are those of the history, whatever happens to the accounts.\<close>

locale ccrpc_history = ccrpc_env E F for E :: "('c, 'a) ext" and F :: "('c, 'b, 'd, 'v, 'r, 'm) ccrpc_ext_scheme" +
  assumes block_account: "BlockTime F (SetAccount E c a x) = BlockTime F c"
begin

lemma AccountCcrpc_blocks: "foldM (AccountCcrpc E F) c tis = Some c' \<Longrightarrow> BlockTime F c' = BlockTime F c"
proof (induction tis arbitrary: c)
  case (Cons ti tis)
  then obtain c1 where "AccountCcrpc E F c ti = Some c1" "foldM (AccountCcrpc E F) c1 tis = Some c'" by (auto split: bind_splits)
  moreover from this(1) have "BlockTime F c1 = BlockTime F c"
    by (auto simp: AccountCcrpc_def Let_def block_account split: bind_splits)
  ultimately show ?case using Cons.IH [of c1] by simp
qed simp

lemma apply_epoch_done:
  assumes "apply_epoch E F nn h ld (c, ns, ad) e = Some ((c', ns', ad'), e', n)" and "ce_LastHeight e \<noteq> 0"
  shows "(n \<noteq> 0 \<longleftrightarrow> ce_EEBTSmartHeight e + nn = h) \<and> BlockTime F c' = BlockTime F c"
  using assms AccountCcrpc_blocks by (auto simp: apply_epoch_def split: bind_splits if_splits)

lemma processOne_done:
  assumes "processOne E F cc h t ld (c, ns, ad) e = Some ((c', ns', ad'), e', n)" and "ce_LastHeight e \<noteq> 0"
  shows "(n \<noteq> 0 \<longleftrightarrow> due_now F cc c h t e) \<and> BlockTime F c' = BlockTime F c"
proof -
  from assms(1) obtain m nn mi where g: "getEpoch (cc_Epochs cc) (ce_FirstHeight e) = Some (m, nn, mi)"
    by (auto simp: processOne_def split: bind_splits)
  note P = assms(1) [unfolded processOne_def g bind.bind_lunit prod.case]
  show ?thesis
  proof (cases "sint t \<le> sint (ce_EpochEndBlockTime e + 10) \<or> sint h \<le> 1 \<or> ce_EEBTSmartHeight e \<noteq> 0")
    case True
    then show ?thesis using P g apply_epoch_done [of nn h ld c ns ad e] assms(2)
      by (auto simp: due_now_def mapped_block_def split: if_splits)
  next
    case False
    let ?bt = "BlockTime F c" let ?st = "back_start ?bt (cc_SearchTo cc) (h - 1)"
    from P False obtain r where r: "map_epoch F (cc_SearchTo cc) nn h (c, ns, ad) e = Some r" by (auto split: bind_splits)
    then obtain b ab where b: "blockAfterTime ?bt ?st (?st - cc_SearchTo cc) (ce_EpochEndBlockTime e) = Some (b, ab)"
      by (auto simp: map_epoch_def Let_def split: bind_splits)
    have now: "due_now F cc c h t e \<longleftrightarrow> \<not> sint ab > 0 \<and> b + nn = h"
      using False g b by (auto simp: due_now_def mapped_block_def Let_def)
    show ?thesis
    proof (cases r)
      case (Inl e1)
      then show ?thesis using P r False b now by (auto simp: map_epoch_def Let_def split: if_splits bind_splits)
    next
      case (Inr q)
      obtain ns1 ad1 e1 where q: "q = ((c, ns1, ad1), e1)" "ce_EEBTSmartHeight e1 = b" "ce_LastHeight e1 = ce_LastHeight e" "\<not> sint ab > 0"
        using r Inr b by (auto simp: map_epoch_def Let_def split: if_splits bind_splits)
      then have "apply_epoch E F nn h ld (c, ns1, ad1) e1 = Some ((c', ns', ad'), e', n)" using P r Inr False by auto
      from apply_epoch_done [OF this] q(2-4) assms(2) now show ?thesis by simp
    qed
  qed
qed

lemma due_now_cong:
  assumes "BlockTime F c' = BlockTime F c"
  shows "due_now F cc c' h t = due_now F cc c h t"
proof -
  have "mapped_block F cc c' h = mapped_block F cc c h" by (intro ext) (simp only: mapped_block_def assms)
  then show ?thesis by (intro ext) (simp only: due_now_def)
qed

lemma serve_done:
  assumes "serve_epochs (processOne E F cc h t ld) es d (c, ns, ad) = Some ((c', ns', ad'), d', es')"
    and "\<And>e. e \<in> set es \<Longrightarrow> receivers_ok F e \<and> 0 < sint (ce_LastHeight e) \<and> sint d < sint (ce_LastHeight e)"
    and "sorted_wrt (\<lambda>e e'. sint (ce_LastHeight e) < sint (ce_LastHeight e')) es" and "0 \<le> sint d"
    and "k = length (takeWhile (due_now F cc c h t) es)"
  shows "d' = (if k = 0 then d else ce_LastHeight (es ! (k - 1)))"
  using assms
proof (induction es arbitrary: d c ns ad es' k)
  case (Cons e es)
  let ?p = "processOne E F cc h t ld"
  from Cons.prems(2) [of e] have e: "receivers_ok F e" "ce_LastHeight e \<noteq> 0" "0 < sint (ce_LastHeight e)" "sint d < sint (ce_LastHeight e)" by auto
  from Cons.prems(1) obtain c1 ns1 ad1 e1 n where p: "?p (c, ns, ad) e = Some ((c1, ns1, ad1), e1, n)" by (auto split: bind_splits)
  note fin = processOne_done [OF p e(2)]
  show ?case
  proof (cases "n = 0")
    case True
    then show ?thesis using Cons.prems(1,4,5) p fin by (auto simp: Let_def split: if_splits)
  next
    case False
    then have n: "n = ce_LastHeight e" using processOne_effect [OF p e(1,2)] by auto
    from Cons.prems(1) p False e n obtain es1 where rest: "serve_epochs ?p es (ce_LastHeight e) (c1, ns1, ad1) = Some ((c', ns', ad'), d', es1)"
      by (auto simp: Let_def split: bind_splits)
    have pre: "x \<in> set es \<Longrightarrow> receivers_ok F x \<and> 0 < sint (ce_LastHeight x) \<and> sint (ce_LastHeight e) < sint (ce_LastHeight x)" for x
      using Cons.prems(2) [of x] Cons.prems(3) by auto
    have srt: "sorted_wrt (\<lambda>e e'. sint (ce_LastHeight e) < sint (ce_LastHeight e')) es" using Cons.prems(3) by simp
    have same: "due_now F cc c1 h t = due_now F cc c h t" using fin by (intro due_now_cong) simp
    have k: "k = Suc (length (takeWhile (due_now F cc c1 h t) es))" using fin False Cons.prems(5) by (simp add: same)
    from Cons.IH [OF rest pre srt less_imp_le [OF e(3)] refl] show ?thesis unfolding k by (simp split: if_splits)
  qed
qed simp

text \<open>What is credited are the pending epochs up to the first one that is not due.\<close>

lemma ProcessCCRPC_done:
  assumes inv: "ccrpc_inv E F cc c d" and it: "is_iter it" and P: "ProcessCCRPC E F it cc c h t = Some (b, cc', c', ad)"
    and d': "loadDoneMain E c' = Some d'"
  shows "epochs_between F (cc_fifo cc) d d' = (if sint (cc_SearchTo cc) > sint h then [] else takeWhile (due_now F cc c h t) (pending F (cc_fifo cc) d))"
proof (cases "sint (cc_SearchTo cc) > sint h")
  case True
  then have "d' = d" using inv P d' by (auto simp: ProcessCCRPC_def ccrpc_inv_def)
  then show ?thesis using True by (auto simp: epochs_between_def)
next
  case False
  let ?db = "cc_fifo cc" and ?p = "processOne E F cc h t d" and ?L = "\<lambda>e. sint (ce_LastHeight e)"
  let ?es = "pending F ?db d"
  from inv have I: "fifo_ok F ?db" "loadDoneMain E c = Some d" "0 \<le> sint d" "sint d < 2 ^ 63 - 1"
    and es: "\<And>e. e \<in> set (fifo_list F ?db) \<Longrightarrow> receivers_ok F e \<and> 0 < ?L e \<and> ?L e < 2 ^ 63 - 1"
    by (auto simp: ccrpc_inv_def list_all_iff)
  from P False I(2) obtain c1 ns db1 d1 where S: "Serve F it ?db d ?p (c, cc_SearchTo cc, []) = Some ((c1, ns, ad), db1, d1)"
      "c' = (if sint d1 > sint d then saveDoneMain E c1 d1 else c1)"
    by (auto simp: ProcessCCRPC_def Let_def split: bind_splits if_splits)
  have "rel_option (\<lambda>(s', db', d') (s'', d'', es'). s' = s'' \<and> d' = d'' \<and> fifo_ok F db' \<and>
      fifo_map F db' = record_changes ?es es' (fifo_map F ?db))
    (Serve F it ?db d ?p (c, cc_SearchTo cc, [])) (serve_epochs ?p ?es d (c, cc_SearchTo cc, []))"
    by (rule Serve_abstract [OF it I(1)]) (rule processOne_LastHeight)
  with S(1) obtain es' where A: "serve_epochs ?p ?es d (c, cc_SearchTo cc, []) = Some ((c1, ns, ad), d1, es')"
      "fifo_ok F db1" "fifo_map F db1 = record_changes ?es es' (fifo_map F ?db)"
    by (auto simp: rel_option_iff split: option.splits)
  have sg: "?es = filter (\<lambda>e. sint d < ?L e) (fifo_list F ?db)" "sorted_wrt (\<lambda>e e'. ?L e < ?L e') (fifo_list F ?db)"
    using es pending_signed [OF I(1) _ I(3,4)] by blast+
  have mem: "receivers_ok F e \<and> 0 < ?L e \<and> sint d < ?L e" if "e \<in> set ?es" for e using es [of e] that unfolding sg(1) by simp
  have srt: "sorted_wrt (\<lambda>e e'. ?L e < ?L e') ?es" unfolding sg(1) using sg(2) by (rule sorted_wrt_filter)
  let ?k = "length (takeWhile (due_now F cc c h t) ?es)"
  have d1: "d1 = (if ?k = 0 then d else ce_LastHeight (?es ! (?k - 1)))" by (rule serve_done [OF A(1) mem srt I(3) refl])
  have "loadDoneMain E c' = Some d1"
    using S(2) served_queue [OF I(1) es I(3,4) A] I(2) loadDoneMain_same [of c1 c] by (auto simp: loadDoneMain_save sint_eq_iff [symmetric])
  then have "d' = d1" using d' by simp
  have "epochs_between F ?db d d1 = filter (\<lambda>e. ?L e \<le> sint d1) ?es" unfolding epochs_between_def sg(1) filter_filter ..
  also have "\<dots> = take ?k ?es"
    by (rule credited_prefix [OF srt, where d = "sint d"]) (use mem d1 in \<open>auto simp: length_takeWhile_le\<close>)
  finally show ?thesis using False \<open>d' = d1\<close> by (simp add: takeWhile_eq_take [symmetric])
qed

end

subsection \<open>The fetcher\<close>

text \<open>The lengths of the epochs in the table; the start-up check of the node enforces these bounds.\<close>

definition lengths_ok :: "i64 list list \<Rightarrow> bool" where
  "lengths_ok epochs = list_all (\<lambda>v. length v \<ge> 3 \<and> 0 < sint (v ! 1) \<and> sint (v ! 1) \<le> 2500) epochs"

lemma getEpoch_loop_ok:
  assumes "lengths_ok epochs" and "getEpoch_loop epochs f acc = Some (n, nn, m)"
  shows "(n, nn, m) = acc \<or> 0 < sint n \<and> sint n \<le> 2500"
  using assms
  by (induction epochs f acc rule: getEpoch_loop.induct) (auto simp: lengths_ok_def split: if_splits)

lemma getEpoch_ok:
  "lengths_ok epochs \<Longrightarrow> getEpoch epochs f = Some (n, nn, m) \<Longrightarrow> 0 < sint n \<and> sint n \<le> 2500"
  using getEpoch_loop_ok [of epochs f "(0, 0, 0)"] by (auto simp: getEpoch_def split: bind_splits if_splits)

lemma decode_transfers:
  "foldM decode_transfer e rs = Some e' \<Longrightarrow>
   ce_FirstHeight e' = ce_FirstHeight e \<and> ce_LastHeight e' = ce_LastHeight e \<and> ce_EEBTSmartHeight e' = ce_EEBTSmartHeight e"
  by (rule foldM_invariant) (auto simp: decode_transfer_def split: bind_splits)

lemma FetchCrosschain_heights:
  assumes "FetchCrosschain F send first lst m = Some e"
  shows "ce_FirstHeight e = first \<and> ce_LastHeight e = lst \<and> ce_EEBTSmartHeight e = 0"
  using assms by (auto simp: FetchCrosschain_def getCrosschain_def DO_GetCrosschain_def split: bind_splits prod.splits if_splits dest!: decode_transfers)

text \<open>A list of epochs that covers the main-chain heights above \<open>lo\<close> up to \<open>hi\<close>, each exactly once.\<close>

fun contiguous :: "i64 \<Rightarrow> 'd CCrpcEpoch list \<Rightarrow> i64 \<Rightarrow> bool" where
  "contiguous lo [] hi \<longleftrightarrow> lo = hi"
| "contiguous lo (e # es) hi \<longleftrightarrow> ce_FirstHeight e = lo + 1 \<and> sint lo < sint (ce_LastHeight e) \<and> contiguous (ce_LastHeight e) es hi"

lemma contiguous_snoc:
  "contiguous lo es hi \<Longrightarrow> ce_FirstHeight e = hi + 1 \<Longrightarrow> sint hi < sint (ce_LastHeight e) \<Longrightarrow> contiguous lo (es @ [e]) (ce_LastHeight e)"
  by (induction lo es hi rule: contiguous.induct) auto

lemma contiguous_last: "contiguous lo es hi \<Longrightarrow> es \<noteq> [] \<Longrightarrow> ce_LastHeight (last es) = hi"
  by (induction lo es hi rule: contiguous.induct) auto

lemma contiguous_core:
  "contiguous lo es hi \<Longrightarrow> map ce_core es = map ce_core es' \<Longrightarrow> contiguous lo es' hi"
  by (induction es es' arbitrary: lo rule: list_induct2') (auto simp: ce_core_def)

lemma contiguous_bound:
  "contiguous lo es hi \<Longrightarrow> sint lo \<le> sint hi \<and> (\<forall>e \<in> set es. sint lo < sint (ce_LastHeight e) \<and> sint (ce_LastHeight e) \<le> sint hi)"
  by (induction lo es hi rule: contiguous.induct) fastforce+

lemma fetcher_round_epoch:
  assumes "fetcher_round F epochs (FetchCrosschain F send) replies (mh, df, db) = Some (mh', df', db')"
    and "lengths_ok epochs" and "0 \<le> sint df" and "sint df < 2 ^ 62"
  shows "\<exists>e. Come F db e = Some db' \<and> df' = ce_LastHeight e \<and> ce_FirstHeight e = df + 1 \<and> ce_EEBTSmartHeight e = 0 \<and>
    sint df < sint df' \<and> sint df' \<le> sint df + 2500"
proof -
  from assms(1) obtain n nn m e where g: "getEpoch epochs (df + 1) = Some (n, nn, m)"
      "FetchCrosschain F send (df + 1) (df + 1 + n - 1) m = Some e" "Come F db e = Some db'" "df' = ce_LastHeight e"
    by (auto simp: fetcher_round_def Let_def split: bind_splits)
  from getEpoch_ok [OF assms(2) g(1)] have n: "0 < sint n" "sint n \<le> 2500" by auto
  have "df + 1 + n - 1 = df + n" by simp
  moreover have "sint (df + n) = sint df + sint n" using n assms(3,4) by (intro sint_add_no_wrap) auto
  ultimately show ?thesis using FetchCrosschain_heights [OF g(2)] g(3,4) n by auto
qed

context ordered_db
begin

lemma fifo_list_snoc:
  assumes ok: "fifo_ok F db" "fifo_ok F db'" and map: "fifo_map F db' = (fifo_map F db)(ce_LastHeight e \<mapsto> e)"
    and above: "\<And>x. x \<in> set (fifo_list F db) \<Longrightarrow> ce_LastHeight x < ce_LastHeight e"
  shows "fifo_list F db' = fifo_list F db @ [e]"
proof -
  let ?ks = "map ce_LastHeight (fifo_list F db @ [e])"
  have "dom (fifo_map F db') = set ?ks" unfolding map using fifo_map_Some [OF ok(1)] by (auto simp: dom_def)
  moreover have "sorted ?ks" "distinct ?ks"
    using fifo_list_sorted [OF ok(1)] by (auto simp: sorted_append order.strict_implies_order dest: above)
  ultimately have ks: "sorted_list_of_set (dom (fifo_map F db')) = ?ks"
    by (simp only: sorted_list_of_set.idem_if_sorted_distinct)
  have "the (fifo_map F db' (ce_LastHeight x)) = x" if "x \<in> set (fifo_list F db)" for x
    using fifo_map_Some [OF ok(1), of "ce_LastHeight x" x] above [OF that] that by (simp add: map)
  then show ?thesis unfolding fifo_list_eq [OF ok(2)] ks by (simp add: map map_idI)
qed

end

subsection \<open>Runs\<close>

text \<open>
  The state of a run: the handler, the chain, and the two variables of the fetcher's loop. A
  step is a block, a round of the fetcher with any replies of the main-chain node (the
  heights stay far below the range of \<open>int64\<close>), or a restart of the node: the queue is on
  disk, the handler and the variables of the fetcher start anew. A node that crashes in a
  block has written the queue of that block, but the state of the chain is the one before
  it, on which Tendermint replays the block.
\<close>

inductive ccrpc_step :: "('c, 'a) ext \<Rightarrow> ('c, 'b, 'd, 'v, 'r, 'm) ccrpc_ext_scheme \<Rightarrow> i64 iter \<Rightarrow>
    ('b, 'd) CCrpcImp \<times> 'c \<times> i64 \<times> i64 \<Rightarrow> ('b, 'd) CCrpcImp \<times> 'c \<times> i64 \<times> i64 \<Rightarrow> bool"
  for E F it where
  step_block: "ProcessCCRPC E F it cc c h t = Some (b, cc', c', ad) \<Longrightarrow> ccrpc_step E F it (cc, c, mh, df) (cc', c', mh, df)"
| step_fetch: "fetcher_round F (cc_Epochs cc) (FetchCrosschain F send) replies (mh, df, cc_fifo cc) = Some (mh', df', db') \<Longrightarrow>
    sint df < 2 ^ 62 \<Longrightarrow> ccrpc_step E F it (cc, c, mh, df) (cc\<lparr>cc_fifo := db'\<rparr>, c, mh', df')"
| step_restart: "Newccrpc True (cc_Epochs cc) fork (cc_fifo cc) = Some cc' \<Longrightarrow> fetcher_start F cc' = Some df' \<Longrightarrow>
    ccrpc_step E F it (cc, c, mh, df) (cc', c, 0, df')"
| step_crash: "ProcessCCRPC E F it cc c h t = Some (b, cc1, c1, ad) \<Longrightarrow>
    Newccrpc True (cc_Epochs cc) fork (cc_fifo cc1) = Some cc' \<Longrightarrow> fetcher_start F cc' = Some df' \<Longrightarrow>
    ccrpc_step E F it (cc, c, mh, df) (cc', c, 0, df')"

text \<open>Where the fetcher starts with an empty queue.\<close>

definition starts_at :: "i64 list list \<Rightarrow> i64 \<Rightarrow> bool" where
  "starts_at epochs df = (case epochs of (first # _) # _ \<Rightarrow> df = first - 1 | _ \<Rightarrow> False)"

definition run_inv :: "('c, 'a) ext \<Rightarrow> ('c, 'b, 'd, 'v, 'r, 'm) ccrpc_ext_scheme \<Rightarrow> 'c \<Rightarrow> i64 \<Rightarrow>
    ('b, 'd) CCrpcImp \<times> 'c \<times> i64 \<times> i64 \<Rightarrow> bool" where
  "run_inv E F c0 df0 s = (case s of (cc, c, mh, df) \<Rightarrow> lengths_ok (cc_Epochs cc) \<and> starts_at (cc_Epochs cc) df0 \<and> 0 \<le> sint df0 \<and>
     contiguous df0 (fifo_list F (cc_fifo cc)) df \<and>
     (\<exists>d. ccrpc_inv E F cc c d \<and> sint d \<le> sint df \<and>
        (\<forall>a. bal E c a = bal E c0 a + credits F (epochs_between F (cc_fifo cc) 0 d) a)))"

lemma epochs_between_core:
  assumes "map ce_core (fifo_list F db) = map ce_core (fifo_list F db')"
  shows "map ce_core (epochs_between F db lo hi) = map ce_core (epochs_between F db' lo hi)"
proof -
  have "map ce_core (epochs_between F x lo hi)
      = filter (\<lambda>(f, l, r). sint lo < sint l \<and> sint l \<le> sint hi) (map ce_core (fifo_list F x))" for x
    by (simp add: epochs_between_def filter_map comp_def ce_core_def)
  with assms show ?thesis by simp
qed

lemma filter_split_sorted:
  fixes f :: "'x \<Rightarrow> int"
  assumes "sorted_wrt (\<lambda>x y. f x < f y) xs" and "a \<le> b" and "b \<le> c"
  shows "filter (\<lambda>x. a < f x \<and> f x \<le> c) xs = filter (\<lambda>x. a < f x \<and> f x \<le> b) xs @ filter (\<lambda>x. b < f x \<and> f x \<le> c) xs"
  using assms(1)
proof (induction xs)
  case (Cons x xs)
  have "filter (\<lambda>x. a < f x \<and> f x \<le> b) xs = []" if "\<not> f x \<le> b"
    using Cons.prems that by (auto simp: filter_empty_conv)
  with Cons show ?case using assms(2,3) by (cases "f x \<le> b") auto
qed simp

context ccrpc_env
begin

lemma epochs_between_split:
  assumes "ccrpc_inv E F cc c d" and "0 \<le> sint d" and "sint d \<le> sint d'"
  shows "credits F (epochs_between F (cc_fifo cc) 0 d') a
    = credits F (epochs_between F (cc_fifo cc) 0 d) a + credits F (epochs_between F (cc_fifo cc) d d') a"
proof -
  from assms(1) have "sorted_wrt (\<lambda>e e'. sint (ce_LastHeight e) < sint (ce_LastHeight e')) (fifo_list F (cc_fifo cc))"
    by (intro pending_signed(2)) (auto simp: ccrpc_inv_def list_all_iff)
  from filter_split_sorted [OF this assms(2,3)] show ?thesis
    by (simp add: epochs_between_def credits_append)
qed

lemma block_keeps:
  assumes "is_iter it" and "run_inv E F c0 df0 (cc, c, mh, df)" and "ProcessCCRPC E F it cc c h t = Some (b, cc', c', ad)"
  shows "run_inv E F c0 df0 (cc', c', mh, df)"
proof -
  from assms(2) obtain d where I: "lengths_ok (cc_Epochs cc)" "0 \<le> sint df0" "contiguous df0 (fifo_list F (cc_fifo cc)) df"
      "ccrpc_inv E F cc c d" "sint d \<le> sint df" "\<And>a. bal E c a = bal E c0 a + credits F (epochs_between F (cc_fifo cc) 0 d) a"
      "starts_at (cc_Epochs cc) df0"
    by (auto simp: run_inv_def)
  from ProcessCCRPC_effect [OF I(4) assms(1,3)] obtain d' where D: "ccrpc_inv E F cc' c' d'" "sint d \<le> sint d'"
      "cc_Epochs cc' = cc_Epochs cc" "map ce_core (fifo_list F (cc_fifo cc')) = map ce_core (fifo_list F (cc_fifo cc))"
      "\<And>a. bal E c' a = bal E c a + credits F (epochs_between F (cc_fifo cc) d d') a" "d' \<in> insert d (ce_LastHeight ` set (fifo_list F (cc_fifo cc)))"
    by blast
  have "0 \<le> sint d" using I(4) by (simp add: ccrpc_inv_def)
  note split = epochs_between_split [OF I(4) this D(2)]
  have "bal E c' a = bal E c0 a + credits F (epochs_between F (cc_fifo cc') 0 d') a" for a
    using D(5) [of a] I(6) [of a] split [of a] credits_core [OF epochs_between_core [OF D(4)], of F 0 d' a] by (simp add: add.assoc)
  moreover have "sint d' \<le> sint df" using D(6) I(5) contiguous_bound [OF I(3)] by auto
  ultimately show ?thesis using I D contiguous_core [OF I(3) D(4) [symmetric]] by (auto simp: run_inv_def)
qed

text \<open>
  After a restart the fetcher goes on where the queue ends: \<open>db'\<close> has the epochs of the queue,
  perhaps with more of them mapped.
\<close>

lemma restart_keeps:
  assumes "run_inv E F c0 df0 (cc, c, mh, df)" and "ccrpc_inv E F (cc\<lparr>cc_fifo := db'\<rparr>) c d"
    and core: "map ce_core (fifo_list F db') = map ce_core (fifo_list F (cc_fifo cc))"
    and "Newccrpc True (cc_Epochs cc) fork db' = Some cc'" and "fetcher_start F cc' = Some df'"
  shows "run_inv E F c0 df0 (cc', c, 0, df')"
proof -
  from assms(1,2) have I: "lengths_ok (cc_Epochs cc)" "0 \<le> sint df0" "contiguous df0 (fifo_list F (cc_fifo cc)) df"
      "sint d \<le> sint df" "\<And>a. bal E c a = bal E c0 a + credits F (epochs_between F (cc_fifo cc) 0 d) a"
      "starts_at (cc_Epochs cc) df0"
    by (auto simp: run_inv_def ccrpc_inv_def)
  note C = contiguous_core [OF I(3) core [symmetric]]
  have cc': "cc_Epochs cc' = cc_Epochs cc" "cc_fifo cc' = db'" using assms(4) by (auto simp: Newccrpc_def)
  have db': "fifo_ok F db'" "list_all (\<lambda>e. 0 < sint (ce_LastHeight e)) (fifo_list F db')"
    using assms(2) by (auto simp: ccrpc_inv_def list_all_iff)
  have "df' = df"
  proof (cases "fifo_list F db'")
    case Nil
    with C I(6) assms(5) show ?thesis
      by (auto simp: fetcher_start_def starts_at_def cc' LastFetched_abstract [OF db'(1)] split: list.splits)
  next
    case (Cons e es)
    then have "ce_LastHeight (last (fifo_list F db')) = df" using contiguous_last [OF C] by simp
    moreover have "0 < sint (ce_LastHeight (last (fifo_list F db')))" using db'(2) Cons by (simp add: list_all_iff)
    ultimately show ?thesis
      using assms(5) I(6) Cons by (auto simp: fetcher_start_def starts_at_def cc' LastFetched_abstract [OF db'(1)] split: list.splits)
  qed
  moreover have "bal E c a = bal E c0 a + credits F (epochs_between F db' 0 d) a" for a
    using I(5) [of a] credits_core [OF epochs_between_core [OF core], of F 0 d a] by simp
  moreover have "ccrpc_inv E F cc' c d" using assms(2) by (simp add: ccrpc_inv_def cc')
  ultimately show ?thesis using I C by (auto simp: run_inv_def cc')
qed

lemma run_restart:
  assumes "run_inv E F c0 df0 (cc, c, mh, df)" and "Newccrpc True (cc_Epochs cc) fork (cc_fifo cc) = Some cc'"
    and "fetcher_start F cc' = Some df'"
  shows "run_inv E F c0 df0 (cc', c, 0, df')"
  using assms(1) restart_keeps [OF assms(1) _ refl assms(2,3)] by (auto simp: run_inv_def)

lemma crash_keeps:
  assumes "is_iter it" and "run_inv E F c0 df0 (cc, c, mh, df)" and "ProcessCCRPC E F it cc c h t = Some (b, cc1, c1, ad)"
    and "Newccrpc True (cc_Epochs cc) fork (cc_fifo cc1) = Some cc'" and "fetcher_start F cc' = Some df'"
  shows "run_inv E F c0 df0 (cc', c, 0, df')"
proof -
  from assms(2) obtain d where inv: "ccrpc_inv E F cc c d" by (auto simp: run_inv_def)
  from ProcessCCRPC_effect [OF inv assms(1,3)]
  have core: "map ce_core (fifo_list F (cc_fifo cc1)) = map ce_core (fifo_list F (cc_fifo cc))"
    and "ccrpc_inv E F (cc\<lparr>cc_fifo := cc_fifo cc1\<rparr>) c d"
    using inv by (auto simp: ccrpc_inv_def)
  from restart_keeps [OF assms(2) this(2,1) assms(4,5)] show ?thesis .
qed

lemma fetch_keeps:
  assumes "run_inv E F c0 df0 (cc, c, mh, df)" and "sint df < 2 ^ 62"
    and "fetcher_round F (cc_Epochs cc) (FetchCrosschain F send) replies (mh, df, cc_fifo cc) = Some (mh', df', db')"
  shows "run_inv E F c0 df0 (cc\<lparr>cc_fifo := db'\<rparr>, c, mh', df')"
proof -
  let ?db = "cc_fifo cc"
  from assms(1) obtain d where I: "lengths_ok (cc_Epochs cc)" "0 \<le> sint df0" "contiguous df0 (fifo_list F ?db) df"
      "ccrpc_inv E F cc c d" "sint d \<le> sint df" "\<And>a. bal E c a = bal E c0 a + credits F (epochs_between F ?db 0 d) a"
      "starts_at (cc_Epochs cc) df0"
    by (auto simp: run_inv_def)
  have ok: "fifo_ok F ?db" using I(4) by (simp add: ccrpc_inv_def)
  from contiguous_bound [OF I(3)] I(2) have df: "0 \<le> sint df" by simp
  from fetcher_round_epoch [OF assms(3) I(1) df assms(2)] obtain e where e: "Come F ?db e = Some db'" "df' = ce_LastHeight e"
      "ce_FirstHeight e = df + 1" "ce_EEBTSmartHeight e = 0" "sint df < sint df'" "sint df' \<le> sint df + 2500" by blast
  from Come_abstract [OF ok, of e] e(1) have m: "fifo_ok F db'" "fifo_map F db' = (fifo_map F ?db)(ce_LastHeight e \<mapsto> e)" by auto
  have "ce_LastHeight x < ce_LastHeight e" if "x \<in> set (fifo_list F ?db)" for x
    using contiguous_bound [OF I(3)] that e(2,5) df I(2) le_iff_sint [of "ce_LastHeight e" "ce_LastHeight x"] by fastforce
  then have l: "fifo_list F db' = fifo_list F ?db @ [e]" using fifo_list_snoc [OF ok m] by blast
  then have "epochs_between F db' 0 d = epochs_between F ?db 0 d" using e(2,5) I(5) by (simp add: epochs_between_def)
  moreover have "ccrpc_inv E F (cc\<lparr>cc_fifo := db'\<rparr>) c d"
    using I(4) m(1) l e df assms(2) by (auto simp: ccrpc_inv_def receivers_ok_def)
  moreover have "contiguous df0 (fifo_list F db') df'" unfolding l e(2) using I(3) e by (intro contiguous_snoc) auto
  ultimately show ?thesis using I e by (auto simp: run_inv_def)
qed

end

subsection \<open>Missed epochs\<close>

lemma catch_up_ge:
  assumes "0 \<le> sint smart" "sint smart < 2 ^ 61" "0 \<le> sint nn" "sint nn < 2 ^ 62" "sint h < 2 ^ 61"
  shows "\<exists>m. catch_up smart h nn = Some m \<and> sint nn \<le> sint m"
  using assms
proof (induction "nat (sint h - sint smart - sint nn)" arbitrary: nn rule: less_induct)
  case less
  have sum: "sint (smart + nn) = sint smart + sint nn" using less.prems by (intro sint_add_no_wrap) auto
  show ?case
  proof (cases "sint (smart + nn) < sint h")
    case True
    have "sint (1200 :: i64) = 1200" by simp
    then have nxt: "sint (nn + 1200) = sint nn + 1200" using less.prems by (subst sint_add_no_wrap) auto
    have "\<exists>m. catch_up smart h (nn + 1200) = Some m \<and> sint (nn + 1200) \<le> sint m"
      using True sum less.prems by (intro less.hyps) (auto simp: nxt)
    then show ?thesis using True nxt by (subst catch_up.simps) auto
  qed (auto simp: catch_up.simps)
qed

lemma catch_up_late:
  assumes "0 \<le> sint smart" "sint smart < 2 ^ 61" "0 \<le> sint nn" "sint nn < 2 ^ 61" "sint h < 2 ^ 61" "sint smart + sint nn < sint h"
  shows "\<exists>m. catch_up smart h nn = Some m \<and> sint nn < sint m"
proof -
  have "sint (1200 :: i64) = 1200" by simp
  then have nxt: "sint (nn + 1200) = sint nn + 1200" using assms by (subst sint_add_no_wrap) auto
  have "sint (smart + nn) = sint smart + sint nn" using assms by (intro sint_add_no_wrap) auto
  then have "catch_up smart h nn = catch_up smart h (nn + 1200)" using assms(6) by (subst catch_up.simps) simp
  moreover have "\<exists>m. catch_up smart h (nn + 1200) = Some m \<and> sint (nn + 1200) \<le> sint m"
    using assms nxt by (intro catch_up_ge) auto
  ultimately show ?thesis using nxt by auto
qed

context ccrpc_env
begin

lemma missed_panics:
  assumes it: "is_iter it" and ok: "fifo_ok F (cc_fifo cc)" and d: "loadDoneMain E c = Some d"
    and p: "pending F (cc_fifo cc) d = e # es" "sint d < sint (ce_LastHeight e)"
    and g: "getEpoch (cc_Epochs cc) (ce_FirstHeight e) = Some (n, nn, m)"
    and e: "0 < sint (ce_EEBTSmartHeight e)" "sint (ce_EEBTSmartHeight e) < 2 ^ 61" "0 \<le> sint nn" "sint nn < 2 ^ 61"
    and h: "sint (ce_EEBTSmartHeight e) + sint nn < sint h" "sint h < 2 ^ 61" "sint (cc_SearchTo cc) \<le> sint h"
    and t: "sint (ce_EpochEndBlockTime e + 10) < sint t"
  shows "ProcessCCRPC E F it cc c h t = None"
proof -
  let ?p = "processOne E F cc h t d"
  from catch_up_late [of "ce_EEBTSmartHeight e" nn h] e h obtain k
    where "catch_up (ce_EEBTSmartHeight e) h nn = Some k" "sint nn < sint k" by auto
  then have "?p s e = None" for s
    using g p(2) e h t by (auto simp: processOne_def apply_epoch_def split: prod.splits)
  then have none: "serve_epochs ?p (pending F (cc_fifo cc) d) d s = None" for s unfolding p(1) by simp
  have rel: "rel_option (\<lambda>(s', db', d') (s'', d'', es'). s' = s'' \<and> d' = d'' \<and> fifo_ok F db' \<and>
      fifo_map F db' = record_changes (pending F (cc_fifo cc) d) es' (fifo_map F (cc_fifo cc)))
    (Serve F it (cc_fifo cc) d ?p s) (serve_epochs ?p (pending F (cc_fifo cc) d) d s)" for s
    by (rule Serve_abstract [OF it ok]) (rule processOne_LastHeight)
  have "Serve F it (cc_fifo cc) d ?p s = None" for s using rel [of s] unfolding none by simp
  then show ?thesis using h(3) d by (auto simp: ProcessCCRPC_def not_less split: bind_splits)
qed

end

subsection \<open>Decoding the answer of a node\<close>

definition hex_digit :: "u8 \<Rightarrow> char" where
  "hex_digit b = ''0123456789abcdef'' ! unat b"

definition hex_EncodeToString :: "bytes \<Rightarrow> string" where
  "hex_EncodeToString bs = concat (map (\<lambda>b. [hex_digit (b div 16), hex_digit (b mod 16)]) bs)"

lemma fromHexChar_digit:
  assumes "b < 16"
  shows "fromHexChar (hex_digit b) = Some b"
proof -
  define s where "s = ''0123456789abcdef''"
  have "map fromHexChar s = map Some [0, 1, 2, 3, 4, 5, 6, 7, 8, 9, 10, 11, 12, 13, 14, 15]"
    by (simp add: fromHexChar_def s_def)
  also have "\<dots> = map (\<lambda>n. Some (of_nat n)) [0..<16]" by code_simp
  finally have all: "map fromHexChar s = map (\<lambda>n. Some (of_nat n)) [0..<16]" .
  have "length s = 16" by (simp add: s_def)
  then have "fromHexChar (s ! n) = Some (of_nat n)" if "n < 16" for n
    using arg_cong [OF all, of "\<lambda>x. x ! n"] that by simp
  moreover have "unat b < 16" using assms by (simp add: word_less_nat_alt)
  ultimately show ?thesis by (simp add: hex_digit_def flip: s_def)
qed

lemma hex_roundtrip: "hex_DecodeString (hex_EncodeToString bs) = Some bs"
proof (induction bs)
  case (Cons b bs)
  have "b div 16 < 16" using unat_lt [of b] by (auto simp: word_less_nat_alt unat_div intro: less_mult_imp_div_less)
  moreover have "b mod 16 < 16" by (simp add: word_mod_less_divisor)
  ultimately show ?case using Cons by (simp add: hex_EncodeToString_def fromHexChar_digit div_mult_mod_eq)
qed (simp add: hex_EncodeToString_def)

definition node_response :: "'d CCrpcTransferInfo \<Rightarrow> 'd CCrpcResponse" where
  "node_response ti = \<lparr>rs_Height = ti_Height ti, rs_TxID = hex_EncodeToString (be_bytes 32 (ti_TxID ti)),
     rs_Hexpubkey = hex_EncodeToString (be_bytes 33 (ti_SenderPubkey ti)), rs_Amount = ti_Amount ti\<rparr>"

definition as_fetched :: "i64 \<Rightarrow> i64 \<Rightarrow> 'd CCrpcTransferInfo \<Rightarrow> 'd CCrpcTransferInfo" where
  "as_fetched lst eebt ti = ti\<lparr>ti_EpochEndHeight := lst, ti_EpochEndBlockTime := eebt, ti_ApplicationHeight := 0, ti_Receiver := 0\<rparr>"

lemma be_val_be_bytes_264: "be_val (be_bytes 33 w) = (w :: 264 word)"
  by (rule be_val_be_bytes) simp

lemma decode_node_response:
  "decode_transfer e (node_response ti)
    = Some (e\<lparr>ce_TransferInfos := ce_TransferInfos e @ [as_fetched (ce_LastHeight e) (ce_EpochEndBlockTime e) ti]\<rparr>)"
  by (simp add: decode_transfer_def node_response_def hex_roundtrip copy_to_def be_val_be_bytes_264 as_fetched_def)

lemma decode_node_responses:
  "foldM decode_transfer e (map node_response tis)
    = Some (e\<lparr>ce_TransferInfos := ce_TransferInfos e @ map (as_fetched (ce_LastHeight e) (ce_EpochEndBlockTime e)) tis\<rparr>)"
  by (induction tis arbitrary: e) (simp_all add: decode_node_response)

subsection \<open>An environment for the examples\<close>

text \<open>Amounts in whole coins, block times of three seconds per block, and responses that need no decoding.\<close>

definition list_ccrpc :: "(mem_ctx, (bytes \<times> u256 CCrpcEpoch) list, u256, u256 CCrpcEpoch, u256 CCrpcResponses) ccrpc_ext" where
  "list_ccrpc = \<lparr>
     db_Set = (\<lambda>db k v. (k, v) # db),
     db_Iterator = (\<lambda>db s. Some (filter (\<lambda>kv. case s of None \<Rightarrow> True | Some b \<Rightarrow> b \<le> fst kv) (sort_key fst (AList.clearjunk db)))),
     db_ReverseIterator = (\<lambda>db. Some (rev (sort_key fst (AList.clearjunk db)))),
     JsonMarshalEpoch = Some,
     JsonUnmarshalEpoch = Some,
     PubkeyToAddress = (\<lambda>pk. Some (ucast (drop_bit 256 pk))),
     BlockTime = (\<lambda>c h. Some (3 * h)),
     Shift = (\<lambda>d k. d * 10 ^ nat k),
     FromDecimal = Some,
     JsonUnmarshalError = (\<lambda>r. (False, None)),
     JsonUnmarshalResponses = (\<lambda>r e. Some r) \<rparr>"

lemma list_ccrpc_db: "is_list_db list_ccrpc"
  by (simp add: is_list_db_def list_ccrpc_def)

interpretation lc: ccrpc_env mem_ext list_ccrpc
  by (rule ccrpc_env.intro [OF mem_chain_ctx list_db_ordered [OF list_ccrpc_db]])

interpretation lch: ccrpc_history mem_ext list_ccrpc
  by unfold_locales (simp add: list_ccrpc_def)

definition sample_transfer :: "u256 CCrpcTransferInfo" where
  "sample_transfer = \<lparr>ti_Height = 4, ti_TxID = 1, ti_SenderPubkey = 7 * 2 ^ 256, ti_Amount = 5,
     ti_EpochEndHeight = 6, ti_EpochEndBlockTime = 18, ti_ApplicationHeight = 0, ti_Receiver = 0\<rparr>"

definition fetched_epoch :: "u256 CCrpcEpoch" where
  "fetched_epoch = \<lparr>ce_FirstHeight = 1, ce_LastHeight = 6, ce_EpochEndBlockTime = 18, ce_EEBTSmartHeight = 0,
     ce_TransferInfos = [sample_transfer]\<rparr>"

definition sample_cc :: "((bytes \<times> u256 CCrpcEpoch) list, u256) CCrpcImp" where
  "sample_cc = \<lparr>cc_Epochs = [[1, 6, 4]], cc_Infos = [], cc_SearchTo = 1, cc_running = False, cc_fifo = []\<rparr>"

definition sample_send :: "i64 \<Rightarrow> i64 \<Rightarrow> i64 \<Rightarrow> u256 CCrpcResponses option" where
  "sample_send first lst m = Some \<lparr>rs_EpochEndBlockTime = 18, rs_CC = [node_response sample_transfer], rs_Error = None\<rparr>"

lemma sample_fetch: "FetchCrosschain list_ccrpc sample_send 1 6 0 = Some fetched_epoch"
  using decode_node_responses [of "\<lparr>ce_FirstHeight = 1, ce_LastHeight = 6, ce_EpochEndBlockTime = 18, ce_EEBTSmartHeight = 0, ce_TransferInfos = []\<rparr>" "[sample_transfer]"]
  by (simp add: FetchCrosschain_def getCrosschain_def sample_send_def DO_GetCrosschain_def list_ccrpc_def fetched_epoch_def as_fetched_def sample_transfer_def)

lemma sample_round:
  "fetcher_round list_ccrpc (cc_Epochs sample_cc) (FetchCrosschain list_ccrpc sample_send) [12] (0, 0, cc_fifo sample_cc)
    = Some (12, 6, [(makeKey 6, fetched_epoch)])"
  using sample_fetch
  by (simp add: fetcher_round_def sample_cc_def getEpoch_def await_height.simps Come_def fifo_defs)
    (simp add: list_ccrpc_def fetched_epoch_def)

lemma sample_block_map:
  "blockAfterTime (BlockTime list_ccrpc mem_empty) 9 8 18 = Some (6, 0)"
proof -
  have t: "\<exists>t. BlockTime list_ccrpc mem_empty (of_nat h) = Some t \<and> sint t = 3 * int h" if "0 < h" "h \<le> 9" for h
  proof -
    have "sint (of_nat (3 * h) :: i64) = int (3 * h)" using that by (intro sint_of_nat_small) simp
    then show ?thesis by (simp add: list_ccrpc_def)
  qed
  have "find ((\<le>) 6) [Suc (Suc 0)..<10] = Some 6" by (subst find_upt) auto
  then show ?thesis
    using blockAfterTime_reference [of 9 8 "BlockTime list_ccrpc mem_empty" "\<lambda>h. 3 * int h" 18] t
    by (simp add: first_block_after_def)
qed

definition fetched_cc :: "((bytes \<times> u256 CCrpcEpoch) list, u256) CCrpcImp" where
  "fetched_cc = sample_cc\<lparr>cc_fifo := [(makeKey 6, fetched_epoch)]\<rparr>"

lemma sample_getEpoch: "getEpoch (cc_Epochs fetched_cc) 1 = Some (6, 4, 0)"
  by (simp add: getEpoch_def fetched_cc_def sample_cc_def)

lemma fetched_list: "fifo_list list_ccrpc (cc_fifo fetched_cc) = [fetched_epoch]" "fifo_ok list_ccrpc (cc_fifo fetched_cc)"
  by (simp_all add: fifo_list_def fifo_ok_def list_db_entries [OF list_ccrpc_db] entry_ok_def fetched_cc_def)
    (simp_all add: unmarshal_def list_ccrpc_def fetched_epoch_def)

definition mapped_epoch :: "u256 CCrpcEpoch" where
  "mapped_epoch = fetched_epoch\<lparr>ce_EEBTSmartHeight := 6,
     ce_TransferInfos := [sample_transfer\<lparr>ti_ApplicationHeight := 10, ti_Receiver := 7\<rparr>]\<rparr>"

lemma sample_map:
  "map_epoch list_ccrpc (cc_SearchTo fetched_cc) 4 10 (mem_empty, 1, []) fetched_epoch
    = Some (Inr ((mem_empty, 6, [5 * 10 ^ 18]), mapped_epoch))"
proof -
  have "back_start (BlockTime list_ccrpc mem_empty) 1 9 = 9"
    by (simp add: back_start.simps list_ccrpc_def)
  moreover have "cc_SearchTo fetched_cc = 1" by (simp add: fetched_cc_def sample_cc_def)
  moreover have "ce_EpochEndBlockTime fetched_epoch = 18" by (simp add: fetched_epoch_def)
  moreover have "foldM (map_transfer list_ccrpc (6 + 4) 10) ([], []) (ce_TransferInfos fetched_epoch)
      = Some (ce_TransferInfos mapped_epoch, [5 * 10 ^ 18])"
    by (simp add: mapped_epoch_def fetched_epoch_def map_transfer_def ZeniqPubkeyToReceiverAddress_def parse_zeniq_amount_def
        list_ccrpc_def sample_transfer_def Let_def)
  ultimately show ?thesis
    using sample_block_map by (simp add: map_epoch_def Let_def mapped_epoch_def fetched_epoch_def)
qed

lemma sample_processOne:
  "\<exists>c. processOne mem_ext list_ccrpc fetched_cc 10 40 0 (mem_empty, 1, []) fetched_epoch
    = Some ((c, 6, [5 * 10 ^ 18]), mapped_epoch, 6)"
proof -
  have "\<exists>c. apply_epoch mem_ext list_ccrpc 4 10 0 (mem_empty, 6, [5 * 10 ^ 18]) mapped_epoch
      = Some ((c, 6, [5 * 10 ^ 18]), mapped_epoch, 6)"
    by (simp add: apply_epoch_def catch_up.simps mapped_epoch_def fetched_epoch_def AccountCcrpc_def parse_zeniq_amount_def
        list_ccrpc_def Let_def)
  then show ?thesis
    using sample_map sample_getEpoch by (auto simp: processOne_def fetched_epoch_def)
qed

lemma sample_load0: "loadDoneMain mem_ext mem_empty = Some 0"
  by (simp add: loadDoneMain_def mem_ext_def mem_empty_def)

lemma sample_inv: "ccrpc_inv mem_ext list_ccrpc fetched_cc mem_empty 0"
  using fetched_list sample_load0 by (simp add: ccrpc_inv_def receivers_ok_def fetched_epoch_def)

lemma sample_restart:
  "fetcher_start list_ccrpc \<lparr>cc_Epochs = [[1, 6, 4]], cc_Infos = [], cc_SearchTo = 1, cc_running = False,
     cc_fifo = [(makeKey 6, fetched_epoch)]\<rparr> = Some 6"
proof -
  have "LastFetched list_ccrpc [(makeKey 6, fetched_epoch)] = Some 6"
    using fetched_list sample_inv lc.LastFetched_abstract [of "cc_fifo fetched_cc"]
    by (simp add: ccrpc_inv_def fetched_cc_def fetched_epoch_def)
  then show ?thesis by (simp add: fetcher_start_def)
qed

lemma sample_between: "epochs_between list_ccrpc (cc_fifo fetched_cc) 0 6 = [fetched_epoch]"
  by (simp add: epochs_between_def fetched_list) (simp add: fetched_epoch_def)

lemma sample_credits:
  "credits list_ccrpc (epochs_between list_ccrpc (cc_fifo fetched_cc) 0 6) 7 = 5 * 10 ^ 18"
  "credits list_ccrpc (epochs_between list_ccrpc (cc_fifo fetched_cc) 0 6) 8 = 0"
  "bal mem_ext mem_empty a = 0"
proof -
  note b = sample_between
  show "credits list_ccrpc (epochs_between list_ccrpc (cc_fifo fetched_cc) 0 6) 7 = 5 * 10 ^ 18"
    "credits list_ccrpc (epochs_between list_ccrpc (cc_fifo fetched_cc) 0 6) 8 = 0"
    unfolding b
    by (simp_all add: credits_def fetched_epoch_def credit_def sample_transfer_def parse_zeniq_amount_def list_ccrpc_def)
  show "bal mem_ext mem_empty a = 0" by (simp add: bal_def mem_ext_def mem_empty_def)
qed

lemma sample_process:
  "\<exists>cc c. ProcessCCRPC mem_ext list_ccrpc rev fetched_cc mem_empty 10 40 = Some (True, cc, c, [5 * 10 ^ 18]) \<and>
     loadDoneMain mem_ext c = Some 6"
proof -
  have cfg: "sint (cc_SearchTo fetched_cc) = 1" "cc_SearchTo fetched_cc = 1" "\<not> cc_running fetched_cc"
    by (simp_all add: fetched_cc_def sample_cc_def)
  have start: "fetcher_start list_ccrpc fetched_cc = Some 6"
    using lc.LastFetched_abstract [OF fetched_list(2)] fetched_list(1)
    by (simp add: fetcher_start_def fetched_epoch_def) (simp add: fetched_cc_def sample_cc_def)
  have entries: "db_Iterator list_ccrpc (cc_fifo fetched_cc) (Some (makeKey 1)) = Some [(makeKey 6, fetched_epoch)]"
    by (simp add: lc.iterator_from list_db_entries [OF list_ccrpc_db]) (simp add: fetched_cc_def)
  have dec: "unmarshal list_ccrpc e = Some e" "makeValue list_ccrpc e = Some e" for e by (simp_all add: fifo_defs list_ccrpc_def)
  have smart: "ce_EEBTSmartHeight fetched_epoch = 0" "ce_EEBTSmartHeight mapped_epoch = 6" by (simp_all add: fetched_epoch_def mapped_epoch_def)
  from sample_processOne obtain c where p: "processOne mem_ext list_ccrpc fetched_cc 10 40 0 (mem_empty, 1, []) fetched_epoch
      = Some ((c, 6, [5 * 10 ^ 18]), mapped_epoch, 6)" by blast
  have "\<exists>db. Serve list_ccrpc rev (cc_fifo fetched_cc) 0 (processOne mem_ext list_ccrpc fetched_cc 10 40 0) (mem_empty, 1, [])
      = Some ((c, 6, [5 * 10 ^ 18]), db, 6)"
    using p by (simp add: Serve_def entries dec smart Let_def)
  then show ?thesis
    using cfg start sample_load0 lc.loadDoneMain_save by (auto simp: ProcessCCRPC_def Let_def)
qed

subsection \<open>Properties\<close>

text \<open>
  C5: Transfers from the main chain are credited exactly once. In every run of the node
  that starts with an empty queue, with any interleaving of blocks, fetches, restarts and
  crashes in a block and any replies of the main-chain node, the epochs of the queue cover the main-chain heights up to
  the last one fetched without a gap and without overlap, and every balance is the balance at
  the start plus the transfers of the epochs up to the last one done, each counted once and
  paid to the address of the key that sent it.
\<close>

theorem transfers_exactly_once:
  assumes "ccrpc_env E F" and "is_iter it" and "lengths_ok (cc_Epochs cc0)"
    and "fifo_ok F (cc_fifo cc0)" and "fifo_list F (cc_fifo cc0) = []" and "loadDoneMain E c0 = Some 0"
    and "fetcher_start F cc0 = Some df0" and "0 \<le> sint df0"
    and "(ccrpc_step E F it)\<^sup>*\<^sup>* (cc0, c0, mh0, df0) (cc, c, mh, df)"
  shows "\<exists>d. loadDoneMain E c = Some d \<and> sint d \<le> sint df \<and> contiguous df0 (fifo_list F (cc_fifo cc)) df \<and>
    (\<forall>a. bal E c a = bal E c0 a + credits F (epochs_between F (cc_fifo cc) 0 d) a)"
proof -
  have "starts_at (cc_Epochs cc0) df0"
    using assms(5,7) ordered_db.LastFetched_abstract [OF ccrpc_env.axioms(2) [OF assms(1)] assms(4)]
    by (auto simp: fetcher_start_def starts_at_def split: list.splits)
  then have "run_inv E F c0 df0 (cc0, c0, mh0, df0)"
    using assms(3-8) by (auto simp: run_inv_def ccrpc_inv_def epochs_between_def)
  with assms(9) have "run_inv E F c0 df0 (cc, c, mh, df)"
  proof (induction rule: rtranclp_induct)
    case (step s s')
    then show ?case
      using ccrpc_env.block_keeps [OF assms(1,2)] ccrpc_env.fetch_keeps [OF assms(1)]
        ccrpc_env.run_restart [OF assms(1)] ccrpc_env.crash_keeps [OF assms(1,2)]
      by (auto elim!: ccrpc_step.cases)
  qed
  then show ?thesis by (auto simp: run_inv_def ccrpc_inv_def)
qed

theorem transfers_exactly_once_witness:
  "\<exists>cc c. (ccrpc_step mem_ext list_ccrpc rev)\<^sup>*\<^sup>* (sample_cc, mem_empty, 0, 0) (cc, c, 0, 6) \<and>
     bal mem_ext c 7 = 5 * 10 ^ 18"
proof -
  from sample_process obtain cc c where p: "ProcessCCRPC mem_ext list_ccrpc rev fetched_cc mem_empty 10 40 = Some (True, cc, c, [5 * 10 ^ 18])"
      "loadDoneMain mem_ext c = Some 6" by blast
  have s1: "ccrpc_step mem_ext list_ccrpc rev (sample_cc, mem_empty, 0, 0) (fetched_cc, mem_empty, 12, 6)"
    using step_fetch [OF sample_round] by (simp add: fetched_cc_def)
  have s2: "ccrpc_step mem_ext list_ccrpc rev (fetched_cc, mem_empty, 12, 6) (fetched_cc, mem_empty, 0, 6)"
    by (rule step_restart [where fork = 1]) (simp_all add: Newccrpc_def fetched_cc_def sample_cc_def sample_restart)
  have run: "(ccrpc_step mem_ext list_ccrpc rev)\<^sup>*\<^sup>* (sample_cc, mem_empty, 0, 0) (cc, c, 0, 6)"
    using s1 s2 step_block [OF p(1)] by (meson rtranclp.intros)
  have e0: "fifo_ok list_ccrpc (cc_fifo sample_cc)" "fifo_list list_ccrpc (cc_fifo sample_cc) = []"
    by (simp_all add: fifo_ok_def fifo_list_def list_db_entries [OF list_ccrpc_db] sample_cc_def)
  have l0: "lengths_ok (cc_Epochs sample_cc)" by (simp add: lengths_ok_def sample_cc_def)
  have f0: "fetcher_start list_ccrpc sample_cc = Some 0"
    using lc.LastFetched_abstract [OF e0(1)] e0(2) by (simp add: fetcher_start_def sample_cc_def)
  from transfers_exactly_once [OF lc.ccrpc_env_axioms is_iter_rev l0 e0 sample_load0 f0 _ run] p(2)
  have B: "bal mem_ext c 7 = bal mem_ext mem_empty 7 + credits list_ccrpc (epochs_between list_ccrpc (cc_fifo cc) 0 6) 7" by auto
  from lc.ProcessCCRPC_effect [OF sample_inv is_iter_rev p(1)]
  have "map ce_core (fifo_list list_ccrpc (cc_fifo cc)) = map ce_core (fifo_list list_ccrpc (cc_fifo fetched_cc))" by blast
  from credits_core [OF epochs_between_core [OF this], of list_ccrpc 0 6 7] B run sample_credits
  show ?thesis by auto
qed

text \<open>
  C17: A block credits exactly the pending epochs up to the first one that is not due: none
  before the block the search has reached, and otherwise the longest prefix of the pending
  epochs, in the order of their heights, whose end is past and whose block is the delay of
  the epoch ago. A due epoch behind one that is not due waits. Where \<open>ProcessCCRPC\<close> returns,
  the balances grow by exactly the transfers of these epochs, the stored height of the last
  epoch done moves to the last of them, the invariant of the queue is kept, no epoch of the
  queue is lost or changed in more than its mapping, and the result says whether an epoch was
  credited.
\<close>

theorem ProcessCCRPC_credits:
  assumes "ccrpc_history E F" and "ccrpc_inv E F cc c d" and "is_iter it"
    and "ProcessCCRPC E F it cc c h t = Some (b, cc', c', ad)"
  shows "\<exists>d'. ccrpc_inv E F cc' c' d' \<and> sint d \<le> sint d' \<and> d' \<in> insert d (ce_LastHeight ` set (fifo_list F (cc_fifo cc))) \<and>
    (b \<longleftrightarrow> d' \<noteq> d) \<and> cc_Epochs cc' = cc_Epochs cc \<and>
    map ce_core (fifo_list F (cc_fifo cc')) = map ce_core (fifo_list F (cc_fifo cc)) \<and>
    epochs_between F (cc_fifo cc) d d' = (if sint (cc_SearchTo cc) > sint h then [] else takeWhile (due_now F cc c h t) (pending F (cc_fifo cc) d)) \<and>
    (\<forall>a. bal E c' a = bal E c a + credits F (epochs_between F (cc_fifo cc) d d') a) \<and>
    (\<forall>e \<in> set (epochs_between F (cc_fifo cc') d d'). due (cc_Epochs cc) h e)"
proof -
  have env: "ccrpc_env E F" using assms(1) by (rule ccrpc_history.axioms(1))
  from ccrpc_env.ProcessCCRPC_effect [OF env assms(2-4)] obtain d' where D: "ccrpc_inv E F cc' c' d'" "sint d \<le> sint d'"
    "d' \<in> insert d (ce_LastHeight ` set (fifo_list F (cc_fifo cc)))" "b \<longleftrightarrow> d' \<noteq> d" "cc_Epochs cc' = cc_Epochs cc"
    "map ce_core (fifo_list F (cc_fifo cc')) = map ce_core (fifo_list F (cc_fifo cc))"
    "\<forall>a. bal E c' a = bal E c a + credits F (epochs_between F (cc_fifo cc) d d') a"
    "\<forall>e \<in> set (epochs_between F (cc_fifo cc') d d'). due (cc_Epochs cc) h e" by blast
  have "loadDoneMain E c' = Some d'" using D(1) by (simp add: ccrpc_inv_def)
  from ccrpc_history.ProcessCCRPC_done [OF assms this] D show ?thesis by blast
qed

theorem ProcessCCRPC_credits_witness:
  "\<exists>cc c. ProcessCCRPC mem_ext list_ccrpc rev fetched_cc mem_empty 10 40 = Some (True, cc, c, [5 * 10 ^ 18]) \<and>
     bal mem_ext c 7 = 5 * 10 ^ 18 \<and> bal mem_ext c 8 = 0 \<and>
     length (takeWhile (due_now list_ccrpc fetched_cc mem_empty 10 40) (pending list_ccrpc (cc_fifo fetched_cc) 0)) = 1"
proof -
  from sample_process obtain cc c where p: "ProcessCCRPC mem_ext list_ccrpc rev fetched_cc mem_empty 10 40 = Some (True, cc, c, [5 * 10 ^ 18])"
      "loadDoneMain mem_ext c = Some 6" by blast
  have searched: "cc_SearchTo fetched_cc = 1" by (simp add: fetched_cc_def sample_cc_def)
  from ProcessCCRPC_credits [OF lch.ccrpc_history_axioms sample_inv is_iter_rev p(1)] p(2)
  have D: "bal mem_ext c a = bal mem_ext mem_empty a + credits list_ccrpc (epochs_between list_ccrpc (cc_fifo fetched_cc) 0 6) a"
      "takeWhile (due_now list_ccrpc fetched_cc mem_empty 10 40) (pending list_ccrpc (cc_fifo fetched_cc) 0)
        = epochs_between list_ccrpc (cc_fifo fetched_cc) 0 6" for a
    by (auto simp: ccrpc_inv_def searched)
  have "length (epochs_between list_ccrpc (cc_fifo fetched_cc) 0 6) = 1" by (simp add: sample_between)
  with p(1) sample_credits D show ?thesis by (intro exI [of _ cc] exI [of _ c]) simp
qed

text \<open>
  An epoch is never skipped: when the next pending epoch is mapped to a block and the
  block in which it would have been due is past, the node stops instead of going on without
  it.
\<close>

theorem ProcessCCRPC_missed:
  assumes "ccrpc_env E F" and "is_iter it" and "fifo_ok F (cc_fifo cc)" and "loadDoneMain E c = Some d"
    and "pending F (cc_fifo cc) d = e # es" and "sint d < sint (ce_LastHeight e)"
    and "getEpoch (cc_Epochs cc) (ce_FirstHeight e) = Some (n, nn, m)"
    and "0 < sint (ce_EEBTSmartHeight e)" and "sint (ce_EEBTSmartHeight e) < 2 ^ 61" and "0 \<le> sint nn" and "sint nn < 2 ^ 61"
    and "sint (ce_EEBTSmartHeight e) + sint nn < sint h" and "sint h < 2 ^ 61" and "sint (cc_SearchTo cc) \<le> sint h"
    and "sint (ce_EpochEndBlockTime e + 10) < sint t"
  shows "ProcessCCRPC E F it cc c h t = None"
  using assms(2-15) by (rule ccrpc_env.missed_panics [OF assms(1)])

theorem ProcessCCRPC_missed_witness:
  "ProcessCCRPC mem_ext list_ccrpc id (sample_cc\<lparr>cc_fifo := [(makeKey 6, mapped_epoch)]\<rparr>) mem_empty 11 43 = None"
proof -
  let ?cc = "sample_cc\<lparr>cc_fifo := [(makeKey 6, mapped_epoch)]\<rparr>"
  have m: "ce_LastHeight mapped_epoch = 6" "ce_FirstHeight mapped_epoch = 1" "ce_EEBTSmartHeight mapped_epoch = 6"
      "ce_EpochEndBlockTime mapped_epoch = 18" by (simp_all add: mapped_epoch_def fetched_epoch_def)
  have q: "fifo_list list_ccrpc (cc_fifo ?cc) = [mapped_epoch]" "fifo_ok list_ccrpc (cc_fifo ?cc)"
    by (simp_all add: fifo_list_def fifo_ok_def list_db_entries [OF list_ccrpc_db] entry_ok_def)
      (simp_all add: unmarshal_def list_ccrpc_def m)
  have pend: "pending list_ccrpc (cc_fifo ?cc) 0 = [mapped_epoch]" by (simp only: pending_def q) (simp add: m)
  have g: "getEpoch (cc_Epochs ?cc) (ce_FirstHeight mapped_epoch) = Some (6, 4, 0)" by (simp add: getEpoch_def sample_cc_def m)
  show ?thesis
    by (rule ProcessCCRPC_missed [OF lc.ccrpc_env_axioms is_iter_id q(2) sample_load0 pend _ g]) (simp_all add: m sample_cc_def)
qed

text \<open>
  Decoding the answer of a node gives back exactly the transfers it encoded, in order,
  with their keys, transaction ids and amounts, stamped with the end of the epoch. The error
  field of the answer plays no role once the answer decodes: an answer that reports an error
  and holds no transfers is taken as an empty epoch.
\<close>

theorem DO_GetCrosschain_roundtrip:
  assumes "JsonUnmarshalError F r = (False, e0)"
    and "JsonUnmarshalResponses F r e0 = Some \<lparr>rs_EpochEndBlockTime = eebt, rs_CC = map node_response tis, rs_Error = err\<rparr>"
  shows "DO_GetCrosschain F first lst r = Some \<lparr>ce_FirstHeight = first, ce_LastHeight = lst, ce_EpochEndBlockTime = eebt,
    ce_EEBTSmartHeight = 0, ce_TransferInfos = map (as_fetched lst eebt) tis\<rparr>"
  using assms by (simp add: DO_GetCrosschain_def decode_node_responses)

theorem DO_GetCrosschain_roundtrip_witness:
  "DO_GetCrosschain list_ccrpc 1 6 \<lparr>rs_EpochEndBlockTime = 0, rs_CC = [], rs_Error = Some \<lparr>je_Code = -8, je_Message = []\<rparr>\<rparr>
     = Some \<lparr>ce_FirstHeight = 1, ce_LastHeight = 6, ce_EpochEndBlockTime = 0, ce_EEBTSmartHeight = 0, ce_TransferInfos = []\<rparr>"
  using DO_GetCrosschain_roundtrip [of list_ccrpc _ None 0 "[]" "Some \<lparr>je_Code = -8, je_Message = []\<rparr>" 1 6]
  by (simp add: list_ccrpc_def)

end
