(* ===== verification/App_Config.thy ===== *)
theory App_Config
  imports CCRPC_Transfers
begin

text \<open>
  The tables of the configuration and the checks the application makes at start-up
  (\<open>src/app/app.go\<close>): the EVM revision in force at a height, and the lengths and delays of
  the epochs of main-chain transfers. A failed check panics.
\<close>

fun revision_loop :: "i64 \<Rightarrow> (i64 \<times> i64) list \<Rightarrow> u32 \<Rightarrow> u32" where
  "revision_loop height [] r = r"
| "revision_loop height (h_r # es) r =
     (if sint height < sint (fst h_r) then r else revision_loop height es (ucast (snd h_r)))"

definition fromHeightRevision :: "(i64 \<times> i64) list \<Rightarrow> i64 \<Rightarrow> u32" where
  "fromHeightRevision HeightRevision height = revision_loop height HeightRevision 7"

fun valid_revisions :: "bool \<Rightarrow> i64 \<Rightarrow> (i64 \<times> i64) list \<Rightarrow> unit option" where
  "valid_revisions first lastee0 [] = Some ()"
| "valid_revisions first lastee0 (ee # e) =
     (if first \<and> fst ee \<noteq> 0 \<and> snd ee \<noteq> 7 then None
      else if \<not> first \<and> sint (fst ee) < 14444444 then None
      else if sint (snd ee) < 7 then None
      else if sint (fst ee) < sint lastee0 then None
      else valid_revisions False (fst ee) e)"

definition validHeightRevision :: "(i64 \<times> i64) list \<Rightarrow> unit option" where
  "validHeightRevision e = (if length e \<le> 1 then None else valid_revisions True 0 e)"

fun valid_epochs :: "i64 \<Rightarrow> i64 list list \<Rightarrow> unit option" where
  "valid_epochs lastee0 [] = Some ()"
| "valid_epochs lastee0 (ee # e) =
     (if length ee < 3 then None
      else if sint (ee ! 0) < sint lastee0 then None
      else if ee ! 0 = 0 \<or> ee ! 1 = 0 then None
      else if sint (ee ! 1) < 6 \<or> sint (ee ! 1) > 2500 then None
      else if sint (ee ! 2) < sint (ee ! 1 * 1000) \<or> sint (ee ! 2) smod 2 \<noteq> 0 then None
      else valid_epochs (ee ! 0) e)"

definition validCCRPCEpochs :: "i64 list list \<Rightarrow> unit option" where
  "validCCRPCEpochs e = (if length e = 0 then None else valid_epochs 0 e)"

subsection \<open>Valid tables\<close>

text \<open>An entry of a valid table: at least three numbers, a length of 6 to 2500 blocks and a delay of at least a thousand times that.\<close>

definition entry_bounds :: "i64 list \<Rightarrow> bool" where
  "entry_bounds v \<longleftrightarrow> 3 \<le> length v \<and> 6 \<le> sint (v ! 1) \<and> sint (v ! 1) \<le> 2500 \<and> 1000 * sint (v ! 1) \<le> sint (v ! 2)"

lemma delay_product: "6 \<le> sint a \<Longrightarrow> sint a \<le> 2500 \<Longrightarrow> sint (a * 1000 :: i64) = 1000 * sint a"
proof -
  assume "6 \<le> sint a" "sint a \<le> 2500"
  moreover have "sint (1000 :: i64) = 1000" by simp
  ultimately show ?thesis by (subst sint_mult_no_wrap) auto
qed

lemma valid_epochs_entries:
  assumes "valid_epochs l e = Some ()"
  shows "list_all entry_bounds e \<and> sorted (map (\<lambda>v. sint (v ! 0)) e) \<and> list_all (\<lambda>v. sint l \<le> sint (v ! 0)) e"
  using assms
proof (induction l e rule: valid_epochs.induct)
  case (2 l v e)
  then have v: "entry_bounds v" "sint l \<le> sint (v ! 0)"
    using delay_product [of "v ! 1"] by (auto simp: entry_bounds_def split: if_splits)
  from 2 have "list_all entry_bounds e \<and> sorted (map (\<lambda>v. sint (v ! 0)) e) \<and> list_all (\<lambda>u. sint (v ! 0) \<le> sint (u ! 0)) e"
    by (auto split: if_splits)
  with v show ?case by (auto simp: list_all_iff)
qed simp

text \<open>\<open>getEpoch\<close> takes the last entry that does not start after the height.\<close>

lemma getEpoch_loop_last:
  assumes "list_all entry_bounds e" and "sorted (map (\<lambda>v. sint (v ! 0)) e)"
  shows "getEpoch_loop e h acc = Some (if filter (\<lambda>v. sint (v ! 0) \<le> sint h) e = [] then acc
    else let v = last (filter (\<lambda>v. sint (v ! 0) \<le> sint h) e) in (v ! 1, v ! 2, if length v > 3 then v ! 3 else 0))"
  using assms
proof (induction e h acc rule: getEpoch_loop.induct)
  case (2 v vs h acc)
  show ?case
  proof (cases "sint h < sint (v ! 0)")
    case True
    then have "filter (\<lambda>v. sint (v ! 0) \<le> sint h) (v # vs) = []" using "2.prems"(2) by (auto simp: filter_empty_conv)
    then show ?thesis using True "2.prems"(1) by (auto simp: entry_bounds_def)
  next
    case False
    then show ?thesis using 2 by (auto simp: entry_bounds_def Let_def)
  qed
qed simp

subsection \<open>Properties\<close>

text \<open>
  A table of epochs that passes the start-up check never lets the node panic for a height
  it covers: \<open>getEpoch\<close> returns an entry exactly for the heights from the first entry on;
  it is the last entry that does not start after the height, its length is 6 to 2500
  blocks, its delay is at least a thousand times the length, and the table has the lengths the
  fetcher relies on.
\<close>

theorem validCCRPCEpochs_covers:
  assumes "validCCRPCEpochs e = Some ()"
  shows "lengths_ok e \<and> (getEpoch e h = None \<longleftrightarrow> sint h < sint (hd e ! 0)) \<and>
    (\<forall>n nn m. getEpoch e h = Some (n, nn, m) \<longrightarrow> 6 \<le> sint n \<and> sint n \<le> 2500 \<and> 1000 * sint n \<le> sint nn \<and>
       (let v = last (filter (\<lambda>v. sint (v ! 0) \<le> sint h) e) in n = v ! 1 \<and> nn = v ! 2))"
proof -
  let ?q = "filter (\<lambda>v. sint (v ! 0) \<le> sint h) e"
  from assms have ne: "e \<noteq> []" and v: "valid_epochs 0 e = Some ()" by (auto simp: validCCRPCEpochs_def split: if_splits)
  from valid_epochs_entries [OF v] have b: "list_all entry_bounds e" "sorted (map (\<lambda>v. sint (v ! 0)) e)" by auto
  have "?q = [] \<longleftrightarrow> sint h < sint (hd e ! 0)"
    using ne b(2) by (cases e) (auto simp: filter_empty_conv not_le)
  moreover have "entry_bounds (last ?q)" if "?q \<noteq> []"
    using last_in_set [OF that] b(1) by (auto simp: list_all_iff)
  moreover have "lengths_ok e" using b(1) by (auto simp: lengths_ok_def list_all_iff entry_bounds_def)
  ultimately show ?thesis
    by (auto simp: getEpoch_def getEpoch_loop_last [OF b] Let_def entry_bounds_def)
qed

theorem validCCRPCEpochs_covers_witness:
  "getEpoch [[184526, 8, 8000], [200000, 144, 144000, 5]] 199999 = Some (8, 8000, 0)"
proof -
  let ?e = "[[184526, 8, 8000], [200000, 144, 144000, 5]] :: i64 list list"
  have "validCCRPCEpochs ?e = Some ()" by (simp add: validCCRPCEpochs_def signed_modulo_int_def)
  from validCCRPCEpochs_covers [OF this, of 199999] show ?thesis
    by (cases "getEpoch ?e 199999") (auto simp: getEpoch_def)
qed

text \<open>
  Below the first block at which a revision may change, a table that passes the start-up
  check yields the revision of its first entry, and 7 before that entry. The check does not
  make the first entry be \<open>[0, 7]\<close>, as its message says: a table that starts with another
  revision at height 0 passes.
\<close>

theorem validHeightRevision_start:
  assumes "validHeightRevision e = Some ()" and "sint h < 14444444"
  shows "fromHeightRevision e h = (if sint h < sint (fst (hd e)) then 7 else ucast (snd (hd e)))"
proof -
  from assms(1) obtain a b es where e: "e = a # b # es" "valid_revisions True 0 (a # b # es) = Some ()"
    by (cases e; cases "tl e") (auto simp: validHeightRevision_def split: if_splits)
  then have "\<not> sint (fst b) < 14444444" by (auto split: if_splits)
  with e assms(2) show ?thesis by (auto simp: fromHeightRevision_def)
qed

theorem validHeightRevision_start_witness:
  "validHeightRevision [(0, 9), (14444444, 11)] = Some () \<and> fromHeightRevision [(0, 9), (14444444, 11)] 100 = 9"
proof -
  have "validHeightRevision [(0, 9), (14444444, 11)] = Some ()" by (simp add: validHeightRevision_def)
  with validHeightRevision_start [OF this, of 100] show ?thesis by simp
qed

end
