(* ===== verification/App_Block.thy ===== *)
theory App_Block
  imports App_Genesis App_CheckTx App_Config
begin

text \<open>
  What the application does with a block (\<open>src/app/app.go\<close>). \<open>BeginBlock\<close> records the
  header, the voters and the evidence, \<open>DeliverTx\<close> collects the transactions, \<open>EndBlock\<close>
  hands the validator updates of the block before to Tendermint. \<open>Commit\<close> credits the
  transfers of the main chain, slashes and rewards, switches the staking epoch, computes the
  next validator updates, saves the minimum gas price as the one of the next block, and
  executes the transactions (\<open>postCommit\<close>, which runs in a goroutine that holds the lock
  the next \<open>Commit\<close> waits for, and is therefore the last step of \<open>Commit\<close> here).

  The transaction engine and the system account (\<open>ebp\<close>) and the world state around the
  staking contract belong to the EVM module: they are the record \<open>engine\<close>. The locale
  \<open>chain_system\<close> states what the code relies on. The history database is the list of the
  blocks handed to it, with the height it may prune; the contents of the transactions in it,
  the event feeds and the waiting for disk space and for the main chain are left out.
\<close>

record Block =
  b_Number :: i64
  b_Timestamp :: i64
  b_Size :: i64
  b_Miner :: address
  b_ParentHash :: bytes32
  b_TransactionsRoot :: bytes32
  b_Hash :: bytes32
  b_StateRoot :: bytes32
  b_GasUsed :: u64

record BlockInfo =
  bi_Coinbase :: address
  bi_Number :: i64
  bi_Timestamp :: i64
  bi_ChainId :: bytes32
  bi_Hash :: bytes32
  bi_Revision :: u32

record ('c, 'f) engine =
  SystemAddress :: address
  SubSystemAccBalance :: "'c \<Rightarrow> u256 \<Rightarrow> 'c option"
  GetSystemBalance :: "'c \<Rightarrow> u256"
  StandbyQLen :: "'c \<Rightarrow> nat"
  Prepare :: "'c \<Rightarrow> Tx list \<Rightarrow> i64 \<Rightarrow> u64 \<Rightarrow> 'c \<times> 'f"
  GetEmptyFrontier :: 'f
  ExecuteTxs :: "'c \<Rightarrow> BlockInfo \<Rightarrow> 'c \<times> u64 \<times> u256 \<times> u256"
  GetCurrBlockBasicInfo :: "'c \<Rightarrow> Block option"
  SetCurrBlockBasicInfo :: "'c \<Rightarrow> Block \<Rightarrow> 'c"
  GetRootHash :: "'c \<Rightarrow> bytes"

text \<open>
  The fields of \<open>App\<close> and of its configuration the block processing uses; \<open>ab_state\<close> is
  the context of the run together with the variable the staking contract keeps.
\<close>

record ('c, 'f) app_block =
  ab_state :: "'c staking_state"
  ab_block :: Block
  ab_blockInfo :: BlockInfo
  ab_currHeight :: i64
  ab_slashValidators :: "address list"
  ab_lastVoters :: "bytes list"
  ab_lastProposer :: address
  ab_lastGasUsed :: u64
  ab_lastGasRefund :: u256
  ab_lastGasFee :: u256
  ab_lastMinGasPrice :: u64
  ab_validatorUpdate :: "Validator list"
  ab_reorderSeed :: i64
  ab_collected :: "Tx list"
  ab_txid2sigMap :: "bytes32 \<rightharpoonup> bytes"
  ab_recheckCounter :: int
  ab_frontier :: 'f
  ab_sigCache :: "(bytes32 \<times> SenderAndHeight) list"
  ab_appHash :: bytes
  ab_history :: "(Block \<times> i64 \<times> (bytes32 \<rightharpoonup> bytes)) list"
  ab_pruned :: "i64 list"
  ab_chainId :: bytes32
  cfg_CCRPCForkBlock :: i64
  cfg_HeightRevision :: "(i64 \<times> i64) list"
  cfg_RetainBlocks :: i64
  cfg_ChangeRetainEveryN :: i64
  cfg_NumKeptBlocks :: i64
  cfg_NumKeptBlocksInDB :: i64
  cfg_PruneEveryN :: i64
  cfg_ArchiveMode :: bool

definition HEIGHT_PUBLISH_AFTER_BLOCK :: i64 where
  "HEIGHT_PUBLISH_AFTER_BLOCK = 0x7FFFFFFFFFFFFFFF"

definition mainStartHeights :: "i64 list" where
  "mainStartHeights = [
    121901, 123917, 125933, 127949, 129965, 131981, 133997, 136013, 138029,
    140045, 142061, 144077, 146093, 148109, 150125, 152141, 154157, 156173,
    158189, 160205, 162221, 164237, 166253, 168269, 170285, 172301, 174317,
    176333, 178349, 180365, 182381, 184397, 186413, 188429, 190445, 192461,
    194477, 196493, 198509, 200525, 202541, 204557, 206573, 208589, 210605,
    212621, 214637, 216653]"

definition mainEndTimes :: "i64 list" where
  "mainEndTimes = [
    1655493388, 1656708178, 1657913318, 1659117037, 1660333525, 1661538992,
    1662751048, 1663963628, 1665171804, 1666387339, 1667596930, 1668808103,
    1670016286, 1671230243, 1672439080, 1673646974, 1674846192, 1676062145,
    1677264872, 1678493252, 1679693750, 1680899064, 1682104404, 1683312425,
    1684523135, 1685735117, 1686945653, 1688155407, 1689363327, 1690564098,
    1691776545, 1692988845, 1694204584, 1695410336, 1696616840, 1697824405,
    1699035453, 1700246287, 1701451583, 1702662933, 1703871725, 1705083467,
    1706290414, 1707500717, 1708713749, 1709922444, 1711128053, 1712338342]"

subsection \<open>The start of a block\<close>

record RequestBeginBlock =
  rq_Height :: i64
  rq_Time :: i64
  rq_Size :: i64
  rq_ProposerAddress :: bytes
  rq_Votes :: "(bytes \<times> bool) list"
  rq_LastBlockHash :: bytes
  rq_DataHash :: bytes
  rq_Hash :: bytes
  rq_AppHash :: bytes
  rq_ByzantineValidators :: "(bool \<times> bytes) list"

text \<open>\<open>binary.LittleEndian.Uint64\<close> of the first eight bytes.\<close>

definition le_Uint64 :: "bytes \<Rightarrow> u64" where
  "le_Uint64 bs = be_val (rev (take 8 bs))"

text \<open>The buffer \<open>addr\<close> is shared by the iterations: a short address keeps bytes of the one before.\<close>

fun slash_addrs :: "bytes \<Rightarrow> (bool \<times> bytes) list \<Rightarrow> address list" where
  "slash_addrs addr [] = []"
| "slash_addrs addr ((duplicateVote, a) # vals) =
     (if duplicateVote then let addr = copy_to addr a in be_val addr # slash_addrs addr vals
      else slash_addrs addr vals)"

definition BeginBlock :: "('c, 'f) app_block \<Rightarrow> RequestBeginBlock \<Rightarrow> ('c, 'f) app_block" where
  "BeginBlock app req =
     app\<lparr>ab_block := \<lparr>b_Number = rq_Height req, b_Timestamp = rq_Time req, b_Size = rq_Size req,
           b_Miner = be_val (copy_to (replicate 20 0) (rq_ProposerAddress req)),
           b_ParentHash = be_val (copy_to (replicate 32 0) (rq_LastBlockHash req)),
           b_TransactionsRoot = be_val (copy_to (replicate 32 0) (rq_DataHash req)),
           b_Hash = be_val (copy_to (replicate 32 0) (rq_Hash req)),
           b_StateRoot = be_val (copy_to (replicate 32 0) (rq_AppHash req)),
           b_GasUsed = 0\<rparr>,
         ab_lastVoters := ab_lastVoters app @ map fst (filter snd (rq_Votes req)),
         ab_reorderSeed := (if length (rq_DataHash req) \<ge> 8 then le_Uint64 (rq_DataHash req) else 0),
         ab_currHeight := rq_Height req,
         ab_slashValidators := ab_slashValidators app @ slash_addrs (replicate 20 0) (rq_ByzantineValidators req)\<rparr>"

text \<open>\<open>reqSize\<close> is the size of the request; a transaction that does not decode is dropped.\<close>

definition DeliverTx :: "('a, 'g) check_ext \<Rightarrow> ('c, 'f) app_block \<Rightarrow> bytes \<Rightarrow> i64 \<Rightarrow> ('c, 'f) app_block \<times> u32" where
  "DeliverTx K app req reqSize =
     (let blk = ab_block app;
          app = app\<lparr>ab_block := blk\<lparr>b_Size := b_Size blk + reqSize\<rparr>\<rparr>
      in case DecodeRLP K req of
           None \<Rightarrow> (app, CodeTypeOK)
         | Some tx \<Rightarrow> (app\<lparr>ab_collected := ab_collected app @ [tx],
             ab_txid2sigMap := (ab_txid2sigMap app)(t_Hash tx \<mapsto> EncodeVRS tx)\<rparr>, CodeTypeOK))"

definition EndBlock :: "('c, 'f) app_block \<Rightarrow> (bytes32 \<times> i64) list" where
  "EndBlock app = map (\<lambda>v. (v_Pubkey v, v_VotingPower v)) (ab_validatorUpdate app)"

subsection \<open>The end of a block\<close>

definition getBlockRewardAndUpdateSysAcc :: "('c, 'f) engine \<Rightarrow> ('c, 'f) app_block \<Rightarrow> 'c \<Rightarrow> (u256 \<times> 'c) option" where
  "getBlockRewardAndUpdateSysAcc X app c = do {
     c \<leftarrow> (if ab_lastGasRefund app \<noteq> 0 then SubSystemAccBalance X c (ab_lastGasRefund app) else Some c);
     let sysB = GetSystemBalance X c;
     if sysB < ab_lastGasFee app then None
     else do {
       let blockReward = (if StandbyQLen X c = 0 then sysB else ab_lastGasFee app);
       c \<leftarrow> (if blockReward \<noteq> 0 then SubSystemAccBalance X c blockReward else Some c);
       Some (blockReward, c) } }"

definition epochSwitchDelay :: "i64 \<Rightarrow> i64" where
  "epochSwitchDelay currEpochNum = (if currEpochNum = 20 then StakingEpochSwitchDelay * 10 else StakingEpochSwitchDelay)"

text \<open>Whether the epoch is switched; a negative epoch number indexes the table out of range.\<close>

definition switch_due :: "('c, 'f) app_block \<Rightarrow> i64 \<Rightarrow> bool option" where
  "switch_due app cen =
     (if \<not> sint (cfg_CCRPCForkBlock app) > 0 \<or> \<not> sint cen < int (length mainEndTimes) then Some False
      else if sint cen < 0 then None
      else Some (sint (b_Timestamp (ab_block app)) > sint (mainEndTimes ! nat (sint cen) + epochSwitchDelay cen)))"

definition switch_staking_epoch :: "('c, 'a) ext \<Rightarrow> iters \<Rightarrow> 'c staking_state \<Rightarrow> i64 \<Rightarrow>
    (Validator list option \<times> 'c staking_state) option" where
  "switch_staking_epoch E I s cen = do {
     let e = \<lparr>e_Number = cen + 1, e_StartHeight = mainStartHeights ! nat (sint cen),
       e_EndTime = mainEndTimes ! nat (sint cen), e_Nominations = []\<rparr>;
     let (posVotes, c) = (if IsXHedgeFork E (ss_ctx s) then GetAndClearPosVotes E (ss_ctx s) XHedgeContractSequence
       else ([], ss_ctx s));
     (newValidators, ep, s) \<leftarrow> SwitchEpoch E I (s\<lparr>ss_ctx := c\<rparr>) e posVotes;
     Some (newValidators, if IsXHedgeFork E (ss_ctx s)
       then s\<lparr>ss_ctx := CreateInitVotes E (ss_ctx s) XHedgeContractSequence (case newValidators of None \<Rightarrow> [] | Some vs \<Rightarrow> vs)\<rparr>
       else s) }"

definition updateValidatorsAndStakingInfo :: "('c, 'a) ext \<Rightarrow> ('c, 'f) engine \<Rightarrow> iters \<Rightarrow> address iter \<Rightarrow> ('c, 'f) app_block \<Rightarrow>
    ('c, 'f) app_block option" where
  "updateValidatorsAndStakingInfo E X I it app = do {
     (blockReward, c) \<leftarrow> getBlockRewardAndUpdateSysAcc X app (ss_ctx (ab_state app));
     ((currValidators, newValidators, currEpochNum), s) \<leftarrow> SlashAndReward E ((ab_state app)\<lparr>ss_ctx := c\<rparr>) (ab_slashValidators app)
       (b_Miner (ab_block app)) (ab_lastProposer app) (ab_lastVoters app) (Some blockReward);
     due \<leftarrow> switch_due app currEpochNum;
     (newValidators, s) \<leftarrow> (if due then switch_staking_epoch E I s currEpochNum else Some (Some newValidators, s));
     let update = (case GetUpdateValidatorSet it currValidators newValidators of None \<Rightarrow> [] | Some vs \<Rightarrow> vs);
     newInfo \<leftarrow> LoadStakingInfo E (ss_ctx s);
     Some (app\<lparr>ab_state := SaveStakingInfo E s (newInfo\<lparr>si_ValidatorsUpdate := update\<rparr>),
       ab_slashValidators := [], ab_validatorUpdate := update\<rparr>) }"

definition syncBlockInfo :: "('c, 'f) app_block \<Rightarrow> BlockInfo \<times> ('c, 'f) app_block" where
  "syncBlockInfo app =
     (let blk = ab_block app;
          blockInfo = \<lparr>bi_Coinbase = b_Miner blk, bi_Number = b_Number blk, bi_Timestamp = b_Timestamp blk,
            bi_ChainId = ab_chainId app, bi_Hash = b_Hash blk,
            bi_Revision = fromHeightRevision (cfg_HeightRevision app) (b_Number blk)\<rparr>
      in (blockInfo, app\<lparr>ab_blockInfo := blockInfo\<rparr>))"

text \<open>A block is handed to the history with the height below which it may prune, -1 for none.\<close>

definition publish :: "('c, 'f) app_block \<Rightarrow> Block \<Rightarrow> ('c, 'f) app_block" where
  "publish app block =
     (let block = block\<lparr>b_StateRoot := be_val (copy_to (be_bytes 32 (b_StateRoot block)) (ab_appHash app)),
            b_GasUsed := ab_lastGasUsed app\<rparr>;
          pruneTill = (if sint (cfg_NumKeptBlocksInDB app) > 0 \<and> sint (ab_currHeight app) > sint (cfg_NumKeptBlocksInDB app)
            then ab_currHeight app - cfg_NumKeptBlocksInDB app else - 1)
      in app\<lparr>ab_history := ab_history app @ [(block, pruneTill, ab_txid2sigMap app)], ab_txid2sigMap := Map.empty\<rparr>)"

text \<open>The pruning of the world state; a zero interval divides by zero.\<close>

definition prune_state :: "('c, 'f) app_block \<Rightarrow> Block option \<Rightarrow> ('c, 'f) app_block option" where
  "prune_state app prevBlock = (case prevBlock of
       None \<Rightarrow> Some app
     | Some prev \<Rightarrow>
         if cfg_ArchiveMode app then Some app
         else if cfg_PruneEveryN app = 0 then None
         else if sint (b_Number prev) smod sint (cfg_PruneEveryN app) = 0 \<and> sint (b_Number prev) > sint (cfg_NumKeptBlocks app)
         then Some (app\<lparr>ab_pruned := ab_pruned app @ [b_Number prev - cfg_NumKeptBlocks app]\<rparr>)
         else Some app)"

definition refresh :: "('c, 'a) ext \<Rightarrow> ('c, 'f) engine \<Rightarrow> ('c, 'f) app_block \<Rightarrow> ('c, 'f) app_block option" where
  "refresh E X app = do {
     let c = ss_ctx (ab_state app);
     let prevBlock = GetCurrBlockBasicInfo X c;
     let c = SetCurrBlockBasicInfo X c (ab_block app);
     mGP \<leftarrow> LoadMinGasPrice E c False;
     let c = SaveMinGasPrice E c mGP True;
     let app = app\<lparr>ab_state := (ab_state app)\<lparr>ss_ctx := c\<rparr>, ab_lastMinGasPrice := mGP\<rparr>;
     app \<leftarrow> prune_state app prevBlock;
     let app = app\<lparr>ab_appHash := GetRootHash X c\<rparr>;
     let app = (case prevBlock of
         None \<Rightarrow> app
       | Some prev \<Rightarrow> if sint (ab_currHeight app) \<le> sint HEIGHT_PUBLISH_AFTER_BLOCK then publish app prev else app);
     Some (app\<lparr>ab_recheckCounter := 0, ab_lastProposer := b_Miner (ab_block app), ab_lastVoters := []\<rparr>) }"

definition postCommit :: "('c, 'f) engine \<Rightarrow> ('c, 'f) app_block \<Rightarrow> BlockInfo \<Rightarrow> bool \<Rightarrow> ('c, 'f) app_block" where
  "postCommit X app bi publishAfterCommit =
     (let (c, gasUsed, refund, fee) = ExecuteTxs X (ss_ctx (ab_state app)) bi;
          app = app\<lparr>ab_state := (ab_state app)\<lparr>ss_ctx := c\<rparr>, ab_lastGasUsed := gasUsed, ab_lastGasRefund := refund, ab_lastGasFee := fee\<rparr>
      in if publishAfterCommit then publish app (ab_block app) else app)"

text \<open>The height below which Tendermint may prune, 0 for none; a zero interval divides by zero.\<close>

definition buildCommitResponse :: "('c, 'f) app_block \<Rightarrow> (bytes \<times> i64) option" where
  "buildCommitResponse app =
     (if sint (cfg_RetainBlocks app) > 0 \<and> sint (ab_currHeight app) \<ge> sint (cfg_RetainBlocks app)
      then if cfg_ChangeRetainEveryN app = 0 then None
        else Some (ab_appHash app, if sint (ab_currHeight app) smod sint (cfg_ChangeRetainEveryN app) = 0
          then ab_currHeight app - cfg_RetainBlocks app + 1 else 0)
      else Some (ab_appHash app, 0))"

definition Commit :: "('c, 'a) ext \<Rightarrow> ('c, 'f) engine \<Rightarrow> ('c, 'b, 'd, 'v, 'r, 'm) ccrpc_ext_scheme \<Rightarrow> iters \<Rightarrow> address iter \<Rightarrow> i64 iter \<Rightarrow>
    ('b, 'd) CCrpcImp \<Rightarrow> ('c, 'f) app_block \<Rightarrow> (('b, 'd) CCrpcImp \<times> ('c, 'f) app_block \<times> bytes \<times> i64) option" where
  "Commit E X F I it jt cc app = do {
     (cc, c) \<leftarrow> (if sint (ab_currHeight app) \<ge> sint (cfg_CCRPCForkBlock app)
       then do { (_, cc, c, _) \<leftarrow> ProcessCCRPC E F jt cc (ss_ctx (ab_state app)) (ab_currHeight app) (b_Timestamp (ab_block app));
                 Some (cc, c) }
       else Some (cc, ss_ctx (ab_state app)));
     app \<leftarrow> updateValidatorsAndStakingInfo E X I it (app\<lparr>ab_state := (ab_state app)\<lparr>ss_ctx := c\<rparr>\<rparr>);
     let (c, fr) = Prepare X (ss_ctx (ab_state app)) (ab_collected app) (ab_reorderSeed app) MaxTxGasLimit;
     app \<leftarrow> refresh E X (app\<lparr>ab_state := (ab_state app)\<lparr>ss_ctx := c\<rparr>, ab_collected := [], ab_frontier := fr\<rparr>);
     let publishAfterCommit = (sint (ab_currHeight app) \<ge> sint HEIGHT_PUBLISH_AFTER_BLOCK);
     let (bi, app) = syncBlockInfo app;
     res \<leftarrow> buildCommitResponse app;
     Some (cc, postCommit X app bi publishAfterCommit, res) }"

text \<open>
  The part of the application that \<open>CheckTx\<close> works on until the next block: the frontier that
  \<open>Prepare\<close> has made of the queue, the cache of senders, and the height and price of the block.
\<close>

definition check_view :: "int \<Rightarrow> int \<Rightarrow> u64 \<Rightarrow> ('c, 'f) app_block \<Rightarrow> 'f app_check" where
  "check_view sigCacheSize recheckThreshold frontierGasLimit app = \<lparr>ap_sigCache = ab_sigCache app,
     ap_recheckCounter = ab_recheckCounter app, ap_frontier = ab_frontier app, ap_lastMinGasPrice = ab_lastMinGasPrice app,
     ap_currHeight = ab_currHeight app, cfg_SigCacheSize = sigCacheSize, cfg_RecheckThreshold = recheckThreshold,
     cfg_FrontierGasLimit = frontierGasLimit\<rparr>"

subsection \<open>What a block keeps of the registry\<close>

lemma upd_first_same: "find P xs = Some x \<Longrightarrow> f x = x \<Longrightarrow> upd_first P f xs = xs"
  by (induction xs) (auto split: if_splits)

lemma Slash_none_keeps:
  assumes "Slash E c info pubkey 0 = Some (t, info', c')"
  shows "si_Validators info' = si_Validators info \<and> si_CurrEpochNum info' = si_CurrEpochNum info"
proof (cases "GetValidatorByPubkey info pubkey")
  case (Some val)
  then have "upd_first (\<lambda>v. v_Pubkey v = pubkey) (\<lambda>v. v\<lparr>v_StakedCoins := v_StakedCoins val\<rparr>) (si_Validators info) = si_Validators info"
    unfolding GetValidatorByPubkey_def by (rule upd_first_same) simp
  with assms Some show ?thesis
    by (auto simp: Slash_def ClearRewardsOf_def Let_def split: prod.splits bind_splits)
qed (use assms in \<open>simp add: Slash_def\<close>)

lemma slash_step_keeps:
  assumes "slash_step E m st v = Some st'"
  shows "si_Validators (fst st') = si_Validators (fst st) \<and> si_CurrEpochNum (fst st') = si_CurrEpochNum (fst st)"
  using assms by (cases st; cases st')
    (auto simp: slash_step_def SlashedStakingAmount_def split: option.splits dest!: Slash_none_keeps)

lemma slash_fold_keeps:
  assumes "foldM (slash_step E m) (info, c) vs = Some (info', c')"
  shows "si_Validators info' = si_Validators info \<and> si_CurrEpochNum info' = si_CurrEpochNum info"
proof -
  let ?I = "\<lambda>st :: StakingInfo \<times> 'a. si_Validators (fst st) = si_Validators info \<and> si_CurrEpochNum (fst st) = si_CurrEpochNum info"
  have "?I (info', c')"
    by (rule foldM_invariant [OF assms, of ?I]) (auto dest!: slash_step_keeps)
  then show ?thesis by simp
qed

lemma distribute_length: "length (si_PendingRewards (distributeToValidator m info coins v)) \<le> Suc (length (si_PendingRewards info))"
  by (simp add: distributeToValidator_def split: option.splits)

text \<open>A reward touches the pending rewards alone, and adds at most one entry for every payment.\<close>

definition paid_from :: "nat \<Rightarrow> StakingInfo \<Rightarrow> StakingInfo \<Rightarrow> bool" where
  "paid_from n info info' \<longleftrightarrow> si_Validators info' = si_Validators info \<and> si_CurrEpochNum info' = si_CurrEpochNum info \<and>
     si_ValidatorsUpdate info' = si_ValidatorsUpdate info \<and>
     length (si_PendingRewards info') \<le> length (si_PendingRewards info) + n"

lemma paid_from_step: "paid_from n info info' \<Longrightarrow> paid_from (Suc n) info (distributeToValidator m info' coins v)"
  using distribute_length [of m info' coins v]
  by (auto simp: paid_from_def) (simp add: distributeToValidator_def split: option.splits)

lemma paid_from_mono: "paid_from n info info' \<Longrightarrow> n \<le> k \<Longrightarrow> paid_from k info info'"
  by (simp add: paid_from_def)

lemma voter_fold_keeps:
  "foldM (voter_step m vm p f vp) (r, info1) voters = Some (r', info2) \<Longrightarrow> paid_from n info info1 \<Longrightarrow>
   paid_from (n + length voters) info info2"
proof (induction voters arbitrary: r info1 n)
  case (Cons k ks)
  from Cons.prems(1) obtain q info3 where step: "voter_step m vm p f vp (r, info1) k = Some (q, info3)"
    and rest: "foldM (voter_step m vm p f vp) (q, info3) ks = Some (r', info2)"
    by (auto split: bind_splits)
  have "paid_from (Suc n) info info3"
    using step paid_from_step [OF Cons.prems(2)] paid_from_mono [OF Cons.prems(2), of "Suc n"]
    by (auto simp: voter_step_def Let_def split: if_splits bind_splits)
  from Cons.IH [OF rest this] show ?case by simp
qed simp

lemma DistributeFee_keeps:
  assumes "DistributeFee E c acc info fee collector proposer voters = Some (info', c')"
  shows "paid_from (length voters + 2) info info'"
proof (cases fee)
  case None
  with assms show ?thesis by (simp add: DistributeFee_def paid_from_def)
next
  case (Some f)
  have zero: "paid_from 0 info info" by (simp add: paid_from_def)
  note loop = voter_fold_keeps [OF _ zero, simplified]
  from assms Some obtain info1 where one: "paid_from (length voters) info info1"
    and two: "\<exists>m k v k' v' j. info' \<in> {info1, distributeToValidator m info1 k v,
       distributeToValidator m (distributeToValidator m info1 k v) k' v'}"
    by (force simp: DistributeFee_def Let_def split: prod.splits bind_splits if_splits dest: loop)
  then show ?thesis
    using paid_from_mono [OF paid_from_step [OF one], of "length voters + 2"] paid_from_step [OF paid_from_step [OF one]]
      paid_from_mono [OF one, of "length voters + 2"] by auto
qed

lemma SlashAndReward_frozen:
  assumes "SlashAndReward E s slashed currProposer lastProposer lastVoters reward = Some ((cur, new, en), s')"
    and "LoadStakingInfo E (ss_ctx s) = Some info"
  shows "cur = GetActiveValidators (si_Validators info) MinimumStakingAmount \<and> new = cur \<and> en = si_CurrEpochNum info"
proof -
  obtain acc where load: "LoadStakingAccAndInfo E (ss_ctx s) = Some (acc, info)"
    using assms by (auto simp: SlashAndReward_def LoadStakingAccAndInfo_def split: bind_splits)
  obtain info1 c1 where slash: "foldM (slash_step E (cons_map E (si_Validators info))) (info, ss_ctx s) slashed = Some (info1, c1)"
    using assms(1) unfolding SlashAndReward_def load Let_def bind.bind_lunit prod.case by (auto split: bind_splits)
  obtain info2 c2 where fee: "DistributeFee E c1 acc info1 reward (key_of (cons_map E (si_Validators info)) currProposer)
      (key_of (cons_map E (si_Validators info)) lastProposer) (voter_keys (cons_map E (si_Validators info)) 0 lastVoters) = Some (info2, c2)"
    using assms(1) unfolding SlashAndReward_def load slash Let_def bind.bind_lunit prod.case by (auto split: bind_splits)
  have "si_Validators info2 = si_Validators info \<and> si_CurrEpochNum info2 = si_CurrEpochNum info"
    using slash_fold_keeps [OF slash] DistributeFee_keeps [OF fee] by (simp add: paid_from_def)
  then show ?thesis
    using assms(1) unfolding SlashAndReward_def load slash fee Let_def bind.bind_lunit prod.case
    by (auto simp: GetActiveValidators_def)
qed

lemma checkEpoch_no_nominations:
  "e_Nominations ep = [] \<Longrightarrow> checkEpoch I info ep posVotes = Some (v, p, old, ep') \<Longrightarrow> \<not> v"
  by (auto simp: checkEpoch_def getPubkey2Power_pieces Let_def param_defs split: bind_splits)

lemma SwitchEpoch_elects_nobody:
  "SwitchEpoch E I s ep posVotes = Some (vals, ep', t) \<Longrightarrow> e_Nominations ep = [] \<Longrightarrow> vals = None"
  by (auto simp: SwitchEpoch_def Let_def split: bind_splits prod.splits if_splits dest!: checkEpoch_no_nominations [rotated])

lemma switch_elects_nobody: "switch_staking_epoch E I s n = Some (vals, t) \<Longrightarrow> vals = None"
  by (auto simp: switch_staking_epoch_def Let_def split: bind_splits prod.splits if_splits dest!: SwitchEpoch_elects_nobody)

lemma update_of_same:
  assumes "is_iter it" and "distinct (map v_Address vs)"
  shows "GetUpdateValidatorSet it vs (Some vs) = Some []"
proof -
  have "map_of (map (\<lambda>v. (v_Address v, v)) vs) (v_Address v) = Some v" if "v \<in> set vs" for v
    using map_of_filter_self [OF assms(2) that, of "\<lambda>_. True"] by simp
  then have "List.map_filter (changed (map (\<lambda>v. (v_Address v, v)) vs)) vs = []"
    by (auto simp: List.map_filter_def changed_def filter_empty_conv)
  moreover have "it [] = []" using is_iter_mset [OF assms(1), of "[]"] by simp
  moreover have "filter (\<lambda>(a, _). a \<notin> v_Address ` set vs) (map (\<lambda>v. (v_Address v, v)) vs) = []"
    by (auto simp: filter_empty_conv)
  ultimately have "update_items it vs vs = []" by (simp add: update_items_def Let_def)
  then show ?thesis by (simp add: GetUpdateValidatorSet_items [OF assms(2,2)])
qed

lemma update_nil [simp]: "GetUpdateValidatorSet it cur None = None"
  by (simp add: GetUpdateValidatorSet_def)

subsection \<open>The system account\<close>

text \<open>Between two contexts \<open>v\<close> coins left the system account and nothing else happened.\<close>

definition taken :: "('c, 'a) ext \<Rightarrow> ('c, 'f) engine \<Rightarrow> 'c \<Rightarrow> 'c \<Rightarrow> nat \<Rightarrow> bool" where
  "taken E X c d v \<longleftrightarrow> unat (bal E d (SystemAddress X)) + v = unat (bal E c (SystemAddress X)) \<and>
     (\<forall>a. a \<noteq> SystemAddress X \<longrightarrow> GetAccount E d a = GetAccount E c a) \<and>
     GetStorageAt E d = GetStorageAt E c \<and> StandbyQLen X d = StandbyQLen X c"

text \<open>
  \<open>ebp.SubSystemAccBalance\<close> takes a nonzero amount from the account that collects the gas,
  fails when it holds less, and touches nothing else.
\<close>

locale chain_system = chain_bank E for E :: "('c, 'a) ext" +
  fixes X :: "('c, 'f) engine"
  assumes system_balance: "GetSystemBalance X c = bal E c (SystemAddress X)"
    and sub_fails: "bal E c (SystemAddress X) < v \<Longrightarrow> SubSystemAccBalance X c v = None"
    and sub_pays: "v \<noteq> 0 \<Longrightarrow> v \<le> bal E c (SystemAddress X) \<Longrightarrow> \<exists>d. SubSystemAccBalance X c v = Some d \<and>
      bal E d (SystemAddress X) = bal E c (SystemAddress X) - v \<and>
      (\<forall>a. a \<noteq> SystemAddress X \<longrightarrow> GetAccount E d a = GetAccount E c a) \<and>
      GetStorageAt E d = GetStorageAt E c \<and> StandbyQLen X d = StandbyQLen X c"
    and system_apart: "SystemAddress X \<noteq> StakingContractAddress" "SystemAddress X \<noteq> BlackHoleAddress E"
    and staking_apart: "StakingContractAddress \<noteq> BlackHoleAddress E"
begin

lemma take_system:
  assumes "v \<le> bal E c (SystemAddress X)"
  shows "\<exists>d. (if v \<noteq> 0 then SubSystemAccBalance X c v else Some c) = Some d \<and> taken E X c d (unat v)"
proof (cases "v = 0")
  case False
  then show ?thesis
    using sub_pays [OF False assms] assms by (auto simp: taken_def unat_sub_le word_le_nat_alt)
qed (simp add: taken_def)

lemma taken_trans: "taken E X c d v \<Longrightarrow> taken E X d e w \<Longrightarrow> taken E X c e (v + w)"
  by (auto simp: taken_def)

lemma block_reward:
  assumes "unat (ab_lastGasRefund app) + unat (ab_lastGasFee app) \<le> unat (bal E c (SystemAddress X))"
  shows "\<exists>r d. getBlockRewardAndUpdateSysAcc X app c = Some (r, d) \<and>
    taken E X c d (unat (ab_lastGasRefund app) + unat r) \<and> ab_lastGasFee app \<le> r \<and>
    (StandbyQLen X c = 0 \<longrightarrow> bal E d (SystemAddress X) = 0) \<and> (StandbyQLen X c \<noteq> 0 \<longrightarrow> r = ab_lastGasFee app)"
proof -
  have "ab_lastGasRefund app \<le> bal E c (SystemAddress X)" using assms by (simp add: word_le_nat_alt)
  from take_system [OF this] obtain c1 where c1: "(if ab_lastGasRefund app \<noteq> 0 then SubSystemAccBalance X c (ab_lastGasRefund app)
      else Some c) = Some c1" "taken E X c c1 (unat (ab_lastGasRefund app))" by blast
  then have fee: "ab_lastGasFee app \<le> bal E c1 (SystemAddress X)" using assms by (simp add: taken_def word_le_nat_alt)
  let ?r = "if StandbyQLen X c1 = 0 then bal E c1 (SystemAddress X) else ab_lastGasFee app"
  have "?r \<le> bal E c1 (SystemAddress X)" using fee by simp
  from take_system [OF this] obtain d where d: "(if ?r \<noteq> 0 then SubSystemAccBalance X c1 ?r else Some c1) = Some d"
      "taken E X c1 d (unat ?r)" by blast
  have run: "getBlockRewardAndUpdateSysAcc X app c = Some (?r, d)"
    unfolding getBlockRewardAndUpdateSysAcc_def c1(1) bind.bind_lunit Let_def system_balance d(1)
    using fee by simp
  have "StandbyQLen X c1 = StandbyQLen X c" using c1(2) by (simp add: taken_def)
  then show ?thesis
    using run taken_trans [OF c1(2) d(2)] fee d(2)
    by (intro exI [of _ ?r] exI [of _ d]) (auto simp: taken_def word_unat_eq_iff)
qed

lemma block_reward_short:
  assumes "unat (bal E c (SystemAddress X)) < unat (ab_lastGasRefund app) + unat (ab_lastGasFee app)"
  shows "getBlockRewardAndUpdateSysAcc X app c = None"
proof (cases "ab_lastGasRefund app \<le> bal E c (SystemAddress X)")
  case False
  then have "bal E c (SystemAddress X) < ab_lastGasRefund app" by (simp add: not_le)
  moreover from this have "ab_lastGasRefund app \<noteq> 0" by auto
  ultimately show ?thesis by (simp add: getBlockRewardAndUpdateSysAcc_def sub_fails)
next
  case True
  from take_system [OF this] obtain c1 where c1: "(if ab_lastGasRefund app \<noteq> 0 then SubSystemAccBalance X c (ab_lastGasRefund app)
      else Some c) = Some c1" "taken E X c c1 (unat (ab_lastGasRefund app))" by blast
  then have "bal E c1 (SystemAddress X) < ab_lastGasFee app" using assms by (simp add: taken_def word_less_nat_alt)
  then show ?thesis
    unfolding getBlockRewardAndUpdateSysAcc_def c1(1) bind.bind_lunit Let_def system_balance by simp
qed

lemma update_frozen:
  assumes it: "is_iter it" and load: "LoadStakingInfo E (ss_ctx (ab_state app)) = Some info"
    and d: "distinct (map v_Address (si_Validators info))"
    and run: "updateValidatorsAndStakingInfo E X I it app = Some app'"
  shows "ab_validatorUpdate app' = [] \<and> ab_slashValidators app' = [] \<and>
    (\<exists>info'. readonlyStakingInfo (ab_state app') = Some info' \<and> si_ValidatorsUpdate info' = [])"
proof -
  let ?c = "ss_ctx (ab_state app)"
  have "\<not> unat (bal E ?c (SystemAddress X)) < unat (ab_lastGasRefund app) + unat (ab_lastGasFee app)"
    using run block_reward_short by (auto simp: updateValidatorsAndStakingInfo_def)
  then obtain r c1 where r: "getBlockRewardAndUpdateSysAcc X app ?c = Some (r, c1)" and "GetStorageAt E c1 = GetStorageAt E ?c"
    using block_reward [of app ?c] by (auto simp: taken_def)
  then have load1: "LoadStakingInfo E (ss_ctx ((ab_state app)\<lparr>ss_ctx := c1\<rparr>)) = Some info"
    using load by (simp add: LoadStakingInfo_def)
  from run r obtain cur new en s1 where sr: "SlashAndReward E ((ab_state app)\<lparr>ss_ctx := c1\<rparr>) (ab_slashValidators app)
       (b_Miner (ab_block app)) (ab_lastProposer app) (ab_lastVoters app) (Some r) = Some ((cur, new, en), s1)"
    by (auto simp: updateValidatorsAndStakingInfo_def split: bind_splits)
  note fz = SlashAndReward_frozen [OF sr load1]
  have "distinct (map v_Address cur)" using fz GetActiveValidators_distinct [OF d] by simp
  then have same: "GetUpdateValidatorSet it cur (Some new) = Some []" using fz update_of_same [OF it] by simp
  from run show ?thesis
    unfolding updateValidatorsAndStakingInfo_def r bind.bind_lunit prod.case sr Let_def
    using same by (auto simp: SaveStakingInfo_def split: bind_splits if_splits dest!: switch_elects_nobody)
qed

end

subsection \<open>The reward of a block\<close>

lemma length_voter_keys: "length (voter_keys m a vs) \<le> length vs"
proof (induction vs arbitrary: a)
  case (Cons v vs)
  from Cons [of "be_val (copy_to (be_bytes 20 a) v)"] show ?case
    by (simp add: Let_def split: option.split del: be_bytes_numeral)
qed simp

lemma cons_map_key: "cons_map E vals a = Some k \<Longrightarrow> k \<in> v_Pubkey ` set vals"
proof -
  have "foldl (\<lambda>m v. m(Ed25519Address E (v_Pubkey v) \<mapsto> v_Pubkey v)) m vals a = Some k \<Longrightarrow> m a = Some k \<or> k \<in> v_Pubkey ` set vals" for m
    by (induction vals arbitrary: m) (force split: if_splits)+
  then show "cons_map E vals a = Some k \<Longrightarrow> k \<in> v_Pubkey ` set vals" by (fastforce simp: cons_map_def)
qed

lemma voter_keys_known: "k \<in> set (voter_keys (cons_map E vals) a vs) \<Longrightarrow> k \<in> v_Pubkey ` set vals"
proof (induction vs arbitrary: a)
  case (Cons v vs)
  then show ?case by (auto simp: Let_def split: option.splits dest: cons_map_key [OF sym] cons_map_key simp del: be_bytes_numeral)
qed simp

lemma val_at_known: "val_at info (GetValMapByPubkey info) k \<noteq> None \<longleftrightarrow> k \<in> v_Pubkey ` set (si_Validators info)"
  by (simp add: val_at_def GetValMapByPubkey_def index_map_None)

lemma key_of_known: "key_of (cons_map E (si_Validators info)) a \<noteq> 0 \<Longrightarrow>
   val_at info (GetValMapByPubkey info) (key_of (cons_map E (si_Validators info)) a) \<noteq> None"
  unfolding val_at_known by (auto simp: key_of_def split: option.splits dest: cons_map_key)

context chain_bank
begin

lemma SlashAndReward_books:
  fixes info :: StakingInfo
  defines "m \<equiv> cons_map E (si_Validators info)"
  assumes load: "LoadStakingAccAndInfo E (ss_ctx s) = Some (acc, info)" and hole: "StakingContractAddress \<noteq> BlackHoleAddress E"
    and st: "storable info" "length (si_PendingRewards info) + length lastVoters + 2 < 2 ^ 32"
    and fee: "unat fee < 2 ^ 128" and pend: "pending_total info + unat fee < 2 ^ 256"
    and room: "unat (Balance E acc) + unat fee < 2 ^ 256" "unat (bal E (ss_ctx s) (BlackHoleAddress E)) + unat fee < 2 ^ 256"
    and power: "(\<Sum>k\<leftarrow>voter_keys m 0 lastVoters. power_of info k) < 2 ^ 64"
      "100 * (\<Sum>v\<leftarrow>GetActiveValidators (si_Validators info) MinimumStakingAmount. unat (v_VotingPower v)) < 2 ^ 64"
      "15 * (\<Sum>k\<leftarrow>voter_keys m 0 lastVoters. power_of info k) \<le>
      100 * (\<Sum>v\<leftarrow>GetActiveValidators (si_Validators info) MinimumStakingAmount. unat (v_VotingPower v))"
  shows "\<exists>r s' info' b. SlashAndReward E s [] currProposer lastProposer lastVoters (Some fee) = Some (r, s') \<and>
    LoadStakingInfo E (ss_ctx s') = Some info' \<and> storable info' \<and> si_Validators info' = si_Validators info \<and>
    pending_total info' + b = pending_total info + unat fee \<and>
    unat (bal E (ss_ctx s') StakingContractAddress) + b = unat (Balance E acc) + unat fee \<and>
    unat (bal E (ss_ctx s') (BlackHoleAddress E)) = unat (bal E (ss_ctx s) (BlackHoleAddress E)) + b \<and>
    (\<forall>a. a \<noteq> StakingContractAddress \<longrightarrow> a \<noteq> BlackHoleAddress E \<longrightarrow> bal E (ss_ctx s') a = bal E (ss_ctx s) a)"
proof -
  let ?S = StakingContractAddress and ?v = "voter_keys m 0 lastVoters"
  have keys: "\<forall>k \<in> set ?v. val_at info (GetValMapByPubkey info) k \<noteq> None"
    using voter_keys_known unfolding m_def val_at_known by blast
  obtain info' c' b where df: "DistributeFee E (ss_ctx s) acc info (Some fee) (key_of m currProposer) (key_of m lastProposer) ?v = Some (info', c')"
    and b: "burnt E (SetAccount E (ss_ctx s) ?S (UpdateBalance E acc (Balance E acc + fee))) c' b"
    and pt: "pending_total info' + b = pending_total info + unat fee"
    using DistributeFee_books [OF hole keys key_of_known [of E info lastProposer, folded m_def]
        key_of_known [of E info currProposer, folded m_def] fee pend room power] by blast
  note kept = DistributeFee_keeps [OF df, unfolded paid_from_def]
  have st': "storable info'"
    using st kept length_voter_keys [of m 0 lastVoters] by (simp add: storable_def)
  let ?s = "SaveStakingInfo E (s\<lparr>ss_ctx := c'\<rparr>) info'"
  obtain r where "SlashAndReward E s [] currProposer lastProposer lastVoters (Some fee) = Some (r, ?s)"
    unfolding SlashAndReward_def load Let_def bind.bind_lunit prod.case foldM.simps m_def [symmetric] df by simp
  moreover have "unat (Balance E acc + fee) = unat (Balance E acc) + unat fee" using room(1) by (simp add: unat_add_no_wrap)
  ultimately show ?thesis
    using b hole pt kept st' by (intro exI [of _ r] exI [of _ ?s] exI [of _ info'] exI [of _ b])
      (auto simp: load_save_info burnt_def balance_update)
qed

end

text \<open>The accounts a block moves coins between: the system account, the staking contract and the black hole.\<close>

definition block_accounts :: "('c, 'a) ext \<Rightarrow> ('c, 'f) engine \<Rightarrow> address set" where
  "block_accounts E X = {SystemAddress X, StakingContractAddress, BlackHoleAddress E}"

context chain_system
begin

lemma coins_block: "coins_on E c (block_accounts E X) =
    unat (bal E c (SystemAddress X)) + unat (bal E c StakingContractAddress) + unat (bal E c (BlackHoleAddress E))"
  using system_apart staking_apart by (simp add: coins_on_def block_accounts_def)

lemma reward_books:
  fixes app :: "('c, 'f) app_block" and info :: StakingInfo
  defines "c \<equiv> ss_ctx (ab_state app)" and "voted \<equiv> (\<Sum>k\<leftarrow>voter_keys (cons_map E (si_Validators info)) 0 (ab_lastVoters app). power_of info k)"
    and "active \<equiv> (\<Sum>v\<leftarrow>GetActiveValidators (si_Validators info) MinimumStakingAmount. unat (v_VotingPower v))"
  assumes load: "LoadStakingAccAndInfo E c = Some (acc, info)"
    and st: "storable info" "length (si_PendingRewards info) + length (ab_lastVoters app) + 2 < 2 ^ 32"
    and funds: "unat (ab_lastGasRefund app) + unat (ab_lastGasFee app) \<le> unat (bal E c (SystemAddress X))"
    and small: "unat (bal E c (SystemAddress X)) < 2 ^ 128" and room: "pending_total info + coins_on E c (block_accounts E X) < 2 ^ 256"
    and power: "voted < 2 ^ 64" "100 * active < 2 ^ 64" "15 * voted \<le> 100 * active"
  shows "\<exists>r c1 res s' info'. getBlockRewardAndUpdateSysAcc X app c = Some (r, c1) \<and> LoadStakingInfo E c1 = Some info \<and>
    SlashAndReward E ((ab_state app)\<lparr>ss_ctx := c1\<rparr>) [] (b_Miner (ab_block app)) (ab_lastProposer app) (ab_lastVoters app) (Some r) = Some (res, s') \<and>
    LoadStakingInfo E (ss_ctx s') = Some info' \<and> storable info' \<and> si_Validators info' = si_Validators info \<and>
    coins_on E (ss_ctx s') (block_accounts E X) + unat (ab_lastGasRefund app) = coins_on E c (block_accounts E X) \<and>
    liabilities info' + unat (bal E c StakingContractAddress) = liabilities info + unat (bal E (ss_ctx s') StakingContractAddress) \<and>
    (\<forall>a. a \<in> block_accounts E X \<or> bal E (ss_ctx s') a = bal E c a) \<and>
    (StandbyQLen X c \<noteq> 0 \<or> bal E (ss_ctx s') (SystemAddress X) = 0)"
proof -
  let ?S = StakingContractAddress and ?h = "BlackHoleAddress E" and ?sys = "SystemAddress X"
  obtain r c1 where r: "getBlockRewardAndUpdateSysAcc X app c = Some (r, c1)"
    and t: "taken E X c c1 (unat (ab_lastGasRefund app) + unat r)"
    and q: "StandbyQLen X c = 0 \<longrightarrow> bal E c1 ?sys = 0"
    using block_reward [OF funds] by auto
  define s where "s = (ab_state app)\<lparr>ss_ctx := c1\<rparr>"
  have other: "bal E c1 a = bal E c a" if "a \<noteq> ?sys" for a using t that by (simp add: taken_def bal_def)
  have load1: "LoadStakingAccAndInfo E (ss_ctx s) = Some (acc, info)"
    using load t system_apart by (auto simp: LoadStakingAccAndInfo_def LoadStakingInfo_def taken_def s_def)
  have acc: "bal E c ?S = Balance E acc" using load by (auto simp: LoadStakingAccAndInfo_def bal_def split: bind_splits)
  have rs: "unat (ab_lastGasRefund app) + unat r + unat (bal E c1 ?sys) = unat (bal E c ?sys)" using t by (simp add: taken_def)
  have h: "bal E (ss_ctx s) ?h = bal E c ?h" using other system_apart by (simp add: s_def)
  have "unat r < 2 ^ 128" "pending_total info + unat r < 2 ^ 256" "unat (Balance E acc) + unat r < 2 ^ 256"
    "unat (bal E (ss_ctx s) ?h) + unat r < 2 ^ 256"
    using small room rs acc h by (simp_all add: coins_block)
  from SlashAndReward_books [OF load1 staking_apart st this power [unfolded voted_def active_def],
      of "b_Miner (ab_block app)" "ab_lastProposer app"]
  obtain res s' info' b where sr: "SlashAndReward E s [] (b_Miner (ab_block app)) (ab_lastProposer app) (ab_lastVoters app) (Some r) = Some (res, s')"
    and l': "LoadStakingInfo E (ss_ctx s') = Some info'" "storable info'" "si_Validators info' = si_Validators info"
    and p': "pending_total info' + b = pending_total info + unat r" "unat (bal E (ss_ctx s') ?S) + b = unat (Balance E acc) + unat r"
      "unat (bal E (ss_ctx s') ?h) = unat (bal E (ss_ctx s) ?h) + b"
    and o': "\<forall>a. a \<noteq> ?S \<longrightarrow> a \<noteq> ?h \<longrightarrow> bal E (ss_ctx s') a = bal E (ss_ctx s) a"
    by auto
  have sys': "bal E (ss_ctx s') ?sys = bal E c1 ?sys" using o' system_apart by (simp add: s_def)
  have "liabilities info' + unat (bal E c ?S) = liabilities info + unat (bal E (ss_ctx s') ?S)"
    using p' acc l'(3) by (simp add: liabilities_def pending_total_def)
  moreover have "coins_on E (ss_ctx s') (block_accounts E X) + unat (ab_lastGasRefund app) = coins_on E c (block_accounts E X)"
    using p' rs acc h sys' by (simp add: coins_block)
  moreover have "\<forall>a. a \<in> block_accounts E X \<or> bal E (ss_ctx s') a = bal E c a"
    using o' other by (auto simp: block_accounts_def s_def)
  moreover have "LoadStakingInfo E c1 = Some info"
    using load1 by (auto simp: LoadStakingAccAndInfo_def s_def split: bind_splits)
  ultimately show ?thesis
    using r sr l' q sys' unfolding s_def by (intro exI [of _ r] exI [of _ c1] exI [of _ res] exI [of _ s'] exI [of _ info']) auto
qed

lemma update_without_switch:
  assumes it: "is_iter it" and d: "distinct (map v_Address (si_Validators info))" and slash: "ab_slashValidators app = []"
    and due: "switch_due app (si_CurrEpochNum info) = Some False"
    and r: "getBlockRewardAndUpdateSysAcc X app (ss_ctx (ab_state app)) = Some (r, c1)" and l: "LoadStakingInfo E c1 = Some info"
    and sr: "SlashAndReward E ((ab_state app)\<lparr>ss_ctx := c1\<rparr>) [] (b_Miner (ab_block app)) (ab_lastProposer app) (ab_lastVoters app) (Some r) = Some (res, s')"
    and l': "LoadStakingInfo E (ss_ctx s') = Some info'"
  shows "updateValidatorsAndStakingInfo E X I it app = Some (app\<lparr>ab_state := SaveStakingInfo E s' (info'\<lparr>si_ValidatorsUpdate := []\<rparr>),
    ab_slashValidators := [], ab_validatorUpdate := []\<rparr>)"
proof -
  obtain cur new en where res: "res = (cur, new, en)" by (metis prod_cases3)
  have fz: "cur = GetActiveValidators (si_Validators info) MinimumStakingAmount" "new = cur" "en = si_CurrEpochNum info"
    using SlashAndReward_frozen [OF sr [unfolded res]] l by simp_all
  then have up: "GetUpdateValidatorSet it cur (Some new) = Some []"
    using update_of_same [OF it] GetActiveValidators_distinct [OF d] by simp
  show ?thesis
    unfolding updateValidatorsAndStakingInfo_def r bind.bind_lunit prod.case slash sr res fz(3) due
    by (simp add: up l' Let_def)
qed

lemma update_conserves:
  assumes it: "is_iter it" and "LoadStakingAccAndInfo E (ss_ctx (ab_state app)) = Some (acc, info)"
    and "distinct (map v_Address (si_Validators info))" and "ab_slashValidators app = []"
    and "switch_due app (si_CurrEpochNum info) = Some False"
    and "storable info" and "length (si_PendingRewards info) + length (ab_lastVoters app) + 2 < 2 ^ 32"
    and "unat (ab_lastGasRefund app) + unat (ab_lastGasFee app) \<le> unat (bal E (ss_ctx (ab_state app)) (SystemAddress X))"
    and "unat (bal E (ss_ctx (ab_state app)) (SystemAddress X)) < 2 ^ 128"
    and "pending_total info + coins_on E (ss_ctx (ab_state app)) (block_accounts E X) < 2 ^ 256"
    and "(\<Sum>k\<leftarrow>voter_keys (cons_map E (si_Validators info)) 0 (ab_lastVoters app). power_of info k) < 2 ^ 64"
    and "100 * (\<Sum>v\<leftarrow>GetActiveValidators (si_Validators info) MinimumStakingAmount. unat (v_VotingPower v)) < 2 ^ 64"
    and "15 * (\<Sum>k\<leftarrow>voter_keys (cons_map E (si_Validators info)) 0 (ab_lastVoters app). power_of info k) \<le>
      100 * (\<Sum>v\<leftarrow>GetActiveValidators (si_Validators info) MinimumStakingAmount. unat (v_VotingPower v))"
  shows "\<exists>app' info'. updateValidatorsAndStakingInfo E X I it app = Some app' \<and>
    LoadStakingInfo E (ss_ctx (ab_state app')) = Some info' \<and> si_Validators info' = si_Validators info \<and>
    coins_on E (ss_ctx (ab_state app')) (block_accounts E X) + unat (ab_lastGasRefund app)
      = coins_on E (ss_ctx (ab_state app)) (block_accounts E X) \<and>
    liabilities info' + unat (bal E (ss_ctx (ab_state app)) StakingContractAddress)
      = liabilities info + unat (bal E (ss_ctx (ab_state app')) StakingContractAddress) \<and>
    (\<forall>a. a \<in> block_accounts E X \<or> bal E (ss_ctx (ab_state app')) a = bal E (ss_ctx (ab_state app)) a) \<and>
    (StandbyQLen X (ss_ctx (ab_state app)) \<noteq> 0 \<or> bal E (ss_ctx (ab_state app')) (SystemAddress X) = 0)"
proof -
  from reward_books [OF assms(2,6-13)] obtain r c1 res s' info' where
    run: "getBlockRewardAndUpdateSysAcc X app (ss_ctx (ab_state app)) = Some (r, c1)" "LoadStakingInfo E c1 = Some info"
      "SlashAndReward E ((ab_state app)\<lparr>ss_ctx := c1\<rparr>) [] (b_Miner (ab_block app)) (ab_lastProposer app) (ab_lastVoters app) (Some r) = Some (res, s')"
      "LoadStakingInfo E (ss_ctx s') = Some info'"
    and st: "storable info'" and books: "si_Validators info' = si_Validators info"
      "coins_on E (ss_ctx s') (block_accounts E X) + unat (ab_lastGasRefund app) = coins_on E (ss_ctx (ab_state app)) (block_accounts E X)"
      "liabilities info' + unat (bal E (ss_ctx (ab_state app)) StakingContractAddress) = liabilities info + unat (bal E (ss_ctx s') StakingContractAddress)"
      "\<forall>a. a \<in> block_accounts E X \<or> bal E (ss_ctx s') a = bal E (ss_ctx (ab_state app)) a"
      "StandbyQLen X (ss_ctx (ab_state app)) \<noteq> 0 \<or> bal E (ss_ctx s') (SystemAddress X) = 0"
    by blast
  let ?i = "info'\<lparr>si_ValidatorsUpdate := []\<rparr>"
  have "storable ?i" using st by (simp add: storable_def storable_validators_def)
  then have "LoadStakingInfo E (ss_ctx (SaveStakingInfo E s' ?i)) = Some ?i" by (rule load_save_info)
  moreover have "coins_on E (ss_ctx (SaveStakingInfo E s' ?i)) A = coins_on E (ss_ctx s') A" for A
    by (simp add: coins_on_def)
  ultimately show ?thesis
    using update_without_switch [OF assms(1,3-5) run] books
    by (simp add: liabilities_def)
qed

end

subsection \<open>An engine over finite maps\<close>

text \<open>The queue is an array of the context, and execution charges nothing.\<close>

definition mem_sub :: "mem_ctx \<Rightarrow> u256 \<Rightarrow> mem_ctx option" where
  "mem_sub c v = (case mc_acc c 0x2713 of None \<Rightarrow> None
     | Some x \<Rightarrow> if ma_Balance x < v then None
         else Some (c\<lparr>mc_acc := (mc_acc c)(0x2713 \<mapsto> x\<lparr>ma_Balance := ma_Balance x - v\<rparr>)\<rparr>))"

definition mem_engine :: "(mem_ctx, map_frontier) engine" where
  "mem_engine = \<lparr>SystemAddress = 0x2713, SubSystemAccBalance = mem_sub,
     GetSystemBalance = (\<lambda>c. bal mem_ext c 0x2713),
     StandbyQLen = (\<lambda>c. case mc_array c (0, 0) of None \<Rightarrow> 0 | Some xs \<Rightarrow> length xs),
     Prepare = (\<lambda>c txs seed gas. (c, \<lparr>mf_nonce = Map.empty, mf_balance = Map.empty, mf_gas = (\<lambda>a. 0)\<rparr>)),
     GetEmptyFrontier = \<lparr>mf_nonce = Map.empty, mf_balance = Map.empty, mf_gas = (\<lambda>a. 0)\<rparr>, ExecuteTxs = (\<lambda>c bi. (c, 0, 0, 0)),
     GetCurrBlockBasicInfo = (\<lambda>c. None), SetCurrBlockBasicInfo = (\<lambda>c b. c), GetRootHash = (\<lambda>c. [])\<rparr>"

interpretation ms: chain_system mem_ext mem_engine
proof (intro chain_system.intro mem_chain_bank chain_system_axioms.intro)
qed (auto simp: mem_engine_def mem_sub_def mem_ext_def bal_def StakingContractAddress_def split: option.splits)

lemma mem_chain_system: "chain_system mem_ext mem_engine"
  by unfold_locales

subsection \<open>Properties\<close>

text \<open>
  C8: from genesis on the application never reports a change of the validator set. Whatever
  the transactions did to the registry (\<open>info\<close> is any stored state without duplicate
  addresses, for example one in which validators have retired or registered), whoever is
  slashed and whether or not the staking epoch is switched, the block computes an empty list
  of updates, hands that list to Tendermint in the next \<open>EndBlock\<close> and stores it: slashing
  takes zero coins, the set the update is computed against is read after the transactions,
  and the application builds its epochs without nominations, which elects nobody.
\<close>

theorem validator_set_frozen:
  assumes "chain_system E X" and "is_iter it" and "LoadStakingInfo E (ss_ctx (ab_state app)) = Some info"
    and "distinct (map v_Address (si_Validators info))" and "updateValidatorsAndStakingInfo E X I it app = Some app'"
  shows "EndBlock app' = [] \<and> ab_slashValidators app' = [] \<and>
    (\<exists>info'. readonlyStakingInfo (ab_state app') = Some info' \<and> si_ValidatorsUpdate info' = [])"
  using chain_system.update_frozen [OF assms] by (auto simp: EndBlock_def)


text \<open>A chain on which the first of two validators has retired, with 100 coins of gas in the system account.\<close>

definition retire_info :: StakingInfo where
  "retire_info = sample_info\<lparr>si_Validators := [(sample_validator 1 1)\<lparr>v_IsRetiring := True\<rparr>, sample_validator 2 1]\<rparr>"

definition block_app :: "StakingInfo \<Rightarrow> (mem_ctx, map_frontier) app_block" where
  "block_app info = (let zb = \<lparr>b_Number = 0, b_Timestamp = 0, b_Size = 0, b_Miner = 2, b_ParentHash = 0, b_TransactionsRoot = 0,
       b_Hash = 0, b_StateRoot = 0, b_GasUsed = 0\<rparr> in
     \<lparr>ab_state = SaveStakingInfo mem_ext (mem_state (SetAccount mem_ext (SetAccount mem_ext mem_empty StakingContractAddress
        \<lparr>ma_Balance = 5000, ma_Sequence = 0\<rparr>) 0x2713 \<lparr>ma_Balance = 100, ma_Sequence = 0\<rparr>)) info,
      ab_block = zb, ab_blockInfo = \<lparr>bi_Coinbase = 0, bi_Number = 0, bi_Timestamp = 0, bi_ChainId = 0, bi_Hash = 0, bi_Revision = 0\<rparr>,
      ab_currHeight = 5, ab_slashValidators = [], ab_lastVoters = [be_bytes 20 (2 :: address)], ab_lastProposer = 2,
      ab_lastGasUsed = 0, ab_lastGasRefund = 30, ab_lastGasFee = 60, ab_lastMinGasPrice = 0, ab_validatorUpdate = [], ab_reorderSeed = 0,
      ab_collected = [], ab_txid2sigMap = Map.empty, ab_recheckCounter = 0,
      ab_frontier = GetEmptyFrontier mem_engine, ab_sigCache = [], ab_appHash = [], ab_history = [], ab_pruned = [],
      ab_chainId = 0, cfg_CCRPCForkBlock = 1, cfg_HeightRevision = [], cfg_RetainBlocks = 0, cfg_ChangeRetainEveryN = 1,
      cfg_NumKeptBlocks = 0, cfg_NumKeptBlocksInDB = 0, cfg_PruneEveryN = 1, cfg_ArchiveMode = False\<rparr>)"

lemma retire_facts:
  "storable retire_info" "distinct (map v_Address (si_Validators retire_info))" "length (si_PendingRewards retire_info) = 3"
  "pending_total retire_info = 47" "si_CurrEpochNum retire_info = 3"
  by (simp_all add: retire_info_def storable_def storable_validators_def sample_info_def sample_validator_def pending_total_def)

lemma retire_powers:
  "voter_keys (cons_map mem_ext (si_Validators retire_info)) 0 [be_bytes 20 (2 :: address)] = [2]"
  "power_of retire_info 2 = 1"
  "GetActiveValidators (si_Validators retire_info) MinimumStakingAmount = [sample_validator 2 1]"
proof -
  show "GetActiveValidators (si_Validators retire_info) MinimumStakingAmount = [sample_validator 2 1]" by code_simp
  show "power_of retire_info 2 = 1"
    by (simp add: power_of_def val_at_def GetValMapByPubkey_def retire_info_def sample_validator_def)
  have "be_val (copy_to (be_bytes 20 (0 :: address)) (be_bytes 20 (2 :: address))) = (2 :: address)" by code_simp
  moreover have "cons_map mem_ext (si_Validators retire_info) 2 = Some 2"
    by (simp add: cons_map_def retire_info_def sample_validator_def mem_ext_def)
  ultimately show "voter_keys (cons_map mem_ext (si_Validators retire_info)) 0 [be_bytes 20 (2 :: address)] = [2]"
    by (simp add: Let_def del: be_bytes_numeral)
qed

lemma sample_app_facts:
  "LoadStakingAccAndInfo mem_ext (ss_ctx (ab_state (block_app retire_info))) = Some (\<lparr>ma_Balance = 5000, ma_Sequence = 0\<rparr>, retire_info)"
  "switch_due (block_app retire_info) 3 = Some False"
  "bal mem_ext (ss_ctx (ab_state (block_app retire_info))) (SystemAddress mem_engine) = 100"
  "coins_on mem_ext (ss_ctx (ab_state (block_app retire_info))) (block_accounts mem_ext mem_engine) = 5100"
proof -
  let ?s = "ab_state (block_app retire_info)"
  have acc: "GetAccount mem_ext (ss_ctx ?s) = [StakingContractAddress \<mapsto> \<lparr>ma_Balance = 5000, ma_Sequence = 0\<rparr>,
      0x2713 \<mapsto> \<lparr>ma_Balance = 100, ma_Sequence = 0\<rparr>]"
    by (simp add: block_app_def SaveStakingInfo_def mem_state_def mem_empty_def mem_ext_def)
  have "LoadStakingInfo mem_ext (ss_ctx ?s) = Some retire_info"
    by (simp add: block_app_def mem.load_save_info [OF retire_facts(1)])
  then show "LoadStakingAccAndInfo mem_ext (ss_ctx ?s) = Some (\<lparr>ma_Balance = 5000, ma_Sequence = 0\<rparr>, retire_info)"
    by (simp add: LoadStakingAccAndInfo_def acc StakingContractAddress_def)
  have b: "bal mem_ext (ss_ctx ?s) a = (if a = 0x2713 then 100 else if a = StakingContractAddress then 5000 else 0)" for a
    unfolding bal_def acc by (simp add: mem_ext_def)
  show "bal mem_ext (ss_ctx ?s) (SystemAddress mem_engine) = 100" unfolding b by (simp add: mem_engine_def)
  show "coins_on mem_ext (ss_ctx ?s) (block_accounts mem_ext mem_engine) = 5100"
    unfolding ms.coins_block b by (simp add: mem_engine_def mem_ext_def StakingContractAddress_def)
  show "switch_due (block_app retire_info) 3 = Some False"
    by (simp add: switch_due_def block_app_def mainEndTimes_def epochSwitchDelay_def param_defs)
qed

lemma sample_app_fields:
  "ab_slashValidators (block_app i) = []" "ab_lastVoters (block_app i) = [be_bytes 20 (2 :: address)]"
  "ab_lastGasRefund (block_app i) = 30" "ab_lastGasFee (block_app i) = 60"
  by (simp_all add: block_app_def del: be_bytes_numeral)

lemmas sample_block_facts = sample_app_facts sample_app_fields retire_facts retire_powers

text \<open>Tendermint still has validator 1, the chain does not, and the block reports nothing.\<close>

theorem validator_set_frozen_witness:
  "\<exists>app'. updateValidatorsAndStakingInfo mem_ext mem_engine id_iters id (block_app retire_info) = Some app' \<and> EndBlock app' = [] \<and>
     GetActiveValidators (si_Validators retire_info) MinimumStakingAmount = [sample_validator 2 1]"
proof -
  have load: "LoadStakingInfo mem_ext (ss_ctx (ab_state (block_app retire_info))) = Some retire_info"
    using sample_app_facts(1) by (auto simp: LoadStakingAccAndInfo_def split: bind_splits)
  obtain app' where run: "updateValidatorsAndStakingInfo mem_ext mem_engine id_iters id (block_app retire_info) = Some app'"
    using ms.update_conserves [OF is_iter_id sample_app_facts(1)]
    by (auto simp: sample_block_facts sample_validator_def simp del: be_bytes_numeral voter_keys.simps)
  then show ?thesis
    using validator_set_frozen [OF mem_chain_system is_iter_id load retire_facts(2) run] retire_powers(3) by simp
qed


end
