(* ===== verification/App_Restart.thy ===== *)
theory App_Restart
  imports App_Block
begin

text \<open>
  The start of the node (\<open>NewApp\<close>, \<open>Info\<close> in \<open>src/app/app.go\<close>) and what a restart does. A block
  is written to disk by \<open>refresh\<close>, before its transactions are executed: \<open>Commit\<close> answers
  Tendermint and the goroutine \<open>postCommit\<close> executes them on the new trunk, which is written
  only by the next block. A node that stops in between starts on the state of \<open>refresh\<close> and
  executes the transactions again; they are in the queue that \<open>Prepare\<close> has stored.

  The locale \<open>node_laws\<close> states what the code relies on: the record of the current block is read
  back, queueing and executing transactions leave alone the slots of the staking contract that
  belong to the block processing. Contexts over one trunk see each other's writes.
\<close>

subsection \<open>The synchronous part of \<open>Commit\<close>\<close>

text \<open>\<open>Commit\<close> up to the start of the goroutine: the state on disk and the answer to Tendermint.\<close>

definition Commit_sync :: "('c, 'a) ext \<Rightarrow> ('c, 'f) engine \<Rightarrow> ('c, 'b, 'd, 'v, 'r, 'm) ccrpc_ext_scheme \<Rightarrow> iters \<Rightarrow> address iter \<Rightarrow> i64 iter \<Rightarrow>
    ('b, 'd) CCrpcImp \<Rightarrow> ('c, 'f) app_block \<Rightarrow> (('b, 'd) CCrpcImp \<times> ('c, 'f) app_block \<times> BlockInfo \<times> bytes \<times> i64) option" where
  "Commit_sync E X F I it jt cc app = do {
     (cc, c) \<leftarrow> (if sint (ab_currHeight app) \<ge> sint (cfg_CCRPCForkBlock app)
       then do { (_, cc, c, _) \<leftarrow> ProcessCCRPC E F jt cc (ss_ctx (ab_state app)) (ab_currHeight app) (b_Timestamp (ab_block app));
                 Some (cc, c) }
       else Some (cc, ss_ctx (ab_state app)));
     app \<leftarrow> updateValidatorsAndStakingInfo E X I it (app\<lparr>ab_state := (ab_state app)\<lparr>ss_ctx := c\<rparr>\<rparr>);
     let (c, fr) = Prepare X (ss_ctx (ab_state app)) (ab_collected app) (ab_reorderSeed app) MaxTxGasLimit;
     app \<leftarrow> refresh E X (app\<lparr>ab_state := (ab_state app)\<lparr>ss_ctx := c\<rparr>, ab_collected := [], ab_frontier := fr\<rparr>);
     let (bi, app) = syncBlockInfo app;
     res \<leftarrow> buildCommitResponse app;
     Some (cc, app, bi, res) }"

text \<open>The goroutine publishes the block itself only from the height on at which \<open>refresh\<close> stops to.\<close>

lemma Commit_split:
  "Commit E X F I it jt cc app = do {
     (cc, app, bi, res) \<leftarrow> Commit_sync E X F I it jt cc app;
     Some (cc, postCommit X app bi (sint (ab_currHeight app) \<ge> sint HEIGHT_PUBLISH_AFTER_BLOCK), res) }"
  unfolding Commit_def Commit_sync_def
  by (simp add: Let_def syncBlockInfo_def split_def cong: bind_option_cong)

subsection \<open>The start of the node\<close>

definition zero_Block :: Block where
  "zero_Block = \<lparr>b_Number = 0, b_Timestamp = 0, b_Size = 0, b_Miner = 0, b_ParentHash = 0, b_TransactionsRoot = 0,
     b_Hash = 0, b_StateRoot = 0, b_GasUsed = 0\<rparr>"

definition zero_BlockInfo :: BlockInfo where
  "zero_BlockInfo = \<lparr>bi_Coinbase = 0, bi_Number = 0, bi_Timestamp = 0, bi_ChainId = 0, bi_Hash = 0, bi_Revision = 0\<rparr>"

text \<open>
  What is left of the application after a stop: the stores on disk and the configuration. The
  maps that \<open>NewApp\<close> makes anew stay as they are here.
\<close>

definition on_disk :: "('c, 'f) app_block \<Rightarrow> ('c, 'f) app_block" where
  "on_disk app = app\<lparr>ab_state := \<lparr>ss_ctx = ss_ctx (ab_state app), readonlyStakingInfo = None\<rparr>,
     ab_block := zero_Block, ab_blockInfo := zero_BlockInfo, ab_currHeight := 0, ab_slashValidators := [], ab_lastVoters := [],
     ab_lastProposer := 0, ab_lastGasUsed := 0, ab_lastGasRefund := 0, ab_lastGasFee := 0, ab_lastMinGasPrice := 0,
     ab_validatorUpdate := [], ab_reorderSeed := 0, ab_collected := [], ab_recheckCounter := 0,
     ab_appHash := []\<rparr>"

definition set_prev_block :: "('c, 'f) app_block \<Rightarrow> Block option \<Rightarrow> ('c, 'f) app_block" where
  "set_prev_block app prevBlock = (case prevBlock of
       None \<Rightarrow> app\<lparr>ab_block := zero_Block\<rparr>
     | Some prev \<Rightarrow> app\<lparr>ab_block := prev, ab_currHeight := b_Number prev, ab_lastProposer := b_Miner prev\<rparr>)"

text \<open>The execution of the last block is repeated; its result was not written.\<close>

definition replay_last :: "('c, 'f) engine \<Rightarrow> ('c, 'f) app_block \<Rightarrow> ('c, 'f) app_block" where
  "replay_last X app =
     (if sint (ab_currHeight app) > 0 \<and> sint (ab_currHeight app) < sint HEIGHT_PUBLISH_AFTER_BLOCK
      then let (bi, app) = syncBlockInfo app in postCommit X app bi False
      else app)"

definition NewApp :: "('c, 'a) ext \<Rightarrow> ('c, 'f) engine \<Rightarrow> bool \<Rightarrow> i64 list list \<Rightarrow> i64 \<Rightarrow> ('c, 'f) app_block \<Rightarrow> ('c, 'f) app_block option" where
  "NewApp E X testing ccrpcEpochs genesisWatcherHeight app = do {
     _ \<leftarrow> (if testing then Some () else validCCRPCEpochs ccrpcEpochs);
     _ \<leftarrow> (if testing then Some () else validHeightRevision (cfg_HeightRevision app));
     let app = app\<lparr>ab_sigCache := [], ab_appHash := GetRootHash X (ss_ctx (ab_state app))\<rparr>;
     s \<leftarrow> Init E (ab_state app);
     let app = app\<lparr>ab_state := s, ab_txid2sigMap := Map.empty, ab_frontier := GetEmptyFrontier X\<rparr>;
     let app = set_prev_block app (GetCurrBlockBasicInfo X (ss_ctx s));
     let app = replay_last X app;
     stakingInfo \<leftarrow> LoadStakingInfo E (ss_ctx (ab_state app));
     let app = app\<lparr>ab_validatorUpdate := si_ValidatorsUpdate stakingInfo\<rparr>;
     let app = (if si_CurrEpochNum stakingInfo = 0 \<and> si_GenesisMainnetBlockHeight stakingInfo = 0
       then app\<lparr>ab_state := SaveStakingInfo E (ab_state app) (stakingInfo\<lparr>si_GenesisMainnetBlockHeight := genesisWatcherHeight\<rparr>)\<rparr>
       else app);
     mGP \<leftarrow> LoadMinGasPrice E (ss_ctx (ab_state app)) True;
     Some (app\<lparr>ab_lastMinGasPrice := mGP\<rparr>) }"

text \<open>What Tendermint asks first: it replays the blocks after this height.\<close>

definition Info :: "('c, 'f) app_block \<Rightarrow> i64 \<times> bytes" where
  "Info app = (b_Number (ab_block app), ab_appHash app)"

subsection \<open>What a restart relies on\<close>

definition kept_by_txs :: "StakingInfo \<Rightarrow> Validator list \<times> i64 \<times> i64" where
  "kept_by_txs info = (si_ValidatorsUpdate info, si_CurrEpochNum info, si_GenesisMainnetBlockHeight info)"

locale node_laws = chain_ctx E for E :: "('c, 'a) ext" +
  fixes X :: "('c, 'f) engine"
  assumes block_set: "GetCurrBlockBasicInfo X (SetCurrBlockBasicInfo X c b) = Some b"
    and block_storage: "GetCurrBlockBasicInfo X (SetStorageAt E c StakingContractSequence k v) = GetCurrBlockBasicInfo X c"
    and set_storage: "GetStorageAt E (SetCurrBlockBasicInfo X c b) StakingContractSequence k = GetStorageAt E c StakingContractSequence k"
    and prepare_storage: "GetStorageAt E (fst (Prepare X c txs seed gas)) StakingContractSequence k = GetStorageAt E c StakingContractSequence k"
    and execute_price: "GetStorageAt E (fst (ExecuteTxs X c bi)) StakingContractSequence SlotLastMinGasPrice
      = GetStorageAt E c StakingContractSequence SlotLastMinGasPrice"
    and execute_info: "LoadStakingInfo E c = Some info \<Longrightarrow>
      \<exists>info'. LoadStakingInfo E (fst (ExecuteTxs X c bi)) = Some info' \<and> kept_by_txs info' = kept_by_txs info"
begin

text \<open>The state \<open>refresh\<close> leaves on disk.\<close>

lemma refresh_state:
  assumes "refresh E X app = Some app'"
  shows "\<exists>mGP. ss_ctx (ab_state app') = SaveMinGasPrice E (SetCurrBlockBasicInfo X (ss_ctx (ab_state app)) (ab_block app)) mGP True
    \<and> ab_lastMinGasPrice app' = mGP \<and> readonlyStakingInfo (ab_state app') = readonlyStakingInfo (ab_state app)
    \<and> ab_appHash app' = GetRootHash X (ss_ctx (ab_state app')) \<and> ab_block app' = ab_block app
    \<and> ab_currHeight app' = ab_currHeight app \<and> ab_lastProposer app' = b_Miner (ab_block app) \<and> ab_lastVoters app' = []
    \<and> ab_recheckCounter app' = 0 \<and> ab_collected app' = ab_collected app \<and> ab_slashValidators app' = ab_slashValidators app
    \<and> ab_validatorUpdate app' = ab_validatorUpdate app \<and> cfg_HeightRevision app' = cfg_HeightRevision app"
  using assms
  by (auto simp: refresh_def prune_state_def publish_def Let_def split: bind_splits option.splits if_splits)

lemma refresh_info:
  assumes "refresh E X app = Some app'"
  shows "LoadStakingInfo E (ss_ctx (ab_state app')) = LoadStakingInfo E (ss_ctx (ab_state app))"
    and "GetCurrBlockBasicInfo X (ss_ctx (ab_state app')) = Some (ab_block app)"
    and "LoadMinGasPrice E (ss_ctx (ab_state app')) True = Some (ab_lastMinGasPrice app')"
proof -
  from refresh_state [OF assms] have S: "ss_ctx (ab_state app') =
      SaveMinGasPrice E (SetCurrBlockBasicInfo X (ss_ctx (ab_state app)) (ab_block app)) (ab_lastMinGasPrice app') True"
    by auto
  show "LoadStakingInfo E (ss_ctx (ab_state app')) = LoadStakingInfo E (ss_ctx (ab_state app))"
    and "GetCurrBlockBasicInfo X (ss_ctx (ab_state app')) = Some (ab_block app)"
    by (simp_all add: S SaveMinGasPrice_def block_storage block_set set_storage LoadStakingInfo_def get_set_storage_other slot_defs)
  show "LoadMinGasPrice E (ss_ctx (ab_state app')) True = Some (ab_lastMinGasPrice app')"
    by (simp add: S load_save_price)
qed

lemma execute_gas_price: "LoadMinGasPrice E (fst (ExecuteTxs X c bi)) True = LoadMinGasPrice E c True"
  by (simp add: LoadMinGasPrice_def slot_bytes_def execute_price)

lemma update_saves:
  assumes "updateValidatorsAndStakingInfo E X I it app = Some app'"
  shows "\<exists>s info. ab_state app' = SaveStakingInfo E s info \<and> ab_validatorUpdate app' = si_ValidatorsUpdate info
    \<and> ab_slashValidators app' = [] \<and> ab_block app' = ab_block app \<and> ab_currHeight app' = ab_currHeight app
    \<and> cfg_HeightRevision app' = cfg_HeightRevision app"
  using assms by (auto simp: updateValidatorsAndStakingInfo_def Let_def split: bind_splits) (intro exI conjI, rule refl, simp)

text \<open>What the synchronous part of \<open>Commit\<close> leaves behind.\<close>

lemma Commit_sync_state:
  assumes "Commit_sync E X F I it jt cc app = Some (cc', app1, bi, res)"
    and "readonlyStakingInfo (ab_state app1) = Some info" and "storable info"
  shows "LoadStakingInfo E (ss_ctx (ab_state app1)) = Some info"
    and "GetCurrBlockBasicInfo X (ss_ctx (ab_state app1)) = Some (ab_block app)"
    and "LoadMinGasPrice E (ss_ctx (ab_state app1)) True = Some (ab_lastMinGasPrice app1)"
    and "app1 = app1\<lparr>ab_block := ab_block app, ab_currHeight := ab_currHeight app, ab_slashValidators := [], ab_lastVoters := [],
      ab_lastProposer := b_Miner (ab_block app), ab_validatorUpdate := si_ValidatorsUpdate info, ab_collected := [],
      ab_recheckCounter := 0, ab_appHash := GetRootHash X (ss_ctx (ab_state app1)), ab_blockInfo := bi\<rparr>"
    and "syncBlockInfo app1 = (bi, app1)" and "fst res = ab_appHash app1"
    and "cfg_HeightRevision app1 = cfg_HeightRevision app"
proof -
  from assms(1) obtain c a2 a3 where
      u: "updateValidatorsAndStakingInfo E X I it (app\<lparr>ab_state := (ab_state app)\<lparr>ss_ctx := c\<rparr>\<rparr>) = Some a2"
    and r: "refresh E X (a2\<lparr>ab_state := (ab_state a2)\<lparr>ss_ctx := fst (Prepare X (ss_ctx (ab_state a2)) (ab_collected a2) (ab_reorderSeed a2) MaxTxGasLimit)\<rparr>,
      ab_collected := [], ab_frontier := snd (Prepare X (ss_ctx (ab_state a2)) (ab_collected a2) (ab_reorderSeed a2) MaxTxGasLimit)\<rparr>) = Some a3"
    and b: "syncBlockInfo a3 = (bi, app1)" and res: "buildCommitResponse app1 = Some res"
    unfolding Commit_sync_def by (auto simp: Let_def Option.bind_eq_Some_conv split_def)
  from b have a1: "app1 = a3\<lparr>ab_blockInfo := bi\<rparr>" by (auto simp: syncBlockInfo_def Let_def)
  from update_saves [OF u] obtain s i where U: "ab_state a2 = SaveStakingInfo E s i" "ab_validatorUpdate a2 = si_ValidatorsUpdate i"
      "ab_slashValidators a2 = []" "ab_block a2 = ab_block app" "ab_currHeight a2 = ab_currHeight app"
      "cfg_HeightRevision a2 = cfg_HeightRevision app" by auto
  note R = refresh_state [OF r] and L = refresh_info [OF r]
  have "info = i" using R assms(2) by (auto simp: a1 U(1) SaveStakingInfo_def)
  have "LoadStakingInfo E (fst (Prepare X x txs seed gas)) = LoadStakingInfo E x" for x txs seed gas
    by (simp add: LoadStakingInfo_def prepare_storage)
  then show "LoadStakingInfo E (ss_ctx (ab_state app1)) = Some info"
    using L(1) load_save_info [OF assms(3)] by (simp add: a1 U(1) \<open>info = i\<close>)
  show "GetCurrBlockBasicInfo X (ss_ctx (ab_state app1)) = Some (ab_block app)"
    and "LoadMinGasPrice E (ss_ctx (ab_state app1)) True = Some (ab_lastMinGasPrice app1)"
    using L(2,3) by (simp_all add: a1 U)
  show "app1 = app1\<lparr>ab_block := ab_block app, ab_currHeight := ab_currHeight app, ab_slashValidators := [], ab_lastVoters := [],
      ab_lastProposer := b_Miner (ab_block app), ab_validatorUpdate := si_ValidatorsUpdate info, ab_collected := [],
      ab_recheckCounter := 0, ab_appHash := GetRootHash X (ss_ctx (ab_state app1)), ab_blockInfo := bi\<rparr>"
    using R U by (auto simp: a1 \<open>info = i\<close> intro!: app_block.equality)
  show "syncBlockInfo app1 = (bi, app1)" using b by (auto simp: a1 syncBlockInfo_def Let_def)
  show "fst res = ab_appHash app1" using res by (auto simp: buildCommitResponse_def split: if_splits)
  show "cfg_HeightRevision app1 = cfg_HeightRevision app" using R U by (auto simp: a1)
qed

text \<open>The start on the state of a block, up to the repeated execution: the running node before it.\<close>

lemma start_on_block:
  assumes "Commit_sync E X F I it jt cc app = Some (cc', app1, bi, res)"
    and "readonlyStakingInfo (ab_state app1) = Some info" and "storable info"
    and "ab_currHeight app = b_Number (ab_block app)" and "GetAccount E (ss_ctx (ab_state app1)) StakingContractAddress \<noteq> None"
    and "a0 = (on_disk app1)\<lparr>ab_sigCache := [], ab_appHash := GetRootHash X (ss_ctx (ab_state (on_disk app1)))\<rparr>"
    and "a1 = (\<lambda>s. set_prev_block (a0\<lparr>ab_state := s, ab_txid2sigMap := Map.empty, ab_frontier := GetEmptyFrontier X\<rparr>)
      (GetCurrBlockBasicInfo X (ss_ctx s)))"
  shows "\<exists>s. Init E (ab_state a0) = Some s \<and> snd (syncBlockInfo (a1 s))
      = app1\<lparr>ab_lastGasUsed := 0, ab_lastGasRefund := 0, ab_lastGasFee := 0, ab_lastMinGasPrice := 0, ab_validatorUpdate := [],
          ab_reorderSeed := 0, ab_txid2sigMap := Map.empty, ab_frontier := GetEmptyFrontier X, ab_sigCache := []\<rparr>
    \<and> ab_currHeight (a1 s) = ab_currHeight app \<and> fst (syncBlockInfo (a1 s)) = bi"
proof -
  note S = Commit_sync_state [OF assms(1-3)]
  have F: "ab_block app1 = ab_block app" "ab_currHeight app1 = ab_currHeight app" "ab_slashValidators app1 = []" "ab_lastVoters app1 = []"
      "ab_lastProposer app1 = b_Miner (ab_block app)" "ab_collected app1 = []" "ab_recheckCounter app1 = 0"
      "ab_appHash app1 = GetRootHash X (ss_ctx (ab_state app1))" "ab_blockInfo app1 = bi"
    by (subst S(4), simp)+
  have "Init E (ab_state a0) = Some (ab_state app1)"
    using assms(2,5) S(1) by (auto simp: assms(6) on_disk_def Init_def intro!: staking_state.equality)
  moreover have "bi = fst (syncBlockInfo app1)" using S(5) by simp
  ultimately show ?thesis
    using S(2) assms(4) F
    by (auto simp: assms(6,7) on_disk_def set_prev_block_def syncBlockInfo_def Let_def intro!: app_block.equality)
qed

lemma restart_state:
  assumes C: "Commit_sync E X F I it jt cc app = Some (cc', app1, bi, res)"
    and info: "readonlyStakingInfo (ab_state app1) = Some info" "storable info"
    and height: "ab_currHeight app = b_Number (ab_block app)" "0 < sint (ab_currHeight app)" "sint (ab_currHeight app) < sint HEIGHT_PUBLISH_AFTER_BLOCK"
    and acc: "GetAccount E (ss_ctx (ab_state app1)) StakingContractAddress \<noteq> None"
    and started: "si_CurrEpochNum info \<noteq> 0 \<or> si_GenesisMainnetBlockHeight info \<noteq> 0"
    and valid: "validCCRPCEpochs epochs = Some ()" "validHeightRevision (cfg_HeightRevision app) = Some ()"
  shows "NewApp E X False epochs gwh (on_disk app1)
    = Some ((postCommit X app1 bi False)\<lparr>ab_reorderSeed := 0, ab_txid2sigMap := Map.empty,
        ab_frontier := GetEmptyFrontier X, ab_sigCache := []\<rparr>)"
proof -
  note S = Commit_sync_state [OF C info]
  let ?a0 = "(on_disk app1)\<lparr>ab_sigCache := [], ab_appHash := GetRootHash X (ss_ctx (ab_state (on_disk app1)))\<rparr>"
  let ?z = "app1\<lparr>ab_lastGasUsed := 0, ab_lastGasRefund := 0, ab_lastGasFee := 0, ab_lastMinGasPrice := 0, ab_validatorUpdate := [],
          ab_reorderSeed := 0, ab_txid2sigMap := Map.empty, ab_frontier := GetEmptyFrontier X, ab_sigCache := []\<rparr>"
  let ?a1 = "\<lambda>s. set_prev_block (?a0\<lparr>ab_state := s, ab_txid2sigMap := Map.empty, ab_frontier := GetEmptyFrontier X\<rparr>) (GetCurrBlockBasicInfo X (ss_ctx s))"
  from start_on_block [OF C info height(1) acc refl refl] obtain s where s: "Init E (ab_state ?a0) = Some s"
    and sync: "syncBlockInfo (?a1 s) = (bi, ?z)" and h: "ab_currHeight (?a1 s) = ab_currHeight app"
    by (metis prod.collapse)
  have replay: "replay_last X (?a1 s) = postCommit X ?z bi False"
    unfolding replay_last_def h sync using height by simp
  obtain c g r f where x: "ExecuteTxs X (ss_ctx (ab_state app1)) bi = (c, g, r, f)" by (metis prod.collapse)
  from execute_info [OF S(1), of bi] obtain info' where i: "LoadStakingInfo E c = Some info'" "kept_by_txs info' = kept_by_txs info"
    by (auto simp: x)
  have p: "LoadMinGasPrice E c True = Some (ab_lastMinGasPrice app1)"
    using execute_gas_price [of "ss_ctx (ab_state app1)" bi] S(3) by (simp add: x)
  have upd: "ab_validatorUpdate app1 = si_ValidatorsUpdate info" by (subst S(4)) simp
  have cfg: "cfg_HeightRevision (on_disk app1) = cfg_HeightRevision app" using S(7) by (simp add: on_disk_def)
  show ?thesis
    unfolding NewApp_def Let_def cfg valid s
    using i started upd by (simp add: replay postCommit_def x p kept_by_txs_def) (auto intro!: app_block.equality)
qed

end

subsection \<open>An engine with a queue on disk\<close>

definition enc_Block :: "Block \<Rightarrow> bytes" where
  "enc_Block b = be_bytes 8 (b_Number b) @ be_bytes 8 (b_Timestamp b) @ be_bytes 8 (b_Size b) @ be_bytes 20 (b_Miner b) @
     be_bytes 32 (b_ParentHash b) @ be_bytes 32 (b_TransactionsRoot b) @ be_bytes 32 (b_Hash b) @ be_bytes 32 (b_StateRoot b) @
     be_bytes 8 (b_GasUsed b)"

definition dec_Block :: "bytes \<Rightarrow> Block" where
  "dec_Block bs = \<lparr>b_Number = be_val (take 8 bs), b_Timestamp = be_val (take 8 (drop 8 bs)), b_Size = be_val (take 8 (drop 16 bs)),
     b_Miner = be_val (take 20 (drop 24 bs)), b_ParentHash = be_val (take 32 (drop 44 bs)),
     b_TransactionsRoot = be_val (take 32 (drop 76 bs)), b_Hash = be_val (take 32 (drop 108 bs)),
     b_StateRoot = be_val (take 32 (drop 140 bs)), b_GasUsed = be_val (take 8 (drop 172 bs))\<rparr>"

lemma dec_enc_Block: "dec_Block (enc_Block b) = b"
  by (simp add: dec_Block_def enc_Block_def be_val_be_bytes del: be_bytes_numeral)

definition disk_engine :: "(mem_ctx, map_frontier) engine" where
  "disk_engine = mem_engine\<lparr>
     Prepare := (\<lambda>c txs seed gas. (c\<lparr>mc_array := (mc_array c)((0, 0) \<mapsto> map (\<lambda>tx. be_bytes 8 (t_Nonce tx)) txs)\<rparr>,
       \<lparr>mf_nonce = [5 \<mapsto> 4], mf_balance = [5 \<mapsto> 100], mf_gas = (\<lambda>a. 0)\<rparr>)),
     ExecuteTxs := (\<lambda>c bi. (c\<lparr>mc_array := (mc_array c)((0, 0) := None)\<rparr>, 21000 * of_nat (StandbyQLen mem_engine c), 0, 0)),
     GetCurrBlockBasicInfo := (\<lambda>c. map_option dec_Block (mc_slot c (0, 0))),
     SetCurrBlockBasicInfo := (\<lambda>c b. c\<lparr>mc_slot := (mc_slot c)((0, 0) \<mapsto> enc_Block b)\<rparr>),
     GetRootHash := (\<lambda>c. case mc_slot c (StakingContractSequence, SlotStakingInfo) of None \<Rightarrow> [] | Some b \<Rightarrow> b)\<rparr>"

interpretation nd: node_laws mem_ext disk_engine
proof (intro node_laws.intro node_laws_axioms.intro)
  show "chain_ctx mem_ext" by unfold_locales
qed (auto simp: disk_engine_def mem_ext_def dec_enc_Block StakingContractSequence_def LoadStakingInfo_def)

subsection \<open>A restart resumes\<close>


definition small_info :: StakingInfo where
  "small_info = zero_StakingInfo\<lparr>si_CurrEpochNum := 1\<rparr>"

definition small_app :: "(mem_ctx, map_frontier) app_block" where
  "small_app = (block_app small_info)\<lparr>
     ab_state := SaveStakingInfo mem_ext (mem_state (SetAccount mem_ext mem_empty StakingContractAddress
       \<lparr>ma_Balance = 5000, ma_Sequence = 0\<rparr>)) small_info,
     ab_block := zero_Block\<lparr>b_Number := 5\<rparr>, ab_lastVoters := [], ab_lastGasRefund := 0, ab_lastGasFee := 0,
     ab_reorderSeed := 77, cfg_CCRPCForkBlock := 10, cfg_HeightRevision := [(0, 7), (15000000, 8)]\<rparr>"

lemma small_storable: "storable small_info"
  by (simp add: small_info_def zero_StakingInfo_def storable_def storable_validators_def)

lemma small_reward:
  "getBlockRewardAndUpdateSysAcc disk_engine small_app (ss_ctx (ab_state small_app)) = Some (0, ss_ctx (ab_state small_app))"
  by (simp add: getBlockRewardAndUpdateSysAcc_def small_app_def disk_engine_def mem_engine_def bal_def SaveStakingInfo_def mem_state_def
      mem_ext_def mem_empty_def StakingContractAddress_def)

text \<open>The block adds an empty reward to the contract and burns half of it.\<close>

definition small_state :: "mem_ctx staking_state" where
  "small_state = (ab_state small_app)\<lparr>ss_ctx := TransferFromSenderAccToBlackHoleAcc mem_ext
     (SetAccount mem_ext (ss_ctx (ab_state small_app)) StakingContractAddress \<lparr>ma_Balance = 5000, ma_Sequence = 0\<rparr>) StakingContractAddress 0\<rparr>"

lemma small_slash:
  "SlashAndReward mem_ext (ab_state small_app) [] 0 2 [] (Some 0) = Some (([], [], 1), SaveStakingInfo mem_ext small_state small_info)"
proof -
  have load: "LoadStakingAccAndInfo mem_ext (ss_ctx (ab_state small_app)) = Some (\<lparr>ma_Balance = 5000, ma_Sequence = 0\<rparr>, small_info)"
    using mem.load_save_info [OF small_storable]
    by (simp add: LoadStakingAccAndInfo_def small_app_def) (simp add: SaveStakingInfo_def mem_state_def mem_ext_def)
  have v: "si_Validators small_info = []" "si_PendingRewards small_info = []" "si_CurrEpochNum small_info = 1"
    by (simp_all add: small_info_def zero_StakingInfo_def)
  have b: "Balance mem_ext \<lparr>ma_Balance = b, ma_Sequence = q\<rparr> = b" "UpdateBalance mem_ext \<lparr>ma_Balance = b, ma_Sequence = q\<rparr> w = \<lparr>ma_Balance = w, ma_Sequence = q\<rparr>" for b q w
    by (simp_all add: mem_ext_def)
  show ?thesis
    by (simp add: SlashAndReward_def load v Let_def DistributeFee_def cons_map_def key_of_def ActiveIdx_def GetActiveValidators_def b small_state_def)
qed

lemma small_update:
  "updateValidatorsAndStakingInfo mem_ext disk_engine id_iters id small_app
     = Some (small_app\<lparr>ab_state := SaveStakingInfo mem_ext (SaveStakingInfo mem_ext small_state small_info) small_info\<rparr>)"
proof -
  have f: "(ab_state small_app)\<lparr>ss_ctx := ss_ctx (ab_state small_app)\<rparr> = ab_state small_app" "ab_slashValidators small_app = []"
      "b_Miner (ab_block small_app) = 0" "ab_lastProposer small_app = 2" "ab_lastVoters small_app = []"
    by (simp_all add: small_app_def block_app_def zero_Block_def)
  have due: "switch_due small_app 1 = Some False"
    by (simp add: switch_due_def small_app_def zero_Block_def mainEndTimes_def epochSwitchDelay_def param_defs)
  have "GetUpdateValidatorSet id [] (Some []) = Some []" by (simp add: GetUpdateValidatorSet_def)
  moreover have "small_info\<lparr>si_ValidatorsUpdate := []\<rparr> = small_info" by (simp add: small_info_def zero_StakingInfo_def)
  moreover have "small_app\<lparr>ab_state := x, ab_slashValidators := [], ab_validatorUpdate := []\<rparr> = small_app\<lparr>ab_state := x\<rparr>" for x
    by (simp add: small_app_def block_app_def)
  ultimately show ?thesis
    unfolding updateValidatorsAndStakingInfo_def small_reward bind.bind_lunit prod.case f small_slash due
    by (simp add: mem.load_save_info [OF small_storable] Let_def)
qed

lemma small_state_facts:
  "GetAccount mem_ext (ss_ctx small_state) StakingContractAddress \<noteq> None"
  "GetStorageAt mem_ext (ss_ctx small_state) p k
    = (if (p, k) = (StakingContractSequence, SlotStakingInfo) then Some (Marshal_StakingInfo (msgp mem_ext) [] small_info) else None)"
proof -
  show "GetAccount mem_ext (ss_ctx small_state) StakingContractAddress \<noteq> None"
    unfolding small_state_def by (simp add: mem.get_set_account del: not_None_eq) (rule mem.burn_exists, simp add: mem.get_set_account)
  have "GetStorageAt mem_ext (ss_ctx small_state) p k = GetStorageAt mem_ext (ss_ctx (ab_state small_app)) p k"
    by (simp add: small_state_def mem.burn_storage mem.storage_set_account)
  also have "\<dots> = (if (p, k) = (StakingContractSequence, SlotStakingInfo) then Some (Marshal_StakingInfo (msgp mem_ext) [] small_info) else None)"
    by (simp add: small_app_def SaveStakingInfo_def mem_state_def)
      (simp add: mem_ext_def mem_empty_def msgp_runtime.Marshal_StakingInfo_nonempty [OF mp.msgp_runtime_axioms])
  finally show "GetStorageAt mem_ext (ss_ctx small_state) p k
    = (if (p, k) = (StakingContractSequence, SlotStakingInfo) then Some (Marshal_StakingInfo (msgp mem_ext) [] small_info) else None)" .
qed


end
