(* ===== verification/Evm_Types.thy ===== *)
theory Evm_Types
  imports Eth_Tx
begin

text \<open>
  The values the RPC layer passes around: blocks, transactions, logs and internal calls as the
  EVM module and the Ethereum library declare them (the fields the code under \<open>src/\<close> reads
  or writes), and the errors of the lookups in the history. A call that returns a value and an
  \<open>error\<close> is a sum, \<open>Inl\<close> the error; \<open>go\<close> adds the panic, \<open>None\<close>.
\<close>

datatype go_error = ErrAccNotFound | ErrBlockNotFound | GoError string

type_synonym 'a res = "go_error + 'a"
type_synonym 'a go = "(go_error + 'a) option"

record geth_Log =
  l_Address :: address
  l_Topics :: "bytes32 list"
  l_Data :: bytes
  l_BlockNumber :: u64
  l_TxHash :: bytes32
  l_TxIndex :: u64
  l_BlockHash :: bytes32
  l_Index :: u64
  l_Removed :: bool

record mo_Log =
  ml_Address :: address
  ml_Topics :: "bytes32 list"
  ml_Data :: bytes
  ml_BlockNumber :: u64
  ml_TxHash :: bytes32
  ml_TxIndex :: u64
  ml_BlockHash :: bytes32
  ml_Index :: u64
  ml_Removed :: bool

record InternalTxCall =
  ic_Kind :: int
  ic_Flags :: u32
  ic_Depth :: u32
  ic_Gas :: i64
  ic_Destination :: address
  ic_Sender :: address
  ic_Input :: bytes
  ic_Value :: bytes32

record InternalTxReturn =
  ir_StatusCode :: int
  ir_GasLeft :: i64
  ir_Output :: bytes
  ir_CreateAddress :: address

record ('b, 'w) mo_Transaction =
  mt_Hash :: bytes32
  mt_TransactionIndex :: i64
  mt_Nonce :: u64
  mt_BlockHash :: bytes32
  mt_BlockNumber :: i64
  mt_From :: address
  mt_To :: address
  mt_Value :: bytes32
  mt_GasPrice :: bytes32
  mt_Gas :: u64
  mt_Input :: bytes
  mt_CumulativeGasUsed :: u64
  mt_GasUsed :: u64
  mt_ContractAddress :: address
  mt_Logs :: "mo_Log list"
  mt_LogsBloom :: 'b
  mt_Status :: u64
  mt_StatusStr :: string
  mt_OutData :: bytes
  mt_InternalTxCalls :: "InternalTxCall list"
  mt_InternalTxReturns :: "InternalTxReturn list"
  mt_RwLists :: "'w option"

record 'b mo_Block =
  mb_Hash :: bytes32
  mb_Number :: i64
  mb_ParentHash :: bytes32
  mb_LogsBloom :: 'b
  mb_TransactionsRoot :: bytes32
  mb_StateRoot :: bytes32
  mb_Miner :: address
  mb_Size :: i64
  mb_GasUsed :: u64
  mb_Timestamp :: i64
  mb_Transactions :: "bytes32 list"

record 'b Header =
  hd_Number :: u64
  hd_BlockHash :: bytes32
  hd_Bloom :: 'b

text \<open>A transaction as the RPC answers give it (\<open>src/rpc/internal/ethapi/types.go\<close>); a nil pointer is \<open>None\<close>.\<close>

record rpc_Transaction =
  rt_BlockHash :: "bytes32 option"
  rt_BlockNumber :: int
  rt_From :: address
  rt_Gas :: u64
  rt_GasPrice :: int
  rt_Hash :: bytes32
  rt_Input :: bytes
  rt_Nonce :: u64
  rt_To :: "address option"
  rt_TransactionIndex :: "u64 option"
  rt_Value :: int
  rt_V :: int
  rt_R :: int
  rt_S :: int

text \<open>
  \<open>rpc.BlockNumber\<close> is an \<open>int64\<close>: the named blocks are negative. \<open>big.Int.Int64\<close> and
  \<open>big.Int.Uint64\<close> keep the low 64 bits of the number and of its magnitude.
\<close>

definition LatestBlockNumber :: i64 where "LatestBlockNumber = -1"
definition PendingBlockNumber :: i64 where "PendingBlockNumber = -2"

definition big_Int64 :: "int \<Rightarrow> i64" where "big_Int64 z = word_of_int z"
definition big_Uint64 :: "int \<Rightarrow> u64" where "big_Uint64 z = word_of_int \<bar>z\<bar>"

text \<open>\<open>%d\<close> of \<open>fmt.Sprintf\<close>.\<close>

fun digits :: "nat \<Rightarrow> string" where
  "digits n = (if n < 10 then [char_of (48 + n)] else digits (n div 10) @ [char_of (48 + n mod 10)])"

declare digits.simps [simp del]

definition itoa :: "int \<Rightarrow> string" where
  "itoa z = (if z < 0 then CHR ''-'' # digits (nat (- z)) else digits (nat z))"

definition isZeroAddress :: "address \<Rightarrow> bool" where
  "isZeroAddress addr \<longleftrightarrow> (\<forall>b \<in> set (be_bytes 20 addr). b = 0)"

text \<open>The loop over the bytes finds the zero address and no other.\<close>

lemma be_bytes_all_zero:
  "LENGTH('a) \<le> 8 * n \<Longrightarrow> (\<forall>b \<in> set (be_bytes n w). b = 0) \<longleftrightarrow> (w :: 'a::len word) = 0"
proof
  assume len: "LENGTH('a) \<le> 8 * n" and zero: "\<forall>b \<in> set (be_bytes n w). b = 0"
  have "be_bytes n w = replicate n 0"
    using zero by (intro replicate_eqI) auto
  moreover have "be_val (replicate n 0) = (0 :: 'a word)" for n
    by (induction n) (simp_all add: be_val_def)
  ultimately show "w = 0"
    using be_val_be_bytes [OF len, of w] by simp
next
  assume "w = 0"
  moreover have "\<forall>b \<in> set (be_bytes n (0 :: 'a word)). b = 0"
    by (induction n) auto
  ultimately show "\<forall>b \<in> set (be_bytes n w). b = 0" by simp
qed

lemma isZeroAddress_iff [simp]: "isZeroAddress a \<longleftrightarrow> a = 0"
  unfolding isZeroAddress_def by (rule be_bytes_all_zero) simp

text \<open>The numbers JSON-RPC admits for a block keep their value.\<close>

lemma sint_big_Int64: "- (2 ^ 63) \<le> z \<Longrightarrow> z < 2 ^ 63 \<Longrightarrow> sint (big_Int64 z) = z"
  by (simp add: big_Int64_def signed_of_int signed_take_bit_int_eq_self)

lemma unat_big_Uint64: "0 \<le> z \<Longrightarrow> z < 2 ^ 64 \<Longrightarrow> unat (big_Uint64 z) = nat z"
  by (simp add: big_Uint64_def unsigned_of_int take_bit_int_eq_self)

end
