(* ===== verification/Main_Client.thy ===== *)
theory Main_Client
  imports CCRPC Evm_Types Complex_Main
begin

text \<open>
  The client of the main-chain node and of another smart-chain node (\<open>src/ccrpc/rpcclient.go\<close>).
  Requests are counted: \<open>net k url r\<close> is what the node at \<open>url\<close> answers to the \<open>k\<close>-th request, \<open>None\<close>
  when the connection fails. The methods take the number of the next request and return the
  number after theirs. The two methods that ask until they have a height may ask for ever;
  that, and a call on the nil client, is \<open>None\<close>. The decoding of JSON is the record \<open>client_ext\<close>.
\<close>

subsection \<open>Numbers in answers\<close>

text \<open>
  \<open>big.Int.SetString\<close> with base 0: an optional sign, a prefix that selects the base, digits that
  may be separated by underscores, and nothing after them.
\<close>

definition char_digit :: "char \<Rightarrow> nat" where
  "char_digit c =
     (let n = of_char c in
      if 48 \<le> n \<and> n \<le> 57 then n - 48 else if 97 \<le> n \<and> n \<le> 122 then n - 97 + 10
      else if 65 \<le> n \<and> n \<le> 90 then n - 65 + 10 else 63)"

fun scan_nat :: "nat \<Rightarrow> char \<Rightarrow> bool \<Rightarrow> nat \<Rightarrow> nat \<Rightarrow> string \<Rightarrow> nat \<times> nat \<times> bool \<times> string" where
  "scan_nat b prev bad n v [] = (v, n, bad \<or> prev = CHR ''_'', [])"
| "scan_nat b prev bad n v (ch # s) =
     (if ch = CHR ''_'' then scan_nat b CHR ''_'' (bad \<or> prev \<noteq> CHR ''0'') n v s
      else if char_digit ch < b then scan_nat b CHR ''0'' bad (n + 1) (v * b + char_digit ch) s
      else (v, n, bad \<or> prev = CHR ''_'', ch # s))"

text \<open>The base, whether digits must follow, and the text from the first of them on.\<close>

definition scan_prefix :: "string \<Rightarrow> nat \<times> bool \<times> char \<times> string" where
  "scan_prefix s = (case s of
       CHR ''0'' # c # t \<Rightarrow>
         if c \<in> {CHR ''b'', CHR ''B''} then (2, True, CHR ''0'', t)
         else if c \<in> {CHR ''o'', CHR ''O''} then (8, True, CHR ''0'', t)
         else if c \<in> {CHR ''x'', CHR ''X''} then (16, True, CHR ''0'', t)
         else (8, False, CHR ''0'', c # t)
     | _ \<Rightarrow> (10, True, CHR ''.'', s))"

definition big_SetString :: "string \<Rightarrow> int option" where
  "big_SetString s =
     (let (neg, t) = (case s of CHR ''-'' # t \<Rightarrow> (True, t) | CHR ''+'' # t \<Rightarrow> (False, t) | _ \<Rightarrow> (False, s));
          (b, required, prev, u) = scan_prefix t;
          (v, n, bad, rest) = scan_nat b prev False 0 0 u
      in if bad \<or> required \<and> n = 0 \<or> rest \<noteq> [] then None
         else Some (if neg then - int v else int v))"

subsection \<open>The client\<close>

datatype main_request = ReqPeerInfo | ReqStrBlockCount | ReqSmartHeight | ReqStrCC i64 i64 i64

record PeerInfo =
  pi_Pingtime :: rat

text \<open>
  What \<open>json.Unmarshal\<close> makes of an answer, \<open>None\<close> for an error. \<open>SetString_garbage\<close> is the value
  a \<open>big.Int\<close> is left with by a \<open>SetString\<close> that fails.
\<close>

record 'r client_ext =
  JsonUnmarshalPeersInfo :: "'r \<Rightarrow> PeerInfo list option"
  JsonUnmarshalBlockCount :: "'r \<Rightarrow> (i64 \<times> JsonRpcError option) option"
  JsonUnmarshalBlockNumber :: "'r \<Rightarrow> (string \<times> JsonRpcError option) option"
  SetString_garbage :: "string \<Rightarrow> int"

record RpcClientImp =
  cl_url :: string
  cl_user :: string
  cl_password :: string
  cl_contentType :: string
  cl_err :: bool

type_synonym 'r net = "nat \<Rightarrow> string \<Rightarrow> main_request \<Rightarrow> 'r option"

definition NewRpcClient :: "string \<Rightarrow> string \<Rightarrow> string \<Rightarrow> string \<Rightarrow> RpcClientImp option" where
  "NewRpcClient url user password contentType =
     (if url = [] then None
      else Some \<lparr>cl_url = url, cl_user = user, cl_password = password, cl_contentType = contentType, cl_err = False\<rparr>)"

definition IsConnected :: "RpcClientImp option \<Rightarrow> bool" where
  "IsConnected client \<longleftrightarrow> client \<noteq> None"

definition sendRequest :: "'r net \<Rightarrow> RpcClientImp \<Rightarrow> nat \<Rightarrow> main_request \<Rightarrow> 'r option \<times> nat" where
  "sendRequest net client k rq = (net k (cl_url client) rq, k + 1)"

definition is_failure :: "JsonRpcError option \<Rightarrow> bool" where
  "is_failure e \<longleftrightarrow> (case e of None \<Rightarrow> False | Some e \<Rightarrow> je_Code e < 0)"

definition getPeerInfo :: "'r client_ext \<Rightarrow> 'r net \<Rightarrow> RpcClientImp \<Rightarrow> nat \<Rightarrow> PeerInfo list \<times> RpcClientImp \<times> nat" where
  "getPeerInfo J net client k =
     (let (resp, k) = sendRequest net client k ReqPeerInfo
      in case Option.bind resp (JsonUnmarshalPeersInfo J) of
           None \<Rightarrow> ([], client\<lparr>cl_err := True\<rparr>, k)
         | Some peers \<Rightarrow> (peers, client\<lparr>cl_err := False\<rparr>, k))"

definition GetMainnetActivePeersCount :: "'r client_ext \<Rightarrow> 'r net \<Rightarrow> RpcClientImp \<Rightarrow> nat \<Rightarrow> nat \<times> RpcClientImp \<times> nat" where
  "GetMainnetActivePeersCount J net client k =
     (let (peers, client, k) = getPeerInfo J net client k
      in (length (filter (\<lambda>p. pi_Pingtime p < 120) peers), client, k))"

definition getCurrHeight :: "'r client_ext \<Rightarrow> 'r net \<Rightarrow> RpcClientImp \<Rightarrow> nat \<Rightarrow> i64 \<times> RpcClientImp \<times> nat" where
  "getCurrHeight J net client k =
     (let (resp, k) = sendRequest net client k ReqStrBlockCount
      in case Option.bind resp (JsonUnmarshalBlockCount J) of
           None \<Rightarrow> (-1, client\<lparr>cl_err := True\<rparr>, k)
         | Some (result, e) \<Rightarrow> (result, client\<lparr>cl_err := is_failure e\<rparr>, k))"

definition netSmartHeight :: "'r client_ext \<Rightarrow> 'r net \<Rightarrow> RpcClientImp \<Rightarrow> nat \<Rightarrow> i64 \<times> RpcClientImp \<times> nat" where
  "netSmartHeight J net client k =
     (let (resp, k) = sendRequest net client k ReqSmartHeight
      in case Option.bind resp (JsonUnmarshalBlockNumber J) of
           None \<Rightarrow> (-1, client\<lparr>cl_err := True\<rparr>, k)
         | Some (result, e) \<Rightarrow>
             if is_failure e then (-1, client\<lparr>cl_err := True\<rparr>, k)
             else (big_Int64 (case big_SetString result of None \<Rightarrow> SetString_garbage J result | Some z \<Rightarrow> z),
               client\<lparr>cl_err := False\<rparr>, k))"

text \<open>The loops sleep between two requests; the sleep after an error has no other effect.\<close>

partial_function (option) ask_height ::
  "(RpcClientImp \<Rightarrow> nat \<Rightarrow> i64 \<times> RpcClientImp \<times> nat) \<Rightarrow> RpcClientImp \<Rightarrow> nat \<Rightarrow> (i64 \<times> RpcClientImp \<times> nat) option" where
  "ask_height get client k =
     (case get client k of (height, client, k) \<Rightarrow>
        if height = -1 then ask_height get client k else Some (height, client, k))"

definition GetMainnetHeight :: "'r client_ext \<Rightarrow> 'r net \<Rightarrow> RpcClientImp option \<Rightarrow> nat \<Rightarrow> (i64 \<times> RpcClientImp \<times> nat) option" where
  "GetMainnetHeight J net client k = do { client \<leftarrow> client; ask_height (getCurrHeight J net) client k }"

definition NetworkSmartHeight :: "'r client_ext \<Rightarrow> 'r net \<Rightarrow> RpcClientImp option \<Rightarrow> nat \<Rightarrow> (i64 \<times> RpcClientImp \<times> nat) option" where
  "NetworkSmartHeight J net client k = do { client \<leftarrow> client; ask_height (netSmartHeight J net) client k }"

subsection \<open>What a method answers, from the answers of the node\<close>

definition main_height_at :: "'r client_ext \<Rightarrow> 'r net \<Rightarrow> string \<Rightarrow> nat \<Rightarrow> i64" where
  "main_height_at J net url k = (case Option.bind (net k url ReqStrBlockCount) (JsonUnmarshalBlockCount J) of
       None \<Rightarrow> -1 | Some (result, _) \<Rightarrow> result)"

definition smart_height_at :: "'r client_ext \<Rightarrow> 'r net \<Rightarrow> string \<Rightarrow> nat \<Rightarrow> i64" where
  "smart_height_at J net url k = (case Option.bind (net k url ReqSmartHeight) (JsonUnmarshalBlockNumber J) of
       None \<Rightarrow> -1
     | Some (result, e) \<Rightarrow> if is_failure e then -1
         else big_Int64 (case big_SetString result of None \<Rightarrow> SetString_garbage J result | Some z \<Rightarrow> z))"

definition active_peers_at :: "'r client_ext \<Rightarrow> 'r net \<Rightarrow> string \<Rightarrow> nat \<Rightarrow> nat" where
  "active_peers_at J net url k = (case Option.bind (net k url ReqPeerInfo) (JsonUnmarshalPeersInfo J) of
       None \<Rightarrow> 0 | Some peers \<Rightarrow> length (filter (\<lambda>p. pi_Pingtime p < 120) peers))"

lemma getCurrHeight_at:
  "\<exists>e. getCurrHeight J net client k = (main_height_at J net (cl_url client) k, client\<lparr>cl_err := e\<rparr>, k + 1)"
  by (auto simp: getCurrHeight_def sendRequest_def main_height_at_def split: option.split)

lemma netSmartHeight_at:
  "\<exists>e. netSmartHeight J net client k = (smart_height_at J net (cl_url client) k, client\<lparr>cl_err := e\<rparr>, k + 1)"
  by (auto simp: netSmartHeight_def sendRequest_def smart_height_at_def split: option.split)

lemma active_peers_at:
  "\<exists>e. GetMainnetActivePeersCount J net client k = (active_peers_at J net (cl_url client) k, client\<lparr>cl_err := e\<rparr>, k + 1)"
  by (auto simp: GetMainnetActivePeersCount_def getPeerInfo_def sendRequest_def active_peers_at_def split: option.split)

text \<open>The first request, from \<open>k\<close> on, that is answered with a height.\<close>

definition least_from :: "(nat \<Rightarrow> i64) \<Rightarrow> nat \<Rightarrow> nat \<Rightarrow> bool" where
  "least_from height k j \<longleftrightarrow> k \<le> j \<and> height j \<noteq> -1 \<and> (\<forall>i. k \<le> i \<longrightarrow> i < j \<longrightarrow> height i = -1)"

text \<open>
  A method that sends one request and does not change the address of the node: what asking
  until there is a height gives, and that it ends when the node answers from some time on.
\<close>

locale height_source =
  fixes get :: "RpcClientImp \<Rightarrow> nat \<Rightarrow> i64 \<times> RpcClientImp \<times> nat" and height_at :: "string \<Rightarrow> nat \<Rightarrow> i64"
  assumes one_request: "\<exists>e. get client k = (height_at (cl_url client) k, client\<lparr>cl_err := e\<rparr>, k + 1)"
begin

lemma ask_height_Some:
  assumes "ask_height get client k = Some r"
  shows "\<exists>j e. least_from (height_at (cl_url client)) k j \<and> r = (height_at (cl_url client) j, client\<lparr>cl_err := e\<rparr>, j + 1)"
proof -
  let ?P = "\<lambda>c m r. \<exists>j e. least_from (height_at (cl_url c)) m j \<and> r = (height_at (cl_url c) j, c\<lparr>cl_err := e\<rparr>, j + 1)"
  have "get = get \<longrightarrow> ?P client k r"
  proof (rule ask_height.raw_induct [where P = "\<lambda>g c m r. g = get \<longrightarrow> ?P c m r", OF _ assms], rule impI)
    fix self g c m r
    assume IH: "\<And>g c m r. self g c m = Some r \<Longrightarrow> g = get \<longrightarrow> ?P c m r" and g: "g = get"
      and step: "(case g c m of (height, c, m) \<Rightarrow> if height = -1 then self g c m else Some (height, c, m)) = Some r"
    obtain e where e: "get c m = (height_at (cl_url c) m, c\<lparr>cl_err := e\<rparr>, m + 1)" using one_request by blast
    show "?P c m r"
    proof (cases "height_at (cl_url c) m = -1")
      case True
      then have "self get (c\<lparr>cl_err := e\<rparr>) (m + 1) = Some r" using step e g by simp
      from IH [OF this] obtain j e' where j: "least_from (height_at (cl_url c)) (m + 1) j"
        "r = (height_at (cl_url c) j, c\<lparr>cl_err := e'\<rparr>, j + 1)" by auto
      moreover have "least_from (height_at (cl_url c)) m j"
        using True j(1) by (auto simp: least_from_def) (metis not_less_eq_eq le_antisym)
      ultimately show ?thesis by blast
    next
      case False
      then have "least_from (height_at (cl_url c)) m m" by (simp add: least_from_def)
      then show ?thesis using step e g False by auto
    qed
  qed
  then show ?thesis by simp
qed

lemma ask_height_least:
  assumes "least_from (height_at (cl_url client)) k j"
  shows "\<exists>e. ask_height get client k = Some (height_at (cl_url client) j, client\<lparr>cl_err := e\<rparr>, j + 1)"
  using assms
proof (induction "j - k" arbitrary: client k)
  case 0
  then have "k = j" "height_at (cl_url client) j \<noteq> -1" by (simp_all add: least_from_def)
  then show ?case using one_request [of client j] by (subst ask_height.simps) auto
next
  case (Suc n)
  obtain e where e: "get client k = (height_at (cl_url client) k, client\<lparr>cl_err := e\<rparr>, k + 1)" using one_request by blast
  have "least_from (height_at (cl_url (client\<lparr>cl_err := e\<rparr>))) (k + 1) j" "height_at (cl_url client) k = -1"
    using Suc by (auto simp: least_from_def)
  with Suc(1) [of "k + 1" "client\<lparr>cl_err := e\<rparr>"] Suc(2) e show ?case by (subst ask_height.simps) auto
qed

lemma ask_height_returns:
  assumes "k \<le> j" and "height_at (cl_url client) j \<noteq> -1"
  shows "\<exists>j' e. j' \<le> j \<and> least_from (height_at (cl_url client)) k j' \<and>
    ask_height get client k = Some (height_at (cl_url client) j', client\<lparr>cl_err := e\<rparr>, j' + 1)"
proof -
  let ?P = "\<lambda>i. k \<le> i \<and> height_at (cl_url client) i \<noteq> -1"
  have "least_from (height_at (cl_url client)) k (LEAST i. ?P i)"
    using LeastI [of ?P j] assms not_less_Least [of _ ?P] unfolding least_from_def by blast
  moreover have "(LEAST i. ?P i) \<le> j" using assms by (intro Least_le) simp
  ultimately show ?thesis using ask_height_least by blast
qed

end

interpretation mh: height_source "getCurrHeight J net" "main_height_at J net" for J net
  by unfold_locales (rule getCurrHeight_at)

interpretation sh: height_source "netSmartHeight J net" "smart_height_at J net" for J net
  by unfold_locales (rule netSmartHeight_at)

subsection \<open>What \<open>eth_blockNumber\<close> prints is read back\<close>

text \<open>\<open>hexutil.Uint64\<close> prints the prefix and the digits without leading zeros.\<close>

fun hex_nibbles :: "nat \<Rightarrow> nat list" where
  "hex_nibbles n = (if n < 16 then [n] else hex_nibbles (n div 16) @ [n mod 16])"

declare hex_nibbles.simps [simp del]

definition nibble_char :: "nat \<Rightarrow> char" where
  "nibble_char d = ''0123456789abcdef'' ! d"

definition hexutil_Uint64 :: "u64 \<Rightarrow> string" where
  "hexutil_Uint64 w = ''0x'' @ map nibble_char (hex_nibbles (unat w))"

lemma nibble_char: "d < 16 \<Longrightarrow> char_digit (nibble_char d) = d \<and> nibble_char d \<noteq> CHR ''_''"
proof -
  assume "d < 16"
  then have "d = 0 \<or> d = 1 \<or> d = 2 \<or> d = 3 \<or> d = 4 \<or> d = 5 \<or> d = 6 \<or> d = 7 \<or> d = 8 \<or> d = 9 \<or> d = 10 \<or> d = 11
    \<or> d = 12 \<or> d = 13 \<or> d = 14 \<or> d = 15" by arith
  then show ?thesis by (elim disjE) (simp_all add: nibble_char_def char_digit_def)
qed

lemma scan_nibbles:
  "list_all (\<lambda>d. d < 16) ds \<Longrightarrow>
   scan_nat 16 CHR ''0'' False m v (map nibble_char ds) = (foldl (\<lambda>v d. v * 16 + d) v ds, m + length ds, False, [])"
  by (induction ds arbitrary: m v) (simp_all add: nibble_char)

lemma hex_nibbles_value:
  "list_all (\<lambda>d. d < 16) (hex_nibbles n) \<and> foldl (\<lambda>v d. v * 16 + d) 0 (hex_nibbles n) = n \<and> hex_nibbles n \<noteq> []"
proof (induction n rule: hex_nibbles.induct)
  case (1 n)
  then show ?case by (cases "n < 16") (simp_all add: hex_nibbles.simps [of n])
qed

lemma big_SetString_hexutil: "big_SetString (hexutil_Uint64 w) = Some (uint w)"
  using hex_nibbles_value [of "unat w"]
  by (simp add: big_SetString_def hexutil_Uint64_def scan_prefix_def scan_nibbles)

text \<open>
  A node that answers \<open>eth_blockNumber\<close> is understood; one that reports an error is asked again.
\<close>

lemma smart_height_answer:
  assumes "Option.bind (net k url ReqSmartHeight) (JsonUnmarshalBlockNumber J) = Some (hexutil_Uint64 w, e)"
  shows "smart_height_at J net url k = (if is_failure e then -1 else w)"
  using assms by (simp add: smart_height_at_def big_SetString_hexutil big_Int64_def)

subsection \<open>A main-chain node that reports an error\<close>

text \<open>
  \<open>GetMainnetHeight\<close> takes the result that comes with an error for the height: a main-chain
  node that answers \<open>getblockcount\<close> with an error, as one does that is still loading its
  blocks, is read as being at the height 0 that the missing result decodes to, at once and
  with the error recorded. \<open>NetworkSmartHeight\<close> asks again in the same situation, and never
  returns while it lasts.
\<close>

theorem GetMainnetHeight_reports_error:
  assumes "Option.bind (net k (cl_url client) ReqStrBlockCount) (JsonUnmarshalBlockCount J) = Some (0, Some e)"
    and "\<And>j. k \<le> j \<Longrightarrow> \<exists>result. Option.bind (net j (cl_url client) ReqSmartHeight) (JsonUnmarshalBlockNumber J) = Some (result, Some e)"
    and "je_Code e < 0"
  shows "GetMainnetHeight J net (Some client) k = Some (0, client\<lparr>cl_err := True\<rparr>, k + 1)
    \<and> NetworkSmartHeight J net (Some client) k = None"
proof
  show "GetMainnetHeight J net (Some client) k = Some (0, client\<lparr>cl_err := True\<rparr>, k + 1)"
    using assms(1,3) by (simp add: GetMainnetHeight_def ask_height.simps getCurrHeight_def sendRequest_def is_failure_def)
  have "smart_height_at J net (cl_url client) j = -1" if "k \<le> j" for j
    using assms(2) [OF that] assms(3) by (auto simp: smart_height_at_def is_failure_def)
  then have "\<not> least_from (smart_height_at J net (cl_url client)) k j" for j
    by (auto simp: least_from_def)
  then show "NetworkSmartHeight J net (Some client) k = None"
    using sh.ask_height_Some [of J net client k] by (cases "ask_height (netSmartHeight J net) client k") (auto simp: NetworkSmartHeight_def)
qed

definition sample_client :: RpcClientImp where
  "sample_client = \<lparr>cl_url = ''http://main'', cl_user = ''zeniq'', cl_password = ''zeniq123'', cl_contentType = ''text/plain;'', cl_err = False\<rparr>"

text \<open>Answers that are decoded already; a node that is loading its blocks.\<close>

datatype answer = Cross "u256 CCrpcResponses" | Count i64 "JsonRpcError option" | Number string "JsonRpcError option" | Peers "PeerInfo list"

definition answer_ext :: "answer client_ext" where
  "answer_ext = \<lparr>
     JsonUnmarshalPeersInfo = (\<lambda>r. case r of Peers ps \<Rightarrow> Some ps | _ \<Rightarrow> None),
     JsonUnmarshalBlockCount = (\<lambda>r. case r of Count n e \<Rightarrow> Some (n, e) | _ \<Rightarrow> None),
     JsonUnmarshalBlockNumber = (\<lambda>r. case r of Number s e \<Rightarrow> Some (s, e) | _ \<Rightarrow> None),
     SetString_garbage = (\<lambda>_. 0) \<rparr>"

definition loading :: JsonRpcError where
  "loading = \<lparr>je_Code = -28, je_Message = ''Loading block index...''\<rparr>"

definition loading_net :: "answer net" where
  "loading_net k url r = (case r of ReqStrBlockCount \<Rightarrow> Some (Count 0 (Some loading)) | ReqSmartHeight \<Rightarrow> Some (Number [] (Some loading)) | _ \<Rightarrow> None)"

theorem GetMainnetHeight_reports_error_witness:
  "GetMainnetHeight answer_ext loading_net (Some sample_client) 0 = Some (0, sample_client\<lparr>cl_err := True\<rparr>, 1)
   \<and> NetworkSmartHeight answer_ext loading_net (Some sample_client) 0 = None"
  using GetMainnetHeight_reports_error [of loading_net 0 sample_client answer_ext loading]
  by (simp add: loading_net_def answer_ext_def loading_def)

end
