(* ===== verification/App_Wait.thy ===== *)
theory App_Wait
  imports App_Block Main_Client
begin

text \<open>
  What \<open>BeginBlock\<close> of \<open>src/app/app.go\<close> waits for before it takes a block: space on the disk, the
  other smart-chain nodes when this node has to stay behind them, and the main chain. The
  waiting loops ask the nodes again and again, with the requests counted as in \<open>Main_Client\<close>; a
  loop that does not end and a panic are \<open>None\<close>.
\<close>

subsection \<open>The main chain\<close>

definition main_epoch :: "('c, 'b, 'd, 'v, 'r, 'm) ccrpc_ext_scheme \<Rightarrow> 'r net \<Rightarrow> string \<Rightarrow> nat \<Rightarrow> i64 \<Rightarrow> 'd CCrpcEpoch option" where
  "main_epoch F net url k h = FetchCrosschain F (\<lambda>first lst minimum. net k url (ReqStrCC first lst minimum)) h h 0"

definition MainTime :: "('c, 'b, 'd, 'v, 'r, 'm) ccrpc_ext_scheme \<Rightarrow> 'r client_ext \<Rightarrow> 'r net \<Rightarrow> ('x, 'f) app_block \<Rightarrow>
    RpcClientImp option \<Rightarrow> nat \<Rightarrow> (i64 \<times> RpcClientImp \<times> nat) option" where
  "MainTime F J net app client k = do {
     (h, client, k) \<leftarrow> GetMainnetHeight J net client k;
     let fcc = main_epoch F net (cl_url client) k h;
     Some (case fcc of None \<Rightarrow> b_Timestamp (ab_block app) | Some fcc \<Rightarrow> ce_EpochEndBlockTime fcc, client, k + 1) }"

definition mainnetNetworkOK :: "'r client_ext \<Rightarrow> 'r net \<Rightarrow> RpcClientImp \<Rightarrow> nat \<Rightarrow> bool \<times> RpcClientImp \<times> nat" where
  "mainnetNetworkOK J net client k =
     (let (n, client, k) = GetMainnetActivePeersCount J net client k in (\<not> n < 4, client, k))"

definition maxLagMain :: "i64 \<Rightarrow> i64" where
  "maxLagMain h = (if sint h > 24000000 then 24 * 3600 else 3600)"

partial_function (option) wait_main ::
  "('c, 'b, 'd, 'v, 'r, 'm) ccrpc_ext_scheme \<Rightarrow> 'r client_ext \<Rightarrow> 'r net \<Rightarrow> ('x, 'f) app_block \<Rightarrow> i64 \<Rightarrow>
    RpcClientImp \<Rightarrow> nat \<Rightarrow> (RpcClientImp \<times> nat) option" where
  "wait_main F J net app h client k = do {
     let require_mainnet_time = b_Timestamp (ab_block app) - maxLagMain h;
     (mainnet_time, client, k) \<leftarrow> MainTime F J net app (Some client) k;
     if sint require_mainnet_time \<le> sint mainnet_time then Some (client, k)
     else if sint h > 24000000 \<and> sint require_mainnet_time > sint mainnet_time
     then (case mainnetNetworkOK J net client k of (ok, client, k) \<Rightarrow>
             if ok then Some (client, k) else wait_main F J net app h client k)
     else wait_main F J net app h client k }"

subsection \<open>The other smart-chain nodes\<close>

partial_function (option) wait_smart ::
  "'r client_ext \<Rightarrow> 'r net \<Rightarrow> i64 \<Rightarrow> RpcClientImp option \<Rightarrow> nat \<Rightarrow> nat option" where
  "wait_smart J net until client k = do {
     (height, client, k) \<leftarrow> NetworkSmartHeight J net client k;
     if sint until > sint height then wait_smart J net until (Some client) k else Some k }"

subsection \<open>The whole of \<open>BeginBlock\<close>\<close>

definition app_BeginBlock :: "('c, 'b, 'd, 'v, 'r, 'm) ccrpc_ext_scheme \<Rightarrow> 'r client_ext \<Rightarrow> 'r net \<Rightarrow> u64 \<Rightarrow> u64 \<Rightarrow> i64 \<Rightarrow> string \<Rightarrow>
    RpcClientImp \<Rightarrow> ('x, 'f) app_block \<Rightarrow> RequestBeginBlock \<Rightarrow> nat \<Rightarrow> (('x, 'f) app_block \<times> RpcClientImp \<times> nat) option" where
  "app_BeginBlock F J net bavail bsize nBehind smartUrl client app req k =
     (if bavail * bsize < 1000000 then None
      else do {
        let h = rq_Height req;
        k \<leftarrow> (if sint nBehind > 0
              then wait_smart J net (nBehind + h) (NewRpcClient smartUrl [] [] ''application/json'') k
              else Some k);
        (client, k) \<leftarrow> wait_main F J net app h client k;
        Some (BeginBlock app req, client, k) })"

subsection \<open>What the loops return\<close>

text \<open>The time a round of the loop reads, when the height was the answer to request \<open>j\<close>.\<close>

definition main_time_at :: "('c, 'b, 'd, 'v, 'r, 'm) ccrpc_ext_scheme \<Rightarrow> 'r client_ext \<Rightarrow> 'r net \<Rightarrow> string \<Rightarrow> i64 \<Rightarrow> nat \<Rightarrow> i64" where
  "main_time_at F J net url ts j = (case main_epoch F net url (j + 1) (main_height_at J net url j) of
       None \<Rightarrow> ts | Some e \<Rightarrow> ce_EpochEndBlockTime e)"

lemma MainTime_at:
  assumes "least_from (main_height_at J net (cl_url client)) k j"
  shows "\<exists>e. MainTime F J net app (Some client) k
    = Some (main_time_at F J net (cl_url client) (b_Timestamp (ab_block app)) j, client\<lparr>cl_err := e\<rparr>, j + 2)"
  using mh.ask_height_least [OF assms] by (auto simp: MainTime_def GetMainnetHeight_def main_time_at_def split: option.split)

lemma MainTime_Some:
  assumes "MainTime F J net app (Some client) k = Some (t, client', k')"
  shows "\<exists>j e. least_from (main_height_at J net (cl_url client)) k j \<and> k' = j + 2 \<and> client' = client\<lparr>cl_err := e\<rparr>
    \<and> t = main_time_at F J net (cl_url client) (b_Timestamp (ab_block app)) j"
proof -
  obtain r where "ask_height (getCurrHeight J net) client k = Some r"
    using assms by (auto simp: MainTime_def GetMainnetHeight_def Option.bind_eq_Some_conv)
  from mh.ask_height_Some [OF this] obtain j where j: "least_from (main_height_at J net (cl_url client)) k j" by blast
  with MainTime_at [OF j, of F app] assms show ?thesis by auto
qed

lemma mainnetNetworkOK_at:
  "\<exists>e. mainnetNetworkOK J net client k = (4 \<le> active_peers_at J net (cl_url client) k, client\<lparr>cl_err := e\<rparr>, k + 1)"
  using active_peers_at [of J net client k] by (auto simp: mainnetNetworkOK_def)

text \<open>Why a round ends the loop: the main chain is there, or it lives and the chain is past the height.\<close>

definition main_passes :: "('c, 'b, 'd, 'v, 'r, 'm) ccrpc_ext_scheme \<Rightarrow> 'r client_ext \<Rightarrow> 'r net \<Rightarrow> string \<Rightarrow> i64 \<Rightarrow> i64 \<Rightarrow> nat \<Rightarrow> nat \<Rightarrow> bool" where
  "main_passes F J net url ts h j k' \<longleftrightarrow> main_height_at J net url j \<noteq> -1 \<and>
     (if sint (ts - maxLagMain h) \<le> sint (main_time_at F J net url ts j) then k' = j + 2
      else sint h > 24000000 \<and> 4 \<le> active_peers_at J net url (j + 2) \<and> k' = j + 3)"

text \<open>One round, for a loop body whose recursive call is \<open>self\<close>.\<close>

lemma wait_main_round:
  assumes step: "(let require = b_Timestamp (ab_block app) - maxLagMain h in
      MainTime F J net app (Some client) k \<bind> (\<lambda>(t, client, k).
        if sint require \<le> sint t then Some (client, k)
        else if sint h > 24000000 \<and> sint require > sint t
        then (case mainnetNetworkOK J net client k of (ok, client, k) \<Rightarrow> if ok then Some (client, k) else self client k)
        else self client k)) = Some r"
  shows "(\<exists>j e. k \<le> j \<and> main_passes F J net (cl_url client) (b_Timestamp (ab_block app)) h j (snd r) \<and> fst r = client\<lparr>cl_err := e\<rparr>)
    \<or> (\<exists>e k'. k < k' \<and> self (client\<lparr>cl_err := e\<rparr>) k' = Some r)"
proof -
  obtain t c' k1 where m: "MainTime F J net app (Some client) k = Some (t, c', k1)"
    using step by (cases "MainTime F J net app (Some client) k") (auto simp: Let_def)
  from MainTime_Some [OF m] obtain j e where j: "least_from (main_height_at J net (cl_url client)) k j" "k1 = j + 2"
    "c' = client\<lparr>cl_err := e\<rparr>" "t = main_time_at F J net (cl_url client) (b_Timestamp (ab_block app)) j" by blast
  obtain e' where n: "mainnetNetworkOK J net c' k1 = (4 \<le> active_peers_at J net (cl_url client) k1, client\<lparr>cl_err := e'\<rparr>, k1 + 1)"
    using mainnetNetworkOK_at [of J net c' k1] j(3) by auto
  have "k \<le> j" "main_height_at J net (cl_url client) j \<noteq> -1" using j(1) by (simp_all add: least_from_def)
  moreover have "k < k1 + 1" "k < k1" using \<open>k \<le> j\<close> j(2) by simp_all
  ultimately show ?thesis
    using step m n j(2-4) unfolding main_passes_def
    by (cases "sint (b_Timestamp (ab_block app) - maxLagMain h) \<le> sint t"; cases "sint h > 24000000";
        cases "4 \<le> active_peers_at J net (cl_url client) k1") (force simp: Let_def)+
qed

lemma wait_main_Some:
  assumes "wait_main F J net app h client k = Some r"
  shows "\<exists>j. k \<le> j \<and> main_passes F J net (cl_url client) (b_Timestamp (ab_block app)) h j (snd r) \<and> cl_url (fst r) = cl_url client"
proof -
  let ?P = "\<lambda>c m r. \<exists>j. m \<le> j \<and> main_passes F J net (cl_url c) (b_Timestamp (ab_block app)) h j (snd r) \<and> cl_url (fst r) = cl_url c"
  have "(F, J, net, app, h) = (F, J, net, app, h) \<longrightarrow> ?P client k r"
  proof (rule wait_main.raw_induct [where P = "\<lambda>F' J' net' app' h' c m r. (F', J', net', app', h') = (F, J, net, app, h) \<longrightarrow> ?P c m r", OF _ assms], rule impI)
    fix self F' J' net' app' h' c m r
    assume IH: "\<And>F' J' net' app' h' c m r. self F' J' net' app' h' c m = Some r \<Longrightarrow> (F', J', net', app', h') = (F, J, net, app, h) \<longrightarrow> ?P c m r"
      and eq: "(F', J', net', app', h') = (F, J, net, app, h)"
      and step: "(let require = b_Timestamp (ab_block app') - maxLagMain h' in
        MainTime F' J' net' app' (Some c) m \<bind> (\<lambda>(t, client, k).
          if sint require \<le> sint t then Some (client, k)
          else if sint h' > 24000000 \<and> sint require > sint t
          then (case mainnetNetworkOK J' net' client k of (ok, client, k) \<Rightarrow> if ok then Some (client, k) else self F' J' net' app' h' client k)
          else self F' J' net' app' h' client k)) = Some r"
    have eqs: "F' = F" "J' = J" "net' = net" "app' = app" "h' = h" using eq by simp_all
    from wait_main_round [OF step [unfolded eqs]]
    show "?P c m r"
    proof
      assume "\<exists>e k'. m < k' \<and> self F J net app h (c\<lparr>cl_err := e\<rparr>) k' = Some r"
      then obtain e k' where k': "m < k'" "self F J net app h (c\<lparr>cl_err := e\<rparr>) k' = Some r" by blast
      from IH [OF k'(2)] obtain j where "k' \<le> j" "main_passes F J net (cl_url c) (b_Timestamp (ab_block app)) h j (snd r)"
        "cl_url (fst r) = cl_url c" by auto
      then show ?thesis using k'(1) by (intro exI [of _ j]) simp
    qed auto
  qed
  then show ?thesis by simp
qed

lemma wait_smart_Some:
  assumes "wait_smart J net until client k = Some k'"
  shows "\<exists>c j. client = Some c \<and> k \<le> j \<and> j < k' \<and> smart_height_at J net (cl_url c) j \<noteq> -1
    \<and> sint until \<le> sint (smart_height_at J net (cl_url c) j)"
proof -
  let ?P = "\<lambda>cl m m'. \<exists>c j. cl = Some c \<and> m \<le> j \<and> j < m' \<and> smart_height_at J net (cl_url c) j \<noteq> -1
    \<and> sint until \<le> sint (smart_height_at J net (cl_url c) j)"
  have "(J, net, until) = (J, net, until) \<longrightarrow> ?P client k k'"
  proof (rule wait_smart.raw_induct [where P = "\<lambda>J' net' u cl m m'. (J', net', u) = (J, net, until) \<longrightarrow> ?P cl m m'", OF _ assms], rule impI)
    fix self J' net' u cl m m'
    assume IH: "\<And>J' net' u cl m m'. self J' net' u cl m = Some m' \<Longrightarrow> (J', net', u) = (J, net, until) \<longrightarrow> ?P cl m m'"
      and eq: "(J', net', u) = (J, net, until)"
      and step: "NetworkSmartHeight J' net' cl m \<bind> (\<lambda>(height, client, k).
        if sint u > sint height then self J' net' u (Some client) k else Some k) = Some m'"
    have eqs: "J' = J" "net' = net" "u = until" using eq by simp_all
    from step obtain c r where c: "cl = Some c" "ask_height (netSmartHeight J net) c m = Some r"
      by (auto simp: NetworkSmartHeight_def eqs Option.bind_eq_Some_conv)
    from sh.ask_height_Some [OF c(2)] obtain j e where j: "least_from (smart_height_at J net (cl_url c)) m j"
      "r = (smart_height_at J net (cl_url c) j, c\<lparr>cl_err := e\<rparr>, j + 1)" by blast
    have le: "m \<le> j" "smart_height_at J net (cl_url c) j \<noteq> -1" using j(1) by (simp_all add: least_from_def)
    show "?P cl m m'"
    proof (cases "sint until > sint (smart_height_at J net (cl_url c) j)")
      case True
      then have "self J net until (Some (c\<lparr>cl_err := e\<rparr>)) (j + 1) = Some m'"
        using step c j by (simp add: NetworkSmartHeight_def eqs)
      from IH [OF this] obtain i where "j + 1 \<le> i" "i < m'" "smart_height_at J net (cl_url c) i \<noteq> -1"
        "sint until \<le> sint (smart_height_at J net (cl_url c) i)" by auto
      then show ?thesis using c(1) le(1) by (intro exI [of _ c] exI [of _ i]) simp
    next
      case False
      then have "m' = j + 1" using step c j by (simp add: NetworkSmartHeight_def eqs)
      then show ?thesis using c(1) le False by auto
    qed
  qed
  then show ?thesis by simp
qed

subsection \<open>The loops end\<close>

lemma wait_smart_returns:
  assumes "k \<le> j" and "smart_height_at J net (cl_url c) j \<noteq> -1" and "sint until \<le> sint (smart_height_at J net (cl_url c) j)"
  shows "\<exists>k'. wait_smart J net until (Some c) k = Some k'"
  using assms
proof (induction "j - k" arbitrary: c k rule: less_induct)
  case less
  from sh.ask_height_returns [OF less(2,3)] obtain i e where i: "i \<le> j" "least_from (smart_height_at J net (cl_url c)) k i"
    "ask_height (netSmartHeight J net) c k = Some (smart_height_at J net (cl_url c) i, c\<lparr>cl_err := e\<rparr>, i + 1)" by blast
  show ?case
  proof (cases "sint until > sint (smart_height_at J net (cl_url c) i)")
    case True
    then have "i < j" "k \<le> i" using less(4) i(1,2) by (auto simp: least_from_def le_less)
    then have "\<exists>k'. wait_smart J net until (Some (c\<lparr>cl_err := e\<rparr>)) (i + 1) = Some k'"
      using less(3,4) by (intro less(1)) auto
    then show ?thesis using True i(3) by (subst wait_smart.simps) (simp add: NetworkSmartHeight_def)
  next
    case False
    then show ?thesis using i(3) by (subst wait_smart.simps) (simp add: NetworkSmartHeight_def)
  qed
qed

lemma wait_main_returns:
  assumes "\<And>j. N \<le> j \<Longrightarrow> main_height_at J net (cl_url client) j \<noteq> -1
      \<and> sint (b_Timestamp (ab_block app) - maxLagMain h) \<le> sint (main_time_at F J net (cl_url client) (b_Timestamp (ab_block app)) j)"
  shows "\<exists>r. wait_main F J net app h client k = Some r"
  using assms
proof (induction "N - k" arbitrary: client k rule: less_induct)
  case less
  let ?ts = "b_Timestamp (ab_block app)"
  from mh.ask_height_returns [of k "max k N" J net client] less(2) [of "max k N"] obtain j
    where j: "least_from (main_height_at J net (cl_url client)) k j" by auto
  from MainTime_at [OF j, of F app] obtain e where m: "MainTime F J net app (Some client) k
    = Some (main_time_at F J net (cl_url client) ?ts j, client\<lparr>cl_err := e\<rparr>, j + 2)" by blast
  have "k \<le> j" using j by (simp add: least_from_def)
  show ?case
  proof (cases "N \<le> j")
    case True
    then show ?thesis using less(2) [OF True] m by (subst wait_main.simps) (simp add: Let_def)
  next
    case False
    have "\<exists>r. wait_main F J net app h (client\<lparr>cl_err := e'\<rparr>) k' = Some r" if "j + 2 \<le> k'" for e' k'
      using False \<open>k \<le> j\<close> that less(2) by (intro less(1)) auto
    then show ?thesis
      using m mainnetNetworkOK_at [of J net "client\<lparr>cl_err := e\<rparr>" "j + 2"]
      by (subst wait_main.simps) (auto simp: Let_def)
  qed
qed

lemma BeginBlock_returns:
  assumes "1000000 \<le> bavail * bsize"
    and "0 < sint nBehind \<Longrightarrow> smartUrl \<noteq> [] \<and> (\<exists>j \<ge> k. smart_height_at J net smartUrl j \<noteq> -1
      \<and> sint (nBehind + rq_Height req) \<le> sint (smart_height_at J net smartUrl j))"
    and "\<And>j. N \<le> j \<Longrightarrow> main_height_at J net (cl_url client) j \<noteq> -1 \<and>
      (\<exists>e. main_epoch F net (cl_url client) (j + 1) (main_height_at J net (cl_url client) j) = Some e
        \<and> sint (b_Timestamp (ab_block app) - maxLagMain (rq_Height req)) \<le> sint (ce_EpochEndBlockTime e))"
  shows "\<exists>client' k'. app_BeginBlock F J net bavail bsize nBehind smartUrl client app req k = Some (BeginBlock app req, client', k')"
proof -
  obtain k1 where k1: "(if sint nBehind > 0
      then wait_smart J net (nBehind + rq_Height req) (NewRpcClient smartUrl [] [] ''application/json'') k else Some k) = Some k1"
  proof (cases "sint nBehind > 0")
    case True
    with assms(2) obtain j where "smartUrl \<noteq> []" "k \<le> j" "smart_height_at J net smartUrl j \<noteq> -1"
      "sint (nBehind + rq_Height req) \<le> sint (smart_height_at J net smartUrl j)" by blast
    then show ?thesis using True that wait_smart_returns [of k j J net "the (NewRpcClient smartUrl [] [] ''application/json'')"]
      by (auto simp: NewRpcClient_def)
  qed (use that in simp)
  have "\<exists>r. wait_main F J net app (rq_Height req) client k1 = Some r"
    using assms(3) by (intro wait_main_returns [where N = N]) (force simp: main_time_at_def)
  then show ?thesis using assms(1) k1 by (auto simp: app_BeginBlock_def Let_def)
qed

subsection \<open>What \<open>BeginBlock\<close> waits for\<close>

text \<open>
  C12: A block is taken only when the disk has a megabyte left, a smart-chain node was seen
  \<open>BlocksBehind\<close> blocks ahead of it (if that is configured), and the main chain was reached: its
  newest block is at most an hour (a day, after block 24000000) older than the last
  block, or the request for it failed, or the main-chain node has four active peers and the
  block is past 24000000. Then the application records the block as \<open>BeginBlock\<close> does.
\<close>

theorem BeginBlock_waits:
  assumes "app_BeginBlock F J net bavail bsize nBehind smartUrl client app req k = Some (app', client', k')"
  defines "ts \<equiv> b_Timestamp (ab_block app)" and "h \<equiv> rq_Height req" and "url \<equiv> cl_url client"
  shows "app' = BeginBlock app req \<and> 1000000 \<le> bavail * bsize
    \<and> (0 < sint nBehind \<longrightarrow> (\<exists>j < k'. smart_height_at J net smartUrl j \<noteq> -1 \<and> sint (nBehind + h) \<le> sint (smart_height_at J net smartUrl j)))
    \<and> (\<exists>j < k'. main_height_at J net url j \<noteq> -1 \<and>
        (case main_epoch F net url (j + 1) (main_height_at J net url j) of
           None \<Rightarrow> True
         | Some e \<Rightarrow> sint (ts - maxLagMain h) \<le> sint (ce_EpochEndBlockTime e)
             \<or> sint h > 24000000 \<and> 4 \<le> active_peers_at J net url (j + 2)))"
proof -
  from assms(1) obtain k1 where space: "1000000 \<le> bavail * bsize"
    and k1: "(if sint nBehind > 0 then wait_smart J net (nBehind + h) (NewRpcClient smartUrl [] [] ''application/json'') k else Some k) = Some k1"
    and main: "wait_main F J net app h client k1 = Some (client', k')" and app: "app' = BeginBlock app req"
    by (auto simp: app_BeginBlock_def h_def Let_def not_less Option.bind_eq_Some_conv split: if_splits)
  from wait_main_Some [OF main] obtain j where j: "k1 \<le> j" "main_passes F J net url ts h j k'"
    by (auto simp: url_def ts_def)
  then have "j < k'" by (auto simp: main_passes_def split: if_splits)
  have "\<exists>i < k'. smart_height_at J net smartUrl i \<noteq> -1 \<and> sint (nBehind + h) \<le> sint (smart_height_at J net smartUrl i)" if pos: "0 < sint nBehind"
  proof -
    obtain c i where "NewRpcClient smartUrl [] [] ''application/json'' = Some c" and i: "i < k1"
      "smart_height_at J net (cl_url c) i \<noteq> -1" "sint (nBehind + h) \<le> sint (smart_height_at J net (cl_url c) i)"
      using wait_smart_Some [of J net "nBehind + h" "NewRpcClient smartUrl [] [] ''application/json''" k k1] pos k1 by auto
    then have "cl_url c = smartUrl" by (auto simp: NewRpcClient_def split: if_splits)
    then show ?thesis using i \<open>j < k'\<close> j(1) by (intro exI [of _ i]) simp
  qed
  moreover have "\<exists>j < k'. main_height_at J net url j \<noteq> -1 \<and>
        (case main_epoch F net url (j + 1) (main_height_at J net url j) of
           None \<Rightarrow> True
         | Some e \<Rightarrow> sint (ts - maxLagMain h) \<le> sint (ce_EpochEndBlockTime e)
             \<or> sint h > 24000000 \<and> 4 \<le> active_peers_at J net url (j + 2))"
    using j(2) \<open>j < k'\<close> by (intro exI [of _ j]) (auto simp: main_passes_def main_time_at_def split: option.splits if_splits)
  ultimately show ?thesis using app space by blast
qed

text \<open>
  C13: The waiting ends: when the disk has space, a smart-chain node is once seen far enough ahead
  (if that is configured) and the main-chain node answers from some request on with a height
  and, at that height, a block that is not too old, \<open>BeginBlock\<close> returns, however many requests
  failed before.
\<close>

theorem BeginBlock_proceeds:
  assumes "1000000 \<le> bavail * bsize"
    and "0 < sint nBehind \<Longrightarrow> smartUrl \<noteq> [] \<and> (\<exists>j \<ge> k. smart_height_at J net smartUrl j \<noteq> -1
      \<and> sint (nBehind + rq_Height req) \<le> sint (smart_height_at J net smartUrl j))"
    and "\<And>j. N \<le> j \<Longrightarrow> main_height_at J net (cl_url client) j \<noteq> -1 \<and>
      (\<exists>e. main_epoch F net (cl_url client) (j + 1) (main_height_at J net (cl_url client) j) = Some e
        \<and> sint (b_Timestamp (ab_block app) - maxLagMain (rq_Height req)) \<le> sint (ce_EpochEndBlockTime e))"
  shows "\<exists>client' k'. app_BeginBlock F J net bavail bsize nBehind smartUrl client app req k = Some (BeginBlock app req, client', k')"
  using assms by (rule BeginBlock_returns)

text \<open>
  A main-chain node at block 500, of time 100000, and a smart-chain node at block 30; the first
  four requests fail.
\<close>

definition answer_ccrpc :: "(mem_ctx, (bytes \<times> u256 CCrpcEpoch) list, u256, u256 CCrpcEpoch, answer) ccrpc_ext" where
  "answer_ccrpc = \<lparr>
     db_Set = db_Set list_ccrpc, db_Iterator = db_Iterator list_ccrpc, db_ReverseIterator = db_ReverseIterator list_ccrpc,
     JsonMarshalEpoch = Some, JsonUnmarshalEpoch = Some, PubkeyToAddress = PubkeyToAddress list_ccrpc,
     BlockTime = BlockTime list_ccrpc, Shift = Shift list_ccrpc, FromDecimal = Some,
     JsonUnmarshalError = (\<lambda>r. (False, None)),
     JsonUnmarshalResponses = (\<lambda>r e. case r of Cross c \<Rightarrow> Some c | _ \<Rightarrow> None) \<rparr>"

definition late_net :: "answer net" where
  "late_net k url r = (if k < 4 then None else Some (case r of
       ReqPeerInfo \<Rightarrow> Peers [] | ReqStrBlockCount \<Rightarrow> Count 500 None | ReqSmartHeight \<Rightarrow> Number (hexutil_Uint64 30) None
     | ReqStrCC _ _ _ \<Rightarrow> Cross \<lparr>rs_EpochEndBlockTime = 100000, rs_CC = [], rs_Error = None\<rparr>))"

definition late_app :: "(mem_ctx, map_frontier) app_block" where
  "late_app = (block_app zero_StakingInfo)\<lparr>ab_block := \<lparr>b_Number = 5, b_Timestamp = 103000, b_Size = 0, b_Miner = 2, b_ParentHash = 0,
     b_TransactionsRoot = 0, b_Hash = 0, b_StateRoot = 0, b_GasUsed = 0\<rparr>\<rparr>"

definition late_req :: RequestBeginBlock where
  "late_req = \<lparr>rq_Height = 6, rq_Time = 103005, rq_Size = 100, rq_ProposerAddress = [], rq_Votes = [], rq_LastBlockHash = [],
     rq_DataHash = [], rq_Hash = [], rq_AppHash = [], rq_ByzantineValidators = []\<rparr>"

lemma late_smart: "4 \<le> j \<Longrightarrow> smart_height_at answer_ext late_net url j = 30"
  by (subst smart_height_answer [where w = 30 and e = None]) (simp_all add: late_net_def answer_ext_def is_failure_def)

lemma late_main:
  "4 \<le> j \<Longrightarrow> main_height_at answer_ext late_net url j = 500"
  "4 \<le> j \<Longrightarrow> \<exists>e. main_epoch answer_ccrpc late_net url j h = Some e \<and> ce_EpochEndBlockTime e = 100000"
  by (simp_all add: main_height_at_def main_epoch_def late_net_def answer_ext_def answer_ccrpc_def FetchCrosschain_def getCrosschain_def DO_GetCrosschain_def)

lemmas late_defs = late_app_def late_req_def maxLagMain_def

lemma late_main_ok:
  "4 \<le> j \<Longrightarrow> main_height_at answer_ext late_net (cl_url sample_client) j \<noteq> -1 \<and>
    (\<exists>e. main_epoch answer_ccrpc late_net (cl_url sample_client) (j + 1) (main_height_at answer_ext late_net (cl_url sample_client) j) = Some e
      \<and> sint (b_Timestamp (ab_block late_app) - maxLagMain (rq_Height late_req)) \<le> sint (ce_EpochEndBlockTime e))"
  using late_main(1) [of j "cl_url sample_client"] late_main(2) [of "j + 1" "cl_url sample_client" 500] by (auto simp: late_defs)

lemma late_smart_ok:
  "''http://smart'' \<noteq> [] \<and> (\<exists>j \<ge> 0. smart_height_at answer_ext late_net ''http://smart'' j \<noteq> -1
    \<and> sint (10 + rq_Height late_req) \<le> sint (smart_height_at answer_ext late_net ''http://smart'' j))"
  by (auto intro!: exI [of _ 4] simp: late_smart late_defs)

theorem BeginBlock_proceeds_witness:
  "\<exists>client' k'. app_BeginBlock answer_ccrpc answer_ext late_net 1000 4096 10 ''http://smart'' sample_client late_app late_req 0
     = Some (BeginBlock late_app late_req, client', k')"
  by (rule BeginBlock_proceeds [where N = 4]) (simp, rule late_smart_ok, rule late_main_ok)

theorem BeginBlock_waits_witness:
  "\<exists>app' client' k'. app_BeginBlock answer_ccrpc answer_ext late_net 1000 4096 10 ''http://smart'' sample_client late_app late_req 0
     = Some (app', client', k') \<and> ab_currHeight app' = 6
     \<and> (\<exists>j < k'. smart_height_at answer_ext late_net ''http://smart'' j \<noteq> -1 \<and> 16 \<le> sint (smart_height_at answer_ext late_net ''http://smart'' j))"
proof -
  have "\<exists>client' k'. app_BeginBlock answer_ccrpc answer_ext late_net 1000 4096 10 ''http://smart'' sample_client late_app late_req 0
     = Some (BeginBlock late_app late_req, client', k')"
    by (rule BeginBlock_returns [where N = 4]) (simp, rule late_smart_ok, rule late_main_ok)
  then obtain client' k' where run: "app_BeginBlock answer_ccrpc answer_ext late_net 1000 4096 10 ''http://smart'' sample_client late_app late_req 0
     = Some (BeginBlock late_app late_req, client', k')" by blast
  with BeginBlock_waits [OF run] show ?thesis by (auto simp: late_req_def BeginBlock_def)
qed

end
