(* ===== verification/CC_Types.thy ===== *)
theory CC_Types
  imports Staking_Codec
begin

text \<open>
  The cross-chain data model (\<open>src/crosschain/types/types.go\<close>) and its generated codecs
  (\<open>src/crosschain/types/types_gen.go\<close>), in the form of the staking codecs. An unspent
  output is named by 36 bytes (transaction and output index), a sender by a compressed
  public key of 33 bytes; both are the words their bytes spell.
\<close>

type_synonym utxo = "288 word"
type_synonym pubkey33 = "264 word"

record CCTransferInfo =
  cct_UTXO :: utxo
  cct_Amount :: u64
  cct_SenderPubkey :: pubkey33

record CCEpoch =
  cce_Number :: i64
  cce_StartHeight :: i64
  cce_EndTime :: i64
  cce_TransferInfos :: "CCTransferInfo list"

record CCInfo =
  cci_GenesisMainnetBlockHeight :: i64
  cci_CurrEpochNum :: i64

definition Marshal_CCTransferInfo :: "msgp_ops \<Rightarrow> bytes \<Rightarrow> CCTransferInfo \<Rightarrow> bytes" where
  "Marshal_CCTransferInfo rt b z =
     (let o1 = b @ [0x83, 0xa4, 0x55, 0x54, 0x58, 0x4f];
          o2 = AppendBytes rt o1 (be_bytes 36 (cct_UTXO z));
          o3 = o2 @ [0xa6, 0x41, 0x6d, 0x6f, 0x75, 0x6e, 0x74];
          o4 = AppendUint64 rt o3 (cct_Amount z);
          o5 = o4 @ [0xac, 0x53, 0x65, 0x6e, 0x64, 0x65, 0x72, 0x50, 0x75, 0x62, 0x6b, 0x65, 0x79]
      in AppendBytes rt o5 (be_bytes 33 (cct_SenderPubkey z)))"

definition Unmarshal_CCTransferInfo :: "msgp_ops \<Rightarrow> CCTransferInfo \<Rightarrow> bytes \<Rightarrow> (CCTransferInfo \<times> bytes) option" where
  "Unmarshal_CCTransferInfo rt = read_struct rt (\<lambda>field z bts.
     if field = str ''UTXO'' then do {
       (x, bts) \<leftarrow> ReadExactBytes rt bts 36; Some (z\<lparr>cct_UTXO := be_val x\<rparr>, bts) }
     else if field = str ''Amount'' then do {
       (x, bts) \<leftarrow> ReadUint64Bytes rt bts; Some (z\<lparr>cct_Amount := x\<rparr>, bts) }
     else if field = str ''SenderPubkey'' then do {
       (x, bts) \<leftarrow> ReadExactBytes rt bts 33; Some (z\<lparr>cct_SenderPubkey := be_val x\<rparr>, bts) }
     else do { bts \<leftarrow> Skip rt bts; Some (z, bts) })"

definition zero_CCTransferInfo :: CCTransferInfo where
  "zero_CCTransferInfo = \<lparr>cct_UTXO = 0, cct_Amount = 0, cct_SenderPubkey = 0\<rparr>"

text \<open>The struct with its slice of pointers, and the codecs seen from a struct without nil pointers.\<close>

record CCEpoch_p =
  cp_Number :: i64
  cp_StartHeight :: i64
  cp_EndTime :: i64
  cp_TransferInfos :: "CCTransferInfo option list"

definition Marshal_CCEpoch_p :: "msgp_ops \<Rightarrow> bytes \<Rightarrow> CCEpoch_p \<Rightarrow> bytes" where
  "Marshal_CCEpoch_p rt b z =
     (let o1 = b @ [0x84, 0xa6, 0x4e, 0x75, 0x6d, 0x62, 0x65, 0x72];
          o2 = AppendInt64 rt o1 (cp_Number z);
          o3 = o2 @ [0xab, 0x53, 0x74, 0x61, 0x72, 0x74, 0x48, 0x65, 0x69, 0x67, 0x68, 0x74];
          o4 = AppendInt64 rt o3 (cp_StartHeight z);
          o5 = o4 @ [0xa7, 0x45, 0x6e, 0x64, 0x54, 0x69, 0x6d, 0x65];
          o6 = AppendInt64 rt o5 (cp_EndTime z);
          o7 = o6 @ [0xad, 0x54, 0x72, 0x61, 0x6e, 0x73, 0x66, 0x65, 0x72, 0x49, 0x6e, 0x66, 0x6f, 0x73];
          o8 = AppendArrayHeader rt o7 (of_nat (length (cp_TransferInfos z)))
      in foldl (append_ptr rt (Marshal_CCTransferInfo rt)) o8 (cp_TransferInfos z))"

definition Unmarshal_CCEpoch_p :: "msgp_ops \<Rightarrow> CCEpoch_p \<Rightarrow> bytes \<Rightarrow> (CCEpoch_p \<times> bytes) option" where
  "Unmarshal_CCEpoch_p rt = read_struct rt (\<lambda>field z bts.
     if field = str ''Number'' then do {
       (x, bts) \<leftarrow> ReadInt64Bytes rt bts; Some (z\<lparr>cp_Number := x\<rparr>, bts) }
     else if field = str ''StartHeight'' then do {
       (x, bts) \<leftarrow> ReadInt64Bytes rt bts; Some (z\<lparr>cp_StartHeight := x\<rparr>, bts) }
     else if field = str ''EndTime'' then do {
       (x, bts) \<leftarrow> ReadInt64Bytes rt bts; Some (z\<lparr>cp_EndTime := x\<rparr>, bts) }
     else if field = str ''TransferInfos'' then do {
       (x, bts) \<leftarrow> read_slice rt (Unmarshal_CCTransferInfo rt) zero_CCTransferInfo (cp_TransferInfos z) bts;
       Some (z\<lparr>cp_TransferInfos := x\<rparr>, bts) }
     else do { bts \<leftarrow> Skip rt bts; Some (z, bts) })"

definition refs_CCEpoch :: "CCEpoch \<Rightarrow> CCEpoch_p" where
  "refs_CCEpoch z = \<lparr>cp_Number = cce_Number z, cp_StartHeight = cce_StartHeight z, cp_EndTime = cce_EndTime z,
     cp_TransferInfos = map Some (cce_TransferInfos z)\<rparr>"

definition derefs_CCEpoch :: "CCEpoch_p \<Rightarrow> CCEpoch option" where
  "derefs_CCEpoch p = do {
     ts \<leftarrow> those (cp_TransferInfos p);
     Some \<lparr>cce_Number = cp_Number p, cce_StartHeight = cp_StartHeight p, cce_EndTime = cp_EndTime p, cce_TransferInfos = ts\<rparr> }"

definition Marshal_CCEpoch :: "msgp_ops \<Rightarrow> bytes \<Rightarrow> CCEpoch \<Rightarrow> bytes" where
  "Marshal_CCEpoch rt b z = Marshal_CCEpoch_p rt b (refs_CCEpoch z)"

definition Unmarshal_CCEpoch :: "msgp_ops \<Rightarrow> CCEpoch \<Rightarrow> bytes \<Rightarrow> (CCEpoch \<times> bytes) option" where
  "Unmarshal_CCEpoch rt z bts = do {
     (p, bts) \<leftarrow> Unmarshal_CCEpoch_p rt (refs_CCEpoch z) bts;
     z \<leftarrow> derefs_CCEpoch p;
     Some (z, bts) }"

definition zero_CCEpoch :: CCEpoch where
  "zero_CCEpoch = \<lparr>cce_Number = 0, cce_StartHeight = 0, cce_EndTime = 0, cce_TransferInfos = []\<rparr>"

definition Marshal_CCInfo :: "msgp_ops \<Rightarrow> bytes \<Rightarrow> CCInfo \<Rightarrow> bytes" where
  "Marshal_CCInfo rt b z =
     (let o1 = b @ [0x82, 0xb9, 0x47, 0x65, 0x6e, 0x65, 0x73, 0x69, 0x73, 0x4d, 0x61, 0x69, 0x6e, 0x6e, 0x65, 0x74,
            0x42, 0x6c, 0x6f, 0x63, 0x6b, 0x48, 0x65, 0x69, 0x67, 0x68, 0x74];
          o2 = AppendInt64 rt o1 (cci_GenesisMainnetBlockHeight z);
          o3 = o2 @ [0xac, 0x43, 0x75, 0x72, 0x72, 0x45, 0x70, 0x6f, 0x63, 0x68, 0x4e, 0x75, 0x6d]
      in AppendInt64 rt o3 (cci_CurrEpochNum z))"

definition Unmarshal_CCInfo :: "msgp_ops \<Rightarrow> CCInfo \<Rightarrow> bytes \<Rightarrow> (CCInfo \<times> bytes) option" where
  "Unmarshal_CCInfo rt = read_struct rt (\<lambda>field z bts.
     if field = str ''GenesisMainnetBlockHeight'' then do {
       (x, bts) \<leftarrow> ReadInt64Bytes rt bts; Some (z\<lparr>cci_GenesisMainnetBlockHeight := x\<rparr>, bts) }
     else if field = str ''CurrEpochNum'' then do {
       (x, bts) \<leftarrow> ReadInt64Bytes rt bts; Some (z\<lparr>cci_CurrEpochNum := x\<rparr>, bts) }
     else do { bts \<leftarrow> Skip rt bts; Some (z, bts) })"

definition zero_CCInfo :: CCInfo where
  "zero_CCInfo = \<lparr>cci_GenesisMainnetBlockHeight = 0, cci_CurrEpochNum = 0\<rparr>"

subsection \<open>Reading back what was written\<close>

lemma be_val_be_bytes_36 [simp]: "be_val (be_bytes 36 w) = (w :: utxo)"
  by (rule be_val_be_bytes) simp

lemma be_val_be_bytes_33 [simp]: "be_val (be_bytes 33 w) = (w :: pubkey33)"
  by (rule be_val_be_bytes) simp

lemma cc_keys:
  "[0x83, 0xa4, 0x55, 0x54, 0x58, 0x4f] = 0x83 # fixkey ''UTXO''"
  "[0xa6, 0x41, 0x6d, 0x6f, 0x75, 0x6e, 0x74] = fixkey ''Amount''"
  "[0xac, 0x53, 0x65, 0x6e, 0x64, 0x65, 0x72, 0x50, 0x75, 0x62, 0x6b, 0x65, 0x79] = fixkey ''SenderPubkey''"
  "[0xad, 0x54, 0x72, 0x61, 0x6e, 0x73, 0x66, 0x65, 0x72, 0x49, 0x6e, 0x66, 0x6f, 0x73] = fixkey ''TransferInfos''"
  "[0x82, 0xb9, 0x47, 0x65, 0x6e, 0x65, 0x73, 0x69, 0x73, 0x4d, 0x61, 0x69, 0x6e, 0x6e, 0x65, 0x74, 0x42, 0x6c,
    0x6f, 0x63, 0x6b, 0x48, 0x65, 0x69, 0x67, 0x68, 0x74] = 0x82 # fixkey ''GenesisMainnetBlockHeight''"
  by (simp_all add: fixkey_eval)

context msgp_runtime
begin

lemma Marshal_CCTransferInfo_eq:
  "Marshal_CCTransferInfo rt b z = b @ 0x83 # fixkey ''UTXO'' @ AppendBytes rt [] (be_bytes 36 (cct_UTXO z)) @
     fixkey ''Amount'' @ AppendUint64 rt [] (cct_Amount z) @
     fixkey ''SenderPubkey'' @ AppendBytes rt [] (be_bytes 33 (cct_SenderPubkey z))"
  unfolding Marshal_CCTransferInfo_def cc_keys by (simp add: append_norm)

lemma Unmarshal_Marshal_CCTransferInfo:
  "Unmarshal_CCTransferInfo rt z (Marshal_CCTransferInfo rt [] x @ r) = Some (x, r)"
  unfolding Marshal_CCTransferInfo_eq Unmarshal_CCTransferInfo_def by (simp add: read_norm)

lemma Marshal_CCEpoch_p_eq:
  "Marshal_CCEpoch_p rt b z = b @ 0x84 # fixkey ''Number'' @ AppendInt64 rt [] (cp_Number z) @
     fixkey ''StartHeight'' @ AppendInt64 rt [] (cp_StartHeight z) @
     fixkey ''EndTime'' @ AppendInt64 rt [] (cp_EndTime z) @
     fixkey ''TransferInfos'' @ AppendArrayHeader rt [] (of_nat (length (cp_TransferInfos z))) @
       concat (map (append_ptr rt (Marshal_CCTransferInfo rt) []) (cp_TransferInfos z))"
  unfolding Marshal_CCEpoch_p_def epoch_keys cc_keys Let_def
  by (subst foldl_Marshal [of "Marshal_CCTransferInfo rt"]) (simp_all add: append_norm Marshal_CCTransferInfo_eq)

lemma Unmarshal_Marshal_CCEpoch_p:
  assumes "length (cp_TransferInfos x) < 2 ^ 32"
  shows "Unmarshal_CCEpoch_p rt z (Marshal_CCEpoch_p rt [] x @ r) = Some (x, r)"
proof -
  have "read_slice rt (Unmarshal_CCTransferInfo rt) z0 zs (AppendArrayHeader rt [] (of_nat (length (cp_TransferInfos x))) @
      concat (map (append_ptr rt (Marshal_CCTransferInfo rt) []) (cp_TransferInfos x)) @ r) = Some (cp_TransferInfos x, r)" for z0 zs
    using assms by (intro read_slice_concat [of _ _ "Marshal_CCTransferInfo rt", OF Unmarshal_Marshal_CCTransferInfo]) (simp_all add: Marshal_CCTransferInfo_eq)
  then show ?thesis unfolding Marshal_CCEpoch_p_eq Unmarshal_CCEpoch_p_def by (simp add: read_norm)
qed

lemma Unmarshal_Marshal_CCEpoch:
  assumes "length (cce_TransferInfos x) < 2 ^ 32"
  shows "Unmarshal_CCEpoch rt z (Marshal_CCEpoch rt [] x @ r) = Some (x, r)"
  using Unmarshal_Marshal_CCEpoch_p [of "refs_CCEpoch x"] assms
  by (simp add: Unmarshal_CCEpoch_def Marshal_CCEpoch_def refs_CCEpoch_def derefs_CCEpoch_def)

lemma Marshal_CCInfo_eq:
  "Marshal_CCInfo rt b z = b @ 0x82 # fixkey ''GenesisMainnetBlockHeight'' @ AppendInt64 rt [] (cci_GenesisMainnetBlockHeight z) @
     fixkey ''CurrEpochNum'' @ AppendInt64 rt [] (cci_CurrEpochNum z)"
  unfolding Marshal_CCInfo_def info_keys cc_keys by (simp add: append_norm)

lemma Unmarshal_Marshal_CCInfo: "Unmarshal_CCInfo rt z (Marshal_CCInfo rt [] x @ r) = Some (x, r)"
  unfolding Marshal_CCInfo_eq Unmarshal_CCInfo_def by (simp add: read_norm)

lemma Marshal_CC_nonempty: "Marshal_CCEpoch rt [] e \<noteq> []" "Marshal_CCInfo rt [] i \<noteq> []"
  by (simp_all add: Marshal_CCEpoch_def Marshal_CCEpoch_p_eq Marshal_CCInfo_eq)

end

end
