(* ===== verification/CrossChain.thy ===== *)
theory CrossChain
  imports Environment CC_Types
begin

text \<open>
  The cross-chain contract (\<open>src/crosschain/cc.go\<close>): outputs locked on the main chain are
  recorded by \<open>SwitchCCEpoch\<close>, which pays their value out of the contract; a holder gives
  the value back with \<open>transferBchToMainnet\<close> or, for coins burnt on this chain, the
  contract books it with \<open>burnBch\<close>. An output is stored under the SHA-256 hash of its
  36 bytes.

  \<open>chain_utxo\<close> states what the storage of outputs relies on: the hashes of the outputs in
  use neither collide nor hit the numbered slots (for all 36-byte names at once a 32-byte
  hash cannot be injective, so the outputs in use are a parameter).
\<close>

definition CC_StatusSuccess :: int where "CC_StatusSuccess = 0"
definition CC_StatusFailed :: int where "CC_StatusFailed = 1"
definition ccContractSequence :: u64 where "ccContractSequence = 0xfffffffffffffffb"
definition CCContractAddress :: address where "CCContractAddress = 0x2709"
definition SelectorTransferBchToMainnet :: bytes where "SelectorTransferBchToMainnet = [0xa0, 0x4f, 0x3b, 0x01]"
definition SelectorBurnBCH :: bytes where "SelectorBurnBCH = [0x18, 0x92, 0xa8, 0xb3]"
definition HashOfEventTransferToBch :: bytes32 where
  "HashOfEventTransferToBch = 0x4a9f09be1e2df144675144ec10cb5fe6c05504a84262275b62028189c1d410c1"
definition HashOfEventBurn :: bytes32 where
  "HashOfEventBurn = 0xeae299b236fc8161793d044c8260b3dc7f8c20b5b3b577eb7f075e4a9c3bf48d"
definition GasOfCCOp :: u64 where "GasOfCCOp = 400000"
definition SlotCCInfo :: bytes32 where "SlotCCInfo = 0"
definition SlotBCHAlreadyBurnt :: bytes32 where "SlotBCHAlreadyBurnt = 1"

datatype cc_error = CCInvalidCallData | CCInvalidSelector | BchAmountNotMatch | CCBalanceNotEnough | BurnToMuch

record cc_result =
  cc_status :: int
  cc_logs :: "EvmLog list"
  cc_gasUsed :: u64
  cc_outData :: "cc_error option"

subsection \<open>Storage\<close>

definition cc_slot :: "('c, 'a) ext \<Rightarrow> 'c \<Rightarrow> bytes32 \<Rightarrow> bytes" where
  "cc_slot E c k = (case GetStorageAt E c ccContractSequence k of None \<Rightarrow> [] | Some bz \<Rightarrow> bz)"

definition utxo_key :: "('c, 'a) ext \<Rightarrow> utxo \<Rightarrow> bytes32" where
  "utxo_key E u = Sum256 E (be_bytes 36 u)"

definition LoadUTXO :: "('c, 'a) ext \<Rightarrow> 'c \<Rightarrow> utxo \<Rightarrow> u256" where
  "LoadUTXO E c u = SetBytes (cc_slot E c (utxo_key E u))"

definition SaveUTXO :: "('c, 'a) ext \<Rightarrow> 'c \<Rightarrow> utxo \<Rightarrow> u256 \<Rightarrow> 'c" where
  "SaveUTXO E c u amount = SetStorageAt E c ccContractSequence (utxo_key E u) (trim_bytes amount)"

definition deleteUTXO :: "('c, 'a) ext \<Rightarrow> 'c \<Rightarrow> utxo \<Rightarrow> 'c" where
  "deleteUTXO E c u = DeleteStorageAt E c ccContractSequence (utxo_key E u)"

definition LoadBchMainnetBurnt :: "('c, 'a) ext \<Rightarrow> 'c \<Rightarrow> u256" where
  "LoadBchMainnetBurnt E c = SetBytes (cc_slot E c SlotBCHAlreadyBurnt)"

definition SaveBchMainnetBurnt :: "('c, 'a) ext \<Rightarrow> 'c \<Rightarrow> u256 \<Rightarrow> 'c" where
  "SaveBchMainnetBurnt E c amount = SetStorageAt E c ccContractSequence SlotBCHAlreadyBurnt (trim_bytes amount)"

definition LoadCCInfo :: "('c, 'a) ext \<Rightarrow> 'c \<Rightarrow> CCInfo option" where
  "LoadCCInfo E c = (case GetStorageAt E c ccContractSequence SlotCCInfo of
      None \<Rightarrow> Some zero_CCInfo
    | Some bz \<Rightarrow> map_option fst (Unmarshal_CCInfo (msgp E) zero_CCInfo bz))"

definition SaveCCInfo :: "('c, 'a) ext \<Rightarrow> 'c \<Rightarrow> CCInfo \<Rightarrow> 'c" where
  "SaveCCInfo E c info = SetStorageAt E c ccContractSequence SlotCCInfo (Marshal_CCInfo (msgp E) [] info)"

definition getSlotForCCEpoch :: "i64 \<Rightarrow> bytes32" where
  "getSlotForCCEpoch epochNum = 2 ^ 64 + ucast epochNum"

definition SaveCCEpoch :: "('c, 'a) ext \<Rightarrow> 'c \<Rightarrow> i64 \<Rightarrow> CCEpoch \<Rightarrow> 'c" where
  "SaveCCEpoch E c epochNum epoch =
     SetStorageAt E c ccContractSequence (getSlotForCCEpoch epochNum) (Marshal_CCEpoch (msgp E) [] epoch)"

definition LoadCCEpoch :: "('c, 'a) ext \<Rightarrow> 'c \<Rightarrow> i64 \<Rightarrow> (CCEpoch \<times> bool) option" where
  "LoadCCEpoch E c epochNum = (case GetStorageAt E c ccContractSequence (getSlotForCCEpoch epochNum) of
      None \<Rightarrow> Some (zero_CCEpoch, False)
    | Some bz \<Rightarrow> map_option (\<lambda>(epoch, _). (epoch, True)) (Unmarshal_CCEpoch (msgp E) zero_CCEpoch bz))"

subsection \<open>Moving coins\<close>

text \<open>A nil sender account panics.\<close>

definition transferBch :: "('c, 'a) ext \<Rightarrow> 'c \<Rightarrow> address \<Rightarrow> address \<Rightarrow> u256 \<Rightarrow> (cc_error option \<times> 'c) option" where
  "transferBch E c sender receiver v = do {
     senderAcc \<leftarrow> GetAccount E c sender;
     let balance = Balance E senderAcc;
     if balance < v then Some (Some CCBalanceNotEnough, c)
     else if v \<noteq> 0 then do {
       let c = SetAccount E c sender (UpdateBalance E senderAcc (balance - v));
       let receiverAcc = (case GetAccount E c receiver of None \<Rightarrow> ZeroAccountInfo E | Some acc \<Rightarrow> acc);
       Some (None, SetAccount E c receiver (UpdateBalance E receiverAcc (Balance E receiverAcc + v))) }
     else Some (None, c) }"

definition transferBchFromTx :: "('c, 'a) ext \<Rightarrow> 'c \<Rightarrow> TxToRun \<Rightarrow> ((int \<times> cc_error option) \<times> 'c) option" where
  "transferBchFromTx E c tx = do {
     (err, c) \<leftarrow> transferBch E c (tx_From tx) CCContractAddress (tx_Value tx);
     Some ((if err = None then CC_StatusSuccess else CC_StatusFailed, err), c) }"

definition consumeUTXO :: "('c, 'a) ext \<Rightarrow> 'c \<Rightarrow> utxo \<Rightarrow> u256 \<Rightarrow> cc_error option \<times> 'c" where
  "consumeUTXO E c u v =
     (if LoadUTXO E c u \<noteq> v then (Some BchAmountNotMatch, c) else (None, deleteUTXO E c u))"

definition UpdateBchBurnt :: "('c, 'a) ext \<Rightarrow> 'c \<Rightarrow> u256 \<Rightarrow> cc_error option \<times> 'c" where
  "UpdateBchBurnt E c amount =
     (let mainnetBurnt = LoadBchMainnetBurnt E c + amount
      in if GetBlackHoleBalance E c < mainnetBurnt then (Some BurnToMuch, c)
         else (None, SaveBchMainnetBurnt E c mainnetBurnt))"

subsection \<open>Contract calls\<close>

definition utxo_topics :: "utxo \<Rightarrow> bytes32 list" where
  "utxo_topics u = [be_val (take 32 (be_bytes 36 u)), be_val (drop 32 (be_bytes 36 u))]"

definition buildTransferToMainnetEvmLog :: "utxo \<Rightarrow> address \<Rightarrow> u256 \<Rightarrow> EvmLog" where
  "buildTransferToMainnetEvmLog u sender v = \<lparr>log_Address = CCContractAddress,
     log_Topics = HashOfEventTransferToBch # utxo_topics u @ [ucast sender], log_Data = be_bytes 32 v\<rparr>"

definition buildBurnEvmLog :: "utxo \<Rightarrow> u256 \<Rightarrow> EvmLog" where
  "buildBurnEvmLog u v = \<lparr>log_Address = CCContractAddress,
     log_Topics = HashOfEventBurn # utxo_topics u, log_Data = be_bytes 32 v\<rparr>"

abbreviation cc_failure :: "u64 \<Rightarrow> cc_error \<Rightarrow> cc_result" where
  "cc_failure gas e \<equiv> \<lparr>cc_status = CC_StatusFailed, cc_logs = [], cc_gasUsed = gas, cc_outData = Some e\<rparr>"

definition arg_utxo :: "bytes \<Rightarrow> utxo" where
  "arg_utxo callData = be_val (slice 64 (64 + 36) callData)"

definition transferBchToMainnet :: "('c, 'a) ext \<Rightarrow> 'c \<Rightarrow> TxToRun \<Rightarrow> (cc_result \<times> 'c) option" where
  "transferBchToMainnet E c tx =
     (let callData = drop 4 (tx_Data tx)
      in if length callData < 32 + 32 + 64 then Some (cc_failure GasOfCCOp CCInvalidCallData, c)
         else let u = arg_utxo callData; v = tx_Value tx
              in case consumeUTXO E c u v of
                   (Some err, c) \<Rightarrow> Some (cc_failure GasOfCCOp err, c)
                 | (None, c) \<Rightarrow> do {
                     ((st, out), c) \<leftarrow> transferBchFromTx E c tx;
                     Some (\<lparr>cc_status = st,
                       cc_logs = (if st = CC_StatusSuccess then [buildTransferToMainnetEvmLog u (tx_From tx) v] else []),
                       cc_gasUsed = GasOfCCOp, cc_outData = out\<rparr>, c) })"

definition burnBch :: "('c, 'a) ext \<Rightarrow> 'c \<Rightarrow> TxToRun \<Rightarrow> cc_result \<times> 'c" where
  "burnBch E c tx =
     (let callData = drop 4 (tx_Data tx)
      in if length callData < 32 + 32 + 64 then (cc_failure GasOfCCOp CCInvalidCallData, c)
         else let u = arg_utxo callData; v = LoadUTXO E c u
              in case UpdateBchBurnt E c v of
                   (Some err, c) \<Rightarrow> (cc_failure GasOfCCOp err, c)
                 | (None, c) \<Rightarrow> (\<lparr>cc_status = CC_StatusSuccess, cc_logs = [buildBurnEvmLog u v],
                     cc_gasUsed = GasOfCCOp, cc_outData = None\<rparr>, deleteUTXO E c u))"

definition cc_Init :: "('c, 'a) ext \<Rightarrow> 'c \<Rightarrow> 'c" where
  "cc_Init E c = (case GetAccount E c CCContractAddress of
      None \<Rightarrow> SetAccount E c CCContractAddress (UpdateSequence E (ZeroAccountInfo E) ccContractSequence)
    | Some _ \<Rightarrow> c)"

definition cc_IsSystemContract :: "address \<Rightarrow> bool" where
  "cc_IsSystemContract addr \<longleftrightarrow> addr = CCContractAddress"

definition cc_Execute :: "('c, 'a) ext \<Rightarrow> 'c \<Rightarrow> TxToRun \<Rightarrow> (cc_result \<times> 'c) option" where
  "cc_Execute E c tx =
     (if length (tx_Data tx) < 4 then Some (cc_failure 0 CCInvalidCallData, c)
      else let selector = take 4 (tx_Data tx)
           in if selector = SelectorTransferBchToMainnet then transferBchToMainnet E c tx
              else if selector = SelectorBurnBCH then Some (burnBch E c tx)
              else Some (cc_failure 0 CCInvalidSelector, c))"

definition cc_RequiredGas :: "bytes \<Rightarrow> u64" where
  "cc_RequiredGas bz = GasOfCCOp"

subsection \<open>Epochs\<close>

text \<open>\<open>uint256.NewInt(10e10)\<close>\<close>

definition cc_value :: "CCTransferInfo \<Rightarrow> u256" where
  "cc_value info = ucast (cct_Amount info) * 100000000000"

definition cc_sender :: "('c, 'a) ext \<Rightarrow> CCTransferInfo \<Rightarrow> address" where
  "cc_sender E info = Secp256k1Address E (be_bytes 33 (cct_SenderPubkey info))"

text \<open>A failing transfer is printed and the loop goes on.\<close>

definition credit_step :: "('c, 'a) ext \<Rightarrow> 'c \<Rightarrow> CCTransferInfo \<Rightarrow> 'c option" where
  "credit_step E c info =
     map_option snd (transferBch E (SaveUTXO E c (cct_UTXO info) (cc_value info)) CCContractAddress
       (cc_sender E info) (cc_value info))"

definition SwitchCCEpoch :: "('c, 'a) ext \<Rightarrow> 'c \<Rightarrow> CCEpoch \<Rightarrow> (CCEpoch \<times> 'c) option" where
  "SwitchCCEpoch E c epoch = do {
     ccInfo \<leftarrow> LoadCCInfo E c;
     if sint (cce_StartHeight epoch) < sint (cci_GenesisMainnetBlockHeight ccInfo + cci_CurrEpochNum ccInfo * BlocksInCCEpoch)
     then Some (epoch, c)
     else do {
       c \<leftarrow> foldM (credit_step E) c (cce_TransferInfos epoch);
       let ccInfo = ccInfo\<lparr>cci_CurrEpochNum := cci_CurrEpochNum ccInfo + 1\<rparr>;
       let c = SaveCCInfo E c ccInfo;
       let epoch = epoch\<lparr>cce_Number := cci_CurrEpochNum ccInfo\<rparr>;
       Some (epoch, SaveCCEpoch E c (cce_Number epoch) epoch) } }"

subsection \<open>Reading the storage back\<close>

lemma trim_bytes_Nil: "trim_bytes v = [] \<Longrightarrow> v = 0"
  using SetBytes_trim_bytes [of v] by simp

lemma unat_getSlotForCCEpoch: "unat (getSlotForCCEpoch n) = 2 ^ 64 + unat n"
proof -
  have n: "unat (ucast n :: bytes32) = unat n" by (rule unat_ucast_up) simp
  then show ?thesis using unat_lt [of n] by (simp add: getSlotForCCEpoch_def unat_add_no_wrap)
qed

lemma cc_epoch_slot_free [simp]:
  "getSlotForCCEpoch n \<noteq> SlotCCInfo" "getSlotForCCEpoch n \<noteq> SlotBCHAlreadyBurnt"
  "SlotCCInfo \<noteq> getSlotForCCEpoch n" "SlotBCHAlreadyBurnt \<noteq> getSlotForCCEpoch n" "SlotCCInfo \<noteq> SlotBCHAlreadyBurnt"
  "SlotBCHAlreadyBurnt \<noteq> SlotCCInfo"
  using unat_getSlotForCCEpoch [of n] by (auto simp: SlotCCInfo_def SlotBCHAlreadyBurnt_def)

lemma getSlotForCCEpoch_inj [simp]: "getSlotForCCEpoch m = getSlotForCCEpoch n \<longleftrightarrow> m = n"
  by (metis add_left_cancel unat_getSlotForCCEpoch word_unat_eq_iff)

lemma unat_cc_value: "unat (cc_value info) = unat (cct_Amount info) * 10 ^ 11"
proof -
  have "unat (ucast (cct_Amount info) :: u256) = unat (cct_Amount info)" by (rule unat_ucast_up) simp
  then show ?thesis using unat_lt [of "cct_Amount info"] by (simp add: cc_value_def unat_mult_no_wrap)
qed

context chain_ctx
begin

lemma SetBytes_slot:
  "SetBytes (cc_slot E (SetStorageAt E c ccContractSequence k (trim_bytes v)) j) = (if j = k then v else SetBytes (cc_slot E c j))"
proof (cases "trim_bytes v = []")
  case True
  then have "v = 0" by (rule trim_bytes_Nil)
  then show ?thesis
    using True get_set_storage_empty [of c ccContractSequence k] get_set_storage_other [of ccContractSequence ccContractSequence j k c]
    by (auto simp: cc_slot_def)
next
  case False
  then show ?thesis by (simp add: cc_slot_def get_set_storage)
qed

lemma cc_slot_other: "j \<noteq> k \<Longrightarrow> cc_slot E (SetStorageAt E c ccContractSequence k v) j = cc_slot E c j"
  by (simp add: cc_slot_def get_set_storage_other)

lemma cc_slot_delete: "cc_slot E (DeleteStorageAt E c ccContractSequence k) j = (if j = k then [] else cc_slot E c j)"
  by (simp add: cc_slot_def get_delete_storage)

lemma cc_slot_account [simp]: "cc_slot E (SetAccount E c a x) j = cc_slot E c j"
  by (simp add: cc_slot_def storage_set_account)

lemma load_save_cc_info: "LoadCCInfo E (SaveCCInfo E c info) = Some info"
  using msgp_runtime.Unmarshal_Marshal_CCInfo [OF runtime, of _ info "[]"] msgp_runtime.Marshal_CC_nonempty [OF runtime]
  by (simp add: LoadCCInfo_def SaveCCInfo_def get_set_storage)

lemma load_save_cc_epoch:
  assumes "length (cce_TransferInfos ep) < 2 ^ 32"
  shows "LoadCCEpoch E (SaveCCEpoch E c n ep) m = (if m = n then Some (ep, True) else LoadCCEpoch E c m)"
  using msgp_runtime.Unmarshal_Marshal_CCEpoch [OF runtime assms, of _ "[]"] msgp_runtime.Marshal_CC_nonempty [OF runtime]
  by (simp add: LoadCCEpoch_def SaveCCEpoch_def get_set_storage)

lemma load_cc_info_epoch: "LoadCCInfo E (SaveCCEpoch E c n ep) = LoadCCInfo E c"
  by (simp add: LoadCCInfo_def SaveCCEpoch_def get_set_storage_other)

text \<open>A transfer moves the value or nothing.\<close>

lemma transferBch_bal:
  assumes "transferBch E c a b v = Some (err, d)" and "a \<noteq> b"
  shows "bal E d x = (if err \<noteq> None then bal E c x else if x = a then bal E c x - v else if x = b then bal E c x + v else bal E c x)"
    and "err \<noteq> None \<longleftrightarrow> bal E c a < v" and "cc_slot E d = cc_slot E c" and "GetStorageAt E d = GetStorageAt E c"
    and "GetAccount E c y \<noteq> None \<Longrightarrow> GetAccount E d y \<noteq> None"
  using assms unfolding transferBch_def
  by (auto simp: bal_def get_set_account balance_update balance_zero storage_set_account fun_eq_iff Let_def
      split: bind_splits if_splits option.splits)

lemma transferBch_total: "GetAccount E c a \<noteq> None \<Longrightarrow> \<exists>err d. transferBch E c a b v = Some (err, d)"
  by (auto simp: transferBch_def Let_def)

end

subsection \<open>The peg\<close>

locale chain_utxo = chain_bank E for E :: "('c, 'a) ext" +
  fixes U :: "utxo set"
  assumes utxo_inj: "u \<in> U \<Longrightarrow> w \<in> U \<Longrightarrow> utxo_key E u = utxo_key E w \<Longrightarrow> u = w"
    and utxo_free: "u \<in> U \<Longrightarrow> \<not> utxo_key E u < 2 ^ 65"

text \<open>
  The value of the recorded outputs, and the peg: what the contract holds, what is out on
  the chain against an output, and what was booked as burnt.
\<close>

definition outstanding :: "('c, 'a) ext \<Rightarrow> 'c \<Rightarrow> utxo set \<Rightarrow> nat" where
  "outstanding E c V = (\<Sum>u \<in> V. unat (LoadUTXO E c u))"

definition peg :: "('c, 'a) ext \<Rightarrow> 'c \<Rightarrow> utxo set \<Rightarrow> nat" where
  "peg E c V = unat (bal E c CCContractAddress) + outstanding E c V + unat (LoadBchMainnetBurnt E c)"

context chain_utxo
begin

lemma utxo_slots [simp]:
  assumes "u \<in> U"
  shows "utxo_key E u \<noteq> SlotCCInfo" and "utxo_key E u \<noteq> SlotBCHAlreadyBurnt" and "utxo_key E u \<noteq> getSlotForCCEpoch n"
    and "SlotBCHAlreadyBurnt \<noteq> utxo_key E u"
proof -
  have "unat (getSlotForCCEpoch n) < 2 ^ 65" using unat_lt [of n] by (simp add: unat_getSlotForCCEpoch)
  then show "utxo_key E u \<noteq> getSlotForCCEpoch n" using utxo_free [OF assms] by (auto simp: word_less_nat_alt)
  show "utxo_key E u \<noteq> SlotCCInfo" "utxo_key E u \<noteq> SlotBCHAlreadyBurnt" "SlotBCHAlreadyBurnt \<noteq> utxo_key E u"
    using utxo_free [OF assms] by (auto simp: SlotCCInfo_def SlotBCHAlreadyBurnt_def)
qed

lemma utxo_key_eq: "u \<in> U \<Longrightarrow> w \<in> U \<Longrightarrow> utxo_key E u = utxo_key E w \<longleftrightarrow> u = w"
  using utxo_inj by blast

lemma load_utxo:
  assumes "u \<in> U" and "w \<in> U"
  shows "LoadUTXO E (SaveUTXO E c u v) w = (if w = u then v else LoadUTXO E c w)"
    and "LoadUTXO E (deleteUTXO E c u) w = (if w = u then 0 else LoadUTXO E c w)"
  using assms by (auto simp: LoadUTXO_def SaveUTXO_def deleteUTXO_def SetBytes_slot cc_slot_delete utxo_key_eq)

lemma load_utxo_burnt: "u \<in> U \<Longrightarrow> LoadUTXO E (SaveBchMainnetBurnt E c v) u = LoadUTXO E c u"
  by (simp add: LoadUTXO_def SaveBchMainnetBurnt_def cc_slot_other)

lemma load_burnt:
  assumes "u \<in> U"
  shows "LoadBchMainnetBurnt E (SaveUTXO E c u v) = LoadBchMainnetBurnt E c"
    and "LoadBchMainnetBurnt E (deleteUTXO E c u) = LoadBchMainnetBurnt E c"
    and "LoadBchMainnetBurnt E (SaveBchMainnetBurnt E c v) = v"
  using assms by (simp_all add: LoadBchMainnetBurnt_def SaveUTXO_def deleteUTXO_def SaveBchMainnetBurnt_def SetBytes_slot cc_slot_delete)

lemma outstanding_split:
  "finite V \<Longrightarrow> u \<in> V \<Longrightarrow> outstanding E c V = unat (LoadUTXO E c u) + outstanding E c (V - {u})"
  by (simp add: outstanding_def sum.remove)

lemma outstanding_cong: "(\<And>u. u \<in> V \<Longrightarrow> LoadUTXO E c u = LoadUTXO E d u) \<Longrightarrow> outstanding E c V = outstanding E d V"
  by (simp add: outstanding_def)

lemma outstanding_update:
  assumes "finite V" and "V \<subseteq> U" and "u \<in> V"
  shows "outstanding E (SaveUTXO E c u v) V + unat (LoadUTXO E c u) = outstanding E c V + unat v"
    and "outstanding E (deleteUTXO E c u) V + unat (LoadUTXO E c u) = outstanding E c V"
proof -
  have rest: "outstanding E (SaveUTXO E c u v) (V - {u}) = outstanding E c (V - {u})"
    "outstanding E (deleteUTXO E c u) (V - {u}) = outstanding E c (V - {u})"
    using assms by (auto intro!: outstanding_cong simp: load_utxo subset_iff split: if_splits)
  have u: "u \<in> U" using assms by auto
  show "outstanding E (SaveUTXO E c u v) V + unat (LoadUTXO E c u) = outstanding E c V + unat v"
    "outstanding E (deleteUTXO E c u) V + unat (LoadUTXO E c u) = outstanding E c V"
    using outstanding_split [OF assms(1,3)] rest by (simp_all add: load_utxo u)
qed

lemma bal_utxo [simp]: "bal E (SaveUTXO E c u v) = bal E c" "bal E (deleteUTXO E c u) = bal E c"
  "bal E (SaveBchMainnetBurnt E c v) = bal E c"
  by (simp_all add: fun_eq_iff SaveUTXO_def deleteUTXO_def SaveBchMainnetBurnt_def)

lemma transferBchToMainnet_peg:
  assumes V: "finite V" "V \<subseteq> U" "arg_utxo (drop 4 (tx_Data tx)) \<in> V" and far: "tx_From tx \<noteq> CCContractAddress"
    and small: "peg E c V < 2 ^ 256"
    and run: "transferBchToMainnet E c tx = Some (res, d)" and ok: "cc_status res = CC_StatusSuccess"
  shows "peg E d V = peg E c V \<and> LoadUTXO E c (arg_utxo (drop 4 (tx_Data tx))) = tx_Value tx \<and>
    LoadUTXO E d (arg_utxo (drop 4 (tx_Data tx))) = 0 \<and>
    unat (bal E d (tx_From tx)) + unat (tx_Value tx) = unat (bal E c (tx_From tx))"
proof -
  let ?u = "arg_utxo (drop 4 (tx_Data tx))" and ?v = "tx_Value tx" and ?cc = CCContractAddress
  have u: "?u \<in> U" using V by auto
  have match: "LoadUTXO E c ?u = ?v" and tr: "transferBch E (deleteUTXO E c ?u) (tx_From tx) ?cc ?v = Some (None, d)"
    using run ok unfolding transferBchToMainnet_def
    by (auto simp: Let_def consumeUTXO_def transferBchFromTx_def CC_StatusFailed_def CC_StatusSuccess_def
        split: if_splits bind_splits)
  note b = transferBch_bal [OF tr far]
  have le: "?v \<le> bal E c (tx_From tx)" using b(2) by simp
  have out: "outstanding E d V + unat ?v = outstanding E c V"
    using outstanding_update(2) [OF V, of c] match outstanding_cong [of V d "deleteUTXO E c ?u"] b(3)
    by (simp add: LoadUTXO_def)
  have fits: "unat (bal E c ?cc) + unat ?v < 2 ^ 256" using small out by (simp add: peg_def)
  have cc: "unat (bal E d ?cc) = unat (bal E c ?cc) + unat ?v"
    using b(1) [of ?cc] far fits by (simp add: unat_add_no_wrap)
  have burnt: "LoadBchMainnetBurnt E d = LoadBchMainnetBurnt E c"
    using load_burnt(2) [OF u, of c] b(3) by (simp add: LoadBchMainnetBurnt_def)
  have "LoadUTXO E d ?u = 0" using load_utxo(2) [OF u u, of c] b(3) by (simp add: LoadUTXO_def)
  moreover have "unat (bal E d (tx_From tx)) + unat ?v = unat (bal E c (tx_From tx))"
    using b(1) [of "tx_From tx"] le by (simp add: unat_sub_le word_le_nat_alt)
  ultimately show ?thesis using match out cc burnt by (simp add: peg_def)
qed

lemma burnBch_peg:
  assumes V: "finite V" "V \<subseteq> U" "arg_utxo (drop 4 (tx_Data tx)) \<in> V" and small: "peg E c V < 2 ^ 256"
    and run: "burnBch E c tx = (res, d)" and ok: "cc_status res = CC_StatusSuccess"
  shows "peg E d V = peg E c V \<and> LoadUTXO E d (arg_utxo (drop 4 (tx_Data tx))) = 0 \<and>
    LoadBchMainnetBurnt E d \<le> GetBlackHoleBalance E c \<and> bal E d = bal E c"
proof -
  let ?u = "arg_utxo (drop 4 (tx_Data tx))"
  let ?v = "LoadUTXO E c ?u" and ?b = "LoadBchMainnetBurnt E c"
  have u: "?u \<in> U" using V by auto
  have le: "?b + ?v \<le> GetBlackHoleBalance E c" and d: "d = deleteUTXO E (SaveBchMainnetBurnt E c (?b + ?v)) ?u"
    using run ok unfolding burnBch_def
    by (auto simp: Let_def UpdateBchBurnt_def CC_StatusFailed_def CC_StatusSuccess_def split: if_splits)
  have same: "LoadUTXO E (SaveBchMainnetBurnt E c (?b + ?v)) w = LoadUTXO E c w" if "w \<in> V" for w
    using that V by (intro load_utxo_burnt) auto
  have out: "outstanding E d V + unat ?v = outstanding E c V"
    using outstanding_update(2) [OF V, of "SaveBchMainnetBurnt E c (?b + ?v)"] same V(3)
      outstanding_cong [of V "SaveBchMainnetBurnt E c (?b + ?v)" c] by (simp add: d)
  then have "unat ?b + unat ?v < 2 ^ 256" using small by (simp add: peg_def)
  then have "unat (?b + ?v) = unat ?b + unat ?v" by (simp add: unat_add_no_wrap)
  then show ?thesis using out le by (simp add: peg_def d load_burnt [OF u] load_utxo(2) [OF u u])
qed

text \<open>
  A redemption that fails: before the output is deleted, and then nothing has changed, or
  because the sender cannot pay, and then the output is gone.
\<close>

lemma transferBchToMainnet_failed:
  assumes V: "finite V" "V \<subseteq> U" and arg: "132 \<le> length (tx_Data tx) \<Longrightarrow> arg_utxo (drop 4 (tx_Data tx)) \<in> V"
    and far: "tx_From tx \<noteq> CCContractAddress"
    and run: "transferBchToMainnet E c tx = Some (res, d)" and ok: "cc_status res \<noteq> CC_StatusSuccess"
  shows "peg E d V + (if cc_outData res = Some CCBalanceNotEnough then unat (LoadUTXO E c (arg_utxo (drop 4 (tx_Data tx)))) else 0) = peg E c V"
proof -
  let ?u = "arg_utxo (drop 4 (tx_Data tx))" and ?v = "tx_Value tx" and ?cc = CCContractAddress
  consider "d = c" "cc_outData res \<noteq> Some CCBalanceNotEnough"
    | err where "132 \<le> length (tx_Data tx)" "cc_outData res = Some CCBalanceNotEnough"
        "transferBch E (deleteUTXO E c ?u) (tx_From tx) ?cc ?v = Some (Some err, d)"
    using run ok unfolding transferBchToMainnet_def
    by (auto simp: Let_def consumeUTXO_def transferBchFromTx_def transferBch_def CC_StatusFailed_def CC_StatusSuccess_def
        split: if_splits bind_splits)
  then show ?thesis
  proof cases
    case 2
    note b = transferBch_bal [OF 2(3) far] and V = V arg [OF 2(1)]
    have u: "?u \<in> U" using V by auto
    have "outstanding E d V + unat (LoadUTXO E c ?u) = outstanding E c V"
      using outstanding_update(2) [OF V, of c] outstanding_cong [of V d "deleteUTXO E c ?u"] b(3) by (simp add: LoadUTXO_def)
    moreover have "bal E d ?cc = bal E c ?cc" using b(1) [of ?cc] by simp
    moreover have "LoadBchMainnetBurnt E d = LoadBchMainnetBurnt E c"
      using load_burnt(2) [OF u, of c] b(3) by (simp add: LoadBchMainnetBurnt_def)
    ultimately show ?thesis using 2(2) by (simp add: peg_def)
  qed simp
qed

lemma burnBch_failed: "burnBch E c tx = (res, d) \<Longrightarrow> cc_status res \<noteq> CC_StatusSuccess \<Longrightarrow> d = c \<and> cc_outData res \<noteq> Some CCBalanceNotEnough"
  unfolding burnBch_def by (auto simp: Let_def UpdateBchBurnt_def split: if_splits)

text \<open>Crediting one output that was not recorded before.\<close>

lemma credit_step_peg:
  assumes V: "finite V" "V \<subseteq> U" "cct_UTXO info \<in> V" and fresh: "LoadUTXO E c (cct_UTXO info) = 0"
    and acc: "GetAccount E c CCContractAddress \<noteq> None" and far: "cc_sender E info \<noteq> CCContractAddress"
    and funded: "unat (cc_value info) \<le> unat (bal E c CCContractAddress)"
  shows "\<exists>d. credit_step E c info = Some d \<and> peg E d V = peg E c V \<and> GetAccount E d CCContractAddress \<noteq> None \<and>
    unat (bal E d CCContractAddress) + unat (cc_value info) = unat (bal E c CCContractAddress) \<and>
    (\<forall>w \<in> V. LoadUTXO E d w = (if w = cct_UTXO info then cc_value info else LoadUTXO E c w)) \<and>
    (\<forall>k. (\<forall>u \<in> V. k \<noteq> utxo_key E u) \<longrightarrow> GetStorageAt E d ccContractSequence k = GetStorageAt E c ccContractSequence k)"
proof -
  let ?u = "cct_UTXO info" and ?v = "cc_value info" and ?cc = CCContractAddress
  let ?c = "SaveUTXO E c ?u ?v"
  have u: "?u \<in> U" using V by auto
  have "GetAccount E ?c ?cc \<noteq> None" using acc by (simp add: SaveUTXO_def account_set_storage)
  then obtain err d where tr: "transferBch E ?c ?cc (cc_sender E info) ?v = Some (err, d)"
    using transferBch_total by blast
  note b = transferBch_bal [OF tr far [symmetric]]
  have le: "?v \<le> bal E c ?cc" using funded by (simp add: word_le_nat_alt)
  then have err: "err = None" using b(2) by auto
  have cc: "unat (bal E d ?cc) + unat ?v = unat (bal E c ?cc)"
    using b(1) [of ?cc] err le funded by (simp add: unat_sub_le)
  have out: "outstanding E d V = outstanding E c V + unat ?v"
    using outstanding_update(1) [OF V, of c ?v] fresh outstanding_cong [of V d ?c] b(3) by (simp add: LoadUTXO_def)
  have "LoadBchMainnetBurnt E d = LoadBchMainnetBurnt E c"
    using load_burnt(1) [OF u, of c ?v] b(3) by (simp add: LoadBchMainnetBurnt_def)
  then have "peg E d V = peg E c V" using cc out by (simp add: peg_def)
  moreover have "\<forall>w \<in> V. LoadUTXO E d w = (if w = ?u then ?v else LoadUTXO E c w)"
    using load_utxo(1) [OF u, of _ c ?v] V(2) b(3) by (auto simp: LoadUTXO_def)
  moreover have "GetStorageAt E d ccContractSequence k = GetStorageAt E c ccContractSequence k" if "\<forall>u \<in> V. k \<noteq> utxo_key E u" for k
    using that V(3) b(4) by (simp add: SaveUTXO_def get_set_storage_other)
  moreover have "GetAccount E d ?cc \<noteq> None" using b(5) \<open>GetAccount E ?c ?cc \<noteq> None\<close> by blast
  ultimately show ?thesis using tr cc by (auto simp: credit_step_def)
qed

lemma credit_loop_peg:
  assumes V: "finite V" "V \<subseteq> U" and infos: "\<forall>i \<in> set infos. cct_UTXO i \<in> V \<and> LoadUTXO E c (cct_UTXO i) = 0 \<and> cc_sender E i \<noteq> CCContractAddress"
    and distinct: "distinct (map cct_UTXO infos)" and acc: "GetAccount E c CCContractAddress \<noteq> None"
    and funded: "(\<Sum>i\<leftarrow>infos. unat (cc_value i)) \<le> unat (bal E c CCContractAddress)"
  shows "\<exists>d. foldM (credit_step E) c infos = Some d \<and> peg E d V = peg E c V \<and>
    (\<forall>i \<in> set infos. LoadUTXO E d (cct_UTXO i) = cc_value i) \<and>
    (\<forall>w \<in> V. w \<notin> cct_UTXO ` set infos \<longrightarrow> LoadUTXO E d w = LoadUTXO E c w) \<and>
    (\<forall>k. (\<forall>u \<in> V. k \<noteq> utxo_key E u) \<longrightarrow> GetStorageAt E d ccContractSequence k = GetStorageAt E c ccContractSequence k)"
  using assms(3-)
proof (induction infos arbitrary: c)
  case (Cons i infos)
  from Cons.prems have i: "cct_UTXO i \<in> V" "LoadUTXO E c (cct_UTXO i) = 0" "cc_sender E i \<noteq> CCContractAddress" by auto
  obtain d where d: "credit_step E c i = Some d" "peg E d V = peg E c V" "GetAccount E d CCContractAddress \<noteq> None"
    "unat (bal E d CCContractAddress) + unat (cc_value i) = unat (bal E c CCContractAddress)"
    "\<forall>w \<in> V. LoadUTXO E d w = (if w = cct_UTXO i then cc_value i else LoadUTXO E c w)"
    "\<forall>k. (\<forall>u \<in> V. k \<noteq> utxo_key E u) \<longrightarrow> GetStorageAt E d ccContractSequence k = GetStorageAt E c ccContractSequence k"
    using credit_step_peg [OF V i(1,2) Cons.prems(3) i(3)] Cons.prems(4) by auto
  have "\<forall>j \<in> set infos. cct_UTXO j \<in> V \<and> LoadUTXO E d (cct_UTXO j) = 0 \<and> cc_sender E j \<noteq> CCContractAddress"
    using Cons.prems(1,2) d(5) by (auto simp: image_iff)
  then obtain e where e: "foldM (credit_step E) d infos = Some e" "peg E e V = peg E d V"
    "\<forall>j \<in> set infos. LoadUTXO E e (cct_UTXO j) = cc_value j"
    "\<forall>w \<in> V. w \<notin> cct_UTXO ` set infos \<longrightarrow> LoadUTXO E e w = LoadUTXO E d w"
    "\<forall>k. (\<forall>u \<in> V. k \<noteq> utxo_key E u) \<longrightarrow> GetStorageAt E e ccContractSequence k = GetStorageAt E d ccContractSequence k"
    using Cons.IH [of d] Cons.prems(2,4) d(3,4) by auto
  have "LoadUTXO E e (cct_UTXO i) = cc_value i" using e(4) d(5) i(1) Cons.prems(2) by simp
  then show ?case using d e by (intro exI [of _ e]) auto
qed simp

end

subsection \<open>Sequences of operations\<close>

text \<open>What an honest main chain delivers: new outputs, covered by the coins the contract holds.\<close>

definition honest_epoch :: "('c, 'a) ext \<Rightarrow> 'c \<Rightarrow> utxo set \<Rightarrow> CCEpoch \<Rightarrow> bool" where
  "honest_epoch E c V epoch \<longleftrightarrow>
     (\<forall>i \<in> set (cce_TransferInfos epoch). cct_UTXO i \<in> V \<and> LoadUTXO E c (cct_UTXO i) = 0 \<and> cc_sender E i \<noteq> CCContractAddress) \<and>
     distinct (map cct_UTXO (cce_TransferInfos epoch)) \<and> GetAccount E c CCContractAddress \<noteq> None \<and>
     (\<Sum>i\<leftarrow>cce_TransferInfos epoch. unat (cc_value i)) \<le> unat (bal E c CCContractAddress) \<and>
     length (cce_TransferInfos epoch) < 2 ^ 32"

text \<open>
  What a call forfeits: a redemption deletes the output before it looks at the balance of the
  sender, so that one that fails for the lack of coins has deleted the output.
\<close>

definition forfeited :: "('c, 'a) ext \<Rightarrow> 'c \<Rightarrow> TxToRun \<Rightarrow> cc_result \<Rightarrow> nat" where
  "forfeited E c tx res =
     (if cc_outData res = Some CCBalanceNotEnough then unat (LoadUTXO E c (arg_utxo (drop 4 (tx_Data tx)))) else 0)"

text \<open>
  One operation on the contract, with what it forfeits: a call, whatever its outcome, or an
  epoch. The context after a call is the one the contract leaves behind. The set \<open>V\<close> holds the
  outputs that the calls and the epochs name.
\<close>

inductive cc_step :: "('c, 'a) ext \<Rightarrow> utxo set \<Rightarrow> 'c \<Rightarrow> nat \<Rightarrow> 'c \<Rightarrow> bool" for E V where
  call: "cc_Execute E c tx = Some (res, d) \<Longrightarrow> (132 \<le> length (tx_Data tx) \<Longrightarrow> arg_utxo (drop 4 (tx_Data tx)) \<in> V) \<Longrightarrow>
    tx_From tx \<noteq> CCContractAddress \<Longrightarrow> cc_step E V c (forfeited E c tx res) d"
| epoch: "SwitchCCEpoch E c ep = Some (ep', d) \<Longrightarrow> honest_epoch E c V ep \<Longrightarrow> cc_step E V c 0 d"

inductive_cases cc_stepE: "cc_step E V c n d"

inductive cc_run :: "('c, 'a) ext \<Rightarrow> utxo set \<Rightarrow> 'c \<Rightarrow> nat \<Rightarrow> 'c \<Rightarrow> bool" for E V where
  start: "cc_run E V c 0 c"
| extend: "cc_run E V c n d \<Longrightarrow> cc_step E V d m e \<Longrightarrow> cc_run E V c (n + m) e"

context chain_utxo
begin

lemma SwitchCCEpoch_credits:
  assumes V: "finite V" "V \<subseteq> U" and honest: "honest_epoch E c V epoch" and info: "LoadCCInfo E c = Some info"
    and due: "sint (cci_GenesisMainnetBlockHeight info + cci_CurrEpochNum info * BlocksInCCEpoch) \<le> sint (cce_StartHeight epoch)"
  shows "\<exists>d. SwitchCCEpoch E c epoch = Some (epoch\<lparr>cce_Number := cci_CurrEpochNum info + 1\<rparr>, d) \<and>
    peg E d V = peg E c V \<and> (\<forall>i \<in> set (cce_TransferInfos epoch). LoadUTXO E d (cct_UTXO i) = cc_value i) \<and>
    LoadCCInfo E d = Some (info\<lparr>cci_CurrEpochNum := cci_CurrEpochNum info + 1\<rparr>) \<and>
    LoadCCEpoch E d (cci_CurrEpochNum info + 1) = Some (epoch\<lparr>cce_Number := cci_CurrEpochNum info + 1\<rparr>, True)"
proof -
  let ?info = "info\<lparr>cci_CurrEpochNum := cci_CurrEpochNum info + 1\<rparr>"
  let ?ep = "epoch\<lparr>cce_Number := cci_CurrEpochNum info + 1\<rparr>"
  obtain d where d: "foldM (credit_step E) c (cce_TransferInfos epoch) = Some d" "peg E d V = peg E c V"
    "\<forall>i \<in> set (cce_TransferInfos epoch). LoadUTXO E d (cct_UTXO i) = cc_value i"
    using credit_loop_peg [OF V, of "cce_TransferInfos epoch" c] honest by (auto simp: honest_epoch_def)
  let ?d = "SaveCCEpoch E (SaveCCInfo E d ?info) (cci_CurrEpochNum info + 1) ?ep"
  have run: "SwitchCCEpoch E c epoch = Some (?ep, ?d)"
    using info due d(1) by (simp add: SwitchCCEpoch_def Let_def)
  have utxo: "LoadUTXO E ?d u = LoadUTXO E d u" if "u \<in> U" for u
    using that utxo_slots [OF that] by (simp add: LoadUTXO_def SaveCCEpoch_def SaveCCInfo_def cc_slot_other)
  have "LoadBchMainnetBurnt E ?d = LoadBchMainnetBurnt E d"
    by (simp add: LoadBchMainnetBurnt_def SaveCCEpoch_def SaveCCInfo_def cc_slot_other)
  moreover have "bal E ?d = bal E d" by (simp add: fun_eq_iff SaveCCEpoch_def SaveCCInfo_def)
  moreover have "outstanding E ?d V = outstanding E d V" using utxo V(2) by (intro outstanding_cong) auto
  ultimately have "peg E ?d V = peg E c V" using d(2) by (simp add: peg_def)
  moreover have "LoadCCInfo E ?d = Some ?info" by (simp add: load_cc_info_epoch load_save_cc_info)
  moreover have "LoadCCEpoch E ?d (cci_CurrEpochNum info + 1) = Some (?ep, True)"
    using honest by (simp add: load_save_cc_epoch honest_epoch_def)
  moreover have "\<forall>i \<in> set (cce_TransferInfos epoch). LoadUTXO E ?d (cct_UTXO i) = cc_value i"
    using d(3) utxo V(2) honest by (auto simp: honest_epoch_def)
  ultimately show ?thesis using run by blast
qed

lemma call_peg:
  assumes V: "finite V" "V \<subseteq> U" and small: "peg E c V < 2 ^ 256" and run: "cc_Execute E c tx = Some (res, d)"
    and arg: "132 \<le> length (tx_Data tx) \<Longrightarrow> arg_utxo (drop 4 (tx_Data tx)) \<in> V" and far: "tx_From tx \<noteq> CCContractAddress"
  shows "peg E d V + forfeited E c tx res = peg E c V"
proof (cases "cc_status res = CC_StatusSuccess")
  case True
  have "SelectorTransferBchToMainnet \<noteq> SelectorBurnBCH" by (simp add: SelectorTransferBchToMainnet_def SelectorBurnBCH_def)
  moreover from True run have "132 \<le> length (tx_Data tx)" "cc_outData res \<noteq> Some CCBalanceNotEnough"
    by (auto simp: cc_Execute_def transferBchToMainnet_def burnBch_def transferBchFromTx_def consumeUTXO_def UpdateBchBurnt_def
        Let_def CC_StatusFailed_def CC_StatusSuccess_def split: if_splits bind_splits option.splits)
  ultimately show ?thesis
    using True run transferBchToMainnet_peg [OF V arg far small, of res d] burnBch_peg [OF V arg small, of res d]
    by (auto simp: cc_Execute_def Let_def forfeited_def CC_StatusFailed_def CC_StatusSuccess_def split: if_splits)
next
  case False
  then show ?thesis
    using run transferBchToMainnet_failed [OF V arg far _ False, of c d] burnBch_failed [OF _ False, of c tx d]
    by (auto simp: cc_Execute_def Let_def forfeited_def split: if_splits)
qed

lemma cc_step_peg:
  assumes V: "finite V" "V \<subseteq> U" and small: "peg E c V < 2 ^ 256" and step: "cc_step E V c n d"
  shows "peg E d V + n = peg E c V"
  using step
proof cases
  case (call tx res)
  then show ?thesis using call_peg [OF V small call(2)] by simp
next
  case (epoch ep ep')
  then obtain info where info: "LoadCCInfo E c = Some info" by (auto simp: SwitchCCEpoch_def split: bind_splits)
  show ?thesis
  proof (cases "sint (cci_GenesisMainnetBlockHeight info + cci_CurrEpochNum info * BlocksInCCEpoch) \<le> sint (cce_StartHeight ep)")
    case True
    then show ?thesis using SwitchCCEpoch_credits [OF V epoch(3) info] epoch(1,2) by auto
  next
    case False
    then show ?thesis using epoch(1,2) info by (simp add: SwitchCCEpoch_def)
  qed
qed

lemma cc_run_peg:
  assumes "finite V" "V \<subseteq> U" and "cc_run E V c n d" and "peg E c V < 2 ^ 256"
  shows "peg E d V + n = peg E c V"
  using assms(3,4)
proof induction
  case (extend c n d m e)
  then show ?case using cc_step_peg [OF assms(1,2) _ extend(2)] by simp
qed simp

end

subsection \<open>The implementation over finite maps\<close>

definition mem_utxos :: "utxo set" where
  "mem_utxos = {u. 2 ^ 65 \<le> u \<and> u < 2 ^ 256}"

interpretation mem: chain_utxo mem_ext mem_utxos
proof unfold_locales
  have key: "unat (utxo_key mem_ext u) = unat u" if "u \<in> mem_utxos" for u
  proof -
    have "unat u < 2 ^ LENGTH(256)" using that by (simp add: mem_utxos_def word_less_nat_alt)
    then have "unat (of_nat (unat u) :: bytes32) = unat u" by (rule unat_of_nat_small)
    moreover have "be_nat (be_bytes 36 u) = unat u" by (rule be_nat_be_bytes) simp
    then have "utxo_key mem_ext u = of_nat (unat u)" by (simp add: utxo_key_def mem_ext_def be_val_of_nat)
    ultimately show ?thesis by (simp only:)
  qed
  fix u w :: utxo
  show "u \<in> mem_utxos \<Longrightarrow> w \<in> mem_utxos \<Longrightarrow> utxo_key mem_ext u = utxo_key mem_ext w \<Longrightarrow> u = w"
    using key [of u] key [of w] by (metis word_unat_eq_iff)
  show "u \<in> mem_utxos \<Longrightarrow> \<not> utxo_key mem_ext u < 2 ^ 65"
    using key [of u] by (simp add: word_less_nat_alt mem_utxos_def word_le_nat_alt)
qed

lemma mem_chain_utxo: "chain_utxo mem_ext mem_utxos"
  by (rule mem.chain_utxo_axioms)

subsection \<open>The properties\<close>

text \<open>
  C14: through any sequence of calls of the contract, accepted or not, and of epochs of an
  honest main chain, the coins held by the contract, the coins out against recorded outputs
  and the coins booked as burnt add up to the total at the start, less exactly the values of
  the outputs that redemptions have forfeited: a redemption whose sender cannot pay deletes
  the output and then fails.
\<close>

theorem cross_chain_peg:
  assumes "chain_utxo E U" and "finite V" and "V \<subseteq> U" and "peg E c V < 2 ^ 256" and "cc_run E V c n d"
  shows "peg E d V + n = peg E c V"
  by (rule chain_utxo.cc_run_peg [OF assms(1-3,5,4)])

text \<open>
  C31: a call that returns coins to the main chain succeeds only with exactly the value
  recorded for the output; it takes the value from the sender, closes the output, and a
  second call for the same output and a non-zero value is refused and changes nothing.
\<close>

theorem transferBchToMainnet_once:
  assumes "chain_utxo E U" and "arg_utxo (drop 4 (tx_Data tx)) \<in> U" and "tx_From tx \<noteq> CCContractAddress"
    and "peg E c {arg_utxo (drop 4 (tx_Data tx))} < 2 ^ 256"
    and "transferBchToMainnet E c tx = Some (res, d)" and "cc_status res = CC_StatusSuccess"
  shows "LoadUTXO E c (arg_utxo (drop 4 (tx_Data tx))) = tx_Value tx \<and>
    unat (bal E d (tx_From tx)) + unat (tx_Value tx) = unat (bal E c (tx_From tx)) \<and>
    (\<forall>tx'. take 4 (tx_Data tx') = SelectorTransferBchToMainnet \<longrightarrow> 132 \<le> length (tx_Data tx') \<longrightarrow>
       arg_utxo (drop 4 (tx_Data tx')) = arg_utxo (drop 4 (tx_Data tx)) \<longrightarrow> tx_Value tx' \<noteq> 0 \<longrightarrow>
       cc_Execute E d tx' = Some (cc_failure GasOfCCOp BchAmountNotMatch, d))"
proof -
  let ?u = "arg_utxo (drop 4 (tx_Data tx))"
  have p: "LoadUTXO E c ?u = tx_Value tx" "LoadUTXO E d ?u = 0"
    "unat (bal E d (tx_From tx)) + unat (tx_Value tx) = unat (bal E c (tx_From tx))"
    using chain_utxo.transferBchToMainnet_peg [OF assms(1), of "{?u}" tx c res d] assms(2-6) by auto
  moreover have "cc_Execute E d tx' = Some (cc_failure GasOfCCOp BchAmountNotMatch, d)"
    if "take 4 (tx_Data tx') = SelectorTransferBchToMainnet" "132 \<le> length (tx_Data tx')"
      "arg_utxo (drop 4 (tx_Data tx')) = ?u" "tx_Value tx' \<noteq> 0" for tx'
    using that p(2) by (simp add: cc_Execute_def transferBchToMainnet_def consumeUTXO_def Let_def)
  ultimately show ?thesis by blast
qed

text \<open>
  the coins booked as burnt on the main chain never exceed the coins in the black hole,
  and booking closes the output without moving any coins.
\<close>

theorem burnBch_covered:
  assumes "chain_utxo E U" and "arg_utxo (drop 4 (tx_Data tx)) \<in> U" and "peg E c {arg_utxo (drop 4 (tx_Data tx))} < 2 ^ 256"
    and "burnBch E c tx = (res, d)" and "cc_status res = CC_StatusSuccess"
  shows "unat (LoadBchMainnetBurnt E d) = unat (LoadBchMainnetBurnt E c) + unat (LoadUTXO E c (arg_utxo (drop 4 (tx_Data tx)))) \<and>
    LoadBchMainnetBurnt E d \<le> GetBlackHoleBalance E c \<and> bal E d = bal E c \<and>
    LoadUTXO E d (arg_utxo (drop 4 (tx_Data tx))) = 0"
  using chain_utxo.burnBch_peg [OF assms(1), of "{arg_utxo (drop 4 (tx_Data tx))}" tx c res d] assms
  by (auto simp: peg_def outstanding_def)

text \<open>
  an epoch that is due records every output with its amount times \<open>10 ^ 11\<close> (the
  comment in the source says from 8 to 18 decimals), keeps the peg, and stores the epoch
  under the next number.
\<close>

theorem SwitchCCEpoch_records:
  assumes "chain_utxo E U" and "finite V" and "V \<subseteq> U" and "honest_epoch E c V epoch" and "LoadCCInfo E c = Some info"
    and "sint (cci_GenesisMainnetBlockHeight info + cci_CurrEpochNum info * BlocksInCCEpoch) \<le> sint (cce_StartHeight epoch)"
  shows "\<exists>d. SwitchCCEpoch E c epoch = Some (epoch\<lparr>cce_Number := cci_CurrEpochNum info + 1\<rparr>, d) \<and>
    peg E d V = peg E c V \<and>
    (\<forall>i \<in> set (cce_TransferInfos epoch). unat (LoadUTXO E d (cct_UTXO i)) = unat (cct_Amount i) * 10 ^ 11) \<and>
    LoadCCInfo E d = Some (info\<lparr>cci_CurrEpochNum := cci_CurrEpochNum info + 1\<rparr>) \<and>
    LoadCCEpoch E d (cci_CurrEpochNum info + 1) = Some (epoch\<lparr>cce_Number := cci_CurrEpochNum info + 1\<rparr>, True)"
  using chain_utxo.SwitchCCEpoch_credits [OF assms] unat_cc_value by fastforce

text \<open>
  a failing call leaves the chain alone, except for one case: a call whose sender cannot
  pay has already deleted the output it names.
\<close>

theorem cc_Execute_failure:
  assumes "cc_Execute E c tx = Some (res, d)" and "cc_status res = CC_StatusFailed"
  shows "cc_logs res = [] \<and> (\<exists>e. cc_outData res = Some e) \<and>
    (d = c \<or> cc_outData res = Some CCBalanceNotEnough \<and> d = deleteUTXO E c (arg_utxo (drop 4 (tx_Data tx))) \<and>
       LoadUTXO E c (arg_utxo (drop 4 (tx_Data tx))) = tx_Value tx \<and> bal E d (tx_From tx) < tx_Value tx)"
  using assms
  by (auto simp: cc_Execute_def transferBchToMainnet_def burnBch_def consumeUTXO_def UpdateBchBurnt_def transferBchFromTx_def
      transferBch_def bal_def CC_StatusFailed_def CC_StatusSuccess_def Let_def split: if_splits bind_splits)

subsection \<open>Examples\<close>

definition sample_utxo :: utxo where "sample_utxo = 0x123456789abcdef012"

definition cc_ctx0 :: mem_ctx where
  "cc_ctx0 = SetAccount mem_ext (SetAccount mem_ext mem_empty CCContractAddress \<lparr>ma_Balance = 10 ^ 12, ma_Sequence = 0\<rparr>)
     7 \<lparr>ma_Balance = 600, ma_Sequence = 0\<rparr>"

definition cc_ctx1 :: mem_ctx where
  "cc_ctx1 = SaveUTXO mem_ext cc_ctx0 sample_utxo 500"

definition cc_tx :: "bytes \<Rightarrow> u256 \<Rightarrow> TxToRun" where
  "cc_tx sel v = \<lparr>tx_From = 7, tx_Value = v, tx_Data = sel @ replicate 64 0 @ be_bytes 36 sample_utxo @ replicate 28 0\<rparr>"

definition cc_sample_epoch :: CCEpoch where
  "cc_sample_epoch = \<lparr>cce_Number = 0, cce_StartHeight = 70, cce_EndTime = 1,
     cce_TransferInfos = [\<lparr>cct_UTXO = sample_utxo, cct_Amount = 3, cct_SenderPubkey = 8\<rparr>]\<rparr>"

lemma sample_utxo_in: "sample_utxo \<in> mem_utxos"
  by (simp add: sample_utxo_def mem_utxos_def)

lemma arg_cc_tx: "length sel = 4 \<Longrightarrow> arg_utxo (drop 4 (tx_Data (cc_tx sel v))) = sample_utxo"
  by (simp add: arg_utxo_def cc_tx_def slice_def)

lemma cc_tx_simps [simp]: "tx_From (cc_tx sel v) = 7" "tx_Value (cc_tx sel v) = v" "length (tx_Data (cc_tx sel v)) = length sel + 128"
  "take 4 (tx_Data (cc_tx sel v)) = (if length sel = 4 then sel else take 4 (tx_Data (cc_tx sel v)))"
  by (simp_all add: cc_tx_def)

lemma cc_ctx_accounts:
  "GetAccount mem_ext cc_ctx0 CCContractAddress = Some \<lparr>ma_Balance = 10 ^ 12, ma_Sequence = 0\<rparr>"
  "GetAccount mem_ext cc_ctx1 CCContractAddress = Some \<lparr>ma_Balance = 10 ^ 12, ma_Sequence = 0\<rparr>"
  "GetAccount mem_ext cc_ctx1 7 = Some \<lparr>ma_Balance = 600, ma_Sequence = 0\<rparr>"
  by (simp_all add: cc_ctx1_def cc_ctx0_def SaveUTXO_def mem_ext_def CCContractAddress_def)

lemma cc_ctx_slots:
  "LoadUTXO mem_ext cc_ctx0 u = 0" "LoadUTXO mem_ext cc_ctx1 sample_utxo = 500"
  "LoadBchMainnetBurnt mem_ext cc_ctx1 = 0" "LoadBchMainnetBurnt mem_ext cc_ctx0 = 0" "LoadCCInfo mem_ext cc_ctx0 = Some zero_CCInfo"
proof -
  have none: "GetStorageAt mem_ext cc_ctx0 q k = None" for q k
    by (simp add: cc_ctx0_def mem_ext_def mem_empty_def)
  then show "LoadUTXO mem_ext cc_ctx0 u = 0" "LoadBchMainnetBurnt mem_ext cc_ctx0 = 0" "LoadCCInfo mem_ext cc_ctx0 = Some zero_CCInfo"
    by (simp_all add: LoadUTXO_def LoadBchMainnetBurnt_def LoadCCInfo_def cc_slot_def)
  then show "LoadUTXO mem_ext cc_ctx1 sample_utxo = 500" "LoadBchMainnetBurnt mem_ext cc_ctx1 = 0"
    by (simp_all add: cc_ctx1_def mem.load_utxo(1) mem.load_burnt(1) sample_utxo_in)
qed

lemma sample_peg: "peg mem_ext cc_ctx1 {sample_utxo} = 10 ^ 12 + 500"
proof -
  have "unat (bal mem_ext cc_ctx1 CCContractAddress) = 10 ^ 12" by (simp add: bal_def cc_ctx_accounts) (simp add: mem_ext_def)
  then show ?thesis by (simp add: peg_def outstanding_def cc_ctx_slots)
qed

lemma sample_transfer:
  "\<exists>d. transferBchToMainnet mem_ext cc_ctx1 (cc_tx SelectorTransferBchToMainnet 500) =
     Some (\<lparr>cc_status = CC_StatusSuccess, cc_logs = [buildTransferToMainnetEvmLog sample_utxo 7 500],
       cc_gasUsed = GasOfCCOp, cc_outData = None\<rparr>, d)"
proof -
  have acc: "GetAccount mem_ext (deleteUTXO mem_ext cc_ctx1 sample_utxo) 7 = Some \<lparr>ma_Balance = 600, ma_Sequence = 0\<rparr>"
    using cc_ctx_accounts(3) by (simp add: deleteUTXO_def mem.account_delete_storage)
  have sel: "length SelectorTransferBchToMainnet = 4" by (simp add: SelectorTransferBchToMainnet_def)
  have bal: "Balance mem_ext \<lparr>ma_Balance = 600, ma_Sequence = 0\<rparr> = 600" by (simp add: mem_ext_def)
  show ?thesis
    by (simp add: transferBchToMainnet_def Let_def consumeUTXO_def arg_cc_tx [OF sel] cc_ctx_slots transferBchFromTx_def
        transferBch_def acc sel bal)
qed

text \<open>One redemption is paid for, the other one is not: its output is lost.\<close>

definition cc_poor :: mem_ctx where
  "cc_poor = SetAccount mem_ext cc_ctx1 7 \<lparr>ma_Balance = 100, ma_Sequence = 0\<rparr>"

lemma sample_forfeit:
  "cc_Execute mem_ext cc_poor (cc_tx SelectorTransferBchToMainnet 500)
     = Some (cc_failure GasOfCCOp CCBalanceNotEnough, deleteUTXO mem_ext cc_poor sample_utxo)"
  "LoadUTXO mem_ext cc_poor sample_utxo = 500"
proof -
  have sel: "length SelectorTransferBchToMainnet = 4" by (simp add: SelectorTransferBchToMainnet_def)
  show u: "LoadUTXO mem_ext cc_poor sample_utxo = 500" using cc_ctx_slots(2) by (simp add: cc_poor_def LoadUTXO_def)
  have acc: "GetAccount mem_ext (deleteUTXO mem_ext cc_poor sample_utxo) 7 = Some \<lparr>ma_Balance = 100, ma_Sequence = 0\<rparr>"
    by (simp add: cc_poor_def deleteUTXO_def mem.account_delete_storage mem.get_set_account)
  have bal: "Balance mem_ext \<lparr>ma_Balance = 100, ma_Sequence = 0\<rparr> = 100" by (simp add: mem_ext_def)
  show "cc_Execute mem_ext cc_poor (cc_tx SelectorTransferBchToMainnet 500)
     = Some (cc_failure GasOfCCOp CCBalanceNotEnough, deleteUTXO mem_ext cc_poor sample_utxo)"
    by (simp add: cc_Execute_def transferBchToMainnet_def Let_def consumeUTXO_def arg_cc_tx [OF sel] u transferBchFromTx_def
        transferBch_def acc sel bal CC_StatusFailed_def CC_StatusSuccess_def)
qed

theorem cross_chain_peg_witness:
  "(\<exists>d. cc_run mem_ext {sample_utxo} cc_ctx1 0 d \<and> peg mem_ext d {sample_utxo} = 10 ^ 12 + 500) \<and>
   (\<exists>d. cc_run mem_ext {sample_utxo} cc_poor 500 d \<and> peg mem_ext d {sample_utxo} = 10 ^ 12)"
proof -
  have sel: "length SelectorTransferBchToMainnet = 4" by (simp add: SelectorTransferBchToMainnet_def)
  from sample_transfer obtain d where run: "transferBchToMainnet mem_ext cc_ctx1 (cc_tx SelectorTransferBchToMainnet 500)
      = Some (\<lparr>cc_status = CC_StatusSuccess, cc_logs = [buildTransferToMainnetEvmLog sample_utxo 7 500],
       cc_gasUsed = GasOfCCOp, cc_outData = None\<rparr>, d)" by auto
  then have "cc_Execute mem_ext cc_ctx1 (cc_tx SelectorTransferBchToMainnet 500)
      = Some (\<lparr>cc_status = CC_StatusSuccess, cc_logs = [buildTransferToMainnetEvmLog sample_utxo 7 500],
       cc_gasUsed = GasOfCCOp, cc_outData = None\<rparr>, d)" using sel by (simp add: cc_Execute_def Let_def)
  from cc_step.call [OF this, of "{sample_utxo}"] have "cc_step mem_ext {sample_utxo} cc_ctx1 0 d"
    using arg_cc_tx [OF sel] by (simp add: forfeited_def CCContractAddress_def)
  with cc_run.extend [OF cc_run.start] have paid: "cc_run mem_ext {sample_utxo} cc_ctx1 0 d" by fastforce
  from cc_step.call [OF sample_forfeit(1), of "{sample_utxo}"]
  have "cc_step mem_ext {sample_utxo} cc_poor 500 (deleteUTXO mem_ext cc_poor sample_utxo)"
    using arg_cc_tx [OF sel] by (simp add: forfeited_def CCContractAddress_def sample_forfeit(2))
  with cc_run.extend [OF cc_run.start] have lost: "cc_run mem_ext {sample_utxo} cc_poor 500 (deleteUTXO mem_ext cc_poor sample_utxo)" by fastforce
  have "bal mem_ext cc_poor CCContractAddress = bal mem_ext cc_ctx1 CCContractAddress"
    by (simp add: cc_poor_def bal_def mem.get_set_account CCContractAddress_def)
  moreover have "LoadBchMainnetBurnt mem_ext cc_poor = LoadBchMainnetBurnt mem_ext cc_ctx1" by (simp add: cc_poor_def LoadBchMainnetBurnt_def)
  ultimately have peg: "peg mem_ext cc_poor {sample_utxo} = 10 ^ 12 + 500"
    using sample_peg sample_forfeit(2) cc_ctx_slots(2) by (simp add: peg_def outstanding_def)
  have "peg mem_ext d {sample_utxo} = 10 ^ 12 + 500" "peg mem_ext (deleteUTXO mem_ext cc_poor sample_utxo) {sample_utxo} = 10 ^ 12"
    using cross_chain_peg [OF mem_chain_utxo _ _ _ paid] cross_chain_peg [OF mem_chain_utxo _ _ _ lost] sample_utxo_in sample_peg peg by simp_all
  then show ?thesis using paid lost by blast
qed

theorem transferBchToMainnet_once_witness:
  "\<exists>res d. transferBchToMainnet mem_ext cc_ctx1 (cc_tx SelectorTransferBchToMainnet 500) = Some (res, d) \<and>
     cc_Execute mem_ext d (cc_tx SelectorTransferBchToMainnet 500) = Some (cc_failure GasOfCCOp BchAmountNotMatch, d)"
proof -
  have sel: "length SelectorTransferBchToMainnet = 4" by (simp add: SelectorTransferBchToMainnet_def)
  from sample_transfer obtain res d where run: "transferBchToMainnet mem_ext cc_ctx1 (cc_tx SelectorTransferBchToMainnet 500) = Some (res, d)"
    and ok: "cc_status res = CC_StatusSuccess" by auto
  have "cc_Execute mem_ext d (cc_tx SelectorTransferBchToMainnet 500) = Some (cc_failure GasOfCCOp BchAmountNotMatch, d)"
    using transferBchToMainnet_once [OF mem_chain_utxo _ _ _ run ok] sample_utxo_in sample_peg
    by (simp add: arg_cc_tx [OF sel] sel CCContractAddress_def)
  then show ?thesis using run by blast
qed

theorem burnBch_covered_witness:
  "\<exists>res d. burnBch mem_ext (SetAccount mem_ext cc_ctx1 0 \<lparr>ma_Balance = 800, ma_Sequence = 0\<rparr>) (cc_tx SelectorBurnBCH 0) = (res, d) \<and>
     unat (LoadBchMainnetBurnt mem_ext d) = 500"
proof -
  let ?c = "SetAccount mem_ext cc_ctx1 0 \<lparr>ma_Balance = 800, ma_Sequence = 0\<rparr>"
  have sel: "length SelectorBurnBCH = 4" by (simp add: SelectorBurnBCH_def)
  have slots: "LoadUTXO mem_ext ?c sample_utxo = 500" "LoadBchMainnetBurnt mem_ext ?c = 0"
    using cc_ctx_slots(2,3) by (simp_all add: LoadUTXO_def LoadBchMainnetBurnt_def)
  have bh: "GetBlackHoleBalance mem_ext ?c = 800" by (simp add: mem_ext_def)
  obtain res d where run: "burnBch mem_ext ?c (cc_tx SelectorBurnBCH 0) = (res, d)" by fastforce
  then have ok: "cc_status res = CC_StatusSuccess"
    by (auto simp: burnBch_def Let_def arg_cc_tx [OF sel] slots UpdateBchBurnt_def bh sel)
  have "bal mem_ext ?c CCContractAddress = 10 ^ 12"
    by (simp add: bal_def cc_ctx1_def cc_ctx0_def SaveUTXO_def mem_ext_def CCContractAddress_def)
  then have "peg mem_ext ?c {sample_utxo} < 2 ^ 256" by (simp add: peg_def outstanding_def slots)
  then show ?thesis using burnBch_covered [OF mem_chain_utxo _ _ run ok] sample_utxo_in run slots
    by (auto simp: arg_cc_tx [OF sel])
qed

theorem SwitchCCEpoch_records_witness:
  "\<exists>ep d. SwitchCCEpoch mem_ext cc_ctx0 cc_sample_epoch = Some (ep, d) \<and> unat (LoadUTXO mem_ext d sample_utxo) = 3 * 10 ^ 11"
proof -
  have v: "unat (cc_value \<lparr>cct_UTXO = sample_utxo, cct_Amount = 3, cct_SenderPubkey = 8\<rparr>) = 3 * 10 ^ 11"
    by (simp add: unat_cc_value)
  have "cc_sender mem_ext \<lparr>cct_UTXO = sample_utxo, cct_Amount = 3, cct_SenderPubkey = 8\<rparr> = 8"
  proof -
    have "be_nat (be_bytes 33 (8 :: pubkey33)) = unat (8 :: pubkey33)" by (rule be_nat_be_bytes) simp
    then show ?thesis by (simp add: cc_sender_def mem_ext_def be_val_of_nat)
  qed
  moreover have "unat (bal mem_ext cc_ctx0 CCContractAddress) = 10 ^ 12" by (simp add: bal_def cc_ctx_accounts) (simp add: mem_ext_def)
  ultimately have honest: "honest_epoch mem_ext cc_ctx0 {sample_utxo} cc_sample_epoch"
    using v cc_ctx_accounts(1) by (simp add: honest_epoch_def cc_sample_epoch_def cc_ctx_slots) (simp add: CCContractAddress_def)
  show ?thesis
    using SwitchCCEpoch_records [OF mem_chain_utxo _ _ honest cc_ctx_slots(5)] sample_utxo_in
    by (auto simp: zero_CCInfo_def cc_sample_epoch_def)
qed

theorem cc_Execute_failure_witness:
  "cc_Execute mem_ext cc_ctx1 (cc_tx [1, 2, 3, 4] 5) = Some (cc_failure 0 CCInvalidSelector, cc_ctx1) \<and>
   cc_logs (cc_failure 0 CCInvalidSelector) = []"
proof -
  have run: "cc_Execute mem_ext cc_ctx1 (cc_tx [1, 2, 3, 4] 5) = Some (cc_failure 0 CCInvalidSelector, cc_ctx1)"
    by (simp add: cc_Execute_def Let_def SelectorTransferBchToMainnet_def SelectorBurnBCH_def)
  show ?thesis using run cc_Execute_failure [OF run] by simp
qed

end
