(* ===== verification/Msgp_Stream.thy ===== *)
theory Msgp_Stream
  imports Msgp "HOL-Library.Sublist"
begin

text \<open>
  The stream side of the MessagePack run-time library, which the generated \<open>EncodeMsg\<close> and
  \<open>DecodeMsg\<close> call: a writer and a reader with a state of their own. A write returns the writer
  and whether it succeeded; a read returns the value and the reader, or nothing for an error.
  The locales \<open>msgp_stream_writer\<close> and \<open>msgp_stream_reader\<close> relate them to the functions on
  slices: what was written, and what is still to be read, is a byte string. A failing write
  may have passed on a part of the value, since the writer flushes its buffer when it is full.
  A reader of streams takes fewer map keys than the functions on slices: it refuses the empty key
  and need not take one that is not shorter than its buffer; \<open>okey\<close> says which keys it takes.
\<close>

record 'w msgp_writer =
  wr_Append :: "bytes \<Rightarrow> 'w \<Rightarrow> 'w \<times> bool"
  wr_WriteInt64 :: "i64 \<Rightarrow> 'w \<Rightarrow> 'w \<times> bool"
  wr_WriteUint64 :: "u64 \<Rightarrow> 'w \<Rightarrow> 'w \<times> bool"
  wr_WriteBytes :: "bytes \<Rightarrow> 'w \<Rightarrow> 'w \<times> bool"
  wr_WriteString :: "bytes \<Rightarrow> 'w \<Rightarrow> 'w \<times> bool"
  wr_WriteBool :: "bool \<Rightarrow> 'w \<Rightarrow> 'w \<times> bool"
  wr_WriteArrayHeader :: "u32 \<Rightarrow> 'w \<Rightarrow> 'w \<times> bool"
  wr_WriteNil :: "'w \<Rightarrow> 'w \<times> bool"

record 'r msgp_reader =
  rd_ReadMapHeader :: "'r \<Rightarrow> (u32 \<times> 'r) option"
  rd_ReadMapKeyPtr :: "'r \<Rightarrow> (bytes \<times> 'r) option"
  rd_ReadInt64 :: "'r \<Rightarrow> (i64 \<times> 'r) option"
  rd_ReadUint64 :: "'r \<Rightarrow> (u64 \<times> 'r) option"
  rd_ReadExactBytes :: "nat \<Rightarrow> 'r \<Rightarrow> (bytes \<times> 'r) option"
  rd_ReadString :: "'r \<Rightarrow> (bytes \<times> 'r) option"
  rd_ReadBool :: "'r \<Rightarrow> (bool \<times> 'r) option"
  rd_ReadArrayHeader :: "'r \<Rightarrow> (u32 \<times> 'r) option"
  rd_IsNil :: "'r \<Rightarrow> bool"
  rd_ReadNil :: "'r \<Rightarrow> 'r option"
  rd_Skip :: "'r \<Rightarrow> 'r option"

text \<open>The sizes the library exports for \<open>Msgsize\<close>.\<close>

record msgp_sizes =
  Int64Size :: nat
  Uint64Size :: nat
  BoolSize :: nat
  ByteSize :: nat
  StringPrefixSize :: nat
  ArrayHeaderSize :: nat
  NilSize :: nat

text \<open>\<open>err = en.Write...; if err != nil { return }\<close>, again and again.\<close>

fun write_all :: "('w \<Rightarrow> 'w \<times> bool) list \<Rightarrow> 'w \<Rightarrow> 'w \<times> bool" where
  "write_all [] w = (w, True)"
| "write_all (a # as) w = (case a w of (w, ok) \<Rightarrow> if ok then write_all as w else (w, False))"

text \<open>The element of a slice of pointers: \<open>if z[i] == nil { en.WriteNil() } else { ... }\<close>, and its size.\<close>

definition write_ptr :: "'w msgp_writer \<Rightarrow> ('s \<Rightarrow> 'w \<Rightarrow> 'w \<times> bool) \<Rightarrow> 's option \<Rightarrow> 'w \<Rightarrow> 'w \<times> bool" where
  "write_ptr W e p = (case p of None \<Rightarrow> wr_WriteNil W | Some x \<Rightarrow> e x)"

definition size_ptr :: "msgp_sizes \<Rightarrow> ('s \<Rightarrow> nat) \<Rightarrow> 's option \<Rightarrow> nat" where
  "size_ptr S h p = (case p of None \<Rightarrow> NilSize S | Some x \<Rightarrow> h x)"

text \<open>The loops of \<open>DecodeMsg\<close>, as those of \<open>UnmarshalMsg\<close>.\<close>

fun dc_fields ::
  "'r msgp_reader \<Rightarrow> (bytes \<Rightarrow> 's \<Rightarrow> 'r \<Rightarrow> ('s \<times> 'r) option) \<Rightarrow> nat \<Rightarrow> 's \<Rightarrow> 'r \<Rightarrow> ('s \<times> 'r) option"
where
  "dc_fields D sw 0 z dc = Some (z, dc)"
| "dc_fields D sw (Suc n) z dc = do {
     (field, dc) \<leftarrow> rd_ReadMapKeyPtr D dc;
     (z, dc) \<leftarrow> sw field z dc;
     dc_fields D sw n z dc }"

definition dc_struct ::
  "'r msgp_reader \<Rightarrow> (bytes \<Rightarrow> 's \<Rightarrow> 'r \<Rightarrow> ('s \<times> 'r) option) \<Rightarrow> 's \<Rightarrow> 'r \<Rightarrow> ('s \<times> 'r) option"
where
  "dc_struct D sw z dc = do {
     (n, dc) \<leftarrow> rd_ReadMapHeader D dc;
     dc_fields D sw (unat n) z dc }"

fun dc_elems ::
  "'r msgp_reader \<Rightarrow> ('s \<Rightarrow> 'r \<Rightarrow> ('s \<times> 'r) option) \<Rightarrow> 's \<Rightarrow> 's option list \<Rightarrow> 'r \<Rightarrow> ('s option list \<times> 'r) option"
where
  "dc_elems D rd zero [] dc = Some ([], dc)"
| "dc_elems D rd zero (z # zs) dc = do {
     (x, dc) \<leftarrow> (if rd_IsNil D dc then do { dc \<leftarrow> rd_ReadNil D dc; Some (None, dc) }
       else do { (x, dc) \<leftarrow> rd (case z of None \<Rightarrow> zero | Some v \<Rightarrow> v) dc; Some (Some x, dc) });
     (xs, dc) \<leftarrow> dc_elems D rd zero zs dc;
     Some (x # xs, dc) }"

definition dc_slice ::
  "'r msgp_reader \<Rightarrow> ('s \<Rightarrow> 'r \<Rightarrow> ('s \<times> 'r) option) \<Rightarrow> 's \<Rightarrow> 's option list \<Rightarrow> 'r \<Rightarrow> ('s option list \<times> 'r) option"
where
  "dc_slice D rd zero zs dc = do {
     (n, dc) \<leftarrow> rd_ReadArrayHeader D dc;
     dc_elems D rd zero (resize_slice (unat n) zs) dc }"

subsection \<open>What an action writes\<close>

definition wrote :: "('w \<Rightarrow> bytes) \<Rightarrow> ('w \<Rightarrow> 'w \<times> bool) \<Rightarrow> bytes \<Rightarrow> bool" where
  "wrote written a x \<longleftrightarrow> (\<forall>w. case a w of (w', ok) \<Rightarrow>
     if ok then written w' = written w @ x else (\<exists>p. prefix p x \<and> written w' = written w @ p))"

lemma wroteD:
  assumes "wrote written a x" and "a w = (w', ok)"
  shows "ok \<Longrightarrow> written w' = written w @ x"
    and "\<exists>p. prefix p x \<and> written w' = written w @ p"
  using assms by (auto simp: wrote_def split: if_splits dest!: spec [of _ w])

lemma wrote_Nil [intro]: "wrote written (write_all []) []"
  by (simp add: wrote_def)

lemma wrote_Cons [intro]:
  assumes a: "wrote written a x" and as: "wrote written (write_all as) xs"
  shows "wrote written (write_all (a # as)) (x @ xs)"
  unfolding wrote_def
proof (intro allI)
  fix w
  obtain w' ok where w': "a w = (w', ok)" by fastforce
  show "case write_all (a # as) w of (w', ok) \<Rightarrow>
    if ok then written w' = written w @ x @ xs else (\<exists>p. prefix p (x @ xs) \<and> written w' = written w @ p)"
  proof (cases ok)
    case True
    then have "written w' = written w @ x" using wroteD(1) [OF a w'] by simp
    then show ?thesis
      using as w' True by (fastforce simp: wrote_def split: prod.splits if_splits)
  next
    case False
    then show ?thesis using wroteD(2) [OF a w'] w' by (auto intro: prefix_prefix)
  qed
qed

lemma wrote_map:
  assumes "\<And>x. x \<in> set xs \<Longrightarrow> wrote written (f x) (g x)"
  shows "wrote written (write_all (map f xs)) (concat (map g xs))"
  using assms by (induction xs) auto

subsection \<open>What an action reads\<close>

definition reads :: "('r \<Rightarrow> bytes) \<Rightarrow> ('r \<Rightarrow> ('s \<times> 'r) option) \<Rightarrow> (bytes \<Rightarrow> ('s \<times> bytes) option) \<Rightarrow> bool" where
  "reads rest f g \<longleftrightarrow> (\<forall>r. map_option (map_prod (\<lambda>x. x) rest) (f r) = g (rest r))"

lemma reads_Some: "reads rest (\<lambda>dc. Some (z, dc)) (\<lambda>bts. Some (z, bts))"
  by (simp add: reads_def)

lemma reads_bind:
  assumes "reads rest f g" and "\<And>x. reads rest (h x) (k x)"
  shows "reads rest (\<lambda>dc. f dc \<bind> (\<lambda>(x, dc). h x dc)) (\<lambda>bts. g bts \<bind> (\<lambda>(x, bts). k x bts))"
proof -
  have "map_option (map_prod (\<lambda>x. x) rest) (f r \<bind> (\<lambda>(x, dc). h x dc)) = g (rest r) \<bind> (\<lambda>(x, bts). k x bts)" for r
  proof -
    have "g (rest r) = map_option (map_prod (\<lambda>x. x) rest) (f r)" using assms(1) by (simp add: reads_def)
    then show ?thesis using assms(2) by (cases "f r") (auto simp: reads_def)
  qed
  then show ?thesis by (simp add: reads_def)
qed

lemma reads_if:
  "reads rest f g \<Longrightarrow> reads rest f' g' \<Longrightarrow>
   reads rest (\<lambda>dc. if c then f dc else f' dc) (\<lambda>bts. if c then g bts else g' bts)"
  by (simp add: reads_def)

lemmas reads_rules = reads_if reads_bind reads_Some

subsection \<open>The keys a reader takes\<close>

text \<open>The functions on slices as they would be if they took only the keys of \<open>okey\<close>.\<close>

definition keyed :: "(bytes \<Rightarrow> bool) \<Rightarrow> msgp_ops \<Rightarrow> msgp_ops" where
  "keyed okey rt = rt\<lparr>ReadMapKeyZC := (\<lambda>bts. do {
     (k, bts) \<leftarrow> ReadMapKeyZC rt bts;
     if okey k then Some (k, bts) else None })\<rparr>"

lemma keyed_simps [simp]:
  "AppendInt64 (keyed okey rt) = AppendInt64 rt" "AppendUint64 (keyed okey rt) = AppendUint64 rt"
  "AppendBytes (keyed okey rt) = AppendBytes rt" "AppendString (keyed okey rt) = AppendString rt"
  "AppendBool (keyed okey rt) = AppendBool rt" "AppendArrayHeader (keyed okey rt) = AppendArrayHeader rt"
  "AppendNil (keyed okey rt) = AppendNil rt" "ReadMapHeaderBytes (keyed okey rt) = ReadMapHeaderBytes rt"
  "ReadInt64Bytes (keyed okey rt) = ReadInt64Bytes rt" "ReadUint64Bytes (keyed okey rt) = ReadUint64Bytes rt"
  "ReadExactBytes (keyed okey rt) = ReadExactBytes rt" "ReadStringBytes (keyed okey rt) = ReadStringBytes rt"
  "ReadBoolBytes (keyed okey rt) = ReadBoolBytes rt" "ReadArrayHeaderBytes (keyed okey rt) = ReadArrayHeaderBytes rt"
  "IsNil (keyed okey rt) = IsNil rt" "ReadNilBytes (keyed okey rt) = ReadNilBytes rt" "Skip (keyed okey rt) = Skip rt"
  by (simp_all add: keyed_def)

text \<open>Where the one accepts the bytes, the other returns the same.\<close>

definition within :: "(bytes \<Rightarrow> 's option) \<Rightarrow> (bytes \<Rightarrow> 's option) \<Rightarrow> bool" where
  "within g g' \<longleftrightarrow> (\<forall>bts y. g bts = Some y \<longrightarrow> g' bts = Some y)"

lemma within_refl: "within g g"
  by (simp add: within_def)

lemma within_bind:
  "within g g' \<Longrightarrow> (\<And>x. within (k x) (k' x)) \<Longrightarrow>
   within (\<lambda>bts. g bts \<bind> (\<lambda>(x, bts). k x bts)) (\<lambda>bts. g' bts \<bind> (\<lambda>(x, bts). k' x bts))"
  by (fastforce simp: within_def bind_eq_Some_conv)

lemma within_bind1:
  "within g g' \<Longrightarrow> within k k' \<Longrightarrow> within (\<lambda>bts. g bts \<bind> k) (\<lambda>bts. g' bts \<bind> k')"
  by (fastforce simp: within_def bind_eq_Some_conv)

lemma within_if:
  "within f g \<Longrightarrow> within f' g' \<Longrightarrow> within (\<lambda>bts. if c bts then f bts else f' bts) (\<lambda>bts. if c bts then g bts else g' bts)"
  by (simp add: within_def)

lemma within_key: "within (ReadMapKeyZC (keyed okey rt)) (ReadMapKeyZC rt)"
  by (auto simp: within_def keyed_def bind_eq_Some_conv split: if_splits)

lemma within_fields:
  assumes "\<And>field z. within (sw field z) (sw' field z)"
  shows "within (read_fields (keyed okey rt) sw n z) (read_fields rt sw' n z)"
proof (induction n arbitrary: z)
  case (Suc n)
  show ?case unfolding read_fields.simps by (intro within_bind within_key assms Suc)
qed (simp add: within_def)

lemma within_struct:
  assumes "\<And>field z. within (sw field z) (sw' field z)"
  shows "within (read_struct (keyed okey rt) sw z) (read_struct rt sw' z)"
  unfolding read_struct_def [abs_def] keyed_simps by (intro within_bind within_refl within_fields assms)

lemma within_elems:
  assumes "\<And>z. within (rd z) (rd' z)"
  shows "within (read_elems (keyed okey rt) rd zero zs) (read_elems rt rd' zero zs)"
proof (induction zs)
  case (Cons z zs)
  show ?case unfolding read_elems.simps keyed_simps by (intro within_bind within_bind1 within_if within_refl assms Cons)
qed (simp add: within_def)

lemma within_slice:
  assumes "\<And>z. within (rd z) (rd' z)"
  shows "within (read_slice (keyed okey rt) rd zero zs) (read_slice rt rd' zero zs)"
  unfolding read_slice_def [abs_def] keyed_simps by (intro within_bind within_refl within_elems assms)

lemmas within_rules = within_struct within_slice within_if within_bind within_bind1 within_refl

text \<open>
  A decoder of streams against the decoder of slices \<open>g\<close>: it returns what \<open>g\<close> returns when the keys
  are restricted to those of \<open>okey\<close>, and \<open>g\<close> restricted in this way never returns anything else than \<open>g\<close>.
\<close>

definition decodes ::
  "(bytes \<Rightarrow> bool) \<Rightarrow> msgp_ops \<Rightarrow> ('r \<Rightarrow> bytes) \<Rightarrow> ('r \<Rightarrow> ('s \<times> 'r) option) \<Rightarrow> (msgp_ops \<Rightarrow> bytes \<Rightarrow> ('s \<times> bytes) option) \<Rightarrow> bool"
where
  "decodes okey rt rest f g \<longleftrightarrow> reads rest f (g (keyed okey rt)) \<and> within (g (keyed okey rt)) (g rt)"

subsection \<open>The laws\<close>

locale msgp_stream_writer = msgp_runtime rt for rt :: msgp_ops +
  fixes W :: "'w msgp_writer" and written :: "'w \<Rightarrow> bytes"
  assumes wrote_append: "wrote written (wr_Append W x) x"
    and wrote_int64: "wrote written (wr_WriteInt64 W v) (AppendInt64 rt [] v)"
    and wrote_uint64: "wrote written (wr_WriteUint64 W u) (AppendUint64 rt [] u)"
    and wrote_bytes: "wrote written (wr_WriteBytes W x) (AppendBytes rt [] x)"
    and wrote_string: "wrote written (wr_WriteString W x) (AppendString rt [] x)"
    and wrote_bool: "wrote written (wr_WriteBool W f) (AppendBool rt [] f)"
    and wrote_array: "wrote written (wr_WriteArrayHeader W n) (AppendArrayHeader rt [] n)"
    and wrote_nil: "wrote written (wr_WriteNil W) (AppendNil rt [])"
begin

lemma wrote_ptrs:
  assumes "\<And>x. wrote written (e x) (M [] x)"
  shows "wrote written (write_all (map (write_ptr W e) ps)) (concat (map (append_ptr rt M []) ps))"
proof (rule wrote_map)
  fix p assume "p \<in> set ps"
  show "wrote written (write_ptr W e p) (append_ptr rt M [] p)"
    by (cases p) (simp_all add: write_ptr_def wrote_nil assms)
qed

lemmas wrote_rules = wrote_append wrote_int64 wrote_uint64 wrote_bytes wrote_string wrote_bool wrote_array

text \<open>The form in which a generated encoder is shown to write what the slice version appends.\<close>

lemma wrote_eq: "wrote written a x \<Longrightarrow> x = y \<Longrightarrow> wrote written a y"
  by simp

end

locale msgp_stream_reader = msgp_runtime rt for rt :: msgp_ops +
  fixes D :: "'r msgp_reader" and rest :: "'r \<Rightarrow> bytes" and okey :: "bytes \<Rightarrow> bool"
  assumes no_empty_key: "\<not> okey []"
    and short_keys: "key \<noteq> [] \<Longrightarrow> length key < 32 \<Longrightarrow> okey key"
    and reads_map: "reads rest (rd_ReadMapHeader D) (ReadMapHeaderBytes rt)"
    and reads_key: "reads rest (rd_ReadMapKeyPtr D) (ReadMapKeyZC (keyed okey rt))"
    and reads_int64: "reads rest (rd_ReadInt64 D) (ReadInt64Bytes rt)"
    and reads_uint64: "reads rest (rd_ReadUint64 D) (ReadUint64Bytes rt)"
    and reads_exact: "reads rest (rd_ReadExactBytes D k) (\<lambda>bts. ReadExactBytes rt bts k)"
    and reads_string: "reads rest (rd_ReadString D) (ReadStringBytes rt)"
    and reads_bool: "reads rest (rd_ReadBool D) (ReadBoolBytes rt)"
    and reads_array: "reads rest (rd_ReadArrayHeader D) (ReadArrayHeaderBytes rt)"
    and nil_iff: "rd_IsNil D r \<longleftrightarrow> IsNil rt (rest r)"
    and nil_eq: "map_option rest (rd_ReadNil D r) = ReadNilBytes rt (rest r)"
    and skip_eq: "map_option rest (rd_Skip D r) = Skip rt (rest r)"
begin

text \<open>The format's own keys, short and not empty, are among those the reader takes.\<close>

lemma fixstr_size: "unat ((h :: u8) AND 0x1f) < 32"
proof -
  have "h AND 0x1f = take_bit 5 h" by (simp add: take_bit_eq_mask mask_eq_exp_minus_1)
  then show ?thesis using take_bit_nat_less_exp [of 5 "unat h"] by (simp add: unsigned_take_bit_eq)
qed

lemma okey_fixstr:
  assumes "0 < unat ((h :: u8) AND 0x1f)" and "unat (h AND 0x1f) \<le> length r"
  shows "okey (take (unat (h AND 0x1f)) r)"
proof (rule short_keys)
  show "take (unat (h AND 0x1f)) r \<noteq> []" using assms by (auto simp del: unat_gt_0)
  show "length (take (unat (h AND 0x1f)) r) < 32" using fixstr_size [of h] by simp
qed

lemma keyed_runtime: "msgp_runtime (keyed okey rt)"
  by (unfold_locales, simp_all only: keyed_simps)
    (simp_all add: append_int64 [symmetric] append_uint64 [symmetric] append_bytes [symmetric] append_string [symmetric]
      append_bool [symmetric] append_array [symmetric] read_int64 read_uint64 read_bytes read_string read_bool read_array
      read_fixmap append_nil read_nil is_nil keyed_def read_fixstr okey_fixstr)

lemma reads_one:
  assumes "\<And>r. map_option rest (f r) = g (rest r)"
  shows "reads rest (\<lambda>dc. f dc \<bind> (\<lambda>dc. Some (z, dc))) (\<lambda>bts. g bts \<bind> (\<lambda>bts. Some (z, bts)))"
proof -
  have "map_option (map_prod (\<lambda>x. x) rest) (f r \<bind> (\<lambda>dc. Some (z, dc))) = g (rest r) \<bind> (\<lambda>bts. Some (z, bts))" for r
    unfolding assms [symmetric] by (cases "f r") simp_all
  then show ?thesis by (simp add: reads_def)
qed

lemmas reads_skip = reads_one [of "rd_Skip D" "Skip rt", OF skip_eq]

lemma reads_fields:
  assumes "\<And>field z. reads rest (sw field z) (sw' field z)"
  shows "reads rest (dc_fields D sw n z) (read_fields (keyed okey rt) sw' n z)"
proof (induction n arbitrary: z)
  case 0
  show ?case by (simp add: reads_def)
next
  case (Suc n)
  show ?case unfolding dc_fields.simps read_fields.simps by (intro reads_bind reads_key assms Suc)
qed

lemma reads_struct:
  assumes "\<And>field z. reads rest (sw field z) (sw' field z)"
  shows "reads rest (dc_struct D sw z) (read_struct (keyed okey rt) sw' z)"
  unfolding dc_struct_def [abs_def] read_struct_def [abs_def] keyed_simps
  by (intro reads_bind reads_map reads_fields assms)

lemma reads_elem:
  fixes rd :: "'s \<Rightarrow> 'r \<Rightarrow> ('s \<times> 'r) option"
  assumes "\<And>z. reads rest (rd z) (rd' z)"
  shows "reads rest
    (\<lambda>dc. if rd_IsNil D dc then rd_ReadNil D dc \<bind> (\<lambda>dc. Some (None, dc)) else rd z dc \<bind> (\<lambda>(x, dc). Some (Some x, dc)))
    (\<lambda>bts. if IsNil rt bts then ReadNilBytes rt bts \<bind> (\<lambda>bts. Some (None, bts)) else rd' z bts \<bind> (\<lambda>(x, bts). Some (Some x, bts)))"
  using reads_one [of "rd_ReadNil D" "ReadNilBytes rt" "None :: 's option", OF nil_eq] reads_bind [OF assms reads_Some, of z Some] by (simp add: reads_def nil_iff)

lemma reads_elems:
  assumes "\<And>z. reads rest (rd z) (rd' z)"
  shows "reads rest (dc_elems D rd zero zs) (read_elems (keyed okey rt) rd' zero zs)"
proof (induction zs)
  case Nil
  show ?case by (simp add: reads_def)
next
  case (Cons z zs)
  show ?case unfolding dc_elems.simps read_elems.simps keyed_simps
    by (intro reads_bind reads_Some reads_elem assms Cons)
qed

lemma reads_slice:
  assumes "\<And>z. reads rest (rd z) (rd' z)"
  shows "reads rest (dc_slice D rd zero zs) (read_slice (keyed okey rt) rd' zero zs)"
  unfolding dc_slice_def [abs_def] read_slice_def [abs_def] keyed_simps
  by (intro reads_bind reads_array reads_elems assms)

lemmas decode_rules = reads_struct reads_rules reads_skip reads_slice reads_int64 reads_uint64 reads_exact reads_string reads_bool

end

text \<open>The sizes bound what is written, an array of bytes counted as an array of values.\<close>

locale msgp_sized = msgp_runtime rt for rt :: msgp_ops +
  fixes S :: msgp_sizes
  assumes size_int64: "length (AppendInt64 rt [] v) \<le> Int64Size S"
    and size_uint64: "length (AppendUint64 rt [] u) \<le> Uint64Size S"
    and size_bool: "length (AppendBool rt [] f) \<le> BoolSize S"
    and size_string: "length (AppendString rt [] x) \<le> StringPrefixSize S + length x"
    and size_bytes: "length (AppendBytes rt [] x) \<le> ArrayHeaderSize S + length x * ByteSize S"
    and size_array: "length (AppendArrayHeader rt [] n) \<le> ArrayHeaderSize S"
    and size_nil: "length (AppendNil rt []) \<le> NilSize S"
begin

lemma size_concat:
  "(\<And>x. x \<in> set xs \<Longrightarrow> length (g x) \<le> h x) \<Longrightarrow> length (concat (map g xs)) \<le> sum_list (map h xs)"
  by (induction xs) (auto simp: add_mono)

lemma size_ptrs:
  assumes "\<And>x. length (M [] x) \<le> h x"
  shows "length (concat (map (append_ptr rt M []) ps)) \<le> sum_list (map (size_ptr S h) ps)"
proof (rule size_concat)
  fix p assume "p \<in> set ps"
  show "length (append_ptr rt M [] p) \<le> size_ptr S h p"
    using size_nil assms by (cases p) (simp_all add: size_ptr_def)
qed

lemmas size_rules = size_int64 size_uint64 size_bool size_string size_bytes size_array

end

subsection \<open>An implementation\<close>

text \<open>
  A writer into a file of bounded size, which takes what fits and then fails; a reader over
  the pieces in which the bytes arrive; the sizes of the library.
\<close>

type_synonym mem_writer = "nat \<times> bytes"

definition mem_written :: "mem_writer \<Rightarrow> bytes" where
  "mem_written w = snd w"

definition mem_put :: "bytes \<Rightarrow> mem_writer \<Rightarrow> mem_writer \<times> bool" where
  "mem_put x w = (case w of (cap, b) \<Rightarrow>
     ((cap, b @ take (cap - length b) x), length b + length x \<le> cap))"

definition mem_W :: "mem_writer msgp_writer" where
  "mem_W = \<lparr> wr_Append = mem_put, wr_WriteInt64 = (\<lambda>v. mem_put (AppendInt64 msgpack_rt [] v)),
     wr_WriteUint64 = (\<lambda>v. mem_put (AppendUint64 msgpack_rt [] v)), wr_WriteBytes = (\<lambda>v. mem_put (AppendBytes msgpack_rt [] v)),
     wr_WriteString = (\<lambda>v. mem_put (AppendString msgpack_rt [] v)), wr_WriteBool = (\<lambda>v. mem_put (AppendBool msgpack_rt [] v)),
     wr_WriteArrayHeader = (\<lambda>v. mem_put (AppendArrayHeader msgpack_rt [] v)),
     wr_WriteNil = mem_put (AppendNil msgpack_rt []) \<rparr>"

type_synonym mem_reader = "bytes list"

definition mem_get :: "(bytes \<Rightarrow> ('s \<times> bytes) option) \<Rightarrow> mem_reader \<Rightarrow> ('s \<times> mem_reader) option" where
  "mem_get g r = (case g (concat r) of None \<Rightarrow> None | Some (x, b) \<Rightarrow> Some (x, [b]))"

text \<open>With the buffer of 2048 bytes that the library uses unless it is told otherwise.\<close>

definition mem_okey :: "bytes \<Rightarrow> bool" where
  "mem_okey k \<longleftrightarrow> k \<noteq> [] \<and> length k < 2048"

definition mem_D :: "mem_reader msgp_reader" where
  "mem_D = \<lparr> rd_ReadMapHeader = mem_get (ReadMapHeaderBytes msgpack_rt), rd_ReadMapKeyPtr = mem_get (ReadMapKeyZC (keyed mem_okey msgpack_rt)),
     rd_ReadInt64 = mem_get (ReadInt64Bytes msgpack_rt), rd_ReadUint64 = mem_get (ReadUint64Bytes msgpack_rt),
     rd_ReadExactBytes = (\<lambda>n. mem_get (\<lambda>b. ReadExactBytes msgpack_rt b n)), rd_ReadString = mem_get (ReadStringBytes msgpack_rt),
     rd_ReadBool = mem_get (ReadBoolBytes msgpack_rt), rd_ReadArrayHeader = mem_get (ReadArrayHeaderBytes msgpack_rt),
     rd_IsNil = (\<lambda>r. IsNil msgpack_rt (concat r)),
     rd_ReadNil = (\<lambda>r. map_option (\<lambda>b. [b]) (ReadNilBytes msgpack_rt (concat r))),
     rd_Skip = (\<lambda>r. map_option (\<lambda>b. [b]) (Skip msgpack_rt (concat r))) \<rparr>"

definition mem_S :: msgp_sizes where
  "mem_S = \<lparr> Int64Size = 9, Uint64Size = 9, BoolSize = 1, ByteSize = 2, StringPrefixSize = 5, ArrayHeaderSize = 5, NilSize = 1 \<rparr>"

lemma wrote_mem_put: "wrote mem_written (mem_put x) x"
  by (auto simp: wrote_def mem_put_def mem_written_def split_def intro: take_is_prefix)

lemma reads_mem_get: "reads concat (mem_get g) g"
  by (auto simp: reads_def mem_get_def split: option.splits)

interpretation mw: msgp_stream_writer msgpack_rt mem_W mem_written
  by unfold_locales (simp_all add: mem_W_def wrote_mem_put)

interpretation mr: msgp_stream_reader msgpack_rt mem_D concat mem_okey
  by unfold_locales (simp_all add: mem_D_def mem_okey_def reads_mem_get option.map_comp comp_def option.map_ident)

interpretation mz: msgp_sized msgpack_rt mem_S
  by unfold_locales (simp_all add: mem_S_def msgpack_rt_def)

end
