(* ===== verification/Codec_Stream.thy ===== *)
theory Codec_Stream
  imports CC_Types Msgp_Stream
begin

text \<open>
  The stream half of the generated codecs (\<open>src/staking/types/types_gen.go\<close>,
  \<open>src/crosschain/types/types_gen.go\<close>): \<open>EncodeMsg\<close> into a writer, \<open>DecodeMsg\<close> from a reader and
  the estimate \<open>Msgsize\<close> with which \<open>MarshalMsg\<close> sizes its buffer. They are shown to agree with
  the slice half, which the contracts use for their storage. The slices are slices of pointers
  here too, with \<open>None\<close> for nil.
\<close>

subsection \<open>Nomination\<close>

definition EncodeMsg_Nomination :: "'w msgp_writer \<Rightarrow> Nomination \<Rightarrow> 'w \<Rightarrow> 'w \<times> bool" where
  "EncodeMsg_Nomination W z = write_all [
     wr_Append W [0x82, 0xa6, 0x50, 0x75, 0x62, 0x6b, 0x65, 0x79],
     wr_WriteBytes W (be_bytes 32 (n_Pubkey z)),
     wr_Append W [0xae, 0x4e, 0x6f, 0x6d, 0x69, 0x6e, 0x61, 0x74, 0x65, 0x64, 0x43, 0x6f, 0x75, 0x6e, 0x74],
     wr_WriteInt64 W (n_NominatedCount z)]"

definition DecodeMsg_Nomination :: "'r msgp_reader \<Rightarrow> Nomination \<Rightarrow> 'r \<Rightarrow> (Nomination \<times> 'r) option" where
  "DecodeMsg_Nomination D = dc_struct D (\<lambda>field z dc.
     if field = str ''Pubkey'' then do {
       (x, dc) \<leftarrow> rd_ReadExactBytes D 32 dc; Some (z\<lparr>n_Pubkey := be_val x\<rparr>, dc) }
     else if field = str ''NominatedCount'' then do {
       (x, dc) \<leftarrow> rd_ReadInt64 D dc; Some (z\<lparr>n_NominatedCount := x\<rparr>, dc) }
     else do { dc \<leftarrow> rd_Skip D dc; Some (z, dc) })"

definition Msgsize_Nomination :: "msgp_sizes \<Rightarrow> Nomination \<Rightarrow> nat" where
  "Msgsize_Nomination S z = 1 + 7 + ArrayHeaderSize S + 32 * ByteSize S + 15 + Int64Size S"


definition EncodeMsg_NominationHeap :: "'w msgp_writer \<Rightarrow> Nomination option list \<Rightarrow> 'w \<Rightarrow> 'w \<times> bool" where
  "EncodeMsg_NominationHeap W z = write_all [
     wr_WriteArrayHeader W (of_nat (length z)),
     write_all (map (write_ptr W (EncodeMsg_Nomination W)) z)]"

definition DecodeMsg_NominationHeap :: "'r msgp_reader \<Rightarrow> Nomination option list \<Rightarrow> 'r \<Rightarrow> (Nomination option list \<times> 'r) option" where
  "DecodeMsg_NominationHeap D = dc_slice D (DecodeMsg_Nomination D) zero_Nomination"

definition Msgsize_NominationHeap :: "msgp_sizes \<Rightarrow> Nomination option list \<Rightarrow> nat" where
  "Msgsize_NominationHeap S z = ArrayHeaderSize S + sum_list (map (size_ptr S (Msgsize_Nomination S)) z)"


subsection \<open>Epoch\<close>

definition EncodeMsg_Epoch_p :: "'w msgp_writer \<Rightarrow> Epoch_p \<Rightarrow> 'w \<Rightarrow> 'w \<times> bool" where
  "EncodeMsg_Epoch_p W z = write_all [
     wr_Append W [0x84, 0xa6, 0x4e, 0x75, 0x6d, 0x62, 0x65, 0x72],
     wr_WriteInt64 W (ep_Number z),
     wr_Append W [0xab, 0x53, 0x74, 0x61, 0x72, 0x74, 0x48, 0x65, 0x69, 0x67, 0x68, 0x74],
     wr_WriteInt64 W (ep_StartHeight z),
     wr_Append W [0xa7, 0x45, 0x6e, 0x64, 0x54, 0x69, 0x6d, 0x65],
     wr_WriteInt64 W (ep_EndTime z),
     wr_Append W [0xab, 0x4e, 0x6f, 0x6d, 0x69, 0x6e, 0x61, 0x74, 0x69, 0x6f, 0x6e, 0x73],
     wr_WriteArrayHeader W (of_nat (length (ep_Nominations z))),
     write_all (map (write_ptr W (EncodeMsg_Nomination W)) (ep_Nominations z))]"

definition DecodeMsg_Epoch_p :: "'r msgp_reader \<Rightarrow> Epoch_p \<Rightarrow> 'r \<Rightarrow> (Epoch_p \<times> 'r) option" where
  "DecodeMsg_Epoch_p D = dc_struct D (\<lambda>field z dc.
     if field = str ''Number'' then do {
       (x, dc) \<leftarrow> rd_ReadInt64 D dc; Some (z\<lparr>ep_Number := x\<rparr>, dc) }
     else if field = str ''StartHeight'' then do {
       (x, dc) \<leftarrow> rd_ReadInt64 D dc; Some (z\<lparr>ep_StartHeight := x\<rparr>, dc) }
     else if field = str ''EndTime'' then do {
       (x, dc) \<leftarrow> rd_ReadInt64 D dc; Some (z\<lparr>ep_EndTime := x\<rparr>, dc) }
     else if field = str ''Nominations'' then do {
       (x, dc) \<leftarrow> dc_slice D (DecodeMsg_Nomination D) zero_Nomination (ep_Nominations z) dc;
       Some (z\<lparr>ep_Nominations := x\<rparr>, dc) }
     else do { dc \<leftarrow> rd_Skip D dc; Some (z, dc) })"

definition Msgsize_Epoch_p :: "msgp_sizes \<Rightarrow> Epoch_p \<Rightarrow> nat" where
  "Msgsize_Epoch_p S z = 1 + 7 + Int64Size S + 12 + Int64Size S + 8 + Int64Size S + 12 + ArrayHeaderSize S
     + sum_list (map (size_ptr S (Msgsize_Nomination S)) (ep_Nominations z))"


subsection \<open>PendingReward\<close>

definition EncodeMsg_PendingReward :: "'w msgp_writer \<Rightarrow> PendingReward \<Rightarrow> 'w \<Rightarrow> 'w \<times> bool" where
  "EncodeMsg_PendingReward W z = write_all [
     wr_Append W [0x83, 0xa7, 0x41, 0x64, 0x64, 0x72, 0x65, 0x73, 0x73],
     wr_WriteBytes W (be_bytes 20 (pr_Address z)),
     wr_Append W [0xa8, 0x45, 0x70, 0x6f, 0x63, 0x68, 0x4e, 0x75, 0x6d],
     wr_WriteInt64 W (pr_EpochNum z),
     wr_Append W [0xa6, 0x41, 0x6d, 0x6f, 0x75, 0x6e, 0x74],
     wr_WriteBytes W (be_bytes 32 (pr_Amount z))]"

definition DecodeMsg_PendingReward :: "'r msgp_reader \<Rightarrow> PendingReward \<Rightarrow> 'r \<Rightarrow> (PendingReward \<times> 'r) option" where
  "DecodeMsg_PendingReward D = dc_struct D (\<lambda>field z dc.
     if field = str ''Address'' then do {
       (x, dc) \<leftarrow> rd_ReadExactBytes D 20 dc; Some (z\<lparr>pr_Address := be_val x\<rparr>, dc) }
     else if field = str ''EpochNum'' then do {
       (x, dc) \<leftarrow> rd_ReadInt64 D dc; Some (z\<lparr>pr_EpochNum := x\<rparr>, dc) }
     else if field = str ''Amount'' then do {
       (x, dc) \<leftarrow> rd_ReadExactBytes D 32 dc; Some (z\<lparr>pr_Amount := be_val x\<rparr>, dc) }
     else do { dc \<leftarrow> rd_Skip D dc; Some (z, dc) })"

definition Msgsize_PendingReward :: "msgp_sizes \<Rightarrow> PendingReward \<Rightarrow> nat" where
  "Msgsize_PendingReward S z = 1 + 8 + ArrayHeaderSize S + 20 * ByteSize S + 9 + Int64Size S + 7
     + ArrayHeaderSize S + 32 * ByteSize S"


subsection \<open>Validator\<close>

definition EncodeMsg_Validator :: "'w msgp_writer \<Rightarrow> Validator \<Rightarrow> 'w \<Rightarrow> 'w \<times> bool" where
  "EncodeMsg_Validator W z = write_all [
     wr_Append W [0x87, 0xa7, 0x41, 0x64, 0x64, 0x72, 0x65, 0x73, 0x73],
     wr_WriteBytes W (be_bytes 20 (v_Address z)),
     wr_Append W [0xa6, 0x50, 0x75, 0x62, 0x6b, 0x65, 0x79],
     wr_WriteBytes W (be_bytes 32 (v_Pubkey z)),
     wr_Append W [0xa8, 0x52, 0x65, 0x77, 0x61, 0x72, 0x64, 0x54, 0x6f],
     wr_WriteBytes W (be_bytes 20 (v_RewardTo z)),
     wr_Append W [0xab, 0x56, 0x6f, 0x74, 0x69, 0x6e, 0x67, 0x50, 0x6f, 0x77, 0x65, 0x72],
     wr_WriteInt64 W (v_VotingPower z),
     wr_Append W [0xac, 0x49, 0x6e, 0x74, 0x72, 0x6f, 0x64, 0x75, 0x63, 0x74, 0x69, 0x6f, 0x6e],
     wr_WriteString W (v_Introduction z),
     wr_Append W [0xab, 0x53, 0x74, 0x61, 0x6b, 0x65, 0x64, 0x43, 0x6f, 0x69, 0x6e, 0x73],
     wr_WriteBytes W (be_bytes 32 (v_StakedCoins z)),
     wr_Append W [0xaa, 0x49, 0x73, 0x52, 0x65, 0x74, 0x69, 0x72, 0x69, 0x6e, 0x67],
     wr_WriteBool W (v_IsRetiring z)]"

definition DecodeMsg_Validator :: "'r msgp_reader \<Rightarrow> Validator \<Rightarrow> 'r \<Rightarrow> (Validator \<times> 'r) option" where
  "DecodeMsg_Validator D = dc_struct D (\<lambda>field z dc.
     if field = str ''Address'' then do {
       (x, dc) \<leftarrow> rd_ReadExactBytes D 20 dc; Some (z\<lparr>v_Address := be_val x\<rparr>, dc) }
     else if field = str ''Pubkey'' then do {
       (x, dc) \<leftarrow> rd_ReadExactBytes D 32 dc; Some (z\<lparr>v_Pubkey := be_val x\<rparr>, dc) }
     else if field = str ''RewardTo'' then do {
       (x, dc) \<leftarrow> rd_ReadExactBytes D 20 dc; Some (z\<lparr>v_RewardTo := be_val x\<rparr>, dc) }
     else if field = str ''VotingPower'' then do {
       (x, dc) \<leftarrow> rd_ReadInt64 D dc; Some (z\<lparr>v_VotingPower := x\<rparr>, dc) }
     else if field = str ''Introduction'' then do {
       (x, dc) \<leftarrow> rd_ReadString D dc; Some (z\<lparr>v_Introduction := x\<rparr>, dc) }
     else if field = str ''StakedCoins'' then do {
       (x, dc) \<leftarrow> rd_ReadExactBytes D 32 dc; Some (z\<lparr>v_StakedCoins := be_val x\<rparr>, dc) }
     else if field = str ''IsRetiring'' then do {
       (x, dc) \<leftarrow> rd_ReadBool D dc; Some (z\<lparr>v_IsRetiring := x\<rparr>, dc) }
     else do { dc \<leftarrow> rd_Skip D dc; Some (z, dc) })"

definition Msgsize_Validator :: "msgp_sizes \<Rightarrow> Validator \<Rightarrow> nat" where
  "Msgsize_Validator S z = 1 + 8 + ArrayHeaderSize S + 20 * ByteSize S + 7 + ArrayHeaderSize S + 32 * ByteSize S + 9
     + ArrayHeaderSize S + 20 * ByteSize S + 12 + Int64Size S + 13 + StringPrefixSize S + length (v_Introduction z) + 12
     + ArrayHeaderSize S + 32 * ByteSize S + 11 + BoolSize S"


subsection \<open>StakingInfo\<close>

definition EncodeMsg_StakingInfo_p :: "'w msgp_writer \<Rightarrow> StakingInfo_p \<Rightarrow> 'w \<Rightarrow> 'w \<times> bool" where
  "EncodeMsg_StakingInfo_p W z = write_all [
     wr_Append W [0x85, 0xb9, 0x47, 0x65, 0x6e, 0x65, 0x73, 0x69, 0x73, 0x4d, 0x61, 0x69, 0x6e, 0x6e, 0x65, 0x74,
       0x42, 0x6c, 0x6f, 0x63, 0x6b, 0x48, 0x65, 0x69, 0x67, 0x68, 0x74],
     wr_WriteInt64 W (sp_GenesisMainnetBlockHeight z),
     wr_Append W [0xac, 0x43, 0x75, 0x72, 0x72, 0x45, 0x70, 0x6f, 0x63, 0x68, 0x4e, 0x75, 0x6d],
     wr_WriteInt64 W (sp_CurrEpochNum z),
     wr_Append W [0xaa, 0x56, 0x61, 0x6c, 0x69, 0x64, 0x61, 0x74, 0x6f, 0x72, 0x73],
     wr_WriteArrayHeader W (of_nat (length (sp_Validators z))),
     write_all (map (write_ptr W (EncodeMsg_Validator W)) (sp_Validators z)),
     wr_Append W [0xb0, 0x56, 0x61, 0x6c, 0x69, 0x64, 0x61, 0x74, 0x6f, 0x72, 0x73, 0x55, 0x70, 0x64, 0x61, 0x74, 0x65],
     wr_WriteArrayHeader W (of_nat (length (sp_ValidatorsUpdate z))),
     write_all (map (write_ptr W (EncodeMsg_Validator W)) (sp_ValidatorsUpdate z)),
     wr_Append W [0xae, 0x50, 0x65, 0x6e, 0x64, 0x69, 0x6e, 0x67, 0x52, 0x65, 0x77, 0x61, 0x72, 0x64, 0x73],
     wr_WriteArrayHeader W (of_nat (length (sp_PendingRewards z))),
     write_all (map (write_ptr W (EncodeMsg_PendingReward W)) (sp_PendingRewards z))]"

definition DecodeMsg_StakingInfo_p :: "'r msgp_reader \<Rightarrow> StakingInfo_p \<Rightarrow> 'r \<Rightarrow> (StakingInfo_p \<times> 'r) option" where
  "DecodeMsg_StakingInfo_p D = dc_struct D (\<lambda>field z dc.
     if field = str ''GenesisMainnetBlockHeight'' then do {
       (x, dc) \<leftarrow> rd_ReadInt64 D dc; Some (z\<lparr>sp_GenesisMainnetBlockHeight := x\<rparr>, dc) }
     else if field = str ''CurrEpochNum'' then do {
       (x, dc) \<leftarrow> rd_ReadInt64 D dc; Some (z\<lparr>sp_CurrEpochNum := x\<rparr>, dc) }
     else if field = str ''Validators'' then do {
       (x, dc) \<leftarrow> dc_slice D (DecodeMsg_Validator D) zero_Validator (sp_Validators z) dc;
       Some (z\<lparr>sp_Validators := x\<rparr>, dc) }
     else if field = str ''ValidatorsUpdate'' then do {
       (x, dc) \<leftarrow> dc_slice D (DecodeMsg_Validator D) zero_Validator (sp_ValidatorsUpdate z) dc;
       Some (z\<lparr>sp_ValidatorsUpdate := x\<rparr>, dc) }
     else if field = str ''PendingRewards'' then do {
       (x, dc) \<leftarrow> dc_slice D (DecodeMsg_PendingReward D) zero_PendingReward (sp_PendingRewards z) dc;
       Some (z\<lparr>sp_PendingRewards := x\<rparr>, dc) }
     else do { dc \<leftarrow> rd_Skip D dc; Some (z, dc) })"

definition Msgsize_StakingInfo_p :: "msgp_sizes \<Rightarrow> StakingInfo_p \<Rightarrow> nat" where
  "Msgsize_StakingInfo_p S z = 1 + 26 + Int64Size S + 13 + Int64Size S + 11 + ArrayHeaderSize S
     + sum_list (map (size_ptr S (Msgsize_Validator S)) (sp_Validators z)) + (17 + ArrayHeaderSize S)
     + sum_list (map (size_ptr S (Msgsize_Validator S)) (sp_ValidatorsUpdate z)) + (15 + ArrayHeaderSize S)
     + sum_list (map (size_ptr S (Msgsize_PendingReward S)) (sp_PendingRewards z))"


subsection \<open>CCTransferInfo\<close>

definition EncodeMsg_CCTransferInfo :: "'w msgp_writer \<Rightarrow> CCTransferInfo \<Rightarrow> 'w \<Rightarrow> 'w \<times> bool" where
  "EncodeMsg_CCTransferInfo W z = write_all [
     wr_Append W [0x83, 0xa4, 0x55, 0x54, 0x58, 0x4f],
     wr_WriteBytes W (be_bytes 36 (cct_UTXO z)),
     wr_Append W [0xa6, 0x41, 0x6d, 0x6f, 0x75, 0x6e, 0x74],
     wr_WriteUint64 W (cct_Amount z),
     wr_Append W [0xac, 0x53, 0x65, 0x6e, 0x64, 0x65, 0x72, 0x50, 0x75, 0x62, 0x6b, 0x65, 0x79],
     wr_WriteBytes W (be_bytes 33 (cct_SenderPubkey z))]"

definition DecodeMsg_CCTransferInfo :: "'r msgp_reader \<Rightarrow> CCTransferInfo \<Rightarrow> 'r \<Rightarrow> (CCTransferInfo \<times> 'r) option" where
  "DecodeMsg_CCTransferInfo D = dc_struct D (\<lambda>field z dc.
     if field = str ''UTXO'' then do {
       (x, dc) \<leftarrow> rd_ReadExactBytes D 36 dc; Some (z\<lparr>cct_UTXO := be_val x\<rparr>, dc) }
     else if field = str ''Amount'' then do {
       (x, dc) \<leftarrow> rd_ReadUint64 D dc; Some (z\<lparr>cct_Amount := x\<rparr>, dc) }
     else if field = str ''SenderPubkey'' then do {
       (x, dc) \<leftarrow> rd_ReadExactBytes D 33 dc; Some (z\<lparr>cct_SenderPubkey := be_val x\<rparr>, dc) }
     else do { dc \<leftarrow> rd_Skip D dc; Some (z, dc) })"

definition Msgsize_CCTransferInfo :: "msgp_sizes \<Rightarrow> CCTransferInfo \<Rightarrow> nat" where
  "Msgsize_CCTransferInfo S z = 1 + 5 + ArrayHeaderSize S + 36 * ByteSize S + 7 + Uint64Size S + 13
     + ArrayHeaderSize S + 33 * ByteSize S"


subsection \<open>CCEpoch\<close>

definition EncodeMsg_CCEpoch_p :: "'w msgp_writer \<Rightarrow> CCEpoch_p \<Rightarrow> 'w \<Rightarrow> 'w \<times> bool" where
  "EncodeMsg_CCEpoch_p W z = write_all [
     wr_Append W [0x84, 0xa6, 0x4e, 0x75, 0x6d, 0x62, 0x65, 0x72],
     wr_WriteInt64 W (cp_Number z),
     wr_Append W [0xab, 0x53, 0x74, 0x61, 0x72, 0x74, 0x48, 0x65, 0x69, 0x67, 0x68, 0x74],
     wr_WriteInt64 W (cp_StartHeight z),
     wr_Append W [0xa7, 0x45, 0x6e, 0x64, 0x54, 0x69, 0x6d, 0x65],
     wr_WriteInt64 W (cp_EndTime z),
     wr_Append W [0xad, 0x54, 0x72, 0x61, 0x6e, 0x73, 0x66, 0x65, 0x72, 0x49, 0x6e, 0x66, 0x6f, 0x73],
     wr_WriteArrayHeader W (of_nat (length (cp_TransferInfos z))),
     write_all (map (write_ptr W (EncodeMsg_CCTransferInfo W)) (cp_TransferInfos z))]"

definition DecodeMsg_CCEpoch_p :: "'r msgp_reader \<Rightarrow> CCEpoch_p \<Rightarrow> 'r \<Rightarrow> (CCEpoch_p \<times> 'r) option" where
  "DecodeMsg_CCEpoch_p D = dc_struct D (\<lambda>field z dc.
     if field = str ''Number'' then do {
       (x, dc) \<leftarrow> rd_ReadInt64 D dc; Some (z\<lparr>cp_Number := x\<rparr>, dc) }
     else if field = str ''StartHeight'' then do {
       (x, dc) \<leftarrow> rd_ReadInt64 D dc; Some (z\<lparr>cp_StartHeight := x\<rparr>, dc) }
     else if field = str ''EndTime'' then do {
       (x, dc) \<leftarrow> rd_ReadInt64 D dc; Some (z\<lparr>cp_EndTime := x\<rparr>, dc) }
     else if field = str ''TransferInfos'' then do {
       (x, dc) \<leftarrow> dc_slice D (DecodeMsg_CCTransferInfo D) zero_CCTransferInfo (cp_TransferInfos z) dc;
       Some (z\<lparr>cp_TransferInfos := x\<rparr>, dc) }
     else do { dc \<leftarrow> rd_Skip D dc; Some (z, dc) })"

definition Msgsize_CCEpoch_p :: "msgp_sizes \<Rightarrow> CCEpoch_p \<Rightarrow> nat" where
  "Msgsize_CCEpoch_p S z = 1 + 7 + Int64Size S + 12 + Int64Size S + 8 + Int64Size S + 14 + ArrayHeaderSize S
     + sum_list (map (size_ptr S (Msgsize_CCTransferInfo S)) (cp_TransferInfos z))"


subsection \<open>CCInfo\<close>

definition EncodeMsg_CCInfo :: "'w msgp_writer \<Rightarrow> CCInfo \<Rightarrow> 'w \<Rightarrow> 'w \<times> bool" where
  "EncodeMsg_CCInfo W z = write_all [
     wr_Append W [0x82, 0xb9, 0x47, 0x65, 0x6e, 0x65, 0x73, 0x69, 0x73, 0x4d, 0x61, 0x69, 0x6e, 0x6e, 0x65, 0x74,
       0x42, 0x6c, 0x6f, 0x63, 0x6b, 0x48, 0x65, 0x69, 0x67, 0x68, 0x74],
     wr_WriteInt64 W (cci_GenesisMainnetBlockHeight z),
     wr_Append W [0xac, 0x43, 0x75, 0x72, 0x72, 0x45, 0x70, 0x6f, 0x63, 0x68, 0x4e, 0x75, 0x6d],
     wr_WriteInt64 W (cci_CurrEpochNum z)]"

definition DecodeMsg_CCInfo :: "'r msgp_reader \<Rightarrow> CCInfo \<Rightarrow> 'r \<Rightarrow> (CCInfo \<times> 'r) option" where
  "DecodeMsg_CCInfo D = dc_struct D (\<lambda>field z dc.
     if field = str ''GenesisMainnetBlockHeight'' then do {
       (x, dc) \<leftarrow> rd_ReadInt64 D dc; Some (z\<lparr>cci_GenesisMainnetBlockHeight := x\<rparr>, dc) }
     else if field = str ''CurrEpochNum'' then do {
       (x, dc) \<leftarrow> rd_ReadInt64 D dc; Some (z\<lparr>cci_CurrEpochNum := x\<rparr>, dc) }
     else do { dc \<leftarrow> rd_Skip D dc; Some (z, dc) })"

definition Msgsize_CCInfo :: "msgp_sizes \<Rightarrow> CCInfo \<Rightarrow> nat" where
  "Msgsize_CCInfo S z = 1 + 26 + Int64Size S + 13 + Int64Size S"



subsection \<open>Writing to a stream\<close>

text \<open>A successful encoder has written what the slice version appends, a failing one a prefix of it.\<close>

context msgp_runtime
begin

lemma Marshal_NominationHeap_eq:
  "Marshal_NominationHeap rt b z = b @ AppendArrayHeader rt [] (of_nat (length z)) @ concat (map (append_ptr rt (Marshal_Nomination rt) []) z)"
  unfolding Marshal_NominationHeap_def append_array [of b]
  by (subst foldl_Nominations) (simp_all add: Marshal_Nomination_eq)

lemmas Marshal_eqs = Marshal_Nomination_eq Marshal_NominationHeap_eq Marshal_Epoch_p_eq Marshal_PendingReward_eq
  Marshal_Validator_eq Marshal_StakingInfo_p_eq Marshal_CCTransferInfo_eq Marshal_CCEpoch_p_eq Marshal_CCInfo_eq

end

context msgp_stream_writer
begin

lemma wrote_Nomination: "wrote written (EncodeMsg_Nomination W z) (Marshal_Nomination rt [] z)"
  unfolding EncodeMsg_Nomination_def nomination_keys
  by (rule wrote_eq, (rule wrote_Cons wrote_Nil wrote_rules)+) (simp add: Marshal_Nomination_eq)

lemma wrote_NominationHeap: "wrote written (EncodeMsg_NominationHeap W z) (Marshal_NominationHeap rt [] z)"
  unfolding EncodeMsg_NominationHeap_def
  by (rule wrote_eq, (rule wrote_Cons wrote_Nil wrote_rules wrote_ptrs wrote_Nomination)+) (simp add: Marshal_NominationHeap_eq)

lemma wrote_Epoch_p: "wrote written (EncodeMsg_Epoch_p W z) (Marshal_Epoch_p rt [] z)"
  unfolding EncodeMsg_Epoch_p_def epoch_keys
  by (rule wrote_eq, (rule wrote_Cons wrote_Nil wrote_rules wrote_ptrs wrote_Nomination)+) (simp add: Marshal_Epoch_p_eq)

lemma wrote_PendingReward: "wrote written (EncodeMsg_PendingReward W z) (Marshal_PendingReward rt [] z)"
  unfolding EncodeMsg_PendingReward_def reward_keys
  by (rule wrote_eq, (rule wrote_Cons wrote_Nil wrote_rules)+) (simp add: Marshal_PendingReward_eq)

lemma wrote_Validator: "wrote written (EncodeMsg_Validator W z) (Marshal_Validator rt [] z)"
  unfolding EncodeMsg_Validator_def validator_keys
  by (rule wrote_eq, (rule wrote_Cons wrote_Nil wrote_rules)+) (simp add: Marshal_Validator_eq)

lemma wrote_StakingInfo_p: "wrote written (EncodeMsg_StakingInfo_p W z) (Marshal_StakingInfo_p rt [] z)"
  unfolding EncodeMsg_StakingInfo_p_def info_keys
  by (rule wrote_eq, (rule wrote_Cons wrote_Nil wrote_rules wrote_ptrs wrote_Validator wrote_PendingReward)+) (simp add: Marshal_StakingInfo_p_eq)

lemma wrote_CCTransferInfo: "wrote written (EncodeMsg_CCTransferInfo W z) (Marshal_CCTransferInfo rt [] z)"
  unfolding EncodeMsg_CCTransferInfo_def cc_keys
  by (rule wrote_eq, (rule wrote_Cons wrote_Nil wrote_rules)+) (simp add: Marshal_CCTransferInfo_eq)

lemma wrote_CCEpoch_p: "wrote written (EncodeMsg_CCEpoch_p W z) (Marshal_CCEpoch_p rt [] z)"
  unfolding EncodeMsg_CCEpoch_p_def epoch_keys cc_keys
  by (rule wrote_eq, (rule wrote_Cons wrote_Nil wrote_rules wrote_ptrs wrote_CCTransferInfo)+) (simp add: Marshal_CCEpoch_p_eq)

lemma wrote_CCInfo: "wrote written (EncodeMsg_CCInfo W z) (Marshal_CCInfo rt [] z)"
  unfolding EncodeMsg_CCInfo_def info_keys cc_keys
  by (rule wrote_eq, (rule wrote_Cons wrote_Nil wrote_rules)+) (simp add: Marshal_CCInfo_eq)

lemmas encoders = wrote_Nomination wrote_NominationHeap wrote_Epoch_p wrote_PendingReward wrote_Validator wrote_StakingInfo_p wrote_CCTransferInfo wrote_CCEpoch_p wrote_CCInfo

end

subsection \<open>Reading from a stream\<close>

text \<open>A decoder restricted in the keys it takes accepts less, and returns the same.\<close>

lemma within_Nomination: "within (Unmarshal_Nomination (keyed okey rt) z) (Unmarshal_Nomination rt z)"
  unfolding Unmarshal_Nomination_def keyed_simps by (intro within_rules)

lemma within_NominationHeap: "within (Unmarshal_NominationHeap (keyed okey rt) z) (Unmarshal_NominationHeap rt z)"
  unfolding Unmarshal_NominationHeap_def keyed_simps by (intro within_rules within_Nomination)

lemma within_Epoch_p: "within (Unmarshal_Epoch_p (keyed okey rt) z) (Unmarshal_Epoch_p rt z)"
  unfolding Unmarshal_Epoch_p_def keyed_simps by (intro within_rules within_Nomination)

lemma within_PendingReward: "within (Unmarshal_PendingReward (keyed okey rt) z) (Unmarshal_PendingReward rt z)"
  unfolding Unmarshal_PendingReward_def keyed_simps by (intro within_rules)

lemma within_Validator: "within (Unmarshal_Validator (keyed okey rt) z) (Unmarshal_Validator rt z)"
  unfolding Unmarshal_Validator_def keyed_simps by (intro within_rules)

lemma within_StakingInfo_p: "within (Unmarshal_StakingInfo_p (keyed okey rt) z) (Unmarshal_StakingInfo_p rt z)"
  unfolding Unmarshal_StakingInfo_p_def keyed_simps by (intro within_rules within_Validator within_PendingReward)

lemma within_CCTransferInfo: "within (Unmarshal_CCTransferInfo (keyed okey rt) z) (Unmarshal_CCTransferInfo rt z)"
  unfolding Unmarshal_CCTransferInfo_def keyed_simps by (intro within_rules)

lemma within_CCEpoch_p: "within (Unmarshal_CCEpoch_p (keyed okey rt) z) (Unmarshal_CCEpoch_p rt z)"
  unfolding Unmarshal_CCEpoch_p_def keyed_simps by (intro within_rules within_CCTransferInfo)

lemma within_CCInfo: "within (Unmarshal_CCInfo (keyed okey rt) z) (Unmarshal_CCInfo rt z)"
  unfolding Unmarshal_CCInfo_def keyed_simps by (intro within_rules)

lemmas withins = within_Nomination within_NominationHeap within_Epoch_p within_PendingReward within_Validator within_StakingInfo_p within_CCTransferInfo within_CCEpoch_p within_CCInfo

context msgp_stream_reader
begin

lemma reads_Nomination: "reads rest (DecodeMsg_Nomination D z) (Unmarshal_Nomination (keyed okey rt) z)"
  unfolding DecodeMsg_Nomination_def Unmarshal_Nomination_def keyed_simps by (intro decode_rules)

lemma reads_NominationHeap: "reads rest (DecodeMsg_NominationHeap D z) (Unmarshal_NominationHeap (keyed okey rt) z)"
  unfolding DecodeMsg_NominationHeap_def Unmarshal_NominationHeap_def keyed_simps by (intro decode_rules reads_Nomination)

lemma reads_Epoch_p: "reads rest (DecodeMsg_Epoch_p D z) (Unmarshal_Epoch_p (keyed okey rt) z)"
  unfolding DecodeMsg_Epoch_p_def Unmarshal_Epoch_p_def keyed_simps by (intro decode_rules reads_Nomination)

lemma reads_PendingReward: "reads rest (DecodeMsg_PendingReward D z) (Unmarshal_PendingReward (keyed okey rt) z)"
  unfolding DecodeMsg_PendingReward_def Unmarshal_PendingReward_def keyed_simps by (intro decode_rules)

lemma reads_Validator: "reads rest (DecodeMsg_Validator D z) (Unmarshal_Validator (keyed okey rt) z)"
  unfolding DecodeMsg_Validator_def Unmarshal_Validator_def keyed_simps by (intro decode_rules)

lemma reads_StakingInfo_p: "reads rest (DecodeMsg_StakingInfo_p D z) (Unmarshal_StakingInfo_p (keyed okey rt) z)"
  unfolding DecodeMsg_StakingInfo_p_def Unmarshal_StakingInfo_p_def keyed_simps by (intro decode_rules reads_Validator reads_PendingReward)

lemma reads_CCTransferInfo: "reads rest (DecodeMsg_CCTransferInfo D z) (Unmarshal_CCTransferInfo (keyed okey rt) z)"
  unfolding DecodeMsg_CCTransferInfo_def Unmarshal_CCTransferInfo_def keyed_simps by (intro decode_rules)

lemma reads_CCEpoch_p: "reads rest (DecodeMsg_CCEpoch_p D z) (Unmarshal_CCEpoch_p (keyed okey rt) z)"
  unfolding DecodeMsg_CCEpoch_p_def Unmarshal_CCEpoch_p_def keyed_simps by (intro decode_rules reads_CCTransferInfo)

lemma reads_CCInfo: "reads rest (DecodeMsg_CCInfo D z) (Unmarshal_CCInfo (keyed okey rt) z)"
  unfolding DecodeMsg_CCInfo_def Unmarshal_CCInfo_def keyed_simps by (intro decode_rules)

lemmas decoders = reads_Nomination reads_NominationHeap reads_Epoch_p reads_PendingReward reads_Validator reads_StakingInfo_p reads_CCTransferInfo reads_CCEpoch_p reads_CCInfo

end

subsection \<open>The size of an encoding\<close>

context msgp_sized
begin

lemma length_fixkey [simp]: "length (fixkey s) = Suc (length s)"
  by (simp add: fixkey_def)

lemma size_Nomination: "length (Marshal_Nomination rt b z) \<le> length b + Msgsize_Nomination S z"
  unfolding Msgsize_Nomination_def Marshal_Nomination_eq
  using size_bytes [of "be_bytes 32 (n_Pubkey z)"]
    size_int64 [of "n_NominatedCount z"]
  by simp

lemma size_NominationHeap: "length (Marshal_NominationHeap rt b z) \<le> length b + Msgsize_NominationHeap S z"
  unfolding Msgsize_NominationHeap_def Marshal_NominationHeap_eq
  using size_array [of "of_nat (length z)"]
    size_ptrs [of "Marshal_Nomination rt" "Msgsize_Nomination S" "z", OF size_Nomination [of "[]", simplified]]
  by simp

lemma size_Epoch_p: "length (Marshal_Epoch_p rt b z) \<le> length b + Msgsize_Epoch_p S z"
  unfolding Msgsize_Epoch_p_def Marshal_Epoch_p_eq
  using size_int64 [of "ep_Number z"]
    size_int64 [of "ep_StartHeight z"]
    size_int64 [of "ep_EndTime z"]
    size_array [of "of_nat (length (ep_Nominations z))"]
    size_ptrs [of "Marshal_Nomination rt" "Msgsize_Nomination S" "ep_Nominations z", OF size_Nomination [of "[]", simplified]]
  by simp

lemma size_PendingReward: "length (Marshal_PendingReward rt b z) \<le> length b + Msgsize_PendingReward S z"
  unfolding Msgsize_PendingReward_def Marshal_PendingReward_eq
  using size_bytes [of "be_bytes 20 (pr_Address z)"]
    size_int64 [of "pr_EpochNum z"]
    size_bytes [of "be_bytes 32 (pr_Amount z)"]
  by simp

lemma size_Validator: "length (Marshal_Validator rt b z) \<le> length b + Msgsize_Validator S z"
  unfolding Msgsize_Validator_def Marshal_Validator_eq
  using size_bytes [of "be_bytes 20 (v_Address z)"]
    size_bytes [of "be_bytes 32 (v_Pubkey z)"]
    size_bytes [of "be_bytes 20 (v_RewardTo z)"]
    size_int64 [of "v_VotingPower z"]
    size_string [of "v_Introduction z"]
    size_bytes [of "be_bytes 32 (v_StakedCoins z)"]
    size_bool [of "v_IsRetiring z"]
  by simp

lemma size_StakingInfo_p: "length (Marshal_StakingInfo_p rt b z) \<le> length b + Msgsize_StakingInfo_p S z"
  unfolding Msgsize_StakingInfo_p_def Marshal_StakingInfo_p_eq
  using size_int64 [of "sp_GenesisMainnetBlockHeight z"]
    size_int64 [of "sp_CurrEpochNum z"]
    size_array [of "of_nat (length (sp_Validators z))"]
    size_ptrs [of "Marshal_Validator rt" "Msgsize_Validator S" "sp_Validators z", OF size_Validator [of "[]", simplified]]
    size_array [of "of_nat (length (sp_ValidatorsUpdate z))"]
    size_ptrs [of "Marshal_Validator rt" "Msgsize_Validator S" "sp_ValidatorsUpdate z", OF size_Validator [of "[]", simplified]]
    size_array [of "of_nat (length (sp_PendingRewards z))"]
    size_ptrs [of "Marshal_PendingReward rt" "Msgsize_PendingReward S" "sp_PendingRewards z", OF size_PendingReward [of "[]", simplified]]
  by simp

lemma size_CCTransferInfo: "length (Marshal_CCTransferInfo rt b z) \<le> length b + Msgsize_CCTransferInfo S z"
  unfolding Msgsize_CCTransferInfo_def Marshal_CCTransferInfo_eq
  using size_bytes [of "be_bytes 36 (cct_UTXO z)"]
    size_uint64 [of "cct_Amount z"]
    size_bytes [of "be_bytes 33 (cct_SenderPubkey z)"]
  by simp

lemma size_CCEpoch_p: "length (Marshal_CCEpoch_p rt b z) \<le> length b + Msgsize_CCEpoch_p S z"
  unfolding Msgsize_CCEpoch_p_def Marshal_CCEpoch_p_eq
  using size_int64 [of "cp_Number z"]
    size_int64 [of "cp_StartHeight z"]
    size_int64 [of "cp_EndTime z"]
    size_array [of "of_nat (length (cp_TransferInfos z))"]
    size_ptrs [of "Marshal_CCTransferInfo rt" "Msgsize_CCTransferInfo S" "cp_TransferInfos z", OF size_CCTransferInfo [of "[]", simplified]]
  by simp

lemma size_CCInfo: "length (Marshal_CCInfo rt b z) \<le> length b + Msgsize_CCInfo S z"
  unfolding Msgsize_CCInfo_def Marshal_CCInfo_eq
  using size_int64 [of "cci_GenesisMainnetBlockHeight z"]
    size_int64 [of "cci_CurrEpochNum z"]
  by simp

lemmas sizes = size_Nomination size_NominationHeap size_Epoch_p size_PendingReward size_Validator size_StakingInfo_p size_CCTransferInfo size_CCEpoch_p size_CCInfo

end

subsection \<open>The streams agree with the slices\<close>

text \<open>
  C36: Writing to a stream and reading from one agrees with the slice codecs the contracts store
  with, for every type, with nil elements in its slices as well as without. An encoder that
  succeeds has written exactly the bytes \<open>MarshalMsg\<close> appends, one whose writer fails only a prefix
  of them. A decoder returns what \<open>UnmarshalMsg\<close> returns on the bytes still to come and leaves the
  same rest, or fails with it, except that it also fails at a map key that the reader of the
  stream does not take, one that is empty or not shorter than its buffer.
\<close>

theorem stream_codecs_agree:
  assumes "msgp_stream_writer rt W written" and "msgp_stream_reader rt D rest okey"
  shows "wrote written (EncodeMsg_Nomination W z1) (Marshal_Nomination rt [] z1) \<and> decodes okey rt rest (DecodeMsg_Nomination D z1) (\<lambda>rt. Unmarshal_Nomination rt z1)
    \<and> wrote written (EncodeMsg_NominationHeap W z2) (Marshal_NominationHeap rt [] z2) \<and> decodes okey rt rest (DecodeMsg_NominationHeap D z2) (\<lambda>rt. Unmarshal_NominationHeap rt z2)
    \<and> wrote written (EncodeMsg_Epoch_p W z3) (Marshal_Epoch_p rt [] z3) \<and> decodes okey rt rest (DecodeMsg_Epoch_p D z3) (\<lambda>rt. Unmarshal_Epoch_p rt z3)
    \<and> wrote written (EncodeMsg_PendingReward W z4) (Marshal_PendingReward rt [] z4) \<and> decodes okey rt rest (DecodeMsg_PendingReward D z4) (\<lambda>rt. Unmarshal_PendingReward rt z4)
    \<and> wrote written (EncodeMsg_Validator W z5) (Marshal_Validator rt [] z5) \<and> decodes okey rt rest (DecodeMsg_Validator D z5) (\<lambda>rt. Unmarshal_Validator rt z5)
    \<and> wrote written (EncodeMsg_StakingInfo_p W z6) (Marshal_StakingInfo_p rt [] z6) \<and> decodes okey rt rest (DecodeMsg_StakingInfo_p D z6) (\<lambda>rt. Unmarshal_StakingInfo_p rt z6)
    \<and> wrote written (EncodeMsg_CCTransferInfo W z7) (Marshal_CCTransferInfo rt [] z7) \<and> decodes okey rt rest (DecodeMsg_CCTransferInfo D z7) (\<lambda>rt. Unmarshal_CCTransferInfo rt z7)
    \<and> wrote written (EncodeMsg_CCEpoch_p W z8) (Marshal_CCEpoch_p rt [] z8) \<and> decodes okey rt rest (DecodeMsg_CCEpoch_p D z8) (\<lambda>rt. Unmarshal_CCEpoch_p rt z8)
    \<and> wrote written (EncodeMsg_CCInfo W z9) (Marshal_CCInfo rt [] z9) \<and> decodes okey rt rest (DecodeMsg_CCInfo D z9) (\<lambda>rt. Unmarshal_CCInfo rt z9)"
  unfolding decodes_def
  by (intro conjI msgp_stream_writer.encoders [OF assms(1)] msgp_stream_reader.decoders [OF assms(2)] withins)

text \<open>
  A struct with nil elements. At an empty key (a fixed string of no bytes) the two halves do differ.
\<close>

definition one_reward :: StakingInfo_p where
  "one_reward = \<lparr>sp_GenesisMainnetBlockHeight = 7, sp_CurrEpochNum = 1, sp_Validators = [None],
     sp_ValidatorsUpdate = [], sp_PendingRewards = [None, Some zero_PendingReward]\<rparr>"

theorem stream_codecs_agree_witness:
  "wrote mem_written (EncodeMsg_StakingInfo_p mem_W one_reward) (Marshal_StakingInfo_p msgpack_rt [] one_reward)
   \<and> decodes mem_okey msgpack_rt concat (DecodeMsg_StakingInfo_p mem_D one_reward) (\<lambda>rt. Unmarshal_StakingInfo_p rt one_reward)
   \<and> Unmarshal_CCInfo msgpack_rt zero_CCInfo [0x81, 0xa0, 0xc0] = Some (zero_CCInfo, [])
   \<and> DecodeMsg_CCInfo mem_D zero_CCInfo [[0x81, 0xa0, 0xc0]] = None"
proof (intro conjI)
  note agree = stream_codecs_agree [OF mw.msgp_stream_writer_axioms mr.msgp_stream_reader_axioms]
  show "wrote mem_written (EncodeMsg_StakingInfo_p mem_W one_reward) (Marshal_StakingInfo_p msgpack_rt [] one_reward)"
    and "decodes mem_okey msgpack_rt concat (DecodeMsg_StakingInfo_p mem_D one_reward) (\<lambda>rt. Unmarshal_StakingInfo_p rt one_reward)"
    using agree by blast+
qed (code_simp)+

text \<open>
  What was written to a stream without an error is read back from a stream, whatever was in
  the struct before and whatever follows.
\<close>

theorem stream_roundtrip:
  assumes "msgp_stream_writer rt W written" and "msgp_stream_reader rt D rest okey"
    and "EncodeMsg_StakingInfo_p W z w = (w', True)" and "storable_p z"
    and "written w' @ rem = written w @ rest r"
  shows "\<exists>r'. DecodeMsg_StakingInfo_p D z0 r = Some (z, r') \<and> rest r' = rem"
proof -
  have "written w' = written w @ Marshal_StakingInfo_p rt [] z"
    using wroteD(1) [OF msgp_stream_writer.wrote_StakingInfo_p [OF assms(1)] assms(3)] by simp
  moreover have "Marshal_StakingInfo_p (keyed okey rt) [] z = Marshal_StakingInfo_p rt [] z"
    by (simp add: Marshal_StakingInfo_p_def append_ptr_def [abs_def] Marshal_Validator_def [abs_def] Marshal_PendingReward_def [abs_def])
  ultimately have "rest r = Marshal_StakingInfo_p (keyed okey rt) [] z @ rem" using assms(5) by simp
  then have "Unmarshal_StakingInfo_p (keyed okey rt) z0 (rest r) = Some (z, rem)"
    using msgp_runtime.Unmarshal_Marshal_StakingInfo_p [OF msgp_stream_reader.keyed_runtime [OF assms(2)] assms(4)] by simp
  then show ?thesis
    using msgp_stream_reader.reads_StakingInfo_p [OF assms(2), of z0] by (force simp: reads_def dest: spec [of _ r])
qed

text \<open>
  C37: \<open>Msgsize\<close> is never smaller than the encoding, nil elements included, so that the buffer \<open>MarshalMsg\<close> asks for holds
  the whole message and is not grown while it is filled.
\<close>

theorem Msgsize_bounds:
  assumes "msgp_sized rt S"
  shows "length (Marshal_Nomination rt b z1) \<le> length b + Msgsize_Nomination S z1
    \<and> length (Marshal_NominationHeap rt b z2) \<le> length b + Msgsize_NominationHeap S z2
    \<and> length (Marshal_Epoch_p rt b z3) \<le> length b + Msgsize_Epoch_p S z3
    \<and> length (Marshal_PendingReward rt b z4) \<le> length b + Msgsize_PendingReward S z4
    \<and> length (Marshal_Validator rt b z5) \<le> length b + Msgsize_Validator S z5
    \<and> length (Marshal_StakingInfo_p rt b z6) \<le> length b + Msgsize_StakingInfo_p S z6
    \<and> length (Marshal_CCTransferInfo rt b z7) \<le> length b + Msgsize_CCTransferInfo S z7
    \<and> length (Marshal_CCEpoch_p rt b z8) \<le> length b + Msgsize_CCEpoch_p S z8
    \<and> length (Marshal_CCInfo rt b z9) \<le> length b + Msgsize_CCInfo S z9"
  by (intro conjI msgp_sized.sizes [OF assms])

theorem Msgsize_bounds_witness:
  "length (Marshal_StakingInfo_p msgpack_rt [] one_reward) \<le> Msgsize_StakingInfo_p mem_S one_reward
   \<and> Msgsize_StakingInfo_p mem_S one_reward = 266"
proof
  show "length (Marshal_StakingInfo_p msgpack_rt [] one_reward) \<le> Msgsize_StakingInfo_p mem_S one_reward"
    using Msgsize_bounds [OF mz.msgp_sized_axioms, where b = "[]"] by simp
qed (simp add: Msgsize_StakingInfo_p_def one_reward_def mem_S_def size_ptr_def Msgsize_PendingReward_def)

end
