(* ===== verification/Main_Watcher.thy ===== *)
theory Main_Watcher
  imports CC_Types CCRPC Params
begin

text \<open>
  The watcher (\<open>src/watcher/watcher.go\<close>, the parts of \<open>src/watcher/rpcclient.go\<close> and
  \<open>src/watcher/types/types.go\<close> that read blocks): it follows the finalized blocks of the main
  chain, collects the nominations in their coinbase transactions and sends an epoch to a
  channel whenever enough blocks have arrived. A channel is the list of what was sent to it,
  without its bound: a send would wait while 10000 epochs (960000 of the cross-chain epochs)
  are unread, that is after more than twenty million blocks of the main chain. The requests
  to a node are answered by arguments; time, logging and waiting are left out. The map from
  heights to blocks is an association list; \<open>it\<close> is the order in which Go visits the map of
  nominations.
\<close>

record BCHBlock =
  bb_Height :: i64
  bb_Timestamp :: i64
  bb_HashId :: bytes32
  bb_ParentBlk :: bytes32
  bb_Nominations :: "Nomination list"
  bb_CCTransferInfos :: "CCTransferInfo list"

definition BCHBlock_Equal :: "BCHBlock \<Rightarrow> BCHBlock \<Rightarrow> bool" where
  "BCHBlock_Equal b o' \<longleftrightarrow> bb_Height b = bb_Height o' \<and> bb_Timestamp b = bb_Timestamp o' \<and>
     bb_HashId b = bb_HashId o' \<and> bb_ParentBlk b = bb_ParentBlk o'"

record Watcher =
  latestFinalizedHeight :: i64
  heightToFinalizedBlock :: "(i64 \<times> BCHBlock) list"
  EpochChan :: "Epoch list"
  epochList :: "Epoch list"
  numBlocksInEpoch :: i64
  lastEpochEndHeight :: i64
  lastKnownEpochNum :: i64
  CCEpochChan :: "CCEpoch list"
  lastCCEpochEndHeight :: i64
  numBlocksInCCEpoch :: i64
  ccEpochList :: "CCEpoch list"
  lastKnownCCEpochNum :: i64
  currentMainnetBlockTimestamp :: i64

definition NewWatcher :: "i64 \<Rightarrow> i64 \<Rightarrow> i64 \<Rightarrow> Watcher" where
  "NewWatcher lastHeight lastCCEpochEnd lastKnownEpoch = \<lparr>latestFinalizedHeight = lastHeight, heightToFinalizedBlock = [],
     EpochChan = [], epochList = [], numBlocksInEpoch = StakingNumBlocksInEpoch, lastEpochEndHeight = lastHeight,
     lastKnownEpochNum = lastKnownEpoch, CCEpochChan = [], lastCCEpochEndHeight = lastCCEpochEnd,
     numBlocksInCCEpoch = BlocksInCCEpoch, ccEpochList = [], lastKnownCCEpochNum = 0,
     currentMainnetBlockTimestamp = 0x7FFFFFFFFFFFFFFF - 14 * 24 * 3600\<rparr>"

subsection \<open>Reading blocks\<close>

text \<open>An output is given by its \<open>asm\<close> entry, \<open>None\<close> where that is missing or no string.\<close>

record TxInfo =
  ti_VoutList :: "string option list"

definition nomination_prefix :: string where
  "nomination_prefix = ''OP_RETURN '' @ ''73424348'' @ ''00''"

fun GetValidatorPubKey :: "string option list \<Rightarrow> bytes32 \<times> bool" where
  "GetValidatorPubKey [] = (0, False)"
| "GetValidatorPubKey (None # vouts) = GetValidatorPubKey vouts"
| "GetValidatorPubKey (Some script # vouts) =
     (if take (length nomination_prefix) script \<noteq> nomination_prefix then GetValidatorPubKey vouts
      else let script = drop (length nomination_prefix) script in
        if length script \<noteq> 64 then GetValidatorPubKey vouts
        else case hex_DecodeString script of
            None \<Rightarrow> GetValidatorPubKey vouts
          | Some bz \<Rightarrow> (be_val (copy_to (replicate 32 0) bz), True))"

definition getNomination :: "TxInfo \<Rightarrow> Nomination option" where
  "getNomination coinbase = (case GetValidatorPubKey (ti_VoutList coinbase) of
     (pubKey, success) \<Rightarrow> if success then Some \<lparr>n_Pubkey = pubKey, n_NominatedCount = 1\<rparr> else None)"

record w_BlockInfo =
  wi_Hash :: string
  wi_Height :: i64
  wi_Tx :: "TxInfo list"
  wi_RawTx :: "TxInfo list"
  wi_Time :: i64
  wi_PreviousBlockhash :: string

text \<open>\<open>Inl\<close> is an error of the decoder; a block above the first without transactions panics.\<close>

definition getBCHBlock :: "w_BlockInfo \<Rightarrow> (unit + BCHBlock) option" where
  "getBCHBlock bi =
     (let txs = (if wi_Tx bi = [] then wi_RawTx bi else wi_Tx bi) in
      case (hex_DecodeString (wi_Hash bi), hex_DecodeString (wi_PreviousBlockhash bi)) of
        (Some h, Some p) \<Rightarrow>
          let blk = \<lparr>bb_Height = wi_Height bi, bb_Timestamp = wi_Time bi, bb_HashId = be_val (copy_to (replicate 32 0) h),
                bb_ParentBlk = be_val (copy_to (replicate 32 0) p), bb_Nominations = [], bb_CCTransferInfos = []\<rparr>
          in if sint (wi_Height bi) > 0 then (case txs of
               [] \<Rightarrow> None
             | tx # _ \<Rightarrow> Some (Inr (case getNomination tx of None \<Rightarrow> blk | Some n \<Rightarrow> blk\<lparr>bb_Nominations := [n]\<rparr>)))
             else Some (Inr blk)
      | _ \<Rightarrow> Some (Inl ()))"

subsection \<open>Building epochs\<close>

definition sortEpochNominations :: "Nomination list \<Rightarrow> Nomination list" where
  "sortEpochNominations ns = sort_key (\<lambda>n. - sint (n_NominatedCount n)) (sort_key n_Pubkey ns)"

text \<open>
  The map holds pointers to the loop variable: a new entry is the variable itself, and adding
  the variable's count to the entry doubles it.
\<close>

definition nominate :: "(bytes32 \<times> Nomination) list \<Rightarrow> Nomination \<Rightarrow> (bytes32 \<times> Nomination) list" where
  "nominate m n = (case map_of m (n_Pubkey n) of
       None \<Rightarrow> AList.update (n_Pubkey n) (n\<lparr>n_NominatedCount := n_NominatedCount n + n_NominatedCount n\<rparr>) m
     | Some v \<Rightarrow> AList.update (n_Pubkey n) (v\<lparr>n_NominatedCount := n_NominatedCount v + n_NominatedCount n\<rparr>) m)"

definition build_step :: "Watcher \<Rightarrow> i64 \<times> (bytes32 \<times> Nomination) list \<Rightarrow> i64 \<Rightarrow> (i64 \<times> (bytes32 \<times> Nomination) list) option" where
  "build_step w st i = (case map_of (heightToFinalizedBlock w) i of
       None \<Rightarrow> None
     | Some blk \<Rightarrow> Some (if sint (fst st) < sint (bb_Timestamp blk) then bb_Timestamp blk else fst st,
         foldl nominate (snd st) (bb_Nominations blk)))"

definition buildNewEpoch :: "bytes32 iter \<Rightarrow> Watcher \<Rightarrow> Epoch option" where
  "buildNewEpoch it w = do {
     let startHeight = lastEpochEndHeight w + 1;
     (endTime, valMapByPubkey) \<leftarrow> foldM (build_step w) (0, []) (map word_of_int [sint startHeight..sint (latestFinalizedHeight w)]);
     Some \<lparr>e_Number = 0, e_StartHeight = startHeight, e_EndTime = endTime,
       e_Nominations = sortEpochNominations (map (\<lambda>k. the (map_of valMapByPubkey k)) (it (map fst valMapByPubkey)))\<rparr> }"

definition GetEpochList :: "bytes32 iter \<Rightarrow> Watcher \<Rightarrow> Epoch list option" where
  "GetEpochList it w = do { currEpoch \<leftarrow> buildNewEpoch it w; Some (CopyEpochs (epochList w) @ [currEpoch]) }"

function clear_blocks :: "(i64 \<times> BCHBlock) list \<Rightarrow> i64 \<Rightarrow> (i64 \<times> BCHBlock) list" where
  "clear_blocks m height = (if map_of m height = None then m else clear_blocks (AList.delete height m) (height - 1))"
  by pat_completeness auto
termination
  by (relation "measure (length \<circ> fst)") (auto simp: AList.delete_eq length_filter_less dest!: map_of_SomeD)

declare clear_blocks.simps [simp del]

text \<open>Slicing past the length of the list panics.\<close>

definition ClearOldData :: "Watcher \<Rightarrow> Watcher option" where
  "ClearOldData w = (let elLen = length (epochList w) in
     if elLen = 0 then Some w
     else
       let height = e_StartHeight (epochList w ! (elLen - 1)) - 5 * numBlocksInEpoch w;
           w = w\<lparr>heightToFinalizedBlock := clear_blocks (heightToFinalizedBlock w) height\<rparr>;
           w = (if elLen > 5 then w\<lparr>epochList := drop (elLen - 5) (epochList w)\<rparr> else w);
           ccEpochLen = length (ccEpochList w)
       in if int ccEpochLen > 5 * (sint StakingNumBlocksInEpoch div sint BlocksInCCEpoch)
          then if ccEpochLen - 5 > length (epochList w) then None
            else Some (w\<lparr>epochList := drop (ccEpochLen - 5) (epochList w)\<rparr>)
          else Some w)"

definition generateNewEpoch :: "bytes32 iter \<Rightarrow> Watcher \<Rightarrow> Watcher option" where
  "generateNewEpoch it w = do {
     epoch \<leftarrow> buildNewEpoch it w;
     ClearOldData (w\<lparr>epochList := epochList w @ [epoch], EpochChan := EpochChan w @ [epoch],
       lastEpochEndHeight := latestFinalizedHeight w\<rparr>) }"

definition addFinalizedBlock :: "bytes32 iter \<Rightarrow> Watcher \<Rightarrow> BCHBlock \<Rightarrow> Watcher option" where
  "addFinalizedBlock it w blk =
     (let w = w\<lparr>heightToFinalizedBlock := AList.update (bb_Height blk) blk (heightToFinalizedBlock w),
            latestFinalizedHeight := latestFinalizedHeight w + 1, currentMainnetBlockTimestamp := bb_Timestamp blk\<rparr>
      in if latestFinalizedHeight w - lastEpochEndHeight w = numBlocksInEpoch w then generateNewEpoch it w else Some w)"

text \<open>
  The body of the inner loop of \<open>fetchBlocks\<close> for the block at \<open>height\<close>: \<open>Inl\<close> leaves the
  watcher for good, \<open>Inr\<close> goes on with the next height; no block is a nil dereference.
\<close>

definition fetch_block :: "bytes32 iter \<Rightarrow> i64 \<Rightarrow> Watcher \<Rightarrow> i64 \<Rightarrow> BCHBlock option \<Rightarrow> (Watcher + Watcher \<times> i64) option" where
  "fetch_block it ccrpcMainStart w height blk = (case blk of
       None \<Rightarrow> None
     | Some b \<Rightarrow> if sint height \<ge> sint ccrpcMainStart then Some (Inl w)
         else map_option (\<lambda>w. Inr (w, height + 1)) (addFinalizedBlock it w b))"

subsection \<open>Catching up from another node\<close>

definition ShaGateSwitch :: bool where "ShaGateSwitch = False"

fun cc_speedup_loop :: "CCEpoch list option list \<Rightarrow> Watcher \<Rightarrow> Watcher option" where
  "cc_speedup_loop [] w = None"
| "cc_speedup_loop (None # replies) w = Some w"
| "cc_speedup_loop (Some epochs # replies) w =
     (if epochs = [] then Some w
      else cc_speedup_loop replies (w\<lparr>ccEpochList := ccEpochList w @ epochs, CCEpochChan := CCEpochChan w @ epochs\<rparr>))"

definition ccEpochSpeedup :: "CCEpoch list option list \<Rightarrow> Watcher \<Rightarrow> Watcher option" where
  "ccEpochSpeedup replies w = (if \<not> ShaGateSwitch then Some w else cc_speedup_loop replies w)"

text \<open>
  The replies of the other node, \<open>None\<close> for a nil slice; running out of replies means waiting.
  The flag is false when a nil reply ended the loop early.
\<close>

fun speedup_loop :: "CCEpoch list option list \<Rightarrow> Epoch list option list \<Rightarrow> Watcher \<Rightarrow> i64 \<Rightarrow> i64 \<Rightarrow> (Watcher \<times> i64 \<times> bool) option" where
  "speedup_loop ccs replies w latestFinalized latestMainnet =
     (if sint latestMainnet < sint (latestFinalized + numBlocksInEpoch w)
      then map_option (\<lambda>w. (w, latestFinalized, True)) (ccEpochSpeedup ccs w)
      else case replies of
          [] \<Rightarrow> None
        | None # _ \<Rightarrow> Some (w, latestMainnet, False)
        | Some epochs # replies \<Rightarrow>
            if epochs = [] then map_option (\<lambda>w. (w, latestFinalized, True)) (ccEpochSpeedup ccs w)
            else speedup_loop ccs replies (w\<lparr>epochList := epochList w @ epochs,
                EpochChan := EpochChan w @ filter (\<lambda>e. e_EndTime e \<noteq> 0) epochs\<rparr>)
              (latestFinalized + of_nat (length epochs) * numBlocksInEpoch w) latestMainnet)"

definition epochSpeedup :: "bool \<Rightarrow> CCEpoch list option list \<Rightarrow> Epoch list option list \<Rightarrow> Watcher \<Rightarrow> i64 \<Rightarrow> i64 \<Rightarrow> (Watcher \<times> i64) option" where
  "epochSpeedup Speedup ccs replies w latestFinalized latestMainnet =
     (if Speedup then do {
        (w, h, completed) \<leftarrow> speedup_loop ccs replies w latestFinalized latestMainnet;
        Some (if completed then w\<lparr>latestFinalizedHeight := h, lastEpochEndHeight := h\<rparr> else w, h) }
      else Some (w, latestFinalized))"

subsection \<open>The epochs of a range of blocks\<close>

text \<open>The latest time stamp, the nominations of a range, and the epoch they make; the first nomination of a key counts twice.\<close>

definition end_time :: "i64 \<Rightarrow> BCHBlock list \<Rightarrow> i64" where
  "end_time t bs = foldl (\<lambda>t b. if sint t < sint (bb_Timestamp b) then bb_Timestamp b else t) t bs"

definition votes_of :: "Nomination list \<Rightarrow> bytes32 \<Rightarrow> i64" where
  "votes_of ns k = (\<Sum>n\<leftarrow>filter (\<lambda>n. n_Pubkey n = k) ns. n_NominatedCount n)"

definition first_votes :: "Nomination list \<Rightarrow> bytes32 \<Rightarrow> i64" where
  "first_votes ns k = (case find (\<lambda>n. n_Pubkey n = k) ns of None \<Rightarrow> 0 | Some n \<Rightarrow> n_NominatedCount n)"

definition epoch_of :: "i64 \<Rightarrow> BCHBlock list \<Rightarrow> Epoch" where
  "epoch_of start bs = (let ns = concat (map bb_Nominations bs) in
     \<lparr>e_Number = 0, e_StartHeight = start, e_EndTime = end_time 0 bs,
      e_Nominations = sortEpochNominations
        (map (\<lambda>k. \<lparr>n_Pubkey = k, n_NominatedCount = first_votes ns k + votes_of ns k\<rparr>) (remdups (map n_Pubkey ns)))\<rparr>)"

lemma end_time_max: "sint (end_time t bs) = Max (insert (sint t) (sint ` bb_Timestamp ` set bs))"
proof (induction bs rule: rev_induct)
  case (snoc b bs)
  have "insert (sint t) (sint ` bb_Timestamp ` set (bs @ [b])) = insert (sint (bb_Timestamp b)) (insert (sint t) (sint ` bb_Timestamp ` set bs))"
    by auto
  then have "Max (insert (sint t) (sint ` bb_Timestamp ` set (bs @ [b]))) = max (sint (bb_Timestamp b)) (sint (end_time t bs))"
    using snoc by (simp add: Max_insert)
  then show ?case by (simp add: end_time_def max_def)
qed (simp add: end_time_def)

lemma nominate_lookup:
  "map_of (nominate m n) k = (if k = n_Pubkey n then Some ((case map_of m k of None \<Rightarrow> n | Some v \<Rightarrow> v)
      \<lparr>n_NominatedCount := (case map_of m k of None \<Rightarrow> n_NominatedCount n | Some v \<Rightarrow> n_NominatedCount v) + n_NominatedCount n\<rparr>)
    else map_of m k)"
  by (auto simp: nominate_def update_conv' split: option.splits)

lemma nominate_keys:
  "set (map fst (nominate m n)) = insert (n_Pubkey n) (set (map fst m))"
  "distinct (map fst m) \<Longrightarrow> distinct (map fst (nominate m n))"
  by (auto simp: nominate_def dom_update distinct_update split: option.splits)

lemma nominate_fold_keys:
  "set (map fst (foldl nominate m ns)) = n_Pubkey ` set ns \<union> set (map fst m)"
  "distinct (map fst m) \<Longrightarrow> distinct (map fst (foldl nominate m ns))"
proof (induction ns arbitrary: m)
  case (Cons n ns)
  { case 1 then show ?case using Cons(1) [of "nominate m n"] nominate_keys(1) [of m n] by auto }
  { case 2 then show ?case using Cons(2) [of "nominate m n"] nominate_keys(2) by simp }
qed simp_all

lemma nominate_fold:
  assumes "\<forall>k v. map_of m k = Some v \<longrightarrow> n_Pubkey v = k"
  shows "map_of (foldl nominate m ns) k = (case map_of m k of
      Some v \<Rightarrow> Some \<lparr>n_Pubkey = k, n_NominatedCount = n_NominatedCount v + votes_of ns k\<rparr>
    | None \<Rightarrow> if k \<in> n_Pubkey ` set ns then Some \<lparr>n_Pubkey = k, n_NominatedCount = first_votes ns k + votes_of ns k\<rparr> else None)"
  using assms
proof (induction ns arbitrary: m)
  case Nil
  then show ?case by (cases "map_of m k") (auto simp: votes_of_def)
next
  case (Cons n ns)
  have "\<forall>k v. map_of (nominate m n) k = Some v \<longrightarrow> n_Pubkey v = k"
    using Cons.prems by (auto simp: nominate_lookup split: option.splits if_splits)
  from Cons.IH [OF this] show ?case
    by (cases "map_of m k"; cases "k = n_Pubkey n") (auto simp: nominate_lookup votes_of_def first_votes_def algebra_simps)
qed

lemma sort_nominations_order:
  assumes "mset xs = mset ys" and "distinct (map n_Pubkey xs)"
  shows "sortEpochNominations xs = sortEpochNominations ys"
proof -
  have "inj_on n_Pubkey (set xs)" using assms(2) by (simp add: distinct_map)
  then have "sort_key n_Pubkey xs = sort_key n_Pubkey ys"
    using assms(1) by (intro sort_key_inj_key_eq) auto
  then show ?thesis by (simp add: sortEpochNominations_def)
qed

lemma nominations_of_map:
  assumes "is_iter it"
  shows "sortEpochNominations (map (\<lambda>k. the (map_of (foldl nominate [] ns) k)) (it (map fst (foldl nominate [] ns)))) =
    sortEpochNominations (map (\<lambda>k. \<lparr>n_Pubkey = k, n_NominatedCount = first_votes ns k + votes_of ns k\<rparr>) (remdups (map n_Pubkey ns)))"
proof (rule sort_nominations_order)
  let ?m = "foldl nominate [] ns" and ?f = "\<lambda>k. \<lparr>n_Pubkey = k, n_NominatedCount = first_votes ns k + votes_of ns k\<rparr>"
  let ?ks = "it (map fst ?m)"
  have ks: "set ?ks = n_Pubkey ` set ns" "distinct ?ks"
    using assms nominate_fold_keys [of "[]" ns] by simp_all
  then have eq: "map (\<lambda>k. the (map_of ?m k)) ?ks = map ?f ?ks"
    by (intro map_cong) (auto simp: nominate_fold)
  have "mset ?ks = mset (remdups (map n_Pubkey ns))"
    using ks set_eq_iff_mset_eq_distinct [OF ks(2) distinct_remdups, of "map n_Pubkey ns"] by simp
  then show "mset (map (\<lambda>k. the (map_of ?m k)) ?ks) = mset (map ?f (remdups (map n_Pubkey ns)))"
    unfolding eq mset_map by simp
  show "distinct (map n_Pubkey (map (\<lambda>k. the (map_of ?m k)) ?ks))"
    unfolding eq using ks(2) by (simp add: comp_def)
qed

lemma build_fold:
  assumes "\<And>h. h \<in> set hs \<Longrightarrow> map_of (heightToFinalizedBlock w) h = Some (f h)"
  shows "foldM (build_step w) (t, m) hs = Some (end_time t (map f hs), foldl nominate m (concat (map bb_Nominations (map f hs))))"
  using assms by (induction hs arbitrary: t m) (simp_all add: build_step_def end_time_def foldl_append)

lemma build_epoch:
  assumes "is_iter it" and hs: "map word_of_int [sint (lastEpochEndHeight w + 1)..sint (latestFinalizedHeight w)] = map g [a..<b]"
    and "\<And>i. a \<le> i \<Longrightarrow> i < b \<Longrightarrow> map_of (heightToFinalizedBlock w) (g i) = Some (bs ! i)" and "b \<le> length bs"
  shows "buildNewEpoch it w = Some (epoch_of (lastEpochEndHeight w + 1) (take (b - a) (drop a bs)))"
proof -
  define f where "f h = the (map_of (heightToFinalizedBlock w) h)" for h
  let ?bs = "take (b - a) (drop a bs)"
  have "map f (map g [a..<b]) = ?bs"
    using assms(3,4) by (intro nth_equalityI) (auto simp: f_def)
  then have "foldM (build_step w) (0, []) (map g [a..<b]) = Some (end_time 0 ?bs, foldl nominate [] (concat (map bb_Nominations ?bs)))"
    using build_fold [of "map g [a..<b]" w f 0 "[]"] assms(3) by (force simp: f_def)
  then show ?thesis
    unfolding buildNewEpoch_def Let_def hs by (simp add: Let_def epoch_of_def nominations_of_map [OF assms(1)])
qed

subsection \<open>The run over finalized blocks\<close>

lemma clear_blocks_subset: "set (map fst (clear_blocks m h)) \<subseteq> set (map fst m)"
proof (induction m h rule: clear_blocks.induct)
  case (1 m height)
  then show ?case
    by (subst clear_blocks.simps) (auto simp: AList.delete_eq)
qed

lemma ClearOldData_keeps:
  assumes "ccEpochList w = []"
  shows "\<exists>w'. ClearOldData w = Some w' \<and> latestFinalizedHeight w' = latestFinalizedHeight w \<and> lastEpochEndHeight w' = lastEpochEndHeight w \<and>
    EpochChan w' = EpochChan w \<and> numBlocksInEpoch w' = numBlocksInEpoch w \<and> ccEpochList w' = [] \<and>
    set (map fst (heightToFinalizedBlock w')) \<subseteq> set (map fst (heightToFinalizedBlock w))"
  using assms clear_blocks_subset by (auto simp: ClearOldData_def Let_def param_defs)

text \<open>
  The state after the blocks \<open>bs\<close> above \<open>h\<close>, for epochs of \<open>N\<close> blocks: the epochs sent so
  far, and the blocks of the one under construction.
\<close>

definition epochs_of :: "nat \<Rightarrow> i64 \<Rightarrow> BCHBlock list \<Rightarrow> Epoch list" where
  "epochs_of N h bs = map (\<lambda>j. epoch_of (h + of_nat (j * N) + 1) (take N (drop (j * N) bs))) [0..<length bs div N]"

definition watch_inv :: "nat \<Rightarrow> i64 \<Rightarrow> BCHBlock list \<Rightarrow> Watcher \<Rightarrow> bool" where
  "watch_inv N h bs w \<longleftrightarrow> latestFinalizedHeight w = h + of_nat (length bs) \<and>
     lastEpochEndHeight w = h + of_nat (length bs div N * N) \<and> EpochChan w = epochs_of N h bs \<and>
     numBlocksInEpoch w = of_nat N \<and> ccEpochList w = [] \<and>
     (\<forall>i. length bs div N * N \<le> i \<longrightarrow> i < length bs \<longrightarrow> map_of (heightToFinalizedBlock w) (h + 1 + of_nat i) = Some (bs ! i))"

lemma heights_upto:
  fixes h :: i64
  shows "map word_of_int [sint h + 1 + int a..sint h + int b] = map (\<lambda>i. h + 1 + of_nat i) [a..<b]"
  by (intro nth_equalityI) (auto simp: nth_upto)

lemma epochs_of_snoc:
  assumes "0 < N"
  shows "epochs_of N h (bs @ [b]) = epochs_of N h bs @ (if N dvd Suc (length bs)
    then [epoch_of (h + of_nat (length bs div N * N) + 1) (take N (drop (length bs div N * N) (bs @ [b])))] else [])"
proof -
  let ?k = "length bs"
  have "take N (drop (j * N) (bs @ [b])) = take N (drop (j * N) bs)" if "j < ?k div N" for j
  proof -
    have "Suc j * N \<le> ?k div N * N" using that by (intro mult_le_mono1) simp
    also have "\<dots> \<le> ?k" by simp
    finally show ?thesis by simp
  qed
  then have "map (\<lambda>j. epoch_of (h + of_nat (j * N) + 1) (take N (drop (j * N) (bs @ [b])))) [0..<?k div N] = epochs_of N h bs"
    unfolding epochs_of_def by (intro map_cong refl arg_cong2 [where f = epoch_of]) (simp only: set_upt atLeastLessThan_iff)
  moreover have "Suc ?k div N = (if N dvd Suc ?k then Suc (?k div N) else ?k div N)"
    by (simp add: div_Suc dvd_eq_mod_eq_0)
  ultimately show ?thesis by (simp add: epochs_of_def)
qed

lemma sint_add_nat:
  fixes h :: i64
  assumes "0 \<le> sint h" and "sint h + int m < 2 ^ 63"
  shows "sint (h + of_nat m) = sint h + int m"
proof -
  have "m < 2 ^ 63" using assms by (simp add: zless_nat_eq_int_zless)
  then have m: "sint (of_nat m :: i64) = int m" by (rule sint_of_nat_small)
  show ?thesis using assms sint_add_no_wrap [of h "of_nat m"] unfolding m by simp
qed

lemma heights_between:
  fixes h :: i64
  assumes "0 \<le> sint h" and "sint h + int b < 2 ^ 63" and "a < b"
  shows "map word_of_int [sint (h + of_nat a + 1)..sint (h + of_nat b)] = map (\<lambda>i. h + 1 + of_nat i) [a..<b]"
proof -
  have "h + of_nat a + 1 = h + of_nat (Suc a)" by simp
  moreover have "sint (h + of_nat (Suc a)) = sint h + 1 + int a" using assms by (subst sint_add_nat) auto
  ultimately have "sint (h + of_nat a + 1) = sint h + 1 + int a" by (simp only:)
  then show ?thesis using heights_upto [of h a b] sint_add_nat [OF assms(1,2)] by simp
qed

lemma epoch_due:
  assumes "0 < N" and "N < 2 ^ 63" and "Suc k < 2 ^ 63"
  shows "(h + of_nat (Suc k)) - (h + of_nat (k div N * N)) = (of_nat N :: i64) \<longleftrightarrow> N dvd Suc k"
proof -
  have "(h + of_nat (Suc k)) - (h + of_nat (k div N * N)) = (of_nat (Suc k) - of_nat (k div N * N) :: i64)"
    by (simp only: add_diff_cancel_left)
  also have "\<dots> = of_nat (Suc k - k div N * N)"
    by (rule of_nat_diff_word) (simp add: le_SucI)
  also have "Suc k - k div N * N = Suc (k mod N)"
    by (simp add: Suc_diff_le minus_div_mult_eq_mod)
  finally have "(h + of_nat (Suc k)) - (h + of_nat (k div N * N)) = (of_nat N :: i64) \<longleftrightarrow> Suc (k mod N) = N"
    using assms mod_less_divisor [OF assms(1), of k] by (simp only:) (intro of_nat_eq_small, simp_all)
  then show ?thesis using assms(1) by (simp add: mod_Suc dvd_eq_mod_eq_0)
qed

lemma watch_step:
  assumes it: "is_iter it" and N: "0 < N" "N < 2 ^ 63" and range: "0 \<le> sint h" "sint h + int (length bs) + 1 < 2 ^ 63"
    and inv: "watch_inv N h bs w" and b: "bb_Height b = h + 1 + of_nat (length bs)"
  shows "\<exists>w'. addFinalizedBlock it w b = Some w' \<and> watch_inv N h (bs @ [b]) w'"
proof -
  let ?k = "length bs" and ?a = "length bs div N * N" and ?g = "\<lambda>i. h + 1 + of_nat i :: i64"
  define w1 where "w1 = w\<lparr>heightToFinalizedBlock := AList.update (bb_Height b) b (heightToFinalizedBlock w),
    latestFinalizedHeight := latestFinalizedHeight w + 1, currentMainnetBlockTimestamp := bb_Timestamp b\<rparr>"
  have a: "?a \<le> ?k" by simp
  have k: "Suc ?k < 2 ^ 63" using range by (simp add: zless_nat_eq_int_zless)
  have lst: "latestFinalizedHeight w1 = h + of_nat (Suc ?k)" "lastEpochEndHeight w1 = h + of_nat ?a" "numBlocksInEpoch w1 = of_nat N"
    "EpochChan w1 = epochs_of N h bs" "ccEpochList w1 = []"
    using inv by (simp_all add: w1_def watch_inv_def)
  have blocks: "map_of (heightToFinalizedBlock w1) (?g i) = Some ((bs @ [b]) ! i)" if "?a \<le> i" "i < Suc ?k" for i
  proof (cases "i = ?k")
    case False
    then have "?g i \<noteq> ?g ?k" using that k by (simp add: of_nat_eq_small)
    then show ?thesis using False that inv by (simp add: w1_def watch_inv_def b update_conv' nth_append)
  qed (simp add: w1_def b update_conv')
  have due: "latestFinalizedHeight w1 - lastEpochEndHeight w1 = numBlocksInEpoch w1 \<longleftrightarrow> N dvd Suc ?k"
    unfolding lst by (rule epoch_due [OF N k])
  show ?thesis
  proof (cases "N dvd Suc ?k")
    case False
    then have "Suc ?k div N = ?k div N" using N(1) by (simp add: div_Suc dvd_eq_mod_eq_0)
    with False lst blocks have "watch_inv N h (bs @ [b]) w1"
      using N(1) by (simp add: watch_inv_def epochs_of_snoc)
    then show ?thesis using due False by (simp add: addFinalizedBlock_def Let_def flip: w1_def)
  next
    case True
    have "map word_of_int [sint (lastEpochEndHeight w1 + 1)..sint (latestFinalizedHeight w1)] = map ?g [?a..<Suc ?k]"
      unfolding lst by (rule heights_between [OF range(1)]) (use range le_imp_less_Suc [OF a] in \<open>simp_all only: of_nat_Suc\<close>)
    from build_epoch [OF it this, of "bs @ [b]"] blocks
    have ep: "buildNewEpoch it w1 = Some (epoch_of (h + of_nat ?a + 1) (take (Suc ?k - ?a) (drop ?a (bs @ [b]))))"
      by (simp add: lst)
    let ?w = "w1\<lparr>epochList := epochList w1 @ [epoch_of (h + of_nat ?a + 1) (take (Suc ?k - ?a) (drop ?a (bs @ [b])))],
      EpochChan := EpochChan w1 @ [epoch_of (h + of_nat ?a + 1) (take (Suc ?k - ?a) (drop ?a (bs @ [b])))],
      lastEpochEndHeight := latestFinalizedHeight w1\<rparr>"
    have len: "Suc ?k - ?a = N" "Suc ?k div N * N = Suc ?k"
      using True N(1) by (simp_all add: Suc_diff_le minus_div_mult_eq_mod mod_Suc dvd_eq_mod_eq_0 split: if_splits)
    obtain w' where w': "ClearOldData ?w = Some w'" "latestFinalizedHeight w' = latestFinalizedHeight ?w"
      "lastEpochEndHeight w' = lastEpochEndHeight ?w" "EpochChan w' = EpochChan ?w" "numBlocksInEpoch w' = numBlocksInEpoch ?w" "ccEpochList w' = []"
      using ClearOldData_keeps [of ?w] lst(5) by auto
    then have "watch_inv N h (bs @ [b]) w'"
      using lst len True by (simp add: watch_inv_def epochs_of_snoc [OF N(1)])
    then show ?thesis
      using due True ep w'(1) by (simp add: addFinalizedBlock_def generateNewEpoch_def Let_def flip: w1_def)
  qed
qed

lemma watch_run:
  assumes it: "is_iter it" and N: "0 < N" "N < 2 ^ 63" and h: "0 \<le> sint h"
  shows "\<forall>i < length bs. bb_Height (bs ! i) = h + 1 + of_nat i \<Longrightarrow> sint h + int (length bs) < 2 ^ 63 \<Longrightarrow>
    \<exists>w. foldM (addFinalizedBlock it) ((NewWatcher h a e)\<lparr>numBlocksInEpoch := of_nat N\<rparr>) bs = Some w \<and> watch_inv N h bs w"
proof (induction bs rule: rev_induct)
  case Nil
  then show ?case by (simp add: watch_inv_def NewWatcher_def epochs_of_def)
next
  case (snoc b bs)
  have "bb_Height (bs ! i) = h + 1 + of_nat i" if "i < length bs" for i
    using snoc.prems(1) that by (metis length_append_singleton less_SucI nth_append)
  with snoc obtain w where w: "foldM (addFinalizedBlock it) ((NewWatcher h a e)\<lparr>numBlocksInEpoch := of_nat N\<rparr>) bs = Some w" "watch_inv N h bs w"
    by force
  have "bb_Height b = h + 1 + of_nat (length bs)" using snoc.prems(1) by (metis length_append_singleton lessI nth_append_length)
  from watch_step [OF it N h _ w(2) this] snoc.prems(2) w(1) show ?case by (auto simp: foldM_append)
qed

subsection \<open>Properties\<close>

text \<open>
  fed with consecutive finalized blocks, the watcher never panics and sends exactly one
  epoch for every \<open>N\<close> blocks: the epochs follow each other without gap or overlap, an epoch
  ends at the latest time stamp of its blocks, and its nominations, in an order that does not
  depend on the map they are collected in, carry for every key the number of its nominations
  plus the first one once more, which the code counts twice.
\<close>

theorem watcher_epochs:
  assumes "is_iter it" and "0 < N" and "N < 2 ^ 63" and "0 \<le> sint h" and "sint h + int (length bs) < 2 ^ 63"
    and "\<forall>i < length bs. bb_Height (bs ! i) = h + 1 + of_nat i"
  shows "\<exists>w. foldM (addFinalizedBlock it) ((NewWatcher h a e)\<lparr>numBlocksInEpoch := of_nat N\<rparr>) bs = Some w \<and>
    latestFinalizedHeight w = h + of_nat (length bs) \<and> lastEpochEndHeight w = h + of_nat (length bs div N * N) \<and>
    EpochChan w = map (\<lambda>j. epoch_of (h + of_nat (j * N) + 1) (take N (drop (j * N) bs))) [0..<length bs div N]"
  using watch_run [OF assms(1-4,6,5), of a e] unfolding watch_inv_def epochs_of_def by blast

definition sample_block :: "nat \<Rightarrow> nat \<Rightarrow> BCHBlock" where
  "sample_block n k = \<lparr>bb_Height = of_nat n, bb_Timestamp = of_nat (100 - n), bb_HashId = 0, bb_ParentBlk = 0,
     bb_Nominations = [\<lparr>n_Pubkey = of_nat k, n_NominatedCount = 1\<rparr>], bb_CCTransferInfos = []\<rparr>"

text \<open>Two blocks for key 7 and one for key 8 count three and two.\<close>

theorem watcher_epochs_witness:
  "\<exists>w. foldM (addFinalizedBlock rev) ((NewWatcher 10 0 0)\<lparr>numBlocksInEpoch := of_nat 3\<rparr>)
     [sample_block 11 7, sample_block 12 8, sample_block 13 7, sample_block 14 7] = Some w \<and>
   EpochChan w = [\<lparr>e_Number = 0, e_StartHeight = 11, e_EndTime = 89,
     e_Nominations = [\<lparr>n_Pubkey = 7, n_NominatedCount = 3\<rparr>, \<lparr>n_Pubkey = 8, n_NominatedCount = 2\<rparr>]\<rparr>]"
proof -
  let ?bs = "[sample_block 11 7, sample_block 12 8, sample_block 13 7, sample_block 14 7]"
  have "\<forall>i < length ?bs. bb_Height (?bs ! i) = 10 + 1 + of_nat i"
    by code_simp
  moreover have "epoch_of 11 [sample_block 11 7, sample_block 12 8, sample_block 13 7] = \<lparr>e_Number = 0, e_StartHeight = 11, e_EndTime = 89,
     e_Nominations = [\<lparr>n_Pubkey = 7, n_NominatedCount = 3\<rparr>, \<lparr>n_Pubkey = 8, n_NominatedCount = 2\<rparr>]\<rparr>"
    by code_simp
  ultimately show ?thesis
    using watcher_epochs [OF is_iter_rev, of 3 10 ?bs 0 0] by auto
qed

end
