(* ===== verification/Watcher_Client.thy ===== *)
theory Watcher_Client
  imports Main_Watcher Main_Client CCRPC_Transfers
begin

text \<open>
  The requests of the watcher (\<open>src/watcher/rpcclient.go\<close>) and its loops (\<open>WatcherMain\<close> and
  \<open>fetchBlocks\<close> of \<open>src/watcher/watcher.go\<close>). As in \<open>Main_Client\<close> requests are counted, \<open>net k url rq\<close>
  is the answer to the \<open>k\<close>-th one, and a loop that does not end is \<open>None\<close>, as is a panic. The
  watcher itself runs on the interface \<open>main_rpc\<close>, which the client and the mocks of the tests
  implement; the locale \<open>main_node\<close> says what it relies on: heights, and blocks that stay what
  they are once they are ten deep.
\<close>

subsection \<open>Requests\<close>

datatype w_request = W_BlockCount | W_BlockHash i64 | W_Block string | W_Tx string string | W_CC i64 i64
  | W_Epochs u64 u64 | W_CCEpochs u64 u64 | W_SmartHeight

type_synonym 'r w_net = "nat \<Rightarrow> string \<Rightarrow> w_request \<Rightarrow> 'r option"

text \<open>What \<open>json.Unmarshal\<close> makes of an answer; a decoded list is \<open>None\<close> when it is the nil slice.\<close>

record ('r, 'd) w_json =
  wj_BlockCount :: "'r \<Rightarrow> (i64 \<times> JsonRpcError option) option"
  wj_BlockNumber :: "'r \<Rightarrow> (string \<times> JsonRpcError option) option"
  wj_BlockHash :: "'r \<Rightarrow> (string \<times> JsonRpcError option) option"
  wj_Block :: "'r \<Rightarrow> (w_BlockInfo \<times> JsonRpcError option) option"
  wj_Tx :: "'r \<Rightarrow> (TxInfo \<times> JsonRpcError option) option"
  wj_Message :: "'r \<Rightarrow> 'r option"
  wj_Epochs :: "'r \<Rightarrow> Epoch list option option"
  wj_CCEpochs :: "'r \<Rightarrow> CCEpoch list option option"
  wj_Error :: "'r \<Rightarrow> bool \<times> JsonRpcError option"
  wj_Responses :: "'r \<Rightarrow> JsonRpcError option \<Rightarrow> 'd CCrpcResponses option"
  wj_garbage :: "string \<Rightarrow> int"

definition w_sendRequest :: "'r w_net \<Rightarrow> RpcClientImp \<Rightarrow> nat \<Rightarrow> w_request \<Rightarrow> 'r option \<times> nat" where
  "w_sendRequest net client k rq = (net k (cl_url client) rq, k + 1)"

definition w_getCurrHeight :: "('r, 'd) w_json \<Rightarrow> 'r w_net \<Rightarrow> RpcClientImp \<Rightarrow> nat \<Rightarrow> i64 \<times> RpcClientImp \<times> nat" where
  "w_getCurrHeight J net client k =
     (let (resp, k) = w_sendRequest net client k W_BlockCount
      in case Option.bind resp (wj_BlockCount J) of
           None \<Rightarrow> (-1, client\<lparr>cl_err := True\<rparr>, k)
         | Some (result, e) \<Rightarrow> (result, client\<lparr>cl_err := is_failure e\<rparr>, k))"

definition w_netSmartHeight :: "('r, 'd) w_json \<Rightarrow> 'r w_net \<Rightarrow> RpcClientImp \<Rightarrow> nat \<Rightarrow> i64 \<times> RpcClientImp \<times> nat" where
  "w_netSmartHeight J net client k =
     (let (resp, k) = w_sendRequest net client k W_SmartHeight
      in case Option.bind resp (wj_BlockNumber J) of
           None \<Rightarrow> (-1, client\<lparr>cl_err := True\<rparr>, k)
         | Some (result, e) \<Rightarrow>
             if is_failure e then (-1, client\<lparr>cl_err := True\<rparr>, k)
             else (big_Int64 (case big_SetString result of None \<Rightarrow> wj_garbage J result | Some z \<Rightarrow> z),
               client\<lparr>cl_err := False\<rparr>, k))"

definition w_GetMainnetHeight :: "('r, 'd) w_json \<Rightarrow> 'r w_net \<Rightarrow> RpcClientImp option \<Rightarrow> nat \<Rightarrow> (i64 \<times> RpcClientImp \<times> nat) option" where
  "w_GetMainnetHeight J net client k = do { client \<leftarrow> client; ask_height (w_getCurrHeight J net) client k }"

definition w_NetworkSmartHeight :: "('r, 'd) w_json \<Rightarrow> 'r w_net \<Rightarrow> RpcClientImp option \<Rightarrow> nat \<Rightarrow> (i64 \<times> RpcClientImp \<times> nat) option" where
  "w_NetworkSmartHeight J net client k = do { client \<leftarrow> client; ask_height (w_netSmartHeight J net) client k }"

text \<open>Blocks; \<open>Inl\<close> is an error.\<close>

definition getBlockHashOfHeight :: "('r, 'd) w_json \<Rightarrow> 'r w_net \<Rightarrow> RpcClientImp \<Rightarrow> i64 \<Rightarrow> nat \<Rightarrow> (unit + string) \<times> nat" where
  "getBlockHashOfHeight J net client height k =
     (let (resp, k) = w_sendRequest net client k (W_BlockHash height)
      in (case Option.bind resp (wj_BlockHash J) of
            None \<Rightarrow> Inl ()
          | Some (result, e) \<Rightarrow> if is_failure e then Inl () else Inr result, k))"

definition getBlock :: "('r, 'd) w_json \<Rightarrow> 'r w_net \<Rightarrow> RpcClientImp \<Rightarrow> string \<Rightarrow> nat \<Rightarrow> (unit + w_BlockInfo) \<times> nat" where
  "getBlock J net client hash k =
     (let (resp, k) = w_sendRequest net client k (W_Block hash)
      in (case Option.bind resp (wj_Block J) of
            None \<Rightarrow> Inl ()
          | Some (bi, e) \<Rightarrow> if is_failure e then Inl ()
              else Inr (if wi_Tx bi = [] \<and> wi_RawTx bi \<noteq> [] then bi\<lparr>wi_Tx := wi_RawTx bi\<rparr> else bi), k))"

definition client_getBCHBlock :: "('r, 'd) w_json \<Rightarrow> 'r w_net \<Rightarrow> RpcClientImp \<Rightarrow> string \<Rightarrow> nat \<Rightarrow> ((unit + BCHBlock) \<times> nat) option" where
  "client_getBCHBlock J net client hash k =
     (case getBlock J net client hash k of
        (Inl _, k) \<Rightarrow> Some (Inl (), k)
      | (Inr bi, k) \<Rightarrow> map_option (\<lambda>r. (r, k)) (getBCHBlock bi))"

text \<open>The first loop of \<open>GetBlockByHeight\<close>, \<open>Inl\<close> when it returns no block, and the second one.\<close>

partial_function (option) ask_hash ::
  "(nat \<Rightarrow> (unit + string) \<times> nat) \<Rightarrow> bool \<Rightarrow> nat \<Rightarrow> ((unit + string) \<times> nat) option" where
  "ask_hash get retry k = (case get k of
       (Inl _, k) \<Rightarrow> if retry then ask_hash get retry k else Some (Inl (), k)
     | (Inr hash, k) \<Rightarrow> if hash = [] then ask_hash get retry k else Some (Inr hash, k))"

partial_function (option) ask_block ::
  "(nat \<Rightarrow> ((unit + BCHBlock) \<times> nat) option) \<Rightarrow> bool \<Rightarrow> nat \<Rightarrow> (BCHBlock option \<times> nat) option" where
  "ask_block get retry k = do {
     (r, k) \<leftarrow> get k;
     (case r of
        Inr blk \<Rightarrow> Some (Some blk, k)
      | Inl _ \<Rightarrow> if retry then ask_block get retry k else Some (None, k)) }"

definition GetBlockByHeight :: "('r, 'd) w_json \<Rightarrow> 'r w_net \<Rightarrow> RpcClientImp \<Rightarrow> i64 \<Rightarrow> bool \<Rightarrow> nat \<Rightarrow> (BCHBlock option \<times> nat) option" where
  "GetBlockByHeight J net client height retry k = do {
     (r, k) \<leftarrow> ask_hash (getBlockHashOfHeight J net client height) retry k;
     (case r of
        Inl _ \<Rightarrow> Some (None, k)
      | Inr hash \<Rightarrow> ask_block (client_getBCHBlock J net client hash) retry k) }"

definition getTx :: "('r, 'd) w_json \<Rightarrow> 'r w_net \<Rightarrow> RpcClientImp \<Rightarrow> string \<Rightarrow> string \<Rightarrow> nat \<Rightarrow> (TxInfo option \<times> bool) \<times> nat" where
  "getTx J net client hash blockhash k =
     (let (resp, k) = w_sendRequest net client k (W_Tx hash blockhash)
      in (case Option.bind resp (wj_Tx J) of
            None \<Rightarrow> (None, True)
          | Some (ti, e) \<Rightarrow> (Some ti, is_failure e), k))"

text \<open>Epochs of another smart-chain node.\<close>

definition getEpochs :: "('r, 'd) w_json \<Rightarrow> 'r w_net \<Rightarrow> RpcClientImp \<Rightarrow> u64 \<Rightarrow> u64 \<Rightarrow> nat \<Rightarrow> Epoch list option \<times> RpcClientImp \<times> nat" where
  "getEpochs J net client start last' k =
     (let (resp, k) = w_sendRequest net client k (W_Epochs start last')
      in case do { r \<leftarrow> resp; m \<leftarrow> wj_Message J r; wj_Epochs J m } of
           None \<Rightarrow> (None, client\<lparr>cl_err := True\<rparr>, k)
         | Some epochs \<Rightarrow> (epochs, client\<lparr>cl_err := False\<rparr>, k))"

definition GetEpochs :: "('r, 'd) w_json \<Rightarrow> 'r w_net \<Rightarrow> RpcClientImp option \<Rightarrow> u64 \<Rightarrow> u64 \<Rightarrow> nat \<Rightarrow> Epoch list option \<times> nat" where
  "GetEpochs J net client start last' k = (case client of
       None \<Rightarrow> (None, k)
     | Some client \<Rightarrow> (case getEpochs J net client start last' k of (epochs, _, k) \<Rightarrow> (epochs, k)))"

definition GetCCEpochs :: "('r, 'd) w_json \<Rightarrow> 'r w_net \<Rightarrow> RpcClientImp \<Rightarrow> u64 \<Rightarrow> u64 \<Rightarrow> nat \<Rightarrow> CCEpoch list option \<times> RpcClientImp \<times> nat" where
  "GetCCEpochs J net client start last' k =
     (let (resp, k) = w_sendRequest net client k (W_CCEpochs start last')
      in case do { r \<leftarrow> resp; m \<leftarrow> wj_Message J r; wj_CCEpochs J m } of
           None \<Rightarrow> (None, client\<lparr>cl_err := True\<rparr>, k)
         | Some epochs \<Rightarrow> (epochs, client\<lparr>cl_err := False\<rparr>, k))"

text \<open>Transfers; unlike \<open>decode_transfer\<close> the end of the epoch is not copied into them.\<close>

definition w_decode_transfer :: "'d CCrpcEpoch \<Rightarrow> 'd CCrpcResponse \<Rightarrow> 'd CCrpcEpoch option" where
  "w_decode_transfer ccepoch cci = do {
     ptx \<leftarrow> hex_DecodeString (rs_TxID cci);
     pk \<leftarrow> hex_DecodeString (rs_Hexpubkey cci);
     Some (ccepoch\<lparr>ce_TransferInfos := ce_TransferInfos ccepoch @ [\<lparr>
       ti_Height = rs_Height cci,
       ti_TxID = be_val (copy_to (replicate 32 0) ptx),
       ti_SenderPubkey = be_val (copy_to (replicate 33 0) pk),
       ti_Amount = rs_Amount cci,
       ti_EpochEndHeight = 0,
       ti_EpochEndBlockTime = 0,
       ti_ApplicationHeight = 0,
       ti_Receiver = 0\<rparr>]\<rparr>) }"

definition DO_getCC :: "('r, 'd) w_json \<Rightarrow> i64 \<Rightarrow> i64 \<Rightarrow> 'r \<Rightarrow> 'd CCrpcEpoch option" where
  "DO_getCC J first lst respData =
     (let (iserr, e) = wj_Error J respData in
      if iserr \<and> is_failure e then None
      else do {
        ccResponses \<leftarrow> wj_Responses J respData e;
        foldM w_decode_transfer \<lparr>ce_FirstHeight = first, ce_LastHeight = lst,
          ce_EpochEndBlockTime = rs_EpochEndBlockTime ccResponses, ce_EEBTSmartHeight = 0,
          ce_TransferInfos = []\<rparr> (rs_CC ccResponses) })"

definition getCC :: "('r, 'd) w_json \<Rightarrow> 'r w_net \<Rightarrow> RpcClientImp \<Rightarrow> i64 \<Rightarrow> i64 \<Rightarrow> nat \<Rightarrow> 'd CCrpcEpoch option \<times> nat" where
  "getCC J net client first lst k =
     (let (resp, k) = w_sendRequest net client k (W_CC first lst) in (Option.bind resp (DO_getCC J first lst), k))"

definition FetchCC :: "('r, 'd) w_json \<Rightarrow> 'r w_net \<Rightarrow> RpcClientImp \<Rightarrow> i64 \<Rightarrow> i64 \<Rightarrow> nat \<Rightarrow> 'd CCrpcEpoch option \<times> nat" where
  "FetchCC J net client first lst k = getCC J net client first lst k"

subsection \<open>The loops of the watcher\<close>

record main_rpc =
  mr_Height :: "nat \<Rightarrow> (i64 \<times> nat) option"
  mr_Block :: "i64 \<Rightarrow> nat \<Rightarrow> (BCHBlock option \<times> nat) option"

definition node_rpc :: "('r, 'd) w_json \<Rightarrow> 'r w_net \<Rightarrow> RpcClientImp \<Rightarrow> main_rpc" where
  "node_rpc J net client = \<lparr>
     mr_Height = (\<lambda>k. map_option (\<lambda>(h, _, k). (h, k)) (w_GetMainnetHeight J net (Some client) k)),
     mr_Block = (\<lambda>height k. GetBlockByHeight J net client height True k)\<rparr>"

text \<open>The watcher with its flag, and the channel on which it reports that it has caught up.\<close>

record watch_state =
  wa_watcher :: Watcher
  wa_catchup :: bool
  wa_sent :: nat
  wa_closed :: bool

text \<open>Sending on a closed channel panics.\<close>

definition send_catchup :: "watch_state \<Rightarrow> watch_state option" where
  "send_catchup s = (if wa_closed s then None else Some (s\<lparr>wa_sent := wa_sent s + 1\<rparr>))"

definition report_catchup :: "watch_state \<Rightarrow> watch_state option" where
  "report_catchup s = do { s \<leftarrow> send_catchup (s\<lparr>wa_catchup := True\<rparr>); Some (s\<lparr>wa_closed := True\<rparr>) }"

text \<open>The inner loop; without a height the watcher has left for good.\<close>

partial_function (option) fetch_finalized ::
  "main_rpc \<Rightarrow> bytes32 iter \<Rightarrow> i64 \<Rightarrow> watch_state \<Rightarrow> i64 \<Rightarrow> i64 \<Rightarrow> nat \<Rightarrow> (watch_state \<times> (i64 \<times> nat) option) option" where
  "fetch_finalized R it ccrpcMainStart s latestFinalized latestMainnet k =
     (if sint (latestFinalized + 9) \<le> sint latestMainnet then do {
        (blk, k) \<leftarrow> mr_Block R latestFinalized k;
        s \<leftarrow> (if blk = None then send_catchup s else Some s);
        r \<leftarrow> fetch_block it ccrpcMainStart (wa_watcher s) latestFinalized blk;
        (case r of
           Inl w \<Rightarrow> do { s \<leftarrow> (if wa_catchup s then Some s else report_catchup s); Some (s, None) }
         | Inr (w, height) \<Rightarrow> fetch_finalized R it ccrpcMainStart (s\<lparr>wa_watcher := w\<rparr>) height latestMainnet k) }
      else Some (s, Some (latestFinalized, k)))"

definition check_catchup :: "main_rpc \<Rightarrow> watch_state \<Rightarrow> i64 \<Rightarrow> i64 \<Rightarrow> nat \<Rightarrow> (watch_state \<times> nat) option" where
  "check_catchup R s latestFinalized latestMainnet k =
     (if \<not> wa_catchup s \<and> sint latestMainnet \<le> sint (latestFinalized + 9) then do {
        (latestMainnet, k) \<leftarrow> mr_Height R k;
        s \<leftarrow> (if sint latestMainnet \<le> sint (latestFinalized + 9) then report_catchup s else Some s);
        Some (s, k) }
      else Some (s, k))"

partial_function (option) fetchBlocks ::
  "main_rpc \<Rightarrow> bytes32 iter \<Rightarrow> i64 \<Rightarrow> watch_state \<Rightarrow> i64 \<Rightarrow> i64 \<Rightarrow> nat \<Rightarrow> watch_state option" where
  "fetchBlocks R it ccrpcMainStart s latestFinalized latestMainnet k = do {
     (s, k) \<leftarrow> check_catchup R s latestFinalized latestMainnet k;
     (latestMainnet, k) \<leftarrow> mr_Height R k;
     if sint latestMainnet < sint (latestFinalized + 1 + 9)
     then fetchBlocks R it ccrpcMainStart s latestFinalized latestMainnet k
     else do {
       (s, r) \<leftarrow> fetch_finalized R it ccrpcMainStart s (latestFinalized + 1) latestMainnet k;
       (case r of
          None \<Rightarrow> Some s
        | Some (height, k) \<Rightarrow> fetchBlocks R it ccrpcMainStart s (height - 1) latestMainnet k) } }"

text \<open>The client is the nil client, a node, or a mock that may ask to be watched.\<close>

datatype watch_client = NilClient | NodeClient main_rpc | MockClient main_rpc bool

definition WatcherMain :: "watch_client \<Rightarrow> bytes32 iter \<Rightarrow> bool \<Rightarrow> CCEpoch list option list \<Rightarrow> Epoch list option list \<Rightarrow>
    i64 \<Rightarrow> i64 \<Rightarrow> Watcher \<Rightarrow> nat \<Rightarrow> watch_state option" where
  "WatcherMain client it Speedup ccs replies CCRPCForkBlock ccrpcMainStart w k =
     (let s = \<lparr>wa_watcher = w, wa_catchup = False, wa_sent = 0, wa_closed = False\<rparr>;
          run = (\<lambda>R. do {
            (latestMainnet, k) \<leftarrow> mr_Height R k;
            (w, latestFinalized) \<leftarrow> epochSpeedup Speedup ccs replies w (latestFinalizedHeight w) latestMainnet;
            fetchBlocks R it ccrpcMainStart (s\<lparr>wa_watcher := w\<rparr>) latestFinalized latestMainnet k })
      in if CCRPCForkBlock = 0 then send_catchup s
         else case client of
           NilClient \<Rightarrow> send_catchup s
         | NodeClient R \<Rightarrow> run R
         | MockClient R doWatch \<Rightarrow> if doWatch then run R else send_catchup s)"

definition CheckMainnet :: "('r, 'd) w_json \<Rightarrow> 'r w_net \<Rightarrow> RpcClientImp option \<Rightarrow> nat \<Rightarrow> unit option" where
  "CheckMainnet J net client k =
     (if \<not> IsConnected client then None
      else do { (latestHeight, _, _) \<leftarrow> w_GetMainnetHeight J net client k; if sint latestHeight < 0 then None else Some () })"

subsection \<open>What the watcher relies on\<close>

locale main_node =
  fixes R :: main_rpc and tip :: "nat \<Rightarrow> i64" and chain :: "i64 \<Rightarrow> BCHBlock"
  assumes height: "\<exists>j \<ge> k. tip j \<noteq> -1 \<and> mr_Height R k = Some (tip j, j + 1)"
    and deep: "j < k \<Longrightarrow> sint (x + 9) \<le> sint (tip j) \<Longrightarrow> \<exists>k' \<ge> k. mr_Block R x k = Some (Some (chain x), k')"
    and at_height: "bb_Height (chain x) = x"

text \<open>The first \<open>n\<close> blocks above \<open>h\<close>.\<close>

definition blocks_above :: "(i64 \<Rightarrow> BCHBlock) \<Rightarrow> i64 \<Rightarrow> nat \<Rightarrow> BCHBlock list" where
  "blocks_above chain h n = map (\<lambda>i. chain (h + 1 + of_nat i)) [0..<n]"

definition watching :: "nat \<Rightarrow> i64 \<Rightarrow> (i64 \<Rightarrow> BCHBlock) \<Rightarrow> nat \<Rightarrow> watch_state \<Rightarrow> bool" where
  "watching N h chain n s \<longleftrightarrow> watch_inv N h (blocks_above chain h n) (wa_watcher s) \<and> wa_closed s = wa_catchup s \<and>
     wa_sent s = of_bool (wa_catchup s)"

lemma report_catchup_watching:
  "watching N h chain n s \<Longrightarrow> \<not> wa_catchup s \<Longrightarrow> \<exists>s'. report_catchup s = Some s' \<and> watching N h chain n s' \<and> wa_catchup s'"
  by (auto simp: report_catchup_def send_catchup_def watching_def)

lemma blocks_above_Suc: "blocks_above chain h (Suc n) = blocks_above chain h n @ [chain (h + 1 + of_nat n)]"
  by (simp add: blocks_above_def)

context main_node
begin

lemma next_block:
  assumes "is_iter it" and "0 < N" "N < 2 ^ 63" and "0 \<le> sint h" "sint h + int n + 1 < 2 ^ 63" and "watching N h chain n s"
  shows "\<exists>w. addFinalizedBlock it (wa_watcher s) (chain (h + 1 + of_nat n)) = Some w \<and> watching N h chain (Suc n) (s\<lparr>wa_watcher := w\<rparr>)"
proof -
  let ?b = "chain (h + 1 + of_nat n)"
  have len: "length (blocks_above chain h n) = n" by (simp add: blocks_above_def)
  have "sint h + int (length (blocks_above chain h n)) + 1 < 2 ^ 63" using assms(5) len by simp
  moreover have "bb_Height ?b = h + 1 + of_nat (length (blocks_above chain h n))" using len at_height by simp
  ultimately have "\<exists>w. addFinalizedBlock it (wa_watcher s) ?b = Some w \<and> watch_inv N h (blocks_above chain h n @ [?b]) w"
    using watch_step [OF assms(1-4)] assms(6) by (simp add: watching_def)
  then show ?thesis using assms(6) by (auto simp: watching_def blocks_above_Suc)
qed

lemma fetch_finalized_run:
  assumes it: "is_iter it" and N: "0 < N" "N < 2 ^ 63" and h: "0 \<le> sint h" "sint h + int m + 10 < 2 ^ 63"
    and "watching N h chain n s" and "n \<le> m" and "j < k"
  shows "if sint (h + 1 + of_nat m) + 9 \<le> sint (tip j)
    then \<exists>s'. fetch_finalized R it (h + 1 + of_nat m) s (h + 1 + of_nat n) (tip j) k = Some (s', None) \<and> watching N h chain m s' \<and> wa_catchup s'
    else \<exists>s' n' k'. fetch_finalized R it (h + 1 + of_nat m) s (h + 1 + of_nat n) (tip j) k = Some (s', Some (h + 1 + of_nat n', k')) \<and>
      watching N h chain n' s' \<and> n' \<le> m \<and> k \<le> k'"
  using assms(6-)
proof (induction "m - n" arbitrary: n s k)
  case (0 n s k)
  then have n: "n = m" by simp
  have S: "sint (h + 1 + of_nat m + 9) = sint (h + 1 + of_nat m) + 9"
    using sint_add_nat [of h "Suc m"] sint_add_nat [of h "m + 10"] h by (simp add: algebra_simps)
  show ?case
  proof (cases "sint (h + 1 + of_nat m) + 9 \<le> sint (tip j)")
    case True
    then obtain k' where k': "mr_Block R (h + 1 + of_nat m) k = Some (Some (chain (h + 1 + of_nat m)), k')"
      using deep [OF 0(4)] S by metis
    have "\<exists>s'. (if wa_catchup s then Some s else report_catchup s) = Some s' \<and> watching N h chain m s' \<and> wa_catchup s'"
      using report_catchup_watching [of N h chain m s] 0(2) n by (cases "wa_catchup s") auto
    then show ?thesis using True k' n S
      by (subst (1) fetch_finalized.simps) (auto simp: fetch_block_def)
  next
    case False
    then show ?thesis using 0(2) n S by (subst (1) fetch_finalized.simps) auto
  qed
next
  case (Suc d n s k)
  then have n: "n < m" by simp
  have S: "sint (h + 1 + of_nat n + 9) = sint h + int n + 10" "sint (h + 1 + of_nat n) = sint h + int n + 1" "sint (h + 1 + of_nat m) = sint h + int m + 1"
    using sint_add_nat [of h "Suc n"] sint_add_nat [of h "n + 10"] sint_add_nat [of h "Suc m"] h n by (simp_all add: algebra_simps)
  show ?case
  proof (cases "sint (h + 1 + of_nat n + 9) \<le> sint (tip j)")
    case True
    then obtain k' where k': "mr_Block R (h + 1 + of_nat n) k = Some (Some (chain (h + 1 + of_nat n)), k')" "k \<le> k'"
      using deep [OF Suc(5)] by blast
    obtain w where w: "addFinalizedBlock it (wa_watcher s) (chain (h + 1 + of_nat n)) = Some w" "watching N h chain (Suc n) (s\<lparr>wa_watcher := w\<rparr>)"
      using next_block [OF it N h(1) _ Suc(3)] h(2) n by auto
    have nxt: "h + 1 + of_nat (Suc n) = h + 1 + of_nat n + 1" by simp
    have "fetch_finalized R it (h + 1 + of_nat m) s (h + 1 + of_nat n) (tip j) k =
        fetch_finalized R it (h + 1 + of_nat m) (s\<lparr>wa_watcher := w\<rparr>) (h + 1 + of_nat (Suc n)) (tip j) k'"
      using True k'(1) w(1) S n unfolding nxt by (subst (1) fetch_finalized.simps) (simp add: fetch_block_def)
    moreover have "d = m - Suc n" "Suc n \<le> m" "j < k'" using Suc(2,5) n k'(2) by auto
    ultimately show ?thesis using Suc(1) [of "Suc n" "s\<lparr>wa_watcher := w\<rparr>" k'] w(2) le_trans [OF k'(2)]
      by (cases "sint (h + 1 + of_nat m) + 9 \<le> sint (tip j)") (simp_all only: if_True if_False, blast+)
  next
    case False
    moreover from this have "\<not> sint (h + 1 + of_nat m) + 9 \<le> sint (tip j)" using S n by simp
    moreover have "fetch_finalized R it (h + 1 + of_nat m) s (h + 1 + of_nat n) (tip j) k = Some (s, Some (h + 1 + of_nat n, k))"
      using False by (subst (1) fetch_finalized.simps) simp
    ultimately show ?thesis using Suc(3) n by auto
  qed
qed

lemma check_catchup_run:
  assumes "watching N h chain n s"
  shows "\<exists>s' k'. check_catchup R s f m k = Some (s', k') \<and> watching N h chain n s' \<and> k \<le> k'"
proof -
  obtain j where j: "k \<le> j" "mr_Height R k = Some (tip j, j + 1)" using height by blast
  show ?thesis
  proof (cases "wa_catchup s")
    case False
    then obtain s' where "report_catchup s = Some s'" "watching N h chain n s'" using report_catchup_watching [OF assms] by blast
    then show ?thesis using assms j False by (simp add: check_catchup_def)
  qed (use assms in \<open>simp add: check_catchup_def\<close>)
qed

lemma fetchBlocks_run:
  assumes it: "is_iter it" and N: "0 < N" "N < 2 ^ 63" and h: "0 \<le> sint h" "sint h + int m + 10 < 2 ^ 63"
    and eventually: "\<And>k. k0 \<le> k \<Longrightarrow> tip k \<noteq> -1 \<Longrightarrow> sint (h + 1 + of_nat m) + 9 \<le> sint (tip k)"
    and "watching N h chain n s" and "n \<le> m"
  shows "\<exists>s'. fetchBlocks R it (h + 1 + of_nat m) s (h + of_nat n) main k = Some s' \<and> watching N h chain m s' \<and> wa_catchup s'"
  using assms(7,8)
proof (induction "k0 - k" arbitrary: n s main k rule: less_induct)
  case less
  obtain s1 k1 where s1: "check_catchup R s (h + of_nat n) main k = Some (s1, k1)" "watching N h chain n s1" "k \<le> k1"
    using check_catchup_run [OF less(2)] by blast
  obtain j where j: "k1 \<le> j" "mr_Height R k1 = Some (tip j, j + 1)" "tip j \<noteq> -1" using height by blast
  have S: "sint (h + of_nat n + 1 + 9) = sint h + int n + 10" "sint (h + 1 + of_nat m) = sint h + int m + 1" "h + of_nat n + 1 = h + 1 + of_nat n"
    using sint_add_nat [of h "n + 10"] sint_add_nat [of h "Suc m"] h less(3) by (simp_all add: algebra_simps)
  have again: "k0 - (j + 1) < k0 - k" if "\<not> sint (h + 1 + of_nat m) + 9 \<le> sint (tip j)"
    using eventually [of j] that s1(3) j(1,3) by (cases "k0 \<le> j") auto
  show ?case
  proof (cases "sint (tip j) < sint (h + of_nat n + 1 + 9)")
    case True
    then have "\<not> sint (h + 1 + of_nat m) + 9 \<le> sint (tip j)" using S less(3) by simp
    from less(1) [OF again [OF this] s1(2) less(3), of "tip j"] show ?thesis
      using True s1(1) j(2) by (subst (1) fetchBlocks.simps) simp
  next
    case False
    note fin = fetch_finalized_run [OF it N h s1(2) less(3), of j "j + 1"]
    have round: "fetchBlocks R it (h + 1 + of_nat m) s (h + of_nat n) main k =
      fetch_finalized R it (h + 1 + of_nat m) s1 (h + 1 + of_nat n) (tip j) (j + 1) \<bind>
        (\<lambda>(s, r). case r of None \<Rightarrow> Some s | Some (height, k) \<Rightarrow> fetchBlocks R it (h + 1 + of_nat m) s (height - 1) (tip j) k)"
      using False s1(1) j(2) unfolding S(3) [symmetric] by (subst (1) fetchBlocks.simps) simp
    show ?thesis
    proof (cases "sint (h + 1 + of_nat m) + 9 \<le> sint (tip j)")
      case True
      then show ?thesis unfolding round using fin by auto
    next
      case notyet: False
      then obtain s2 n' k' where s2: "fetch_finalized R it (h + 1 + of_nat m) s1 (h + 1 + of_nat n) (tip j) (j + 1) = Some (s2, Some (h + 1 + of_nat n', k'))"
        "watching N h chain n' s2" "n' \<le> m" "j + 1 \<le> k'"
        using fin by auto
      have "k0 - k' < k0 - k" using again [OF notyet] s2(4) by linarith
      moreover have "h + 1 + of_nat n' - 1 = h + of_nat n'" by simp
      ultimately show ?thesis unfolding round using less(1) [of k' n' s2 "tip j"] s2 by simp
    qed
  qed
qed

end

subsection \<open>A node behind the client\<close>

definition w_height_at :: "('r, 'd) w_json \<Rightarrow> 'r w_net \<Rightarrow> string \<Rightarrow> nat \<Rightarrow> i64" where
  "w_height_at J net url k = (case Option.bind (net k url W_BlockCount) (wj_BlockCount J) of None \<Rightarrow> -1 | Some (result, _) \<Rightarrow> result)"

interpretation wmh: height_source "w_getCurrHeight J net" "w_height_at J net" for J net
  by unfold_locales (auto simp: w_getCurrHeight_def w_sendRequest_def w_height_at_def split: option.split)

lemma ask_hash_returns:
  assumes "\<And>i. k \<le> i \<Longrightarrow> get i \<in> {(Inl (), i + 1), (Inr [], i + 1), (Inr hash, i + 1)}" and "hash \<noteq> []"
    and "k \<le> j" and "get j = (Inr hash, j + 1)"
  shows "\<exists>k' > k. ask_hash get True k = Some (Inr hash, k')"
  using assms
proof (induction "j - k" arbitrary: k)
  case 0
  then have "get k = (Inr hash, k + 1)" by simp
  then show ?case using assms(2) by (subst ask_hash.simps) auto
next
  case (Suc d)
  have "k < j" using Suc(2) by simp
  then have "\<exists>k' > k + 1. ask_hash get True (k + 1) = Some (Inr hash, k')" using Suc by auto
  then have "\<exists>k' > k. ask_hash get True (k + 1) = Some (Inr hash, k')" by (meson add_lessD1)
  moreover have "get k \<in> {(Inl (), k + 1), (Inr [], k + 1), (Inr hash, k + 1)}" using Suc(3) by simp
  ultimately show ?case using Suc(2) assms(2) by (subst ask_hash.simps) auto
qed

lemma ask_block_returns:
  assumes "\<And>i. k \<le> i \<Longrightarrow> get i \<in> {Some (Inl (), i + 1), Some (Inr blk, i + 1)}"
    and "k \<le> j" and "get j = Some (Inr blk, j + 1)"
  shows "\<exists>k' > k. ask_block get True k = Some (Some blk, k')"
  using assms
proof (induction "j - k" arbitrary: k)
  case 0
  then have "get k = Some (Inr blk, k + 1)" by simp
  then show ?case by (subst ask_block.simps) auto
next
  case (Suc d)
  have "k < j" using Suc(2) by simp
  then have "\<exists>k' > k + 1. ask_block get True (k + 1) = Some (Some blk, k')" using Suc by auto
  then have "\<exists>k' > k. ask_block get True (k + 1) = Some (Some blk, k')" by (meson add_lessD1)
  moreover have "get k \<in> {Some (Inl (), k + 1), Some (Inr blk, k + 1)}" using Suc(3) by simp
  ultimately show ?case using Suc(2) by (subst ask_block.simps) auto
qed

text \<open>
  A node that can be asked again and again, and that answers questions about blocks ten below a
  height it has told either with an error or with the block of its chain.
\<close>

locale finalizing_net =
  fixes J :: "('r, 'd) w_json" and net :: "'r w_net" and client :: RpcClientImp and chain :: "i64 \<Rightarrow> BCHBlock" and hash_of :: "i64 \<Rightarrow> string"
    and known :: "i64 \<Rightarrow> nat \<Rightarrow> bool"
  assumes known: "known x k \<longleftrightarrow> (\<exists>j < k. sint (x + 9) \<le> sint (w_height_at J net (cl_url client) j))"
    and asked: "\<exists>j \<ge> k. w_height_at J net (cl_url client) j \<noteq> -1"
    and hashes: "known x k \<Longrightarrow> getBlockHashOfHeight J net client x k \<in> {(Inl (), k + 1), (Inr [], k + 1), (Inr (hash_of x), k + 1)}"
      "known x k \<Longrightarrow> \<exists>j \<ge> k. getBlockHashOfHeight J net client x j = (Inr (hash_of x), j + 1)" "hash_of x \<noteq> []"
    and blocks: "known x k \<Longrightarrow> client_getBCHBlock J net client (hash_of x) k \<in> {Some (Inl (), k + 1), Some (Inr (chain x), k + 1)}"
      "known x k \<Longrightarrow> \<exists>j \<ge> k. client_getBCHBlock J net client (hash_of x) j = Some (Inr (chain x), j + 1)"
    and chain_height: "bb_Height (chain x) = x"
begin

lemma known_mono: "known x k \<Longrightarrow> k \<le> k' \<Longrightarrow> known x k'"
  using known by (meson less_le_trans)

lemma GetBlockByHeight_returns:
  assumes "known x k"
  shows "\<exists>k' \<ge> k. GetBlockByHeight J net client x True k = Some (Some (chain x), k')"
proof -
  obtain j where "k \<le> j" "getBlockHashOfHeight J net client x j = (Inr (hash_of x), j + 1)" using hashes(2) [OF assms] by blast
  from ask_hash_returns [OF hashes(1) [OF known_mono [OF assms]] hashes(3) this]
  obtain k1 where k1: "k < k1" "ask_hash (getBlockHashOfHeight J net client x) True k = Some (Inr (hash_of x), k1)" by blast
  have "known x k1" using assms k1(1) by (simp add: known_mono less_imp_le)
  then obtain j' where "k1 \<le> j'" "client_getBCHBlock J net client (hash_of x) j' = Some (Inr (chain x), j' + 1)" using blocks(2) by blast
  from ask_block_returns [OF blocks(1) [OF known_mono [OF \<open>known x k1\<close>]] this]
  obtain k2 where "k1 < k2" "ask_block (client_getBCHBlock J net client (hash_of x)) True k1 = Some (Some (chain x), k2)" by blast
  with k1 show ?thesis by (auto simp: GetBlockByHeight_def)
qed

end

sublocale finalizing_net \<subseteq> node: main_node "node_rpc J net client" "w_height_at J net (cl_url client)" chain
proof
  fix k
  obtain j where "k \<le> j" "w_height_at J net (cl_url client) j \<noteq> -1" using asked by blast
  from wmh.ask_height_returns [OF this] show "\<exists>j \<ge> k. w_height_at J net (cl_url client) j \<noteq> -1 \<and> mr_Height (node_rpc J net client) k = Some (w_height_at J net (cl_url client) j, j + 1)"
    by (force simp: node_rpc_def w_GetMainnetHeight_def least_from_def)
next
  fix j k and x :: i64
  assume "j < k" "sint (x + 9) \<le> sint (w_height_at J net (cl_url client) j)"
  then have "known x k" using known by blast
  then show "\<exists>k' \<ge> k. mr_Block (node_rpc J net client) x k = Some (Some (chain x), k')"
    using GetBlockByHeight_returns by (simp add: node_rpc_def)
qed (rule chain_height)

text \<open>The transfers are those of the client of \<open>src/ccrpc\<close>, except for the end of the epoch.\<close>

definition without_end :: "'d CCrpcEpoch \<Rightarrow> 'd CCrpcEpoch" where
  "without_end e = e\<lparr>ce_TransferInfos := map (\<lambda>t. t\<lparr>ti_EpochEndHeight := 0, ti_EpochEndBlockTime := 0\<rparr>) (ce_TransferInfos e)\<rparr>"

lemma w_decode_transfers: "foldM w_decode_transfer (without_end e) ccs = map_option without_end (foldM decode_transfer e ccs)"
proof (induction ccs arbitrary: e)
  case (Cons cc ccs)
  have "w_decode_transfer (without_end e) cc = map_option without_end (decode_transfer e cc)"
    by (cases e) (auto simp: w_decode_transfer_def decode_transfer_def without_end_def map_option_bind comp_def)
  then show ?case using Cons by (cases "decode_transfer e cc") simp_all
qed simp

lemma DO_getCC_DO_GetCrosschain:
  assumes "wj_Error J = JsonUnmarshalError F" and "wj_Responses J = JsonUnmarshalResponses F"
  shows "DO_getCC J first lst respData = map_option without_end (DO_GetCrosschain F first lst respData)"
proof -
  have "foldM w_decode_transfer \<lparr>ce_FirstHeight = a, ce_LastHeight = b, ce_EpochEndBlockTime = c, ce_EEBTSmartHeight = 0, ce_TransferInfos = []\<rparr> ccs =
    map_option without_end (foldM decode_transfer \<lparr>ce_FirstHeight = a, ce_LastHeight = b, ce_EpochEndBlockTime = c, ce_EEBTSmartHeight = 0, ce_TransferInfos = []\<rparr> ccs)"
    for a b c ccs
    using w_decode_transfers [of "\<lparr>ce_FirstHeight = a, ce_LastHeight = b, ce_EpochEndBlockTime = c, ce_EEBTSmartHeight = 0, ce_TransferInfos = []\<rparr>" ccs]
    by (simp add: without_end_def)
  then show ?thesis using assms
    by (auto simp: DO_getCC_def DO_GetCrosschain_def is_failure_def Let_def map_option_bind comp_def split: prod.split option.splits intro!: Option.bind_cong)
qed

subsection \<open>Properties\<close>

text \<open>
  C35: Against a node whose blocks stay what they are once they are ten deep, and whose height
  reaches ten above the start of the transfers, however often it cannot be asked before, the
  watcher ends: it has read exactly the blocks below the start, none before it was ten deep, has
  sent one epoch for every \<open>N\<close> of them, and has reported once that it caught up.
\<close>

theorem WatcherMain_completes:
  assumes "main_node R tip chain" and "is_iter it" and "0 < N" and "N < 2 ^ 63" and "CCRPCForkBlock \<noteq> 0"
    and h: "0 \<le> sint h" "sint h < sint start" "sint start + 9 < 2 ^ 63"
    and "\<And>k. k0 \<le> k \<Longrightarrow> tip k \<noteq> -1 \<Longrightarrow> sint start + 9 \<le> sint (tip k)" and m: "m = nat (sint start - sint h - 1)"
  shows "\<exists>s. WatcherMain (NodeClient R) it False ccs replies CCRPCForkBlock start ((NewWatcher h a e)\<lparr>numBlocksInEpoch := of_nat N\<rparr>) k = Some s
    \<and> wa_sent s = 1 \<and> wa_closed s \<and> latestFinalizedHeight (wa_watcher s) = start - 1
    \<and> EpochChan (wa_watcher s) = map (\<lambda>j. epoch_of (h + of_nat (j * N) + 1) (take N (drop (j * N) (map (\<lambda>i. chain (h + 1 + of_nat i)) [0..<m])))) [0..<m div N]"
proof -
  have hm: "sint h + int m + 10 < 2 ^ 63" using h m by simp
  have start: "start = h + 1 + of_nat m"
  proof -
    have "sint (h + of_nat (Suc m)) = sint start" using sint_add_nat [of h "Suc m"] h m by simp
    then show ?thesis by (simp add: sint_eq_iff algebra_simps)
  qed
  let ?w = "(NewWatcher h a e)\<lparr>numBlocksInEpoch := of_nat N\<rparr>"
  let ?s = "\<lparr>wa_watcher = ?w, wa_catchup = False, wa_sent = 0, wa_closed = False\<rparr>"
  have "watching N h chain 0 ?s"
    by (simp add: watching_def blocks_above_def watch_inv_def NewWatcher_def epochs_of_def)
  moreover obtain j where j: "mr_Height R k = Some (tip j, j + 1)" using main_node.height [OF assms(1)] by blast
  ultimately obtain s where "fetchBlocks R it start ?s h (tip j) (j + 1) = Some s" "watching N h chain m s" "wa_catchup s"
    using main_node.fetchBlocks_run [OF assms(1-4) h(1) hm, of k0 0 ?s "tip j" "j + 1"] assms(9) start by auto
  then show ?thesis using j assms(5) start
    by (auto simp: WatcherMain_def epochSpeedup_def NewWatcher_def watching_def watch_inv_def epochs_of_def blocks_above_def)
qed
text \<open>A node that can be reached every other time, at a height that grows up to 100.\<close>

datatype w_answer = A_Count i64 | A_Hash string | A_Block w_BlockInfo

definition mem_wj :: "(w_answer, u256) w_json" where
  "mem_wj = \<lparr>wj_BlockCount = (\<lambda>a. case a of A_Count n \<Rightarrow> Some (n, None) | _ \<Rightarrow> None), wj_BlockNumber = (\<lambda>_. None),
     wj_BlockHash = (\<lambda>a. case a of A_Hash h \<Rightarrow> Some (h, None) | _ \<Rightarrow> None), wj_Block = (\<lambda>a. case a of A_Block b \<Rightarrow> Some (b, None) | _ \<Rightarrow> None),
     wj_Tx = (\<lambda>_. None), wj_Message = Some, wj_Epochs = (\<lambda>_. None), wj_CCEpochs = (\<lambda>_. None), wj_Error = (\<lambda>_. (False, None)),
     wj_Responses = (\<lambda>_ _. None), wj_garbage = (\<lambda>_. 0)\<rparr>"

definition mem_w_net :: "w_answer w_net" where
  "mem_w_net k url rq = (if odd k then None else case rq of
       W_BlockCount \<Rightarrow> Some (A_Count (of_nat (min k 100)))
     | W_BlockHash x \<Rightarrow> Some (A_Hash (hex_EncodeToString (be_bytes 8 x)))
     | W_Block hash \<Rightarrow> (let x = be_val (case hex_DecodeString hash of None \<Rightarrow> [] | Some bs \<Rightarrow> bs)
         in Some (A_Block \<lparr>wi_Hash = hash, wi_Height = x, wi_Tx = [\<lparr>ti_VoutList = []\<rparr>], wi_RawTx = [], wi_Time = x, wi_PreviousBlockhash = hash\<rparr>))
     | _ \<Rightarrow> None)"

definition mem_chain :: "i64 \<Rightarrow> BCHBlock" where
  "mem_chain x = \<lparr>bb_Height = x, bb_Timestamp = x, bb_HashId = be_val (copy_to (replicate 32 0) (be_bytes 8 x)),
     bb_ParentBlk = be_val (copy_to (replicate 32 0) (be_bytes 8 x)), bb_Nominations = [], bb_CCTransferInfos = []\<rparr>"

definition mem_client :: RpcClientImp where
  "mem_client = \<lparr>cl_url = ''main'', cl_user = [], cl_password = [], cl_contentType = [], cl_err = False\<rparr>"

lemma mem_requests:
  "w_height_at mem_wj mem_w_net (cl_url mem_client) k = (if odd k then -1 else of_nat (min k 100))"
  "getBlockHashOfHeight mem_wj mem_w_net mem_client x k = (if odd k then Inl () else Inr (hex_EncodeToString (be_bytes 8 x)), k + 1)"
  "client_getBCHBlock mem_wj mem_w_net mem_client (hex_EncodeToString (be_bytes 8 x)) k = Some (if odd k then Inl () else Inr (mem_chain x), k + 1)"
  by (simp_all add: w_height_at_def getBlockHashOfHeight_def client_getBCHBlock_def getBlock_def w_sendRequest_def mem_w_net_def mem_wj_def
      is_failure_def getBCHBlock_def getNomination_def mem_chain_def hex_roundtrip be_val_be_bytes_8 Let_def)

lemma mem_hash: "hex_EncodeToString (be_bytes 8 (x :: i64)) \<noteq> []"
proof -
  have "length (be_bytes 8 x) = 8" by simp
  then obtain b bs where "be_bytes 8 x = b # bs" by (cases "be_bytes 8 x") (simp_all del: be_bytes_numeral)
  then show ?thesis by (simp add: hex_EncodeToString_def del: be_bytes_numeral)
qed

lemma next_even: "\<exists>j \<ge> (k :: nat). even j"
  by (rule exI [of _ "2 * k"]) simp

interpretation mfn: finalizing_net mem_wj mem_w_net mem_client mem_chain "\<lambda>x. hex_EncodeToString (be_bytes 8 x)"
  "\<lambda>x k. \<exists>j < k. sint (x + 9) \<le> sint (w_height_at mem_wj mem_w_net (cl_url mem_client) j)"
proof
  have "of_nat (min j 100) \<noteq> (-1 :: i64)" for j
  proof -
    have "sint (of_nat (min j 100) :: i64) = int (min j 100)" by (rule sint_of_nat_small) simp
    then have "sint (of_nat (min j 100) :: i64) \<noteq> sint (- 1 :: i64)" by simp
    then show ?thesis by metis
  qed
  then show "\<exists>j \<ge> k. w_height_at mem_wj mem_w_net (cl_url mem_client) j \<noteq> -1" for k
    using next_even [of k] by (auto simp: mem_requests)
qed (use next_even in \<open>auto simp: mem_requests mem_hash mem_chain_def simp del: be_bytes_numeral\<close>)
theorem WatcherMain_completes_witness:
  "\<exists>s. WatcherMain (NodeClient (node_rpc mem_wj mem_w_net mem_client)) rev False [] [] 5 14 ((NewWatcher 10 0 0)\<lparr>numBlocksInEpoch := of_nat 2\<rparr>) 3 = Some s
    \<and> wa_sent s = 1 \<and> wa_closed s \<and> EpochChan (wa_watcher s) = [\<lparr>e_Number = 0, e_StartHeight = 11, e_EndTime = 12, e_Nominations = []\<rparr>]"
proof -
  have tip: "sint (14 :: i64) + 9 \<le> sint (w_height_at mem_wj mem_w_net (cl_url mem_client) k)"
    if "30 \<le> k" "w_height_at mem_wj mem_w_net (cl_url mem_client) k \<noteq> -1" for k
  proof -
    have "sint (of_nat (min k 100) :: i64) = int (min k 100)" by (rule sint_of_nat_small) simp
    then show ?thesis using that by (simp add: mem_requests split: if_splits)
  qed
  have "epoch_of 11 (take 2 (drop 0 (map (\<lambda>i. mem_chain (10 + 1 + of_nat i)) [0..<3]))) = \<lparr>e_Number = 0, e_StartHeight = 11, e_EndTime = 12, e_Nominations = []\<rparr>"
    by (simp add: epoch_of_def mem_chain_def end_time_def sortEpochNominations_def numeral_3_eq_3 numeral_2_eq_2)
  then show ?thesis
    using WatcherMain_completes [OF mfn.node.main_node_axioms is_iter_rev, of 2 5 10 14 30 3 "[]" "[]" 0 0 3] tip by auto
qed

end
