(* ===== verification/RPC_Calls.thy ===== *)
theory RPC_Calls
  imports Evm_Types
begin

text \<open>
  The list of internal calls of a transaction (\<open>src/rpc/api/internal_calls.go\<close>). The EVM
  reports the calls in the order they start, each with its depth, and the returns in the order
  the calls end; \<open>buildInternalCallList\<close> pairs them up with a stack of the calls that are
  still running, and gives every call the path that leads to it.

  \<open>callList\<close> and \<open>callStack\<close> hold pointers to the same structures: the stack is a list of
  indices into the call list, bottom first. Reading past the returns, or past the bottom of
  the stack, panics.
\<close>

record InternalTx =
  it_depth :: u32
  it_count :: int
  it_CallPath :: string
  it_From :: address
  it_To :: address
  it_GasLimit :: u64
  it_Value :: int
  it_Input :: bytes
  it_StatusCode :: u64
  it_GasUsed :: u64
  it_Output :: bytes
  it_CreatedAddress :: "address option"

definition newCallSite :: "InternalTxCall \<Rightarrow> InternalTx" where
  "newCallSite call = \<lparr> it_depth = ic_Depth call, it_count = 0, it_CallPath = [],
     it_From = ic_Sender call, it_To = ic_Destination call, it_GasLimit = ic_Gas call,
     it_Value = uint (ic_Value call), it_Input = ic_Input call, it_StatusCode = 0,
     it_GasUsed = 0, it_Output = [], it_CreatedAddress = None \<rparr>"

definition addRetInfo :: "InternalTx \<Rightarrow> InternalTxReturn \<Rightarrow> InternalTx" where
  "addRetInfo cs ret =
     (let cs1 = cs\<lparr> it_StatusCode := word_of_int (ir_StatusCode ret),
                    it_GasUsed := it_GasLimit cs - ir_GasLeft ret,
                    it_Output := ir_Output ret \<rparr>
      in if \<not> isZeroAddress (ir_CreateAddress ret)
         then cs1\<lparr> it_CreatedAddress := Some (ir_CreateAddress ret) \<rparr> else cs1)"

definition getCallType :: "int \<Rightarrow> u32 \<Rightarrow> string" where
  "getCallType kind flags =
     (if flags = 1 then ''staticcall''
      else if kind = 0 then ''call''
      else if kind = 1 then ''delegatecall''
      else if kind = 2 then ''callcode''
      else if kind = 3 then ''create''
      else if kind = 4 then ''create2''
      else ''call'')"

fun getCallPath :: "InternalTx list \<Rightarrow> string" where
  "getCallPath [] = []"
| "getCallPath (call # cs) = CHR ''_'' # itoa (it_count call) @ getCallPath cs"

text \<open>
  The state of the loop: the list built so far, the stack and the returns that are left. The
  last entry of the list is the call at hand.
\<close>

type_synonym build_state = "InternalTx list \<times> nat list \<times> InternalTxReturn list"

text \<open>\<open>callStack = append(callStack, callSite)\<close> and the path of the call at hand.\<close>

definition push_call :: "InternalTxCall \<Rightarrow> build_state \<Rightarrow> build_state" where
  "push_call call st = (case st of (L, stk, rets) \<Rightarrow>
     (let i = length L - 1; stk1 = stk @ [i]
      in (L[i := (L ! i)\<lparr> it_CallPath := getCallType (ic_Kind call) (ic_Flags call)
                            @ getCallPath (map (\<lambda>j. L ! j) stk1) \<rparr>], stk1, rets)))"

text \<open>The loop over the calls that have returned; \<open>k\<close> is what is left of it, \<open>n - j\<close>.\<close>

fun pop_calls :: "nat \<Rightarrow> nat \<Rightarrow> build_state \<Rightarrow> build_state option" where
  "pop_calls k lst (L, stk, rets) =
     (let i = length L - 1;
          L1 = (if k = 0 then L[i := (L ! i)\<lparr> it_count := it_count (L ! lst) + 1 \<rparr>] else L)
      in case rets of
           [] \<Rightarrow> None
         | ret # rets1 \<Rightarrow>
             (let L2 = L1[lst := addRetInfo (L1 ! lst) ret]; stk1 = butlast stk
              in if stk1 = [] then None
                 else if k = 0 then Some (L2, stk1, rets1)
                 else pop_calls (k - 1) (List.last stk1) (L2, stk1, rets1)))"

declare pop_calls.simps [simp del]

definition call_step :: "build_state \<Rightarrow> InternalTxCall \<Rightarrow> build_state option" where
  "call_step st call = (case st of (L, stk, rets) \<Rightarrow>
     (let L1 = L @ [newCallSite call]
      in if stk = [] then Some (push_call call (L1, stk, rets))
         else let lst = List.last stk; d = it_depth (L1 ! lst)
              in if ic_Depth call = d + 1 then Some (push_call call (L1, stk, rets))
                 else if sint (ic_Depth call) \<le> sint d
                 then (let n = sint (d - ic_Depth call)
                       in map_option (push_call call)
                            (if n < 0 then Some (L1, stk, rets) else pop_calls (nat n) lst (L1, stk, rets)))
                 else Some (L1, stk, rets)))"

fun drain_calls :: "nat list \<Rightarrow> InternalTx list \<Rightarrow> InternalTxReturn list \<Rightarrow> InternalTx list option" where
  "drain_calls [] L rets = Some L"
| "drain_calls (i # ks) L [] = None"
| "drain_calls (i # ks) L (ret # rets) = drain_calls ks (L[i := addRetInfo (L ! i) ret]) rets"

definition buildInternalCallList ::
  "InternalTxCall list \<Rightarrow> InternalTxReturn list \<Rightarrow> InternalTx list option" where
  "buildInternalCallList calls rets =
     (case foldM call_step ([], [], rets) calls of
        None \<Rightarrow> None
      | Some (L, stk, rets1) \<Rightarrow> drain_calls (rev stk) L rets1)"


subsection \<open>The calls of a transaction as a tree\<close>

text \<open>
  What the EVM reports: a call, its return and the calls it makes, each one deeper; calls are
  listed when they start and returns when they end.
\<close>

datatype ctree = CallNode InternalTxCall InternalTxReturn "ctree list"

fun calls_of :: "ctree \<Rightarrow> InternalTxCall list" where
  "calls_of (CallNode c r ts) = c # concat (map calls_of ts)"

fun rets_of :: "ctree \<Rightarrow> InternalTxReturn list" where
  "rets_of (CallNode c r ts) = concat (map rets_of ts) @ [r]"

fun depths_ok :: "nat \<Rightarrow> ctree \<Rightarrow> bool" where
  "depths_ok d (CallNode c r ts) \<longleftrightarrow>
     unat (ic_Depth c) = d \<and> d < 2 ^ 31 - 1 \<and> (\<forall>t \<in> set ts. depths_ok (Suc d) t)"

text \<open>
  The list the tree stands for: every call with its own return, and as its path the positions
  of the calls that lead to it among their siblings.
\<close>

definition path_str :: "int list \<Rightarrow> string" where
  "path_str p = concat (map (\<lambda>n. CHR ''_'' # itoa n) p)"

definition site :: "InternalTxCall \<Rightarrow> int list \<Rightarrow> InternalTx" where
  "site c p = (newCallSite c)\<lparr> it_count := List.last p,
     it_CallPath := getCallType (ic_Kind c) (ic_Flags c) @ path_str p \<rparr>"

fun sites :: "int list \<Rightarrow> ctree \<Rightarrow> InternalTx list"
  and sites_list :: "int list \<Rightarrow> int \<Rightarrow> ctree list \<Rightarrow> InternalTx list" where
  "sites p (CallNode c r ts) = addRetInfo (site c p) r # sites_list p 0 ts"
| "sites_list p k [] = []"
| "sites_list p k (t # ts) = sites (p @ [k]) t @ sites_list p (k + 1) ts"

subsection \<open>Closing a call\<close>

text \<open>
  The code takes a call off the stack only when the next call, or the end, shows that it has
  returned. \<open>kstep\<close> is the step of the loop for a stack from which the calls that have
  returned are already taken, \<open>k\<close> the position of the last of them.
\<close>

definition kstep :: "int option \<Rightarrow> build_state \<Rightarrow> InternalTxCall \<Rightarrow> build_state option" where
  "kstep k st call = (case (k, st) of
     (Some c, (L, stk, rets)) \<Rightarrow>
        if stk \<noteq> [] \<and> ic_Depth call = it_depth (L ! List.last stk) + 1
        then Some (push_call call (L @ [(newCallSite call)\<lparr> it_count := c + 1 \<rparr>], stk, rets))
        else call_step st call
   | (None, _) \<Rightarrow> call_step st call)"

fun crun :: "int option \<Rightarrow> build_state \<Rightarrow> InternalTxCall list \<Rightarrow> InternalTx list option" where
  "crun k (L, stk, rets) [] = drain_calls (rev stk) L rets"
| "crun k st (c # cs) = Option.bind (kstep k st c) (\<lambda>st'. crun None st' cs)"

lemma crun_build: "crun None st cs = (case foldM call_step st cs of
    None \<Rightarrow> None | Some (L, stk, rets1) \<Rightarrow> drain_calls (rev stk) L rets1)"
proof (induction cs arbitrary: st)
  case Nil
  then show ?case by (cases st) simp
next
  case (Cons c cs)
  then show ?case by (cases "call_step st c") (auto simp: kstep_def)
qed

lemma buildInternalCallList_crun: "buildInternalCallList calls rets = crun None ([], [], rets) calls"
  by (simp add: buildInternalCallList_def crun_build)

lemma uint_le_iff_unat: "uint (x :: 'a::len word) \<le> uint y \<longleftrightarrow> unat x \<le> unat (y :: 'a::len word)"
  using word_le_def [of x y] word_le_nat_alt [of x y] by simp

lemma sint_small: "unat (x :: u32) < 2 ^ 31 \<Longrightarrow> sint x = int (unat x)"
proof -
  assume "unat x < 2 ^ 31"
  then have "int (unat x) < 2 ^ 31" by (simp only: of_nat_less_numeral_power_cancel_iff)
  then have "signed_take_bit 31 (int (unat x)) = int (unat x)"
    by (intro signed_take_bit_int_eq_self) (simp_all add: order_trans [OF _ uint_ge_0])
  moreover have "sint (of_nat (unat x) :: u32) = signed_take_bit 31 (int (unat x))"
    by (subst signed_of_nat) simp
  ultimately show ?thesis by simp
qed

lemma word_Suc_iff:
  assumes "unat x < 2 ^ 31 - 1" and "unat y < 2 ^ 31"
  shows "(y :: u32) = x + 1 \<longleftrightarrow> unat y = Suc (unat x)"
proof -
  have "unat (x + 1) = Suc (unat x)"
    using assms by (simp add: unat_word_ariths)
  then show ?thesis by (metis word_unat_eq_iff)
qed

lemma depth_diff:
  assumes "unat (c :: u32) \<le> unat d" and "unat d < 2 ^ 31"
  shows "sint (d - c) = int (unat d - unat c)"
proof -
  have "unat (d - c) = unat d - unat c"
    using assms by (simp add: unat_sub word_le_nat_alt)
  then show ?thesis using assms by (subst sint_small) auto
qed


lemma crun_close:
  assumes i: "i < length L" and dep: "unat (it_depth (L ! i)) < 2 ^ 31 - 1"
    and S: "S \<noteq> [] \<Longrightarrow> List.last S < length L \<and> List.last S \<noteq> i
              \<and> unat (it_depth (L ! i)) = Suc (unat (it_depth (L ! List.last S)))"
    and cs: "cs = [] \<or> S \<noteq> [] \<and> unat (ic_Depth (hd cs)) \<le> unat (it_depth (L ! i))"
  shows "crun k (L, S @ [i], r # R) cs = crun (Some (it_count (L ! i))) (L[i := addRetInfo (L ! i) r], S, R) cs"
proof (cases cs)
  case Nil
  then show ?thesis by simp
next
  case (Cons c cs')
  let ?d = "unat (it_depth (L ! i))" and ?c = "unat (ic_Depth c)" and ?j = "List.last S"
  let ?L = "L @ [newCallSite c]"
  have S': "S \<noteq> []" "?j < length L" "?j \<noteq> i" "?d = Suc (unat (it_depth (L ! ?j)))" and le: "?c \<le> ?d"
    using S cs Cons by auto
  have n: "sint (it_depth (L ! i) - ic_Depth c) = int (?d - ?c)"
    using le dep by (intro depth_diff) auto
  have le': "sint (ic_Depth c) \<le> sint (it_depth (L ! i))" and no: "ic_Depth c \<noteq> it_depth (L ! i) + 1"
    using le dep word_Suc_iff [of "it_depth (L ! i)" "ic_Depth c"] by (auto simp: sint_small uint_le_iff_unat)
  have lhs: "kstep k (L, S @ [i], r # R) c = map_option (push_call c) (pop_calls (?d - ?c) i (?L, S @ [i], r # R))"
    using i le' no n by (simp add: kstep_def call_step_def nth_append split: option.split)
  have "kstep k (L, S @ [i], r # R) c
      = kstep (Some (it_count (L ! i))) (L[i := addRetInfo (L ! i) r], S, R) c"
  proof (cases "?c = ?d")
    case True
    then have "ic_Depth c = it_depth (L ! ?j) + 1"
      using S' dep word_Suc_iff [of "it_depth (L ! ?j)" "ic_Depth c"] by simp
    then show ?thesis unfolding lhs using True S' i
      by (simp add: pop_calls.simps kstep_def nth_append list_update_append Let_def)
  next
    case False
    then have le2: "?c \<le> unat (it_depth (L ! ?j))" using le S' by simp
    then have *: "ic_Depth c \<noteq> it_depth (L ! ?j) + 1" "sint (ic_Depth c) \<le> sint (it_depth (L ! ?j))"
      "sint (it_depth (L ! ?j) - ic_Depth c) = int (unat (it_depth (L ! ?j)) - ?c)"
      using S' dep word_Suc_iff [of "it_depth (L ! ?j)" "ic_Depth c"] depth_diff [OF le2]
      by (auto simp: sint_small uint_le_iff_unat)
    have k: "?d - ?c = Suc (unat (it_depth (L ! ?j)) - ?c)" using S' le2 by simp
    have "pop_calls (?d - ?c) i (?L, S @ [i], r # R) = pop_calls (unat (it_depth (L ! ?j)) - ?c) ?j
        (L[i := addRetInfo (L ! i) r] @ [newCallSite c], S, R)"
      unfolding k using S' i by (subst pop_calls.simps) (simp add: nth_append list_update_append Let_def)
    then show ?thesis unfolding lhs using S' i *
      by (simp add: kstep_def call_step_def nth_append Let_def del: of_nat_diff)
  qed
  then show ?thesis using Cons by simp
qed


subsection \<open>The list is the tree\<close>

lemma getCallPath_map: "getCallPath xs = path_str (map it_count xs)"
  by (induction xs) (simp_all add: path_str_def)

lemma it_sel_addRetInfo [simp]:
  "it_depth (addRetInfo s r) = it_depth s" "it_count (addRetInfo s r) = it_count s"
  by (simp_all add: addRetInfo_def Let_def)

lemma site_sel [simp]: "it_depth (site c p) = ic_Depth c" "it_count (site c p) = List.last p"
  by (simp_all add: site_def newCallSite_def)

definition next_pos :: "int option \<Rightarrow> int" where
  "next_pos k = (case k of None \<Rightarrow> 0 | Some c \<Rightarrow> c + 1)"

definition stack_ok :: "InternalTx list \<Rightarrow> nat list \<Rightarrow> nat \<Rightarrow> int list \<Rightarrow> bool" where
  "stack_ok L S d p \<longleftrightarrow> (\<forall>j \<in> set S. j < length L) \<and> map (\<lambda>j. it_count (L ! j)) S = p
     \<and> (S \<noteq> [] \<longrightarrow> unat (it_depth (L ! List.last S)) + 1 = d)"

lemma stack_ok_append [simp]: "stack_ok L S d p \<Longrightarrow> stack_ok (L @ L') S d p"
  by (auto simp: stack_ok_def nth_append)

lemma stack_ok_push:
  "stack_ok L S d p \<Longrightarrow> unat (ic_Depth c) = d
   \<Longrightarrow> stack_ok (L @ [site c (p @ [q])]) (S @ [length L]) (Suc d) (p @ [q])"
  by (auto simp: stack_ok_def nth_append)

text \<open>The step that starts a call.\<close>

lemma kstep_push:
  assumes st: "stack_ok L S d p" and d: "unat (ic_Depth c) = d" "d < 2 ^ 31 - 1" and "S = [] \<Longrightarrow> k = None"
  shows "kstep k (L, S, R) c = Some (L @ [site c (p @ [next_pos k])], S @ [length L], R)"
proof -
  have "S \<noteq> [] \<Longrightarrow> ic_Depth c = it_depth (L ! List.last S) + 1"
    using st d word_Suc_iff [of "it_depth (L ! List.last S)" "ic_Depth c"]
    by (simp add: stack_ok_def)
  moreover have "map (\<lambda>j. it_count ((L @ [x]) ! j)) S = p" for x
    using st by (auto simp: stack_ok_def nth_append)
  moreover have "\<forall>j \<in> set S. j < length L" using st by (simp add: stack_ok_def)
  ultimately show ?thesis using assms(4)
    by (cases "S = []"; cases k)
      (auto simp: kstep_def call_step_def push_call_def getCallPath_map site_def newCallSite_def
        next_pos_def nth_append comp_def)
qed


lemma hd_calls: "depths_ok d t \<Longrightarrow> unat (ic_Depth (hd (calls_of t @ cs))) = d"
  by (cases t) auto

lemma next_pos_Some [simp]: "next_pos (Some c) = c + 1" and next_pos_None [simp]: "next_pos None = 0"
  by (simp_all add: next_pos_def)

text \<open>
  A whole tree of calls extends the list by the sites of the tree, uses its returns and leaves
  the stack as it was: by induction on the tree, the calls it makes one after the other.
\<close>

lemma crun_tree:
  assumes "depths_ok d t" and "stack_ok L S d p" and "S = [] \<Longrightarrow> k = None \<and> cs = []"
    and "cs = [] \<or> unat (ic_Depth (hd cs)) \<le> d"
  shows "crun k (L, S, rets_of t @ R) (calls_of t @ cs)
    = crun (Some (next_pos k)) (L @ sites (p @ [next_pos k]) t, S, R) cs"
  using assms
proof (induction t arbitrary: d L S p k cs R)
  case (CallNode c r ts)
  let ?q = "p @ [next_pos k]" and ?i = "length L"
  let ?L = "L @ [site c ?q]" and ?S = "S @ [length L]"
  have d: "unat (ic_Depth c) = d" "d < 2 ^ 31 - 1" "\<forall>t \<in> set ts. depths_ok (Suc d) t"
    using CallNode.prems(1) by auto
  have st: "stack_ok ?L ?S (Suc d) ?q"
    using CallNode.prems(2) d(1) by (rule stack_ok_push)
  have lst: "S \<noteq> [] \<Longrightarrow> List.last S < length L" "S \<noteq> [] \<Longrightarrow> List.last S \<noteq> length L"
    using CallNode.prems(2) last_in_set [of S] by (force simp: stack_ok_def)+
  have forest: "set us \<subseteq> set ts \<Longrightarrow> stack_ok L' ?S (Suc d) ?q \<Longrightarrow>
      \<exists>k''. crun k' (L', ?S, concat (map rets_of us) @ R') (concat (map calls_of us) @ cs)
        = crun k'' (L' @ sites_list ?q (next_pos k') us, ?S, R') cs" for us k' L' R'
  proof (induction us arbitrary: k' L')
    case Nil
    then show ?case by auto
  next
    case (Cons u us)
    let ?cs = "concat (map calls_of us) @ cs"
    have "?cs = [] \<or> unat (ic_Depth (hd ?cs)) \<le> Suc d"
      using Cons.prems(1) d(3) CallNode.prems(4) by (cases us) (auto simp: hd_calls)
    then have "crun k' (L', ?S, rets_of u @ concat (map rets_of us) @ R') (calls_of u @ ?cs)
      = crun (Some (next_pos k')) (L' @ sites (?q @ [next_pos k']) u, ?S, concat (map rets_of us) @ R') ?cs"
      using Cons.prems d(3) by (intro CallNode.IH) auto
    then show ?case
      using Cons.IH [of "L' @ sites (?q @ [next_pos k']) u" "Some (next_pos k')"] Cons.prems by auto
  qed
  obtain k'' where "crun None (?L, ?S, concat (map rets_of ts) @ r # R) (concat (map calls_of ts) @ cs)
      = crun k'' (?L @ sites_list ?q 0 ts, ?S, r # R) cs"
    using forest [of ts ?L None "r # R"] st by auto
  also have "\<dots> = crun (Some (next_pos k)) (L @ addRetInfo (site c ?q) r # sites_list ?q 0 ts, S, R) cs"
    using CallNode.prems d lst
    by (subst crun_close) (auto simp: nth_append list_update_append stack_ok_def less_Suc_eq trans_less_add1)
  finally show ?case
    using kstep_push [OF CallNode.prems(2) d(1,2)] CallNode.prems(3) by simp
qed

lemma call_list_of_tree:
  assumes "depths_ok d t"
  shows "buildInternalCallList (calls_of t) (rets_of t @ R) = Some (sites [0] t)"
  using crun_tree [OF assms, of "[]" "[]" "[]" None "[]" R]
  by (simp add: buildInternalCallList_crun stack_ok_def)

text \<open>
  C24: For the calls and returns of a transaction the EVM reports, \<open>buildInternalCallList\<close>
  returns (it panics neither on the stack nor on the returns), lists every call once in the
  order the calls start, gives each its own return, and as its path the kind of the call and
  the position of every call that leads to it among its siblings; returns that follow are not
  touched.
\<close>

theorem buildInternalCallList_tree:
  assumes "depths_ok d t"
  shows "buildInternalCallList (calls_of t) (rets_of t @ R) = Some (sites [0] t)"
  using assms by (rule call_list_of_tree)


definition demo_call :: "nat \<Rightarrow> InternalTxCall" where
  "demo_call d = \<lparr> ic_Kind = 0, ic_Flags = 0, ic_Depth = of_nat d, ic_Gas = 100, ic_Destination = 2,
     ic_Sender = 1, ic_Input = [], ic_Value = 0 \<rparr>"

definition demo_ret :: "i64 \<Rightarrow> InternalTxReturn" where
  "demo_ret g = \<lparr> ir_StatusCode = 0, ir_GasLeft = g, ir_Output = [], ir_CreateAddress = 0 \<rparr>"

definition demo_tree :: ctree where
  "demo_tree = CallNode (demo_call 0) (demo_ret 10)
     [CallNode (demo_call 1) (demo_ret 30) [CallNode (demo_call 2) (demo_ret 40) []],
      CallNode (demo_call 1) (demo_ret 20) []]"

theorem buildInternalCallList_tree_witness:
  "depths_ok 0 demo_tree \<and>
   map_option (map (\<lambda>s. (it_CallPath s, it_GasUsed s)))
     (buildInternalCallList (calls_of demo_tree) (rets_of demo_tree))
   = Some [(''call_0'', 90), (''call_0_0'', 70), (''call_0_0_0'', 60), (''call_0_1'', 80)]"
proof -
  have ok: "depths_ok 0 demo_tree"
    by (simp add: demo_tree_def demo_call_def)
  show ?thesis
    using buildInternalCallList_tree [OF ok, of "[]"] ok
    by (simp add: demo_tree_def demo_call_def demo_ret_def site_def newCallSite_def addRetInfo_def
        path_str_def getCallType_def itoa_def digits.simps Let_def char_of_def bit_0)
qed

end
