(* ===== verification/API_Backend.thy ===== *)
theory API_Backend
  imports App_Block Evm_Types RPC_Calls
begin

text \<open>
  What the RPC servers ask of the node: the read-only contexts and the trial runs of
  transactions of \<open>src/app/app.go\<close>, and \<open>src/api/backend.go\<close>, which answers the queries of
  the APIs from them.

  The history database and the transaction runner belong to the EVM module: they are the
  records \<open>history\<close> and \<open>rpc_app\<close>. A context that is opened for a query is closed without
  writing anything, so a query is a function of the application it is asked of. A nil pointer
  that is followed panics: \<open>None\<close>.
\<close>

record ('c, 'a) rpc_ext = "('c, 'a) ext" +
  ri_Sequence :: "'a \<Rightarrow> u64"
  ri_Nonce :: "'a \<Rightarrow> u64"
  ri_GetCode :: "'c \<Rightarrow> address \<Rightarrow> (bytes \<times> bytes) option"
  ri_GetBalance :: "'c \<Rightarrow> address \<Rightarrow> u256 res"

type_synonym ('b, 'w) tx_sigs = "('b, 'w) mo_Transaction list \<times> bytes list"

type_synonym filter_func = "address \<Rightarrow> bytes32 list \<Rightarrow> address list \<Rightarrow> bytes32 list list \<Rightarrow> bool"

record ('b, 'w) history =
  hs_GetTxByHash :: "bytes32 \<Rightarrow> (('b, 'w) mo_Transaction option \<times> bytes) res"
  hs_GetBlockByHash :: "bytes32 \<Rightarrow> 'b mo_Block option res"
  hs_GetBlockByHeight :: "u64 \<Rightarrow> 'b mo_Block option res"
  hs_GetLatestHeight :: i64
  hs_GetTxListByHeight :: "u32 \<Rightarrow> ('b, 'w) tx_sigs res"
  hs_GetTxListByHeightWithRange :: "u32 \<Rightarrow> i64 \<Rightarrow> i64 \<Rightarrow> ('b, 'w) tx_sigs res"
  hs_QueryLogs :: "address list \<Rightarrow> bytes32 list list \<Rightarrow> u32 \<Rightarrow> u32 \<Rightarrow> filter_func \<Rightarrow> mo_Log list res"
  hs_BasicQueryLogs :: "address \<Rightarrow> bytes32 list \<Rightarrow> u32 \<Rightarrow> u32 \<Rightarrow> u32 \<Rightarrow> mo_Log list res"
  hs_QueryTxBySrc :: "address \<Rightarrow> u32 \<Rightarrow> u32 \<Rightarrow> u32 \<Rightarrow> ('b, 'w) tx_sigs res"
  hs_QueryTxByDst :: "address \<Rightarrow> u32 \<Rightarrow> u32 \<Rightarrow> u32 \<Rightarrow> ('b, 'w) tx_sigs res"
  hs_QueryTxByAddr :: "address \<Rightarrow> u32 \<Rightarrow> u32 \<Rightarrow> u32 \<Rightarrow> ('b, 'w) tx_sigs res"
  hs_GetToAddressCount :: "address \<Rightarrow> i64"
  hs_GetFromAddressCount :: "address \<Rightarrow> i64"
  hs_GetSep20ToAddressCount :: "address \<Rightarrow> address \<Rightarrow> i64"
  hs_GetSep20FromAddressCount :: "address \<Rightarrow> address \<Rightarrow> i64"

record 'w runner =
  rn_Status :: int
  rn_GasUsed :: u64
  rn_OutData :: bytes
  rn_Logs :: "EvmLog list"
  rn_CreatedContractAddress :: address
  rn_InternalTxCalls :: "InternalTxCall list"
  rn_InternalTxReturns :: "InternalTxReturn list"
  rn_RwLists :: "'w option"

record ('c, 'b, 'w) rpc_app =
  ra_ArchiveMode :: bool
  ra_rpcContext :: 'c
  ra_contextAt :: "u64 \<Rightarrow> 'c"
  ra_history :: "('b, 'w) history"
  ra_currHeight :: i64
  ra_blockInfo :: BlockInfo
  ra_chainId :: u256
  ra_CCRPCForkBlock :: i64
  ra_HeightRevision :: "(i64 \<times> i64) list"
  ra_runTx :: "'c \<Rightarrow> BlockInfo \<Rightarrow> bool \<Rightarrow> Tx \<Rightarrow> address \<Rightarrow> u64 \<Rightarrow> 'w runner \<times> i64"
  ra_ToGethLogs :: "mo_Log list \<Rightarrow> geth_Log list"
  ra_BroadcastTxSync :: "bytes \<Rightarrow> bytes32 res"

subsection \<open>Contexts and trial runs of the application\<close>

definition GetRpcContextAtHeight :: "('c, 'b, 'w) rpc_app \<Rightarrow> i64 \<Rightarrow> 'c" where
  "GetRpcContextAtHeight app height =
     (if \<not> ra_ArchiveMode app \<or> sint height < 0 then ra_rpcContext app else ra_contextAt app height)"

definition block_info_of :: "('c, 'b, 'w) rpc_app \<Rightarrow> 'b mo_Block \<Rightarrow> BlockInfo" where
  "block_info_of app blk = \<lparr> bi_Coinbase = mb_Miner blk, bi_Number = mb_Number blk,
     bi_Timestamp = mb_Timestamp blk, bi_ChainId = ra_chainId app, bi_Hash = mb_Hash blk,
     bi_Revision = fromHeightRevision (ra_HeightRevision app) (mb_Number blk) \<rparr>"

text \<open>The runner is a nil pointer when the block is not in the history.\<close>

definition RunTxForRpc ::
  "('c, 'b, 'w) rpc_app \<Rightarrow> Tx \<Rightarrow> address \<Rightarrow> bool \<Rightarrow> i64 \<Rightarrow> ('w runner option \<times> i64) option" where
  "RunTxForRpc app gethTx sender estimateGas height =
     (let ctx = GetRpcContextAtHeight app height;
          run = (\<lambda>bi. let (runner, g) = ra_runTx app ctx bi estimateGas gethTx sender (ra_currHeight app)
                      in (Some runner, g))
      in if 0 < sint height
         then (case hs_GetBlockByHeight (ra_history app) height of
                 Inl _ \<Rightarrow> Some (None, 0)
               | Inr None \<Rightarrow> None
               | Inr (Some blk) \<Rightarrow> Some (run (block_info_of app blk)))
         else Some (run (ra_blockInfo app)))"

definition RunTxForSbchRpc ::
  "('c, 'b, 'w) rpc_app \<Rightarrow> Tx \<Rightarrow> address \<Rightarrow> i64 \<Rightarrow> ('w runner option \<times> i64) option" where
  "RunTxForSbchRpc app gethTx sender height =
     (if sint height < 1 then RunTxForRpc app gethTx sender False height
      else let ctx = GetRpcContextAtHeight app (height - 1)
           in (case hs_GetBlockByHeight (ra_history app) height of
                 Inl _ \<Rightarrow> Some (None, 0)
               | Inr None \<Rightarrow> None
               | Inr (Some blk) \<Rightarrow>
                   (let (runner, g) = ra_runTx app ctx (block_info_of app blk) False gethTx sender (ra_currHeight app)
                    in Some (Some runner, g))))"

subsection \<open>The state at a height\<close>

definition SEP206ContractAddress :: address where "SEP206ContractAddress = 0x2711"
definition SEP206AddrAsZeniqOnEthereum :: address where
  "SEP206AddrAsZeniqOnEthereum = 0x5b52bfB8062Ce664D74bbCd4Cd6DC7Df53Fd7233"

definition bk_GetStorageAt ::
  "('c, 'a) rpc_ext \<Rightarrow> ('c, 'b, 'w) rpc_app \<Rightarrow> address \<Rightarrow> bytes32 \<Rightarrow> i64 \<Rightarrow> bytes option" where
  "bk_GetStorageAt E app addr key height =
     (let ctx = GetRpcContextAtHeight app height; fork = ra_CCRPCForkBlock app
      in if (sint fork \<le> sint height \<and> (addr = SEP206AddrAsZeniqOnEthereum \<or> addr = SEP206ContractAddress))
            \<or> (sint height < sint fork \<and> addr = SEP206ContractAddress)
         then Environment.GetStorageAt E ctx 2000 key
         else case Environment.GetAccount E ctx addr of
                None \<Rightarrow> None
              | Some acc \<Rightarrow> Environment.GetStorageAt E ctx (ri_Sequence E acc) key)"

definition bk_GetCode ::
  "('c, 'a) rpc_ext \<Rightarrow> ('c, 'b, 'w) rpc_app \<Rightarrow> address \<Rightarrow> i64 \<Rightarrow> bytes \<times> bytes" where
  "bk_GetCode E app contract height =
     (case ri_GetCode E (GetRpcContextAtHeight app height) contract of
        None \<Rightarrow> ([], []) | Some info \<Rightarrow> info)"

definition bk_GetBalance ::
  "('c, 'a) rpc_ext \<Rightarrow> ('c, 'b, 'w) rpc_app \<Rightarrow> address \<Rightarrow> i64 \<Rightarrow> int res" where
  "bk_GetBalance E app owner height =
     (case ri_GetBalance E (GetRpcContextAtHeight app height) owner of
        Inl err \<Rightarrow> Inl err | Inr b \<Rightarrow> Inr (uint b))"

text \<open>Go returns the nonce zero beside the error.\<close>

definition bk_GetNonce ::
  "('c, 'a) rpc_ext \<Rightarrow> ('c, 'b, 'w) rpc_app \<Rightarrow> address \<Rightarrow> i64 \<Rightarrow> u64 res" where
  "bk_GetNonce E app addr height =
     (case Environment.GetAccount E (GetRpcContextAtHeight app height) addr of
        Some acc \<Rightarrow> Inr (ri_Nonce E acc) | None \<Rightarrow> Inl ErrAccNotFound)"

definition bk_GetSeq :: "('c, 'a) rpc_ext \<Rightarrow> ('c, 'b, 'w) rpc_app \<Rightarrow> address \<Rightarrow> u64" where
  "bk_GetSeq E app addr =
     (case Environment.GetAccount E (GetRpcContextAtHeight app (-1)) addr of
        None \<Rightarrow> 0 | Some acc \<Rightarrow> ri_Sequence E acc)"

subsection \<open>The history\<close>

definition bk_GetTransaction ::
  "('c, 'b, 'w) rpc_app \<Rightarrow> bytes32 \<Rightarrow> (('b, 'w) mo_Transaction \<times> bytes) res" where
  "bk_GetTransaction app txHash =
     (case hs_GetTxByHash (ra_history app) txHash of
        Inl err \<Rightarrow> Inl err
      | Inr (None, sig) \<Rightarrow> Inl (GoError ''tx with specific hash not exist'')
      | Inr (Some tx, sig) \<Rightarrow> Inr (tx, sig))"

definition bk_BlockByHash :: "('c, 'b, 'w) rpc_app \<Rightarrow> bytes32 \<Rightarrow> 'b mo_Block option res" where
  "bk_BlockByHash app hash = hs_GetBlockByHash (ra_history app) hash"

definition bk_BlockByNumber :: "('c, 'b, 'w) rpc_app \<Rightarrow> i64 \<Rightarrow> 'b mo_Block option res" where
  "bk_BlockByNumber app number = hs_GetBlockByHeight (ra_history app) number"

definition bk_LatestHeight :: "('c, 'b, 'w) rpc_app \<Rightarrow> i64" where
  "bk_LatestHeight app = hs_GetLatestHeight (ra_history app)"

definition bk_CurrentBlock :: "('c, 'b, 'w) rpc_app \<Rightarrow> 'b mo_Block option res" where
  "bk_CurrentBlock app = hs_GetBlockByHeight (ra_history app) (hs_GetLatestHeight (ra_history app))"

definition bk_GetTxListByHeightWithRange ::
  "('c, 'b, 'w) rpc_app \<Rightarrow> u32 \<Rightarrow> i64 \<Rightarrow> i64 \<Rightarrow> ('b, 'w) tx_sigs res" where
  "bk_GetTxListByHeightWithRange app height start end =
     hs_GetTxListByHeightWithRange (ra_history app) height start end"

definition bk_GetTxListByHeight :: "('c, 'b, 'w) rpc_app \<Rightarrow> u32 \<Rightarrow> ('b, 'w) tx_sigs res" where
  "bk_GetTxListByHeight app height = bk_GetTxListByHeightWithRange app height 0 0x7FFFFFFF"

definition bk_HeaderByNumber :: "('c, 'b, 'w) rpc_app \<Rightarrow> i64 \<Rightarrow> 'b Header option go" where
  "bk_HeaderByNumber app blockNr =
     (let nr = (if blockNr = LatestBlockNumber then ra_currHeight app else blockNr)
      in case hs_GetBlockByHeight (ra_history app) nr of
           Inl _ \<Rightarrow> Some (Inr None)
         | Inr None \<Rightarrow> None
         | Inr (Some block) \<Rightarrow> Some (Inr (Some \<lparr> hd_Number = mb_Number block,
             hd_BlockHash = mb_Hash block, hd_Bloom = mb_LogsBloom block \<rparr>)))"

text \<open>The header leaves its bloom at the zero value, \<open>bloom0\<close>.\<close>

definition bk_HeaderByHash :: "'b \<Rightarrow> ('c, 'b, 'w) rpc_app \<Rightarrow> bytes32 \<Rightarrow> 'b Header option go" where
  "bk_HeaderByHash bloom0 app blockHash =
     (case hs_GetBlockByHash (ra_history app) blockHash of
        Inl err \<Rightarrow> Some (Inl err)
      | Inr None \<Rightarrow> None
      | Inr (Some block) \<Rightarrow> Some (Inr (Some \<lparr> hd_Number = mb_Number block,
          hd_BlockHash = mb_Hash block, hd_Bloom = bloom0 \<rparr>)))"

record 'b Receipt =
  rc_Status :: u64
  rc_CumulativeGasUsed :: u64
  rc_Bloom :: 'b
  rc_Logs :: "geth_Log list"
  rc_TxHash :: bytes32
  rc_ContractAddress :: address
  rc_GasUsed :: u64
  rc_BlockHash :: bytes32
  rc_BlockNumber :: int
  rc_TransactionIndex :: u64

definition toGethReceipt :: "('c, 'b, 'w) rpc_app \<Rightarrow> ('b, 'w) mo_Transaction \<Rightarrow> 'b Receipt" where
  "toGethReceipt app tx = \<lparr> rc_Status = mt_Status tx, rc_CumulativeGasUsed = mt_CumulativeGasUsed tx,
     rc_Bloom = mt_LogsBloom tx, rc_Logs = ra_ToGethLogs app (mt_Logs tx), rc_TxHash = mt_Hash tx,
     rc_ContractAddress = mt_ContractAddress tx, rc_GasUsed = mt_GasUsed tx,
     rc_BlockHash = mt_BlockHash tx, rc_BlockNumber = sint (mt_BlockNumber tx),
     rc_TransactionIndex = mt_TransactionIndex tx \<rparr>"

text \<open>An error of the database leaves the receipts empty.\<close>

definition bk_GetReceipts :: "('c, 'b, 'w) rpc_app \<Rightarrow> u64 \<Rightarrow> 'b Receipt list res" where
  "bk_GetReceipts app blockNum =
     (case hs_GetTxListByHeight (ra_history app) (ucast blockNum) of
        Inl _ \<Rightarrow> Inr [] | Inr (txs, _) \<Rightarrow> Inr (map (toGethReceipt app) txs))"

text \<open>A transaction that cannot be read is left out.\<close>

definition tx_logs :: "('c, 'b, 'w) rpc_app \<Rightarrow> bytes32 \<Rightarrow> geth_Log list list" where
  "tx_logs app txHash = (case hs_GetTxByHash (ra_history app) txHash of
     Inr (Some tx, _) \<Rightarrow> [map (\<lambda>l. l\<lparr> l_TxHash := mt_Hash tx \<rparr>) (ra_ToGethLogs app (mt_Logs tx))]
   | _ \<Rightarrow> [])"

definition bk_GetLogs :: "('c, 'b, 'w) rpc_app \<Rightarrow> bytes32 \<Rightarrow> geth_Log list list res" where
  "bk_GetLogs app blockHash =
     (case hs_GetBlockByHash (ra_history app) blockHash of
        Inr (Some block) \<Rightarrow> Inr (concat (map (tx_logs app) (mb_Transactions block)))
      | _ \<Rightarrow> Inr [])"

definition bk_BloomStatus :: "u64 \<times> u64" where "bk_BloomStatus = (4096, 0)"

definition bk_QueryLogs :: "('c, 'b, 'w) rpc_app \<Rightarrow> address list \<Rightarrow> bytes32 list list \<Rightarrow> u32 \<Rightarrow> u32
    \<Rightarrow> filter_func \<Rightarrow> mo_Log list res" where
  "bk_QueryLogs app addresses topics startHeight endHeight flt =
     hs_QueryLogs (ra_history app) addresses topics startHeight endHeight flt"

subsection \<open>Trial runs\<close>

record 'w CallDetail =
  cd_Status :: int
  cd_GasUsed :: u64
  cd_OutData :: bytes
  cd_Logs :: "EvmLog list"
  cd_CreatedContractAddress :: address
  cd_InternalTxCalls :: "InternalTxCall list"
  cd_InternalTxReturns :: "InternalTxReturn list"
  cd_RwLists :: "'w option"

definition bk_CallForSbch :: "('c, 'b, 'w) rpc_app \<Rightarrow> Tx \<Rightarrow> address \<Rightarrow> i64 \<Rightarrow> 'w CallDetail option" where
  "bk_CallForSbch app tx sender height =
     (case RunTxForSbchRpc app tx sender height of
        Some (Some r, _) \<Rightarrow> Some \<lparr> cd_Status = rn_Status r, cd_GasUsed = rn_GasUsed r, cd_OutData = rn_OutData r,
          cd_Logs = rn_Logs r, cd_CreatedContractAddress = rn_CreatedContractAddress r,
          cd_InternalTxCalls = rn_InternalTxCalls r, cd_InternalTxReturns = rn_InternalTxReturns r,
          cd_RwLists = rn_RwLists r \<rparr>
      | _ \<Rightarrow> None)"

definition bk_Call :: "('c, 'b, 'w) rpc_app \<Rightarrow> Tx \<Rightarrow> address \<Rightarrow> i64 \<Rightarrow> (int \<times> bytes) option" where
  "bk_Call app tx sender height =
     (case RunTxForRpc app tx sender False height of
        Some (Some r, _) \<Rightarrow> Some (rn_Status r, rn_OutData r) | _ \<Rightarrow> None)"

definition bk_EstimateGas :: "('c, 'b, 'w) rpc_app \<Rightarrow> Tx \<Rightarrow> address \<Rightarrow> i64 \<Rightarrow> (int \<times> bytes \<times> i64) option" where
  "bk_EstimateGas app tx sender height =
     (case RunTxForRpc app tx sender True height of
        Some (Some r, gas) \<Rightarrow> Some (rn_Status r, rn_OutData r, gas) | _ \<Rightarrow> None)"

definition bk_SendRawTx :: "('c, 'b, 'w) rpc_app \<Rightarrow> bytes \<Rightarrow> bytes32 res" where
  "bk_SendRawTx app signedTx = ra_BroadcastTxSync app signedTx"

definition bk_ChainId :: "('c, 'b, 'w) rpc_app \<Rightarrow> int" where
  "bk_ChainId app = uint (ra_chainId app)"


subsection \<open>An application over lists\<close>

text \<open>
  The chain kept in memory, on which the hypotheses about the history are shown to hold: one
  transaction a block, its bloom the list of what it holds.
\<close>

definition mem_ToGethLogs :: "mo_Log list \<Rightarrow> geth_Log list" where
  "mem_ToGethLogs = map (\<lambda>l. \<lparr> l_Address = ml_Address l, l_Topics = ml_Topics l, l_Data = ml_Data l,
     l_BlockNumber = ml_BlockNumber l, l_TxHash = ml_TxHash l, l_TxIndex = ml_TxIndex l,
     l_BlockHash = ml_BlockHash l, l_Index = ml_Index l, l_Removed = ml_Removed l \<rparr>)"

definition mem_bloom :: "mo_Log list \<Rightarrow> bytes list" where
  "mem_bloom ls = concat (map (\<lambda>l. be_bytes 20 (ml_Address l) # map (be_bytes 32) (ml_Topics l)) ls)"

definition mem_block :: "mo_Log list list \<Rightarrow> nat \<Rightarrow> bytes list mo_Block option res" where
  "mem_block cs n = (if 0 < n \<and> n \<le> length cs
     then Inr (Some \<lparr> mb_Hash = of_nat n, mb_Number = of_nat n, mb_ParentHash = of_nat (n - 1),
       mb_LogsBloom = mem_bloom (cs ! (n - 1)), mb_TransactionsRoot = 0, mb_StateRoot = 0, mb_Miner = 0,
       mb_Size = 0, mb_GasUsed = 0, mb_Timestamp = 0, mb_Transactions = [of_nat n] \<rparr>)
     else Inl ErrBlockNotFound)"

definition mem_tx :: "mo_Log list list \<Rightarrow> nat \<Rightarrow> (bytes list, unit) mo_Transaction" where
  "mem_tx cs n = \<lparr> mt_Hash = of_nat n, mt_TransactionIndex = 0, mt_Nonce = 0, mt_BlockHash = of_nat n,
     mt_BlockNumber = of_nat n, mt_From = 0, mt_To = 0, mt_Value = 0, mt_GasPrice = 0, mt_Gas = 0, mt_Input = [],
     mt_CumulativeGasUsed = 0, mt_GasUsed = 0, mt_ContractAddress = 0, mt_Logs = cs ! (n - 1),
     mt_LogsBloom = mem_bloom (cs ! (n - 1)), mt_Status = 1, mt_StatusStr = [], mt_OutData = [],
     mt_InternalTxCalls = [], mt_InternalTxReturns = [], mt_RwLists = None \<rparr>"

definition mem_txs :: "mo_Log list list \<Rightarrow> nat \<Rightarrow> (bytes list, unit) tx_sigs res" where
  "mem_txs cs n = (if 0 < n \<and> n \<le> length cs then Inr ([mem_tx cs n], [replicate 65 0]) else Inl ErrBlockNotFound)"

definition mem_history :: "mo_Log list list \<Rightarrow> (bytes list, unit) history" where
  "mem_history cs = \<lparr>
     hs_GetTxByHash = (\<lambda>h. if 0 < h \<and> unat h \<le> length cs then Inr (Some (mem_tx cs (unat h)), replicate 65 0)
                           else Inr (None, [])),
     hs_GetBlockByHash = (\<lambda>h. mem_block cs (unat h)),
     hs_GetBlockByHeight = (\<lambda>n. mem_block cs (unat n)),
     hs_GetLatestHeight = of_nat (length cs),
     hs_GetTxListByHeight = (\<lambda>n. mem_txs cs (unat n)),
     hs_GetTxListByHeightWithRange = (\<lambda>n s e. mem_txs cs (unat n)),
     hs_QueryLogs = (\<lambda>as ts s e flt. Inr (filter (\<lambda>l. unat s \<le> unat (ml_BlockNumber l)
        \<and> unat (ml_BlockNumber l) < unat e \<and> flt (ml_Address l) (ml_Topics l) as ts) (concat cs))),
     hs_BasicQueryLogs = (\<lambda>_ _ _ _ _. Inr []),
     hs_QueryTxBySrc = (\<lambda>_ _ _ _. Inr ([], [])), hs_QueryTxByDst = (\<lambda>_ _ _ _. Inr ([], [])),
     hs_QueryTxByAddr = (\<lambda>_ _ _ _. Inr ([], [])),
     hs_GetToAddressCount = (\<lambda>_. 0), hs_GetFromAddressCount = (\<lambda>_. 0),
     hs_GetSep20ToAddressCount = (\<lambda>_ _. 0), hs_GetSep20FromAddressCount = (\<lambda>_ _. 0) \<rparr>"

definition mem_runner :: "unit runner" where
  "mem_runner = \<lparr> rn_Status = 0, rn_GasUsed = 21000, rn_OutData = [], rn_Logs = [], rn_CreatedContractAddress = 0,
     rn_InternalTxCalls = [], rn_InternalTxReturns = [], rn_RwLists = None \<rparr>"

definition mem_app :: "mo_Log list list \<Rightarrow> (mem_ctx, bytes list, unit) rpc_app" where
  "mem_app cs = \<lparr> ra_ArchiveMode = True,
     ra_rpcContext = \<lparr> mc_acc = Map.empty, mc_slot = Map.empty, mc_array = Map.empty, mc_map = Map.empty, mc_fork = True \<rparr>,
     ra_contextAt = (\<lambda>_. \<lparr> mc_acc = Map.empty, mc_slot = Map.empty, mc_array = Map.empty, mc_map = Map.empty, mc_fork = True \<rparr>),
     ra_history = mem_history cs, ra_currHeight = of_nat (length cs),
     ra_blockInfo = \<lparr> bi_Coinbase = 0, bi_Number = of_nat (length cs) + 1, bi_Timestamp = 0, bi_ChainId = 1, bi_Hash = 0, bi_Revision = 7 \<rparr>,
     ra_chainId = 1, ra_CCRPCForkBlock = 10, ra_HeightRevision = [(0, 7)],
     ra_runTx = (\<lambda>_ _ _ _ _ _. (mem_runner, 21000)), ra_ToGethLogs = mem_ToGethLogs,
     ra_BroadcastTxSync = (\<lambda>_. Inr 1) \<rparr>"

definition demo_log :: "address \<Rightarrow> u64 \<Rightarrow> mo_Log" where
  "demo_log a n = \<lparr> ml_Address = a, ml_Topics = [5], ml_Data = [], ml_BlockNumber = n, ml_TxHash = 0, ml_TxIndex = 0,
     ml_BlockHash = 0, ml_Index = 0, ml_Removed = False \<rparr>"

definition demo_app :: "(mem_ctx, bytes list, unit) rpc_app" where
  "demo_app = mem_app [[demo_log 7 1, demo_log 8 1], [demo_log 8 2], [demo_log 7 3]]"

definition mem_rpc :: "(mem_ctx, mem_acc) rpc_ext" where
  "mem_rpc = ext.extend mem_ext \<lparr> ri_Sequence = ma_Sequence, ri_Nonce = (\<lambda>_. 0), ri_GetCode = (\<lambda>_ _. None),
     ri_GetBalance = (\<lambda>c a. case mc_acc c a of None \<Rightarrow> Inl ErrAccNotFound | Some x \<Rightarrow> Inr (ma_Balance x)) \<rparr>"

end
