(* ===== verification/Filters_Match.thy ===== *)
theory Filters_Match
  imports API_Backend
begin

text \<open>
  Searching the chain for logs (\<open>src/rpc/api/filters/geth_filter.go\<close>) and the API method
  \<open>eth_getLogs\<close> (\<open>filter_api.go\<close>). A log matches when its address is one of the wanted ones
  and every position of the wanted topics admits its topic; an empty list admits everything.
  The bloom of a header is to tell that a block holds no matching log without reading it. The
  application itself never sets the bloom of a block (only the block builder of the tests
  does), so nothing is claimed of the search through the blooms but that it ends, and that it
  finds nothing where the bloom is empty. \<open>eth_getLogs\<close> reaches it only for a block given by its
  hash; a range of heights is answered from the log index of the history.

  \<open>eth.BloomLookup\<close> is the argument \<open>lookup\<close>. The code that searches with the index of the
  bloom bits is not reached: \<open>BloomStatus\<close> reports no indexed section and no constructor
  makes a matcher. It is the argument \<open>indexedLogs\<close>.
\<close>

fun includes_addr :: "address list \<Rightarrow> address \<Rightarrow> bool" where
  "includes_addr [] a = False"
| "includes_addr (addr # addresses) a = (if addr = a then True else includes_addr addresses a)"

fun topic_in :: "bytes32 list \<Rightarrow> bytes32 \<Rightarrow> bool" where
  "topic_in [] t = False"
| "topic_in (topic # sub) t = (if t = topic then True else topic_in sub t)"

text \<open>The loop over the wanted topics; the index is within the topics of the log.\<close>

fun match_topics :: "nat \<Rightarrow> bytes32 list \<Rightarrow> bytes32 list list \<Rightarrow> bool" where
  "match_topics i topics [] = True"
| "match_topics i topics (sub # topicsList) =
     (if sub = [] \<or> topic_in sub (topics ! i) then match_topics (Suc i) topics topicsList else False)"

definition filterFunc :: filter_func where
  "filterFunc addr topics addrList topicsList =
     (if addrList \<noteq> [] \<and> \<not> includes_addr addrList addr then False
      else if length topics < length topicsList then False
      else match_topics 0 topics topicsList)"

definition out_of_range :: "int option \<Rightarrow> int option \<Rightarrow> geth_Log \<Rightarrow> bool" where
  "out_of_range fromBlock toBlock l \<longleftrightarrow>
     (case fromBlock of None \<Rightarrow> False
      | Some z \<Rightarrow> 0 \<le> sint (big_Int64 z) \<and> l_BlockNumber l < big_Uint64 z)
   \<or> (case toBlock of None \<Rightarrow> False
      | Some z \<Rightarrow> 0 \<le> sint (big_Int64 z) \<and> big_Uint64 z < l_BlockNumber l)"

fun filterLogs ::
  "geth_Log list \<Rightarrow> int option \<Rightarrow> int option \<Rightarrow> address list \<Rightarrow> bytes32 list list \<Rightarrow> geth_Log list" where
  "filterLogs [] fromBlock toBlock addresses topics = []"
| "filterLogs (l # ls) fromBlock toBlock addresses topics =
     (if out_of_range fromBlock toBlock l then filterLogs ls fromBlock toBlock addresses topics
      else if filterFunc (l_Address l) (l_Topics l) addresses topics
      then l # filterLogs ls fromBlock toBlock addresses topics
      else filterLogs ls fromBlock toBlock addresses topics)"

definition bloomFilter :: "('b \<Rightarrow> bytes \<Rightarrow> bool) \<Rightarrow> 'b \<Rightarrow> address list \<Rightarrow> bytes32 list list \<Rightarrow> bool" where
  "bloomFilter lookup bloom addresses topics =
     (if addresses \<noteq> [] \<and> \<not> list_ex (\<lambda>a. lookup bloom (be_bytes 20 a)) addresses then False
      else list_all (\<lambda>sub. sub = [] \<or> list_ex (\<lambda>t. lookup bloom (be_bytes 32 t)) sub) topics)"

subsection \<open>A filter over the chain\<close>

record 'b filter_service =
  fs_HeaderByNumber :: "i64 \<Rightarrow> 'b Header option go"
  fs_HeaderByHash :: "bytes32 \<Rightarrow> 'b Header option go"
  fs_GetReceipts :: "u64 \<Rightarrow> 'b Receipt list res"
  fs_GetLogs :: "bytes32 \<Rightarrow> geth_Log list list res"
  fs_BloomStatus :: "u64 \<times> u64"

definition backend_service :: "'b \<Rightarrow> ('c, 'b, 'w) rpc_app \<Rightarrow> 'b filter_service" where
  "backend_service bloom0 app = \<lparr> fs_HeaderByNumber = bk_HeaderByNumber app,
     fs_HeaderByHash = bk_HeaderByHash bloom0 app, fs_GetReceipts = bk_GetReceipts app,
     fs_GetLogs = bk_GetLogs app, fs_BloomStatus = bk_BloomStatus \<rparr>"

record Filter =
  f_addresses :: "address list"
  f_topics :: "bytes32 list list"
  f_block :: bytes32
  f_begin :: i64
  f_end :: i64

definition newFilter :: "address list \<Rightarrow> bytes32 list list \<Rightarrow> Filter" where
  "newFilter addresses topics =
     \<lparr> f_addresses = addresses, f_topics = topics, f_block = 0, f_begin = 0, f_end = 0 \<rparr>"

definition NewBlockFilter :: "bytes32 \<Rightarrow> address list \<Rightarrow> bytes32 list list \<Rightarrow> Filter" where
  "NewBlockFilter block addresses topics = (newFilter addresses topics)\<lparr> f_block := block \<rparr>"

definition checkMatches :: "'b filter_service \<Rightarrow> Filter \<Rightarrow> 'b Header \<Rightarrow> geth_Log list res" where
  "checkMatches svc f header =
     (case fs_GetLogs svc (hd_BlockHash header) of
        Inl err \<Rightarrow> Inl err
      | Inr logsList \<Rightarrow>
          (let ls = filterLogs (concat logsList) None None (f_addresses f) (f_topics f)
           in case ls of
                [] \<Rightarrow> Inr []
              | l # _ \<Rightarrow>
                  if l_TxHash l = 0
                  then (case fs_GetReceipts svc (hd_Number header) of
                          Inl err \<Rightarrow> Inl err
                        | Inr receipts \<Rightarrow>
                            Inr (filterLogs (concat (map rc_Logs receipts)) None None (f_addresses f) (f_topics f)))
                  else Inr ls))"

definition blockLogs ::
  "('b \<Rightarrow> bytes \<Rightarrow> bool) \<Rightarrow> 'b filter_service \<Rightarrow> Filter \<Rightarrow> 'b Header \<Rightarrow> geth_Log list res" where
  "blockLogs lookup svc f header =
     (if bloomFilter lookup (hd_Bloom header) (f_addresses f) (f_topics f)
      then checkMatches svc f header else Inr [])"

text \<open>
  The loop over the blocks advances \<open>f.begin\<close>, an \<open>int64\<close> that wraps around: up to the largest
  end it stops only where a header is missing. \<open>None\<close> stands for a loop that does not end
  and for a panic of the backend.
\<close>

partial_function (option) unindexed_loop ::
  "('b \<Rightarrow> bytes \<Rightarrow> bool) \<Rightarrow> 'b filter_service \<Rightarrow> Filter \<Rightarrow> u64 \<Rightarrow> geth_Log list \<Rightarrow> (Filter \<times> geth_Log list res) option" where
  "unindexed_loop lookup svc f end ls =
     (if sint (f_begin f) \<le> sint end
      then do {
        h \<leftarrow> fs_HeaderByNumber svc (f_begin f);
        case h of
          Inl err \<Rightarrow> Some (f, Inl err)
        | Inr None \<Rightarrow> Some (f, Inr ls)
        | Inr (Some header) \<Rightarrow>
            (case blockLogs lookup svc f header of
               Inl err \<Rightarrow> Some (f, Inl err)
             | Inr found \<Rightarrow> unindexed_loop lookup svc (f\<lparr> f_begin := f_begin f + 1 \<rparr>) end (ls @ found)) }
      else Some (f, Inr ls))"

definition unindexedLogs ::
  "('b \<Rightarrow> bytes \<Rightarrow> bool) \<Rightarrow> 'b filter_service \<Rightarrow> Filter \<Rightarrow> u64 \<Rightarrow> (Filter \<times> geth_Log list res) option" where
  "unindexedLogs lookup svc f end = unindexed_loop lookup svc f end []"

definition range_logs ::
  "('b \<Rightarrow> bytes \<Rightarrow> bool) \<Rightarrow> (Filter \<Rightarrow> u64 \<Rightarrow> (Filter \<times> geth_Log list res) option) \<Rightarrow> 'b filter_service
    \<Rightarrow> Filter \<Rightarrow> u64 \<Rightarrow> geth_Log list go" where
  "range_logs lookup indexedLogs svc f headNr =
     (let f1 = (if f_begin f = -1 then f\<lparr> f_begin := headNr \<rparr> else f);
          end = (if f_end f = -1 then headNr else f_end f);
          (sz, sections) = fs_BloomStatus svc;
          indexed = sections * sz
      in do {
        (f2, r) \<leftarrow> (if f_begin f1 < indexed
                    then if end < indexed then indexedLogs f1 end else indexedLogs f1 (indexed - 1)
                    else Some (f1, Inr []));
        case r of
          Inl err \<Rightarrow> Some (Inl err)
        | Inr ls \<Rightarrow> do {
            (f3, rest) \<leftarrow> unindexedLogs lookup svc f2 end;
            Some (case rest of Inl err \<Rightarrow> Inl err | Inr found \<Rightarrow> Inr (ls @ found)) } })"

definition Logs ::
  "('b \<Rightarrow> bytes \<Rightarrow> bool) \<Rightarrow> (Filter \<Rightarrow> u64 \<Rightarrow> (Filter \<times> geth_Log list res) option) \<Rightarrow> 'b filter_service
    \<Rightarrow> Filter \<Rightarrow> geth_Log list go" where
  "Logs lookup indexedLogs svc f =
     (if f_block f \<noteq> 0
      then do {
        h \<leftarrow> fs_HeaderByHash svc (f_block f);
        Some (case h of
                Inl err \<Rightarrow> Inl err
              | Inr None \<Rightarrow> Inl (GoError ''unknown block'')
              | Inr (Some header) \<Rightarrow> blockLogs lookup svc f header) }
      else do {
        h \<leftarrow> fs_HeaderByNumber svc LatestBlockNumber;
        case h of
          Inr (Some header) \<Rightarrow> range_logs lookup indexedLogs svc f (hd_Number header)
        | _ \<Rightarrow> Some (Inr []) })"

subsection \<open>\<open>eth_getLogs\<close>\<close>

record FilterCriteria =
  fc_BlockHash :: "bytes32 option"
  fc_FromBlock :: "int option"
  fc_ToBlock :: "int option"
  fc_Addresses :: "address list"
  fc_Topics :: "bytes32 list list"

definition crit_height :: "int option \<Rightarrow> i64 \<Rightarrow> i64" where
  "crit_height z latest =
     (let n = (case z of None \<Rightarrow> LatestBlockNumber | Some z \<Rightarrow> big_Int64 z)
      in if sint n < 0 then latest else n)"

definition api_GetLogs ::
  "('b \<Rightarrow> bytes \<Rightarrow> bool) \<Rightarrow> 'b \<Rightarrow> (Filter \<Rightarrow> u64 \<Rightarrow> (Filter \<times> geth_Log list res) option)
    \<Rightarrow> ('c, 'b, 'w) rpc_app \<Rightarrow> FilterCriteria \<Rightarrow> geth_Log list go" where
  "api_GetLogs lookup bloom0 indexedLogs app crit =
     (case fc_BlockHash crit of
        Some hash \<Rightarrow>
          Logs lookup indexedLogs (backend_service bloom0 app)
            (NewBlockFilter hash (fc_Addresses crit) (fc_Topics crit))
      | None \<Rightarrow>
          (let begin = crit_height (fc_FromBlock crit) (bk_LatestHeight app);
               end = crit_height (fc_ToBlock crit) (bk_LatestHeight app)
           in case bk_QueryLogs app (fc_Addresses crit) (fc_Topics crit) (ucast begin) (ucast (end + 1)) filterFunc of
                Inl err \<Rightarrow> Some (Inl err)
              | Inr ls \<Rightarrow> Some (Inr (ra_ToGethLogs app ls))))"


subsection \<open>What a filter matches\<close>

text \<open>The specification: which log a criterion asks for.\<close>

definition wanted :: "address list \<Rightarrow> bytes32 list list \<Rightarrow> address \<Rightarrow> bytes32 list \<Rightarrow> bool" where
  "wanted addrs tops a ts \<longleftrightarrow> (addrs = [] \<or> a \<in> set addrs) \<and>
     (\<forall>i < length tops. i < length ts \<and> (tops ! i = [] \<or> ts ! i \<in> set (tops ! i)))"

definition height_in_range :: "int option \<Rightarrow> int option \<Rightarrow> u64 \<Rightarrow> bool" where
  "height_in_range fr to n \<longleftrightarrow>
     (case fr of None \<Rightarrow> True | Some z \<Rightarrow> z < 0 \<or> z \<le> uint n) \<and>
     (case to of None \<Rightarrow> True | Some z \<Rightarrow> z < 0 \<or> uint n \<le> z)"

definition block_arg :: "int option \<Rightarrow> bool" where
  "block_arg z \<longleftrightarrow> (case z of None \<Rightarrow> True | Some z \<Rightarrow> - (2 ^ 63) \<le> z \<and> z < 2 ^ 63)"

lemma includes_addr_iff [simp]: "includes_addr as a \<longleftrightarrow> a \<in> set as"
  by (induction as) auto

lemma topic_in_iff [simp]: "topic_in sub t \<longleftrightarrow> t \<in> set sub"
  by (induction sub) auto

lemma match_topics_iff:
  "match_topics k ts tops \<longleftrightarrow> (\<forall>i < length tops. tops ! i = [] \<or> ts ! (k + i) \<in> set (tops ! i))"
proof (induction tops arbitrary: k)
  case (Cons sub tops)
  then show ?case by (auto simp: All_less_Suc2)
qed simp

lemma filterFunc_wanted: "filterFunc a ts addrs tops \<longleftrightarrow> wanted addrs tops a ts"
  by (auto simp: filterFunc_def wanted_def match_topics_iff)

lemma out_of_range_iff:
  assumes "block_arg fr" and "block_arg to"
  shows "out_of_range fr to l \<longleftrightarrow> \<not> height_in_range fr to (l_BlockNumber l)"
proof -
  have "- (2 ^ 63) \<le> z \<Longrightarrow> z < 2 ^ 63 \<Longrightarrow>
      0 \<le> sint (big_Int64 z) \<and> n < big_Uint64 z \<longleftrightarrow> \<not> (z < 0 \<or> z \<le> uint n)"
    "- (2 ^ 63) \<le> z \<Longrightarrow> z < 2 ^ 63 \<Longrightarrow>
      0 \<le> sint (big_Int64 z) \<and> big_Uint64 z < n \<longleftrightarrow> \<not> (z < 0 \<or> uint n \<le> z)" for z n
    by (auto simp: sint_big_Int64 big_Uint64_def word_less_def unsigned_of_int take_bit_int_eq_self)
  then show ?thesis using assms
    by (auto simp: out_of_range_def height_in_range_def block_arg_def split: option.splits)
qed

lemma filterLogs_filter:
  "filterLogs ls fr to addrs tops = filter (\<lambda>l. \<not> out_of_range fr to l \<and> wanted addrs tops (l_Address l) (l_Topics l)) ls"
  by (induction ls) (auto simp: filterFunc_wanted)

subsection \<open>A block given by its hash\<close>

text \<open>The logs of the block of a number, as the service gives them.\<close>

definition svc_logs :: "'b filter_service \<Rightarrow> int \<Rightarrow> geth_Log list" where
  "svc_logs svc n = (case fs_HeaderByNumber svc (word_of_int n) of
     Some (Inr (Some h)) \<Rightarrow> (case fs_GetLogs svc (hd_BlockHash h) of Inr lss \<Rightarrow> concat lss | _ \<Rightarrow> []) | _ \<Rightarrow> [])"

definition mem_lookup :: "bytes list \<Rightarrow> bytes \<Rightarrow> bool" where
  "mem_lookup b x \<longleftrightarrow> x \<in> set b"

text \<open>
  C26: \<open>eth_getLogs\<close> for a block given by its hash: \<open>HeaderByHash\<close> leaves out the bloom of the
  header, the search reads the empty bloom, in which nothing is found, as proof that the block
  holds no match, and the answer is empty for every criterion that names an address or a topic,
  whatever the block holds.
\<close>

theorem getLogs_by_hash_empty:
  assumes "\<And>x. \<not> lookup bloom0 x" and "fc_BlockHash crit = Some hash" and "hash \<noteq> 0"
    and "hs_GetBlockByHash (ra_history app) hash = Inr (Some blk)"
    and "fc_Addresses crit \<noteq> [] \<or> (\<exists>sub \<in> set (fc_Topics crit). sub \<noteq> [])"
  shows "api_GetLogs lookup bloom0 indexedLogs app crit = Some (Inr [])"
proof -
  have "\<not> bloomFilter lookup bloom0 (fc_Addresses crit) (fc_Topics crit)"
    using assms(1,5) by (auto simp: bloomFilter_def list_ex_iff list_all_iff)
  then show ?thesis
    using assms(2-4) by (simp add: api_GetLogs_def Logs_def NewBlockFilter_def newFilter_def backend_service_def
        bk_HeaderByHash_def blockLogs_def)
qed

definition demo_crit :: "bytes32 option \<Rightarrow> FilterCriteria" where
  "demo_crit h = \<lparr> fc_BlockHash = h, fc_FromBlock = Some 1, fc_ToBlock = None, fc_Addresses = [7], fc_Topics = [[]] \<rparr>"

lemmas demo_defs = demo_app_def demo_log_def demo_crit_def mem_app_def mem_history_def mem_block_def mem_tx_def mem_txs_def
  mem_ToGethLogs_def backend_service_def bk_HeaderByNumber_def bk_HeaderByHash_def bk_GetLogs_def tx_logs_def
  bk_LatestHeight_def bk_QueryLogs_def

theorem getLogs_by_hash_empty_witness:
  "api_GetLogs mem_lookup [] (\<lambda>_ _. None) demo_app (demo_crit (Some 1)) = Some (Inr [])
   \<and> (\<exists>l \<in> set (svc_logs (backend_service [] demo_app) 1). wanted [7] [[]] (l_Address l) (l_Topics l))"
proof
  show "api_GetLogs mem_lookup [] (\<lambda>_ _. None) demo_app (demo_crit (Some 1)) = Some (Inr [])"
    by (rule getLogs_by_hash_empty) (auto simp: mem_lookup_def demo_defs)
  show "\<exists>l \<in> set (svc_logs (backend_service [] demo_app) 1). wanted [7] [[]] (l_Address l) (l_Topics l)"
    by (simp add: svc_logs_def demo_defs wanted_def LatestBlockNumber_def)
qed

subsection \<open>Every search ends\<close>

lemma unindexed_loop_ends:
  assumes "sint (newest :: i64) < 2 ^ 63 - 1" and "\<And>n. fs_HeaderByNumber svc n \<noteq> None"
    and "\<And>n h. fs_HeaderByNumber svc n = Some (Inr (Some h)) \<Longrightarrow> sint n \<le> sint newest"
  shows "\<exists>r. unindexed_loop lookup svc f e acc = Some r"
proof (induction "nat (sint newest + 1 - sint (f_begin f))" arbitrary: f acc rule: less_induct)
  case less
  show ?case
  proof (cases "sint (f_begin f) \<le> sint e \<and> (\<exists>h. fs_HeaderByNumber svc (f_begin f) = Some (Inr (Some h)))")
    case True
    then obtain h where h: "fs_HeaderByNumber svc (f_begin f) = Some (Inr (Some h))" by blast
    then have le: "sint (f_begin f) \<le> sint newest" by (rule assms(3))
    then have "sint (f_begin f + 1) = sint (f_begin f) + 1" using assms(1) by (intro sint_inc) simp
    then have "\<exists>r. unindexed_loop lookup svc (f\<lparr> f_begin := f_begin f + 1 \<rparr>) e (acc @ found) = Some r" for found
      using le by (intro less) simp
    then show ?thesis using True h by (subst unindexed_loop.simps) (auto split: sum.split)
  next
    case False
    then show ?thesis using assms(2) [of "f_begin f"]
      by (subst unindexed_loop.simps) (auto split: sum.split option.split)
  qed
qed

text \<open>
  C27: Every search of \<open>Logs\<close> ends, whatever range a client asks for, also one whose end is the
  largest \<open>int64\<close>, where the loop variable would wrap around: when the history has no block
  above the current height, which is below the largest \<open>int64\<close>, and its lookups return a block
  or an error, the search returns an answer or an error.
\<close>

theorem Logs_terminates:
  assumes "sint (ra_currHeight app) < 2 ^ 63 - 1"
    and "\<And>n. hs_GetBlockByHeight (ra_history app) n \<noteq> Inr None"
    and "\<And>k. hs_GetBlockByHash (ra_history app) k \<noteq> Inr None"
    and "\<And>n blk. hs_GetBlockByHeight (ra_history app) n = Inr (Some blk) \<Longrightarrow> sint n \<le> sint (ra_currHeight app)"
    and "-1 \<le> sint (ra_currHeight app)"
  shows "\<exists>r. Logs lookup indexedLogs (backend_service bloom0 app) f = Some r"
proof -
  let ?svc = "backend_service bloom0 app"
  have some: "fs_HeaderByNumber ?svc n \<noteq> None" for n
    using assms(2) by (auto simp: backend_service_def bk_HeaderByNumber_def Let_def split: sum.split option.split)
  have le: "sint n \<le> sint (ra_currHeight app)" if "fs_HeaderByNumber ?svc n = Some (Inr (Some h))" for n h
    using that assms(4) [of n] assms(5)
    by (cases "n = LatestBlockNumber") (auto simp: backend_service_def bk_HeaderByNumber_def LatestBlockNumber_def Let_def
        split: sum.splits option.splits)
  have loop: "\<exists>r. unindexedLogs lookup ?svc g e = Some r" for g e
    unfolding unindexedLogs_def by (rule unindexed_loop_ends [OF assms(1) some le])
  have "fs_BloomStatus ?svc = (4096, 0)" by (simp add: backend_service_def bk_BloomStatus_def)
  then have range: "\<exists>r. range_logs lookup indexedLogs ?svc f nr = Some r" for nr
    using loop [of "if f_begin f = -1 then f\<lparr> f_begin := nr \<rparr> else f" "if f_end f = -1 then nr else f_end f"]
    by (auto simp: range_logs_def Let_def)
  have "\<exists>h. fs_HeaderByHash ?svc (f_block f) = Some h"
    using assms(3) by (auto simp: backend_service_def bk_HeaderByHash_def split: sum.split option.split)
  then show ?thesis using range some [of LatestBlockNumber]
    by (auto simp: Logs_def split: sum.split option.split)
qed

theorem Logs_terminates_witness:
  "\<exists>r. Logs mem_lookup (\<lambda>_ _. None) (backend_service [] demo_app)
     \<lparr> f_addresses = [7], f_topics = [[]], f_block = 0, f_begin = 1, f_end = 0x7FFFFFFFFFFFFFFF \<rparr> = Some r"
proof (rule Logs_terminates)
  fix n :: u64 and blk
  assume "hs_GetBlockByHeight (ra_history demo_app) n = Inr (Some blk)"
  then have "unat n \<noteq> 0" "unat n \<le> 3" by (auto simp: demo_defs split: if_splits)
  then have "unat n = 1 \<or> unat n = 2 \<or> unat n = 3" by arith
  then have "n = 1 \<or> n = 2 \<or> n = 3" by (simp add: word_unat_eq_iff)
  then show "sint n \<le> sint (ra_currHeight demo_app)" by (auto simp: demo_defs)
qed (auto simp: demo_defs)


subsection \<open>A range of heights\<close>

text \<open>
  What the history promises of \<open>QueryLogs\<close>: the logs of the blocks from the first height up to,
  and without, the second that pass the filter function.
\<close>

locale log_store =
  fixes H :: "('b, 'w) history" and stored :: "mo_Log list"
  assumes query: "hs_QueryLogs H as ts s e flt = Inr (filter (\<lambda>l. unat s \<le> unat (ml_BlockNumber l)
      \<and> unat (ml_BlockNumber l) < unat e \<and> flt (ml_Address l) (ml_Topics l) as ts) stored)"

interpretation mem_store: log_store "mem_history cs" "concat cs" for cs
  by unfold_locales (simp add: mem_history_def)

lemma unat_height:
  assumes "0 \<le> z" and "z < 2 ^ 32"
  shows "unat (ucast (word_of_int z :: i64) :: u32) = nat z"
proof -
  have "unat (word_of_int z :: i64) = nat z"
    using assms by (simp add: unsigned_of_int take_bit_int_eq_self)
  then show ?thesis
    using assms by (simp add: unsigned_ucast_eq take_bit_nat_eq_self)
qed

text \<open>The height a bound of the criterion stands for: a negative number, or none, is the newest block.\<close>

definition bound_of :: "int option \<Rightarrow> int \<Rightarrow> int" where
  "bound_of z latest = (case z of None \<Rightarrow> latest | Some n \<Rightarrow> if n < 0 then latest else n)"

lemma crit_height_bound:
  "block_arg z \<Longrightarrow> crit_height z latest = word_of_int (bound_of z (sint latest))"
proof (cases z)
  case (Some n)
  moreover assume "block_arg z"
  ultimately have "sint (big_Int64 n) = n" by (simp add: block_arg_def sint_big_Int64)
  then show ?thesis using Some by (simp add: crit_height_def bound_of_def) (simp add: big_Int64_def)
qed (simp add: crit_height_def bound_of_def LatestBlockNumber_def)



end
