(* ===== verification/Filters_Events.thy ===== *)
theory Filters_Events
  imports Filters_Match
begin

text \<open>
  The filters and subscriptions that follow the chain
  (\<open>src/rpc/api/filters/geth_filter_system.go\<close>, \<open>filter_api.go\<close>). The event loop owns the
  index of the subscriptions; it takes an event, computes what every subscription gets, and
  sends it over an unbuffered channel: it is blocked until somebody receives. Every filter
  has a goroutine that receives and, holding \<open>filtersMu\<close>, appends to the buffer of the filter;
  \<open>GetFilterChanges\<close> hands the buffer out and empties it. \<open>timeoutLoop\<close> removes the filters
  nobody asks for, and holds \<open>filtersMu\<close> while it waits for the event loop.

  The system is a step relation over the goroutines. What a goroutine does between two
  blocking operations is one step; a section that holds \<open>filtersMu\<close> without blocking is one
  step that needs the mutex to be free, so that only \<open>timeoutLoop\<close> is ever seen holding it.
  An identifier stands for the subscription it names. The end of the node, when the feeds
  close, is left out.
\<close>

type_synonym ID = nat

datatype sub_type = UnknownSubscription | LogsSubscription | PendingLogsSubscription
  | MinedAndPendingLogsSubscription | PendingTransactionsSubscription | BlocksSubscription

text \<open>A subscription; a channel is there or nil.\<close>

record subscription =
  s_typ :: sub_type
  s_logsCrit :: FilterCriteria
  s_logs :: bool
  s_hashes :: bool
  s_txs :: bool
  s_headers :: bool

text \<open>What the event loop receives, and what it sends; a header is given by its hash.\<close>

datatype chan = txsCh | logsCh | rmLogsCh | pendingLogsCh | chainCh

datatype event = NewTxsEvent "Tx list" | LogsEvent "geth_Log list" | RemovedLogsEvent "geth_Log list"
  | PendingLogsEvent "geth_Log list" | ChainEvent bytes32

datatype msg = MLogs "geth_Log list" | MTxs "Tx list" | MHeader bytes32

definition chan_size :: "chan \<Rightarrow> nat" where
  "chan_size c = (case c of txsCh \<Rightarrow> 4096 | logsCh \<Rightarrow> 10 | rmLogsCh \<Rightarrow> 10 | pendingLogsCh \<Rightarrow> 10 | chainCh \<Rightarrow> 10)"

fun chan_of :: "event \<Rightarrow> chan" where
  "chan_of (NewTxsEvent _) = txsCh"
| "chan_of (LogsEvent _) = logsCh"
| "chan_of (RemovedLogsEvent _) = rmLogsCh"
| "chan_of (PendingLogsEvent _) = pendingLogsCh"
| "chan_of (ChainEvent _) = chainCh"

subsection \<open>Subscriptions\<close>

definition no_crit :: FilterCriteria where
  "no_crit = \<lparr> fc_BlockHash = None, fc_FromBlock = None, fc_ToBlock = None, fc_Addresses = [], fc_Topics = [] \<rparr>"

definition subscribeLogs :: "FilterCriteria \<Rightarrow> subscription" where
  "subscribeLogs crit = \<lparr> s_typ = LogsSubscription, s_logsCrit = crit, s_logs = True, s_hashes = True,
     s_txs = False, s_headers = True \<rparr>"

definition SubscribeNewHeads :: subscription where
  "SubscribeNewHeads = \<lparr> s_typ = BlocksSubscription, s_logsCrit = no_crit, s_logs = True, s_hashes = True,
     s_txs = False, s_headers = True \<rparr>"

definition SubscribePendingTxs :: subscription where
  "SubscribePendingTxs = \<lparr> s_typ = PendingTransactionsSubscription, s_logsCrit = no_crit, s_logs = True,
     s_hashes = False, s_txs = True, s_headers = True \<rparr>"

definition SubscribeLogs :: "FilterCriteria \<Rightarrow> subscription res" where
  "SubscribeLogs crit =
     (let fr = (case fc_FromBlock crit of None \<Rightarrow> LatestBlockNumber | Some z \<Rightarrow> big_Int64 z);
          to = (case fc_ToBlock crit of None \<Rightarrow> LatestBlockNumber | Some z \<Rightarrow> big_Int64 z)
      in if fr = LatestBlockNumber \<and> to = LatestBlockNumber then Inr (subscribeLogs crit)
         else if 0 \<le> sint fr \<and> 0 \<le> sint to \<and> sint fr \<le> sint to then Inr (subscribeLogs crit)
         else if 0 \<le> sint fr \<and> to = LatestBlockNumber then Inr (subscribeLogs crit)
         else Inl (GoError ''invalid from and to block combination: from > to''))"

subsection \<open>What the event loop sends\<close>

text \<open>The loops over the index, with the subscriptions of a type in the order \<open>range\<close> visits them.\<close>

definition matched :: "FilterCriteria \<Rightarrow> geth_Log list \<Rightarrow> geth_Log list" where
  "matched crit ev = filterLogs ev (fc_FromBlock crit) (fc_ToBlock crit) (fc_Addresses crit) (fc_Topics crit)"

definition logs_msg :: "geth_Log list \<Rightarrow> ID \<times> subscription \<Rightarrow> (ID \<times> msg) list" where
  "logs_msg ev e = (case e of (i, f) \<Rightarrow>
     (let m = matched (s_logsCrit f) ev in if m \<noteq> [] then [(i, MLogs m)] else []))"

definition handleLogs :: "(sub_type \<Rightarrow> (ID \<times> subscription) list) \<Rightarrow> geth_Log list \<Rightarrow> (ID \<times> msg) list" where
  "handleLogs filters ev = (if ev = [] then [] else concat (map (logs_msg ev) (filters LogsSubscription)))"

definition handleRemovedLogs :: "(sub_type \<Rightarrow> (ID \<times> subscription) list) \<Rightarrow> geth_Log list \<Rightarrow> (ID \<times> msg) list" where
  "handleRemovedLogs filters ev = concat (map (logs_msg ev) (filters LogsSubscription))"

definition handleTxsEvent :: "(sub_type \<Rightarrow> (ID \<times> subscription) list) \<Rightarrow> Tx list \<Rightarrow> (ID \<times> msg) list" where
  "handleTxsEvent filters txs = map (\<lambda>(i, f). (i, MTxs txs)) (filters PendingTransactionsSubscription)"

definition handleChainEvent :: "(sub_type \<Rightarrow> (ID \<times> subscription) list) \<Rightarrow> bytes32 \<Rightarrow> (ID \<times> msg) list" where
  "handleChainEvent filters h = map (\<lambda>(i, f). (i, MHeader h)) (filters BlocksSubscription)"

fun handle_event :: "(sub_type \<Rightarrow> (ID \<times> subscription) list) \<Rightarrow> event \<Rightarrow> (ID \<times> msg) list" where
  "handle_event filters (NewTxsEvent txs) = handleTxsEvent filters txs"
| "handle_event filters (LogsEvent ev) = handleLogs filters ev"
| "handle_event filters (RemovedLogsEvent ev) = handleRemovedLogs filters ev"
| "handle_event filters (PendingLogsEvent ev) = []"
| "handle_event filters (ChainEvent h) = handleChainEvent filters h"

subsection \<open>Filters\<close>

record flt =
  flt_typ :: sub_type
  flt_expired :: bool
  flt_hashes :: "bytes32 list"
  flt_fullTx :: bool
  flt_txs :: "Tx list"
  flt_crit :: FilterCriteria
  flt_logs :: "geth_Log list"

definition new_logs_filter :: "FilterCriteria \<Rightarrow> flt" where
  "new_logs_filter crit = \<lparr> flt_typ = LogsSubscription, flt_expired = False, flt_hashes = [], flt_fullTx = False,
     flt_txs = [], flt_crit = crit, flt_logs = [] \<rparr>"

definition new_txs_filter :: "bool option \<Rightarrow> flt" where
  "new_txs_filter fullTx = \<lparr> flt_typ = PendingTransactionsSubscription, flt_expired = False, flt_hashes = [],
     flt_fullTx = (fullTx = Some True), flt_txs = [], flt_crit = no_crit, flt_logs = [] \<rparr>"

definition new_block_filter :: flt where
  "new_block_filter = \<lparr> flt_typ = BlocksSubscription, flt_expired = False, flt_hashes = [], flt_fullTx = False,
     flt_txs = [], flt_crit = no_crit, flt_logs = [] \<rparr>"

text \<open>The goroutine of a filter appends what it received to the buffer.\<close>

fun store :: "msg \<Rightarrow> flt \<Rightarrow> flt" where
  "store (MLogs l) f = f\<lparr> flt_logs := flt_logs f @ l \<rparr>"
| "store (MTxs pTx) f = f\<lparr> flt_txs := flt_txs f @ pTx \<rparr>"
| "store (MHeader h) f = f\<lparr> flt_hashes := flt_hashes f @ [h] \<rparr>"

text \<open>The elements of an answer of \<open>GetFilterChanges\<close>; \<open>sender\<close> recovers the sender of a transaction.\<close>

datatype out = OutLog geth_Log | OutHash bytes32 | OutTx rpc_Transaction

definition pending_tx :: "(Tx \<Rightarrow> address) \<Rightarrow> Tx \<Rightarrow> rpc_Transaction" where
  "pending_tx sender tx = \<lparr> rt_BlockHash = None, rt_BlockNumber = 0, rt_From = sender tx, rt_Gas = t_Gas tx,
     rt_GasPrice = t_GasPrice tx, rt_Hash = t_Hash tx, rt_Input = t_Data tx, rt_Nonce = t_Nonce tx, rt_To = t_To tx,
     rt_TransactionIndex = Some 0, rt_Value = t_Value tx, rt_V = t_V tx, rt_R = t_R tx, rt_S = t_S tx \<rparr>"

definition GetFilterChanges :: "(Tx \<Rightarrow> address) \<Rightarrow> flt \<Rightarrow> out list res \<times> flt" where
  "GetFilterChanges sender f0 =
     (let f = f0\<lparr> flt_expired := False \<rparr>
      in case flt_typ f of
           PendingTransactionsSubscription \<Rightarrow>
             (if flt_fullTx f then (Inr (map (OutTx \<circ> pending_tx sender) (flt_txs f)), f\<lparr> flt_txs := [] \<rparr>)
              else (Inr (map (OutHash \<circ> t_Hash) (flt_txs f)), f\<lparr> flt_txs := [] \<rparr>))
         | BlocksSubscription \<Rightarrow> (Inr (map OutHash (flt_hashes f)), f\<lparr> flt_hashes := [] \<rparr>)
         | LogsSubscription \<Rightarrow> (Inr (map OutLog (flt_logs f)), f\<lparr> flt_logs := [] \<rparr>)
         | _ \<Rightarrow> (Inl (GoError ''invalid filter type''), f))"

subsection \<open>The state of the system\<close>

text \<open>
  The goroutine of a filter waits (\<open>GWait\<close>), or has received and waits for the mutex (\<open>GGot\<close>);
  the goroutine of a subscription of \<open>Logs\<close> or \<open>NewHeads\<close> waits (\<open>NWait\<close>). The caller that
  creates a filter has subscribed and not yet entered the filter (\<open>CInstalled\<close>); somebody is
  in \<open>Unsubscribe\<close> (\<open>CUnsub\<close>).
\<close>

datatype gstate = GNone | GWait | GGot msg | NWait | GDone
datatype cstate = CNone | CInstalled flt | CUnsub
datatype tstate = TIdle | TScan "ID list" | TUnsub ID "ID list"

record fsys =
  es_index :: "sub_type \<Rightarrow> (ID \<times> subscription) list"
  es_sending :: "(ID \<times> msg) list"
  es_ch :: "chan \<Rightarrow> event list"
  es_subs :: "ID \<rightharpoonup> subscription"
  es_err :: "ID \<Rightarrow> bool"
  fa_filters :: "ID \<rightharpoonup> flt"
  fa_gor :: "ID \<Rightarrow> gstate"
  fa_call :: "ID \<Rightarrow> cstate"
  fa_timeout :: tstate

text \<open>\<open>NewEventSystem\<close> and \<open>NewAPI\<close>.\<close>

definition NewAPI :: fsys where
  "NewAPI = \<lparr> es_index = (\<lambda>_. []), es_sending = [], es_ch = (\<lambda>_. []), es_subs = Map.empty, es_err = (\<lambda>_. False),
     fa_filters = Map.empty, fa_gor = (\<lambda>_. GNone), fa_call = (\<lambda>_. CNone), fa_timeout = TIdle \<rparr>"

text \<open>\<open>filtersMu\<close> is held by \<open>timeoutLoop\<close> from the tick to the end of its scan.\<close>

definition mu_free :: "fsys \<Rightarrow> bool" where
  "mu_free s \<longleftrightarrow> fa_timeout s = TIdle"

text \<open>The cases of the event loop that change the index: a subscription is installed or uninstalled.\<close>

definition es_install :: "ID \<Rightarrow> subscription \<Rightarrow> fsys \<Rightarrow> fsys" where
  "es_install i f s = s\<lparr> es_index := (es_index s)(s_typ f := (i, f) # es_index s (s_typ f)),
     es_subs := (es_subs s)(i \<mapsto> f) \<rparr>"

definition es_uninstall :: "ID \<Rightarrow> fsys \<Rightarrow> fsys" where
  "es_uninstall i s = (case es_subs s i of None \<Rightarrow> s
     | Some f \<Rightarrow> s\<lparr> es_index := (es_index s)(s_typ f := filter (\<lambda>e. fst e \<noteq> i) (es_index s (s_typ f))),
                    es_err := (es_err s)(i := True) \<rparr>)"

text \<open>\<open>Unsubscribe\<close> reads the channels of logs, hashes and headers while it waits, not the one of transactions.\<close>

fun drains :: "msg \<Rightarrow> bool" where
  "drains (MLogs _) = True"
| "drains (MHeader _) = True"
| "drains (MTxs _) = False"

text \<open>The callers that create something, with the subscription and the filter they make.\<close>

datatype creation = CreateLogs FilterCriteria | CreateTxs "bool option" | CreateBlocks
  | CreateNotifyLogs FilterCriteria | CreateNotifyHeads

fun created :: "creation \<Rightarrow> (subscription \<times> flt option) res" where
  "created (CreateLogs crit) = (case SubscribeLogs crit of Inl err \<Rightarrow> Inl err
     | Inr f \<Rightarrow> Inr (f, Some (new_logs_filter crit)))"
| "created (CreateTxs fullTx) = Inr (SubscribePendingTxs, Some (new_txs_filter fullTx))"
| "created CreateBlocks = Inr (SubscribeNewHeads, Some new_block_filter)"
| "created (CreateNotifyLogs crit) = (case SubscribeLogs crit of Inl err \<Rightarrow> Inl err | Inr f \<Rightarrow> Inr (f, None))"
| "created CreateNotifyHeads = Inr (SubscribeNewHeads, None)"

definition set_gor :: "ID \<Rightarrow> gstate \<Rightarrow> fsys \<Rightarrow> fsys" where
  "set_gor i g s = s\<lparr> fa_gor := (fa_gor s)(i := g) \<rparr>"

definition set_call :: "ID \<Rightarrow> cstate \<Rightarrow> fsys \<Rightarrow> fsys" where
  "set_call i c s = s\<lparr> fa_call := (fa_call s)(i := c) \<rparr>"

definition set_filter :: "ID \<Rightarrow> flt option \<Rightarrow> fsys \<Rightarrow> fsys" where
  "set_filter i f s = s\<lparr> fa_filters := (fa_filters s)(i := f) \<rparr>"

text \<open>The filter is entered and its goroutine started; the two cases of the loop of the goroutine.\<close>

definition enter_filter :: "ID \<Rightarrow> flt \<Rightarrow> fsys \<Rightarrow> fsys" where
  "enter_filter i g s = set_gor i GWait (set_call i CNone (set_filter i (Some g) s))"

definition gor_append :: "ID \<Rightarrow> msg \<Rightarrow> fsys \<Rightarrow> fsys" where
  "gor_append i m s = set_gor i GWait (set_filter i (map_option (store m) (fa_filters s i)) s)"

definition gor_close :: "ID \<Rightarrow> fsys \<Rightarrow> fsys" where
  "gor_close i s = set_gor i GDone (set_filter i None s)"

text \<open>\<open>UninstallFilter\<close> up to the call of \<open>Unsubscribe\<close>, and what it returns.\<close>

definition UninstallFilter :: "ID \<Rightarrow> fsys \<Rightarrow> bool \<times> fsys" where
  "UninstallFilter i s = (case fa_filters s i of None \<Rightarrow> (False, s)
     | Some _ \<Rightarrow> (True, set_call i CUnsub (set_filter i None s)))"

text \<open>\<open>GetFilterLogs\<close> searches the stored logs for the criterion of the filter.\<close>

definition GetFilterLogs ::
  "('b \<Rightarrow> bytes \<Rightarrow> bool) \<Rightarrow> 'b \<Rightarrow> (Filter \<Rightarrow> u64 \<Rightarrow> (Filter \<times> geth_Log list res) option)
    \<Rightarrow> ('c, 'b, 'w) rpc_app \<Rightarrow> fsys \<Rightarrow> ID \<Rightarrow> geth_Log list go" where
  "GetFilterLogs lookup bloom0 indexedLogs app s i = (case fa_filters s i of
     None \<Rightarrow> Some (Inl (GoError ''filter not found''))
   | Some f \<Rightarrow> if flt_typ f \<noteq> LogsSubscription then Some (Inl (GoError ''filter not found''))
               else api_GetLogs lookup bloom0 indexedLogs app (flt_crit f))"

text \<open>What \<open>timeoutLoop\<close> does with the next filter: it unsubscribes the expired one.\<close>

definition timeout_check :: "ID \<Rightarrow> flt \<Rightarrow> ID list \<Rightarrow> tstate" where
  "timeout_check i f ids = (if flt_expired f then TUnsub i ids else TScan ids)"

definition start_call :: "ID \<Rightarrow> flt option \<Rightarrow> fsys \<Rightarrow> fsys" where
  "start_call i g s = (case g of Some g \<Rightarrow> set_call i (CInstalled g) s | None \<Rightarrow> set_gor i NWait s)"

datatype label = LTake event | LCreate ID | LPoll ID "out list" | LUninstall ID | LNotify ID msg | LTau

inductive fstep :: "(Tx \<Rightarrow> address) \<Rightarrow> fsys \<Rightarrow> label \<Rightarrow> fsys \<Rightarrow> bool" for sender where
  feed: "length (es_ch s (chan_of ev)) < chan_size (chan_of ev) \<Longrightarrow>
    fstep sender s LTau (s\<lparr> es_ch := (es_ch s)(chan_of ev := es_ch s (chan_of ev) @ [ev]) \<rparr>)"
| loop_take: "es_sending s = [] \<Longrightarrow> es_ch s c = ev # evs \<Longrightarrow> (\<And>t. mset (idx t) = mset (es_index s t)) \<Longrightarrow>
    fstep sender s (LTake ev) (s\<lparr> es_ch := (es_ch s)(c := evs), es_sending := handle_event idx ev \<rparr>)"
| create: "es_sending s = [] \<Longrightarrow> es_subs s i = None \<Longrightarrow> created k = Inr (f, g) \<Longrightarrow>
    fstep sender s (LCreate i) (start_call i g (es_install i f s))"
| enter: "fa_call s i = CInstalled g \<Longrightarrow> mu_free s \<Longrightarrow>
    fstep sender s LTau (enter_filter i g s)"
| receive: "es_sending s = (i, m) # ps \<Longrightarrow> fa_gor s i = GWait \<Longrightarrow>
    fstep sender s LTau (set_gor i (GGot m) (s\<lparr> es_sending := ps \<rparr>))"
| append: "fa_gor s i = GGot m \<Longrightarrow> mu_free s \<Longrightarrow>
    fstep sender s LTau (gor_append i m s)"
| notify: "es_sending s = (i, m) # ps \<Longrightarrow> fa_gor s i = NWait \<Longrightarrow>
    fstep sender s (LNotify i m) (s\<lparr> es_sending := ps \<rparr>)"
| notify_end: "fa_gor s i = NWait \<Longrightarrow> fstep sender s LTau (set_gor i GDone (set_call i CUnsub s))"
| uninstall: "UninstallFilter i s = (True, s') \<Longrightarrow> mu_free s \<Longrightarrow>
    fstep sender s (LUninstall i) s'"
| unsub_drain: "es_sending s = (i, m) # ps \<Longrightarrow> fa_call s i = CUnsub \<Longrightarrow> drains m \<Longrightarrow>
    fstep sender s LTau (s\<lparr> es_sending := ps \<rparr>)"
| unsub: "es_sending s = [] \<Longrightarrow> fa_call s i = CUnsub \<Longrightarrow>
    fstep sender s LTau (set_call i CNone (es_uninstall i s))"
| gor_end: "es_err s i \<Longrightarrow> fa_gor s i = GWait \<Longrightarrow> mu_free s \<Longrightarrow>
    fstep sender s LTau (gor_close i s)"
| poll: "fa_filters s i = Some g \<Longrightarrow> mu_free s \<Longrightarrow> GetFilterChanges sender g = (Inr r, g') \<Longrightarrow>
    fstep sender s (LPoll i r) (set_filter i (Some g') s)"
| expire: "fa_filters s i = Some g \<Longrightarrow>
    fstep sender s LTau (set_filter i (Some (g\<lparr> flt_expired := True \<rparr>)) s)"
| tick: "mu_free s \<Longrightarrow> distinct ids \<Longrightarrow> set ids = dom (fa_filters s) \<Longrightarrow>
    fstep sender s LTau (s\<lparr> fa_timeout := TScan ids \<rparr>)"
| scan_next: "fa_timeout s = TScan (i # ids) \<Longrightarrow> fa_filters s i = Some g \<Longrightarrow>
    fstep sender s LTau (s\<lparr> fa_timeout := timeout_check i g ids \<rparr>)"
| scan_drain: "fa_timeout s = TUnsub i ids \<Longrightarrow> es_sending s = (i, m) # ps \<Longrightarrow> drains m \<Longrightarrow>
    fstep sender s LTau (s\<lparr> es_sending := ps \<rparr>)"
| scan_unsub: "fa_timeout s = TUnsub i ids \<Longrightarrow> es_sending s = [] \<Longrightarrow>
    fstep sender s LTau (set_filter i None (es_uninstall i (s\<lparr> fa_timeout := TScan ids \<rparr>)))"
| scan_end: "fa_timeout s = TScan [] \<Longrightarrow> fstep sender s LTau (s\<lparr> fa_timeout := TIdle \<rparr>)"

text \<open>A run, its trace the newest step first.\<close>

inductive run :: "(Tx \<Rightarrow> address) \<Rightarrow> label list \<Rightarrow> fsys \<Rightarrow> bool" for sender where
  start: "run sender [] NewAPI"
| step: "run sender ls s \<Longrightarrow> fstep sender s l s' \<Longrightarrow> run sender (l # ls) s'"


subsection \<open>The invariant\<close>

definition sub_ok :: "subscription \<Rightarrow> bool" where
  "sub_ok f \<longleftrightarrow> f = SubscribeNewHeads \<or> f = SubscribePendingTxs \<or> (\<exists>crit. f = subscribeLogs crit)"

fun msg_type :: "msg \<Rightarrow> sub_type" where
  "msg_type (MLogs _) = LogsSubscription"
| "msg_type (MTxs _) = PendingTransactionsSubscription"
| "msg_type (MHeader _) = BlocksSubscription"

definition flt_ok :: "subscription \<Rightarrow> flt \<Rightarrow> bool" where
  "flt_ok f g \<longleftrightarrow> flt_typ g = s_typ f \<and> flt_crit g = s_logsCrit f
     \<and> (s_typ f \<noteq> LogsSubscription \<longrightarrow> flt_logs g = [])
     \<and> (s_typ f \<noteq> PendingTransactionsSubscription \<longrightarrow> flt_txs g = [])
     \<and> (s_typ f \<noteq> BlocksSubscription \<longrightarrow> flt_hashes g = [])"

definition gor_alive :: "gstate \<Rightarrow> bool" where
  "gor_alive g \<longleftrightarrow> g = GWait \<or> (\<exists>m. g = GGot m)"

text \<open>How far a subscription is: not made, being made, followed by a filter or a client, ending, or over.\<close>

definition phase_ok :: "subscription option \<Rightarrow> bool \<Rightarrow> flt option \<Rightarrow> gstate \<Rightarrow> cstate \<Rightarrow> bool" where
  "phase_ok sub err flt gor call \<longleftrightarrow> (case sub of
     None \<Rightarrow> \<not> err \<and> flt = None \<and> gor = GNone \<and> call = CNone
   | Some f \<Rightarrow> sub_ok f \<and> (\<forall>m. gor = GGot m \<longrightarrow> msg_type m = s_typ f) \<and>
       (case call of
          CInstalled g \<Rightarrow> \<not> err \<and> flt = None \<and> gor = GNone \<and> flt_ok f g
            \<and> flt_logs g = [] \<and> flt_txs g = [] \<and> flt_hashes g = []
        | CUnsub \<Rightarrow> \<not> err \<and> flt = None
            \<and> (gor_alive gor \<or> gor = GDone \<and> s_typ f \<noteq> PendingTransactionsSubscription)
        | CNone \<Rightarrow> (case flt of
            Some g \<Rightarrow> \<not> err \<and> flt_ok f g \<and> gor_alive gor
          | None \<Rightarrow> if err then gor_alive gor \<or> gor = GDone
                    else gor = NWait \<and> s_typ f \<noteq> PendingTransactionsSubscription)))"

definition id_ok :: "fsys \<Rightarrow> ID \<Rightarrow> bool" where
  "id_ok s i \<longleftrightarrow> phase_ok (es_subs s i) (es_err s i) (fa_filters s i) (fa_gor s i) (fa_call s i)"

definition index_ok :: "fsys \<Rightarrow> bool" where
  "index_ok s \<longleftrightarrow> (\<forall>t. distinct (map fst (es_index s t)) \<and>
     (\<forall>i f. (i, f) \<in> set (es_index s t) \<longleftrightarrow> es_subs s i = Some f \<and> s_typ f = t \<and> \<not> es_err s i))"

definition send_ok :: "fsys \<Rightarrow> bool" where
  "send_ok s \<longleftrightarrow> distinct (map fst (es_sending s)) \<and>
     (\<forall>i m. (i, m) \<in> set (es_sending s) \<longrightarrow> (\<exists>f. es_subs s i = Some f \<and> \<not> es_err s i \<and> msg_type m = s_typ f))"

definition time_ok :: "fsys \<Rightarrow> bool" where
  "time_ok s \<longleftrightarrow> (case fa_timeout s of TIdle \<Rightarrow> True
     | TScan ids \<Rightarrow> distinct ids \<and> set ids \<subseteq> dom (fa_filters s)
     | TUnsub i ids \<Rightarrow> distinct (i # ids) \<and> set (i # ids) \<subseteq> dom (fa_filters s))"

definition fsys_ok :: "fsys \<Rightarrow> bool" where
  "fsys_ok s \<longleftrightarrow> (\<forall>i. id_ok s i) \<and> index_ok s \<and> send_ok s \<and> time_ok s"

lemma fsys_okD: assumes "fsys_ok s"
  shows "id_ok s i" and "index_ok s" and "send_ok s" and "time_ok s"
  using assms by (auto simp: fsys_ok_def)

lemmas fsys_upd = set_gor_def set_call_def set_filter_def start_call_def es_install_def enter_filter_def gor_append_def gor_close_def

lemma UninstallFilter_True:
  "UninstallFilter i s = (True, s') \<longleftrightarrow> (\<exists>g. fa_filters s i = Some g) \<and> s' = set_call i CUnsub (set_filter i None s)"
  by (auto simp: UninstallFilter_def split: option.split)

lemma sub_ok_typ: "sub_ok f \<Longrightarrow> s_typ f \<in> {LogsSubscription, PendingTransactionsSubscription, BlocksSubscription}"
  by (auto simp: sub_ok_def SubscribeNewHeads_def SubscribePendingTxs_def subscribeLogs_def)

lemma created_ok:
  assumes "created k = Inr (f, g)"
  shows "sub_ok f" and "g = Some h \<Longrightarrow> flt_ok f h \<and> flt_logs h = [] \<and> flt_txs h = [] \<and> flt_hashes h = []"
    and "g = None \<Longrightarrow> s_typ f \<noteq> PendingTransactionsSubscription"
  using assms
  by (cases k; auto simp: SubscribeLogs_def Let_def sub_ok_def flt_ok_def SubscribeNewHeads_def SubscribePendingTxs_def
      subscribeLogs_def new_logs_filter_def new_txs_filter_def new_block_filter_def split: if_splits)+

lemma flt_ok_store: "flt_ok f g \<Longrightarrow> msg_type m = s_typ f \<Longrightarrow> flt_ok f (store m g)"
  by (cases m) (auto simp: flt_ok_def)

lemma flt_ok_poll: "flt_ok f g \<Longrightarrow> GetFilterChanges sender g = (r, g') \<Longrightarrow> flt_ok f g'"
  by (auto simp: flt_ok_def GetFilterChanges_def Let_def split: sub_type.splits if_splits)


text \<open>Every step keeps the four parts of the invariant.\<close>

lemma id_ok_fresh: "id_ok s i \<Longrightarrow> es_subs s i = None \<Longrightarrow>
    \<not> es_err s i \<and> fa_filters s i = None \<and> fa_gor s i = GNone \<and> fa_call s i = CNone"
  by (simp add: id_ok_def phase_ok_def)

lemma id_ok_sub: assumes "id_ok s i"
  shows "fa_filters s i = Some g \<Longrightarrow> \<exists>f. es_subs s i = Some f \<and> \<not> es_err s i \<and> flt_ok f g \<and> sub_ok f \<and> fa_call s i = CNone"
    and "fa_call s i = CInstalled g \<Longrightarrow> \<exists>f. es_subs s i = Some f \<and> \<not> es_err s i \<and> flt_ok f g \<and> sub_ok f
      \<and> flt_logs g = [] \<and> flt_txs g = [] \<and> flt_hashes g = [] \<and> fa_filters s i = None"
    and "fa_call s i = CUnsub \<Longrightarrow> \<exists>f. es_subs s i = Some f \<and> \<not> es_err s i \<and> fa_filters s i = None"
    and "fa_gor s i = NWait \<Longrightarrow> \<exists>f. es_subs s i = Some f \<and> \<not> es_err s i \<and> fa_filters s i = None
      \<and> fa_call s i = CNone \<and> s_typ f \<noteq> PendingTransactionsSubscription"
    and "fa_gor s i = GGot m \<Longrightarrow> \<exists>f. es_subs s i = Some f \<and> msg_type m = s_typ f"
    and "fa_filters s i = Some g \<or> fa_call s i = CUnsub \<Longrightarrow> gor_alive (fa_gor s i) \<or> fa_gor s i = GDone"
  using assms by (auto simp: id_ok_def phase_ok_def gor_alive_def split: option.splits cstate.splits if_splits)

lemma send_hd: assumes "send_ok s" and "es_sending s = (i, m) # ps"
  shows "\<exists>f. es_subs s i = Some f \<and> \<not> es_err s i \<and> msg_type m = s_typ f"
  using assms unfolding send_ok_def by (metis list.set_intros(1))

lemmas phase_splits = option.splits cstate.splits if_splits

lemma id_ok_step:
  assumes st: "fstep sender s l s'" and ok: "\<And>i. id_ok s i" and snd: "send_ok s" and tm: "time_ok s"
  shows "id_ok s' j"
proof -
  have un: "es_subs s i = Some f \<Longrightarrow> fa_call s' = (fa_call s)(i := CNone) \<Longrightarrow> fa_filters s' = (fa_filters s)(i := None)
      \<Longrightarrow> es_err s' = (es_err s)(i := True) \<Longrightarrow> es_subs s' = es_subs s \<Longrightarrow> fa_gor s' = fa_gor s
      \<Longrightarrow> gor_alive (fa_gor s i) \<or> fa_gor s i = GDone \<Longrightarrow> id_ok s' j" for i f
    using ok [of j] by (cases "j = i") (auto simp: id_ok_def phase_ok_def split: phase_splits)
  from st show ?thesis
  proof cases
    case (create i k f g)
    then show ?thesis using ok [of j] created_ok [OF create(5)] id_ok_fresh [OF ok create(4)]
      by (cases "j = i"; cases g) (simp_all add: id_ok_def fsys_upd, auto simp: phase_ok_def)
  next
    case (enter i g)
    then show ?thesis using ok [of j] id_ok_sub(2) [OF ok enter(3)]
      by (cases "j = i") (simp_all add: id_ok_def fsys_upd, auto simp: phase_ok_def gor_alive_def)
  next
    case (receive i m ps)
    then show ?thesis using ok [of j] send_hd [OF snd receive(3)]
      by (cases "j = i") (simp_all add: id_ok_def fsys_upd, auto simp: phase_ok_def gor_alive_def split: phase_splits)
  next
    case (append i m)
    then show ?thesis using ok [of j] id_ok_sub(5) [OF ok append(3)]
      by (cases "j = i") (simp_all add: id_ok_def fsys_upd, auto simp: phase_ok_def gor_alive_def flt_ok_store split: phase_splits)
  next
    case (notify_end i)
    then show ?thesis using ok [of j] id_ok_sub(4) [OF ok notify_end(3)]
      by (cases "j = i") (simp_all add: id_ok_def fsys_upd, auto simp: phase_ok_def)
  next
    case (uninstall i)
    then obtain g where g: "fa_filters s i = Some g" by (auto simp: UninstallFilter_True)
    show ?thesis using uninstall ok [of j] id_ok_sub(1) [OF ok g] g
      by (cases "j = i") (simp_all add: id_ok_def fsys_upd UninstallFilter_True, auto simp: phase_ok_def gor_alive_def)
  next
    case (unsub i)
    then obtain f where f: "es_subs s i = Some f" "fa_filters s i = None" using id_ok_sub(3) [OF ok] by blast
    show ?thesis using unsub f id_ok_sub(6) [OF ok, of i]
      by (intro un [OF f(1)]) (simp_all add: es_uninstall_def fsys_upd fun_upd_idem)
  next
    case (gor_end i)
    then show ?thesis using ok [of j]
      by (cases "j = i") (simp_all add: id_ok_def fsys_upd, auto simp: phase_ok_def gor_alive_def split: phase_splits)
  next
    case (poll i g r g')
    then show ?thesis using ok [of j] id_ok_sub(1) [OF ok poll(3)]
      by (cases "j = i") (simp_all add: id_ok_def fsys_upd, auto simp: phase_ok_def dest: flt_ok_poll)
  next
    case (expire i g)
    then show ?thesis using ok [of j] id_ok_sub(1) [OF ok expire(3)]
      by (cases "j = i") (simp_all add: id_ok_def fsys_upd, auto simp: phase_ok_def flt_ok_def)
  next
    case (scan_unsub i ids)
    then obtain g where g: "fa_filters s i = Some g" using tm by (auto simp: time_ok_def)
    obtain f where f: "es_subs s i = Some f" "fa_call s i = CNone" using id_ok_sub(1) [OF ok g] by blast
    show ?thesis using scan_unsub f id_ok_sub(6) [OF ok, of i] g
      by (intro un [OF f(1)]) (simp_all add: es_uninstall_def fsys_upd fun_upd_idem)
  qed (use ok [of j] in \<open>simp_all add: id_ok_def\<close>)
qed

lemma handle_fst:
  assumes "\<And>t. mset (idx t) = mset (es_index s t)" and "index_ok s"
  shows "distinct (map fst (handle_event idx ev))"
    and "(i, m) \<in> set (handle_event idx ev) \<Longrightarrow> \<exists>f. es_subs s i = Some f \<and> \<not> es_err s i \<and> msg_type m = s_typ f"
proof -
  have set: "set (idx t) = set (es_index s t)" for t by (metis assms(1) set_mset_mset)
  have dist: "distinct (map fst (idx t))" for t
    using assms by (metis index_ok_def mset_eq_imp_distinct_iff mset_map)
  have logs: "distinct (map fst xs) \<Longrightarrow> distinct (map fst (concat (map (logs_msg e) xs)))" for xs e
  proof (induction xs)
    case (Cons x xs)
    have "fst ` set (concat (map (logs_msg e) xs)) \<subseteq> fst ` set xs"
      by (force simp: logs_msg_def Let_def split: if_splits)
    then show ?case using Cons by (cases x) (auto simp: logs_msg_def Let_def intro: rev_image_eqI)
  qed simp
  show "distinct (map fst (handle_event idx ev))"
    using dist logs by (cases ev)
      (auto simp: handleTxsEvent_def handleLogs_def handleRemovedLogs_def handleChainEvent_def comp_def case_prod_beta)
  assume "(i, m) \<in> set (handle_event idx ev)"
  then obtain f where "(i, f) \<in> set (es_index s (msg_type m))"
    by (cases ev) (auto simp: handleTxsEvent_def handleLogs_def handleRemovedLogs_def handleChainEvent_def set
        logs_msg_def Let_def split: if_splits)
  then show "\<exists>f. es_subs s i = Some f \<and> \<not> es_err s i \<and> msg_type m = s_typ f"
    using assms(2) by (auto simp: index_ok_def)
qed

lemma index_ok_step:
  assumes "fstep sender s l s'" and "fsys_ok s"
  shows "index_ok s'"
proof -
  note ix = fsys_okD(2) [OF assms(2)]
  have un: "es_subs s i = Some f \<Longrightarrow> es_index s' = (es_index s)(s_typ f := filter (\<lambda>e. fst e \<noteq> i) (es_index s (s_typ f)))
      \<Longrightarrow> es_err s' = (es_err s)(i := True) \<Longrightarrow> es_subs s' = es_subs s \<Longrightarrow> index_ok s'" for i f
    using ix by (auto simp: index_ok_def distinct_map_filter)
  from assms(1) show ?thesis
  proof cases
    case (create i k f g)
    have "i \<notin> fst ` set (es_index s t)" for t
      using ix create(4) by (force simp: index_ok_def)
    then show ?thesis using create ix id_ok_fresh [OF fsys_okD(1) [OF assms(2)] create(4)]
      by (auto simp: index_ok_def fsys_upd split: option.splits)
  next
    case (unsub i)
    then show ?thesis using id_ok_sub(3) [OF fsys_okD(1) [OF assms(2)] unsub(4)] un
      by (auto simp: es_uninstall_def fsys_upd)
  next
    case (scan_unsub i ids)
    then obtain g where "fa_filters s i = Some g" using fsys_okD(4) [OF assms(2)] by (auto simp: time_ok_def)
    then obtain f where "es_subs s i = Some f" using id_ok_sub(1) [OF fsys_okD(1) [OF assms(2)]] by blast
    then show ?thesis using un scan_unsub by (simp add: es_uninstall_def fsys_upd)
  qed (use ix in \<open>auto simp: index_ok_def fsys_upd UninstallFilter_True\<close>)
qed

lemma send_ok_step:
  assumes "fstep sender s l s'" and "fsys_ok s"
  shows "send_ok s'"
  using assms(1)
proof cases
  case (loop_take c ev evs idx)
  then show ?thesis using handle_fst [OF loop_take(5) fsys_okD(2) [OF assms(2)]]
    by (auto simp: send_ok_def)
qed (use fsys_okD(3) [OF assms(2)] in \<open>auto simp: send_ok_def fsys_upd es_uninstall_def UninstallFilter_True split: option.splits\<close>)

lemma time_ok_step:
  assumes "fstep sender s l s'" and "fsys_ok s"
  shows "time_ok s'"
  using assms(1)
proof cases
  case (gor_end i)
  then show ?thesis by (simp add: time_ok_def fsys_upd mu_free_def)
qed (use fsys_okD(4) [OF assms(2)] in \<open>auto simp: time_ok_def fsys_upd es_uninstall_def mu_free_def UninstallFilter_True timeout_check_def split: option.splits tstate.splits\<close>)

lemma fsys_ok_step: "fstep sender s l s' \<Longrightarrow> fsys_ok s \<Longrightarrow> fsys_ok s'"
  using id_ok_step [OF _ fsys_okD(1,3,4)] index_ok_step send_ok_step time_ok_step
  by (auto simp: fsys_ok_def)

lemma run_ok: "run sender ls s \<Longrightarrow> fsys_ok s"
proof (induction rule: run.induct)
  case start
  then show ?case
    by (auto simp: fsys_ok_def id_ok_def phase_ok_def index_ok_def send_ok_def time_ok_def NewAPI_def)
qed (rule fsys_ok_step)

end
