(* ===== verification/Filters_Delivery.thy ===== *)
theory Filters_Delivery
  imports Filters_Events
begin

text \<open>
  What the filters deliver, in every interleaving (\<open>Filters_Events\<close> is the system): nothing is
  lost and nothing comes twice, the event loop never sends on a nil channel, it gets on while the
  mutex is free, and \<open>timeoutLoop\<close> can block it for good.
\<close>

subsection \<open>What a filter hands out\<close>

text \<open>
  The specification, read off the trace: the events the loop has taken since the filter was
  created, what each of them is worth to the filter, and what the polls have returned.
\<close>

fun events_taken :: "ID \<Rightarrow> label list \<Rightarrow> event list" where
  "events_taken i [] = []"
| "events_taken i (LTake ev # ls) = (if LCreate i \<in> set ls then events_taken i ls @ [ev] else [])"
| "events_taken i (l # ls) = events_taken i ls"

fun polled :: "ID \<Rightarrow> label list \<Rightarrow> out list" where
  "polled i [] = []"
| "polled i (LPoll j r # ls) = (if j = i then polled i ls @ r else polled i ls)"
| "polled i (l # ls) = polled i ls"

definition out_txs :: "(Tx \<Rightarrow> address) \<Rightarrow> flt \<Rightarrow> Tx list \<Rightarrow> out list" where
  "out_txs sender g txs = (if flt_fullTx g then map (OutTx \<circ> pending_tx sender) txs else map (OutHash \<circ> t_Hash) txs)"

fun out_msg :: "(Tx \<Rightarrow> address) \<Rightarrow> flt \<Rightarrow> msg \<Rightarrow> out list" where
  "out_msg sender g (MLogs l) = map OutLog l"
| "out_msg sender g (MTxs txs) = out_txs sender g txs"
| "out_msg sender g (MHeader h) = [OutHash h]"

definition event_out :: "(Tx \<Rightarrow> address) \<Rightarrow> flt \<Rightarrow> event \<Rightarrow> out list" where
  "event_out sender g ev = (case flt_typ g of
     LogsSubscription \<Rightarrow> (case ev of LogsEvent l \<Rightarrow> map OutLog (matched (flt_crit g) l)
       | RemovedLogsEvent l \<Rightarrow> map OutLog (matched (flt_crit g) l) | _ \<Rightarrow> [])
   | PendingTransactionsSubscription \<Rightarrow> (case ev of NewTxsEvent txs \<Rightarrow> out_txs sender g txs | _ \<Rightarrow> [])
   | BlocksSubscription \<Rightarrow> (case ev of ChainEvent h \<Rightarrow> [OutHash h] | _ \<Rightarrow> [])
   | _ \<Rightarrow> [])"

definition buffered :: "(Tx \<Rightarrow> address) \<Rightarrow> flt \<Rightarrow> out list" where
  "buffered sender g = (case fst (GetFilterChanges sender g) of Inr r \<Rightarrow> r | Inl _ \<Rightarrow> [])"

definition got :: "gstate \<Rightarrow> msg list" where
  "got g = (case g of GGot m \<Rightarrow> [m] | _ \<Rightarrow> [])"

definition in_flight :: "(Tx \<Rightarrow> address) \<Rightarrow> flt \<Rightarrow> ID \<Rightarrow> fsys \<Rightarrow> out list" where
  "in_flight sender g i s = concat (map (out_msg sender g) (got (fa_gor s i)))
     @ concat (map (\<lambda>(j, m). if j = i then out_msg sender g m else []) (es_sending s))"

text \<open>The configuration of a filter is all that decides what an event is worth to it.\<close>

definition same_conf :: "flt \<Rightarrow> flt \<Rightarrow> bool" where
  "same_conf g h \<longleftrightarrow> flt_typ g = flt_typ h \<and> flt_crit g = flt_crit h \<and> flt_fullTx g = flt_fullTx h"

lemma same_conf_outs:
  assumes "same_conf g h"
  shows "event_out sender g = event_out sender h" and "out_msg sender g = out_msg sender h"
    and "in_flight sender g = in_flight sender h"
proof -
  show m: "out_msg sender g = out_msg sender h"
    using assms by (intro ext, rename_tac m, case_tac m) (auto simp: out_txs_def same_conf_def)
  show "event_out sender g = event_out sender h"
    using assms by (intro ext) (auto simp: event_out_def out_txs_def same_conf_def split: sub_type.split event.split)
  show "in_flight sender g = in_flight sender h"
    unfolding fun_eq_iff in_flight_def m by simp
qed

lemma buffered_store:
  "msg_type m = flt_typ g \<Longrightarrow> buffered sender (store m g) = buffered sender g @ out_msg sender g m"
  by (cases m) (auto simp: buffered_def GetFilterChanges_def out_txs_def Let_def split: sub_type.splits)

lemma same_conf_store: "same_conf (store m g) g"
  by (cases m) (auto simp: same_conf_def)

lemma poll_buffered:
  assumes "GetFilterChanges sender g = (Inr r, g')"
  shows "r = buffered sender g" and "buffered sender g' = []" and "same_conf g' g"
  using assms by (auto simp: buffered_def same_conf_def GetFilterChanges_def Let_def split: sub_type.splits if_splits)

text \<open>An event is sent to a subscription once, and sends it what it is worth.\<close>

lemma concat_once:
  assumes "distinct (map fst xs)" and "(i, f) \<in> set xs" and "\<And>e. e \<in> set xs \<Longrightarrow> fst e \<noteq> i \<Longrightarrow> h e = []"
  shows "concat (map h xs) = h (i, f)"
  using assms
proof (induction xs)
  case (Cons x xs)
  show ?case
  proof (cases "x = (i, f)")
    case True
    then have "concat (map h xs) = []" using Cons.prems by (force simp: concat_eq_Nil_conv)
    then show ?thesis using True by simp
  next
    case False
    then have mem: "(i, f) \<in> set xs" using Cons.prems(2) by auto
    then have "i \<in> fst ` set xs" by (rule rev_image_eqI) simp
    then have "fst x \<noteq> i" using Cons.prems(1) by auto
    then have "h x = []" using Cons.prems(3) by simp
    then show ?thesis using mem Cons by simp
  qed
qed simp

lemma concat_out: "concat (map (\<lambda>(j, m). if j = i then k m else []) (concat (map h xs)))
    = concat (map (\<lambda>e. concat (map (\<lambda>(j, m). if j = i then k m else []) (h e))) xs)"
  by (induction xs) auto

lemma handle_out:
  assumes idx: "\<And>t. mset (idx t) = mset (es_index s t)" and ok: "index_ok s"
    and f: "es_subs s i = Some f" "\<not> es_err s i" "flt_ok f g" "sub_ok f"
  shows "concat (map (\<lambda>(j, m). if j = i then out_msg sender g m else []) (handle_event idx ev)) = event_out sender g ev"
proof -
  have set: "set (idx t) = set (es_index s t)" for t by (metis idx set_mset_mset)
  have dist: "distinct (map fst (idx t))" for t
    using idx ok by (metis index_ok_def mset_eq_imp_distinct_iff mset_map)
  have mem: "(i, f) \<in> set (idx (s_typ f))" using f ok by (simp add: index_ok_def set)
  have notin: "t \<noteq> s_typ f \<Longrightarrow> e \<in> set (idx t) \<Longrightarrow> fst e \<noteq> i" for t e
    using f ok by (cases e) (auto simp: index_ok_def set)
  have conf: "flt_typ g = s_typ f" "flt_crit g = s_logsCrit f" using f(3) by (auto simp: flt_ok_def)
  have sent: "concat (map (\<lambda>(j, m). if j = i then out_msg sender g m else []) (concat (map h (idx t))))
      = (if t = s_typ f then concat (map (\<lambda>(j, m). if j = i then out_msg sender g m else []) (h (i, f))) else [])"
    if "\<And>e j m. (j, m) \<in> set (h e) \<Longrightarrow> j = fst e" for t and h :: "ID \<times> subscription \<Rightarrow> (ID \<times> msg) list"
  proof (cases "t = s_typ f")
    case True
    then show ?thesis unfolding concat_out using that
      by (simp, intro concat_once [OF dist mem]) (force simp: concat_eq_Nil_conv)
  next
    case False
    then show ?thesis unfolding concat_out using that notin by (force simp: concat_eq_Nil_conv)
  qed
  have single: "map (\<lambda>(j, f'). (j, m)) xs = concat (map (\<lambda>e. [(fst e, m)]) xs)"
    for m and xs :: "(ID \<times> subscription) list" by (induction xs) auto
  have one: "concat (map (\<lambda>(j, m). if j = i then out_msg sender g m else []) (map (\<lambda>(j, f'). (j, m)) (idx t)))
      = (if t = s_typ f then out_msg sender g m else [])" for m t
    unfolding single by (subst sent) auto
  have logs: "concat (map (\<lambda>(j, m). if j = i then out_msg sender g m else []) (concat (map (logs_msg l) (idx t))))
      = (if t = s_typ f then map OutLog (matched (s_logsCrit f) l) else [])" for l t
    by (subst sent) (auto simp: logs_msg_def Let_def split: if_splits)
  have "matched c [] = []" for c by (simp add: matched_def)
  then show ?thesis using conf sub_ok_typ [OF f(4)]
    by (cases ev) (auto simp only: handle_event.simps handleTxsEvent_def handleLogs_def handleRemovedLogs_def
        handleChainEvent_def one logs event_out_def event.case sub_type.case out_msg.simps insert_iff empty_iff
        sub_type.distinct if_True if_False list.map concat.simps split: if_split)
qed


subsection \<open>Nothing is lost and nothing comes twice\<close>

definition owner :: "fsys \<Rightarrow> ID \<Rightarrow> flt \<Rightarrow> bool" where
  "owner s i g \<longleftrightarrow> fa_filters s i = Some g \<or> fa_call s i = CInstalled g"

definition timing_out :: "fsys \<Rightarrow> ID \<Rightarrow> bool" where
  "timing_out s i \<longleftrightarrow> (\<exists>ids. fa_timeout s = TUnsub i ids)"

definition account :: "(Tx \<Rightarrow> address) \<Rightarrow> label list \<Rightarrow> fsys \<Rightarrow> ID \<Rightarrow> flt \<Rightarrow> bool" where
  "account sender ls s i g \<longleftrightarrow> polled i ls @ buffered sender g @ in_flight sender g i s
     = concat (map (event_out sender g) (events_taken i ls))"

definition books :: "(Tx \<Rightarrow> address) \<Rightarrow> label list \<Rightarrow> fsys \<Rightarrow> ID \<Rightarrow> bool" where
  "books sender ls s i \<longleftrightarrow> (LCreate i \<in> set ls \<longleftrightarrow> es_subs s i \<noteq> None) \<and> (es_subs s i = None \<longrightarrow> polled i ls = [])
     \<and> (\<forall>g. owner s i g \<longrightarrow> \<not> timing_out s i \<longrightarrow> account sender ls s i g)"

lemma account_cong:
  assumes "account sender ls s i g" and "polled i ls' = polled i ls" and "events_taken i ls' = events_taken i ls"
    and "got (fa_gor s' i) = got (fa_gor s i)" and "filter (\<lambda>e. fst e = i) (es_sending s') = filter (\<lambda>e. fst e = i) (es_sending s)"
  shows "account sender ls' s' i g"
proof -
  have "concat (map (\<lambda>(j, m). if j = i then out_msg sender g m else []) xs)
      = concat (map (\<lambda>(j, m). out_msg sender g m) (filter (\<lambda>e. fst e = i) xs))" for xs
    by (induction xs) auto
  then show ?thesis using assms by (simp add: account_def in_flight_def)
qed

lemma account_conf:
  assumes "account sender ls s i g" and "same_conf g' g" and "buffered sender g' = buffered sender g"
  shows "account sender ls s i g'"
  using assms(1,3) by (simp add: account_def same_conf_outs [OF assms(2)])

text \<open>The steps that move a message of the filter, or take an event.\<close>

lemma account_take:
  assumes "account sender ls s i g" and "fstep sender s (LTake ev) s'" and "fsys_ok s" and "owner s i g" and "LCreate i \<in> set ls"
  shows "account sender (LTake ev # ls) s' i g"
proof -
  obtain c evs idx where st: "es_sending s = []" "\<And>t. mset (idx t) = mset (es_index s t)"
    "s' = s\<lparr> es_ch := (es_ch s)(c := evs), es_sending := handle_event idx ev \<rparr>"
    using assms(2) by (cases rule: fstep.cases) auto
  obtain f where f: "es_subs s i = Some f" "\<not> es_err s i" "flt_ok f g" "sub_ok f"
    using assms(4) id_ok_sub(1,2) [OF fsys_okD(1) [OF assms(3)]] unfolding owner_def by blast
  show ?thesis
    using assms(1,5) st(1,3) handle_out [OF st(2) fsys_okD(2) [OF assms(3)] f, of sender ev]
    by (simp add: account_def in_flight_def got_def)
qed

lemma account_receive:
  assumes "account sender ls s i g" and "es_sending s = (i, m) # ps" and "fa_gor s i = GWait"
  shows "account sender (LTau # ls) (set_gor i (GGot m) (s\<lparr> es_sending := ps \<rparr>)) i g"
  using assms by (simp add: account_def in_flight_def got_def set_gor_def)

lemma account_append:
  assumes "account sender ls s i g" and "fa_gor s i = GGot m" and "msg_type m = flt_typ g" and "es_sending s' = es_sending s"
  shows "account sender (LTau # ls) (set_gor i GWait s') i (store m g)"
  using assms buffered_store [OF assms(3), of sender]
  by (simp add: account_def in_flight_def got_def set_gor_def same_conf_outs [OF same_conf_store])

lemma account_poll:
  assumes "account sender ls s i g" and "GetFilterChanges sender g = (Inr r, g')"
  shows "account sender (LPoll i r # ls) s i g'"
  using assms(1) poll_buffered [OF assms(2)] by (simp add: account_def same_conf_outs [of g' g])


lemma books_quiet:
  assumes "books sender ls s i" and "es_subs s' i = es_subs s i" and "l = LTau \<or> (\<exists>j m. l = LNotify j m) \<or> (\<exists>j. l = LUninstall j)"
    and "got (fa_gor s' i) = got (fa_gor s i)" and "filter (\<lambda>e. fst e = i) (es_sending s') = filter (\<lambda>e. fst e = i) (es_sending s)"
    and "\<And>g. owner s' i g \<Longrightarrow> \<not> timing_out s' i \<Longrightarrow> owner s i g \<and> \<not> timing_out s i"
  shows "books sender (l # ls) s' i"
proof -
  have "polled i (l # ls) = polled i ls" "events_taken i (l # ls) = events_taken i ls" "LCreate i \<in> set (l # ls) \<longleftrightarrow> LCreate i \<in> set ls"
    using assms(3) by auto
  moreover have "account sender (l # ls) s' i g" if "owner s' i g" "\<not> timing_out s' i" for g
    using assms(1) assms(6) [OF that] by (intro account_cong [OF _ calculation(1,2) assms(4,5)]) (simp add: books_def)
  ultimately show ?thesis using assms(1,2) by (simp add: books_def)
qed

lemma books_owner:
  assumes "\<And>g. owner s' i g \<Longrightarrow> \<not> timing_out s' i \<Longrightarrow> account sender (l # ls) s' i g"
    and "books sender ls s i" and "es_subs s' i = es_subs s i" and "es_subs s i \<noteq> None"
  shows "books sender (l # ls) s' i"
  using assms by (auto simp: books_def)

lemma owner_simps:
  "owner (set_gor j x s) i g = owner s i g" "timing_out (set_gor j x s) i = timing_out s i"
  "timing_out (set_call j y s) i = timing_out s i" "timing_out (set_filter j z s) i = timing_out s i"
  "owner (s\<lparr> es_sending := ps \<rparr>) i g = owner s i g" "timing_out (s\<lparr> es_sending := ps \<rparr>) i = timing_out s i"
  "owner (s\<lparr> es_ch := ch \<rparr>) i g = owner s i g" "timing_out (s\<lparr> es_ch := ch \<rparr>) i = timing_out s i"
  "owner (s\<lparr> fa_timeout := t \<rparr>) i g = owner s i g" "timing_out (es_uninstall j s) i = timing_out s i"
  "owner (es_uninstall j s) i g = owner s i g"
  by (auto simp: owner_def timing_out_def fsys_upd es_uninstall_def split: option.splits)

lemma books_append:
  assumes "books sender ls s i" and ok: "fsys_ok s" and j: "fa_gor s j = GGot m" and "mu_free s"
  shows "books sender (LTau # ls) (set_gor j GWait (set_filter j (map_option (store m) (fa_filters s j)) s)) i"
proof (cases "j = i")
  case True
  obtain f where f: "es_subs s i = Some f" "msg_type m = s_typ f" "fa_gor s i = GGot m"
    using id_ok_sub(5) [OF fsys_okD(1) [OF ok] j] j True by blast
  have "fa_call s i \<noteq> CInstalled g" for g
    using fsys_okD(1) [OF ok, of i] f by (auto simp: id_ok_def phase_ok_def)
  moreover have "account sender (LTau # ls) (set_gor i GWait (set_filter i x s)) i (store m g)"
    if g: "fa_filters s i = Some g" for g x
  proof (rule account_append [OF _ f(3)])
    show "account sender ls s i g"
      using assms(1,4) g by (simp add: books_def owner_def mu_free_def timing_out_def)
    show "msg_type m = flt_typ g"
      using id_ok_sub(1) [OF fsys_okD(1) [OF ok] g] f by (auto simp: flt_ok_def)
  qed (simp add: set_filter_def)
  ultimately show ?thesis using assms(1) True f
    by (intro books_owner) (auto simp: owner_def set_filter_def set_gor_def)
next
  case False
  then show ?thesis
    by (intro books_quiet [OF assms(1)]) (auto simp: owner_simps, auto simp: owner_def fsys_upd)
qed


lemma books_receive:
  assumes "books sender ls s i" and ok: "fsys_ok s" and "es_sending s = (j, m) # ps" and "fa_gor s j = GWait"
  shows "books sender (LTau # ls) (set_gor j (GGot m) (s\<lparr> es_sending := ps \<rparr>)) i"
proof (cases "j = i")
  case True
  moreover have "es_subs s i \<noteq> None"
    using send_hd [OF fsys_okD(3) [OF ok] assms(3)] True by auto
  ultimately show ?thesis using assms(1,3,4) account_receive [of sender ls s i _ m ps]
    by (intro books_owner [OF _ assms(1)]) (auto simp: owner_simps books_def, simp_all add: set_gor_def)
next
  case False
  then show ?thesis using assms(3)
    by (intro books_quiet [OF assms(1)]) (auto simp: owner_simps, simp_all add: set_gor_def)
qed

lemma books_create:
  assumes "books sender ls s i" and ok: "fsys_ok s" and "es_sending s = []" and new: "es_subs s j = None"
    and "created k = Inr (f, g)"
  shows "books sender (LCreate j # ls) (start_call j g (es_install j f s)) i"
proof (cases "j = i")
  case True
  have "\<not> LCreate i \<in> set ls" "polled i ls = []"
    using assms(1) new True by (auto simp: books_def)
  moreover have "LCreate i \<notin> set ls \<Longrightarrow> events_taken i ls = []" for ls
    by (induction ls rule: events_taken.induct) auto
  moreover have "fa_gor s i = GNone" "fa_filters s i = None" "fa_call s i = CNone"
    using id_ok_fresh [OF fsys_okD(1) [OF ok] new] True by auto
  moreover have "g = Some h \<Longrightarrow> buffered sender h = []" for h
    using created_ok(2) [OF assms(5)] by (auto simp: buffered_def GetFilterChanges_def Let_def split: sub_type.split)
  ultimately show ?thesis using True assms(3)
    by (cases g) (auto simp: books_def owner_def fsys_upd account_def in_flight_def got_def)
next
  case False
  have "account sender ls s i h \<Longrightarrow> account sender (LCreate j # ls) (start_call j g (es_install j f s)) i h" for h
    using False by (cases g) (auto intro!: account_cong [of sender ls s i h] simp: fsys_upd)
  then show ?thesis using False assms(1)
    by (cases g) (auto simp: books_def owner_def timing_out_def fsys_upd)
qed

lemma books_poll:
  assumes "books sender ls s i" and ok: "fsys_ok s" and j: "fa_filters s j = Some g" and "mu_free s"
    and r: "GetFilterChanges sender g = (Inr r, g')"
  shows "books sender (LPoll j r # ls) (set_filter j (Some g') s) i"
proof (cases "j = i")
  case True
  obtain f where f: "es_subs s i = Some f" "fa_call s i = CNone"
    using id_ok_sub(1) [OF fsys_okD(1) [OF ok] j] True by blast
  have "account sender ls s i g"
    using assms(1,4) j True by (simp add: books_def owner_def mu_free_def timing_out_def)
  then have "account sender (LPoll i r # ls) s i g'" using r by (rule account_poll)
  then have "account sender (LPoll i r # ls) (set_filter i (Some g') s) i g'"
    by (simp add: account_def in_flight_def got_def set_filter_def)
  then show ?thesis using f True
    by (intro books_owner [OF _ assms(1)]) (auto simp: owner_def set_filter_def)
next
  case False
  have "account sender ls s i h \<Longrightarrow> account sender (LPoll j r # ls) (set_filter j (Some g') s) i h" for h
    using False by (auto intro!: account_cong [of sender ls s i h] simp: set_filter_def)
  then show ?thesis using False assms(1)
    by (auto simp: books_def owner_def timing_out_def set_filter_def)
qed

lemma books_expire:
  assumes "books sender ls s i" and j: "fa_filters s j = Some g"
  shows "books sender (LTau # ls) (set_filter j (Some (g\<lparr> flt_expired := True \<rparr>)) s) i"
proof (cases "j = i")
  case True
  have same: "same_conf (g\<lparr> flt_expired := True \<rparr>) g" "buffered sender (g\<lparr> flt_expired := True \<rparr>) = buffered sender g"
    by (simp_all add: same_conf_def buffered_def GetFilterChanges_def Let_def split: sub_type.split)
  have "account sender ls s i h \<Longrightarrow> account sender (LTau # ls) (set_filter i x s) i h" for h x
    by (rule account_cong) (auto simp: set_filter_def)
  then show ?thesis using True assms account_conf [OF _ same, of ls s i]
    by (auto simp: books_def owner_def timing_out_def set_filter_def)
next
  case False
  then show ?thesis by (intro books_quiet [OF assms(1)]) (auto simp: owner_simps, auto simp: owner_def fsys_upd)
qed

lemma books_drop:
  assumes "books sender ls s i" and "es_sending s = (j, m) # ps" and "l = LTau \<or> (\<exists>j m. l = LNotify j m)"
    and "\<And>g. owner s j g \<Longrightarrow> timing_out s j"
  shows "books sender (l # ls) (s\<lparr> es_sending := ps \<rparr>) i"
proof (cases "j = i")
  case True
  then show ?thesis using assms(1,3) assms(4) by (auto simp: books_def owner_simps)
next
  case False
  then show ?thesis using assms(2,3) by (intro books_quiet [OF assms(1)]) (auto simp: owner_simps)
qed

lemma books_step:
  assumes "fstep sender s l s'" and bk: "books sender ls s i" and ok: "fsys_ok s"
  shows "books sender (l # ls) s' i"
proof -
  note D = fsys_okD(1) [OF ok]
  have subs: "es_subs (es_uninstall j s) i = es_subs s i" for j
    by (auto simp: es_uninstall_def split: option.split)
  from assms(1) show ?thesis
  proof cases
    case (loop_take c ev evs idx)
    have "owner s i g \<Longrightarrow> LCreate i \<in> set ls" for g
      using bk id_ok_sub(1,2) [OF D, of i g] by (auto simp: books_def owner_def)
    then show ?thesis
      using bk account_take [OF _ assms(1) [unfolded loop_take(1)] ok] loop_take
      by (auto simp: books_def owner_simps)
  next
    case (create j k f g)
    then show ?thesis using books_create [OF bk ok] by simp
  next
    case (enter j g)
    then have "fa_gor s j = GNone" using D [of j] id_ok_sub(2) [OF D enter(3)] by (auto simp: id_ok_def phase_ok_def)
    then show ?thesis using enter
      by (cases "j = i"; intro books_quiet [OF bk])
        (auto simp: owner_simps enter_filter_def, auto simp: owner_def fsys_upd got_def)
  next
    case (receive j m ps)
    then show ?thesis using books_receive [OF bk ok] by simp
  next
    case (append j m)
    then show ?thesis using books_append [OF bk ok] by (simp add: gor_append_def)
  next
    case (poll j g r g')
    then show ?thesis using books_poll [OF bk ok] by simp
  next
    case (expire j g)
    then show ?thesis using books_expire [OF bk] by simp
  next
    case (notify j m ps)
    then have "fa_filters s j = None" "fa_call s j = CNone" using id_ok_sub(4) [OF D] by blast+
    then show ?thesis using notify books_drop [OF bk notify(3)] by (simp add: owner_def)
  next
    case (notify_end j)
    then have "fa_filters s j = None" using id_ok_sub(4) [OF D] by blast+
    then show ?thesis using notify_end
      by (cases "j = i"; intro books_quiet [OF bk]) (auto simp: owner_simps, auto simp: owner_def fsys_upd got_def)
  next
    case (uninstall j)
    then show ?thesis
      by (cases "j = i"; intro books_quiet [OF bk])
        (auto simp: owner_simps UninstallFilter_True, auto simp: owner_def fsys_upd)
  next
    case (unsub_drain j m ps)
    then have "fa_filters s j = None" using id_ok_sub(3) [OF D] by blast
    then show ?thesis using unsub_drain books_drop [OF bk unsub_drain(3)] by (simp add: owner_def)
  next
    case (unsub j)
    then have "fa_filters s j = None" using id_ok_sub(3) [OF D] by blast
    then show ?thesis using unsub
      by (intro books_quiet [OF bk]) (auto simp: owner_simps, auto simp: owner_def fsys_upd es_uninstall_def split: option.splits if_splits)
  next
    case (gor_end j)
    then show ?thesis
      by (cases "j = i"; intro books_quiet [OF bk]) (auto simp: owner_simps gor_close_def, auto simp: owner_def fsys_upd got_def)
  next
    case (scan_drain j ids m ps)
    then have "timing_out s j" by (simp add: timing_out_def)
    then show ?thesis using scan_drain books_drop [OF bk scan_drain(4)] by simp
  next
    case (scan_unsub j ids)
    then obtain g where g: "fa_filters s j = Some g" using fsys_okD(4) [OF ok] by (auto simp: time_ok_def)
    then have "fa_call s j = CNone" using id_ok_sub(1) [OF D g] by blast
    then show ?thesis using scan_unsub
      by (intro books_quiet [OF bk]) (auto simp: owner_simps, auto simp: owner_def timing_out_def fsys_upd es_uninstall_def split: option.splits if_splits)
  qed (rule books_quiet [OF bk]; simp add: owner_simps timing_out_def mu_free_def timeout_check_def split: if_splits)+
qed


lemma run_books: "run sender ls s \<Longrightarrow> books sender ls s i"
proof (induction rule: run.induct)
  case start
  then show ?case by (simp add: books_def owner_def NewAPI_def)
next
  case (step ls s l s')
  then show ?case using books_step run_ok by blast
qed

text \<open>
  C15: A filter loses nothing and repeats nothing, in every interleaving of the event loop, the
  goroutines and the callers: what its polls have returned so far, then what the next poll
  would return, then what is on its way to the filter, is exactly what the events taken
  since the filter was created are worth to it, in the order they were taken. It holds for log,
  block and transaction filters, as long as the filter exists and \<open>timeoutLoop\<close> is not removing
  it.
\<close>

theorem filter_delivers_exactly:
  assumes "run sender ls s" and "fa_filters s i = Some g" and "\<not> timing_out s i"
  shows "polled i ls @ buffered sender g @ in_flight sender g i s = concat (map (event_out sender g) (events_taken i ls))"
  using run_books [OF assms(1), of i] assms(2,3) by (simp add: books_def account_def owner_def)

definition channel_there :: "subscription \<Rightarrow> msg \<Rightarrow> bool" where
  "channel_there f m = (case m of MLogs _ \<Rightarrow> s_logs f | MTxs _ \<Rightarrow> s_txs f | MHeader _ \<Rightarrow> s_headers f)"

text \<open>
  C23: The event loop never sends on a nil channel, which would block it for good: what it
  sends to a subscription fits the type of the subscription and the channel is there. And every
  filter has one of the three types \<open>GetFilterChanges\<close> knows, so that a poll of an existing
  filter gives an answer and never the error of an invalid type.
\<close>

theorem subscriptions_typed:
  assumes "run sender ls s"
  shows "(\<forall>(i, m) \<in> set (es_sending s). \<exists>f. (i, f) \<in> set (es_index s (s_typ f)) \<and> msg_type m = s_typ f \<and> channel_there f m)
    \<and> (\<forall>i g. fa_filters s i = Some g \<longrightarrow> (\<exists>r g'. GetFilterChanges sender g = (Inr r, g')))"
proof (intro conjI)
  note ok = run_ok [OF assms]
  have "channel_there f m" if "sub_ok f" "msg_type m = s_typ f" for f m
    using that by (cases m) (auto simp: sub_ok_def channel_there_def SubscribeNewHeads_def SubscribePendingTxs_def subscribeLogs_def)
  moreover have "es_subs s i = Some f \<Longrightarrow> sub_ok f" for i f
    using fsys_okD(1) [OF ok, of i] by (simp add: id_ok_def phase_ok_def)
  ultimately have there: "es_subs s i = Some f \<Longrightarrow> msg_type m = s_typ f \<Longrightarrow> channel_there f m" for i f m by blast
  show "\<forall>(i, m) \<in> set (es_sending s). \<exists>f. (i, f) \<in> set (es_index s (s_typ f)) \<and> msg_type m = s_typ f \<and> channel_there f m"
  proof clarify
    fix i m assume "(i, m) \<in> set (es_sending s)"
    then obtain f where "es_subs s i = Some f" "\<not> es_err s i" "msg_type m = s_typ f"
      using fsys_okD(3) [OF ok] unfolding send_ok_def by blast
    then show "\<exists>f. (i, f) \<in> set (es_index s (s_typ f)) \<and> msg_type m = s_typ f \<and> channel_there f m"
      using there fsys_okD(2) [OF ok] unfolding index_ok_def by blast
  qed
  show "\<forall>i g. fa_filters s i = Some g \<longrightarrow> (\<exists>r g'. GetFilterChanges sender g = (Inr r, g'))"
  proof (intro allI impI)
    fix i g assume "fa_filters s i = Some g"
    then obtain f where "flt_ok f g" "sub_ok f" using id_ok_sub(1) [OF fsys_okD(1) [OF ok]] by blast
    then show "\<exists>r g'. GetFilterChanges sender g = (Inr r, g')"
      using sub_ok_typ [of f] by (auto simp: flt_ok_def GetFilterChanges_def Let_def)
  qed
qed


subsection \<open>The event loop gets on while the mutex is free\<close>

definition quiet :: "label \<Rightarrow> bool" where
  "quiet l \<longleftrightarrow> l = LTau \<or> (\<exists>i m. l = LNotify i m)"

lemma quiet_labels: "list_all quiet ls' \<Longrightarrow> events_taken i (ls' @ ls) = events_taken i ls \<and> polled i (ls' @ ls) = polled i ls"
  by (induction ls') (auto simp: quiet_def)

text \<open>A continuation of a run by quiet steps that keeps the filter \<open>i\<close> and leaves \<open>ps\<close> to send.\<close>

definition gets_to :: "(Tx \<Rightarrow> address) \<Rightarrow> label list \<Rightarrow> ID \<Rightarrow> flt \<Rightarrow> (ID \<times> msg) list \<Rightarrow> (fsys \<Rightarrow> bool) \<Rightarrow> bool" where
  "gets_to sender ls i g ps P \<longleftrightarrow> (\<exists>ls' s' g'. run sender (ls' @ ls) s' \<and> list_all quiet ls' \<and> mu_free s'
     \<and> fa_filters s' i = Some g' \<and> same_conf g' g \<and> es_sending s' = ps \<and> P s')"

lemma gets_to_step:
  assumes "gets_to sender ls i g ps P"
    and "\<And>s' g'. P s' \<Longrightarrow> mu_free s' \<Longrightarrow> fa_filters s' i = Some g' \<Longrightarrow> es_sending s' = ps \<Longrightarrow>
      \<exists>l s''. fstep sender s' l s'' \<and> quiet l \<and> mu_free s'' \<and> (\<exists>g''. fa_filters s'' i = Some g'' \<and> same_conf g'' g')
        \<and> es_sending s'' = qs \<and> Q s''"
  shows "gets_to sender ls i g qs Q"
proof -
  obtain ls' s' g' where r: "run sender (ls' @ ls) s'" "list_all quiet ls'" "mu_free s'" "fa_filters s' i = Some g'"
    "same_conf g' g" "es_sending s' = ps" "P s'" using assms(1) unfolding gets_to_def by blast
  obtain l s'' g'' where st: "fstep sender s' l s''" "quiet l" "mu_free s''" "fa_filters s'' i = Some g''"
    "same_conf g'' g'" "es_sending s'' = qs" "Q s''" using assms(2) [OF r(7,3,4,6)] by blast
  have "run sender ((l # ls') @ ls) s''" using run.step [OF r(1) st(1)] by simp
  moreover have "same_conf g'' g" using st(5) r(5) by (simp add: same_conf_def)
  ultimately show ?thesis unfolding gets_to_def using r(2) st by (intro exI [of _ "l # ls'"] exI) auto
qed

lemma append_step:
  assumes "fa_gor s j = GGot m" and "mu_free s" and "fa_filters s i = Some g"
  shows "\<exists>s'. fstep sender s LTau s' \<and> mu_free s' \<and> (\<exists>g'. fa_filters s' i = Some g' \<and> same_conf g' g)
    \<and> es_sending s' = es_sending s \<and> fa_gor s' = (fa_gor s)(j := GWait) \<and> fa_call s' = fa_call s"
  using fstep.append [OF assms(1,2), of sender] assms same_conf_store
  by (intro exI [of _ "set_gor j GWait (set_filter j (map_option (store m) (fa_filters s j)) s)"])
    (auto simp: fsys_upd mu_free_def same_conf_def)

lemma receive_step:
  assumes "fa_gor s j = GWait" and "mu_free s" and "fa_filters s i = Some g" and "es_sending s = (j, m) # ps"
  shows "\<exists>l s'. fstep sender s l s' \<and> quiet l \<and> mu_free s' \<and> (\<exists>g'. fa_filters s' i = Some g' \<and> same_conf g' g)
    \<and> es_sending s' = ps \<and> True"
  using fstep.receive [OF assms(4,1), of sender] assms
  by (intro exI [of _ LTau] exI [of _ "set_gor j (GGot m) (s\<lparr> es_sending := ps \<rparr>)"])
    (auto simp: fsys_upd mu_free_def same_conf_def quiet_def)

text \<open>Somebody takes the message the loop offers, after a filter in the making is entered or a message is appended.\<close>

lemma gets_to_tl:
  assumes "run sender ls s" and "mu_free s" and g: "fa_filters s i = Some g" and snd: "es_sending s = (j, m) # ps"
  shows "gets_to sender ls i g ps (\<lambda>_. True)"
proof -
  note ok = run_ok [OF assms(1)]
  have here: "gets_to sender ls i g (es_sending s) (\<lambda>s'. s' = s)"
    unfolding gets_to_def using assms by (intro exI [of _ "[]"]) (auto simp: same_conf_def)
  obtain f where f: "es_subs s j = Some f" "\<not> es_err s j" "msg_type m = s_typ f"
    using send_hd [OF fsys_okD(3) [OF ok] snd] by blast
  have waiting: "gets_to sender ls i g ((j, m) # ps) (\<lambda>s'. fa_gor s' j = GWait) \<Longrightarrow> ?thesis"
    by (erule gets_to_step) (rule receive_step)
  consider (wait) "fa_gor s j = GWait" | (got) m' where "fa_gor s j = GGot m'" | (inst) h where "fa_call s j = CInstalled h"
    | (ntf) "fa_gor s j = NWait" | (ending) "fa_call s j = CUnsub" "s_typ f \<noteq> PendingTransactionsSubscription"
    using fsys_okD(1) [OF ok, of j] f
    by (auto simp: id_ok_def phase_ok_def gor_alive_def split: cstate.splits option.splits)
  then show ?thesis
  proof cases
    case wait
    then show ?thesis using here snd by (intro waiting) (auto simp: gets_to_def)
  next
    case got
    have "gets_to sender ls i g ((j, m) # ps) (\<lambda>s'. fa_gor s' j = GWait)"
      by (rule gets_to_step [OF here]) (use append_step [OF got] snd in \<open>fastforce simp: quiet_def\<close>)
    then show ?thesis by (rule waiting)
  next
    case inst
    then have "j \<noteq> i" using id_ok_sub(2) [OF fsys_okD(1) [OF ok] inst] g by auto
    have "gets_to sender ls i g ((j, m) # ps) (\<lambda>s'. fa_gor s' j = GWait)"
      by (rule gets_to_step [OF here], intro exI conjI, rule fstep.enter [where i = j])
        (use inst snd \<open>j \<noteq> i\<close> in \<open>auto simp: quiet_def fsys_upd mu_free_def same_conf_def\<close>)
    then show ?thesis by (rule waiting)
  next
    case ntf
    show ?thesis
      by (rule gets_to_step [OF here], intro exI conjI, rule fstep.notify)
        (use ntf snd in \<open>auto simp: quiet_def mu_free_def same_conf_def\<close>)
  next
    case ending
    then have dr: "drains m" using f(3) by (cases m) auto
    show ?thesis
      by (rule gets_to_step [OF here], intro exI conjI, rule fstep.unsub_drain)
        (use ending dr snd in \<open>auto simp: quiet_def mu_free_def same_conf_def\<close>)
  qed
qed


lemma gets_to_trans:
  assumes "gets_to sender ls i g ps P"
    and "\<And>ls' s' g'. run sender (ls' @ ls) s' \<Longrightarrow> mu_free s' \<Longrightarrow> fa_filters s' i = Some g' \<Longrightarrow> es_sending s' = ps
      \<Longrightarrow> P s' \<Longrightarrow> gets_to sender (ls' @ ls) i g' qs Q"
  shows "gets_to sender ls i g qs Q"
proof -
  obtain ls' s' g' where r: "run sender (ls' @ ls) s'" "list_all quiet ls'" "mu_free s'" "fa_filters s' i = Some g'"
    "same_conf g' g" "es_sending s' = ps" "P s'" using assms(1) unfolding gets_to_def by blast
  obtain ls'' s'' g'' where q: "run sender (ls'' @ ls' @ ls) s''" "list_all quiet ls''" "mu_free s''"
    "fa_filters s'' i = Some g''" "same_conf g'' g'" "es_sending s'' = qs" "Q s''"
    using assms(2) [OF r(1,3,4,6,7)] unfolding gets_to_def by blast
  have "same_conf g'' g" using q(5) r(5) by (simp add: same_conf_def)
  then show ?thesis unfolding gets_to_def
    by (intro exI [of _ "ls'' @ ls'"] exI [of _ s''] exI [of _ g'']) (use q r(2) in simp)
qed

lemma gets_to_Nil:
  "run sender ls s \<Longrightarrow> mu_free s \<Longrightarrow> fa_filters s i = Some g \<Longrightarrow> gets_to sender ls i g [] (\<lambda>_. True)"
proof (induction "es_sending s" arbitrary: ls s g)
  case Nil
  then show ?case unfolding gets_to_def
    by (intro exI [of _ "[]"] exI [of _ s] exI [of _ g]) (simp add: same_conf_def)
next
  case (Cons e ps)
  obtain j m where "es_sending s = (j, m) # ps" using Cons.hyps(2) [symmetric] by (cases e) auto
  then have "gets_to sender ls i g ps (\<lambda>_. True)" using gets_to_tl [OF Cons.prems] by simp
  then show ?case by (rule gets_to_trans) (rule Cons.hyps(1), auto)
qed

text \<open>
  C21: While \<open>timeoutLoop\<close> does not hold the mutex the system is not stuck: from every state a
  run reaches, the goroutines can go on, without further calls or events, until the loop has
  sent everything and the filter has received it, and then one poll returns all that the
  events taken so far are worth to the filter and no poll has returned yet.
\<close>

theorem filter_catches_up:
  assumes "run sender ls s" and "mu_free s" and "fa_filters s i = Some g"
  shows "\<exists>ls' s' g'. run sender (ls' @ ls) s' \<and> mu_free s' \<and> fa_filters s' i = Some g'
    \<and> events_taken i (ls' @ ls) = events_taken i ls \<and> polled i (ls' @ ls) = polled i ls
    \<and> polled i ls @ buffered sender g' = concat (map (event_out sender g) (events_taken i ls))"
proof -
  have "gets_to sender ls i g [] (\<lambda>s'. got (fa_gor s' i) = [])"
  proof (rule gets_to_trans [OF gets_to_Nil [OF assms]])
    fix ls' s' g' assume s': "run sender (ls' @ ls) s'" "mu_free s'" "fa_filters s' i = Some g'" "es_sending s' = []"
    then have here: "gets_to sender (ls' @ ls) i g' [] (\<lambda>t. t = s')"
      unfolding gets_to_def by (intro exI [of _ "[]"] exI [of _ s'] exI [of _ g']) (simp add: same_conf_def)
    show "gets_to sender (ls' @ ls) i g' [] (\<lambda>s'. got (fa_gor s' i) = [])"
    proof (cases "got (fa_gor s' i)")
      case Nil
      then show ?thesis using here unfolding gets_to_def by blast
    next
      case (Cons m ms)
      then have "fa_gor s' i = GGot m" by (simp add: got_def split: gstate.splits)
      then show ?thesis
        by (intro gets_to_step [OF here]) (use append_step [of s' i m i] s'(4) in \<open>fastforce simp: quiet_def got_def\<close>)
    qed
  qed
  then obtain ls' s' g' where r: "run sender (ls' @ ls) s'" "list_all quiet ls'" "mu_free s'" "fa_filters s' i = Some g'"
    "same_conf g' g" "es_sending s' = []" "got (fa_gor s' i) = []" unfolding gets_to_def by blast
  have "account sender (ls' @ ls) s' i g'"
    using run_books [OF r(1), of i] r(3,4) by (simp add: books_def owner_def mu_free_def timing_out_def)
  then show ?thesis using r quiet_labels [OF r(2), of i ls] same_conf_outs [OF r(5)]
    by (intro exI [of _ ls'] exI [of _ s'] exI [of _ g']) (simp add: account_def in_flight_def)
qed

subsection \<open>\<open>timeoutLoop\<close> can block everything\<close>

text \<open>
  The timeout loop holds the mutex and waits for the event loop; the event loop offers a
  message to a goroutine that has received one before and waits for the mutex; and
  \<open>Unsubscribe\<close> does not read that message.
\<close>

definition stuck :: "fsys \<Rightarrow> bool" where
  "stuck s \<longleftrightarrow> (\<exists>i ids j m ps m'. fa_timeout s = TUnsub i ids \<and> es_sending s = (j, m) # ps \<and> fa_gor s j = GGot m'
     \<and> (j = i \<or> fa_call s j = CUnsub \<longrightarrow> \<not> drains m))"

lemma stuck_step: "fstep sender s l s' \<Longrightarrow> stuck s \<Longrightarrow> stuck s'"
  by (cases rule: fstep.cases) (auto simp: stuck_def mu_free_def fsys_upd es_uninstall_def UninstallFilter_True split: if_splits)

inductive reaches :: "(Tx \<Rightarrow> address) \<Rightarrow> fsys \<Rightarrow> fsys \<Rightarrow> bool" for sender where
  refl: "reaches sender s s"
| step: "reaches sender s s' \<Longrightarrow> fstep sender s' l s'' \<Longrightarrow> reaches sender s s''"

lemma stuck_reaches: "reaches sender s s' \<Longrightarrow> stuck s \<Longrightarrow> stuck s'"
  by (induction rule: reaches.induct) (auto dest: stuck_step)


text \<open>The states of a run with one transaction filter: created, entered, expired; two transactions arrive.\<close>

definition txs_filter :: "bool \<Rightarrow> flt" where
  "txs_filter x = (new_txs_filter None)\<lparr> flt_expired := x \<rparr>"

definition dstate :: "event list \<Rightarrow> (ID \<times> msg) list \<Rightarrow> gstate \<Rightarrow> flt option \<Rightarrow> cstate \<Rightarrow> tstate \<Rightarrow> fsys" where
  "dstate q w g f c t = \<lparr> es_index = (\<lambda>_. [])(PendingTransactionsSubscription := [(0, SubscribePendingTxs)]),
     es_sending = w, es_ch = (\<lambda>_. [])(txsCh := q), es_subs = [0 \<mapsto> SubscribePendingTxs], es_err = (\<lambda>_. False),
     fa_filters = (Map.empty)(0 := f), fa_gor = (\<lambda>_. GNone)(0 := g), fa_call = (\<lambda>_. CNone)(0 := c), fa_timeout = t \<rparr>"

lemma dstate_created: "run sender [LCreate 0] (dstate [] [] GNone None (CInstalled (txs_filter False)) TIdle)"
proof (rule run.step [OF run.start])
  have "start_call 0 (Some (txs_filter False)) (es_install 0 SubscribePendingTxs NewAPI)
      = dstate [] [] GNone None (CInstalled (txs_filter False)) TIdle"
    by (simp add: fsys_upd NewAPI_def dstate_def SubscribePendingTxs_def fun_eq_iff)
  then show "fstep sender NewAPI (LCreate 0) (dstate [] [] GNone None (CInstalled (txs_filter False)) TIdle)"
    using fstep.create [of NewAPI 0 "CreateTxs None" SubscribePendingTxs "Some (txs_filter False)" sender]
    by (simp add: NewAPI_def txs_filter_def new_txs_filter_def)
qed

lemma dstate_steps:
  "fstep sender (dstate q w GNone None (CInstalled h) TIdle) LTau (dstate q w GWait (Some h) CNone TIdle)"
  "length q < 4096 \<Longrightarrow> fstep sender (dstate q w g f c t) LTau (dstate (q @ [NewTxsEvent txs]) w g f c t)"
  "fstep sender (dstate (NewTxsEvent txs # q) [] g f c t) (LTake (NewTxsEvent txs)) (dstate q [(0, MTxs txs)] g f c t)"
  "fstep sender (dstate q ((0, m) # ps) GWait f c t) LTau (dstate q ps (GGot m) f c t)"
  "fstep sender (dstate q w (GGot m) f c TIdle) LTau (dstate q w GWait (map_option (store m) f) c TIdle)"
  "fstep sender (dstate q w g (Some (txs_filter False)) c t) LTau (dstate q w g (Some (txs_filter True)) c t)"
  "fstep sender (dstate q w g (Some h) c TIdle) LTau (dstate q w g (Some h) c (TScan [0]))"
  "fstep sender (dstate q w g (Some (txs_filter True)) c (TScan [0])) LTau (dstate q w g (Some (txs_filter True)) c (TUnsub 0 []))"
  using fstep.enter [of "dstate q w GNone None (CInstalled h) TIdle" 0 h sender]
    fstep.feed [of "dstate q w g f c t" "NewTxsEvent txs" sender]
    fstep.loop_take [of "dstate (NewTxsEvent txs # q) [] g f c t" txsCh "NewTxsEvent txs" q
      "es_index (dstate (NewTxsEvent txs # q) [] g f c t)" sender]
    fstep.receive [of "dstate q ((0, m) # ps) GWait f c t" 0 m ps sender]
    fstep.append [of "dstate q w (GGot m) f c TIdle" 0 m sender]
    fstep.expire [of "dstate q w g (Some (txs_filter False)) c t" 0 "txs_filter False" sender]
    fstep.tick [of "dstate q w g (Some h) c TIdle" "[0]" sender]
    fstep.scan_next [of "dstate q w g (Some (txs_filter True)) c (TScan [0])" 0 "[]" "txs_filter True" sender]
  by (simp_all add: dstate_def timeout_check_def fsys_upd mu_free_def txs_filter_def chan_size_def handleTxsEvent_def new_txs_filter_def)


lemma dstate_runs:
  assumes "length txs < 5"
  shows "run sender [LTau, LTake (NewTxsEvent txs), LTau, LTau, LCreate 0]
      (dstate [] [] (GGot (MTxs txs)) (Some (txs_filter False)) CNone TIdle)"
    and "run sender [LTake (NewTxsEvent txs), LTau, LTau, LCreate 0]
      (dstate [] [(0, MTxs txs)] GWait (Some (txs_filter False)) CNone TIdle)"
proof -
  have "run sender [LTau, LCreate 0] (dstate [] [] GWait (Some (txs_filter False)) CNone TIdle)"
    by (rule run.step [OF dstate_created]) (rule dstate_steps)
  then have "run sender [LTau, LTau, LCreate 0] (dstate ([] @ [NewTxsEvent txs]) [] GWait (Some (txs_filter False)) CNone TIdle)"
    by (rule run.step) (rule dstate_steps, simp)
  then show two: "run sender [LTake (NewTxsEvent txs), LTau, LTau, LCreate 0]
      (dstate [] [(0, MTxs txs)] GWait (Some (txs_filter False)) CNone TIdle)"
    by (rule run.step) (simp add: dstate_steps)
  then show "run sender [LTau, LTake (NewTxsEvent txs), LTau, LTau, LCreate 0]
      (dstate [] [] (GGot (MTxs txs)) (Some (txs_filter False)) CNone TIdle)"
    by (rule run.step) (rule dstate_steps)
qed

text \<open>
  C22: \<open>timeoutLoop\<close> can block the event loop and every filter for good. It calls \<open>Unsubscribe\<close>
  while it holds \<open>filtersMu\<close>; a run with a single transaction filter that has expired leads to a
  state from which, whatever happens, the mutex is never released and the event loop never
  finishes its send: no filter can be created, polled or removed any more.
\<close>

theorem timeoutLoop_deadlock:
  "\<exists>ls s. run sender ls s \<and> {s'. reaches sender s s'} \<subseteq> {s'. \<not> mu_free s' \<and> es_sending s' \<noteq> []}"
proof -
  let ?ev = "NewTxsEvent []" and ?f = "\<lambda>x. Some (txs_filter x)" and ?g = "GGot (MTxs [])"
  have "run sender [LTau, LTake ?ev, LTau, LTau, LCreate 0] (dstate [] [] ?g (?f False) CNone TIdle)"
    by (rule dstate_runs) simp
  then have "run sender [LTau, LTau, LTake ?ev, LTau, LTau, LCreate 0] (dstate [] [] ?g (?f True) CNone TIdle)"
    by (rule run.step) (rule dstate_steps)
  then have "run sender [LTau, LTau, LTau, LTake ?ev, LTau, LTau, LCreate 0] (dstate ([] @ [?ev]) [] ?g (?f True) CNone TIdle)"
    by (rule run.step) (rule dstate_steps, simp)
  then have "run sender [LTau, LTau, LTau, LTau, LTake ?ev, LTau, LTau, LCreate 0] (dstate [?ev] [] ?g (?f True) CNone (TScan [0]))"
    by (rule run.step) (simp add: dstate_steps)
  then have "run sender [LTau, LTau, LTau, LTau, LTau, LTake ?ev, LTau, LTau, LCreate 0] (dstate [?ev] [] ?g (?f True) CNone (TUnsub 0 []))"
    by (rule run.step) (rule dstate_steps)
  then have final: "run sender [LTake ?ev, LTau, LTau, LTau, LTau, LTau, LTake ?ev, LTau, LTau, LCreate 0]
      (dstate [] [(0, MTxs [])] ?g (?f True) CNone (TUnsub 0 []))"
    by (rule run.step) (rule dstate_steps)
  have "stuck (dstate [] [(0, MTxs [])] ?g (?f True) CNone (TUnsub 0 []))"
    by (simp add: stuck_def dstate_def)
  then have "{s'. reaches sender (dstate [] [(0, MTxs [])] ?g (?f True) CNone (TUnsub 0 [])) s'}
      \<subseteq> {s'. \<not> mu_free s' \<and> es_sending s' \<noteq> []}"
    by (auto dest!: stuck_reaches simp: stuck_def mu_free_def)
  with final show ?thesis by blast
qed

definition demo_tx :: Tx where
  "demo_tx = \<lparr> t_Hash = 9, t_Nonce = 0, t_Gas = 21000, t_GasPrice = 1, t_Value = 5, t_Data = [], t_To = Some 3,
     t_V = 27, t_R = 1, t_S = 1 \<rparr>"

theorem filter_delivers_exactly_witness:
  "\<exists>ls s g. run (\<lambda>_. 0) ls s \<and> fa_filters s 0 = Some g \<and> events_taken 0 ls = [NewTxsEvent [demo_tx]]
     \<and> polled 0 ls @ buffered (\<lambda>_. 0) g @ in_flight (\<lambda>_. 0) g 0 s = [OutHash 9]"
proof -
  let ?ls = "[LTau, LTake (NewTxsEvent [demo_tx]), LTau, LTau, LCreate 0]"
  let ?s = "dstate [] [] (GGot (MTxs [demo_tx])) (Some (txs_filter False)) CNone TIdle"
  have r: "run (\<lambda>_. 0) ?ls ?s" by (rule dstate_runs) simp
  have "polled 0 ?ls @ buffered (\<lambda>_. 0) (txs_filter False) @ in_flight (\<lambda>_. 0) (txs_filter False) 0 ?s
      = concat (map (event_out (\<lambda>_. 0) (txs_filter False)) (events_taken 0 ?ls))"
    by (rule filter_delivers_exactly [OF r]) (simp_all add: dstate_def timing_out_def)
  then show ?thesis using r
    by (intro exI [of _ ?ls] exI [of _ ?s] exI [of _ "txs_filter False"])
      (simp add: dstate_def event_out_def txs_filter_def new_txs_filter_def out_txs_def demo_tx_def)
qed

theorem subscriptions_typed_witness:
  "\<exists>ls s. run (\<lambda>_. 0) ls s \<and> es_sending s = [(0, MTxs [demo_tx])] \<and> channel_there SubscribePendingTxs (MTxs [demo_tx])"
proof -
  let ?s = "dstate [] [(0, MTxs [demo_tx])] GWait (Some (txs_filter False)) CNone TIdle"
  have r: "run (\<lambda>_. 0) [LTake (NewTxsEvent [demo_tx]), LTau, LTau, LCreate 0] ?s" by (rule dstate_runs) simp
  have "channel_there SubscribePendingTxs (MTxs [demo_tx])"
    using subscriptions_typed [OF r] by (auto simp: dstate_def split: if_splits)
  with r show ?thesis by (intro exI conjI) (auto simp: dstate_def)
qed

theorem filter_catches_up_witness:
  "\<exists>ls s g'. run (\<lambda>_. 0) ls s \<and> fa_filters s 0 = Some g' \<and> buffered (\<lambda>_. 0) g' = [OutHash 9]"
proof -
  let ?s = "dstate [] [(0, MTxs [demo_tx])] GWait (Some (txs_filter False)) CNone TIdle"
  have r: "run (\<lambda>_. 0) [LTake (NewTxsEvent [demo_tx]), LTau, LTau, LCreate 0] ?s" by (rule dstate_runs) simp
  show ?thesis
    using filter_catches_up [OF r, of 0 "txs_filter False"]
    by (auto simp: dstate_def mu_free_def event_out_def txs_filter_def new_txs_filter_def out_txs_def demo_tx_def)
qed

end
