(* ===== verification/RPC_Eth.thy ===== *)
theory RPC_Eth
  imports API_Backend
begin

text \<open>
  The methods of the \<open>eth\<close> name space of the JSON-RPC server (\<open>src/rpc/api/eth_api.go\<close>,
  \<open>eth_api_utils.go\<close>, \<open>errors.go\<close>). An answer that is a JSON object is the record of its
  entries, JSON's \<open>null\<close> is \<open>None\<close>. A panic, which the server answers with an error, is the
  outer \<open>None\<close>.

  Building, signing and encoding a transaction ends in the Ethereum library, and the names of
  the status codes and the decoding of a revert reason belong to the EVM module and the ABI
  library: they are the record \<open>rpc_lib\<close>.
\<close>

definition DefaultGasPrice :: int where "DefaultGasPrice = 20000000000"
definition DefaultRPCGasLimit :: u64 where "DefaultRPCGasLimit = 10000000"

record SendTxArgs =
  sa_From :: address
  sa_To :: "address option"
  sa_Gas :: "u64 option"
  sa_GasPrice :: "int option"
  sa_Value :: "int option"
  sa_Nonce :: "u64 option"
  sa_Data :: "bytes option"
  sa_Input :: "bytes option"

record CallArgs =
  ca_From :: "address option"
  ca_To :: "address option"
  ca_Gas :: "u64 option"
  ca_GasPrice :: "int option"
  ca_Value :: "int option"
  ca_Data :: "bytes option"

datatype block_ref = ByNumber i64 | ByHash bytes32

record 'k rpc_lib =
  lib_hash :: "Tx \<Rightarrow> bytes32"
  lib_sign :: "Tx \<Rightarrow> int \<Rightarrow> 'k \<Rightarrow> Tx res"
  lib_encode :: "Tx \<Rightarrow> bytes res"
  lib_decode :: "bytes \<Rightarrow> Tx res"
  lib_StatusIsFailure :: "int \<Rightarrow> bool"
  lib_StatusToStr :: "int \<Rightarrow> string"
  lib_UnpackRevert :: "bytes \<Rightarrow> string res"
  lib_HexToPrivKey :: "string \<Rightarrow> 'k res"
  lib_PubkeyToAddress :: "'k \<Rightarrow> address"

text \<open>\<open>NewTx\<close> fills a legacy transaction; the library reads a nil amount as zero.\<close>

definition NewTx :: "u64 \<Rightarrow> address option \<Rightarrow> int option \<Rightarrow> u64 \<Rightarrow> int \<Rightarrow> bytes \<Rightarrow> Tx" where
  "NewTx nonce to amount gasLimit gasPrice data =
     \<lparr> t_Hash = 0, t_Nonce = nonce, t_Gas = gasLimit, t_GasPrice = gasPrice,
       t_Value = (case amount of None \<Rightarrow> 0 | Some v \<Rightarrow> v), t_Data = data, t_To = to, t_V = 0, t_R = 0, t_S = 0 \<rparr>"

definition or_default :: "'a \<Rightarrow> 'a option \<Rightarrow> 'a" where
  "or_default d x = (case x of None \<Rightarrow> d | Some v \<Rightarrow> v)"

definition createGethTxFromCallArgs :: "CallArgs \<Rightarrow> Tx \<times> address" where
  "createGethTxFromCallArgs args =
     (let fr = or_default 0 (ca_From args);
          to = or_default 0 (ca_To args);
          val = or_default 0 (ca_Value args);
          gasLimit = or_default DefaultRPCGasLimit (ca_Gas args);
          gasPrice = or_default DefaultGasPrice (ca_GasPrice args);
          data = or_default [] (ca_Data args)
      in (NewTx 0 (Some to) (Some val) gasLimit gasPrice data, fr))"

definition createGethTxFromSendTxArgs :: "SendTxArgs \<Rightarrow> Tx res" where
  "createGethTxFromSendTxArgs args =
     (let gasPrice = or_default DefaultGasPrice (sa_GasPrice args)
      in case sa_Nonce args of
           None \<Rightarrow> Inl (GoError ''no nonce'')
         | Some nonce \<Rightarrow>
             if sa_Data args \<noteq> None \<and> sa_Input args \<noteq> None \<and> sa_Data args \<noteq> sa_Input args
             then Inl (GoError ''both data and input are set and not equal'')
             else let input = (case sa_Input args of Some b \<Rightarrow> b | None \<Rightarrow> or_default [] (sa_Data args))
                  in if sa_To args = None \<and> input = []
                     then Inl (GoError ''contract creation without any data provided'')
                     else let gasLimit = or_default DefaultRPCGasLimit (sa_Gas args)
                          in Inr (NewTx nonce (sa_To args) (sa_Value args) gasLimit gasPrice input))"

subsection \<open>The height a query is about\<close>

definition errPendingBlockNum :: go_error where "errPendingBlockNum = GoError ''pending block is not supported''"
definition errFutureBlockNum :: go_error where "errFutureBlockNum = GoError ''block has not been mined''"

definition getHeightArg :: "('c, 'b, 'w) rpc_app \<Rightarrow> block_ref \<Rightarrow> i64 go" where
  "getHeightArg app blockNrOrHash =
     (if \<not> ra_ArchiveMode app then Some (Inr (-1))
      else case blockNrOrHash of
        ByNumber blockNum \<Rightarrow>
          (if blockNum = PendingBlockNumber then Some (Inl errPendingBlockNum)
           else if 0 < sint blockNum \<and> sint (bk_LatestHeight app) < sint blockNum then Some (Inl errFutureBlockNum)
           else Some (Inr blockNum))
      | ByHash h \<Rightarrow>
          (case bk_BlockByHash app h of
             Inl err \<Rightarrow> Some (Inl err)
           | Inr None \<Rightarrow> None
           | Inr (Some block) \<Rightarrow> Some (Inr (mb_Number block))))"

text \<open>Sequencing of calls that may panic or return an error.\<close>

definition go_bind :: "'x go \<Rightarrow> ('x \<Rightarrow> 'y go) \<Rightarrow> 'y go" where
  "go_bind m k = (case m of None \<Rightarrow> None | Some (Inl err) \<Rightarrow> Some (Inl err) | Some (Inr x) \<Rightarrow> k x)"

definition eth_GetBalance :: "('c, 'a) rpc_ext \<Rightarrow> ('c, 'b, 'w) rpc_app \<Rightarrow> address \<Rightarrow> block_ref \<Rightarrow> int go" where
  "eth_GetBalance E app addr r = go_bind (getHeightArg app r) (\<lambda>height.
     case bk_GetBalance E app addr height of
       Inl ErrAccNotFound \<Rightarrow> Some (Inr 0)
     | Inl err \<Rightarrow> Some (Inl err)
     | Inr b \<Rightarrow> Some (Inr b))"

definition eth_GetCode :: "('c, 'a) rpc_ext \<Rightarrow> ('c, 'b, 'w) rpc_app \<Rightarrow> address \<Rightarrow> block_ref \<Rightarrow> bytes go" where
  "eth_GetCode E app addr r = go_bind (getHeightArg app r) (\<lambda>height. Some (Inr (fst (bk_GetCode E app addr height))))"

text \<open>The key is the hash its hexadecimal form spells.\<close>

definition eth_GetStorageAt ::
  "('c, 'a) rpc_ext \<Rightarrow> ('c, 'b, 'w) rpc_app \<Rightarrow> address \<Rightarrow> bytes32 \<Rightarrow> block_ref \<Rightarrow> bytes go" where
  "eth_GetStorageAt E app addr key r = go_bind (getHeightArg app r) (\<lambda>height.
     Some (Inr (case bk_GetStorageAt E app addr key height of None \<Rightarrow> replicate 32 0 | Some val \<Rightarrow> val)))"

definition eth_GetTransactionCount ::
  "('c, 'a) rpc_ext \<Rightarrow> ('c, 'b, 'w) rpc_app \<Rightarrow> address \<Rightarrow> block_ref \<Rightarrow> u64 go" where
  "eth_GetTransactionCount E app addr r = go_bind (getHeightArg app r) (\<lambda>height.
     Some (Inr (case bk_GetNonce E app addr height of Inl _ \<Rightarrow> 0 | Inr nonce \<Rightarrow> nonce)))"

text \<open>The answer of \<open>GetStorageAt\<close> is read and not used.\<close>

definition eth_GasPrice :: "('c, 'a) rpc_ext \<Rightarrow> ('c, 'b, 'w) rpc_app \<Rightarrow> int option" where
  "eth_GasPrice E app =
     (case eth_GetStorageAt E app StakingContractAddress SlotMinGasPrice (ByNumber LatestBlockNumber) of
        None \<Rightarrow> None
      | Some err_val \<Rightarrow> if True \<or> isl err_val then Some 10000000000 else Some (int (be_nat (projr err_val))))"

subsection \<open>Blocks and transactions\<close>

definition fakeBlock0 :: "'b \<Rightarrow> 'b mo_Block" where
  "fakeBlock0 bloom0 = \<lparr> mb_Hash = 0, mb_Number = 0, mb_ParentHash = -1, mb_LogsBloom = bloom0, mb_TransactionsRoot = 0,
     mb_StateRoot = 0, mb_Miner = 0, mb_Size = 0, mb_GasUsed = 0, mb_Timestamp = 1627574400, mb_Transactions = [] \<rparr>"

text \<open>The entries of the answer that vary; the others (nonce, uncles, bloom, difficulty) are constants.\<close>

datatype rpc_txs = TxHashes "bytes32 list" | TxFull "rpc_Transaction list"

record block_resp =
  br_number :: u64
  br_hash :: bytes32
  br_parentHash :: bytes32
  br_transactionsRoot :: bytes32
  br_stateRoot :: bytes32
  br_miner :: address
  br_size :: u64
  br_gasLimit :: u64
  br_gasUsed :: u64
  br_timestamp :: u64
  br_transactions :: rpc_txs

definition txToRpcResp :: "('b, 'w) mo_Transaction \<Rightarrow> bytes \<Rightarrow> rpc_Transaction" where
  "txToRpcResp tx rawSig =
     (let (v, r, s) = DecodeVRS rawSig
      in \<lparr> rt_BlockHash = Some (mt_BlockHash tx), rt_BlockNumber = sint (mt_BlockNumber tx), rt_From = mt_From tx,
           rt_Gas = mt_Gas tx, rt_GasPrice = uint (mt_GasPrice tx), rt_Hash = mt_Hash tx, rt_Input = mt_Input tx,
           rt_Nonce = mt_Nonce tx, rt_To = (if \<not> isZeroAddress (mt_To tx) then Some (mt_To tx) else None),
           rt_TransactionIndex = Some (mt_TransactionIndex tx), rt_Value = uint (mt_Value tx),
           rt_V = v, rt_R = r, rt_S = s \<rparr>)"

text \<open>The loops index the signatures by the transactions: too few of them panic.\<close>

fun txsToRpcResp :: "('b, 'w) mo_Transaction list \<Rightarrow> bytes list \<Rightarrow> rpc_Transaction list option" where
  "txsToRpcResp [] sigs = Some []"
| "txsToRpcResp (tx # txs) [] = None"
| "txsToRpcResp (tx # txs) (sig # sigs) =
     (case txsToRpcResp txs sigs of None \<Rightarrow> None | Some rest \<Rightarrow> Some (txToRpcResp tx sig # rest))"

definition blockToRpcResp ::
  "'b mo_Block \<Rightarrow> ('b, 'w) mo_Transaction list \<Rightarrow> bytes list \<Rightarrow> block_resp option" where
  "blockToRpcResp block txs sigs =
     (let result = \<lparr> br_number = mb_Number block, br_hash = mb_Hash block, br_parentHash = mb_ParentHash block,
            br_transactionsRoot = mb_TransactionsRoot block, br_stateRoot = mb_StateRoot block,
            br_miner = mb_Miner block, br_size = mb_Size block, br_gasLimit = BlockMaxGas,
            br_gasUsed = mb_GasUsed block, br_timestamp = mb_Timestamp block,
            br_transactions = TxHashes (mb_Transactions block) \<rparr>
      in if 0 < length txs
         then (case txsToRpcResp txs sigs of None \<Rightarrow> None
               | Some rpcTxs \<Rightarrow> Some (result\<lparr> br_transactions := TxFull rpcTxs \<rparr>))
         else Some result)"

definition getBlockByNum :: "'b \<Rightarrow> ('c, 'b, 'w) rpc_app \<Rightarrow> i64 \<Rightarrow> 'b mo_Block option res" where
  "getBlockByNum bloom0 app blockNum =
     (if sint blockNum < 0 then bk_CurrentBlock app
      else if blockNum = 0 then Inr (Some (fakeBlock0 bloom0))
      else bk_BlockByNumber app blockNum)"

text \<open>What \<open>GetBlockByHash\<close> and \<open>GetBlockByNumber\<close> do once they have the block.\<close>

definition block_answer ::
  "('c, 'b, 'w) rpc_app \<Rightarrow> 'b mo_Block option res \<Rightarrow> bool \<Rightarrow> block_resp option go" where
  "block_answer app found fullTx =
     (case found of
        Inl ErrBlockNotFound \<Rightarrow> Some (Inr None)
      | Inl err \<Rightarrow> Some (Inl err)
      | Inr None \<Rightarrow> None
      | Inr (Some block) \<Rightarrow>
          (case (if fullTx then bk_GetTxListByHeight app (ucast (mb_Number block)) else Inr ([], [])) of
             Inl err \<Rightarrow> Some (Inl err)
           | Inr (txs, sigs) \<Rightarrow> (case blockToRpcResp block txs sigs of None \<Rightarrow> None | Some r \<Rightarrow> Some (Inr (Some r)))))"

definition eth_GetBlockByHash :: "'b \<Rightarrow> ('c, 'b, 'w) rpc_app \<Rightarrow> bytes32 \<Rightarrow> bool \<Rightarrow> block_resp option go" where
  "eth_GetBlockByHash bloom0 app hash fullTx =
     (if hash = 0
      then (case blockToRpcResp (fakeBlock0 bloom0) ([] :: ('b, 'w) mo_Transaction list) [] of
              None \<Rightarrow> None | Some r \<Rightarrow> Some (Inr (Some r)))
      else block_answer app (bk_BlockByHash app hash) fullTx)"

definition eth_GetBlockByNumber :: "'b \<Rightarrow> ('c, 'b, 'w) rpc_app \<Rightarrow> i64 \<Rightarrow> bool \<Rightarrow> block_resp option go" where
  "eth_GetBlockByNumber bloom0 app blockNum fullTx = block_answer app (getBlockByNum bloom0 app blockNum) fullTx"

definition tx_count :: "'b mo_Block option res \<Rightarrow> nat option option" where
  "tx_count found = (case found of Inl _ \<Rightarrow> Some None | Inr None \<Rightarrow> None
     | Inr (Some block) \<Rightarrow> Some (Some (length (mb_Transactions block))))"

definition eth_GetBlockTransactionCountByHash :: "('c, 'b, 'w) rpc_app \<Rightarrow> bytes32 \<Rightarrow> nat option option" where
  "eth_GetBlockTransactionCountByHash app hash = tx_count (bk_BlockByHash app hash)"

definition eth_GetBlockTransactionCountByNumber :: "'b \<Rightarrow> ('c, 'b, 'w) rpc_app \<Rightarrow> i64 \<Rightarrow> nat option option" where
  "eth_GetBlockTransactionCountByNumber bloom0 app blockNum = tx_count (getBlockByNum bloom0 app blockNum)"

definition getTxByIdx :: "('c, 'b, 'w) rpc_app \<Rightarrow> 'b mo_Block \<Rightarrow> u64 \<Rightarrow> rpc_Transaction option res" where
  "getTxByIdx app block idx =
     (if length (mb_Transactions block) \<le> unat idx then Inr None
      else case bk_GetTransaction app (mb_Transactions block ! unat idx) of
             Inl err \<Rightarrow> Inl err
           | Inr (tx, sig) \<Rightarrow> Inr (Some (txToRpcResp tx sig)))"

definition tx_answer :: "('c, 'b, 'w) rpc_app \<Rightarrow> 'b mo_Block option res \<Rightarrow> u64 \<Rightarrow> rpc_Transaction option go" where
  "tx_answer app found idx =
     (case found of
        Inl ErrBlockNotFound \<Rightarrow> Some (Inr None)
      | Inl err \<Rightarrow> Some (Inl err)
      | Inr None \<Rightarrow> None
      | Inr (Some block) \<Rightarrow> Some (getTxByIdx app block idx))"

definition eth_GetTransactionByBlockHashAndIndex ::
  "('c, 'b, 'w) rpc_app \<Rightarrow> bytes32 \<Rightarrow> u64 \<Rightarrow> rpc_Transaction option go" where
  "eth_GetTransactionByBlockHashAndIndex app hash idx = tx_answer app (bk_BlockByHash app hash) idx"

definition eth_GetTransactionByBlockNumberAndIndex ::
  "'b \<Rightarrow> ('c, 'b, 'w) rpc_app \<Rightarrow> i64 \<Rightarrow> u64 \<Rightarrow> rpc_Transaction option go" where
  "eth_GetTransactionByBlockNumberAndIndex bloom0 app blockNum idx = tx_answer app (getBlockByNum bloom0 app blockNum) idx"

definition eth_GetTransactionByHash :: "('c, 'b, 'w) rpc_app \<Rightarrow> bytes32 \<Rightarrow> rpc_Transaction option" where
  "eth_GetTransactionByHash app hash =
     (case bk_GetTransaction app hash of Inl _ \<Rightarrow> None | Inr (tx, sig) \<Rightarrow> Some (txToRpcResp tx sig))"

record receipt_resp =
  rr_transactionHash :: bytes32
  rr_transactionIndex :: u64
  rr_blockHash :: bytes32
  rr_blockNumber :: u64
  rr_from :: address
  rr_to :: "address option"
  rr_cumulativeGasUsed :: u64
  rr_contractAddress :: "address option"
  rr_gasUsed :: u64
  rr_logs :: "geth_Log list"
  rr_status :: u64
  rr_failure :: "(string \<times> string) option"

definition txToReceiptRpcResp :: "('c, 'b, 'w) rpc_app \<Rightarrow> ('b, 'w) mo_Transaction \<Rightarrow> receipt_resp" where
  "txToReceiptRpcResp app tx = \<lparr> rr_transactionHash = mt_Hash tx, rr_transactionIndex = mt_TransactionIndex tx,
     rr_blockHash = mt_BlockHash tx, rr_blockNumber = mt_BlockNumber tx, rr_from = mt_From tx,
     rr_to = (if \<not> isZeroAddress (mt_To tx) then Some (mt_To tx) else None),
     rr_cumulativeGasUsed = mt_CumulativeGasUsed tx,
     rr_contractAddress = (if \<not> isZeroAddress (mt_ContractAddress tx) then Some (mt_ContractAddress tx) else None),
     rr_gasUsed = mt_GasUsed tx, rr_logs = ra_ToGethLogs app (mt_Logs tx), rr_status = mt_Status tx,
     rr_failure = (if mt_Status tx = 0 then Some (mt_StatusStr tx, hex_EncodeToString (mt_OutData tx)) else None) \<rparr>"

definition eth_GetTransactionReceipt :: "('c, 'b, 'w) rpc_app \<Rightarrow> bytes32 \<Rightarrow> receipt_resp option" where
  "eth_GetTransactionReceipt app hash =
     (case bk_GetTransaction app hash of Inl _ \<Rightarrow> None | Inr (tx, _) \<Rightarrow> Some (txToReceiptRpcResp app tx))"


subsection \<open>Sending transactions\<close>

definition eth_SendRawTransaction :: "'k rpc_lib \<Rightarrow> ('c, 'b, 'w) rpc_app \<Rightarrow> bytes \<Rightarrow> bytes32 res" where
  "eth_SendRawTransaction L app data =
     (case lib_decode L data of
        Inl err \<Rightarrow> Inl err
      | Inr tx \<Rightarrow> (case bk_SendRawTx app data of Inl err \<Rightarrow> Inl err | Inr _ \<Rightarrow> Inr (lib_hash L tx)))"

definition eth_SendTransaction ::
  "'k rpc_lib \<Rightarrow> ('c, 'a) rpc_ext \<Rightarrow> ('c, 'b, 'w) rpc_app \<Rightarrow> (address \<rightharpoonup> 'k) \<Rightarrow> SendTxArgs \<Rightarrow> bytes32 res" where
  "eth_SendTransaction L E app accounts args0 =
     (case accounts (sa_From args0) of
        None \<Rightarrow> Inl (GoError ''unknown account'')
      | Some privKey \<Rightarrow>
          (let args = (if sa_Nonce args0 = None
                       then (case bk_GetNonce E app (sa_From args0) (-1) of
                               Inr nonce \<Rightarrow> args0\<lparr> sa_Nonce := Some nonce \<rparr> | Inl _ \<Rightarrow> args0)
                       else args0)
           in case createGethTxFromSendTxArgs args of
                Inl err \<Rightarrow> Inl err
              | Inr tx0 \<Rightarrow>
                  (case lib_sign L tx0 (bk_ChainId app) privKey of
                     Inl err \<Rightarrow> Inl err
                   | Inr tx \<Rightarrow>
                       (case lib_encode L tx of
                          Inl err \<Rightarrow> Inl err
                        | Inr txBytes \<Rightarrow>
                            (case bk_SendRawTx app txBytes of
                               Inl err \<Rightarrow> Inl err
                             | Inr _ \<Rightarrow> Inr (lib_hash L tx))))))"

fun loadTestAccounts :: "'k rpc_lib \<Rightarrow> string list \<Rightarrow> (address \<rightharpoonup> 'k) \<Rightarrow> (address \<rightharpoonup> 'k)" where
  "loadTestAccounts L [] accs = accs"
| "loadTestAccounts L (testKey # testKeys) accs =
     (if list_all (\<lambda>c. c = CHR '' '') testKey then loadTestAccounts L testKeys accs
      else case lib_HexToPrivKey L testKey of
             Inr key \<Rightarrow> loadTestAccounts L testKeys (accs(lib_PubkeyToAddress L key \<mapsto> key))
           | Inl _ \<Rightarrow> loadTestAccounts L testKeys accs)"

subsection \<open>Trial runs\<close>

datatype call_err = CallError int string | RevertError string string

definition newRevertError :: "'k rpc_lib \<Rightarrow> bytes \<Rightarrow> call_err" where
  "newRevertError L retData =
     (let msg = (if 0 < length retData
                 then (case lib_UnpackRevert L retData of
                         Inr reason \<Rightarrow> ''execution reverted: '' @ reason | Inl _ \<Rightarrow> ''execution reverted'')
                 else ''execution reverted'')
      in RevertError msg (''0x'' @ hex_EncodeToString retData))"

definition toCallErr :: "'k rpc_lib \<Rightarrow> int \<Rightarrow> bytes \<Rightarrow> call_err" where
  "toCallErr L statusCode retData =
     (let statusStr = lib_StatusToStr L statusCode
      in if statusStr = ''revert'' then newRevertError L retData
         else if statusStr = ''invalid-instruction'' then CallError (-32000) ''invalid opcode''
         else CallError (-32000) statusStr)"

text \<open>A trial run that fails is an answer of its own kind beside the errors of the arguments.\<close>

datatype 'x run_answer = RunOk 'x | RunFailed call_err | RunRefused go_error

definition eth_Call :: "'k rpc_lib \<Rightarrow> ('c, 'b, 'w) rpc_app \<Rightarrow> CallArgs \<Rightarrow> block_ref \<Rightarrow> bytes run_answer option" where
  "eth_Call L app args r =
     (let (tx, fr) = createGethTxFromCallArgs args
      in case getHeightArg app r of
           None \<Rightarrow> None
         | Some (Inl err) \<Rightarrow> Some (RunRefused err)
         | Some (Inr height) \<Rightarrow>
             (case bk_Call app tx fr height of
                None \<Rightarrow> None
              | Some (statusCode, retData) \<Rightarrow>
                  if \<not> lib_StatusIsFailure L statusCode then Some (RunOk retData)
                  else Some (RunFailed (toCallErr L statusCode retData))))"

definition eth_EstimateGas ::
  "'k rpc_lib \<Rightarrow> ('c, 'b, 'w) rpc_app \<Rightarrow> CallArgs \<Rightarrow> block_ref option \<Rightarrow> u64 run_answer option" where
  "eth_EstimateGas L app args r =
     (let (tx, fr) = createGethTxFromCallArgs args
      in case (case r of None \<Rightarrow> Some (Inr LatestBlockNumber) | Some r \<Rightarrow> getHeightArg app r) of
           None \<Rightarrow> None
         | Some (Inl err) \<Rightarrow> Some (RunRefused err)
         | Some (Inr height) \<Rightarrow>
             (case bk_EstimateGas app tx fr height of
                None \<Rightarrow> None
              | Some (statusCode, retData, gas) \<Rightarrow>
                  if \<not> lib_StatusIsFailure L statusCode then Some (RunOk gas)
                  else Some (RunFailed (toCallErr L statusCode retData))))"

subsection \<open>What the answers are about\<close>

text \<open>The block a height argument of a trial run stands for: its state and its header.\<close>

lemma getHeightArg_number:
  assumes "ra_ArchiveMode app"
  shows "getHeightArg app (ByNumber n) =
    (if n = PendingBlockNumber then Some (Inl errPendingBlockNum)
     else if 0 < sint n \<and> sint (bk_LatestHeight app) < sint n then Some (Inl errFutureBlockNum)
     else Some (Inr n))"
  using assms by (simp add: getHeightArg_def)

text \<open>
  \<open>eth_call\<close> at the number of a block the node has runs on the state of that block and
  with its header, and never panics: an archive node opens the state at that height, any other
  node answers every number from its newest state. A pending or future number is refused
  before anything is run. The node's own state is not an argument of the answer in the first
  case, and nothing is written in either.
\<close>

theorem eth_Call_at_height:
  assumes "hs_GetBlockByHeight (ra_history app) n = Inr (Some blk)"
    and "createGethTxFromCallArgs args = (tx, fr)"
    and "(runner, g) = (if \<not> ra_ArchiveMode app then ra_runTx app (ra_rpcContext app) (ra_blockInfo app) False tx fr (ra_currHeight app)
          else ra_runTx app (ra_contextAt app n) (block_info_of app blk) False tx fr (ra_currHeight app))"
    and "0 < sint n"
  shows "eth_Call L app args (ByNumber n) =
    (if ra_ArchiveMode app \<and> sint (bk_LatestHeight app) < sint n then Some (RunRefused errFutureBlockNum)
     else if lib_StatusIsFailure L (rn_Status runner) then Some (RunFailed (toCallErr L (rn_Status runner) (rn_OutData runner)))
     else Some (RunOk (rn_OutData runner)))"
proof -
  have "n \<noteq> PendingBlockNumber" using assms(4) by (auto simp: PendingBlockNumber_def)
  then show ?thesis
    using assms by (auto simp: eth_Call_def getHeightArg_def bk_Call_def RunTxForRpc_def GetRpcContextAtHeight_def Let_def
        split: if_splits prod.splits)
qed


text \<open>
  What \<open>eth_getTransactionByHash\<close> says of the signature of a transaction whose signature
  \<open>DeliverTx\<close> stored: \<open>r\<close> and \<open>s\<close> come back, \<open>v\<close> only modulo 256. On a chain whose
  identifier is 111 or more every protected transaction comes back with a wrong \<open>v\<close>.
\<close>

theorem eth_GetTransactionByHash_signature:
  assumes "hs_GetTxByHash (ra_history app) h = Inr (Some mtx, EncodeVRS t)"
    and "0 \<le> t_R t" and "t_R t < 2 ^ 256" and "0 \<le> t_S t" and "t_S t < 2 ^ 256"
  shows "\<exists>r. eth_GetTransactionByHash app h = Some r \<and> rt_R r = t_R t \<and> rt_S r = t_S t \<and> rt_V r = t_V t mod 256
    \<and> (t_V t = 2 * cid + 35 \<and> 111 \<le> cid \<longrightarrow> rt_V r \<noteq> t_V t)"
  using assms DecodeVRS_EncodeVRS [of t]
  by (auto simp: eth_GetTransactionByHash_def bk_GetTransaction_def txToRpcResp_def Let_def)

text \<open>
  \<open>eth_sendTransaction\<close> builds a transaction exactly when it has a nonce, \<open>data\<close> and
  \<open>input\<close> do not disagree, and a contract creation comes with code; the transaction then has
  the fields asked for, \<open>input\<close> before \<open>data\<close>, and the defaults for what is missing.
\<close>

theorem createGethTxFromSendTxArgs_correct:
  "(\<exists>tx. createGethTxFromSendTxArgs args = Inr tx) =
     (sa_Nonce args \<noteq> None
      \<and> (sa_Data args = None \<or> sa_Input args = None \<or> sa_Data args = sa_Input args)
      \<and> (sa_To args \<noteq> None \<or> or_default [] (sa_Input args) \<noteq> [] \<or> sa_Input args = None \<and> or_default [] (sa_Data args) \<noteq> []))
   \<and> createGethTxFromSendTxArgs args \<in> {Inl (GoError ''no nonce''),
        Inl (GoError ''both data and input are set and not equal''),
        Inl (GoError ''contract creation without any data provided''),
        Inr \<lparr> t_Hash = 0, t_Nonce = the (sa_Nonce args), t_Gas = or_default DefaultRPCGasLimit (sa_Gas args),
          t_GasPrice = or_default DefaultGasPrice (sa_GasPrice args), t_Value = or_default 0 (sa_Value args),
          t_Data = or_default (or_default [] (sa_Data args)) (sa_Input args), t_To = sa_To args,
          t_V = 0, t_R = 0, t_S = 0 \<rparr>}"
  by (auto simp: createGethTxFromSendTxArgs_def NewTx_def or_default_def Let_def split: option.splits)

text \<open>
  After the fork the storage of the SEP-206 contract is also reached under its address on
  Ethereum, but not in the newest state: \<open>eth_getStorageAt\<close> at \<open>latest\<close>, and at any block on a
  node that keeps no archive, compares the height \<open>-1\<close> with the height of the fork and
  answers from whatever account has that address, none as a rule: zero.
\<close>

theorem eth_GetStorageAt_alias:
  fixes E :: "('c, 'a) rpc_ext"
  assumes "0 \<le> sint (ra_CCRPCForkBlock app)"
    and "Environment.GetAccount E (ra_rpcContext app) SEP206AddrAsZeniqOnEthereum = None"
  shows "eth_GetStorageAt E app SEP206AddrAsZeniqOnEthereum key (ByNumber LatestBlockNumber) = Some (Inr (replicate 32 0))
    \<and> eth_GetStorageAt E app SEP206ContractAddress key (ByNumber LatestBlockNumber)
      = Some (Inr (case Environment.GetStorageAt E (ra_rpcContext app) 2000 key of None \<Rightarrow> replicate 32 0 | Some v \<Rightarrow> v))
    \<and> (ra_ArchiveMode app \<and> sint (ra_CCRPCForkBlock app) \<le> sint n \<and> 0 < sint n \<and> sint n \<le> sint (bk_LatestHeight app) \<longrightarrow>
       eth_GetStorageAt E app SEP206AddrAsZeniqOnEthereum key (ByNumber n)
       = eth_GetStorageAt E app SEP206ContractAddress key (ByNumber n))"
proof -
  have ne: "SEP206AddrAsZeniqOnEthereum \<noteq> SEP206ContractAddress"
    by (simp add: SEP206AddrAsZeniqOnEthereum_def SEP206ContractAddress_def)
  have h: "getHeightArg app (ByNumber LatestBlockNumber) = Some (Inr (-1))"
    by (simp add: getHeightArg_def LatestBlockNumber_def PendingBlockNumber_def)
  have n: "0 < sint n \<Longrightarrow> n \<noteq> PendingBlockNumber" by (auto simp: PendingBlockNumber_def)
  show ?thesis
    using assms ne n
    by (auto simp: eth_GetStorageAt_def go_bind_def h bk_GetStorageAt_def GetRpcContextAtHeight_def getHeightArg_number Let_def)
qed


definition demo_lib :: "nat rpc_lib" where
  "demo_lib = \<lparr> lib_hash = t_Hash, lib_sign = (\<lambda>tx cid k. Inr (tx\<lparr> t_V := 2 * cid + 35, t_R := 1, t_S := 1 \<rparr>)),
     lib_encode = (\<lambda>_. Inr []), lib_decode = (\<lambda>_. Inl (GoError [])), lib_StatusIsFailure = (\<lambda>c. c \<noteq> 0),
     lib_StatusToStr = (\<lambda>_. ''failure''), lib_UnpackRevert = (\<lambda>_. Inl (GoError [])),
     lib_HexToPrivKey = (\<lambda>_. Inr 0), lib_PubkeyToAddress = of_nat \<rparr>"

definition demo_args :: CallArgs where
  "demo_args = \<lparr> ca_From = Some 1, ca_To = Some 2, ca_Gas = None, ca_GasPrice = None, ca_Value = None, ca_Data = None \<rparr>"

theorem eth_Call_at_height_witness:
  "eth_Call demo_lib demo_app demo_args (ByNumber 2) = Some (RunOk [])"
proof -
  let ?tx = "fst (createGethTxFromCallArgs demo_args)" and ?fr = "snd (createGethTxFromCallArgs demo_args)"
  obtain blk where blk: "hs_GetBlockByHeight (ra_history demo_app) 2 = Inr (Some blk)"
    by (simp add: demo_app_def mem_app_def mem_history_def mem_block_def)
  have run: "(mem_runner, 21000) = (if \<not> ra_ArchiveMode demo_app
      then ra_runTx demo_app (ra_rpcContext demo_app) (ra_blockInfo demo_app) False ?tx ?fr (ra_currHeight demo_app)
      else ra_runTx demo_app (ra_contextAt demo_app 2) (block_info_of demo_app blk) False ?tx ?fr (ra_currHeight demo_app))"
    by (simp add: demo_app_def mem_app_def)
  have "createGethTxFromCallArgs demo_args = (?tx, ?fr)" by simp
  from eth_Call_at_height [OF blk this run, of demo_lib] show ?thesis
    by (simp add: demo_app_def mem_app_def mem_history_def bk_LatestHeight_def demo_lib_def mem_runner_def)
qed

definition signed_app :: "(mem_ctx, bytes list, unit) rpc_app" where
  "signed_app = demo_app\<lparr> ra_history := (mem_history [[]])\<lparr> hs_GetTxByHash := (\<lambda>h. Inr (Some (mem_tx [[]] 1),
     EncodeVRS \<lparr> t_Hash = 1, t_Nonce = 0, t_Gas = 0, t_GasPrice = 0, t_Value = 0, t_Data = [], t_To = None,
       t_V = 2 * 0x59454E4951 + 35, t_R = 5, t_S = 6 \<rparr>)) \<rparr> \<rparr>"

theorem eth_GetTransactionByHash_signature_witness:
  "\<exists>r. eth_GetTransactionByHash signed_app 1 = Some r \<and> rt_R r = 5 \<and> rt_S r = 6 \<and> rt_V r = 197"
  using eth_GetTransactionByHash_signature [of signed_app 1 "mem_tx [[]] 1" "\<lparr> t_Hash = 1, t_Nonce = 0, t_Gas = 0,
      t_GasPrice = 0, t_Value = 0, t_Data = [], t_To = None, t_V = 2 * 0x59454E4951 + 35, t_R = 5, t_S = 6 \<rparr>" "0x59454E4951"]
  by (auto simp: signed_app_def)

theorem eth_GetStorageAt_alias_witness:
  "eth_GetStorageAt mem_rpc demo_app SEP206AddrAsZeniqOnEthereum 0 (ByNumber LatestBlockNumber) = Some (Inr (replicate 32 0))"
  using eth_GetStorageAt_alias [of demo_app mem_rpc 0 0]
  by (simp add: demo_app_def mem_app_def mem_rpc_def ext.defs mem_ext_def)

end
