(* ===== verification/RPC_Sbch.thy ===== *)
theory RPC_Sbch
  imports RPC_Eth
begin

text \<open>
  The methods of the \<open>zeniq\<close> (and \<open>sbch\<close>) name space of the JSON-RPC server
  (\<open>src/rpc/api/sbch_api.go\<close>, \<open>sbch_rpc_types.go\<close>): receipts with internal calls, searches
  over a range of heights, address counts, the health check and the detailed trial run.
\<close>

subsection \<open>The values of the answers\<close>

text \<open>What a transaction has read and written, as the EVM module reports it.\<close>

record ReadWriteLists =
  rw_CreationCounterRList :: "(u8 \<times> u64) list"
  rw_CreationCounterWList :: "(u8 \<times> u64) list"
  rw_AccountRList :: "(address \<times> bytes) list"
  rw_AccountWList :: "(address \<times> bytes) list"
  rw_BytecodeRList :: "(address \<times> bytes) list"
  rw_BytecodeWList :: "(address \<times> bytes) list"
  rw_StorageRList :: "(u64 \<times> bytes \<times> bytes) list"
  rw_StorageWList :: "(u64 \<times> bytes \<times> bytes) list"
  rw_BlockHashList :: "(u64 \<times> bytes32) list"

record AccountRWOp =
  ao_Addr :: address
  ao_Nonce :: u64
  ao_Balance :: "u256 option"

record RWLists =
  rl_CreationCounterRList :: "(u8 \<times> u64) list"
  rl_CreationCounterWList :: "(u8 \<times> u64) list"
  rl_AccountRList :: "AccountRWOp list"
  rl_AccountWList :: "AccountRWOp list"
  rl_BytecodeRList :: "(address \<times> bytes) list"
  rl_BytecodeWList :: "(address \<times> bytes) list"
  rl_StorageRList :: "(u64 \<times> bytes \<times> bytes) list"
  rl_StorageWList :: "(u64 \<times> bytes \<times> bytes) list"
  rl_BlockHashList :: "(u64 \<times> bytes32) list"

record CallLog =
  cl_Address :: address
  cl_Topics :: "bytes32 list"
  cl_Data :: bytes

record rpc_CallDetail =
  rd_Status :: int
  rd_GasUsed :: u64
  rd_OutData :: bytes
  rd_Logs :: "CallLog list"
  rd_CreatedContractAddress :: address
  rd_InternalTxs :: "InternalTx list"
  rd_RwLists :: RWLists

text \<open>\<open>types.NewAccountInfo\<close>: the nonce and the balance the bytes of an account hold.\<close>

definition castAccountOps :: "(bytes \<Rightarrow> u64 \<times> u256) \<Rightarrow> (address \<times> bytes) list \<Rightarrow> AccountRWOp list" where
  "castAccountOps accInfo ops = map (\<lambda>(addr, account).
     if 0 < length account
     then \<lparr> ao_Addr = addr, ao_Nonce = fst (accInfo account), ao_Balance = Some (snd (accInfo account)) \<rparr>
     else \<lparr> ao_Addr = addr, ao_Nonce = 0, ao_Balance = None \<rparr>) ops"

definition castCreationCounterOps :: "(u8 \<times> u64) list \<Rightarrow> (u8 \<times> u64) list" where
  "castCreationCounterOps ops = map (\<lambda>(lsb, counter). (lsb, counter)) ops"

definition castBytecodeOps :: "(address \<times> bytes) list \<Rightarrow> (address \<times> bytes) list" where
  "castBytecodeOps ops = map (\<lambda>(addr, bytecode). (addr, bytecode)) ops"

definition castStorageOps :: "(u64 \<times> bytes \<times> bytes) list \<Rightarrow> (u64 \<times> bytes \<times> bytes) list" where
  "castStorageOps ops = map (\<lambda>(seq, key, val). (seq, key, val)) ops"

definition castBlockHashOps :: "(u64 \<times> bytes32) list \<Rightarrow> (u64 \<times> bytes32) list" where
  "castBlockHashOps ops = map (\<lambda>(height, hash). (height, hash)) ops"

definition castRWLists :: "(bytes \<Rightarrow> u64 \<times> u256) \<Rightarrow> ReadWriteLists option \<Rightarrow> RWLists" where
  "castRWLists accInfo rwLists = (case rwLists of
     None \<Rightarrow> \<lparr> rl_CreationCounterRList = [], rl_CreationCounterWList = [], rl_AccountRList = [], rl_AccountWList = [],
       rl_BytecodeRList = [], rl_BytecodeWList = [], rl_StorageRList = [], rl_StorageWList = [], rl_BlockHashList = [] \<rparr>
   | Some rw \<Rightarrow> \<lparr> rl_CreationCounterRList = castCreationCounterOps (rw_CreationCounterRList rw),
       rl_CreationCounterWList = castCreationCounterOps (rw_CreationCounterWList rw),
       rl_AccountRList = castAccountOps accInfo (rw_AccountRList rw),
       rl_AccountWList = castAccountOps accInfo (rw_AccountWList rw),
       rl_BytecodeRList = castBytecodeOps (rw_BytecodeRList rw),
       rl_BytecodeWList = castBytecodeOps (rw_BytecodeWList rw),
       rl_StorageRList = castStorageOps (rw_StorageRList rw),
       rl_StorageWList = castStorageOps (rw_StorageWList rw),
       rl_BlockHashList = castBlockHashOps (rw_BlockHashList rw) \<rparr>)"

definition castEvmLogs :: "EvmLog list \<Rightarrow> CallLog list" where
  "castEvmLogs evmLogs = map (\<lambda>l. \<lparr> cl_Address = log_Address l, cl_Topics = log_Topics l, cl_Data = log_Data l \<rparr>) evmLogs"

definition castMoLogs :: "mo_Log list \<Rightarrow> CallLog list" where
  "castMoLogs moLogs = map (\<lambda>l. \<lparr> cl_Address = ml_Address l, cl_Topics = ml_Topics l, cl_Data = ml_Data l \<rparr>) moLogs"

definition toRpcCallDetail ::
  "'k rpc_lib \<Rightarrow> (bytes \<Rightarrow> u64 \<times> u256) \<Rightarrow> ReadWriteLists CallDetail \<Rightarrow> rpc_CallDetail option" where
  "toRpcCallDetail L accInfo detail =
     (case buildInternalCallList (cd_InternalTxCalls detail) (cd_InternalTxReturns detail) of
        None \<Rightarrow> None
      | Some calls \<Rightarrow> Some \<lparr> rd_Status = (if lib_StatusIsFailure L (cd_Status detail) then 0 else 1),
          rd_GasUsed = cd_GasUsed detail, rd_OutData = cd_OutData detail, rd_Logs = castEvmLogs (cd_Logs detail),
          rd_CreatedContractAddress = cd_CreatedContractAddress detail, rd_InternalTxs = calls,
          rd_RwLists = castRWLists accInfo (cd_RwLists detail) \<rparr>)"

definition TxToRpcCallDetail ::
  "(bytes \<Rightarrow> u64 \<times> u256) \<Rightarrow> ('b, ReadWriteLists) mo_Transaction \<Rightarrow> rpc_CallDetail option" where
  "TxToRpcCallDetail accInfo tx =
     (case buildInternalCallList (mt_InternalTxCalls tx) (mt_InternalTxReturns tx) of
        None \<Rightarrow> None
      | Some calls \<Rightarrow> Some \<lparr> rd_Status = sint (mt_Status tx), rd_GasUsed = mt_GasUsed tx, rd_OutData = mt_OutData tx,
          rd_Logs = castMoLogs (mt_Logs tx), rd_CreatedContractAddress = mt_ContractAddress tx, rd_InternalTxs = calls,
          rd_RwLists = castRWLists accInfo (mt_RwLists tx) \<rparr>)"

record rpc_Nomination =
  rn_Pubkey :: bytes32
  rn_NominatedCount :: i64

record StakingEpoch =
  se_Number :: u64
  se_StartHeight :: u64
  se_EndTime :: i64
  se_Nominations :: "rpc_Nomination list"

definition castNominations :: "Nomination list \<Rightarrow> rpc_Nomination list" where
  "castNominations nominations = map (\<lambda>n. \<lparr> rn_Pubkey = n_Pubkey n, rn_NominatedCount = n_NominatedCount n \<rparr>) nominations"

definition castStakingEpoch :: "Epoch \<Rightarrow> StakingEpoch" where
  "castStakingEpoch epoch = \<lparr> se_Number = e_Number epoch, se_StartHeight = e_StartHeight epoch, se_EndTime = e_EndTime epoch,
     se_Nominations = castNominations (e_Nominations epoch) \<rparr>"

definition castStakingEpochs :: "Epoch list \<Rightarrow> StakingEpoch list" where
  "castStakingEpochs epochs = map castStakingEpoch epochs"

subsection \<open>Receipts with internal calls\<close>

definition txToReceiptWithInternalTxs ::
  "('c, 'b, 'w) rpc_app \<Rightarrow> ('b, 'w) mo_Transaction \<Rightarrow> (receipt_resp \<times> InternalTx list) option" where
  "txToReceiptWithInternalTxs app tx =
     map_option (\<lambda>calls. (txToReceiptRpcResp app tx, calls))
       (buildInternalCallList (mt_InternalTxCalls tx) (mt_InternalTxReturns tx))"

fun txsToReceiptsWithInternalTxs ::
  "('c, 'b, 'w) rpc_app \<Rightarrow> ('b, 'w) mo_Transaction list \<Rightarrow> (receipt_resp \<times> InternalTx list) list option" where
  "txsToReceiptsWithInternalTxs app [] = Some []"
| "txsToReceiptsWithInternalTxs app (tx # txs) = do {
     r \<leftarrow> txToReceiptWithInternalTxs app tx;
     rs \<leftarrow> txsToReceiptsWithInternalTxs app txs;
     Some (r # rs) }"

definition sbch_GetTxListByHeightWithRange ::
  "('c, 'b, 'w) rpc_app \<Rightarrow> i64 \<Rightarrow> u64 \<Rightarrow> u64 \<Rightarrow> (receipt_resp \<times> InternalTx list) list go" where
  "sbch_GetTxListByHeightWithRange app height0 start end =
     (let height = (if height0 = LatestBlockNumber then bk_LatestHeight app else height0);
          iEnd = (if end = 0 then -1 else end)
      in case bk_GetTxListByHeightWithRange app (ucast height) start iEnd of
           Inl err \<Rightarrow> Some (Inl err)
         | Inr (txs, _) \<Rightarrow> (case txsToReceiptsWithInternalTxs app txs of None \<Rightarrow> None | Some rs \<Rightarrow> Some (Inr rs)))"

definition sbch_GetTxListByHeight ::
  "('c, 'b, 'w) rpc_app \<Rightarrow> i64 \<Rightarrow> (receipt_resp \<times> InternalTx list) list go" where
  "sbch_GetTxListByHeight app height = sbch_GetTxListByHeightWithRange app height 0 0"

definition sbch_GetTransactionReceipt ::
  "('c, 'b, 'w) rpc_app \<Rightarrow> bytes32 \<Rightarrow> (receipt_resp \<times> InternalTx list) option option" where
  "sbch_GetTransactionReceipt app hash =
     (case bk_GetTransaction app hash of
        Inl _ \<Rightarrow> Some None
      | Inr (tx, _) \<Rightarrow> (case txToReceiptWithInternalTxs app tx of None \<Rightarrow> None | Some r \<Rightarrow> Some (Some r)))"

subsection \<open>Searches over a range of heights\<close>

definition prepareHeightRange :: "('c, 'b, 'w) rpc_app \<Rightarrow> i64 \<Rightarrow> i64 \<Rightarrow> u32 \<times> u32" where
  "prepareHeightRange app start0 end0 =
     (let startHeight = (if start0 = LatestBlockNumber then bk_LatestHeight app else start0);
          endHeight = (if end0 = LatestBlockNumber then bk_LatestHeight app else end0)
      in if sint endHeight < sint startHeight then (ucast (startHeight + 1), ucast endHeight)
         else (ucast startHeight, ucast (endHeight + 1)))"

definition tx_list_answer :: "('b, 'w) tx_sigs res \<Rightarrow> rpc_Transaction list go" where
  "tx_list_answer found = (case found of
     Inl err \<Rightarrow> Some (Inl err)
   | Inr (txs, sigs) \<Rightarrow> (case txsToRpcResp txs sigs of None \<Rightarrow> None | Some rs \<Rightarrow> Some (Inr rs)))"

definition sbch_QueryTxBySrc :: "('c, 'b, 'w) rpc_app \<Rightarrow> address \<Rightarrow> i64 \<Rightarrow> i64 \<Rightarrow> u64 \<Rightarrow> rpc_Transaction list go" where
  "sbch_QueryTxBySrc app addr startHeight endHeight limit =
     (let (s, e) = prepareHeightRange app startHeight endHeight
      in tx_list_answer (hs_QueryTxBySrc (ra_history app) addr s e (ucast limit)))"

definition sbch_QueryTxByDst :: "('c, 'b, 'w) rpc_app \<Rightarrow> address \<Rightarrow> i64 \<Rightarrow> i64 \<Rightarrow> u64 \<Rightarrow> rpc_Transaction list go" where
  "sbch_QueryTxByDst app addr startHeight endHeight limit =
     (let (s, e) = prepareHeightRange app startHeight endHeight
      in tx_list_answer (hs_QueryTxByDst (ra_history app) addr s e (ucast limit)))"

definition sbch_QueryTxByAddr :: "('c, 'b, 'w) rpc_app \<Rightarrow> address \<Rightarrow> i64 \<Rightarrow> i64 \<Rightarrow> u64 \<Rightarrow> rpc_Transaction list go" where
  "sbch_QueryTxByAddr app addr startHeight endHeight limit =
     (let (s, e) = prepareHeightRange app startHeight endHeight
      in tx_list_answer (hs_QueryTxByAddr (ra_history app) addr s e (ucast limit)))"

definition sbch_QueryLogs ::
  "('c, 'b, 'w) rpc_app \<Rightarrow> address \<Rightarrow> bytes32 list \<Rightarrow> i64 \<Rightarrow> i64 \<Rightarrow> u64 \<Rightarrow> geth_Log list res" where
  "sbch_QueryLogs app addr topics start0 end0 limit =
     (let startHeight = (if start0 = LatestBlockNumber then bk_LatestHeight app else start0);
          endHeight = (if end0 = LatestBlockNumber then bk_LatestHeight app else end0)
      in case hs_BasicQueryLogs (ra_history app) addr topics (ucast startHeight) (ucast endHeight) (ucast limit) of
           Inl err \<Rightarrow> Inl err
         | Inr ls \<Rightarrow> Inr (ra_ToGethLogs app ls))"

definition count_kind :: "string \<Rightarrow> i64 \<Rightarrow> i64 \<Rightarrow> u64" where
  "count_kind kind fromC toC =
     (let fromCount = (if kind = ''from'' \<or> kind = ''both'' then fromC else 0);
          toCount = (if kind = ''to'' \<or> kind = ''both'' then toC else 0)
      in if kind = ''from'' then fromCount
         else if kind = ''to'' then toCount
         else if kind = ''both'' then fromCount + toCount
         else 0)"

definition sbch_GetAddressCount :: "('c, 'b, 'w) rpc_app \<Rightarrow> string \<Rightarrow> address \<Rightarrow> u64" where
  "sbch_GetAddressCount app kind addr =
     count_kind kind (hs_GetFromAddressCount (ra_history app) addr) (hs_GetToAddressCount (ra_history app) addr)"

definition sbch_GetSep20AddressCount :: "('c, 'b, 'w) rpc_app \<Rightarrow> string \<Rightarrow> address \<Rightarrow> address \<Rightarrow> u64" where
  "sbch_GetSep20AddressCount app kind contract addr =
     count_kind kind (hs_GetSep20FromAddressCount (ra_history app) contract addr)
       (hs_GetSep20ToAddressCount (ra_history app) contract addr)"

text \<open>The clock is an argument; the message of an error of the history is left open.\<close>

record health =
  hc_latestBlockHeight :: u64
  hc_latestBlockTimestamp :: u64
  hc_ok :: bool
  hc_error :: "go_error option"

definition sbch_HealthCheck :: "('c, 'b, 'w) rpc_app \<Rightarrow> i64 \<Rightarrow> u64 \<Rightarrow> health option" where
  "sbch_HealthCheck app now tooOldAge0 =
     (let tooOldAge = (if tooOldAge0 = 0 then 30 else tooOldAge0)
      in case bk_CurrentBlock app of
           Inr (Some b) \<Rightarrow>
             (let latestBlockAge = now - mb_Timestamp b; isOk = sint latestBlockAge < sint tooOldAge
              in Some \<lparr> hc_latestBlockHeight = mb_Number b, hc_latestBlockTimestamp = mb_Timestamp b, hc_ok = isOk,
                   hc_error = (if isOk then None else Some (GoError (''latest block is too old: '' @ itoa (sint latestBlockAge) @ ''s''))) \<rparr>)
         | Inr None \<Rightarrow> None
         | Inl err \<Rightarrow> Some \<lparr> hc_latestBlockHeight = 0, hc_latestBlockTimestamp = 0, hc_ok = False, hc_error = Some err \<rparr>)"

definition sbch_Call ::
  "'k rpc_lib \<Rightarrow> (bytes \<Rightarrow> u64 \<times> u256) \<Rightarrow> ('c, 'b, ReadWriteLists) rpc_app \<Rightarrow> CallArgs \<Rightarrow> block_ref \<Rightarrow> rpc_CallDetail go" where
  "sbch_Call L accInfo app args r =
     (let (tx, fr) = createGethTxFromCallArgs args
      in go_bind (getHeightArg app r) (\<lambda>height.
           case bk_CallForSbch app tx fr height of
             None \<Rightarrow> None
           | Some detail \<Rightarrow> (case toRpcCallDetail L accInfo detail of None \<Rightarrow> None | Some d \<Rightarrow> Some (Inr d))))"


subsection \<open>What the answers say\<close>

text \<open>
  \<open>zeniq_call\<close> at a mined height of an archive node replays: it runs on the state of the
  block before and with the header of the block itself, returns, and reports the internal
  calls as the tree they were made in, each call with its own return.
\<close>

theorem zeniq_call_replays:
  fixes app :: "('c, 'b, ReadWriteLists) rpc_app"
  assumes "ra_ArchiveMode app" and "0 < sint n" and "sint n \<le> sint (bk_LatestHeight app)"
    and "hs_GetBlockByHeight (ra_history app) n = Inr (Some blk)"
    and "createGethTxFromCallArgs args = (tx, fr)"
    and "ra_runTx app (ra_contextAt app (n - 1)) (block_info_of app blk) False tx fr (ra_currHeight app) = (runner, g)"
    and "rn_InternalTxCalls runner = calls_of t" and "rn_InternalTxReturns runner = rets_of t" and "depths_ok d t"
  shows "sbch_Call L accInfo app args (ByNumber n) = Some (Inr
    \<lparr> rd_Status = (if lib_StatusIsFailure L (rn_Status runner) then 0 else 1), rd_GasUsed = rn_GasUsed runner,
      rd_OutData = rn_OutData runner, rd_Logs = castEvmLogs (rn_Logs runner),
      rd_CreatedContractAddress = rn_CreatedContractAddress runner, rd_InternalTxs = sites [0] t,
      rd_RwLists = castRWLists accInfo (rn_RwLists runner) \<rparr>)"
proof -
  have n: "n \<noteq> PendingBlockNumber" using assms(2) by (auto simp: PendingBlockNumber_def)
  have "sint (n - 1) = sint n - 1"
    using assms(2) sint_range [of n] by (intro sint_dec) simp
  then have "GetRpcContextAtHeight app (n - 1) = ra_contextAt app (n - 1)"
    using assms(1,2) by (simp add: GetRpcContextAtHeight_def)
  moreover have "buildInternalCallList (calls_of t) (rets_of t) = Some (sites [0] t)"
    using call_list_of_tree [OF assms(9), of "[]"] by simp
  ultimately show ?thesis
    using assms n by (simp add: sbch_Call_def go_bind_def getHeightArg_number bk_CallForSbch_def RunTxForSbchRpc_def
        toRpcCallDetail_def Let_def)
qed

text \<open>
  The range \<open>zeniq_queryTxBySrc\<close>, \<open>ByDst\<close> and \<open>ByAddr\<close> search covers the two heights asked
  for and everything between them, in the direction asked for; the newest block stands for
  \<open>latest\<close>. It holds for heights below \<open>2 ^ 32 - 1\<close>: the bound is advanced as an \<open>int64\<close> and
  then cut to 32 bits.
\<close>

theorem prepareHeightRange_covers:
  assumes "s = (if start = LatestBlockNumber then bk_LatestHeight app else start)"
    and "e = (if end = LatestBlockNumber then bk_LatestHeight app else end)"
    and "0 \<le> sint s" and "sint s < 2 ^ 32 - 1" and "0 \<le> sint e" and "sint e < 2 ^ 32 - 1"
    and "prepareHeightRange app start end = (a, b)"
  shows "{int (min (unat a) (unat b))..<int (max (unat a) (unat b))} = {min (sint s) (sint e)..max (sint s) (sint e)}
    \<and> (unat b < unat a \<longleftrightarrow> sint e < sint s)"
proof -
  have cut: "unat (ucast x :: u32) = nat (sint x)" if "0 \<le> sint x" "sint x < 2 ^ 32" for x :: i64
  proof -
    have "int (unat x) = sint x" using that(1) by (simp add: uint_eq_sint)
    then have "unat x = nat (sint x)" by linarith
    then show ?thesis using that by (simp add: unsigned_ucast_eq take_bit_nat_eq_self)
  qed
  have s: "sint (s + 1) = sint s + 1" "sint (e + 1) = sint e + 1"
    using assms(3-6) by (auto intro: sint_inc)
  have "a = (if sint e < sint s then ucast (s + 1) else ucast s)" "b = (if sint e < sint s then ucast e else ucast (e + 1))"
    using assms(1,2,7) by (auto simp: prepareHeightRange_def Let_def split: if_splits)
  moreover have "unat (ucast s :: u32) = nat (sint s)" "unat (ucast e :: u32) = nat (sint e)"
    "unat (ucast (s + 1) :: u32) = nat (sint s + 1)" "unat (ucast (e + 1) :: u32) = nat (sint e + 1)"
    using assms(3-6) s cut by auto
  ultimately show ?thesis using assms(3,5) by (auto simp: min_def max_def)
qed


definition replay_app :: "(mem_ctx, bytes list, ReadWriteLists) rpc_app" where
  "replay_app = \<lparr> ra_ArchiveMode = True, ra_rpcContext = ra_rpcContext demo_app, ra_contextAt = ra_contextAt demo_app,
     ra_history = \<lparr> hs_GetTxByHash = (\<lambda>_. Inl ErrBlockNotFound), hs_GetBlockByHash = (\<lambda>_. Inl ErrBlockNotFound),
       hs_GetBlockByHeight = (\<lambda>n. mem_block [[], []] (unat n)), hs_GetLatestHeight = 2,
       hs_GetTxListByHeight = (\<lambda>_. Inl ErrBlockNotFound), hs_GetTxListByHeightWithRange = (\<lambda>_ _ _. Inl ErrBlockNotFound),
       hs_QueryLogs = (\<lambda>_ _ _ _ _. Inr []), hs_BasicQueryLogs = (\<lambda>_ _ _ _ _. Inr []),
       hs_QueryTxBySrc = (\<lambda>_ _ _ _. Inr ([], [])), hs_QueryTxByDst = (\<lambda>_ _ _ _. Inr ([], [])),
       hs_QueryTxByAddr = (\<lambda>_ _ _ _. Inr ([], [])), hs_GetToAddressCount = (\<lambda>_. 0), hs_GetFromAddressCount = (\<lambda>_. 0),
       hs_GetSep20ToAddressCount = (\<lambda>_ _. 0), hs_GetSep20FromAddressCount = (\<lambda>_ _. 0) \<rparr>,
     ra_currHeight = 2, ra_blockInfo = ra_blockInfo demo_app, ra_chainId = 1, ra_CCRPCForkBlock = 10,
     ra_HeightRevision = [(0, 7)],
     ra_runTx = (\<lambda>_ _ _ _ _ _. (\<lparr> rn_Status = 0, rn_GasUsed = 90, rn_OutData = [], rn_Logs = [], rn_CreatedContractAddress = 0,
       rn_InternalTxCalls = calls_of demo_tree, rn_InternalTxReturns = rets_of demo_tree, rn_RwLists = None \<rparr>, 90)),
     ra_ToGethLogs = mem_ToGethLogs, ra_BroadcastTxSync = (\<lambda>_. Inr 1) \<rparr>"

theorem zeniq_call_replays_witness:
  "\<exists>r. sbch_Call demo_lib (\<lambda>_. (0, 0)) replay_app demo_args (ByNumber 2) = Some (Inr r)
     \<and> map it_CallPath (rd_InternalTxs r) = [''call_0'', ''call_0_0'', ''call_0_0_0'', ''call_0_1'']"
proof -
  let ?tx = "fst (createGethTxFromCallArgs demo_args)" and ?fr = "snd (createGethTxFromCallArgs demo_args)"
  obtain blk where blk: "hs_GetBlockByHeight (ra_history replay_app) 2 = Inr (Some blk)"
    by (simp add: replay_app_def mem_block_def)
  have tx: "createGethTxFromCallArgs demo_args = (?tx, ?fr)" by simp
  have "sbch_Call demo_lib (\<lambda>_. (0, 0)) replay_app demo_args (ByNumber 2) = Some (Inr
      \<lparr> rd_Status = 1, rd_GasUsed = 90, rd_OutData = [], rd_Logs = castEvmLogs [],
        rd_CreatedContractAddress = 0, rd_InternalTxs = sites [0] demo_tree,
        rd_RwLists = castRWLists (\<lambda>_. (0, 0)) None \<rparr>)"
    by (subst zeniq_call_replays [OF _ _ _ blk tx, where t = demo_tree and d = 0])
      (simp_all add: replay_app_def bk_LatestHeight_def demo_lib_def, simp_all add: demo_tree_def demo_call_def)
  then show ?thesis
    by (simp add: demo_tree_def demo_call_def demo_ret_def site_def newCallSite_def addRetInfo_def
        path_str_def getCallType_def itoa_def digits.simps Let_def char_of_def bit_0)
qed

theorem prepareHeightRange_covers_witness:
  "\<exists>a b. prepareHeightRange replay_app LatestBlockNumber 1 = (a, b) \<and> unat b < unat a
     \<and> {int (min (unat a) (unat b))..<int (max (unat a) (unat b))} = {1..2}"
proof -
  obtain a b where ab: "prepareHeightRange replay_app LatestBlockNumber 1 = (a, b)" by fastforce
  have s: "2 = (if LatestBlockNumber = LatestBlockNumber then bk_LatestHeight replay_app else LatestBlockNumber)"
    and e: "1 = (if (1 :: i64) = LatestBlockNumber then bk_LatestHeight replay_app else 1)"
    by (simp_all add: replay_app_def bk_LatestHeight_def LatestBlockNumber_def)
  have "{int (min (unat a) (unat b))..<int (max (unat a) (unat b))}
      = {min (sint (2 :: i64)) (sint (1 :: i64))..max (sint (2 :: i64)) (sint (1 :: i64))}
      \<and> (unat b < unat a \<longleftrightarrow> sint (1 :: i64) < sint (2 :: i64))"
    by (rule prepareHeightRange_covers [OF s e _ _ _ _ ab]) simp_all
  moreover have "min (sint (2 :: i64)) (sint (1 :: i64)) = 1" "max (sint (2 :: i64)) (sint (1 :: i64)) = 2"
    "sint (1 :: i64) < sint (2 :: i64)" by simp_all
  ultimately have "{int (min (unat a) (unat b))..<int (max (unat a) (unat b))} = {1..2}" "unat b < unat a"
    by (simp_all only: simp_thms)
  with ab show ?thesis by blast
qed

end
