(* ===== verification/Toml.thy ===== *)
theory Toml
  imports Main_Client
begin

text \<open>
  What the node relies on of the library that reads its configuration files: the part of the
  format TOML that the template of \<open>app.toml\<close> (\<open>src/param/toml.go\<close>) is written in. The library is
  the function \<open>Load\<close> from a text to the list of its keys and values; the locale \<open>toml_lib\<close> says
  that a file of blank lines, comments and lines \<open>key = value\<close> is read as it is meant, where an
  integer has 64 bits and the characters between the quotes of a string stand for themselves,
  so that none of them is a quote, a backslash or a control character. \<open>mem_toml\<close> is such a reader.
\<close>

datatype toml_value = TInt int | TStr string | TBool bool | TInts "int list list"

definition toml_char :: "char \<Rightarrow> bool" where
  "toml_char c \<longleftrightarrow> (let n = of_char c :: nat in 32 \<le> n \<and> n < 127)"

definition plain_text :: "string \<Rightarrow> bool" where
  "plain_text t \<longleftrightarrow> (\<forall>c \<in> set t. toml_char c \<and> c \<noteq> CHR 0x22 \<and> c \<noteq> CHR 0x5C)"

definition int64 :: "int \<Rightarrow> bool" where
  "int64 i \<longleftrightarrow> - (2 ^ 63) \<le> i \<and> i < 2 ^ 63"

definition plain_value :: "toml_value \<Rightarrow> bool" where
  "plain_value v = (case v of TInt i \<Rightarrow> int64 i | TStr t \<Rightarrow> plain_text t | TBool _ \<Rightarrow> True | TInts xss \<Rightarrow> (\<forall>xs \<in> set xss. \<forall>i \<in> set xs. int64 i))"

fun commas :: "string list \<Rightarrow> string" where
  "commas [] = []"
| "commas [t] = t"
| "commas (t # u # ts) = t @ '', '' @ commas (u # ts)"

definition quoted :: "string \<Rightarrow> string" where
  "quoted t = CHR 0x22 # t @ [CHR 0x22]"

definition row_lit :: "int list \<Rightarrow> string" where
  "row_lit xs = ''['' @ commas (map itoa xs) @ '']''"

definition toml_lit :: "toml_value \<Rightarrow> string" where
  "toml_lit v = (case v of
       TInt i \<Rightarrow> itoa i
     | TStr t \<Rightarrow> quoted t
     | TBool b \<Rightarrow> if b then ''true'' else ''false''
     | TInts xss \<Rightarrow> ''[ '' @ commas (map row_lit xss) @ '' ]'')"

definition bare_key :: "string \<Rightarrow> bool" where
  "bare_key k \<longleftrightarrow> k \<noteq> [] \<and> set k \<subseteq> set ''abcdefghijklmnopqrstuvwxyz0123456789_-''"

inductive toml_line :: "string \<Rightarrow> (string \<times> toml_value) option \<Rightarrow> bool" where
  blank: "toml_line [] None"
| comment: "\<forall>c \<in> set t. toml_char c \<Longrightarrow> toml_line (CHR ''#'' # t) None"
| entry: "bare_key k \<Longrightarrow> plain_value v \<Longrightarrow> toml_line (k @ '' = '' @ toml_lit v) (Some (k, v))"

inductive_cases toml_lineE: "toml_line l e"

definition newline :: char where "newline = CHR 0x0A"

definition text_of_lines :: "string list \<Rightarrow> string" where
  "text_of_lines ls = concat (map (\<lambda>l. l @ [newline]) ls)"

locale toml_lib =
  fixes Load :: "string \<Rightarrow> (string \<times> toml_value) list option"
  assumes load: "list_all2 toml_line ls es \<Longrightarrow> distinct (map fst (List.map_filter id es)) \<Longrightarrow>
    Load (text_of_lines ls) = Some (List.map_filter id es)"

subsection \<open>Numbers\<close>

fun parse_digits :: "nat \<Rightarrow> nat \<Rightarrow> string \<Rightarrow> nat option" where
  "parse_digits b v [] = Some v"
| "parse_digits b v (c # s) = (if char_digit c < b then parse_digits b (v * b + char_digit c) s else None)"

lemma parse_digits_append:
  "parse_digits b v (s @ t) = (case parse_digits b v s of None \<Rightarrow> None | Some w \<Rightarrow> parse_digits b w t)"
  by (induction b v s rule: parse_digits.induct) auto

lemma digit_char: "d < 10 \<Longrightarrow> char_digit (char_of (48 + d)) = d \<and> of_char (char_of (48 + d) :: char) = (48 + d :: nat)"
  by (simp add: char_digit_def Let_def)

lemma parse_digits_digits: "parse_digits 10 0 (digits n) = Some n"
proof (induction n rule: digits.induct)
  case (1 n)
  show ?case
  proof (cases "n < 10")
    case True
    then show ?thesis using digit_char [of n] by (simp add: digits.simps [of n])
  next
    case False
    then show ?thesis using 1 digit_char [of "n mod 10"] by (simp add: digits.simps [of n] parse_digits_append)
  qed
qed

definition number_char :: "char \<Rightarrow> bool" where
  "number_char c \<longleftrightarrow> (let n = of_char c :: nat in n = 45 \<or> 48 \<le> n \<and> n < 58)"

lemma digits_chars: "digits n \<noteq> [] \<and> (\<forall>c \<in> set (digits n). number_char c \<and> c \<noteq> CHR ''-'')"
proof (induction n rule: digits.induct)
  case (1 n)
  have d: "number_char (char_of (48 + d)) \<and> char_of (48 + d) \<noteq> CHR ''-''" if "d < 10" for d :: nat
  proof -
    have n: "of_char (char_of (48 + d) :: char) = (48 + d :: nat)" using digit_char [OF that] by blast
    then have "of_char (char_of (48 + d) :: char) \<noteq> (of_char CHR ''-'' :: nat)" by simp
    then have "char_of (48 + d) \<noteq> CHR ''-''" by metis
    then show ?thesis unfolding number_char_def Let_def n using that by simp
  qed
  show ?case
  proof (cases "n < 10")
    case True
    then show ?thesis using d by (simp add: digits.simps [of n])
  next
    case False
    then show ?thesis using 1 d [of "n mod 10"] by (simp add: digits.simps [of n])
  qed
qed

lemma itoa_chars: "itoa i \<noteq> [] \<and> (\<forall>c \<in> set (itoa i). number_char c)"
  using digits_chars by (auto simp: itoa_def number_char_def)

subsection \<open>A reader\<close>

definition mem_int :: "string \<Rightarrow> int option" where
  "mem_int t = (case t of
       [] \<Rightarrow> None
     | c # s \<Rightarrow> (let (neg, s) = (if c = CHR ''-'' then (True, s) else (False, t))
         in case parse_digits 10 0 s of None \<Rightarrow> None
          | Some n \<Rightarrow> if s \<noteq> [] \<and> int64 (if neg then - int n else int n) then Some (if neg then - int n else int n) else None))"

text \<open>The row that is read, \<open>None\<close> between two rows, and the digits of the number that is read.\<close>

fun mem_rows :: "string \<Rightarrow> int list option \<Rightarrow> int list list \<Rightarrow> string \<Rightarrow> int list list option" where
  "mem_rows tok row rows [] = None"
| "mem_rows tok None rows (c # s) =
     (if c = CHR '']'' then if s = [] then Some rows else None
      else if c = CHR ''['' then mem_rows [] (Some []) rows s
      else if c = CHR '' '' \<or> c = CHR '','' then mem_rows [] None rows s
      else None)"
| "mem_rows tok (Some row) rows (c # s) =
     (if c = CHR '']'' then if tok = [] then mem_rows [] None (rows @ [row]) s
        else (case mem_int tok of None \<Rightarrow> None | Some i \<Rightarrow> mem_rows [] None (rows @ [row @ [i]]) s)
      else if c = CHR '','' then (case mem_int tok of None \<Rightarrow> None | Some i \<Rightarrow> mem_rows [] (Some (row @ [i])) rows s)
      else if c = CHR '' '' then mem_rows tok (Some row) rows s
      else mem_rows (tok @ [c]) (Some row) rows s)"

definition mem_value :: "string \<Rightarrow> toml_value option" where
  "mem_value t =
     (if t = ''true'' then Some (TBool True) else if t = ''false'' then Some (TBool False)
      else case t of [] \<Rightarrow> None
        | c # s \<Rightarrow>
            if c = CHR 0x22 then if s \<noteq> [] \<and> last s = CHR 0x22 \<and> plain_text (butlast s) then Some (TStr (butlast s)) else None
            else if c = CHR ''['' then map_option TInts (mem_rows [] None [] s)
            else map_option TInt (mem_int t))"

definition mem_line :: "string \<Rightarrow> (string \<times> toml_value) option option" where
  "mem_line l =
     (if l = [] \<or> hd l = CHR ''#'' then Some None
      else let k = takeWhile (\<lambda>c. c \<noteq> CHR '' '') l; r = dropWhile (\<lambda>c. c \<noteq> CHR '' '') l
        in if take 3 r = '' = '' then map_option (\<lambda>v. Some (k, v)) (mem_value (drop 3 r)) else None)"

fun split_lines :: "string \<Rightarrow> string \<Rightarrow> string list" where
  "split_lines l [] = (if l = [] then [] else [l])"
| "split_lines l (c # s) = (if c = newline then l # split_lines [] s else split_lines (l @ [c]) s)"

definition mem_toml :: "string \<Rightarrow> (string \<times> toml_value) list option" where
  "mem_toml t = (case those (map mem_line (split_lines [] t)) of
     None \<Rightarrow> None
   | Some es \<Rightarrow> if distinct (map fst (List.map_filter id es)) then Some (List.map_filter id es) else None)"

lemma mem_int_itoa: "int64 i \<Longrightarrow> mem_int (itoa i) = Some i"
proof -
  assume i: "int64 i"
  have "mem_int (digits n) = (if int64 (int n) then Some (int n) else None)" for n
  proof -
    obtain c s where cs: "digits n = c # s" using digits_chars by (cases "digits n") auto
    then have "c \<noteq> CHR ''-''" using digits_chars [of n] by auto
    then show ?thesis using cs parse_digits_digits [of n] by (simp add: mem_int_def)
  qed
  moreover have "mem_int (CHR ''-'' # digits n) = (if int64 (- int n) then Some (- int n) else None)" for n
    using parse_digits_digits [of n] digits_chars [of n] by (simp add: mem_int_def)
  ultimately show ?thesis using i by (simp add: itoa_def)
qed

lemma mem_rows_token:
  "\<forall>c \<in> set ds. number_char c \<Longrightarrow> mem_rows tok (Some row) rows (ds @ s) = mem_rows (tok @ ds) (Some row) rows s"
proof (induction ds arbitrary: tok)
  case (Cons c ds)
  then have "c \<noteq> CHR '']''" "c \<noteq> CHR '',''" "c \<noteq> CHR '' ''" by (auto simp: number_char_def)
  then show ?case using Cons by simp
qed simp

lemma mem_rows_row:
  "\<forall>i \<in> set xs. int64 i \<Longrightarrow>
   mem_rows [] (Some row) rows (commas (map itoa xs) @ CHR '']'' # s) = mem_rows [] None (rows @ [row @ xs]) s"
proof (induction xs arbitrary: row)
  case (Cons x xs)
  have x: "mem_rows [] (Some row) rows (itoa x @ t) = mem_rows (itoa x) (Some row) rows t" for t
    using mem_rows_token [of "itoa x" "[]"] itoa_chars by simp
  show ?case
  proof (cases xs)
    case Nil
    then show ?thesis using Cons.prems itoa_chars [of x] by (simp add: x mem_int_itoa)
  next
    case (Cons y ys)
    then show ?thesis using Cons.IH [of "row @ [x]"] Cons.prems by (simp add: x mem_int_itoa)
  qed
qed simp

lemma mem_rows_rows:
  "\<forall>xs \<in> set xss. \<forall>i \<in> set xs. int64 i \<Longrightarrow>
   mem_rows [] None rows (commas (map row_lit xss) @ '' ]'') = Some (rows @ xss)"
proof (induction xss arbitrary: rows)
  case (Cons x xss)
  have x: "mem_rows [] None rows (row_lit x @ t) = mem_rows [] None (rows @ [x]) t" for t
    using mem_rows_row [of x "[]" rows t] Cons.prems by (simp add: row_lit_def)
  show ?case
  proof (cases xss)
    case Nil
    then show ?thesis by (simp add: x)
  next
    case (Cons y ys)
    then show ?thesis using Cons.IH [of "rows @ [x]"] Cons.prems by (simp add: x)
  qed
qed simp

lemma mem_value_lit: "plain_value v \<Longrightarrow> mem_value (toml_lit v) = Some v"
proof (cases v)
  case (TInt i)
  obtain c s where cs: "itoa i = c # s" "number_char c" using itoa_chars [of i] by (cases "itoa i") auto
  then have "c \<noteq> CHR ''t''" "c \<noteq> CHR ''f''" "c \<noteq> CHR 0x22" "c \<noteq> CHR ''[''" by (auto simp: number_char_def)
  moreover assume "plain_value v"
  then have "mem_int (c # s) = Some i" using mem_int_itoa [of i] cs(1) TInt by (simp add: plain_value_def)
  ultimately show ?thesis using TInt cs(1) by (simp add: toml_lit_def mem_value_def)
next
  case (TInts xss)
  assume "plain_value v"
  then show ?thesis using mem_rows_rows [of xss "[]"] TInts by (simp add: toml_lit_def mem_value_def plain_value_def)
qed (simp_all add: toml_lit_def mem_value_def plain_value_def quoted_def)

lemma bare_key_space: "bare_key k \<Longrightarrow> CHR '' '' \<notin> set k \<and> hd k \<noteq> CHR ''#'' \<and> newline \<notin> set k"
  by (cases k) (auto simp: bare_key_def newline_def)

lemma mem_line_line:
  assumes "toml_line l e"
  shows "mem_line l = Some e"
  using assms
proof cases
  case (entry k v)
  have k: "CHR '' '' \<notin> set k" "hd k \<noteq> CHR ''#''" "k \<noteq> []" using bare_key_space [OF entry(3)] entry(3) by (auto simp: bare_key_def)
  have "takeWhile (\<lambda>c. c \<noteq> CHR '' '') (k @ '' = '' @ toml_lit v) = k"
    "dropWhile (\<lambda>c. c \<noteq> CHR '' '') (k @ '' = '' @ toml_lit v) = '' = '' @ toml_lit v"
    using k(1) by (subst takeWhile_append2 dropWhile_append2; force)+
  then show ?thesis using k(2,3) mem_value_lit [OF entry(4)] entry(1,2) by (simp add: mem_line_def Let_def)
qed (simp_all add: mem_line_def)

lemma number_char_line: "number_char c \<Longrightarrow> c \<noteq> newline"
  by (auto simp: number_char_def newline_def)

lemma commas_set: "set (commas ts) \<subseteq> set '', '' \<union> (\<Union>t \<in> set ts. set t)"
  by (induction ts rule: commas.induct) auto

lemma newline_number: "newline \<notin> set (itoa i)"
  using itoa_chars number_char_line by blast

lemma newline_row: "newline \<notin> set (row_lit xs)"
  using commas_set [of "map itoa xs"] newline_number by (auto simp: row_lit_def newline_def)

lemma newline_lit: "plain_value v \<Longrightarrow> newline \<notin> set (toml_lit v)"
proof (cases v)
  case (TInts xss)
  then show ?thesis using commas_set [of "map row_lit xss"] newline_row by (auto simp: toml_lit_def newline_def)
next
  case (TStr t)
  assume "plain_value v"
  moreover have "\<not> toml_char newline" "newline \<noteq> CHR 0x22" by (simp_all add: toml_char_def newline_def)
  ultimately show ?thesis using TStr by (auto simp: toml_lit_def quoted_def plain_value_def plain_text_def)
next
  case (TBool b)
  then show ?thesis by (simp add: toml_lit_def newline_def)
qed (simp add: toml_lit_def newline_number)

lemma toml_line_newline: "toml_line l e \<Longrightarrow> newline \<notin> set l"
proof (induction rule: toml_line.induct)
  case (entry k v)
  moreover have "newline \<notin> set '' = ''" by (simp add: newline_def)
  ultimately show ?case using bare_key_space [of k] newline_lit [of v] by (simp only: set_append Un_iff simp_thms)
next
  case (comment t)
  moreover have "\<not> toml_char newline" "newline \<noteq> CHR ''#''" by (simp_all add: toml_char_def newline_def)
  ultimately show ?case by auto
qed simp

lemma split_lines_line: "newline \<notin> set l \<Longrightarrow> split_lines a (l @ newline # s) = (a @ l) # split_lines [] s"
  by (induction l arbitrary: a) auto

lemma split_lines_text: "\<forall>l \<in> set ls. newline \<notin> set l \<Longrightarrow> split_lines [] (text_of_lines ls) = ls"
  by (induction ls) (simp_all add: text_of_lines_def split_lines_line)

interpretation mem_toml: toml_lib mem_toml
proof
  fix ls es
  assume ls: "list_all2 toml_line ls es" and d: "distinct (map fst (List.map_filter id es))"
  have "\<forall>l \<in> set ls. newline \<notin> set l"
    using ls by (induction rule: list_all2_induct) (auto dest: toml_line_newline)
  moreover have "map mem_line ls = map Some es" using ls mem_line_line by (auto simp: list_all2_conv_all_nth intro!: nth_equalityI)
  ultimately show "mem_toml (text_of_lines ls) = Some (List.map_filter id es)"
    using d by (simp add: mem_toml_def split_lines_text)
qed

end
