(* ===== verification/Node_Config.thy ===== *)
theory Node_Config
  imports App_Config Params Toml
begin

text \<open>
  The configuration of the application: the defaults (\<open>src/param/config.go\<close>), the template of
  the file \<open>app.toml\<close> (\<open>src/param/toml.go\<close>) and how the command reads it
  (\<open>src/cmd/zeniqsmartd/util.go\<close>). The file is the text that the template prints: it puts the
  strings between quotes as they are. The library that reads it is the argument \<open>Load\<close> (theory
  \<open>Toml\<close>), the one that fills the struct the argument \<open>Unmarshal\<close>: the locale \<open>config_decoder\<close> says
  that a key sets the field with its tag, a table only as far as it goes, and that the other
  fields keep their value.
\<close>

record AppConfig =
  AppDataPath :: string
  DbDataPath :: string
  RpcEthGetLogsMaxResults :: i64
  RetainBlocks :: i64
  ChangeRetainEveryN :: i64
  UseLiteDB :: bool
  NumKeptBlocks :: i64
  NumKeptBlocksInDB :: i64
  SigCacheSize :: i64
  TrunkCacheSize :: i64
  PruneEveryN :: i64
  RecheckThreshold :: i64
  MainnetRPCUrl :: string
  MainnetRPCUsername :: string
  MainnetRPCPassword :: string
  ZeniqsmartRPCUrl :: string
  Testing :: bool
  FrontierGasLimit :: u64
  ArchiveMode :: bool
  BlocksBehind :: i64
  CCRPCEpochs :: "i64 list list"
  CCRPCForkBlock :: i64
  HeightRevision :: "(i64 \<times> i64) list"

definition DefaultAppConfigWithHome :: "(string list \<Rightarrow> string) \<Rightarrow> string \<Rightarrow> string \<Rightarrow> AppConfig" where
  "DefaultAppConfigWithHome Join defaultHome home =
     (let home = (if home = [] then defaultHome else home) in
      \<lparr>AppDataPath = Join [home, ''data'', ''app''], DbDataPath = Join [home, ''data'', ''db''],
       RpcEthGetLogsMaxResults = 10000, RetainBlocks = -1, ChangeRetainEveryN = 100, UseLiteDB = False,
       NumKeptBlocks = 10000, NumKeptBlocksInDB = -1, SigCacheSize = 20000, TrunkCacheSize = 200, PruneEveryN = 10,
       RecheckThreshold = 1000, MainnetRPCUrl = [], MainnetRPCUsername = ''zeniq'', MainnetRPCPassword = ''zeniq123'',
       ZeniqsmartRPCUrl = [], Testing = False, FrontierGasLimit = word_of_int (sint BlockMaxGas sdiv 200),
       ArchiveMode = False, BlocksBehind = 0, CCRPCEpochs = [[184464, 6, 7200]], CCRPCForkBlock = 2 ^ 63 - 1 - 1000,
       HeightRevision = [(0, 7), (14444444, 7)]\<rparr>)"

subsection \<open>The file\<close>

text \<open>What the file says; the two tables are constants of the template.\<close>

definition config_entries :: "AppConfig \<Rightarrow> (string \<times> toml_value) list" where
  "config_entries config = [
     (''get_logs_max_results'', TInt (sint (RpcEthGetLogsMaxResults config))),
     (''retain-blocks'', TInt (sint (RetainBlocks config))),
     (''retain_interval_blocks'', TInt (sint (ChangeRetainEveryN config))),
     (''use_litedb'', TBool (UseLiteDB config)),
     (''blocks_kept_ads'', TInt (sint (NumKeptBlocks config))),
     (''blocks_kept_db'', TInt (sint (NumKeptBlocksInDB config))),
     (''sig_cache_size'', TInt (sint (SigCacheSize config))),
     (''trunk_cache_size'', TInt (sint (TrunkCacheSize config))),
     (''prune_every_n'', TInt (sint (PruneEveryN config))),
     (''recheck_threshold'', TInt (sint (RecheckThreshold config))),
     (''mainnet-rpc-url'', TStr (MainnetRPCUrl config)),
     (''mainnet-rpc-username'', TStr (MainnetRPCUsername config)),
     (''mainnet-rpc-password'', TStr (MainnetRPCPassword config)),
     (''zeniqsmart-rpc-url'', TStr (ZeniqsmartRPCUrl config)),
     (''testing'', TBool (Testing config)),
     (''frontier-gaslimit'', TInt (uint (FrontierGasLimit config))),
     (''archive-mode'', TBool (ArchiveMode config)),
     (''blocks-behind'', TInt (sint (BlocksBehind config))),
     (''cc-rpc-epochs'', TInts [[184464, 6, 7200]]),
     (''cc-rpc-fork-block'', TInt (sint (CCRPCForkBlock config))),
     (''height-revision'', TInts [[0, 7], [17777777, 11]])]"

text \<open>The text: \<open>{{ . }}\<close> prints numbers in decimal, and strings as they are between the quotes of the template.\<close>

definition print_bool :: "bool \<Rightarrow> string" where
  "print_bool b = (if b then ''true'' else ''false'')"

fun spaced :: "string list \<Rightarrow> string" where
  "spaced [] = []"
| "spaced [t] = t"
| "spaced (t # u # ts) = t @ '' '' @ spaced (u # ts)"

definition print_pairs :: "(i64 \<times> i64) list \<Rightarrow> string" where
  "print_pairs xs = ''['' @ spaced (map (\<lambda>(h, r). ''['' @ itoa (sint h) @ '' '' @ itoa (sint r) @ '']'') xs) @ '']''"

definition config_lines :: "AppConfig \<Rightarrow> string list" where
  "config_lines config = [
     ''# This is a TOML config file.'',
     ''# For more information, see https://github.com/toml-lang/toml'',
     [],
     ''# eth_getLogs max return items'',
     ''get_logs_max_results = '' @ itoa (sint (RpcEthGetLogsMaxResults config)),
     [],
     ''# retain blocks in TM'',
     ''retain-blocks = '' @ itoa (sint (RetainBlocks config)),
     [],
     ''# every retain_interval_blocks blocks execute TM blocks prune'',
     ''retain_interval_blocks = '' @ itoa (sint (ChangeRetainEveryN config)),
     [],
     ''# use liteDB'',
     ''use_litedb = '' @ print_bool (UseLiteDB config),
     [],
     ''# How many recent blocks can be kept in ads (to prune the blocks which are older than them)'',
     ''blocks_kept_ads = '' @ itoa (sint (NumKeptBlocks config)),
     [],
     ''# How many recent blocks can be kept in db (to prune the blocks which are older than them)'',
     ''blocks_kept_db = '' @ itoa (sint (NumKeptBlocksInDB config)),
     [],
     ''# The entry count limit of the signature cache, which caches the recent signatures'' @ [CHR 0x27] @ '' check results'',
     ''sig_cache_size = '' @ itoa (sint (SigCacheSize config)),
     [],
     ''# The initial entry count in the trunk cache, which buffers the write operations of the last block'',
     ''trunk_cache_size = '' @ itoa (sint (TrunkCacheSize config)),
     [],
     ''# We try to prune the old blocks of ads every n blocks'',
     ''prune_every_n = '' @ itoa (sint (PruneEveryN config)),
     [],
     ''# If the number of the mempool transactions which need recheck is larger than this threshold, stop'',
     ''# adding new transactions into mempool'',
     ''recheck_threshold = '' @ itoa (sint (RecheckThreshold config)),
     [],
     ''# Zeniq mainnet rpc url'',
     ''mainnet-rpc-url = '' @ quoted (MainnetRPCUrl config),
     [],
     ''# Zeniq mainnet rpc username'',
     ''mainnet-rpc-username = '' @ quoted (MainnetRPCUsername config),
     [],
     ''# Zeniq mainnet rpc password'',
     ''mainnet-rpc-password = '' @ quoted (MainnetRPCPassword config),
     [],
     ''# zeniqsmart rpc url for epoch get'',
     ''zeniqsmart-rpc-url = '' @ quoted (ZeniqsmartRPCUrl config),
     [],
     ''testing = '' @ print_bool (Testing config),
     [],
     ''frontier-gaslimit = '' @ itoa (uint (FrontierGasLimit config)),
     [],
     ''archive-mode = '' @ print_bool (ArchiveMode config),
     [],
     ''blocks-behind = '' @ itoa (sint (BlocksBehind config)),
     [],
     ''# format: [[mainnetHeight>=184464,mainnetBlocks(n)>=6,smartnetDelay>n*1200],...]'',
     ''# this small default values for the tests only'',
     ''cc-rpc-epochs = [ [184464, 6, 7200] ]'',
     ''cc-rpc-fork-block = '' @ itoa (sint (CCRPCForkBlock config)),
     [],
     ''# height-revision = '' @ print_pairs (HeightRevision config) @ '' # does not make commas'',
     ''height-revision = [ [0, 7], [17777777, 11] ]'',
     []]"

definition config_file :: "AppConfig \<Rightarrow> string" where
  "config_file config = text_of_lines (config_lines config)"

text \<open>The field of each tag, as the file has it.\<close>

definition field :: "AppConfig \<Rightarrow> string \<Rightarrow> toml_value option" where
  "field config = map_of ([
     (''app_data_path'', TStr (AppDataPath config)),
     (''db_data_path'', TStr (DbDataPath config)),
     (''cc-rpc-epochs'', TInts (map (map sint) (CCRPCEpochs config))),
     (''height-revision'', TInts (map (\<lambda>(h, r). [sint h, sint r]) (HeightRevision config)))] @ config_entries config)"

subsection \<open>Reading it\<close>

definition ParseConfig :: "((string \<rightharpoonup> toml_value) \<Rightarrow> AppConfig \<Rightarrow> AppConfig) \<Rightarrow> (string list \<Rightarrow> string) \<Rightarrow> string \<Rightarrow>
    (string \<rightharpoonup> toml_value) \<Rightarrow> string \<Rightarrow> AppConfig" where
  "ParseConfig Unmarshal Join defaultHome settings home = Unmarshal settings (DefaultAppConfigWithHome Join defaultHome home)"

text \<open>
  \<open>given\<close> are the settings of the command line and \<open>defaults\<close> the defaults of the flags that are
  not given, which come after the file. When there is no file, one is written; it is not read
  before the next start. A file that cannot be read gives the configuration without it, and an
  error (\<open>True\<close>) that ends the command.
\<close>

definition interceptLoadConfig :: "(string \<Rightarrow> (string \<times> toml_value) list option) \<Rightarrow>
    ((string \<rightharpoonup> toml_value) \<Rightarrow> AppConfig \<Rightarrow> AppConfig) \<Rightarrow> (string list \<Rightarrow> string) \<Rightarrow> string \<Rightarrow>
    (string \<rightharpoonup> toml_value) \<Rightarrow> (string \<rightharpoonup> toml_value) \<Rightarrow> string \<Rightarrow> string option \<Rightarrow> (AppConfig \<times> bool) \<times> string" where
  "interceptLoadConfig Load Unmarshal Join defaultHome defaults given home file = (case file of
       None \<Rightarrow> let appConf = ParseConfig Unmarshal Join defaultHome (defaults ++ given) home in ((appConf, False), config_file appConf)
     | Some t \<Rightarrow> (case Load t of
           None \<Rightarrow> ((ParseConfig Unmarshal Join defaultHome (defaults ++ given) home, True), t)
         | Some f \<Rightarrow> ((ParseConfig Unmarshal Join defaultHome (defaults ++ map_of f ++ given) home, False), t)))"

text \<open>The flags of the command \<open>start\<close> that are also fields of the configuration, with their defaults.\<close>

definition start_defaults :: "(string \<times> toml_value) list" where
  "start_defaults = [(''retain-blocks'', TInt (- 1)), (''blocks-behind'', TInt (- 1)), (''mainnet-rpc-url'', TStr ''tcp://:8432''),
     (''mainnet-rpc-username'', TStr ''user''), (''mainnet-rpc-password'', TStr ''88888888''), (''testing'', TBool False),
     (''archive-mode'', TBool False)]"

definition start_flags :: "string list" where
  "start_flags = map fst start_defaults"

text \<open>A value that the field of the key can hold.\<close>

definition fits :: "string \<Rightarrow> toml_value \<Rightarrow> bool" where
  "fits k v \<longleftrightarrow> (\<exists>c. field c k = Some v)"

text \<open>A table is laid over the one that is there, row by row; what is longer there stays.\<close>

fun overlay_rows :: "'a list list \<Rightarrow> 'a list list \<Rightarrow> 'a list list" where
  "overlay_rows [] old = old"
| "overlay_rows (x # xs) [] = x # xs"
| "overlay_rows (x # xs) (y # ys) = (x @ drop (length x) y) # overlay_rows xs ys"

definition overlay :: "toml_value \<Rightarrow> toml_value \<Rightarrow> toml_value" where
  "overlay v old = (case (v, old) of (TInts xss, TInts yss) \<Rightarrow> TInts (overlay_rows xss yss) | _ \<Rightarrow> v)"

locale config_decoder =
  fixes Unmarshal :: "(string \<rightharpoonup> toml_value) \<Rightarrow> AppConfig \<Rightarrow> AppConfig"
  assumes decodes: "field config k = Some old \<Longrightarrow> (\<And>v. m k = Some v \<Longrightarrow> fits k v) \<Longrightarrow>
    field (Unmarshal m config) k = Some (case m k of None \<Rightarrow> old | Some v \<Rightarrow> overlay v old)"
begin

lemma field_ParseConfig:
  assumes "field (DefaultAppConfigWithHome Join defaultHome home) k = Some old" and "\<And>v. settings k = Some v \<Longrightarrow> fits k v"
  shows "field (ParseConfig Unmarshal Join defaultHome settings home) k = Some (case settings k of None \<Rightarrow> old | Some v \<Rightarrow> overlay v old)"
  unfolding ParseConfig_def by (rule decodes [OF assms])

end

lemma field_keys: "k \<in> set (map fst (config_entries c)) \<Longrightarrow> \<exists>v. field c' k = Some v"
  by (auto simp: config_entries_def field_def)

lemma field_file:
  "k \<in> set (map fst (config_entries c)) \<Longrightarrow> k \<noteq> ''cc-rpc-epochs'' \<Longrightarrow> k \<noteq> ''height-revision'' \<Longrightarrow> map_of (config_entries c) k = field c k"
  by (auto simp: config_entries_def field_def)

lemma field_tables:
  "field c ''height-revision'' = Some (TInts (map (\<lambda>(h, r). [sint h, sint r]) (HeightRevision c)))"
  "field c ''cc-rpc-epochs'' = Some (TInts (map (map sint) (CCRPCEpochs c)))"
  by (simp_all add: field_def)

lemma revision_table:
  assumes "field c ''height-revision'' = Some (TInts (map (\<lambda>(h, r). [sint h, sint r]) tab))"
  shows "HeightRevision c = tab"
proof -
  have "map (\<lambda>(h, r). [sint h, sint r]) (HeightRevision c) = map (\<lambda>(h, r). [sint h, sint r]) tab"
    using assms by (simp add: field_tables)
  then show ?thesis by (rule map_injective) (auto intro!: injI simp: sint_eq_iff)
qed

lemma field_scalar: "field c k = Some (TInts t) \<Longrightarrow> k = ''height-revision'' \<or> k = ''cc-rpc-epochs''"
  by (auto simp: field_def config_entries_def split: if_splits)

lemma overlay_scalar:
  assumes "fits k v" and "k \<noteq> ''height-revision''" and "k \<noteq> ''cc-rpc-epochs''"
  shows "overlay v old = v"
  using assms field_scalar by (cases v) (auto simp: overlay_def fits_def)

lemma overlay_rows_map: "overlay_rows (map (map f) x) (map (map f) y) = map (map f) (overlay_rows x y)"
  by (induction x y rule: overlay_rows.induct) (simp_all add: drop_map)

lemma overlay_rows_pairs:
  "overlay_rows (map (\<lambda>(h, r). [f h, f r]) x) (map (\<lambda>(h, r). [f h, f r]) y) = map (\<lambda>(h, r). [f h, f r]) (x @ drop (length x) y)"
proof (induction x arbitrary: y)
  case (Cons a x)
  then show ?case by (cases y) (auto simp: split_def)
qed simp

subsection \<open>What the file says\<close>

text \<open>The lines of the template, read one after the other.\<close>

definition says :: "string list \<Rightarrow> (string \<times> toml_value) list \<Rightarrow> bool" where
  "says ls kvs \<longleftrightarrow> (\<exists>es. list_all2 toml_line ls es \<and> List.map_filter id es = kvs)"

lemma says_Nil: "says [] []"
  by (simp add: says_def)

lemma says_blank: "says ls kvs \<Longrightarrow> says ([] # ls) kvs"
  by (force simp: says_def intro: toml_line.blank exI [of _ "None # _"])

lemma says_comment: "list_all toml_char t \<Longrightarrow> says ls kvs \<Longrightarrow> says ((CHR ''#'' # t) # ls) kvs"
  by (force simp: says_def list_all_iff intro: toml_line.comment exI [of _ "None # _"])

lemma says_entry:
  assumes "l = k @ '' = '' @ toml_lit v" and "bare_key k" and "plain_value v" and "says ls kvs"
  shows "says (l # ls) ((k, v) # kvs)"
proof -
  obtain es where "list_all2 toml_line ls es" "List.map_filter id es = kvs" using assms(4) by (auto simp: says_def)
  then have "list_all2 toml_line (l # ls) (Some (k, v) # es)" "List.map_filter id (Some (k, v) # es) = (k, v) # kvs"
    using toml_line.entry [OF assms(2,3)] assms(1) by simp_all
  then show ?thesis unfolding says_def by blast
qed

lemma toml_char_itoa: "list_all toml_char (itoa i)"
  using itoa_chars [of i] by (auto simp: list_all_iff number_char_def toml_char_def Let_def)

lemma toml_chars: "toml_char CHR ''[''" "toml_char CHR '']''" "toml_char CHR '' ''"
  by (simp_all add: toml_char_def)

lemma toml_char_spaced: "list_all (list_all toml_char) ts \<Longrightarrow> list_all toml_char (spaced ts)"
  by (induction ts rule: spaced.induct) (simp_all add: toml_char_def)

lemma toml_char_pairs: "list_all toml_char (print_pairs xs)"
proof -
  have "list_all (list_all toml_char) (map (\<lambda>(h, r). ''['' @ itoa (sint h) @ '' '' @ itoa (sint r) @ '']'') xs)"
    by (induction xs) (auto simp: toml_char_itoa toml_chars)
  from toml_char_spaced [OF this] show ?thesis by (simp add: print_pairs_def toml_chars)
qed

definition plain_config :: "AppConfig \<Rightarrow> bool" where
  "plain_config c \<longleftrightarrow> plain_text (MainnetRPCUrl c) \<and> plain_text (MainnetRPCUsername c) \<and> plain_text (MainnetRPCPassword c) \<and> plain_text (ZeniqsmartRPCUrl c)
     \<and> int64 (uint (FrontierGasLimit c))"

lemma int64_sint: "int64 (sint (w :: i64))"
  using sint_range [of w] by (simp add: int64_def)

lemma toml_lits:
  "toml_lit (TInt i) = itoa i" "toml_lit (TStr t) = quoted t" "toml_lit (TBool b) = print_bool b"
  "toml_lit (TInts [[184464, 6, 7200]]) = ''[ [184464, 6, 7200] ]''"
  "toml_lit (TInts [[0, 7], [17777777, 11]]) = ''[ [0, 7], [17777777, 11] ]''"
proof -
  show "toml_lit (TInt i) = itoa i" "toml_lit (TStr t) = quoted t" "toml_lit (TBool b) = print_bool b"
    by (simp_all add: toml_lit_def print_bool_def)
qed (simp_all add: toml_lit_def row_lit_def itoa_def digits.simps char_of_def bit_0)

lemma plain_values:
  "plain_value (TInt (sint (w :: i64)))" "plain_value (TInt i) = int64 i" "plain_value (TStr t) = plain_text t" "plain_value (TBool b)"
  "plain_value (TInts [[184464, 6, 7200]])" "plain_value (TInts [[0, 7], [17777777, 11]])"
  by (simp_all add: plain_value_def int64_sint) (simp_all add: int64_def)

lemma config_lines_say:
  assumes "plain_config c"
  shows "says (config_lines c) (config_entries c)"
proof -
  have p: "plain_text (MainnetRPCUrl c)" "plain_text (MainnetRPCUsername c)" "plain_text (MainnetRPCPassword c)" "plain_text (ZeniqsmartRPCUrl c)"
    "int64 (uint (FrontierGasLimit c))" using assms by (simp_all add: plain_config_def)
  show ?thesis
    unfolding config_lines_def config_entries_def append.simps
    by (rule says_blank says_Nil | (rule says_comment, (code_simp; fail)) | (rule says_comment, (simp add: toml_char_pairs toml_char_def; fail))
      | (rule says_entry, (simp add: toml_lits; fail), (simp add: bare_key_def; fail), (simp add: plain_values int64_sint p; fail)))+
qed

lemma config_file_loads:
  assumes "toml_lib Load" and "plain_config c"
  shows "Load (config_file c) = Some (config_entries c)"
proof -
  obtain es where "list_all2 toml_line (config_lines c) es" "List.map_filter id es = config_entries c"
    using config_lines_say [OF assms(2)] by (auto simp: says_def)
  moreover have "distinct (map fst (config_entries c))" by (simp add: config_entries_def)
  ultimately show ?thesis using toml_lib.load [OF assms(1)] by (auto simp: config_file_def)
qed

subsection \<open>A decoder\<close>

definition set_word :: "(string \<rightharpoonup> toml_value) \<Rightarrow> string \<Rightarrow> 64 word \<Rightarrow> 64 word" where
  "set_word m k old = (case m k of Some (TInt i) \<Rightarrow> word_of_int i | _ \<Rightarrow> old)"

definition set_str :: "(string \<rightharpoonup> toml_value) \<Rightarrow> string \<Rightarrow> string \<Rightarrow> string" where
  "set_str m k old = (case m k of Some (TStr t) \<Rightarrow> t | _ \<Rightarrow> old)"

definition set_bool :: "(string \<rightharpoonup> toml_value) \<Rightarrow> string \<Rightarrow> bool \<Rightarrow> bool" where
  "set_bool m k old = (case m k of Some (TBool b) \<Rightarrow> b | _ \<Rightarrow> old)"

definition mem_Unmarshal :: "(string \<rightharpoonup> toml_value) \<Rightarrow> AppConfig \<Rightarrow> AppConfig" where
  "mem_Unmarshal m c =
     \<lparr>AppDataPath = set_str m ''app_data_path'' (AppDataPath c), DbDataPath = set_str m ''db_data_path'' (DbDataPath c),
      RpcEthGetLogsMaxResults = set_word m ''get_logs_max_results'' (RpcEthGetLogsMaxResults c),
      RetainBlocks = set_word m ''retain-blocks'' (RetainBlocks c),
      ChangeRetainEveryN = set_word m ''retain_interval_blocks'' (ChangeRetainEveryN c),
      UseLiteDB = set_bool m ''use_litedb'' (UseLiteDB c), NumKeptBlocks = set_word m ''blocks_kept_ads'' (NumKeptBlocks c),
      NumKeptBlocksInDB = set_word m ''blocks_kept_db'' (NumKeptBlocksInDB c),
      SigCacheSize = set_word m ''sig_cache_size'' (SigCacheSize c), TrunkCacheSize = set_word m ''trunk_cache_size'' (TrunkCacheSize c),
      PruneEveryN = set_word m ''prune_every_n'' (PruneEveryN c), RecheckThreshold = set_word m ''recheck_threshold'' (RecheckThreshold c),
      MainnetRPCUrl = set_str m ''mainnet-rpc-url'' (MainnetRPCUrl c),
      MainnetRPCUsername = set_str m ''mainnet-rpc-username'' (MainnetRPCUsername c),
      MainnetRPCPassword = set_str m ''mainnet-rpc-password'' (MainnetRPCPassword c),
      ZeniqsmartRPCUrl = set_str m ''zeniqsmart-rpc-url'' (ZeniqsmartRPCUrl c), Testing = set_bool m ''testing'' (Testing c),
      FrontierGasLimit = set_word m ''frontier-gaslimit'' (FrontierGasLimit c),
      ArchiveMode = set_bool m ''archive-mode'' (ArchiveMode c), BlocksBehind = set_word m ''blocks-behind'' (BlocksBehind c),
      CCRPCEpochs = (case m ''cc-rpc-epochs'' of Some (TInts e) \<Rightarrow> overlay_rows (map (map word_of_int) e) (CCRPCEpochs c) | _ \<Rightarrow> CCRPCEpochs c),
      CCRPCForkBlock = set_word m ''cc-rpc-fork-block'' (CCRPCForkBlock c),
      HeightRevision = (case m ''height-revision'' of
          Some (TInts e) \<Rightarrow> map (\<lambda>hr. (word_of_int (hr ! 0), word_of_int (hr ! 1))) e @ drop (length e) (HeightRevision c)
        | _ \<Rightarrow> HeightRevision c)\<rparr>"

lemmas set_defs = set_word_def set_str_def set_bool_def

definition field_keys_list :: "string list" where
  "field_keys_list = [''app_data_path'', ''db_data_path'', ''cc-rpc-epochs'', ''height-revision'', ''get_logs_max_results'',
     ''retain-blocks'', ''retain_interval_blocks'', ''use_litedb'', ''blocks_kept_ads'', ''blocks_kept_db'', ''sig_cache_size'',
     ''trunk_cache_size'', ''prune_every_n'', ''recheck_threshold'', ''mainnet-rpc-url'', ''mainnet-rpc-username'',
     ''mainnet-rpc-password'', ''zeniqsmart-rpc-url'', ''testing'', ''frontier-gaslimit'', ''archive-mode'', ''blocks-behind'',
     ''cc-rpc-epochs'', ''cc-rpc-fork-block'', ''height-revision'']"

lemma field_dom: "dom (field c) = set field_keys_list"
  unfolding field_def dom_map_of_conv_image_fst config_entries_def field_keys_list_def by (simp only: append.simps list.set image_insert image_empty fst_conv)

lemma field_vals:
  "field c ''app_data_path'' = Some (TStr (AppDataPath c))" "field c ''db_data_path'' = Some (TStr (DbDataPath c))"
  "field c ''get_logs_max_results'' = Some (TInt (sint (RpcEthGetLogsMaxResults c)))" "field c ''retain-blocks'' = Some (TInt (sint (RetainBlocks c)))"
  "field c ''retain_interval_blocks'' = Some (TInt (sint (ChangeRetainEveryN c)))" "field c ''use_litedb'' = Some (TBool (UseLiteDB c))"
  "field c ''blocks_kept_ads'' = Some (TInt (sint (NumKeptBlocks c)))" "field c ''blocks_kept_db'' = Some (TInt (sint (NumKeptBlocksInDB c)))"
  "field c ''sig_cache_size'' = Some (TInt (sint (SigCacheSize c)))" "field c ''trunk_cache_size'' = Some (TInt (sint (TrunkCacheSize c)))"
  "field c ''prune_every_n'' = Some (TInt (sint (PruneEveryN c)))" "field c ''recheck_threshold'' = Some (TInt (sint (RecheckThreshold c)))"
  "field c ''mainnet-rpc-url'' = Some (TStr (MainnetRPCUrl c))" "field c ''mainnet-rpc-username'' = Some (TStr (MainnetRPCUsername c))"
  "field c ''mainnet-rpc-password'' = Some (TStr (MainnetRPCPassword c))" "field c ''zeniqsmart-rpc-url'' = Some (TStr (ZeniqsmartRPCUrl c))"
  "field c ''testing'' = Some (TBool (Testing c))" "field c ''frontier-gaslimit'' = Some (TInt (uint (FrontierGasLimit c)))"
  "field c ''archive-mode'' = Some (TBool (ArchiveMode c))" "field c ''blocks-behind'' = Some (TInt (sint (BlocksBehind c)))"
  "field c ''cc-rpc-fork-block'' = Some (TInt (sint (CCRPCForkBlock c)))"
  by (simp_all only: field_def config_entries_def append.simps map_of.simps fst_conv snd_conv fun_upd_apply
      list.inject char.inject simp_thms if_True if_False)

lemma mem_decodes:
  "list_all (\<lambda>k. (\<forall>v. m k = Some v \<longrightarrow> fits k v) \<longrightarrow>
     field (mem_Unmarshal m config) k = (case m k of None \<Rightarrow> field config k | Some v \<Rightarrow> Some v))
     (filter (\<lambda>k. k \<noteq> ''height-revision'' \<and> k \<noteq> ''cc-rpc-epochs'') field_keys_list)"
proof -
  have keys: "filter (\<lambda>k. k \<noteq> ''height-revision'' \<and> k \<noteq> ''cc-rpc-epochs'') field_keys_list
    = [''app_data_path'', ''db_data_path'', ''get_logs_max_results'',
     ''retain-blocks'', ''retain_interval_blocks'', ''use_litedb'', ''blocks_kept_ads'', ''blocks_kept_db'', ''sig_cache_size'',
     ''trunk_cache_size'', ''prune_every_n'', ''recheck_threshold'', ''mainnet-rpc-url'', ''mainnet-rpc-username'',
     ''mainnet-rpc-password'', ''zeniqsmart-rpc-url'', ''testing'', ''frontier-gaslimit'', ''archive-mode'', ''blocks-behind'',
     ''cc-rpc-fork-block'']"
    by (simp add: field_keys_list_def)
  show ?thesis
    unfolding keys list.pred_inject fits_def field_vals mem_Unmarshal_def AppConfig.simps set_defs
    by (intro conjI TrueI; simp split: option.split toml_value.split; fastforce simp: split_def)
qed

lemma mem_decodes_tables:
  assumes "k = ''height-revision'' \<or> k = ''cc-rpc-epochs''" and "m k = Some v" and "fits k v" and "field config k = Some old"
  shows "field (mem_Unmarshal m config) k = Some (overlay v old)"
proof -
  have pairs: "map (\<lambda>hr. (word_of_int (hr ! 0), word_of_int (hr ! 1))) (map (\<lambda>(h, r). [sint h, sint r]) x) = (x :: (i64 \<times> i64) list)" for x
    by (induction x) auto
  have rows: "map (map (word_of_int \<circ> sint)) x = (x :: i64 list list)" for x
    by (simp add: comp_def)
  show ?thesis using assms(1)
  proof
    assume k: "k = ''height-revision''"
    obtain c where "field c k = Some v" using assms(3) unfolding fits_def by blast
    then have "v = TInts (map (\<lambda>(h, r). [sint h, sint r]) (HeightRevision c))" by (simp add: k field_tables)
    then show ?thesis using k assms(2,4) overlay_rows_pairs [of sint "HeightRevision c" "HeightRevision config"]
      by (auto simp: field_tables mem_Unmarshal_def pairs overlay_def)
  next
    assume k: "k = ''cc-rpc-epochs''"
    obtain c where "field c k = Some v" using assms(3) unfolding fits_def by blast
    then have "v = TInts (map (map sint) (CCRPCEpochs c))" by (simp add: k field_tables)
    then show ?thesis using k assms(2,4) overlay_rows_map [of sint "CCRPCEpochs c" "CCRPCEpochs config"]
      by (auto simp: field_tables mem_Unmarshal_def rows overlay_def)
  qed
qed

interpretation mu: config_decoder mem_Unmarshal
proof
  fix config k old m
  assume old: "field config k = Some old" and fit: "\<And>v. m k = Some v \<Longrightarrow> fits k v"
  show "field (mem_Unmarshal m config) k = Some (case m k of None \<Rightarrow> old | Some v \<Rightarrow> overlay v old)"
  proof (cases "k = ''height-revision'' \<or> k = ''cc-rpc-epochs''")
    case True
    then show ?thesis
    proof (cases "m k")
      case None
      then show ?thesis using True old by (auto simp: field_tables mem_Unmarshal_def)
    next
      case (Some v)
      then show ?thesis using mem_decodes_tables [of k m v config old, OF True Some fit [OF Some] old] by simp
    qed
  next
    case False
    moreover have "k \<in> set field_keys_list" using old field_dom by blast
    ultimately have "field (mem_Unmarshal m config) k = (case m k of None \<Rightarrow> field config k | Some v \<Rightarrow> Some v)"
      using mem_decodes [of m config] fit by (auto simp: list_all_iff)
    then show ?thesis using old fit overlay_scalar [of k] False by (auto split: option.split)
  qed
qed

subsection \<open>The command that changes the file\<close>

text \<open>\<open>strconv.ParseUint\<close> with a base and 64 bits: digits only, at least one, and no overflow.\<close>

definition ParseUint :: "nat \<Rightarrow> string \<Rightarrow> u64 option" where
  "ParseUint b s = (if s = [] then None
     else case parse_digits b 0 s of None \<Rightarrow> None | Some v \<Rightarrow> if v < 2 ^ 64 then Some (of_nat v) else None)"

definition ParseBool :: "string \<Rightarrow> bool option" where
  "ParseBool s =
     (if s \<in> set [''1'', ''t'', ''T'', ''TRUE'', ''true'', ''True''] then Some True
      else if s \<in> set [''0'', ''f'', ''F'', ''FALSE'', ''false'', ''False''] then Some False else None)"

definition node_strings :: "string list" where "node_strings = [''p2p.seeds'', ''tx_index.indexer'', ''log_level'']"
definition node_uints :: "string list" where "node_uints = [''mempool.max_tx_bytes'', ''mempool.max_txs_bytes'', ''mempool.size'']"
definition app_strings :: "string list" where
  "app_strings = [''mainnet-rpc-url'', ''mainnet-rpc-username'', ''mainnet-rpc-password'', ''zeniqsmart-rpc-url'']"
definition app_bools :: "string list" where "app_bools = [''use_litedb'', ''log-validators'']"
definition app_uints :: "string list" where
  "app_uints = [''retain-blocks'', ''retain_interval_blocks'', ''get_logs_max_results'', ''blocks_kept_ads'', ''blocks_kept_db'',
     ''prune_every_n'', ''recheck_threshold'', ''sig_cache_size'', ''trunk_cache_size'']"

datatype config_error = WrongNumberOfArguments | UnknownConfigKey string | NotABool | NotAnUint

text \<open>
  The command on the contents of the file; with one argument it prints them. One to three
  arguments are passed to it.
\<close>

definition set_uint :: "(string \<rightharpoonup> toml_value) \<Rightarrow> string \<Rightarrow> string \<Rightarrow> config_error + (string \<rightharpoonup> toml_value)" where
  "set_uint tree key value = (case ParseUint 10 value of None \<Rightarrow> Inl NotAnUint | Some w \<Rightarrow> Inr (tree(key \<mapsto> TInt (uint w))))"

definition runConfigCmd :: "string list \<Rightarrow> (string \<rightharpoonup> toml_value) \<Rightarrow> config_error + (string \<rightharpoonup> toml_value)" where
  "runConfigCmd args tree =
     (if length args = 1 then Inr tree
      else if length args \<noteq> 3 then Inl WrongNumberOfArguments
      else let key = args ! 1; value = args ! 2 in
        if args ! 0 = ''node''
        then if key \<in> set node_strings then Inr (tree(key \<mapsto> TStr value))
          else if key \<in> set node_uints then set_uint tree key value
          else Inl (UnknownConfigKey key)
        else if key \<in> set app_strings then Inr (tree(key \<mapsto> TStr value))
          else if key \<in> set app_bools then (case ParseBool value of None \<Rightarrow> Inl NotABool | Some b \<Rightarrow> Inr (tree(key \<mapsto> TBool b)))
          else if key \<in> set app_uints then set_uint tree key value
          else Inl (UnknownConfigKey key))"

text \<open>Every value of a field occurs.\<close>

lemma ex_upd: "(\<And>x. f (u x) = x) \<Longrightarrow> (\<exists>c. P (f c)) \<longleftrightarrow> (\<exists>x. P x)"
  by metis

lemma ex_fields:
  "(\<exists>c. P (RetainBlocks c)) \<longleftrightarrow> (\<exists>x. P x)" "(\<exists>c. P (ChangeRetainEveryN c)) \<longleftrightarrow> (\<exists>x. P x)"
  "(\<exists>c. P (RpcEthGetLogsMaxResults c)) \<longleftrightarrow> (\<exists>x. P x)" "(\<exists>c. P (NumKeptBlocks c)) \<longleftrightarrow> (\<exists>x. P x)"
  "(\<exists>c. P (NumKeptBlocksInDB c)) \<longleftrightarrow> (\<exists>x. P x)" "(\<exists>c. P (PruneEveryN c)) \<longleftrightarrow> (\<exists>x. P x)"
  "(\<exists>c. P (RecheckThreshold c)) \<longleftrightarrow> (\<exists>x. P x)" "(\<exists>c. P (SigCacheSize c)) \<longleftrightarrow> (\<exists>x. P x)"
  "(\<exists>c. P (TrunkCacheSize c)) \<longleftrightarrow> (\<exists>x. P x)" "(\<exists>c. Q (MainnetRPCUrl c)) \<longleftrightarrow> (\<exists>x. Q x)"
  "(\<exists>c. Q (MainnetRPCUsername c)) \<longleftrightarrow> (\<exists>x. Q x)" "(\<exists>c. Q (MainnetRPCPassword c)) \<longleftrightarrow> (\<exists>x. Q x)"
  "(\<exists>c. Q (ZeniqsmartRPCUrl c)) \<longleftrightarrow> (\<exists>x. Q x)" "(\<exists>c. R (UseLiteDB c)) \<longleftrightarrow> (\<exists>x. R x)"
  by (rule ex_upd, rule AppConfig.select_convs)+

lemma ex_ints:
  "(\<exists>c. sint (RetainBlocks c) = i) \<longleftrightarrow> (\<exists>w :: i64. sint w = i)" "(\<exists>c. sint (ChangeRetainEveryN c) = i) \<longleftrightarrow> (\<exists>w :: i64. sint w = i)"
  "(\<exists>c. sint (RpcEthGetLogsMaxResults c) = i) \<longleftrightarrow> (\<exists>w :: i64. sint w = i)" "(\<exists>c. sint (NumKeptBlocks c) = i) \<longleftrightarrow> (\<exists>w :: i64. sint w = i)"
  "(\<exists>c. sint (NumKeptBlocksInDB c) = i) \<longleftrightarrow> (\<exists>w :: i64. sint w = i)" "(\<exists>c. sint (PruneEveryN c) = i) \<longleftrightarrow> (\<exists>w :: i64. sint w = i)"
  "(\<exists>c. sint (RecheckThreshold c) = i) \<longleftrightarrow> (\<exists>w :: i64. sint w = i)" "(\<exists>c. sint (SigCacheSize c) = i) \<longleftrightarrow> (\<exists>w :: i64. sint w = i)"
  "(\<exists>c. sint (TrunkCacheSize c) = i) \<longleftrightarrow> (\<exists>w :: i64. sint w = i)"
  by (rule ex_fields(1-9) [of "\<lambda>x. sint x = i"])+

lemma ex_strs:
  "\<exists>c. MainnetRPCUrl c = t" "\<exists>c. MainnetRPCUsername c = t" "\<exists>c. MainnetRPCPassword c = t" "\<exists>c. ZeniqsmartRPCUrl c = t" "\<exists>c. UseLiteDB c = b"
  using ex_fields(10-13) [of "\<lambda>x. x = t"] ex_fields(14) [of "\<lambda>x. x = b"] by simp_all

lemma int64_range: "(\<exists>w :: i64. sint w = i) \<longleftrightarrow> - (2 ^ 63) \<le> i \<and> i < 2 ^ 63"
  using sint_range by (auto intro!: exI [of _ "word_of_int i"] simp: signed_of_int signed_take_bit_int_eq_self)

lemma fits_strings: "k \<in> set app_strings \<Longrightarrow> fits k (TStr t)"
  unfolding app_strings_def fits_def by (simp, elim disjE; simp only: field_vals option.inject toml_value.inject ex_strs)

lemma fits_uints: "k \<in> set app_uints \<Longrightarrow> fits k (TInt i) \<longleftrightarrow> - (2 ^ 63) \<le> i \<and> i < 2 ^ 63"
  unfolding app_uints_def fits_def by (simp only: list.set insert_iff empty_iff simp_thms, elim disjE; simp only: field_vals option.inject toml_value.inject ex_ints int64_range)

lemma fits_bools: "fits ''use_litedb'' (TBool b)" "\<not> fits ''log-validators'' v"
proof -
  show "fits ''use_litedb'' (TBool b)" by (simp add: fits_def field_vals ex_strs)
  have "''log-validators'' \<notin> set field_keys_list" by (simp add: field_keys_list_def)
  then show "\<not> fits ''log-validators'' v" unfolding fits_def using field_dom by blast
qed

text \<open>
  The command that changes \<open>app.toml\<close> changes one key, and writes for it a value that the next
  start can read, except for numbers from \<open>2^63\<close> on, which it accepts for fields that hold an
  \<open>int64\<close>, and for the key \<open>log-validators\<close>, which no field has.
\<close>

theorem config_command_fits:
  assumes "kind \<noteq> ''node''" and "runConfigCmd [kind, key, value] tree = Inr tree'" and "tree' k = Some v"
    and "\<And>v. tree k = Some v \<Longrightarrow> fits k v" and "key \<noteq> ''log-validators''"
  shows "(fits k v \<longleftrightarrow> (k = key \<and> key \<in> set app_uints \<longrightarrow> (\<forall>i. v = TInt i \<longrightarrow> i < 2 ^ 63))) \<and> (k \<noteq> key \<longrightarrow> tree' k = tree k)"
proof (cases "key \<in> set app_uints")
  case True
  then have "key \<notin> set app_strings" "key \<notin> set app_bools" by (auto simp: app_uints_def app_strings_def app_bools_def)
  then obtain w where "tree' = tree(key \<mapsto> TInt (uint (w :: u64)))"
    using assms(1,2) True by (auto simp: runConfigCmd_def Let_def set_uint_def split: option.splits)
  moreover have "- (2 ^ 63) \<le> uint (w :: u64)" by (rule order_trans [OF _ uint_ge_0]) simp
  ultimately show ?thesis using assms(3,4) fits_uints [OF True, of "uint w"] True by (auto split: if_splits)
next
  case False
  then consider t where "key \<in> set app_strings" "tree' = tree(key \<mapsto> TStr t)"
    | b where "key = ''use_litedb''" "tree' = tree(key \<mapsto> TBool b)"
    using assms(1,2,5) by (auto simp: runConfigCmd_def Let_def app_bools_def split: option.splits if_splits)
  then show ?thesis using assms(3,4) False by cases (auto simp: fits_strings fits_bools split: if_splits)
qed

theorem config_command_fits_witness:
  "\<exists>tree'. runConfigCmd [''app'', ''retain-blocks'', ''9223372036854775808''] Map.empty = Inr tree'
     \<and> tree' ''retain-blocks'' = Some (TInt (2 ^ 63)) \<and> \<not> fits ''retain-blocks'' (TInt (2 ^ 63))"
proof -
  have "ParseUint 10 ''9223372036854775808'' = Some (2 ^ 63)" by (simp add: ParseUint_def char_digit_def)
  then have "runConfigCmd [''app'', ''retain-blocks'', ''9223372036854775808''] Map.empty = Inr [''retain-blocks'' \<mapsto> TInt (2 ^ 63)]"
    by (simp add: runConfigCmd_def app_strings_def app_bools_def app_uints_def set_uint_def)
  with config_command_fits [OF _ this, of "''retain-blocks''" "TInt (2 ^ 63)"] show ?thesis
    by (auto simp: app_uints_def)
qed

subsection \<open>The first start and the next one\<close>

lemma default_tables:
  "HeightRevision (DefaultAppConfigWithHome Join defaultHome home) = [(0, 7), (14444444, 7)]"
  "CCRPCEpochs (DefaultAppConfigWithHome Join defaultHome home) = [[184464, 6, 7200]]"
  by (simp_all add: DefaultAppConfigWithHome_def Let_def)

lemma file_tables:
  "map_of (config_entries c) ''height-revision'' = Some (TInts [[0, 7], [17777777, 11]])"
  "map_of (config_entries c) ''cc-rpc-epochs'' = Some (TInts [[184464, 6, 7200]])"
  by (simp_all add: config_entries_def)

lemma file_fits: "map_of (config_entries c) k = Some v \<Longrightarrow> fits k v"
proof -
  assume v: "map_of (config_entries c) k = Some v"
  then have "k \<in> set (map fst (config_entries c))" by (force dest: map_of_SomeD)
  moreover have "field (c\<lparr>HeightRevision := [(0, 7), (17777777, 11)]\<rparr>) ''height-revision'' = Some (TInts [[0, 7], [17777777, 11]])"
    "field (c\<lparr>CCRPCEpochs := [[184464, 6, 7200]]\<rparr>) ''cc-rpc-epochs'' = Some (TInts [[184464, 6, 7200]])"
    by (simp_all add: field_tables)
  ultimately show "fits k v"
    using v field_file [of k c] file_tables [of c] by (cases "k = ''height-revision'' \<or> k = ''cc-rpc-epochs''") (auto simp: fits_def)
qed

lemma start_flags_tables: "''height-revision'' \<notin> set start_flags" "''cc-rpc-epochs'' \<notin> set start_flags"
  by (simp_all add: start_flags_def start_defaults_def)

lemma start_defaults_fit: "map_of start_defaults k = Some v \<Longrightarrow> k \<in> set start_flags \<and> fits k v"
proof
  assume kv: "map_of start_defaults k = Some v"
  then show "k \<in> set start_flags" unfolding start_flags_def by (metis map_of_SomeD fst_conv image_eqI set_map)
  let ?c = "(DefaultAppConfigWithHome concat [] [])\<lparr>RetainBlocks := -1, BlocksBehind := -1, MainnetRPCUrl := ''tcp://:8432'',
    MainnetRPCUsername := ''user'', MainnetRPCPassword := ''88888888'', Testing := False, ArchiveMode := False\<rparr>"
  have "list_all (\<lambda>(k, v). field ?c k = Some v) start_defaults"
    unfolding start_defaults_def list.pred_inject prod.case field_vals by simp
  then have "field ?c k = Some v" using map_of_SomeD [OF kv] by (auto simp: list_all_iff)
  then show "fits k v" unfolding fits_def by blast
qed

context config_decoder
begin

lemma first_field:
  assumes flags: "\<And>k v. flags k = Some v \<Longrightarrow> k \<in> set start_flags \<and> fits k v" and "k \<in> set field_keys_list"
  shows "field (ParseConfig Unmarshal Join defaultHome flags home) k
    = (case flags k of None \<Rightarrow> field (DefaultAppConfigWithHome Join defaultHome home) k | Some v \<Rightarrow> Some v)"
proof -
  obtain old where old: "field (DefaultAppConfigWithHome Join defaultHome home) k = Some old"
    using assms(2) field_dom by blast
  have "overlay v old = v" if "flags k = Some v" for v
    using flags [OF that] overlay_scalar start_flags_tables by metis
  then show ?thesis using field_ParseConfig [OF old, of flags] old flags by (auto split: option.split)
qed

lemma next_field:
  assumes flags: "\<And>k v. (dflt ++ given) k = Some v \<Longrightarrow> k \<in> set start_flags \<and> fits k v" and "k \<in> set field_keys_list"
    and conf: "conf = ParseConfig Unmarshal Join defaultHome (dflt ++ given) home"
  shows "field (ParseConfig Unmarshal Join defaultHome (dflt ++ map_of (config_entries conf) ++ given) home) k
    = (if k = ''height-revision'' then Some (TInts [[0, 7], [17777777, 11]]) else field conf k)"
proof -
  let ?m = "dflt ++ map_of (config_entries conf) ++ given" and ?flags = "dflt ++ given"
  obtain old where old: "field (DefaultAppConfigWithHome Join defaultHome home) k = Some old"
    using assms(2) field_dom by blast
  have fit: "fits k v" if "?m k = Some v" for v
    using that flags [of k v] file_fits [of conf k v] by (auto simp: map_add_def split: option.splits)
  note nxt = field_ParseConfig [OF old, of ?m, OF fit]
  have fst_start: "field conf k = (case ?flags k of None \<Rightarrow> field (DefaultAppConfigWithHome Join defaultHome home) k | Some v \<Rightarrow> Some v)"
    unfolding conf using flags assms(2) by (rule first_field)
  show ?thesis
  proof (cases "k = ''height-revision'' \<or> k = ''cc-rpc-epochs''")
    case True
    then have "?flags k = None" using flags [of k] start_flags_tables by (cases "?flags k") (auto simp del: map_add_Some_iff)
    then have "dflt k = None" "given k = None" by auto
    then show ?thesis using True nxt fst_start old file_tables [of conf]
      by (auto simp: map_add_def field_tables default_tables overlay_def)
  next
    case False
    then have "map_of (config_entries conf) k = None \<or> map_of (config_entries conf) k = field conf k"
      using field_file [of k conf] by (cases "k \<in> set (map fst (config_entries conf))") (auto simp: map_of_eq_None_iff)
    moreover have "overlay v old = v" if "?m k = Some v" for v
      using overlay_scalar [of k v old] fit [OF that] False by blast
    ultimately show ?thesis using False nxt fst_start old by (cases "given k"; cases "dflt k") (auto simp: map_add_def split: option.splits)
  qed
qed

end

text \<open>
  The four strings of the configuration come from the flags or the defaults, which are plain, and
  the gas limit of the frontier is the default.
\<close>

lemma first_plain:
  assumes "config_decoder Unmarshal" and flags: "\<And>k v. flags k = Some v \<Longrightarrow> k \<in> set start_flags \<and> fits k v"
    and plain_text: "\<And>k t. flags k = Some (TStr t) \<Longrightarrow> plain_text t"
  shows "plain_config (ParseConfig Unmarshal Join defaultHome flags home)"
proof -
  let ?c = "ParseConfig Unmarshal Join defaultHome flags home" and ?d = "DefaultAppConfigWithHome Join defaultHome home"
  note start = config_decoder.first_field [OF assms(1), of flags, OF flags]
  have d: "plain_text (MainnetRPCUrl ?d)" "plain_text (MainnetRPCUsername ?d)" "plain_text (MainnetRPCPassword ?d)" "plain_text (ZeniqsmartRPCUrl ?d)"
    "int64 (uint (FrontierGasLimit ?d))"
    by (simp_all add: DefaultAppConfigWithHome_def plain_text_def toml_char_def int64_def BlockMaxGas_def Let_def)
  have str: "plain_text t" if "field ?c k = Some (TStr t)" "\<And>u. field ?d k = Some (TStr u) \<Longrightarrow> plain_text u" "k \<in> set field_keys_list" for k t
    using start [OF _ that(3), of Join defaultHome home] that plain_text [of k] by (auto split: option.splits)
  have "flags ''frontier-gaslimit'' = None"
    using flags [of "''frontier-gaslimit''"] by (cases "flags ''frontier-gaslimit''") (auto simp: start_flags_def start_defaults_def)
  then have "field ?c ''frontier-gaslimit'' = field ?d ''frontier-gaslimit''"
    using start [of "''frontier-gaslimit''" Join defaultHome home] by (simp add: field_keys_list_def)
  then have "uint (FrontierGasLimit ?c) = uint (FrontierGasLimit ?d)" by (simp add: field_vals)
  then show ?thesis
    using str [of "''mainnet-rpc-url''"] str [of "''mainnet-rpc-username''"] str [of "''mainnet-rpc-password''"] str [of "''zeniqsmart-rpc-url''"] d
    by (simp add: plain_config_def field_vals field_keys_list_def)
qed

lemma start_defaults_plain: "map_of start_defaults k = Some (TStr t) \<Longrightarrow> plain_text t"
  by (auto simp: start_defaults_def plain_text_def toml_char_def split: if_splits)

text \<open>
  C38: A first start without an \<open>app.toml\<close> and the next one with the file the first has written run
  with the same configuration in every field but one, when the strings given on the command
  line hold only printable ASCII characters without quotes and backslashes: the next start reads
  the file without an error, but the template does not print the table of EVM revisions that is
  in force but another one. Both pass the checks of \<open>NewApp\<close>; the first start executes every block
  with revision 7, the next one from height 17777777 on with revision 11.
\<close>

theorem first_start_config:
  assumes "config_decoder Unmarshal" and given: "\<And>k v. given k = Some v \<Longrightarrow> k \<in> set start_flags \<and> fits k v"
    and "toml_lib Load" and plain_text: "\<And>k t. given k = Some (TStr t) \<Longrightarrow> plain_text t"
    and "interceptLoadConfig Load Unmarshal Join defaultHome (map_of start_defaults) given home None = ((conf, err), tml)"
    and "interceptLoadConfig Load Unmarshal Join defaultHome (map_of start_defaults) given home (Some tml) = ((conf', err'), tml')"
  shows "\<not> err \<and> \<not> err' \<and> tml' = tml \<and> (\<forall>k. k \<noteq> ''height-revision'' \<longrightarrow> field conf' k = field conf k)
    \<and> validCCRPCEpochs (CCRPCEpochs conf) = Some ()
    \<and> validHeightRevision (HeightRevision conf) = Some () \<and> validHeightRevision (HeightRevision conf') = Some ()
    \<and> fromHeightRevision (HeightRevision conf) h = 7
    \<and> fromHeightRevision (HeightRevision conf') h = (if sint h < 17777777 then 7 else 11)"
proof -
  let ?flags = "map_of start_defaults ++ given"
  have fl: "k \<in> set start_flags \<and> fits k v" if "?flags k = Some v" for k v
    using that given start_defaults_fit by (auto simp: map_add_Some_iff)
  have conf: "conf = ParseConfig Unmarshal Join defaultHome ?flags home" and tml: "tml = config_file conf" and err: "\<not> err"
    using assms(5) by (auto simp: interceptLoadConfig_def Let_def)
  have "?flags k = Some (TStr t) \<Longrightarrow> plain_text t" for k t using plain_text start_defaults_plain by (auto simp: map_add_Some_iff)
  then have "plain_config conf" unfolding conf by (intro first_plain [OF assms(1) fl])
  then have "Load tml = Some (config_entries conf)" unfolding tml by (rule config_file_loads [OF assms(3)])
  then have conf': "conf' = ParseConfig Unmarshal Join defaultHome (map_of start_defaults ++ map_of (config_entries conf) ++ given) home"
    "tml' = tml" "\<not> err'"
    using assms(6) by (auto simp: interceptLoadConfig_def)
  have start: "field conf k = (case ?flags k of None \<Rightarrow> field (DefaultAppConfigWithHome Join defaultHome home) k | Some v \<Rightarrow> Some v)"
    if "k \<in> set field_keys_list" for k
    unfolding conf using assms(1) fl that by (rule config_decoder.first_field)
  have nxt: "field conf' k = (if k = ''height-revision'' then Some (TInts [[0, 7], [17777777, 11]]) else field conf k)"
    if "k \<in> set field_keys_list" for k
    unfolding conf'(1) using assms(1) fl that conf by (rule config_decoder.next_field)
  have "field conf' k = field conf k" if "k \<noteq> ''height-revision''" for k
  proof (cases "k \<in> set field_keys_list")
    case False
    then have "field conf' k = None" "field conf k = None" using field_dom by (metis domIff)+
    then show ?thesis by simp
  qed (use nxt that in simp)
  moreover have none: "?flags k = None" if "k \<notin> set start_flags" for k using fl [of k] that by (cases "?flags k") auto
  moreover have keys: "''height-revision'' \<in> set field_keys_list" "''cc-rpc-epochs'' \<in> set field_keys_list"
    by (simp_all add: field_keys_list_def)
  moreover have "HeightRevision conf = [(0, 7), (14444444, 7)]"
    using start [OF keys(1)] none [OF start_flags_tables(1)]
    by (intro revision_table) (simp add: field_tables default_tables)
  moreover have "HeightRevision conf' = [(0, 7), (17777777, 11)]"
    using nxt [OF keys(1)] by (intro revision_table) simp
  moreover have "map (map sint) (CCRPCEpochs conf) = map (map sint) [[184464, 6, 7200 :: i64]]"
    using start [OF keys(2)] none [OF start_flags_tables(2)]
    by (simp add: field_tables default_tables)
  then have "CCRPCEpochs conf = [[184464, 6, 7200]]"
    by (rule map_injective) (auto intro!: injI dest!: map_injective [OF _ injI] simp: sint_eq_iff)
  ultimately show ?thesis
    using conf'(2,3) err by (simp add: validHeightRevision_def validCCRPCEpochs_def fromHeightRevision_def)
qed

definition join_path :: "string list \<Rightarrow> string" where
  "join_path ps = foldr (\<lambda>p acc. p @ (if acc = [] then [] else CHR ''/'' # acc)) ps []"

theorem first_start_config_witness:
  "(let ((conf, err), tml) = interceptLoadConfig mem_toml mem_Unmarshal join_path ''/root/.zeniqsmartd'' (map_of start_defaults)
          [''retain-blocks'' \<mapsto> TInt 5] [] None;
        ((conf', err'), _) = interceptLoadConfig mem_toml mem_Unmarshal join_path ''/root/.zeniqsmartd'' (map_of start_defaults)
          [''retain-blocks'' \<mapsto> TInt 5] [] (Some tml)
    in \<not> err' \<and> RetainBlocks conf = 5 \<and> fromHeightRevision (HeightRevision conf) 18000000 = 7
       \<and> fromHeightRevision (HeightRevision conf') 18000000 = 11)"
proof -
  let ?given = "[''retain-blocks'' \<mapsto> TInt 5]"
  let ?run = "interceptLoadConfig mem_toml mem_Unmarshal join_path ''/root/.zeniqsmartd'' (map_of start_defaults) ?given []"
  have "fits ''retain-blocks'' (TInt 5)"
    unfolding fits_def field_vals by (rule exI [of _ "(DefaultAppConfigWithHome join_path [] [])\<lparr>RetainBlocks := 5\<rparr>"]) simp
  then have fl: "?given k = Some v \<Longrightarrow> k \<in> set start_flags \<and> fits k v" for k v
    by (auto simp: start_flags_def start_defaults_def split: if_splits)
  have pl: "?given k = Some (TStr t) \<Longrightarrow> plain_text t" for k t by (simp split: if_splits)
  obtain conf err tml conf' err' tml' where run: "?run None = ((conf, err), tml)" "?run (Some tml) = ((conf', err'), tml')"
    by (metis prod.exhaust)
  have "RetainBlocks conf = 5"
    using run(1) by (auto simp: interceptLoadConfig_def ParseConfig_def mem_Unmarshal_def set_defs Let_def)
  then show ?thesis
    using first_start_config [OF mu.config_decoder_axioms fl mem_toml.toml_lib_axioms pl run, where h = 18000000] run by simp
qed

text \<open>
  With a quote in a string the file is not read back: the text between the quotes of the template
  is no string any more.
\<close>

lemma quote_breaks_config:
  assumes "plain_config c" and "CHR 0x22 \<in> set pw" and "newline \<notin> set pw"
  shows "mem_toml (config_file (c\<lparr>MainnetRPCPassword := pw\<rparr>)) = None"
proof -
  let ?c = "c\<lparr>MainnetRPCPassword := pw\<rparr>" and ?l = "''mainnet-rpc-password = '' @ quoted pw"
  have "mem_value (quoted pw) = None" using assms(2) by (auto simp: mem_value_def quoted_def plain_text_def)
  then have "mem_line ?l = None" by (simp add: mem_line_def)
  moreover have "?l \<in> set (config_lines ?c)"
    by (cases c) (simp only: config_lines_def AppConfig.select_convs AppConfig.update_convs list.set insert_iff simp_thms)
  ultimately have bad: "None \<in> set (map mem_line (config_lines ?c))" by force
  obtain es where "list_all2 toml_line (config_lines c) es" using config_lines_say [OF assms(1)] by (auto simp: says_def)
  then have c: "\<forall>l \<in> set (config_lines c). newline \<notin> set l" by (induction rule: list_all2_induct) (auto dest: toml_line_newline)
  have l: "newline \<notin> set ?l" using assms(3) by (simp add: quoted_def newline_def)
  have "list_all2 (\<lambda>x y. x = y \<or> x = ?l) (config_lines ?c) (config_lines c)"
    by (cases c) (simp only: config_lines_def AppConfig.select_convs AppConfig.update_convs list.rel_inject simp_thms)
  then have "\<forall>l \<in> set (config_lines ?c). newline \<notin> set l"
    using c l by (induction rule: list_all2_induct) auto
  then have "split_lines [] (config_file ?c) = config_lines ?c"
    unfolding config_file_def by (rule split_lines_text)
  moreover have "None \<in> set xs \<Longrightarrow> those xs = None" for xs :: "(string \<times> toml_value) option option list"
    by (induction xs) (auto split: option.splits)
  ultimately show ?thesis using bad by (simp add: mem_toml_def)
qed

end
