(* ===== verification/Node_Staking.thy ===== *)
theory Node_Staking
  imports Node_Config App_CheckTx Staking_Contract
begin

text \<open>
  The command \<open>zeniqsmartd staking\<close> (\<open>src/cmd/zeniqsmartd/staking.go\<close>), which prints a signed
  transaction that calls the staking contract, with the parsing of its arguments
  (\<open>chain_id.go\<close>, \<open>internal/ethutils\<close>, \<open>internal/bigutils\<close>) and the packing of the call
  (\<open>src/staking/abi.go\<close>). Signatures, the encoding of transactions and of calls are functions of
  the record \<open>wallet\<close>; the locale \<open>wallet_laws\<close> says that the node recovers the address of the
  key, decodes what was encoded, and that a call is its selector and its arguments in words
  of 32 bytes.
\<close>

subsection \<open>Parsing the arguments\<close>

definition parseChainID :: "string \<Rightarrow> u256 option" where
  "parseChainID chainID =
     (if length chainID > 2 \<and> take 2 chainID = ''0x'' then map_option ucast (ParseUint 16 (drop 2 chainID)) else None)"

text \<open>\<open>big.Int.SetString\<close> with a given base: an optional sign and digits.\<close>

definition big_SetString_base :: "nat \<Rightarrow> string \<Rightarrow> int option" where
  "big_SetString_base b s =
     (let (neg, t) = (case s of CHR ''-'' # t \<Rightarrow> (True, t) | CHR ''+'' # t \<Rightarrow> (False, t) | _ \<Rightarrow> (False, s))
      in if t = [] then None else map_option (\<lambda>v. if neg then - int v else int v) (parse_digits b 0 t))"

text \<open>\<open>uint256.FromBig\<close> reports an overflow by the size of the absolute value and negates afterwards.\<close>

definition ParseU256 :: "string \<Rightarrow> u256 option" where
  "ParseU256 s =
     (case (if take 2 s = ''0x'' then big_SetString_base 16 (drop 2 s) else big_SetString_base 10 s) of
        None \<Rightarrow> None
      | Some i \<Rightarrow> if \<bar>i\<bar> < 2 ^ 256 then Some (word_of_int i) else None)"

definition is_space :: "char \<Rightarrow> bool" where
  "is_space c \<longleftrightarrow> (let n = of_char c :: nat in n = 32 \<or> 9 \<le> n \<and> n \<le> 13)"

definition TrimSpace :: "string \<Rightarrow> string" where
  "TrimSpace s = rev (dropWhile is_space (rev (dropWhile is_space s)))"

definition HexToPubKey :: "string \<Rightarrow> bytes option" where
  "HexToPubKey key = (let key = TrimSpace key in hex_DecodeString (if take 2 key = ''0x'' then drop 2 key else key))"

subsection \<open>Calls of the contract\<close>

datatype abi_arg = Abi_address address | Abi_bytes32 bytes32 | Abi_uint256 u256

record 'k wallet =
  ToECDSA :: "bytes \<Rightarrow> 'k option"
  KeyAddress :: "'k \<Rightarrow> address"
  HexToAddress :: "string \<Rightarrow> address"
  signer_Hash :: "int \<Rightarrow> Tx \<Rightarrow> bytes32"
  crypto_Sign :: "bytes32 \<Rightarrow> 'k \<Rightarrow> bytes option"
  WithSignature :: "Tx \<Rightarrow> int \<Rightarrow> bytes \<Rightarrow> Tx option"
  EncodeRLP :: "Tx \<Rightarrow> bytes option"
  abi_Pack :: "string \<Rightarrow> abi_arg list \<Rightarrow> bytes option"

definition HexToPrivKey :: "'k wallet \<Rightarrow> string \<Rightarrow> 'k option" where
  "HexToPrivKey W key = (let key = TrimSpace key in
     Option.bind (hex_DecodeString (if take 2 key = ''0x'' then drop 2 key else key)) (ToECDSA W))"

definition PackCreateValidator :: "'k wallet \<Rightarrow> address \<Rightarrow> bytes32 \<Rightarrow> bytes32 \<Rightarrow> bytes option" where
  "PackCreateValidator W rewardTo intro pubKey = abi_Pack W ''createValidator'' [Abi_address rewardTo, Abi_bytes32 intro, Abi_bytes32 pubKey]"

definition PackEditValidator :: "'k wallet \<Rightarrow> address \<Rightarrow> bytes32 \<Rightarrow> bytes option" where
  "PackEditValidator W rewardTo intro = abi_Pack W ''editValidator'' [Abi_address rewardTo, Abi_bytes32 intro]"

definition PackRetire :: "'k wallet \<Rightarrow> bytes option" where "PackRetire W = abi_Pack W ''retire'' []"
definition PackIncreaseMinGasPrice :: "'k wallet \<Rightarrow> bytes option" where "PackIncreaseMinGasPrice W = abi_Pack W ''increaseMinGasPrice'' []"
definition PackDecreaseMinGasPrice :: "'k wallet \<Rightarrow> bytes option" where "PackDecreaseMinGasPrice W = abi_Pack W ''decreaseMinGasPrice'' []"
definition PackProposal :: "'k wallet \<Rightarrow> u256 \<Rightarrow> bytes option" where "PackProposal W target = abi_Pack W ''proposal'' [Abi_uint256 target]"
definition PackVote :: "'k wallet \<Rightarrow> u256 \<Rightarrow> bytes option" where "PackVote W target = abi_Pack W ''vote'' [Abi_uint256 target]"
definition PackExecuteProposal :: "'k wallet \<Rightarrow> bytes option" where "PackExecuteProposal W = abi_Pack W ''executeProposal'' []"
definition PackGetVote :: "'k wallet \<Rightarrow> address \<Rightarrow> bytes option" where "PackGetVote W validator = abi_Pack W ''getVote'' [Abi_address validator]"

lemmas pack_defs = PackCreateValidator_def PackEditValidator_def PackRetire_def PackIncreaseMinGasPrice_def PackDecreaseMinGasPrice_def
  PackProposal_def PackVote_def PackExecuteProposal_def PackGetVote_def

subsection \<open>The command\<close>

record staking_flags =
  fl_ValKey :: string
  fl_Nonce :: u64
  fl_ChainId :: string
  fl_Type :: string
  fl_StakingCoin :: string
  fl_Introduction :: string
  fl_RewardTo :: string
  fl_ConsPubKey :: string
  fl_GasPrice :: i64

text \<open>The defaults of the flags that are not required.\<close>

definition default_flags :: "string \<Rightarrow> u64 \<Rightarrow> string \<Rightarrow> string \<Rightarrow> staking_flags" where
  "default_flags key nonce chainId fType = \<lparr>fl_ValKey = key, fl_Nonce = nonce, fl_ChainId = chainId, fl_Type = fType,
     fl_StakingCoin = ''0'', fl_Introduction = [], fl_RewardTo = [], fl_ConsPubKey = [], fl_GasPrice = 1500000000\<rparr>"

datatype staking_cmd_error = PrivateKeyError | ChainIdError | StakingCoinError | PubkeyMissing | PubkeyError | InvalidType | SignError | EncodeError

definition SignTx :: "'k wallet \<Rightarrow> Tx \<Rightarrow> int \<Rightarrow> 'k \<Rightarrow> Tx option" where
  "SignTx W tx chainID key = do {
     sig \<leftarrow> crypto_Sign W (signer_Hash W chainID tx) key;
     WithSignature W tx chainID sig }"

text \<open>What is printed: the encoded transaction in hexadecimal digits.\<close>

definition printSignedTx :: "'k wallet \<Rightarrow> staking_flags \<Rightarrow> u256 \<Rightarrow> bytes \<Rightarrow> 'k \<Rightarrow> u256 \<Rightarrow> staking_cmd_error + string" where
  "printSignedTx W fl val data priKey chainID =
     (let tx = \<lparr>t_Hash = 0, t_Nonce = fl_Nonce fl, t_Gas = GasOfValidatorOp, t_GasPrice = sint (fl_GasPrice fl), t_Value = uint val,
            t_Data = data, t_To = Some StakingContractAddress, t_V = 0, t_R = 0, t_S = 0\<rparr>
      in case SignTx W tx (uint chainID) priKey of
           None \<Rightarrow> Inl SignError
         | Some tx \<Rightarrow> (case EncodeRLP W tx of None \<Rightarrow> Inl EncodeError | Some txBytes \<Rightarrow> Inr (''0x'' @ hex_EncodeToString txBytes)))"

definition str_bytes :: "string \<Rightarrow> bytes" where "str_bytes s = map of_char s"

text \<open>\<open>None\<close> is the panic of a call that cannot be packed.\<close>

definition StakingCmd :: "'k wallet \<Rightarrow> staking_flags \<Rightarrow> (staking_cmd_error + string) option" where
  "StakingCmd W fl =
     (case HexToPrivKey W (fl_ValKey fl) of None \<Rightarrow> Some (Inl PrivateKeyError) | Some priKey \<Rightarrow>
      case parseChainID (fl_ChainId fl) of None \<Rightarrow> Some (Inl ChainIdError) | Some chainID \<Rightarrow>
      if fl_Type fl = ''retire'' then do { data \<leftarrow> PackRetire W; Some (printSignedTx W fl 0 data priKey chainID) }
      else if fl_Type fl = ''increase'' then do { data \<leftarrow> PackIncreaseMinGasPrice W; Some (printSignedTx W fl 0 data priKey chainID) }
      else if fl_Type fl = ''decrease'' then do { data \<leftarrow> PackDecreaseMinGasPrice W; Some (printSignedTx W fl 0 data priKey chainID) }
      else
        case ParseU256 (fl_StakingCoin fl) of None \<Rightarrow> Some (Inl StakingCoinError) | Some sCoin \<Rightarrow>
        let intro = be_val (copy_to (replicate 32 0) (str_bytes (fl_Introduction fl))) :: bytes32;
            rewardTo = (if fl_RewardTo fl = [] then KeyAddress W priKey else HexToAddress W (fl_RewardTo fl))
        in if fl_Type fl = ''edit''
           then do { data \<leftarrow> PackEditValidator W rewardTo intro; Some (printSignedTx W fl sCoin data priKey chainID) }
           else if fl_Type fl = ''create''
           then if fl_ConsPubKey fl = [] then Some (Inl PubkeyMissing)
             else (case HexToPubKey (fl_ConsPubKey fl) of None \<Rightarrow> Some (Inl PubkeyError) | Some pk \<Rightarrow>
               do { data \<leftarrow> PackCreateValidator W rewardTo intro (be_val (copy_to (replicate 32 0) pk));
                    Some (printSignedTx W fl sCoin data priKey chainID) })
           else Some (Inl InvalidType))"

subsection \<open>What the user asked for\<close>

datatype staking_op = OpCreate address bytes bytes32 | OpEdit address bytes | OpRetire | OpMinGasPrice bool

text \<open>
  What the texts of the flags stand for, told without the parsers of the command: a number is an
  optional prefix \<open>0x\<close>, an optional sign and digits, whose value is the sum over the positions; a
  byte string is two hexadecimal digits a byte, with an optional prefix and white space around.
\<close>

definition spells_nat :: "nat \<Rightarrow> string \<Rightarrow> nat \<Rightarrow> bool" where
  "spells_nat b t v \<longleftrightarrow> t \<noteq> [] \<and> (\<forall>c \<in> set t. char_digit c < b) \<and> v = (\<Sum>i < length t. char_digit (rev t ! i) * b ^ i)"

definition amount_typed :: "string \<Rightarrow> int \<Rightarrow> bool" where
  "amount_typed s z \<longleftrightarrow> (\<exists>p b sg t v. (p, b) \<in> {([], 10), (''0x'', 16)} \<and> s = p @ sg @ t \<and> spells_nat b t v
     \<and> (sg \<in> {[], ''+''} \<and> z = int v \<or> sg = ''-'' \<and> z = - int v))"

definition spells_bytes :: "string \<Rightarrow> bytes \<Rightarrow> bool" where
  "spells_bytes t bs \<longleftrightarrow> length t = 2 * length bs \<and> (\<forall>i < length bs. char_digit (t ! (2 * i)) < 16
     \<and> char_digit (t ! (2 * i + 1)) < 16 \<and> unat (bs ! i) = 16 * char_digit (t ! (2 * i)) + char_digit (t ! (2 * i + 1)))"

definition bytes_typed :: "string \<Rightarrow> bytes \<Rightarrow> bool" where
  "bytes_typed s bs \<longleftrightarrow> (\<exists>u p t v. s = u @ p @ t @ v \<and> (\<forall>c \<in> set (u @ v). is_space c) \<and> p \<in> {[], ''0x''} \<and> spells_bytes t bs)"

text \<open>
  The operation and the number of coins: the introduction is the one typed, cut to 32 bytes and
  without zero bytes at its end (none can be typed), the key fills its 32 bytes from the left.
\<close>

definition asked :: "'k wallet \<Rightarrow> staking_flags \<Rightarrow> 'k \<Rightarrow> staking_op \<Rightarrow> int \<Rightarrow> bool" where
  "asked W fl key opn z \<longleftrightarrow>
     (let intro = TrimRight0 (take 32 (str_bytes (fl_Introduction fl)));
          rewardTo = (if fl_RewardTo fl = [] then KeyAddress W key else HexToAddress W (fl_RewardTo fl))
      in fl_Type fl = ''retire'' \<and> opn = OpRetire \<and> z = 0
       \<or> fl_Type fl = ''increase'' \<and> opn = OpMinGasPrice True \<and> z = 0
       \<or> fl_Type fl = ''decrease'' \<and> opn = OpMinGasPrice False \<and> z = 0
       \<or> fl_Type fl = ''edit'' \<and> opn = OpEdit rewardTo intro \<and> amount_typed (fl_StakingCoin fl) z
       \<or> fl_Type fl = ''create'' \<and> amount_typed (fl_StakingCoin fl) z \<and> (\<exists>pk. bytes_typed (fl_ConsPubKey fl) pk
           \<and> opn = OpCreate rewardTo intro (be_val (take 32 (pk @ replicate 32 0)))))"

text \<open>
  What the contract makes of it: an empty introduction, the default of the flag, arrives as 32
  zero bytes, and both calls take them for a text; \<open>editValidator\<close> no longer does after the fork.
\<close>

definition recorded :: "('c, 'a) ext \<Rightarrow> 'c \<Rightarrow> staking_op \<Rightarrow> staking_op" where
  "recorded E c opn = (case opn of
       OpCreate rewardTo intro pubkey \<Rightarrow> OpCreate rewardTo (if intro = [] then replicate 32 0 else intro) pubkey
     | OpEdit rewardTo intro \<Rightarrow> OpEdit rewardTo (if intro = [] \<and> \<not> IsXHedgeFork E c then replicate 32 0 else intro)
     | _ \<Rightarrow> opn)"

text \<open>What the contract does for it, without call data.\<close>

definition perform :: "('c, 'a) ext \<Rightarrow> 'c staking_state \<Rightarrow> TxToRun \<Rightarrow> staking_op \<Rightarrow> (exec_result \<times> 'c staking_state) option" where
  "perform E s tx opn = (case opn of
       OpCreate rewardTo intro pubkey \<Rightarrow>
         if tx_Value tx \<le> InitialStakingAmount then Some (failure GasOfValidatorOp CreateValidatorCoinLtInitAmount, s)
         else do { (stakingAcc, info) \<leftarrow> LoadStakingAccAndInfo E (ss_ctx s);
           (case AddValidator info (tx_From tx) pubkey intro (tx_Value tx) rewardTo of
              Inl err \<Rightarrow> Some (failure GasOfValidatorOp (TypesError err), s)
            | Inr info \<Rightarrow> save_and_transfer E s tx stakingAcc info) }
     | OpEdit rewardTo intro \<Rightarrow> do { (stakingAcc, info) \<leftarrow> LoadStakingAccAndInfo E (ss_ctx s);
         (case GetValidatorByAddr info (tx_From tx) of
            None \<Rightarrow> Some (failure GasOfValidatorOp NoSuchValidator, s)
          | Some _ \<Rightarrow> save_and_transfer E s tx stakingAcc (update_validator info (tx_From tx) (edit rewardTo intro (tx_Value tx)))) }
     | OpRetire \<Rightarrow> retire E s tx
     | OpMinGasPrice up \<Rightarrow> on_ctx s (handleMinGasPrice E (ss_ctx s) (tx_From tx) up))"

locale wallet_laws =
  fixes W :: "'k wallet" and K :: "('a, 'f) check_ext" and chainID :: u256
  assumes signed: "crypto_Sign W (signer_Hash W (uint chainID) tx) key = Some sig \<Longrightarrow> WithSignature W tx (uint chainID) sig = Some tx' \<Longrightarrow>
      Signer_Sender K tx' = Some (KeyAddress W key) \<and>
      (\<exists>h v r q. tx' = tx\<lparr>t_Hash := h, t_V := v, t_R := r, t_S := q\<rparr>)"
    and decoded: "EncodeRLP W tx = Some bs \<Longrightarrow> DecodeRLP K bs = Some tx"
    and pack_create: "abi_Pack W ''createValidator'' [Abi_address a, Abi_bytes32 x, Abi_bytes32 y]
      = Some (SelectorCreateValidator @ (replicate 12 0 @ be_bytes 20 a) @ be_bytes 32 x @ be_bytes 32 y)"
    and pack_edit: "abi_Pack W ''editValidator'' [Abi_address a, Abi_bytes32 x]
      = Some (SelectorEditValidator @ (replicate 12 0 @ be_bytes 20 a) @ be_bytes 32 x)"
    and pack_plain: "abi_Pack W ''retire'' [] = Some SelectorRetire"
      "abi_Pack W ''increaseMinGasPrice'' [] = Some SelectorIncreaseMinGasPrice"
      "abi_Pack W ''decreaseMinGasPrice'' [] = Some SelectorDecreaseMinGasPrice"
begin

lemma printed:
  assumes "printSignedTx W fl val data key chainID = Inr out"
  shows "\<exists>tx. Option.bind (hex_DecodeString (drop 2 out)) (DecodeRLP K) = Some tx \<and> Signer_Sender K tx = Some (KeyAddress W key)
    \<and> t_Nonce tx = fl_Nonce fl \<and> t_Gas tx = GasOfValidatorOp \<and> t_GasPrice tx = sint (fl_GasPrice fl)
    \<and> t_To tx = Some StakingContractAddress \<and> t_Value tx = uint val \<and> t_Data tx = data"
proof -
  let ?tx = "\<lparr>t_Hash = 0, t_Nonce = fl_Nonce fl, t_Gas = GasOfValidatorOp, t_GasPrice = sint (fl_GasPrice fl), t_Value = uint val,
    t_Data = data, t_To = Some StakingContractAddress, t_V = 0, t_R = 0, t_S = 0\<rparr>"
  obtain sig tx bs where "crypto_Sign W (signer_Hash W (uint chainID) ?tx) key = Some sig" "WithSignature W ?tx (uint chainID) sig = Some tx"
    and bs: "EncodeRLP W tx = Some bs" "out = ''0x'' @ hex_EncodeToString bs"
    using assms by (auto simp: printSignedTx_def SignTx_def Let_def Option.bind_eq_Some_conv split: option.splits)
  from signed [OF this(1,2)] decoded [OF bs(1)] bs(2) show ?thesis by (auto simp: hex_roundtrip)
qed

end

subsection \<open>The words of a call\<close>

lemma stringFromBytes_snoc: "b \<noteq> 0 \<Longrightarrow> stringFromBytes (xs @ [b]) = xs @ [b]"
  by (simp add: stringFromBytes_def nth_append)

lemma stringFromBytes_zero:
  assumes "\<exists>b \<in> set xs. b \<noteq> 0"
  shows "stringFromBytes (xs @ [0]) = stringFromBytes xs"
proof -
  have same: "find (\<lambda>i. (xs @ [0]) ! i \<noteq> 0) (rev [0..<length xs]) = find (\<lambda>i. xs ! i \<noteq> 0) (rev [0..<length xs])"
    by (rule find_cong) (auto simp: nth_append)
  moreover obtain i where "find (\<lambda>i. xs ! i \<noteq> 0) (rev [0..<length xs]) = Some i" "i < length xs"
    using assms by (cases "find (\<lambda>i. xs ! i \<noteq> 0) (rev [0..<length xs])")
      (auto simp: find_None_iff find_Some_iff in_set_conv_nth rev_nth)
  ultimately show ?thesis by (simp add: stringFromBytes_def)
qed

lemma stringFromBytes_padded:
  assumes "bz \<noteq> []" and "last bz \<noteq> 0"
  shows "stringFromBytes (bz @ replicate n 0) = bz"
proof (induction n)
  case 0
  then show ?case using assms stringFromBytes_snoc [of "last bz" "butlast bz"] by simp
next
  case (Suc n)
  have "bz @ replicate (Suc n) 0 = (bz @ replicate n 0) @ [0]" by (simp add: replicate_append_same)
  moreover have "last bz \<in> set (bz @ replicate n 0)" using assms(1) by simp
  ultimately show ?case using Suc assms(2) stringFromBytes_zero [of "bz @ replicate n 0"] by metis
qed

lemma TrimRight0_padded: "bz \<noteq> [] \<Longrightarrow> last bz \<noteq> 0 \<Longrightarrow> TrimRight0 (bz @ replicate n 0) = bz"
  by (cases bz rule: rev_cases) (simp_all add: TrimRight0_def dropWhile_append)

lemma be_nat_snoc: "be_nat (xs @ [b]) = be_nat xs * 256 + unat b"
  by (simp add: be_nat_def)

lemma be_nat_inj: "length xs = length ys \<Longrightarrow> be_nat xs = be_nat ys \<Longrightarrow> xs = ys"
proof (induction xs arbitrary: ys rule: rev_induct)
  case (snoc x xs)
  then obtain y zs where ys: "ys = zs @ [y]" "length xs = length zs" by (cases ys rule: rev_cases) auto
  have x: "unat x < 256" "unat y < 256" using unat_lt [of x] unat_lt [of y] by simp_all
  have e: "be_nat xs * 256 + unat x = be_nat zs * 256 + unat y" using snoc.prems(2) by (simp add: ys be_nat_snoc)
  then have "unat x = unat y" using x by (metis mod_mult_self3 mod_less)
  then show ?case using snoc.IH [OF ys(2)] e ys(1) by (simp add: word_unat_eq_iff)
qed simp

lemma be_bytes_be_val: "length bs = 32 \<Longrightarrow> be_bytes 32 (be_val bs :: u256) = bs"
proof (rule be_nat_inj)
  assume bs: "length bs = 32"
  then have "be_nat bs < 2 ^ 256" using be_nat_bound [of bs] by simp
  then show "be_nat (be_bytes 32 (be_val bs :: u256)) = be_nat bs"
    by (subst be_nat_be_bytes) (simp_all add: be_val_of_nat unat_of_nat take_bit_nat_eq_self)
qed simp

text \<open>A text of at most 32 bytes comes out of the word it was copied into without the zero bytes at its end.\<close>

lemma TrimRight0_split: "\<exists>n. bz = TrimRight0 bz @ replicate n 0"
proof -
  have "bz = rev (dropWhile (\<lambda>b. b = 0) (rev bz)) @ rev (takeWhile (\<lambda>b. b = 0) (rev bz))"
    by (metis rev_append rev_rev_ident takeWhile_dropWhile_id)
  moreover have "takeWhile (\<lambda>b. b = 0) xs = replicate (length (takeWhile (\<lambda>b. b = 0) xs)) 0" for xs :: bytes
    by (induction xs) auto
  ultimately show ?thesis unfolding TrimRight0_def by (metis rev_replicate)
qed

lemma TrimRight0_last: "TrimRight0 bz \<noteq> [] \<Longrightarrow> last (TrimRight0 bz) \<noteq> 0"
  using hd_dropWhile [of "\<lambda>b. b = 0" "rev bz"] by (auto simp: TrimRight0_def last_rev)

lemma stringFromBytes_zeros: "stringFromBytes (replicate n 0) = replicate n 0"
proof -
  have "find (\<lambda>i. replicate n (0 :: u8) ! i \<noteq> 0) (rev [0..<n]) = None" by (auto simp: find_None_iff)
  then show ?thesis by (simp add: stringFromBytes_def)
qed

lemma TrimRight0_zeros: "TrimRight0 (replicate n 0) = []"
  by (simp add: TrimRight0_def)

lemma introduction_word:
  fixes bz :: bytes
  defines "intro \<equiv> TrimRight0 (take 32 bz)" and "word \<equiv> be_bytes 32 (be_val (copy_to (replicate 32 0) bz) :: bytes32)"
  shows "stringFromBytes word = (if intro = [] then replicate 32 0 else intro)" and "TrimRight0 word = intro"
proof -
  obtain n where n: "take 32 bz = intro @ replicate n 0" using TrimRight0_split intro_def by blast
  have len: "length (copy_to (replicate 32 0) bz) = 32" by (simp add: copy_to_def)
  then have "word = copy_to (replicate 32 0) bz" unfolding word_def by (rule be_bytes_be_val)
  also have "\<dots> = intro @ replicate (n + (32 - length bz)) 0"
    using n by (simp add: copy_to_def replicate_add)
  finally have w: "word = intro @ replicate (n + (32 - length bz)) 0" .
  then have all: "intro = [] \<Longrightarrow> word = replicate 32 0"
    using len \<open>word = copy_to (replicate 32 0) bz\<close> by (metis append_Nil length_replicate)
  show "stringFromBytes word = (if intro = [] then replicate 32 0 else intro)"
    using w all stringFromBytes_zeros [of 32] stringFromBytes_padded TrimRight0_last [of "take 32 bz"]
    by (auto simp: intro_def [symmetric])
  show "TrimRight0 word = intro"
  proof (cases "intro = []")
    case True
    then show ?thesis using all by (simp add: TrimRight0_zeros)
  next
    case False
    then have "last intro \<noteq> 0" using TrimRight0_last [of "take 32 bz"] by (simp add: intro_def)
    then show ?thesis unfolding w by (rule TrimRight0_padded [OF False])
  qed
qed

text \<open>The call data of the two calls with arguments.\<close>

lemma create_words:
  fixes a :: address and x y :: bytes32
  defines "cd \<equiv> drop 4 (SelectorCreateValidator @ (replicate 12 0 @ be_bytes 20 a) @ be_bytes 32 x @ be_bytes 32 y)"
  shows "length cd = 96" "slice 12 32 cd = be_bytes 20 a" "slice 32 64 cd = be_bytes 32 x" "slice 64 96 cd = be_bytes 32 y"
  by (simp_all add: cd_def SelectorCreateValidator_def slice_def)

lemma edit_words:
  fixes a :: address and x :: bytes32
  defines "cd \<equiv> drop 4 (SelectorEditValidator @ (replicate 12 0 @ be_bytes 20 a) @ be_bytes 32 x)"
  shows "length cd = 64" "slice 12 32 cd = be_bytes 20 a" "slice 32 64 cd = be_bytes 32 x"
  by (simp_all add: cd_def SelectorEditValidator_def slice_def)

lemma Execute_create:
  assumes "tx_Data tx = SelectorCreateValidator @ (replicate 12 0 @ be_bytes 20 a) @ be_bytes 32 (be_val (copy_to (replicate 32 0) bz) :: bytes32) @ be_bytes 32 y"
  shows "Execute E s ts tx = perform E s tx (recorded E (ss_ctx s) (OpCreate a (TrimRight0 (take 32 bz)) y))"
proof -
  have "Execute E s ts tx = createValidator E s tx"
    unfolding Execute_def assms(1) by (simp add: selector_defs)
  then show ?thesis
    unfolding createValidator_def assms(1) Let_def create_words be_val_be_bytes_20 be_val_be_bytes_32 introduction_word
    by (simp add: perform_def recorded_def)
qed

lemma Execute_edit:
  assumes "tx_Data tx = SelectorEditValidator @ (replicate 12 0 @ be_bytes 20 a) @ be_bytes 32 (be_val (copy_to (replicate 32 0) bz) :: bytes32)"
  shows "Execute E s ts tx = perform E s tx (recorded E (ss_ctx s) (OpEdit a (TrimRight0 (take 32 bz))))"
proof -
  have "Execute E s ts tx = editValidator E s tx"
    unfolding Execute_def assms(1) by (simp add: selector_defs)
  then show ?thesis
    unfolding editValidator_def assms(1) Let_def edit_words be_val_be_bytes_20 introduction_word
    by (simp add: perform_def recorded_def)
qed

lemma Execute_plain:
  "tx_Data tx = SelectorRetire \<Longrightarrow> Execute E s ts tx = perform E s tx (recorded E (ss_ctx s) OpRetire)"
  "tx_Data tx = SelectorIncreaseMinGasPrice \<Longrightarrow> Execute E s ts tx = perform E s tx (recorded E (ss_ctx s) (OpMinGasPrice True))"
  "tx_Data tx = SelectorDecreaseMinGasPrice \<Longrightarrow> Execute E s ts tx = perform E s tx (recorded E (ss_ctx s) (OpMinGasPrice False))"
  by (simp_all add: Execute_def perform_def recorded_def selector_defs)

subsection \<open>The texts of the flags\<close>

lemma parse_digits_value:
  "parse_digits b v t = Some n \<Longrightarrow>
   (\<forall>c \<in> set t. char_digit c < b) \<and> n = v * b ^ length t + (\<Sum>i < length t. char_digit (rev t ! i) * b ^ i)"
proof (induction b v t rule: parse_digits.induct)
  case (2 b v c s)
  then have c: "char_digit c < b" and IH: "\<forall>c \<in> set s. char_digit c < b"
    "n = (v * b + char_digit c) * b ^ length s + (\<Sum>i < length s. char_digit (rev s ! i) * b ^ i)"
    by (auto split: if_splits)
  moreover have "(\<Sum>i < length s. char_digit (rev (c # s) ! i) * b ^ i) = (\<Sum>i < length s. char_digit (rev s ! i) * b ^ i)"
    by (rule sum.cong) (simp_all add: nth_append)
  ultimately show ?case by (simp add: nth_append algebra_simps)
qed simp

lemma amount_typedI:
  assumes "(p, b) \<in> {([], 10), (''0x'', 16)}" and "spells_nat b t v"
    and "sg \<in> {[], ''+''} \<and> z = int v \<or> sg = ''-'' \<and> z = - int v"
  shows "amount_typed (p @ sg @ t) z"
  unfolding amount_typed_def
  by (rule exI [of _ p], rule exI [of _ b], rule exI [of _ sg], rule exI [of _ t], rule exI [of _ v]) (use assms in simp)

lemma bytes_typedI:
  assumes "\<forall>c \<in> set (u @ v). is_space c" and "p \<in> {[], ''0x''}" and "spells_bytes t bs"
  shows "bytes_typed (u @ p @ t @ v) bs"
  unfolding bytes_typed_def
  by (rule exI [of _ u], rule exI [of _ p], rule exI [of _ t], rule exI [of _ v]) (use assms in simp)

lemma big_SetString_typed:
  assumes "big_SetString_base b s = Some z"
  shows "\<exists>sg t v. s = sg @ t \<and> spells_nat b t v \<and> (sg \<in> {[], ''+''} \<and> z = int v \<or> sg = ''-'' \<and> z = - int v)"
proof -
  obtain neg t where nt: "(case s of CHR ''-'' # t \<Rightarrow> (True, t) | CHR ''+'' # t \<Rightarrow> (False, t) | _ \<Rightarrow> (False, s)) = (neg, t)"
    by fastforce
  then have s: "s = (if neg then ''-'' else []) @ t \<or> \<not> neg \<and> s = ''+'' @ t"
    by (auto split: list.splits char.splits bool.splits)
  from assms nt obtain v where v: "t \<noteq> []" "parse_digits b 0 t = Some v" "z = (if neg then - int v else int v)"
    by (auto simp: big_SetString_base_def split: if_splits)
  then have "spells_nat b t v" using parse_digits_value [of b 0 t v] by (simp add: spells_nat_def)
  moreover have "\<exists>sg. s = sg @ t \<and> (sg \<in> {[], ''+''} \<and> z = int v \<or> sg = ''-'' \<and> z = - int v)"
    using s v(3) by (cases neg) (auto intro: exI [of _ "[]"] exI [of _ "''+''"] exI [of _ "''-''"])
  ultimately show ?thesis by metis
qed

lemma ParseU256_typed:
  assumes "ParseU256 s = Some v"
  shows "\<exists>z. amount_typed s z \<and> v = word_of_int z"
proof -
  obtain z where z: "(if take 2 s = ''0x'' then big_SetString_base 16 (drop 2 s) else big_SetString_base 10 s) = Some z" "v = word_of_int z"
    using assms by (auto simp: ParseU256_def split: option.splits if_splits)
  have "\<exists>p b r. (p, b) \<in> {([], 10), (''0x'', 16 :: nat)} \<and> s = p @ r \<and> big_SetString_base b r = Some z"
  proof (cases "take 2 s = ''0x''")
    case True
    then have "s = ''0x'' @ drop 2 s" by (metis append_take_drop_id)
    then show ?thesis using z(1) True by (intro exI [of _ "''0x''"] exI [of _ "16"] exI [of _ "drop 2 s"]) simp
  next
    case False
    then show ?thesis using z(1) by (intro exI [of _ "[]"] exI [of _ "10"] exI [of _ s]) simp
  qed
  then obtain p b r where pb: "(p, b) \<in> {([], 10), (''0x'', 16 :: nat)}" "s = p @ r" "big_SetString_base b r = Some z" by blast
  from big_SetString_typed [OF pb(3)] obtain sg t v' where "r = sg @ t" "spells_nat b t v'"
    "sg \<in> {[], ''+''} \<and> z = int v' \<or> sg = ''-'' \<and> z = - int v'" by blast
  then have "amount_typed s z" using amount_typedI [OF pb(1)] pb(2) by blast
  then show ?thesis using z(2) by blast
qed

lemma fromHexChar_value:
  assumes "fromHexChar c = Some a"
  shows "char_digit c < 16 \<and> unat a = char_digit c"
proof -
  have "unat (of_nat m :: u8) = m" if "m < 16" for m using that by (simp add: unat_of_nat take_bit_nat_eq_self)
  then show ?thesis
    using assms by (auto simp: fromHexChar_def char_digit_def Let_def simp del: of_nat_diff split: if_splits)
qed

lemma hex_DecodeString_spells: "hex_DecodeString t = Some bs \<Longrightarrow> spells_bytes t bs"
proof (induction t arbitrary: bs rule: hex_DecodeString.induct)
  case (3 p q s)
  then obtain a b r where ab: "fromHexChar p = Some a" "fromHexChar q = Some b" "hex_DecodeString s = Some r" "bs = (a * 16 + b) # r"
    by (auto simp: Option.bind_eq_Some_conv)
  then have IH: "spells_bytes s r" using 3 by blast
  have d: "char_digit p < 16" "unat a = char_digit p" "char_digit q < 16" "unat b = char_digit q"
    using fromHexChar_value [OF ab(1)] fromHexChar_value [OF ab(2)] by auto
  then have "unat (a * 16 + b) = 16 * char_digit p + char_digit q"
    by (simp add: unat_word_ariths)
  then show ?case using IH d ab(4) by (simp add: spells_bytes_def All_less_Suc2)
qed (auto simp: spells_bytes_def)

lemma TrimSpace_around: "\<exists>u v. s = u @ TrimSpace s @ v \<and> (\<forall>c \<in> set (u @ v). is_space c)"
proof -
  let ?r = "dropWhile is_space s"
  have "s = takeWhile is_space s @ ?r" by simp
  moreover have "?r = rev (dropWhile is_space (rev ?r)) @ rev (takeWhile is_space (rev ?r))"
    by (metis rev_append rev_rev_ident takeWhile_dropWhile_id)
  ultimately have "s = takeWhile is_space s @ TrimSpace s @ rev (takeWhile is_space (rev ?r))"
    unfolding TrimSpace_def by simp
  moreover have "\<forall>c \<in> set (takeWhile is_space s @ rev (takeWhile is_space (rev ?r))). is_space c"
    by (auto dest: set_takeWhileD)
  ultimately show ?thesis by blast
qed

lemma HexToPubKey_typed:
  assumes "HexToPubKey s = Some bs"
  shows "bytes_typed s bs"
proof -
  obtain u v where uv: "s = u @ TrimSpace s @ v" "\<forall>c \<in> set (u @ v). is_space c" using TrimSpace_around by blast
  define p where "p = (if take 2 (TrimSpace s) = ''0x'' then ''0x'' else [])"
  define t where "t = (if take 2 (TrimSpace s) = ''0x'' then drop 2 (TrimSpace s) else TrimSpace s)"
  have pt: "TrimSpace s = p @ t"
  proof (cases "take 2 (TrimSpace s) = ''0x''")
    case True
    then have "''0x'' @ drop 2 (TrimSpace s) = TrimSpace s" by (metis append_take_drop_id)
    then show ?thesis using True by (simp add: p_def t_def)
  qed (simp add: p_def t_def)
  have "spells_bytes t bs" using assms by (intro hex_DecodeString_spells) (simp add: HexToPubKey_def t_def Let_def)
  then have "bytes_typed (u @ p @ t @ v) bs" using uv(2) by (intro bytes_typedI) (simp_all add: p_def)
  then show ?thesis using uv(1) pt by simp
qed

lemma HexToPrivKey_typed: "HexToPrivKey W s = Some key \<Longrightarrow> \<exists>bs. bytes_typed s bs \<and> ToECDSA W bs = Some key"
  using HexToPubKey_typed [of s] by (auto simp: HexToPrivKey_def HexToPubKey_def Let_def Option.bind_eq_Some_conv)

text \<open>What the command packs and prints is what was asked for.\<close>

lemma StakingCmd_Inr:
  assumes "wallet_laws W K chainID" and "StakingCmd W fl = Some (Inr out)" and "parseChainID (fl_ChainId fl) = Some chainID"
  shows "\<exists>key opn z data. HexToPrivKey W (fl_ValKey fl) = Some key \<and> asked W fl key opn z
    \<and> printSignedTx W fl (word_of_int z) data key chainID = Inr out
    \<and> (\<forall>E s ts tx. tx_Data tx = data \<longrightarrow>
        Execute E s ts (tx :: TxToRun) = perform (E :: ('c, 'a) ext) s tx (recorded E (ss_ctx s) opn))"
proof -
  note laws = wallet_laws.pack_create [OF assms(1)] wallet_laws.pack_edit [OF assms(1)] wallet_laws.pack_plain [OF assms(1)]
  obtain key where key: "HexToPrivKey W (fl_ValKey fl) = Some key"
    using assms(2) by (cases "HexToPrivKey W (fl_ValKey fl)") (auto simp: StakingCmd_def)
  let ?bz = "str_bytes (fl_Introduction fl)"
  let ?rt = "if fl_RewardTo fl = [] then KeyAddress W key else HexToAddress W (fl_RewardTo fl)"
  consider (plain) "fl_Type fl \<in> {''retire'', ''increase'', ''decrease''}" | (edit) "fl_Type fl = ''edit''"
    | (create) "fl_Type fl = ''create''"
    using assms(2,3) key by (auto simp: StakingCmd_def Let_def split: option.splits if_splits)
  then show ?thesis
  proof cases
    case plain
    then consider "fl_Type fl = ''retire''" | "fl_Type fl = ''increase''" | "fl_Type fl = ''decrease''" by blast
    then have "\<exists>opn sel. asked W fl key opn 0 \<and> printSignedTx W fl (word_of_int 0) sel key chainID = Inr out
      \<and> (opn, sel) \<in> {(OpRetire, SelectorRetire), (OpMinGasPrice True, SelectorIncreaseMinGasPrice),
        (OpMinGasPrice False, SelectorDecreaseMinGasPrice)}"
      using assms(2,3) key by cases (simp_all add: StakingCmd_def pack_defs laws asked_def Let_def)
    then obtain opn sel where o: "asked W fl key opn 0" "printSignedTx W fl (word_of_int 0) sel key chainID = Inr out"
      "(opn, sel) \<in> {(OpRetire, SelectorRetire), (OpMinGasPrice True, SelectorIncreaseMinGasPrice),
        (OpMinGasPrice False, SelectorDecreaseMinGasPrice)}" by blast
    from o(3) have "\<forall>E s ts tx. tx_Data tx = sel \<longrightarrow>
        Execute E s ts (tx :: TxToRun) = perform (E :: ('c, 'a) ext) s tx (recorded E (ss_ctx s) opn)"
      by (auto simp: Execute_plain)
    then show ?thesis using key o(1,2) by blast
  next
    case edit
    then obtain v where v: "ParseU256 (fl_StakingCoin fl) = Some v"
      using assms(2,3) key by (auto simp: StakingCmd_def Let_def split: option.splits)
    from ParseU256_typed [OF this] obtain z where z: "amount_typed (fl_StakingCoin fl) z" "v = word_of_int z" by blast
    then have "asked W fl key (OpEdit ?rt (TrimRight0 (take 32 ?bz))) z" using edit by (simp add: asked_def)
    moreover have "printSignedTx W fl v (SelectorEditValidator @ (replicate 12 0 @ be_bytes 20 ?rt) @
        be_bytes 32 (be_val (copy_to (replicate 32 0) ?bz) :: bytes32)) key chainID = Inr out"
      using assms(2,3) key v edit by (simp add: StakingCmd_def pack_defs laws Let_def split: if_splits)
    ultimately show ?thesis using key z(2) Execute_edit by blast
  next
    case create
    then obtain v pk where v: "ParseU256 (fl_StakingCoin fl) = Some v" "HexToPubKey (fl_ConsPubKey fl) = Some pk"
      using assms(2,3) key by (auto simp: StakingCmd_def Let_def split: option.splits if_splits)
    from ParseU256_typed [OF v(1)] obtain z where z: "amount_typed (fl_StakingCoin fl) z" "v = word_of_int z" by blast
    have "copy_to (replicate 32 0) pk = take 32 (pk @ replicate 32 0)" by (simp add: copy_to_def)
    then have "asked W fl key (OpCreate ?rt (TrimRight0 (take 32 ?bz)) (be_val (copy_to (replicate 32 0) pk))) z"
      using create z(1) HexToPubKey_typed [OF v(2)] by (auto simp: asked_def Let_def)
    moreover have "printSignedTx W fl v (SelectorCreateValidator @ (replicate 12 0 @ be_bytes 20 ?rt) @
        be_bytes 32 (be_val (copy_to (replicate 32 0) ?bz) :: bytes32) @ be_bytes 32 (be_val (copy_to (replicate 32 0) pk) :: bytes32))
        key chainID = Inr out"
      using assms(2,3) key v create by (simp add: StakingCmd_def pack_defs laws Let_def split: if_splits)
    ultimately show ?thesis using key z(2) Execute_create by blast
  qed
qed

lemma StakingCmd_prints:
  assumes "StakingCmd W fl = Some (Inr out)" and "parseChainID (fl_ChainId fl) = Some chainID"
  shows "\<exists>key val data. printSignedTx W fl val data key chainID = Inr out"
  using assms by (auto simp: StakingCmd_def Let_def Option.bind_eq_Some_conv split: option.splits if_splits)

lemma refused_price:
  assumes "effective_price K tx < ucast (ap_lastMinGasPrice app)"
  shows "rc_Code (snd (checkTxWithContext K E c app tx sender)) \<noteq> CodeTypeOK"
  using assms by (auto simp: checkTxWithContext_def checkGasLimit_def Let_def refuse_def code_defs split: option.splits)

subsection \<open>The command and the node\<close>

text \<open>
  C32: The command and the contract agree on the call: the transaction that is printed decodes at
  the node, comes from the address of the key that was typed, goes to the staking contract with
  the nonce that was given and the number of coins that was typed, and the contract registers
  or changes the validator with the address, the introduction and the key that were typed, or
  retires it, or votes on the minimum gas price. Two things are not as they were asked for, and
  the theorem says how: a negative number of coins is sent as its value modulo \<open>2 ^ 256\<close>, and
  an empty introduction, the default of the flag, is registered as 32 zero bytes (by an edit
  only before the fork, after which it leaves the introduction as it is).
\<close>

theorem staking_command_performs:
  assumes "wallet_laws W K chainID" and "StakingCmd W fl = Some (Inr out)" and "parseChainID (fl_ChainId fl) = Some chainID"
  shows "\<exists>secret key opn z tx. bytes_typed (fl_ValKey fl) secret \<and> ToECDSA W secret = Some key \<and> asked W fl key opn z
    \<and> Option.bind (hex_DecodeString (drop 2 out)) (DecodeRLP K) = Some tx
    \<and> Signer_Sender K tx = Some (KeyAddress W key) \<and> t_To tx = Some StakingContractAddress \<and> t_Nonce tx = fl_Nonce fl
    \<and> t_Value tx = z mod 2 ^ 256
    \<and> (\<forall>E s ts. let run = \<lparr>tx_From = KeyAddress W key, tx_Value = word_of_int z, tx_Data = t_Data tx\<rparr>
        in Execute (E :: ('c, 'a) ext) s ts run = perform E s run (recorded E (ss_ctx s) opn))"
proof -
  obtain key opn z data where a: "HexToPrivKey W (fl_ValKey fl) = Some key" "asked W fl key opn z"
    "printSignedTx W fl (word_of_int z) data key chainID = Inr out"
    "\<And>E s ts tx. tx_Data tx = data \<Longrightarrow>
      Execute E s ts (tx :: TxToRun) = perform (E :: ('c, 'a) ext) s tx (recorded E (ss_ctx s) opn)"
    using StakingCmd_Inr [OF assms] by blast
  from HexToPrivKey_typed [OF a(1)] obtain secret where "bytes_typed (fl_ValKey fl) secret" "ToECDSA W secret = Some key" by blast
  moreover from wallet_laws.printed [OF assms(1) a(3)] obtain tx where
    "Option.bind (hex_DecodeString (drop 2 out)) (DecodeRLP K) = Some tx" "Signer_Sender K tx = Some (KeyAddress W key)"
    "t_To tx = Some StakingContractAddress" "t_Nonce tx = fl_Nonce fl" "t_Value tx = z mod 2 ^ 256" "t_Data tx = data"
    by (auto simp: uint_word_of_int)
  ultimately show ?thesis using a(2,4) unfolding Let_def by (intro exI conjI) auto
qed

text \<open>
  C39: With the default gas price of the command, 1.5 gwei, the printed transaction is refused by
  every node whose minimum gas price is the default of 10 gwei, in whatever state its mempool is.
\<close>

theorem staking_command_underpriced:
  assumes "wallet_laws W K chainID" and "StakingCmd W fl = Some (Inr out)" and "parseChainID (fl_ChainId fl) = Some chainID"
    and "fl_GasPrice fl = fl_GasPrice (default_flags k n c t)" and "ap_lastMinGasPrice app = DefaultMinGasPrice"
    and "hex_DecodeString (drop 2 out) = Some req"
  shows "rc_Code (snd (CheckTx it K E ctx app recheck req)) \<noteq> CodeTypeOK"
proof -
  obtain key val data where "printSignedTx W fl val data key chainID = Inr out" using StakingCmd_prints [OF assms(2,3)] by blast
  from wallet_laws.printed [OF assms(1) this] assms(6) obtain tx where tx: "DecodeRLP K req = Some tx"
    "t_GasPrice tx = sint (fl_GasPrice fl)" by auto
  have "effective_price K tx \<le> 1500000000"
    using tx(2) assms(4) by (auto simp: effective_price_def default_flags_def Let_def)
  also have "\<dots> < ucast (ap_lastMinGasPrice app)" by (simp add: assms(5) DefaultMinGasPrice_def)
  finally have p: "effective_price K tx < ucast (ap_lastMinGasPrice app)" .
  then have r: "rc_Code (snd (checkTxWithContext K E ctx app' tx sender)) \<noteq> CodeTypeOK"
    if "ap_lastMinGasPrice app' = ap_lastMinGasPrice app" for app' sender
    using refused_price [of K tx app'] that by simp
  have sig: "ap_lastMinGasPrice (sigCacheAdd it a i v) = ap_lastMinGasPrice a" for a i v by (simp add: sigCacheAdd_def Let_def)
  have "MempoolBusy \<noteq> CodeTypeOK" "CannotRecoverSender \<noteq> CodeTypeOK" by (simp_all add: code_defs)
  then show ?thesis by (simp add: CheckTx_def tx(1) refuse_def Let_def r sig split: option.split)
qed

subsection \<open>A wallet\<close>

text \<open>The key is the address, which the signature carries; numbers have fixed widths.\<close>

definition enc_Tx :: "Tx \<Rightarrow> bytes option" where
  "enc_Tx tx = (if t_R tx = 0 \<and> t_S tx = 0 \<and> t_V tx = 0 \<and> 0 \<le> t_Value tx \<and> t_Value tx < 2 ^ 256 \<and> 0 \<le> t_GasPrice tx \<and> t_GasPrice tx < 2 ^ 256
     then Some (be_bytes 32 (t_Hash tx) @ be_bytes 8 (t_Nonce tx) @ be_bytes 8 (t_Gas tx) @ be_bytes 32 (word_of_int (t_GasPrice tx) :: u256) @
       be_bytes 32 (word_of_int (t_Value tx) :: u256) @ [of_bool (t_To tx \<noteq> None)] @
       be_bytes 20 (case t_To tx of None \<Rightarrow> 0 | Some a \<Rightarrow> a) @ t_Data tx)
     else None)"

definition dec_Tx :: "bytes \<Rightarrow> Tx option" where
  "dec_Tx bs = Some \<lparr>t_Hash = be_val (take 32 bs), t_Nonce = be_val (take 8 (drop 32 bs)), t_Gas = be_val (take 8 (drop 40 bs)),
     t_GasPrice = uint (be_val (take 32 (drop 48 bs)) :: u256), t_Value = uint (be_val (take 32 (drop 80 bs)) :: u256),
     t_Data = drop 133 bs, t_To = (if bs ! 112 = 0 then None else Some (be_val (take 20 (drop 113 bs)))), t_V = 0, t_R = 0, t_S = 0\<rparr>"

definition mem_wallet :: "address wallet" where
  "mem_wallet = \<lparr>ToECDSA = (\<lambda>bs. if length bs = 20 then Some (be_val bs) else None), KeyAddress = (\<lambda>k. k),
     HexToAddress = (\<lambda>t. case hex_DecodeString (drop 2 t) of None \<Rightarrow> 0 | Some bs \<Rightarrow> be_val bs),
     signer_Hash = (\<lambda>cid tx. 0), crypto_Sign = (\<lambda>h k. Some (be_bytes 20 k)),
     WithSignature = (\<lambda>tx cid sig. Some (tx\<lparr>t_Hash := ucast (be_val sig :: address)\<rparr>)),
     EncodeRLP = enc_Tx,
     abi_Pack = (\<lambda>name args.
       let args = concat (map (\<lambda>a. case a of Abi_address x \<Rightarrow> replicate 12 0 @ be_bytes 20 x | Abi_bytes32 x \<Rightarrow> be_bytes 32 x
         | Abi_uint256 x \<Rightarrow> be_bytes 32 x) args)
       in map_option (\<lambda>sel. sel @ args) (map_of [(''createValidator'', SelectorCreateValidator), (''editValidator'', SelectorEditValidator),
         (''retire'', SelectorRetire), (''increaseMinGasPrice'', SelectorIncreaseMinGasPrice),
         (''decreaseMinGasPrice'', SelectorDecreaseMinGasPrice)] name))\<rparr>"

lemma dec_enc_Tx:
  assumes "enc_Tx tx = Some bs"
  shows "dec_Tx bs = Some tx"
proof -
  have "uint (word_of_int i :: u256) = i" if "0 \<le> i" "i < 2 ^ 256" for i
    using that by (simp add: uint_word_of_int take_bit_int_eq_self)
  then show ?thesis
    using assms by (cases tx) (auto simp: enc_Tx_def dec_Tx_def nth_append split: if_splits option.splits)
qed

interpretation mwl: wallet_laws mem_wallet "map_check dec_Tx" chainID for chainID
proof
  show "EncodeRLP mem_wallet tx = Some bs \<Longrightarrow> DecodeRLP (map_check dec_Tx) bs = Some tx" for tx bs
    by (simp add: mem_wallet_def map_check_def dec_enc_Tx)
  have "ucast (ucast (a :: address) :: bytes32) = a" for a
    by (rule bit_word_eqI) (auto simp: bit_ucast_iff dest: bit_imp_le_length)
  then show "Signer_Sender (map_check dec_Tx) tx' = Some (KeyAddress mem_wallet key) \<and>
      (\<exists>h v r q. tx' = tx\<lparr>t_Hash := h, t_V := v, t_R := r, t_S := q\<rparr>)"
    if "crypto_Sign mem_wallet (signer_Hash mem_wallet (uint chainID) tx) key = Some sig"
      "WithSignature mem_wallet tx (uint chainID) sig = Some tx'" for tx key sig tx'
    using that by (cases tx) (auto simp: mem_wallet_def map_check_def)
qed (simp_all add: mem_wallet_def)

text \<open>The validator of the examples registers with 500 coins; the chain has the identifier \<open>0x2710\<close>.\<close>

definition create_flags :: staking_flags where
  "create_flags = (default_flags ''0x0000000000000000000000000000000000000007'' 3 ''0x2710'' ''create'')\<lparr>
     fl_StakingCoin := ''500'', fl_Introduction := ''my node'', fl_ConsPubKey := ''4d''\<rparr>"

lemma create_flags_parse:
  "parseChainID (fl_ChainId create_flags) = Some 0x2710" "ParseU256 (fl_StakingCoin create_flags) = Some 500"
  "HexToPubKey (fl_ConsPubKey create_flags) = Some [0x4d]" "HexToPrivKey mem_wallet (fl_ValKey create_flags) = Some 7"
  by (simp_all add: create_flags_def default_flags_def parseChainID_def ParseUint_def char_digit_def ParseU256_def big_SetString_base_def
      HexToPubKey_def HexToPrivKey_def TrimSpace_def is_space_def fromHexChar_def mem_wallet_def be_val_def Let_def)

lemma create_flags_prints: "\<exists>out. StakingCmd mem_wallet create_flags = Some (Inr out)"
proof -
  have "\<exists>out. printSignedTx mem_wallet create_flags 500 data k cid = Inr out" for data k cid
    by (simp add: printSignedTx_def SignTx_def create_flags_def default_flags_def mem_wallet_def enc_Tx_def Let_def)
  moreover have "fl_Type create_flags = ''create''" "fl_ConsPubKey create_flags \<noteq> []"
    by (simp_all add: create_flags_def default_flags_def)
  ultimately show ?thesis
    using mwl.pack_create by (simp add: StakingCmd_def create_flags_parse pack_defs Let_def)
qed

theorem staking_command_performs_witness:
  "\<exists>out key opn z tx. StakingCmd mem_wallet create_flags = Some (Inr out) \<and> asked mem_wallet create_flags key opn z
     \<and> Option.bind (hex_DecodeString (drop 2 out)) dec_Tx = Some tx \<and> t_Value tx = z mod 2 ^ 256
     \<and> Execute mem_ext sample_state 0 \<lparr>tx_From = key, tx_Value = word_of_int z, tx_Data = t_Data tx\<rparr>
       = perform mem_ext sample_state \<lparr>tx_From = key, tx_Value = word_of_int z, tx_Data = t_Data tx\<rparr>
           (recorded mem_ext (ss_ctx sample_state) opn)"
proof -
  obtain out where out: "StakingCmd mem_wallet create_flags = Some (Inr out)" using create_flags_prints by blast
  have "DecodeRLP (map_check dec_Tx) = dec_Tx" "KeyAddress mem_wallet = (\<lambda>k. k)" by (simp_all add: map_check_def mem_wallet_def)
  then show ?thesis
    using staking_command_performs [OF mwl.wallet_laws_axioms out create_flags_parse(1), where ?'c = mem_ctx and ?'a = mem_acc] out
    unfolding Let_def by auto blast
qed

text \<open>What was asked for in the example: a validator with the text \<open>my node\<close>; with no text it would get 32 zero bytes.\<close>

lemma create_flags_asked:
  "asked mem_wallet create_flags 7 (OpCreate 7 (str_bytes ''my node'') (be_val (0x4d # replicate 31 0))) 500"
  "recorded E c (OpCreate 7 [] pk) = OpCreate 7 (replicate 32 0) pk"
proof -
  have "spells_nat 10 ''500'' 500" by (simp add: spells_nat_def char_digit_def eval_nat_numeral)
  then have "amount_typed ''500'' 500" using amount_typedI [of "[]" 10 "''500''" 500 "[]" 500] by simp
  moreover have "spells_bytes ''4d'' [0x4d]" by (simp add: spells_bytes_def char_digit_def)
  then have "bytes_typed ''4d'' [0x4d]" using bytes_typedI [of "[]" "[]" "[]" "''4d''"] by simp
  ultimately show "asked mem_wallet create_flags 7 (OpCreate 7 (str_bytes ''my node'') (be_val (0x4d # replicate 31 0))) 500"
    by (auto simp: asked_def create_flags_def default_flags_def str_bytes_def TrimRight0_def mem_wallet_def Let_def)
qed (simp add: recorded_def)

theorem staking_command_underpriced_witness:
  "\<exists>out req. StakingCmd mem_wallet create_flags = Some (Inr out) \<and> hex_DecodeString (drop 2 out) = Some req
     \<and> rc_Code (snd (CheckTx id (map_check dec_Tx) mem_ext sample_check_ctx sample_app False req)) \<noteq> CodeTypeOK"
proof -
  obtain out where out: "StakingCmd mem_wallet create_flags = Some (Inr out)" using create_flags_prints by blast
  obtain key val data where "printSignedTx mem_wallet create_flags val data key 0x2710 = Inr out"
    using StakingCmd_prints [OF out create_flags_parse(1)] by blast
  from mwl.printed [OF this] obtain req where req: "hex_DecodeString (drop 2 out) = Some req"
    by (cases "hex_DecodeString (drop 2 out)") auto
  have g: "fl_GasPrice create_flags = fl_GasPrice (default_flags [] 0 [] [])" "ap_lastMinGasPrice sample_app = DefaultMinGasPrice"
    by (simp_all add: create_flags_def default_flags_def sample_app_def DefaultMinGasPrice_def)
  show ?thesis
    by (intro exI conjI, rule out, rule req, rule staking_command_underpriced [OF mwl.wallet_laws_axioms out create_flags_parse(1) g req])
qed

text \<open>
  \<open>zeniqsmartd init\<close> without \<open>--chain-id\<close> writes the identifier \<open>test-chain\<close>, which the start of the
  node does not accept.
\<close>

lemma init_chain_id: "parseChainID ''test-chain'' = None"
  by (simp add: parseChainID_def)

lemma ParseU256_negative: "ParseU256 ''-1'' = Some (2 ^ 256 - 1)"
  by (simp add: ParseU256_def big_SetString_base_def char_digit_def)

end
