(* ===== verification/Node_Genesis.thy ===== *)
theory Node_Genesis
  imports Node_Staking App_Genesis
begin

text \<open>
  The commands that make a genesis file (\<open>src/cmd/zeniqsmartd/genesis_validator.go\<close>, \<open>init.go\<close>,
  \<open>testnet.go\<close>, \<open>internal/testutils/key.go\<close>) and what the start of the node reads from it
  (\<open>start.go\<close>). JSON, the files and checks of Tendermint and the texts of its addresses are
  functions of the record \<open>genesis_ext\<close>; the locale \<open>genesis_laws\<close> says that what was written is
  read back. The keys of the nodes of a test network, its identifier and its monikers come from
  a source of random bytes and are arguments. \<open>None\<close> is a panic or the end of the process.
\<close>

record tm_Validator =
  tv_Address :: address
  tv_PubKey :: bytes32
  tv_Power :: i64
  tv_Name :: string

record GenesisDoc =
  gx_ChainID :: string
  gx_InitialHeight :: i64
  gx_Validators :: "tm_Validator list"
  gx_AppState :: bytes

record 'f genesis_ext =
  json_Validator :: "Validator \<Rightarrow> bytes"
  unjson_Validator :: "bytes \<Rightarrow> Validator option"
  json_Genesis :: "GenesisData \<Rightarrow> bytes option"
  unjson_Genesis :: "bytes \<Rightarrow> GenesisData option"
  ValidateAndComplete :: "GenesisDoc \<Rightarrow> GenesisDoc option"
  doc_SaveAs :: "GenesisDoc \<Rightarrow> 'f option"
  GenesisDocFromFile :: "'f \<Rightarrow> GenesisDoc option"
  HexBytes_String :: "bytes \<Rightarrow> string"
  HexToHash :: "string \<Rightarrow> bytes32"

datatype genesis_error = GenesisPubkeyError | GenesisCoinError | GenesisHexError | GenesisJsonError | GenesisFileError
  | GenesisFileExists | GenesisKeyError | InvalidInitBalance | WrongHostnames

definition zero_doc :: GenesisDoc where
  "zero_doc = \<lparr>gx_ChainID = [], gx_InitialHeight = 0, gx_Validators = [], gx_AppState = []\<rparr>"

definition ExportGenesisFile :: "'f genesis_ext \<Rightarrow> GenesisDoc \<Rightarrow> genesis_error + 'f" where
  "ExportGenesisFile G genDoc = (case ValidateAndComplete G genDoc of
       None \<Rightarrow> Inl GenesisFileError
     | Some genDoc \<Rightarrow> (case doc_SaveAs G genDoc of None \<Rightarrow> Inl GenesisFileError | Some f \<Rightarrow> Inr f))"

text \<open>The document of a file, the empty one when there is none.\<close>

definition load_doc :: "'f genesis_ext \<Rightarrow> 'f option \<Rightarrow> genesis_error + GenesisDoc" where
  "load_doc G genFile = (case genFile of
       None \<Rightarrow> Inr zero_doc
     | Some f \<Rightarrow> (case GenesisDocFromFile G f of None \<Rightarrow> Inl GenesisFileError | Some d \<Rightarrow> Inr d))"

subsection \<open>Validators\<close>

record genesis_flags =
  gf_Address :: string
  gf_ConsPubKey :: string
  gf_VotingPower :: i64
  gf_StakingCoin :: string
  gf_Introduction :: string

definition GenerateGenesisValidatorCmd :: "'k wallet \<Rightarrow> 'f genesis_ext \<Rightarrow> genesis_flags \<Rightarrow> genesis_error + string" where
  "GenerateGenesisValidatorCmd W G fl =
     (let addr = HexToAddress W (gf_Address fl) in
      case HexToPubKey (gf_ConsPubKey fl) of None \<Rightarrow> Inl GenesisPubkeyError | Some pubKey \<Rightarrow>
      case ParseU256 (gf_StakingCoin fl) of None \<Rightarrow> Inl GenesisCoinError | Some sCoin \<Rightarrow>
      let genVal = \<lparr>v_Address = addr, v_Pubkey = be_val (copy_to (replicate 32 0) pubKey), v_RewardTo = addr,
            v_VotingPower = gf_VotingPower fl, v_Introduction = str_bytes (gf_Introduction fl), v_StakedCoins = sCoin,
            v_IsRetiring = False\<rparr>
      in Inr (hex_EncodeToString (json_Validator G genVal)))"

definition AddGenesisValidatorCmd :: "('c, 'a) ext \<Rightarrow> 'f genesis_ext \<Rightarrow> string \<Rightarrow> 'f option \<Rightarrow> genesis_error + 'f" where
  "AddGenesisValidatorCmd E G arg genFile =
     (case hex_DecodeString (TrimSpace arg) of None \<Rightarrow> Inl GenesisHexError | Some info \<Rightarrow>
      case unjson_Validator G info of None \<Rightarrow> Inl GenesisJsonError | Some v \<Rightarrow>
      case load_doc G genFile of Inl err \<Rightarrow> Inl err | Inr genDoc \<Rightarrow>
      case unjson_Genesis G (gx_AppState genDoc) of None \<Rightarrow> Inl GenesisJsonError | Some gData \<Rightarrow>
      case json_Genesis G (gData\<lparr>gd_Validators := gd_Validators gData @ [FromStakingValidator E v]\<rparr>) of
        None \<Rightarrow> Inl GenesisJsonError
      | Some appState \<Rightarrow> ExportGenesisFile G (genDoc\<lparr>gx_AppState := appState\<rparr>))"

subsection \<open>A new file\<close>

text \<open>\<open>strings.Split\<close> by a character and \<open>strings.Index\<close>.\<close>

fun split_on :: "char \<Rightarrow> string \<Rightarrow> string list" where
  "split_on c [] = [[]]"
| "split_on c (x # s) = (if x = c then [] # split_on c s else (case split_on c s of t # ts \<Rightarrow> (x # t) # ts | [] \<Rightarrow> [[x]]))"

definition str_index :: "char \<Rightarrow> string \<Rightarrow> nat option" where
  "str_index c s = (if c \<in> set s then Some (length (takeWhile (\<lambda>x. x \<noteq> c) s)) else None)"

definition ParseInt32 :: "string \<Rightarrow> int option" where
  "ParseInt32 s = (case big_SetString_base 10 s of
     None \<Rightarrow> None | Some i \<Rightarrow> if - (2 ^ 31) \<le> i \<and> i < 2 ^ 31 then Some i else None)"

text \<open>\<open>lines\<close> are the lines of a file, \<open>None\<close> when it cannot be opened.\<close>

definition ReadKeysFromFile :: "(string \<Rightarrow> string list option) \<Rightarrow> string \<Rightarrow> int \<Rightarrow> string list option" where
  "ReadKeysFromFile lines fname num = map_option (take (nat num)) (lines fname)"

definition file_keys :: "(string \<Rightarrow> string list option) \<Rightarrow> string \<Rightarrow> string list option" where
  "file_keys lines testKeyFile = (case str_index CHR '':'' testKeyFile of
       Some idx \<Rightarrow> if idx > 0
         then do { n \<leftarrow> ParseInt32 (drop (idx + 1) testKeyFile); ReadKeysFromFile lines (take idx testKeyFile) n }
         else ReadKeysFromFile lines testKeyFile (2 ^ 31 - 1)
     | None \<Rightarrow> ReadKeysFromFile lines testKeyFile (2 ^ 31 - 1))"

definition getTestKeys :: "(string \<Rightarrow> string list option) \<Rightarrow> string \<Rightarrow> string \<Rightarrow> string list option" where
  "getTestKeys lines testKeysCSV testKeyFiles =
     (if testKeysCSV \<noteq> [] then Some (split_on CHR '','' testKeysCSV)
      else if testKeyFiles \<noteq> []
      then foldM (\<lambda>allKeys f. do { keys \<leftarrow> file_keys lines f; Some (allKeys @ keys) }) [] (split_on CHR '','' testKeyFiles)
      else Some [])"

definition KeysToGenesisAlloc :: "'k wallet \<Rightarrow> u256 \<Rightarrow> string list \<Rightarrow> (address \<times> int) list option" where
  "KeysToGenesisAlloc W balance keys = foldM (\<lambda>alloc hexKey. do {
     privKey \<leftarrow> HexToPrivKey W hexKey;
     Some (AList.update (KeyAddress W privKey) (uint balance) alloc) }) [] keys"

record init_flags =
  if_ChainID :: string
  if_Overwrite :: bool
  if_InitBal :: string
  if_TestKeys :: string
  if_TestKeysFile :: string

definition getAppState :: "'k wallet \<Rightarrow> 'f genesis_ext \<Rightarrow> (string \<Rightarrow> string list option) \<Rightarrow> init_flags \<Rightarrow> (genesis_error + bytes) option" where
  "getAppState W G lines fl = (case ParseU256 (if_InitBal fl) of
       None \<Rightarrow> Some (Inl InvalidInitBalance)
     | Some initBal \<Rightarrow> do {
         testKeys \<leftarrow> getTestKeys lines (if_TestKeys fl) (if_TestKeysFile fl);
         alloc \<leftarrow> KeysToGenesisAlloc W initBal testKeys;
         Some (case json_Genesis G \<lparr>gd_Validators = [], gd_Alloc = alloc\<rparr> of None \<Rightarrow> Inl GenesisJsonError | Some b \<Rightarrow> Inr b) })"

text \<open>\<open>nodeID\<close> is the identifier of the key of the node, \<open>None\<close> when its file cannot be used.\<close>

definition InitCmd :: "'k wallet \<Rightarrow> 'f genesis_ext \<Rightarrow> (string \<Rightarrow> string list option) \<Rightarrow> string option \<Rightarrow> init_flags \<Rightarrow> 'f option \<Rightarrow>
    (genesis_error + 'f) option" where
  "InitCmd W G lines nodeID fl genFile =
     (let chainID = (if if_ChainID fl = [] then ''test-chain'' else if_ChainID fl) in
      case nodeID of None \<Rightarrow> Some (Inl GenesisKeyError) | Some _ \<Rightarrow>
      if \<not> if_Overwrite fl \<and> genFile \<noteq> None then Some (Inl GenesisFileExists)
      else case load_doc G genFile of Inl err \<Rightarrow> Some (Inl err) | Inr genDoc \<Rightarrow> do {
        appState \<leftarrow> getAppState W G lines fl;
        Some (case appState of
            Inl err \<Rightarrow> Inl err
          | Inr bs \<Rightarrow> ExportGenesisFile G (genDoc\<lparr>gx_ChainID := chainID, gx_AppState := bs\<rparr>)) })"

definition getChainID :: "'f genesis_ext \<Rightarrow> 'f \<Rightarrow> u256 option" where
  "getChainID G genFile = do { gDoc \<leftarrow> GenesisDocFromFile G genFile; parseChainID (gx_ChainID gDoc) }"

subsection \<open>Test networks\<close>

fun dec_digits :: "nat \<Rightarrow> string" where
  "dec_digits n = (if n < 10 then [''0123456789'' ! n] else dec_digits (n div 10) @ [''0123456789'' ! (n mod 10)])"

declare dec_digits.simps [simp del]

record testnet_flags =
  tf_nValidators :: nat
  tf_nNonValidators :: nat
  tf_nodeDirPrefix :: string
  tf_initialHeight :: i64
  tf_populatePersistentPeers :: bool
  tf_hostnamePrefix :: string
  tf_hostnameSuffix :: string
  tf_startingIPAddress :: string
  tf_hostnames :: "string list"
  tf_p2pPort :: nat
  tf_randomMonikers :: bool

text \<open>The keys, random bytes and texts of network addresses.\<close>

record testnet_env =
  te_PubKey :: "nat \<Rightarrow> bytes32"
  te_NodeID :: "nat \<Rightarrow> string option"
  te_Random6 :: bytes
  te_Random8 :: "nat \<Rightarrow> bytes"
  te_ParseIP4 :: "string \<Rightarrow> (u8 \<times> u8 \<times> u8 \<times> u8) option"
  te_IP_String :: "u8 \<times> u8 \<times> u8 \<times> u8 \<Rightarrow> string"
  te_IDAddressString :: "string \<Rightarrow> string \<Rightarrow> string"

definition fromGenesisValidator :: "'k wallet \<Rightarrow> 'f genesis_ext \<Rightarrow> tm_Validator \<Rightarrow> app_Validator" where
  "fromGenesisValidator W G v = \<lparr>av_Address = HexToAddress W (HexBytes_String G (be_bytes 20 (tv_Address v))),
     av_Pubkey = HexToHash G (hex_EncodeToString (be_bytes 32 (tv_PubKey v))),
     av_RewardTo = HexToAddress W (HexBytes_String G (be_bytes 20 (tv_Address v))), av_VotingPower = 1,
     av_Introduction = str_bytes (tv_Name v), av_StakedCoins = 0, av_IsRetiring = False, av_MinerAddress = tv_Address v\<rparr>"

definition hostnameOrIP :: "testnet_env \<Rightarrow> testnet_flags \<Rightarrow> nat \<Rightarrow> string option" where
  "hostnameOrIP T fl i =
     (if i < length (tf_hostnames fl) then Some (tf_hostnames fl ! i)
      else if tf_startingIPAddress fl = [] then Some (tf_hostnamePrefix fl @ dec_digits i @ tf_hostnameSuffix fl)
      else do { (a, b, c, d) \<leftarrow> te_ParseIP4 T (tf_startingIPAddress fl); Some (te_IP_String T (a, b, c, d + of_nat i)) })"

fun str_join :: "string \<Rightarrow> string list \<Rightarrow> string" where
  "str_join sep [] = []"
| "str_join sep [s] = s"
| "str_join sep (s # t # ts) = s @ sep @ str_join sep (t # ts)"

definition persistentPeersString :: "testnet_env \<Rightarrow> testnet_flags \<Rightarrow> (genesis_error + string) option" where
  "persistentPeersString T fl = foldM (\<lambda>acc i. case acc of
       Inl err \<Rightarrow> Some (Inl err)
     | Inr ps \<Rightarrow> (case te_NodeID T i of
           None \<Rightarrow> Some (Inl GenesisKeyError)
         | Some nid \<Rightarrow> do { host \<leftarrow> hostnameOrIP T fl i;
             Some (Inr (ps @ [te_IDAddressString T nid (host @ '':'' @ dec_digits (tf_p2pPort fl))])) }))
     (Inr []) [0..<tf_nValidators fl + tf_nNonValidators fl] \<bind> (\<lambda>r. Some (map_sum id (str_join '','') r))"

definition randomMoniker :: "'f genesis_ext \<Rightarrow> testnet_env \<Rightarrow> nat \<Rightarrow> string" where
  "randomMoniker G T i = HexBytes_String G (te_Random8 T i)"

definition moniker :: "'f genesis_ext \<Rightarrow> testnet_env \<Rightarrow> testnet_flags \<Rightarrow> nat \<Rightarrow> string" where
  "moniker G T fl i =
     (if tf_randomMonikers fl then randomMoniker G T i
      else if i < length (tf_hostnames fl) then tf_hostnames fl ! i
      else if tf_startingIPAddress fl = [] then tf_hostnamePrefix fl @ dec_digits i @ tf_hostnameSuffix fl
      else randomMoniker G T i)"

definition randomChainID :: "'f genesis_ext \<Rightarrow> testnet_env \<Rightarrow> string" where
  "randomChainID G T = ''0x'' @ HexBytes_String G (te_Random6 T)"

record 'f testnet_node =
  tn_Genesis :: 'f
  tn_PersistentPeers :: string
  tn_Moniker :: string
  tn_App :: string

text \<open>What each directory holds in the end; \<open>peers0\<close> is the list of peers of the default configuration.\<close>

definition testnet_genesis :: "'k wallet \<Rightarrow> ('c, 'a) ext \<Rightarrow> 'f genesis_ext \<Rightarrow> testnet_env \<Rightarrow> testnet_flags \<Rightarrow> GenesisDoc" where
  "testnet_genesis W E G T fl =
     (let genVals = map (\<lambda>i. \<lparr>tv_Address = Ed25519Address E (te_PubKey T i), tv_PubKey = te_PubKey T i, tv_Power = 1,
            tv_Name = tf_nodeDirPrefix fl @ dec_digits i\<rparr>) [0..<tf_nValidators fl];
          genesisData = \<lparr>gd_Validators = map (fromGenesisValidator W G) genVals,
            gd_Alloc = [(0xf96ae03f3637e3195ebcb85f0043052338196e57, 21 * 10 ^ 24)]\<rparr>
      in \<lparr>gx_ChainID = randomChainID G T, gx_InitialHeight = tf_initialHeight fl, gx_Validators = genVals,
          gx_AppState = (case json_Genesis G genesisData of None \<Rightarrow> [] | Some b \<Rightarrow> b)\<rparr>)"

definition testnetFiles :: "'k wallet \<Rightarrow> ('c, 'a) ext \<Rightarrow> 'f genesis_ext \<Rightarrow> testnet_env \<Rightarrow> (string list \<Rightarrow> string) \<Rightarrow> string \<Rightarrow>
    string \<Rightarrow> testnet_flags \<Rightarrow> (genesis_error + 'f testnet_node list) option" where
  "testnetFiles W E G T Join defaultHome peers0 fl =
     (let n = tf_nValidators fl + tf_nNonValidators fl in
      if tf_hostnames fl \<noteq> [] \<and> length (tf_hostnames fl) \<noteq> n then Some (Inl WrongHostnames)
      else case doc_SaveAs G (testnet_genesis W E G T fl) of None \<Rightarrow> Some (Inl GenesisFileError) | Some gen \<Rightarrow> do {
        peers \<leftarrow> (if tf_populatePersistentPeers fl then persistentPeersString T fl else Some (Inr peers0));
        Some (case peers of
            Inl err \<Rightarrow> Inl err
          | Inr ps \<Rightarrow> Inr (map (\<lambda>i. \<lparr>tn_Genesis = gen, tn_PersistentPeers = ps, tn_Moniker = moniker G T fl i,
              tn_App = config_file (DefaultAppConfigWithHome Join defaultHome [])\<rparr>) [0..<n])) })"

subsection \<open>What is read back\<close>

definition ascii :: "bytes \<Rightarrow> bool" where "ascii bs \<longleftrightarrow> (\<forall>b \<in> set bs. b < 128)"

text \<open>The checks of a genesis document: its identifier, its height, and the keys of its validators.\<close>

definition acceptable :: "('c, 'a) ext \<Rightarrow> GenesisDoc \<Rightarrow> bool" where
  "acceptable E d \<longleftrightarrow> gx_ChainID d \<noteq> [] \<and> length (gx_ChainID d) \<le> 50 \<and> 0 \<le> sint (gx_InitialHeight d) \<and>
     (\<forall>v \<in> set (gx_Validators d). tv_Power v \<noteq> 0 \<and> tv_Address v = Ed25519Address E (tv_PubKey v))"

definition printable :: "GenesisData \<Rightarrow> bool" where
  "printable g \<longleftrightarrow> (\<forall>v \<in> set (gd_Validators g). ascii (av_Introduction v)) \<and> distinct (map fst (gd_Alloc g)) \<and>
     (\<forall>(a, b) \<in> set (gd_Alloc g). 0 \<le> b \<and> b < 2 ^ 256)"

definition same_genesis :: "GenesisData \<Rightarrow> GenesisData \<Rightarrow> bool" where
  "same_genesis g h \<longleftrightarrow> gd_Validators g = gd_Validators h \<and> map_of (gd_Alloc g) = map_of (gd_Alloc h) \<and> printable g"

locale genesis_laws =
  fixes W :: "'k wallet" and E :: "('c, 'a) ext" and G :: "'f genesis_ext"
  assumes validator_json: "ascii (v_Introduction v) \<Longrightarrow> unjson_Validator G (json_Validator G v) = Some v"
    and genesis_json: "printable g \<Longrightarrow> \<exists>b h. json_Genesis G g = Some b \<and> unjson_Genesis G b = Some h \<and> same_genesis h g"
    and completed: "acceptable E d \<Longrightarrow> \<exists>d'. ValidateAndComplete G d = Some d' \<and> acceptable E d' \<and>
      gx_ChainID d' = gx_ChainID d \<and> gx_Validators d' = gx_Validators d \<and> gx_AppState d' = gx_AppState d"
    and saved: "acceptable E d \<Longrightarrow> doc_SaveAs G d = Some f \<Longrightarrow> \<exists>d'. GenesisDocFromFile G f = Some d' \<and> acceptable E d' \<and>
      gx_ChainID d' = gx_ChainID d \<and> gx_Validators d' = gx_Validators d \<and>
      unjson_Genesis G (gx_AppState d') = unjson_Genesis G (gx_AppState d)"
    and writable: "doc_SaveAs G d \<noteq> None"
    and hex_texts: "HexToAddress W (HexBytes_String G (be_bytes 20 a)) = a" "HexToHash G (hex_EncodeToString (be_bytes 32 k)) = k"
      "bs \<noteq> [] \<Longrightarrow> length bs \<le> 8 \<Longrightarrow> ParseUint 16 (HexBytes_String G bs) = Some (be_val bs)"
      "length (HexBytes_String G bs) = 2 * length bs"

text \<open>A file holds an identifier, validators and an allocation.\<close>

definition holds :: "('c, 'a) ext \<Rightarrow> 'f genesis_ext \<Rightarrow> 'f \<Rightarrow> string \<Rightarrow> GenesisData \<Rightarrow> bool" where
  "holds E G f cid g \<longleftrightarrow> (\<exists>d h. GenesisDocFromFile G f = Some d \<and> acceptable E d \<and> gx_ChainID d = cid \<and>
     unjson_Genesis G (gx_AppState d) = Some h \<and> same_genesis h g)"

text \<open>The validator that the flags describe, and adding several ones after each other.\<close>

definition described :: "'k wallet \<Rightarrow> genesis_flags \<Rightarrow> Validator" where
  "described W fl = \<lparr>v_Address = HexToAddress W (gf_Address fl),
     v_Pubkey = be_val (copy_to (replicate 32 0) (the (HexToPubKey (gf_ConsPubKey fl)))), v_RewardTo = HexToAddress W (gf_Address fl),
     v_VotingPower = gf_VotingPower fl, v_Introduction = str_bytes (gf_Introduction fl),
     v_StakedCoins = the (ParseU256 (gf_StakingCoin fl)), v_IsRetiring = False\<rparr>"

definition well_formed :: "genesis_flags \<Rightarrow> bool" where
  "well_formed fl \<longleftrightarrow> HexToPubKey (gf_ConsPubKey fl) \<noteq> None \<and> ParseU256 (gf_StakingCoin fl) \<noteq> None \<and> ascii (str_bytes (gf_Introduction fl))"

fun add_validators :: "('c, 'a) ext \<Rightarrow> 'f genesis_ext \<Rightarrow> 'f \<Rightarrow> string list \<Rightarrow> genesis_error + 'f" where
  "add_validators E G f [] = Inr f"
| "add_validators E G f (out # outs) = (case AddGenesisValidatorCmd E G out (Some f) of
     Inl err \<Rightarrow> Inl err | Inr f' \<Rightarrow> add_validators E G f' outs)"

lemma hex_EncodeToString_digits: "c \<in> set (hex_EncodeToString bs) \<Longrightarrow> c \<in> set ''0123456789abcdef''"
proof -
  assume "c \<in> set (hex_EncodeToString bs)"
  then obtain b where c: "c = hex_digit (b div 16) \<or> c = hex_digit (b mod 16)" by (auto simp: hex_EncodeToString_def)
  have "unat (b div 16) < 16" using unat_lt [of b] by (simp add: unat_div less_mult_imp_div_less)
  moreover have "unat (b mod 16) < 16" by (simp add: unat_mod)
  ultimately show ?thesis using c nth_mem [of _ "''0123456789abcdef''"] unfolding hex_digit_def by fastforce
qed

lemma dropWhile_none: "(\<And>x. x \<in> set xs \<Longrightarrow> \<not> P x) \<Longrightarrow> dropWhile P xs = xs"
  by (cases xs) simp_all

lemma TrimSpace_hex: "TrimSpace (hex_EncodeToString bs) = hex_EncodeToString bs"
proof -
  have "\<not> is_space c" if "c \<in> set (hex_EncodeToString bs)" for c
    using hex_EncodeToString_digits [OF that] by (auto simp: is_space_def)
  then have "dropWhile is_space (hex_EncodeToString bs) = hex_EncodeToString bs"
    "dropWhile is_space (rev (hex_EncodeToString bs)) = rev (hex_EncodeToString bs)" by (auto intro!: dropWhile_none)
  then show ?thesis by (simp add: TrimSpace_def)
qed

lemma generated:
  "well_formed fl \<Longrightarrow> GenerateGenesisValidatorCmd W G fl = Inr (hex_EncodeToString (json_Validator G (described W fl)))"
  by (auto simp: GenerateGenesisValidatorCmd_def described_def well_formed_def Let_def)

definition key_addresses :: "'k wallet \<Rightarrow> string list \<Rightarrow> address set" where
  "key_addresses W keys = {KeyAddress W key | k key. k \<in> set keys \<and> HexToPrivKey W k = Some key}"

lemma alloc_fold:
  assumes "foldM (\<lambda>alloc hexKey. do { privKey \<leftarrow> HexToPrivKey W hexKey; Some (AList.update (KeyAddress W privKey) b alloc) }) acc keys = Some alloc"
    and "distinct (map fst acc)"
  shows "distinct (map fst alloc) \<and> map_of alloc = (\<lambda>a. if a \<in> key_addresses W keys then Some b else map_of acc a)"
  using assms
proof (induction keys arbitrary: acc)
  case (Cons k keys)
  then obtain key where key: "HexToPrivKey W k = Some key" by (auto split: bind_splits)
  have "key_addresses W (k # keys) = insert (KeyAddress W key) (key_addresses W keys)"
    using key by (auto simp: key_addresses_def)
  then show ?case using Cons.IH [of "AList.update (KeyAddress W key) b acc"] Cons.prems key
    by (auto simp: distinct_update update_conv' fun_eq_iff)
qed (simp add: key_addresses_def)

lemma KeysToGenesisAlloc_exact:
  assumes "KeysToGenesisAlloc W b keys = Some alloc"
  shows "map_of alloc = (\<lambda>a. if a \<in> key_addresses W keys then Some (uint b) else None)"
    and "printable \<lparr>gd_Validators = [], gd_Alloc = alloc\<rparr>"
proof -
  have d: "distinct (map fst alloc)" and m: "map_of alloc = (\<lambda>a. if a \<in> key_addresses W keys then Some (uint b) else map_of [] a)"
    using alloc_fold [OF assms [unfolded KeysToGenesisAlloc_def]] by auto
  then show "map_of alloc = (\<lambda>a. if a \<in> key_addresses W keys then Some (uint b) else None)" by (simp add: fun_eq_iff)
  have "v = uint b" if "(a, v) \<in> set alloc" for a v
    using map_of_is_SomeI [OF d that] m by (auto split: if_splits)
  then show "printable \<lparr>gd_Validators = [], gd_Alloc = alloc\<rparr>"
    using d uint_lt2p [of b] by (auto simp: printable_def)
qed

context genesis_laws
begin

lemma exported:
  assumes "acceptable E d" and "unjson_Genesis G (gx_AppState d) = Some h" and "same_genesis h g"
  shows "\<exists>f. ExportGenesisFile G d = Inr f \<and> holds E G f (gx_ChainID d) g"
proof -
  obtain d' where d': "ValidateAndComplete G d = Some d'" "acceptable E d'" "gx_ChainID d' = gx_ChainID d" "gx_AppState d' = gx_AppState d"
    using completed [OF assms(1)] by blast
  obtain f where f: "doc_SaveAs G d' = Some f" using writable [of d'] by auto
  from saved [OF d'(2) f] assms(2,3) d'(3,4) have "holds E G f (gx_ChainID d) g" by (auto simp: holds_def)
  with d'(1) f show ?thesis by (auto simp: ExportGenesisFile_def)
qed

lemma initialised:
  assumes "parseChainID (if_ChainID fl) \<noteq> None" and "length (if_ChainID fl) \<le> 50" and "ParseU256 (if_InitBal fl) = Some b"
    and "getTestKeys lines (if_TestKeys fl) (if_TestKeysFile fl) = Some keys" and "KeysToGenesisAlloc W b keys = Some alloc"
  shows "\<exists>f. InitCmd W G lines (Some nid) fl None = Some (Inr f) \<and> holds E G f (if_ChainID fl) \<lparr>gd_Validators = [], gd_Alloc = alloc\<rparr>"
proof -
  obtain bs h where j: "json_Genesis G \<lparr>gd_Validators = [], gd_Alloc = alloc\<rparr> = Some bs" "unjson_Genesis G bs = Some h"
    "same_genesis h \<lparr>gd_Validators = [], gd_Alloc = alloc\<rparr>"
    using genesis_json [OF KeysToGenesisAlloc_exact(2) [OF assms(5)]] by blast
  have c: "if_ChainID fl \<noteq> []" using assms(1) by (auto simp: parseChainID_def)
  let ?d = "zero_doc\<lparr>gx_ChainID := if_ChainID fl, gx_AppState := bs\<rparr>"
  have "acceptable E ?d" using c assms(2) by (simp add: acceptable_def zero_doc_def)
  from exported [OF this _ j(3)] j(2) have "\<exists>f. ExportGenesisFile G ?d = Inr f \<and> holds E G f (if_ChainID fl) \<lparr>gd_Validators = [], gd_Alloc = alloc\<rparr>"
    by simp
  then show ?thesis using c assms(3-5) j(1) by (auto simp: InitCmd_def getAppState_def load_doc_def)
qed

lemma added:
  assumes "holds E G f cid g" and "well_formed fl" and "GenerateGenesisValidatorCmd W G fl = Inr out"
  shows "\<exists>f'. AddGenesisValidatorCmd E G out (Some f) = Inr f' \<and>
    holds E G f' cid (g\<lparr>gd_Validators := gd_Validators g @ [FromStakingValidator E (described W fl)]\<rparr>)"
proof -
  let ?v = "described W fl"
  have a: "ascii (v_Introduction ?v)" using assms(2) by (simp add: well_formed_def described_def)
  have "unjson_Validator G (json_Validator G ?v) = Some ?v" using a by (rule validator_json)
  then have v: "hex_DecodeString (TrimSpace out) = Some (json_Validator G ?v)" "unjson_Validator G (json_Validator G ?v) = Some ?v"
    using assms(3) generated [OF assms(2), of W G] by (auto simp: TrimSpace_hex hex_roundtrip)
  obtain d h where d: "GenesisDocFromFile G f = Some d" "acceptable E d" "gx_ChainID d = cid"
    "unjson_Genesis G (gx_AppState d) = Some h" "same_genesis h g"
    using assms(1) by (auto simp: holds_def)
  let ?h = "h\<lparr>gd_Validators := gd_Validators h @ [FromStakingValidator E ?v]\<rparr>"
  have "printable ?h" using d(5) a by (auto simp: same_genesis_def printable_def FromStakingValidator_def)
  then obtain bs h' where j: "json_Genesis G ?h = Some bs" "unjson_Genesis G bs = Some h'" "same_genesis h' ?h"
    using genesis_json by blast
  then have "same_genesis h' (g\<lparr>gd_Validators := gd_Validators g @ [FromStakingValidator E ?v]\<rparr>)"
    using d(5) by (simp add: same_genesis_def)
  moreover have "acceptable E (d\<lparr>gx_AppState := bs\<rparr>)" using d(2) by (simp add: acceptable_def)
  ultimately have "\<exists>f'. ExportGenesisFile G (d\<lparr>gx_AppState := bs\<rparr>) = Inr f' \<and>
      holds E G f' cid (g\<lparr>gd_Validators := gd_Validators g @ [FromStakingValidator E ?v]\<rparr>)"
    using exported [of "d\<lparr>gx_AppState := bs\<rparr>"] j(2) d(3) by simp
  then show ?thesis using v d(1,4) j(1) by (auto simp: AddGenesisValidatorCmd_def load_doc_def)
qed

lemma all_added:
  assumes "holds E G f cid g" and "list_all well_formed fls"
  shows "\<exists>outs f'. map (GenerateGenesisValidatorCmd W G) fls = map Inr outs \<and> add_validators E G f outs = Inr f' \<and>
    holds E G f' cid (g\<lparr>gd_Validators := gd_Validators g @ FromStakingValidators E (map (described W) fls)\<rparr>)"
  using assms
proof (induction fls arbitrary: f g)
  case Nil
  then show ?case by (intro exI [of _ "[]"] exI [of _ f]) (simp add: FromStakingValidators_def)
next
  case (Cons fl fls)
  then have wf: "well_formed fl" "list_all well_formed fls" by simp_all
  obtain out where out: "GenerateGenesisValidatorCmd W G fl = Inr out" using generated [OF wf(1)] by blast
  let ?g = "g\<lparr>gd_Validators := gd_Validators g @ [FromStakingValidator E (described W fl)]\<rparr>"
  obtain f1 where f1: "AddGenesisValidatorCmd E G out (Some f) = Inr f1" "holds E G f1 cid ?g"
    using added [OF Cons.prems(1) wf(1) out] by blast
  obtain outs f' where "map (GenerateGenesisValidatorCmd W G) fls = map Inr outs" "add_validators E G f1 outs = Inr f'"
    "holds E G f' cid (?g\<lparr>gd_Validators := gd_Validators ?g @ FromStakingValidators E (map (described W) fls)\<rparr>)"
    using Cons.IH [OF f1(2) wf(2)] by blast
  then show ?case using out f1(1)
    by (intro exI [of _ "out # outs"] exI [of _ f']) (simp add: FromStakingValidators_def)
qed

end
subsection \<open>Starting from the file\<close>

lemma genesis_starts:
  assumes "chain_ctx E" and "is_iter it" and "holds E G f cid g" and "gd_Validators g \<noteq> []" and "storable_validators (StakingValidators g)"
    and "GetStorageAt E (ss_ctx s) StakingContractSequence SlotStakingInfo = None"
  shows "\<exists>d info t. GenesisDocFromFile G f = Some d \<and> gx_ChainID d = cid \<and> InitChain E it s (unjson_Genesis G (gx_AppState d)) =
        Some (map (\<lambda>v. (v_Pubkey v, v_VotingPower v)) (GetActiveValidators (StakingValidators g) MinimumStakingAmount), t) \<and>
      LoadStakingInfo E (ss_ctx t) = Some info \<and> si_Validators info = StakingValidators g \<and>
      (\<forall>a. bal E (ss_ctx t) a = (case map_of (gd_Alloc g) a of None \<Rightarrow> bal E (ss_ctx s) a | Some v \<Rightarrow> word_of_int v))"
proof -
  obtain d h where d: "GenesisDocFromFile G f = Some d" "gx_ChainID d = cid" "unjson_Genesis G (gx_AppState d) = Some h" "same_genesis h g"
    using assms(3) by (auto simp: holds_def)
  then have h: "StakingValidators h = StakingValidators g" "gd_Validators h \<noteq> []" "map_of (gd_Alloc h) = map_of (gd_Alloc g)" "distinct (map fst (gd_Alloc h))"
    using assms(4) by (simp_all add: same_genesis_def printable_def StakingValidators_def)
  have "storable_validators (StakingValidators h)" using assms(5) h(1) by simp
  from InitChain_correct [OF assms(1,2) h(4) assms(6) this] h(2) show ?thesis
    unfolding if_not_P [OF h(2)] h(1,3) d(3) [symmetric] using d(1,2) by metis
qed

lemma getChainID_holds: "holds E G f cid g \<Longrightarrow> getChainID G f = parseChainID cid"
  by (auto simp: holds_def getChainID_def)

lemma KeysToGenesisAlloc_total: "(\<forall>k \<in> set keys. HexToPrivKey W k \<noteq> None) \<Longrightarrow> \<exists>alloc. KeysToGenesisAlloc W b keys = Some alloc"
  unfolding KeysToGenesisAlloc_def using foldM_total [where I = "\<lambda>_. True"] by (metis (no_types, lifting) bind.bind_lunit not_None_eq)

text \<open>
  C33: The commands compose: a file made by \<open>init\<close>, to which the outputs of
  \<open>generate-genesis-validator\<close> are added one after the other, starts a chain with the identifier
  given to \<open>init\<close>, whose registry holds exactly the validators of the flags, in the order they
  were added, which reports the active ones of them to Tendermint, and in which every test key
  has the initial balance and no other address gets coins. None of the commands fails when the
  flags can be parsed.
\<close>

theorem genesis_commands_start:
  assumes "genesis_laws W E G" and "chain_ctx E" and "is_iter it" and cid: "parseChainID (if_ChainID fl) = Some cid" "length (if_ChainID fl) \<le> 50"
    and bal: "ParseU256 (if_InitBal fl) = Some b" and keys: "getTestKeys lines (if_TestKeys fl) (if_TestKeysFile fl) = Some keys"
      "\<forall>k \<in> set keys. HexToPrivKey W k \<noteq> None"
    and vfs: "vfs \<noteq> []" "list_all well_formed vfs" "storable_validators (map (described W) vfs)"
    and empty: "GetStorageAt E (ss_ctx s) StakingContractSequence SlotStakingInfo = None"
  shows "\<exists>f outs f' d info t. InitCmd W G lines (Some nid) fl None = Some (Inr f)
    \<and> map (GenerateGenesisValidatorCmd W G) vfs = map Inr outs \<and> add_validators E G f outs = Inr f'
    \<and> getChainID G f' = Some cid \<and> GenesisDocFromFile G f' = Some d
    \<and> InitChain E it s (unjson_Genesis G (gx_AppState d)) = Some (map (\<lambda>v. (v_Pubkey v, v_VotingPower v))
        (GetActiveValidators (map (described W) vfs) MinimumStakingAmount), t)
    \<and> LoadStakingInfo E (ss_ctx t) = Some info \<and> si_Validators info = map (described W) vfs
    \<and> (\<forall>a. bal E (ss_ctx t) a = (if a \<in> key_addresses W keys then b else bal E (ss_ctx s) a))"
proof -
  obtain alloc where alloc: "KeysToGenesisAlloc W b keys = Some alloc" using KeysToGenesisAlloc_total [OF keys(2)] by blast
  have "parseChainID (if_ChainID fl) \<noteq> None" using cid(1) by simp
  then obtain f where f: "InitCmd W G lines (Some nid) fl None = Some (Inr f)" "holds E G f (if_ChainID fl) \<lparr>gd_Validators = [], gd_Alloc = alloc\<rparr>"
    using genesis_laws.initialised [OF assms(1) _ cid(2) bal keys(1) alloc] by blast
  let ?g = "\<lparr>gd_Validators = FromStakingValidators E (map (described W) vfs), gd_Alloc = alloc\<rparr>"
  obtain outs f' where add: "map (GenerateGenesisValidatorCmd W G) vfs = map Inr outs" "add_validators E G f outs = Inr f'"
    and h: "holds E G f' (if_ChainID fl) ?g"
    using genesis_laws.all_added [OF assms(1) f(2) vfs(2)] by auto
  have g: "gd_Validators ?g \<noteq> []" using vfs(1) by (simp add: FromStakingValidators_def)
  have "storable_validators (StakingValidators ?g)" using vfs(3) by (simp add: StakingValidators_roundtrip)
  from genesis_starts [OF assms(2,3) h g this empty]
  obtain d info t where run: "GenesisDocFromFile G f' = Some d" "InitChain E it s (unjson_Genesis G (gx_AppState d)) =
      Some (map (\<lambda>v. (v_Pubkey v, v_VotingPower v)) (GetActiveValidators (map (described W) vfs) MinimumStakingAmount), t)"
    "LoadStakingInfo E (ss_ctx t) = Some info" "si_Validators info = map (described W) vfs"
    "\<And>a. bal E (ss_ctx t) a = (case map_of alloc a of None \<Rightarrow> bal E (ss_ctx s) a | Some v \<Rightarrow> word_of_int v)"
    unfolding StakingValidators_roundtrip by auto
  have "bal E (ss_ctx t) a = (if a \<in> key_addresses W keys then b else bal E (ss_ctx s) a)" for a
    using run(5) [of a] KeysToGenesisAlloc_exact(1) [OF alloc] by simp
  moreover have "getChainID G f' = Some cid" using getChainID_holds [OF h] cid(1) by simp
  ultimately show ?thesis using f(1) add run(1-4) by (intro exI conjI) auto
qed
subsection \<open>Test networks\<close>

lemma dec_digits_ascii: "ascii (str_bytes (dec_digits n)) \<and> length (dec_digits n) \<le> n + 1"
proof (induction n rule: dec_digits.induct)
  case (1 n)
  have d: "ascii (str_bytes [''0123456789'' ! k])" if "k < 10" for k
  proof -
    from that have "k = 0 \<or> k = 1 \<or> k = 2 \<or> k = 3 \<or> k = 4 \<or> k = 5 \<or> k = 6 \<or> k = 7 \<or> k = 8 \<or> k = 9" by arith
    then show ?thesis by (elim disjE) (simp_all add: ascii_def str_bytes_def)
  qed
  show ?case
  proof (cases "n < 10")
    case True
    then show ?thesis using d by (simp add: dec_digits.simps [of n])
  next
    case False
    have "Suc (n div 10) \<le> n" using False by presburger
    then show ?thesis using False 1 d [of "n mod 10"]
      by (simp add: dec_digits.simps [of n] ascii_def str_bytes_def)
  qed
qed

text \<open>Validators of equal power, not more than the limit, are all active and stay in order.\<close>

lemma active_equal_power:
  assumes "\<And>v. v \<in> set vs \<Longrightarrow> v_VotingPower v = 1 \<and> \<not> v_IsRetiring v" and "length vs \<le> MaxActiveValidatorCount"
  shows "GetActiveValidators vs MinimumStakingAmount = vs"
proof -
  have "filter (is_active MinimumStakingAmount) vs = vs"
    using assms(1) by (auto simp: filter_id_conv is_active_def MinimumStakingAmount_def)
  moreover have "map (\<lambda>v. - sint (v_VotingPower v)) vs = map (\<lambda>v. - 1) vs" using assms(1) by simp
  then have "sorted (map (\<lambda>v. - sint (v_VotingPower v)) vs)" by (metis map_replicate_const sorted_replicate)
  then have "sort_key (\<lambda>v. - sint (v_VotingPower v)) vs = vs" by (rule sort_key_id_if_sorted)
  ultimately show ?thesis using assms(2) by (simp add: GetActiveValidators_eq)
qed

text \<open>The last byte of the starting address wraps around: the nodes of a large network share addresses.\<close>

lemma hostname_repeats:
  "tf_startingIPAddress fl \<noteq> [] \<Longrightarrow> length (tf_hostnames fl) \<le> i \<Longrightarrow> hostnameOrIP T fl (i + 256) = hostnameOrIP T fl i"
proof -
  have "(256 :: u8) = 0" by simp
  then have "(of_nat (i + 256) :: u8) = of_nat i" by (simp only: of_nat_add of_nat_numeral add_0_right)
  then show "tf_startingIPAddress fl \<noteq> [] \<Longrightarrow> length (tf_hostnames fl) \<le> i \<Longrightarrow> hostnameOrIP T fl (i + 256) = hostnameOrIP T fl i"
    by (simp add: hostnameOrIP_def del: of_nat_add)
qed

definition testnet_alloc :: "(address \<times> int) list" where
  "testnet_alloc = [(0xf96ae03f3637e3195ebcb85f0043052338196e57, 21 * 10 ^ 24)]"

text \<open>The validators of the application that belong to those of Tendermint.\<close>

definition node_validator :: "tm_Validator \<Rightarrow> Validator" where
  "node_validator v = \<lparr>v_Address = tv_Address v, v_Pubkey = tv_PubKey v, v_RewardTo = tv_Address v, v_VotingPower = 1,
     v_Introduction = str_bytes (tv_Name v), v_StakedCoins = 0, v_IsRetiring = False\<rparr>"

context genesis_laws
begin

lemma StakingValidators_testnet: "StakingValidators \<lparr>gd_Validators = map (fromGenesisValidator W G) vs, gd_Alloc = a\<rparr> = map node_validator vs"
  by (simp add: StakingValidators_def fromGenesisValidator_def node_validator_def hex_texts)

lemma testnet_chain_id:
  assumes "length (te_Random6 T) = 6"
  shows "parseChainID (randomChainID G T) = Some (ucast (be_val (te_Random6 T) :: u64))" and "length (randomChainID G T) = 14"
proof -
  have "te_Random6 T \<noteq> []" using assms by auto
  then show "parseChainID (randomChainID G T) = Some (ucast (be_val (te_Random6 T) :: u64))"
    using hex_texts(3) [of "te_Random6 T"] hex_texts(4) [of "te_Random6 T"] assms by (simp add: parseChainID_def randomChainID_def)
  show "length (randomChainID G T) = 14" using assms by (simp add: randomChainID_def hex_texts(4))
qed

lemma testnet_holds:
  assumes "doc_SaveAs G (testnet_genesis W E G T fl) = Some f" and "length (te_Random6 T) = 6" and "0 \<le> sint (tf_initialHeight fl)"
    and "ascii (str_bytes (tf_nodeDirPrefix fl))"
  shows "holds E G f (randomChainID G T)
      \<lparr>gd_Validators = map (fromGenesisValidator W G) (gx_Validators (testnet_genesis W E G T fl)), gd_Alloc = testnet_alloc\<rparr>"
    and "\<exists>d. GenesisDocFromFile G f = Some d \<and> gx_Validators d = gx_Validators (testnet_genesis W E G T fl)"
proof -
  let ?d = "testnet_genesis W E G T fl"
  let ?g = "\<lparr>gd_Validators = map (fromGenesisValidator W G) (gx_Validators ?d), gd_Alloc = testnet_alloc\<rparr>"
  have "ascii (str_bytes (tv_Name v))" if "v \<in> set (gx_Validators ?d)" for v
    using that assms(4) dec_digits_ascii by (auto simp: testnet_genesis_def Let_def ascii_def str_bytes_def)
  then have "printable ?g"
    by (auto simp: printable_def fromGenesisValidator_def testnet_alloc_def)
  then obtain b h where j: "json_Genesis G ?g = Some b" "unjson_Genesis G b = Some h" "same_genesis h ?g" using genesis_json by blast
  have "gx_AppState ?d = b" "gx_ChainID ?d = randomChainID G T"
    using j(1) by (simp_all add: testnet_genesis_def testnet_alloc_def Let_def)
  moreover have "acceptable E ?d"
    using testnet_chain_id(2) [OF assms(2)] assms(3) by (auto simp: acceptable_def testnet_genesis_def Let_def)
  ultimately obtain d' where "GenesisDocFromFile G f = Some d'" "acceptable E d'" "gx_ChainID d' = randomChainID G T"
    "gx_Validators d' = gx_Validators ?d" "unjson_Genesis G (gx_AppState d') = Some h"
    using saved [OF _ assms(1)] j(2) by auto
  with j(3) show "holds E G f (randomChainID G T) ?g" "\<exists>d. GenesisDocFromFile G f = Some d \<and> gx_Validators d = gx_Validators ?d"
    by (auto simp: holds_def)
qed

end

text \<open>
  C34: Every directory of a test network gets the same genesis file, whose identifier the start
  of the node accepts. With at most 50 validators the application registers the keys that the
  file names to Tendermint: \<open>InitChain\<close> reports exactly them, in the same order and with the
  same power, so that all the nodes take part in the consensus; the coins of the network are
  on one address.
\<close>

theorem testnet_validators:
  assumes "genesis_laws W E G" and "chain_ctx E" and "is_iter it"
    and run: "testnetFiles W E G T Join defaultHome peers0 fl = Some (Inr nodes)"
    and n: "0 < tf_nValidators fl" "tf_nValidators fl \<le> MaxActiveValidatorCount"
    and "length (te_Random6 T) = 6" and "0 \<le> sint (tf_initialHeight fl)" and prefix: "ascii (str_bytes (tf_nodeDirPrefix fl))" "length (tf_nodeDirPrefix fl) < 2 ^ 31"
    and "GetStorageAt E (ss_ctx s) StakingContractSequence SlotStakingInfo = None"
  shows "length nodes = tf_nValidators fl + tf_nNonValidators fl \<and> (\<exists>d t.
    (\<forall>node \<in> set nodes. GenesisDocFromFile G (tn_Genesis node) = Some d \<and>
      getChainID G (tn_Genesis node) = Some (ucast (be_val (te_Random6 T) :: u64)))
    \<and> map tv_PubKey (gx_Validators d) = map (te_PubKey T) [0..<tf_nValidators fl]
    \<and> InitChain E it s (unjson_Genesis G (gx_AppState d)) = Some (map (\<lambda>v. (tv_PubKey v, tv_Power v)) (gx_Validators d), t)
    \<and> bal E (ss_ctx t) 0xf96ae03f3637e3195ebcb85f0043052338196e57 = 21 * 10 ^ 24)"
proof -
  obtain f where f: "doc_SaveAs G (testnet_genesis W E G T fl) = Some f" and nodes: "length nodes = tf_nValidators fl + tf_nNonValidators fl"
    "\<forall>node \<in> set nodes. tn_Genesis node = f"
    using run by (auto simp: testnetFiles_def Let_def split: if_splits option.splits sum.splits bind_splits)
  let ?vs = "gx_Validators (testnet_genesis W E G T fl)"
  let ?g = "\<lparr>gd_Validators = map (fromGenesisValidator W G) ?vs, gd_Alloc = testnet_alloc\<rparr>"
  note h = genesis_laws.testnet_holds [OF assms(1) f assms(7,8) prefix(1)]
  note sv = genesis_laws.StakingValidators_testnet [OF assms(1)]
  have vs: "length ?vs = tf_nValidators fl" "map tv_PubKey ?vs = map (te_PubKey T) [0..<tf_nValidators fl]" "\<forall>v \<in> set ?vs. tv_Power v = 1"
    by (auto simp: testnet_genesis_def Let_def)
  have "length (tv_Name v) < 2 ^ 32" if "v \<in> set ?vs" for v
  proof -
    from that obtain i where i: "i < tf_nValidators fl" "tv_Name v = tf_nodeDirPrefix fl @ dec_digits i" by (auto simp: testnet_genesis_def Let_def)
    moreover have "length (dec_digits i) \<le> i + 1" using dec_digits_ascii by blast
    ultimately show ?thesis using n(2) prefix(2) by (simp add: MaxActiveValidatorCount_def)
  qed
  then have st: "storable_validators (StakingValidators ?g)"
    using vs(1) n(2) by (auto simp: sv storable_validators_def node_validator_def str_bytes_def MaxActiveValidatorCount_def)
  have ne: "gd_Validators ?g \<noteq> []" using vs(1) n(1) by auto
  have "GetActiveValidators (StakingValidators ?g) MinimumStakingAmount = map node_validator ?vs"
    unfolding sv using vs(1) n(2) by (intro active_equal_power) (auto simp: node_validator_def)
  moreover have "map (\<lambda>v. (v_Pubkey v, v_VotingPower v)) (map node_validator ?vs) = map (\<lambda>v. (tv_PubKey v, tv_Power v)) ?vs"
    using vs(3) by (simp add: node_validator_def)
  ultimately obtain d t where d: "GenesisDocFromFile G f = Some d"
    "InitChain E it s (unjson_Genesis G (gx_AppState d)) = Some (map (\<lambda>v. (tv_PubKey v, tv_Power v)) ?vs, t)"
    "\<And>a. bal E (ss_ctx t) a = (case map_of testnet_alloc a of None \<Rightarrow> bal E (ss_ctx s) a | Some v \<Rightarrow> word_of_int v)"
    using genesis_starts [OF assms(2,3) h(1) ne st assms(11)] by auto
  moreover have "gx_Validators d = ?vs" using h(2) d(1) by simp
  moreover have "bal E (ss_ctx t) 0xf96ae03f3637e3195ebcb85f0043052338196e57 = 21 * 10 ^ 24"
    using d(3) [of "0xf96ae03f3637e3195ebcb85f0043052338196e57"] by (simp add: testnet_alloc_def)
  moreover have "getChainID G f = Some (ucast (be_val (te_Random6 T) :: u64))"
    using getChainID_holds [OF h(1)] genesis_laws.testnet_chain_id(1) [OF assms(1,7)] by simp
  ultimately show ?thesis using nodes vs(2) by auto
qed
subsection \<open>An implementation\<close>

definition enc_val :: "Validator \<Rightarrow> bytes" where
  "enc_val v = be_bytes 20 (v_Address v) @ be_bytes 32 (v_Pubkey v) @ be_bytes 20 (v_RewardTo v) @ be_bytes 8 (v_VotingPower v) @
     be_bytes 32 (v_StakedCoins v) @ [of_bool (v_IsRetiring v)] @ v_Introduction v"

definition dec_val :: "bytes \<Rightarrow> Validator" where
  "dec_val bs = \<lparr>v_Address = be_val (take 20 bs), v_Pubkey = be_val (take 32 (drop 20 bs)), v_RewardTo = be_val (take 20 (drop 52 bs)),
     v_VotingPower = be_val (take 8 (drop 72 bs)), v_Introduction = drop 113 bs, v_StakedCoins = be_val (take 32 (drop 80 bs)),
     v_IsRetiring = (bs ! 112 \<noteq> 0)\<rparr>"

lemma dec_enc_val: "dec_val (enc_val v) = v"
  by (cases v) (auto simp: dec_val_def enc_val_def nth_append)

definition enc_av :: "app_Validator \<Rightarrow> bytes" where
  "enc_av v = be_bytes 20 (av_MinerAddress v) @ enc_val (hd (StakingValidators \<lparr>gd_Validators = [v], gd_Alloc = []\<rparr>))"

definition dec_av :: "bytes \<Rightarrow> app_Validator" where
  "dec_av bs = (let v = dec_val (drop 20 bs) in \<lparr>av_Address = v_Address v, av_Pubkey = v_Pubkey v, av_RewardTo = v_RewardTo v,
     av_VotingPower = v_VotingPower v, av_Introduction = v_Introduction v, av_StakedCoins = v_StakedCoins v,
     av_IsRetiring = v_IsRetiring v, av_MinerAddress = be_val (take 20 bs)\<rparr>)"

lemma dec_enc_av: "dec_av (enc_av v) = v" "length (enc_av v) \<noteq> 52"
  by (cases v, simp add: dec_av_def enc_av_def dec_enc_val StakingValidators_def Let_def) (simp add: enc_av_def enc_val_def)

definition enc_alloc :: "address \<times> int \<Rightarrow> bytes" where
  "enc_alloc e = be_bytes 20 (fst e) @ be_bytes 32 (word_of_int (snd e) :: u256)"

definition dec_alloc :: "bytes \<Rightarrow> address \<times> int" where
  "dec_alloc bs = (be_val (take 20 bs), uint (be_val (drop 20 bs) :: u256))"

lemma dec_enc_alloc: "0 \<le> snd e \<Longrightarrow> snd e < 2 ^ 256 \<Longrightarrow> dec_alloc (enc_alloc e) = e" "length (enc_alloc e) = 52"
  by (cases e, simp add: dec_alloc_def enc_alloc_def uint_word_of_int take_bit_int_eq_self) (simp add: enc_alloc_def)

text \<open>A list of byte strings: every byte follows a one, a zero ends the string.\<close>

definition esc :: "bytes \<Rightarrow> bytes" where
  "esc bs = concat (map (\<lambda>b. [1, b]) bs) @ [0]"

fun frames :: "bytes \<Rightarrow> bytes \<Rightarrow> bytes list" where
  "frames cur [] = []"
| "frames cur [b] = [cur]"
| "frames cur (b # c # r) = (if b = 0 then cur # frames [] (c # r) else frames (cur @ [c]) r)"

lemma frames_esc: "frames cur (esc bs @ r) = (cur @ bs) # frames [] r"
proof (induction bs arbitrary: cur)
  case Nil
  then show ?case by (cases r) (simp_all add: esc_def)
qed (simp add: esc_def)

lemma frames_concat: "frames [] (concat (map esc bss)) = bss"
  by (induction bss) (simp_all add: frames_esc)

definition mem_genesis :: "GenesisDoc genesis_ext" where
  "mem_genesis = \<lparr>json_Validator = enc_val, unjson_Validator = (\<lambda>b. Some (dec_val b)),
     json_Genesis = (\<lambda>g. Some (concat (map esc (map enc_av (gd_Validators g) @ map enc_alloc (gd_Alloc g))))),
     unjson_Genesis = (\<lambda>b. if b = [] then Some \<lparr>gd_Validators = [], gd_Alloc = []\<rparr> else
       let fs = frames [] b in Some \<lparr>gd_Validators = map dec_av (filter (\<lambda>f. length f \<noteq> 52) fs),
         gd_Alloc = map dec_alloc (filter (\<lambda>f. length f = 52) fs)\<rparr>),
     ValidateAndComplete = (\<lambda>d. if acceptable mem_ext d then Some d else None), doc_SaveAs = Some,
     GenesisDocFromFile = (\<lambda>d. if acceptable mem_ext d then Some d else None), HexBytes_String = hex_EncodeToString,
     HexToHash = (\<lambda>t. case hex_DecodeString t of None \<Rightarrow> 0 | Some bs \<Rightarrow> be_val bs)\<rparr>"

definition hex_wallet :: "address wallet" where
  "hex_wallet = mem_wallet\<lparr>HexToAddress := (\<lambda>t. case hex_DecodeString t of None \<Rightarrow> 0 | Some bs \<Rightarrow> be_val bs)\<rparr>"

lemma parse_hex: "parse_digits 16 v (hex_EncodeToString bs) = Some (v * 256 ^ length bs + be_nat bs)"
proof (induction bs arbitrary: v)
  case (Cons b bs)
  have "unat (b div 16) < 16" using unat_lt [of b] by (simp add: unat_div less_mult_imp_div_less)
  moreover have "unat (b mod 16) < 16" by (simp add: unat_mod)
  ultimately have d: "char_digit (hex_digit (b div 16)) = unat (b div 16)" "char_digit (hex_digit (b mod 16)) = unat (b mod 16)"
    "unat (b div 16) < 16" "unat (b mod 16) < 16"
    using nibble_char unfolding nibble_char_def hex_digit_def by blast+
  have e: "(v * 16 + unat (b div 16)) * 16 + unat (b mod 16) = v * 256 + unat b"
  proof -
    have "unat b div 16 * 16 + unat b mod 16 = unat b" by (rule div_mult_mod_eq)
    moreover have "unat (b div 16) = unat b div 16" "unat (b mod 16) = unat b mod 16" by (simp_all add: unat_div unat_mod)
    ultimately show ?thesis by simp
  qed
  have "parse_digits 16 v (hex_EncodeToString (b # bs)) = parse_digits 16 ((v * 16 + unat (b div 16)) * 16 + unat (b mod 16)) (hex_EncodeToString bs)"
    using d by (simp add: hex_EncodeToString_def)
  then show ?case unfolding e Cons by (simp add: be_nat_Cons algebra_simps)
qed (simp add: hex_EncodeToString_def be_nat_def)

lemma length_hex: "length (hex_EncodeToString bs) = 2 * length bs"
  by (simp add: hex_EncodeToString_def length_concat comp_def sum_list_triv)

interpretation mg: genesis_laws hex_wallet mem_ext mem_genesis
proof
  show "\<exists>b h. json_Genesis mem_genesis g = Some b \<and> unjson_Genesis mem_genesis b = Some h \<and> same_genesis h g" if "printable g" for g
  proof -
    let ?fs = "map enc_av (gd_Validators g) @ map enc_alloc (gd_Alloc g)"
    have "map dec_alloc (map enc_alloc (gd_Alloc g)) = gd_Alloc g"
      using that unfolding map_map by (intro map_idI) (auto simp: printable_def dec_enc_alloc)
    moreover have "map dec_av (map enc_av (gd_Validators g)) = gd_Validators g" by (simp add: comp_def dec_enc_av)
    moreover have "filter (\<lambda>f. length f \<noteq> 52) ?fs = map enc_av (gd_Validators g)" "filter (\<lambda>f. length f = 52) ?fs = map enc_alloc (gd_Alloc g)"
      by (simp_all add: filter_map comp_def dec_enc_av dec_enc_alloc)
    moreover have "concat (map esc ?fs) = [] \<longleftrightarrow> gd_Validators g = [] \<and> gd_Alloc g = []"
      by (cases "gd_Validators g"; cases "gd_Alloc g") (simp_all add: esc_def)
    ultimately have "unjson_Genesis mem_genesis (concat (map esc ?fs)) = Some g"
      by (simp add: mem_genesis_def frames_concat Let_def del: map_append map_map)
    then show ?thesis using that by (auto simp: mem_genesis_def same_genesis_def)
  qed
  show "ParseUint 16 (HexBytes_String mem_genesis bs) = Some (be_val bs)" if "bs \<noteq> []" "length bs \<le> 8" for bs
  proof -
    have "be_nat bs < 256 ^ 8" using be_nat_bound [of bs] power_increasing [OF that(2), of "256 :: nat"] by linarith
    moreover have "hex_EncodeToString bs \<noteq> []" using that(1) length_hex [of bs] by auto
    ultimately show ?thesis by (simp add: ParseUint_def mem_genesis_def parse_hex be_val_of_nat)
  qed
qed (auto simp: mem_genesis_def hex_wallet_def dec_enc_val hex_roundtrip length_hex split: if_splits)

text \<open>Two validators on a chain with one test key, and a network of two validators and one more node.\<close>

definition sample_genesis_flags :: "genesis_flags list" where
  "sample_genesis_flags = [\<lparr>gf_Address = ''0000000000000000000000000000000000000007'', gf_ConsPubKey = ''4d'', gf_VotingPower = 1,
     gf_StakingCoin = ''500'', gf_Introduction = ''one''\<rparr>, \<lparr>gf_Address = ''0000000000000000000000000000000000000008'', gf_ConsPubKey = ''4e'',
     gf_VotingPower = 0, gf_StakingCoin = ''0x10'', gf_Introduction = ''two''\<rparr>]"

definition sample_init :: init_flags where
  "sample_init = \<lparr>if_ChainID = ''0x2710'', if_Overwrite = False, if_InitBal = ''1000'',
     if_TestKeys = ''0000000000000000000000000000000000000009'', if_TestKeysFile = []\<rparr>"

lemma sample_flags_parse:
  "ParseU256 ''500'' = Some 500" "ParseU256 ''0x10'' = Some 16" "ParseU256 ''1000'' = Some 1000" "HexToPubKey ''4d'' = Some [0x4d]" "HexToPubKey ''4e'' = Some [0x4e]"
  "parseChainID ''0x2710'' = Some 0x2710" "HexToPrivKey hex_wallet ''0000000000000000000000000000000000000009'' = Some 9"
  by (simp_all add: parseChainID_def ParseUint_def char_digit_def ParseU256_def big_SetString_base_def
      HexToPubKey_def HexToPrivKey_def TrimSpace_def is_space_def fromHexChar_def mem_wallet_def hex_wallet_def be_val_def Let_def)

lemma sample_keys: "getTestKeys lines (if_TestKeys sample_init) (if_TestKeysFile sample_init) = Some [''0000000000000000000000000000000000000009'']"
  by (simp add: getTestKeys_def sample_init_def)

lemma sample_wf: "list_all well_formed sample_genesis_flags" "storable_validators (map (described hex_wallet) sample_genesis_flags)"
  by (simp_all add: sample_genesis_flags_def well_formed_def sample_flags_parse ascii_def str_bytes_def storable_validators_def described_def)

theorem genesis_commands_start_witness:
  "\<exists>f outs f' d info t. InitCmd hex_wallet mem_genesis (\<lambda>_. None) (Some ''id'') sample_init None = Some (Inr f)
    \<and> map (GenerateGenesisValidatorCmd hex_wallet mem_genesis) sample_genesis_flags = map Inr outs
    \<and> add_validators mem_ext mem_genesis f outs = Inr f' \<and> getChainID mem_genesis f' = Some 0x2710 \<and> GenesisDocFromFile mem_genesis f' = Some d
    \<and> (\<exists>reported. InitChain mem_ext rev (mem_state mem_empty) (unjson_Genesis mem_genesis (gx_AppState d)) = Some (reported, t))
    \<and> LoadStakingInfo mem_ext (ss_ctx t) = Some info \<and> map v_Introduction (si_Validators info) = [str_bytes ''one'', str_bytes ''two'']
    \<and> bal mem_ext (ss_ctx t) 9 = 1000"
proof -
  have p: "parseChainID (if_ChainID sample_init) = Some 0x2710" "length (if_ChainID sample_init) \<le> 50" "ParseU256 (if_InitBal sample_init) = Some 1000"
    by (simp_all add: sample_init_def sample_flags_parse)
  have k: "\<forall>k \<in> set [''0000000000000000000000000000000000000009'']. HexToPrivKey hex_wallet k \<noteq> None" by (simp add: sample_flags_parse)
  have e: "GetStorageAt mem_ext (ss_ctx (mem_state mem_empty)) StakingContractSequence SlotStakingInfo = None" "sample_genesis_flags \<noteq> []"
    by (simp_all add: mem_state_def mem_empty_def mem_ext_def sample_genesis_flags_def)
  have "9 \<in> key_addresses hex_wallet [''0000000000000000000000000000000000000009'']"
    by (simp add: key_addresses_def sample_flags_parse) (simp add: hex_wallet_def mem_wallet_def)
  moreover have "map v_Introduction (map (described hex_wallet) sample_genesis_flags) = [str_bytes ''one'', str_bytes ''two'']"
    by (simp add: sample_genesis_flags_def described_def)
  ultimately show ?thesis
    using genesis_commands_start [OF mg.genesis_laws_axioms mem_chain_ctx is_iter_rev p sample_keys k e(2) sample_wf e(1), of "\<lambda>_. None" "''id''"]
    by (elim exE conjE) (intro exI conjI, assumption+, simp+)
qed

definition sample_testnet :: testnet_flags where
  "sample_testnet = \<lparr>tf_nValidators = 2, tf_nNonValidators = 1, tf_nodeDirPrefix = ''node'', tf_initialHeight = 0,
     tf_populatePersistentPeers = True, tf_hostnamePrefix = ''node'', tf_hostnameSuffix = [], tf_startingIPAddress = [], tf_hostnames = [],
     tf_p2pPort = 26656, tf_randomMonikers = False\<rparr>"

definition sample_env :: testnet_env where
  "sample_env = \<lparr>te_PubKey = (\<lambda>i. of_nat (i + 5)), te_NodeID = (\<lambda>i. Some (dec_digits i)), te_Random6 = [1, 2, 3, 4, 5, 6], te_Random8 = (\<lambda>_. []),
     te_ParseIP4 = (\<lambda>_. None), te_IP_String = (\<lambda>_. []), te_IDAddressString = (\<lambda>a b. a @ ''@'' @ b)\<rparr>"

theorem testnet_validators_witness:
  "\<exists>nodes d t. testnetFiles hex_wallet mem_ext mem_genesis sample_env join_path ''/root'' [] sample_testnet = Some (Inr nodes) \<and> length nodes = 3
    \<and> (\<forall>node \<in> set nodes. GenesisDocFromFile mem_genesis (tn_Genesis node) = Some d)
    \<and> InitChain mem_ext rev (mem_state mem_empty) (unjson_Genesis mem_genesis (gx_AppState d)) = Some (map (\<lambda>v. (tv_PubKey v, tv_Power v)) (gx_Validators d), t)
    \<and> map tv_PubKey (gx_Validators d) = [5, 6]"
proof -
  have "\<exists>ps. persistentPeersString sample_env sample_testnet = Some (Inr ps)"
    by (simp add: persistentPeersString_def hostnameOrIP_def sample_testnet_def sample_env_def numeral_3_eq_3)
  then obtain nodes where run: "testnetFiles hex_wallet mem_ext mem_genesis sample_env join_path ''/root'' [] sample_testnet = Some (Inr nodes)"
    by (auto simp: testnetFiles_def sample_testnet_def mem_genesis_def)
  have c: "0 < tf_nValidators sample_testnet" "tf_nValidators sample_testnet \<le> MaxActiveValidatorCount" "length (te_Random6 sample_env) = 6"
    "0 \<le> sint (tf_initialHeight sample_testnet)" "ascii (str_bytes (tf_nodeDirPrefix sample_testnet))" "length (tf_nodeDirPrefix sample_testnet) < 2 ^ 31"
    "GetStorageAt mem_ext (ss_ctx (mem_state mem_empty)) StakingContractSequence SlotStakingInfo = None"
    by (simp_all add: sample_testnet_def sample_env_def MaxActiveValidatorCount_def ascii_def str_bytes_def mem_state_def mem_empty_def mem_ext_def)
  have "map (te_PubKey sample_env) [0..<tf_nValidators sample_testnet] = [5, 6]" "tf_nValidators sample_testnet + tf_nNonValidators sample_testnet = 3"
    by (simp_all add: sample_env_def sample_testnet_def numeral_2_eq_2)
  with testnet_validators [OF mg.genesis_laws_axioms mem_chain_ctx is_iter_rev run c] run show ?thesis
    by (elim exE conjE) (intro exI conjI, assumption, simp_all)
qed

end
