(* ===== verification/RPC_Server.thy ===== *)
theory RPC_Server
  imports RPC_Sbch Node_Genesis
begin

text \<open>
  The server around the APIs: how a raw transaction reaches the mempool (\<open>src/api/tmnode.go\<close>), the
  small name spaces (\<open>src/rpc/api/net_api.go\<close>, \<open>txpool_api.go\<close>, \<open>web3_api.go\<close>, \<open>debug_api.go\<close> and
  the constants of \<open>eth_api.go\<close>), the table of APIs (\<open>apis.go\<close>), and the start and stop of the
  listeners (\<open>src/rpc/server.go\<close>). The mempool of Tendermint is the record \<open>tm_mempool\<close>; the
  registry of a server and the network are arguments, with the locale \<open>network\<close> for the latter.
\<close>

subsection \<open>Sending a transaction\<close>

text \<open>
  The mempool first looks at the size, its cache and its own limits, then asks the application
  and passes the response to the callback.
\<close>

record tm_mempool =
  mp_refuse :: "bytes \<Rightarrow> go_error option"
  mp_CheckTx :: "bytes \<Rightarrow> ResponseCheckTx"
  mp_Hash :: "bytes \<Rightarrow> bytes32"
  mp_String :: "ResponseCheckTx \<Rightarrow> string"

definition BroadcastTxSync :: "tm_mempool \<Rightarrow> bytes \<Rightarrow> bytes32 res" where
  "BroadcastTxSync M tx = (case mp_refuse M tx of
       Some err \<Rightarrow> Inl err
     | None \<Rightarrow> let r = mp_CheckTx M tx in if rc_Code r \<noteq> CodeTypeOK then Inl (GoError (mp_String M r)) else Inr (mp_Hash M tx))"

record NextBlock =
  nb_Number :: i64
  nb_Timestamp :: i64
  nb_Hash :: bytes32

record node_Info =
  ni_IsValidator :: bool
  ni_ValidatorIndex :: i64
  ni_Height :: i64
  ni_Seed :: string
  ni_ConsensusPubKey :: bytes
  ni_AppState :: bytes
  ni_NextBlock :: NextBlock

text \<open>The last validator with the key counts; \<open>unjson\<close> is the decoder of the genesis data.\<close>

definition GetNodeInfo :: "(bytes \<Rightarrow> GenesisData option) \<Rightarrow> i64 \<Rightarrow> string option \<Rightarrow> bytes \<Rightarrow> bytes \<Rightarrow> node_Info" where
  "GetNodeInfo unjson height address pubKey appState =
     (let i = \<lparr>ni_IsValidator = False, ni_ValidatorIndex = 0, ni_Height = height,
            ni_Seed = (case address of None \<Rightarrow> [] | Some a \<Rightarrow> a), ni_ConsensusPubKey = pubKey, ni_AppState = appState,
            ni_NextBlock = \<lparr>nb_Number = 0, nb_Timestamp = 0, nb_Hash = 0\<rparr>\<rparr>
      in case unjson appState of
           None \<Rightarrow> i
         | Some g \<Rightarrow> foldl (\<lambda>i (k, v). if be_bytes 32 (av_Pubkey v) = ni_ConsensusPubKey i
               then i\<lparr>ni_IsValidator := True, ni_ValidatorIndex := of_nat k\<rparr> else i)
             i (enumerate 0 (gd_Validators g)))"

definition bk_NodeInfo :: "('c, 'b, 'w) rpc_app \<Rightarrow> node_Info \<Rightarrow> node_Info" where
  "bk_NodeInfo app i = (let bi = ra_blockInfo app in
     i\<lparr>ni_NextBlock := \<lparr>nb_Number = bi_Number bi, nb_Timestamp = bi_Timestamp bi, nb_Hash = bi_Hash bi\<rparr>\<rparr>)"

subsection \<open>The small name spaces\<close>

text \<open>\<open>keys\<close> are the keys of the map of accounts, visited in the order \<open>it\<close>.\<close>

definition eth_Accounts :: "address iter \<Rightarrow> address list \<Rightarrow> address list" where
  "eth_Accounts it keys = sort (it keys)"

definition eth_BlockNumber :: "('c, 'b, 'w) rpc_app \<Rightarrow> u64" where
  "eth_BlockNumber app = bk_LatestHeight app"

definition eth_ChainId :: "('c, 'b, 'w) rpc_app \<Rightarrow> u64" where
  "eth_ChainId app = word_of_int (bk_ChainId app)"

definition eth_Coinbase :: address where "eth_Coinbase = 0"

definition eth_GetUncleCount :: nat where "eth_GetUncleCount = 0"

text \<open>The status of Tendermint, \<open>Inr None\<close> for false, otherwise the current height.\<close>

definition eth_Syncing :: "(bool \<times> i64) res \<Rightarrow> u64 option res" where
  "eth_Syncing st = (case st of
       Inl err \<Rightarrow> Inl err
     | Inr (catchingUp, latestHeight) \<Rightarrow> Inr (if \<not> catchingUp then None else Some latestHeight))"

definition net_Version :: "u64 \<Rightarrow> string" where "net_Version networkID = dec_digits (unat networkID)"
definition net_Listening :: bool where "net_Listening = True"
definition net_PeerCount :: int where "net_PeerCount = 0"

definition txpool_Content :: "(string \<times> (string \<times> (string \<times> rpc_Transaction) list) list) list" where
  "txpool_Content = [(''pending'', []), (''queued'', [])]"

definition txpool_Status :: "(string \<times> nat) list" where
  "txpool_Status = [(''pending'', 0), (''queued'', 0)]"

definition txpool_Inspect :: "(string \<times> (string \<times> (string \<times> string) list) list) list" where
  "txpool_Inspect = [(''pending'', []), (''queued'', [])]"

text \<open>The commit, the system and the version of Go are fixed when the node is built.\<close>

definition web3_ClientVersion :: "string \<Rightarrow> string \<Rightarrow> string \<Rightarrow> string" where
  "web3_ClientVersion GitCommit GOOS goVersion = ''zeniqsmartd'' @ ''/'' @ ''v0.7.2'' @ ''-'' @ GitCommit @ ''/'' @ GOOS @ ''/'' @ goVersion"

definition web3_Sha3 :: "(bytes \<Rightarrow> bytes) \<Rightarrow> bytes \<Rightarrow> bytes" where "web3_Sha3 Keccak256 input = Keccak256 input"

text \<open>The statistics are read again when they are older than a minute.\<close>

definition StatusUpdateInterval :: i64 where "StatusUpdateInterval = 60"

record mem_stats =
  ms_Alloc :: u64
  ms_Sys :: u64
  ms_NumGC :: "32 word"
  ms_NumGoroutine :: int

record os_mem_stats =
  os_Total :: u64
  os_Used :: u64
  os_Cached :: u64
  os_Free :: u64
  os_Active :: u64
  os_Inactive :: u64
  os_SwapTotal :: u64
  os_SwapUsed :: u64
  os_SwapFree :: u64

record Stats =
  NumGoroutine :: int
  NumGC :: "32 word"
  MemAllocMB :: u64
  MemSysMB :: u64
  OsMemTotalMB :: u64
  OsMemUsedMB :: u64
  OsMemCachedMB :: u64
  OsMemFreeMB :: u64
  OsMemActiveMB :: u64
  OsMemInactiveMB :: u64
  OsMemSwapTotalMB :: u64
  OsMemSwapUsedMB :: u64
  OsMemSwapFreeMB :: u64
  NumEthCall :: u64

definition toMB :: "u64 \<Rightarrow> u64" where "toMB n = n div 1024 div 1024"

definition updateStats :: "mem_stats \<Rightarrow> os_mem_stats res \<Rightarrow> u64 \<Rightarrow> Stats \<Rightarrow> Stats" where
  "updateStats mem osmem numCall st =
     (let st = st\<lparr>NumGoroutine := ms_NumGoroutine mem, NumGC := ms_NumGC mem, MemAllocMB := toMB (ms_Alloc mem), MemSysMB := toMB (ms_Sys mem)\<rparr>;
          st = (case osmem of
              Inl _ \<Rightarrow> st
            | Inr o' \<Rightarrow> st\<lparr>OsMemTotalMB := toMB (os_Total o'), OsMemUsedMB := toMB (os_Used o'), OsMemCachedMB := toMB (os_Cached o'),
                OsMemFreeMB := toMB (os_Free o'), OsMemActiveMB := toMB (os_Active o'), OsMemInactiveMB := toMB (os_Inactive o'),
                OsMemSwapTotalMB := toMB (os_SwapTotal o'), OsMemSwapUsedMB := toMB (os_SwapUsed o'), OsMemSwapFreeMB := toMB (os_SwapFree o')\<rparr>)
      in st\<lparr>NumEthCall := numCall\<rparr>)"

text \<open>One request at a time, so that the exchange of the time of the last update succeeds.\<close>

definition debug_GetStats :: "i64 \<Rightarrow> mem_stats \<Rightarrow> os_mem_stats res \<Rightarrow> u64 \<Rightarrow> i64 \<times> Stats \<Rightarrow> Stats \<times> (i64 \<times> Stats)" where
  "debug_GetStats now mem osmem numCall api = (case api of (lastUpdateTime, stats) \<Rightarrow>
     let (t, st) = (if sint now > sint (lastUpdateTime + StatusUpdateInterval) then (now, updateStats mem osmem numCall stats) else (lastUpdateTime, stats))
     in (st, t, st))"

definition debug_GetSeq :: "('c, 'a) rpc_ext \<Rightarrow> ('c, 'b, 'w) rpc_app \<Rightarrow> address \<Rightarrow> u64" where
  "debug_GetSeq E app addr = bk_GetSeq E app addr"

definition debug_NodeInfo :: "(node_Info \<Rightarrow> bytes) \<Rightarrow> ('c, 'b, 'w) rpc_app \<Rightarrow> node_Info \<Rightarrow> bytes" where
  "debug_NodeInfo Marshal app i = Marshal (bk_NodeInfo app i)"

subsection \<open>The table of APIs\<close>

datatype service = Svc_eth | Svc_filter | Svc_web3 | Svc_net | Svc_txpool | Svc_sbch | Svc_zeniq | Svc_debug

definition GetAPIs :: "(string \<times> service) list" where
  "GetAPIs = [(''eth'', Svc_eth), (''eth'', Svc_filter), (''web3'', Svc_web3), (''net'', Svc_net), (''txpool'', Svc_txpool),
     (''sbch'', Svc_sbch), (''zeniq'', Svc_zeniq), (''debug'', Svc_debug)]"

definition splitAndTrim :: "string \<Rightarrow> string list" where
  "splitAndTrim inp = filter (\<lambda>r. r \<noteq> []) (map TrimSpace (split_on CHR '','' inp))"

text \<open>
  \<open>RegisterName\<close> adds the methods of a service to a registry, \<open>None\<close> when it cannot. The registry
  keeps what was added before a failure.
\<close>

primrec name_exists :: "string list \<Rightarrow> string \<Rightarrow> bool" where
  "name_exists [] key = False"
| "name_exists (s # set') key = (if s = key then True else name_exists set' key)"

fun registerApis :: "('r \<Rightarrow> string \<Rightarrow> service \<Rightarrow> 'r option) \<Rightarrow> 'r \<Rightarrow> string list \<Rightarrow> (string \<times> service) list \<Rightarrow> bool \<times> 'r" where
  "registerApis RegisterName srv namespaces [] = (True, srv)"
| "registerApis RegisterName srv namespaces ((ns, svc) # apis) =
     (if name_exists namespaces ns
      then (case RegisterName srv ns svc of
              None \<Rightarrow> (False, srv) | Some srv \<Rightarrow> registerApis RegisterName srv namespaces apis)
      else registerApis RegisterName srv namespaces apis)"

lemma name_exists_iff [simp]: "name_exists names key \<longleftrightarrow> key \<in> set names"
  by (induction names) auto

subsection \<open>The server\<close>

text \<open>A registry and whether it was stopped; \<open>sv_open\<close> are the addresses the process listens on.\<close>

record 'r rpc_server =
  rs_registry :: 'r
  rs_stopped :: bool

record server_config =
  sc_rpcAddr :: string
  sc_wsAddr :: string
  sc_rpcHttpsAddr :: string
  sc_wssAddr :: string
  sc_httpAPIs :: "string list"
  sc_wsAPIs :: "string list"

record 'r Server =
  sv_httpServer :: "'r rpc_server option"
  sv_wsServer :: "'r rpc_server option"
  sv_httpListener :: "string option"
  sv_httpsListener :: "string option"
  sv_wsListener :: "string option"
  sv_wssListener :: "string option"
  sv_open :: "string set"

definition NewServer :: "string \<Rightarrow> string \<Rightarrow> string \<Rightarrow> string \<Rightarrow> string \<Rightarrow> string \<Rightarrow> server_config" where
  "NewServer rpcAddr wsAddr rpcAddrSecure wsAddrSecure httpAPI wsAPI = \<lparr>sc_rpcAddr = rpcAddr, sc_wsAddr = wsAddr,
     sc_rpcHttpsAddr = rpcAddrSecure, sc_wssAddr = wsAddrSecure, sc_httpAPIs = splitAndTrim httpAPI, sc_wsAPIs = splitAndTrim wsAPI\<rparr>"

definition idle_server :: "string set \<Rightarrow> 'r Server" where
  "idle_server opened = \<lparr>sv_httpServer = None, sv_wsServer = None, sv_httpListener = None, sv_httpsListener = None,
     sv_wsListener = None, sv_wssListener = None, sv_open = opened\<rparr>"

text \<open>The network: whether an address can be listened on; the flag of the results is false for an error.\<close>

type_synonym net_state = "string set \<Rightarrow> string \<Rightarrow> bool"

definition Listen :: "net_state \<Rightarrow> string \<Rightarrow> 'r Server \<Rightarrow> (string option \<times> 'r Server)" where
  "Listen can addr s = (if can (sv_open s) addr then (Some addr, s\<lparr>sv_open := insert addr (sv_open s)\<rparr>) else (None, s))"

definition startHTTPAndHTTPS :: "('r \<Rightarrow> string \<Rightarrow> service \<Rightarrow> 'r option) \<Rightarrow> 'r \<Rightarrow> net_state \<Rightarrow> server_config \<Rightarrow> (string \<times> service) list \<Rightarrow>
    'r Server \<Rightarrow> bool \<times> 'r Server" where
  "startHTTPAndHTTPS Reg newsrv can cfg apis s = (case registerApis Reg newsrv (sc_httpAPIs cfg) apis of
       (False, reg) \<Rightarrow> (False, s\<lparr>sv_httpServer := Some \<lparr>rs_registry = reg, rs_stopped = False\<rparr>\<rparr>)
     | (True, reg) \<Rightarrow>
         let s = s\<lparr>sv_httpServer := Some \<lparr>rs_registry = reg, rs_stopped = False\<rparr>\<rparr>;
             (l, s) = Listen can (sc_rpcAddr cfg) s;
             s = s\<lparr>sv_httpListener := l\<rparr>
         in if l = None then (False, s)
            else if sc_rpcHttpsAddr cfg \<noteq> ''off''
            then let (l, s) = Listen can (sc_rpcHttpsAddr cfg) s in (l \<noteq> None, s\<lparr>sv_httpsListener := l\<rparr>)
            else (True, s))"

definition startWSAndWSS :: "('r \<Rightarrow> string \<Rightarrow> service \<Rightarrow> 'r option) \<Rightarrow> 'r \<Rightarrow> net_state \<Rightarrow> server_config \<Rightarrow> (string \<times> service) list \<Rightarrow>
    'r Server \<Rightarrow> bool \<times> 'r Server" where
  "startWSAndWSS Reg newsrv can cfg apis s = (case registerApis Reg newsrv (sc_wsAPIs cfg) apis of
       (False, reg) \<Rightarrow> (False, s\<lparr>sv_wsServer := Some \<lparr>rs_registry = reg, rs_stopped = False\<rparr>\<rparr>)
     | (True, reg) \<Rightarrow>
         let s = s\<lparr>sv_wsServer := Some \<lparr>rs_registry = reg, rs_stopped = False\<rparr>\<rparr>;
             (l, s) = Listen can (sc_wsAddr cfg) s;
             s = s\<lparr>sv_wsListener := l\<rparr>
         in if l = None then (False, s)
            else if sc_wssAddr cfg \<noteq> ''off''
            then let (l, s) = Listen can (sc_wssAddr cfg) s in (l \<noteq> None, s\<lparr>sv_wssListener := l\<rparr>)
            else (True, s))"

definition OnStart :: "('r \<Rightarrow> string \<Rightarrow> service \<Rightarrow> 'r option) \<Rightarrow> 'r \<Rightarrow> net_state \<Rightarrow> server_config \<Rightarrow> 'r Server \<Rightarrow> bool \<times> 'r Server" where
  "OnStart Reg newsrv can cfg s = (case startHTTPAndHTTPS Reg newsrv can cfg GetAPIs s of
       (False, s) \<Rightarrow> (False, s)
     | (True, s) \<Rightarrow> startWSAndWSS Reg newsrv can cfg GetAPIs s)"

text \<open>Both functions stop the HTTP server and close its listener; a nil server or listener panics.\<close>

definition stop_http_server :: "'r Server \<Rightarrow> 'r Server option" where
  "stop_http_server s = (case sv_httpServer s of
     None \<Rightarrow> None | Some h \<Rightarrow> Some (s\<lparr>sv_httpServer := Some (h\<lparr>rs_stopped := True\<rparr>)\<rparr>))"

definition close_http_listener :: "'r Server \<Rightarrow> 'r Server option" where
  "close_http_listener s = (case sv_httpListener s of None \<Rightarrow> None | Some a \<Rightarrow> Some (s\<lparr>sv_open := sv_open s - {a}\<rparr>))"

definition stopHTTP :: "'r Server \<Rightarrow> 'r Server option" where
  "stopHTTP s = do {
     s \<leftarrow> (if sv_httpServer s \<noteq> None then stop_http_server s else Some s);
     if sv_httpListener s \<noteq> None then close_http_listener s else Some s }"

definition stopWS :: "'r Server \<Rightarrow> 'r Server option" where
  "stopWS s = do {
     s \<leftarrow> (if sv_wsServer s \<noteq> None then stop_http_server s else Some s);
     if sv_wsListener s \<noteq> None then close_http_listener s else Some s }"

definition OnStop :: "'r Server \<Rightarrow> 'r Server option" where
  "OnStop s = do { s \<leftarrow> stopHTTP s; stopWS s }"

subsection \<open>Properties\<close>

lemma eth_Accounts_order: "is_iter it \<Longrightarrow> eth_Accounts it keys = sort keys"
  unfolding eth_Accounts_def by (rule properties_for_sort [symmetric]) simp_all

text \<open>With the default flags everything but the \<open>debug\<close> name space is registered, twice under \<open>eth\<close>.\<close>

lemma registered: "registerApis (\<lambda>r ns svc. Some (r @ [(ns, svc)])) r namespaces apis = (True, r @ filter (\<lambda>(ns, svc). ns \<in> set namespaces) apis)"
  by (induction apis arbitrary: r) auto

lemma default_namespaces: "splitAndTrim ''eth,web3,net,txpool,sbch,zeniq,tm'' = [''eth'', ''web3'', ''net'', ''txpool'', ''sbch'', ''zeniq'', ''tm'']"
  by (simp add: splitAndTrim_def TrimSpace_def is_space_def)

lemma default_services:
  "map snd (filter (\<lambda>(ns, svc). ns \<in> set (splitAndTrim ''eth,web3,net,txpool,sbch,zeniq,tm'')) GetAPIs)
     = [Svc_eth, Svc_filter, Svc_web3, Svc_net, Svc_txpool, Svc_sbch, Svc_zeniq]"
  unfolding default_namespaces by (simp add: GetAPIs_def)

lemma debug_GetStats_age:
  assumes "debug_GetStats now mem osmem calls (t, stats) = (shown, t', stats')" and "0 \<le> sint t" "sint t + 60 < 2 ^ 63"
  shows "shown = stats' \<and> (if sint now > sint t + 60 then shown = updateStats mem osmem calls stats \<and> t' = now else shown = stats \<and> t' = t)"
proof -
  have "sint (t + StatusUpdateInterval) = sint t + 60"
    using assms(2,3) sint_add_no_wrap [of t 60] by (simp add: StatusUpdateInterval_def)
  then show ?thesis using assms(1) by (auto simp: debug_GetStats_def split: if_splits)
qed

text \<open>An address that is listened on cannot be opened again.\<close>

locale network =
  fixes can :: net_state
  assumes busy: "a \<in> opened \<Longrightarrow> \<not> can opened a"
begin

lemma Listen_Some:
  assumes "Listen can addr s = (Some l, s')"
  shows "l = addr \<and> addr \<notin> sv_open s \<and> s' = s\<lparr>sv_open := insert addr (sv_open s)\<rparr>"
  using assms busy by (auto simp: Listen_def split: if_splits)

text \<open>The addresses that are opened, apart from that of the HTTP server.\<close>

lemma started:
  assumes "OnStart Reg newsrv can cfg (idle_server opened) = (True, s)"
  shows "sv_httpServer s \<noteq> None \<and> sv_httpListener s = Some (sc_rpcAddr cfg) \<and> sv_wsListener s = Some (sc_wsAddr cfg) \<and>
    (\<exists>reg. sv_wsServer s = Some \<lparr>rs_registry = reg, rs_stopped = False\<rparr>) \<and>
    sc_rpcAddr cfg \<notin> opened \<union> {sc_wsAddr cfg} \<union> (if sc_rpcHttpsAddr cfg \<noteq> ''off'' then {sc_rpcHttpsAddr cfg} else {}) \<union>
      (if sc_wssAddr cfg \<noteq> ''off'' then {sc_wssAddr cfg} else {}) \<and>
    sv_open s = insert (sc_rpcAddr cfg) (opened \<union> {sc_wsAddr cfg} \<union> (if sc_rpcHttpsAddr cfg \<noteq> ''off'' then {sc_rpcHttpsAddr cfg} else {}) \<union>
      (if sc_wssAddr cfg \<noteq> ''off'' then {sc_wssAddr cfg} else {}))"
  using assms busy
  by (auto simp: OnStart_def startHTTPAndHTTPS_def startWSAndWSS_def Listen_def idle_server_def Let_def
      split: option.splits if_splits prod.splits bool.splits)

lemma busy_websocket: "sc_wsAddr cfg \<in> sv_open s \<Longrightarrow> \<not> fst (OnStart Reg newsrv can cfg s)"
  using busy
  by (auto simp: OnStart_def startHTTPAndHTTPS_def startWSAndWSS_def Listen_def Let_def split: option.splits if_splits prod.splits bool.splits)

end

text \<open>
  C40: Stopping the server does not stop the websocket server: \<open>stopWS\<close> stops the HTTP server a
  second time and closes its listener a second time. The address of the websocket, and the two
  addresses for encrypted connections where they are on, stay open, and a later \<open>OnStart\<close>
  of the same process fails because of it.
\<close>

theorem OnStop_leaves_websocket:
  assumes "network can" and "OnStart Reg newsrv can cfg (idle_server opened) = (True, s)"
  shows "\<exists>s'. OnStop s = Some s' \<and> map_option rs_stopped (sv_wsServer s') = Some False \<and> map_option rs_stopped (sv_httpServer s') = Some True \<and>
    sv_open s' = opened \<union> {sc_wsAddr cfg} \<union> (if sc_rpcHttpsAddr cfg \<noteq> ''off'' then {sc_rpcHttpsAddr cfg} else {}) \<union>
      (if sc_wssAddr cfg \<noteq> ''off'' then {sc_wssAddr cfg} else {}) \<and>
    \<not> fst (OnStart Reg newsrv can cfg s')"
proof -
  note st = network.started [OF assms]
  then obtain h reg where h: "sv_httpServer s = Some h" "sv_wsServer s = Some \<lparr>rs_registry = reg, rs_stopped = False\<rparr>" by blast
  let ?s = "s\<lparr>sv_httpServer := Some (h\<lparr>rs_stopped := True\<rparr>), sv_open := sv_open s - {sc_rpcAddr cfg}\<rparr>"
  have "OnStop s = Some ?s"
    using st h by (simp add: OnStop_def stopHTTP_def stopWS_def stop_http_server_def close_http_listener_def)
  moreover have "sv_open ?s = opened \<union> {sc_wsAddr cfg} \<union> (if sc_rpcHttpsAddr cfg \<noteq> ''off'' then {sc_rpcHttpsAddr cfg} else {}) \<union>
      (if sc_wssAddr cfg \<noteq> ''off'' then {sc_wssAddr cfg} else {})"
    using st by simp
  moreover from this have "\<not> fst (OnStart Reg newsrv can cfg ?s)" using network.busy_websocket [OF assms(1), of cfg ?s] by auto
  ultimately show ?thesis using h(2) by (intro exI [of _ ?s]) simp
qed

definition free_address :: net_state where "free_address opened a \<longleftrightarrow> a \<notin> opened"

interpretation fa: network free_address
  by unfold_locales (simp add: free_address_def)

definition sample_config :: server_config where
  "sample_config = NewServer ''tcp://:8545'' ''tcp://:8546'' ''off'' ''off'' ''eth'' ''eth''"

theorem OnStop_leaves_websocket_witness:
  "\<exists>s s'. OnStart (\<lambda>r ns svc. Some (r @ [svc])) [] free_address sample_config (idle_server {}) = (True, s) \<and> OnStop s = Some s' \<and>
    sv_open s' = {''tcp://:8546''} \<and> \<not> fst (OnStart (\<lambda>r ns svc. Some (r @ [svc])) [] free_address sample_config s')"
proof -
  have cfg: "sc_rpcAddr sample_config = ''tcp://:8545''" "sc_wsAddr sample_config = ''tcp://:8546''" "sc_rpcHttpsAddr sample_config = ''off''"
    "sc_wssAddr sample_config = ''off''" by (simp_all add: sample_config_def NewServer_def)
  have reg: "\<exists>r'. registerApis (\<lambda>r ns svc. Some (r @ [svc])) r nss apis = (True, r')" for r nss and apis :: "(string \<times> service) list"
    by (induction apis arbitrary: r) auto
  obtain s where s: "OnStart (\<lambda>r ns svc. Some (r @ [svc])) [] free_address sample_config (idle_server {}) = (True, s)"
    using reg [of "[]" "sc_httpAPIs sample_config" GetAPIs] reg [of "[]" "sc_wsAPIs sample_config" GetAPIs]
    by (auto simp: OnStart_def startHTTPAndHTTPS_def startWSAndWSS_def Listen_def idle_server_def free_address_def cfg Let_def)
  from OnStop_leaves_websocket [OF fa.network_axioms s] s show ?thesis by (auto simp: cfg)
qed

text \<open>
  C19: \<open>eth_sendRawTransaction\<close> answers with a hash exactly when the bytes are a transaction that
  Tendermint lets pass and the application admits; then it is the hash of that transaction, its
  sender was recovered from its signature and exists, it has the sender's next nonce, its gas
  and its price are within the limits, and the sender can pay for the gas.
\<close>

theorem sendRawTransaction_admits:
  assumes "mempool K" and "cache_ok K app" and "is_iter it" and same: "\<And>bs tx. lib_decode L bs = Inr tx \<longleftrightarrow> DecodeRLP K bs = Some tx"
    and M: "mp_CheckTx M = (\<lambda>req. snd (CheckTx it K E c app False req))"
  shows "(eth_SendRawTransaction L (rpc\<lparr>ra_BroadcastTxSync := BroadcastTxSync M\<rparr>) data = Inr h \<longleftrightarrow>
      (\<exists>tx. DecodeRLP K data = Some tx \<and> h = lib_hash L tx \<and> mp_refuse M data = None \<and> rc_Code (snd (CheckTx it K E c app False data)) = CodeTypeOK)) \<and>
    (eth_SendRawTransaction L (rpc\<lparr>ra_BroadcastTxSync := BroadcastTxSync M\<rparr>) data = Inr h \<longrightarrow>
      (\<exists>tx sender acc b. DecodeRLP K data = Some tx \<and> Signer_Sender K tx = Some sender \<and> GetAccount E c sender = Some acc \<and> t_Gas tx \<le> MaxTxGasLimit
        \<and> ucast (ap_lastMinGasPrice app) \<le> effective_price K tx
        \<and> t_Nonce tx = (case GetLatestNonce K (ap_frontier app) sender of None \<Rightarrow> AccNonce K acc | Some t \<Rightarrow> t)
        \<and> (case GetLatestNonce K (ap_frontier app) sender of None \<Rightarrow> b = Balance E acc | Some _ \<Rightarrow> GetLatestBalance K (ap_frontier app) sender = Some b)
        \<and> gas_fee K tx \<le> b))"
proof -
  have eq: "eth_SendRawTransaction L (rpc\<lparr>ra_BroadcastTxSync := BroadcastTxSync M\<rparr>) data = Inr h \<longleftrightarrow>
      (\<exists>tx. DecodeRLP K data = Some tx \<and> h = lib_hash L tx \<and> mp_refuse M data = None \<and> rc_Code (snd (CheckTx it K E c app False data)) = CodeTypeOK)"
  proof (cases "lib_decode L data")
    case (Inl err)
    then have "DecodeRLP K data = None" using same [of data] by (cases "DecodeRLP K data") auto
    with Inl show ?thesis by (simp add: eth_SendRawTransaction_def)
  next
    case (Inr tx)
    then have "DecodeRLP K data = Some tx" using same by blast
    with Inr show ?thesis
      by (auto simp: eth_SendRawTransaction_def bk_SendRawTx_def BroadcastTxSync_def M Let_def split: option.split)
  qed
  moreover have "\<exists>tx sender acc b. DecodeRLP K data = Some tx \<and> Signer_Sender K tx = Some sender \<and> GetAccount E c sender = Some acc \<and> t_Gas tx \<le> MaxTxGasLimit
        \<and> ucast (ap_lastMinGasPrice app) \<le> effective_price K tx
        \<and> t_Nonce tx = (case GetLatestNonce K (ap_frontier app) sender of None \<Rightarrow> AccNonce K acc | Some t \<Rightarrow> t)
        \<and> (case GetLatestNonce K (ap_frontier app) sender of None \<Rightarrow> b = Balance E acc | Some _ \<Rightarrow> GetLatestBalance K (ap_frontier app) sender = Some b)
        \<and> gas_fee K tx \<le> b" if sent: "eth_SendRawTransaction L (rpc\<lparr>ra_BroadcastTxSync := BroadcastTxSync M\<rparr>) data = Inr h"
  proof -
  from sent eq obtain tx where tx: "DecodeRLP K data = Some tx" "rc_Code (snd (CheckTx it K E c app False data)) = CodeTypeOK" by blast
  obtain x where "CheckTx it K E c app False data = (let (a, r) = CheckTx_uncached K E c app False data in (a\<lparr>ap_sigCache := x\<rparr>, r))"
    by (rule mempool.CheckTx_cached [OF assms(1-3)])
  then have "rc_Code (snd (CheckTx_uncached K E c app False data)) = CodeTypeOK" using tx(2) by (simp add: split_def Let_def)
  then obtain sender where "Signer_Sender K tx = Some sender" "rc_Code (snd (checkTxWithContext K E c app tx sender)) = CodeTypeOK"
    using tx(1) by (auto simp: CheckTx_uncached_def code_defs refuse_def Let_def split: if_splits option.splits)
  then show ?thesis
    using mempool.checkTx_accepted [OF assms(1), of E c app tx sender] tx(1) by (metis prod.collapse)
  qed
  ultimately show ?thesis by blast
qed

definition sample_lib :: "nat rpc_lib" where
  "sample_lib = demo_lib\<lparr>lib_decode := (\<lambda>bs. case DecodeRLP sample_check bs of None \<Rightarrow> Inl (GoError []) | Some tx \<Rightarrow> Inr tx)\<rparr>"

definition sample_pool :: tm_mempool where
  "sample_pool = \<lparr>mp_refuse = (\<lambda>tx. if length tx > 100 then Some (GoError ''tx too large'') else None),
     mp_CheckTx = (\<lambda>req. snd (CheckTx id sample_check mem_ext sample_check_ctx sample_app False req)),
     mp_Hash = (\<lambda>tx. word_of_int (int (length tx))), mp_String = (\<lambda>r. ''refused'')\<rparr>"

lemma sample_admitted: "rc_Code (snd (CheckTx id sample_check mem_ext sample_check_ctx sample_app False [3])) = CodeTypeOK"
  by (simp add: sample_check_def map_check_def sample_app_def sample_check_ctx_def mem_empty_def mem_ext_def CheckTx_def checkTxWithContext_def
      checkGasLimit_def Let_def sample_tx_def sigCacheAdd_def effective_price_def gas_fee_def code_defs refuse_def MaxTxGasLimit_def)

theorem sendRawTransaction_admits_witness:
  "eth_SendRawTransaction sample_lib (demo_app\<lparr>ra_BroadcastTxSync := BroadcastTxSync sample_pool\<rparr>) [3] = Inr (t_Hash (sample_tx 3)) \<and>
   (\<exists>tx sender acc. DecodeRLP sample_check [3] = Some tx \<and> Signer_Sender sample_check tx = Some sender \<and>
     GetAccount mem_ext sample_check_ctx sender = Some acc \<and> t_Gas tx \<le> MaxTxGasLimit)"
proof -
  have m: "mempool sample_check" unfolding sample_check_def by (rule mf.mempool_axioms)
  have same: "lib_decode sample_lib bs = Inr tx \<longleftrightarrow> DecodeRLP sample_check bs = Some tx" for bs tx
    by (simp add: sample_lib_def split: option.split)
  have M: "mp_CheckTx sample_pool = (\<lambda>req. snd (CheckTx id sample_check mem_ext sample_check_ctx sample_app False req))"
    by (simp add: sample_pool_def)
  have d: "DecodeRLP sample_check [3] = Some (sample_tx 3)" "lib_hash sample_lib (sample_tx 3) = t_Hash (sample_tx 3)" "mp_refuse sample_pool [3] = None"
    by (simp_all add: sample_check_def map_check_def sample_lib_def demo_lib_def sample_pool_def)
  note * = sendRawTransaction_admits [OF m sample_cache is_iter_id same M, of demo_app "[3]" "t_Hash (sample_tx 3)"]
  from * d sample_admitted
  have sent: "eth_SendRawTransaction sample_lib (demo_app\<lparr>ra_BroadcastTxSync := BroadcastTxSync sample_pool\<rparr>) [3] = Inr (t_Hash (sample_tx 3))"
    by metis
  with * show ?thesis by blast
qed

end
