(* ===== verification/Spec2Isabelle.thy ===== *)
theory Spec2Isabelle
  imports App_Restart App_Wait CrossChain Codec_Stream Watcher_Client Filters_Delivery RPC_Server
begin

text \<open>
  A verification development for the ZENIQ Smart Chain node, a Tendermint application that
  runs an EVM chain next to a UTXO main chain.

  \<^bold>\<open>The program.\<close> Tendermint calls the application (\<open>src/app\<close>): \<open>CheckTx\<close> for the mempool,
  then \<open>BeginBlock\<close>, \<open>DeliverTx\<close>, \<open>EndBlock\<close> and \<open>Commit\<close> for every block. \<open>Commit\<close> credits the
  transfers of the main chain (\<open>src/ccrpc\<close>), slashes and rewards validators, switches staking
  epochs (\<open>src/staking\<close>), and runs the transactions; a transaction to the staking contract or
  to the cross-chain contract (\<open>src/crosschain\<close>) executes Go code of the repository. All of it
  keeps its state in accounts and storage slots of the EVM context, encoded with generated
  MessagePack codecs. Users reach the node over JSON-RPC: the APIs (\<open>src/rpc\<close>) ask the backend
  (\<open>src/api\<close>) for the state at a height, for blocks, transactions and logs of the history, and
  for trial runs of a transaction; filters collect the events of new blocks for a client.

  \<^bold>\<open>The theories and what they model.\<close>
  \<^item> \<open>Go_Prelude\<close>, \<open>Go_Int64\<close>, \<open>Go_Heap\<close>: Go's integers as words, byte arrays, the option monad for
    panics, maps with an arbitrary order of iteration; signed 64-bit arithmetic and
    \<open>sort.Search\<close>; \<open>container/heap\<close>, with its contract in the locales \<open>heap_order\<close> and
    \<open>heap_total\<close>, interpreted for nominations.
  \<^item> \<open>Msgp\<close>, \<open>Msgp_Stream\<close>: the run-time of the codecs (locale \<open>msgp_runtime\<close>, interpreted on an
    implementation of the MessagePack format; its extensions \<open>msgp_stream_writer\<close>,
    \<open>msgp_stream_reader\<close> and \<open>msgp_sized\<close> for streams and sizes). \<open>Environment\<close>: the functions of the EVM module
    the code calls, as the record \<open>ext\<close>, with the laws the code relies on in the locales
    \<open>chain_ctx\<close>, \<open>chain_bank\<close>, \<open>chain_votes\<close>, all interpreted on an implementation over finite
    maps. \<open>Params\<close>: \<open>param/params.go\<close>.
  \<^item> \<open>Staking_Types\<close>: \<open>staking/types/types.go\<close>, the registry of validators, the active set and
    the updates for Tendermint. \<open>Staking_Codec\<close>, \<open>CC_Types\<close>: the encoders and decoders to and
    from byte slices in \<open>types_gen.go\<close>, over slices of pointers that may be nil (structs with the
    suffix \<open>_p\<close>); \<open>Codec_Stream\<close>: the ones for streams, and \<open>Msgsize\<close>.
    \<open>Staking_Store\<close>: the slots of the contract.
  \<^item> \<open>Staking_Governance\<close>, \<open>Staking_Contract\<close>, \<open>Staking_Rewards\<close>, \<open>Staking_Epoch\<close>: \<open>staking.go\<close> and
    \<open>xhedge.go\<close> in the order of the file: the minimum gas price, the calls of the contract and
    their dispatcher, slashing and the distribution of fees, elections and the epoch switch.
  \<^item> \<open>CrossChain\<close>: \<open>crosschain/cc.go\<close>, outputs recorded by epochs, redemption and burning.
  \<^item> \<open>CCRPC_Fifo\<close>, \<open>CCRPC\<close>, \<open>CCRPC_Transfers\<close>: \<open>ccrpc/fifo.go\<close>, \<open>ccrpc.go\<close> and the decoding of
    \<open>rpcclient.go\<close>: the queue of epochs over a key-value database (locale \<open>ordered_db\<close>), the
    constructor, the fetcher, the search for the block of a time, and the crediting of transfers (locales
    \<open>ccrpc_env\<close> and \<open>ccrpc_history\<close>); all three theories prove their lemmas in the locales and interpret them.
    \<open>Main_Client\<close>: the client of \<open>rpcclient.go\<close>, with the network as a function of the number of
    the request (locale \<open>height_source\<close>).
  \<^item> \<open>Main_Watcher\<close>, \<open>Watcher_Client\<close>: \<open>src/watcher\<close>, which turns finalized main-chain blocks into
    epochs with nominations: the building of epochs, then the requests of its client and its
    loops (locales \<open>main_node\<close> for the interface the watcher runs on, \<open>finalizing_net\<close> for the
    node behind the client, with a sublocale from the second to the first). The application
    does not start it any more and builds its epochs without nominations.
  \<^item> \<open>Eth_Tx\<close>, \<open>App_Config\<close>, \<open>App_CheckTx\<close>, \<open>App_Genesis\<close>, \<open>App_Block\<close>, \<open>App_Restart\<close>, \<open>App_Wait\<close>: the packing of signatures and
    numbers (\<open>internal/ethutils\<close>, \<open>internal/bigutils\<close>); the start-up checks; admission to the
    mempool (locale \<open>mempool\<close>); \<open>InitChain\<close> and the records shown to users (\<open>genesis.go\<close>,
    \<open>validators.go\<close>); the ABCI calls of a block (locale \<open>chain_system\<close>) in \<open>app.go\<close>;
    the start of the node on its stores (locale \<open>node_laws\<close>); what \<open>BeginBlock\<close> waits for.
  \<^item> \<open>Toml\<close>, \<open>Node_Config\<close>, \<open>Node_Staking\<close>, \<open>Node_Genesis\<close>: the configuration of the application
    (\<open>param/config.go\<close>, \<open>toml.go\<close>) as the text of its file, with the commands that read and
    change it, over a reader of TOML and a decoder (locales \<open>toml_lib\<close> and \<open>config_decoder\<close>); the command that prints a signed call of the staking contract,
    with the parsing of its flags and the packing of the call (locale \<open>wallet_laws\<close>); the
    commands that make genesis files and test networks, without the directories and the
    copies of Tendermint's configuration file they write (locale \<open>genesis_laws\<close>). All are in
    \<open>cmd/zeniqsmartd\<close>.
  \<^item> \<open>Evm_Types\<close>, \<open>API_Backend\<close>: the blocks, transactions and logs of the history, and
    \<open>api/backend.go\<close> over a history and a runner of transactions (the records \<open>history\<close> and
    \<open>rpc_app\<close>), with \<open>RunTxForRpc\<close> and \<open>RunTxForSbchRpc\<close> of \<open>app.go\<close>.
  \<^item> \<open>RPC_Calls\<close>, \<open>RPC_Eth\<close>, \<open>RPC_Sbch\<close>: \<open>rpc/api\<close>, the rebuilding of the tree of internal calls
    (\<open>internal_calls.go\<close>), the \<open>eth\<close> API (\<open>eth_api.go\<close>, \<open>eth_api_utils.go\<close>, \<open>errors.go\<close>) and the
    \<open>zeniq\<close> API (\<open>sbch_api.go\<close>, \<open>sbch_rpc_types.go\<close>). \<open>RPC_Server\<close>: the way of a raw transaction
    to the mempool (\<open>api/tmnode.go\<close>), the small APIs, and the start and stop of the listeners
    (\<open>rpc/server.go\<close>, locale \<open>network\<close>).
  \<^item> \<open>Filters_Match\<close>, \<open>Filters_Events\<close>, \<open>Filters_Delivery\<close>: \<open>rpc/api/filters\<close>, which log a filter
    matches and the search over blocks (locale \<open>log_store\<close>); the event
    system, the goroutines of the filters, their callers and the timeout loop as the step
    relation \<open>fstep\<close> over \<open>fsys\<close>; what the filters deliver in every run.

  \<^bold>\<open>How state and operations correspond.\<close> A Go struct is a record, a pointer into a slice an
  index, an operation on the context a function that takes and returns the context, a method
  of \<open>StakingContractExecutor\<close> a function on \<open>staking_state\<close>, which is the context and the
  package variable \<open>readonlyStakingInfo\<close>. \<open>None\<close> is a panic. Code outside the repository is an
  argument: a record of functions, with documented behaviour as locale assumptions, never a
  definition. Goroutines are steps of one relation: a channel without buffer is a step of the
  sender and the receiver together, the mutex of the filters a condition on the step.

  \<^bold>\<open>What is shown.\<close>
  \<^item> Coins: every call of the staking contract, the distribution of fees, slashing, a valid
    epoch switch and a block conserve coins and keep the contract's balance in step with what
    it owes; the cross-chain contract keeps the peg, less the outputs deleted by redemptions
    whose sender could not pay; every transfer of the main chain is credited exactly once in
    every run of fetches, blocks, restarts and crashes.
  \<^item> State: invariants of the registry, the governance and the mempool under every operation,
    by rule induction over runs where operations interleave; independence of the order in
    which Go visits its maps; a node that stops after \<open>Commit\<close> and starts again is in the state
    of one that went on, but for the seed, the signatures, the frontier and the cache of senders.
  \<^item> Refinement and equivalence: the stored proposal against an abstract governance machine,
    the queue against an ordered map, the update list against the change of the validator
    set, the call printed by the command line against what its flags ask for, the
    genesis file made by the commands against the first state of the chain,
    the search for a block against a linear search, the cache of senders against none, the
    codecs for streams against the ones for slices, up to the map keys a stream refuses.
  \<^item> RPC: the internal calls of a transaction come back as the tree they were made in; a query
    for the logs of a range of heights returns exactly the matching ones; a filter loses, repeats and
    reorders nothing in any interleaving and can always catch up while the timeout loop does
    not hold the mutex; calls run on the state of the height asked for; a
    raw transaction is answered with a hash exactly when the mempool admits it.
  \<^item> Round trips of the codecs and the slots; exact bounds of gas prices and burnt coins; the
    errors and panics of each part, with the state they leave behind.
  \<^item> Where the code does not do what it means to, a theorem says what it does instead: an epoch
    that is not valid pays rewards twice, slashing is undone by the fee distribution of the
    same block, retired voters can overdraw the fee, initial votes count for nothing, a
    registration without coins stays, and no block ever reports a change of the validators;
    the logs of a block asked for by its hash are not found, the timeout of a filter of pending
    transactions can block the event loop for ever, and a signature loses most of its \<open>V\<close>; the
    configuration that the first start writes has another table of EVM revisions than the one
    it runs with, and is not read back with a quote in a password; the default gas price of the
    command line is refused by the mempool, and its default introduction is registered as zero
    bytes; a stopped RPC server still listens for websockets.

  \<^bold>\<open>Bounds and termination.\<close> Nothing uses fuel: loops are structural recursion, or recursive
  functions with a measure (the searches in \<open>CCRPC\<close> run on heights, which decrease or approach
  a bound), or \<open>partial_function (option)\<close> where a loop may run for ever (the search over
  blocks), with its return proved for every range; the endless loops of the fetcher and of the filters are
  steps of a run. Hypotheses on sizes say that
  sums stay below \<open>2^256\<close> and lists below \<open>2^32\<close> entries, the limit of the encoding. Every
  theorem with hypotheses is followed by an instance on a small concrete chain.

  \<^bold>\<open>Not modelled.\<close> The search of a filter in indexed sections, which the backend never has; the
  capacity of the channels of the watcher, which are lists of what was sent; JSON
  and the handling of connections in the RPC server; the stores, the execution engine and Tendermint, which
  are other modules; of the command line the start of the process and the generation of keys,
  which are files and library calls, and \<open>rollback\<close>, which nothing calls; the load generator, the
  helpers of the tests, and the fixtures for a contract of the EVM module in \<open>src/seps\<close>.
\<close>

end
